(* ===== verification/Prelude.thy ===== *)
theory Prelude
  imports Main "HOL-Library.Word" "HOL-Library.Signed_Division"
begin

text \<open>
  Shared vocabulary of the development: the C integer types, the Linux error codes, and the
  generic lemmas on machine words, masks and page arithmetic that several components use.
\<close>

unbundle bit_operations_syntax

section \<open>C types\<close>

type_synonym u8 = "8 word"
type_synonym u16 = "16 word"
type_synonym u32 = "32 word"
type_synonym u64 = "64 word"

text \<open>The error numbers the modelled functions return (as negative ints in C).\<close>

datatype errno = ENOMEM | EFAULT | EINVAL | EAGAIN | ERANGE | ENODEV | ENXIO | EADDRINUSE
  | ETIMEDOUT | EIO | EPERM | ENOTSUPP | ENOENT | ENODATA | EPROBE_DEFER | EBUSY

text \<open>\<open>s32\<close> is an int result brought back to the 32 bits of the type (the kernel builds with wrap-around).\<close>

definition s32 :: "int \<Rightarrow> int" where
  "s32 x = sint (word_of_int x :: u32)"

lemma s32_id: "- (2 ^ 31) \<le> x \<Longrightarrow> x < 2 ^ 31 \<Longrightarrow> s32 x = x"
  by (simp add: s32_def sint_sbintrunc' signed_take_bit_int_eq_self)

text \<open>
  A C function that returns 0 or a negative error number, or a value or an error pointer,
  returns an element of \<open>errno + 'a\<close>.
\<close>

type_synonym 'a result = "errno + 'a"

section \<open>Collections of facts\<close>

named_theorems masks "bits of the masks and of the flags a register or table entry is made of"
named_theorems frame "fields and entries that an operation leaves unchanged"
named_theorems wf_intros "operations that keep a well-formedness invariant"

section \<open>Masks\<close>

text \<open>\<open>GENMASK(h, l)\<close> of \<open>linux/bits.h\<close>: bits \<open>l\<close> up to and including \<open>h\<close>.\<close>

definition GENMASK :: "nat \<Rightarrow> nat \<Rightarrow> 'a::len word" where
  "GENMASK h l = push_bit l (mask (Suc h - l))"

lemma bit_GENMASK [masks]:
  "bit (GENMASK h l :: 'a::len word) n \<longleftrightarrow> l \<le> n \<and> n \<le> h \<and> n < LENGTH('a)"
  by (auto simp: GENMASK_def bit_simps)

text \<open>\<open>BIT(n)\<close>.\<close>

definition BIT :: "nat \<Rightarrow> 'a::len word" where
  "BIT n = push_bit n 1"

lemma bit_BIT [masks]: "bit (BIT k :: 'a::len word) n \<longleftrightarrow> n = k \<and> n < LENGTH('a)"
  by (auto simp: BIT_def bit_simps)

lemma and_BIT_iff [simp]:
  "n < LENGTH('a) \<Longrightarrow> (w AND BIT n \<noteq> 0) = bit (w :: 'a::len word) n"
  "n < LENGTH('a) \<Longrightarrow> (w AND BIT n = 0) = (\<not> bit (w :: 'a::len word) n)"
  by (simp_all add: BIT_def bit_iff_and_push_bit_not_eq_0)

lemma bit_word_less: "bit (w :: 'a::len word) n \<Longrightarrow> n < LENGTH('a)"
  by (rule ccontr) (simp add: bit_word_def impossible_bit)

section \<open>Registers with a mask for writing\<close>

text \<open>Writing such a register changes the bits of the lower half that are set in the upper one, which reads as zero.\<close>

definition hiword :: "u32 \<Rightarrow> u32 \<Rightarrow> u32" where
  "hiword old v = (old AND NOT (drop_bit 16 v)) OR (v AND drop_bit 16 v)"

lemma bit_hiword: "n < 16 \<Longrightarrow> bit (hiword old v) n \<longleftrightarrow> (if bit v (n + 16) then bit v n else bit old n)"
  by (auto simp: hiword_def bit_simps add.commute)

lemma upper_zero: "drop_bit 16 (v :: u32) = 0 \<Longrightarrow> 16 \<le> n \<Longrightarrow> \<not> bit v n"
proof -
  assume a: "drop_bit 16 v = 0" "16 \<le> n"
  have "\<not> bit (drop_bit 16 v) (n - 16)" by (simp add: a(1))
  then show ?thesis using a(2) by (simp only: bit_drop_bit_eq comp_apply le_add_diff_inverse) simp
qed


lemma take_hiword: "take_bit 16 (hiword (take_bit 16 old) v) = hiword (take_bit 16 old) v"
  by (rule bit_word_eqI) (auto simp: hiword_def bit_simps dest: bit_imp_le_length)

text \<open>Widening.\<close>

lemma unat_ucast_u32 [simp]: "unat (ucast (b :: u32) :: u64) = unat b"
proof -
  have "unat b < 2 ^ 64" using unsigned_less [of b, where ?'a = nat] by simp
  then show ?thesis by (simp add: unsigned_ucast_eq take_bit_nat_eq_self)
qed

section \<open>Pages of words\<close>

text \<open>
  Physical memory is a map from the address of an aligned 32-bit word to the word; \<open>elem p k\<close> is
  \<open>&p[k]\<close> for a pointer \<open>p\<close> to such words. A page holds 1024 of them.
\<close>

definition elem :: "u64 \<Rightarrow> nat \<Rightarrow> u64" where
  "elem p k = p + 4 * of_nat k"

definition page_aligned :: "u64 \<Rightarrow> bool" where
  "page_aligned a \<longleftrightarrow> a AND mask 12 = 0"

lemma page_aligned_unat: "page_aligned a \<longleftrightarrow> unat a mod 4096 = 0"
proof -
  have "unat (a AND mask 12) = unat a mod 4096"
    by (simp only: take_bit_eq_mask [symmetric] unat_mod take_bit_eq_mod) simp
  then show ?thesis by (simp add: page_aligned_def flip: unat_eq_0)
qed

lemma elem_0 [simp]: "elem p 0 = p"
  by (simp add: elem_def)

lemma elem_elem [simp]: "elem (elem p j) k = elem p (j + k)"
  by (simp add: elem_def algebra_simps)

lemma page_aligned_bound: "page_aligned b \<Longrightarrow> unat b \<le> 2 ^ 64 - 4096"
proof -
  assume "page_aligned b"
  then obtain q where q: "unat b = 4096 * q" by (auto simp: page_aligned_unat)
  have "unat b < 2 ^ 64" using unsigned_less [of b] by simp
  with q show ?thesis by simp
qed

lemma unat_elem:
  assumes "page_aligned b" "k < 1024"
  shows "unat (elem b k) = unat b + 4 * k"
proof -
  have k: "unat (4 * of_nat k :: u64) = 4 * k"
    using assms(2) by (simp add: unat_word_ariths unat_of_nat)
  have "unat b + 4 * k < 2 ^ 64" using page_aligned_bound [OF assms(1)] assms(2) by simp
  then show ?thesis by (simp add: elem_def unat_word_ariths(1) k)
qed

text \<open>Which words of which page lie in the window of \<open>n\<close> words that starts at word \<open>j\<close> of \<open>p\<close>.\<close>

lemma elem_window:
  assumes b: "page_aligned b" "k < 1024" and p: "page_aligned p" "j + n \<le> 1024"
  shows "unat (elem b k - elem p j) < 4 * n \<longleftrightarrow> b = p \<and> j \<le> k \<and> k < j + n"
proof (cases "n = 0")
  case False
  then have j: "j < 1024" using p(2) by simp
  obtain q where q: "unat b = 4096 * q" using b(1) by (auto simp: page_aligned_unat)
  obtain r where r: "unat p = 4096 * r" using p(1) by (auto simp: page_aligned_unat)
  have eq: "b = p \<longleftrightarrow> q = r" using q r by (simp add: word_unat_eq_iff)
  have "unat (elem b k - elem p j)
      = (if 4096 * r + 4 * j \<le> 4096 * q + 4 * k then 4096 * q + 4 * k - (4096 * r + 4 * j)
         else 2 ^ 64 + (4096 * q + 4 * k) - (4096 * r + 4 * j))"
    using unat_elem [OF b] unat_elem [OF p(1) j] q r by (auto simp: unat_sub_if')
  moreover have "4096 * r \<le> 2 ^ 64 - (4096 :: nat)" "4096 * q \<le> 2 ^ 64 - (4096 :: nat)"
    using page_aligned_bound [OF b(1)] page_aligned_bound [OF p(1)] q r by simp_all
  ultimately show ?thesis
    using False b(2) p(2) unfolding eq by (cases "q < r"; cases "r < q") (auto split: if_splits)
qed (use assms in simp)

lemma elem_eq_iff:
  assumes "page_aligned b" "k < 1024" "page_aligned p" "j < 1024"
  shows "elem b k = elem p j \<longleftrightarrow> b = p \<and> k = j"
proof -
  have "elem b k = elem p j \<longleftrightarrow> unat (elem b k - elem p j) < 4 * 1 \<and> elem b k = elem p j" by auto
  then show ?thesis
    using elem_window [OF assms(1,2,3), of j 1] assms(4) by auto
qed

section \<open>Polling\<close>

text \<open>
  \<open>readx_poll_timeout\<close>: sample until the condition holds or the time limit has passed; the last
  sample decides. The device runs on while the loop sleeps.
\<close>

fun poll_timeout :: "nat \<Rightarrow> ('s \<Rightarrow> bool) \<Rightarrow> ('s \<Rightarrow> 's) \<Rightarrow> 's \<Rightarrow> 's \<times> bool" where
  "poll_timeout 0 cond sleep s = (s, cond s)"
| "poll_timeout (Suc n) cond sleep s =
     (if cond s then (s, True) else poll_timeout n cond sleep (sleep s))"

lemma poll_timeout_cond:
  "snd (poll_timeout n cond sleep s) \<longleftrightarrow> cond (fst (poll_timeout n cond sleep s))"
  by (induction n arbitrary: s) auto

lemma poll_timeout_live:
  "k \<le> n \<Longrightarrow> cond ((sleep ^^ k) s) \<Longrightarrow> snd (poll_timeout n cond sleep s)"
proof (induction n arbitrary: k s)
  case (Suc n)
  show ?case
  proof (cases k)
    case 0
    with Suc.prems show ?thesis by simp
  next
    case (Suc k')
    with Suc.prems Suc.IH [of k' "sleep s"] show ?thesis by (simp add: funpow_swap1)
  qed
qed simp

text \<open>Where the loop ends: after \<open>k\<close> turns, in none of which before the condition held.\<close>

lemma poll_timeout_reach:
  "\<exists>k \<le> n. fst (poll_timeout n cond sleep s) = (sleep ^^ k) s \<and> (\<forall>j < k. \<not> cond ((sleep ^^ j) s))"
proof (induction n arbitrary: s)
  case (Suc n)
  show ?case
  proof (cases "cond s")
    case True
    then show ?thesis by (intro exI [of _ 0]) simp
  next
    case False
    obtain k where k: "k \<le> n" "fst (poll_timeout n cond sleep (sleep s)) = (sleep ^^ k) (sleep s)"
      "\<forall>j < k. \<not> cond ((sleep ^^ j) (sleep s))"
      using Suc by blast
    have "\<not> cond ((sleep ^^ j) s)" if "j < Suc k" for j
      using that k(3) False by (cases j) (simp_all add: funpow_swap1)
    then show ?thesis
      using False k(1,2) by (intro exI [of _ "Suc k"]) (simp add: funpow_swap1)
  qed
qed simp

end
