(* ===== verification/Rk_Iommu_Format.thy ===== *)
theory Rk_Iommu_Format
  imports Prelude
begin

text \<open>
  The page-table entry formats of the Rockchip IOMMU
  (\<open>common/sdk_linux/drivers/iommu/rockchip-iommu.c\<close>): directory entries (DTE), page entries
  (PTE) and the three fields of an I/O virtual address, in the 32-bit format of version 1 and in
  the 40-bit format of version 2. The locale \<open>pt_format\<close> states what the table code relies on;
  it is interpreted on both formats.
\<close>

section \<open>Constants\<close>

definition DT_LO_MASK :: u64 where "DT_LO_MASK = 0xfffff000"
definition DT_HI_MASK :: u64 where "DT_HI_MASK = GENMASK 39 32"
definition DT_SHIFT :: nat where "DT_SHIFT = 28"
definition DTE_BASE_HI_MASK :: u64 where "DTE_BASE_HI_MASK = GENMASK 11 4"
definition PAGE_DESC_LO_MASK :: u64 where "PAGE_DESC_LO_MASK = 0xfffff000"
definition PAGE_DESC_HI_MASK1 :: u64 where "PAGE_DESC_HI_MASK1 = GENMASK 35 32"
definition PAGE_DESC_HI_MASK2 :: u64 where "PAGE_DESC_HI_MASK2 = GENMASK 39 36"
definition DTE_HI_MASK1 :: u64 where "DTE_HI_MASK1 = GENMASK 11 8"
definition DTE_HI_MASK2 :: u64 where "DTE_HI_MASK2 = GENMASK 7 4"
definition PAGE_DESC_HI_SHIFT1 :: nat where "PAGE_DESC_HI_SHIFT1 = 32 - 8"
definition PAGE_DESC_HI_SHIFT2 :: nat where "PAGE_DESC_HI_SHIFT2 = 36 - 4"

definition RK_DTE_PT_ADDRESS_MASK :: u64 where "RK_DTE_PT_ADDRESS_MASK = 0xfffff000"
definition RK_DTE_PT_ADDRESS_MASK_V2 :: u64 where "RK_DTE_PT_ADDRESS_MASK_V2 = 0xfffffff0"
definition RK_DTE_PT_VALID :: u32 where "RK_DTE_PT_VALID = BIT 0"
definition RK_PTE_PAGE_ADDRESS_MASK :: u64 where "RK_PTE_PAGE_ADDRESS_MASK = 0xfffff000"
definition RK_PTE_PAGE_ADDRESS_MASK_V2 :: u64 where "RK_PTE_PAGE_ADDRESS_MASK_V2 = 0xfffffff0"
definition RK_PTE_PAGE_FLAGS_MASK :: u32 where "RK_PTE_PAGE_FLAGS_MASK = 0x000001fe"
definition RK_PTE_PAGE_WRITABLE :: u32 where "RK_PTE_PAGE_WRITABLE = BIT 2"
definition RK_PTE_PAGE_READABLE :: u32 where "RK_PTE_PAGE_READABLE = BIT 1"
definition RK_PTE_PAGE_VALID :: u32 where "RK_PTE_PAGE_VALID = BIT 0"

text \<open>\<open>linux/iommu.h\<close>.\<close>
definition IOMMU_READ :: u32 where "IOMMU_READ = BIT 0"
definition IOMMU_WRITE :: u32 where "IOMMU_WRITE = BIT 1"

text \<open>The contiguous hexadecimal masks, as ranges of bits.\<close>

lemma page_mask_GENMASK: "(0xfffff000 :: u64) = GENMASK 31 12"
  by (simp add: GENMASK_def mask_eq_exp_minus_1)

lemma nybble_mask_GENMASK: "(0xfffffff0 :: u64) = GENMASK 31 4"
  by (simp add: GENMASK_def mask_eq_exp_minus_1)

lemmas entry_masks [masks] =
  DT_LO_MASK_def [unfolded page_mask_GENMASK] DT_HI_MASK_def DTE_BASE_HI_MASK_def
  PAGE_DESC_LO_MASK_def [unfolded page_mask_GENMASK] PAGE_DESC_HI_MASK1_def PAGE_DESC_HI_MASK2_def
  DTE_HI_MASK1_def DTE_HI_MASK2_def
  RK_DTE_PT_ADDRESS_MASK_def [unfolded page_mask_GENMASK]
  RK_DTE_PT_ADDRESS_MASK_V2_def [unfolded nybble_mask_GENMASK]
  RK_PTE_PAGE_ADDRESS_MASK_def [unfolded page_mask_GENMASK]
  RK_PTE_PAGE_ADDRESS_MASK_V2_def [unfolded nybble_mask_GENMASK]
  RK_DTE_PT_VALID_def RK_PTE_PAGE_WRITABLE_def RK_PTE_PAGE_READABLE_def RK_PTE_PAGE_VALID_def
  IOMMU_READ_def IOMMU_WRITE_def DT_SHIFT_def PAGE_DESC_HI_SHIFT1_def PAGE_DESC_HI_SHIFT2_def

section \<open>Directory entries\<close>

definition rk_dte_pt_address :: "u32 \<Rightarrow> u64" where
  "rk_dte_pt_address dte = ucast dte AND RK_DTE_PT_ADDRESS_MASK"

definition rk_dte_pt_address_v2 :: "u32 \<Rightarrow> u64" where
  "rk_dte_pt_address_v2 dte =
     (let dte_v2 = (ucast dte :: u64) in
      push_bit PAGE_DESC_HI_SHIFT2 (dte_v2 AND DTE_HI_MASK2)
      OR push_bit PAGE_DESC_HI_SHIFT1 (dte_v2 AND DTE_HI_MASK1)
      OR (dte_v2 AND PAGE_DESC_LO_MASK))"

definition rk_dte_is_pt_valid :: "u32 \<Rightarrow> bool" where
  "rk_dte_is_pt_valid dte \<longleftrightarrow> dte AND RK_DTE_PT_VALID \<noteq> 0"

definition rk_mk_dte :: "u64 \<Rightarrow> u32" where
  "rk_mk_dte pt_dma = ucast ((pt_dma AND RK_DTE_PT_ADDRESS_MASK) OR ucast RK_DTE_PT_VALID)"

definition rk_mk_dte_v2 :: "u64 \<Rightarrow> u32" where
  "rk_mk_dte_v2 pt_dma =
     (let pt_dma' = (pt_dma AND PAGE_DESC_LO_MASK)
            OR drop_bit PAGE_DESC_HI_SHIFT1 (pt_dma AND PAGE_DESC_HI_MASK1)
            OR drop_bit PAGE_DESC_HI_SHIFT2 (pt_dma AND PAGE_DESC_HI_MASK2)
      in ucast ((pt_dma' AND RK_DTE_PT_ADDRESS_MASK_V2) OR ucast RK_DTE_PT_VALID))"

section \<open>Page entries\<close>

definition rk_pte_page_address :: "u32 \<Rightarrow> u64" where
  "rk_pte_page_address pte = ucast pte AND RK_PTE_PAGE_ADDRESS_MASK"

definition rk_pte_page_address_v2 :: "u32 \<Rightarrow> u64" where
  "rk_pte_page_address_v2 pte =
     (let pte_v2 = (ucast pte :: u64) in
      push_bit PAGE_DESC_HI_SHIFT2 (pte_v2 AND DTE_HI_MASK2)
      OR push_bit PAGE_DESC_HI_SHIFT1 (pte_v2 AND DTE_HI_MASK1)
      OR (pte_v2 AND PAGE_DESC_LO_MASK))"

definition rk_pte_is_page_valid :: "u32 \<Rightarrow> bool" where
  "rk_pte_is_page_valid pte \<longleftrightarrow> pte AND RK_PTE_PAGE_VALID \<noteq> 0"

definition rk_mk_pte :: "u64 \<Rightarrow> u32 \<Rightarrow> u32" where
  "rk_mk_pte page prot =
     (let flags = (if prot AND IOMMU_READ \<noteq> 0 then RK_PTE_PAGE_READABLE else 0)
            OR (if prot AND IOMMU_WRITE \<noteq> 0 then RK_PTE_PAGE_WRITABLE else 0);
          page' = page AND RK_PTE_PAGE_ADDRESS_MASK
      in ucast (page' OR ucast flags OR ucast RK_PTE_PAGE_VALID))"

definition rk_mk_pte_v2 :: "u64 \<Rightarrow> u32 \<Rightarrow> u32" where
  "rk_mk_pte_v2 page prot =
     (let flags = (if prot AND IOMMU_READ \<noteq> 0 then RK_PTE_PAGE_READABLE else 0)
            OR (if prot AND IOMMU_WRITE \<noteq> 0 then RK_PTE_PAGE_WRITABLE else 0);
          page' = (page AND PAGE_DESC_LO_MASK)
            OR drop_bit PAGE_DESC_HI_SHIFT1 (page AND PAGE_DESC_HI_MASK1)
            OR drop_bit PAGE_DESC_HI_SHIFT2 (page AND PAGE_DESC_HI_MASK2);
          page'' = page' AND RK_PTE_PAGE_ADDRESS_MASK_V2
      in ucast (page'' OR ucast flags OR ucast RK_PTE_PAGE_VALID))"

definition rk_mk_pte_invalid :: "u32 \<Rightarrow> u32" where
  "rk_mk_pte_invalid pte = pte AND NOT RK_PTE_PAGE_VALID"

section \<open>I/O virtual addresses\<close>

definition RK_IOVA_DTE_MASK :: u64 where "RK_IOVA_DTE_MASK = 0xffc00000"
definition RK_IOVA_DTE_SHIFT :: nat where "RK_IOVA_DTE_SHIFT = 22"
definition RK_IOVA_PTE_MASK :: u64 where "RK_IOVA_PTE_MASK = 0x003ff000"
definition RK_IOVA_PTE_SHIFT :: nat where "RK_IOVA_PTE_SHIFT = 12"
definition RK_IOVA_PAGE_MASK :: u64 where "RK_IOVA_PAGE_MASK = 0x00000fff"
definition RK_IOVA_PAGE_SHIFT :: nat where "RK_IOVA_PAGE_SHIFT = 0"

definition rk_iova_dte_index :: "u64 \<Rightarrow> u32" where
  "rk_iova_dte_index iova = drop_bit RK_IOVA_DTE_SHIFT (ucast (iova AND RK_IOVA_DTE_MASK))"

definition rk_iova_pte_index :: "u64 \<Rightarrow> u32" where
  "rk_iova_pte_index iova = drop_bit RK_IOVA_PTE_SHIFT (ucast (iova AND RK_IOVA_PTE_MASK))"

definition rk_iova_page_offset :: "u64 \<Rightarrow> u32" where
  "rk_iova_page_offset iova = drop_bit RK_IOVA_PAGE_SHIFT (ucast (iova AND RK_IOVA_PAGE_MASK))"

section \<open>Round trips\<close>

lemma pte_valid_bit [simp]: "rk_pte_is_page_valid pte \<longleftrightarrow> bit pte 0"
  by (simp add: rk_pte_is_page_valid_def RK_PTE_PAGE_VALID_def)

lemma dte_valid_bit [simp]: "rk_dte_is_pt_valid dte \<longleftrightarrow> bit dte 0"
  by (simp add: rk_dte_is_pt_valid_def RK_DTE_PT_VALID_def)

lemma rk_mk_dte_valid: "bit (rk_mk_dte a) 0"
  by (simp add: rk_mk_dte_def bit_simps masks)

lemma rk_mk_dte_v2_valid: "bit (rk_mk_dte_v2 a) 0"
  by (simp add: rk_mk_dte_v2_def Let_def bit_simps masks)

lemma bit_rk_dte_pt_address [masks]:
  "bit (rk_dte_pt_address d) n \<longleftrightarrow> 12 \<le> n \<and> n \<le> 31 \<and> bit d n"
  by (auto simp: rk_dte_pt_address_def bit_simps masks)

lemma bit_rk_dte_pt_address_v2 [masks]:
  "bit (rk_dte_pt_address_v2 d) n \<longleftrightarrow>
     12 \<le> n \<and> n \<le> 31 \<and> bit d n \<or> 32 \<le> n \<and> n \<le> 35 \<and> bit d (n - 24)
       \<or> 36 \<le> n \<and> n \<le> 39 \<and> bit d (n - 32)"
  by (cases "n < 32"; cases "n < 36"; cases "n < 40"; cases "n < 12")
    (auto simp: rk_dte_pt_address_v2_def Let_def bit_simps masks conj_ac)

lemma rk_pte_page_address_eq: "rk_pte_page_address = rk_dte_pt_address"
  by (simp add: fun_eq_iff rk_pte_page_address_def rk_dte_pt_address_def
      RK_PTE_PAGE_ADDRESS_MASK_def RK_DTE_PT_ADDRESS_MASK_def)

lemma rk_pte_page_address_v2_eq: "rk_pte_page_address_v2 = rk_dte_pt_address_v2"
  by (simp add: fun_eq_iff rk_pte_page_address_v2_def rk_dte_pt_address_v2_def)

lemma bit_rk_mk_dte:
  "bit (rk_mk_dte a) n \<longleftrightarrow> n = 0 \<or> 12 \<le> n \<and> n \<le> 31 \<and> bit a n"
  by (auto simp: rk_mk_dte_def bit_simps masks)

lemma bit_rk_mk_dte_v2:
  "bit (rk_mk_dte_v2 a) n \<longleftrightarrow>
     n = 0 \<or> 12 \<le> n \<and> n \<le> 31 \<and> bit a n \<or> 8 \<le> n \<and> n \<le> 11 \<and> bit a (n + 24)
       \<or> 4 \<le> n \<and> n \<le> 7 \<and> bit a (n + 32)"
  by (cases "n = 0"; cases "n < 4"; cases "n < 8"; cases "n < 12"; cases "n < 32")
    (simp_all add: rk_mk_dte_v2_def Let_def bit_simps masks add.commute)

lemma bit_rk_mk_pte:
  "bit (rk_mk_pte p prot) n \<longleftrightarrow>
     n = 0 \<or> n = 1 \<and> bit prot 0 \<or> n = 2 \<and> bit prot 1 \<or> 12 \<le> n \<and> n \<le> 31 \<and> bit p n"
  by (auto simp: rk_mk_pte_def Let_def bit_simps masks)

lemma bit_rk_mk_pte_v2:
  "bit (rk_mk_pte_v2 p prot) n \<longleftrightarrow>
     n = 0 \<or> n = 1 \<and> bit prot 0 \<or> n = 2 \<and> bit prot 1 \<or> 12 \<le> n \<and> n \<le> 31 \<and> bit p n
       \<or> 8 \<le> n \<and> n \<le> 11 \<and> bit p (n + 24) \<or> 4 \<le> n \<and> n \<le> 7 \<and> bit p (n + 32)"
  by (cases "n = 0"; cases "n < 4"; cases "n < 8"; cases "n < 12"; cases "n < 32")
    (auto simp: rk_mk_pte_v2_def Let_def bit_simps masks add.commute)

lemma bit_rk_mk_pte_invalid: "bit (rk_mk_pte_invalid pte) n \<longleftrightarrow> n \<noteq> 0 \<and> bit pte n"
  by (auto simp: rk_mk_pte_invalid_def bit_simps masks dest: bit_word_less)

text \<open>Building an entry and reading its address back keeps exactly the bits the format holds.\<close>

lemma rk_dte_roundtrip: "rk_dte_pt_address (rk_mk_dte a) = a AND GENMASK 31 12"
  by (rule bit_word_eqI) (auto simp: bit_rk_mk_dte bit_simps masks)

lemma rk_dte_roundtrip_v2: "rk_dte_pt_address_v2 (rk_mk_dte_v2 a) = a AND GENMASK 39 12"
  by (rule bit_word_eqI, rename_tac n, case_tac "n < 12"; case_tac "n < 32"; case_tac "n < 36";
      case_tac "n < 40") (simp_all add: bit_rk_mk_dte_v2 bit_simps masks, auto?)

lemma rk_pte_roundtrip: "rk_pte_page_address (rk_mk_pte p prot) = p AND GENMASK 31 12"
  by (rule bit_word_eqI) (auto simp: rk_pte_page_address_eq bit_rk_mk_pte bit_simps masks)

lemma rk_pte_roundtrip_v2: "rk_pte_page_address_v2 (rk_mk_pte_v2 p prot) = p AND GENMASK 39 12"
  by (rule bit_word_eqI, rename_tac n, case_tac "n < 12"; case_tac "n < 32"; case_tac "n < 36";
      case_tac "n < 40") (simp_all add: rk_pte_page_address_v2_eq bit_rk_mk_pte_v2 bit_simps masks, auto?)

lemma rk_dte_masked: "rk_dte_pt_address d AND GENMASK 31 12 = rk_dte_pt_address d"
  by (rule bit_word_eqI) (auto simp: bit_simps masks)

lemma rk_dte_masked_v2: "rk_dte_pt_address_v2 d AND GENMASK 39 12 = rk_dte_pt_address_v2 d"
  by (rule bit_word_eqI) (auto simp: bit_simps masks)

lemma rk_pte_invalid_address: "rk_pte_page_address (rk_mk_pte_invalid p) = rk_pte_page_address p"
  by (rule bit_word_eqI)
    (auto simp: rk_pte_page_address_eq bit_rk_dte_pt_address bit_rk_mk_pte_invalid)

lemma rk_mk_pte_invalid_valid [simp]: "\<not> bit (rk_mk_pte_invalid p) 0"
  by (simp add: bit_rk_mk_pte_invalid)

section \<open>The entry format as an interface\<close>

text \<open>
  What the two-level table relies on: an entry that is built is valid, an address survives the
  trip through an entry up to the bits \<open>amask\<close> the format holds, an address read from an entry
  is the address of a page, and the access rights are bits 1 and 2 of the entry.
\<close>

locale pt_format =
  fixes mk_dte :: "u64 \<Rightarrow> u32"
    and pt_address :: "u32 \<Rightarrow> u64"
    and mk_pte :: "u64 \<Rightarrow> u32 \<Rightarrow> u32"
    and page_address :: "u32 \<Rightarrow> u64"
    and amask :: u64
  assumes mk_dte_valid: "bit (mk_dte a) 0"
    and pt_address_mk_dte: "pt_address (mk_dte a) = a AND amask"
    and pt_address_amask: "pt_address d AND amask = pt_address d"
    and mk_pte_valid: "bit (mk_pte p prot) 0"
    and page_address_mk_pte: "page_address (mk_pte p prot) = p AND amask"
    and mk_pte_readable: "bit (mk_pte p prot) 1 \<longleftrightarrow> bit prot 0"
    and mk_pte_writable: "bit (mk_pte p prot) 2 \<longleftrightarrow> bit prot 1"
    and amask_page: "amask AND mask 12 = 0"
begin

lemma amask_aligned:
  assumes "a AND amask = a"
  shows "a AND mask 12 = 0"
proof -
  have "a AND mask 12 = (a AND amask) AND mask 12" by (simp only: assms)
  also have "\<dots> = a AND (amask AND mask 12)" by (simp only: and.assoc)
  finally show ?thesis by (simp add: amask_page)
qed

lemma pt_address_aligned: "pt_address d AND mask 12 = 0"
  by (rule amask_aligned) (rule pt_address_amask)

end

lemma GENMASK_page: "GENMASK h 12 AND mask 12 = (0 :: u64)"
  by (rule bit_word_eqI) (auto simp: bit_simps masks)

interpretation v1: pt_format rk_mk_dte rk_dte_pt_address rk_mk_pte rk_pte_page_address "GENMASK 31 12"
  by unfold_locales
    (simp_all add: rk_dte_roundtrip rk_dte_masked rk_pte_roundtrip bit_rk_mk_dte bit_rk_mk_pte
      GENMASK_page)

interpretation v2: pt_format rk_mk_dte_v2 rk_dte_pt_address_v2 rk_mk_pte_v2 rk_pte_page_address_v2
  "GENMASK 39 12"
  by unfold_locales
    (simp_all add: rk_dte_roundtrip_v2 rk_dte_masked_v2 rk_pte_roundtrip_v2 bit_rk_mk_dte_v2
      bit_rk_mk_pte_v2 GENMASK_page)

section \<open>The three fields of an I/O virtual address\<close>

lemma iova_field_masks:
  "RK_IOVA_DTE_MASK = GENMASK 31 22" "RK_IOVA_PTE_MASK = GENMASK 21 12"
  "RK_IOVA_PAGE_MASK = GENMASK 11 0"
  by (simp_all add: RK_IOVA_DTE_MASK_def RK_IOVA_PTE_MASK_def RK_IOVA_PAGE_MASK_def GENMASK_def
      mask_eq_exp_minus_1)

lemmas iova_fields = rk_iova_dte_index_def rk_iova_pte_index_def rk_iova_page_offset_def
  RK_IOVA_DTE_SHIFT_def RK_IOVA_PTE_SHIFT_def RK_IOVA_PAGE_SHIFT_def iova_field_masks

lemma unat_rk_iova_dte_index: "unat (rk_iova_dte_index iova) = unat iova div 2 ^ 22 mod 2 ^ 10"
proof -
  have "rk_iova_dte_index iova = ucast (take_bit 10 (drop_bit 22 iova))"
    by (rule bit_word_eqI) (auto simp: iova_fields bit_simps masks)
  then show ?thesis
    by (simp add: unat_drop_bit_eq unsigned_ucast_eq unat_div unat_mod take_bit_eq_mod drop_bit_eq_div)
qed

lemma unat_rk_iova_pte_index: "unat (rk_iova_pte_index iova) = unat iova div 2 ^ 12 mod 2 ^ 10"
proof -
  have "rk_iova_pte_index iova = ucast (take_bit 10 (drop_bit 12 iova))"
    by (rule bit_word_eqI) (auto simp: iova_fields bit_simps masks)
  then show ?thesis
    by (simp add: unat_drop_bit_eq unsigned_ucast_eq unat_div unat_mod take_bit_eq_mod drop_bit_eq_div)
qed

lemma unat_rk_iova_page_offset: "unat (rk_iova_page_offset iova) = unat iova mod 2 ^ 12"
proof -
  have "rk_iova_page_offset iova = ucast (take_bit 12 iova)"
    by (rule bit_word_eqI) (auto simp: iova_fields bit_simps masks)
  then show ?thesis
    by (simp add: unsigned_ucast_eq unat_div unat_mod take_bit_eq_mod)
qed

lemma iova_index_bounds [simp]:
  "unat (rk_iova_dte_index iova) < 1024" "unat (rk_iova_pte_index iova) < 1024"
  "unat (rk_iova_page_offset iova) < 4096"
  by (simp_all add: unat_rk_iova_dte_index unat_rk_iova_pte_index unat_rk_iova_page_offset)

end
