(* ===== verification/Rk_Iommu_Hw.thy ===== *)
theory Rk_Iommu_Hw
  imports Rk_Iommu_Format
begin

text \<open>
  The IOMMU device side of \<open>rockchip-iommu.c\<close>: the registers of the MMU instances, the command
  sequences with their polling and retry loops, enabling and disabling translation, and the
  fault interrupt. The hardware itself is not under \<open>src/\<close>: it is the parameter \<open>P\<close>, which says
  what a register read returns, what a register write does and what the device does while the
  driver sleeps for one polling period. Clock and runtime-PM calls are modelled by the count of
  outstanding enables and by the value the call returns.
\<close>

section \<open>Register map\<close>

definition RK_MMU_DTE_ADDR :: u32 where "RK_MMU_DTE_ADDR = 0x00"
definition RK_MMU_STATUS :: u32 where "RK_MMU_STATUS = 0x04"
definition RK_MMU_COMMAND :: u32 where "RK_MMU_COMMAND = 0x08"
definition RK_MMU_PAGE_FAULT_ADDR :: u32 where "RK_MMU_PAGE_FAULT_ADDR = 0x0C"
definition RK_MMU_ZAP_ONE_LINE :: u32 where "RK_MMU_ZAP_ONE_LINE = 0x10"
definition RK_MMU_INT_CLEAR :: u32 where "RK_MMU_INT_CLEAR = 0x18"
definition RK_MMU_INT_MASK :: u32 where "RK_MMU_INT_MASK = 0x1C"
definition RK_MMU_INT_STATUS :: u32 where "RK_MMU_INT_STATUS = 0x20"
definition RK_MMU_AUTO_GATING :: u32 where "RK_MMU_AUTO_GATING = 0x24"

definition DTE_ADDR_DUMMY :: u32 where "DTE_ADDR_DUMMY = 0xCAFEBABE"
definition RK_MMU_POLL_PERIOD_US :: nat where "RK_MMU_POLL_PERIOD_US = 100"
definition RK_MMU_FORCE_RESET_TIMEOUT_US :: nat where "RK_MMU_FORCE_RESET_TIMEOUT_US = 100000"
definition RK_MMU_POLL_TIMEOUT_US :: nat where "RK_MMU_POLL_TIMEOUT_US = 1000"

definition RK_MMU_STATUS_PAGING_ENABLED :: u32 where "RK_MMU_STATUS_PAGING_ENABLED = BIT 0"
definition RK_MMU_STATUS_STALL_ACTIVE :: u32 where "RK_MMU_STATUS_STALL_ACTIVE = BIT 2"
definition RK_MMU_STATUS_PAGE_FAULT_IS_WRITE :: u32 where "RK_MMU_STATUS_PAGE_FAULT_IS_WRITE = BIT 5"

definition RK_MMU_CMD_ENABLE_PAGING :: u32 where "RK_MMU_CMD_ENABLE_PAGING = 0"
definition RK_MMU_CMD_DISABLE_PAGING :: u32 where "RK_MMU_CMD_DISABLE_PAGING = 1"
definition RK_MMU_CMD_ENABLE_STALL :: u32 where "RK_MMU_CMD_ENABLE_STALL = 2"
definition RK_MMU_CMD_DISABLE_STALL :: u32 where "RK_MMU_CMD_DISABLE_STALL = 3"
definition RK_MMU_CMD_ZAP_CACHE :: u32 where "RK_MMU_CMD_ZAP_CACHE = 4"
definition RK_MMU_CMD_PAGE_FAULT_DONE :: u32 where "RK_MMU_CMD_PAGE_FAULT_DONE = 5"
definition RK_MMU_CMD_FORCE_RESET :: u32 where "RK_MMU_CMD_FORCE_RESET = 6"

definition RK_MMU_IRQ_PAGE_FAULT :: u32 where "RK_MMU_IRQ_PAGE_FAULT = 0x01"
definition RK_MMU_IRQ_BUS_ERROR :: u32 where "RK_MMU_IRQ_BUS_ERROR = 0x02"
definition RK_MMU_IRQ_MASK :: u32 where "RK_MMU_IRQ_MASK = RK_MMU_IRQ_PAGE_FAULT OR RK_MMU_IRQ_BUS_ERROR"

definition SPAGE_ORDER :: nat where "SPAGE_ORDER = 12"
definition SPAGE_SIZE :: u64 where "SPAGE_SIZE = push_bit SPAGE_ORDER 1"
definition DISABLE_FETCH_DTE_TIME_LIMIT :: u32 where "DISABLE_FETCH_DTE_TIME_LIMIT = BIT 31"
definition CMD_RETRY_COUNT :: nat where "CMD_RETRY_COUNT = 10"

lemmas mmu_regs = RK_MMU_DTE_ADDR_def RK_MMU_STATUS_def RK_MMU_COMMAND_def
  RK_MMU_PAGE_FAULT_ADDR_def RK_MMU_ZAP_ONE_LINE_def RK_MMU_INT_CLEAR_def RK_MMU_INT_MASK_def
  RK_MMU_INT_STATUS_def RK_MMU_AUTO_GATING_def

lemmas mmu_cmds = RK_MMU_CMD_ENABLE_PAGING_def RK_MMU_CMD_DISABLE_PAGING_def
  RK_MMU_CMD_ENABLE_STALL_def RK_MMU_CMD_DISABLE_STALL_def RK_MMU_CMD_ZAP_CACHE_def
  RK_MMU_CMD_PAGE_FAULT_DONE_def RK_MMU_CMD_FORCE_RESET_def

lemma SPAGE_SIZE_eq: "SPAGE_SIZE = 4096"
  by (simp add: SPAGE_SIZE_def SPAGE_ORDER_def)

section \<open>State\<close>

text \<open>
  The hardware parameter: \<open>'hw\<close> is the state of one MMU instance. \<open>budget s t\<close> is the number of
  sleeps a polling loop with period \<open>s\<close> and time limit \<open>t\<close> (microseconds) makes before the limit.
\<close>

record 'hw mmu_port =
  readl :: "'hw \<Rightarrow> u32 \<Rightarrow> u32"
  writel :: "'hw \<Rightarrow> u32 \<Rightarrow> u32 \<Rightarrow> 'hw"
  elapse :: "'hw \<Rightarrow> 'hw"
  budget :: "nat \<Rightarrow> nat \<Rightarrow> nat"

text \<open>
  \<open>struct rk_iommu\<close>: its MMU instances (\<open>bases\<close>, of which there are \<open>num_mmu\<close>), the device-tree
  flags and the version. \<open>pm_in_use\<close> is what \<open>pm_runtime_get_if_in_use\<close> returns for the device,
  \<open>clk_error\<close> what \<open>clk_bulk_enable\<close> returns, \<open>clk_count\<close> and \<open>pm_count\<close> the references taken.
\<close>

record 'hw rk_iommu =
  bases :: "'hw list"
  reset_disabled :: bool
  skip_read :: bool
  cmd_retry :: bool
  version :: u32
  shootdown_entire :: bool
  has_domain :: bool
  pm_in_use :: int
  clk_error :: "errno option"
  clk_count :: int
  pm_count :: int

section \<open>Register accesses and status\<close>

definition rk_iommu_read :: "'hw mmu_port \<Rightarrow> 'hw \<Rightarrow> u32 \<Rightarrow> u32" where
  "rk_iommu_read P base off = readl P base off"

definition rk_iommu_write :: "'hw mmu_port \<Rightarrow> 'hw \<Rightarrow> u32 \<Rightarrow> u32 \<Rightarrow> 'hw" where
  "rk_iommu_write P base off v = writel P base off v"

definition rk_iommu_base_command :: "'hw mmu_port \<Rightarrow> 'hw \<Rightarrow> u32 \<Rightarrow> 'hw" where
  "rk_iommu_base_command P base command = writel P base RK_MMU_COMMAND command"

definition rk_iommu_command :: "'hw mmu_port \<Rightarrow> 'hw rk_iommu \<Rightarrow> u32 \<Rightarrow> 'hw rk_iommu" where
  "rk_iommu_command P iommu command =
     iommu\<lparr>bases := map (\<lambda>b. writel P b RK_MMU_COMMAND command) (bases iommu)\<rparr>"

definition rk_iommu_is_stall_active :: "'hw mmu_port \<Rightarrow> 'hw rk_iommu \<Rightarrow> bool" where
  "rk_iommu_is_stall_active P iommu \<longleftrightarrow>
     list_all (\<lambda>b. rk_iommu_read P b RK_MMU_STATUS AND RK_MMU_STATUS_STALL_ACTIVE \<noteq> 0) (bases iommu)"

definition rk_iommu_is_paging_enabled :: "'hw mmu_port \<Rightarrow> 'hw rk_iommu \<Rightarrow> bool" where
  "rk_iommu_is_paging_enabled P iommu \<longleftrightarrow>
     list_all (\<lambda>b. rk_iommu_read P b RK_MMU_STATUS AND RK_MMU_STATUS_PAGING_ENABLED \<noteq> 0) (bases iommu)"

definition rk_iommu_is_reset_done :: "'hw mmu_port \<Rightarrow> 'hw rk_iommu \<Rightarrow> bool" where
  "rk_iommu_is_reset_done P iommu \<longleftrightarrow>
     list_all (\<lambda>b. rk_iommu_read P b RK_MMU_DTE_ADDR = 0) (bases iommu)"

text \<open>
  The inner loop of \<open>rk_iommu_zap_lines\<close>, \<open>for (iova = iova_start; iova < iova_end; iova += SPAGE_SIZE)\<close>,
  on 64-bit addresses. It does not end when the addition wraps around below \<open>iova_end\<close>:
  \<open>None\<close> is that case.
\<close>

partial_function (option) zap_lines_from :: "'hw mmu_port \<Rightarrow> u64 \<Rightarrow> u64 \<Rightarrow> 'hw \<Rightarrow> 'hw option" where
  "zap_lines_from P iova iova_end base =
     (if iova < iova_end
      then zap_lines_from P (iova + SPAGE_SIZE) iova_end
             (rk_iommu_write P base RK_MMU_ZAP_ONE_LINE (ucast iova))
      else Some base)"

fun zap_bases :: "'hw mmu_port \<Rightarrow> u64 \<Rightarrow> u64 \<Rightarrow> 'hw list \<Rightarrow> 'hw list option" where
  "zap_bases P iova iova_end [] = Some []"
| "zap_bases P iova iova_end (b # bs) =
     Option.bind (zap_lines_from P iova iova_end b) (\<lambda>b'.
     Option.bind (zap_bases P iova iova_end bs) (\<lambda>bs'. Some (b' # bs')))"

definition rk_iommu_zap_lines ::
  "'hw mmu_port \<Rightarrow> 'hw rk_iommu \<Rightarrow> u64 \<Rightarrow> u64 \<Rightarrow> 'hw rk_iommu option" where
  "rk_iommu_zap_lines P iommu iova_start sz =
     map_option (\<lambda>bs. iommu\<lparr>bases := bs\<rparr>)
       (zap_bases P iova_start (iova_start + sz) (bases iommu))"

section \<open>Commands with polling and retry\<close>

text \<open>The device runs on while a loop that polls it sleeps.\<close>

definition iommu_elapse :: "'hw mmu_port \<Rightarrow> 'hw rk_iommu \<Rightarrow> 'hw rk_iommu" where
  "iommu_elapse P iommu = iommu\<lparr>bases := map (elapse P) (bases iommu)\<rparr>"

text \<open>
  The loop after the label \<open>read_wa\<close>, which the four stall and paging functions share: send the
  command, wait for \<open>cond\<close>, and on a time-out try again while \<open>cmd_retry\<close> is set and
  retries are left. \<open>send_command\<close> is one turn; its flag says that the turn ended the loop well.
\<close>

definition send_command ::
  "'hw mmu_port \<Rightarrow> u32 \<Rightarrow> ('hw rk_iommu \<Rightarrow> bool) \<Rightarrow> 'hw rk_iommu \<Rightarrow> 'hw rk_iommu \<times> bool" where
  "send_command P command cond iommu =
     (let iommu1 = rk_iommu_command P iommu command in
      if skip_read iommu1 then (iommu1, True)
      else poll_timeout (budget P RK_MMU_POLL_PERIOD_US RK_MMU_POLL_TIMEOUT_US)
             cond (iommu_elapse P) iommu1)"

fun command_loop ::
  "'hw mmu_port \<Rightarrow> u32 \<Rightarrow> ('hw rk_iommu \<Rightarrow> bool) \<Rightarrow> nat \<Rightarrow> 'hw rk_iommu \<Rightarrow> 'hw rk_iommu \<times> errno option"
where
  "command_loop P command cond retries iommu =
     (let (iommu1, ok) = send_command P command cond iommu in
      if ok then (iommu1, None)
      else if cmd_retry iommu1 then
        (case retries of 0 \<Rightarrow> (iommu1, Some ETIMEDOUT)
         | Suc r \<Rightarrow> command_loop P command cond r iommu1)
      else (iommu1, Some ETIMEDOUT))"

declare command_loop.simps [simp del]

definition rk_iommu_enable_stall :: "'hw mmu_port \<Rightarrow> 'hw rk_iommu \<Rightarrow> 'hw rk_iommu \<times> errno option" where
  "rk_iommu_enable_stall P iommu =
     (if \<not> skip_read iommu \<and> rk_iommu_is_stall_active P iommu then (iommu, None)
      else if \<not> skip_read iommu \<and> \<not> rk_iommu_is_paging_enabled P iommu then (iommu, None)
      else command_loop P RK_MMU_CMD_ENABLE_STALL (rk_iommu_is_stall_active P) CMD_RETRY_COUNT iommu)"

definition rk_iommu_disable_stall :: "'hw mmu_port \<Rightarrow> 'hw rk_iommu \<Rightarrow> 'hw rk_iommu \<times> errno option" where
  "rk_iommu_disable_stall P iommu =
     (if \<not> skip_read iommu \<and> \<not> rk_iommu_is_stall_active P iommu then (iommu, None)
      else command_loop P RK_MMU_CMD_DISABLE_STALL (\<lambda>i. \<not> rk_iommu_is_stall_active P i) CMD_RETRY_COUNT iommu)"

definition rk_iommu_enable_paging :: "'hw mmu_port \<Rightarrow> 'hw rk_iommu \<Rightarrow> 'hw rk_iommu \<times> errno option" where
  "rk_iommu_enable_paging P iommu =
     (if \<not> skip_read iommu \<and> rk_iommu_is_paging_enabled P iommu then (iommu, None)
      else command_loop P RK_MMU_CMD_ENABLE_PAGING (rk_iommu_is_paging_enabled P) CMD_RETRY_COUNT iommu)"

definition rk_iommu_disable_paging :: "'hw mmu_port \<Rightarrow> 'hw rk_iommu \<Rightarrow> 'hw rk_iommu \<times> errno option" where
  "rk_iommu_disable_paging P iommu =
     (if \<not> skip_read iommu \<and> \<not> rk_iommu_is_paging_enabled P iommu then (iommu, None)
      else command_loop P RK_MMU_CMD_DISABLE_PAGING (\<lambda>i. \<not> rk_iommu_is_paging_enabled P i) CMD_RETRY_COUNT iommu)"

section \<open>Reset, enabling and disabling translation\<close>

text \<open>
  The register check of \<open>rk_iommu_force_reset\<close>: write a dummy table address to each MMU in turn
  and stop at the first that does not read it back. The flag says that all of them did.
\<close>

fun check_dte_addr :: "'hw mmu_port \<Rightarrow> u32 \<Rightarrow> 'hw list \<Rightarrow> 'hw list \<times> bool" where
  "check_dte_addr P address_mask [] = ([], True)"
| "check_dte_addr P address_mask (b # bs) =
     (let b' = rk_iommu_write P b RK_MMU_DTE_ADDR DTE_ADDR_DUMMY in
      if rk_iommu_read P b' RK_MMU_DTE_ADDR \<noteq> DTE_ADDR_DUMMY AND address_mask then (b' # bs, False)
      else let (bs', ok) = check_dte_addr P address_mask bs in (b' # bs', ok))"

definition reset_check :: "'hw mmu_port \<Rightarrow> 'hw rk_iommu \<Rightarrow> 'hw rk_iommu \<times> bool" where
  "reset_check P iommu =
     (if skip_read iommu then (iommu, True)
      else
        let address_mask = (if version iommu \<ge> 2 then ucast RK_DTE_PT_ADDRESS_MASK_V2
                            else ucast RK_DTE_PT_ADDRESS_MASK);
            r = check_dte_addr P address_mask (bases iommu)
        in (iommu\<lparr>bases := fst r\<rparr>, snd r))"

definition rk_iommu_force_reset :: "'hw mmu_port \<Rightarrow> 'hw rk_iommu \<Rightarrow> 'hw rk_iommu \<times> errno option" where
  "rk_iommu_force_reset P iommu =
     (if reset_disabled iommu then (iommu, None)
      else
        let (iommu1, ok) = reset_check P iommu in
        if \<not> ok then (iommu1, Some EFAULT)
        else
          let iommu2 = rk_iommu_command P iommu1 RK_MMU_CMD_FORCE_RESET in
          if skip_read iommu2 then (iommu2, None)
          else
            let (iommu3, done) =
                  poll_timeout (budget P RK_MMU_FORCE_RESET_TIMEOUT_US RK_MMU_POLL_TIMEOUT_US)
                    (rk_iommu_is_reset_done P) (iommu_elapse P) iommu2
            in (iommu3, if done then None else Some ETIMEDOUT))"

text \<open>\<open>clk_bulk_enable\<close> takes the clock references only when it succeeds.\<close>

definition clk_bulk_enable :: "'hw rk_iommu \<Rightarrow> 'hw rk_iommu \<times> errno option" where
  "clk_bulk_enable iommu =
     (case clk_error iommu of None \<Rightarrow> (iommu\<lparr>clk_count := clk_count iommu + 1\<rparr>, None)
      | Some e \<Rightarrow> (iommu, Some e))"

definition clk_bulk_disable :: "'hw rk_iommu \<Rightarrow> 'hw rk_iommu" where
  "clk_bulk_disable iommu = iommu\<lparr>clk_count := clk_count iommu - 1\<rparr>"

text \<open>The value of \<open>MMU_DTE_ADDR\<close> for a directory table at DMA address \<open>dt_dma\<close>.\<close>

definition dte_addr_reg :: "u32 \<Rightarrow> u64 \<Rightarrow> u32" where
  "dte_addr_reg ver dt_dma =
     (if ver \<ge> 2
      then ucast ((dt_dma AND DT_LO_MASK) OR drop_bit DT_SHIFT (dt_dma AND DT_HI_MASK))
      else ucast dt_dma)"

text \<open>The body of the loop of \<open>rk_iommu_enable\<close> over the MMU instances.\<close>

definition program_base :: "'hw mmu_port \<Rightarrow> u32 \<Rightarrow> u64 \<Rightarrow> 'hw \<Rightarrow> 'hw" where
  "program_base P ver dt_dma b =
     (let b1 = rk_iommu_write P b RK_MMU_DTE_ADDR (dte_addr_reg ver dt_dma);
          b2 = rk_iommu_base_command P b1 RK_MMU_CMD_ZAP_CACHE;
          b3 = rk_iommu_write P b2 RK_MMU_INT_MASK RK_MMU_IRQ_MASK;
          auto_gate = rk_iommu_read P b3 RK_MMU_AUTO_GATING OR DISABLE_FETCH_DTE_TIME_LIMIT
      in rk_iommu_write P b3 RK_MMU_AUTO_GATING auto_gate)"

text \<open>The part of \<open>rk_iommu_enable\<close> that runs with the MMUs stalled.\<close>

definition enable_stalled ::
  "'hw mmu_port \<Rightarrow> u64 \<Rightarrow> 'hw rk_iommu \<Rightarrow> 'hw rk_iommu \<times> errno option" where
  "enable_stalled P dt_dma iommu =
     (let (iommu1, ret) = rk_iommu_force_reset P iommu in
      case ret of Some e \<Rightarrow> (iommu1, Some e)
      | None \<Rightarrow>
          rk_iommu_enable_paging P
            (iommu1\<lparr>bases := map (program_base P (version iommu1) dt_dma) (bases iommu1)\<rparr>))"

definition rk_iommu_enable ::
  "'hw mmu_port \<Rightarrow> u64 \<Rightarrow> 'hw rk_iommu \<Rightarrow> 'hw rk_iommu \<times> errno option" where
  "rk_iommu_enable P dt_dma iommu =
     (let (iommu1, ret) = clk_bulk_enable iommu in
      case ret of Some e \<Rightarrow> (iommu1, Some e)
      | None \<Rightarrow>
        let (iommu2, ret) = rk_iommu_enable_stall P iommu1 in
        case ret of Some e \<Rightarrow> (clk_bulk_disable iommu2, Some e)
        | None \<Rightarrow>
          let (iommu3, ret) = enable_stalled P dt_dma iommu2 in
          (clk_bulk_disable (fst (rk_iommu_disable_stall P iommu3)), ret))"

definition rk_iommu_disable :: "'hw mmu_port \<Rightarrow> 'hw rk_iommu \<Rightarrow> 'hw rk_iommu" where
  "rk_iommu_disable P iommu =
     (let iommu1 = fst (clk_bulk_enable iommu);
          iommu2 = fst (rk_iommu_enable_stall P iommu1);
          iommu3 = fst (rk_iommu_disable_paging P iommu2);
          iommu4 = iommu3\<lparr>bases := map (\<lambda>b.
              rk_iommu_write P (rk_iommu_write P b RK_MMU_INT_MASK 0) RK_MMU_DTE_ADDR 0) (bases iommu3)\<rparr>
      in clk_bulk_disable (fst (rk_iommu_disable_stall P iommu4)))"

section \<open>The interrupt handler\<close>

datatype irqreturn = IRQ_NONE | IRQ_HANDLED

text \<open>
  One turn of the loop of \<open>rk_iommu_irq\<close>: the new state of the MMU, whether it had an interrupt
  pending, and the fault it reports to the domain (the address and the status word), if any.
\<close>

definition irq_base :: "'hw mmu_port \<Rightarrow> bool \<Rightarrow> 'hw \<Rightarrow> 'hw \<times> bool \<times> (u64 \<times> u32) option" where
  "irq_base P attached b =
     (let int_status = rk_iommu_read P b RK_MMU_INT_STATUS in
      if int_status = 0 then (b, False, None)
      else
        let iova = (ucast (rk_iommu_read P b RK_MMU_PAGE_FAULT_ADDR) :: u64);
            (b', fault) =
              (if int_status AND RK_MMU_IRQ_PAGE_FAULT \<noteq> 0 then
                 let status = rk_iommu_read P b RK_MMU_STATUS;
                     fault = (if attached then Some (iova, status) else None);
                     b1 = rk_iommu_base_command P b RK_MMU_CMD_ZAP_CACHE;
                     int_mask = rk_iommu_read P b1 RK_MMU_INT_MASK;
                     b2 = (if int_mask \<noteq> 0
                           then rk_iommu_base_command P b1 RK_MMU_CMD_PAGE_FAULT_DONE else b1)
                 in (b2, fault)
               else (b, None))
        in (rk_iommu_write P b' RK_MMU_INT_CLEAR int_status, True, fault))"

definition rk_iommu_irq ::
  "'hw mmu_port \<Rightarrow> 'hw rk_iommu \<Rightarrow> 'hw rk_iommu \<times> irqreturn \<times> (u64 \<times> u32) list" where
  "rk_iommu_irq P iommu =
     (if pm_in_use iommu \<le> 0 then (iommu, IRQ_NONE, [])
      else
        let iommu1 = iommu\<lparr>pm_count := pm_count iommu + 1\<rparr> in
        case clk_bulk_enable iommu1 of
          (iommu2, Some e) \<Rightarrow> (iommu2\<lparr>pm_count := pm_count iommu2 - 1\<rparr>, IRQ_NONE, [])
        | (iommu2, None) \<Rightarrow>
          let rs = map (irq_base P (has_domain iommu2)) (bases iommu2);
              iommu3 = clk_bulk_disable (iommu2\<lparr>bases := map fst rs\<rparr>)
          in (iommu3\<lparr>pm_count := pm_count iommu3 - 1\<rparr>,
              (if list_ex (\<lambda>r. fst (snd r)) rs then IRQ_HANDLED else IRQ_NONE),
              List.map_filter (\<lambda>r. snd (snd r)) rs))"

section \<open>Frame: what a command sequence leaves alone\<close>

text \<open>
  The stall, paging and reset functions change the hardware only: every other field of the
  driver's record is the one it was.
\<close>

definition same_but_bases :: "'hw rk_iommu \<Rightarrow> 'hw rk_iommu \<Rightarrow> bool" where
  "same_but_bases i i' \<longleftrightarrow> (\<exists>bs. i' = i\<lparr>bases := bs\<rparr>)"

lemma same_but_bases_refl [simp, intro]: "same_but_bases i i"
  by (auto simp: same_but_bases_def intro: exI [of _ "bases i"])

lemma same_but_bases_trans [trans]:
  "same_but_bases i j \<Longrightarrow> same_but_bases j k \<Longrightarrow> same_but_bases i k"
  by (auto simp: same_but_bases_def)

lemma same_but_bases_upd [simp, intro]: "same_but_bases i (i\<lparr>bases := bs\<rparr>)"
  by (auto simp: same_but_bases_def)

lemma same_but_basesD [frame]:
  assumes "same_but_bases i i'"
  shows "skip_read i' = skip_read i" "cmd_retry i' = cmd_retry i" "version i' = version i"
    "reset_disabled i' = reset_disabled i" "clk_count i' = clk_count i" "pm_count i' = pm_count i"
    "clk_error i' = clk_error i" "pm_in_use i' = pm_in_use i" "has_domain i' = has_domain i"
    "shootdown_entire i' = shootdown_entire i"
  using assms by (auto simp: same_but_bases_def)

lemma rk_iommu_command_frame: "same_but_bases i (rk_iommu_command P i c)"
  by (simp add: rk_iommu_command_def)

lemma iommu_elapse_frame: "same_but_bases i (iommu_elapse P i)"
  by (simp add: iommu_elapse_def)

lemma poll_timeout_frame:
  "same_but_bases i (fst (poll_timeout n cond (iommu_elapse P) i))"
proof (induction n arbitrary: i)
  case (Suc n)
  from Suc.IH [of "iommu_elapse P i"] show ?case
    by (auto intro: same_but_bases_trans [OF iommu_elapse_frame])
qed simp

lemma send_command_frame: "same_but_bases i (fst (send_command P c cond i))"
  by (auto simp: send_command_def Let_def rk_iommu_command_frame
      intro: same_but_bases_trans [OF rk_iommu_command_frame poll_timeout_frame])

lemma command_loop_frame: "same_but_bases i (fst (command_loop P c cond r i))"
proof (induction r arbitrary: i)
  case 0
  show ?case
    by (subst command_loop.simps)
      (use send_command_frame [of i P c cond] in \<open>auto split: prod.splits\<close>)
next
  case (Suc r)
  have "same_but_bases i (fst (command_loop P c cond r (fst (send_command P c cond i))))"
    by (rule same_but_bases_trans [OF send_command_frame Suc.IH])
  then show ?case
    by (subst command_loop.simps)
      (use send_command_frame [of i P c cond] in \<open>auto split: prod.splits\<close>)
qed

lemmas command_fns = rk_iommu_enable_stall_def rk_iommu_disable_stall_def
  rk_iommu_enable_paging_def rk_iommu_disable_paging_def

lemma stall_paging_frame:
  "same_but_bases i (fst (rk_iommu_enable_stall P i))"
  "same_but_bases i (fst (rk_iommu_disable_stall P i))"
  "same_but_bases i (fst (rk_iommu_enable_paging P i))"
  "same_but_bases i (fst (rk_iommu_disable_paging P i))"
  by (simp_all add: command_fns command_loop_frame)

lemma reset_check_frame: "same_but_bases i (fst (reset_check P i))"
  by (simp add: reset_check_def Let_def)

lemma rk_iommu_force_reset_frame: "same_but_bases i (fst (rk_iommu_force_reset P i))"
proof -
  obtain i1 ok where i1: "reset_check P i = (i1, ok)" by (cases "reset_check P i")
  then have f1: "same_but_bases i i1" using reset_check_frame [of i P] by simp
  have f2: "same_but_bases i (rk_iommu_command P i1 c)" for c
    by (rule same_but_bases_trans [OF f1 rk_iommu_command_frame])
  have f3: "same_but_bases i (fst (poll_timeout n cond (iommu_elapse P) (rk_iommu_command P i1 c)))"
    for n cond c by (rule same_but_bases_trans [OF f2 poll_timeout_frame])
  show ?thesis
    using f1 f2 f3 by (simp add: rk_iommu_force_reset_def i1 Let_def split: prod.split)
      (metis fst_conv)
qed

lemma enable_stalled_frame: "same_but_bases i (fst (enable_stalled P dt i))"
proof -
  obtain i1 e where i1: "rk_iommu_force_reset P i = (i1, e)" by (cases "rk_iommu_force_reset P i")
  then have f1: "same_but_bases i i1" using rk_iommu_force_reset_frame [of i P] by simp
  have "same_but_bases i (fst (rk_iommu_enable_paging P (i1\<lparr>bases := bs\<rparr>)))" for bs
    by (rule same_but_bases_trans [OF same_but_bases_trans [OF f1 same_but_bases_upd]
          stall_paging_frame(3)])
  with f1 show ?thesis by (simp add: enable_stalled_def i1 split: option.split)
qed

text \<open>
  Enabling never leaks a clock reference: on every path, errors included, only the hardware
  differs from what the caller had.
\<close>

lemma clk_bulk_disable_frame:
  "same_but_bases (i\<lparr>clk_count := clk_count i + 1\<rparr>) j \<Longrightarrow> same_but_bases i (clk_bulk_disable j)"
  by (auto simp: same_but_bases_def clk_bulk_disable_def)

lemma rk_iommu_enable_frame: "same_but_bases i (fst (rk_iommu_enable P dt i))"
proof (cases "clk_error i")
  case (Some e)
  then show ?thesis by (simp add: rk_iommu_enable_def clk_bulk_enable_def)
next
  case None
  let ?i1 = "i\<lparr>clk_count := clk_count i + 1\<rparr>"
  obtain i2 e2 where i2: "rk_iommu_enable_stall P ?i1 = (i2, e2)"
    by (cases "rk_iommu_enable_stall P ?i1")
  then have f2: "same_but_bases ?i1 i2" using stall_paging_frame(1) [of ?i1 P] by simp
  obtain i3 e3 where i3: "enable_stalled P dt i2 = (i3, e3)" by (cases "enable_stalled P dt i2")
  then have f3: "same_but_bases ?i1 i3"
    using same_but_bases_trans [OF f2 enable_stalled_frame [of i2 P dt]] by simp
  have "same_but_bases ?i1 (fst (rk_iommu_disable_stall P i3))"
    by (rule same_but_bases_trans [OF f3 stall_paging_frame(2)])
  with f2 None show ?thesis
    by (simp add: rk_iommu_enable_def clk_bulk_enable_def i2 i3 clk_bulk_disable_frame
        split: option.split)
qed

lemma rk_iommu_disable_frame:
  assumes "clk_error i = None"
  shows "same_but_bases i (rk_iommu_disable P i)"
proof -
  let ?i1 = "i\<lparr>clk_count := clk_count i + 1\<rparr>"
  let ?i3 = "fst (rk_iommu_disable_paging P (fst (rk_iommu_enable_stall P ?i1)))"
  have "same_but_bases ?i1 ?i3"
    by (rule same_but_bases_trans [OF stall_paging_frame(1) stall_paging_frame(4)])
  then have "same_but_bases ?i1 (fst (rk_iommu_disable_stall P (?i3\<lparr>bases := bs\<rparr>)))" for bs
    by (intro same_but_bases_trans [OF same_but_bases_trans [OF _ same_but_bases_upd]
          stall_paging_frame(2)])
  with assms show ?thesis
    by (simp add: rk_iommu_disable_def clk_bulk_enable_def Let_def clk_bulk_disable_frame)
qed

section \<open>Invalidating TLB lines\<close>

text \<open>
  What the driver assumes of \<open>ZAP_ONE_LINE\<close>: writing an address removes the line of its page
  from the MMU's TLB and adds none. \<open>tlb h\<close> is the set of page numbers the MMU has cached.
\<close>

definition zap_law :: "'hw mmu_port \<Rightarrow> ('hw \<Rightarrow> nat set) \<Rightarrow> bool" where
  "zap_law P tlb \<longleftrightarrow>
     (\<forall>h v. tlb (writel P h RK_MMU_ZAP_ONE_LINE v) \<subseteq> tlb h - {unat v div 4096})"

definition pages_of :: "nat \<Rightarrow> nat \<Rightarrow> nat set" where
  "pages_of a e = {a div 4096 ..< (e + 4095) div 4096}"

lemma pages_of_step: "i < e \<Longrightarrow> pages_of i e = insert (i div 4096) (pages_of (i + 4096) e)"
  by (auto simp: pages_of_def)

lemma pages_of_empty: "e \<le> i \<Longrightarrow> pages_of i e \<subseteq> {i div 4096}"
  by (auto simp: pages_of_def)

text \<open>The loop ends and clears the lines, for any range below 4 GiB (the domain's aperture).\<close>

lemma zap_lines_from_tlb:
  assumes law: "zap_law P tlb" and e: "unat iova_end \<le> 2 ^ 32" "unat iova < unat iova_end"
    and al: "unat iova mod 4096 = 0"
  shows "\<exists>b'. zap_lines_from P iova iova_end b = Some b'
           \<and> tlb b' \<subseteq> tlb b - pages_of (unat iova) (unat iova_end)"
  using e(2) al
proof (induction "unat iova_end - unat iova" arbitrary: iova b rule: less_induct)
  case less
  let ?b1 = "rk_iommu_write P b RK_MMU_ZAP_ONE_LINE (ucast iova)"
  have lt: "iova < iova_end" using less.prems by (simp add: word_less_nat_alt)
  have cast: "unat (ucast iova :: u32) = unat iova"
    using less.prems e(1) by (simp add: unsigned_ucast_eq take_bit_eq_mod)
  have nxt: "unat (iova + SPAGE_SIZE) = unat iova + 4096"
    using less.prems e(1) by (simp add: SPAGE_SIZE_eq unat_word_ariths)
  have b1: "tlb ?b1 \<subseteq> tlb b - {unat iova div 4096}"
    using law [unfolded zap_law_def, THEN spec, THEN spec, of b "ucast iova"]
    by (simp add: rk_iommu_write_def cast)
  show ?case
  proof (cases "unat (iova + SPAGE_SIZE) < unat iova_end")
    case True
    have dec: "unat iova_end - unat (iova + SPAGE_SIZE) < unat iova_end - unat iova"
      using less.prems nxt by simp
    have al': "unat (iova + SPAGE_SIZE) mod 4096 = 0" using less.prems(2) nxt by simp
    obtain b' where
      "zap_lines_from P (iova + SPAGE_SIZE) iova_end ?b1 = Some b'"
      "tlb b' \<subseteq> tlb ?b1 - pages_of (unat iova + 4096) (unat iova_end)"
      using less.hyps [OF dec True al', of ?b1] unfolding nxt by blast
    with lt b1 less.prems show ?thesis
      by (subst zap_lines_from.simps) (auto simp: pages_of_step)
  next
    case False
    then have "\<not> iova + SPAGE_SIZE < iova_end" by (simp add: word_less_nat_alt)
    then have "zap_lines_from P iova iova_end b = Some ?b1"
      using lt by (subst zap_lines_from.simps) (simp add: zap_lines_from.simps)
    moreover have "pages_of (unat iova) (unat iova_end) = {unat iova div 4096}"
      using False nxt less.prems by (auto simp: pages_of_def elim!: dvdE simp flip: mod_0_imp_dvd)
    ultimately show ?thesis using b1 by auto
  qed
qed

lemma pages_of_same: "a mod 4096 = 0 \<Longrightarrow> pages_of a a = {}"
  by (auto simp: pages_of_def elim!: dvdE simp flip: mod_0_imp_dvd)

lemma zap_bases_tlb:
  assumes law: "zap_law P tlb" and e: "unat iova_end \<le> 2 ^ 32" "unat iova \<le> unat iova_end"
    and al: "unat iova mod 4096 = 0"
  shows "\<exists>bs'. zap_bases P iova iova_end bs = Some bs' \<and> length bs' = length bs
           \<and> (\<forall>b \<in> set bs'. tlb b \<inter> pages_of (unat iova) (unat iova_end) = {})"
proof (induction bs)
  case (Cons b bs)
  have "\<exists>b'. zap_lines_from P iova iova_end b = Some b'
      \<and> tlb b' \<subseteq> tlb b - pages_of (unat iova) (unat iova_end)"
  proof (cases "unat iova < unat iova_end")
    case True
    from zap_lines_from_tlb [OF law e(1) this al] show ?thesis .
  next
    case False
    then show ?thesis
      using e(2) al by (subst zap_lines_from.simps) (simp add: word_less_nat_alt pages_of_same)
  qed
  with Cons show ?case by auto
qed simp

section \<open>Enabling translation\<close>

text \<open>
  The laws of the plain registers: \<open>reg_stable P r\<close> says that register \<open>r\<close> keeps its value under
  writes to the other registers, under every command but the reset, and while time passes;
  \<open>reads_back P r m\<close> that it returns the bits \<open>m\<close> of what was written last.
\<close>

definition reg_stable :: "'hw mmu_port \<Rightarrow> u32 \<Rightarrow> bool" where
  "reg_stable P r \<longleftrightarrow>
     (\<forall>h off v. off \<noteq> r \<and> (off = RK_MMU_COMMAND \<longrightarrow> v \<noteq> RK_MMU_CMD_FORCE_RESET)
        \<longrightarrow> readl P (writel P h off v) r = readl P h r)
     \<and> (\<forall>h. readl P (elapse P h) r = readl P h r)"

definition reads_back :: "'hw mmu_port \<Rightarrow> u32 \<Rightarrow> u32 \<Rightarrow> bool" where
  "reads_back P r m \<longleftrightarrow> (\<forall>h v. readl P (writel P h r v) r = v AND m)"

lemma stable_write:
  "reg_stable P r \<Longrightarrow> off \<noteq> r \<Longrightarrow> off \<noteq> RK_MMU_COMMAND \<Longrightarrow> readl P (writel P h off v) r = readl P h r"
  by (simp add: reg_stable_def)

lemma stable_command:
  "reg_stable P r \<Longrightarrow> RK_MMU_COMMAND \<noteq> r \<Longrightarrow> c \<noteq> RK_MMU_CMD_FORCE_RESET
   \<Longrightarrow> readl P (writel P h RK_MMU_COMMAND c) r = readl P h r"
  by (simp add: reg_stable_def)

lemma stable_elapse: "reg_stable P r \<Longrightarrow> readl P (elapse P h) r = readl P h r"
  by (simp add: reg_stable_def)

text \<open>A stable register reads the same in every MMU before and after a command sequence.\<close>

lemma mmu_reg_neq [simp]:
  "RK_MMU_COMMAND \<noteq> RK_MMU_DTE_ADDR" "RK_MMU_DTE_ADDR \<noteq> RK_MMU_COMMAND"
  "RK_MMU_COMMAND \<noteq> RK_MMU_INT_MASK" "RK_MMU_INT_MASK \<noteq> RK_MMU_COMMAND"
  "RK_MMU_INT_MASK \<noteq> RK_MMU_DTE_ADDR" "RK_MMU_DTE_ADDR \<noteq> RK_MMU_INT_MASK"
  "RK_MMU_AUTO_GATING \<noteq> RK_MMU_DTE_ADDR" "RK_MMU_AUTO_GATING \<noteq> RK_MMU_INT_MASK"
  "RK_MMU_AUTO_GATING \<noteq> RK_MMU_COMMAND"
  by (simp_all add: mmu_regs)

definition regs :: "'hw mmu_port \<Rightarrow> u32 \<Rightarrow> 'hw rk_iommu \<Rightarrow> u32 list" where
  "regs P r i = map (\<lambda>b. readl P b r) (bases i)"

lemma poll_timeout_regs:
  "reg_stable P r \<Longrightarrow> regs P r (fst (poll_timeout n cond (iommu_elapse P) i)) = regs P r i"
proof (induction n arbitrary: i)
  case (Suc n)
  then show ?case
    by (simp add: regs_def iommu_elapse_def stable_elapse o_def)
qed simp

lemma command_loop_regs:
  assumes "reg_stable P r" "r \<noteq> RK_MMU_COMMAND" "c \<noteq> RK_MMU_CMD_FORCE_RESET"
  shows "regs P r (fst (command_loop P c cond n i)) = regs P r i"
proof -
  have cmd: "regs P r (rk_iommu_command P j c) = regs P r j" for j
    using assms by (auto simp: regs_def rk_iommu_command_def stable_command)
  have turn: "regs P r (fst (send_command P c cond j)) = regs P r j" for j
    using cmd by (simp add: send_command_def Let_def poll_timeout_regs [OF assms(1)])
  show ?thesis
  proof (induction n arbitrary: i)
    case 0
    show ?case by (subst command_loop.simps)
        (use turn [of i] in \<open>auto split: prod.splits\<close>)
  next
    case (Suc n)
    show ?case by (subst command_loop.simps)
        (use turn [of i] Suc in \<open>auto split: prod.splits\<close>)
  qed
qed

lemma stall_paging_regs:
  assumes "reg_stable P r" "r \<noteq> RK_MMU_COMMAND"
  shows "regs P r (fst (rk_iommu_enable_stall P i)) = regs P r i"
    "regs P r (fst (rk_iommu_disable_stall P i)) = regs P r i"
    "regs P r (fst (rk_iommu_enable_paging P i)) = regs P r i"
    "regs P r (fst (rk_iommu_disable_paging P i)) = regs P r i"
  using assms by (simp_all add: command_fns command_loop_regs mmu_cmds)

lemma send_command_success:
  assumes "send_command P c cond i = (i', True)" "\<not> skip_read i"
  shows "cond i'"
proof -
  have "skip_read (rk_iommu_command P i c) = skip_read i" by (simp add: rk_iommu_command_def)
  with assms show ?thesis
    using poll_timeout_cond [of "budget P RK_MMU_POLL_PERIOD_US RK_MMU_POLL_TIMEOUT_US" cond
        "iommu_elapse P" "rk_iommu_command P i c"]
    by (simp add: send_command_def Let_def)
qed

lemma command_loop_success:
  assumes "command_loop P c cond n i = (i', None)" "\<not> skip_read i"
  shows "cond i'"
  using assms
proof (induction n arbitrary: i)
  case 0
  then show ?case
    by (subst (asm) command_loop.simps)
      (auto split: prod.splits if_splits dest: send_command_success)
next
  case (Suc n)
  obtain i1 ok where i1: "send_command P c cond i = (i1, ok)" by (cases "send_command P c cond i")
  have "\<not> skip_read i1"
    using send_command_frame [of i P c cond] i1 Suc.prems(2) by (simp add: same_but_basesD)
  with Suc i1 show ?case
    by (subst (asm) command_loop.simps) (auto split: if_splits dest: send_command_success)
qed

text \<open>A function that reports success has seen the status it waited for.\<close>

lemma rk_iommu_enable_paging_success:
  assumes "rk_iommu_enable_paging P i = (i', None)" "\<not> skip_read i"
  shows "rk_iommu_is_paging_enabled P i'"
  using assms by (auto simp: rk_iommu_enable_paging_def dest: command_loop_success split: if_splits)

lemma program_base_regs:
  assumes "reg_stable P RK_MMU_DTE_ADDR" "reg_stable P RK_MMU_INT_MASK"
    and "reads_back P RK_MMU_DTE_ADDR m" "reads_back P RK_MMU_INT_MASK (- 1)"
  shows "readl P (program_base P ver dt b) RK_MMU_DTE_ADDR = dte_addr_reg ver dt AND m"
    "readl P (program_base P ver dt b) RK_MMU_INT_MASK = RK_MMU_IRQ_MASK"
  using assms
  by (simp_all add: program_base_def Let_def rk_iommu_write_def rk_iommu_base_command_def
      stable_write stable_command reads_back_def mmu_cmds)

text \<open>
  C3: After a successful \<open>rk_iommu_enable\<close> every MMU holds the address of the directory table, in
  the format of its version and up to the bits the register has, and the interrupt mask, even
  though the reset in between cleared them.
\<close>

theorem rk_iommu_enable_programs:
  assumes laws: "reg_stable P RK_MMU_DTE_ADDR" "reg_stable P RK_MMU_INT_MASK"
      "reads_back P RK_MMU_DTE_ADDR m" "reads_back P RK_MMU_INT_MASK (- 1)"
    and ok: "rk_iommu_enable P dt i = (i', None)"
    and b: "b \<in> set (bases i')"
  shows "rk_iommu_read P b RK_MMU_DTE_ADDR = dte_addr_reg (version i) dt AND m
    \<and> rk_iommu_read P b RK_MMU_INT_MASK = RK_MMU_IRQ_MASK"
proof -
  let ?i1 = "i\<lparr>clk_count := clk_count i + 1\<rparr>"
  have none: "clk_error i = None"
    using ok by (cases "clk_error i") (auto simp: rk_iommu_enable_def clk_bulk_enable_def)
  obtain i2 where i2: "rk_iommu_enable_stall P ?i1 = (i2, None)"
    using ok none by (auto simp: rk_iommu_enable_def clk_bulk_enable_def split: prod.splits option.splits)
  then have v2: "version i2 = version i"
    using stall_paging_frame(1) [of ?i1 P] by (simp add: same_but_basesD)
  obtain i3 where i3: "rk_iommu_force_reset P i2 = (i3, None)"
    and i4: "fst (rk_iommu_enable P dt i) = clk_bulk_disable (fst (rk_iommu_disable_stall P
        (fst (rk_iommu_enable_paging P
          (i3\<lparr>bases := map (program_base P (version i3) dt) (bases i3)\<rparr>)))))"
    using ok none i2
    by (auto simp: rk_iommu_enable_def clk_bulk_enable_def enable_stalled_def
        split: prod.splits option.splits)
  have v3: "version i3 = version i"
    using rk_iommu_force_reset_frame [of i2 P] i3 v2 by (simp add: same_but_basesD)
  have "regs P r i' = map (\<lambda>b. readl P (program_base P (version i) dt b) r) (bases i3)"
    if "reg_stable P r" "r \<noteq> RK_MMU_COMMAND" for r
    using i4 ok v3 that
    by (simp add: clk_bulk_disable_def regs_def stall_paging_regs(2,3) [unfolded regs_def] o_def)
  from this [OF laws(1)] this [OF laws(2)] show ?thesis
    using b program_base_regs [OF laws]
    by (auto simp: regs_def rk_iommu_read_def dest!: arg_cong [where f = set])
qed

section \<open>A responsive device is enabled\<close>

text \<open>
  \<open>settles P n off c pre good\<close>: from a state where \<open>pre\<close> holds, the device reaches \<open>good\<close> after
  at most \<open>n\<close> polling periods once \<open>c\<close> has been written to the command register.
\<close>

definition settles ::
  "'hw mmu_port \<Rightarrow> nat \<Rightarrow> u32 \<Rightarrow> ('hw \<Rightarrow> bool) \<Rightarrow> ('hw \<Rightarrow> bool) \<Rightarrow> bool" where
  "settles P n c pre good \<longleftrightarrow>
     (\<exists>k \<le> n. \<forall>h. pre h \<longrightarrow> good ((elapse P ^^ k) (writel P h RK_MMU_COMMAND c)))"

lemma bases_elapse: "bases ((iommu_elapse P ^^ k) i) = map (elapse P ^^ k) (bases i)"
  by (induction k) (simp_all add: iommu_elapse_def)

lemma poll_command_live:
  assumes "settles P n c pre good" "\<forall>b \<in> set (bases i). pre b"
    and cond: "\<And>j. cond j \<longleftrightarrow> list_all good (bases j)"
  shows "snd (poll_timeout n cond (iommu_elapse P) (rk_iommu_command P i c))"
proof -
  from assms(1) obtain k where k: "k \<le> n"
    "\<And>h. pre h \<Longrightarrow> good ((elapse P ^^ k) (writel P h RK_MMU_COMMAND c))"
    by (auto simp: settles_def)
  show ?thesis
    by (rule poll_timeout_live [OF k(1)])
      (use assms(2) k(2) in \<open>auto simp: cond list_all_iff bases_elapse rk_iommu_command_def\<close>)
qed

lemma command_loop_live:
  assumes "settles P (budget P RK_MMU_POLL_PERIOD_US RK_MMU_POLL_TIMEOUT_US) c pre good"
    and "\<forall>b \<in> set (bases i). pre b" "\<And>j. cond j \<longleftrightarrow> list_all good (bases j)"
  shows "snd (command_loop P c cond n i) = None"
  using poll_command_live [OF assms]
  by (subst command_loop.simps) (auto simp: send_command_def Let_def split: prod.splits)

abbreviation stalled :: "'hw mmu_port \<Rightarrow> 'hw \<Rightarrow> bool" where
  "stalled P b \<equiv> rk_iommu_read P b RK_MMU_STATUS AND RK_MMU_STATUS_STALL_ACTIVE \<noteq> 0"

abbreviation paging :: "'hw mmu_port \<Rightarrow> 'hw \<Rightarrow> bool" where
  "paging P b \<equiv> rk_iommu_read P b RK_MMU_STATUS AND RK_MMU_STATUS_PAGING_ENABLED \<noteq> 0"

lemma rk_iommu_enable_stall_live:
  assumes "settles P (budget P RK_MMU_POLL_PERIOD_US RK_MMU_POLL_TIMEOUT_US)
      RK_MMU_CMD_ENABLE_STALL (paging P) (stalled P)" "\<not> skip_read i"
  shows "snd (rk_iommu_enable_stall P i) = None"
  using command_loop_live [OF assms(1), of i "rk_iommu_is_stall_active P"] assms(2)
  by (auto simp: rk_iommu_enable_stall_def rk_iommu_is_stall_active_def
      rk_iommu_is_paging_enabled_def list_all_iff)

lemma rk_iommu_enable_paging_live:
  assumes "settles P (budget P RK_MMU_POLL_PERIOD_US RK_MMU_POLL_TIMEOUT_US)
      RK_MMU_CMD_ENABLE_PAGING (\<lambda>_. True) (paging P)"
  shows "snd (rk_iommu_enable_paging P i) = None"
  using command_loop_live [OF assms, of i "rk_iommu_is_paging_enabled P"]
  by (simp add: rk_iommu_enable_paging_def rk_iommu_is_paging_enabled_def)

lemma check_dte_addr_ok:
  "reads_back P RK_MMU_DTE_ADDR m \<Longrightarrow> DTE_ADDR_DUMMY AND m = DTE_ADDR_DUMMY AND am
   \<Longrightarrow> snd (check_dte_addr P am bs)"
  by (induction bs) (auto simp: reads_back_def rk_iommu_read_def rk_iommu_write_def Let_def
      split: prod.splits)

definition dte_mask :: "u32 \<Rightarrow> u32" where
  "dte_mask ver = (if ver \<ge> 2 then ucast RK_DTE_PT_ADDRESS_MASK_V2 else ucast RK_DTE_PT_ADDRESS_MASK)"

lemma rk_iommu_force_reset_live:
  assumes "settles P (budget P RK_MMU_FORCE_RESET_TIMEOUT_US RK_MMU_POLL_TIMEOUT_US)
      RK_MMU_CMD_FORCE_RESET (\<lambda>_. True) (\<lambda>b. rk_iommu_read P b RK_MMU_DTE_ADDR = 0)"
    and "reads_back P RK_MMU_DTE_ADDR (dte_mask (version i))"
  shows "snd (rk_iommu_force_reset P i) = None"
proof -
  obtain i1 ok where i1: "reset_check P i = (i1, ok)" by (cases "reset_check P i")
  have "ok" using i1 check_dte_addr_ok [OF assms(2), of "dte_mask (version i)" "bases i"]
    by (auto simp: reset_check_def dte_mask_def Let_def split: if_splits)
  moreover have "snd (poll_timeout (budget P RK_MMU_FORCE_RESET_TIMEOUT_US RK_MMU_POLL_TIMEOUT_US)
      (rk_iommu_is_reset_done P) (iommu_elapse P) (rk_iommu_command P i1 RK_MMU_CMD_FORCE_RESET))"
    by (rule poll_command_live [OF assms(1)]) (simp_all add: rk_iommu_is_reset_done_def)
  ultimately show ?thesis
    by (auto simp: rk_iommu_force_reset_def i1 Let_def split: prod.splits)
qed

text \<open>The behaviour of a working device that enabling relies on.\<close>

definition responsive :: "'hw mmu_port \<Rightarrow> u32 \<Rightarrow> bool" where
  "responsive P ver \<longleftrightarrow>
     settles P (budget P RK_MMU_POLL_PERIOD_US RK_MMU_POLL_TIMEOUT_US)
       RK_MMU_CMD_ENABLE_STALL (paging P) (stalled P)
   \<and> settles P (budget P RK_MMU_POLL_PERIOD_US RK_MMU_POLL_TIMEOUT_US)
       RK_MMU_CMD_ENABLE_PAGING (\<lambda>_. True) (paging P)
   \<and> settles P (budget P RK_MMU_FORCE_RESET_TIMEOUT_US RK_MMU_POLL_TIMEOUT_US)
       RK_MMU_CMD_FORCE_RESET (\<lambda>_. True) (\<lambda>b. rk_iommu_read P b RK_MMU_DTE_ADDR = 0)
   \<and> reads_back P RK_MMU_DTE_ADDR (dte_mask ver)"

lemma responsive_enable:
  assumes dev: "responsive P (version i)" and i: "clk_error i = None" "\<not> skip_read i"
  shows "snd (rk_iommu_enable P dt i) = None"
proof -
  let ?i1 = "i\<lparr>clk_count := clk_count i + 1\<rparr>"
  obtain i2 e2 where i2: "rk_iommu_enable_stall P ?i1 = (i2, e2)"
    by (cases "rk_iommu_enable_stall P ?i1")
  have e2: "e2 = None"
    using rk_iommu_enable_stall_live [of P ?i1] dev i i2 by (simp add: responsive_def)
  have v2: "version i2 = version i"
    using stall_paging_frame(1) [of ?i1 P] i2 by (simp add: same_but_basesD)
  obtain i3 e3 where i3: "rk_iommu_force_reset P i2 = (i3, e3)"
    by (cases "rk_iommu_force_reset P i2")
  have "e3 = None"
    using rk_iommu_force_reset_live [of P i2] dev i3 v2 by (simp add: responsive_def)
  moreover have "snd (rk_iommu_enable_paging P j) = None" for j
    using dev by (simp add: responsive_def rk_iommu_enable_paging_live)
  ultimately show ?thesis
    using i i2 i3 e2
    by (simp add: rk_iommu_enable_def clk_bulk_enable_def enable_stalled_def case_prod_beta)
qed

text \<open>Enabling a device that responds to the commands within the time limits succeeds.\<close>

theorem rk_iommu_enable_live:
  assumes "responsive P (version i)" "clk_error i = None" "\<not> skip_read i"
  shows "snd (rk_iommu_enable P dt i) = None"
  using assms by (rule responsive_enable)

section \<open>The interrupt handler acknowledges what it saw\<close>

text \<open>
  The laws of the interrupt registers: writing to \<open>INT_CLEAR\<close> clears the written bits of
  \<open>INT_STATUS\<close>, and the two commands of the handler leave them alone.
\<close>

definition irq_law :: "'hw mmu_port \<Rightarrow> bool" where
  "irq_law P \<longleftrightarrow>
     (\<forall>h v. readl P (writel P h RK_MMU_INT_CLEAR v) RK_MMU_INT_STATUS
        = readl P h RK_MMU_INT_STATUS AND NOT v)
   \<and> (\<forall>h c. c = RK_MMU_CMD_ZAP_CACHE \<or> c = RK_MMU_CMD_PAGE_FAULT_DONE \<longrightarrow>
        readl P (writel P h RK_MMU_COMMAND c) RK_MMU_INT_STATUS = readl P h RK_MMU_INT_STATUS)"

lemma irq_base_clears:
  assumes "irq_law P"
  shows "readl P (fst (irq_base P att b)) RK_MMU_INT_STATUS = 0"
  using assms
  by (auto simp: irq_base_def Let_def rk_iommu_read_def rk_iommu_write_def rk_iommu_base_command_def irq_law_def)

lemma irq_base_frame:
  "fst (snd (irq_base P att b)) \<longleftrightarrow> rk_iommu_read P b RK_MMU_INT_STATUS \<noteq> 0"
  "snd (snd (irq_base P att b)) =
     (if att \<and> rk_iommu_read P b RK_MMU_INT_STATUS AND RK_MMU_IRQ_PAGE_FAULT \<noteq> 0
      then Some (ucast (rk_iommu_read P b RK_MMU_PAGE_FAULT_ADDR), rk_iommu_read P b RK_MMU_STATUS) else None)"
  by (auto simp: irq_base_def Let_def)

text \<open>
  The interrupt handler of a powered IOMMU leaves no interrupt pending in any MMU, reports
  IRQ_HANDLED exactly when one was pending, hands the domain one fault for each MMU with a page
  fault, in order, and drops the clock and power references it took.
\<close>

theorem rk_iommu_irq_acknowledges:
  assumes law: "irq_law P" and on: "0 < pm_in_use i" "clk_error i = None"
  shows "case rk_iommu_irq P i of (i', ret, faults) \<Rightarrow>
      same_but_bases i i'
    \<and> (\<forall>b \<in> set (bases i'). rk_iommu_read P b RK_MMU_INT_STATUS = 0)
    \<and> (ret = IRQ_HANDLED \<longleftrightarrow> (\<exists>b \<in> set (bases i). rk_iommu_read P b RK_MMU_INT_STATUS \<noteq> 0))
    \<and> faults = map (\<lambda>b. (ucast (rk_iommu_read P b RK_MMU_PAGE_FAULT_ADDR), rk_iommu_read P b RK_MMU_STATUS))
        (filter (\<lambda>b. has_domain i \<and> rk_iommu_read P b RK_MMU_INT_STATUS AND RK_MMU_IRQ_PAGE_FAULT \<noteq> 0) (bases i))"
proof -
  let ?i2 = "i\<lparr>pm_count := pm_count i + 1, clk_count := clk_count i + 1\<rparr>"
  let ?rs = "map (irq_base P (has_domain i)) (bases i)"
  have eq: "rk_iommu_irq P i = (i\<lparr>bases := map fst ?rs\<rparr>,
      (if list_ex (\<lambda>r. fst (snd r)) ?rs then IRQ_HANDLED else IRQ_NONE),
      List.map_filter (\<lambda>r. snd (snd r)) ?rs)"
    using on by (simp add: rk_iommu_irq_def clk_bulk_enable_def clk_bulk_disable_def Let_def)
  have faults: "List.map_filter (\<lambda>r. snd (snd r)) (map (irq_base P a) bs) =
      map (\<lambda>b. (ucast (rk_iommu_read P b RK_MMU_PAGE_FAULT_ADDR), rk_iommu_read P b RK_MMU_STATUS))
        (filter (\<lambda>b. a \<and> rk_iommu_read P b RK_MMU_INT_STATUS AND RK_MMU_IRQ_PAGE_FAULT \<noteq> 0) bs)" for a bs
    by (induction bs; cases a) (simp_all add: irq_base_frame map_filter_simps)
  show ?thesis
    using irq_base_clears [OF law]
    by (auto simp: eq faults rk_iommu_read_def [of P _ RK_MMU_INT_STATUS] irq_base_frame list_ex_iff)
qed

section \<open>A device that meets the laws\<close>

text \<open>
  A concrete MMU, for the witnesses: a register file with a status register that follows the
  commands at once, and a TLB.
\<close>

record sim_mmu =
  sregs :: "u32 \<Rightarrow> u32"
  stlb :: "nat set"

definition sim_command :: "sim_mmu \<Rightarrow> u32 \<Rightarrow> sim_mmu" where
  "sim_command h c =
     (let st = sregs h RK_MMU_STATUS; set_st = (\<lambda>v. h\<lparr>sregs := (sregs h)(RK_MMU_STATUS := v)\<rparr>) in
      if c = RK_MMU_CMD_ENABLE_STALL then
        (if st AND RK_MMU_STATUS_PAGING_ENABLED \<noteq> 0 then set_st (st OR RK_MMU_STATUS_STALL_ACTIVE) else h)
      else if c = RK_MMU_CMD_DISABLE_STALL then set_st (st AND NOT RK_MMU_STATUS_STALL_ACTIVE)
      else if c = RK_MMU_CMD_ENABLE_PAGING then set_st (st OR RK_MMU_STATUS_PAGING_ENABLED)
      else if c = RK_MMU_CMD_DISABLE_PAGING then set_st (st AND NOT RK_MMU_STATUS_PAGING_ENABLED)
      else if c = RK_MMU_CMD_ZAP_CACHE then h\<lparr>stlb := {}\<rparr>
      else if c = RK_MMU_CMD_FORCE_RESET then \<lparr>sregs = (\<lambda>_. 0), stlb = {}\<rparr>
      else h)"

definition sim_writel :: "u32 \<Rightarrow> sim_mmu \<Rightarrow> u32 \<Rightarrow> u32 \<Rightarrow> sim_mmu" where
  "sim_writel m h off v =
     (if off = RK_MMU_COMMAND then sim_command h v
      else if off = RK_MMU_ZAP_ONE_LINE then h\<lparr>stlb := stlb h - {unat v div 4096}\<rparr>
      else if off = RK_MMU_STATUS \<or> off = RK_MMU_INT_STATUS then h
      else if off = RK_MMU_INT_CLEAR
      then h\<lparr>sregs := (sregs h)(RK_MMU_INT_STATUS := sregs h RK_MMU_INT_STATUS AND NOT v)\<rparr>
      else if off = RK_MMU_DTE_ADDR then h\<lparr>sregs := (sregs h)(off := v AND m)\<rparr>
      else h\<lparr>sregs := (sregs h)(off := v)\<rparr>)"

definition sim_port :: "u32 \<Rightarrow> sim_mmu mmu_port" where
  "sim_port m = \<lparr>readl = sregs, writel = sim_writel m, elapse = id, budget = (\<lambda>s t. t div s)\<rparr>"

lemma sim_port_sel [simp]:
  "readl (sim_port m) = sregs" "writel (sim_port m) = sim_writel m" "elapse (sim_port m) = id"
  "budget (sim_port m) s t = t div s"
  by (simp_all add: sim_port_def)

lemma sim_laws:
  "zap_law (sim_port m) stlb"
  "reg_stable (sim_port m) RK_MMU_DTE_ADDR" "reg_stable (sim_port m) RK_MMU_INT_MASK"
  "reads_back (sim_port m) RK_MMU_DTE_ADDR m" "reads_back (sim_port m) RK_MMU_INT_MASK (- 1)"
  "irq_law (sim_port m)"
  by (auto simp: irq_law_def mmu_cmds zap_law_def reg_stable_def reads_back_def sim_writel_def sim_command_def Let_def
      mmu_regs)

lemma sim_responsive: "responsive (sim_port (dte_mask ver)) ver"
  by (auto simp: responsive_def settles_def rk_iommu_read_def sim_writel_def sim_command_def Let_def
      mmu_regs mmu_cmds reads_back_def RK_MMU_STATUS_STALL_ACTIVE_def
      RK_MMU_STATUS_PAGING_ENABLED_def bit_simps masks intro!: exI [of _ 0])

definition sim_iommu :: "sim_mmu rk_iommu" where
  "sim_iommu = \<lparr>bases = [\<lparr>sregs = (\<lambda>_. 0), stlb = {0, 1}\<rparr>], reset_disabled = False,
     skip_read = False, cmd_retry = True, version = 2, shootdown_entire = False,
     has_domain = True, pm_in_use = 1, clk_error = None, clk_count = 0, pm_count = 0\<rparr>"

theorem rk_iommu_irq_acknowledges_witness:
  "\<exists>h. sregs h RK_MMU_INT_STATUS = 1 \<and> sregs h RK_MMU_PAGE_FAULT_ADDR = 0x5000
     \<and> snd (rk_iommu_irq (sim_port 0) (sim_iommu\<lparr>bases := [h]\<rparr>)) = (IRQ_HANDLED, [(0x5000, 0)])"
proof -
  let ?h = "\<lparr>sregs = (\<lambda>_. 0)(RK_MMU_INT_STATUS := 1, RK_MMU_PAGE_FAULT_ADDR := 0x5000), stlb = {}\<rparr>"
  have "case rk_iommu_irq (sim_port 0) (sim_iommu\<lparr>bases := [?h]\<rparr>) of (i', ret, faults) \<Rightarrow>
      (ret = IRQ_HANDLED) \<and> faults = [(0x5000, 0)]"
    using rk_iommu_irq_acknowledges [OF sim_laws(6) [of 0], of "sim_iommu\<lparr>bases := [?h]\<rparr>"]
    by (auto simp: sim_iommu_def mmu_regs RK_MMU_IRQ_PAGE_FAULT_def rk_iommu_read_def)
  then show ?thesis by (intro exI [of _ ?h]) (auto simp: mmu_regs split: prod.splits)
qed

theorem rk_iommu_enable_programs_witness:
  "\<exists>i. rk_iommu_enable (sim_port (dte_mask 2)) 0x123456000 sim_iommu = (i, None)
     \<and> (\<forall>b \<in> set (bases i). rk_iommu_read (sim_port (dte_mask 2)) b RK_MMU_DTE_ADDR
          = dte_addr_reg 2 0x123456000 AND dte_mask 2)"
proof -
  let ?P = "sim_port (dte_mask 2)"
  have "snd (rk_iommu_enable ?P 0x123456000 sim_iommu) = None"
    by (rule responsive_enable) (simp_all add: sim_iommu_def sim_responsive)
  then obtain i where i: "rk_iommu_enable ?P 0x123456000 sim_iommu = (i, None)" by (metis prod.collapse)
  have "version sim_iommu = 2" by (simp add: sim_iommu_def)
  with rk_iommu_enable_programs [OF sim_laws(2-5) i] i show ?thesis by auto
qed

theorem rk_iommu_enable_live_witness: "snd (rk_iommu_enable (sim_port (dte_mask 2)) 0x1000 sim_iommu) = None"
  by (rule rk_iommu_enable_live) (simp_all add: sim_iommu_def sim_responsive)

end
