(* ===== verification/Rk_Iommu_Table.thy ===== *)
theory Rk_Iommu_Table
  imports Rk_Iommu_Hw
begin

text \<open>
  The two-level page table of \<open>rockchip-iommu.c\<close>: allocating a page table, mapping and unmapping a
  range, translating an address, freeing a domain. Tables live in memory, a map from the physical
  address of an aligned word to the word; \<open>cpu_mem\<close> is what the CPU reads and writes and
  \<open>dev_mem\<close> what the IOMMU's table walker sees, which \<open>rk_table_flush\<close> brings up to date.
\<close>

section \<open>State\<close>

text \<open>
  \<open>struct rk_iommu_domain\<close>. \<open>page_supply\<close> lists what the next calls of \<open>get_zeroed_page\<close> and of
  \<open>dma_map_single\<close> return: a page, and its DMA address or a mapping error; an empty list is an
  allocation failure. \<open>released\<close> is the log of what has been given back: pages, DMA mappings,
  the DMA cookie, the structure itself.
\<close>

datatype domain_type = IOMMU_DOMAIN_BLOCKED | IOMMU_DOMAIN_IDENTITY | IOMMU_DOMAIN_UNMANAGED
  | IOMMU_DOMAIN_DMA

datatype release = Free_page u64 | Dma_unmap u64 | Put_cookie | Kfree

record 'hw rk_domain =
  dt :: u64
  dt_dma :: u64
  cpu_mem :: "u64 \<Rightarrow> u32"
  dev_mem :: "u64 \<Rightarrow> u32"
  page_supply :: "(u64 \<times> u64 option) list"
  released :: "release list"
  dom_type :: domain_type
  dom_shootdown_entire :: bool
  iommus :: "'hw rk_iommu list"

definition NUM_DT_ENTRIES :: nat where "NUM_DT_ENTRIES = 1024"
definition NUM_PT_ENTRIES :: nat where "NUM_PT_ENTRIES = 1024"

text \<open>\<open>elem p k\<close> of the prelude is the address of entry \<open>k\<close> of the table at \<open>p\<close>.\<close>

definition rk_table_flush :: "'hw rk_domain \<Rightarrow> u64 \<Rightarrow> nat \<Rightarrow> 'hw rk_domain" where
  "rk_table_flush d dma count =
     d\<lparr>dev_mem := (\<lambda>a. if unat (a - dma) < 4 * count then cpu_mem d a else dev_mem d a)\<rparr>"

section \<open>Translation\<close>

definition iova_to_phys_with ::
  "(u32 \<Rightarrow> u64) \<Rightarrow> (u32 \<Rightarrow> u64) \<Rightarrow> 'hw rk_domain \<Rightarrow> u64 \<Rightarrow> u64" where
  "iova_to_phys_with pt_address page_address d iova =
     (let dte = cpu_mem d (elem (dt d) (unat (rk_iova_dte_index iova))) in
      if \<not> rk_dte_is_pt_valid dte then 0
      else
        let pte = cpu_mem d (elem (pt_address dte) (unat (rk_iova_pte_index iova))) in
        if \<not> rk_pte_is_page_valid pte then 0
        else page_address pte + ucast (rk_iova_page_offset iova))"

definition rk_iommu_iova_to_phys :: "'hw rk_domain \<Rightarrow> u64 \<Rightarrow> u64" where
  "rk_iommu_iova_to_phys = iova_to_phys_with rk_dte_pt_address rk_pte_page_address"

definition rk_iommu_iova_to_phys_v2 :: "'hw rk_domain \<Rightarrow> u64 \<Rightarrow> u64" where
  "rk_iommu_iova_to_phys_v2 = iova_to_phys_with rk_dte_pt_address_v2 rk_pte_page_address_v2"

section \<open>TLB shootdown\<close>

text \<open>Only the MMUs that are powered are zapped; an error of the clocks is a warning.\<close>

fun zap_iommus ::
  "'hw mmu_port \<Rightarrow> u64 \<Rightarrow> u64 \<Rightarrow> 'hw rk_iommu list \<Rightarrow> 'hw rk_iommu list option" where
  "zap_iommus P iova sz [] = Some []"
| "zap_iommus P iova sz (i # is) =
     (if pm_in_use i > 0 then
        Option.bind
          (rk_iommu_zap_lines P (fst (clk_bulk_enable (i\<lparr>pm_count := pm_count i + 1\<rparr>))) iova sz)
          (\<lambda>i1. let i2 = clk_bulk_disable i1 in
            Option.bind (zap_iommus P iova sz is)
              (\<lambda>is'. Some (i2\<lparr>pm_count := pm_count i2 - 1\<rparr> # is')))
      else Option.bind (zap_iommus P iova sz is) (\<lambda>is'. Some (i # is')))"

definition rk_iommu_zap_iova ::
  "'hw mmu_port \<Rightarrow> 'hw rk_domain \<Rightarrow> u64 \<Rightarrow> u64 \<Rightarrow> 'hw rk_domain option" where
  "rk_iommu_zap_iova P d iova sz =
     map_option (\<lambda>is. d\<lparr>iommus := is\<rparr>) (zap_iommus P iova sz (iommus d))"

definition rk_iommu_zap_iova_first_last ::
  "'hw mmu_port \<Rightarrow> 'hw rk_domain \<Rightarrow> u64 \<Rightarrow> u64 \<Rightarrow> 'hw rk_domain option" where
  "rk_iommu_zap_iova_first_last P d iova sz =
     Option.bind (rk_iommu_zap_iova P d iova SPAGE_SIZE) (\<lambda>dom1.
       if sz > SPAGE_SIZE then rk_iommu_zap_iova P dom1 (iova + sz - SPAGE_SIZE) SPAGE_SIZE
       else Some dom1)"

definition rk_iommu_flush_tlb_all :: "'hw mmu_port \<Rightarrow> 'hw rk_domain \<Rightarrow> 'hw rk_domain" where
  "rk_iommu_flush_tlb_all P d =
     d\<lparr>iommus := map (\<lambda>i.
       if pm_in_use i > 0 then
         let i1 = fst (clk_bulk_enable (i\<lparr>pm_count := pm_count i + 1\<rparr>));
             i2 = i1\<lparr>bases := map (\<lambda>b. rk_iommu_write P b RK_MMU_COMMAND RK_MMU_CMD_ZAP_CACHE) (bases i1)\<rparr>;
             i3 = clk_bulk_disable i2
         in i3\<lparr>pm_count := pm_count i3 - 1\<rparr>
       else i) (iommus d)\<rparr>"

section \<open>Allocating a page table\<close>

definition zero_page :: "(u64 \<Rightarrow> u32) \<Rightarrow> u64 \<Rightarrow> (u64 \<Rightarrow> u32)" where
  "zero_page mem page = (\<lambda>a. if unat (a - page) < 4096 then 0 else mem a)"

definition get_page_table_with ::
  "(u64 \<Rightarrow> u32) \<Rightarrow> (u32 \<Rightarrow> u64) \<Rightarrow> 'hw rk_domain \<Rightarrow> u64 \<Rightarrow> 'hw rk_domain \<times> u64 result" where
  "get_page_table_with mk_dte pt_address d iova =
     (let dte_index = unat (rk_iova_dte_index iova);
          dte_addr = elem (dt d) dte_index;
          dte = cpu_mem d dte_addr in
      if rk_dte_is_pt_valid dte then (d, Inr (pt_address dte))
      else
        case page_supply d of
          [] \<Rightarrow> (d, Inl ENOMEM)
        | (page_table, mapping) # rest \<Rightarrow>
            let dom1 = d\<lparr>page_supply := rest, cpu_mem := zero_page (cpu_mem d) page_table\<rparr> in
            (case mapping of
               None \<Rightarrow> (dom1\<lparr>released := released dom1 @ [Free_page page_table]\<rparr>, Inl ENOMEM)
             | Some pt_dma \<Rightarrow>
                 let dte' = mk_dte pt_dma;
                     dom2 = dom1\<lparr>cpu_mem := (cpu_mem dom1)(dte_addr := dte')\<rparr>;
                     dom3 = rk_table_flush dom2 pt_dma NUM_PT_ENTRIES;
                     dom4 = rk_table_flush dom3 (elem (dt_dma dom3) dte_index) 1
                 in (dom4, Inr (pt_address dte'))))"

definition rk_dte_get_page_table :: "'hw rk_domain \<Rightarrow> u64 \<Rightarrow> 'hw rk_domain \<times> u64 result" where
  "rk_dte_get_page_table = get_page_table_with rk_mk_dte rk_dte_pt_address"

definition rk_dte_get_page_table_v2 :: "'hw rk_domain \<Rightarrow> u64 \<Rightarrow> 'hw rk_domain \<times> u64 result" where
  "rk_dte_get_page_table_v2 = get_page_table_with rk_mk_dte_v2 rk_dte_pt_address_v2"

section \<open>Mapping and unmapping\<close>

text \<open>
  The loop of \<open>rk_iommu_unmap_iova\<close>: \<open>c\<close> is \<open>pte_count\<close>, the second number the turns left. It stops
  at the first entry that is not valid.
\<close>

fun unmap_ptes :: "(u64 \<Rightarrow> u32) \<Rightarrow> u64 \<Rightarrow> nat \<Rightarrow> nat \<Rightarrow> (u64 \<Rightarrow> u32) \<times> nat" where
  "unmap_ptes mem pte_addr c 0 = (mem, c)"
| "unmap_ptes mem pte_addr c (Suc n) =
     (let pte = mem (elem pte_addr c) in
      if \<not> rk_pte_is_page_valid pte then (mem, c)
      else unmap_ptes (mem(elem pte_addr c := rk_mk_pte_invalid pte)) pte_addr (Suc c) n)"

text \<open>\<open>unsigned int pte_total = size / SPAGE_SIZE\<close>, and \<open>pte_count * SPAGE_SIZE\<close> in 32 bits.\<close>

definition pte_total :: "u64 \<Rightarrow> nat" where
  "pte_total sz = unat (ucast (sz div SPAGE_SIZE) :: u32)"

definition pte_bytes :: "nat \<Rightarrow> u64" where
  "pte_bytes c = ucast ((of_nat c :: u32) * ucast SPAGE_SIZE)"

definition rk_iommu_unmap_iova ::
  "'hw rk_domain \<Rightarrow> u64 \<Rightarrow> u64 \<Rightarrow> u64 \<Rightarrow> 'hw rk_domain \<times> u64" where
  "rk_iommu_unmap_iova d pte_addr pte_dma sz =
     (let (mem, pte_count) = unmap_ptes (cpu_mem d) pte_addr 0 (pte_total sz) in
      (rk_table_flush (d\<lparr>cpu_mem := mem\<rparr>) pte_dma pte_count, pte_bytes pte_count))"

text \<open>The loop of \<open>rk_iommu_map_iova\<close>; the flag is false when it jumps to \<open>unwind\<close>.\<close>

fun map_ptes ::
  "(u64 \<Rightarrow> u32 \<Rightarrow> u32) \<Rightarrow> u32 \<Rightarrow> u64 \<Rightarrow> (u64 \<Rightarrow> u32) \<Rightarrow> u64 \<Rightarrow> nat \<Rightarrow> nat \<Rightarrow> (u64 \<Rightarrow> u32) \<times> nat \<times> bool"
where
  "map_ptes mk_pte prot pte_addr mem paddr c 0 = (mem, c, True)"
| "map_ptes mk_pte prot pte_addr mem paddr c (Suc n) =
     (if rk_pte_is_page_valid (mem (elem pte_addr c)) then (mem, c, False)
      else map_ptes mk_pte prot pte_addr (mem(elem pte_addr c := mk_pte paddr prot))
             (paddr + SPAGE_SIZE) (Suc c) n)"

definition map_iova_with ::
  "(u64 \<Rightarrow> u32 \<Rightarrow> u32) \<Rightarrow> 'hw mmu_port \<Rightarrow> 'hw rk_domain \<Rightarrow> u64 \<Rightarrow> u64 \<Rightarrow> u64 \<Rightarrow> u64 \<Rightarrow> u64 \<Rightarrow> u32
   \<Rightarrow> ('hw rk_domain \<times> errno option) option" where
  "map_iova_with mk_pte P d pte_addr pte_dma iova paddr sz prot =
     (let (mem, pte_count, ok) = map_ptes mk_pte prot pte_addr (cpu_mem d) paddr 0 (pte_total sz);
          dom1 = d\<lparr>cpu_mem := mem\<rparr> in
      if ok then
        let dom2 = rk_table_flush dom1 pte_dma (pte_total sz) in
        if \<not> dom_shootdown_entire dom2
        then map_option (\<lambda>d. (d, None)) (rk_iommu_zap_iova_first_last P dom2 iova sz)
        else Some (dom2, None)
      else Some (fst (rk_iommu_unmap_iova dom1 pte_addr pte_dma (pte_bytes pte_count)), Some EADDRINUSE))"

definition rk_iommu_map_iova ::
  "'hw mmu_port \<Rightarrow> 'hw rk_domain \<Rightarrow> u64 \<Rightarrow> u64 \<Rightarrow> u64 \<Rightarrow> u64 \<Rightarrow> u64 \<Rightarrow> u32
   \<Rightarrow> ('hw rk_domain \<times> errno option) option" where
  "rk_iommu_map_iova = map_iova_with rk_mk_pte"

definition rk_iommu_map_iova_v2 ::
  "'hw mmu_port \<Rightarrow> 'hw rk_domain \<Rightarrow> u64 \<Rightarrow> u64 \<Rightarrow> u64 \<Rightarrow> u64 \<Rightarrow> u64 \<Rightarrow> u32
   \<Rightarrow> ('hw rk_domain \<times> errno option) option" where
  "rk_iommu_map_iova_v2 = map_iova_with rk_mk_pte_v2"

definition map_with ::
  "('hw rk_domain \<Rightarrow> u64 \<Rightarrow> 'hw rk_domain \<times> u64 result)
   \<Rightarrow> (u32 \<Rightarrow> u64)
   \<Rightarrow> ('hw mmu_port \<Rightarrow> 'hw rk_domain \<Rightarrow> u64 \<Rightarrow> u64 \<Rightarrow> u64 \<Rightarrow> u64 \<Rightarrow> u64 \<Rightarrow> u32
       \<Rightarrow> ('hw rk_domain \<times> errno option) option)
   \<Rightarrow> 'hw mmu_port \<Rightarrow> 'hw rk_domain \<Rightarrow> u64 \<Rightarrow> u64 \<Rightarrow> u64 \<Rightarrow> u32 \<Rightarrow> ('hw rk_domain \<times> errno option) option"
where
  "map_with get_page_table pt_address map_iova P d iova paddr sz prot =
     (let (dom1, page_table) = get_page_table d iova in
      case page_table of
        Inl e \<Rightarrow> Some (dom1, Some e)
      | Inr table \<Rightarrow>
          let dte = cpu_mem dom1 (elem (dt dom1) (unat (rk_iova_dte_index iova)));
              pte_index = unat (rk_iova_pte_index iova)
          in map_iova P dom1 (elem table pte_index) (elem (pt_address dte) pte_index) iova paddr sz prot)"

definition rk_iommu_map ::
  "'hw mmu_port \<Rightarrow> 'hw rk_domain \<Rightarrow> u64 \<Rightarrow> u64 \<Rightarrow> u64 \<Rightarrow> u32 \<Rightarrow> ('hw rk_domain \<times> errno option) option" where
  "rk_iommu_map = map_with rk_dte_get_page_table rk_dte_pt_address rk_iommu_map_iova"

definition rk_iommu_map_v2 ::
  "'hw mmu_port \<Rightarrow> 'hw rk_domain \<Rightarrow> u64 \<Rightarrow> u64 \<Rightarrow> u64 \<Rightarrow> u32 \<Rightarrow> ('hw rk_domain \<times> errno option) option" where
  "rk_iommu_map_v2 = map_with rk_dte_get_page_table_v2 rk_dte_pt_address_v2 rk_iommu_map_iova_v2"

text \<open>The common part of the two unmap functions, up to the release of the lock.\<close>

definition unmap_table_with ::
  "(u32 \<Rightarrow> u64) \<Rightarrow> 'hw rk_domain \<Rightarrow> u64 \<Rightarrow> u64 \<Rightarrow> ('hw rk_domain \<times> u64) option" where
  "unmap_table_with pt_address d iova sz =
     (let dte = cpu_mem d (elem (dt d) (unat (rk_iova_dte_index iova))) in
      if \<not> rk_dte_is_pt_valid dte then None
      else
        let pte_addr = elem (pt_address dte) (unat (rk_iova_pte_index iova)) in
        Some (rk_iommu_unmap_iova d pte_addr pte_addr sz))"

definition rk_iommu_unmap ::
  "'hw mmu_port \<Rightarrow> 'hw rk_domain \<Rightarrow> u64 \<Rightarrow> u64 \<Rightarrow> ('hw rk_domain \<times> u64) option" where
  "rk_iommu_unmap P d iova sz =
     (case unmap_table_with rk_dte_pt_address d iova sz of
        None \<Rightarrow> Some (d, 0)
      | Some (dom1, unmap_size) \<Rightarrow>
          map_option (\<lambda>d. (d, unmap_size)) (rk_iommu_zap_iova P dom1 iova unmap_size))"

definition rk_iommu_unmap_v2 ::
  "'hw mmu_port \<Rightarrow> 'hw rk_domain \<Rightarrow> u64 \<Rightarrow> u64 \<Rightarrow> ('hw rk_domain \<times> u64) option" where
  "rk_iommu_unmap_v2 P d iova sz =
     (case unmap_table_with rk_dte_pt_address_v2 d iova sz of
        None \<Rightarrow> Some (d, 0)
      | Some (dom1, unmap_size) \<Rightarrow>
          if \<not> dom_shootdown_entire dom1
          then map_option (\<lambda>d. (d, unmap_size)) (rk_iommu_zap_iova P dom1 iova unmap_size)
          else Some (dom1, unmap_size))"

section \<open>Freeing a domain\<close>

fun free_tables :: "(u32 \<Rightarrow> u64) \<Rightarrow> 'hw rk_domain \<Rightarrow> nat list \<Rightarrow> 'hw rk_domain" where
  "free_tables pt_address d [] = d"
| "free_tables pt_address d (i # is) =
     (let dte = cpu_mem d (elem (dt d) i) in
      free_tables pt_address
        (if rk_dte_is_pt_valid dte
         then d\<lparr>released := released d @ [Dma_unmap (pt_address dte), Free_page (pt_address dte)]\<rparr>
         else d) is)"

definition domain_free_with :: "(u32 \<Rightarrow> u64) \<Rightarrow> 'hw rk_domain \<Rightarrow> 'hw rk_domain" where
  "domain_free_with pt_address d =
     (let dom1 = free_tables pt_address d [0..<NUM_DT_ENTRIES] in
      dom1\<lparr>released := released dom1 @ [Dma_unmap (dt_dma dom1), Free_page (dt dom1)]
        @ (if dom_type dom1 = IOMMU_DOMAIN_DMA then [Put_cookie] else []) @ [Kfree]\<rparr>)"

definition rk_iommu_domain_free :: "'hw rk_domain \<Rightarrow> 'hw rk_domain" where
  "rk_iommu_domain_free = domain_free_with rk_dte_pt_address"

definition rk_iommu_domain_free_v2 :: "'hw rk_domain \<Rightarrow> 'hw rk_domain" where
  "rk_iommu_domain_free_v2 = domain_free_with rk_dte_pt_address_v2"

section \<open>The translation a domain holds\<close>

text \<open>
  The abstract view of a domain: for each directory index and table index the entry a walk of
  the two levels ends at, or nothing. \<open>mem\<close> is the CPU's view or the device's.
\<close>

definition walk :: "(u32 \<Rightarrow> u64) \<Rightarrow> u64 \<Rightarrow> (u64 \<Rightarrow> u32) \<Rightarrow> nat \<Rightarrow> nat \<Rightarrow> u32 option" where
  "walk pt_address dt0 mem i j =
     (let dte = mem (elem dt0 i) in
      if bit dte 0 then
        let pte = mem (elem (pt_address dte) j) in if bit pte 0 then Some pte else None
      else None)"

text \<open>
  Well-formedness: the directory is an aligned page, mapped at its own address, the page tables
  that are in use are distinct pages, none of them the directory, and the pages the allocator
  will hand out next are aligned, representable in an entry and in no other use.
\<close>

definition in_use :: "'hw rk_domain \<Rightarrow> nat \<Rightarrow> bool" where
  "in_use d i \<longleftrightarrow> i < 1024 \<and> bit (cpu_mem d (elem (dt d) i)) 0"

definition table_of :: "(u32 \<Rightarrow> u64) \<Rightarrow> 'hw rk_domain \<Rightarrow> nat \<Rightarrow> u64" where
  "table_of pt_address d i = pt_address (cpu_mem d (elem (dt d) i))"

definition wf_tables :: "(u32 \<Rightarrow> u64) \<Rightarrow> u64 \<Rightarrow> 'hw rk_domain \<Rightarrow> bool" where
  "wf_tables pt_address amask d \<longleftrightarrow>
     page_aligned (dt d) \<and> dt_dma d = dt d
   \<and> (\<forall>i. in_use d i \<longrightarrow> table_of pt_address d i \<noteq> dt d)
   \<and> (\<forall>i i'. in_use d i \<and> in_use d i' \<and> table_of pt_address d i = table_of pt_address d i' \<longrightarrow> i = i')
   \<and> distinct (map fst (page_supply d))
   \<and> (\<forall>p m. (p, m) \<in> set (page_supply d) \<longrightarrow>
        p AND amask = p \<and> (m = None \<or> m = Some p) \<and> p \<noteq> dt d
        \<and> (\<forall>i. in_use d i \<longrightarrow> table_of pt_address d i \<noteq> p))"

text \<open>The device sees what the CPU wrote: the directory and every table in use are flushed.\<close>

definition coherent :: "(u32 \<Rightarrow> u64) \<Rightarrow> 'hw rk_domain \<Rightarrow> bool" where
  "coherent pt_address d \<longleftrightarrow>
     (\<forall>i < 1024. dev_mem d (elem (dt d) i) = cpu_mem d (elem (dt d) i))
   \<and> (\<forall>i. in_use d i \<longrightarrow> (\<forall>j < 1024.
        dev_mem d (elem (table_of pt_address d i) j) = cpu_mem d (elem (table_of pt_address d i) j)))"

definition wf_domain :: "(u32 \<Rightarrow> u64) \<Rightarrow> u64 \<Rightarrow> 'hw rk_domain \<Rightarrow> bool" where
  "wf_domain pt_address amask d \<longleftrightarrow> wf_tables pt_address amask d \<and> coherent pt_address d"

lemma coherent_walk:
  "coherent pt_address d \<Longrightarrow> i < 1024 \<Longrightarrow> j < 1024
   \<Longrightarrow> walk pt_address (dt d) (dev_mem d) i j = walk pt_address (dt d) (cpu_mem d) i j"
  by (simp add: coherent_def walk_def in_use_def table_of_def Let_def)

lemma walk_in_use:
  "i < 1024 \<Longrightarrow> walk pt_address (dt d) (cpu_mem d) i j =
     (if in_use d i then
        let pte = cpu_mem d (elem (table_of pt_address d i) j) in if bit pte 0 then Some pte else None
      else None)"
  by (simp add: walk_def in_use_def table_of_def Let_def)

lemma wf_supplyD:
  assumes "wf_tables pt_address amask d" "(p, m) \<in> set (page_supply d)"
  shows "p AND amask = p \<and> (m = None \<or> m = Some p) \<and> p \<noteq> dt d
    \<and> (\<forall>i. in_use d i \<longrightarrow> table_of pt_address d i \<noteq> p)"
  using assms unfolding wf_tables_def by blast

section \<open>Translation reads the walk\<close>

lemma iova_to_phys_walk:
  "iova_to_phys_with pt_address page_address d iova =
     (case walk pt_address (dt d) (cpu_mem d) (unat (rk_iova_dte_index iova)) (unat (rk_iova_pte_index iova)) of
        None \<Rightarrow> 0
      | Some pte \<Rightarrow> page_address pte + ucast (rk_iova_page_offset iova))"
  by (simp add: iova_to_phys_with_def walk_def Let_def)

section \<open>The entry loops\<close>

text \<open>What one pass over the window of \<open>n\<close> entries from entry \<open>j\<close> of table \<open>t\<close> does.\<close>

lemma unmap_ptes_spec:
  assumes "unmap_ptes mem (elem t j) c n = (mem', c')" "page_aligned t" "j + c + n \<le> 1024"
  shows "c \<le> c' \<and> c' \<le> c + n
    \<and> (\<forall>k. c \<le> k \<and> k < c' \<longrightarrow> bit (mem (elem t (j + k))) 0)
    \<and> (c' < c + n \<longrightarrow> \<not> bit (mem (elem t (j + c'))) 0)
    \<and> (\<forall>b k. page_aligned b \<and> k < 1024 \<longrightarrow>
         mem' (elem b k) = (if b = t \<and> j + c \<le> k \<and> k < j + c' then rk_mk_pte_invalid (mem (elem b k))
                            else mem (elem b k)))"
  using assms
proof (induction mem "elem t j" c n rule: unmap_ptes.induct)
  case (1 mem c)
  then show ?case by auto
next
  case (2 mem c n)
  show ?case
  proof (cases "bit (mem (elem t (j + c))) 0")
    case False
    with 2 show ?thesis by (auto simp: Let_def)
  next
    case True
    let ?mem1 = "mem(elem t (j + c) := rk_mk_pte_invalid (mem (elem t (j + c))))"
    have eq: "unmap_ptes ?mem1 (elem t j) (Suc c) n = (mem', c')"
      using 2(2) True by (simp add: Let_def)
    have upd: "?mem1 (elem b k) = (if b = t \<and> k = j + c then rk_mk_pte_invalid (mem (elem b k)) else mem (elem b k))"
      if "page_aligned b" "k < 1024" for b k
      using that 2(3,4) by (auto simp: elem_eq_iff)
    note IH = 2(1) [OF refl, unfolded pte_valid_bit elem_elem, OF _ eq 2(3)]
    have len: "j + Suc c + n \<le> 1024" using 2(4) by simp
    have i1: "Suc c \<le> c'" "c' \<le> Suc c + n"
      and i2: "\<And>k. Suc c \<le> k \<Longrightarrow> k < c' \<Longrightarrow> bit (?mem1 (elem t (j + k))) 0"
      and i3: "c' < Suc c + n \<Longrightarrow> \<not> bit (?mem1 (elem t (j + c'))) 0"
      and i4: "\<And>b k. page_aligned b \<Longrightarrow> k < 1024 \<Longrightarrow> mem' (elem b k) =
         (if b = t \<and> j + Suc c \<le> k \<and> k < j + c' then rk_mk_pte_invalid (?mem1 (elem b k)) else ?mem1 (elem b k))"
      using IH True len by auto
    have "bit (mem (elem t (j + k))) 0" if "c \<le> k" "k < c'" for k
      using that True i1 i2 [of k] upd [OF 2(3), of "j + k"] len by (cases "k = c") auto
    moreover have "\<not> bit (mem (elem t (j + c'))) 0" if "c' < c + Suc n"
      using that i1 i3 upd [OF 2(3), of "j + c'"] len by auto
    moreover have "mem' (elem b k) = (if b = t \<and> j + c \<le> k \<and> k < j + c' then rk_mk_pte_invalid (mem (elem b k))
                            else mem (elem b k))" if "page_aligned b" "k < 1024" for b k
      using i4 [OF that] upd [OF that] i1 by auto
    ultimately show ?thesis using i1 by auto
  qed
qed

lemma map_ptes_spec:
  assumes "map_ptes mk_pte prot (elem t j) mem paddr c n = (mem', c', ok)" "page_aligned t"
    and "j + c + n \<le> 1024" and mk: "\<And>p prot. bit (mk_pte p prot) 0"
  shows "c \<le> c' \<and> c' \<le> c + n \<and> (ok \<longleftrightarrow> c' = c + n)
    \<and> (\<forall>k. c \<le> k \<and> k < c' \<longrightarrow> \<not> bit (mem (elem t (j + k))) 0)
    \<and> (c' < c + n \<longrightarrow> bit (mem (elem t (j + c'))) 0)
    \<and> (\<forall>b k. page_aligned b \<and> k < 1024 \<longrightarrow>
         mem' (elem b k) = (if b = t \<and> j + c \<le> k \<and> k < j + c'
                            then mk_pte (paddr + of_nat (k - (j + c)) * SPAGE_SIZE) prot
                            else mem (elem b k)))"
  using assms(1-3)
proof (induction n arbitrary: mem paddr c)
  case 0
  then show ?case by auto
next
  case (Suc n)
  show ?case
  proof (cases "bit (mem (elem t (j + c))) 0")
    case True
    with Suc.prems show ?thesis by auto
  next
    case False
    let ?mem1 = "mem(elem t (j + c) := mk_pte paddr prot)"
    have eq: "map_ptes mk_pte prot (elem t j) ?mem1 (paddr + SPAGE_SIZE) (Suc c) n = (mem', c', ok)"
      using Suc.prems(1) False by simp
    have len: "j + Suc c + n \<le> 1024" using Suc.prems(3) by simp
    have upd: "?mem1 (elem b k) = (if b = t \<and> k = j + c then mk_pte paddr prot else mem (elem b k))"
      if "page_aligned b" "k < 1024" for b k
      using that Suc.prems(2) len by (auto simp: elem_eq_iff)
    have i1: "Suc c \<le> c'" "c' \<le> Suc c + n" "ok \<longleftrightarrow> c' = Suc c + n"
      and i2: "\<And>k. Suc c \<le> k \<Longrightarrow> k < c' \<Longrightarrow> \<not> bit (?mem1 (elem t (j + k))) 0"
      and i3: "c' < Suc c + n \<Longrightarrow> bit (?mem1 (elem t (j + c'))) 0"
      and i4: "\<And>b k. page_aligned b \<Longrightarrow> k < 1024 \<Longrightarrow> mem' (elem b k) =
         (if b = t \<and> j + Suc c \<le> k \<and> k < j + c'
          then mk_pte (paddr + SPAGE_SIZE + of_nat (k - (j + Suc c)) * SPAGE_SIZE) prot
          else ?mem1 (elem b k))"
      using Suc.IH [OF eq Suc.prems(2) len] by auto
    have "\<not> bit (mem (elem t (j + k))) 0" if "c \<le> k" "k < c'" for k
      using that False i1 i2 [of k] upd [OF Suc.prems(2), of "j + k"] len by (cases "k = c") auto
    moreover have "bit (mem (elem t (j + c'))) 0" if "c' < c + Suc n"
      using that i1 i3 upd [OF Suc.prems(2), of "j + c'"] len by auto
    moreover have "mem' (elem b k) = (if b = t \<and> j + c \<le> k \<and> k < j + c'
        then mk_pte (paddr + of_nat (k - (j + c)) * SPAGE_SIZE) prot else mem (elem b k))"
      if bk: "page_aligned b" "k < 1024" for b k
    proof (cases "b = t \<and> j + Suc c \<le> k \<and> k < j + c'")
      case True
      then have "k - (j + c) = Suc (k - (j + Suc c))" by auto
      with True i4 [OF bk] show ?thesis by (simp add: algebra_simps)
    next
      case False
      with i4 [OF bk] upd [OF bk] i1 show ?thesis by auto
    qed
    ultimately show ?thesis using i1 by auto
  qed
qed

section \<open>Shootdown reaches every powered MMU\<close>

text \<open>\<open>tlb_le\<close>: the MMUs of an IOMMU have cached no line they had not before.\<close>

definition no_lines :: "('hw \<Rightarrow> nat set) \<Rightarrow> nat set \<Rightarrow> 'hw rk_iommu \<Rightarrow> bool" where
  "no_lines tlb S i \<longleftrightarrow> (\<forall>b \<in> set (bases i). tlb b \<inter> S = {})"

lemma clk_bulk_enable_bases [simp]:
  "bases (fst (clk_bulk_enable i)) = bases i" "pm_in_use (fst (clk_bulk_enable i)) = pm_in_use i"
  by (simp_all add: clk_bulk_enable_def split: option.split)

lemma zap_iommus_tlb:
  assumes law: "zap_law P tlb" and al: "unat iova mod 4096 = 0"
    and sz: "unat iova + unat sz \<le> 2 ^ 32"
  shows "\<exists>is'. zap_iommus P iova sz is = Some is'
    \<and> list_all2 (\<lambda>i i'. pm_in_use i' = pm_in_use i
        \<and> (pm_in_use i > 0 \<longrightarrow> no_lines tlb (pages_of (unat iova) (unat iova + unat sz)) i')
        \<and> (clk_error i = None \<longrightarrow> same_but_bases i i')) is is'"
proof (induction "is")
  case (Cons i "is")
  then obtain is' where is': "zap_iommus P iova sz is = Some is'"
    "list_all2 (\<lambda>i i'. pm_in_use i' = pm_in_use i
        \<and> (pm_in_use i > 0 \<longrightarrow> no_lines tlb (pages_of (unat iova) (unat iova + unat sz)) i')
        \<and> (clk_error i = None \<longrightarrow> same_but_bases i i')) is is'" by blast
  have e: "unat (iova + sz) = unat iova + unat sz" using sz by (simp add: unat_word_ariths)
  then have bound: "unat (iova + sz) \<le> 2 ^ 32" "unat iova \<le> unat (iova + sz)" using sz by simp_all
  let ?i1 = "fst (clk_bulk_enable (i\<lparr>pm_count := pm_count i + 1\<rparr>))"
  from zap_bases_tlb [OF law bound al, of "bases i"] obtain bs' where
    bs': "zap_bases P iova (iova + sz) (bases i) = Some bs'"
    "\<forall>b \<in> set bs'. tlb b \<inter> pages_of (unat iova) (unat iova + unat sz) = {}" by (auto simp: e)
  have lines: "rk_iommu_zap_lines P ?i1 iova sz = Some (?i1\<lparr>bases := bs'\<rparr>)"
    by (simp add: rk_iommu_zap_lines_def bs'(1))
  have same: "same_but_bases i (i2\<lparr>pm_count := pm_count i2 - 1\<rparr>)"
    if "clk_error i = None" "i2 = clk_bulk_disable (?i1\<lparr>bases := bs'\<rparr>)" for i2
    using that by (auto simp: same_but_bases_def clk_bulk_enable_def clk_bulk_disable_def)
  show ?case
  proof (cases "pm_in_use i > 0")
    case True
    with lines is' bs'(2) same [OF _ refl] show ?thesis
      by (simp add: Let_def no_lines_def clk_bulk_disable_def)
  next
    case False
    with is' show ?thesis by auto
  qed
qed simp

text \<open>The first and the last page of a range are shot down, and only the IOMMUs change.\<close>

lemma rk_iommu_zap_iova_some:
  assumes al: "unat iova mod 4096 = 0" and sz: "unat iova + unat sz \<le> 2 ^ 32"
  shows "\<exists>is'. rk_iommu_zap_iova P d iova sz = Some (d\<lparr>iommus := is'\<rparr>)"
  using zap_iommus_tlb [of P "\<lambda>_. {}", OF _ assms, of "iommus d"]
  by (auto simp: rk_iommu_zap_iova_def zap_law_def)

lemma zap_first_last_some:
  assumes al: "unat iova mod 4096 = 0" "unat sz mod 4096 = 0" and sz: "0 < sz" "unat iova + unat sz \<le> 2 ^ 32"
  shows "\<exists>is'. rk_iommu_zap_iova_first_last P d iova sz = Some (d\<lparr>iommus := is'\<rparr>)"
proof -
  have pos: "4096 \<le> unat sz"
    using al(2) sz(1) unat_gt_0 [of sz] by (cases "unat sz < 4096") (auto simp: word_gt_0)
  obtain is1 where is1: "rk_iommu_zap_iova P d iova SPAGE_SIZE = Some (d\<lparr>iommus := is1\<rparr>)"
    using rk_iommu_zap_iova_some [of iova SPAGE_SIZE P d] al sz pos by (auto simp: SPAGE_SIZE_eq)
  have u: "unat (iova + sz - SPAGE_SIZE) = unat iova + unat sz - 4096"
    using pos sz(2) by (simp add: SPAGE_SIZE_eq unat_sub_if' unat_word_ariths)
  have "(unat iova + unat sz - 4096) mod 4096 = 0"
    using al pos by (auto simp flip: dvd_eq_mod_eq_0)
  moreover have "unat (iova + sz - SPAGE_SIZE) + unat SPAGE_SIZE \<le> 2 ^ 32"
    using u pos sz(2) by (simp add: SPAGE_SIZE_eq)
  ultimately obtain is2 where
    "rk_iommu_zap_iova P (d\<lparr>iommus := is1\<rparr>) (iova + sz - SPAGE_SIZE) SPAGE_SIZE
       = Some (d\<lparr>iommus := is1\<rparr>\<lparr>iommus := is2\<rparr>)"
    using rk_iommu_zap_iova_some [of "iova + sz - SPAGE_SIZE" SPAGE_SIZE P "d\<lparr>iommus := is1\<rparr>"] u
    unfolding SPAGE_SIZE_eq by fastforce
  with is1 show ?thesis by (auto simp: rk_iommu_zap_iova_first_last_def)
qed

section \<open>The abstract translation and its operations\<close>

text \<open>
  What a domain promises: a finite map from I/O page numbers (below \<open>2 ^ 20\<close>) to entries, which
  \<open>map_pages\<close> extends on a range and \<open>unmap_pages\<close> cuts. \<open>mapped_prefix\<close> counts the pages at the
  start of a range that are mapped.
\<close>

type_synonym translation = "nat \<Rightarrow> u32 option"

definition trans :: "(u32 \<Rightarrow> u64) \<Rightarrow> 'hw rk_domain \<Rightarrow> translation" where
  "trans pt_address d pn =
     (if pn < 2 ^ 20 then walk pt_address (dt d) (cpu_mem d) (pn div 1024) (pn mod 1024) else None)"

definition dev_trans :: "(u32 \<Rightarrow> u64) \<Rightarrow> 'hw rk_domain \<Rightarrow> translation" where
  "dev_trans pt_address d pn =
     (if pn < 2 ^ 20 then walk pt_address (dt_dma d) (dev_mem d) (pn div 1024) (pn mod 1024) else None)"

definition map_pages ::
  "(u64 \<Rightarrow> u32 \<Rightarrow> u32) \<Rightarrow> nat \<Rightarrow> nat \<Rightarrow> u64 \<Rightarrow> u32 \<Rightarrow> translation \<Rightarrow> translation" where
  "map_pages mk_pte p n paddr prot m =
     (\<lambda>pn. if p \<le> pn \<and> pn < p + n then Some (mk_pte (paddr + of_nat (pn - p) * 4096) prot) else m pn)"

definition unmap_pages :: "nat \<Rightarrow> nat \<Rightarrow> translation \<Rightarrow> translation" where
  "unmap_pages p n m = (\<lambda>pn. if p \<le> pn \<and> pn < p + n then None else m pn)"

fun mapped_prefix :: "nat \<Rightarrow> nat \<Rightarrow> translation \<Rightarrow> nat" where
  "mapped_prefix p 0 m = 0"
| "mapped_prefix p (Suc n) m = (if m p = None then 0 else Suc (mapped_prefix (Suc p) n m))"

text \<open>The requests the IOMMU core makes: page-aligned, inside one directory entry.\<close>

definition request :: "u64 \<Rightarrow> u64 \<Rightarrow> nat \<Rightarrow> nat \<Rightarrow> bool" where
  "request iova sz p n \<longleftrightarrow>
     unat iova = 4096 * p \<and> unat sz = 4096 * n \<and> 0 < n \<and> p < 2 ^ 20 \<and> p mod 1024 + n \<le> 1024"

lemma mapped_prefix_unique:
  "c \<le> n \<Longrightarrow> (\<And>k. k < c \<Longrightarrow> m (p + k) \<noteq> None) \<Longrightarrow> (c < n \<Longrightarrow> m (p + c) = None) \<Longrightarrow> mapped_prefix p n m = c"
proof (induction n arbitrary: p c)
  case (Suc n)
  show ?case
  proof (cases c)
    case 0
    with Suc.prems show ?thesis by simp
  next
    case (Suc c')
    have "mapped_prefix (Suc p) n m = c'"
      by (rule Suc.IH) (use Suc Suc.prems(1) Suc.prems(2) [of "Suc _"] Suc.prems(3) in auto)
    with Suc Suc.prems(2) [of 0] show ?thesis by simp
  qed
qed simp

lemma request_facts:
  assumes "request iova sz p n"
  shows "unat (rk_iova_dte_index iova) = p div 1024" "unat (rk_iova_pte_index iova) = p mod 1024"
    "pte_total sz = n" "unat iova mod 4096 = 0" "unat sz mod 4096 = 0" "0 < sz"
    "unat iova + unat sz \<le> 2 ^ 32" "p div 1024 < 1024"
    and "c \<le> n \<Longrightarrow> pn < 2 ^ 20 \<Longrightarrow> p \<le> pn \<and> pn < p + c \<longleftrightarrow>
       pn div 1024 = p div 1024 \<and> p mod 1024 \<le> pn mod 1024 \<and> pn mod 1024 < p mod 1024 + c"
proof -
  have a: "unat iova = 4096 * p" "unat sz = 4096 * n" "0 < n" "p < 2 ^ 20" "p mod 1024 + n \<le> 1024"
    using assms by (simp_all add: request_def)
  show "unat (rk_iova_dte_index iova) = p div 1024" "unat (rk_iova_pte_index iova) = p mod 1024"
    using a by (simp_all add: unat_rk_iova_dte_index unat_rk_iova_pte_index)
  show "pte_total sz = n"
    using a by (simp add: pte_total_def SPAGE_SIZE_eq unsigned_ucast_eq unat_div take_bit_eq_mod)
  show "unat iova mod 4096 = 0" "unat sz mod 4096 = 0" "p div 1024 < 1024"
    using a by simp_all
  show "0 < sz" using a by (simp add: word_gt_0 flip: unat_gt_0)
  have "p div 1024 < 1024" "p = 1024 * (p div 1024) + p mod 1024" using a(4) by simp_all
  then have "p + n \<le> 1048576" using a(5) by linarith
  then show "unat iova + unat sz \<le> 2 ^ 32" using a(1,2) by simp
  show "p \<le> pn \<and> pn < p + c \<longleftrightarrow>
       pn div 1024 = p div 1024 \<and> p mod 1024 \<le> pn mod 1024 \<and> pn mod 1024 < p mod 1024 + c"
    if "c \<le> n" "pn < 2 ^ 20"
  proof -
    obtain q r where p: "p = 1024 * q + r" "r < 1024" "p div 1024 = q" "p mod 1024 = r"
      by (metis mod_less_divisor mult_div_mod_eq zero_less_numeral)
    obtain q' r' where pn: "pn = 1024 * q' + r'" "r' < 1024" "pn div 1024 = q'" "pn mod 1024 = r'"
      by (metis mod_less_divisor mult_div_mod_eq zero_less_numeral)
    have "r + c \<le> 1024" using a(5) that p by simp
    then show ?thesis
      unfolding p(3,4) pn(3,4) unfolding p(1) pn(1) using p(2) pn(2)
      by (cases "q < q'"; cases "q' < q") auto
  qed
qed

section \<open>Well-formedness is kept\<close>

lemma wf_tables_cong:
  assumes "wf_tables pt_address amask d" "dt d' = dt d" "dt_dma d' = dt_dma d"
    and "set (page_supply d') \<subseteq> set (page_supply d)" "distinct (map fst (page_supply d'))"
    and "\<And>i. i < 1024 \<Longrightarrow> cpu_mem d' (elem (dt d) i) = cpu_mem d (elem (dt d) i)"
  shows "wf_tables pt_address amask d'"
proof -
  have use: "in_use d' = in_use d" using assms by (auto simp: in_use_def fun_eq_iff)
  have tab: "in_use d i \<Longrightarrow> table_of pt_address d' i = table_of pt_address d i" for i
    using assms by (simp add: table_of_def in_use_def)
  have sup: "p AND amask = p \<and> (m = None \<or> m = Some p) \<and> p \<noteq> dt d
      \<and> (\<forall>i. in_use d i \<longrightarrow> table_of pt_address d i \<noteq> p)" if "(p, m) \<in> set (page_supply d')" for p m
  proof -
    have "(p, m) \<in> set (page_supply d)" using that assms(4) by blast
    then show ?thesis using assms(1) unfolding wf_tables_def by blast
  qed
  show ?thesis
    using assms(1-3,5) sup tab unfolding wf_tables_def use by auto
qed

context pt_format
begin

abbreviation walk_cpu :: "'hw rk_domain \<Rightarrow> nat \<Rightarrow> nat \<Rightarrow> u32 option" where
  "walk_cpu d \<equiv> walk pt_address (dt d) (cpu_mem d)"

lemma table_aligned [simp]: "page_aligned (table_of pt_address d i)"
  by (simp add: table_of_def page_aligned_def pt_address_aligned)

lemma supply_aligned: "p AND amask = p \<Longrightarrow> page_aligned p"
  by (simp add: page_aligned_def amask_aligned)

lemma zero_page_elem:
  "page_aligned b \<Longrightarrow> page_aligned p \<Longrightarrow> k < 1024
   \<Longrightarrow> zero_page mem p (elem b k) = (if b = p then 0 else mem (elem b k))"
  using elem_window [of b k p 0 1024] by (simp add: zero_page_def)

lemma flush_elem:
  assumes "page_aligned b" "page_aligned p" "k < 1024" "j + n \<le> 1024"
  shows "dev_mem (rk_table_flush d (elem p j) n) (elem b k) =
     (if b = p \<and> j \<le> k \<and> k < j + n then cpu_mem d (elem b k) else dev_mem d (elem b k))"
  using elem_window [OF assms(1,3,2,4)] by (simp add: rk_table_flush_def)

lemma flush_sel [simp]:
  "cpu_mem (rk_table_flush d a n) = cpu_mem d" "dt (rk_table_flush d a n) = dt d"
  "dt_dma (rk_table_flush d a n) = dt_dma d" "page_supply (rk_table_flush d a n) = page_supply d"
  "iommus (rk_table_flush d a n) = iommus d" "released (rk_table_flush d a n) = released d"
  "dom_shootdown_entire (rk_table_flush d a n) = dom_shootdown_entire d"
  by (simp_all add: rk_table_flush_def)

text \<open>A page the allocator hands out is zeroed: nothing that is in use changes.\<close>

lemma zeroed_wf:
  assumes wf: "wf_domain pt_address amask d" and sup: "page_supply d = (p, m) # rest"
  shows "wf_domain pt_address amask
      (d\<lparr>page_supply := rest, cpu_mem := zero_page (cpu_mem d) p, released := fr\<rparr>)"
    and "i < 1024 \<Longrightarrow> j < 1024 \<Longrightarrow>
      walk pt_address (dt d) (zero_page (cpu_mem d) p) i j = walk_cpu d i j"
proof -
  have al: "page_aligned (dt d)" and p: "page_aligned p" "p \<noteq> dt d"
    and not_p: "\<And>i. in_use d i \<Longrightarrow> table_of pt_address d i \<noteq> p"
    using wf sup by (auto simp: wf_domain_def wf_tables_def intro: supply_aligned)
  let ?d = "d\<lparr>page_supply := rest, cpu_mem := zero_page (cpu_mem d) p, released := fr\<rparr>"
  have dt_same: "cpu_mem ?d (elem (dt d) i) = cpu_mem d (elem (dt d) i)" if "i < 1024" for i
    using that al p by (simp add: zero_page_elem)
  have use: "in_use ?d = in_use d" using dt_same by (auto simp: in_use_def fun_eq_iff)
  have tab: "table_of pt_address ?d i = table_of pt_address d i" if "in_use d i" for i
    using that dt_same by (simp add: table_of_def in_use_def)
  have tab_same: "cpu_mem ?d (elem (table_of pt_address d i) j) = cpu_mem d (elem (table_of pt_address d i) j)"
    if "in_use d i" "j < 1024" for i j
    using that p not_p by (simp add: zero_page_elem)
  have "wf_tables pt_address amask ?d"
    by (rule wf_tables_cong [of _ _ d]) (use wf sup dt_same in \<open>auto simp: wf_domain_def wf_tables_def\<close>)
  moreover have "coherent pt_address ?d"
    using wf dt_same tab_same tab by (auto simp: coherent_def wf_domain_def use)
  ultimately show "wf_domain pt_address amask ?d" by (simp add: wf_domain_def)
  show "walk pt_address (dt d) (zero_page (cpu_mem d) p) i j = walk_cpu d i j"
    if "i < 1024" "j < 1024"
    using that dt_same [of i] tab_same [of i j] walk_in_use [of i pt_address ?d j] walk_in_use [of i pt_address d j]
    by (auto simp: use tab)
qed

text \<open>A fresh page becomes the table of the directory entry the address selects.\<close>

lemma fresh_table_wf:
  assumes wf: "wf_domain pt_address amask d" and sup: "page_supply d = (p, Some p) # rest"
    and idx: "idx < 1024" "\<not> in_use d idx"
    and d': "dt d' = dt d" "dt_dma d' = dt_dma d" "page_supply d' = rest"
    and cpu: "\<And>b k. page_aligned b \<Longrightarrow> k < 1024 \<Longrightarrow> cpu_mem d' (elem b k) =
       (if b = dt d \<and> k = idx then mk_dte p else if b = p then 0 else cpu_mem d (elem b k))"
    and dev: "\<And>b k. page_aligned b \<Longrightarrow> k < 1024 \<Longrightarrow> dev_mem d' (elem b k) =
       (if b = dt d \<and> k = idx then mk_dte p else if b = p then 0 else dev_mem d (elem b k))"
  shows "wf_domain pt_address amask d'" "in_use d' idx" "table_of pt_address d' idx = p"
    and "i < 1024 \<Longrightarrow> j < 1024 \<Longrightarrow> walk_cpu d' i j = walk_cpu d i j"
proof -
  have al: "page_aligned (dt d)" and p: "page_aligned p" "p \<noteq> dt d" "p AND amask = p"
    and not_p: "\<And>i. in_use d i \<Longrightarrow> table_of pt_address d i \<noteq> p"
    and p_rest: "p \<notin> fst ` set rest"
    using wf sup by (auto simp: wf_domain_def wf_tables_def intro: supply_aligned)
  have entry: "cpu_mem d' (elem (dt d) i) = (if i = idx then mk_dte p else cpu_mem d (elem (dt d) i))"
    if "i < 1024" for i using that al p cpu by auto
  have use: "in_use d' i \<longleftrightarrow> i = idx \<or> in_use d i" for i
    using idx entry mk_dte_valid d'(1) by (auto simp: in_use_def)
  have tab: "table_of pt_address d' i = (if i = idx then p else table_of pt_address d i)" if "i < 1024" for i
    using that entry p(3) d'(1) by (simp add: table_of_def pt_address_mk_dte)
  have use1024: "in_use d i \<Longrightarrow> i < 1024" for i by (simp add: in_use_def)
  have sup_rest: "q AND amask = q \<and> (m = None \<or> m = Some q) \<and> q \<noteq> dt d \<and> q \<noteq> p
      \<and> (\<forall>i. in_use d i \<longrightarrow> table_of pt_address d i \<noteq> q)" if "(q, m) \<in> set rest" for q m
  proof -
    have "(q, m) \<in> set (page_supply d)" using that sup by simp
    moreover have "q \<noteq> p" using that p_rest by force
    ultimately show ?thesis using wf_supplyD [of pt_address amask d q m] wf by (simp add: wf_domain_def)
  qed
  have inj: "\<And>i i'. in_use d i \<Longrightarrow> in_use d i' \<Longrightarrow> table_of pt_address d i = table_of pt_address d i' \<Longrightarrow> i = i'"
    and not_dt: "\<And>i. in_use d i \<Longrightarrow> table_of pt_address d i \<noteq> dt d"
    using wf by (auto simp: wf_domain_def wf_tables_def)
  have "wf_tables pt_address amask d'"
    unfolding wf_tables_def
  proof (intro conjI allI impI)
    show "page_aligned (dt d')" "dt_dma d' = dt d'" "distinct (map fst (page_supply d'))"
      using wf sup d' by (simp_all add: wf_domain_def wf_tables_def)
    show "table_of pt_address d' i \<noteq> dt d'" if "in_use d' i" for i
      using that use tab not_dt p idx use1024 d' by (cases "i = idx") auto
    show "i = i'" if "in_use d' i \<and> in_use d' i' \<and> table_of pt_address d' i = table_of pt_address d' i'" for i i'
      using that use tab inj [of i i'] not_p [of i] not_p [of i'] idx use1024 [of i] use1024 [of i']
      by (cases "i = idx"; cases "i' = idx") auto
    fix q m assume q: "(q, m) \<in> set (page_supply d')"
    note sr = sup_rest [OF q [unfolded d'(3)]]
    show "q AND amask = q" "m = None \<or> m = Some q" "q \<noteq> dt d'" using sr d'(1) by auto
    show "table_of pt_address d' i \<noteq> q" if "in_use d' i" for i
      using that sr use tab use1024 idx by (cases "i = idx") auto
  qed
  moreover have "coherent pt_address d'"
    unfolding coherent_def
  proof (intro conjI allI impI)
    show "dev_mem d' (elem (dt d') i) = cpu_mem d' (elem (dt d') i)" if "i < 1024" for i
      using that wf al p cpu dev d' by (auto simp: wf_domain_def coherent_def)
    show "dev_mem d' (elem (table_of pt_address d' i) j) = cpu_mem d' (elem (table_of pt_address d' i) j)"
      if "in_use d' i" "j < 1024" for i j
      using that wf al p cpu dev use tab idx use1024 not_dt not_p
      by (cases "i = idx") (auto simp: wf_domain_def coherent_def)
  qed
  ultimately show "wf_domain pt_address amask d'" by (simp add: wf_domain_def)
  show "in_use d' idx" "table_of pt_address d' idx = p" using use tab idx by auto
  show "walk_cpu d' i j = walk_cpu d i j" if "i < 1024" "j < 1024"
    using that use tab cpu p idx not_p not_dt
    by (cases "i = idx") (auto simp: walk_in_use Let_def)
qed

lemma get_page_table_ok:
  assumes wf: "wf_domain pt_address amask d"
    and r: "get_page_table_with mk_dte pt_address d iova = (d', res)"
  shows "wf_domain pt_address amask d' \<and> dt d' = dt d \<and> iommus d' = iommus d
    \<and> dom_shootdown_entire d' = dom_shootdown_entire d
    \<and> (\<forall>i j. i < 1024 \<and> j < 1024 \<longrightarrow> walk_cpu d' i j = walk_cpu d i j)
    \<and> (case res of Inl e \<Rightarrow> e = ENOMEM
       | Inr t \<Rightarrow> in_use d' (unat (rk_iova_dte_index iova))
                \<and> t = table_of pt_address d' (unat (rk_iova_dte_index iova)))"
proof -
  define idx where "idx = unat (rk_iova_dte_index iova)"
  have idx: "idx < 1024" by (simp add: idx_def)
  show ?thesis
  proof (cases "in_use d idx")
    case True
    with r wf show ?thesis
      by (auto simp: get_page_table_with_def Let_def in_use_def table_of_def idx_def)
  next
    case False
    then have inv: "\<not> bit (cpu_mem d (elem (dt d) idx)) 0" using idx by (simp add: in_use_def)
    show ?thesis
    proof (cases "page_supply d")
      case Nil
      with r inv wf show ?thesis by (auto simp: get_page_table_with_def Let_def idx_def)
    next
      case (Cons pm rest)
      obtain p m where pm: "pm = (p, m)" by (cases pm)
      note sup = Cons [unfolded pm]
      have al: "page_aligned (dt d)" "dt_dma d = dt d" and p: "page_aligned p" "p \<noteq> dt d"
        and m: "m = None \<or> m = Some p"
        using wf sup by (auto simp: wf_domain_def wf_tables_def intro: supply_aligned)
      show ?thesis
      proof (cases m)
        case None
        with r inv sup zeroed_wf [OF wf sup] show ?thesis
          by (auto simp: get_page_table_with_def Let_def idx_def)
      next
        case (Some q)
        with m have q: "m = Some p" by simp
        let ?d2 = "d\<lparr>page_supply := rest, cpu_mem := (zero_page (cpu_mem d) p)(elem (dt d) idx := mk_dte p)\<rparr>"
        have d': "d' = rk_table_flush (rk_table_flush ?d2 p 1024) (elem (dt d) idx) 1"
          and res: "res = Inr (pt_address (mk_dte p))"
          using r inv sup q al by (auto simp: get_page_table_with_def Let_def idx_def NUM_PT_ENTRIES_def)
        have cpu: "cpu_mem d' (elem b k) =
            (if b = dt d \<and> k = idx then mk_dte p else if b = p then 0 else cpu_mem d (elem b k))"
          if "page_aligned b" "k < 1024" for b k
          using that al p idx by (simp add: d' zero_page_elem elem_eq_iff)
        have dev: "dev_mem d' (elem b k) =
            (if b = dt d \<and> k = idx then mk_dte p else if b = p then 0 else dev_mem d (elem b k))"
          if "page_aligned b" "k < 1024" for b k
          using that al p idx flush_elem [of b p k 0 1024 ?d2]
          by (auto simp: d' flush_elem zero_page_elem elem_eq_iff)
        note fresh = fresh_table_wf [OF wf sup [unfolded q] idx False _ _ _ cpu dev]
        show ?thesis
          using fresh res unfolding idx_def [symmetric] by (simp add: d' table_of_def)
      qed
    qed
  qed
qed

text \<open>Rewriting a window of a table in use, flushed, changes the walk there and nowhere else.\<close>

lemma window_wf:
  assumes wf: "wf_domain pt_address amask d" and use: "in_use d i" and n: "j + n \<le> 1024"
    and d': "dt d' = dt d" "dt_dma d' = dt_dma d" "page_supply d' = page_supply d"
    and cpu: "\<And>b k. page_aligned b \<Longrightarrow> k < 1024 \<Longrightarrow> cpu_mem d' (elem b k) =
       (if b = table_of pt_address d i \<and> j \<le> k \<and> k < j + n then f k else cpu_mem d (elem b k))"
    and dev: "\<And>b k. page_aligned b \<Longrightarrow> k < 1024 \<Longrightarrow> dev_mem d' (elem b k) =
       (if b = table_of pt_address d i \<and> j \<le> k \<and> k < j + n then f k else dev_mem d (elem b k))"
  shows "wf_domain pt_address amask d'"
    and "i' < 1024 \<Longrightarrow> k < 1024 \<Longrightarrow> walk_cpu d' i' k =
       (if i' = i \<and> j \<le> k \<and> k < j + n then (if bit (f k) 0 then Some (f k) else None) else walk_cpu d i' k)"
proof -
  have al: "page_aligned (dt d)" and not_dt: "\<And>i. in_use d i \<Longrightarrow> table_of pt_address d i \<noteq> dt d"
    and inj: "\<And>i i'. in_use d i \<Longrightarrow> in_use d i' \<Longrightarrow> table_of pt_address d i = table_of pt_address d i' \<Longrightarrow> i = i'"
    and wt: "wf_tables pt_address amask d"
    using wf by (auto simp: wf_domain_def wf_tables_def)
  have dir: "cpu_mem d' (elem (dt d) k) = cpu_mem d (elem (dt d) k)" if "k < 1024" for k
    using that al not_dt [OF use] cpu by auto
  have use': "in_use d' = in_use d" using dir d'(1) by (auto simp: in_use_def fun_eq_iff)
  have tab: "in_use d k \<Longrightarrow> table_of pt_address d' k = table_of pt_address d k" for k
    using dir d'(1) by (simp add: table_of_def in_use_def)
  have "wf_tables pt_address amask d'"
    by (rule wf_tables_cong [OF wt d'(1,2)]) (use d' dir wt in \<open>auto simp: wf_tables_def\<close>)
  moreover have "coherent pt_address d'"
    unfolding coherent_def use'
  proof (intro conjI allI impI)
    show "dev_mem d' (elem (dt d') k) = cpu_mem d' (elem (dt d') k)" if "k < 1024" for k
      using that wf d'(1) cpu dev al not_dt [OF use] by (auto simp: coherent_def wf_domain_def)
    show "dev_mem d' (elem (table_of pt_address d' k) l) = cpu_mem d' (elem (table_of pt_address d' k) l)"
      if "in_use d k" "l < 1024" for k l
      using that wf tab cpu dev by (simp add: coherent_def wf_domain_def)
  qed
  ultimately show "wf_domain pt_address amask d'" by (simp add: wf_domain_def)
  show "walk_cpu d' i' k =
       (if i' = i \<and> j \<le> k \<and> k < j + n then (if bit (f k) 0 then Some (f k) else None) else walk_cpu d i' k)"
    if "i' < 1024" "k < 1024"
    using that use use' tab inj [of i' i] cpu [of "table_of pt_address d i'" k]
    by (auto simp: walk_in_use Let_def)
qed

lemma rk_iommu_unmap_iova_ok:
  assumes wf: "wf_domain pt_address amask d" and use: "in_use d i" and n: "j + pte_total sz \<le> 1024"
    and r: "rk_iommu_unmap_iova d (elem (table_of pt_address d i) j) (elem (table_of pt_address d i) j) sz = (d', bytes)"
  shows "\<exists>c \<le> pte_total sz. unat bytes = 4096 * c \<and> wf_domain pt_address amask d'
    \<and> (\<forall>k < c. walk_cpu d i (j + k) \<noteq> None) \<and> (c < pte_total sz \<longrightarrow> walk_cpu d i (j + c) = None)
    \<and> (\<forall>i' < 1024. \<forall>k < 1024. walk_cpu d' i' k =
          (if i' = i \<and> j \<le> k \<and> k < j + c then None else walk_cpu d i' k))
    \<and> d' = d\<lparr>cpu_mem := cpu_mem d', dev_mem := dev_mem d'\<rparr>"
proof -
  let ?t = "table_of pt_address d i"
  obtain mem c where mem: "unmap_ptes (cpu_mem d) (elem ?t j) 0 (pte_total sz) = (mem, c)"
    by (cases "unmap_ptes (cpu_mem d) (elem ?t j) 0 (pte_total sz)")
  have d': "d' = rk_table_flush (d\<lparr>cpu_mem := mem\<rparr>) (elem ?t j) c" and bytes: "bytes = pte_bytes c"
    using r mem by (simp_all add: rk_iommu_unmap_iova_def)
  have i: "i < 1024" using use by (simp add: in_use_def)
  note spec = unmap_ptes_spec [OF mem table_aligned, unfolded add_0 add_0_right, OF n]
  have c: "c \<le> pte_total sz" using spec by blast
  have cpu: "cpu_mem d' (elem b k) = (if b = ?t \<and> j \<le> k \<and> k < j + c
      then rk_mk_pte_invalid (cpu_mem d (elem ?t k)) else cpu_mem d (elem b k))"
    if "page_aligned b" "k < 1024" for b k
    using spec that by (auto simp: d')
  have dev: "dev_mem d' (elem b k) = (if b = ?t \<and> j \<le> k \<and> k < j + c
      then rk_mk_pte_invalid (cpu_mem d (elem ?t k)) else dev_mem d (elem b k))"
    if "page_aligned b" "k < 1024" for b k
    using cpu [OF that] that n c by (auto simp: d' flush_elem)
  have "walk_cpu d i (j + k) \<noteq> None" if "k < c" for k
    using that spec use i n c by (auto simp: walk_in_use Let_def)
  moreover have "walk_cpu d i (j + c) = None" if "c < pte_total sz"
    using that spec use i n by (auto simp: walk_in_use Let_def)
  moreover have "unat bytes = 4096 * c"
    using c n by (simp add: bytes pte_bytes_def SPAGE_SIZE_eq unsigned_ucast_eq unat_word_ariths
        unat_of_nat take_bit_eq_mod)
  moreover have "d' = d\<lparr>cpu_mem := cpu_mem d', dev_mem := dev_mem d'\<rparr>"
    by (simp add: d' rk_table_flush_def)
  ultimately show ?thesis
    using window_wf [OF wf use _ _ _ _ cpu dev] c n
    by (intro exI [of _ c]) (simp add: d')
qed

text \<open>The device walks the same translation as the CPU.\<close>

lemma dev_trans_eq:
  assumes "wf_domain pt_address amask d"
  shows "dev_trans pt_address d = trans pt_address d"
proof -
  have "coherent pt_address d" "dt_dma d = dt d" using assms by (simp_all add: wf_domain_def wf_tables_def)
  then show ?thesis by (auto simp: fun_eq_iff dev_trans_def trans_def coherent_walk)
qed

lemma wf_iommus [simp]:
  "wf_domain pt_address amask (d\<lparr>iommus := is'\<rparr>) = wf_domain pt_address amask d"
  "trans pt_address (d\<lparr>iommus := is'\<rparr>) = trans pt_address d"
  by (simp_all add: wf_domain_def wf_tables_def coherent_def in_use_def table_of_def trans_def fun_eq_iff)

lemma trans_window:
  assumes req: "request iova sz p n" and c: "c \<le> n"
    and w: "\<And>i' k. i' < 1024 \<Longrightarrow> k < 1024 \<Longrightarrow> walk_cpu d' i' k =
      (if i' = p div 1024 \<and> p mod 1024 \<le> k \<and> k < p mod 1024 + c then g k else walk_cpu d i' k)"
    and g: "\<And>pn. p \<le> pn \<Longrightarrow> pn < p + c \<Longrightarrow> pn < 2 ^ 20 \<Longrightarrow> g (pn mod 1024) = f pn"
  shows "trans pt_address d' pn = (if p \<le> pn \<and> pn < p + c then f pn else trans pt_address d pn)"
proof (cases "pn < 2 ^ 20")
  case True
  then have "pn div 1024 < 1024" "pn mod 1024 < 1024" by simp_all
  with True show ?thesis
    using w [of "pn div 1024" "pn mod 1024"] g [of pn] request_facts(9) [OF req c, of pn]
    by (auto simp: trans_def)
next
  case False
  moreover have "p + n \<le> 2 ^ 20" using request_facts(7) [OF req] req by (simp add: request_def)
  ultimately show ?thesis using c by (simp add: trans_def)
qed

lemma trans_at:
  assumes "request iova sz p n" "k < n"
  shows "trans pt_address d (p + k) = walk_cpu d (p div 1024) (p mod 1024 + k)"
proof -
  have lt: "p + k < 2 ^ 20" using request_facts(7) [OF assms(1)] assms by (simp add: request_def)
  have "(p + k) div 1024 = p div 1024 \<and> p mod 1024 \<le> (p + k) mod 1024 \<and> (p + k) mod 1024 < p mod 1024 + n"
    using request_facts(9) [OF assms(1) order_refl lt] assms(2) by simp
  then have "(p + k) div 1024 = p div 1024" by simp
  moreover from this have "(p + k) mod 1024 = p mod 1024 + k"
    using mult_div_mod_eq [of 1024 "p + k"] mult_div_mod_eq [of 1024 p] by linarith
  ultimately have "(p + k) div 1024 = p div 1024" "(p + k) mod 1024 = p mod 1024 + k" .
  with lt show ?thesis by (simp add: trans_def)
qed

text \<open>\<open>rk_iommu_unmap\<close> up to the shootdown: it cuts the mapped pages at the start of the range.\<close>

lemma unmap_table_refines:
  assumes wf: "wf_domain pt_address amask d" and req: "request iova sz p n"
  shows "case unmap_table_with pt_address d iova sz of
       None \<Rightarrow> mapped_prefix p n (trans pt_address d) = 0
     | Some (d', bytes) \<Rightarrow> wf_domain pt_address amask d'
         \<and> unat bytes = 4096 * mapped_prefix p n (trans pt_address d)
         \<and> trans pt_address d' = unmap_pages p (mapped_prefix p n (trans pt_address d)) (trans pt_address d)
         \<and> d' = d\<lparr>cpu_mem := cpu_mem d', dev_mem := dev_mem d'\<rparr>"
proof -
  let ?i = "p div 1024" and ?j = "p mod 1024"
  note rf = request_facts(1-8) [OF req]
  have n: "?j + n \<le> 1024" "0 < n" using req by (simp_all add: request_def)
  show ?thesis
  proof (cases "in_use d ?i")
    case False
    then have "unmap_table_with pt_address d iova sz = None"
      using rf by (simp add: unmap_table_with_def Let_def in_use_def)
    moreover have "trans pt_address d p = None"
      using trans_at [OF req n(2), of d] False rf n by (simp add: walk_in_use)
    then have "mapped_prefix p n (trans pt_address d) = 0" by (cases n) simp_all
    ultimately show ?thesis by simp
  next
    case True
    let ?t = "elem (table_of pt_address d ?i) ?j"
    obtain d' bytes where r: "rk_iommu_unmap_iova d ?t ?t sz = (d', bytes)"
      by (cases "rk_iommu_unmap_iova d ?t ?t sz")
    have eq: "unmap_table_with pt_address d iova sz = Some (d', bytes)"
      using True rf r by (simp add: unmap_table_with_def Let_def in_use_def table_of_def)
    obtain c where c: "c \<le> n" "unat bytes = 4096 * c" "wf_domain pt_address amask d'"
      "\<forall>k < c. walk_cpu d ?i (?j + k) \<noteq> None" "c < n \<longrightarrow> walk_cpu d ?i (?j + c) = None"
      and w: "\<And>i' k. i' < 1024 \<Longrightarrow> k < 1024 \<Longrightarrow> walk_cpu d' i' k =
          (if i' = ?i \<and> ?j \<le> k \<and> k < ?j + c then None else walk_cpu d i' k)"
      and frame: "d' = d\<lparr>cpu_mem := cpu_mem d', dev_mem := dev_mem d'\<rparr>"
      using rk_iommu_unmap_iova_ok [OF wf True _ r] n rf(3) by auto
    have pre: "mapped_prefix p n (trans pt_address d) = c"
      by (rule mapped_prefix_unique) (use c in \<open>auto simp: trans_at [OF req]\<close>)
    moreover have "trans pt_address d' = unmap_pages p c (trans pt_address d)"
      using trans_window [OF req c(1) w, of "\<lambda>_. None"] by (simp add: unmap_pages_def fun_eq_iff)
    ultimately show ?thesis using eq c(2,3) frame by simp
  qed
qed

lemma pte_bytes_total [simp]: "c \<le> 1024 \<Longrightarrow> pte_total (pte_bytes c) = c"
  by (simp add: pte_total_def pte_bytes_def SPAGE_SIZE_eq unsigned_ucast_eq unat_word_ariths
      unat_of_nat take_bit_eq_mod unat_div)

text \<open>
  The success path of \<open>rk_iommu_map_iova\<close>: every entry of the range is new and is written; the
  other path puts the entries it had written back to invalid.
\<close>

lemma map_iova_ok:
  assumes wf: "wf_domain pt_address amask d" and use: "in_use d (p div 1024)"
    and req: "request iova sz p n"
    and t: "t = elem (table_of pt_address d (p div 1024)) (p mod 1024)"
  shows "\<exists>d' e. map_iova_with mk_pte P d t t iova paddr sz prot = Some (d', e)
    \<and> wf_domain pt_address amask d'
    \<and> (case e of
         None \<Rightarrow> (\<forall>k < n. trans pt_address d (p + k) = None)
           \<and> trans pt_address d' = map_pages mk_pte p n paddr prot (trans pt_address d)
       | Some err \<Rightarrow> err = EADDRINUSE \<and> (\<exists>k < n. trans pt_address d (p + k) \<noteq> None)
           \<and> trans pt_address d' = trans pt_address d)"
proof -
  let ?i = "p div 1024" and ?j = "p mod 1024"
  let ?t = "table_of pt_address d ?i"
  note rf = request_facts(1-8) [OF req]
  have n: "?j + n \<le> 1024" "0 < n" using req by (simp_all add: request_def)
  obtain mem c ok where mem: "map_ptes mk_pte prot (elem ?t ?j) (cpu_mem d) paddr 0 n = (mem, c, ok)"
    by (metis prod_cases3)
  note spec = map_ptes_spec [OF mem table_aligned _ mk_pte_valid, unfolded add_0 add_0_right, OF n(1)]
  have c: "c \<le> n" and ok: "ok \<longleftrightarrow> c = n"
    and none: "\<And>k. k < c \<Longrightarrow> \<not> bit (cpu_mem d (elem ?t (?j + k))) 0"
    and some: "c < n \<Longrightarrow> bit (cpu_mem d (elem ?t (?j + c))) 0"
    and upd: "\<And>b k. page_aligned b \<Longrightarrow> k < 1024 \<Longrightarrow> mem (elem b k) =
       (if b = ?t \<and> ?j \<le> k \<and> k < ?j + c then mk_pte (paddr + of_nat (k - ?j) * SPAGE_SIZE) prot
        else cpu_mem d (elem b k))"
    using spec by blast+
  have unmapped: "trans pt_address d (p + k) = None" if "k < c" for k
    using none [OF that] that c n rf(8) by (simp add: trans_at [OF req] walk_in_use Let_def)
  have mapped: "trans pt_address d (p + c) \<noteq> None" if "c < n"
    using some [OF that] that n rf(8) use by (simp add: trans_at [OF req] walk_in_use Let_def)
  show ?thesis
  proof (cases ok)
    case True
    then have cn: "c = n" using ok by simp
    let ?d1 = "rk_table_flush (d\<lparr>cpu_mem := mem\<rparr>) t n"
    have cpu: "cpu_mem ?d1 (elem b k) = (if b = ?t \<and> ?j \<le> k \<and> k < ?j + n
        then mk_pte (paddr + of_nat (k - ?j) * 4096) prot else cpu_mem d (elem b k))"
      if "page_aligned b" "k < 1024" for b k
      using upd [OF that] by (simp add: cn SPAGE_SIZE_eq)
    have dev: "dev_mem ?d1 (elem b k) = (if b = ?t \<and> ?j \<le> k \<and> k < ?j + n
        then mk_pte (paddr + of_nat (k - ?j) * 4096) prot else dev_mem d (elem b k))"
      if "page_aligned b" "k < 1024" for b k
      using cpu [OF that] that n(1) by (auto simp: flush_elem t)
    have wf1: "wf_domain pt_address amask ?d1" by (rule window_wf(1) [OF wf use n(1) _ _ _ cpu dev]) simp_all
    have w: "walk_cpu ?d1 i' k = (if i' = ?i \<and> ?j \<le> k \<and> k < ?j + n
        then Some (mk_pte (paddr + of_nat (k - ?j) * 4096) prot) else walk_cpu d i' k)"
      if "i' < 1024" "k < 1024" for i' k
      using window_wf(2) [OF wf use n(1) _ _ _ cpu dev that] by (simp add: mk_pte_valid)
    have tr: "trans pt_address ?d1 = map_pages mk_pte p n paddr prot (trans pt_address d)"
    proof
      fix pn
      have sub: "pn mod 1024 - ?j = pn - p" if "p \<le> pn" "pn < p + n" "pn < 2 ^ 20" for pn
        using request_facts(9) [OF req order_refl that(3)] that(1,2)
        by (metis add_diff_cancel_left mult_div_mod_eq)
      show "trans pt_address ?d1 pn = map_pages mk_pte p n paddr prot (trans pt_address d) pn"
        unfolding map_pages_def by (rule trans_window [OF req order_refl w]) (simp_all only: sub)
    qed
    obtain is' where z: "rk_iommu_zap_iova_first_last P ?d1 iova sz = Some (?d1\<lparr>iommus := is'\<rparr>)"
      using zap_first_last_some [OF rf(4-7), of P ?d1] by blast
    have "map_iova_with mk_pte P d t t iova paddr sz prot
        = Some ((if dom_shootdown_entire d then ?d1 else ?d1\<lparr>iommus := is'\<rparr>), None)"
      using mem True rf(3) z by (simp add: map_iova_with_def Let_def t)
    then show ?thesis using wf1 tr unmapped cn by auto
  next
    case False
    then have cn: "c < n" using ok c by simp
    let ?d1 = "d\<lparr>cpu_mem := mem\<rparr>"
    obtain mem' c' where mem': "unmap_ptes mem (elem ?t ?j) 0 c = (mem', c')" by fastforce
    have jc: "?j + c \<le> 1024" using n cn by simp
    note uspec = unmap_ptes_spec [OF mem' table_aligned, unfolded add_0 add_0_right, OF jc]
    have "bit (mem (elem ?t (?j + k))) 0" if "k < c" for k
      using upd [of ?t "?j + k"] that jc by (simp add: mk_pte_valid)
    then have c': "c' = c" using uspec by (meson le_neq_implies_less)
    let ?d2 = "rk_table_flush (d\<lparr>cpu_mem := mem'\<rparr>) t c"
    have cpu: "cpu_mem ?d2 (elem b k) = (if b = ?t \<and> ?j \<le> k \<and> k < ?j + c
        then rk_mk_pte_invalid (mem (elem ?t k)) else cpu_mem d (elem b k))"
      if "page_aligned b" "k < 1024" for b k
      using uspec upd [OF that] that c' by auto
    have dev: "dev_mem ?d2 (elem b k) = (if b = ?t \<and> ?j \<le> k \<and> k < ?j + c
        then rk_mk_pte_invalid (mem (elem ?t k)) else dev_mem d (elem b k))"
      if "page_aligned b" "k < 1024" for b k
      using cpu [OF that] that jc by (auto simp: flush_elem t)
    have wf2: "wf_domain pt_address amask ?d2" by (rule window_wf(1) [OF wf use jc _ _ _ cpu dev]) simp_all
    have w: "walk_cpu ?d2 i' k = (if i' = ?i \<and> ?j \<le> k \<and> k < ?j + c then None else walk_cpu d i' k)"
      if "i' < 1024" "k < 1024" for i' k
      using window_wf(2) [OF wf use jc _ _ _ cpu dev that] by simp
    have tr: "trans pt_address ?d2 = trans pt_address d"
    proof
      fix pn
      have "trans pt_address ?d2 pn = (if p \<le> pn \<and> pn < p + c then None else trans pt_address d pn)"
        by (rule trans_window [OF req c w]) simp_all
      then show "trans pt_address ?d2 pn = trans pt_address d pn"
        using unmapped [of "pn - p"] by auto
    qed
    have "map_iova_with mk_pte P d t t iova paddr sz prot = Some (?d2, Some EADDRINUSE)"
      using mem False rf(3) mem' c' n cn
      by (simp add: map_iova_with_def Let_def t rk_iommu_unmap_iova_def)
    then show ?thesis using wf2 tr mapped cn by auto
  qed
qed

text \<open>\<open>rk_iommu_map\<close> implements \<open>map_pages\<close>, or fails and leaves the translation as it was.\<close>

lemma map_refines:
  assumes wf: "wf_domain pt_address amask d" and req: "request iova sz p n"
  shows "\<exists>d' e. map_with (get_page_table_with mk_dte pt_address) pt_address (map_iova_with mk_pte)
        P d iova paddr sz prot = Some (d', e)
    \<and> wf_domain pt_address amask d'
    \<and> (case e of
         None \<Rightarrow> (\<forall>k < n. trans pt_address d (p + k) = None)
           \<and> trans pt_address d' = map_pages mk_pte p n paddr prot (trans pt_address d)
       | Some err \<Rightarrow> (err = ENOMEM \<or> err = EADDRINUSE \<and> (\<exists>k < n. trans pt_address d (p + k) \<noteq> None))
           \<and> trans pt_address d' = trans pt_address d)"
proof -
  note rf = request_facts(1-8) [OF req]
  obtain d1 res where g: "get_page_table_with mk_dte pt_address d iova = (d1, res)"
    by (cases "get_page_table_with mk_dte pt_address d iova")
  note G = get_page_table_ok [OF wf g, unfolded rf(1)]
  have wf1: "wf_domain pt_address amask d1" using G by blast
  have tr1: "trans pt_address d1 = trans pt_address d" using G by (auto simp: trans_def fun_eq_iff)
  show ?thesis
  proof (cases res)
    case (Inl e)
    with G have "e = ENOMEM" by simp
    with Inl g wf1 tr1 show ?thesis by (simp add: map_with_def)
  next
    case (Inr t)
    with G have use: "in_use d1 (p div 1024)" and t: "t = table_of pt_address d1 (p div 1024)" by simp_all
    have "map_with (get_page_table_with mk_dte pt_address) pt_address (map_iova_with mk_pte)
        P d iova paddr sz prot
      = map_iova_with mk_pte P d1 (elem t (p mod 1024)) (elem t (p mod 1024)) iova paddr sz prot"
      using g Inr rf by (simp add: map_with_def Let_def t table_of_def)
    moreover have te: "elem t (p mod 1024) = elem (table_of pt_address d1 (p div 1024)) (p mod 1024)"
      using t by simp
    obtain d' e where "map_iova_with mk_pte P d1 (elem t (p mod 1024)) (elem t (p mod 1024))
          iova paddr sz prot = Some (d', e)" "wf_domain pt_address amask d'"
      "case e of
         None \<Rightarrow> (\<forall>k < n. trans pt_address d (p + k) = None)
           \<and> trans pt_address d' = map_pages mk_pte p n paddr prot (trans pt_address d)
       | Some err \<Rightarrow> err = EADDRINUSE \<and> (\<exists>k < n. trans pt_address d (p + k) \<noteq> None)
           \<and> trans pt_address d' = trans pt_address d"
      using map_iova_ok [OF wf1 use req te, of P paddr prot] unfolding tr1 by blast
    ultimately show ?thesis by (intro exI [of _ d'] exI [of _ e]) (auto split: option.splits)
  qed
qed

end

end
