(* ===== verification/Rk_Iommu.thy ===== *)
theory Rk_Iommu
  imports Rk_Iommu_Table "HOL-Library.Multiset"
begin

text \<open>
  The operations the IOMMU core calls (\<open>rk_iommu_ops\<close>, \<open>rk_iommu_ops_v2\<close>): allocating a domain,
  attaching and detaching devices, runtime power management and the interrupt mask; then the
  properties of the whole driver, on both table formats.
\<close>

section \<open>Allocating a domain\<close>

text \<open>
  What \<open>rk_iommu_domain_alloc\<close> meets: whether an IOMMU has been probed (\<open>dma_dev\<close>), whether
  \<open>kzalloc\<close> succeeds, the result of \<open>iommu_get_dma_cookie\<close>, and the supply of pages and memory as
  in \<open>rk_domain\<close>. The result is the domain, if any, and the releases made on the error path.
\<close>

record alloc_env =
  have_dma_dev :: bool
  kzalloc_ok :: bool
  cookie_error :: "errno option"
  env_cpu :: "u64 \<Rightarrow> u32"
  env_dev :: "u64 \<Rightarrow> u32"
  env_supply :: "(u64 \<times> u64 option) list"

definition rk_iommu_domain_alloc ::
  "alloc_env \<Rightarrow> domain_type \<Rightarrow> 'hw rk_domain option \<times> release list" where
  "rk_iommu_domain_alloc env type =
     (if type \<noteq> IOMMU_DOMAIN_UNMANAGED \<and> type \<noteq> IOMMU_DOMAIN_DMA then (None, [])
      else if \<not> have_dma_dev env then (None, [])
      else if \<not> kzalloc_ok env then (None, [])
      else if type = IOMMU_DOMAIN_DMA \<and> cookie_error env \<noteq> None then (None, [Kfree])
      else
        let put_cookie = (if type = IOMMU_DOMAIN_DMA then [Put_cookie] else []) in
        case env_supply env of
          [] \<Rightarrow> (None, put_cookie @ [Kfree])
        | (page, None) # rest \<Rightarrow> (None, Free_page page # put_cookie @ [Kfree])
        | (page, Some dma) # rest \<Rightarrow>
            (Some (rk_table_flush
               \<lparr>dt = page, dt_dma = dma, cpu_mem = zero_page (env_cpu env) page, dev_mem = env_dev env,
                page_supply = rest, released = [], dom_type = type, dom_shootdown_entire = False,
                iommus = []\<rparr> dma NUM_DT_ENTRIES), []))"

section \<open>Attaching and detaching\<close>

text \<open>
  Devices and domains by number. \<open>attached i\<close> is \<open>iommu->domain\<close> of IOMMU \<open>i\<close>, \<open>members D\<close> the list
  \<open>rk_domain->iommus\<close>, \<open>dlr_disable\<close> the device-tree flag.
\<close>

record 'hw iommu_sys =
  iommu_of :: "nat \<Rightarrow> 'hw rk_iommu"
  attached :: "nat \<Rightarrow> nat option"
  dlr_disable :: "nat \<Rightarrow> bool"
  members :: "nat \<Rightarrow> nat list"
  shoot_of :: "nat \<Rightarrow> bool"
  dt_dma_of :: "nat \<Rightarrow> u64"

definition set_iommu :: "nat \<Rightarrow> 'hw rk_iommu \<Rightarrow> 'hw iommu_sys \<Rightarrow> 'hw iommu_sys" where
  "set_iommu i io s = s\<lparr>iommu_of := (iommu_of s)(i := io)\<rparr>"

text \<open>\<open>iommu->domain = v\<close>; the handler of the interrupt looks at \<open>has_domain\<close>.\<close>

definition set_domain :: "nat \<Rightarrow> nat option \<Rightarrow> 'hw iommu_sys \<Rightarrow> 'hw iommu_sys" where
  "set_domain i v s =
     set_iommu i (iommu_of s i\<lparr>has_domain := v \<noteq> None\<rparr>) (s\<lparr>attached := (attached s)(i := v)\<rparr>)"

text \<open>The argument is the result of \<open>rk_iommu_from_dev\<close>. \<open>list_del_init\<close> takes the node off the list it is on.\<close>

definition rk_iommu_detach_device ::
  "'hw mmu_port \<Rightarrow> nat option \<Rightarrow> 'hw iommu_sys \<Rightarrow> 'hw iommu_sys" where
  "rk_iommu_detach_device P iommu s =
     (case iommu of None \<Rightarrow> s
      | Some i \<Rightarrow>
          if attached s i = None then s
          else
            let s1 = set_domain i None s;
                s2 = s1\<lparr>members := (\<lambda>D. removeAll i (members s1 D))\<rparr>;
                io = iommu_of s2 i
            in if pm_in_use io > 0 then
                 let io1 = rk_iommu_disable P (io\<lparr>pm_count := pm_count io + 1\<rparr>)
                 in set_iommu i (io1\<lparr>pm_count := pm_count io1 - 1\<rparr>) s2
               else s2)"

definition rk_iommu_attach_device ::
  "'hw mmu_port \<Rightarrow> nat option \<Rightarrow> nat option \<Rightarrow> 'hw iommu_sys \<Rightarrow> 'hw iommu_sys \<times> errno option" where
  "rk_iommu_attach_device P domain iommu s =
     (case iommu of None \<Rightarrow> (s, None)
      | Some i \<Rightarrow>
          let s1 = (if attached s i \<noteq> None then rk_iommu_detach_device P (Some i) s else s);
              s2 = set_domain i domain s1 in
          case domain of None \<Rightarrow> (s2, None)
          | Some D \<Rightarrow>
              let s3 = s2\<lparr>members := (members s2)(D := members s2 D @ [i]),
                          shoot_of := (shoot_of s2)(D := shootdown_entire (iommu_of s2 i))\<rparr>;
                  io = iommu_of s3 i in
              if pm_in_use io \<le> 0 then (s3, None)
              else
                let (io1, ret) = rk_iommu_enable P (dt_dma_of s3 D) (io\<lparr>pm_count := pm_count io + 1\<rparr>);
                    s4 = set_iommu i io1 s3;
                    s5 = (if ret \<noteq> None then rk_iommu_detach_device P (Some i) s4 else s4);
                    io2 = iommu_of s5 i
                in (set_iommu i (io2\<lparr>pm_count := pm_count io2 - 1\<rparr>) s5, ret))"

section \<open>Power management and the interrupt mask\<close>

definition rockchip_iommu_disable ::
  "'hw mmu_port \<Rightarrow> nat option \<Rightarrow> 'hw iommu_sys \<Rightarrow> 'hw iommu_sys \<times> errno option" where
  "rockchip_iommu_disable P iommu s =
     (case iommu of None \<Rightarrow> (s, Some ENODEV)
      | Some i \<Rightarrow> (set_iommu i (rk_iommu_disable P (iommu_of s i)) s, None))"

text \<open>With no domain attached, \<open>rk_iommu_enable\<close> reads through a pointer derived from NULL: \<open>None\<close>.\<close>

definition rockchip_iommu_enable ::
  "'hw mmu_port \<Rightarrow> nat option \<Rightarrow> 'hw iommu_sys \<Rightarrow> ('hw iommu_sys \<times> errno option) option" where
  "rockchip_iommu_enable P iommu s =
     (case iommu of None \<Rightarrow> Some (s, Some ENODEV)
      | Some i \<Rightarrow>
          (case attached s i of None \<Rightarrow> None
           | Some D \<Rightarrow>
               let (io, ret) = rk_iommu_enable P (dt_dma_of s D) (iommu_of s i)
               in Some (set_iommu i io s, ret)))"

definition rk_iommu_suspend :: "'hw mmu_port \<Rightarrow> nat \<Rightarrow> 'hw iommu_sys \<Rightarrow> 'hw iommu_sys" where
  "rk_iommu_suspend P i s =
     (if attached s i = None then s
      else if dlr_disable s i then s
      else set_iommu i (rk_iommu_disable P (iommu_of s i)) s)"

definition rk_iommu_resume ::
  "'hw mmu_port \<Rightarrow> nat \<Rightarrow> 'hw iommu_sys \<Rightarrow> 'hw iommu_sys \<times> errno option" where
  "rk_iommu_resume P i s =
     (case attached s i of None \<Rightarrow> (s, None)
      | Some D \<Rightarrow>
          if dlr_disable s i then (s, None)
          else
            let (io, ret) = rk_iommu_enable P (dt_dma_of s D) (iommu_of s i)
            in (set_iommu i io s, ret))"

definition rk_iommu_mask_irq :: "'hw mmu_port \<Rightarrow> nat option \<Rightarrow> 'hw iommu_sys \<Rightarrow> 'hw iommu_sys" where
  "rk_iommu_mask_irq P iommu s =
     (case iommu of None \<Rightarrow> s
      | Some i \<Rightarrow>
          let io = iommu_of s i in
          set_iommu i (io\<lparr>bases := map (\<lambda>b. rk_iommu_write P b RK_MMU_INT_MASK 0) (bases io)\<rparr>) s)"

definition rk_iommu_unmask_irq :: "'hw mmu_port \<Rightarrow> nat option \<Rightarrow> 'hw iommu_sys \<Rightarrow> 'hw iommu_sys" where
  "rk_iommu_unmask_irq P iommu s =
     (case iommu of None \<Rightarrow> s
      | Some i \<Rightarrow>
          let io = iommu_of s i in
          set_iommu i (io\<lparr>bases := map (\<lambda>b.
            let b1 = rk_iommu_base_command P b RK_MMU_CMD_ZAP_CACHE;
                b2 = rk_iommu_write P b1 RK_MMU_INT_MASK RK_MMU_IRQ_MASK
            in rk_iommu_base_command P b2 RK_MMU_CMD_PAGE_FAULT_DONE) (bases io)\<rparr>) s)"

section \<open>Refinement on both formats\<close>

lemma mapped_prefix_le: "mapped_prefix p n m \<le> n"
  by (induction n arbitrary: p) auto

context pt_format
begin

lemma translate_mapped:
  assumes "trans pt_address d (unat iova div 4096) = Some (mk_pte pa prot)" "pa AND amask = pa"
    and "unat iova < 2 ^ 32"
  shows "iova_to_phys_with pt_address page_address d iova = pa + ucast (rk_iova_page_offset iova)"
proof -
  have "unat (rk_iova_dte_index iova) = unat iova div 4096 div 1024"
    "unat (rk_iova_pte_index iova) = unat iova div 4096 mod 1024"
    using assms(3) by (simp_all add: unat_rk_iova_dte_index unat_rk_iova_pte_index div_mult2_eq [symmetric])
  with assms show ?thesis
    by (simp add: iova_to_phys_walk trans_def page_address_mk_pte split: if_splits)
qed

text \<open>Unmapping a range that has just been mapped gives the whole size back.\<close>

lemma mapped_prefix_map_pages: "mapped_prefix p n (map_pages mk_pte p n pa prot m) = n"
  by (rule mapped_prefix_unique) (auto simp: map_pages_def)

lemma unmap_map_pages:
  "(\<And>k. k < n \<Longrightarrow> m (p + k) = None) \<Longrightarrow> unmap_pages p n (map_pages mk_pte p n pa prot m) = m"
proof (rule ext)
  fix pn assume "\<And>k. k < n \<Longrightarrow> m (p + k) = None"
  from this [of "pn - p"] show "unmap_pages p n (map_pages mk_pte p n pa prot m) pn = m pn"
    by (auto simp: unmap_pages_def map_pages_def)
qed

end

lemma pages_of_request: "pages_of (4096 * p) (4096 * p + 4096 * c) = {p ..< p + c}"
  by (auto simp: pages_of_def)

text \<open>The shootdown that follows an unmap.\<close>

definition shot_down :: "('hw \<Rightarrow> nat set) \<Rightarrow> nat set \<Rightarrow> 'hw rk_domain \<Rightarrow> bool" where
  "shot_down tlb S d \<longleftrightarrow> (\<forall>i \<in> set (iommus d). pm_in_use i > 0 \<longrightarrow> no_lines tlb S i)"

lemma rk_iommu_zap_iova_shot_down:
  assumes law: "zap_law P tlb" and req: "request iova sz p n" and c: "unat bytes = 4096 * c" "c \<le> n"
  shows "\<exists>is'. rk_iommu_zap_iova P d iova bytes = Some (d\<lparr>iommus := is'\<rparr>)
    \<and> shot_down tlb {p ..< p + c} (d\<lparr>iommus := is'\<rparr>)"
proof -
  have iova: "unat iova = 4096 * p" and sz: "unat sz = 4096 * n" using req by (simp_all add: request_def)
  have "unat iova + unat bytes \<le> 2 ^ 32" using request_facts(7) [OF req] c sz by linarith
  from zap_iommus_tlb [OF law request_facts(4) [OF req] this, of "iommus d"] show ?thesis
    unfolding iova c(1) pages_of_request
    by (fastforce simp: rk_iommu_zap_iova_def shot_down_def list_all2_conv_all_nth in_set_conv_nth)
qed

lemma request_addr:
  assumes "request iova sz p n" "unat a div 4096 = p + k" "k < n"
  shows "unat a < 2 ^ 32"
proof -
  have "p + n \<le> 2 ^ 20" using request_facts(7) [OF assms(1)] assms(1) by (simp add: request_def)
  with assms(2,3) have "unat a div 4096 < 2 ^ 20" by linarith
  then show ?thesis by (simp add: div_less_iff_less_mult)
qed

lemma ucast_page_offset: "ucast (rk_iova_page_offset a) = (of_nat (unat a mod 4096) :: u64)"
  by (simp add: word_unat_eq_iff unsigned_ucast_eq unat_rk_iova_page_offset unat_of_nat
      take_bit_eq_mod)

section \<open>Mapping and unmapping: the properties\<close>

text \<open>
  With a well-formed domain and a request of the IOMMU core, \<open>rk_iommu_map\<close> (version 1) returns:
  either it succeeds, the pages were free and the translation is extended by exactly the range, or
  it fails with ENOMEM, or with EADDRINUSE because a page of the range was mapped, and the
  translation is what it was. Well-formedness is kept and the device sees the same translation.
\<close>

theorem rk_iommu_map_refines:
  assumes "wf_domain rk_dte_pt_address (GENMASK 31 12) d" "request iova sz p n"
  shows "\<exists>d' e. rk_iommu_map P d iova paddr sz prot = Some (d', e)
    \<and> wf_domain rk_dte_pt_address (GENMASK 31 12) d'
    \<and> dev_trans rk_dte_pt_address d' = trans rk_dte_pt_address d'
    \<and> (case e of
         None \<Rightarrow> (\<forall>k < n. trans rk_dte_pt_address d (p + k) = None)
           \<and> trans rk_dte_pt_address d' = map_pages rk_mk_pte p n paddr prot (trans rk_dte_pt_address d)
       | Some err \<Rightarrow> (err = ENOMEM \<or> err = EADDRINUSE \<and> (\<exists>k < n. trans rk_dte_pt_address d (p + k) \<noteq> None))
           \<and> trans rk_dte_pt_address d' = trans rk_dte_pt_address d)"
  using v1.map_refines [OF assms, of P paddr prot]
  unfolding rk_iommu_map_def rk_dte_get_page_table_def rk_iommu_map_iova_def
  by (elim ex_forward) (simp add: v1.dev_trans_eq)

text \<open>C1: The same for \<open>rk_iommu_map_v2\<close> and the 40-bit format.\<close>

theorem rk_iommu_map_v2_refines:
  assumes "wf_domain rk_dte_pt_address_v2 (GENMASK 39 12) d" "request iova sz p n"
  shows "\<exists>d' e. rk_iommu_map_v2 P d iova paddr sz prot = Some (d', e)
    \<and> wf_domain rk_dte_pt_address_v2 (GENMASK 39 12) d'
    \<and> dev_trans rk_dte_pt_address_v2 d' = trans rk_dte_pt_address_v2 d'
    \<and> (case e of
         None \<Rightarrow> (\<forall>k < n. trans rk_dte_pt_address_v2 d (p + k) = None)
           \<and> trans rk_dte_pt_address_v2 d' = map_pages rk_mk_pte_v2 p n paddr prot (trans rk_dte_pt_address_v2 d)
       | Some err \<Rightarrow> (err = ENOMEM \<or> err = EADDRINUSE \<and> (\<exists>k < n. trans rk_dte_pt_address_v2 d (p + k) \<noteq> None))
           \<and> trans rk_dte_pt_address_v2 d' = trans rk_dte_pt_address_v2 d)"
  using v2.map_refines [OF assms, of P paddr prot]
  unfolding rk_iommu_map_v2_def rk_dte_get_page_table_v2_def rk_iommu_map_iova_v2_def
  by (elim ex_forward) (simp add: v2.dev_trans_eq)

text \<open>
  \<open>rk_iommu_unmap\<close> (version 1) returns the size of the mapped pages at the start of the range,
  removes exactly those from the translation, keeps the domain well-formed, and no powered MMU of
  the domain has a line of those pages left.
\<close>

theorem rk_iommu_unmap_refines:
  assumes wf: "wf_domain rk_dte_pt_address (GENMASK 31 12) d" and req: "request iova sz p n"
    and law: "zap_law P tlb"
    and c: "c = mapped_prefix p n (trans rk_dte_pt_address d)"
  shows "\<exists>d' bytes. rk_iommu_unmap P d iova sz = Some (d', bytes)
    \<and> unat bytes = 4096 * c \<and> wf_domain rk_dte_pt_address (GENMASK 31 12) d'
    \<and> trans rk_dte_pt_address d' = unmap_pages p c (trans rk_dte_pt_address d)
    \<and> (0 < c \<longrightarrow> shot_down tlb {p ..< p + c} d')"
proof (cases "unmap_table_with rk_dte_pt_address d iova sz")
  case None
  with v1.unmap_table_refines [OF wf req] c have "c = 0" by simp
  with None wf show ?thesis by (auto simp: rk_iommu_unmap_def unmap_pages_def fun_eq_iff)
next
  case (Some r)
  obtain d1 bytes where r: "r = (d1, bytes)" by (cases r)
  have d1: "wf_domain rk_dte_pt_address (GENMASK 31 12) d1" "unat bytes = 4096 * c"
    "trans rk_dte_pt_address d1 = unmap_pages p c (trans rk_dte_pt_address d)"
    using v1.unmap_table_refines [OF wf req] Some r c by simp_all
  have "c \<le> n" unfolding c by (rule mapped_prefix_le)
  from rk_iommu_zap_iova_shot_down [OF law req d1(2) this, of d1] Some r d1
  show ?thesis by (auto simp: rk_iommu_unmap_def)
qed

text \<open>Flushing: the command to zap the cache empties the TLB of a powered MMU.\<close>

definition flush_law :: "'hw mmu_port \<Rightarrow> ('hw \<Rightarrow> nat set) \<Rightarrow> bool" where
  "flush_law P tlb \<longleftrightarrow> (\<forall>h. tlb (writel P h RK_MMU_COMMAND RK_MMU_CMD_ZAP_CACHE) = {})"

lemma rk_iommu_flush_tlb_all_shot_down: "flush_law P tlb \<Longrightarrow> shot_down tlb S (rk_iommu_flush_tlb_all P d)"
  by (auto simp: shot_down_def rk_iommu_flush_tlb_all_def no_lines_def flush_law_def Let_def rk_iommu_write_def
      clk_bulk_disable_def)

text \<open>
  C2: \<open>rk_iommu_unmap_v2\<close> does the same in the 40-bit format, on a well-formed domain and a page-aligned range within
  one page table. It zaps the lines of the removed pages only where the domain is not marked \<open>shootdown_entire\<close>; marked or
  not, \<open>rk_iommu_flush_tlb_all\<close> afterwards leaves no powered MMU a line of any page. A written line register is taken
  to drop the line, and the zap command to empty the TLB.
\<close>

theorem rk_iommu_unmap_v2_refines:
  assumes wf: "wf_domain rk_dte_pt_address_v2 (GENMASK 39 12) d" and req: "request iova sz p n"
    and law: "zap_law P tlb" and flush: "flush_law P tlb"
    and c: "c = mapped_prefix p n (trans rk_dte_pt_address_v2 d)"
  shows "\<exists>d' bytes. rk_iommu_unmap_v2 P d iova sz = Some (d', bytes)
    \<and> unat bytes = 4096 * c \<and> wf_domain rk_dte_pt_address_v2 (GENMASK 39 12) d'
    \<and> trans rk_dte_pt_address_v2 d' = unmap_pages p c (trans rk_dte_pt_address_v2 d)
    \<and> (0 < c \<and> \<not> dom_shootdown_entire d \<longrightarrow> shot_down tlb {p ..< p + c} d')
    \<and> shot_down tlb UNIV (rk_iommu_flush_tlb_all P d')"
proof (cases "unmap_table_with rk_dte_pt_address_v2 d iova sz")
  case None
  with v2.unmap_table_refines [OF wf req] c have "c = 0" by simp
  with None wf show ?thesis using rk_iommu_flush_tlb_all_shot_down [OF flush]
    by (auto simp: rk_iommu_unmap_v2_def unmap_pages_def fun_eq_iff)
next
  case (Some r)
  obtain d1 bytes where r: "r = (d1, bytes)" by (cases r)
  have d1: "wf_domain rk_dte_pt_address_v2 (GENMASK 39 12) d1" "unat bytes = 4096 * c"
    "trans rk_dte_pt_address_v2 d1 = unmap_pages p c (trans rk_dte_pt_address_v2 d)"
    "d1 = d\<lparr>cpu_mem := cpu_mem d1, dev_mem := dev_mem d1\<rparr>"
    using v2.unmap_table_refines [OF wf req] Some r c by simp_all
  have she: "dom_shootdown_entire d1 = dom_shootdown_entire d"
    by (subst d1(4)) simp
  have "c \<le> n" unfolding c by (rule mapped_prefix_le)
  from rk_iommu_zap_iova_shot_down [OF law req d1(2) this, of d1] Some r d1(1-3) she
    rk_iommu_flush_tlb_all_shot_down [OF flush]
  show ?thesis by (auto simp: rk_iommu_unmap_v2_def)
qed

text \<open>
  After a successful \<open>rk_iommu_map\<close> every address of the range translates to the physical
  address it was mapped to, offset included (version 1: below 4 GiB).
\<close>

theorem rk_iommu_map_translates:
  assumes wf: "wf_domain rk_dte_pt_address (GENMASK 31 12) d" and req: "request iova sz p n"
    and m: "rk_iommu_map P d iova paddr sz prot = Some (d', None)"
    and a: "unat a div 4096 = p + k" "k < n"
    and pa: "(paddr + of_nat k * 4096) AND GENMASK 31 12 = paddr + of_nat k * 4096"
  shows "rk_iommu_iova_to_phys d' a = paddr + of_nat k * 4096 + of_nat (unat a mod 4096)"
proof -
  have "trans rk_dte_pt_address d' = map_pages rk_mk_pte p n paddr prot (trans rk_dte_pt_address d)"
    using v1.map_refines [OF wf req, of P paddr prot] m
    unfolding rk_iommu_map_def rk_dte_get_page_table_def rk_iommu_map_iova_def by auto
  then have t: "trans rk_dte_pt_address d' (unat a div 4096) = Some (rk_mk_pte (paddr + of_nat k * 4096) prot)"
    using a by (simp add: map_pages_def)
  show ?thesis
    using v1.translate_mapped [OF t pa request_addr [OF req a]]
    by (simp add: rk_iommu_iova_to_phys_def ucast_page_offset)
qed

text \<open>The same for version 2, for physical addresses below \<open>2 ^ 40\<close>.\<close>

theorem rk_iommu_map_v2_translates:
  assumes wf: "wf_domain rk_dte_pt_address_v2 (GENMASK 39 12) d" and req: "request iova sz p n"
    and m: "rk_iommu_map_v2 P d iova paddr sz prot = Some (d', None)"
    and a: "unat a div 4096 = p + k" "k < n"
    and pa: "(paddr + of_nat k * 4096) AND GENMASK 39 12 = paddr + of_nat k * 4096"
  shows "rk_iommu_iova_to_phys_v2 d' a = paddr + of_nat k * 4096 + of_nat (unat a mod 4096)"
proof -
  have "trans rk_dte_pt_address_v2 d' = map_pages rk_mk_pte_v2 p n paddr prot (trans rk_dte_pt_address_v2 d)"
    using v2.map_refines [OF wf req, of P paddr prot] m
    unfolding rk_iommu_map_v2_def rk_dte_get_page_table_v2_def rk_iommu_map_iova_v2_def by auto
  then have t: "trans rk_dte_pt_address_v2 d' (unat a div 4096) = Some (rk_mk_pte_v2 (paddr + of_nat k * 4096) prot)"
    using a by (simp add: map_pages_def)
  show ?thesis
    using v2.translate_mapped [OF t pa request_addr [OF req a]]
    by (simp add: rk_iommu_iova_to_phys_v2_def ucast_page_offset)
qed

text \<open>
  Unmapping what was just mapped (version 2) returns the full size and gives the translation
  of before the map back.
\<close>

theorem rk_iommu_map_unmap_roundtrip:
  assumes wf: "wf_domain rk_dte_pt_address_v2 (GENMASK 39 12) d" and req: "request iova sz p n"
    and m: "rk_iommu_map_v2 P d iova paddr sz prot = Some (d', None)"
  shows "\<exists>d''. rk_iommu_unmap_v2 P d' iova sz = Some (d'', sz)
    \<and> trans rk_dte_pt_address_v2 d'' = trans rk_dte_pt_address_v2 d"
proof -
  have wf': "wf_domain rk_dte_pt_address_v2 (GENMASK 39 12) d'"
    and free: "\<And>k. k < n \<Longrightarrow> trans rk_dte_pt_address_v2 d (p + k) = None"
    and t: "trans rk_dte_pt_address_v2 d' = map_pages rk_mk_pte_v2 p n paddr prot (trans rk_dte_pt_address_v2 d)"
    using v2.map_refines [OF wf req, of P paddr prot] m
    unfolding rk_iommu_map_v2_def rk_dte_get_page_table_v2_def rk_iommu_map_iova_v2_def by auto
  have pre: "mapped_prefix p n (trans rk_dte_pt_address_v2 d') = n"
    unfolding t by (rule v2.mapped_prefix_map_pages)
  have restored: "unmap_pages p n (trans rk_dte_pt_address_v2 d') = trans rk_dte_pt_address_v2 d"
    unfolding t by (rule v2.unmap_map_pages) (rule free)
  have pn: "0 < n" "trans rk_dte_pt_address_v2 d' p \<noteq> None"
    using req t by (auto simp: request_def map_pages_def)
  obtain d1 bytes where u: "unmap_table_with rk_dte_pt_address_v2 d' iova sz = Some (d1, bytes)"
    "unat bytes = 4096 * n" "trans rk_dte_pt_address_v2 d1 = trans rk_dte_pt_address_v2 d"
    using v2.unmap_table_refines [OF wf' req] pn pre restored by (auto split: option.splits)
  have sz: "bytes = sz" using u(2) req by (simp add: request_def word_unat_eq_iff)
  obtain is' where "rk_iommu_zap_iova P d1 iova bytes = Some (d1\<lparr>iommus := is'\<rparr>)"
    using rk_iommu_zap_iova_some [OF request_facts(4,7) [OF req], of P d1] sz by blast
  with u sz show ?thesis by (simp add: rk_iommu_unmap_v2_def)
qed

section \<open>Allocating and freeing a domain\<close>

text \<open>The pages the allocator may hand out: addressable in an entry, each once, mapped one to one.\<close>

definition supply_ok :: "u64 \<Rightarrow> (u64 \<times> u64 option) list \<Rightarrow> bool" where
  "supply_ok amask ps \<longleftrightarrow>
     distinct (map fst ps) \<and> list_all (\<lambda>(p, m). p AND amask = p \<and> (m = None \<or> m = Some p)) ps"

context pt_format
begin

lemma domain_alloc_wf:
  assumes "supply_ok amask (env_supply env)" "rk_iommu_domain_alloc env type = (Some d, rel)"
  shows "wf_domain pt_address amask d \<and> trans pt_address d = (\<lambda>_. None) \<and> rel = []"
proof -
  obtain p dma rest where s: "env_supply env = (p, Some dma) # rest"
    and d: "d = rk_table_flush
       \<lparr>dt = p, dt_dma = dma, cpu_mem = zero_page (env_cpu env) p, dev_mem = env_dev env,
        page_supply = rest, released = [], dom_type = type, dom_shootdown_entire = False,
        iommus = []\<rparr> dma 1024" and rel: "rel = []"
    using assms(2)
    by (auto simp: rk_iommu_domain_alloc_def NUM_DT_ENTRIES_def Let_def split: if_splits list.splits prod.splits option.splits)
  have p: "p AND amask = p" "dma = p" "page_aligned p" "p \<notin> fst ` set rest"
    and rest: "distinct (map fst rest)" "\<And>q m. (q, m) \<in> set rest \<Longrightarrow> q AND amask = q \<and> (m = None \<or> m = Some q)"
    using assms(1) s by (auto simp: supply_ok_def list_all_iff intro: supply_aligned)
  have dir: "cpu_mem d (elem p i) = 0" "dev_mem d (elem p i) = 0" if "i < 1024" for i
    using that p zero_page_elem [of p p i "env_cpu env"]
    by (simp_all add: d flush_elem [where j = 0, simplified])
  have dt: "dt d = p" "dt_dma d = p" "page_supply d = rest" using p by (simp_all add: d)
  have none: "\<not> in_use d i" for i using dir dt by (auto simp: in_use_def)
  have "q \<noteq> p" if "(q, m) \<in> set rest" for q m using that p(4) by force
  then have "wf_tables pt_address amask d"
    using rest p(3) none by (auto simp: wf_tables_def dt)
  moreover have "coherent pt_address d"
    using none dir by (simp add: coherent_def dt)
  moreover have "trans pt_address d = (\<lambda>_. None)"
    using none by (auto simp: trans_def fun_eq_iff walk_in_use)
  ultimately show ?thesis using rel by (simp add: wf_domain_def)
qed

lemma table_of_released [simp]: "table_of pt_address (d\<lparr>released := r\<rparr>) = table_of pt_address d"
  by (simp add: table_of_def fun_eq_iff)

lemma free_tables_released:
  "free_tables pt_address d is = d\<lparr>released := released d @
     concat (map (\<lambda>i. if bit (cpu_mem d (elem (dt d) i)) 0
       then [Dma_unmap (table_of pt_address d i), Free_page (table_of pt_address d i)] else []) is)\<rparr>"
  by (induction "is" arbitrary: d) (auto simp: Let_def table_of_def cong: if_cong)

lemma domain_free_released:
  assumes wf: "wf_domain pt_address amask d" and rel: "released d = []"
  shows "mset (released (domain_free_with pt_address d)) =
      (\<Sum>i | in_use d i. {#Dma_unmap (table_of pt_address d i), Free_page (table_of pt_address d i)#})
      + {#Dma_unmap (dt_dma d), Free_page (dt d), Kfree#}
      + (if dom_type d = IOMMU_DOMAIN_DMA then {#Put_cookie#} else {#})"
    and "distinct (released (domain_free_with pt_address d))"
proof -
  let ?is = "filter (in_use d) [0..<1024]"
  let ?tables = "concat (map (\<lambda>i. [Dma_unmap (table_of pt_address d i), Free_page (table_of pt_address d i)]) ?is)"
  have "concat (map (\<lambda>i. if bit (cpu_mem d (elem (dt d) i)) 0
       then [Dma_unmap (table_of pt_address d i), Free_page (table_of pt_address d i)] else []) is)
     = concat (map (\<lambda>i. [Dma_unmap (table_of pt_address d i), Free_page (table_of pt_address d i)]) (filter (in_use d) is))"
    if "\<forall>i \<in> set is. i < 1024" for "is"
    using that by (induction "is") (auto simp: in_use_def)
  then have r: "released (domain_free_with pt_address d) = ?tables @ [Dma_unmap (dt_dma d), Free_page (dt d)]
        @ (if dom_type d = IOMMU_DOMAIN_DMA then [Put_cookie] else []) @ [Kfree]"
    using rel by (simp add: domain_free_with_def free_tables_released NUM_DT_ENTRIES_def Let_def)
  have inj: "inj_on (table_of pt_address d) {i. in_use d i}"
    and not_dt: "\<And>i. in_use d i \<Longrightarrow> table_of pt_address d i \<noteq> dt d" and dma: "dt_dma d = dt d"
    using wf by (auto simp: wf_domain_def wf_tables_def inj_on_def)
  have set_is: "set ?is = {i. in_use d i}" by (auto simp: in_use_def)
  have "mset ?tables = (\<Sum>i | in_use d i. {#Dma_unmap (table_of pt_address d i), Free_page (table_of pt_address d i)#})"
    using sum.distinct_set_conv_list [of ?is "\<lambda>i. {#Dma_unmap (table_of pt_address d i), Free_page (table_of pt_address d i)#}",
        unfolded set_is]
    by (simp add: mset_concat o_def)
  then show "mset (released (domain_free_with pt_address d)) =
      (\<Sum>i | in_use d i. {#Dma_unmap (table_of pt_address d i), Free_page (table_of pt_address d i)#})
      + {#Dma_unmap (dt_dma d), Free_page (dt d), Kfree#}
      + (if dom_type d = IOMMU_DOMAIN_DMA then {#Put_cookie#} else {#})"
    by (simp add: r)
  have "distinct (concat (map (\<lambda>i. [Dma_unmap (table_of pt_address d i), Free_page (table_of pt_address d i)]) js))"
    if "distinct js" "set js \<subseteq> {i. in_use d i}" for js
    using that inj by (induction js) (auto simp: inj_on_def)
  then have "distinct ?tables" using set_is by simp
  then show "distinct (released (domain_free_with pt_address d))"
    using dma by (auto simp: r dest: not_dt)
qed

end

text \<open>
  A domain that \<open>rk_iommu_domain_alloc\<close> returns is well-formed on both formats, translates
  nothing, and nothing was released on the way; when it returns none, what it had taken (a page,
  the DMA cookie, the structure) has been given back.
\<close>

theorem rk_iommu_domain_alloc_ok:
  assumes s: "supply_ok (GENMASK 31 12) (env_supply env)"
  shows "case (rk_iommu_domain_alloc env type :: 'hw rk_domain option \<times> release list) of
       (Some d, rel) \<Rightarrow> wf_domain rk_dte_pt_address (GENMASK 31 12) d
         \<and> wf_domain rk_dte_pt_address_v2 (GENMASK 39 12) d
         \<and> trans rk_dte_pt_address d = (\<lambda>_. None) \<and> trans rk_dte_pt_address_v2 d = (\<lambda>_. None)
         \<and> rel = [] \<and> (type = IOMMU_DOMAIN_UNMANAGED \<or> type = IOMMU_DOMAIN_DMA)
     | (None, rel) \<Rightarrow>
         (type = IOMMU_DOMAIN_UNMANAGED \<or> type = IOMMU_DOMAIN_DMA) \<and> have_dma_dev env \<and> kzalloc_ok env \<longrightarrow>
           rel = (case env_supply env of (p, None) # _ \<Rightarrow>
                    if type = IOMMU_DOMAIN_DMA \<and> cookie_error env \<noteq> None then [] else [Free_page p]
                  | _ \<Rightarrow> [])
               @ (if type = IOMMU_DOMAIN_DMA \<and> cookie_error env = None then [Put_cookie] else [])
               @ [Kfree]"
proof (cases "fst (rk_iommu_domain_alloc env type :: 'hw rk_domain option \<times> release list)")
  case None
  then show ?thesis
    by (auto simp: rk_iommu_domain_alloc_def Let_def split: list.splits option.splits if_splits)
next
  case (Some d)
  then obtain rel where r: "rk_iommu_domain_alloc env type = (Some d, rel)"
    by (metis prod.collapse)
  have sub: "a AND GENMASK 39 12 = a" if "a AND GENMASK 31 12 = a" for a :: u64
  proof -
    have "a AND GENMASK 39 12 = (a AND GENMASK 31 12) AND GENMASK 39 12" by (simp only: that)
    also have "\<dots> = a AND GENMASK 31 12" by (rule bit_word_eqI) (auto simp: bit_simps masks)
    finally show ?thesis by (simp only: that)
  qed
  then have s2: "supply_ok (GENMASK 39 12) (env_supply env)"
    using s by (auto simp: supply_ok_def list_all_iff)
  have "type = IOMMU_DOMAIN_UNMANAGED \<or> type = IOMMU_DOMAIN_DMA"
    using r by (auto simp: rk_iommu_domain_alloc_def split: if_splits)
  with v1.domain_alloc_wf [OF s r] v2.domain_alloc_wf [OF s2 r] show ?thesis
    by (simp add: r)
qed

text \<open>
  Freeing a well-formed domain releases the mapping and the page of every table in use and of
  the directory, each exactly once, then the cookie of a DMA domain and the structure.
\<close>

theorem rk_iommu_domain_free_exact:
  assumes "wf_domain rk_dte_pt_address (GENMASK 31 12) d" "released d = []"
  shows "mset (released (rk_iommu_domain_free d)) =
      (\<Sum>i | in_use d i. {#Dma_unmap (table_of rk_dte_pt_address d i), Free_page (table_of rk_dte_pt_address d i)#})
      + {#Dma_unmap (dt_dma d), Free_page (dt d), Kfree#}
      + (if dom_type d = IOMMU_DOMAIN_DMA then {#Put_cookie#} else {#})
    \<and> distinct (released (rk_iommu_domain_free d))"
  unfolding rk_iommu_domain_free_def using v1.domain_free_released [OF assms] by blast

text \<open>The same for version 2.\<close>

theorem rk_iommu_domain_free_v2_exact:
  assumes "wf_domain rk_dte_pt_address_v2 (GENMASK 39 12) d" "released d = []"
  shows "mset (released (rk_iommu_domain_free_v2 d)) =
      (\<Sum>i | in_use d i. {#Dma_unmap (table_of rk_dte_pt_address_v2 d i), Free_page (table_of rk_dte_pt_address_v2 d i)#})
      + {#Dma_unmap (dt_dma d), Free_page (dt d), Kfree#}
      + (if dom_type d = IOMMU_DOMAIN_DMA then {#Put_cookie#} else {#})
    \<and> distinct (released (rk_iommu_domain_free_v2 d))"
  unfolding rk_iommu_domain_free_v2_def using v2.domain_free_released [OF assms] by blast

section \<open>Attachment: reachable states\<close>

text \<open>Everything that can happen to the set of IOMMUs once they are probed.\<close>

inductive sys_step :: "'hw mmu_port \<Rightarrow> 'hw iommu_sys \<Rightarrow> 'hw iommu_sys \<Rightarrow> bool" for P where
  attach: "sys_step P s (fst (rk_iommu_attach_device P D i s))"
| detach: "sys_step P s (rk_iommu_detach_device P i s)"
| disable: "sys_step P s (fst (rockchip_iommu_disable P i s))"
| enable: "rockchip_iommu_enable P i s = Some (s', ret) \<Longrightarrow> sys_step P s s'"
| suspend: "sys_step P s (rk_iommu_suspend P i s)"
| resume: "sys_step P s (fst (rk_iommu_resume P i s))"
| mask: "sys_step P s (rk_iommu_mask_irq P i s)"
| unmask: "sys_step P s (rk_iommu_unmask_irq P i s)"
| irq: "sys_step P s (set_iommu i (fst (rk_iommu_irq P (iommu_of s i))) s)"

text \<open>The two directions of the link between a domain and its IOMMUs agree.\<close>

definition links :: "'hw iommu_sys \<Rightarrow> bool" where
  "links s \<longleftrightarrow> (\<forall>D. distinct (members s D)) \<and> (\<forall>D i. i \<in> set (members s D) \<longleftrightarrow> attached s i = Some D)
     \<and> (\<forall>i. has_domain (iommu_of s i) \<longleftrightarrow> attached s i \<noteq> None)"

lemma set_iommu_sel [simp]:
  "iommu_of (set_iommu i io s) = (iommu_of s)(i := io)" "attached (set_iommu i io s) = attached s"
  "members (set_iommu i io s) = members s" "dlr_disable (set_iommu i io s) = dlr_disable s"
  "dt_dma_of (set_iommu i io s) = dt_dma_of s" "shoot_of (set_iommu i io s) = shoot_of s"
  by (simp_all add: set_iommu_def)

lemma set_domain_sel [simp]:
  "iommu_of (set_domain i v s) = (iommu_of s)(i := iommu_of s i\<lparr>has_domain := v \<noteq> None\<rparr>)"
  "attached (set_domain i v s) = (attached s)(i := v)"
  "members (set_domain i v s) = members s" "dt_dma_of (set_domain i v s) = dt_dma_of s"
  by (simp_all add: set_domain_def)

text \<open>What no operation on an IOMMU changes, whatever its clocks do.\<close>

definition same_static :: "'hw rk_iommu \<Rightarrow> 'hw rk_iommu \<Rightarrow> bool" where
  "same_static i j \<longleftrightarrow> clk_error j = clk_error i \<and> pm_in_use j = pm_in_use i \<and> pm_count j = pm_count i
     \<and> shootdown_entire j = shootdown_entire i \<and> version j = version i
     \<and> (clk_error i = None \<longrightarrow> clk_count j = clk_count i)"

lemma same_staticI: "same_but_bases i j \<Longrightarrow> same_static i j \<and> has_domain j = has_domain i"
  by (simp add: same_static_def same_but_basesD)

lemma rk_iommu_disable_static:
  "same_static i (rk_iommu_disable P i) \<and> has_domain (rk_iommu_disable P i) = has_domain i"
proof (cases "clk_error i")
  case None
  then show ?thesis using rk_iommu_disable_frame [of i P] same_staticI by blast
next
  case (Some e)
  then have e: "fst (clk_bulk_enable i) = i" by (simp add: clk_bulk_enable_def)
  let ?i3 = "fst (rk_iommu_disable_paging P (fst (rk_iommu_enable_stall P i)))"
  have "same_but_bases i ?i3"
    by (rule same_but_bases_trans [OF stall_paging_frame(1) stall_paging_frame(4)])
  then have "same_but_bases i (fst (rk_iommu_disable_stall P (?i3\<lparr>bases := bs\<rparr>)))" for bs
    by (intro same_but_bases_trans [OF same_but_bases_trans [OF _ same_but_bases_upd]
          stall_paging_frame(2)])
  then have "same_but_bases i j \<Longrightarrow> same_static i (clk_bulk_disable j) \<and> has_domain (clk_bulk_disable j) = has_domain i" for j
    using Some by (simp add: same_static_def clk_bulk_disable_def same_but_basesD)
  then show ?thesis
    using \<open>\<And>bs. same_but_bases i (fst (rk_iommu_disable_stall P (?i3\<lparr>bases := bs\<rparr>)))\<close>
    by (simp add: rk_iommu_disable_def Let_def e)
qed

lemma rk_iommu_enable_static:
  "same_static i (fst (rk_iommu_enable P a i)) \<and> has_domain (fst (rk_iommu_enable P a i)) = has_domain i"
  by (rule same_staticI) (rule rk_iommu_enable_frame)

text \<open>The invariant of the attachment state, relative to the initial state \<open>s0\<close>.\<close>

definition sys_ok :: "'hw iommu_sys \<Rightarrow> 'hw iommu_sys \<Rightarrow> bool" where
  "sys_ok s0 s \<longleftrightarrow> links s \<and> (\<forall>i. same_static (iommu_of s0 i) (iommu_of s i))"

lemma same_static_bases [simp]: "same_static i (i\<lparr>bases := b\<rparr>)"
  by (simp add: same_static_def)

lemma same_static_trans: "same_static i j \<Longrightarrow> same_static j k \<Longrightarrow> same_static i k"
  by (simp add: same_static_def)

lemma set_iommu_ok:
  assumes "sys_ok s0 s" "same_static (iommu_of s i) io \<and> has_domain io = has_domain (iommu_of s i)"
  shows "sys_ok s0 (set_iommu i io s)"
  using assms same_static_trans [of "iommu_of s0 i" "iommu_of s i" io]
  by (auto simp: sys_ok_def links_def)

lemma pm_pair:
  assumes "same_static (i\<lparr>pm_count := pm_count i + 1\<rparr>) j \<and> has_domain j = has_domain (i\<lparr>pm_count := pm_count i + 1\<rparr>)"
  shows "same_static i (j\<lparr>pm_count := pm_count j - 1\<rparr>) \<and> has_domain (j\<lparr>pm_count := pm_count j - 1\<rparr>) = has_domain i"
  using assms by (simp add: same_static_def)

lemma unlink_ok:
  assumes "sys_ok s0 s"
  shows "sys_ok s0 ((set_domain i None s)\<lparr>members := (\<lambda>D. removeAll i (members s D))\<rparr>)"
  using assms by (auto simp: sys_ok_def links_def distinct_removeAll same_static_def)

lemma detach_ok:
  assumes "sys_ok s0 s"
  shows "sys_ok s0 (rk_iommu_detach_device P io s)"
proof (cases io)
  case (Some i)
  let ?s2 = "(set_domain i None s)\<lparr>members := (\<lambda>D. removeAll i (members s D))\<rparr>"
  let ?i = "iommu_of ?s2 i"
  have "sys_ok s0 (set_iommu i ((rk_iommu_disable P (?i\<lparr>pm_count := pm_count ?i + 1\<rparr>))
      \<lparr>pm_count := pm_count (rk_iommu_disable P (?i\<lparr>pm_count := pm_count ?i + 1\<rparr>)) - 1\<rparr>) ?s2)"
    by (rule set_iommu_ok [OF unlink_ok [OF assms]]) (rule pm_pair [OF rk_iommu_disable_static])
  with Some assms unlink_ok [OF assms, of i] show ?thesis
    by (simp add: rk_iommu_detach_device_def Let_def)
qed (use assms in \<open>simp add: rk_iommu_detach_device_def\<close>)

lemma detach_attached:
  "attached (rk_iommu_detach_device P (Some i) s) = (attached s)(i := None)"
  by (auto simp: rk_iommu_detach_device_def Let_def fun_eq_iff)

text \<open>The state of \<open>rk_iommu_attach_device\<close> after the IOMMU has been put on the domain's list.\<close>

definition linked :: "nat \<Rightarrow> nat \<Rightarrow> 'hw iommu_sys \<Rightarrow> 'hw iommu_sys" where
  "linked D i s = (set_domain i (Some D) s)\<lparr>members := (members s)(D := members s D @ [i]),
     shoot_of := (shoot_of s)(D := shootdown_entire (iommu_of s i))\<rparr>"

lemma linked_ok: "sys_ok s0 s \<Longrightarrow> attached s i = None \<Longrightarrow> sys_ok s0 (linked D i s)"
  by (auto simp: linked_def sys_ok_def links_def same_static_def)

lemma free_domain_ok: "sys_ok s0 s \<Longrightarrow> attached s i = None \<Longrightarrow> sys_ok s0 (set_domain i None s)"
  by (auto simp: sys_ok_def links_def same_static_def)

text \<open>The first step of attaching: the IOMMU is on no domain.\<close>

definition released_iommu :: "'hw mmu_port \<Rightarrow> nat \<Rightarrow> 'hw iommu_sys \<Rightarrow> 'hw iommu_sys" where
  "released_iommu P i s = (if attached s i \<noteq> None then rk_iommu_detach_device P (Some i) s else s)"

lemma released_iommu_ok:
  "sys_ok s0 s \<Longrightarrow> sys_ok s0 (released_iommu P i s)"
  "attached (released_iommu P i s) = (attached s)(i := None)"
  by (auto simp: released_iommu_def detach_ok detach_attached)

text \<open>The rest of the function for a powered IOMMU, as one step.\<close>

definition power_on ::
  "'hw mmu_port \<Rightarrow> nat \<Rightarrow> nat \<Rightarrow> 'hw iommu_sys \<Rightarrow> 'hw iommu_sys \<times> errno option" where
  "power_on P D i s =
     (let io = iommu_of s i;
          (io1, ret) = rk_iommu_enable P (dt_dma_of s D) (io\<lparr>pm_count := pm_count io + 1\<rparr>);
          s4 = set_iommu i io1 s;
          s5 = (if ret \<noteq> None then rk_iommu_detach_device P (Some i) s4 else s4)
      in (set_iommu i ((iommu_of s5 i)\<lparr>pm_count := pm_count (iommu_of s5 i) - 1\<rparr>) s5, ret))"

lemma attach_cases:
  "rk_iommu_attach_device P D io s =
     (case io of None \<Rightarrow> (s, None)
      | Some i \<Rightarrow>
          (case D of None \<Rightarrow> (set_domain i None (released_iommu P i s), None)
           | Some D \<Rightarrow>
               let s3 = linked D i (released_iommu P i s) in
               if pm_in_use (iommu_of s3 i) \<le> 0 then (s3, None) else power_on P D i s3))"
  by (simp add: rk_iommu_attach_device_def released_iommu_def linked_def power_on_def Let_def
      set_domain_def set_iommu_def split: option.split prod.split)

lemma pm_shift_ok:
  assumes "sys_ok (set_iommu i ((iommu_of s0 i)\<lparr>pm_count := pm_count (iommu_of s0 i) + 1\<rparr>) s0) s"
  shows "sys_ok s0 (set_iommu i ((iommu_of s i)\<lparr>pm_count := pm_count (iommu_of s i) - 1\<rparr>) s)"
  using assms by (auto simp: sys_ok_def links_def same_static_def split: if_splits)

lemma power_on_ok:
  assumes ok: "sys_ok s0 s"
  shows "sys_ok s0 (fst (power_on P D i s))"
proof -
  let ?io = "(iommu_of s i)\<lparr>pm_count := pm_count (iommu_of s i) + 1\<rparr>"
  let ?s0 = "set_iommu i ((iommu_of s0 i)\<lparr>pm_count := pm_count (iommu_of s0 i) + 1\<rparr>) s0"
  obtain io1 ret where e: "rk_iommu_enable P (dt_dma_of s D) ?io = (io1, ret)" by fastforce
  have "same_static ?io io1 \<and> has_domain io1 = has_domain ?io"
    using rk_iommu_enable_static [of ?io P "dt_dma_of s D"] e by simp
  then have 4: "sys_ok ?s0 (set_iommu i io1 s)"
    using ok by (auto simp: sys_ok_def links_def same_static_def)
  have "sys_ok ?s0 (if ret \<noteq> None then rk_iommu_detach_device P (Some i) (set_iommu i io1 s) else set_iommu i io1 s)"
    using 4 detach_ok [OF 4] by simp
  from pm_shift_ok [OF this] show ?thesis by (simp add: power_on_def e Let_def)
qed

lemma attach_ok:
  assumes ok: "sys_ok s0 s"
  shows "sys_ok s0 (fst (rk_iommu_attach_device P D io s))"
  using ok released_iommu_ok(1) [OF ok, of P]
  by (auto simp: attach_cases Let_def released_iommu_ok(2) intro!: free_domain_ok linked_ok power_on_ok
      split: option.split)

lemma irq_static:
  "same_static i (fst (rk_iommu_irq P i)) \<and> has_domain (fst (rk_iommu_irq P i)) = has_domain i"
  by (auto simp: rk_iommu_irq_def clk_bulk_enable_def clk_bulk_disable_def Let_def same_static_def
      split: option.split)

lemma sys_step_ok: "sys_step P s s' \<Longrightarrow> sys_ok s0 s \<Longrightarrow> sys_ok s0 s'"
proof (induction rule: sys_step.induct)
  case (attach s D i) then show ?case by (rule attach_ok)
next
  case (detach s i) then show ?case by (rule detach_ok)
next
  case (enable i s s' ret)
  have 1: "sys_ok s0 (set_iommu k (fst (rk_iommu_enable P a (iommu_of s k))) s)" for k a
    by (rule set_iommu_ok [OF enable.prems rk_iommu_enable_static])
  show ?case
    using enable.hyps 1 enable.prems
    by (auto simp: rockchip_iommu_enable_def case_prod_beta split: option.splits)
next
  case (resume s i)
  have 1: "sys_ok s0 (set_iommu k (fst (rk_iommu_enable P a (iommu_of s k))) s)" for k a
    by (rule set_iommu_ok [OF resume.prems rk_iommu_enable_static])
  show ?case
    using 1 resume.prems by (simp add: rk_iommu_resume_def case_prod_beta Let_def split: option.split)
qed (auto simp: rockchip_iommu_disable_def rk_iommu_suspend_def rk_iommu_mask_irq_def
    rk_iommu_unmask_irq_def Let_def rk_iommu_disable_static irq_static
    split: option.split intro!: set_iommu_ok)

text \<open>
  C4: In every state the driver reaches from a linked one, each IOMMU is on the list of exactly
  the domain it is attached to, once; and no IOMMU whose clocks work has lost or gained a clock or
  power reference.
\<close>

theorem attachment_invariant:
  assumes "(sys_step P)\<^sup>*\<^sup>* s0 s" "links s0"
  shows "(\<forall>D. distinct (members s D)) \<and> (\<forall>D i. i \<in> set (members s D) \<longleftrightarrow> attached s i = Some D)
    \<and> (\<forall>i. pm_count (iommu_of s i) = pm_count (iommu_of s0 i))
    \<and> (\<forall>i. clk_error (iommu_of s0 i) = None \<longrightarrow> clk_count (iommu_of s i) = clk_count (iommu_of s0 i))"
proof -
  have "sys_ok s0 s0" using assms(2) by (simp add: sys_ok_def same_static_def)
  with assms(1) have "sys_ok s0 s" by (induction rule: rtranclp_induct) (auto intro: sys_step_ok)
  then show ?thesis by (simp add: sys_ok_def links_def same_static_def)
qed

text \<open>
  \<open>rk_iommu_attach_device\<close> ends with the IOMMU on the domain asked for when it reports success,
  and on none when it reports an error; the other IOMMUs keep theirs.
\<close>

theorem rk_iommu_attach_device_result:
  "case rk_iommu_attach_device P (Some D) (Some i) s of (s', ret) \<Rightarrow>
     attached s' = (attached s)(i := (if ret = None then Some D else None))"
proof (cases "pm_in_use (iommu_of (linked D i (released_iommu P i s)) i) \<le> 0")
  case True
  then show ?thesis
    by (simp add: attach_cases Let_def) (simp add: linked_def released_iommu_ok(2))
next
  case False
  then show ?thesis
    by (simp add: attach_cases Let_def power_on_def case_prod_beta detach_attached)
      (simp add: linked_def released_iommu_ok(2))
qed

section \<open>A concrete domain\<close>

text \<open>When the range is free and a page table is there or can be had, mapping succeeds.\<close>

definition table_available :: "'hw rk_domain \<Rightarrow> nat \<Rightarrow> bool" where
  "table_available d p \<longleftrightarrow> in_use d (p div 1024) \<or> (\<exists>q dma rest. page_supply d = (q, Some dma) # rest)"

context pt_format
begin

lemma map_succeeds:
  assumes wf: "wf_domain pt_address amask d" and req: "request iova sz p n"
    and free: "\<forall>k < n. trans pt_address d (p + k) = None" and av: "table_available d p"
  shows "\<exists>d'. map_with (get_page_table_with mk_dte pt_address) pt_address (map_iova_with mk_pte)
        P d iova paddr sz prot = Some (d', None)"
proof -
  note rf = request_facts(1-8) [OF req]
  obtain d1 res where g: "get_page_table_with mk_dte pt_address d iova = (d1, res)"
    by (cases "get_page_table_with mk_dte pt_address d iova")
  then obtain t where t: "res = Inr t"
    using av rf by (auto simp: get_page_table_with_def table_available_def in_use_def Let_def split: if_splits)
  note G = get_page_table_ok [OF wf g, unfolded rf(1) t]
  have wf1: "wf_domain pt_address amask d1" and use: "in_use d1 (p div 1024)"
    and t1: "t = table_of pt_address d1 (p div 1024)" using G by simp_all
  have tr1: "trans pt_address d1 = trans pt_address d" using G by (auto simp: trans_def fun_eq_iff)
  have te: "elem t (p mod 1024) = elem (table_of pt_address d1 (p div 1024)) (p mod 1024)"
    using t1 by simp
  have "\<exists>d'. map_iova_with mk_pte P d1 (elem t (p mod 1024)) (elem t (p mod 1024)) iova paddr sz prot
      = Some (d', None)"
    using map_iova_ok [OF wf1 use req te, of P paddr prot] free unfolding tr1
    by (auto split: option.splits)
  then show ?thesis using g t rf by (simp add: map_with_def Let_def t1 table_of_def)
qed

end

text \<open>
  \<open>rk_iommu_map_v2\<close> succeeds when the range is free and its page table exists or the next page
  of the allocator can be mapped.
\<close>

theorem rk_iommu_map_v2_succeeds:
  assumes "wf_domain rk_dte_pt_address_v2 (GENMASK 39 12) d" "request iova sz p n"
    and "\<forall>k < n. trans rk_dte_pt_address_v2 d (p + k) = None" "table_available d p"
  shows "\<exists>d'. rk_iommu_map_v2 P d iova paddr sz prot = Some (d', None)"
  using v2.map_succeeds [OF assms]
  unfolding rk_iommu_map_v2_def rk_dte_get_page_table_v2_def rk_iommu_map_iova_v2_def .

definition sim_env :: alloc_env where
  "sim_env = \<lparr>have_dma_dev = True, kzalloc_ok = True, cookie_error = None, env_cpu = (\<lambda>_. 0xffffffff),
     env_dev = (\<lambda>_. 0), env_supply = [(0x1000, Some 0x1000), (0x2000, Some 0x2000)]\<rparr>"

definition sim_domain :: "sim_mmu rk_domain" where
  "sim_domain = (the (fst (rk_iommu_domain_alloc sim_env IOMMU_DOMAIN_DMA)))\<lparr>iommus := [sim_iommu]\<rparr>"

lemma sim_supply: "supply_ok (GENMASK 31 12) (env_supply sim_env)" "supply_ok (GENMASK 39 12) (env_supply sim_env)"
  by (simp_all add: sim_env_def supply_ok_def GENMASK_def mask_eq_exp_minus_1)

lemma sim_alloc:
  "rk_iommu_domain_alloc sim_env IOMMU_DOMAIN_DMA = (Some (sim_domain\<lparr>iommus := []\<rparr>), [])"
  by (simp add: sim_domain_def rk_iommu_domain_alloc_def sim_env_def rk_table_flush_def)

lemma sim_wf:
  "wf_domain rk_dte_pt_address (GENMASK 31 12) sim_domain" "trans rk_dte_pt_address sim_domain = (\<lambda>_. None)"
  "wf_domain rk_dte_pt_address_v2 (GENMASK 39 12) sim_domain" "trans rk_dte_pt_address_v2 sim_domain = (\<lambda>_. None)"
  using v1.domain_alloc_wf [OF sim_supply(1) sim_alloc] v2.domain_alloc_wf [OF sim_supply(2) sim_alloc] by simp_all

lemma sim_available: "table_available sim_domain p" and sim_released: "released sim_domain = []"
  by (simp_all add: table_available_def sim_domain_def rk_iommu_domain_alloc_def sim_env_def rk_table_flush_def)

lemma sim_request: "request 0x403000 0x2000 0x403 2"
  by (simp add: request_def)

section \<open>Witnesses\<close>

theorem rk_iommu_map_v2_succeeds_witness:
  "\<exists>d'. rk_iommu_map_v2 (sim_port 0) sim_domain 0x403000 0x980000000 0x2000 3 = Some (d', None)"
  by (rule rk_iommu_map_v2_succeeds [OF sim_wf(3) sim_request]) (simp_all add: sim_wf sim_available)

theorem rk_iommu_map_refines_witness:
  "\<exists>d' e. rk_iommu_map (sim_port 0) sim_domain 0x403000 0x80000000 0x2000 3 = Some (d', e)
     \<and> (e = None \<longrightarrow> trans rk_dte_pt_address d' = map_pages rk_mk_pte 0x403 2 0x80000000 3 (\<lambda>_. None))
     \<and> (e \<noteq> None \<longrightarrow> e = Some ENOMEM \<and> trans rk_dte_pt_address d' = (\<lambda>_. None))"
  using rk_iommu_map_refines [OF sim_wf(1) sim_request, where P = "sim_port 0" and paddr = "0x80000000" and prot = 3]
  by (elim ex_forward) (auto simp: sim_wf split: option.splits)

theorem rk_iommu_map_v2_refines_witness:
  "\<exists>d' e. rk_iommu_map_v2 (sim_port 0) sim_domain 0x403000 0x980000000 0x2000 3 = Some (d', e)
     \<and> (e = None \<longrightarrow> trans rk_dte_pt_address_v2 d' = map_pages rk_mk_pte_v2 0x403 2 0x980000000 3 (\<lambda>_. None))
     \<and> (e \<noteq> None \<longrightarrow> e = Some ENOMEM \<and> trans rk_dte_pt_address_v2 d' = (\<lambda>_. None))"
  using rk_iommu_map_v2_refines [OF sim_wf(3) sim_request, where P = "sim_port 0" and paddr = "0x980000000" and prot = 3]
  by (elim ex_forward) (auto simp: sim_wf split: option.splits)

text \<open>The domain with two pages mapped.\<close>

lemma sim_mapped:
  "\<exists>d. rk_iommu_map (sim_port 0) sim_domain 0x403000 0x80000000 0x2000 3 = Some (d, None)
     \<and> wf_domain rk_dte_pt_address (GENMASK 31 12) d
     \<and> trans rk_dte_pt_address d = map_pages rk_mk_pte 0x403 2 0x80000000 3 (\<lambda>_. None)"
  using v1.map_succeeds [OF sim_wf(1) sim_request, where P = "sim_port 0" and paddr = "0x80000000" and prot = 3]
    v1.map_refines [OF sim_wf(1) sim_request, where P = "sim_port 0" and paddr = "0x80000000" and prot = 3]
  unfolding rk_iommu_map_def rk_dte_get_page_table_def rk_iommu_map_iova_def sim_wf
  by (auto simp: sim_available)

lemma sim_mapped_v2:
  "\<exists>d. rk_iommu_map_v2 (sim_port 0) sim_domain 0x403000 0x980000000 0x2000 3 = Some (d, None)
     \<and> wf_domain rk_dte_pt_address_v2 (GENMASK 39 12) d
     \<and> trans rk_dte_pt_address_v2 d = map_pages rk_mk_pte_v2 0x403 2 0x980000000 3 (\<lambda>_. None)"
  using v2.map_succeeds [OF sim_wf(3) sim_request, where P = "sim_port 0" and paddr = "0x980000000" and prot = 3]
    v2.map_refines [OF sim_wf(3) sim_request, where P = "sim_port 0" and paddr = "0x980000000" and prot = 3]
  unfolding rk_iommu_map_v2_def rk_dte_get_page_table_v2_def rk_iommu_map_iova_v2_def sim_wf
  by (auto simp: sim_available)

theorem rk_iommu_unmap_refines_witness:
  "\<exists>d d' bytes. rk_iommu_map (sim_port 0) sim_domain 0x403000 0x80000000 0x2000 3 = Some (d, None)
     \<and> rk_iommu_unmap (sim_port 0) d 0x403000 0x2000 = Some (d', bytes)
     \<and> unat bytes = 0x2000 \<and> shot_down stlb {0x403, 0x404} d'"
proof -
  obtain d where d: "rk_iommu_map (sim_port 0) sim_domain 0x403000 0x80000000 0x2000 3 = Some (d, None)"
    "wf_domain rk_dte_pt_address (GENMASK 31 12) d"
    "trans rk_dte_pt_address d = map_pages rk_mk_pte 0x403 2 0x80000000 3 (\<lambda>_. None)"
    using sim_mapped by blast
  have c: "2 = mapped_prefix 0x403 2 (trans rk_dte_pt_address d)"
    unfolding d(3) by (rule v1.mapped_prefix_map_pages [symmetric])
  have pages: "{1027..<1029 :: nat} = {0x403, 0x404}" by auto
  show ?thesis
    using rk_iommu_unmap_refines [OF d(2) sim_request sim_laws(1) [of 0] c] d(1) by (auto simp: pages)
qed

lemma map_v2_keeps_shootdown:
  "rk_iommu_map_v2 P d iova paddr sz prot = Some (d', e) \<Longrightarrow> dom_shootdown_entire d' = dom_shootdown_entire d"
  by (auto simp: rk_iommu_map_v2_def map_with_def rk_iommu_map_iova_v2_def map_iova_with_def rk_dte_get_page_table_v2_def
      get_page_table_with_def rk_table_flush_def rk_iommu_zap_iova_first_last_def rk_iommu_zap_iova_def
      rk_iommu_unmap_iova_def bind_eq_Some_conv Let_def split: prod.splits if_splits sum.splits list.splits option.splits)

lemma sim_flush_law: "flush_law (sim_port m) stlb"
  by (simp add: flush_law_def sim_writel_def sim_command_def mmu_cmds Let_def)

theorem rk_iommu_unmap_v2_refines_witness:
  "\<exists>d d' bytes. rk_iommu_map_v2 (sim_port 0) sim_domain 0x403000 0x980000000 0x2000 3 = Some (d, None)
     \<and> rk_iommu_unmap_v2 (sim_port 0) d 0x403000 0x2000 = Some (d', bytes) \<and> unat bytes = 0x2000
     \<and> \<not> dom_shootdown_entire d \<and> shot_down stlb {0x403, 0x404} d'
     \<and> shot_down stlb UNIV (rk_iommu_flush_tlb_all (sim_port 0) d')"
proof -
  obtain d where d: "rk_iommu_map_v2 (sim_port 0) sim_domain 0x403000 0x980000000 0x2000 3 = Some (d, None)"
    "wf_domain rk_dte_pt_address_v2 (GENMASK 39 12) d"
    "trans rk_dte_pt_address_v2 d = map_pages rk_mk_pte_v2 0x403 2 0x980000000 3 (\<lambda>_. None)"
    using sim_mapped_v2 by blast
  have c: "2 = mapped_prefix 0x403 2 (trans rk_dte_pt_address_v2 d)"
    unfolding d(3) by (rule v2.mapped_prefix_map_pages [symmetric])
  have pages: "{1027..<1029 :: nat} = {0x403, 0x404}" by auto
  have "\<not> dom_shootdown_entire sim_domain"
    by (simp add: sim_domain_def rk_iommu_domain_alloc_def sim_env_def rk_table_flush_def)
  then have "\<not> dom_shootdown_entire d" using map_v2_keeps_shootdown [OF d(1)] by simp
  then show ?thesis
    using rk_iommu_unmap_v2_refines [OF d(2) sim_request sim_laws(1) [of 0] sim_flush_law [of 0] c] d(1) by (auto simp: pages)
qed

theorem rk_iommu_map_translates_witness:
  "\<exists>d. rk_iommu_map (sim_port 0) sim_domain 0x403000 0x80000000 0x2000 3 = Some (d, None)
     \<and> rk_iommu_iova_to_phys d 0x404abc = 0x80001abc"
proof -
  obtain d where d: "rk_iommu_map (sim_port 0) sim_domain 0x403000 0x80000000 0x2000 3 = Some (d, None)"
    using sim_mapped by blast
  have "rk_iommu_iova_to_phys d 0x404abc = 0x80000000 + of_nat 1 * 4096 + of_nat (unat (0x404abc :: u64) mod 4096)"
    by (rule rk_iommu_map_translates [OF sim_wf(1) sim_request d]) (simp_all add: GENMASK_def mask_eq_exp_minus_1)
  with d show ?thesis by simp
qed

theorem rk_iommu_map_v2_translates_witness:
  "\<exists>d. rk_iommu_map_v2 (sim_port 0) sim_domain 0x403000 0x980000000 0x2000 3 = Some (d, None)
     \<and> rk_iommu_iova_to_phys_v2 d 0x404abc = 0x980001abc"
proof -
  obtain d where d: "rk_iommu_map_v2 (sim_port 0) sim_domain 0x403000 0x980000000 0x2000 3 = Some (d, None)"
    using sim_mapped_v2 by blast
  have "rk_iommu_iova_to_phys_v2 d 0x404abc = 0x980000000 + of_nat 1 * 4096 + of_nat (unat (0x404abc :: u64) mod 4096)"
    by (rule rk_iommu_map_v2_translates [OF sim_wf(3) sim_request d]) (simp_all add: GENMASK_def mask_eq_exp_minus_1)
  with d show ?thesis by simp
qed

theorem rk_iommu_map_unmap_roundtrip_witness:
  "\<exists>d d'. rk_iommu_map_v2 (sim_port 0) sim_domain 0x403000 0x980000000 0x2000 3 = Some (d, None)
     \<and> rk_iommu_unmap_v2 (sim_port 0) d 0x403000 0x2000 = Some (d', 0x2000)
     \<and> trans rk_dte_pt_address_v2 d' = (\<lambda>_. None)"
  using sim_mapped_v2 rk_iommu_map_unmap_roundtrip [OF sim_wf(3) sim_request] unfolding sim_wf(4) by blast

theorem rk_iommu_domain_alloc_ok_witness:
  "case (rk_iommu_domain_alloc sim_env IOMMU_DOMAIN_DMA :: sim_mmu rk_domain option \<times> release list) of
     (Some d, rel) \<Rightarrow> wf_domain rk_dte_pt_address (GENMASK 31 12) d | (None, rel) \<Rightarrow> False"
  using rk_iommu_domain_alloc_ok [OF sim_supply(1), of IOMMU_DOMAIN_DMA, where ?'hw = sim_mmu]
  by (simp add: sim_alloc)

theorem rk_iommu_domain_free_exact_witness:
  "distinct (released (rk_iommu_domain_free sim_domain))"
  using rk_iommu_domain_free_exact [OF sim_wf(1) sim_released] by blast

theorem rk_iommu_domain_free_v2_exact_witness:
  "distinct (released (rk_iommu_domain_free_v2 sim_domain))"
  using rk_iommu_domain_free_v2_exact [OF sim_wf(3) sim_released] by blast

definition sim_sys :: "sim_mmu iommu_sys" where
  "sim_sys = \<lparr>iommu_of = (\<lambda>_. sim_iommu\<lparr>has_domain := False\<rparr>), attached = (\<lambda>_. None), dlr_disable = (\<lambda>_. False),
     members = (\<lambda>_. []), shoot_of = (\<lambda>_. False), dt_dma_of = (\<lambda>_. 0x1000)\<rparr>"

theorem attachment_invariant_witness:
  "\<forall>D i. i \<in> set (members (fst (rk_iommu_attach_device (sim_port 0) (Some 1) (Some 0) sim_sys)) D)
     \<longleftrightarrow> attached (fst (rk_iommu_attach_device (sim_port 0) (Some 1) (Some 0) sim_sys)) i = Some D"
proof -
  have "(sys_step (sim_port 0))\<^sup>*\<^sup>* sim_sys (fst (rk_iommu_attach_device (sim_port 0) (Some 1) (Some 0) sim_sys))"
    by (rule r_into_rtranclp) (rule sys_step.attach)
  moreover have "links sim_sys" by (simp add: links_def sim_sys_def)
  ultimately show ?thesis using attachment_invariant by blast
qed

end
