(* ===== verification/Thermal_Conv.thy ===== *)
theory Thermal_Conv
  imports Prelude
begin

text \<open>
  The temperature conversion of the Rockchip TSADC driver
  (\<open>common/sdk_linux/drivers/thermal/rockchip_thermal.c\<close>): the chips' tables, the search of a
  temperature and of an ADC code in them with linear interpolation, and the two linear formulas of
  the chips without a table. An access outside a table is \<open>None\<close>. The locale \<open>rising_table\<close>
  states what a table of increasing codes is; it is interpreted on every such table of the driver.
\<close>

section \<open>Tables\<close>

text \<open>\<open>enum adc_sort_mode\<close>; the field may hold any number, so it is one.\<close>

definition ADC_DECREMENT :: u32 where "ADC_DECREMENT = 0"
definition ADC_INCREMENT :: u32 where "ADC_INCREMENT = 1"

definition TSADCV2_DATA_MASK :: u32 where "TSADCV2_DATA_MASK = 0xfff"
definition TSADCV3_DATA_MASK :: u32 where "TSADCV3_DATA_MASK = 0x3ff"

definition MIN_TEMP :: int where "MIN_TEMP = - 40000"
definition MAX_TEMP :: int where "MAX_TEMP = 125000"

record tsadc_table =
  code :: u32
  temp :: int

abbreviation (input) row :: "u32 \<Rightarrow> int \<Rightarrow> tsadc_table" where
  "row c t \<equiv> \<lparr>code = c, temp = t\<rparr>"

record chip_tsadc_table =
  id_tab :: "tsadc_table list"
  len_tab :: nat
  data_mask :: u32
  kNum :: int
  bNum :: int
  adc_mode :: u32

text \<open>The tables, entry by entry.\<close>

definition rv1108_table :: "tsadc_table list" where
  "rv1108_table = [
    row 0 (- 40000), row 374 (- 40000), row 382 (- 35000), row 389 (- 30000), row 397 (- 25000),
    row 405 (- 20000), row 413 (- 15000), row 421 (- 10000), row 429 (- 5000), row 436 0,
    row 444 5000, row 452 10000, row 460 15000, row 468 20000, row 476 25000, row 483 30000,
    row 491 35000, row 499 40000, row 507 45000, row 515 50000, row 523 55000, row 531 60000,
    row 539 65000, row 547 70000, row 555 75000, row 562 80000, row 570 85000, row 578 90000,
    row 586 95000, row 594 100000, row 602 105000, row 610 110000, row 618 115000,
    row 626 120000, row 634 125000, row TSADCV2_DATA_MASK 125000]"

definition rk1808_code_table :: "tsadc_table list" where
  "rk1808_code_table = [
    row 0 (- 40000), row 3455 (- 40000), row 3463 (- 35000), row 3471 (- 30000),
    row 3479 (- 25000), row 3487 (- 20000), row 3495 (- 15000), row 3503 (- 10000),
    row 3511 (- 5000), row 3519 0, row 3527 5000, row 3535 10000, row 3543 15000, row 3551 20000,
    row 3559 25000, row 3567 30000, row 3576 35000, row 3584 40000, row 3592 45000,
    row 3600 50000, row 3609 55000, row 3617 60000, row 3625 65000, row 3633 70000,
    row 3642 75000, row 3650 80000, row 3659 85000, row 3667 90000, row 3675 95000,
    row 3684 100000, row 3692 105000, row 3701 110000, row 3709 115000, row 3718 120000,
    row 3726 125000, row TSADCV2_DATA_MASK 125000]"

definition rk3228_code_table :: "tsadc_table list" where
  "rk3228_code_table = [
    row 0 (- 40000), row 588 (- 40000), row 593 (- 35000), row 598 (- 30000), row 603 (- 25000),
    row 608 (- 20000), row 613 (- 15000), row 618 (- 10000), row 623 (- 5000), row 629 0,
    row 634 5000, row 639 10000, row 644 15000, row 649 20000, row 654 25000, row 660 30000,
    row 665 35000, row 670 40000, row 675 45000, row 681 50000, row 686 55000, row 691 60000,
    row 696 65000, row 702 70000, row 707 75000, row 712 80000, row 717 85000, row 723 90000,
    row 728 95000, row 733 100000, row 738 105000, row 744 110000, row 749 115000,
    row 754 120000, row 760 125000, row TSADCV2_DATA_MASK 125000]"

definition rk3288_code_table :: "tsadc_table list" where
  "rk3288_code_table = [
    row TSADCV2_DATA_MASK (- 40000), row 3800 (- 40000), row 3792 (- 35000), row 3783 (- 30000),
    row 3774 (- 25000), row 3765 (- 20000), row 3756 (- 15000), row 3747 (- 10000),
    row 3737 (- 5000), row 3728 0, row 3718 5000, row 3708 10000, row 3698 15000, row 3688 20000,
    row 3678 25000, row 3667 30000, row 3656 35000, row 3645 40000, row 3634 45000,
    row 3623 50000, row 3611 55000, row 3600 60000, row 3588 65000, row 3575 70000,
    row 3563 75000, row 3550 80000, row 3537 85000, row 3524 90000, row 3510 95000,
    row 3496 100000, row 3482 105000, row 3467 110000, row 3452 115000, row 3437 120000,
    row 3421 125000, row 0 125000]"

definition rk3328_code_table :: "tsadc_table list" where
  "rk3328_code_table = [
    row 0 (- 40000), row 296 (- 40000), row 304 (- 35000), row 313 (- 30000), row 331 (- 20000),
    row 340 (- 15000), row 349 (- 10000), row 359 (- 5000), row 368 0, row 378 5000,
    row 388 10000, row 398 15000, row 408 20000, row 418 25000, row 429 30000, row 440 35000,
    row 451 40000, row 462 45000, row 473 50000, row 485 55000, row 496 60000, row 508 65000,
    row 521 70000, row 533 75000, row 546 80000, row 559 85000, row 572 90000, row 586 95000,
    row 600 100000, row 614 105000, row 629 110000, row 644 115000, row 659 120000,
    row 675 125000, row TSADCV2_DATA_MASK 125000]"

definition rk3368_code_table :: "tsadc_table list" where
  "rk3368_code_table = [
    row 0 (- 40000), row 106 (- 40000), row 108 (- 35000), row 110 (- 30000), row 112 (- 25000),
    row 114 (- 20000), row 116 (- 15000), row 118 (- 10000), row 120 (- 5000), row 122 0,
    row 124 5000, row 126 10000, row 128 15000, row 130 20000, row 132 25000, row 134 30000,
    row 136 35000, row 138 40000, row 140 45000, row 142 50000, row 144 55000, row 146 60000,
    row 148 65000, row 150 70000, row 152 75000, row 154 80000, row 156 85000, row 158 90000,
    row 160 95000, row 162 100000, row 163 105000, row 165 110000, row 167 115000,
    row 169 120000, row 171 125000, row TSADCV3_DATA_MASK 125000]"

definition rk3399_code_table :: "tsadc_table list" where
  "rk3399_code_table = [
    row 0 (- 40000), row 402 (- 40000), row 410 (- 35000), row 419 (- 30000), row 427 (- 25000),
    row 436 (- 20000), row 444 (- 15000), row 453 (- 10000), row 461 (- 5000), row 470 0,
    row 478 5000, row 487 10000, row 496 15000, row 504 20000, row 513 25000, row 521 30000,
    row 530 35000, row 538 40000, row 547 45000, row 555 50000, row 564 55000, row 573 60000,
    row 581 65000, row 590 70000, row 599 75000, row 607 80000, row 616 85000, row 624 90000,
    row 633 95000, row 642 100000, row 650 105000, row 659 110000, row 668 115000,
    row 677 120000, row 685 125000, row TSADCV3_DATA_MASK 125000]"

definition rk3568_code_table :: "tsadc_table list" where
  "rk3568_code_table = [
    row 0 (- 40000), row 1584 (- 40000), row 1620 (- 35000), row 1652 (- 30000),
    row 1688 (- 25000), row 1720 (- 20000), row 1756 (- 15000), row 1788 (- 10000),
    row 1824 (- 5000), row 1856 0, row 1892 5000, row 1924 10000, row 1956 15000, row 1992 20000,
    row 2024 25000, row 2060 30000, row 2092 35000, row 2128 40000, row 2160 45000,
    row 2196 50000, row 2228 55000, row 2264 60000, row 2300 65000, row 2332 70000,
    row 2368 75000, row 2400 80000, row 2436 85000, row 2468 90000, row 2500 95000,
    row 2536 100000, row 2572 105000, row 2604 110000, row 2636 115000, row 2672 120000,
    row 2704 125000, row TSADCV2_DATA_MASK 125000]"

section \<open>Temperature to code\<close>

text \<open>\<open>table->id[i]\<close>.\<close>

definition entry :: "chip_tsadc_table \<Rightarrow> int \<Rightarrow> tsadc_table option" where
  "entry table i =
     (if 0 \<le> i \<and> i < int (length (id_tab table)) then Some (id_tab table ! nat i) else None)"

lemma mid_bounds: "low \<le> high \<Longrightarrow> low \<le> (low + high) sdiv 2 \<and> (low + high) sdiv 2 \<le> (high :: int)"
  by (auto simp: signed_divide_int_def sgn_if)

text \<open>The binary search of \<open>rk_tsadcv2_temp_to_code\<close>: the code of an equal entry, or the last \<open>mid\<close>.\<close>

function temp_search :: "chip_tsadc_table \<Rightarrow> int \<Rightarrow> int \<Rightarrow> int \<Rightarrow> (u32 + int) option" where
  "temp_search table t low high =
     (let mid = (low + high) sdiv 2 in
      if low \<le> high then
        Option.bind (entry table mid) (\<lambda>e.
          if t = temp e then Some (Inl (code e))
          else if t < temp e then temp_search table t low (mid - 1)
          else temp_search table t (mid + 1) high)
      else Some (Inr mid))"
  by auto
termination
  by (relation "measure (\<lambda>(table, t, low, high). nat (high - low + 1))") (auto dest: mid_bounds)

declare temp_search.simps [simp del]

text \<open>
  The interpolation after the loop, on \<open>unsigned long\<close> (64 bits). A zero \<open>denom\<close> has no result.
  \<open>abs\<close> of an unsigned difference is taken on the signed value.
\<close>

definition abs_diff :: "u32 \<Rightarrow> u32 \<Rightarrow> int" where
  "abs_diff a b = s32 \<bar>sint (a - b)\<bar>"

definition interp_code :: "chip_tsadc_table \<Rightarrow> int \<Rightarrow> tsadc_table \<Rightarrow> tsadc_table \<Rightarrow> u32 option" where
  "interp_code table t e0 e1 =
     (let num = (word_of_int (abs_diff (code e1) (code e0)) :: u64) * word_of_int (s32 (t - temp e0));
          denom = (word_of_int (temp e1 - temp e0) :: u32)
      in if denom = 0 then None
         else if adc_mode table = ADC_DECREMENT then Some (ucast ((ucast (code e0) :: u64) - num div ucast denom))
         else if adc_mode table = ADC_INCREMENT then Some (ucast ((ucast (code e0) :: u64) + num div ucast denom))
         else Some (data_mask table))"

definition rk_tsadcv2_temp_to_code :: "chip_tsadc_table \<Rightarrow> int \<Rightarrow> u32 option" where
  "rk_tsadcv2_temp_to_code table t =
     (if kNum table \<noteq> 0
      then Some (word_of_int (s32 (s32 (t sdiv 1000 * kNum table) sdiv 1000 + bNum table)))
      else
        let low = 0; high = int (len_tab table) - 2 in
        Option.bind (entry table low) (\<lambda>lo. Option.bind (entry table high) (\<lambda>hi.
          if t < temp lo \<or> t > temp hi then Some (data_mask table)
          else Option.bind (temp_search table t low high) (\<lambda>r.
            case r of Inl c \<Rightarrow> Some c
            | Inr mid \<Rightarrow>
                Option.bind (entry table mid) (\<lambda>e0. Option.bind (entry table (mid + 1)) (\<lambda>e1.
                  interp_code table t e0 e1))))))"

section \<open>Code to temperature\<close>

text \<open>The search for falling codes. The test of \<open>id[mid - 1]\<close> is made only after that of \<open>id[mid]\<close>.\<close>

function code_search_dec :: "chip_tsadc_table \<Rightarrow> u32 \<Rightarrow> int \<Rightarrow> int \<Rightarrow> int option" where
  "code_search_dec table c low high =
     (let mid = (low + high) sdiv 2 in
      if low \<le> high then
        Option.bind (entry table mid) (\<lambda>e.
          if c < code e then code_search_dec table c (mid + 1) high
          else Option.bind (entry table (mid - 1)) (\<lambda>p.
            if c < code p then Some mid else code_search_dec table c low (mid - 1)))
      else Some mid)"
  by auto
termination
  by (relation "measure (\<lambda>(table, c, low, high). nat (high - low + 1))") (auto dest: mid_bounds)

text \<open>The search for rising codes.\<close>

function code_search_inc :: "chip_tsadc_table \<Rightarrow> u32 \<Rightarrow> int \<Rightarrow> int \<Rightarrow> int option" where
  "code_search_inc table c low high =
     (let mid = (low + high) sdiv 2 in
      if low \<le> high then
        Option.bind (entry table mid) (\<lambda>e.
          if c > code e then code_search_inc table c (mid + 1) high
          else Option.bind (entry table (mid - 1)) (\<lambda>p.
            if c > code p then Some mid else code_search_inc table c low (mid - 1)))
      else Some mid)"
  by auto
termination
  by (relation "measure (\<lambda>(table, c, low, high). nat (high - low + 1))") (auto dest: mid_bounds)

declare code_search_dec.simps [simp del] code_search_inc.simps [simp del]

text \<open>The interpolation between the entries \<open>mid - 1\<close> and \<open>mid\<close>; \<open>num\<close> has 32 bits, \<open>denom\<close> 64.\<close>

definition interp_temp :: "u32 \<Rightarrow> tsadc_table \<Rightarrow> tsadc_table \<Rightarrow> int option" where
  "interp_temp c p e =
     (let num = (word_of_int (temp e - temp p) :: u32) * word_of_int (abs_diff (code p) c);
          denom = (word_of_int (abs_diff (code p) (code e)) :: u64)
      in if denom = 0 then None
         else Some (sint (ucast ((word_of_int (temp p) :: u64) + ucast num div denom) :: u32)))"

text \<open>
  \<open>rk_tsadcv2_code_to_temp\<close>: the value of \<open>*temp\<close> (\<open>t0\<close> before the call) and the error. \<open>len_tab\<close>
  is at least 2 where it is used, so \<open>table->length - 1\<close> does not wrap.
\<close>

definition rk_tsadcv2_code_to_temp ::
  "chip_tsadc_table \<Rightarrow> u32 \<Rightarrow> int \<Rightarrow> (int \<times> errno option) option" where
  "rk_tsadcv2_code_to_temp table c t0 =
     (if kNum table \<noteq> 0 then
        let t = s32 (s32 (s32 (sint c - bNum table) * 10000) sdiv kNum table * 100)
        in Some (t, if t < MIN_TEMP \<or> t > MAX_TEMP then Some EAGAIN else None)
      else
        let low = 1; high = int (len_tab table) - 1; c = c AND data_mask table;
            finish = (\<lambda>mid. Option.bind (entry table (mid - 1)) (\<lambda>p. Option.bind (entry table mid) (\<lambda>e.
              map_option (\<lambda>t. (t, None)) (interp_temp c p e))))
        in
          if adc_mode table = ADC_DECREMENT then
            Option.bind (entry table high) (\<lambda>e.
              if c \<le> code e then Some (t0, Some EAGAIN)
              else Option.bind (code_search_dec table c low high) finish)
          else if adc_mode table = ADC_INCREMENT then
            Option.bind (entry table low) (\<lambda>e.
              if c < code e then Some (t0, Some EAGAIN)
              else Option.bind (code_search_inc table c low high) finish)
          else Some (t0, Some EINVAL))"

section \<open>The arithmetic of the interpolation\<close>

lemma sint_diff:
  assumes "uint a < 2 ^ 31" "uint (b :: u32) < 2 ^ 31"
  shows "sint (a - b) = uint a - uint b"
proof -
  have "a - b = word_of_int (uint a - uint b)" by simp
  moreover have "s32 (uint a - uint b) = uint a - uint b"
    using assms uint_ge_0 [of a] uint_ge_0 [of b] by (intro s32_id) linarith+
  ultimately show ?thesis by (simp only: s32_def)
qed

lemma abs_diff_eq:
  assumes "uint a < 2 ^ 31" "uint b < 2 ^ 31"
  shows "abs_diff a b = \<bar>uint a - uint b\<bar>"
  unfolding abs_diff_def sint_diff [OF assms]
  by (rule s32_id) (use assms uint_ge_0 [of a] uint_ge_0 [of b] in linarith)+

lemma uint_of_int: "0 \<le> n \<Longrightarrow> n < 2 ^ LENGTH('a) \<Longrightarrow> uint (word_of_int n :: 'a::len word) = n"
  by (simp add: uint_word_of_int)

lemma ucast_of_int: "ucast (word_of_int n :: u64) = (word_of_int n :: u32)"
  by (rule bit_word_eqI) (simp add: bit_simps)

lemma uint_ucast_u64: "uint (ucast (w :: u32) :: u64) = uint w"
  by (simp add: unsigned_ucast_eq) (simp add: take_bit_int_eq_self_iff less_trans [OF unsigned_less])

text \<open>The value on the line through two points, rounded down.\<close>

definition on_line :: "int \<Rightarrow> int \<Rightarrow> int \<Rightarrow> int \<Rightarrow> int \<Rightarrow> int" where
  "on_line x0 y0 x1 y1 x = y0 + (y1 - y0) * (x - x0) div (x1 - x0)"

lemma on_line_bounds:
  assumes "x0 < x1" "y0 \<le> y1" "x0 \<le> x" "x \<le> x1"
  shows "y0 \<le> on_line x0 y0 x1 y1 x" "on_line x0 y0 x1 y1 x \<le> y1"
proof -
  show "y0 \<le> on_line x0 y0 x1 y1 x"
    using assms by (simp add: on_line_def pos_imp_zdiv_nonneg_iff)
  have "(y1 - y0) * (x - x0) div (x1 - x0) \<le> (y1 - y0) * (x1 - x0) div (x1 - x0)"
    using assms by (intro zdiv_mono1 mult_left_mono) auto
  then show "on_line x0 y0 x1 y1 x \<le> y1" using assms by (simp add: on_line_def)
qed

lemma on_line_mono:
  "x0 < x1 \<Longrightarrow> y0 \<le> y1 \<Longrightarrow> x \<le> x' \<Longrightarrow> on_line x0 y0 x1 y1 x \<le> on_line x0 y0 x1 y1 x'"
  by (auto simp: on_line_def intro!: zdiv_mono1 mult_left_mono)

lemma on_line_ends [simp]:
  "on_line x0 y0 x1 y1 x0 = y0" "x0 < x1 \<Longrightarrow> on_line x0 y0 x1 y1 x1 = y1"
  by (simp_all add: on_line_def)

text \<open>Codes of 12 bits and temperatures in the sensor's range: no operation overflows.\<close>

abbreviation in_range :: "int \<Rightarrow> bool" where
  "in_range t \<equiv> MIN_TEMP \<le> t \<and> t \<le> MAX_TEMP"

lemma interp_temp_gen:
  assumes p: "in_range (temp p)" "uint (code p) < 2 ^ 12" and e: "in_range (temp e)" "uint (code e) < 2 ^ 12"
    and c: "uint c < 2 ^ 12" and x: "x = \<bar>uint (code p) - uint c\<bar>" and d: "d = \<bar>uint (code p) - uint (code e)\<bar>"
    and xd: "x \<le> d" "0 < d" and t: "temp p \<le> temp e"
  shows "interp_temp c p e = Some (on_line 0 (temp p) d (temp e) x)"
proof -
  let ?a = "temp e - temp p"
  have d1: "abs_diff (code p) c = x" "abs_diff (code p) (code e) = d"
    using p e c by (simp_all add: abs_diff_eq x d)
  have a: "0 \<le> ?a" "?a \<le> 165000" using p e t by (simp_all add: MIN_TEMP_def MAX_TEMP_def)
  have "d < 4096" using p(2) [simplified] e(2) [simplified] uint_ge_0 [of "code p"] uint_ge_0 [of "code e"]
    unfolding d by linarith
  then have x0: "0 \<le> x" "x \<le> d" "0 < d" "d < 4096" using xd x by simp_all
  have ax: "0 \<le> ?a * x" "?a * x < 2 ^ 32"
  proof -
    have "?a * x \<le> 165000 * 4096" by (rule mult_mono) (use a x0 in simp_all)
    then show "?a * x < 2 ^ 32" by simp
  qed (use a x0 in simp)
  have num: "uint ((word_of_int ?a :: u32) * word_of_int x) = ?a * x"
    unfolding wi_hom_mult by (rule uint_of_int) (use ax in simp_all)
  have den: "uint (word_of_int d :: u64) = d" by (rule uint_of_int) (use x0 in simp_all)
  then have nz: "(word_of_int d :: u64) \<noteq> 0" using x0 by (metis less_irrefl unsigned_0)
  let ?num = "(word_of_int ?a :: u32) * word_of_int x"
  have quot: "uint ((ucast ?num :: u64) div word_of_int d) = ?a * x div d"
    by (simp only: uint_div den num uint_ucast_u64)
  have q: "0 \<le> ?a * x div d" "temp p + ?a * x div d \<le> temp e"
    using on_line_bounds(2) [of 0 d "temp p" "temp e" x] t ax x0
    by (simp_all add: on_line_def pos_imp_zdiv_nonneg_iff)
  have "(word_of_int (temp p) :: u64) + (ucast ?num :: u64) div word_of_int d
      = word_of_int (temp p + ?a * x div d)"
    by (simp only: quot [symmetric] wi_hom_add [symmetric] word_of_int_uint)
  then have "sint (ucast ((word_of_int (temp p) :: u64) + (ucast ?num :: u64) div word_of_int d) :: u32)
      = s32 (temp p + ?a * x div d)"
    by (simp only: s32_def ucast_of_int)
  also have "\<dots> = temp p + ?a * x div d"
    using q p e by (intro s32_id) (simp_all add: MIN_TEMP_def MAX_TEMP_def)
  finally show ?thesis
    using nz by (simp add: interp_temp_def d1 Let_def on_line_def)
qed

lemma interp_temp_eq:
  assumes p: "in_range (temp p)" "uint (code p) < 2 ^ 12" and e: "in_range (temp e)" "uint (code e) < 2 ^ 12"
    and c: "uint (code p) \<le> uint c" "uint c \<le> uint (code e)" "uint (code p) < uint (code e)"
    and t: "temp p \<le> temp e"
  shows "interp_temp c p e = Some (on_line (uint (code p)) (temp p) (uint (code e)) (temp e) (uint c))"
  using interp_temp_gen [OF p e _ refl refl _ _ t, of c] c e(2) by (simp add: on_line_def)

lemma interp_code_eq:
  assumes p: "in_range (temp e0)" "uint (code e0) < 2 ^ 12" and e: "in_range (temp e1)" "uint (code e1) < 2 ^ 12"
    and c: "uint (code e0) \<le> uint (code e1)" and t: "temp e0 \<le> t" "t \<le> temp e1" "temp e0 < temp e1"
    and mode: "adc_mode table = ADC_INCREMENT"
  shows "\<exists>c. interp_code table t e0 e1 = Some c
    \<and> uint c = on_line (temp e0) (uint (code e0)) (temp e1) (uint (code e1)) t"
proof -
  let ?a = "uint (code e1) - uint (code e0)" and ?x = "t - temp e0" and ?d = "temp e1 - temp e0"
  have d1: "abs_diff (code e1) (code e0) = ?a" using p e c by (simp add: abs_diff_eq)
  have x: "0 \<le> ?x" "?x \<le> ?d" "0 < ?d" "?d \<le> 165000"
    using t p e by (simp_all add: MIN_TEMP_def MAX_TEMP_def)
  have a: "0 \<le> ?a" "?a < 4096" using c e(2) [simplified] uint_ge_0 [of "code e0"] by linarith+
  have "?a * ?x \<le> 4096 * 165000" by (rule mult_mono) (use a x in simp_all)
  then have ax: "0 \<le> ?a * ?x" "?a * ?x < 2 ^ 64" using a x by simp_all
  have sx: "s32 ?x = ?x" using x by (intro s32_id) simp_all
  let ?num = "(word_of_int ?a :: u64) * word_of_int ?x"
  have num: "uint ?num = ?a * ?x"
    unfolding wi_hom_mult by (rule uint_of_int) (use ax in simp_all)
  have den: "uint (ucast (word_of_int ?d :: u32) :: u64) = ?d"
    unfolding uint_ucast_u64 by (rule uint_of_int) (use x in simp_all)
  then have nz: "(word_of_int ?d :: u32) \<noteq> 0" using x by (metis less_irrefl uint_ucast_u64 unsigned_0)
  have quot: "uint (?num div ucast (word_of_int ?d :: u32)) = ?a * ?x div ?d"
    by (simp only: uint_div den num)
  let ?v = "uint (code e0) + ?a * ?x div ?d"
  have v: "0 \<le> ?v" "?v \<le> uint (code e1)"
    using on_line_bounds [of "temp e0" "temp e1" "uint (code e0)" "uint (code e1)" t] t c uint_ge_0 [of "code e0"]
    by (simp_all add: on_line_def)
  have "?num div ucast (word_of_int ?d :: u32) = word_of_int (?a * ?x div ?d)"
    by (simp only: quot [symmetric] word_of_int_uint)
  then have "(ucast (code e0) :: u64) + ?num div ucast (word_of_int ?d :: u32) = word_of_int ?v"
    by (simp only: ucast_eq [of "code e0"] wi_hom_add)
  then have "(ucast ((ucast (code e0) :: u64) + ?num div ucast (word_of_int ?d :: u32)) :: u32) = word_of_int ?v"
    by (simp only: ucast_of_int)
  moreover have "uint (word_of_int ?v :: u32) = ?v"
    by (rule uint_of_int) (use v e(2) in simp_all)
  ultimately show ?thesis
    using nz mode by (simp add: interp_code_def d1 sx Let_def on_line_def ADC_DECREMENT_def ADC_INCREMENT_def)
qed

section \<open>Tables of rising codes\<close>

text \<open>What a table must be: a decidable condition on its entries and on the fields around it.\<close>

definition rising :: "chip_tsadc_table \<Rightarrow> bool" where
  "rising T \<longleftrightarrow>
     kNum T = 0 \<and> adc_mode T = ADC_INCREMENT \<and> len_tab T = length (id_tab T) \<and> 4 \<le> length (id_tab T)
   \<and> successively (\<lambda>a b. code a < code b) (id_tab T)
   \<and> temp (id_tab T ! 0) = temp (id_tab T ! 1)
   \<and> successively (\<lambda>a b. temp a < temp b) (butlast (tl (id_tab T)))
   \<and> temp (last (id_tab T)) = temp (last (butlast (id_tab T)))
   \<and> list_all (\<lambda>e. code e < 2 ^ 12 \<and> in_range (temp e)) (id_tab T)
   \<and> data_mask T \<le> code (last (id_tab T)) \<and> code (last (butlast (id_tab T))) < data_mask T
   \<and> (data_mask T = TSADCV2_DATA_MASK \<or> data_mask T = TSADCV3_DATA_MASK)"

locale rising_table =
  fixes T :: chip_tsadc_table
  assumes rising: "rising T"
begin

definition C :: "int \<Rightarrow> int" where "C i = uint (code (id_tab T ! nat i))"
definition H :: "int \<Rightarrow> int" where "H i = temp (id_tab T ! nat i)"
definition n :: int where "n = int (length (id_tab T))"

lemma facts: "kNum T = 0" "adc_mode T = ADC_INCREMENT" "len_tab T = length (id_tab T)" "4 \<le> n"
  using rising by (simp_all add: rising_def n_def)

lemma entry_nth: "0 \<le> i \<Longrightarrow> i < n \<Longrightarrow> entry T i = Some (id_tab T ! nat i)"
  by (simp add: entry_def n_def)

lemma entry_0: "entry T 0 = Some (id_tab T ! 0)"
  using entry_nth [of 0] facts(4) by auto

lemma codes_rise: "0 \<le> i \<Longrightarrow> i < j \<Longrightarrow> j < n \<Longrightarrow> C i < C j"
proof -
  assume "0 \<le> i" "i < j" "j < n"
  moreover have "sorted_wrt (\<lambda>a b. code a < code b) (id_tab T)"
    using rising by (subst successively_conv_sorted_wrt [symmetric]) (auto simp: rising_def transp_def)
  ultimately have "code (id_tab T ! nat i) < code (id_tab T ! nat j)"
    using sorted_wrt_nth_less [of "\<lambda>a b. code a < code b" "id_tab T" "nat i" "nat j"] by (simp add: n_def)
  then show "C i < C j" by (simp add: C_def word_less_def)
qed

lemma codes_mono: "0 \<le> i \<Longrightarrow> i \<le> j \<Longrightarrow> j < n \<Longrightarrow> C i \<le> C j"
  using codes_rise [of i j] by (cases "i = j") auto

lemma temps_rise: "1 \<le> i \<Longrightarrow> i < j \<Longrightarrow> j < n - 1 \<Longrightarrow> H i < H j"
proof -
  assume a: "1 \<le> i" "i < j" "j < n - 1"
  let ?l = "butlast (tl (id_tab T))"
  have "sorted_wrt (\<lambda>a b. temp a < temp b) ?l"
    using rising by (subst successively_conv_sorted_wrt [symmetric]) (auto simp: rising_def transp_def)
  moreover have "nat i - 1 < nat j - 1" "nat j - 1 < length ?l" using a by (auto simp: n_def)
  ultimately have "temp (?l ! (nat i - 1)) < temp (?l ! (nat j - 1))" by (rule sorted_wrt_nth_less)
  then show "H i < H j" using a by (auto simp: H_def nth_butlast nth_tl n_def)
qed

lemma ends: "H 0 = H 1" "H (n - 1) = H (n - 2)"
proof -
  show "H 0 = H 1" using rising by (simp add: rising_def H_def)
  have ne: "id_tab T \<noteq> []" "butlast (id_tab T) \<noteq> []"
    using facts(4) by (auto simp: n_def simp flip: length_0_conv)
  have lt: "length (id_tab T) - 2 < length (id_tab T) - 1" using facts(4) by (auto simp: n_def)
  have "nat (n - 1) = length (id_tab T) - 1" "nat (n - 2) = length (id_tab T) - 2"
    by (simp_all add: n_def nat_diff_distrib)
  then show "H (n - 1) = H (n - 2)"
    using rising ne lt nth_butlast [of "length (id_tab T) - 2" "id_tab T"]
    by (simp add: rising_def H_def last_conv_nth n_def numeral_2_eq_2)
qed

lemma range: "0 \<le> i \<Longrightarrow> i < n \<Longrightarrow> in_range (H i) \<and> 0 \<le> C i \<and> C i < 2 ^ 12"
proof -
  assume "0 \<le> i" "i < n"
  then have "id_tab T ! nat i \<in> set (id_tab T)" by (simp add: n_def)
  then have "code (id_tab T ! nat i) < 2 ^ 12 \<and> in_range (temp (id_tab T ! nat i))"
    using rising by (auto simp: rising_def list_all_iff)
  then show ?thesis by (simp add: H_def C_def word_less_def)
qed

lemma temps_mono: "0 \<le> i \<Longrightarrow> i \<le> j \<Longrightarrow> j < n \<Longrightarrow> H i \<le> H j"
proof -
  assume a: "0 \<le> i" "i \<le> j" "j < n"
  have same: "H k = H (min (max 1 k) (n - 2))" if k: "0 \<le> k" "k < n" for k
  proof -
    consider "k = 0" | "1 \<le> k" "k \<le> n - 2" | "k = n - 1" using k by force
    then show ?thesis using facts(4) ends by cases (simp_all add: min_def max_def)
  qed
  define i' j' where "i' = min (max 1 i) (n - 2)" and "j' = min (max 1 j) (n - 2)"
  have b: "1 \<le> i'" "i' \<le> j'" "j' < n - 1"
    using a facts(4) by (simp_all add: i'_def j'_def min_def max_def)
  have "H i' \<le> H j'" using temps_rise [OF b(1) _ b(3)] b(2) by (cases "i' = j'") auto
  then show "H i \<le> H j" using same [of i] same [of j] a by (simp add: i'_def j'_def)
qed

text \<open>The searches find the segment that holds the code or the temperature.\<close>

lemma code_search_inc_spec:
  assumes "1 \<le> low" "low \<le> high" "high < n" "C (low - 1) < uint c" "uint c \<le> C high"
  shows "\<exists>m. code_search_inc T c low high = Some m \<and> low \<le> m \<and> m \<le> high
    \<and> C (m - 1) < uint c \<and> uint c \<le> C m"
  using assms
proof (induction "nat (high - low)" arbitrary: low high rule: less_induct)
  case less
  let ?m = "(low + high) sdiv 2"
  have m: "low \<le> ?m" "?m \<le> high" using less.prems(2) mid_bounds by auto
  have em: "entry T ?m = Some (id_tab T ! nat ?m)" "entry T (?m - 1) = Some (id_tab T ! nat (?m - 1))"
    by (rule entry_nth; use m less.prems in linarith)+
  have cmp: "c > code (id_tab T ! nat i) \<longleftrightarrow> C i < uint c" for i
    by (simp add: C_def word_less_def)
  show ?case
  proof (cases "C ?m < uint c")
    case True
    then have "?m < high" using m(2) less.prems(5) by (cases "?m = high") auto
    then have "\<exists>m. code_search_inc T c (?m + 1) high = Some m \<and> ?m + 1 \<le> m \<and> m \<le> high
        \<and> C (m - 1) < uint c \<and> uint c \<le> C m"
      using m less.prems True by (intro less.hyps) auto
    moreover have "code_search_inc T c low high = code_search_inc T c (?m + 1) high"
      using True less.prems(2) by (subst code_search_inc.simps) (simp add: em cmp Let_def)
    ultimately show ?thesis using m by force
  next
    case False
    show ?thesis
    proof (cases "C (?m - 1) < uint c")
      case True
      with False m less.prems(2) show ?thesis
        by (subst code_search_inc.simps) (simp add: em cmp Let_def)
    next
      case down: False
      then have "low < ?m" using m(1) less.prems(4) by (cases "?m = low") auto
      then have "\<exists>m. code_search_inc T c low (?m - 1) = Some m \<and> low \<le> m \<and> m \<le> ?m - 1
          \<and> C (m - 1) < uint c \<and> uint c \<le> C m"
        using m less.prems down by (intro less.hyps) auto
      moreover have "code_search_inc T c low high = code_search_inc T c low (?m - 1)"
        using False down less.prems(2) by (subst code_search_inc.simps) (simp add: em cmp Let_def)
      ultimately show ?thesis using m by force
    qed
  qed
qed

lemma temp_search_spec:
  assumes "0 \<le> low" "high < n - 1" "low \<le> high + 1"
    and "0 < low \<Longrightarrow> H (low - 1) < t" "high < n - 2 \<Longrightarrow> t < H (high + 1)"
    and "H 0 \<le> t" "t \<le> H (n - 2)"
  shows "\<exists>m. 0 \<le> m \<and> m < n - 1 \<and>
      (temp_search T t low high = Some (Inl (code (id_tab T ! nat m))) \<and> H m = t
       \<or> temp_search T t low high = Some (Inr m) \<and> m < n - 2 \<and> H m < t \<and> t < H (m + 1))"
  using assms(1-5)
proof (induction "nat (high - low + 1)" arbitrary: low high rule: less_induct)
  case less
  let ?m = "(low + high) sdiv 2"
  show ?case
  proof (cases "low \<le> high")
    case True
    have m: "low \<le> ?m" "?m \<le> high" using True mid_bounds by auto
    have em: "entry T ?m = Some (id_tab T ! nat ?m)"
      by (rule entry_nth; use m less.prems in linarith)
    have hm: "temp (id_tab T ! nat ?m) = H ?m" by (simp add: H_def)
    consider "t = H ?m" | "t < H ?m" | "H ?m < t" by linarith
    then show ?thesis
    proof cases
      case 1
      then have "temp_search T t low high = Some (Inl (code (id_tab T ! nat ?m)))"
        using True by (subst temp_search.simps) (simp add: em hm Let_def)
      then show ?thesis using 1 m less.prems by (intro exI [of _ ?m]) auto
    next
      case 2
      then have "temp_search T t low high = temp_search T t low (?m - 1)"
        using True by (subst temp_search.simps) (simp add: em hm Let_def)
      moreover have "\<exists>m. 0 \<le> m \<and> m < n - 1 \<and>
          (temp_search T t low (?m - 1) = Some (Inl (code (id_tab T ! nat m))) \<and> H m = t
           \<or> temp_search T t low (?m - 1) = Some (Inr m) \<and> m < n - 2 \<and> H m < t \<and> t < H (m + 1))"
        using m less.prems True 2 by (intro less.hyps) auto
      ultimately show ?thesis by simp
    next
      case 3
      then have "temp_search T t low high = temp_search T t (?m + 1) high"
        using True by (subst temp_search.simps) (simp add: em hm Let_def)
      moreover have "\<exists>m. 0 \<le> m \<and> m < n - 1 \<and>
          (temp_search T t (?m + 1) high = Some (Inl (code (id_tab T ! nat m))) \<and> H m = t
           \<or> temp_search T t (?m + 1) high = Some (Inr m) \<and> m < n - 2 \<and> H m < t \<and> t < H (m + 1))"
        using m less.prems True 3 by (intro less.hyps) auto
      ultimately show ?thesis by simp
    qed
  next
    case False
    then have low: "low = high + 1" using less.prems(3) by simp
    have "0 < low"
      using assms(6) less.prems(5) low ends(1) facts(4) temps_mono [of 0 "high + 1"] less.prems
      by (cases "low = 0") auto
    moreover have "high < n - 2"
      using assms(7) less.prems(4) low \<open>0 < low\<close> less.prems(2) by (cases "high = n - 2") auto
    moreover have "?m = high" using \<open>0 < low\<close> by (simp add: low signed_divide_int_def sgn_if)
    ultimately show ?thesis
      using False low less.prems
      by (subst (1 2) temp_search.simps) (auto simp: Let_def intro!: exI [of _ high])
  qed
qed

end

section \<open>What a conversion of rising codes computes\<close>

context rising_table
begin

text \<open>The segment a code lies in, and the reading of the code.\<close>

definition segment :: "int \<Rightarrow> int \<Rightarrow> bool" where
  "segment m x \<longleftrightarrow> 1 \<le> m \<and> m < n \<and> C (m - 1) < x \<and> x \<le> C m"

definition reading :: "int \<Rightarrow> int \<Rightarrow> int" where
  "reading m x = on_line (C (m - 1)) (H (m - 1)) (C m) (H m) x"

lemma mask_max: "uint (c AND data_mask T) \<le> C (n - 1)"
proof -
  have "uint (c AND data_mask T) \<le> uint (data_mask T)" by (simp add: word_and_le1 flip: word_le_def)
  moreover have "id_tab T \<noteq> []" "nat (n - 1) = length (id_tab T) - 1"
    using facts(4) by (auto simp: n_def nat_diff_distrib)
  then have "uint (data_mask T) \<le> C (n - 1)"
    using rising by (simp add: rising_def C_def last_conv_nth word_le_def)
  ultimately show ?thesis by linarith
qed

lemma code_to_temp_low:
  "uint (c AND data_mask T) < C 1 \<Longrightarrow> rk_tsadcv2_code_to_temp T c t0 = Some (t0, Some EAGAIN)"
  using facts entry_nth [of 1]
  by (simp add: rk_tsadcv2_code_to_temp_def Let_def ADC_DECREMENT_def ADC_INCREMENT_def C_def word_less_def)

lemma code_to_temp_reading:
  assumes "C 1 \<le> uint (c AND data_mask T)"
  shows "\<exists>m. segment m (uint (c AND data_mask T))
    \<and> rk_tsadcv2_code_to_temp T c t0 = Some (reading m (uint (c AND data_mask T)), None)"
proof -
  let ?c = "c AND data_mask T"
  have "C 0 < uint ?c" using assms codes_rise [of 0 1] facts(4) by simp
  then obtain m where m: "code_search_inc T ?c 1 (n - 1) = Some m" "1 \<le> m" "m \<le> n - 1"
    "C (m - 1) < uint ?c" "uint ?c \<le> C m"
    using code_search_inc_spec [of 1 "n - 1" ?c] mask_max facts(4) by auto
  have e: "entry T (m - 1) = Some (id_tab T ! nat (m - 1))" "entry T m = Some (id_tab T ! nat m)"
    using m by (auto intro!: entry_nth)
  have "interp_temp ?c (id_tab T ! nat (m - 1)) (id_tab T ! nat m) = Some (reading m (uint ?c))"
    unfolding reading_def C_def H_def
    by (rule interp_temp_eq)
      (use m range [of "m - 1"] range [of m] temps_mono [of "m - 1" m] in \<open>auto simp: C_def H_def\<close>)
  with m e assms facts entry_nth [of 1] show ?thesis
    by (intro exI [of _ m])
      (simp add: rk_tsadcv2_code_to_temp_def Let_def ADC_DECREMENT_def ADC_INCREMENT_def segment_def
        n_def C_def word_less_def)
qed

lemma reading_bounds: "segment m x \<Longrightarrow> H (m - 1) \<le> reading m x \<and> reading m x \<le> H m"
  unfolding reading_def segment_def
  using on_line_bounds [of "C (m - 1)" "C m" "H (m - 1)" "H m" x] temps_mono [of "m - 1" m] by auto

lemma reading_mono:
  assumes "segment m x" "segment m' x'" "x \<le> x'"
  shows "reading m x \<le> reading m' x'"
proof (cases "m = m'")
  case True
  with assms show ?thesis
    using temps_mono [of "m - 1" m] by (auto simp: reading_def segment_def intro!: on_line_mono)
next
  case False
  have "m < m'"
  proof (rule ccontr)
    assume "\<not> m < m'"
    then have "C m' \<le> C (m - 1)" using False assms by (intro codes_mono) (auto simp: segment_def)
    then show False using assms by (simp add: segment_def)
  qed
  then have "H m \<le> H (m' - 1)" using assms by (intro temps_mono) (auto simp: segment_def)
  then show ?thesis using reading_bounds [OF assms(1)] reading_bounds [OF assms(2)] by linarith
qed

text \<open>A code that lies on an entry reads the temperature of the entry.\<close>

lemma reading_at: "1 \<le> m \<Longrightarrow> m < n \<Longrightarrow> segment m (C m) \<and> reading m (C m) = H m"
  using codes_rise [of "m - 1" m] by (simp add: segment_def reading_def)

text \<open>The code of a temperature: the largest whose reading does not exceed it.\<close>

lemma temp_to_code_outside:
  "t < H 0 \<or> H (n - 2) < t \<Longrightarrow> rk_tsadcv2_temp_to_code T t = Some (data_mask T)"
  using facts entry_0 entry_nth [of "n - 2"]
  by (auto simp: rk_tsadcv2_temp_to_code_def Let_def H_def n_def)

lemma on_line_inverse:
  assumes "x0 < x1" "y0 < y1" "y0 \<le> y" "k = on_line y0 x0 y1 x1 y"
  shows "on_line x0 y0 x1 y1 k \<le> y" "y \<le> on_line x0 y0 x1 y1 (k + 1)"
proof -
  let ?a = "x1 - x0" and ?d = "y1 - y0" and ?x = "y - y0"
  let ?j = "?a * ?x div ?d"
  have k: "k = x0 + ?j" using assms(4) by (simp add: on_line_def)
  have d: "0 < ?d" "0 < ?a" using assms by simp_all
  have "?j * ?d \<le> ?a * ?x" using d by (metis div_mult_mod_eq le_add_same_cancel1 pos_mod_sign)
  then have "?d * ?j \<le> ?x * ?a" by (simp add: mult.commute)
  then have "?d * ?j div ?a \<le> ?x * ?a div ?a" using d by (intro zdiv_mono1)
  then show "on_line x0 y0 x1 y1 k \<le> y" using d by (simp add: on_line_def k)
  have "?a * ?x < (?j + 1) * ?d"
    using d pos_mod_bound [of ?d "?a * ?x"] div_mult_mod_eq [of "?a * ?x" ?d] by (simp add: algebra_simps)
  then have "?x * ?a \<le> ?d * (?j + 1)" by (simp add: mult.commute)
  then have "?x * ?a div ?a \<le> ?d * (?j + 1) div ?a" using d by (intro zdiv_mono1)
  then show "y \<le> on_line x0 y0 x1 y1 (k + 1)" using d by (simp add: on_line_def k)
qed

lemma temp_to_code_inside:
  assumes t: "H 1 < t" "t \<le> H (n - 2)"
  shows "\<exists>c m. rk_tsadcv2_temp_to_code T t = Some c \<and> segment m (uint c) \<and> uint c \<le> C (n - 2)
    \<and> C 1 \<le> uint c \<and> reading m (uint c) \<le> t
    \<and> (\<forall>m' x. uint c < x \<and> segment m' x \<longrightarrow> t \<le> reading m' x)"
proof -
  have h0: "H 0 \<le> t" "\<not> t < H 0" using t ends by simp_all
  obtain m where m: "0 \<le> m" "m < n - 1" and
    r: "temp_search T t 0 (n - 2) = Some (Inl (code (id_tab T ! nat m))) \<and> H m = t
       \<or> temp_search T t 0 (n - 2) = Some (Inr m) \<and> m < n - 2 \<and> H m < t \<and> t < H (m + 1)"
    using temp_search_spec [of 0 "n - 2" t] h0 t facts(4) by auto
  have m1: "1 \<le> m"
    using r m t ends by (cases "m = 0") auto
  have start: "rk_tsadcv2_temp_to_code T t = Option.bind (temp_search T t 0 (n - 2)) (\<lambda>r.
      case r of Inl c \<Rightarrow> Some c
      | Inr mid \<Rightarrow> Option.bind (entry T mid) (\<lambda>e0. Option.bind (entry T (mid + 1)) (\<lambda>e1. interp_code T t e0 e1)))"
    using facts entry_0 entry_nth [of "n - 2"] h0 t
    by (simp add: rk_tsadcv2_temp_to_code_def Let_def H_def n_def)
  have above: "t \<le> reading m' x" if "t \<le> reading k y" "segment k y" "y \<le> x" "segment m' x" for k y m' x
    using reading_mono [OF that(2,4,3)] that(1) by simp
  from r show ?thesis
  proof
    assume "temp_search T t 0 (n - 2) = Some (Inl (code (id_tab T ! nat m))) \<and> H m = t"
    with start have r: "rk_tsadcv2_temp_to_code T t = Some (code (id_tab T ! nat m))" "H m = t" by simp_all
    have u: "uint (code (id_tab T ! nat m)) = C m" by (simp add: C_def)
    have "C m \<le> C (n - 2)" "C 1 \<le> C m" using m m1 by (auto intro!: codes_mono)
    with r u reading_at [of m] m m1 above [of m "C m"] show ?thesis
      by (intro exI [of _ "code (id_tab T ! nat m)"] exI [of _ m]) auto
  next
    assume "temp_search T t 0 (n - 2) = Some (Inr m) \<and> m < n - 2 \<and> H m < t \<and> t < H (m + 1)"
    then have s: "temp_search T t 0 (n - 2) = Some (Inr m)" and mb: "m < n - 2" "H m < t" "t < H (m + 1)" by simp_all
    have lt: "C m < C (m + 1)" using m mb by (intro codes_rise) auto
    obtain c where c: "interp_code T t (id_tab T ! nat m) (id_tab T ! nat (m + 1)) = Some c"
      "uint c = on_line (H m) (C m) (H (m + 1)) (C (m + 1)) t"
      using interp_code_eq [of "id_tab T ! nat m" "id_tab T ! nat (m + 1)" t T] m mb lt facts(2)
        range [of m] range [of "m + 1"] by (auto simp: C_def H_def)
    have e: "entry T m = Some (id_tab T ! nat m)" "entry T (m + 1) = Some (id_tab T ! nat (m + 1))"
      using m mb by (auto intro!: entry_nth)
    have r: "rk_tsadcv2_temp_to_code T t = Some c" using start s e c(1) by simp
    have cb: "C m \<le> uint c" "uint c \<le> C (m + 1)"
      using on_line_bounds [of "H m" "H (m + 1)" "C m" "C (m + 1)" t] mb lt c(2) by simp_all
    have inv: "on_line (C m) (H m) (C (m + 1)) (H (m + 1)) (uint c) \<le> t"
      "t \<le> on_line (C m) (H m) (C (m + 1)) (H (m + 1)) (uint c + 1)"
      using on_line_inverse [OF lt _ _ c(2)] mb by simp_all
    have top: "C (m + 1) \<le> C (n - 2)" "C 1 \<le> C m" using m m1 mb by (auto intro!: codes_mono)
    have seg: "\<exists>k. segment k (uint c) \<and> reading k (uint c) \<le> t"
    proof (cases "uint c = C m")
      case True
      then show ?thesis using reading_at [of m] m m1 mb by auto
    next
      case False
      then have "segment (m + 1) (uint c)" using cb m mb by (auto simp: segment_def)
      then show ?thesis using inv(1) by (auto simp: reading_def)
    qed
    have nxt: "t \<le> reading m' x" if x: "uint c < x" "segment m' x" for m' x
    proof (cases "uint c < C (m + 1)")
      case True
      then have "segment (m + 1) (uint c + 1)" using cb m mb by (auto simp: segment_def)
      then show ?thesis using above [OF _ _ _ x(2), of "m + 1" "uint c + 1"] inv(2) x(1) by (simp add: reading_def)
    next
      case False
      then have "t \<le> reading (m + 1) (C (m + 1))" using mb reading_at [of "m + 1"] m by simp
      then show ?thesis using above [OF _ _ _ x(2), of "m + 1" "C (m + 1)"] reading_at [of "m + 1"] False x m mb by auto
    qed
    from seg obtain k where "segment k (uint c)" "reading k (uint c) \<le> t" by blast
    then show ?thesis using r cb top nxt by (intro exI [of _ c] exI [of _ k]) auto
  qed
qed

end

section \<open>The table of falling codes\<close>

definition falling :: "chip_tsadc_table \<Rightarrow> bool" where
  "falling T \<longleftrightarrow>
     kNum T = 0 \<and> adc_mode T = ADC_DECREMENT \<and> len_tab T = length (id_tab T) \<and> 4 \<le> length (id_tab T)
   \<and> successively (\<lambda>a b. code a > code b) (id_tab T)
   \<and> successively (\<lambda>a b. temp a \<le> temp b) (id_tab T)
   \<and> list_all (\<lambda>e. code e < 2 ^ 12 \<and> in_range (temp e)) (id_tab T)"

locale falling_table =
  fixes T :: chip_tsadc_table
  assumes falling: "falling T"
begin

definition C :: "int \<Rightarrow> int" where "C i = uint (code (id_tab T ! nat i))"
definition H :: "int \<Rightarrow> int" where "H i = temp (id_tab T ! nat i)"
definition n :: int where "n = int (length (id_tab T))"

lemma facts: "kNum T = 0" "adc_mode T = ADC_DECREMENT" "len_tab T = length (id_tab T)" "4 \<le> n"
  using falling by (simp_all add: falling_def n_def)

lemma entry_nth: "0 \<le> i \<Longrightarrow> i < n \<Longrightarrow> entry T i = Some (id_tab T ! nat i)"
  by (simp add: entry_def n_def)

lemma codes_fall: "0 \<le> i \<Longrightarrow> i < j \<Longrightarrow> j < n \<Longrightarrow> C j < C i"
proof -
  assume "0 \<le> i" "i < j" "j < n"
  moreover have "sorted_wrt (\<lambda>a b. code a > code b) (id_tab T)"
    using falling by (subst successively_conv_sorted_wrt [symmetric]) (auto simp: falling_def transp_def)
  ultimately have "code (id_tab T ! nat j) < code (id_tab T ! nat i)"
    using sorted_wrt_nth_less [of "\<lambda>a b. code a > code b" "id_tab T" "nat i" "nat j"] by (simp add: n_def)
  then show "C j < C i" by (simp add: C_def word_less_def)
qed

lemma temps_mono: "0 \<le> i \<Longrightarrow> i < j \<Longrightarrow> j < n \<Longrightarrow> H i \<le> H j"
proof -
  assume "0 \<le> i" "i < j" "j < n"
  moreover have "sorted_wrt (\<lambda>a b. temp a \<le> temp b) (id_tab T)"
    using falling by (subst successively_conv_sorted_wrt [symmetric]) (auto simp: falling_def transp_def)
  ultimately show "H i \<le> H j"
    using sorted_wrt_nth_less [of "\<lambda>a b. temp a \<le> temp b" "id_tab T" "nat i" "nat j"] by (simp add: n_def H_def)
qed

lemma range: "0 \<le> i \<Longrightarrow> i < n \<Longrightarrow> in_range (H i) \<and> 0 \<le> C i \<and> C i < 2 ^ 12"
proof -
  assume "0 \<le> i" "i < n"
  then have "id_tab T ! nat i \<in> set (id_tab T)" by (simp add: n_def)
  then have "code (id_tab T ! nat i) < 2 ^ 12 \<and> in_range (temp (id_tab T ! nat i))"
    using falling by (auto simp: falling_def list_all_iff)
  then show ?thesis by (simp add: H_def C_def word_less_def)
qed

text \<open>With the code below the first entry the search ends at its segment; at or above, below 1.\<close>

lemma code_search_dec_spec:
  assumes "1 \<le> low" "low \<le> high" "high < n" "uint c < C (low - 1)" "C high \<le> uint c"
  shows "\<exists>m. code_search_dec T c low high = Some m \<and> low \<le> m \<and> m \<le> high
    \<and> uint c < C (m - 1) \<and> C m \<le> uint c"
  using assms
proof (induction "nat (high - low)" arbitrary: low high rule: less_induct)
  case less
  let ?m = "(low + high) sdiv 2"
  have m: "low \<le> ?m" "?m \<le> high" using less.prems(2) mid_bounds by auto
  have em: "entry T ?m = Some (id_tab T ! nat ?m)" "entry T (?m - 1) = Some (id_tab T ! nat (?m - 1))"
    by (rule entry_nth; use m less.prems in linarith)+
  have cmp: "c < code (id_tab T ! nat i) \<longleftrightarrow> uint c < C i" for i
    by (simp add: C_def word_less_def)
  show ?case
  proof (cases "uint c < C ?m")
    case True
    then have "?m < high" using m(2) less.prems(5) by (cases "?m = high") auto
    then have "\<exists>m. code_search_dec T c (?m + 1) high = Some m \<and> ?m + 1 \<le> m \<and> m \<le> high
        \<and> uint c < C (m - 1) \<and> C m \<le> uint c"
      using m less.prems True by (intro less.hyps) auto
    moreover have "code_search_dec T c low high = code_search_dec T c (?m + 1) high"
      using True less.prems(2) by (subst code_search_dec.simps) (simp add: em cmp Let_def)
    ultimately show ?thesis using m by force
  next
    case False
    show ?thesis
    proof (cases "uint c < C (?m - 1)")
      case True
      with False m less.prems(2) show ?thesis
        by (subst code_search_dec.simps) (simp add: em cmp Let_def)
    next
      case down: False
      then have "low < ?m" using m(1) less.prems(4) by (cases "?m = low") auto
      then have "\<exists>m. code_search_dec T c low (?m - 1) = Some m \<and> low \<le> m \<and> m \<le> ?m - 1
          \<and> uint c < C (m - 1) \<and> C m \<le> uint c"
        using m less.prems down by (intro less.hyps) auto
      moreover have "code_search_dec T c low high = code_search_dec T c low (?m - 1)"
        using False down less.prems(2) by (subst code_search_dec.simps) (simp add: em cmp Let_def)
      ultimately show ?thesis using m by force
    qed
  qed
qed

lemma code_search_dec_top:
  assumes "C 0 \<le> uint c" "0 \<le> high" "high < n"
  shows "code_search_dec T c 1 high = Some 0"
  using assms(2,3)
proof (induction "nat high" arbitrary: high rule: less_induct)
  case less
  let ?m = "(1 + high) sdiv 2"
  show ?case
  proof (cases "high = 0")
    case True
    then show ?thesis by (subst code_search_dec.simps) (simp add: signed_divide_int_def)
  next
    case False
    then have m: "1 \<le> ?m" "?m \<le> high" using less.prems mid_bounds [of 1 high] by auto
    have em: "entry T ?m = Some (id_tab T ! nat ?m)" "entry T (?m - 1) = Some (id_tab T ! nat (?m - 1))"
      by (rule entry_nth; use m less.prems in linarith)+
    have ge: "C i \<le> uint c" if "0 \<le> i" "i < n" for i
      using that assms(1) codes_fall [of 0 i] by (cases "i = 0") auto
    have cmp: "\<not> c < code (id_tab T ! nat i)" if "0 \<le> i" "i < n" for i
      using ge [OF that] by (simp add: C_def word_less_def)
    have "code_search_dec T c 1 high = code_search_dec T c 1 (?m - 1)"
      using m less.prems cmp [of ?m] cmp [of "?m - 1"] False
      by (subst code_search_dec.simps) (simp add: em Let_def)
    also have "\<dots> = Some 0" using m less.prems by (intro less.hyps) auto
    finally show ?thesis .
  qed
qed

lemma code_to_temp_reading:
  assumes c: "C (n - 1) < uint (c AND data_mask T)" "uint (c AND data_mask T) < C 0"
  shows "\<exists>m. 1 \<le> m \<and> m < n \<and> uint (c AND data_mask T) < C (m - 1) \<and> C m \<le> uint (c AND data_mask T)
    \<and> rk_tsadcv2_code_to_temp T c t0 =
        Some (on_line 0 (H (m - 1)) (C (m - 1) - C m) (H m) (C (m - 1) - uint (c AND data_mask T)), None)"
proof -
  let ?c = "c AND data_mask T"
  obtain m where m: "code_search_dec T ?c 1 (n - 1) = Some m" "1 \<le> m" "m \<le> n - 1"
    "uint ?c < C (m - 1)" "C m \<le> uint ?c"
    using code_search_dec_spec [of 1 "n - 1" ?c] c facts(4) by auto
  have e: "entry T (m - 1) = Some (id_tab T ! nat (m - 1))" "entry T m = Some (id_tab T ! nat m)"
    "entry T (n - 1) = Some (id_tab T ! nat (n - 1))"
    using m by (auto intro!: entry_nth)
  have "interp_temp ?c (id_tab T ! nat (m - 1)) (id_tab T ! nat m) =
      Some (on_line 0 (H (m - 1)) (C (m - 1) - C m) (H m) (C (m - 1) - uint ?c))"
    unfolding C_def H_def
    by (rule interp_temp_gen)
      (use m range [of "m - 1"] range [of m] temps_mono [of "m - 1" m] in \<open>auto simp: C_def H_def\<close>)
  with m e c facts show ?thesis
    by (intro exI [of _ m])
      (simp add: rk_tsadcv2_code_to_temp_def Let_def n_def C_def word_le_def)
qed

lemma code_to_temp_top:
  assumes "C 0 \<le> uint (c AND data_mask T)"
  shows "rk_tsadcv2_code_to_temp T c t0 = None"
proof -
  have "C (n - 1) < C 0" using facts(4) by (intro codes_fall) auto
  then have "\<not> c AND data_mask T \<le> code (id_tab T ! nat (n - 1))"
    using assms by (simp add: C_def word_le_def)
  moreover have "code_search_dec T (c AND data_mask T) 1 (n - 1) = Some 0"
    using assms facts(4) by (intro code_search_dec_top) auto
  moreover have "entry T (- 1) = None" by (simp add: entry_def)
  moreover have "entry T (n - 1) = Some (id_tab T ! nat (n - 1))" using facts(4) by (intro entry_nth) auto
  ultimately show ?thesis
    using facts by (simp add: rk_tsadcv2_code_to_temp_def Let_def n_def)
qed

end

section \<open>The tables of the chips\<close>

text \<open>The \<open>.table\<close> member of the chips' data, for the chips that have a table.\<close>

definition code_table :: "tsadc_table list \<Rightarrow> u32 \<Rightarrow> u32 \<Rightarrow> chip_tsadc_table" where
  "code_table tab dmask mode =
     \<lparr>id_tab = tab, len_tab = length tab, data_mask = dmask, kNum = 0, bNum = 0, adc_mode = mode\<rparr>"

definition rising_tables :: "chip_tsadc_table list" where
  "rising_tables =
     [code_table rv1108_table TSADCV2_DATA_MASK ADC_INCREMENT,
      code_table rk1808_code_table TSADCV2_DATA_MASK ADC_INCREMENT,
      code_table rk3228_code_table TSADCV3_DATA_MASK ADC_INCREMENT,
      code_table rk3328_code_table TSADCV2_DATA_MASK ADC_INCREMENT,
      code_table rk3368_code_table TSADCV3_DATA_MASK ADC_INCREMENT,
      code_table rk3399_code_table TSADCV3_DATA_MASK ADC_INCREMENT,
      code_table rk3568_code_table TSADCV2_DATA_MASK ADC_INCREMENT]"

definition rk3288_chip_table :: chip_tsadc_table where
  "rk3288_chip_table = code_table rk3288_code_table TSADCV2_DATA_MASK ADC_DECREMENT"

definition rv1126_chip_table :: chip_tsadc_table where
  "rv1126_chip_table = \<lparr>id_tab = [], len_tab = 0, data_mask = TSADCV2_DATA_MASK, kNum = 2263,
     bNum = 2704, adc_mode = ADC_INCREMENT\<rparr>"

lemmas table_consts = code_table_def TSADCV2_DATA_MASK_def TSADCV3_DATA_MASK_def ADC_INCREMENT_def
  ADC_DECREMENT_def MIN_TEMP_def MAX_TEMP_def

interpretation rv1108: rising_table "code_table rv1108_table TSADCV2_DATA_MASK ADC_INCREMENT"
  by unfold_locales (simp add: rising_def table_consts rv1108_table_def)

interpretation rk1808: rising_table "code_table rk1808_code_table TSADCV2_DATA_MASK ADC_INCREMENT"
  by unfold_locales (simp add: rising_def table_consts rk1808_code_table_def)

interpretation rk3228: rising_table "code_table rk3228_code_table TSADCV3_DATA_MASK ADC_INCREMENT"
  by unfold_locales (simp add: rising_def table_consts rk3228_code_table_def)

interpretation rk3328: rising_table "code_table rk3328_code_table TSADCV2_DATA_MASK ADC_INCREMENT"
  by unfold_locales (simp add: rising_def table_consts rk3328_code_table_def)

interpretation rk3368: rising_table "code_table rk3368_code_table TSADCV3_DATA_MASK ADC_INCREMENT"
  by unfold_locales (simp add: rising_def table_consts rk3368_code_table_def)

interpretation rk3399: rising_table "code_table rk3399_code_table TSADCV3_DATA_MASK ADC_INCREMENT"
  by unfold_locales (simp add: rising_def table_consts rk3399_code_table_def)

interpretation rk3568: rising_table "code_table rk3568_code_table TSADCV2_DATA_MASK ADC_INCREMENT"
  by unfold_locales (simp add: rising_def table_consts rk3568_code_table_def)

interpretation rk3288: falling_table rk3288_chip_table
  by unfold_locales (simp add: falling_def rk3288_chip_table_def table_consts rk3288_code_table_def)

lemma rising_tables_rising: "T \<in> set rising_tables \<Longrightarrow> rising T"
  using rv1108.rising rk1808.rising rk3228.rising rk3328.rising rk3368.rising rk3399.rising rk3568.rising
  by (auto simp: rising_tables_def)

section \<open>A reference for the reading, and the properties of the conversion\<close>

text \<open>The temperature of a code by a scan over the entries, without a search.\<close>

fun scan_temp :: "tsadc_table list \<Rightarrow> int \<Rightarrow> int" where
  "scan_temp (p # e # es) x =
     (if x \<le> uint (code e) then on_line (uint (code p)) (temp p) (uint (code e)) (temp e) x
      else scan_temp (e # es) x)"
| "scan_temp _ x = 0"

context rising_table
begin

lemma scan_reading_from:
  assumes "segment m x" "k < nat m"
  shows "scan_temp (drop k (id_tab T)) x = reading m x"
  using assms(2)
proof (induction "nat m - k" arbitrary: k rule: less_induct)
  case less
  have m: "1 \<le> m" "m < n" "C (m - 1) < x" "x \<le> C m" using assms(1) by (simp_all add: segment_def)
  have k: "Suc k < length (id_tab T)" using less.prems m(2) by (simp add: n_def)
  then have d: "drop k (id_tab T) = id_tab T ! k # id_tab T ! Suc k # drop (Suc (Suc k)) (id_tab T)"
    "drop (Suc k) (id_tab T) = id_tab T ! Suc k # drop (Suc (Suc k)) (id_tab T)"
    by (simp_all add: Cons_nth_drop_Suc)
  have code: "uint (code (id_tab T ! Suc k)) = C (int k + 1)" by (simp add: C_def nat_add_distrib)
  show ?case
  proof (cases "Suc k = nat m")
    case True
    then have "int k + 1 = m" "nat (m - 1) = k" using less.prems by auto
    with True m show ?thesis by (simp add: d(1) reading_def C_def H_def)
  next
    case False
    have "C (int k + 1) \<le> C (m - 1)" using less.prems False m by (intro codes_mono) auto
    then have "scan_temp (drop k (id_tab T)) x = scan_temp (drop (Suc k) (id_tab T)) x"
      using m(3) by (simp add: d code)
    also have "\<dots> = reading m x" using less.prems False by (intro less.hyps) auto
    finally show ?thesis .
  qed
qed

lemma scan_reading: "segment m x \<Longrightarrow> scan_temp (id_tab T) x = reading m x"
  using scan_reading_from [of m x 0] by (simp add: segment_def)

lemma code_to_temp_scan:
  "rk_tsadcv2_code_to_temp T c t0 =
     (let x = uint (c AND data_mask T) in
      if x < uint (code (id_tab T ! 1)) then Some (t0, Some EAGAIN)
      else Some (scan_temp (id_tab T) x, None))"
  using code_to_temp_low [of c t0] code_to_temp_reading [of c t0] scan_reading
  by (cases "uint (c AND data_mask T) < C 1") (auto simp: Let_def C_def)

lemma segment_exists: "C 1 \<le> x \<Longrightarrow> x \<le> C (n - 1) \<Longrightarrow> \<exists>m. segment m x"
proof -
  assume x: "C 1 \<le> x" "x \<le> C (n - 1)"
  have b: "0 \<le> C 0" "C 0 < C 1" "C (n - 1) < 2 ^ 12"
    using range [of 0] range [of "n - 1"] codes_rise [of 0 1] facts(4) by auto
  then have u: "uint (word_of_int x :: u32) = x" using x by (intro uint_of_int) auto
  show ?thesis
    using code_search_inc_spec [of 1 "n - 1" "word_of_int x"] x b facts(4)
    by (auto simp: u segment_def)
qed

lemma mask_top: "uint (data_mask T) \<le> C (n - 1)"
  using mask_max [of "- 1"] by simp

lemma scan_mono:
  "C 1 \<le> x \<Longrightarrow> x \<le> y \<Longrightarrow> y \<le> uint (data_mask T) \<Longrightarrow>
   scan_temp (id_tab T) x \<le> scan_temp (id_tab T) y
   \<and> MIN_TEMP \<le> scan_temp (id_tab T) x \<and> scan_temp (id_tab T) y \<le> MAX_TEMP"
proof -
  assume a: "C 1 \<le> x" "x \<le> y" "y \<le> uint (data_mask T)"
  then obtain m m' where m: "segment m x" "segment m' y" using segment_exists [of x] segment_exists [of y] mask_top by auto
  then have "in_range (H (m - 1))" "in_range (H m')"
    using range [of "m - 1"] range [of m'] by (auto simp: segment_def)
  with m reading_mono [OF m a(2)] reading_bounds [OF m(1)] reading_bounds [OF m(2)] show ?thesis
    by (simp add: scan_reading)
qed

lemma temp_to_code_largest:
  assumes "temp (id_tab T ! 1) < t \<and> t \<le> temp (id_tab T ! (length (id_tab T) - 2))"
  shows "\<exists>c. rk_tsadcv2_temp_to_code T t = Some c \<and> c < data_mask T
    \<and> uint (code (id_tab T ! 1)) \<le> uint c \<and> scan_temp (id_tab T) (uint c) \<le> t
    \<and> (\<forall>x. uint c < x \<and> x \<le> uint (data_mask T) \<longrightarrow> t \<le> scan_temp (id_tab T) x)"
proof -
  have i: "nat (n - 2) = length (id_tab T) - 2" by (simp add: n_def nat_diff_distrib)
  obtain c m where c: "rk_tsadcv2_temp_to_code T t = Some c" "segment m (uint c)" "uint c \<le> C (n - 2)"
    "C 1 \<le> uint c" "reading m (uint c) \<le> t" "\<And>m' x. uint c < x \<Longrightarrow> segment m' x \<Longrightarrow> t \<le> reading m' x"
    using temp_to_code_inside [of t] assms by (auto simp: H_def i)
  have ne: "butlast (id_tab T) \<noteq> []" "length (id_tab T) - 2 < length (id_tab T) - 1"
    using facts(4) by (auto simp: n_def simp flip: length_0_conv)
  have "C (n - 2) < uint (data_mask T)"
    using rising ne nth_butlast [of "length (id_tab T) - 2" "id_tab T"]
    by (simp add: rising_def C_def i last_conv_nth numeral_2_eq_2 word_less_def)
  then have "c < data_mask T" using c(3) by (simp add: word_less_def)
  moreover have "t \<le> scan_temp (id_tab T) x" if x: "uint c < x" "x \<le> uint (data_mask T)" for x
  proof -
    obtain m' where "segment m' x" using segment_exists [of x] x c(4) mask_top by auto
    with c(6) [OF x(1) this] scan_reading [OF this] show ?thesis by simp
  qed
  ultimately show ?thesis using c scan_reading [OF c(2)] by (auto simp: C_def)
qed

end

text \<open>The scan for falling codes.\<close>

fun scan_temp_falling :: "tsadc_table list \<Rightarrow> int \<Rightarrow> int" where
  "scan_temp_falling (p # e # es) x =
     (if uint (code e) \<le> x then on_line 0 (temp p) (uint (code p) - uint (code e)) (temp e) (uint (code p) - x)
      else scan_temp_falling (e # es) x)"
| "scan_temp_falling _ x = 0"

context falling_table
begin

lemma scan_falling_from:
  assumes m: "1 \<le> m" "m < n" "x < C (m - 1)" "C m \<le> x" and i: "0 \<le> i" "i \<le> m - 1"
  shows "scan_temp_falling (drop (nat i) (id_tab T)) x = on_line 0 (H (m - 1)) (C (m - 1) - C m) (H m) (C (m - 1) - x)"
  using i
proof (induction "nat (m - 1 - i)" arbitrary: i rule: less_induct)
  case less
  have len: "Suc (nat i) < length (id_tab T)" using less.prems m by (simp add: n_def)
  have drop: "drop (nat i) (id_tab T) = id_tab T ! nat i # id_tab T ! nat (i + 1) # drop (nat (i + 2)) (id_tab T)"
    using len less.prems by (simp add: Cons_nth_drop_Suc [symmetric] nat_add_distrib numeral_2_eq_2)
  have drop': "drop (nat (i + 1)) (id_tab T) = id_tab T ! nat (i + 1) # drop (nat (i + 2)) (id_tab T)"
    using len less.prems by (simp add: Cons_nth_drop_Suc [symmetric] nat_add_distrib numeral_2_eq_2)
  show ?case
  proof (cases "i = m - 1")
    case True
    then show ?thesis unfolding drop using m by (simp add: C_def H_def)
  next
    case False
    then have lt: "i + 1 \<le> m - 1" using less.prems by simp
    have "C (m - 1) \<le> C (i + 1)"
    proof (cases "m - 1 = i + 1")
      case True
      then show ?thesis unfolding True by simp
    next
      case False
      then show ?thesis using codes_fall [of "i + 1" "m - 1"] lt less.prems m by simp
    qed
    then have "\<not> uint (code (id_tab T ! nat (i + 1))) \<le> x" using m by (simp add: C_def)
    then show ?thesis using less.hyps [of "i + 1"] lt less.prems by (simp add: drop drop')
  qed
qed

lemma code_to_temp_falling_scan:
  "rk_tsadcv2_code_to_temp T c t0 =
     (let x = uint (c AND data_mask T) in
      if x \<le> uint (code (id_tab T ! (length (id_tab T) - 1))) then Some (t0, Some EAGAIN)
      else if uint (code (id_tab T ! 0)) \<le> x then None
      else Some (scan_temp_falling (id_tab T) x, None))"
proof -
  have last: "nat (n - 1) = length (id_tab T) - 1" by (simp add: n_def nat_diff_distrib)
  have low: "rk_tsadcv2_code_to_temp T c t0 = Some (t0, Some EAGAIN)" if "uint (c AND data_mask T) \<le> C (n - 1)"
  proof -
    have "entry T (n - 1) = Some (id_tab T ! nat (n - 1))" using facts(4) by (intro entry_nth) auto
    then show ?thesis using that facts by (simp add: rk_tsadcv2_code_to_temp_def Let_def n_def C_def word_le_def)
  qed
  have mid: "rk_tsadcv2_code_to_temp T c t0 = Some (scan_temp_falling (id_tab T) (uint (c AND data_mask T)), None)"
    if x: "C (n - 1) < uint (c AND data_mask T)" "uint (c AND data_mask T) < C 0"
  proof -
    from code_to_temp_reading [OF x] obtain m where m: "1 \<le> m" "m < n" "uint (c AND data_mask T) < C (m - 1)"
      "C m \<le> uint (c AND data_mask T)" "rk_tsadcv2_code_to_temp T c t0 =
        Some (on_line 0 (H (m - 1)) (C (m - 1) - C m) (H m) (C (m - 1) - uint (c AND data_mask T)), None)" by blast
    then show ?thesis using scan_falling_from [OF m(1-4), of 0] by simp
  qed
  show ?thesis
    using low mid code_to_temp_top [of c t0] by (auto simp: Let_def not_le C_def last)
qed

end

text \<open>
  C5: For every chip with a table of codes, of which those of the RK3288 fall and all others rise, the binary search
  with its 32- and 64-bit interpolation computes what the scan computes. A rising code below the second entry, and a
  falling one not above the last, give EAGAIN and leave \<open>*temp\<close> alone. No access is out of bounds and no division is by
  zero, but for a falling code that is not below the first entry (0xfff on the RK3288), for which the entry before
  the table is read.
\<close>

theorem rk_tsadcv2_code_to_temp_scan:
  "(T \<in> set rising_tables \<longrightarrow> rk_tsadcv2_code_to_temp T c t0 =
     (let x = uint (c AND data_mask T) in
      if x < uint (code (id_tab T ! 1)) then Some (t0, Some EAGAIN)
      else Some (scan_temp (id_tab T) x, None)))
   \<and> (T = rk3288_chip_table \<longrightarrow> rk_tsadcv2_code_to_temp T c t0 =
     (let x = uint (c AND data_mask T) in
      if x \<le> uint (code (id_tab T ! (length (id_tab T) - 1))) then Some (t0, Some EAGAIN)
      else if uint (code (id_tab T ! 0)) \<le> x then None
      else Some (scan_temp_falling (id_tab T) x, None)))"
proof (intro conjI impI)
  assume "T \<in> set rising_tables"
  then have "rising_table T" by unfold_locales (rule rising_tables_rising)
  then show "rk_tsadcv2_code_to_temp T c t0 =
     (let x = uint (c AND data_mask T) in
      if x < uint (code (id_tab T ! 1)) then Some (t0, Some EAGAIN)
      else Some (scan_temp (id_tab T) x, None))" by (rule rising_table.code_to_temp_scan)
qed (simp only: rk3288.code_to_temp_falling_scan)

text \<open>
  The readings of a chip with rising codes rise with the code and stay between -40 and 125
  degrees.
\<close>

theorem rk_tsadcv2_code_to_temp_mono:
  assumes T: "T \<in> set rising_tables"
    and r: "rk_tsadcv2_code_to_temp T c t0 = Some (t, None)" "rk_tsadcv2_code_to_temp T c' t0 = Some (t', None)"
    and le: "c AND data_mask T \<le> c' AND data_mask T"
  shows "MIN_TEMP \<le> t \<and> t \<le> t' \<and> t' \<le> MAX_TEMP"
proof -
  have R: "rising_table T" by unfold_locales (rule rising_tables_rising [OF T])
  have "t = scan_temp (id_tab T) (uint (c AND data_mask T))" "uint (code (id_tab T ! 1)) \<le> uint (c AND data_mask T)"
    "t' = scan_temp (id_tab T) (uint (c' AND data_mask T))"
    using r by (auto simp: rising_table.code_to_temp_scan [OF R] Let_def split: if_splits)
  moreover have "uint (c' AND data_mask T) \<le> uint (data_mask T)"
    by (simp add: word_and_le1 flip: word_le_def)
  ultimately show ?thesis
    using rising_table.scan_mono [OF R, of "uint (c AND data_mask T)" "uint (c' AND data_mask T)"] le
    by (simp add: rising_table.C_def [OF R] word_le_def)
qed

text \<open>The range of temperatures a table converts: above the second entry, up to the last but one.\<close>

definition convertible :: "chip_tsadc_table \<Rightarrow> int \<Rightarrow> bool" where
  "convertible T t \<longleftrightarrow> temp (id_tab T ! 1) < t \<and> t \<le> temp (id_tab T ! (length (id_tab T) - 2))"

text \<open>
  \<open>rk_tsadcv2_temp_to_code\<close> of a convertible temperature is the largest code whose reading does
  not exceed it (so the next code already reads at least the temperature), and it is never the
  error value \<open>data_mask\<close>.
\<close>

theorem rk_tsadcv2_temp_to_code_largest:
  assumes "T \<in> set rising_tables" "convertible T t"
  shows "\<exists>c. rk_tsadcv2_temp_to_code T t = Some c \<and> c < data_mask T
    \<and> uint (code (id_tab T ! 1)) \<le> uint c \<and> scan_temp (id_tab T) (uint c) \<le> t
    \<and> (\<forall>x. uint c < x \<and> x \<le> uint (data_mask T) \<longrightarrow> t \<le> scan_temp (id_tab T) x)"
  by (rule rising_table.temp_to_code_largest [unfolded convertible_def [symmetric]])
    (unfold_locales, rule rising_tables_rising, rule assms, rule assms)

lemma rising_outside:
  "T \<in> set rising_tables \<Longrightarrow> t < MIN_TEMP \<or> MAX_TEMP < t \<Longrightarrow> rk_tsadcv2_temp_to_code T t = Some (data_mask T)"
proof -
  assume a: "T \<in> set rising_tables" "t < MIN_TEMP \<or> MAX_TEMP < t"
  have R: "rising_table T" by unfold_locales (rule rising_tables_rising [OF a(1)])
  show ?thesis
    using rising_table.range [OF R, of 0] rising_table.range [OF R, of "rising_table.n T - 2"]
      rising_table.facts(4) [OF R] a(2)
    by (intro rising_table.temp_to_code_outside [OF R]) auto
qed

text \<open>
  A temperature outside the table gives \<open>data_mask\<close>, which the callers take for an error.
\<close>

theorem rk_tsadcv2_temp_to_code_outside:
  assumes "T \<in> set rising_tables" "t < MIN_TEMP \<or> MAX_TEMP < t"
  shows "rk_tsadcv2_temp_to_code T t = Some (data_mask T)"
  by (rule rising_outside [OF assms])

lemma rk3288_facts:
  "rk3288.n = 36" "data_mask rk3288_chip_table = 0xfff" "id_tab rk3288_chip_table = rk3288_code_table"
  "rk3288.C 35 = 0" "rk3288.C 0 = 0xfff"
  unfolding rk3288.n_def rk3288.C_def
  by (simp_all add: rk3288_chip_table_def table_consts rk3288_code_table_def)

text \<open>
  On the RK3288, whose codes fall, a code strictly between the last entry and the first reads
  the temperature on the line of its segment.
\<close>

theorem rk3288_code_to_temp:
  assumes c: "0 < c AND 0xfff" "c AND 0xfff < 0xfff"
  shows "\<exists>m. 0 < m \<and> m < 36
    \<and> (let p = rk3288_code_table ! (m - 1); e = rk3288_code_table ! m; x = c AND 0xfff in
        code e \<le> x \<and> x < code p
      \<and> rk_tsadcv2_code_to_temp rk3288_chip_table c t0 =
          Some (on_line 0 (temp p) (uint (code p) - uint (code e)) (temp e) (uint (code p) - uint x), None))"
proof -
  note n = rk3288_facts
  from c n(4,5) obtain m where m: "1 \<le> m" "m < 36" "uint (c AND 0xfff) < rk3288.C (m - 1)" "rk3288.C m \<le> uint (c AND 0xfff)"
    "rk_tsadcv2_code_to_temp rk3288_chip_table c t0 =
        Some (on_line 0 (rk3288.H (m - 1)) (rk3288.C (m - 1) - rk3288.C m) (rk3288.H m) (rk3288.C (m - 1) - uint (c AND 0xfff)), None)"
    using rk3288.code_to_temp_reading [of c t0] by (auto simp: n word_less_def)
  have "nat (m - 1) = nat m - 1" using m(1) by (simp add: nat_diff_distrib)
  with m show ?thesis
    by (intro exI [of _ "nat m"]) (simp add: Let_def rk3288.C_def rk3288.H_def n word_le_def word_less_def nat_less_iff)
qed

text \<open>
  On the RK3288 the highest code passes the check of incorrect readings, the search ends
  with \<open>mid = 0\<close> and the interpolation reads the entry before the table.
\<close>

theorem rk3288_code_to_temp_reads_before_table:
  "rk_tsadcv2_code_to_temp rk3288_chip_table 0xfff t0 = None
   \<and> code_search_dec rk3288_chip_table 0xfff 1 35 = Some 0 \<and> entry rk3288_chip_table (0 - 1) = None"
  using rk3288.code_to_temp_top [of "0xfff" t0] rk3288.code_search_dec_top [of "0xfff" 35]
  by (simp add: rk3288_facts entry_def)

text \<open>
  The linear formulas of the RV1126 agree: for whole degrees from -40 to 125 the reading of
  the code of a temperature is within half a degree of it.
\<close>

theorem rv1126_linear_roundtrip:
  "list_all (\<lambda>k. case rk_tsadcv2_temp_to_code rv1126_chip_table (1000 * k) of
       None \<Rightarrow> False
     | Some c \<Rightarrow> (case rk_tsadcv2_code_to_temp rv1126_chip_table c 0 of
         Some (t, e) \<Rightarrow> \<bar>t - 1000 * k\<bar> \<le> 500 \<and> e = None | None \<Rightarrow> False)) [- 40..125]"
proof -
  have 1: "rk_tsadcv2_temp_to_code rv1126_chip_table (1000 * k) = Some (word_of_int (k * 2263 sdiv 1000 + 2704))"
    if "k \<in> set [- 40..125]" for k
  proof -
    have "s32 (k * 2263) = k * 2263" using that by (intro s32_id) auto
    moreover have "\<bar>k * 2263 sdiv 1000\<bar> \<le> 300000" using that by (auto simp: signed_divide_int_def sgn_if abs_if)
    then have "s32 (k * 2263 sdiv 1000 + 2704) = k * 2263 sdiv 1000 + 2704" by (intro s32_id) auto
    moreover have "1000 * k sdiv 1000 = k" by (simp add: signed_divide_int_def abs_mult sgn_mult abs_sgn)
    ultimately show ?thesis by (simp add: rk_tsadcv2_temp_to_code_def rv1126_chip_table_def)
  qed
  have 2: "rk_tsadcv2_code_to_temp rv1126_chip_table (word_of_int (v + 2704)) 0
      = Some (v * 10000 sdiv 2263 * 100, if MIN_TEMP \<le> v * 10000 sdiv 2263 * 100 \<and> v * 10000 sdiv 2263 * 100 \<le> MAX_TEMP
          then None else Some EAGAIN)" if v: "\<bar>v\<bar> \<le> 300" for v
  proof -
    have "sint (word_of_int (v + 2704) :: u32) = v + 2704"
      using v by (simp only: s32_def [symmetric]) (intro s32_id; simp)
    moreover have "s32 v = v" "s32 (v * 10000) = v * 10000" using v by (auto intro!: s32_id)
    moreover have "\<bar>v * 10000 sdiv 2263\<bar> \<le> 3000000" using v by (auto simp: signed_divide_int_def sgn_if abs_if)
    then have "s32 (v * 10000 sdiv 2263 * 100) = v * 10000 sdiv 2263 * 100" by (intro s32_id) auto
    ultimately show ?thesis
      by (simp add: rk_tsadcv2_code_to_temp_def rv1126_chip_table_def Let_def not_less)
  qed
  have "list_all (\<lambda>k. \<bar>k * 2263 sdiv 1000\<bar> \<le> 300
      \<and> (let t = k * 2263 sdiv 1000 * 10000 sdiv 2263 * 100 in
         MIN_TEMP \<le> t \<and> t \<le> MAX_TEMP \<and> \<bar>t - 1000 * k\<bar> \<le> 500)) [- 40..125]"
    by code_simp
  then have 3: "\<bar>k * 2263 sdiv 1000\<bar> \<le> 300"
      "MIN_TEMP \<le> k * 2263 sdiv 1000 * 10000 sdiv 2263 * 100 \<and> k * 2263 sdiv 1000 * 10000 sdiv 2263 * 100 \<le> MAX_TEMP"
      "\<bar>k * 2263 sdiv 1000 * 10000 sdiv 2263 * 100 - 1000 * k\<bar> \<le> 500" if "k \<in> set [- 40..125]" for k
    using that unfolding list_all_iff Let_def by blast+
  show ?thesis
    unfolding list_all_iff
  proof
    fix k :: int assume k: "k \<in> set [- 40..125]"
    show "case rk_tsadcv2_temp_to_code rv1126_chip_table (1000 * k) of None \<Rightarrow> False
       | Some c \<Rightarrow> (case rk_tsadcv2_code_to_temp rv1126_chip_table c 0 of
           Some (t, e) \<Rightarrow> \<bar>t - 1000 * k\<bar> \<le> 500 \<and> e = None | None \<Rightarrow> False)"
      unfolding 1 [OF k] option.case 2 [OF 3(1) [OF k]] prod.case
      using 3(2,3) [OF k] by simp
  qed
qed

section \<open>Witnesses\<close>

theorem rk_tsadcv2_code_to_temp_scan_witness:
  "rk_tsadcv2_code_to_temp (code_table rk3568_code_table TSADCV2_DATA_MASK ADC_INCREMENT) 2000 0 = Some (21250, None)
   \<and> rk_tsadcv2_code_to_temp rk3288_chip_table 3728 0 = Some (scan_temp_falling rk3288_code_table 3728, None)
   \<and> rk_tsadcv2_code_to_temp rk3288_chip_table 0xfff 0 = None"
  using rk_tsadcv2_code_to_temp_scan [where T = "code_table rk3568_code_table TSADCV2_DATA_MASK ADC_INCREMENT" and c = 2000 and ?t0.0 = 0]
    rk_tsadcv2_code_to_temp_scan [where T = rk3288_chip_table and c = 3728 and ?t0.0 = 0]
    rk_tsadcv2_code_to_temp_scan [where T = rk3288_chip_table and c = "0xfff" and ?t0.0 = 0]
  by (simp add: rising_tables_def Let_def table_consts rk3568_code_table_def on_line_def rk3288_chip_table_def
      rk3288_code_table_def)

theorem rk_tsadcv2_code_to_temp_mono_witness:
  "MIN_TEMP \<le> 21250 \<and> (21250 :: int) \<le> 36111 \<and> 36111 \<le> MAX_TEMP
   \<and> rk_tsadcv2_code_to_temp (code_table rk3568_code_table TSADCV2_DATA_MASK ADC_INCREMENT) 2000 0 = Some (21250, None)"
proof -
  let ?T = "code_table rk3568_code_table TSADCV2_DATA_MASK ADC_INCREMENT"
  have r: "rk_tsadcv2_code_to_temp ?T 2000 0 = Some (21250, None)" "rk_tsadcv2_code_to_temp ?T 2100 0 = Some (36111, None)"
    unfolding rk3568.code_to_temp_scan
    by (simp_all add: Let_def table_consts rk3568_code_table_def on_line_def)
  have "?T \<in> set rising_tables" by (simp add: rising_tables_def)
  from rk_tsadcv2_code_to_temp_mono [OF this r] r(1) show ?thesis by (simp add: table_consts)
qed

theorem rk_tsadcv2_temp_to_code_largest_witness:
  "\<exists>c. rk_tsadcv2_temp_to_code (code_table rk3568_code_table TSADCV2_DATA_MASK ADC_INCREMENT) 21250 = Some c \<and> c < 0xfff"
  using rk_tsadcv2_temp_to_code_largest [of "code_table rk3568_code_table TSADCV2_DATA_MASK ADC_INCREMENT" 21250]
  by (auto simp: rising_tables_def convertible_def table_consts rk3568_code_table_def)

theorem rk_tsadcv2_temp_to_code_outside_witness:
  "rk_tsadcv2_temp_to_code (code_table rk3399_code_table TSADCV3_DATA_MASK ADC_INCREMENT) 130000 = Some 0x3ff"
  using rk_tsadcv2_temp_to_code_outside [of "code_table rk3399_code_table TSADCV3_DATA_MASK ADC_INCREMENT" 130000]
  by (simp add: rising_tables_def table_consts)

theorem rk3288_code_to_temp_witness:
  "\<exists>t. rk_tsadcv2_code_to_temp rk3288_chip_table 3728 0 = Some (t, None)"
  using rk3288_code_to_temp [of 3728 0] by (auto simp: Let_def)

end
