(* ===== verification/Thermal.thy ===== *)
theory Thermal
  imports Thermal_Conv
begin

text \<open>
  The TSADC controller and the thermal driver (\<open>rockchip_thermal.c\<close>): initialising the
  controller of each generation, alarms and hardware shutdown, the chips' data, and the driver's
  probe, suspend, resume, shutdown and sensor operations. The hardware is the parameter \<open>P\<close>;
  a call through an error pointer, which the kernel does not survive, is \<open>None\<close>. Delays are no
  step of the model.
\<close>

section \<open>Registers\<close>

definition TSADCV2_USER_CON :: u32 where "TSADCV2_USER_CON = 0x00"
definition TSADCV2_AUTO_CON :: u32 where "TSADCV2_AUTO_CON = 0x04"
definition TSADCV2_INT_EN :: u32 where "TSADCV2_INT_EN = 0x08"
definition TSADCV2_INT_PD :: u32 where "TSADCV2_INT_PD = 0x0c"
definition TSADCV2_DATA :: "nat \<Rightarrow> u32" where "TSADCV2_DATA chn = 0x20 + of_nat chn * 0x04"
definition TSADCV2_COMP_INT :: "nat \<Rightarrow> u32" where "TSADCV2_COMP_INT chn = 0x30 + of_nat chn * 0x04"
definition TSADCV2_COMP_SHUT :: "nat \<Rightarrow> u32" where "TSADCV2_COMP_SHUT chn = 0x40 + of_nat chn * 0x04"
definition TSADCV2_HIGHT_INT_DEBOUNCE :: u32 where "TSADCV2_HIGHT_INT_DEBOUNCE = 0x60"
definition TSADCV2_HIGHT_TSHUT_DEBOUNCE :: u32 where "TSADCV2_HIGHT_TSHUT_DEBOUNCE = 0x64"
definition TSADCV2_AUTO_PERIOD :: u32 where "TSADCV2_AUTO_PERIOD = 0x68"
definition TSADCV2_AUTO_PERIOD_HT :: u32 where "TSADCV2_AUTO_PERIOD_HT = 0x6c"

definition TSADCV2_AUTO_EN :: u32 where "TSADCV2_AUTO_EN = BIT 0"
definition TSADCV2_AUTO_SRC_EN :: "nat \<Rightarrow> u32" where "TSADCV2_AUTO_SRC_EN chn = BIT (4 + chn)"
definition TSADCV2_AUTO_TSHUT_POLARITY_HIGH :: u32 where "TSADCV2_AUTO_TSHUT_POLARITY_HIGH = BIT 8"
definition TSADCV3_AUTO_Q_SEL_EN :: u32 where "TSADCV3_AUTO_Q_SEL_EN = BIT 1"
definition TSADCV2_INT_SRC_EN :: "nat \<Rightarrow> u32" where "TSADCV2_INT_SRC_EN chn = BIT chn"
definition TSADCV2_SHUT_2GPIO_SRC_EN :: "nat \<Rightarrow> u32" where "TSADCV2_SHUT_2GPIO_SRC_EN chn = BIT (4 + chn)"
definition TSADCV2_SHUT_2CRU_SRC_EN :: "nat \<Rightarrow> u32" where "TSADCV2_SHUT_2CRU_SRC_EN chn = BIT (8 + chn)"
definition TSADCV2_INT_PD_CLEAR_MASK :: u32 where "TSADCV2_INT_PD_CLEAR_MASK = NOT (BIT 8)"
definition TSADCV3_INT_PD_CLEAR_MASK :: u32 where "TSADCV3_INT_PD_CLEAR_MASK = NOT (BIT 16)"

definition TSADCV2_HIGHT_INT_DEBOUNCE_COUNT :: u32 where "TSADCV2_HIGHT_INT_DEBOUNCE_COUNT = 4"
definition TSADCV2_HIGHT_TSHUT_DEBOUNCE_COUNT :: u32 where "TSADCV2_HIGHT_TSHUT_DEBOUNCE_COUNT = 4"
definition TSADCV2_AUTO_PERIOD_TIME :: u32 where "TSADCV2_AUTO_PERIOD_TIME = 250"
definition TSADCV2_AUTO_PERIOD_HT_TIME :: u32 where "TSADCV2_AUTO_PERIOD_HT_TIME = 50"
definition TSADCV3_AUTO_PERIOD_TIME :: u32 where "TSADCV3_AUTO_PERIOD_TIME = 1875"
definition TSADCV3_AUTO_PERIOD_HT_TIME :: u32 where "TSADCV3_AUTO_PERIOD_HT_TIME = 1875"
definition TSADCV5_AUTO_PERIOD_TIME :: u32 where "TSADCV5_AUTO_PERIOD_TIME = 1622"
definition TSADCV5_AUTO_PERIOD_HT_TIME :: u32 where "TSADCV5_AUTO_PERIOD_HT_TIME = 1622"
definition TSADCV2_USER_INTER_PD_SOC :: u32 where "TSADCV2_USER_INTER_PD_SOC = 0x340"
definition TSADCV5_USER_INTER_PD_SOC :: u32 where "TSADCV5_USER_INTER_PD_SOC = 0xfc0"

definition GRF_SARADC_TESTBIT :: u32 where "GRF_SARADC_TESTBIT = 0x0e644"
definition GRF_TSADC_TESTBIT_L :: u32 where "GRF_TSADC_TESTBIT_L = 0x0e648"
definition GRF_TSADC_TESTBIT_H :: u32 where "GRF_TSADC_TESTBIT_H = 0x0e64c"
definition PX30_GRF_SOC_CON2 :: u32 where "PX30_GRF_SOC_CON2 = 0x0408"
definition RK1808_BUS_GRF_SOC_CON0 :: u32 where "RK1808_BUS_GRF_SOC_CON0 = 0x0400"
definition RK3568_GRF_TSADC_CON :: u32 where "RK3568_GRF_TSADC_CON = 0x0600"
definition RK3568_GRF_TSADC_ANA_REG0 :: u32 where "RK3568_GRF_TSADC_ANA_REG0 = push_bit 0 0x10001"
definition RK3568_GRF_TSADC_ANA_REG1 :: u32 where "RK3568_GRF_TSADC_ANA_REG1 = push_bit 1 0x10001"
definition RK3568_GRF_TSADC_ANA_REG2 :: u32 where "RK3568_GRF_TSADC_ANA_REG2 = push_bit 2 0x10001"
definition RK3568_GRF_TSADC_TSEN :: u32 where "RK3568_GRF_TSADC_TSEN = push_bit 8 0x10001"
definition RV1126_GRF0_TSADC_CON :: u32 where "RV1126_GRF0_TSADC_CON = 0x0100"
definition RV1126_GRF0_TSADC_TRM :: u32 where "RV1126_GRF0_TSADC_TRM = push_bit 0 0xff0077"
definition RV1126_GRF0_TSADC_SHUT_2CRU :: u32 where "RV1126_GRF0_TSADC_SHUT_2CRU = push_bit 10 0x30003"
definition RV1126_GRF0_TSADC_SHUT_2GPIO :: u32 where "RV1126_GRF0_TSADC_SHUT_2GPIO = push_bit 12 0x70007"
definition GRF_SARADC_TESTBIT_ON :: u32 where "GRF_SARADC_TESTBIT_ON = push_bit 2 0x10001"
definition GRF_TSADC_TESTBIT_H_ON :: u32 where "GRF_TSADC_TESTBIT_H_ON = push_bit 2 0x10001"
definition GRF_TSADC_BANDGAP_CHOPPER_EN :: u32 where "GRF_TSADC_BANDGAP_CHOPPER_EN = push_bit 2 0x10001"
definition GRF_TSADC_VCM_EN_L :: u32 where "GRF_TSADC_VCM_EN_L = push_bit 7 0x10001"
definition GRF_TSADC_VCM_EN_H :: u32 where "GRF_TSADC_VCM_EN_H = push_bit 7 0x10001"
definition GRF_CON_TSADC_CH_INV :: u32 where "GRF_CON_TSADC_CH_INV = push_bit 1 0x10001"

definition TSHUT_MODE_CRU :: u32 where "TSHUT_MODE_CRU = 0"
definition TSHUT_MODE_OTP :: u32 where "TSHUT_MODE_OTP = 1"
definition TSHUT_LOW_ACTIVE :: u32 where "TSHUT_LOW_ACTIVE = 0"
definition TSHUT_HIGH_ACTIVE :: u32 where "TSHUT_HIGH_ACTIVE = 1"
definition INT_MAX :: int where "INT_MAX = 2147483647"

lemmas tsadc_regs = TSADCV2_USER_CON_def TSADCV2_AUTO_CON_def TSADCV2_INT_EN_def TSADCV2_INT_PD_def
  TSADCV2_DATA_def TSADCV2_COMP_INT_def TSADCV2_COMP_SHUT_def TSADCV2_HIGHT_INT_DEBOUNCE_def
  TSADCV2_HIGHT_TSHUT_DEBOUNCE_def TSADCV2_AUTO_PERIOD_def TSADCV2_AUTO_PERIOD_HT_def

section \<open>The controller\<close>

text \<open>
  The hardware parameter: the controller's registers, the system's general register file, the
  reset line. \<open>grf_ok\<close> below says that the register map of the latter was found.
\<close>

record 'hw tsadc_port =
  readl_relaxed :: "'hw \<Rightarrow> u32 \<Rightarrow> u32"
  writel_relaxed :: "'hw \<Rightarrow> u32 \<Rightarrow> u32 \<Rightarrow> 'hw"
  regmap_write :: "'hw \<Rightarrow> u32 \<Rightarrow> u32 \<Rightarrow> 'hw"
  pulse_reset :: "'hw \<Rightarrow> 'hw"

fun writes :: "('hw \<Rightarrow> u32 \<Rightarrow> u32 \<Rightarrow> 'hw) \<Rightarrow> (u32 \<times> u32) list \<Rightarrow> 'hw \<Rightarrow> 'hw" where
  "writes w [] h = h"
| "writes w ((off, v) # ws) h = writes w ws (w h off v)"

definition polarity_con :: "u32 \<Rightarrow> u32" where
  "polarity_con p =
     (if p = TSHUT_HIGH_ACTIVE then 0 OR TSADCV2_AUTO_TSHUT_POLARITY_HIGH
      else 0 AND NOT TSADCV2_AUTO_TSHUT_POLARITY_HIGH)"

definition rk_tsadcv2_initialize :: "'hw tsadc_port \<Rightarrow> bool \<Rightarrow> u32 \<Rightarrow> 'hw \<Rightarrow> 'hw option" where
  "rk_tsadcv2_initialize P grf_ok polarity h =
     Some (writes (writel_relaxed P)
       [(TSADCV2_AUTO_CON, polarity_con polarity),
        (TSADCV2_AUTO_PERIOD, TSADCV2_AUTO_PERIOD_TIME),
        (TSADCV2_HIGHT_INT_DEBOUNCE, TSADCV2_HIGHT_INT_DEBOUNCE_COUNT),
        (TSADCV2_AUTO_PERIOD_HT, TSADCV2_AUTO_PERIOD_HT_TIME),
        (TSADCV2_HIGHT_TSHUT_DEBOUNCE, TSADCV2_HIGHT_TSHUT_DEBOUNCE_COUNT)] h)"

definition rk_tsadcv3_initialize :: "'hw tsadc_port \<Rightarrow> bool \<Rightarrow> u32 \<Rightarrow> 'hw \<Rightarrow> 'hw option" where
  "rk_tsadcv3_initialize P grf_ok polarity h =
     (let h1 = (if \<not> grf_ok then
          writes (writel_relaxed P)
            [(TSADCV2_USER_CON, TSADCV2_USER_INTER_PD_SOC),
             (TSADCV2_AUTO_PERIOD, TSADCV2_AUTO_PERIOD_TIME),
             (TSADCV2_HIGHT_INT_DEBOUNCE, TSADCV2_HIGHT_INT_DEBOUNCE_COUNT),
             (TSADCV2_AUTO_PERIOD_HT, TSADCV2_AUTO_PERIOD_HT_TIME),
             (TSADCV2_HIGHT_TSHUT_DEBOUNCE, TSADCV2_HIGHT_TSHUT_DEBOUNCE_COUNT)] h
        else
          writes (writel_relaxed P)
            [(TSADCV2_AUTO_PERIOD, TSADCV3_AUTO_PERIOD_TIME),
             (TSADCV2_HIGHT_INT_DEBOUNCE, TSADCV2_HIGHT_INT_DEBOUNCE_COUNT),
             (TSADCV2_AUTO_PERIOD_HT, TSADCV3_AUTO_PERIOD_HT_TIME),
             (TSADCV2_HIGHT_TSHUT_DEBOUNCE, TSADCV2_HIGHT_TSHUT_DEBOUNCE_COUNT)]
            (writes (regmap_write P)
               [(GRF_TSADC_TESTBIT_L, GRF_TSADC_VCM_EN_L), (GRF_TSADC_TESTBIT_H, GRF_TSADC_VCM_EN_H),
                (GRF_SARADC_TESTBIT, GRF_SARADC_TESTBIT_ON), (GRF_TSADC_TESTBIT_H, GRF_TSADC_TESTBIT_H_ON)] h))
      in Some (writel_relaxed P h1 TSADCV2_AUTO_CON (polarity_con polarity)))"

text \<open>Version 4 writes to the register file without asking whether it was found.\<close>

definition rk_tsadcv4_initialize :: "'hw tsadc_port \<Rightarrow> bool \<Rightarrow> u32 \<Rightarrow> 'hw \<Rightarrow> 'hw option" where
  "rk_tsadcv4_initialize P grf_ok polarity h =
     Option.bind (rk_tsadcv2_initialize P grf_ok polarity h) (\<lambda>h1.
       if grf_ok then Some (regmap_write P h1 PX30_GRF_SOC_CON2 GRF_CON_TSADC_CH_INV) else None)"

definition rk_tsadcv5_initialize :: "'hw tsadc_port \<Rightarrow> bool \<Rightarrow> u32 \<Rightarrow> 'hw \<Rightarrow> 'hw option" where
  "rk_tsadcv5_initialize P grf_ok polarity h =
     (let h1 = writes (writel_relaxed P)
            [(TSADCV2_AUTO_CON, polarity_con polarity),
             (TSADCV2_USER_CON, TSADCV5_USER_INTER_PD_SOC),
             (TSADCV2_AUTO_PERIOD, TSADCV5_AUTO_PERIOD_TIME),
             (TSADCV2_HIGHT_INT_DEBOUNCE, TSADCV2_HIGHT_INT_DEBOUNCE_COUNT),
             (TSADCV2_AUTO_PERIOD_HT, TSADCV5_AUTO_PERIOD_HT_TIME),
             (TSADCV2_HIGHT_TSHUT_DEBOUNCE, TSADCV2_HIGHT_TSHUT_DEBOUNCE_COUNT)] h
      in Some (if grf_ok then regmap_write P h1 RK1808_BUS_GRF_SOC_CON0 GRF_TSADC_BANDGAP_CHOPPER_EN else h1))"

definition rk_tsadcv6_initialize :: "'hw tsadc_port \<Rightarrow> bool \<Rightarrow> u32 \<Rightarrow> 'hw \<Rightarrow> 'hw option" where
  "rk_tsadcv6_initialize P grf_ok polarity h =
     Option.bind (rk_tsadcv2_initialize P grf_ok polarity h) (\<lambda>h1.
       Some (if grf_ok then regmap_write P h1 RV1126_GRF0_TSADC_CON RV1126_GRF0_TSADC_TRM else h1))"

definition rk_tsadcv7_initialize :: "'hw tsadc_port \<Rightarrow> bool \<Rightarrow> u32 \<Rightarrow> 'hw \<Rightarrow> 'hw option" where
  "rk_tsadcv7_initialize P grf_ok polarity h =
     (let h1 = writes (writel_relaxed P)
            [(TSADCV2_USER_CON, TSADCV5_USER_INTER_PD_SOC),
             (TSADCV2_AUTO_PERIOD, TSADCV5_AUTO_PERIOD_TIME),
             (TSADCV2_HIGHT_INT_DEBOUNCE, TSADCV2_HIGHT_INT_DEBOUNCE_COUNT),
             (TSADCV2_AUTO_PERIOD_HT, TSADCV5_AUTO_PERIOD_HT_TIME),
             (TSADCV2_HIGHT_TSHUT_DEBOUNCE, TSADCV2_HIGHT_TSHUT_DEBOUNCE_COUNT),
             (TSADCV2_AUTO_CON, polarity_con polarity)] h
      in Some (if grf_ok
               then writes (regmap_write P)
                 [(RK3568_GRF_TSADC_CON, RK3568_GRF_TSADC_TSEN), (RK3568_GRF_TSADC_CON, RK3568_GRF_TSADC_ANA_REG0),
                  (RK3568_GRF_TSADC_CON, RK3568_GRF_TSADC_ANA_REG1), (RK3568_GRF_TSADC_CON, RK3568_GRF_TSADC_ANA_REG2)] h1
               else h1))"

definition rk_tsadcv2_irq_ack :: "'hw tsadc_port \<Rightarrow> 'hw \<Rightarrow> 'hw" where
  "rk_tsadcv2_irq_ack P h =
     writel_relaxed P h TSADCV2_INT_PD (readl_relaxed P h TSADCV2_INT_PD AND TSADCV2_INT_PD_CLEAR_MASK)"

definition rk_tsadcv3_irq_ack :: "'hw tsadc_port \<Rightarrow> 'hw \<Rightarrow> 'hw" where
  "rk_tsadcv3_irq_ack P h =
     writel_relaxed P h TSADCV2_INT_PD (readl_relaxed P h TSADCV2_INT_PD AND TSADCV3_INT_PD_CLEAR_MASK)"

definition rk_tsadcv2_control :: "'hw tsadc_port \<Rightarrow> bool \<Rightarrow> 'hw \<Rightarrow> 'hw" where
  "rk_tsadcv2_control P enable h =
     (let val = readl_relaxed P h TSADCV2_AUTO_CON
      in writel_relaxed P h TSADCV2_AUTO_CON
           (if enable then val OR TSADCV2_AUTO_EN else val AND NOT TSADCV2_AUTO_EN))"

definition rk_tsadcv3_control :: "'hw tsadc_port \<Rightarrow> bool \<Rightarrow> 'hw \<Rightarrow> 'hw" where
  "rk_tsadcv3_control P enable h =
     (let val = readl_relaxed P h TSADCV2_AUTO_CON
      in writel_relaxed P h TSADCV2_AUTO_CON
           (if enable then val OR (TSADCV2_AUTO_EN OR TSADCV3_AUTO_Q_SEL_EN)
            else val AND NOT TSADCV2_AUTO_EN))"

definition rk_tsadcv2_get_temp ::
  "'hw tsadc_port \<Rightarrow> chip_tsadc_table \<Rightarrow> nat \<Rightarrow> 'hw \<Rightarrow> int \<Rightarrow> (int \<times> errno option) option" where
  "rk_tsadcv2_get_temp P table chn h t0 =
     rk_tsadcv2_code_to_temp table (readl_relaxed P h (TSADCV2_DATA chn)) t0"

definition rk_tsadcv2_alarm_temp ::
  "'hw tsadc_port \<Rightarrow> chip_tsadc_table \<Rightarrow> nat \<Rightarrow> 'hw \<Rightarrow> int \<Rightarrow> ('hw \<times> errno option) option" where
  "rk_tsadcv2_alarm_temp P table chn h t =
     (if t = INT_MAX then
        let int_clr = readl_relaxed P h TSADCV2_INT_EN AND NOT (TSADCV2_INT_SRC_EN chn)
        in Some (writel_relaxed P h TSADCV2_INT_EN int_clr, None)
      else
        Option.bind (rk_tsadcv2_temp_to_code table t) (\<lambda>alarm_value.
          if alarm_value = data_mask table then Some (h, Some ERANGE)
          else
            let h1 = writel_relaxed P h (TSADCV2_COMP_INT chn) (alarm_value AND data_mask table);
                int_en = readl_relaxed P h1 TSADCV2_INT_EN OR TSADCV2_INT_SRC_EN chn
            in Some (writel_relaxed P h1 TSADCV2_INT_EN int_en, None)))"

definition rk_tsadcv2_tshut_temp ::
  "'hw tsadc_port \<Rightarrow> chip_tsadc_table \<Rightarrow> nat \<Rightarrow> 'hw \<Rightarrow> int \<Rightarrow> ('hw \<times> errno option) option" where
  "rk_tsadcv2_tshut_temp P table chn h t =
     Option.bind (rk_tsadcv2_temp_to_code table t) (\<lambda>tshut_value.
       if tshut_value = data_mask table then Some (h, Some ERANGE)
       else
         let h1 = writel_relaxed P h (TSADCV2_COMP_SHUT chn) tshut_value;
             val = readl_relaxed P h1 TSADCV2_AUTO_CON
         in Some (writel_relaxed P h1 TSADCV2_AUTO_CON (val OR TSADCV2_AUTO_SRC_EN chn), None))"

text \<open>The new value of \<open>INT_EN\<close> for a shutdown mode.\<close>

definition tshut_int_en :: "nat \<Rightarrow> u32 \<Rightarrow> u32 \<Rightarrow> u32" where
  "tshut_int_en chn mode val =
     (if mode = TSHUT_MODE_OTP
      then (val AND NOT (TSADCV2_SHUT_2CRU_SRC_EN chn)) OR TSADCV2_SHUT_2GPIO_SRC_EN chn
      else (val AND NOT (TSADCV2_SHUT_2GPIO_SRC_EN chn)) OR TSADCV2_SHUT_2CRU_SRC_EN chn)"

definition rk_tsadcv2_tshut_mode :: "'hw tsadc_port \<Rightarrow> bool \<Rightarrow> nat \<Rightarrow> u32 \<Rightarrow> 'hw \<Rightarrow> 'hw" where
  "rk_tsadcv2_tshut_mode P grf_ok chn mode h =
     writel_relaxed P h TSADCV2_INT_EN (tshut_int_en chn mode (readl_relaxed P h TSADCV2_INT_EN))"

definition rk_tsadcv3_tshut_mode :: "'hw tsadc_port \<Rightarrow> bool \<Rightarrow> nat \<Rightarrow> u32 \<Rightarrow> 'hw \<Rightarrow> 'hw" where
  "rk_tsadcv3_tshut_mode P grf_ok chn mode h =
     (let val = readl_relaxed P h TSADCV2_INT_EN;
          h1 = (if grf_ok
                then regmap_write P h RV1126_GRF0_TSADC_CON
                       (if mode = TSHUT_MODE_OTP then RV1126_GRF0_TSADC_SHUT_2GPIO
                        else RV1126_GRF0_TSADC_SHUT_2CRU)
                else h)
      in writel_relaxed P h1 TSADCV2_INT_EN (tshut_int_en chn mode val))"

text \<open>\<open>base_code\<close> is unsigned, the differences wrap and the result is read as an \<open>int\<close>.\<close>

definition rk_tsadcv1_get_trim_code :: "chip_tsadc_table \<Rightarrow> int \<Rightarrow> int \<Rightarrow> int" where
  "rk_tsadcv1_get_trim_code table c trim_base =
     (let base_code = (word_of_int (s32 (trim_base * kNum table) sdiv 1000 + bNum table) :: u32)
      in sint ((word_of_int c :: u32) - base_code - 10))"

definition rk_tsadcv1_trim_temp :: "int \<Rightarrow> int" where
  "rk_tsadcv1_trim_temp trim = s32 (trim * 500)"

section \<open>The chips\<close>

text \<open>
  \<open>struct rockchip_tsadc_chip\<close>. The methods take the hardware parameter first; a method that is
  NULL in the source is \<open>None\<close>.
\<close>

record 'hw tsadc_chip =
  chn_id :: "nat list"
  chn_num :: nat
  chip_tshut_temp :: int
  chip_tshut_mode :: u32
  chip_tshut_polarity :: u32
  initialize :: "'hw tsadc_port \<Rightarrow> bool \<Rightarrow> u32 \<Rightarrow> 'hw \<Rightarrow> 'hw option"
  irq_ack :: "'hw tsadc_port \<Rightarrow> 'hw \<Rightarrow> 'hw"
  control :: "'hw tsadc_port \<Rightarrow> bool \<Rightarrow> 'hw \<Rightarrow> 'hw"
  get_temp :: "'hw tsadc_port \<Rightarrow> chip_tsadc_table \<Rightarrow> nat \<Rightarrow> 'hw \<Rightarrow> int \<Rightarrow> (int \<times> errno option) option"
  set_alarm_temp :: "'hw tsadc_port \<Rightarrow> chip_tsadc_table \<Rightarrow> nat \<Rightarrow> 'hw \<Rightarrow> int \<Rightarrow> ('hw \<times> errno option) option"
  set_tshut_temp :: "'hw tsadc_port \<Rightarrow> chip_tsadc_table \<Rightarrow> nat \<Rightarrow> 'hw \<Rightarrow> int \<Rightarrow> ('hw \<times> errno option) option"
  set_tshut_mode :: "'hw tsadc_port \<Rightarrow> bool \<Rightarrow> nat \<Rightarrow> u32 \<Rightarrow> 'hw \<Rightarrow> 'hw"
  get_trim_code :: "(chip_tsadc_table \<Rightarrow> int \<Rightarrow> int \<Rightarrow> int) option"
  trim_temp :: "(int \<Rightarrow> int) option"
  table :: chip_tsadc_table

definition px30_tsadc_data :: "'hw tsadc_chip" where
  "px30_tsadc_data = \<lparr>chn_id = [0, 1], chn_num = 2, chip_tshut_temp = 95000,
     chip_tshut_mode = TSHUT_MODE_CRU, chip_tshut_polarity = 0,
     initialize = rk_tsadcv4_initialize, irq_ack = rk_tsadcv3_irq_ack, control = rk_tsadcv3_control,
     get_temp = rk_tsadcv2_get_temp, set_alarm_temp = rk_tsadcv2_alarm_temp,
     set_tshut_temp = rk_tsadcv2_tshut_temp, set_tshut_mode = rk_tsadcv2_tshut_mode,
     get_trim_code = None, trim_temp = None,
     table = code_table rk3328_code_table TSADCV2_DATA_MASK ADC_INCREMENT\<rparr>"

definition rv1108_tsadc_data :: "'hw tsadc_chip" where
  "rv1108_tsadc_data = \<lparr>chn_id = [0, 0], chn_num = 1, chip_tshut_temp = 95000,
     chip_tshut_mode = TSHUT_MODE_OTP, chip_tshut_polarity = TSHUT_LOW_ACTIVE,
     initialize = rk_tsadcv2_initialize, irq_ack = rk_tsadcv3_irq_ack, control = rk_tsadcv3_control,
     get_temp = rk_tsadcv2_get_temp, set_alarm_temp = rk_tsadcv2_alarm_temp,
     set_tshut_temp = rk_tsadcv2_tshut_temp, set_tshut_mode = rk_tsadcv2_tshut_mode,
     get_trim_code = None, trim_temp = None,
     table = code_table rv1108_table TSADCV2_DATA_MASK ADC_INCREMENT\<rparr>"

definition rv1126_tsadc_data :: "'hw tsadc_chip" where
  "rv1126_tsadc_data = \<lparr>chn_id = [0, 0], chn_num = 1, chip_tshut_temp = 95000,
     chip_tshut_mode = TSHUT_MODE_CRU, chip_tshut_polarity = TSHUT_LOW_ACTIVE,
     initialize = rk_tsadcv6_initialize, irq_ack = rk_tsadcv3_irq_ack, control = rk_tsadcv2_control,
     get_temp = rk_tsadcv2_get_temp, set_alarm_temp = rk_tsadcv2_alarm_temp,
     set_tshut_temp = rk_tsadcv2_tshut_temp, set_tshut_mode = rk_tsadcv3_tshut_mode,
     get_trim_code = Some rk_tsadcv1_get_trim_code, trim_temp = Some rk_tsadcv1_trim_temp,
     table = rv1126_chip_table\<rparr>"

definition rk1808_tsadc_data :: "'hw tsadc_chip" where
  "rk1808_tsadc_data = \<lparr>chn_id = [0, 0], chn_num = 1, chip_tshut_temp = 95000,
     chip_tshut_mode = TSHUT_MODE_OTP, chip_tshut_polarity = TSHUT_LOW_ACTIVE,
     initialize = rk_tsadcv5_initialize, irq_ack = rk_tsadcv3_irq_ack, control = rk_tsadcv3_control,
     get_temp = rk_tsadcv2_get_temp, set_alarm_temp = rk_tsadcv2_alarm_temp,
     set_tshut_temp = rk_tsadcv2_tshut_temp, set_tshut_mode = rk_tsadcv2_tshut_mode,
     get_trim_code = None, trim_temp = None,
     table = code_table rk1808_code_table TSADCV2_DATA_MASK ADC_INCREMENT\<rparr>"

definition rk3228_tsadc_data :: "'hw tsadc_chip" where
  "rk3228_tsadc_data = \<lparr>chn_id = [0, 0], chn_num = 1, chip_tshut_temp = 95000,
     chip_tshut_mode = TSHUT_MODE_OTP, chip_tshut_polarity = TSHUT_LOW_ACTIVE,
     initialize = rk_tsadcv2_initialize, irq_ack = rk_tsadcv3_irq_ack, control = rk_tsadcv3_control,
     get_temp = rk_tsadcv2_get_temp, set_alarm_temp = rk_tsadcv2_alarm_temp,
     set_tshut_temp = rk_tsadcv2_tshut_temp, set_tshut_mode = rk_tsadcv2_tshut_mode,
     get_trim_code = None, trim_temp = None,
     table = code_table rk3228_code_table TSADCV3_DATA_MASK ADC_INCREMENT\<rparr>"

definition rk3288_tsadc_data :: "'hw tsadc_chip" where
  "rk3288_tsadc_data = \<lparr>chn_id = [1, 2], chn_num = 2, chip_tshut_temp = 95000,
     chip_tshut_mode = TSHUT_MODE_OTP, chip_tshut_polarity = TSHUT_LOW_ACTIVE,
     initialize = rk_tsadcv2_initialize, irq_ack = rk_tsadcv2_irq_ack, control = rk_tsadcv2_control,
     get_temp = rk_tsadcv2_get_temp, set_alarm_temp = rk_tsadcv2_alarm_temp,
     set_tshut_temp = rk_tsadcv2_tshut_temp, set_tshut_mode = rk_tsadcv2_tshut_mode,
     get_trim_code = None, trim_temp = None,
     table = rk3288_chip_table\<rparr>"

definition rk3328_tsadc_data :: "'hw tsadc_chip" where
  "rk3328_tsadc_data = \<lparr>chn_id = [0, 0], chn_num = 1, chip_tshut_temp = 95000,
     chip_tshut_mode = TSHUT_MODE_CRU, chip_tshut_polarity = 0,
     initialize = rk_tsadcv2_initialize, irq_ack = rk_tsadcv3_irq_ack, control = rk_tsadcv3_control,
     get_temp = rk_tsadcv2_get_temp, set_alarm_temp = rk_tsadcv2_alarm_temp,
     set_tshut_temp = rk_tsadcv2_tshut_temp, set_tshut_mode = rk_tsadcv2_tshut_mode,
     get_trim_code = None, trim_temp = None,
     table = code_table rk3328_code_table TSADCV2_DATA_MASK ADC_INCREMENT\<rparr>"

definition rk3366_tsadc_data :: "'hw tsadc_chip" where
  "rk3366_tsadc_data = \<lparr>chn_id = [0, 1], chn_num = 2, chip_tshut_temp = 95000,
     chip_tshut_mode = TSHUT_MODE_OTP, chip_tshut_polarity = TSHUT_LOW_ACTIVE,
     initialize = rk_tsadcv3_initialize, irq_ack = rk_tsadcv3_irq_ack, control = rk_tsadcv3_control,
     get_temp = rk_tsadcv2_get_temp, set_alarm_temp = rk_tsadcv2_alarm_temp,
     set_tshut_temp = rk_tsadcv2_tshut_temp, set_tshut_mode = rk_tsadcv2_tshut_mode,
     get_trim_code = None, trim_temp = None,
     table = code_table rk3228_code_table TSADCV3_DATA_MASK ADC_INCREMENT\<rparr>"

definition rk3368_tsadc_data :: "'hw tsadc_chip" where
  "rk3368_tsadc_data = \<lparr>chn_id = [0, 1], chn_num = 2, chip_tshut_temp = 95000,
     chip_tshut_mode = TSHUT_MODE_OTP, chip_tshut_polarity = TSHUT_LOW_ACTIVE,
     initialize = rk_tsadcv2_initialize, irq_ack = rk_tsadcv2_irq_ack, control = rk_tsadcv2_control,
     get_temp = rk_tsadcv2_get_temp, set_alarm_temp = rk_tsadcv2_alarm_temp,
     set_tshut_temp = rk_tsadcv2_tshut_temp, set_tshut_mode = rk_tsadcv2_tshut_mode,
     get_trim_code = None, trim_temp = None,
     table = code_table rk3368_code_table TSADCV3_DATA_MASK ADC_INCREMENT\<rparr>"

definition rk3399_tsadc_data :: "'hw tsadc_chip" where
  "rk3399_tsadc_data = \<lparr>chn_id = [0, 1], chn_num = 2, chip_tshut_temp = 95000,
     chip_tshut_mode = TSHUT_MODE_OTP, chip_tshut_polarity = TSHUT_LOW_ACTIVE,
     initialize = rk_tsadcv3_initialize, irq_ack = rk_tsadcv3_irq_ack, control = rk_tsadcv3_control,
     get_temp = rk_tsadcv2_get_temp, set_alarm_temp = rk_tsadcv2_alarm_temp,
     set_tshut_temp = rk_tsadcv2_tshut_temp, set_tshut_mode = rk_tsadcv2_tshut_mode,
     get_trim_code = None, trim_temp = None,
     table = code_table rk3399_code_table TSADCV3_DATA_MASK ADC_INCREMENT\<rparr>"

definition rk3568_tsadc_data :: "'hw tsadc_chip" where
  "rk3568_tsadc_data = \<lparr>chn_id = [0, 1], chn_num = 2, chip_tshut_temp = 95000,
     chip_tshut_mode = TSHUT_MODE_OTP, chip_tshut_polarity = TSHUT_LOW_ACTIVE,
     initialize = rk_tsadcv7_initialize, irq_ack = rk_tsadcv3_irq_ack, control = rk_tsadcv3_control,
     get_temp = rk_tsadcv2_get_temp, set_alarm_temp = rk_tsadcv2_alarm_temp,
     set_tshut_temp = rk_tsadcv2_tshut_temp, set_tshut_mode = rk_tsadcv2_tshut_mode,
     get_trim_code = None, trim_temp = None,
     table = code_table rk3568_code_table TSADCV2_DATA_MASK ADC_INCREMENT\<rparr>"

definition of_rockchip_thermal_match :: "(string \<times> 'hw tsadc_chip) list" where
  "of_rockchip_thermal_match =
     [(''rockchip,px30-tsadc'', px30_tsadc_data),
      (''rockchip,rv1108-tsadc'', rv1108_tsadc_data),
      (''rockchip,rv1126-tsadc'', rv1126_tsadc_data),
      (''rockchip,rk1808-tsadc'', rk1808_tsadc_data),
      (''rockchip,rk3228-tsadc'', rk3228_tsadc_data),
      (''rockchip,rk3288-tsadc'', rk3288_tsadc_data),
      (''rockchip,rk3328-tsadc'', rk3328_tsadc_data),
      (''rockchip,rk3366-tsadc'', rk3366_tsadc_data),
      (''rockchip,rk3368-tsadc'', rk3368_tsadc_data),
      (''rockchip,rk3399-tsadc'', rk3399_tsadc_data),
      (''rockchip,rk3568-tsadc'', rk3568_tsadc_data)]"

section \<open>The driver\<close>

text \<open>
  \<open>struct rockchip_thermal_data\<close> and what the driver holds of the kernel: the pin state it
  selected last, the thermal zones it enabled (by sensor index), the clock references, whether
  the interrupt and the panic notifier are registered, and the zone updates it asked for.
  \<open>pinctrl_ok\<close> is \<open>!IS_ERR(pinctrl)\<close>, \<open>gpio_ok\<close> and \<open>otp_ok\<close> are \<open>!IS_ERR_OR_NULL\<close> of the states.
\<close>

datatype pin_state = Pin_gpio | Pin_otpout

record 'hw thermal_data =
  chip :: "'hw tsadc_chip"
  hw :: 'hw
  grf_ok :: bool
  tshut_temp :: int
  trim :: int
  tshut_mode :: u32
  tshut_polarity :: u32
  pinctrl_ok :: bool
  gpio_ok :: bool
  otp_ok :: bool
  pins :: "pin_state option"
  sensor_ids :: "nat list"
  zone_on :: "nat \<Rightarrow> bool"
  prepared :: int
  enabled :: int
  irq_requested :: bool
  panic_registered :: bool
  zone_updates :: "nat list"

text \<open>What probing meets: the results of the platform calls and the properties of the device tree.\<close>

record probe_env =
  compatible :: string
  platform_irq :: int
  alloc_ok :: bool
  ioremap_error :: "errno option"
  reset_error :: "errno option"
  num_clks :: int
  clk_error :: "errno option"
  dt_shut_temp :: "u32 option"
  dt_tshut_mode :: "u32 option"
  dt_tshut_polarity :: "u32 option"
  dt_grf :: bool
  efuse :: "string \<Rightarrow> u8 option"
  pinctrl_found :: bool
  gpio_found :: bool
  otp_found :: bool
  zone_error :: "nat \<Rightarrow> errno option"
  irq_error :: "errno option"

definition rockchip_thermal_toggle_sensor :: "nat \<Rightarrow> bool \<Rightarrow> 'hw thermal_data \<Rightarrow> 'hw thermal_data" where
  "rockchip_thermal_toggle_sensor i on d = d\<lparr>zone_on := (zone_on d)(i := on)\<rparr>"

definition toggle_sensors :: "bool \<Rightarrow> 'hw thermal_data \<Rightarrow> 'hw thermal_data" where
  "toggle_sensors on d = fold (\<lambda>i. rockchip_thermal_toggle_sensor i on) [0..<chn_num (chip d)] d"

definition rockchip_thermal_alarm_irq_thread :: "'hw tsadc_port \<Rightarrow> 'hw thermal_data \<Rightarrow> 'hw thermal_data" where
  "rockchip_thermal_alarm_irq_thread P d =
     d\<lparr>hw := irq_ack (chip d) P (hw d), zone_updates := zone_updates d @ [0..<chn_num (chip d)]\<rparr>"

text \<open>\<open>sensor->id\<close> of sensor \<open>i\<close>.\<close>

definition rockchip_thermal_set_trips ::
  "'hw tsadc_port \<Rightarrow> nat \<Rightarrow> int \<Rightarrow> int \<Rightarrow> 'hw thermal_data \<Rightarrow> ('hw thermal_data \<times> errno option) option" where
  "rockchip_thermal_set_trips P i low high d =
     (let high' = (case trim_temp (chip d) of None \<Rightarrow> high | Some f \<Rightarrow> s32 (high + f (trim d))) in
      map_option (\<lambda>(h, e). (d\<lparr>hw := h\<rparr>, e))
        (set_alarm_temp (chip d) P (table (chip d)) (sensor_ids d ! i) (hw d) high'))"

definition rockchip_thermal_get_temp ::
  "'hw tsadc_port \<Rightarrow> nat \<Rightarrow> int \<Rightarrow> 'hw thermal_data \<Rightarrow> (int \<times> errno option) option" where
  "rockchip_thermal_get_temp P i out0 d =
     map_option (\<lambda>(out, e).
        (case trim_temp (chip d) of None \<Rightarrow> out | Some f \<Rightarrow> s32 (out - f (trim d)), e))
       (get_temp (chip d) P (table (chip d)) (sensor_ids d ! i) (hw d) out0)"

definition thermal_pinctrl_select_otp :: "'hw thermal_data \<Rightarrow> 'hw thermal_data" where
  "thermal_pinctrl_select_otp d =
     (if pinctrl_ok d \<and> otp_ok d then d\<lparr>pins := Some Pin_otpout\<rparr> else d)"

definition thermal_pinctrl_select_gpio :: "'hw thermal_data \<Rightarrow> 'hw thermal_data" where
  "thermal_pinctrl_select_gpio d =
     (if pinctrl_ok d \<and> gpio_ok d then d\<lparr>pins := Some Pin_gpio\<rparr> else d)"

text \<open>\<open>rockchip_get_efuse_value\<close> leaves the variable, which is 0, when the cell cannot be read.\<close>

definition rockchip_get_efuse_value :: "probe_env \<Rightarrow> string \<Rightarrow> int \<Rightarrow> int" where
  "rockchip_get_efuse_value env name value0 =
     (case efuse env name of None \<Rightarrow> value0 | Some b \<Rightarrow> uint b)"

text \<open>The trimming part of \<open>rockchip_configure_from_dt\<close>.\<close>

definition configure_trim :: "probe_env \<Rightarrow> 'hw thermal_data \<Rightarrow> 'hw thermal_data" where
  "configure_trim env d =
     (case (trim_temp (chip d), get_trim_code (chip d)) of
        (Some tt, Some tc) \<Rightarrow>
          let trim_l = rockchip_get_efuse_value env ''trim_l'' 0;
              trim_h = rockchip_get_efuse_value env ''trim_h'' 0;
              trim_base = rockchip_get_efuse_value env ''trim_base'' 0 in
          if trim_l \<noteq> 0 \<and> trim_h \<noteq> 0 \<and> trim_base \<noteq> 0 then
            let tr = tc (table (chip d)) (push_bit 8 trim_h OR trim_l) trim_base
            in d\<lparr>trim := tr, tshut_temp := s32 (tshut_temp d + tt tr)\<rparr>
          else d
      | _ \<Rightarrow> d)"

definition rockchip_configure_from_dt ::
  "probe_env \<Rightarrow> 'hw thermal_data \<Rightarrow> 'hw thermal_data \<times> errno option" where
  "rockchip_configure_from_dt env d =
     (let (d1, bad) = (case dt_shut_temp env of
            None \<Rightarrow> (d\<lparr>tshut_temp := chip_tshut_temp (chip d)\<rparr>, False)
          | Some v \<Rightarrow> if uint v > INT_MAX then (d, True) else (d\<lparr>tshut_temp := uint v\<rparr>, False)) in
      if bad then (d1, Some ERANGE)
      else
        let d2 = d1\<lparr>tshut_mode := (case dt_tshut_mode env of None \<Rightarrow> chip_tshut_mode (chip d1) | Some m \<Rightarrow> m)\<rparr> in
        if tshut_mode d2 > 1 then (d2, Some EINVAL)
        else
          let d3 = d2\<lparr>tshut_polarity := (case dt_tshut_polarity env of
                 None \<Rightarrow> chip_tshut_polarity (chip d2) | Some p \<Rightarrow> p)\<rparr> in
          if tshut_polarity d3 > 1 then (d3, Some EINVAL)
          else (configure_trim env (d3\<lparr>grf_ok := dt_grf env\<rparr>), None))"

definition rockchip_thermal_reset_controller :: "'hw tsadc_port \<Rightarrow> 'hw thermal_data \<Rightarrow> 'hw thermal_data" where
  "rockchip_thermal_reset_controller P d = d\<lparr>hw := pulse_reset P (hw d)\<rparr>"

text \<open>
  Arming the shutdown of channel \<open>ch\<close>, as registering a sensor and resuming do; an error of
  \<open>set_tshut_temp\<close> is only logged.
\<close>

definition arm_tshut :: "'hw tsadc_port \<Rightarrow> nat \<Rightarrow> 'hw thermal_data \<Rightarrow> 'hw thermal_data option" where
  "arm_tshut P ch d =
     (let d1 = d\<lparr>hw := set_tshut_mode (chip d) P (grf_ok d) ch (tshut_mode d) (hw d)\<rparr> in
      map_option (\<lambda>(h, e). d1\<lparr>hw := h\<rparr>)
        (set_tshut_temp (chip d1) P (table (chip d1)) ch (hw d1) (tshut_temp d1)))"

definition rockchip_thermal_register_sensor ::
  "'hw tsadc_port \<Rightarrow> probe_env \<Rightarrow> nat \<Rightarrow> nat \<Rightarrow> 'hw thermal_data
   \<Rightarrow> ('hw thermal_data \<times> errno option) option" where
  "rockchip_thermal_register_sensor P env i ch d =
     map_option (\<lambda>d1. (d1\<lparr>sensor_ids := (sensor_ids d1)[i := ch]\<rparr>, zone_error env i)) (arm_tshut P ch d)"

text \<open>The loop over the sensors, up to the first error.\<close>

fun register_sensors ::
  "'hw tsadc_port \<Rightarrow> probe_env \<Rightarrow> nat list \<Rightarrow> 'hw thermal_data \<Rightarrow> ('hw thermal_data \<times> errno option) option"
where
  "register_sensors P env [] d = Some (d, None)"
| "register_sensors P env (i # is) d =
     Option.bind (rockchip_thermal_register_sensor P env i (chn_id (chip d) ! i) d) (\<lambda>(d1, e).
       case e of Some err \<Rightarrow> Some (d1, Some err) | None \<Rightarrow> register_sensors P env is d1)"

text \<open>\<open>pinctrl_lookup_state\<close> is called even when there is no pin control: \<open>None\<close>.\<close>

definition probe_pins :: "probe_env \<Rightarrow> 'hw thermal_data \<Rightarrow> 'hw thermal_data option" where
  "probe_pins env d =
     (if tshut_mode d = TSHUT_MODE_OTP then
        if \<not> pinctrl_found env then None
        else Some (thermal_pinctrl_select_otp
          (d\<lparr>pinctrl_ok := True, gpio_ok := gpio_found env, otp_ok := otp_found env\<rparr>))
      else Some d)"

definition clk_bulk_disable_unprepare :: "'hw thermal_data \<Rightarrow> 'hw thermal_data" where
  "clk_bulk_disable_unprepare d = d\<lparr>enabled := enabled d - 1, prepared := prepared d - 1\<rparr>"

text \<open>\<open>rockchip_thermal_probe\<close> from the point where the clocks run; \<open>err_disable_clocks\<close> on errors.\<close>

definition probe_clocked ::
  "'hw tsadc_port \<Rightarrow> probe_env \<Rightarrow> 'hw thermal_data \<Rightarrow> ('hw thermal_data \<times> errno option) option" where
  "probe_clocked P env d =
     (let d1 = rockchip_thermal_reset_controller P (d\<lparr>hw := control (chip d) P False (hw d)\<rparr>);
          (d2, e) = rockchip_configure_from_dt env d1 in
      case e of Some err \<Rightarrow> Some (clk_bulk_disable_unprepare d2, Some err)
      | None \<Rightarrow>
        Option.bind (initialize (chip d2) P (grf_ok d2) (tshut_polarity d2) (hw d2)) (\<lambda>h.
        Option.bind (probe_pins env (d2\<lparr>hw := h\<rparr>)) (\<lambda>d3.
        Option.bind (register_sensors P env [0..<chn_num (chip d3)] d3) (\<lambda>(d4, e).
          case e of Some err \<Rightarrow> Some (clk_bulk_disable_unprepare d4, Some err)
          | None \<Rightarrow>
            (case irq_error env of Some err \<Rightarrow> Some (clk_bulk_disable_unprepare d4, Some err)
             | None \<Rightarrow>
               let d5 = d4\<lparr>irq_requested := True, hw := control (chip d4) P True (hw d4)\<rparr>;
                   d6 = toggle_sensors True d5
               in Some (d6\<lparr>panic_registered := True\<rparr>, None))))))"

definition rockchip_thermal_probe ::
  "'hw tsadc_port \<Rightarrow> probe_env \<Rightarrow> 'hw \<Rightarrow> ('hw thermal_data option \<times> errno option) option" where
  "rockchip_thermal_probe P env h =
     (case map_of of_rockchip_thermal_match (compatible env) of
        None \<Rightarrow> Some (None, Some ENXIO)
      | Some c \<Rightarrow>
        if platform_irq env < 0 then Some (None, Some EINVAL)
        else if \<not> alloc_ok env then Some (None, Some ENOMEM)
        else (case ioremap_error env of Some e \<Rightarrow> Some (None, Some e) | None \<Rightarrow>
          (case reset_error env of Some e \<Rightarrow> Some (None, Some e) | None \<Rightarrow>
            if num_clks env < 1 then Some (None, Some ENODEV)
            else (case clk_error env of Some e \<Rightarrow> Some (None, Some e) | None \<Rightarrow>
              map_option (\<lambda>(d, e). (Some d, e))
                (probe_clocked P env
                  \<lparr>chip = c, hw = h, grf_ok = False, tshut_temp = 0, trim = 0, tshut_mode = 0,
                   tshut_polarity = 0, pinctrl_ok = True, gpio_ok = False, otp_ok = False, pins = None,
                   sensor_ids = replicate 2 0, zone_on = (\<lambda>_. False), prepared = 1, enabled = 1,
                   irq_requested = False, panic_registered = False, zone_updates = []\<rparr>)))))"

definition rockchip_thermal_remove :: "'hw tsadc_port \<Rightarrow> 'hw thermal_data \<Rightarrow> 'hw thermal_data" where
  "rockchip_thermal_remove P d =
     (let d1 = toggle_sensors False d
      in clk_bulk_disable_unprepare (d1\<lparr>hw := control (chip d1) P False (hw d1)\<rparr>))"

text \<open>Shutting down routes every channel to the clock and reset unit.\<close>

definition rockchip_thermal_shutdown :: "'hw tsadc_port \<Rightarrow> 'hw thermal_data \<Rightarrow> 'hw thermal_data" where
  "rockchip_thermal_shutdown P d =
     (let d1 = fold (\<lambda>i d. if tshut_mode d \<noteq> TSHUT_MODE_CRU
            then d\<lparr>hw := set_tshut_mode (chip d) P (grf_ok d) (sensor_ids d ! i) TSHUT_MODE_CRU (hw d)\<rparr>
            else d) [0..<chn_num (chip d)] d
      in if tshut_mode d1 = TSHUT_MODE_OTP then thermal_pinctrl_select_gpio d1 else d1)"

definition rockchip_thermal_suspend :: "'hw tsadc_port \<Rightarrow> 'hw thermal_data \<Rightarrow> 'hw thermal_data" where
  "rockchip_thermal_suspend P d =
     (let d1 = toggle_sensors False d;
          d2 = d1\<lparr>hw := control (chip d1) P False (hw d1), enabled := enabled d1 - 1\<rparr>
      in if tshut_mode d2 = TSHUT_MODE_OTP then thermal_pinctrl_select_gpio d2 else d2)"

fun arm_all :: "'hw tsadc_port \<Rightarrow> nat list \<Rightarrow> 'hw thermal_data \<Rightarrow> 'hw thermal_data option" where
  "arm_all P [] d = Some d"
| "arm_all P (i # is) d = Option.bind (arm_tshut P (sensor_ids d ! i) d) (arm_all P is)"

definition rockchip_thermal_resume ::
  "'hw tsadc_port \<Rightarrow> errno option \<Rightarrow> 'hw thermal_data \<Rightarrow> ('hw thermal_data \<times> errno option) option" where
  "rockchip_thermal_resume P clk_err d =
     (case clk_err of Some e \<Rightarrow> Some (d, Some e)
      | None \<Rightarrow>
        let d1 = rockchip_thermal_reset_controller P (d\<lparr>enabled := enabled d + 1\<rparr>) in
        Option.bind (initialize (chip d1) P (grf_ok d1) (tshut_polarity d1) (hw d1)) (\<lambda>h.
        Option.bind (arm_all P [0..<chn_num (chip d1)] (d1\<lparr>hw := h\<rparr>)) (\<lambda>d2.
          let d3 = toggle_sensors True (d2\<lparr>hw := control (chip d2) P True (hw d2)\<rparr>)
          in Some (if tshut_mode d3 = TSHUT_MODE_OTP then thermal_pinctrl_select_otp d3 else d3, None))))"

section \<open>Plain registers\<close>

text \<open>
  What the properties assume of a configuration register: it reads back what was written to it,
  and neither a write to another register nor one to the register file changes it.
\<close>

definition plain :: "'hw tsadc_port \<Rightarrow> u32 \<Rightarrow> bool" where
  "plain P r \<longleftrightarrow>
     (\<forall>h v. readl_relaxed P (writel_relaxed P h r v) r = v)
   \<and> (\<forall>h r' v. r' \<noteq> r \<longrightarrow> readl_relaxed P (writel_relaxed P h r' v) r = readl_relaxed P h r)
   \<and> (\<forall>h a v. readl_relaxed P (regmap_write P h a v) r = readl_relaxed P h r)"

lemma plainD [frame]:
  assumes "plain P r"
  shows "readl_relaxed P (writel_relaxed P h r v) r = v"
    "r' \<noteq> r \<Longrightarrow> readl_relaxed P (writel_relaxed P h r' v) r = readl_relaxed P h r"
    "readl_relaxed P (regmap_write P h a v) r = readl_relaxed P h r"
  using assms by (auto simp: plain_def)

text \<open>The configuration registers of the controller are plain.\<close>

definition plain_config :: "'hw tsadc_port \<Rightarrow> bool" where
  "plain_config P \<longleftrightarrow> plain P TSADCV2_AUTO_CON \<and> plain P TSADCV2_INT_EN
     \<and> (\<forall>ch < 4. plain P (TSADCV2_COMP_INT ch) \<and> plain P (TSADCV2_COMP_SHUT ch))"

lemma channel_reg_unat:
  "ch < 4 \<Longrightarrow> unat (TSADCV2_COMP_INT ch) = 48 + 4 * ch" "ch < 4 \<Longrightarrow> unat (TSADCV2_COMP_SHUT ch) = 64 + 4 * ch"
  "unat TSADCV2_AUTO_CON = 4" "unat TSADCV2_INT_EN = 8"
  by (simp_all add: tsadc_regs unat_word_ariths unat_of_nat)

lemma tsadc_reg_neq [simp]:
  "TSADCV2_AUTO_CON \<noteq> TSADCV2_INT_EN" "TSADCV2_INT_EN \<noteq> TSADCV2_AUTO_CON"
  "ch < 4 \<Longrightarrow> TSADCV2_COMP_INT ch \<noteq> TSADCV2_INT_EN" "ch < 4 \<Longrightarrow> TSADCV2_INT_EN \<noteq> TSADCV2_COMP_INT ch"
  "ch < 4 \<Longrightarrow> TSADCV2_COMP_SHUT ch \<noteq> TSADCV2_AUTO_CON" "ch < 4 \<Longrightarrow> TSADCV2_AUTO_CON \<noteq> TSADCV2_COMP_SHUT ch"
  "ch < 4 \<Longrightarrow> TSADCV2_COMP_SHUT ch \<noteq> TSADCV2_INT_EN" "ch < 4 \<Longrightarrow> TSADCV2_INT_EN \<noteq> TSADCV2_COMP_SHUT ch"
  "ch < 4 \<Longrightarrow> ch' < 4 \<Longrightarrow> TSADCV2_COMP_SHUT ch = TSADCV2_COMP_SHUT ch' \<longleftrightarrow> ch = ch'"
  by (simp_all add: word_unat_eq_iff channel_reg_unat)

section \<open>The alarm\<close>

lemma rising_codes:
  assumes R: "rising_table T" and x: "uint (code (id_tab T ! 1)) \<le> uint (x AND data_mask T)"
  shows "rk_tsadcv2_code_to_temp T x t0 = Some (scan_temp (id_tab T) (uint (x AND data_mask T)), None)"
  using x by (simp add: rising_table.code_to_temp_scan [OF R] Let_def)

text \<open>
  Setting the alarm of a chip with rising codes programs a code and enables the channel's
  interrupt and no other; every reading above that code is at least the alarm temperature and
  every valid reading up to it is at most the alarm temperature.
\<close>

theorem rk_tsadcv2_alarm_temp_arms:
  assumes P: "plain_config P" and ch: "ch < 4" and T: "T \<in> set rising_tables" and t: "convertible T t"
  shows "\<exists>h' c. rk_tsadcv2_alarm_temp P T ch h t = Some (h', None)
    \<and> readl_relaxed P h' (TSADCV2_COMP_INT ch) = c
    \<and> (\<forall>b. bit (readl_relaxed P h' TSADCV2_INT_EN) b \<longleftrightarrow> b = ch \<or> bit (readl_relaxed P h TSADCV2_INT_EN) b)
    \<and> (\<forall>x t0. c < x AND data_mask T \<longrightarrow>
         (\<exists>t'. rk_tsadcv2_code_to_temp T x t0 = Some (t', None) \<and> t \<le> t'))
    \<and> (\<forall>x t0 t'. x AND data_mask T \<le> c \<and> rk_tsadcv2_code_to_temp T x t0 = Some (t', None) \<longrightarrow> t' \<le> t)"
proof -
  have R: "rising_table T" by unfold_locales (rule rising_tables_rising [OF T])
  obtain c where c: "rk_tsadcv2_temp_to_code T t = Some c" "c < data_mask T"
    "uint (code (id_tab T ! 1)) \<le> uint c" "scan_temp (id_tab T) (uint c) \<le> t"
    "\<And>x. uint c < x \<Longrightarrow> x \<le> uint (data_mask T) \<Longrightarrow> t \<le> scan_temp (id_tab T) x"
    using rising_table.temp_to_code_largest [OF R, of t] t by (auto simp: convertible_def)
  have mask: "c AND data_mask T = c"
  proof -
    have d: "data_mask T = mask 12 \<or> data_mask T = mask 10"
      using R by (auto simp: rising_table_def rising_def TSADCV2_DATA_MASK_def TSADCV3_DATA_MASK_def mask_eq_exp_minus_1)
    then have "unat c < 2 ^ 12 \<and> data_mask T = mask 12 \<or> unat c < 2 ^ 10 \<and> data_mask T = mask 10"
      using c(2) by (auto simp: word_less_nat_alt mask_eq_exp_minus_1)
    then have "take_bit 12 c = c \<and> data_mask T = mask 12 \<or> take_bit 10 c = c \<and> data_mask T = mask 10"
      by (auto simp: word_unat_eq_iff unsigned_take_bit_eq take_bit_nat_eq_self)
    then show ?thesis by (auto simp: take_bit_eq_mask)
  qed
  have not_max: "t \<noteq> INT_MAX"
    using t rising_table.range [OF R, of "rising_table.n T - 2"] rising_table.facts(4) [OF R]
    by (auto simp: convertible_def rising_table.H_def [OF R] rising_table.n_def [OF R] nat_diff_distrib
        INT_MAX_def MAX_TEMP_def)
  let ?h1 = "writel_relaxed P h (TSADCV2_COMP_INT ch) c"
  let ?h2 = "writel_relaxed P ?h1 TSADCV2_INT_EN (readl_relaxed P ?h1 TSADCV2_INT_EN OR TSADCV2_INT_SRC_EN ch)"
  have plain: "plain P TSADCV2_INT_EN" "plain P (TSADCV2_COMP_INT ch)" using P ch by (auto simp: plain_config_def)
  have "rk_tsadcv2_alarm_temp P T ch h t = Some (?h2, None)"
    using c(1,2) mask not_max by (auto simp: rk_tsadcv2_alarm_temp_def Let_def)
  moreover have "readl_relaxed P ?h2 (TSADCV2_COMP_INT ch) = c"
    using plain ch by (simp add: plainD)
  moreover have "bit (readl_relaxed P ?h2 TSADCV2_INT_EN) b \<longleftrightarrow> b = ch \<or> bit (readl_relaxed P h TSADCV2_INT_EN) b" for b
    using plain ch by (auto simp: plainD bit_simps masks TSADCV2_INT_SRC_EN_def)
  moreover have "\<exists>t'. rk_tsadcv2_code_to_temp T x t0 = Some (t', None) \<and> t \<le> t'" if "c < x AND data_mask T" for x t0
    using that c(3,5) rising_codes [OF R, of x t0] word_and_le1 [of x "data_mask T"]
    by (auto simp: word_less_def word_le_def)
  moreover have "t' \<le> t" if "x AND data_mask T \<le> c" "rk_tsadcv2_code_to_temp T x t0 = Some (t', None)" for x t0 t'
  proof -
    have x: "uint (code (id_tab T ! 1)) \<le> uint (x AND data_mask T)" "t' = scan_temp (id_tab T) (uint (x AND data_mask T))"
      using that(2) by (auto simp: rising_table.code_to_temp_scan [OF R] Let_def split: if_splits)
    show ?thesis
      using rising_table.scan_mono [OF R, of "uint (x AND data_mask T)" "uint c"] x that(1) c(2,4)
      by (simp add: rising_table.C_def [OF R] word_le_def word_less_def)
  qed
  ultimately show ?thesis by (intro exI [of _ ?h2] exI [of _ c]) auto
qed

text \<open>
  An alarm at INT_MAX only disables the channel's interrupt; one outside the range of the chip
  is ERANGE and touches no register.
\<close>

theorem rk_tsadcv2_alarm_temp_refuses:
  assumes "T \<in> set rising_tables" "plain P TSADCV2_INT_EN"
  shows "if t = INT_MAX then
      (\<exists>h'. rk_tsadcv2_alarm_temp P T ch h t = Some (h', None)
       \<and> (\<forall>b. bit (readl_relaxed P h' TSADCV2_INT_EN) b \<longleftrightarrow> b \<noteq> ch \<and> bit (readl_relaxed P h TSADCV2_INT_EN) b))
    else t < MIN_TEMP \<or> MAX_TEMP < t \<longrightarrow> rk_tsadcv2_alarm_temp P T ch h t = Some (h, Some ERANGE)"
proof (cases "t = INT_MAX")
  case True
  then show ?thesis
    using assms(2)
    by (auto simp: rk_tsadcv2_alarm_temp_def Let_def plainD bit_simps masks TSADCV2_INT_SRC_EN_def
        dest: bit_word_less)
next
  case False
  then show ?thesis
    using rising_outside [OF assms(1), of t] by (auto simp: rk_tsadcv2_alarm_temp_def)
qed

section \<open>Arming the hardware shutdown\<close>

text \<open>What every chip of the driver has in common.\<close>

lemma chip_methods:
  assumes "c \<in> snd ` set of_rockchip_thermal_match"
  shows "set_tshut_temp c = rk_tsadcv2_tshut_temp"
    "set_tshut_mode c = rk_tsadcv2_tshut_mode \<or> set_tshut_mode c = rk_tsadcv3_tshut_mode"
    "control c = rk_tsadcv2_control \<or> control c = rk_tsadcv3_control"
    "0 < chn_num c" "chn_num c \<le> 2" "length (chn_id c) = 2" "\<forall>ch \<in> set (chn_id c). ch < 4"
    "distinct (take (chn_num c) (chn_id c))"
  using assms
  by (auto simp: of_rockchip_thermal_match_def px30_tsadc_data_def rv1108_tsadc_data_def
      rv1126_tsadc_data_def rk1808_tsadc_data_def rk3228_tsadc_data_def rk3288_tsadc_data_def
      rk3328_tsadc_data_def rk3366_tsadc_data_def rk3368_tsadc_data_def rk3399_tsadc_data_def
      rk3568_tsadc_data_def numeral_2_eq_2)

lemma initialize_some:
  "c \<in> snd ` set of_rockchip_thermal_match \<Longrightarrow> \<exists>h'. initialize c P True pol h = Some h'"
  by (auto simp: of_rockchip_thermal_match_def px30_tsadc_data_def rv1108_tsadc_data_def
      rv1126_tsadc_data_def rk1808_tsadc_data_def rk3228_tsadc_data_def rk3288_tsadc_data_def
      rk3328_tsadc_data_def rk3366_tsadc_data_def rk3368_tsadc_data_def rk3399_tsadc_data_def
      rk3568_tsadc_data_def rk_tsadcv2_initialize_def rk_tsadcv3_initialize_def
      rk_tsadcv4_initialize_def rk_tsadcv5_initialize_def rk_tsadcv6_initialize_def
      rk_tsadcv7_initialize_def Let_def)

text \<open>
  Channel \<open>ch\<close> is armed: its shutdown code is that of the driver's temperature, its source is
  enabled, and of the two routes of the shutdown signal exactly the configured one is on.
\<close>

definition armed :: "'hw tsadc_port \<Rightarrow> 'hw thermal_data \<Rightarrow> nat \<Rightarrow> bool" where
  "armed P d ch \<longleftrightarrow>
     rk_tsadcv2_temp_to_code (table (chip d)) (tshut_temp d) = Some (readl_relaxed P (hw d) (TSADCV2_COMP_SHUT ch))
   \<and> bit (readl_relaxed P (hw d) TSADCV2_AUTO_CON) (4 + ch)
   \<and> (bit (readl_relaxed P (hw d) TSADCV2_INT_EN) (4 + ch) \<longleftrightarrow> tshut_mode d = TSHUT_MODE_OTP)
   \<and> (bit (readl_relaxed P (hw d) TSADCV2_INT_EN) (8 + ch) \<longleftrightarrow> tshut_mode d \<noteq> TSHUT_MODE_OTP)"

text \<open>The shutdown temperature of the driver has a code.\<close>

definition shut_code :: "'hw thermal_data \<Rightarrow> u32 \<Rightarrow> bool" where
  "shut_code d c \<longleftrightarrow> rk_tsadcv2_temp_to_code (table (chip d)) (tshut_temp d) = Some c \<and> c \<noteq> data_mask (table (chip d))"

lemma tshut_mode_reads:
  assumes "plain_config P" "m = rk_tsadcv2_tshut_mode \<or> m = rk_tsadcv3_tshut_mode" "ch < 4"
  shows "readl_relaxed P (m P g ch mode h) TSADCV2_INT_EN = tshut_int_en ch mode (readl_relaxed P h TSADCV2_INT_EN)"
    "readl_relaxed P (m P g ch mode h) TSADCV2_AUTO_CON = readl_relaxed P h TSADCV2_AUTO_CON"
    "ch' < 4 \<Longrightarrow> readl_relaxed P (m P g ch mode h) (TSADCV2_COMP_SHUT ch') = readl_relaxed P h (TSADCV2_COMP_SHUT ch')"
  using assms
  by (auto simp: plain_config_def plainD rk_tsadcv2_tshut_mode_def rk_tsadcv3_tshut_mode_def Let_def)

lemma bit_tshut_int_en:
  assumes "ch < 4" "ch' < 4"
  shows "bit (tshut_int_en ch mode v) (4 + ch') \<longleftrightarrow>
      (if ch' = ch then mode = TSHUT_MODE_OTP else bit v (4 + ch'))"
    "bit (tshut_int_en ch mode v) (8 + ch') \<longleftrightarrow>
      (if ch' = ch then mode \<noteq> TSHUT_MODE_OTP else bit v (8 + ch'))"
  using assms
  by (auto simp: tshut_int_en_def bit_simps masks TSADCV2_SHUT_2GPIO_SRC_EN_def TSADCV2_SHUT_2CRU_SRC_EN_def)

lemma arm_tshut_armed:
  assumes P: "plain_config P" and c: "chip d \<in> snd ` set of_rockchip_thermal_match"
    and code: "shut_code d x" and ch: "ch < 4"
  shows "\<exists>h. arm_tshut P ch d = Some (d\<lparr>hw := h\<rparr>) \<and> armed P (d\<lparr>hw := h\<rparr>) ch
    \<and> (\<forall>ch' < 4. armed P d ch' \<longrightarrow> armed P (d\<lparr>hw := h\<rparr>) ch')"
proof -
  note m = chip_methods [OF c]
  let ?h1 = "set_tshut_mode (chip d) P (grf_ok d) ch (tshut_mode d) (hw d)"
  let ?h2 = "writel_relaxed P ?h1 (TSADCV2_COMP_SHUT ch) x"
  let ?h3 = "writel_relaxed P ?h2 TSADCV2_AUTO_CON (readl_relaxed P ?h2 TSADCV2_AUTO_CON OR TSADCV2_AUTO_SRC_EN ch)"
  have arm: "arm_tshut P ch d = Some (d\<lparr>hw := ?h3\<rparr>)"
    using code by (simp add: arm_tshut_def m(1) rk_tsadcv2_tshut_temp_def shut_code_def Let_def)
  have pl: "plain P TSADCV2_AUTO_CON" "plain P TSADCV2_INT_EN" "ch' < 4 \<Longrightarrow> plain P (TSADCV2_COMP_SHUT ch')" for ch'
    using P by (simp_all add: plain_config_def)
  note reads = tshut_mode_reads [OF P m(2) ch]
  have r: "readl_relaxed P ?h3 TSADCV2_AUTO_CON = readl_relaxed P (hw d) TSADCV2_AUTO_CON OR TSADCV2_AUTO_SRC_EN ch"
    "readl_relaxed P ?h3 TSADCV2_INT_EN = tshut_int_en ch (tshut_mode d) (readl_relaxed P (hw d) TSADCV2_INT_EN)"
    "ch' < 4 \<Longrightarrow> readl_relaxed P ?h3 (TSADCV2_COMP_SHUT ch') =
       (if ch' = ch then x else readl_relaxed P (hw d) (TSADCV2_COMP_SHUT ch'))" for ch'
    using ch by (simp_all add: plainD pl reads)
  have con: "bit (readl_relaxed P ?h3 TSADCV2_AUTO_CON) (4 + ch') \<longleftrightarrow>
      ch' = ch \<or> bit (readl_relaxed P (hw d) TSADCV2_AUTO_CON) (4 + ch')" if "ch' < 4" for ch'
    using that unfolding r(1) by (auto simp: bit_simps masks TSADCV2_AUTO_SRC_EN_def)
  have "armed P (d\<lparr>hw := ?h3\<rparr>) ch"
    using code ch by (simp add: armed_def con r(2,3) bit_tshut_int_en shut_code_def)
  moreover have "armed P (d\<lparr>hw := ?h3\<rparr>) ch'" if "ch' < 4" "armed P d ch'" for ch'
    using that code ch by (auto simp: armed_def con r(2,3) bit_tshut_int_en shut_code_def)
  ultimately show ?thesis using arm by (intro exI [of _ ?h3]) auto
qed

lemma armed_hw: "armed P (d\<lparr>hw := h\<rparr>) ch \<Longrightarrow> chip d' = chip d \<Longrightarrow> tshut_temp d' = tshut_temp d
    \<Longrightarrow> tshut_mode d' = tshut_mode d \<Longrightarrow> hw d' = h \<Longrightarrow> armed P d' ch"
  by (simp add: armed_def)

text \<open>Starting the controller keeps what is armed and sets the enable bit.\<close>

lemma control_on:
  assumes "plain_config P" "m = rk_tsadcv2_control \<or> m = rk_tsadcv3_control"
  shows "readl_relaxed P (m P True h) TSADCV2_INT_EN = readl_relaxed P h TSADCV2_INT_EN"
    "ch < 4 \<Longrightarrow> readl_relaxed P (m P True h) (TSADCV2_COMP_SHUT ch) = readl_relaxed P h (TSADCV2_COMP_SHUT ch)"
    "bit (readl_relaxed P (m P True h) TSADCV2_AUTO_CON) 0"
    "bit (readl_relaxed P h TSADCV2_AUTO_CON) b \<Longrightarrow> bit (readl_relaxed P (m P True h) TSADCV2_AUTO_CON) b"
  using assms
  by (auto simp: plain_config_def plainD rk_tsadcv2_control_def rk_tsadcv3_control_def Let_def
      bit_simps masks TSADCV2_AUTO_EN_def TSADCV3_AUTO_Q_SEL_EN_def)

lemma control_armed:
  assumes "plain_config P" "chip d \<in> snd ` set of_rockchip_thermal_match" "ch < 4" "armed P d ch"
  shows "armed P (d\<lparr>hw := control (chip d) P True (hw d)\<rparr>) ch"
  using assms(3,4) control_on [OF assms(1) chip_methods(3) [OF assms(2)]] by (simp add: armed_def)

lemma toggle_sensors_eq [simp]:
  "toggle_sensors on d = d\<lparr>zone_on := (\<lambda>i. if i < chn_num (chip d) then on else zone_on d i)\<rparr>"
proof -
  have "fold (\<lambda>i. rockchip_thermal_toggle_sensor i on) is d
      = d\<lparr>zone_on := (\<lambda>i. if i \<in> set is then on else zone_on d i)\<rparr>" for "is"
    by (induction "is" arbitrary: d) (auto simp: rockchip_thermal_toggle_sensor_def fun_eq_iff)
  then show ?thesis by (simp add: toggle_sensors_def)
qed

text \<open>The loops over the sensors arm every channel.\<close>

lemma arm_all_armed:
  assumes P: "plain_config P" and c: "chip d \<in> snd ` set of_rockchip_thermal_match"
    and code: "shut_code d x" and ch: "\<forall>i \<in> set is. sensor_ids d ! i < 4"
  shows "\<exists>h. arm_all P is d = Some (d\<lparr>hw := h\<rparr>)
    \<and> (\<forall>ch < 4. armed P d ch \<or> (\<exists>i \<in> set is. ch = sensor_ids d ! i) \<longrightarrow> armed P (d\<lparr>hw := h\<rparr>) ch)"
  using c code ch
proof (induction "is" arbitrary: d)
  case Nil
  then show ?case by (intro exI [of _ "hw d"]) simp
next
  case (Cons i "is")
  obtain h where h: "arm_tshut P (sensor_ids d ! i) d = Some (d\<lparr>hw := h\<rparr>)" "armed P (d\<lparr>hw := h\<rparr>) (sensor_ids d ! i)"
    "\<And>ch. ch < 4 \<Longrightarrow> armed P d ch \<Longrightarrow> armed P (d\<lparr>hw := h\<rparr>) ch"
    using arm_tshut_armed [OF P Cons.prems(1,2), of "sensor_ids d ! i"] Cons.prems(3) by auto
  obtain h' where h': "arm_all P is (d\<lparr>hw := h\<rparr>) = Some (d\<lparr>hw := h'\<rparr>)"
    "\<And>ch. ch < 4 \<Longrightarrow> armed P (d\<lparr>hw := h\<rparr>) ch \<Longrightarrow> armed P (d\<lparr>hw := h'\<rparr>) ch"
    "\<And>j. j \<in> set is \<Longrightarrow> armed P (d\<lparr>hw := h'\<rparr>) (sensor_ids d ! j)"
    using Cons.IH [of "d\<lparr>hw := h\<rparr>"] Cons.prems by (auto simp: shut_code_def)
  have "armed P (d\<lparr>hw := h'\<rparr>) ch" if "ch < 4" "armed P d ch \<or> (\<exists>j \<in> set (i # is). ch = sensor_ids d ! j)" for ch
    using that h(2,3) h'(2,3) Cons.prems(3) by (metis set_ConsD)
  with h(1) h'(1) show ?case by (intro exI [of _ h']) simp
qed

lemma register_sensors_armed:
  assumes P: "plain_config P" and c: "chip d \<in> snd ` set of_rockchip_thermal_match"
    and code: "shut_code d x" and "is": "\<forall>i \<in> set is. i < 2" "distinct is" and len: "length (sensor_ids d) = 2"
    and r: "register_sensors P env is d = Some (d', None)"
  shows "(\<exists>h ids. d' = d\<lparr>hw := h, sensor_ids := ids\<rparr> \<and> length ids = 2
      \<and> (\<forall>i < 2. ids ! i = (if i \<in> set is then chn_id (chip d) ! i else sensor_ids d ! i)))
    \<and> (\<forall>ch < 4. armed P d ch \<or> (\<exists>i \<in> set is. ch = chn_id (chip d) ! i) \<longrightarrow> armed P d' ch)"
  using c code "is" len r
proof (induction "is" arbitrary: d)
  case Nil
  then show ?case by (auto intro!: exI [of _ "hw d"] exI [of _ "sensor_ids d"])
next
  case (Cons i "is")
  let ?ch = "chn_id (chip d) ! i"
  have ch: "?ch < 4" using chip_methods(6,7) [OF Cons.prems(1)] Cons.prems(3) by auto
  obtain h where h: "arm_tshut P ?ch d = Some (d\<lparr>hw := h\<rparr>)" "armed P (d\<lparr>hw := h\<rparr>) ?ch"
    "\<And>ch. ch < 4 \<Longrightarrow> armed P d ch \<Longrightarrow> armed P (d\<lparr>hw := h\<rparr>) ch"
    using arm_tshut_armed [OF P Cons.prems(1,2) ch] by auto
  let ?d1 = "d\<lparr>hw := h, sensor_ids := (sensor_ids d)[i := ?ch]\<rparr>"
  have r1: "register_sensors P env is ?d1 = Some (d', None)"
    using Cons.prems(6) h(1) by (auto simp: rockchip_thermal_register_sensor_def split: option.splits)
  have IH: "(\<exists>h ids. d' = ?d1\<lparr>hw := h, sensor_ids := ids\<rparr> \<and> length ids = 2
      \<and> (\<forall>j < 2. ids ! j = (if j \<in> set is then chn_id (chip ?d1) ! j else sensor_ids ?d1 ! j)))
    \<and> (\<forall>ch < 4. armed P ?d1 ch \<or> (\<exists>j \<in> set is. ch = chn_id (chip ?d1) ! j) \<longrightarrow> armed P d' ch)"
    by (rule Cons.IH) (use Cons.prems r1 in \<open>simp_all add: shut_code_def\<close>)
  have a1: "armed P ?d1 ch \<longleftrightarrow> armed P (d\<lparr>hw := h\<rparr>) ch" for ch by (simp add: armed_def)
  from IH obtain h' ids where d': "d' = d\<lparr>hw := h', sensor_ids := ids\<rparr>" "length ids = 2"
    "\<And>j. j < 2 \<Longrightarrow> ids ! j = (if j \<in> set is then chn_id (chip d) ! j else (sensor_ids d)[i := ?ch] ! j)"
    by auto
  have "ids ! j = (if j \<in> set (i # is) then chn_id (chip d) ! j else sensor_ids d ! j)" if "j < 2" for j
    using d'(3) [OF that] that Cons.prems(5) by auto
  moreover have "armed P d' ch" if "ch < 4" "armed P d ch \<or> (\<exists>j \<in> set (i # is). ch = chn_id (chip d) ! j)" for ch
    using that IH h(2,3) by (auto simp: a1)
  ultimately show ?case
    using d'(1,2) by (intro conjI exI [of _ h'] exI [of _ ids]) simp_all
qed

text \<open>
  Resuming arms the shutdown of every channel again, starts the controller, enables every
  zone and takes back the clock reference that suspending dropped.
\<close>

theorem rockchip_thermal_resume_arms:
  assumes P: "plain_config P" and c: "chip d \<in> snd ` set of_rockchip_thermal_match"
    and code: "shut_code d x" and ids: "\<forall>i < chn_num (chip d). sensor_ids d ! i < 4"
    and grf: "grf_ok d"
  shows "\<exists>d'. rockchip_thermal_resume P None (rockchip_thermal_suspend P d) = Some (d', None)
    \<and> enabled d' = enabled d
    \<and> (\<forall>i < chn_num (chip d). armed P d' (sensor_ids d ! i) \<and> zone_on d' i)
    \<and> bit (readl_relaxed P (hw d') TSADCV2_AUTO_CON) 0"
proof -
  define s where "s = rockchip_thermal_suspend P d"
  have s: "chip s = chip d" "grf_ok s = grf_ok d" "sensor_ids s = sensor_ids d" "tshut_temp s = tshut_temp d" "enabled s = enabled d - 1"
    by (simp_all add: s_def rockchip_thermal_suspend_def Let_def thermal_pinctrl_select_gpio_def)
  define d1 where "d1 = rockchip_thermal_reset_controller P (s\<lparr>enabled := enabled s + 1\<rparr>)"
  have d1: "chip d1 = chip d" "grf_ok d1 = grf_ok d" "sensor_ids d1 = sensor_ids d" "tshut_temp d1 = tshut_temp d" "enabled d1 = enabled d"
    by (simp_all add: d1_def rockchip_thermal_reset_controller_def s)
  obtain h where h: "initialize (chip d1) P (grf_ok d1) (tshut_polarity d1) (hw d1) = Some h"
    using initialize_some [OF c, of P "tshut_polarity d1" "hw d1"] grf by (auto simp: d1)
  let ?d2 = "d1\<lparr>hw := h\<rparr>"
  have 2: "chip ?d2 \<in> snd ` set of_rockchip_thermal_match" "shut_code ?d2 x"
    "\<forall>i \<in> set [0..<chn_num (chip d1)]. sensor_ids ?d2 ! i < 4"
    using c code ids by (simp_all add: d1 shut_code_def)
  obtain h2 where h2: "arm_all P [0..<chn_num (chip d1)] ?d2 = Some (?d2\<lparr>hw := h2\<rparr>)"
    and a2: "\<forall>ch < 4. armed P ?d2 ch \<or> (\<exists>i \<in> set [0..<chn_num (chip d1)]. ch = sensor_ids ?d2 ! i)
        \<longrightarrow> armed P (?d2\<lparr>hw := h2\<rparr>) ch"
    using arm_all_armed [OF P 2] by blast
  have arm2: "armed P (?d2\<lparr>hw := h2\<rparr>) (sensor_ids d ! i)" if "i < chn_num (chip d)" for i
    using a2 [THEN spec, of "sensor_ids d ! i"] that ids by (auto simp: d1)
  let ?d3 = "?d2\<lparr>hw := h2\<rparr>"
  let ?d4 = "toggle_sensors True (?d3\<lparr>hw := control (chip ?d3) P True (hw ?d3)\<rparr>)"
  define d' where "d' = (if tshut_mode ?d4 = TSHUT_MODE_OTP then thermal_pinctrl_select_otp ?d4 else ?d4)"
  have r: "rockchip_thermal_resume P None s = Some (d', None)"
    using h h2 by (auto simp: rockchip_thermal_resume_def Let_def d1_def [symmetric] d'_def)
  have arm4: "armed P ?d4 (sensor_ids d ! i)" if "i < chn_num (chip d)" for i
  proof -
    have "armed P (?d3\<lparr>hw := control (chip ?d3) P True (hw ?d3)\<rparr>) (sensor_ids d ! i)"
      by (rule control_armed [OF P]) (use c ids that arm2 in \<open>simp_all add: d1\<close>)
    then show ?thesis by (simp add: armed_def)
  qed
  have same: "armed P d' ch = armed P ?d4 ch" "enabled d' = enabled ?d4" "zone_on d' = zone_on ?d4" "hw d' = hw ?d4" for ch
    by (simp_all add: d'_def thermal_pinctrl_select_otp_def armed_def)
  have "bit (readl_relaxed P (hw d') TSADCV2_AUTO_CON) 0"
    using control_on(3) [OF P chip_methods(3) [OF c]] by (simp add: same d1)
  with arm4 r show ?thesis unfolding s_def by (intro exI [of _ d']) (simp add: same d1)
qed

text \<open>What configuring and selecting the pins leave alone.\<close>

lemma configure_frame:
  assumes "rockchip_configure_from_dt env d = (d', e)"
  shows "chip d' = chip d" "enabled d' = enabled d" "prepared d' = prepared d"
    "irq_requested d' = irq_requested d" "sensor_ids d' = sensor_ids d"
  using assms
  by (auto simp: rockchip_configure_from_dt_def configure_trim_def Let_def split: option.splits if_splits prod.splits)

lemma probe_pins_frame:
  assumes "probe_pins env d = Some d'"
  shows "chip d' = chip d" "enabled d' = enabled d" "prepared d' = prepared d"
    "irq_requested d' = irq_requested d" "sensor_ids d' = sensor_ids d"
  using assms
  by (auto simp: probe_pins_def thermal_pinctrl_select_otp_def split: if_splits)

lemma arm_tshut_frame: "arm_tshut P ch d = Some d' \<Longrightarrow> \<exists>h. d' = d\<lparr>hw := h\<rparr>"
  by (auto simp: arm_tshut_def Let_def)

lemma register_sensors_frame:
  "register_sensors P env is d = Some (d', e) \<Longrightarrow> chip d' = chip d \<and> enabled d' = enabled d
   \<and> prepared d' = prepared d \<and> irq_requested d' = irq_requested d \<and> tshut_temp d' = tshut_temp d"
proof (induction "is" arbitrary: d)
  case (Cons i "is")
  then obtain d1 where d1: "arm_tshut P (chn_id (chip d) ! i) d = Some d1"
    by (auto simp: rockchip_thermal_register_sensor_def Option.bind_eq_Some_conv)
  from arm_tshut_frame [OF this] obtain h where h: "d1 = d\<lparr>hw := h\<rparr>" by blast
  from Cons.prems d1 h Cons.IH show ?case
    by (fastforce simp: rockchip_thermal_register_sensor_def split: option.splits)
qed simp

lemma register_sensors_ids:
  "register_sensors P env is d = Some (d', None) \<Longrightarrow> \<forall>i \<in> set is. i < length (sensor_ids d) \<Longrightarrow> distinct is \<Longrightarrow>
   length (sensor_ids d') = length (sensor_ids d) \<and>
   (\<forall>i. sensor_ids d' ! i = (if i \<in> set is then chn_id (chip d) ! i else sensor_ids d ! i))"
proof (induction "is" arbitrary: d)
  case (Cons i "is")
  let ?ids = "(sensor_ids d)[i := chn_id (chip d) ! i]"
  from Cons.prems(1) obtain d1 where d1: "arm_tshut P (chn_id (chip d) ! i) d = Some d1"
    by (auto simp: rockchip_thermal_register_sensor_def Option.bind_eq_Some_conv)
  from arm_tshut_frame [OF this] obtain h where h: "d1 = d\<lparr>hw := h\<rparr>" by blast
  have "register_sensors P env is (d\<lparr>hw := h, sensor_ids := ?ids\<rparr>) = Some (d', None)"
    using Cons.prems(1) d1 h by (auto simp: rockchip_thermal_register_sensor_def split: option.splits)
  from Cons.IH [OF this] Cons.prems show ?case by (auto simp: nth_list_update)
qed simp

lemma probe_clocked_result:
  assumes P: "plain_config P" and r: "probe_clocked P env d = Some (d', e)"
    and d: "chip d \<in> snd ` set of_rockchip_thermal_match" "enabled d = 1" "prepared d = 1"
      "length (sensor_ids d) = 2" "\<not> irq_requested d"
  shows "case e of
      None \<Rightarrow>
        enabled d' = 1 \<and> prepared d' = 1 \<and> irq_requested d' \<and> panic_registered d'
      \<and> chip d' \<in> snd ` set of_rockchip_thermal_match
      \<and> (\<forall>i < chn_num (chip d'). sensor_ids d' ! i = chn_id (chip d') ! i \<and> zone_on d' i)
      \<and> (\<forall>x. shut_code d' x \<longrightarrow> (\<forall>i < chn_num (chip d'). armed P d' (sensor_ids d' ! i)))
      \<and> bit (readl_relaxed P (hw d') TSADCV2_AUTO_CON) 0
    | Some err \<Rightarrow> enabled d' = 0 \<and> prepared d' = 0 \<and> \<not> irq_requested d'"
proof -
  define d1 where "d1 = rockchip_thermal_reset_controller P (d\<lparr>hw := control (chip d) P False (hw d)\<rparr>)"
  obtain d2 e2 where c2: "rockchip_configure_from_dt env d1 = (d2, e2)" by fastforce
  have f2: "chip d2 = chip d" "enabled d2 = 1" "prepared d2 = 1" "\<not> irq_requested d2" "length (sensor_ids d2) = 2"
    using configure_frame [OF c2] d by (simp_all add: d1_def rockchip_thermal_reset_controller_def)
  note r2 = r [unfolded probe_clocked_def, folded d1_def, unfolded Let_def c2 prod.case]
  show ?thesis
  proof (cases e2)
    case (Some err)
    with r2 f2 show ?thesis by (auto simp: clk_bulk_disable_unprepare_def)
  next
    case None
    then obtain h d3 d4 e4 where
      c3: "probe_pins env (d2\<lparr>hw := h\<rparr>) = Some d3"
      and c4: "register_sensors P env [0..<chn_num (chip d3)] d3 = Some (d4, e4)"
      and r4: "(case e4 of Some err \<Rightarrow> Some (clk_bulk_disable_unprepare d4, Some err)
          | None \<Rightarrow>
            (case irq_error env of Some err \<Rightarrow> Some (clk_bulk_disable_unprepare d4, Some err)
             | None \<Rightarrow>
               Some (toggle_sensors True (d4\<lparr>irq_requested := True, hw := control (chip d4) P True (hw d4)\<rparr>)
                 \<lparr>panic_registered := True\<rparr>, None))) = Some (d', e)"
      using r2 by (auto simp: Option.bind_eq_Some_conv Let_def)
    have f3: "chip d3 = chip d" "enabled d3 = 1" "prepared d3 = 1" "\<not> irq_requested d3" "length (sensor_ids d3) = 2"
      using probe_pins_frame [OF c3] f2 by simp_all
    have f4: "chip d4 = chip d" "enabled d4 = 1" "prepared d4 = 1" "\<not> irq_requested d4"
      using register_sensors_frame [OF c4] f3 by simp_all
    show ?thesis
    proof (cases "e4 = None \<and> irq_error env = None")
      case False
      with r4 f4 show ?thesis by (auto simp: clk_bulk_disable_unprepare_def split: option.splits)
    next
      case True
      let ?d5 = "d4\<lparr>irq_requested := True, hw := control (chip d4) P True (hw d4)\<rparr>"
      have d': "d' = (toggle_sensors True ?d5)\<lparr>panic_registered := True\<rparr>" "e = None" using r4 True by auto
      have arm: "sensor_ids d4 ! i = chn_id (chip d) ! i \<and> armed P ?d5 (sensor_ids d4 ! i)"
        if x: "shut_code d4 x" and i: "i < chn_num (chip d)" for x i
      proof -
        have n: "chn_num (chip d) \<le> 2" using chip_methods(5) [OF d(1)] .
        have "shut_code d3 x" using x register_sensors_frame [OF c4] by (simp add: shut_code_def)
        then have R: "(\<exists>h ids. d4 = d3\<lparr>hw := h, sensor_ids := ids\<rparr> \<and> length ids = 2
            \<and> (\<forall>i < 2. ids ! i = (if i \<in> set [0..<chn_num (chip d3)] then chn_id (chip d3) ! i else sensor_ids d3 ! i)))
          \<and> (\<forall>ch < 4. armed P d3 ch \<or> (\<exists>i \<in> set [0..<chn_num (chip d3)]. ch = chn_id (chip d3) ! i) \<longrightarrow> armed P d4 ch)"
          using c4 True d(1) n f3 by (intro register_sensors_armed [OF P]) simp_all
        have ch: "chn_id (chip d) ! i < 4" using chip_methods(6,7) [OF d(1)] i n by auto
        have id4: "sensor_ids d4 ! i = chn_id (chip d) ! i" using R [THEN conjunct1] i n by (auto simp: f3)
        have a4: "armed P d4 (chn_id (chip d) ! i)"
          using R [THEN conjunct2, THEN spec, of "chn_id (chip d) ! i"] ch i by (auto simp: f3)
        have "armed P (d4\<lparr>hw := control (chip d4) P True (hw d4)\<rparr>) (sensor_ids d4 ! i)"
          by (rule control_armed [OF P]) (use d(1) ch id4 a4 in \<open>simp_all add: f4\<close>)
        then show ?thesis using id4 by (simp add: armed_def)
      qed
      have same: "armed P d' ch = armed P ?d5 ch" "shut_code d' x = shut_code d4 x" "chip d' = chip d"
        "sensor_ids d' = sensor_ids d4" for ch x
        by (simp_all add: d' armed_def shut_code_def f4)
      have "enabled d' = 1 \<and> prepared d' = 1 \<and> irq_requested d' \<and> panic_registered d'"
        "\<forall>i < chn_num (chip d). zone_on d' i"
        by (simp_all add: d' f4)
      moreover have "\<forall>i < chn_num (chip d). sensor_ids d' ! i = chn_id (chip d) ! i"
        using register_sensors_ids [of P env "[0..<chn_num (chip d3)]" d3 d4] c4 True chip_methods(5) [OF d(1)]
        by (simp add: same f3)
      moreover have "bit (readl_relaxed P (hw d') TSADCV2_AUTO_CON) 0"
        using control_on(3) [OF P chip_methods(3) [OF d(1)]] by (simp add: d' f4)
      ultimately show ?thesis
        using d(1) d'(2) by (auto simp: same dest: arm)
    qed
  qed
qed

text \<open>
  C6: A probe that ends well has registered the sensor and enabled the zone of every channel of the chip and started the
  controller, with one reference on the clocks; and it has armed the shutdown of every channel if the temperature for it
  lies in the table of the chip (for any other one the driver only prints a message). A probe that fails leaves no
  reference on the clocks. The configuration registers are taken to read as they were written.
\<close>

theorem rockchip_thermal_probe_result:
  assumes P: "plain_config P" and r: "rockchip_thermal_probe P env h = Some (dopt, e)"
  shows "case (dopt, e) of
      (Some d, None) \<Rightarrow>
        enabled d = 1 \<and> prepared d = 1 \<and> irq_requested d \<and> panic_registered d
      \<and> chip d \<in> snd ` set of_rockchip_thermal_match
      \<and> (\<forall>i < chn_num (chip d). sensor_ids d ! i = chn_id (chip d) ! i \<and> zone_on d i)
      \<and> (\<forall>x. shut_code d x \<longrightarrow> (\<forall>i < chn_num (chip d). armed P d (sensor_ids d ! i)))
      \<and> bit (readl_relaxed P (hw d) TSADCV2_AUTO_CON) 0
    | (Some d, Some err) \<Rightarrow> enabled d = 0 \<and> prepared d = 0 \<and> \<not> irq_requested d
    | (None, None) \<Rightarrow> False | (None, Some err) \<Rightarrow> True"
proof (cases dopt)
  case None
  with r show ?thesis
    by (auto simp: rockchip_thermal_probe_def dest!: sym [of "Some _"] split: option.splits if_splits)
next
  case (Some d)
  define init where "init c = \<lparr>chip = c, hw = h, grf_ok = False, tshut_temp = 0, trim = 0, tshut_mode = 0,
                   tshut_polarity = 0, pinctrl_ok = True, gpio_ok = False, otp_ok = False, pins = None,
                   sensor_ids = replicate 2 0, zone_on = (\<lambda>_. False), prepared = 1, enabled = 1,
                   irq_requested = False, panic_registered = False, zone_updates = []\<rparr>" for c
  note r1 = r [unfolded Some rockchip_thermal_probe_def, folded init_def]
  obtain c where m: "map_of of_rockchip_thermal_match (compatible env) = Some c"
    and p: "probe_clocked P env (init c) = Some (d, e)"
    using r1 by (auto split: option.splits if_splits)
  have c: "c \<in> snd ` set of_rockchip_thermal_match"
    using map_of_SomeD [OF m] by (auto intro: rev_image_eqI)
  show ?thesis
    using probe_clocked_result [OF P p] c Some by (simp add: init_def split: option.splits)
qed

text \<open>
  At shutdown a driver that used the pin routes every channel to the clock and reset unit
  instead, and gives the pin back.
\<close>

theorem rockchip_thermal_shutdown_routes:
  assumes P: "plain_config P" and c: "chip d \<in> snd ` set of_rockchip_thermal_match"
    and mode: "tshut_mode d = TSHUT_MODE_OTP" and ids: "\<forall>i < chn_num (chip d). sensor_ids d ! i < 4"
    and pin: "pinctrl_ok d" "gpio_ok d"
  shows "pins (rockchip_thermal_shutdown P d) = Some Pin_gpio
    \<and> (\<forall>i < chn_num (chip d).
         bit (readl_relaxed P (hw (rockchip_thermal_shutdown P d)) TSADCV2_INT_EN) (8 + sensor_ids d ! i)
       \<and> \<not> bit (readl_relaxed P (hw (rockchip_thermal_shutdown P d)) TSADCV2_INT_EN) (4 + sensor_ids d ! i))"
proof -
  let ?f = "\<lambda>i d. if tshut_mode d \<noteq> TSHUT_MODE_CRU
            then d\<lparr>hw := set_tshut_mode (chip d) P (grf_ok d) (sensor_ids d ! i) TSHUT_MODE_CRU (hw d)\<rparr> else d"
  note m = chip_methods(2) [OF c]
  have neq: "TSHUT_MODE_CRU \<noteq> TSHUT_MODE_OTP" by (simp add: TSHUT_MODE_OTP_def TSHUT_MODE_CRU_def)
  have loop: "\<exists>h. fold ?f is (d\<lparr>hw := h0\<rparr>) = d\<lparr>hw := h\<rparr>
      \<and> (\<forall>ch < 4. (\<exists>i \<in> set is. ch = sensor_ids d ! i)
            \<or> bit (readl_relaxed P h0 TSADCV2_INT_EN) (8 + ch) \<and> \<not> bit (readl_relaxed P h0 TSADCV2_INT_EN) (4 + ch)
          \<longrightarrow> bit (readl_relaxed P h TSADCV2_INT_EN) (8 + ch) \<and> \<not> bit (readl_relaxed P h TSADCV2_INT_EN) (4 + ch))"
    if "\<forall>i \<in> set is. sensor_ids d ! i < 4" for "is" h0
    using that
  proof (induction "is" arbitrary: h0)
    case (Cons i "is")
    let ?h = "set_tshut_mode (chip d) P (grf_ok d) (sensor_ids d ! i) TSHUT_MODE_CRU h0"
    have r: "readl_relaxed P ?h TSADCV2_INT_EN = tshut_int_en (sensor_ids d ! i) TSHUT_MODE_CRU (readl_relaxed P h0 TSADCV2_INT_EN)"
      using Cons.prems by (intro tshut_mode_reads(1) [OF P m]) auto
    have eq: "fold ?f (i # is) (d\<lparr>hw := h0\<rparr>) = fold ?f is (d\<lparr>hw := ?h\<rparr>)"
      using mode neq by simp
    obtain h where h: "fold ?f is (d\<lparr>hw := ?h\<rparr>) = d\<lparr>hw := h\<rparr>"
      and b: "\<And>ch. ch < 4 \<Longrightarrow> (\<exists>i \<in> set is. ch = sensor_ids d ! i)
            \<or> bit (readl_relaxed P ?h TSADCV2_INT_EN) (8 + ch) \<and> \<not> bit (readl_relaxed P ?h TSADCV2_INT_EN) (4 + ch)
          \<Longrightarrow> bit (readl_relaxed P h TSADCV2_INT_EN) (8 + ch) \<and> \<not> bit (readl_relaxed P h TSADCV2_INT_EN) (4 + ch)"
      using Cons.IH [of ?h] Cons.prems by auto
    have "bit (readl_relaxed P ?h TSADCV2_INT_EN) (8 + ch) \<and> \<not> bit (readl_relaxed P ?h TSADCV2_INT_EN) (4 + ch)"
      if "ch < 4" "ch = sensor_ids d ! i \<or> bit (readl_relaxed P h0 TSADCV2_INT_EN) (8 + ch)
            \<and> \<not> bit (readl_relaxed P h0 TSADCV2_INT_EN) (4 + ch)" for ch
      using that Cons.prems unfolding r by (auto simp: bit_tshut_int_en neq)
    then have "bit (readl_relaxed P h TSADCV2_INT_EN) (8 + ch) \<and> \<not> bit (readl_relaxed P h TSADCV2_INT_EN) (4 + ch)"
      if "ch < 4" "(\<exists>j \<in> set (i # is). ch = sensor_ids d ! j)
          \<or> bit (readl_relaxed P h0 TSADCV2_INT_EN) (8 + ch) \<and> \<not> bit (readl_relaxed P h0 TSADCV2_INT_EN) (4 + ch)" for ch
      using that by (intro b) auto
    then show ?case using eq h by (intro exI [of _ h]) auto
  qed (auto intro: exI [of _ h0])
  have d0: "d\<lparr>hw := hw d\<rparr> = d" by simp
  have "\<forall>i \<in> set [0..<chn_num (chip d)]. sensor_ids d ! i < 4" using ids by simp
  from loop [OF this, of "hw d", unfolded d0] obtain h
    where h: "fold ?f [0..<chn_num (chip d)] d = d\<lparr>hw := h\<rparr>"
      and b: "\<forall>ch < 4. (\<exists>i \<in> set [0..<chn_num (chip d)]. ch = sensor_ids d ! i)
            \<or> bit (readl_relaxed P (hw d) TSADCV2_INT_EN) (8 + ch) \<and> \<not> bit (readl_relaxed P (hw d) TSADCV2_INT_EN) (4 + ch)
          \<longrightarrow> bit (readl_relaxed P h TSADCV2_INT_EN) (8 + ch) \<and> \<not> bit (readl_relaxed P h TSADCV2_INT_EN) (4 + ch)"
    by (elim exE conjE)
  have "bit (readl_relaxed P h TSADCV2_INT_EN) (8 + sensor_ids d ! i)
        \<and> \<not> bit (readl_relaxed P h TSADCV2_INT_EN) (4 + sensor_ids d ! i)" if i: "i < chn_num (chip d)" for i
  proof -
    have "\<exists>j \<in> set [0..<chn_num (chip d)]. sensor_ids d ! i = sensor_ids d ! j" using i by auto
    with b [THEN spec, of "sensor_ids d ! i"] ids i show ?thesis by blast
  qed
  then show ?thesis
    using mode pin by (simp add: rockchip_thermal_shutdown_def h thermal_pinctrl_select_gpio_def)
qed

text \<open>
  On the PX30 a device tree without the register file is only warned about, and then the
  initialisation writes through the error pointer: probing does not return.
\<close>

theorem px30_probe_without_grf:
  fixes P :: "'hw tsadc_port"
  assumes "compatible env = ''rockchip,px30-tsadc''" "0 \<le> platform_irq env" "alloc_ok env"
    "ioremap_error env = None" "reset_error env = None" "1 \<le> num_clks env" "clk_error env = None"
    and dt: "dt_shut_temp env = None" "dt_tshut_mode env = None" "dt_tshut_polarity env = None" "\<not> dt_grf env"
  shows "rockchip_thermal_probe P env h = None"
proof -
  have "map_of (of_rockchip_thermal_match :: (string \<times> 'hw tsadc_chip) list) (compatible env) = Some px30_tsadc_data"
    using assms(1) by (simp add: of_rockchip_thermal_match_def)
  with assms(2-7) dt show ?thesis
    by (simp add: rockchip_thermal_probe_def probe_clocked_def rockchip_configure_from_dt_def Let_def
        rockchip_thermal_reset_controller_def px30_tsadc_data_def rk_tsadcv4_initialize_def
        rk_tsadcv2_initialize_def TSHUT_MODE_CRU_def configure_trim_def)
qed

section \<open>Witnesses\<close>

text \<open>A plain register file, the RK3568 on it, and a device tree that leaves the defaults.\<close>

definition tsim_port :: "(u32 \<Rightarrow> u32) tsadc_port" where
  "tsim_port = \<lparr>readl_relaxed = (\<lambda>h r. h r), writel_relaxed = fun_upd, regmap_write = (\<lambda>h _ _. h), pulse_reset = (\<lambda>_ _. 0)\<rparr>"

definition sim_thermal :: "(u32 \<Rightarrow> u32) thermal_data" where
  "sim_thermal = \<lparr>chip = rk3568_tsadc_data, hw = (\<lambda>_. 0), grf_ok = True, tshut_temp = 95000, trim = 0,
     tshut_mode = TSHUT_MODE_OTP, tshut_polarity = 0, pinctrl_ok = True, gpio_ok = True, otp_ok = True,
     pins = Some Pin_otpout, sensor_ids = [0, 1], zone_on = (\<lambda>_. True), prepared = 1, enabled = 1,
     irq_requested = True, panic_registered = True, zone_updates = []\<rparr>"

definition tsim_env :: "string \<Rightarrow> bool \<Rightarrow> probe_env" where
  "tsim_env name grf = \<lparr>compatible = name, platform_irq = 10, alloc_ok = True, ioremap_error = None,
     reset_error = None, num_clks = 2, clk_error = None, dt_shut_temp = None, dt_tshut_mode = None,
     dt_tshut_polarity = None, dt_grf = grf, efuse = (\<lambda>_. None), pinctrl_found = True, gpio_found = True,
     otp_found = True, zone_error = (\<lambda>_. None), irq_error = None\<rparr>"

lemma tsim_plain: "plain tsim_port r" "plain_config tsim_port"
  by (auto simp: plain_def plain_config_def tsim_port_def)

lemma tsim_chip: "rk3568_tsadc_data \<in> snd ` set of_rockchip_thermal_match"
  by (simp add: of_rockchip_thermal_match_def)

lemma tsim_table: "table rk3568_tsadc_data = code_table rk3568_code_table TSADCV2_DATA_MASK ADC_INCREMENT"
    "chn_num rk3568_tsadc_data = 2"
  by (simp_all add: rk3568_tsadc_data_def)

lemma all_less_2: "(\<forall>i < 2. Q i) \<longleftrightarrow> Q 0 \<and> Q (1 :: nat)"
  by (auto simp: less_2_cases_iff)

lemma tsim_fields:
  "chip sim_thermal = rk3568_tsadc_data" "sensor_ids sim_thermal = [0, 1]" "tshut_temp sim_thermal = 95000"
  "tshut_mode sim_thermal = TSHUT_MODE_OTP" "grf_ok sim_thermal" "pinctrl_ok sim_thermal" "gpio_ok sim_thermal"
  "enabled sim_thermal = 1"
  by (simp_all add: sim_thermal_def)

lemma tsim_code: "rk_tsadcv2_temp_to_code (code_table rk3568_code_table TSADCV2_DATA_MASK ADC_INCREMENT) 95000 = Some 2500"
  "data_mask (code_table rk3568_code_table TSADCV2_DATA_MASK ADC_INCREMENT) \<noteq> 2500"
  by code_simp+

theorem rk_tsadcv2_alarm_temp_arms_witness:
  "\<exists>h'. rk_tsadcv2_alarm_temp tsim_port (code_table rk3568_code_table TSADCV2_DATA_MASK ADC_INCREMENT) 1 (\<lambda>_. 0) 21250
     = Some (h', None) \<and> bit (h' TSADCV2_INT_EN) 1"
  using rk_tsadcv2_alarm_temp_arms [OF tsim_plain(2), of 1 "code_table rk3568_code_table TSADCV2_DATA_MASK ADC_INCREMENT" 21250 "\<lambda>_. 0"]
  by (auto simp: rising_tables_def convertible_def table_consts rk3568_code_table_def tsim_port_def)

theorem rk_tsadcv2_alarm_temp_refuses_witness:
  "rk_tsadcv2_alarm_temp tsim_port (code_table rk3568_code_table TSADCV2_DATA_MASK ADC_INCREMENT) 1 (\<lambda>_. 0) 130000
     = Some (\<lambda>_. 0, Some ERANGE)"
  using rk_tsadcv2_alarm_temp_refuses [of "code_table rk3568_code_table TSADCV2_DATA_MASK ADC_INCREMENT" tsim_port 130000 1 "\<lambda>_. 0"]
  by (simp add: rising_tables_def table_consts tsim_plain INT_MAX_def)

theorem rockchip_thermal_resume_arms_witness:
  "\<exists>d'. rockchip_thermal_resume tsim_port None (rockchip_thermal_suspend tsim_port sim_thermal) = Some (d', None)
     \<and> enabled d' = 1 \<and> armed tsim_port d' 1"
proof -
  have "\<exists>d'. rockchip_thermal_resume tsim_port None (rockchip_thermal_suspend tsim_port sim_thermal) = Some (d', None)
    \<and> enabled d' = enabled sim_thermal
    \<and> (\<forall>i < chn_num (chip sim_thermal). armed tsim_port d' (sensor_ids sim_thermal ! i) \<and> zone_on d' i)
    \<and> bit (readl_relaxed tsim_port (hw d') TSADCV2_AUTO_CON) 0"
    by (rule rockchip_thermal_resume_arms [where x = 2500])
      (auto simp: tsim_plain tsim_chip tsim_fields shut_code_def tsim_table tsim_code less_2_cases_iff)
  then show ?thesis by (auto simp: tsim_fields tsim_table all_less_2 elim!: ex_forward)
qed

theorem rockchip_thermal_probe_result_witness:
  "\<exists>d. rockchip_thermal_probe tsim_port (tsim_env ''rockchip,rk3568-tsadc'' True) (\<lambda>_. 0) = Some (Some d, None)
     \<and> enabled d = 1 \<and> irq_requested d"
proof -
  have "rockchip_thermal_probe tsim_port (tsim_env ''rockchip,rk3568-tsadc'' True) (\<lambda>_. 0) \<noteq> None
      \<and> fst (the (rockchip_thermal_probe tsim_port (tsim_env ''rockchip,rk3568-tsadc'' True) (\<lambda>_. 0))) \<noteq> None
      \<and> snd (the (rockchip_thermal_probe tsim_port (tsim_env ''rockchip,rk3568-tsadc'' True) (\<lambda>_. 0))) = None"
    by code_simp
  then obtain d where r: "rockchip_thermal_probe tsim_port (tsim_env ''rockchip,rk3568-tsadc'' True) (\<lambda>_. 0) = Some (Some d, None)"
    by (metis option.collapse prod.collapse)
  from rockchip_thermal_probe_result [OF tsim_plain(2) r] r show ?thesis by simp
qed

theorem rockchip_thermal_shutdown_routes_witness:
  "pins (rockchip_thermal_shutdown tsim_port sim_thermal) = Some Pin_gpio
   \<and> bit (hw (rockchip_thermal_shutdown tsim_port sim_thermal) TSADCV2_INT_EN) 9"
proof -
  have "pins (rockchip_thermal_shutdown tsim_port sim_thermal) = Some Pin_gpio
    \<and> (\<forall>i < chn_num (chip sim_thermal).
         bit (readl_relaxed tsim_port (hw (rockchip_thermal_shutdown tsim_port sim_thermal)) TSADCV2_INT_EN) (8 + sensor_ids sim_thermal ! i)
       \<and> \<not> bit (readl_relaxed tsim_port (hw (rockchip_thermal_shutdown tsim_port sim_thermal)) TSADCV2_INT_EN) (4 + sensor_ids sim_thermal ! i))"
    by (rule rockchip_thermal_shutdown_routes)
      (auto simp: tsim_plain tsim_chip tsim_fields tsim_table less_2_cases_iff)
  note p = this [unfolded tsim_fields tsim_table all_less_2]
  have "readl_relaxed tsim_port h r = h r" for h r by (simp add: tsim_port_def)
  with p show ?thesis by simp
qed

theorem px30_probe_without_grf_witness:
  "rockchip_thermal_probe tsim_port (tsim_env ''rockchip,px30-tsadc'' False) (\<lambda>_. 0) = None"
  using px30_probe_without_grf [of "tsim_env ''rockchip,px30-tsadc'' False" tsim_port "\<lambda>_. 0"]
  by (simp add: tsim_env_def)

end
