(* ===== verification/Pll_Rate.thy ===== *)
theory Pll_Rate
  imports Prelude
begin

text \<open>
  The arithmetic of the PLL driver, \<open>drivers/clk/rockchip/clk-pll.c\<close>: the rate table, the search of
  a setting in it, and the two routines that compute a setting for a rate the table lacks.
  \<open>unsigned long\<close> has 64 bits. A division by zero, a read behind the table and a use of the NULL
  table are \<open>None\<close>.
\<close>

section \<open>Rates\<close>

definition MHZ :: u64 where "MHZ = 1000 * 1000"
definition KHZ :: u64 where "KHZ = 1000"

definition PLL_FREF_MIN :: u64 where "PLL_FREF_MIN = 269 * KHZ"
definition PLL_FREF_MAX :: u64 where "PLL_FREF_MAX = 2200 * MHZ"
definition PLL_FVCO_MIN :: u64 where "PLL_FVCO_MIN = 440 * MHZ"
definition PLL_FVCO_MAX :: u64 where "PLL_FVCO_MAX = 2200 * MHZ"
definition PLL_FOUT_MIN :: u64 where "PLL_FOUT_MIN = 27500 * KHZ"
definition PLL_FOUT_MAX :: u64 where "PLL_FOUT_MAX = 2200 * MHZ"
definition PLL_NF_MAX :: u32 where "PLL_NF_MAX = 4096"
definition PLL_NR_MAX :: u32 where "PLL_NR_MAX = 64"
definition PLL_NO_MAX :: u32 where "PLL_NO_MAX = 16"
definition MIN_FOUTVCO_FREQ :: u64 where "MIN_FOUTVCO_FREQ = 800 * MHZ"
definition MAX_FOUTVCO_FREQ :: u64 where "MAX_FOUTVCO_FREQ = 2000 * MHZ"

lemmas pll_consts = MHZ_def KHZ_def PLL_FREF_MIN_def PLL_FREF_MAX_def PLL_FVCO_MIN_def PLL_FVCO_MAX_def
  PLL_FOUT_MIN_def PLL_FOUT_MAX_def PLL_NF_MAX_def PLL_NR_MAX_def PLL_NO_MAX_def
  MIN_FOUTVCO_FREQ_def MAX_FOUTVCO_FREQ_def

text \<open>\<open>do_div(n, base)\<close> divides by the low 32 bits of the base.\<close>

definition do_div :: "u64 \<Rightarrow> u64 \<Rightarrow> u64 option" where
  "do_div n base = (let b = ucast (ucast base :: u32) in if b = 0 then None else Some (n div b))"

section \<open>The rate table\<close>

text \<open>
  \<open>struct rockchip_pll_rate_table\<close>. The fields of the RK3066 share the storage of the first four of
  the others (an anonymous union), so they are other names of them.
\<close>

record rockchip_pll_rate_table =
  rate :: u64
  fbdiv :: u32
  postdiv1 :: u32
  refdiv :: u32
  postdiv2 :: u32
  dsmpd :: u32
  frac :: u32

abbreviation (input) nr_field :: "rockchip_pll_rate_table \<Rightarrow> u32" where "nr_field \<equiv> fbdiv"
abbreviation (input) nf_field :: "rockchip_pll_rate_table \<Rightarrow> u32" where "nf_field \<equiv> postdiv1"
abbreviation (input) no_field :: "rockchip_pll_rate_table \<Rightarrow> u32" where "no_field \<equiv> refdiv"
abbreviation (input) nb_field :: "rockchip_pll_rate_table \<Rightarrow> u32" where "nb_field \<equiv> postdiv2"

datatype rockchip_pll_type = pll_rk3036 | pll_rk3066 | pll_rk3328 | pll_rk3399

text \<open>
  The part of \<open>struct rockchip_clk_pll\<close> that choosing a setting uses, with the static
  \<open>auto_table\<close>; the table is None when it is NULL.
\<close>

record pll_rates =
  ptype :: rockchip_pll_type
  rate_table :: "rockchip_pll_rate_table list option"
  rate_count :: nat
  sel :: int
  scaling :: u64
  auto_table :: rockchip_pll_rate_table

definition rate_at :: "('a pll_rates_scheme) \<Rightarrow> nat \<Rightarrow> rockchip_pll_rate_table option" where
  "rate_at d i = Option.bind (rate_table d) (\<lambda>t. if i < length t then Some (t ! i) else None)"

text \<open>The first entry from \<open>i\<close> on, below \<open>rate_count\<close>, whose rate satisfies \<open>p\<close>.\<close>

function scan_rates :: "('a pll_rates_scheme) \<Rightarrow> (u64 \<Rightarrow> bool) \<Rightarrow> nat \<Rightarrow> nat option option" where
  "scan_rates d p i =
     (if i < rate_count d
      then Option.bind (rate_at d i) (\<lambda>t. if p (rate t) then Some (Some i) else scan_rates d p (i + 1))
      else Some None)"
  by pat_completeness auto
termination by (relation "measure (\<lambda>(d, p, i). rate_count d - i)") auto

declare scan_rates.simps [simp del]

text \<open>The clock's parent is None when there is none.\<close>

definition rockchip_pll_clk_adaptive_scaling ::
  "'a pll_rates_scheme option \<Rightarrow> int \<Rightarrow> errno + 'a pll_rates_scheme" where
  "rockchip_pll_clk_adaptive_scaling parent s =
     (case parent of None \<Rightarrow> Inl EINVAL | Some d \<Rightarrow> Inr (d\<lparr>sel := s\<rparr>))"

definition rockchip_pll_clk_rate_to_scale ::
  "'a pll_rates_scheme option \<Rightarrow> u64 \<Rightarrow> (errno + nat) option" where
  "rockchip_pll_clk_rate_to_scale parent r =
     (case parent of None \<Rightarrow> Some (Inl EINVAL)
      | Some d \<Rightarrow> map_option (\<lambda>i. case i of None \<Rightarrow> Inl EINVAL | Some i \<Rightarrow> Inr i)
          (scan_rates d (\<lambda>x. r \<ge> x) 0))"

text \<open>The rate is returned as an int.\<close>

definition rockchip_pll_clk_scale_to_rate ::
  "'a pll_rates_scheme option \<Rightarrow> nat \<Rightarrow> (errno + int) option" where
  "rockchip_pll_clk_scale_to_rate parent scale =
     (case parent of None \<Rightarrow> Some (Inl EINVAL)
      | Some d \<Rightarrow> if scale < rate_count d then map_option (\<lambda>t. Inr (s32 (uint (rate t)))) (rate_at d scale)
          else Some (Inl EINVAL))"

section \<open>A setting for the RK3036 family\<close>

text \<open>
  The post dividers: the first pair, the second divider varying fastest, that brings the rate into
  the range of the oscillator. When there is none both loops have run out, with 8 in both
  variables. The third component is \<open>*foutvco\<close>, which holds the rate on entry.
\<close>

definition rockchip_pll_clk_set_postdiv :: "u64 \<Rightarrow> u32 \<Rightarrow> u32 \<times> u32 \<times> u32" where
  "rockchip_pll_clk_set_postdiv fout_hz foutvco0 =
     (if fout_hz < MIN_FOUTVCO_FREQ
      then case find (\<lambda>(p1, p2). MIN_FOUTVCO_FREQ \<le> fout_hz * of_nat p1 * of_nat p2
                          \<and> fout_hz * of_nat p1 * of_nat p2 \<le> MAX_FOUTVCO_FREQ)
                (List.product [1..<8] [1..<8]) of
             Some (p1, p2) \<Rightarrow> (of_nat p1, of_nat p2, ucast (fout_hz * of_nat p1 * of_nat p2))
           | None \<Rightarrow> (8, 8, foutvco0)
      else (1, 1, foutvco0))"

definition gcd64 :: "u64 \<Rightarrow> u64 \<Rightarrow> u64" where
  "gcd64 a b = of_nat (gcd (unat a) (unat b))"

text \<open>
  \<open>rockchip_pll_clk_set_by_auto\<close>: \<open>Some None\<close> is NULL, \<open>Some (Some t)\<close> the static table with the
  contents \<open>t\<close>, and \<open>None\<close> a division by zero or the pointer -1.
\<close>

definition rockchip_pll_clk_set_by_auto ::
  "rockchip_pll_rate_table \<Rightarrow> u64 \<Rightarrow> u64 \<Rightarrow> rockchip_pll_rate_table option option" where
  "rockchip_pll_clk_set_by_auto auto fin_hz fout_hz =
     (if fin_hz = 0 \<or> fout_hz = 0 \<or> fout_hz = fin_hz then Some None
      else
        let (p1, p2, foutvco) = rockchip_pll_clk_set_postdiv fout_hz (ucast fout_hz);
            t = auto\<lparr>postdiv1 := p1, postdiv2 := p2, dsmpd := 1\<rparr> in
        if fin_hz div MHZ * MHZ = fin_hz \<and> fout_hz div MHZ * MHZ = fout_hz then
          let fin = fin_hz div MHZ;
              vco = ucast foutvco div MHZ;
              clk_gcd = gcd64 fin vco in
          if clk_gcd = 0 then None
          else Some (Some (t\<lparr>refdiv := ucast (fin div clk_gcd), fbdiv := ucast (vco div clk_gcd), frac := 0\<rparr>))
        else
          let clk_gcd = gcd64 (fin_hz div MHZ) (ucast foutvco div MHZ) in
          if clk_gcd = 0 then None
          else
            let rd = ucast (fin_hz div MHZ div clk_gcd);
                fb = ucast (ucast foutvco div MHZ div clk_gcd);
                f_frac = ucast (ucast foutvco mod MHZ) :: u32 in
            Option.bind (do_div fin_hz (ucast (rd :: u32))) (\<lambda>fin_64.
            Option.bind (do_div (push_bit 24 (ucast f_frac)) fin_64) (\<lambda>frac_64.
              let fr = ucast frac_64
              in Some (Some (t\<lparr>refdiv := rd, fbdiv := fb, frac := fr,
                     dsmpd := (if fr > 0 then 0 else dsmpd t)\<rparr>)))))"

section \<open>A setting for the RK3066\<close>

text \<open>
  The body of the loop over \<open>no\<close>: from the best setting \<open>(nr_out, nf_out, no_out)\<close> so far and one
  value of \<open>no\<close> to the next best.
\<close>

definition try_no :: "u64 \<Rightarrow> u32 \<Rightarrow> u32 \<Rightarrow> u32 \<Rightarrow> u32 \<times> u32 \<times> u32 \<Rightarrow> u32 \<times> u32 \<times> u32" where
  "try_no fin_hz nf nonr no best =
     (case best of (nr_out, nf_out, no_out) \<Rightarrow>
        if \<not> (no = 1 \<or> no mod 2 = 0) then best
        else if nonr mod no \<noteq> 0 then best
        else let nr = nonr div no in
          if nr > PLL_NR_MAX then best
          else let fref = fin_hz div ucast nr in
            if fref < PLL_FREF_MIN \<or> fref > PLL_FREF_MAX then best
            else let fvco = fref * ucast nf in
              if fvco < PLL_FVCO_MIN \<or> fvco > PLL_FVCO_MAX then best
              else let fout = fvco div ucast no in
                if fout < PLL_FOUT_MIN \<or> fout > PLL_FOUT_MAX then best
                else if no > no_out \<or> no = no_out \<and> nr < nr_out then (nr, nf, no)
                else best)"

partial_function (option) search_n ::
  "u64 \<Rightarrow> u32 \<Rightarrow> u32 \<Rightarrow> u32 \<Rightarrow> u32 \<times> u32 \<times> u32 \<Rightarrow> (u32 \<times> u32 \<times> u32) option"
where
  "search_n fin_hz numerator denominator n best =
     (let nf = numerator * n; nonr = denominator * n in
      if nf > PLL_NF_MAX \<or> nonr > PLL_NO_MAX * PLL_NR_MAX then Some best
      else search_n fin_hz numerator denominator (n + 1)
             (fold (\<lambda>no. try_no fin_hz nf nonr (of_nat no)) [1..<17] best))"

definition rockchip_rk3066_pll_clk_set_by_auto ::
  "rockchip_pll_rate_table \<Rightarrow> u64 \<Rightarrow> u64 \<Rightarrow> rockchip_pll_rate_table option option" where
  "rockchip_rk3066_pll_clk_set_by_auto auto fin_hz fout_hz =
     (if fin_hz = 0 \<or> fout_hz = 0 \<or> fout_hz = fin_hz then Some None
      else
        let clk_gcd = gcd64 fin_hz fout_hz in
        if clk_gcd = 0 then Some None
        else
          map_option (\<lambda>(nr_out, nf_out, no_out).
              if nr_out \<le> PLL_NR_MAX \<and> no_out > 0
              then Some (auto\<lparr>fbdiv := nr_out, postdiv1 := nf_out, refdiv := no_out\<rparr>) else None)
            (search_n fin_hz (ucast (fout_hz div clk_gcd)) (ucast (fin_hz div clk_gcd)) 1
               (PLL_NR_MAX + 1, 0, 0)))"

section \<open>The setting for a rate\<close>

definition XIN :: u64 where "XIN = 24 * MHZ"

definition rockchip_get_pll_settings ::
  "'a pll_rates_scheme \<Rightarrow> u64 \<Rightarrow> ('a pll_rates_scheme \<times> rockchip_pll_rate_table option) option" where
  "rockchip_get_pll_settings d r =
     Option.bind (scan_rates d (\<lambda>x. r = x) 0) (\<lambda>i.
       case i of
         Some i \<Rightarrow>
           if int i < sel d
           then map_option (\<lambda>t. (d\<lparr>scaling := r\<rparr>, Some t)) (rate_at d (nat (sel d)))
           else map_option (\<lambda>t. (d\<lparr>scaling := 0\<rparr>, Some t)) (rate_at d i)
       | None \<Rightarrow>
           map_option (\<lambda>t. case t of None \<Rightarrow> (d\<lparr>scaling := 0\<rparr>, None)
                 | Some t \<Rightarrow> (d\<lparr>scaling := 0, auto_table := t\<rparr>, Some t))
             (if ptype d = pll_rk3066 then rockchip_rk3066_pll_clk_set_by_auto (auto_table d) XIN r
              else rockchip_pll_clk_set_by_auto (auto_table d) XIN r))"

definition rockchip_pll_round_rate :: "u64 \<Rightarrow> u64" where
  "rockchip_pll_round_rate drate = drate"

section \<open>The rate of a setting\<close>

text \<open>
  What \<open>rockchip_rk3036_pll_recalc_rate\<close> and \<open>rockchip_rk3399_pll_recalc_rate\<close> compute from the
  parameters they have read.
\<close>

definition params_rate :: "u64 \<Rightarrow> rockchip_pll_rate_table \<Rightarrow> u64 option" where
  "params_rate prate cur =
     Option.bind (do_div (prate * ucast (fbdiv cur)) (ucast (refdiv cur))) (\<lambda>rate64.
     Option.bind (if dsmpd cur = 0
                  then map_option (\<lambda>q. rate64 + drop_bit 24 q)
                         (do_div (prate * ucast (frac cur)) (ucast (refdiv cur)))
                  else Some rate64) (\<lambda>rate64.
     Option.bind (do_div rate64 (ucast (postdiv1 cur))) (\<lambda>rate64.
       do_div rate64 (ucast (postdiv2 cur)))))"

section \<open>The settings of the RK3036 family\<close>

lemma do_div_u32: "do_div n (ucast (b :: u32)) = (if b = 0 then None else Some (n div ucast b))"
proof -
  have "ucast (ucast b :: u64) = b" by (rule bit_word_eqI) (simp add: bit_simps)
  moreover have "(ucast b = (0 :: u64)) = (b = 0)" by (simp add: word_unat_eq_iff)
  ultimately show ?thesis by (simp add: do_div_def Let_def)
qed

lemma unat_consts [simp]: "unat MHZ = 1000000" "unat MIN_FOUTVCO_FREQ = 800000000"
  "unat MAX_FOUTVCO_FREQ = 2000000000" "unat XIN = 24000000"
  by (simp_all add: pll_consts XIN_def)

lemma unat_scaled:
  assumes "unat f < 800000000" "p1 < 8" "p2 < 8"
  shows "unat (f * of_nat p1 * of_nat p2 :: u64) = unat f * p1 * p2"
proof -
  have "unat f * p1 \<le> 800000000 * 8" using assms by (intro mult_le_mono) auto
  moreover have "unat f * p1 * p2 \<le> 800000000 * 8 * 8" using assms by (intro mult_le_mono) auto
  ultimately show ?thesis using assms by (simp add: unat_word_ariths unat_of_nat)
qed

text \<open>The post dividers found, as numbers.\<close>

lemma find_SomeD: "find P xs = Some x \<Longrightarrow> x \<in> set xs \<and> P x"
  by (auto simp: find_Some_iff)

lemma postdiv_pair_exists:
  fixes F :: nat
  assumes "F < 800000000" "800000000 \<le> F * 49"
  shows "\<exists>p1 p2. 1 \<le> p1 \<and> p1 < 8 \<and> 1 \<le> p2 \<and> p2 < 8 \<and> 800000000 \<le> F * p1 * p2 \<and> F * p1 * p2 \<le> 2000000000"
proof -
  consider "400000000 \<le> F" | "160000000 \<le> F" "F < 400000000" | "66666667 \<le> F" "F < 160000000"
    | "26666667 \<le> F" "F < 66666667" | "F < 26666667" by linarith
  then show ?thesis
  proof cases
    case 1 then show ?thesis using assms by (intro exI [of _ 1] exI [of _ 2]) auto
  next
    case 2 then show ?thesis by (intro exI [of _ 1] exI [of _ 5]) auto
  next
    case 3 then show ?thesis by (intro exI [of _ 3] exI [of _ 4]) auto
  next
    case 4 then show ?thesis by (intro exI [of _ 5] exI [of _ 6]) auto
  next
    case 5 then show ?thesis using assms by (intro exI [of _ 7] exI [of _ 7]) auto
  qed
qed

lemma postdiv_cases:
  assumes "unat f < 800000000"
  shows "if 800000000 \<le> unat f * 49
    then \<exists>p1 p2. 1 \<le> p1 \<and> p1 < 8 \<and> 1 \<le> p2 \<and> p2 < 8
       \<and> 800000000 \<le> unat f * p1 * p2 \<and> unat f * p1 * p2 \<le> 2000000000
       \<and> rockchip_pll_clk_set_postdiv f v0 = (of_nat p1, of_nat p2, of_nat (unat f * p1 * p2))
    else rockchip_pll_clk_set_postdiv f v0 = (8, 8, v0)"
proof -
  let ?Q = "\<lambda>(p1, p2). MIN_FOUTVCO_FREQ \<le> f * of_nat p1 * of_nat p2 \<and> f * of_nat p1 * of_nat p2 \<le> MAX_FOUTVCO_FREQ"
  have Q: "?Q (p1, p2) \<longleftrightarrow> 800000000 \<le> unat f * p1 * p2 \<and> unat f * p1 * p2 \<le> 2000000000" if "p1 < 8" "p2 < 8" for p1 p2
    using unat_scaled [OF assms that] by (simp add: word_le_nat_alt)
  have lt: "f < MIN_FOUTVCO_FREQ" using assms by (simp add: word_less_nat_alt)
  show ?thesis
  proof (cases "find ?Q (List.product [1..<8] [1..<8])")
    case None
    then have no: "\<not> ?Q (p1, p2)" if "1 \<le> p1" "p1 < 8" "1 \<le> p2" "p2 < 8" for p1 p2
      using that unfolding find_None_iff by (metis (no_types, lifting) atLeastLessThan_iff set_product set_upt mem_Sigma_iff)
    have "\<not> 800000000 \<le> unat f * 49"
      using postdiv_pair_exists [OF assms] no Q by blast
    then show ?thesis using None lt by (simp add: rockchip_pll_clk_set_postdiv_def)
  next
    case (Some p)
    obtain p1 p2 where p: "p = (p1, p2)" by fastforce
    have b: "1 \<le> p1" "p1 < 8" "1 \<le> p2" "p2 < 8" and q: "?Q (p1, p2)"
      using find_SomeD [OF Some] unfolding p by auto
    have "unat f * p1 * p2 \<le> unat f * 7 * 7" using b by (intro mult_le_mono) auto
    moreover have "800000000 \<le> unat f * p1 * p2" using q Q [OF b(2,4)] by blast
    ultimately have "800000000 \<le> unat f * 49" by linarith
    have "ucast (f * of_nat p1 * of_nat p2) = (of_nat (unat f * p1 * p2) :: u32)"
      by (simp only: unat_scaled [OF assms b(2,4), symmetric] of_nat_unat)
    then have "rockchip_pll_clk_set_postdiv f v0 = (of_nat p1, of_nat p2, of_nat (unat f * p1 * p2))"
      using Some lt p by (simp add: rockchip_pll_clk_set_postdiv_def del: of_nat_mult)
    moreover have "800000000 \<le> unat f * p1 * p2 \<and> unat f * p1 * p2 \<le> 2000000000" using q Q [OF b(2,4)] by blast
    ultimately show ?thesis
      using b \<open>800000000 \<le> unat f * 49\<close> by (subst if_P) (blast+)
  qed
qed

text \<open>
  The setting in numbers: with the oscillator at \<open>V\<close> Hz, \<open>v = V div 10\<^sup>6\<close> and \<open>g = gcd 24 v\<close>, the
  dividers are \<open>24 div g\<close> and \<open>v div g\<close>, and the fraction is that of the remaining Hz.
\<close>

definition frac_of :: "nat \<Rightarrow> nat" where
  "frac_of V = (V mod 1000000) * 2 ^ 24 div (1000000 * gcd 24 (V div 1000000))"

lemma frac_of_less: "frac_of V < 2 ^ 24"
proof -
  have "0 < gcd 24 (V div 1000000)" by simp
  then have "1000000 \<le> 1000000 * gcd 24 (V div 1000000)" by linarith
  moreover have "(V mod 1000000) * 2 ^ 24 < 1000000 * 2 ^ 24" by simp
  ultimately have "(V mod 1000000) * 2 ^ 24 < 1000000 * gcd 24 (V div 1000000) * 2 ^ 24"
    by (meson less_le_trans mult_le_mono1)
  then show ?thesis unfolding frac_of_def by (simp add: div_less_iff_less_mult mult.commute)
qed

definition auto_setting :: "rockchip_pll_rate_table \<Rightarrow> nat \<Rightarrow> nat \<Rightarrow> nat \<Rightarrow> rockchip_pll_rate_table" where
  "auto_setting a P1 P2 V =
     a\<lparr>postdiv1 := of_nat P1, postdiv2 := of_nat P2,
       refdiv := of_nat (24 div gcd 24 (V div 1000000)),
       fbdiv := of_nat (V div 1000000 div gcd 24 (V div 1000000)),
       frac := of_nat (frac_of V), dsmpd := (if frac_of V = 0 then 1 else 0)\<rparr>"

lemma unat_gcd64: "unat (gcd64 a b) = gcd (unat a) (unat b)"
proof (cases "a = 0")
  case True
  then show ?thesis by (simp add: gcd64_def)
next
  case False
  then have "gcd (unat a) (unat b) \<le> unat a" by (simp add: gcd_le1_nat unat_eq_0)
  then have "gcd (unat a) (unat b) < 2 ^ 64" using unsigned_less [of a, where ?'a = nat] by simp
  then show ?thesis by (simp add: gcd64_def unat_of_nat take_bit_nat_eq_self)
qed

lemma ucast_small: "unat (w :: u64) < 2 ^ 32 \<Longrightarrow> unat (ucast w :: u32) = unat w"
  by (simp add: unsigned_ucast_eq take_bit_nat_eq_self)

lemma do_div_small: "w \<noteq> 0 \<Longrightarrow> unat w < 2 ^ 32 \<Longrightarrow> do_div n w = Some (n div w)"
proof -
  assume a: "w \<noteq> 0" "unat w < 2 ^ 32"
  have "ucast (ucast w :: u32) = w" using a(2) by (simp add: word_unat_eq_iff ucast_small)
  with a show ?thesis by (simp add: do_div_def)
qed

lemma ucast_unat: "ucast (w :: u64) = (of_nat (unat w) :: u32)"
  by simp

lemma set_by_auto_vco:
  assumes f: "f \<noteq> 0" "f \<noteq> XIN" and p: "rockchip_pll_clk_set_postdiv f (ucast f) = (of_nat P1, of_nat P2, of_nat V)"
    and V: "1000000 dvd unat f \<Longrightarrow> 1000000 dvd V" "V < 2 ^ 32"
  shows "rockchip_pll_clk_set_by_auto a XIN f = Some (Some (auto_setting a P1 P2 V))"
proof -
  let ?v = "V div 1000000"
  let ?g = "gcd 24 ?v"
  have v: "unat (ucast (of_nat V :: u32) div MHZ :: u64) = ?v" "unat (ucast (of_nat V :: u32) mod MHZ :: u64) = V mod 1000000"
    using V(2) by (simp_all add: unat_div unat_mod unat_of_nat take_bit_nat_eq_self)
  have fin: "unat (XIN div MHZ) = 24" by (simp add: unat_div)
  have g: "unat (gcd64 (XIN div MHZ) (ucast (of_nat V :: u32) div MHZ)) = ?g"
    by (simp only: unat_gcd64 v fin)
  have g0: "gcd64 (XIN div MHZ) (ucast (of_nat V :: u32) div MHZ) \<noteq> 0"
    using g by (simp add: unat_eq_0 [symmetric])
  have rd: "unat (XIN div MHZ div gcd64 (XIN div MHZ) (ucast (of_nat V :: u32) div MHZ)) = 24 div ?g"
    by (simp only: unat_div [of "XIN div MHZ"] fin g)
  have fb: "unat (ucast (of_nat V :: u32) div MHZ div gcd64 (XIN div MHZ) (ucast (of_nat V :: u32) div MHZ)) = ?v div ?g"
    by (simp only: unat_div [of "ucast (of_nat V :: u32) div MHZ"] v g)
  note start = rockchip_pll_clk_set_by_auto_def [of a XIN f, unfolded p]
  have xin: "XIN \<noteq> 0" "XIN div MHZ * MHZ = XIN" by (simp_all add: XIN_def pll_consts)
  show ?thesis
  proof (cases "f div MHZ * MHZ = f")
    case True
    have "unat (f div MHZ) * 1000000 < 2 ^ 64"
    proof -
      have "unat (f div MHZ) * 1000000 \<le> unat f" by (simp add: unat_div)
      then show ?thesis using unsigned_less [of f, where ?'a = nat] by simp
    qed
    then have "unat (f div MHZ * MHZ) = unat f div 1000000 * 1000000"
      by (simp add: unat_word_ariths(2) unat_div)
    with True have "unat f = unat f div 1000000 * 1000000" by simp
    then have "1000000 dvd unat f" by (metis dvd_triv_right)
    then have "V mod 1000000 = 0" using V(1) by (simp add: dvd_eq_mod_eq_0)
    then have "frac_of V = 0" by (simp add: frac_of_def)
    then show ?thesis
      using f True g0 xin
      by (simp add: start Let_def auto_setting_def ucast_unat rd fb del: of_nat_unat)
  next
    case False
    have q: "24 div ?g * ?g = 24" by simp
    have g24: "?g \<le> 24" "0 < ?g" by (simp_all add: gcd_le1_nat)
    let ?G = "gcd64 (XIN div MHZ) (ucast (of_nat V :: u32) div MHZ)"
    let ?rd = "ucast (XIN div MHZ div ?G) :: u32"
    have "24 div ?g \<le> 24" by (rule div_le_dividend)
    then have rd32: "24 div ?g < 2 ^ 32" "0 < 24 div ?g"
      using g24 by (simp_all only: div_greater_zero_iff) (erule le_less_trans, simp)
    have rdu: "unat ?rd = 24 div ?g" using rd rd32(1) by (simp add: ucast_small)
    have "24000000 div (24 div ?g) = 1000000 * ?g"
    proof -
      have "24000000 = 1000000 * ?g * (24 div ?g)" using q by (simp add: algebra_simps)
      then show ?thesis using rd32(2) by (metis div_mult_self_is_m)
    qed
    then have fin64: "unat (XIN div ucast ?rd) = 1000000 * ?g" by (simp add: unat_div rdu)
    have d1: "do_div XIN (ucast ?rd) = Some (XIN div ucast ?rd)"
      using rd32 rdu by (simp add: do_div_u32 unat_eq_0 [symmetric])
    have d2: "do_div x (XIN div ucast ?rd) = Some (x div (XIN div ucast ?rd))" for x
    proof (rule do_div_small)
      have "1000000 * ?g \<le> 1000000 * 24" using g24(1) by (rule mult_le_mono2)
      then show "unat (XIN div ucast ?rd) < 2 ^ 32" by (simp only: fin64) (erule le_less_trans, simp)
    qed (use fin64 g24(2) in \<open>simp add: unat_eq_0 [symmetric]\<close>)
    let ?ff = "ucast (ucast (of_nat V :: u32) mod MHZ :: u64) :: u32"
    have ff: "unat ?ff = V mod 1000000"
    proof -
      have "V mod 1000000 < 2 ^ 32" by (rule less_trans [of _ 1000000]) simp_all
      then show ?thesis using v(2) by (simp add: ucast_small)
    qed
    have "V mod 1000000 * 2 ^ 24 < 2 ^ 64"
      by (rule less_trans [of _ "1000000 * 2 ^ 24"]) simp_all
    then have "unat (push_bit 24 (ucast ?ff :: u64)) = V mod 1000000 * 2 ^ 24"
      using ff by (simp add: push_bit_eq_mult unat_word_ariths(2))
    then have fr: "unat (push_bit 24 (ucast ?ff :: u64) div (XIN div ucast ?rd)) = frac_of V"
      by (simp only: unat_div [of "push_bit 24 (ucast ?ff)"] fin64 frac_of_def)
    have fr0: "(of_nat (frac_of V) :: u32) > 0 \<longleftrightarrow> frac_of V \<noteq> 0"
      using frac_of_less [of V] by (simp add: word_less_nat_alt unat_of_nat take_bit_nat_eq_self)
    have w: "?rd = of_nat (24 div ?g)"
      "ucast (ucast (of_nat V :: u32) div MHZ div ?G) = (of_nat (V div 1000000 div ?g) :: u32)"
      "ucast (push_bit 24 (ucast ?ff :: u64) div (XIN div ucast ?rd)) = (of_nat (frac_of V) :: u32)"
      by (simp_all only: ucast_unat rd fb) (simp only: fr flip: ucast_unat [of "XIN div MHZ div ?G", unfolded rd] ucast_unat [of "ucast (of_nat V :: u32) mod MHZ"])
    show ?thesis
      using f False g0 xin d1 [unfolded w(1)] d2 [unfolded w(1)] fr0
      by (simp add: start Let_def auto_setting_def w(1,2) w(3) [unfolded w(1)])
  qed
qed

text \<open>The fraction is less than two Hz short of the oscillator's rate, and the dividers keep that.\<close>

lemma diff_two: "a * 2 ^ 24 < b + 24000000 \<Longrightarrow> (a - 2) * 2 ^ 24 \<le> (b :: nat)"
  by (simp add: diff_mult_distrib)

lemma fraction_bounds:
  "V mod 1000000 - 2 \<le> 1000000 * gcd 24 (V div 1000000) * frac_of V div 2 ^ 24"
  "1000000 * gcd 24 (V div 1000000) * frac_of V div 2 ^ 24 \<le> V mod 1000000"
  "frac_of V = 0 \<Longrightarrow> V mod 1000000 \<le> 1"
proof -
  let ?F = "1000000 * gcd 24 (V div 1000000)"
  have F: "0 < ?F" "?F \<le> 24000000"
  proof -
    have "gcd 24 (V div 1000000) \<le> 24" by (simp add: gcd_le1_nat)
    then show "?F \<le> 24000000" by simp
  qed simp
  have eq: "?F * frac_of V + (V mod 1000000 * 2 ^ 24) mod ?F = V mod 1000000 * 2 ^ 24"
    unfolding frac_of_def by (rule mult_div_mod_eq)
  have lt: "(V mod 1000000 * 2 ^ 24) mod ?F < ?F" using F(1) by (rule mod_less_divisor)
  have "?F * frac_of V \<le> V mod 1000000 * 2 ^ 24" using eq by linarith
  then have "?F * frac_of V div 2 ^ 24 \<le> V mod 1000000 * 2 ^ 24 div 2 ^ 24" by (rule div_le_mono)
  then show "?F * frac_of V div 2 ^ 24 \<le> V mod 1000000" by (simp only: div_mult_self_is_m zero_less_power zero_less_numeral)
  have "V mod 1000000 * 2 ^ 24 < ?F * frac_of V + 24000000" using eq lt F(2) by linarith
  then have "(V mod 1000000 - 2) * 2 ^ 24 \<le> ?F * frac_of V" by (rule diff_two)
  then have "(V mod 1000000 - 2) * 2 ^ 24 div 2 ^ 24 \<le> ?F * frac_of V div 2 ^ 24" by (rule div_le_mono)
  then show "V mod 1000000 - 2 \<le> ?F * frac_of V div 2 ^ 24"
    by (simp only: div_mult_self_is_m zero_less_power zero_less_numeral)
  assume "frac_of V = 0"
  with eq have "V mod 1000000 * 2 ^ 24 = (V mod 1000000 * 2 ^ 24) mod ?F" by (simp only: mult_0_right add_0)
  with lt F(2) have "V mod 1000000 * 2 ^ 24 < 24000000" by linarith
  then show "V mod 1000000 \<le> 1" by simp
qed

lemma nested_div: "0 < P1 \<Longrightarrow> 0 < P2 \<Longrightarrow> F * P1 * P2 - 2 \<le> x \<Longrightarrow> x \<le> F * P1 * P2
  \<Longrightarrow> x div P1 div P2 \<le> F \<and> F \<le> x div P1 div P2 + (2 :: nat)"
proof -
  assume P: "0 < P1" "0 < P2" and x: "F * P1 * P2 - 2 \<le> x" "x \<le> F * P1 * P2"
  define q where "q = P1 * P2"
  have q: "1 \<le> q" "F * q - 2 \<le> x" "x \<le> F * q" using P x by (simp_all add: q_def mult.assoc Suc_le_eq)
  have le: "x div q \<le> F" using q by (metis div_le_mono div_mult_self_is_m less_le_trans zero_less_one)
  have "F \<le> x div q + 2"
  proof (rule ccontr)
    assume "\<not> ?thesis"
    then have "(x div q + 3) * q \<le> F * q" by (intro mult_le_mono1) simp
    moreover have "x < (x div q + 1) * q"
    proof -
      have "x = x div q * q + x mod q" by (rule div_mult_mod_eq [symmetric])
      moreover have "x mod q < q" using q(1) by (intro mod_less_divisor) simp
      ultimately show ?thesis unfolding distrib_right by linarith
    qed
    ultimately show False using q by (simp add: distrib_right)
  qed
  with le show ?thesis by (simp add: div_mult2_eq [symmetric] q_def)
qed

lemma unat_of_nat_small: "n < 2 ^ 32 \<Longrightarrow> unat (of_nat n :: u32) = n"
  by (simp add: unat_of_nat take_bit_nat_eq_self)

lemma divider_bounds:
  fixes V :: nat
  assumes "V < 2 ^ 32"
  shows "24 div gcd 24 (V div 1000000) \<le> 24" "0 < 24 div gcd 24 (V div 1000000)"
    "V div 1000000 div gcd 24 (V div 1000000) < 4295"
proof -
  let ?g = "gcd 24 (V div 1000000)"
  have "?g \<le> 24" "0 < ?g" by (simp_all add: gcd_le1_nat)
  then show "0 < 24 div ?g" by (simp add: div_greater_zero_iff)
  show "24 div ?g \<le> 24" by (rule div_le_dividend)
  have "V div 1000000 < 4295" using assms by (simp add: div_less_iff_less_mult)
  then show "V div 1000000 div ?g < 4295" by (rule le_less_trans [OF div_le_dividend])
qed

lemma auto_setting_fields:
  assumes P: "P1 < 8" "P2 < 8" and V: "V < 2 ^ 32"
  shows "unat (refdiv (auto_setting a P1 P2 V)) = 24 div gcd 24 (V div 1000000)"
    "unat (fbdiv (auto_setting a P1 P2 V)) = V div 1000000 div gcd 24 (V div 1000000)"
    "unat (frac (auto_setting a P1 P2 V)) = frac_of V"
    "unat (postdiv1 (auto_setting a P1 P2 V)) = P1" "unat (postdiv2 (auto_setting a P1 P2 V)) = P2"
proof -
  have "24 div gcd 24 (V div 1000000) < 2 ^ 32" by (rule le_less_trans [OF divider_bounds(1) [OF V]]) simp
  moreover have "V div 1000000 div gcd 24 (V div 1000000) < 2 ^ 32"
    by (rule less_trans [OF divider_bounds(3) [OF V]]) simp
  moreover have "frac_of V < 2 ^ 32" by (rule less_trans [OF frac_of_less]) simp
  ultimately show "unat (refdiv (auto_setting a P1 P2 V)) = 24 div gcd 24 (V div 1000000)"
    "unat (fbdiv (auto_setting a P1 P2 V)) = V div 1000000 div gcd 24 (V div 1000000)"
    "unat (frac (auto_setting a P1 P2 V)) = frac_of V"
    "unat (postdiv1 (auto_setting a P1 P2 V)) = P1" "unat (postdiv2 (auto_setting a P1 P2 V)) = P2"
    using P by (simp_all only: auto_setting_def rockchip_pll_rate_table.simps) (simp_all add: unat_of_nat_small)
qed

lemma auto_setting_fits:
  assumes P: "1 \<le> P1" "P1 < 8" "1 \<le> P2" "P2 < 8" and V: "V < 4096000000"
  shows "fbdiv (auto_setting a P1 P2 V) < 2 ^ 12 \<and> 0 < refdiv (auto_setting a P1 P2 V)
    \<and> refdiv (auto_setting a P1 P2 V) < 2 ^ 6 \<and> 0 < postdiv1 (auto_setting a P1 P2 V)
    \<and> postdiv1 (auto_setting a P1 P2 V) < 2 ^ 3 \<and> 0 < postdiv2 (auto_setting a P1 P2 V)
    \<and> postdiv2 (auto_setting a P1 P2 V) < 2 ^ 3 \<and> dsmpd (auto_setting a P1 P2 V) < 2
    \<and> frac (auto_setting a P1 P2 V) < 2 ^ 24"
proof -
  have V32: "V < 2 ^ 32" by (rule less_trans [OF V]) simp
  have "V div 1000000 < 4096" using V by (simp add: div_less_iff_less_mult)
  then have "V div 1000000 div gcd 24 (V div 1000000) < 4096" by (rule le_less_trans [OF div_le_dividend])
  then have "unat (fbdiv (auto_setting a P1 P2 V)) < 4096" by (simp only: auto_setting_fields(2) [OF P(2,4) V32])
  moreover have "0 < unat (refdiv (auto_setting a P1 P2 V))" "unat (refdiv (auto_setting a P1 P2 V)) \<le> 24"
    using divider_bounds(1,2) [OF V32] by (simp_all only: auto_setting_fields(1) [OF P(2,4) V32])
  moreover have "unat (frac (auto_setting a P1 P2 V)) < 16777216"
    using frac_of_less [of V] by (simp only: auto_setting_fields(3) [OF P(2,4) V32]) simp
  moreover have "dsmpd (auto_setting a P1 P2 V) < 2" by (simp add: auto_setting_def)
  ultimately show ?thesis
    using P auto_setting_fields(4,5) [OF P(2,4) V32, of a] by (simp add: word_less_nat_alt)
qed

lemma params_rate_auto:
  assumes P: "1 \<le> P1" "P1 < 8" "1 \<le> P2" "P2 < 8" and V: "V = F * P1 * P2" "V < 2 ^ 32"
  shows "\<exists>R. params_rate XIN (auto_setting a P1 P2 V) = Some R \<and> unat R \<le> F \<and> F \<le> unat R + 2
     \<and> (1000000 dvd F \<longrightarrow> unat R = F)"
proof -
  let ?g = "gcd 24 (V div 1000000)"
  let ?t = "auto_setting a P1 P2 V"
  have g: "?g \<le> 24" "0 < ?g" "24 div ?g * ?g = 24" by (simp_all add: gcd_le1_nat)
  note fields = auto_setting_fields [OF P(2,4) V(2), of a]
  note rd = fields(1) and fb = fields(2) and fr = fields(3) and p = fields(4,5)
    and rd0 = divider_bounds(1,2) [OF V(2)] and fb0 = divider_bounds(3) [OF V(2)]
  have vg: "V div 1000000 div ?g * ?g = V div 1000000" by simp
  have quot: "24000000 * x div (24 div ?g) = 1000000 * ?g * x" for x :: nat
  proof -
    have "24000000 * x = 1000000 * (24 div ?g * ?g) * x" unfolding g(3) by simp
    also have "\<dots> = 1000000 * ?g * x * (24 div ?g)" by (simp only: ac_simps)
    finally show ?thesis using rd0(2) by (simp only: div_mult_self_is_m)
  qed
  have mult: "unat (XIN * ucast w) = 24000000 * unat w" if "unat w < 2 ^ 24" for w :: u32
  proof -
    have "24000000 * unat w \<le> 24000000 * 2 ^ 24" using that by (intro mult_le_mono2) simp
    then show ?thesis by (simp add: unat_word_ariths(2))
  qed
  have d: "do_div n (ucast (refdiv ?t)) = Some (n div ucast (refdiv ?t))"
    "do_div n (ucast (postdiv1 ?t)) = Some (n div ucast (postdiv1 ?t))"
    "do_div n (ucast (postdiv2 ?t)) = Some (n div ucast (postdiv2 ?t))" for n
    using rd rd0 p P by (auto simp: do_div_u32 unat_eq_0 [symmetric])
  let ?a = "XIN * ucast (fbdiv ?t) div ucast (refdiv ?t)"
  let ?b = "drop_bit 24 (XIN * ucast (frac ?t) div ucast (refdiv ?t))"
  let ?e = "1000000 * ?g * frac_of V div 2 ^ 24"
  have a: "unat ?a = 1000000 * (V div 1000000)"
  proof -
    have "unat (XIN * ucast (fbdiv ?t)) = 24000000 * (V div 1000000 div ?g)"
      using mult [of "fbdiv ?t"] fb fb0 by simp
    then have "unat ?a = 1000000 * ?g * (V div 1000000 div ?g)"
      by (simp only: unat_div unat_ucast_u32 rd quot)
    then show ?thesis using vg by (simp only: mult.assoc mult.commute [of ?g])
  qed
  have b: "unat ?b = ?e"
  proof -
    have "unat (XIN * ucast (frac ?t)) = 24000000 * frac_of V"
      using mult [of "frac ?t"] fr frac_of_less [of V] by simp
    then have "unat (XIN * ucast (frac ?t) div ucast (refdiv ?t)) = 1000000 * ?g * frac_of V"
      by (simp only: unat_div unat_ucast_u32 rd quot)
    then show ?thesis by (simp only: drop_bit_eq_div unat_div) simp
  qed
  define x where "x = (if dsmpd ?t = 0 then ?a + ?b else ?a)"
  have split: "V = 1000000 * (V div 1000000) + V mod 1000000" by simp
  have x: "unat x \<le> V" "V - 2 \<le> unat x" "V mod 1000000 = 0 \<Longrightarrow> unat x = V"
  proof -
    have ab: "unat (?a + ?b) = 1000000 * (V div 1000000) + ?e"
      using a b fraction_bounds(2) [of V] split V(2) by (simp only: unat_word_ariths(1)) simp
    have 0: "frac_of V = 0 \<longleftrightarrow> dsmpd ?t \<noteq> 0" by (simp add: auto_setting_def)
    have xv: "unat x = (if dsmpd ?t = 0 then 1000000 * (V div 1000000) + ?e else 1000000 * (V div 1000000))"
      unfolding x_def using a ab by (cases "dsmpd ?t = 0") (simp_all only: if_True if_False simp_thms)
    show "unat x \<le> V" unfolding xv using fraction_bounds(2) [of V] split by (split if_split) linarith
    show "V - 2 \<le> unat x"
      unfolding xv using fraction_bounds(1,3) [of V] split 0 by (split if_split) linarith
    assume m: "V mod 1000000 = 0"
    then have "frac_of V = 0" by (simp add: frac_of_def)
    then show "unat x = V" using m a 0 split by (simp add: x_def)
  qed
  have r: "params_rate XIN ?t = Some (x div ucast (postdiv1 ?t) div ucast (postdiv2 ?t))"
    by (simp add: params_rate_def d x_def)
  have R: "unat (x div ucast (postdiv1 ?t) div ucast (postdiv2 ?t)) = unat x div P1 div P2"
    by (simp add: unat_div p)
  have exact: "unat x div P1 div P2 = F" if "1000000 dvd F"
  proof -
    have "unat x = F * P1 * P2" using x(3) V(1) that by (auto simp: mod_eq_0_iff_dvd)
    then show ?thesis using P by (simp add: div_mult2_eq [symmetric] mult.assoc)
  qed
  have "unat x div P1 div P2 \<le> F \<and> F \<le> unat x div P1 div P2 + 2"
    using nested_div [of P1 P2 F "unat x"] x(1,2) P unfolding V(1) by simp
  with exact show ?thesis
    by (intro exI [of _ "x div ucast (postdiv1 ?t) div ucast (postdiv2 ?t)"]) (simp only: r R simp_thms, simp)
qed

lemma set_postdiv_range:
  assumes "800000000 \<le> unat f * 49" "unat f < 4096000000"
  obtains P1 P2 where "1 \<le> P1" "P1 < 8" "1 \<le> P2" "P2 < 8"
    "rockchip_pll_clk_set_postdiv f (ucast f) = (of_nat P1, of_nat P2, of_nat (unat f * P1 * P2))"
    "800000000 \<le> unat f * P1 * P2" "unat f * P1 * P2 < 4096000000"
proof (cases "unat f < 800000000")
  case True
  from postdiv_cases [OF this, of "ucast f"] assms(1) obtain P1 P2 where
    P: "1 \<le> P1" "P1 < 8" "1 \<le> P2" "P2 < 8" "800000000 \<le> unat f * P1 * P2" "unat f * P1 * P2 \<le> 2000000000"
      "rockchip_pll_clk_set_postdiv f (ucast f) = (of_nat P1, of_nat P2, of_nat (unat f * P1 * P2))"
    by (auto simp only: if_True)
  then show ?thesis by (intro that [of P1 P2]) simp_all
next
  case False
  have "\<not> f < MIN_FOUTVCO_FREQ" using False by (simp add: word_less_nat_alt)
  then have "rockchip_pll_clk_set_postdiv f (ucast f) = (of_nat 1, of_nat 1, of_nat (unat f * 1 * 1))"
    by (simp add: rockchip_pll_clk_set_postdiv_def)
  then show ?thesis using False assms(2) by (intro that [of 1 1]) simp_all
qed

text \<open>
  C7: For a rate from 16.33 MHz up to 4.096 GHz that the table lacks, other than that of the crystal, the
  driver computes a setting that fits the fields of the registers and whose rate is at most the one
  asked for and less than three Hz below it; a whole number of MHz is met exactly.
\<close>

theorem rockchip_pll_clk_set_by_auto_rate:
  assumes "f \<noteq> XIN" "800000000 \<le> unat f * 49" "unat f < 4096000000"
  shows "\<exists>t r. rockchip_pll_clk_set_by_auto a XIN f = Some (Some t) \<and> params_rate XIN t = Some r
    \<and> unat r \<le> unat f \<and> unat f \<le> unat r + 2 \<and> (1000000 dvd unat f \<longrightarrow> r = f)
    \<and> fbdiv t < 2 ^ 12 \<and> 0 < refdiv t \<and> refdiv t < 2 ^ 6 \<and> 0 < postdiv1 t \<and> postdiv1 t < 2 ^ 3
    \<and> 0 < postdiv2 t \<and> postdiv2 t < 2 ^ 3 \<and> dsmpd t < 2 \<and> frac t < 2 ^ 24"
proof -
  have "f \<noteq> 0" using assms(2) by auto
  obtain P1 P2 where P: "1 \<le> P1" "P1 < 8" "1 \<le> P2" "P2 < 8"
    and p: "rockchip_pll_clk_set_postdiv f (ucast f) = (of_nat P1, of_nat P2, of_nat (unat f * P1 * P2))"
    and V: "800000000 \<le> unat f * P1 * P2" "unat f * P1 * P2 < 4096000000"
    using set_postdiv_range [OF assms(2,3)] by blast
  have V32: "unat f * P1 * P2 < 2 ^ 32" by (rule less_trans [OF V(2)]) simp
  let ?V = "unat f * P1 * P2"
  let ?t = "auto_setting a P1 P2 ?V"
  have s: "rockchip_pll_clk_set_by_auto a XIN f = Some (Some ?t)"
    by (rule set_by_auto_vco [OF \<open>f \<noteq> 0\<close> assms(1) p _ V32]) (simp add: dvd_mult2)
  obtain r where r: "params_rate XIN ?t = Some r" "unat r \<le> unat f" "unat f \<le> unat r + 2"
    "1000000 dvd unat f \<Longrightarrow> r = f"
    using params_rate_auto [OF P refl V32, of a] by (auto simp: word_unat_eq_iff)
  have fits: "fbdiv ?t < 2 ^ 12 \<and> 0 < refdiv ?t \<and> refdiv ?t < 2 ^ 6 \<and> 0 < postdiv1 ?t \<and> postdiv1 ?t < 2 ^ 3
    \<and> 0 < postdiv2 ?t \<and> postdiv2 ?t < 2 ^ 3 \<and> dsmpd ?t < 2 \<and> frac ?t < 2 ^ 24"
    using auto_setting_fits [OF P V(2)] by simp
  show ?thesis by (intro exI [of _ ?t] exI [of _ r] conjI impI) (use s r fits in \<open>simp_all only: simp_thms\<close>)
qed

lemma set_by_auto_low:
  assumes "f \<noteq> 0" "unat f * 49 < 800000000"
  shows "rockchip_pll_clk_set_by_auto a XIN f = Some (Some (auto_setting a 8 8 (unat f)))"
proof -
  have lt: "unat f < 800000000" "unat f < 2 ^ 32" using assms(2) by simp_all
  have "f \<noteq> XIN" using assms(2) by auto
  have n: "\<not> 800000000 \<le> unat f * 49" using assms(2) by simp
  have "rockchip_pll_clk_set_postdiv f (ucast f) = (8, 8, ucast f)"
    using postdiv_cases [OF lt(1), of "ucast f"] unfolding if_not_P [OF n] .
  then have "rockchip_pll_clk_set_postdiv f (ucast f) = (of_nat 8, of_nat 8, of_nat (unat f))" by simp
  then show ?thesis using assms(1) \<open>f \<noteq> XIN\<close> lt(2) by (intro set_by_auto_vco) assumption+
qed

section \<open>The settings of the RK3066\<close>

text \<open>
  What the search looks for: dividers that give the rate exactly, with the reference frequency, the
  oscillator and the output in their ranges. One setting is better than another when its output
  divider is larger, or equal with a smaller input divider.
\<close>

definition valid_setting :: "nat \<Rightarrow> nat \<Rightarrow> nat \<times> nat \<times> nat \<Rightarrow> bool" where
  "valid_setting fin fout s = (case s of (nr, nf, no) \<Rightarrow>
     nf * fin = fout * nr * no \<and> 1 \<le> nr \<and> nr \<le> 64 \<and> 1 \<le> nf \<and> nf \<le> 4096
   \<and> 1 \<le> no \<and> no \<le> 16 \<and> (no = 1 \<or> even no)
   \<and> 269000 \<le> fin div nr \<and> fin div nr \<le> 2200000000
   \<and> 440000000 \<le> fin div nr * nf \<and> fin div nr * nf \<le> 2200000000
   \<and> 27500000 \<le> fin div nr * nf div no \<and> fin div nr * nf div no \<le> 2200000000)"

definition better :: "nat \<times> nat \<times> nat \<Rightarrow> nat \<times> nat \<times> nat \<Rightarrow> bool" where
  "better s b = (case s of (nr, nf, no) \<Rightarrow> case b of (nr', nf', no') \<Rightarrow> no > no' \<or> no = no' \<and> nr < nr')"

definition pll_in_range :: "nat \<Rightarrow> nat \<Rightarrow> nat \<Rightarrow> nat \<Rightarrow> bool" where
  "pll_in_range fin nf nonr k \<longleftrightarrow> (k = 1 \<or> even k) \<and> k dvd nonr \<and> nonr div k \<le> 64
   \<and> 269000 \<le> fin div (nonr div k) \<and> fin div (nonr div k) \<le> 2200000000
   \<and> 440000000 \<le> fin div (nonr div k) * nf \<and> fin div (nonr div k) * nf \<le> 2200000000
   \<and> 27500000 \<le> fin div (nonr div k) * nf div k \<and> fin div (nonr div k) * nf div k \<le> 2200000000"

definition nats :: "u32 \<times> u32 \<times> u32 \<Rightarrow> nat \<times> nat \<times> nat" where
  "nats s = (case s of (a, b, c) \<Rightarrow> (unat a, unat b, unat c))"

text \<open>The best of a set of settings, or the start value when there is none.\<close>

definition best_of :: "(nat \<times> nat \<times> nat) set \<Rightarrow> nat \<times> nat \<times> nat \<Rightarrow> bool" where
  "best_of S b \<longleftrightarrow> S = {} \<and> b = (65, 0, 0) \<or> b \<in> S \<and> (\<forall>s \<in> S. \<not> better s b)"

lemma better_trans: "better s b \<Longrightarrow> \<not> better s' b \<Longrightarrow> \<not> better s' s"
  by (auto simp: better_def split: prod.splits)

lemma best_of_insert:
  assumes "best_of S b" "0 < snd (snd s)"
  shows "best_of (insert s S) (if better s b then s else b)"
proof -
  have "better s (65, 0, 0)" using assms(2) by (cases s) (simp add: better_def)
  moreover have "\<not> better s s" by (cases s) (simp add: better_def)
  ultimately show ?thesis using assms(1) by (auto simp: best_of_def dest: better_trans)
qed

lemma unat_pll_consts [simp]: "unat PLL_FREF_MIN = 269000" "unat PLL_FREF_MAX = 2200000000"
  "unat PLL_FVCO_MIN = 440000000" "unat PLL_FVCO_MAX = 2200000000"
  "unat PLL_FOUT_MIN = 27500000" "unat PLL_FOUT_MAX = 2200000000"
  "unat PLL_NF_MAX = 4096" "unat PLL_NR_MAX = 64" "unat PLL_NO_MAX = 16" "unat (PLL_NO_MAX * PLL_NR_MAX) = 1024"
  by (simp_all add: pll_consts)

lemma if_chain: "nats (if A then x else if B then x else if C then y else x)
    = (if (\<not> A \<and> \<not> B) \<and> C then nats y else nats x)"
  by simp

lemma try_no_nats:
  assumes nf: "unat nf \<le> 4096" and k: "1 \<le> k" "k \<le> 16"
  shows "nats (try_no fin nf nonr (of_nat k) best)
    = (if pll_in_range (unat fin) (unat nf) (unat nonr) k \<and> better (unat nonr div k, unat nf, k) (nats best)
       then (unat nonr div k, unat nf, k) else nats best)"
proof -
  obtain a b c where best: "best = (a, b, c)" by (metis prod_cases3)
  have uk: "unat (of_nat k :: u32) = k" using k by (simp add: unat_of_nat_small)
  have nr: "unat (nonr div of_nat k) = unat nonr div k" by (simp add: unat_div uk)
  have par: "(of_nat k = (1 :: u32) \<or> of_nat k mod 2 = (0 :: u32)) \<longleftrightarrow> k = 1 \<or> even k"
    using k uk by (simp add: word_unat_eq_iff unat_mod even_iff_mod_2_eq_zero)
  have dvd: "nonr mod of_nat k = 0 \<longleftrightarrow> k dvd unat nonr"
    by (simp add: word_unat_eq_iff unat_mod uk dvd_eq_mod_eq_0)
  let ?fref = "fin div ucast (nonr div of_nat k)"
  have fref: "unat ?fref = unat fin div (unat nonr div k)" by (simp only: unat_div unat_ucast_u32 uk)
  have fvco: "unat (?fref * ucast nf) = unat fin div (unat nonr div k) * unat nf"
    if "\<not> ?fref > PLL_FREF_MAX"
  proof -
    have "unat ?fref * unat nf \<le> 2200000000 * 4096" using that nf by (intro mult_le_mono) (simp_all add: word_less_nat_alt)
    then have "unat ?fref * unat nf < 2 ^ 64" by (rule le_less_trans) simp
    then show ?thesis by (simp only: unat_word_ariths(2) unat_ucast_u32 fref) simp
  qed
  have fout: "unat (?fref * ucast nf div ucast (of_nat k :: u32)) = unat fin div (unat nonr div k) * unat nf div k"
    if "\<not> ?fref > PLL_FREF_MAX"
    by (simp only: unat_div [of "?fref * ucast nf"] fvco [OF that] unat_ucast_u32 uk)
  show ?thesis
  proof (cases "(k = 1 \<or> even k) \<and> k dvd unat nonr \<and> \<not> nonr div of_nat k > PLL_NR_MAX
      \<and> \<not> (?fref < PLL_FREF_MIN \<or> ?fref > PLL_FREF_MAX)")
    case False
    then have "try_no fin nf nonr (of_nat k) best = best"
      by (simp only: try_no_def best prod.case Let_def par dvd split: if_split) blast
    moreover have "\<not> pll_in_range (unat fin) (unat nf) (unat nonr) k"
      using False unfolding pll_in_range_def word_less_nat_alt nr fref unat_pll_consts by linarith
    ultimately show ?thesis by simp
  next
    case True
    then have F: "\<not> ?fref > PLL_FREF_MAX" by simp
    have t: "try_no fin nf nonr (of_nat k) best =
      (if ?fref * ucast nf < PLL_FVCO_MIN \<or> ?fref * ucast nf > PLL_FVCO_MAX then best
       else if ?fref * ucast nf div ucast (of_nat k :: u32) < PLL_FOUT_MIN
             \<or> ?fref * ucast nf div ucast (of_nat k :: u32) > PLL_FOUT_MAX then best
       else if of_nat k > c \<or> of_nat k = c \<and> nonr div of_nat k < a then (nonr div of_nat k, nf, of_nat k) else best)"
      using True by (simp only: try_no_def best prod.case Let_def par dvd simp_thms if_True if_False)
    have i: "pll_in_range (unat fin) (unat nf) (unat nonr) k \<longleftrightarrow>
       \<not> (?fref * ucast nf < PLL_FVCO_MIN \<or> ?fref * ucast nf > PLL_FVCO_MAX)
     \<and> \<not> (?fref * ucast nf div ucast (of_nat k :: u32) < PLL_FOUT_MIN
          \<or> ?fref * ucast nf div ucast (of_nat k :: u32) > PLL_FOUT_MAX)"
      using True unfolding pll_in_range_def word_less_nat_alt nr fvco [OF F] fout [OF F] fref unat_pll_consts by linarith
    have b: "better (unat nonr div k, unat nf, k) (nats best) \<longleftrightarrow>
        of_nat k > c \<or> of_nat k = c \<and> nonr div of_nat k < a"
      by (auto simp: better_def nats_def best word_less_nat_alt word_unat_eq_iff nr uk)
    have s: "nats (nonr div of_nat k, nf, of_nat k) = (unat nonr div k, unat nf, k)"
      by (simp add: nats_def nr uk)
    show ?thesis unfolding t i b if_chain s ..
  qed
qed

lemma fold_try_no:
  assumes nf: "unat nf \<le> 4096" and ks: "\<forall>k \<in> set ks. 1 \<le> k \<and> k \<le> 16" and b: "best_of S (nats best)"
  shows "best_of (S \<union> {(unat nonr div k, unat nf, k) |k. k \<in> set ks \<and> pll_in_range (unat fin) (unat nf) (unat nonr) k})
    (nats (fold (\<lambda>no. try_no fin nf nonr (of_nat no)) ks best))"
  using ks b
proof (induction ks arbitrary: S best)
  case (Cons k ks)
  let ?s = "(unat nonr div k, unat nf, k)"
  let ?S = "if pll_in_range (unat fin) (unat nf) (unat nonr) k then insert ?s S else S"
  have "best_of ?S (nats (try_no fin nf nonr (of_nat k) best))"
    using Cons.prems best_of_insert [of S "nats best" ?s]
    by (auto simp: try_no_nats [OF nf] simp del: insert_iff)
  from Cons.IH [OF _ this] Cons.prems(1) have
    "best_of (?S \<union> {(unat nonr div k, unat nf, k) |k. k \<in> set ks \<and> pll_in_range (unat fin) (unat nf) (unat nonr) k})
      (nats (fold (\<lambda>no. try_no fin nf nonr (of_nat no)) (k # ks) best))" by simp
  moreover have "?S \<union> {(unat nonr div k, unat nf, k) |k. k \<in> set ks \<and> pll_in_range (unat fin) (unat nf) (unat nonr) k}
    = S \<union> {(unat nonr div j, unat nf, j) |j. j \<in> set (k # ks) \<and> pll_in_range (unat fin) (unat nf) (unat nonr) j}"
    by auto
  ultimately show ?case by simp
qed simp

text \<open>The settings found when the loop has passed the multiples below \<open>n\<close>.\<close>

definition seen :: "nat \<Rightarrow> nat \<Rightarrow> nat \<Rightarrow> nat \<Rightarrow> (nat \<times> nat \<times> nat) set" where
  "seen fin num den n =
     {(nr, nf, no). \<exists>m. 1 \<le> m \<and> m < n \<and> nf = num * m \<and> nr * no = den * m \<and> 1 \<le> no \<and> no \<le> 16
        \<and> pll_in_range fin nf (den * m) no}"

lemma seen_Suc:
  assumes "1 \<le> n"
  shows "seen fin num den (n + 1) = seen fin num den n
    \<union> {(den * n div k, num * n, k) |k. k \<in> set [1..<17] \<and> pll_in_range fin (num * n) (den * n) k}"
proof (intro set_eqI iffI)
  fix s assume "s \<in> seen fin num den (n + 1)"
  then obtain nr nf no m where s: "s = (nr, nf, no)" "1 \<le> m" "m < n + 1" "nf = num * m" "nr * no = den * m"
    "1 \<le> no" "no \<le> 16" "pll_in_range fin nf (den * m) no" by (auto simp: seen_def)
  have "nr = den * m div no" using s(5,6) by (metis div_mult_self_is_m less_le_trans zero_less_one)
  with s show "s \<in> seen fin num den n
    \<union> {(den * n div k, num * n, k) |k. k \<in> set [1..<17] \<and> pll_in_range fin (num * n) (den * n) k}"
    by (cases "m = n") (auto simp: seen_def)
next
  fix s assume "s \<in> seen fin num den n
    \<union> {(den * n div k, num * n, k) |k. k \<in> set [1..<17] \<and> pll_in_range fin (num * n) (den * n) k}"
  then consider "s \<in> seen fin num den n"
    | k where "s = (den * n div k, num * n, k)" "1 \<le> k" "k \<le> 16" "pll_in_range fin (num * n) (den * n) k" by auto
  then show "s \<in> seen fin num den (n + 1)"
  proof cases
    case 1 then show ?thesis by (auto simp: seen_def intro: less_SucI)
  next
    case 2
    then have "k dvd den * n" by (simp add: pll_in_range_def)
    with 2 assms show ?thesis by (auto simp: seen_def intro!: exI [of _ n])
  qed
qed

lemma search_n_best:
  assumes "0 < unat num" "0 < unat den" "1 \<le> n" "n \<le> 1025"
    and "n > 1 \<longrightarrow> unat num * (n - 1) \<le> 4096 \<and> unat den * (n - 1) \<le> 1024"
    and "best_of (seen (unat fin) (unat num) (unat den) n) (nats best)"
  shows "\<exists>b N. search_n fin num den (of_nat n) best = Some b
    \<and> best_of (seen (unat fin) (unat num) (unat den) N) (nats b)
    \<and> (4096 < unat num * N \<or> 1024 < unat den * N) \<and> unat num * N \<le> 4096 + unat num"
  using assms
proof (induction "1026 - n" arbitrary: n best)
  case (Suc x)
  have n: "unat (of_nat n :: u32) = n" using Suc.prems(4) by (simp add: unat_of_nat_small)
  have wrap: "unat (num * of_nat n) = unat num * n \<and> unat (den * of_nat n) = unat den * n"
  proof (cases "n = 1")
    case False
    then have "1 \<le> n - 1" using Suc.prems(3) by simp
    then have "unat num * 1 \<le> unat num * (n - 1)" "unat den * 1 \<le> unat den * (n - 1)" by (auto intro!: mult_le_mono)
    then have "unat num \<le> 4096" "unat den \<le> 1024" using Suc.prems(3,5) False by linarith+
    then have "unat num * n \<le> 4096 * 1025" by (intro mult_le_mono Suc.prems(4))
    moreover have "unat den * n \<le> 1024 * 1025"
      using \<open>unat den \<le> 1024\<close> by (intro mult_le_mono Suc.prems(4))
    ultimately have "unat num * n < 2 ^ 32" "unat den * n < 2 ^ 32" by simp_all
    then show ?thesis by (simp only: unat_word_ariths(2) n) simp
  qed simp
  show ?case
  proof (cases "4096 < unat num * n \<or> 1024 < unat den * n")
    case True
    then have "search_n fin num den (of_nat n) best = Some best"
      by (subst search_n.simps) (simp add: Let_def word_less_nat_alt wrap)
    moreover have "unat num * n \<le> 4096 + unat num"
    proof (cases "n = 1")
      case False
      then have "unat num * n = unat num * (n - 1) + unat num"
        using Suc.prems(3) by (cases n) simp_all
      with False Suc.prems(3,5) show ?thesis by simp
    qed simp
    ultimately show ?thesis using True Suc.prems(6) by blast
  next
    case False
    have "n * 1 \<le> unat den * n" using Suc.prems(2) by (simp add: Suc_le_eq)
    with False have n1024: "n \<le> 1024" by linarith
    let ?b = "fold (\<lambda>no. try_no fin (num * of_nat n) (den * of_nat n) (of_nat no)) [1..<17] best"
    have step: "search_n fin num den (of_nat n) best = search_n fin num den (of_nat (n + 1)) ?b"
      by (subst search_n.simps) (use False in \<open>simp add: Let_def word_less_nat_alt wrap add.commute\<close>)
    have "best_of (seen (unat fin) (unat num) (unat den) n
        \<union> {(unat (den * of_nat n) div k, unat (num * of_nat n), k) |k. k \<in> set [1..<17]
              \<and> pll_in_range (unat fin) (unat (num * of_nat n)) (unat (den * of_nat n)) k}) (nats ?b)"
      using False wrap Suc.prems(6) by (intro fold_try_no) auto
    then have b: "best_of (seen (unat fin) (unat num) (unat den) (n + 1)) (nats ?b)"
      by (simp only: wrap seen_Suc [OF Suc.prems(3)])
    show ?thesis
      unfolding step using Suc.hyps(2) Suc.prems(1,2) n1024 False b by (intro Suc.hyps(1)) auto
  qed
qed simp

lemma seen_valid:
  assumes "0 < den" "0 < num" "coprime num den" "fin = g * den" "fout = g * num" "0 < g"
  shows "s \<in> seen fin num den n \<Longrightarrow> num * n \<le> 4096 + num \<Longrightarrow> valid_setting fin fout s"
    and "valid_setting fin fout s \<Longrightarrow> 4096 < num * n \<or> 1024 < den * n \<Longrightarrow> s \<in> seen fin num den n"
proof -
  show "valid_setting fin fout s" if s: "s \<in> seen fin num den n" and n: "num * n \<le> 4096 + num"
  proof -
    obtain nr nf no m where e: "s = (nr, nf, no)" "1 \<le> m" "m < n" "nf = num * m" "nr * no = den * m"
      "1 \<le> no" "no \<le> 16" "pll_in_range fin nf (den * m) no" using s by (auto simp: seen_def)
    have nr: "den * m div no = nr" using e(5,6) by (metis div_mult_self_is_m less_le_trans zero_less_one)
    have "0 < nr * no" using e(2,5) assms(1) by simp
    then have nr0: "1 \<le> nr" by (cases nr) auto
    have nf1: "1 \<le> nf" using e(2,4) assms(2) by simp
    have "num * (m + 1) \<le> num * n" using e(3) by (intro mult_le_mono2) simp
    then have nf2: "nf \<le> 4096" using n e(4) by simp
    have "nf * fin = fout * nr * no" using e(4,5) assms(4,5) by (simp add: algebra_simps)
    with e nr nr0 nf1 nf2 show ?thesis by (simp add: valid_setting_def pll_in_range_def)
  qed
  show "s \<in> seen fin num den n" if v: "valid_setting fin fout s" and n: "4096 < num * n \<or> 1024 < den * n"
  proof -
    obtain nr nf no where s: "s = (nr, nf, no)" by (metis prod_cases3)
    have e: "nf * fin = fout * nr * no" "1 \<le> nr" "nr \<le> 64" "1 \<le> nf" "nf \<le> 4096" "1 \<le> no" "no \<le> 16"
      using v by (auto simp: valid_setting_def s)
    have "g * (nf * den) = g * (num * (nr * no))" using e(1) assms(4,5) by (simp add: algebra_simps)
    then have eq: "nf * den = num * (nr * no)" using assms(6) by simp
    then have "num dvd nf * den" by simp
    then have "num dvd nf" using assms(3) by (simp add: coprime_dvd_mult_left_iff)
    then obtain m where m: "nf = num * m" by blast
    have "num * (m * den) = num * (nr * no)" using eq m by (simp add: mult.assoc)
    then have d: "nr * no = den * m" using assms(2) by (simp add: mult.commute)
    have m1: "1 \<le> m" using e(4) m by (cases m) auto
    have "nr * no \<le> 64 * 16" using e by (intro mult_le_mono)
    have "m < n"
    proof (rule ccontr)
      assume "\<not> ?thesis"
      then have "num * n \<le> num * m" "den * n \<le> den * m" by (auto intro: mult_le_mono2)
      with n m d e(5) \<open>nr * no \<le> 64 * 16\<close> show False by simp
    qed
    moreover have "den * m div no = nr" using d e(6) by (metis div_mult_self_is_m less_le_trans zero_less_one)
    moreover have "no dvd den * m" using d by (metis dvd_triv_right)
    ultimately show ?thesis
      using v m d m1 by (auto simp: s seen_def valid_setting_def pll_in_range_def intro!: exI [of _ m])
  qed
qed

lemma rk3066_set_by_auto:
  assumes f: "fin \<noteq> 0" "fout \<noteq> 0" "fout \<noteq> fin" and small: "unat fin < 2 ^ 32" "unat fout < 2 ^ 32"
  obtains b where "best_of {s. valid_setting (unat fin) (unat fout) s} (nats b)"
    "rockchip_rk3066_pll_clk_set_by_auto a fin fout = Some
       (case b of (nr, nf, no) \<Rightarrow> if nr \<le> PLL_NR_MAX \<and> no > 0
          then Some (a\<lparr>fbdiv := nr, postdiv1 := nf, refdiv := no\<rparr>) else None)"
proof -
  let ?g = "gcd (unat fin) (unat fout)"
  let ?num = "ucast (fout div gcd64 fin fout) :: u32"
  let ?den = "ucast (fin div gcd64 fin fout) :: u32"
  have pos: "0 < unat fin" "0 < unat fout" using f by (simp_all add: unat_gt_0)
  then have g: "0 < ?g" "gcd64 fin fout \<noteq> 0" by (simp_all add: unat_eq_0 [symmetric] unat_gcd64)
  have num: "unat ?num = unat fout div ?g" and den: "unat ?den = unat fin div ?g"
    using small le_less_trans [OF div_le_dividend small(1)] le_less_trans [OF div_le_dividend small(2)]
    by (simp_all add: ucast_small unat_div unat_gcd64)
  have eqs: "unat fin = ?g * unat ?den" "unat fout = ?g * unat ?num" by (simp_all add: num den)
  have cop: "coprime (unat ?num) (unat ?den)"
    using pos div_gcd_coprime [of "unat fin" "unat fout"] by (simp add: num den coprime_commute)
  have nz: "0 < unat ?num" "0 < unat ?den" using pos eqs by (metis mult_0_right not_gr_zero)+
  have start: "best_of (seen (unat fin) (unat ?num) (unat ?den) 1) (nats (PLL_NR_MAX + 1, 0, 0))"
    by (simp add: best_of_def seen_def nats_def pll_consts)
  obtain b N where b: "search_n fin ?num ?den (of_nat 1) (PLL_NR_MAX + 1, 0, 0) = Some b"
    "best_of (seen (unat fin) (unat ?num) (unat ?den) N) (nats b)"
    "4096 < unat ?num * N \<or> 1024 < unat ?den * N" "unat ?num * N \<le> 4096 + unat ?num"
    using search_n_best [OF nz _ _ _ start] by auto
  have "seen (unat fin) (unat ?num) (unat ?den) N = {s. valid_setting (unat fin) (unat fout) s}"
    using seen_valid [OF nz(2,1) cop eqs g(1)] b(3,4) by blast
  with b f g show ?thesis
    by (intro that [of b]) (simp_all add: rockchip_rk3066_pll_clk_set_by_auto_def Let_def split: prod.splits)
qed

text \<open>
  C8: The search for an RK3066 setting ends. It returns NULL when no setting gives the rate exactly
  within the ranges of the PLL, and otherwise a valid setting that no valid one is better than.
\<close>

theorem rockchip_rk3066_pll_clk_set_by_auto_best:
  assumes "fin \<noteq> 0" "fout \<noteq> 0" "fout \<noteq> fin" "unat fin < 2 ^ 32" "unat fout < 2 ^ 32"
  shows "\<exists>r. rockchip_rk3066_pll_clk_set_by_auto a fin fout = Some r
    \<and> (case r of None \<Rightarrow> \<forall>s. \<not> valid_setting (unat fin) (unat fout) s
       | Some t \<Rightarrow> valid_setting (unat fin) (unat fout) (unat (nr_field t), unat (nf_field t), unat (no_field t))
           \<and> (\<forall>s. valid_setting (unat fin) (unat fout) s
                \<longrightarrow> \<not> better s (unat (nr_field t), unat (nf_field t), unat (no_field t)))
           \<and> nb_field t = nb_field a)"
proof -
  obtain b where b: "best_of {s. valid_setting (unat fin) (unat fout) s} (nats b)"
    "rockchip_rk3066_pll_clk_set_by_auto a fin fout = Some
       (case b of (nr, nf, no) \<Rightarrow> if nr \<le> PLL_NR_MAX \<and> no > 0
          then Some (a\<lparr>fbdiv := nr, postdiv1 := nf, refdiv := no\<rparr>) else None)"
    using rk3066_set_by_auto [OF assms] by blast
  obtain nr nf no where e: "b = (nr, nf, no)" by (metis prod_cases3)
  have n: "nats b = (unat nr, unat nf, unat no)" by (simp add: nats_def e)
  have c: "nr \<le> PLL_NR_MAX \<and> no > 0 \<longleftrightarrow> valid_setting (unat fin) (unat fout) (nats b)"
    using b(1) by (auto simp: best_of_def valid_setting_def n word_le_nat_alt word_less_nat_alt)
  show ?thesis
  proof (cases "valid_setting (unat fin) (unat fout) (nats b)")
    case True
    then have "\<forall>s. valid_setting (unat fin) (unat fout) s \<longrightarrow> \<not> better s (nats b)"
      using b(1) by (auto simp: best_of_def)
    with True c b(2) show ?thesis by (auto simp: e nats_def)
  next
    case False
    then have "\<forall>s. \<not> valid_setting (unat fin) (unat fout) s" using b(1) by (auto simp: best_of_def)
    with False c b(2) show ?thesis by (auto simp: e)
  qed
qed

section \<open>The table\<close>

lemma scan_rates_spec:
  assumes "rate_table d = Some t" "rate_count d = length t" "i \<le> length t"
  shows "\<exists>r. scan_rates d p i = Some r \<and>
    (case r of None \<Rightarrow> \<forall>j. i \<le> j \<and> j < length t \<longrightarrow> \<not> p (rate (t ! j))
     | Some k \<Rightarrow> i \<le> k \<and> k < length t \<and> p (rate (t ! k)) \<and> (\<forall>j. i \<le> j \<and> j < k \<longrightarrow> \<not> p (rate (t ! j))))"
  using assms
proof (induction d p i rule: scan_rates.induct)
  case (1 d p i)
  show ?case
  proof (cases "i < length t \<and> \<not> p (rate (t ! i))")
    case False
    then show ?thesis using 1(2-) by (subst scan_rates.simps) (auto simp: rate_at_def)
  next
    case True
    then have at: "rate_at d i = Some (t ! i)" using 1(2) by (simp add: rate_at_def)
    have "i < rate_count d" using True 1(3) by simp
    from "1.IH" [OF this at] True 1(2,3) obtain r where r: "scan_rates d p (i + 1) = Some r"
      "case r of None \<Rightarrow> \<forall>j. i + 1 \<le> j \<and> j < length t \<longrightarrow> \<not> p (rate (t ! j))
       | Some k \<Rightarrow> i + 1 \<le> k \<and> k < length t \<and> p (rate (t ! k)) \<and> (\<forall>j. i + 1 \<le> j \<and> j < k \<longrightarrow> \<not> p (rate (t ! j)))"
      by auto
    have step: "scan_rates d p i = Some r" using True at r(1) \<open>i < rate_count d\<close> by (subst scan_rates.simps) simp
    have le: "i \<le> j \<longleftrightarrow> j = i \<or> i + 1 \<le> j" for j by auto
    show ?thesis using r(2) True by (intro exI [of _ r] conjI step) (auto simp: le split: option.splits)
  qed
qed

lemma scan_rates_cases:
  assumes "rate_table d = Some t" "rate_count d = length t"
  obtains (none) "scan_rates d p 0 = Some None" "\<forall>j < length t. \<not> p (rate (t ! j))"
  | (some) k where "scan_rates d p 0 = Some (Some k)" "k < length t" "p (rate (t ! k))" "\<forall>j < k. \<not> p (rate (t ! j))"
proof -
  obtain r where r: "scan_rates d p 0 = Some r"
    and c: "case r of None \<Rightarrow> \<forall>j. 0 \<le> j \<and> j < length t \<longrightarrow> \<not> p (rate (t ! j))
     | Some k \<Rightarrow> 0 \<le> k \<and> k < length t \<and> p (rate (t ! k)) \<and> (\<forall>j. 0 \<le> j \<and> j < k \<longrightarrow> \<not> p (rate (t ! j)))"
    using scan_rates_spec [OF assms le0, of p] by (elim exE conjE)
  show ?thesis
  proof (cases r)
    case None
    with r c show ?thesis by (intro none) simp_all
  next
    case (Some k)
    with r c show ?thesis by (intro some [of k]) simp_all
  qed
qed

text \<open>
  On a table whose rates fall, the scale of a rate is the entry with the largest rate that is at
  most it, and the rate of that scale is this rate when it fits an int.
\<close>

theorem rockchip_pll_clk_rate_to_scale_floor:
  assumes t: "rate_table d = Some t" "rate_count d = length t" and falling: "sorted_wrt (\<lambda>x y. rate x > rate y) t"
    and some: "\<exists>x \<in> set t. rate x \<le> r"
  shows "\<exists>i < length t. rockchip_pll_clk_rate_to_scale (Some d) r = Some (Inr i) \<and> rate (t ! i) \<le> r
    \<and> (\<forall>x \<in> set t. rate x \<le> r \<longrightarrow> rate x \<le> rate (t ! i))
    \<and> (rate (t ! i) < 2 ^ 31 \<longrightarrow> rockchip_pll_clk_scale_to_rate (Some d) i = Some (Inr (uint (rate (t ! i)))))"
proof -
  obtain k where k: "scan_rates d (\<lambda>x. r \<ge> x) 0 = Some (Some k)" "k < length t" "rate (t ! k) \<le> r" "\<forall>j < k. \<not> rate (t ! j) \<le> r"
  proof (rule scan_rates_cases [OF t, of "\<lambda>x. r \<ge> x"])
    assume "\<forall>j < length t. \<not> rate (t ! j) \<le> r"
    with some show ?thesis by (auto simp: in_set_conv_nth)
  qed
  have "rate x \<le> rate (t ! k)" if x: "x \<in> set t" "rate x \<le> r" for x
  proof -
    obtain j where j: "j < length t" "x = t ! j" using x(1) by (auto simp: in_set_conv_nth)
    with k(4) x(2) have "k \<le> j" by (meson not_le)
    then show ?thesis using sorted_wrt_nth_less [OF falling, of k j] j by (cases "k = j") auto
  qed
  moreover have "s32 (uint (rate (t ! k))) = uint (rate (t ! k))" if "rate (t ! k) < 2 ^ 31"
  proof (rule s32_id)
    show "- (2 ^ 31) \<le> uint (rate (t ! k))" by (rule order_trans [of _ 0]) simp_all
    show "uint (rate (t ! k)) < 2 ^ 31" using that by (simp add: word_less_def)
  qed
  ultimately show ?thesis
    using k t
    by (intro exI [of _ k]) (auto simp: rockchip_pll_clk_rate_to_scale_def rockchip_pll_clk_scale_to_rate_def rate_at_def)
qed

section \<open>Witnesses\<close>

definition blank_setting :: rockchip_pll_rate_table where
  "blank_setting = \<lparr>rate = 0, fbdiv = 0, postdiv1 = 0, refdiv = 0, postdiv2 = 0, dsmpd = 0, frac = 0\<rparr>"

theorem rockchip_pll_clk_set_by_auto_rate_witness:
  "\<exists>t. rockchip_pll_clk_set_by_auto blank_setting XIN 816000000 = Some (Some t) \<and> params_rate XIN t = Some 816000000"
proof -
  have "(816000000 :: u64) \<noteq> XIN" by (simp add: XIN_def pll_consts)
  moreover have "800000000 \<le> unat (816000000 :: u64) * 49" "unat (816000000 :: u64) < 4096000000" by simp_all
  moreover have "1000000 dvd unat (816000000 :: u64)" by simp
  ultimately show ?thesis
    using rockchip_pll_clk_set_by_auto_rate [of "816000000" blank_setting] by blast
qed

theorem rockchip_rk3066_pll_clk_set_by_auto_best_witness:
  "\<exists>t. rockchip_rk3066_pll_clk_set_by_auto blank_setting XIN 600000000 = Some (Some t)
     \<and> unat (nf_field t) * 24 = 600 * unat (nr_field t) * unat (no_field t)"
proof -
  have v: "valid_setting (unat XIN) (unat (600000000 :: u64)) (1, 50, 2)" by (simp add: valid_setting_def)
  obtain r where r: "rockchip_rk3066_pll_clk_set_by_auto blank_setting XIN 600000000 = Some r"
    "case r of None \<Rightarrow> \<forall>s. \<not> valid_setting (unat XIN) (unat (600000000 :: u64)) s
     | Some t \<Rightarrow> valid_setting (unat XIN) (unat (600000000 :: u64)) (unat (nr_field t), unat (nf_field t), unat (no_field t))
           \<and> (\<forall>s. valid_setting (unat XIN) (unat (600000000 :: u64)) s
                \<longrightarrow> \<not> better s (unat (nr_field t), unat (nf_field t), unat (no_field t)))
           \<and> nb_field t = nb_field blank_setting"
    using rockchip_rk3066_pll_clk_set_by_auto_best [of XIN "600000000" blank_setting]
    by (auto simp: XIN_def pll_consts)
  show ?thesis
  proof (cases r)
    case None
    then show ?thesis using r(2) v unfolding None option.case by blast
  next
    case (Some t)
    then show ?thesis using r by (auto simp: valid_setting_def)
  qed
qed

theorem rockchip_pll_clk_rate_to_scale_floor_witness:
  "\<exists>i < 2. rockchip_pll_clk_rate_to_scale (Some \<lparr>ptype = pll_rk3036,
      rate_table = Some [blank_setting\<lparr>rate := 1200000000\<rparr>, blank_setting\<lparr>rate := 816000000\<rparr>],
      rate_count = 2, sel = 0, scaling = 0, auto_table = blank_setting\<rparr>) 1000000000 = Some (Inr i)"
proof -
  let ?t = "[blank_setting\<lparr>rate := 1200000000\<rparr>, blank_setting\<lparr>rate := 816000000\<rparr>]"
  let ?d = "\<lparr>ptype = pll_rk3036, rate_table = Some ?t, rate_count = 2, sel = 0, scaling = 0, auto_table = blank_setting\<rparr>"
  have "rate_table ?d = Some ?t" "rate_count ?d = length ?t" "sorted_wrt (\<lambda>x y. rate x > rate y) ?t"
    "\<exists>x \<in> set ?t. rate x \<le> 1000000000" by (simp_all add: blank_setting_def)
  from rockchip_pll_clk_rate_to_scale_floor [OF this] show ?thesis by auto
qed

end
