(* ===== verification/Pll.thy ===== *)
theory Pll
  imports Pll_Rate
begin

text \<open>
  The PLL driver on its registers: reading and programming the parameters of the three kinds of
  PLL, setting a rate, switching the PLL on and off, the compensation of the fraction, the boost
  module and the registration with the clock framework. A function that faults (a division by
  zero) or does not return gives \<open>None\<close>.
\<close>

section \<open>Registers\<close>

definition HIWORD_UPDATE :: "u32 \<Rightarrow> u32 \<Rightarrow> nat \<Rightarrow> u32" where
  "HIWORD_UPDATE v m s = push_bit s v OR push_bit (s + 16) m"

definition PLL_MODE_MASK :: u32 where "PLL_MODE_MASK = 0x3"
definition PLL_MODE_SLOW :: nat where "PLL_MODE_SLOW = 0"
definition PLL_MODE_NORM :: nat where "PLL_MODE_NORM = 1"
definition PLL_RK3328_MODE_MASK :: u32 where "PLL_RK3328_MODE_MASK = 0x1"

definition RK3036_PLLCON :: "nat \<Rightarrow> u32" where "RK3036_PLLCON i = of_nat i * 0x4"
definition RK3036_PLLCON0_FBDIV_MASK :: u32 where "RK3036_PLLCON0_FBDIV_MASK = 0xfff"
definition RK3036_PLLCON0_FBDIV_SHIFT :: nat where "RK3036_PLLCON0_FBDIV_SHIFT = 0"
definition RK3036_PLLCON0_POSTDIV1_MASK :: u32 where "RK3036_PLLCON0_POSTDIV1_MASK = 0x7"
definition RK3036_PLLCON0_POSTDIV1_SHIFT :: nat where "RK3036_PLLCON0_POSTDIV1_SHIFT = 12"
definition RK3036_PLLCON1_REFDIV_MASK :: u32 where "RK3036_PLLCON1_REFDIV_MASK = 0x3f"
definition RK3036_PLLCON1_REFDIV_SHIFT :: nat where "RK3036_PLLCON1_REFDIV_SHIFT = 0"
definition RK3036_PLLCON1_POSTDIV2_MASK :: u32 where "RK3036_PLLCON1_POSTDIV2_MASK = 0x7"
definition RK3036_PLLCON1_POSTDIV2_SHIFT :: nat where "RK3036_PLLCON1_POSTDIV2_SHIFT = 6"
definition RK3036_PLLCON1_LOCK_BIT :: nat where "RK3036_PLLCON1_LOCK_BIT = 10"
definition RK3036_PLLCON1_DSMPD_MASK :: u32 where "RK3036_PLLCON1_DSMPD_MASK = 0x1"
definition RK3036_PLLCON1_DSMPD_SHIFT :: nat where "RK3036_PLLCON1_DSMPD_SHIFT = 12"
definition RK3036_PLLCON1_PWRDOWN :: u32 where "RK3036_PLLCON1_PWRDOWN = BIT 13"
definition RK3036_PLLCON2_FRAC_MASK :: u32 where "RK3036_PLLCON2_FRAC_MASK = 0xffffff"
definition RK3036_PLLCON2_FRAC_SHIFT :: nat where "RK3036_PLLCON2_FRAC_SHIFT = 0"

definition RK3066_PLLCON :: "nat \<Rightarrow> u32" where "RK3066_PLLCON i = of_nat i * 0x4"
definition RK3066_PLLCON0_OD_MASK :: u32 where "RK3066_PLLCON0_OD_MASK = 0xf"
definition RK3066_PLLCON0_OD_SHIFT :: nat where "RK3066_PLLCON0_OD_SHIFT = 0"
definition RK3066_PLLCON0_NR_MASK :: u32 where "RK3066_PLLCON0_NR_MASK = 0x3f"
definition RK3066_PLLCON0_NR_SHIFT :: nat where "RK3066_PLLCON0_NR_SHIFT = 8"
definition RK3066_PLLCON1_NF_MASK :: u32 where "RK3066_PLLCON1_NF_MASK = 0x1fff"
definition RK3066_PLLCON1_NF_SHIFT :: nat where "RK3066_PLLCON1_NF_SHIFT = 0"
definition RK3066_PLLCON2_NB_MASK :: u32 where "RK3066_PLLCON2_NB_MASK = 0xfff"
definition RK3066_PLLCON2_NB_SHIFT :: nat where "RK3066_PLLCON2_NB_SHIFT = 0"
definition RK3066_PLLCON3_RESET :: u32 where "RK3066_PLLCON3_RESET = BIT 5"
definition RK3066_PLLCON3_PWRDOWN :: u32 where "RK3066_PLLCON3_PWRDOWN = BIT 1"
definition RK3066_PLLCON3_BYPASS :: u32 where "RK3066_PLLCON3_BYPASS = BIT 0"

definition RK3399_PLLCON :: "nat \<Rightarrow> u32" where "RK3399_PLLCON i = of_nat i * 0x4"
definition RK3399_PLLCON0_FBDIV_MASK :: u32 where "RK3399_PLLCON0_FBDIV_MASK = 0xfff"
definition RK3399_PLLCON0_FBDIV_SHIFT :: nat where "RK3399_PLLCON0_FBDIV_SHIFT = 0"
definition RK3399_PLLCON1_REFDIV_MASK :: u32 where "RK3399_PLLCON1_REFDIV_MASK = 0x3f"
definition RK3399_PLLCON1_REFDIV_SHIFT :: nat where "RK3399_PLLCON1_REFDIV_SHIFT = 0"
definition RK3399_PLLCON1_POSTDIV1_MASK :: u32 where "RK3399_PLLCON1_POSTDIV1_MASK = 0x7"
definition RK3399_PLLCON1_POSTDIV1_SHIFT :: nat where "RK3399_PLLCON1_POSTDIV1_SHIFT = 8"
definition RK3399_PLLCON1_POSTDIV2_MASK :: u32 where "RK3399_PLLCON1_POSTDIV2_MASK = 0x7"
definition RK3399_PLLCON1_POSTDIV2_SHIFT :: nat where "RK3399_PLLCON1_POSTDIV2_SHIFT = 12"
definition RK3399_PLLCON2_FRAC_MASK :: u32 where "RK3399_PLLCON2_FRAC_MASK = 0xffffff"
definition RK3399_PLLCON2_FRAC_SHIFT :: nat where "RK3399_PLLCON2_FRAC_SHIFT = 0"
definition RK3399_PLLCON2_LOCK_BIT :: nat where "RK3399_PLLCON2_LOCK_BIT = 31"
definition RK3399_PLLCON3_PWRDOWN :: u32 where "RK3399_PLLCON3_PWRDOWN = BIT 0"
definition RK3399_PLLCON3_DSMPD_MASK :: u32 where "RK3399_PLLCON3_DSMPD_MASK = 0x1"
definition RK3399_PLLCON3_DSMPD_SHIFT :: nat where "RK3399_PLLCON3_DSMPD_SHIFT = 3"

definition BOOST_PLL_H_CON :: "nat \<Rightarrow> u32" where "BOOST_PLL_H_CON x = of_nat x * 0x4"
definition BOOST_CLK_CON :: u32 where "BOOST_CLK_CON = 0x0008"
definition BOOST_BOOST_CON :: u32 where "BOOST_BOOST_CON = 0x000c"
definition BOOST_STATIS_THRESHOLD :: u32 where "BOOST_STATIS_THRESHOLD = 0x001c"
definition BOOST_SWITCH_THRESHOLD :: u32 where "BOOST_SWITCH_THRESHOLD = 0x0024"
definition BOOST_FSM_STATUS :: u32 where "BOOST_FSM_STATUS = 0x0028"
definition BOOST_PLL_L_CON :: "nat \<Rightarrow> u32" where "BOOST_PLL_L_CON x = of_nat x * 0x4 + 0x2c"
definition BOOST_PLL_CON_MASK :: u32 where "BOOST_PLL_CON_MASK = 0xffff"
definition BOOST_CORE_DIV_MASK :: u32 where "BOOST_CORE_DIV_MASK = 0x1f"
definition BOOST_CORE_DIV_SHIFT :: nat where "BOOST_CORE_DIV_SHIFT = 0"
definition BOOST_BACKUP_PLL_MASK :: u32 where "BOOST_BACKUP_PLL_MASK = 0x3"
definition BOOST_BACKUP_PLL_SHIFT :: nat where "BOOST_BACKUP_PLL_SHIFT = 8"
definition BOOST_BACKUP_PLL_USAGE_MASK :: u32 where "BOOST_BACKUP_PLL_USAGE_MASK = 0x1"
definition BOOST_BACKUP_PLL_USAGE_SHIFT :: nat where "BOOST_BACKUP_PLL_USAGE_SHIFT = 12"
definition BOOST_BACKUP_PLL_USAGE_TARGET :: u32 where "BOOST_BACKUP_PLL_USAGE_TARGET = 1"
definition BOOST_ENABLE_MASK :: u32 where "BOOST_ENABLE_MASK = 0x1"
definition BOOST_ENABLE_SHIFT :: nat where "BOOST_ENABLE_SHIFT = 0"
definition BOOST_RECOVERY_MASK :: u32 where "BOOST_RECOVERY_MASK = 0x1"
definition BOOST_RECOVERY_SHIFT :: nat where "BOOST_RECOVERY_SHIFT = 1"
definition BOOST_SW_CTRL_MASK :: u32 where "BOOST_SW_CTRL_MASK = 0x1"
definition BOOST_SW_CTRL_SHIFT :: nat where "BOOST_SW_CTRL_SHIFT = 2"
definition BOOST_LOW_FREQ_EN_MASK :: u32 where "BOOST_LOW_FREQ_EN_MASK = 0x1"
definition BOOST_LOW_FREQ_EN_SHIFT :: nat where "BOOST_LOW_FREQ_EN_SHIFT = 3"
definition BOOST_STATIS_ENABLE_MASK :: u32 where "BOOST_STATIS_ENABLE_MASK = 0x1"
definition BOOST_STATIS_ENABLE_SHIFT :: nat where "BOOST_STATIS_ENABLE_SHIFT = 4"
definition BOOST_BUSY_STATE :: u32 where "BOOST_BUSY_STATE = BIT 8"

lemmas rk3036_regs = RK3036_PLLCON_def RK3036_PLLCON0_FBDIV_MASK_def RK3036_PLLCON0_FBDIV_SHIFT_def
  RK3036_PLLCON0_POSTDIV1_MASK_def RK3036_PLLCON0_POSTDIV1_SHIFT_def RK3036_PLLCON1_REFDIV_MASK_def
  RK3036_PLLCON1_REFDIV_SHIFT_def RK3036_PLLCON1_POSTDIV2_MASK_def RK3036_PLLCON1_POSTDIV2_SHIFT_def
  RK3036_PLLCON1_DSMPD_MASK_def RK3036_PLLCON1_DSMPD_SHIFT_def RK3036_PLLCON2_FRAC_MASK_def
  RK3036_PLLCON2_FRAC_SHIFT_def

lemmas rk3066_regs = RK3066_PLLCON_def RK3066_PLLCON0_OD_MASK_def RK3066_PLLCON0_OD_SHIFT_def
  RK3066_PLLCON0_NR_MASK_def RK3066_PLLCON0_NR_SHIFT_def RK3066_PLLCON1_NF_MASK_def
  RK3066_PLLCON1_NF_SHIFT_def RK3066_PLLCON2_NB_MASK_def RK3066_PLLCON2_NB_SHIFT_def

lemmas rk3399_regs = RK3399_PLLCON_def RK3399_PLLCON0_FBDIV_MASK_def RK3399_PLLCON0_FBDIV_SHIFT_def
  RK3399_PLLCON1_REFDIV_MASK_def RK3399_PLLCON1_REFDIV_SHIFT_def RK3399_PLLCON1_POSTDIV1_MASK_def
  RK3399_PLLCON1_POSTDIV1_SHIFT_def RK3399_PLLCON1_POSTDIV2_MASK_def RK3399_PLLCON1_POSTDIV2_SHIFT_def
  RK3399_PLLCON2_FRAC_MASK_def RK3399_PLLCON2_FRAC_SHIFT_def RK3399_PLLCON3_DSMPD_MASK_def
  RK3399_PLLCON3_DSMPD_SHIFT_def

text \<open>
  The hardware behind the driver, over a state \<open>'hw\<close>: the registers of the PLL by their offset from
  \<open>reg_base\<close>; \<open>pll_poll\<close> and \<open>grf_poll\<close> are \<open>readl_relaxed_poll_timeout\<close> and
  \<open>regmap_read_poll_timeout\<close> waiting up to 1000 us for a bit, with whether they saw it; the mux of
  the clock framework; and the registers of the boost module.
\<close>

record 'hw pll_port =
  pll_read :: "'hw \<Rightarrow> u32 \<Rightarrow> u32"
  pll_write :: "'hw \<Rightarrow> u32 \<Rightarrow> u32 \<Rightarrow> 'hw"
  pll_poll :: "'hw \<Rightarrow> u32 \<Rightarrow> nat \<Rightarrow> 'hw \<times> bool"
  grf_poll :: "'hw \<Rightarrow> u32 \<Rightarrow> nat \<Rightarrow> 'hw \<times> bool"
  mux_get :: "'hw \<Rightarrow> nat"
  mux_set :: "'hw \<Rightarrow> nat \<Rightarrow> 'hw"
  boost_read :: "'hw \<Rightarrow> u32 \<Rightarrow> 'hw \<times> u32"
  boost_write :: "'hw \<Rightarrow> u32 \<Rightarrow> u32 \<Rightarrow> 'hw"

text \<open>\<open>struct rockchip_clk_pll\<close>: the rates of \<open>pll_rates\<close>, the hardware and the boost fields.\<close>

record 'hw rockchip_clk_pll = pll_rates +
  pll_hw :: 'hw
  lock_offset :: u32
  lock_shift :: nat
  sync_rate :: bool
  have_grf :: bool
  boost_found :: bool
  boost_enabled :: bool
  boost_backup_pll_usage :: u32
  boost_backup_pll_rate :: u64
  boost_low_rate :: u64
  boost_high_rate :: u64

definition rockchip_boost_disable_low :: "'hw pll_port \<Rightarrow> 'hw rockchip_clk_pll \<Rightarrow> 'hw rockchip_clk_pll" where
  "rockchip_boost_disable_low P d =
     (if \<not> boost_enabled d then d
      else d\<lparr>pll_hw := boost_write P (pll_hw d) BOOST_BOOST_CON
               (HIWORD_UPDATE 0 BOOST_LOW_FREQ_EN_MASK BOOST_LOW_FREQ_EN_SHIFT)\<rparr>)"

text \<open>Waiting for the lock: the flag says that the bit was seen.\<close>

definition rockchip_pll_wait_lock :: "'hw pll_port \<Rightarrow> 'hw rockchip_clk_pll \<Rightarrow> 'hw rockchip_clk_pll \<times> bool" where
  "rockchip_pll_wait_lock P d =
     (let (h, ok) = grf_poll P (pll_hw d) (lock_offset d) (lock_shift d) in (d\<lparr>pll_hw := h\<rparr>, ok))"

definition rockchip_rk3036_pll_wait_lock :: "'hw pll_port \<Rightarrow> 'hw rockchip_clk_pll \<Rightarrow> 'hw rockchip_clk_pll \<times> bool" where
  "rockchip_rk3036_pll_wait_lock P d =
     (let (h, ok) = pll_poll P (pll_hw d) (RK3036_PLLCON 1) RK3036_PLLCON1_LOCK_BIT in (d\<lparr>pll_hw := h\<rparr>, ok))"

definition rockchip_rk3399_pll_wait_lock :: "'hw pll_port \<Rightarrow> 'hw rockchip_clk_pll \<Rightarrow> 'hw rockchip_clk_pll \<times> bool" where
  "rockchip_rk3399_pll_wait_lock P d =
     (let (h, ok) = pll_poll P (pll_hw d) (RK3399_PLLCON 2) RK3399_PLLCON2_LOCK_BIT in (d\<lparr>pll_hw := h\<rparr>, ok))"

text \<open>Going to the slow clock before a change of parameters, and back: the flag is \<open>rate_change_remuxed\<close>.\<close>

definition leave_pll :: "'hw pll_port \<Rightarrow> 'hw rockchip_clk_pll \<Rightarrow> 'hw rockchip_clk_pll \<times> bool" where
  "leave_pll P d =
     (if mux_get P (pll_hw d) = PLL_MODE_NORM
      then (d\<lparr>pll_hw := mux_set P (pll_hw d) PLL_MODE_SLOW\<rparr>, True) else (d, False))"

definition return_pll :: "'hw pll_port \<Rightarrow> bool \<Rightarrow> 'hw rockchip_clk_pll \<Rightarrow> 'hw rockchip_clk_pll" where
  "return_pll P remuxed d = (if remuxed then d\<lparr>pll_hw := mux_set P (pll_hw d) PLL_MODE_NORM\<rparr> else d)"

section \<open>The PLL of the RK3036 and the RK3328\<close>

definition field :: "u32 \<Rightarrow> nat \<Rightarrow> u32 \<Rightarrow> u32" where
  "field con s m = drop_bit s con AND m"

definition rockchip_rk3036_pll_con_to_rate :: "u32 \<Rightarrow> u32 \<Rightarrow> u64 option" where
  "rockchip_rk3036_pll_con_to_rate con0 con1 =
     (let fb = field con0 RK3036_PLLCON0_FBDIV_SHIFT RK3036_PLLCON0_FBDIV_MASK;
          p1 = field con0 RK3036_PLLCON0_POSTDIV1_SHIFT RK3036_PLLCON0_POSTDIV1_MASK;
          rd = field con1 RK3036_PLLCON1_REFDIV_SHIFT RK3036_PLLCON1_REFDIV_MASK;
          p2 = field con1 RK3036_PLLCON1_POSTDIV2_SHIFT RK3036_PLLCON1_POSTDIV2_MASK in
      Option.bind (do_div (24000000 * ucast fb) (ucast rd)) (\<lambda>r.
      Option.bind (do_div r (ucast p1)) (\<lambda>r. do_div r (ucast p2))))"

text \<open>The parameters are written into \<open>cur\<close>.\<close>

definition rockchip_rk3036_pll_get_params ::
  "'hw pll_port \<Rightarrow> 'hw \<Rightarrow> rockchip_pll_rate_table \<Rightarrow> rockchip_pll_rate_table" where
  "rockchip_rk3036_pll_get_params P h cur =
     (let con0 = pll_read P h (RK3036_PLLCON 0); con1 = pll_read P h (RK3036_PLLCON 1);
          con2 = pll_read P h (RK3036_PLLCON 2) in
      cur\<lparr>fbdiv := field con0 RK3036_PLLCON0_FBDIV_SHIFT RK3036_PLLCON0_FBDIV_MASK,
          postdiv1 := field con0 RK3036_PLLCON0_POSTDIV1_SHIFT RK3036_PLLCON0_POSTDIV1_MASK,
          refdiv := field con1 RK3036_PLLCON1_REFDIV_SHIFT RK3036_PLLCON1_REFDIV_MASK,
          postdiv2 := field con1 RK3036_PLLCON1_POSTDIV2_SHIFT RK3036_PLLCON1_POSTDIV2_MASK,
          dsmpd := field con1 RK3036_PLLCON1_DSMPD_SHIFT RK3036_PLLCON1_DSMPD_MASK,
          frac := field con2 RK3036_PLLCON2_FRAC_SHIFT RK3036_PLLCON2_FRAC_MASK\<rparr>)"

definition rockchip_rk3036_pll_recalc_rate :: "'hw pll_port \<Rightarrow> 'hw rockchip_clk_pll \<Rightarrow> u64 \<Rightarrow> u64 option" where
  "rockchip_rk3036_pll_recalc_rate P d prate =
     (if sel d \<noteq> 0 \<and> scaling d \<noteq> 0 then Some (scaling d)
      else params_rate prate (rockchip_rk3036_pll_get_params P (pll_hw d) blank_setting))"

text \<open>The writes of the parameters.\<close>

definition rk3036_program :: "'hw pll_port \<Rightarrow> rockchip_pll_rate_table \<Rightarrow> 'hw \<Rightarrow> 'hw" where
  "rk3036_program P r h =
     (let h1 = pll_write P h (RK3036_PLLCON 0)
            (HIWORD_UPDATE (fbdiv r) RK3036_PLLCON0_FBDIV_MASK RK3036_PLLCON0_FBDIV_SHIFT
             OR HIWORD_UPDATE (postdiv1 r) RK3036_PLLCON0_POSTDIV1_MASK RK3036_PLLCON0_POSTDIV1_SHIFT);
          h2 = pll_write P h1 (RK3036_PLLCON 1)
            (HIWORD_UPDATE (refdiv r) RK3036_PLLCON1_REFDIV_MASK RK3036_PLLCON1_REFDIV_SHIFT
             OR HIWORD_UPDATE (postdiv2 r) RK3036_PLLCON1_POSTDIV2_MASK RK3036_PLLCON1_POSTDIV2_SHIFT
             OR HIWORD_UPDATE (dsmpd r) RK3036_PLLCON1_DSMPD_MASK RK3036_PLLCON1_DSMPD_SHIFT);
          pllcon = pll_read P h2 (RK3036_PLLCON 2)
            AND NOT (push_bit RK3036_PLLCON2_FRAC_SHIFT RK3036_PLLCON2_FRAC_MASK)
            OR push_bit RK3036_PLLCON2_FRAC_SHIFT (frac r)
      in pll_write P h2 (RK3036_PLLCON 2) pllcon)"

text \<open>
  When the PLL does not lock, the function calls itself to restore the old parameters, whose
  failure does the same: it need not return. All fields of \<open>cur\<close> are read or set before use.
\<close>

partial_function (option) rockchip_rk3036_pll_set_params ::
  "'hw pll_port \<Rightarrow> rockchip_pll_rate_table \<Rightarrow> 'hw rockchip_clk_pll \<Rightarrow> ('hw rockchip_clk_pll \<times> errno option) option"
where
  "rockchip_rk3036_pll_set_params P r d =
     (let cur = rockchip_rk3036_pll_get_params P (pll_hw d) blank_setting\<lparr>rate := 0\<rparr>;
          (d1, remuxed) = leave_pll P d;
          d2 = rockchip_boost_disable_low P (d1\<lparr>pll_hw := rk3036_program P r (pll_hw d1)\<rparr>);
          (d3, ok) = rockchip_rk3036_pll_wait_lock P d2
      in if ok then Some (return_pll P remuxed d3, None)
         else Option.bind (rockchip_rk3036_pll_set_params P cur d3)
                (\<lambda>(d4, _). Some (return_pll P remuxed d4, Some ETIMEDOUT)))"

definition rockchip_rk3036_pll_set_rate ::
  "'hw pll_port \<Rightarrow> u64 \<Rightarrow> 'hw rockchip_clk_pll \<Rightarrow> ('hw rockchip_clk_pll \<times> errno option) option" where
  "rockchip_rk3036_pll_set_rate P drate d =
     Option.bind (rockchip_get_pll_settings d drate) (\<lambda>(d1, r).
       case r of None \<Rightarrow> Some (d1, Some EINVAL) | Some r \<Rightarrow> rockchip_rk3036_pll_set_params P r d1)"

definition rockchip_rk3036_pll_enable :: "'hw pll_port \<Rightarrow> 'hw rockchip_clk_pll \<Rightarrow> 'hw rockchip_clk_pll" where
  "rockchip_rk3036_pll_enable P d =
     fst (rockchip_rk3036_pll_wait_lock P
       (d\<lparr>pll_hw := pll_write P (pll_hw d) (RK3036_PLLCON 1) (HIWORD_UPDATE 0 RK3036_PLLCON1_PWRDOWN 0)\<rparr>))"

definition rockchip_rk3036_pll_disable :: "'hw pll_port \<Rightarrow> 'hw rockchip_clk_pll \<Rightarrow> 'hw rockchip_clk_pll" where
  "rockchip_rk3036_pll_disable P d =
     d\<lparr>pll_hw := pll_write P (pll_hw d) (RK3036_PLLCON 1)
          (HIWORD_UPDATE RK3036_PLLCON1_PWRDOWN RK3036_PLLCON1_PWRDOWN 0)\<rparr>"

definition rockchip_rk3036_pll_is_enabled :: "'hw pll_port \<Rightarrow> 'hw rockchip_clk_pll \<Rightarrow> bool" where
  "rockchip_rk3036_pll_is_enabled P d \<longleftrightarrow>
     pll_read P (pll_hw d) (RK3036_PLLCON 1) AND RK3036_PLLCON1_PWRDOWN = 0"

text \<open>
  Initialisation: \<open>drate\<close> is \<open>clk_hw_get_rate\<close>, \<open>parent\<close> whether the clock has a parent. The result of
  changing the parameters is ignored.
\<close>

definition rockchip_rk3036_pll_init ::
  "'hw pll_port \<Rightarrow> u64 \<Rightarrow> bool \<Rightarrow> 'hw rockchip_clk_pll \<Rightarrow> 'hw rockchip_clk_pll option" where
  "rockchip_rk3036_pll_init P drate parent d =
     (if \<not> sync_rate d then Some d
      else Option.bind (rockchip_get_pll_settings d drate) (\<lambda>(d1, r).
        case r of None \<Rightarrow> Some d1
        | Some r \<Rightarrow>
            let cur = rockchip_rk3036_pll_get_params P (pll_hw d1) blank_setting in
            if fbdiv r \<noteq> fbdiv cur \<or> postdiv1 r \<noteq> postdiv1 cur \<or> refdiv r \<noteq> refdiv cur
               \<or> postdiv2 r \<noteq> postdiv2 cur \<or> dsmpd r \<noteq> dsmpd cur \<or> dsmpd cur = 0 \<and> frac r \<noteq> frac cur
            then if \<not> parent then Some d1 else map_option fst (rockchip_rk3036_pll_set_params P r d1)
            else Some d1))"

section \<open>The PLL of the RK3066, RK3188 and RK3288\<close>

definition rockchip_rk3066_pll_get_params ::
  "'hw pll_port \<Rightarrow> 'hw \<Rightarrow> rockchip_pll_rate_table \<Rightarrow> rockchip_pll_rate_table" where
  "rockchip_rk3066_pll_get_params P h cur =
     (let con0 = pll_read P h (RK3066_PLLCON 0); con1 = pll_read P h (RK3066_PLLCON 1);
          con2 = pll_read P h (RK3066_PLLCON 2) in
      cur\<lparr>fbdiv := field con0 RK3066_PLLCON0_NR_SHIFT RK3066_PLLCON0_NR_MASK + 1,
          refdiv := field con0 RK3066_PLLCON0_OD_SHIFT RK3066_PLLCON0_OD_MASK + 1,
          postdiv1 := field con1 RK3066_PLLCON1_NF_SHIFT RK3066_PLLCON1_NF_MASK + 1,
          postdiv2 := field con2 RK3066_PLLCON2_NB_SHIFT RK3066_PLLCON2_NB_MASK + 1\<rparr>)"

definition rockchip_rk3066_pll_recalc_rate :: "'hw pll_port \<Rightarrow> 'hw rockchip_clk_pll \<Rightarrow> u64 \<Rightarrow> u64 option" where
  "rockchip_rk3066_pll_recalc_rate P d prate =
     (if pll_read P (pll_hw d) (RK3066_PLLCON 3) AND RK3066_PLLCON3_BYPASS \<noteq> 0 then Some prate
      else if sel d \<noteq> 0 \<and> scaling d \<noteq> 0 then Some (scaling d)
      else let cur = rockchip_rk3066_pll_get_params P (pll_hw d) blank_setting in
        Option.bind (do_div (prate * ucast (nf_field cur)) (ucast (nr_field cur)))
          (\<lambda>r. do_div r (ucast (no_field cur))))"

definition rk3066_program :: "'hw pll_port \<Rightarrow> rockchip_pll_rate_table \<Rightarrow> 'hw \<Rightarrow> 'hw" where
  "rk3066_program P r h =
     (let h1 = pll_write P h (RK3066_PLLCON 3) (HIWORD_UPDATE RK3066_PLLCON3_RESET RK3066_PLLCON3_RESET 0);
          h2 = pll_write P h1 (RK3066_PLLCON 0)
            (HIWORD_UPDATE (nr_field r - 1) RK3066_PLLCON0_NR_MASK RK3066_PLLCON0_NR_SHIFT
             OR HIWORD_UPDATE (no_field r - 1) RK3066_PLLCON0_OD_MASK RK3066_PLLCON0_OD_SHIFT);
          h3 = pll_write P h2 (RK3066_PLLCON 1)
            (HIWORD_UPDATE (nf_field r - 1) RK3066_PLLCON1_NF_MASK RK3066_PLLCON1_NF_SHIFT);
          h4 = pll_write P h3 (RK3066_PLLCON 2)
            (HIWORD_UPDATE (nb_field r - 1) RK3066_PLLCON2_NB_MASK RK3066_PLLCON2_NB_SHIFT)
      in pll_write P h4 (RK3066_PLLCON 3) (HIWORD_UPDATE 0 RK3066_PLLCON3_RESET 0))"

text \<open>The fields that \<open>get_params\<close> leaves alone are not used; the delay after the reset has no effect here.\<close>

partial_function (option) rockchip_rk3066_pll_set_params ::
  "'hw pll_port \<Rightarrow> rockchip_pll_rate_table \<Rightarrow> 'hw rockchip_clk_pll \<Rightarrow> ('hw rockchip_clk_pll \<times> errno option) option"
where
  "rockchip_rk3066_pll_set_params P r d =
     (let cur = rockchip_rk3066_pll_get_params P (pll_hw d) blank_setting\<lparr>rate := 0\<rparr>;
          (d1, remuxed) = leave_pll P d;
          (d2, ok) = rockchip_pll_wait_lock P (d1\<lparr>pll_hw := rk3066_program P r (pll_hw d1)\<rparr>)
      in if ok then Some (return_pll P remuxed d2, None)
         else Option.bind (rockchip_rk3066_pll_set_params P cur d2)
                (\<lambda>(d3, _). Some (return_pll P remuxed d3, Some ETIMEDOUT)))"

text \<open>The old rate, read first, is only printed; \<open>grf_error\<close> is \<open>PTR_ERR(grf)\<close>.\<close>

definition rockchip_rk3066_pll_set_rate ::
  "'hw pll_port \<Rightarrow> errno \<Rightarrow> u64 \<Rightarrow> u64 \<Rightarrow> 'hw rockchip_clk_pll \<Rightarrow> ('hw rockchip_clk_pll \<times> errno option) option" where
  "rockchip_rk3066_pll_set_rate P grf_error drate prate d =
     Option.bind (rockchip_rk3066_pll_recalc_rate P d prate) (\<lambda>_.
       if \<not> have_grf d then Some (d, Some grf_error)
       else Option.bind (rockchip_get_pll_settings d drate) (\<lambda>(d1, r).
         case r of None \<Rightarrow> Some (d1, Some EINVAL)
         | Some r \<Rightarrow> map_option (\<lambda>(d2, e). (if e \<noteq> None then d2\<lparr>scaling := 0\<rparr> else d2, e))
             (rockchip_rk3066_pll_set_params P r d1)))"

definition rockchip_rk3066_pll_enable :: "'hw pll_port \<Rightarrow> 'hw rockchip_clk_pll \<Rightarrow> 'hw rockchip_clk_pll" where
  "rockchip_rk3066_pll_enable P d =
     fst (rockchip_pll_wait_lock P
       (d\<lparr>pll_hw := pll_write P (pll_hw d) (RK3066_PLLCON 3) (HIWORD_UPDATE 0 RK3066_PLLCON3_PWRDOWN 0)\<rparr>))"

definition rockchip_rk3066_pll_disable :: "'hw pll_port \<Rightarrow> 'hw rockchip_clk_pll \<Rightarrow> 'hw rockchip_clk_pll" where
  "rockchip_rk3066_pll_disable P d =
     d\<lparr>pll_hw := pll_write P (pll_hw d) (RK3066_PLLCON 3)
          (HIWORD_UPDATE RK3066_PLLCON3_PWRDOWN RK3066_PLLCON3_PWRDOWN 0)\<rparr>"

definition rockchip_rk3066_pll_is_enabled :: "'hw pll_port \<Rightarrow> 'hw rockchip_clk_pll \<Rightarrow> bool" where
  "rockchip_rk3066_pll_is_enabled P d \<longleftrightarrow>
     pll_read P (pll_hw d) (RK3066_PLLCON 3) AND RK3066_PLLCON3_PWRDOWN = 0"

definition rockchip_rk3066_pll_init ::
  "'hw pll_port \<Rightarrow> u64 \<Rightarrow> 'hw rockchip_clk_pll \<Rightarrow> 'hw rockchip_clk_pll option" where
  "rockchip_rk3066_pll_init P drate d =
     (if \<not> sync_rate d then Some d
      else Option.bind (rockchip_get_pll_settings d drate) (\<lambda>(d1, r).
        case r of None \<Rightarrow> Some d1
        | Some r \<Rightarrow>
            let cur = rockchip_rk3066_pll_get_params P (pll_hw d1) blank_setting in
            if nr_field r \<noteq> nr_field cur \<or> no_field r \<noteq> no_field cur
               \<or> nf_field r \<noteq> nf_field cur \<or> nb_field r \<noteq> nb_field cur
            then map_option fst (rockchip_rk3066_pll_set_params P r d1) else Some d1))"

section \<open>The PLL of the RK3399\<close>

definition rockchip_rk3399_pll_get_params ::
  "'hw pll_port \<Rightarrow> 'hw \<Rightarrow> rockchip_pll_rate_table \<Rightarrow> rockchip_pll_rate_table" where
  "rockchip_rk3399_pll_get_params P h cur =
     (let con0 = pll_read P h (RK3399_PLLCON 0); con1 = pll_read P h (RK3399_PLLCON 1);
          con2 = pll_read P h (RK3399_PLLCON 2); con3 = pll_read P h (RK3399_PLLCON 3) in
      cur\<lparr>fbdiv := field con0 RK3399_PLLCON0_FBDIV_SHIFT RK3399_PLLCON0_FBDIV_MASK,
          refdiv := field con1 RK3399_PLLCON1_REFDIV_SHIFT RK3399_PLLCON1_REFDIV_MASK,
          postdiv1 := field con1 RK3399_PLLCON1_POSTDIV1_SHIFT RK3399_PLLCON1_POSTDIV1_MASK,
          postdiv2 := field con1 RK3399_PLLCON1_POSTDIV2_SHIFT RK3399_PLLCON1_POSTDIV2_MASK,
          frac := field con2 RK3399_PLLCON2_FRAC_SHIFT RK3399_PLLCON2_FRAC_MASK,
          dsmpd := field con3 RK3399_PLLCON3_DSMPD_SHIFT RK3399_PLLCON3_DSMPD_MASK\<rparr>)"

definition rockchip_rk3399_pll_recalc_rate :: "'hw pll_port \<Rightarrow> 'hw rockchip_clk_pll \<Rightarrow> u64 \<Rightarrow> u64 option" where
  "rockchip_rk3399_pll_recalc_rate P d prate =
     (if sel d \<noteq> 0 \<and> scaling d \<noteq> 0 then Some (scaling d)
      else params_rate prate (rockchip_rk3399_pll_get_params P (pll_hw d) blank_setting))"

definition rk3399_program :: "'hw pll_port \<Rightarrow> rockchip_pll_rate_table \<Rightarrow> 'hw \<Rightarrow> 'hw" where
  "rk3399_program P r h =
     (let h1 = pll_write P h (RK3399_PLLCON 3) (HIWORD_UPDATE RK3399_PLLCON3_PWRDOWN RK3399_PLLCON3_PWRDOWN 0);
          h2 = pll_write P h1 (RK3399_PLLCON 0)
            (HIWORD_UPDATE (fbdiv r) RK3399_PLLCON0_FBDIV_MASK RK3399_PLLCON0_FBDIV_SHIFT);
          h3 = pll_write P h2 (RK3399_PLLCON 1)
            (HIWORD_UPDATE (refdiv r) RK3399_PLLCON1_REFDIV_MASK RK3399_PLLCON1_REFDIV_SHIFT
             OR HIWORD_UPDATE (postdiv1 r) RK3399_PLLCON1_POSTDIV1_MASK RK3399_PLLCON1_POSTDIV1_SHIFT
             OR HIWORD_UPDATE (postdiv2 r) RK3399_PLLCON1_POSTDIV2_MASK RK3399_PLLCON1_POSTDIV2_SHIFT);
          pllcon = pll_read P h3 (RK3399_PLLCON 2)
            AND NOT (push_bit RK3399_PLLCON2_FRAC_SHIFT RK3399_PLLCON2_FRAC_MASK)
            OR push_bit RK3399_PLLCON2_FRAC_SHIFT (frac r);
          h4 = pll_write P h3 (RK3399_PLLCON 2) pllcon;
          h5 = pll_write P h4 (RK3399_PLLCON 3)
            (HIWORD_UPDATE (dsmpd r) RK3399_PLLCON3_DSMPD_MASK RK3399_PLLCON3_DSMPD_SHIFT)
      in pll_write P h5 (RK3399_PLLCON 3) (HIWORD_UPDATE 0 RK3399_PLLCON3_PWRDOWN 0))"

partial_function (option) rockchip_rk3399_pll_set_params ::
  "'hw pll_port \<Rightarrow> rockchip_pll_rate_table \<Rightarrow> 'hw rockchip_clk_pll \<Rightarrow> ('hw rockchip_clk_pll \<times> errno option) option"
where
  "rockchip_rk3399_pll_set_params P r d =
     (let cur = rockchip_rk3399_pll_get_params P (pll_hw d) blank_setting\<lparr>rate := 0\<rparr>;
          (d1, remuxed) = leave_pll P d;
          (d2, ok) = rockchip_rk3399_pll_wait_lock P (d1\<lparr>pll_hw := rk3399_program P r (pll_hw d1)\<rparr>)
      in if ok then Some (return_pll P remuxed d2, None)
         else Option.bind (rockchip_rk3399_pll_set_params P cur d2)
                (\<lambda>(d3, _). Some (return_pll P remuxed d3, Some ETIMEDOUT)))"

definition rockchip_rk3399_pll_set_rate ::
  "'hw pll_port \<Rightarrow> u64 \<Rightarrow> u64 \<Rightarrow> 'hw rockchip_clk_pll \<Rightarrow> ('hw rockchip_clk_pll \<times> errno option) option" where
  "rockchip_rk3399_pll_set_rate P drate prate d =
     Option.bind (rockchip_rk3399_pll_recalc_rate P d prate) (\<lambda>_.
     Option.bind (rockchip_get_pll_settings d drate) (\<lambda>(d1, r).
       case r of None \<Rightarrow> Some (d1, Some EINVAL)
       | Some r \<Rightarrow> map_option (\<lambda>(d2, e). (if e \<noteq> None then d2\<lparr>scaling := 0\<rparr> else d2, e))
           (rockchip_rk3399_pll_set_params P r d1)))"

definition rockchip_rk3399_pll_enable :: "'hw pll_port \<Rightarrow> 'hw rockchip_clk_pll \<Rightarrow> 'hw rockchip_clk_pll" where
  "rockchip_rk3399_pll_enable P d =
     fst (rockchip_rk3399_pll_wait_lock P
       (d\<lparr>pll_hw := pll_write P (pll_hw d) (RK3399_PLLCON 3) (HIWORD_UPDATE 0 RK3399_PLLCON3_PWRDOWN 0)\<rparr>))"

definition rockchip_rk3399_pll_disable :: "'hw pll_port \<Rightarrow> 'hw rockchip_clk_pll \<Rightarrow> 'hw rockchip_clk_pll" where
  "rockchip_rk3399_pll_disable P d =
     d\<lparr>pll_hw := pll_write P (pll_hw d) (RK3399_PLLCON 3)
          (HIWORD_UPDATE RK3399_PLLCON3_PWRDOWN RK3399_PLLCON3_PWRDOWN 0)\<rparr>"

definition rockchip_rk3399_pll_is_enabled :: "'hw pll_port \<Rightarrow> 'hw rockchip_clk_pll \<Rightarrow> bool" where
  "rockchip_rk3399_pll_is_enabled P d \<longleftrightarrow>
     pll_read P (pll_hw d) (RK3399_PLLCON 3) AND RK3399_PLLCON3_PWRDOWN = 0"

definition rockchip_rk3399_pll_init ::
  "'hw pll_port \<Rightarrow> u64 \<Rightarrow> bool \<Rightarrow> 'hw rockchip_clk_pll \<Rightarrow> 'hw rockchip_clk_pll option" where
  "rockchip_rk3399_pll_init P drate parent d =
     (if \<not> sync_rate d then Some d
      else Option.bind (rockchip_get_pll_settings d drate) (\<lambda>(d1, r).
        case r of None \<Rightarrow> Some d1
        | Some r \<Rightarrow>
            let cur = rockchip_rk3399_pll_get_params P (pll_hw d1) blank_setting in
            if fbdiv r \<noteq> fbdiv cur \<or> postdiv1 r \<noteq> postdiv1 cur \<or> refdiv r \<noteq> refdiv cur
               \<or> postdiv2 r \<noteq> postdiv2 cur \<or> dsmpd r \<noteq> dsmpd cur \<or> dsmpd cur = 0 \<and> frac r \<noteq> frac cur
            then if \<not> parent then Some d1 else map_option fst (rockchip_rk3399_pll_set_params P r d1)
            else Some d1))"

section \<open>Compensating the fraction\<close>

text \<open>
  \<open>rockchip_pll_clk_compensation\<close>, which keeps the fraction and the feedback divider it saw first in
  two static variables, \<open>(st_frac, st_fbdiv)\<close>, whatever the clock. \<open>ppm\<close> is an int.
\<close>

definition rockchip_pll_clk_compensation ::
  "'hw pll_port \<Rightarrow> u32 \<times> u32 \<Rightarrow> 'hw rockchip_clk_pll option \<Rightarrow> int
   \<Rightarrow> (u32 \<times> u32) \<times> 'hw rockchip_clk_pll option \<times> errno option" where
  "rockchip_pll_clk_compensation P st parent ppm =
     (if ppm > 0x3e8 \<or> ppm < - 0x3e8 then (st, parent, Some EINVAL)
      else case parent of None \<Rightarrow> (st, parent, Some EINVAL)
      | Some d \<Rightarrow>
        if ptype d = pll_rk3066 then (st, parent, Some EINVAL)
        else
          let (pllcon0, pllcon2, fbdiv_mask, frac_mask, frac_shift) =
                (if ptype d = pll_rk3399
                 then (RK3399_PLLCON 0, RK3399_PLLCON 2, RK3399_PLLCON0_FBDIV_MASK,
                       RK3399_PLLCON2_FRAC_MASK, RK3399_PLLCON2_FRAC_SHIFT)
                 else (RK3036_PLLCON 0, RK3036_PLLCON 2, RK3036_PLLCON0_FBDIV_MASK,
                       RK3036_PLLCON2_FRAC_MASK, RK3036_PLLCON2_FRAC_SHIFT));
              negative = (ppm < 0);
              ppm1 = (of_int (if negative then - ppm else ppm) :: u64);
              (st_frac, st_fbdiv) =
                (if fst st = 0
                 then (pll_read P (pll_hw d) pllcon2 AND frac_mask, pll_read P (pll_hw d) pllcon0 AND fbdiv_mask)
                 else st);
              m = ucast st_frac * ppm1 div 0xf4240;
              n = push_bit 24 ppm1 div 0xf4240 * ucast st_fbdiv;
              fracdiv = (if negative then ucast st_frac - (m + n) else ucast st_frac + (m + n)) in
          if st_frac = 0 \<or> fracdiv > ucast frac_mask then ((st_frac, st_fbdiv), parent, Some EINVAL)
          else
            let pllcon = ucast (ucast (pll_read P (pll_hw d) pllcon2 AND NOT (push_bit frac_shift frac_mask))
                           OR push_bit frac_shift fracdiv)
            in ((st_frac, st_fbdiv), Some (d\<lparr>pll_hw := pll_write P (pll_hw d) pllcon2 pllcon\<rparr>), None))"

section \<open>The boost module\<close>

text \<open>
  What \<open>rockchip_boost_init\<close> finds: the node and the register map, and the properties of the node.
\<close>

record boost_dt =
  boost_np :: bool
  boost_regmap :: bool
  low_con0 :: "u32 option"
  low_con1 :: "u32 option"
  high_con0 :: "u32 option"
  high_con1 :: "u32 option"
  backup_pll :: "u32 option"
  backup_pll_usage :: "u32 option"
  switch_threshold :: "u32 option"
  statis_threshold :: "u32 option"
  statis_enable :: "u32 option"
  boost_enable :: "u32 option"

definition rockchip_pll_con_to_rate :: "'hw rockchip_clk_pll \<Rightarrow> u32 \<Rightarrow> u32 \<Rightarrow> u64 option" where
  "rockchip_pll_con_to_rate d con0 con1 =
     (if ptype d = pll_rk3036 \<or> ptype d = pll_rk3328 then rockchip_rk3036_pll_con_to_rate con0 con1 else Some 0)"

definition boost_reg :: "'hw pll_port \<Rightarrow> u32 \<Rightarrow> u32 \<Rightarrow> 'hw rockchip_clk_pll \<Rightarrow> 'hw rockchip_clk_pll" where
  "boost_reg P off v d = d\<lparr>pll_hw := boost_write P (pll_hw d) off v\<rparr>"

definition boost_prop :: "u32 option \<Rightarrow> (u32 \<Rightarrow> 'hw rockchip_clk_pll \<Rightarrow> 'hw rockchip_clk_pll)
   \<Rightarrow> 'hw rockchip_clk_pll \<Rightarrow> 'hw rockchip_clk_pll" where
  "boost_prop p f d = (case p of None \<Rightarrow> d | Some v \<Rightarrow> f v d)"

text \<open>The low and the high configuration; \<open>con\<close> gives the offsets, \<open>set_rate\<close> stores the rate.\<close>

definition boost_config ::
  "'hw pll_port \<Rightarrow> (nat \<Rightarrow> u32) \<Rightarrow> (u64 \<Rightarrow> 'hw rockchip_clk_pll \<Rightarrow> 'hw rockchip_clk_pll)
   \<Rightarrow> u32 option \<Rightarrow> u32 option \<Rightarrow> 'hw rockchip_clk_pll \<Rightarrow> 'hw rockchip_clk_pll option" where
  "boost_config P con set_rate c0 c1 d =
     (case (c0, c1) of
        (Some con0, Some con1) \<Rightarrow>
          let d1 = boost_reg P (con 0) (HIWORD_UPDATE con0 BOOST_PLL_CON_MASK 0) d;
              d2 = boost_reg P (con 1) (HIWORD_UPDATE con1 BOOST_PLL_CON_MASK 0) d1
          in map_option (\<lambda>r. set_rate r d2) (rockchip_pll_con_to_rate d2 con0 con1)
      | _ \<Rightarrow> Some d)"

definition rockchip_boost_init ::
  "'hw pll_port \<Rightarrow> boost_dt \<Rightarrow> 'hw rockchip_clk_pll \<Rightarrow> 'hw rockchip_clk_pll option" where
  "rockchip_boost_init P dt d =
     (if \<not> boost_np dt then Some d
      else if \<not> boost_regmap dt then Some (d\<lparr>boost_found := False\<rparr>)
      else
        Option.bind (boost_config P BOOST_PLL_L_CON (\<lambda>r d. d\<lparr>boost_low_rate := r\<rparr>) (low_con0 dt) (low_con1 dt)
          (d\<lparr>boost_found := True\<rparr>)) (\<lambda>d1.
        Option.bind (boost_config P BOOST_PLL_H_CON (\<lambda>r d. d\<lparr>boost_high_rate := r\<rparr>) (high_con0 dt) (high_con1 dt)
          d1) (\<lambda>d2.
          let d3 = boost_prop (backup_pll dt) (\<lambda>v. boost_reg P BOOST_CLK_CON
                     (HIWORD_UPDATE v BOOST_BACKUP_PLL_MASK BOOST_BACKUP_PLL_SHIFT)) d2;
              d4 = boost_prop (backup_pll_usage dt) (\<lambda>v d. boost_reg P BOOST_CLK_CON
                     (HIWORD_UPDATE v BOOST_BACKUP_PLL_USAGE_MASK BOOST_BACKUP_PLL_USAGE_SHIFT)
                     (d\<lparr>boost_backup_pll_usage := v\<rparr>)) d3;
              d5 = boost_prop (switch_threshold dt) (boost_reg P BOOST_SWITCH_THRESHOLD) d4;
              d6 = boost_prop (statis_threshold dt) (boost_reg P BOOST_STATIS_THRESHOLD) d5;
              d7 = boost_prop (statis_enable dt) (\<lambda>v. boost_reg P BOOST_BOOST_CON
                     (HIWORD_UPDATE v BOOST_STATIS_ENABLE_MASK BOOST_STATIS_ENABLE_SHIFT)) d6
          in Some (boost_prop (boost_enable dt) (\<lambda>v d.
                let d8 = boost_reg P BOOST_BOOST_CON (HIWORD_UPDATE v BOOST_ENABLE_MASK BOOST_ENABLE_SHIFT) d
                in if v \<noteq> 0 then d8\<lparr>boost_enabled := True\<rparr> else d8) d7))))"

text \<open>The functions below take None for a NULL \<open>hw\<close>. The wait for the busy state has no time limit.\<close>

partial_function (option) boost_wait_busy :: "'hw pll_port \<Rightarrow> 'hw \<Rightarrow> 'hw option" where
  "boost_wait_busy P h =
     (let (h1, v) = boost_read P h BOOST_FSM_STATUS in
      if v AND BOOST_BUSY_STATE = 0 then boost_wait_busy P h1 else Some h1)"

definition rockchip_boost_enable_recovery_sw_low ::
  "'hw pll_port \<Rightarrow> 'hw rockchip_clk_pll option \<Rightarrow> 'hw rockchip_clk_pll option option" where
  "rockchip_boost_enable_recovery_sw_low P hw =
     (case hw of None \<Rightarrow> Some None
      | Some d \<Rightarrow>
        if \<not> boost_enabled d then Some (Some d)
        else
          let d1 = boost_reg P BOOST_BOOST_CON (HIWORD_UPDATE 1 BOOST_RECOVERY_MASK BOOST_RECOVERY_SHIFT) d in
          map_option (\<lambda>h. Some (boost_reg P BOOST_BOOST_CON
              (HIWORD_UPDATE 1 BOOST_SW_CTRL_MASK BOOST_SW_CTRL_SHIFT
               OR HIWORD_UPDATE 1 BOOST_LOW_FREQ_EN_MASK BOOST_LOW_FREQ_EN_SHIFT) (d1\<lparr>pll_hw := h\<rparr>)))
            (boost_wait_busy P (pll_hw d1)))"

definition rockchip_boost_disable_recovery_sw ::
  "'hw pll_port \<Rightarrow> 'hw rockchip_clk_pll option \<Rightarrow> 'hw rockchip_clk_pll option" where
  "rockchip_boost_disable_recovery_sw P hw =
     map_option (\<lambda>d. if \<not> boost_enabled d then d
        else boost_reg P BOOST_BOOST_CON (HIWORD_UPDATE 0 BOOST_SW_CTRL_MASK BOOST_SW_CTRL_SHIFT)
               (boost_reg P BOOST_BOOST_CON (HIWORD_UPDATE 0 BOOST_RECOVERY_MASK BOOST_RECOVERY_SHIFT) d)) hw"

text \<open>The divider of the cores: \<open>DIV_ROUND_UP(prate, boost_low_rate) - 1\<close>, as an unsigned int.\<close>

definition core_div :: "u64 \<Rightarrow> u64 \<Rightarrow> u32" where
  "core_div prate low = ucast ((prate + low - 1) div low - 1)"

definition rockchip_boost_add_core_div ::
  "'hw pll_port \<Rightarrow> u64 \<Rightarrow> 'hw rockchip_clk_pll option \<Rightarrow> 'hw rockchip_clk_pll option" where
  "rockchip_boost_add_core_div P prate hw =
     map_option (\<lambda>d.
       if \<not> boost_enabled d \<or> boost_backup_pll_rate d = prate then d
       else if boost_backup_pll_usage d = BOOST_BACKUP_PLL_USAGE_TARGET then d
       else if boost_low_rate d \<noteq> 0 \<and> prate > boost_low_rate d then
         (boost_reg P BOOST_CLK_CON
            (HIWORD_UPDATE (core_div prate (boost_low_rate d)) BOOST_CORE_DIV_MASK BOOST_CORE_DIV_SHIFT) d)
           \<lparr>boost_backup_pll_rate := prate\<rparr>
       else d) hw"

section \<open>Registration\<close>

text \<open>
  What \<open>rockchip_clk_register_pll\<close> tells the clock framework: the mux with its mask and number of
  parents, and the PLL with its operations. \<open>register_env\<close> is what the kernel answers; the result
  has the log of what was allocated or registered and not given back.
\<close>

datatype pll_clk_ops = rk3036_norate_ops | rk3036_ops | rk3066_norate_ops | rk3066_ops
  | rk3399_norate_ops | rk3399_ops

datatype pll_resource = Pll_struct | Mux_clk | Rate_table | Pll_clk

record register_env =
  pll_kzalloc_ok :: bool
  mux_clk_error :: "errno option"
  kmemdup_ok :: bool
  pll_clk_error :: "errno option"
  env_grf_ok :: bool

record pll_registration =
  mux_mask :: u32
  mux_parents :: nat
  reg_ops :: pll_clk_ops
  reg_type :: rockchip_pll_type
  reg_table :: "rockchip_pll_rate_table list option"
  reg_count :: nat

text \<open>\<open>len\<close>: the entries before the one with rate 0; None when the array has none.\<close>

fun table_len :: "rockchip_pll_rate_table list \<Rightarrow> nat option" where
  "table_len [] = None"
| "table_len (t # ts) = (if rate t = 0 then Some 0 else map_option Suc (table_len ts))"

definition pll_ops_for :: "rockchip_pll_type \<Rightarrow> bool \<Rightarrow> bool \<Rightarrow> pll_clk_ops" where
  "pll_ops_for ty have_table grf_ok =
     (case ty of
        pll_rk3066 \<Rightarrow> if \<not> have_table \<or> \<not> grf_ok then rk3066_norate_ops else rk3066_ops
      | pll_rk3399 \<Rightarrow> if \<not> have_table then rk3399_norate_ops else rk3399_ops
      | _ \<Rightarrow> if \<not> have_table \<or> \<not> grf_ok then rk3036_norate_ops else rk3036_ops)"

definition rockchip_clk_register_pll ::
  "register_env \<Rightarrow> rockchip_pll_type \<Rightarrow> nat \<Rightarrow> rockchip_pll_rate_table list option
   \<Rightarrow> (pll_resource list \<times> (errno + pll_registration)) option" where
  "rockchip_clk_register_pll env ty num_parents tab =
     (if ty \<noteq> pll_rk3328 \<and> num_parents \<noteq> 2 \<or> ty = pll_rk3328 \<and> num_parents \<noteq> 1 then Some ([], Inl EINVAL)
      else if \<not> pll_kzalloc_ok env then Some ([], Inl ENOMEM)
      else case mux_clk_error env of Some e \<Rightarrow> Some ([], Inl e)
      | None \<Rightarrow>
        Option.bind (case tab of None \<Rightarrow> Some (None, 0)
            | Some t \<Rightarrow> map_option (\<lambda>len. (if kmemdup_ok env then Some (take len t) else None, len)) (table_len t))
          (\<lambda>(copy, count).
            let copied = (if copy \<noteq> None then [Rate_table] else []) in
            case pll_clk_error env of
              Some e \<Rightarrow> Some (copied, Inl e)
            | None \<Rightarrow> Some (Pll_struct # Mux_clk # copied @ [Pll_clk],
                Inr \<lparr>mux_mask = (if ty = pll_rk3328 then PLL_RK3328_MODE_MASK else PLL_MODE_MASK),
                     mux_parents = (if ty = pll_rk3328 then 2 else 3),
                     reg_ops = pll_ops_for ty (copy \<noteq> None) (env_grf_ok env),
                     reg_type = ty, reg_table = copy, reg_count = count\<rparr>)))"

section \<open>The recursion of \<open>set_params\<close>\<close>

text \<open>
  The three functions share one scheme: read the current parameters, leave the PLL, try the new
  ones, and on a time-out call themselves with the old ones. \<open>least\<close> says that the function is the
  least solution of its equation.
\<close>

locale relock =
  fixes cur :: "'d \<Rightarrow> 'r" and leave :: "'d \<Rightarrow> 'd \<times> bool" and attempt :: "'r \<Rightarrow> 'd \<Rightarrow> 'd \<times> bool"
    and home :: "bool \<Rightarrow> 'd \<Rightarrow> 'd" and set_params :: "'r \<Rightarrow> 'd \<Rightarrow> ('d \<times> errno option) option"
  assumes unfold: "set_params r d =
      (case leave d of (d1, m) \<Rightarrow> case attempt r d1 of (d2, ok) \<Rightarrow>
        if ok then Some (home m d2, None)
        else Option.bind (set_params (cur d) d2) (\<lambda>(d3, _). Some (home m d3, Some ETIMEDOUT)))"
    and least: "(\<And>f r d y. (\<And>r d y. f r d = Some y \<Longrightarrow> Q r d y) \<Longrightarrow>
        (case leave d of (d1, m) \<Rightarrow> case attempt r d1 of (d2, ok) \<Rightarrow>
          if ok then Some (home m d2, None)
          else Option.bind (f (cur d) d2) (\<lambda>(d3, _). Some (home m d3, Some ETIMEDOUT))) = Some y
        \<Longrightarrow> Q r d y)
      \<Longrightarrow> set_params r d = Some y \<Longrightarrow> Q r d y"
begin

text \<open>The arguments of the \<open>n\<close>-th call, and whether the PLL locks in it.\<close>

fun call :: "nat \<Rightarrow> 'r \<Rightarrow> 'd \<Rightarrow> 'r \<times> 'd" where
  "call 0 r d = (r, d)"
| "call (Suc n) r d = call n (cur d) (fst (attempt r (fst (leave d))))"

definition locks :: "'r \<times> 'd \<Rightarrow> bool" where
  "locks c = snd (attempt (fst c) (fst (leave (snd c))))"

lemma returns_if: "locks (call n r d) \<Longrightarrow> \<exists>y. set_params r d = Some y"
proof (induction n arbitrary: r d)
  case 0
  then show ?case by (subst unfold) (simp add: locks_def case_prod_beta)
next
  case (Suc n)
  from Suc.IH [of "cur d" "fst (attempt r (fst (leave d)))"] Suc.prems
  obtain y where "set_params (cur d) (fst (attempt r (fst (leave d)))) = Some y" by auto
  then show ?case by (subst unfold) (simp add: case_prod_beta)
qed

lemma locks_if_returns: "set_params r d = Some y \<Longrightarrow> \<exists>n. locks (call n r d)"
proof (rule least [where Q = "\<lambda>r d y. \<exists>n. locks (call n r d)"])
  fix f r d y
  assume IH: "\<And>r d y. f r d = Some y \<Longrightarrow> \<exists>n. locks (call n r d)"
    and y: "(case leave d of (d1, m) \<Rightarrow> case attempt r d1 of (d2, ok) \<Rightarrow>
      if ok then Some (home m d2, None)
      else Option.bind (f (cur d) d2) (\<lambda>(d3, _). Some (home m d3, Some ETIMEDOUT))) = Some y"
  show "\<exists>n. locks (call n r d)"
  proof (cases "locks (r, d)")
    case True
    then show ?thesis by (intro exI [of _ 0]) simp
  next
    case False
    with y obtain z where "f (cur d) (fst (attempt r (fst (leave d)))) = Some z"
      by (auto simp: locks_def case_prod_beta Option.bind_eq_Some_conv)
    from IH [OF this] obtain n where "locks (call n (cur d) (fst (attempt r (fst (leave d)))))" ..
    then show ?thesis by (intro exI [of _ "Suc n"]) simp
  qed
qed

lemma returns_iff: "set_params r d \<noteq> None \<longleftrightarrow> (\<exists>n. locks (call n r d))"
  using returns_if locks_if_returns by blast

lemma first_try:
  "locks (r, d) \<Longrightarrow> set_params r d = Some (home (snd (leave d)) (fst (attempt r (fst (leave d)))), None)"
  by (subst unfold) (simp add: locks_def case_prod_beta)

lemma failed_result: "set_params r d = Some (d', e) \<Longrightarrow> (e = None) = locks (r, d)"
  by (subst (asm) unfold) (auto simp: locks_def case_prod_beta Option.bind_eq_Some_conv split: if_splits)

end

text \<open>One attempt of each kind of PLL.\<close>

definition rk3036_attempt ::
  "'hw pll_port \<Rightarrow> rockchip_pll_rate_table \<Rightarrow> 'hw rockchip_clk_pll \<Rightarrow> 'hw rockchip_clk_pll \<times> bool" where
  "rk3036_attempt P r d = rockchip_rk3036_pll_wait_lock P
     (rockchip_boost_disable_low P (d\<lparr>pll_hw := rk3036_program P r (pll_hw d)\<rparr>))"

definition rk3066_attempt ::
  "'hw pll_port \<Rightarrow> rockchip_pll_rate_table \<Rightarrow> 'hw rockchip_clk_pll \<Rightarrow> 'hw rockchip_clk_pll \<times> bool" where
  "rk3066_attempt P r d = rockchip_pll_wait_lock P (d\<lparr>pll_hw := rk3066_program P r (pll_hw d)\<rparr>)"

definition rk3399_attempt ::
  "'hw pll_port \<Rightarrow> rockchip_pll_rate_table \<Rightarrow> 'hw rockchip_clk_pll \<Rightarrow> 'hw rockchip_clk_pll \<times> bool" where
  "rk3399_attempt P r d = rockchip_rk3399_pll_wait_lock P (d\<lparr>pll_hw := rk3399_program P r (pll_hw d)\<rparr>)"

definition rk3036_cur :: "'hw pll_port \<Rightarrow> 'hw rockchip_clk_pll \<Rightarrow> rockchip_pll_rate_table" where
  "rk3036_cur P d = rockchip_rk3036_pll_get_params P (pll_hw d) blank_setting\<lparr>rate := 0\<rparr>"

definition rk3066_cur :: "'hw pll_port \<Rightarrow> 'hw rockchip_clk_pll \<Rightarrow> rockchip_pll_rate_table" where
  "rk3066_cur P d = rockchip_rk3066_pll_get_params P (pll_hw d) blank_setting\<lparr>rate := 0\<rparr>"

definition rk3399_cur :: "'hw pll_port \<Rightarrow> 'hw rockchip_clk_pll \<Rightarrow> rockchip_pll_rate_table" where
  "rk3399_cur P d = rockchip_rk3399_pll_get_params P (pll_hw d) blank_setting\<lparr>rate := 0\<rparr>"

interpretation rk3036: relock "rk3036_cur P" "leave_pll P" "rk3036_attempt P" "return_pll P" "rockchip_rk3036_pll_set_params P"
  for P :: "'hw pll_port"
proof
  fix r d
  show "rockchip_rk3036_pll_set_params P r d =
      (case leave_pll P d of (d1, m) \<Rightarrow> case rk3036_attempt P r d1 of (d2, ok) \<Rightarrow>
        if ok then Some (return_pll P m d2, None)
        else Option.bind (rockchip_rk3036_pll_set_params P (rk3036_cur P d) d2)
          (\<lambda>(d3, _). Some (return_pll P m d3, Some ETIMEDOUT)))"
    unfolding rk3036_attempt_def rk3036_cur_def
    by (subst rockchip_rk3036_pll_set_params.simps) (unfold Let_def, rule refl)
next
  fix Q r d y
  assume step: "\<And>f r d y. (\<And>r d y. f r d = Some y \<Longrightarrow> Q r d y) \<Longrightarrow>
        (case leave_pll P d of (d1, m) \<Rightarrow> case rk3036_attempt P r d1 of (d2, ok) \<Rightarrow>
          if ok then Some (return_pll P m d2, None)
          else Option.bind (f (rk3036_cur P d) d2) (\<lambda>(d3, _). Some (return_pll P m d3, Some ETIMEDOUT))) = Some y
        \<Longrightarrow> Q r d y"
    and y: "rockchip_rk3036_pll_set_params P r d = Some y"
  have "(\<lambda>((P', r), d) y. P' = P \<longrightarrow> Q r d y) ((P, r), d) y"
  proof (rule rockchip_rk3036_pll_set_params.raw_induct [of "\<lambda>((P', r), d) y. P' = P \<longrightarrow> Q r d y", OF _ y], unfold prod.case, rule impI)
    fix f :: "'hw pll_port \<Rightarrow> rockchip_pll_rate_table \<Rightarrow> 'hw rockchip_clk_pll \<Rightarrow> ('hw rockchip_clk_pll \<times> errno option) option"
      and P' r d y
    assume IH: "\<And>P' r d y. f P' r d = Some y \<Longrightarrow> P' = P \<longrightarrow> Q r d y"
      and eq: "(let cur = rockchip_rk3036_pll_get_params P' (pll_hw d) blank_setting\<lparr>rate := 0\<rparr>;
          (d1, remuxed) = leave_pll P' d;
          d2 = rockchip_boost_disable_low P' (d1\<lparr>pll_hw := rk3036_program P' r (pll_hw d1)\<rparr>);
          (d3, ok) = rockchip_rk3036_pll_wait_lock P' d2
      in if ok then Some (return_pll P' remuxed d3, None)
         else Option.bind (f P' cur d3)
                (\<lambda>(d4, _). Some (return_pll P' remuxed d4, Some ETIMEDOUT))) = Some y"
      and "P' = P"
    show "Q r d y"
    proof (rule step [of "f P"])
      show "Q r d y" if "f P r d = Some y" for r d y using IH [OF that] by simp
    qed (use eq in \<open>unfold \<open>P' = P\<close> rk3036_attempt_def rk3036_cur_def Let_def\<close>)
  qed
  then show "Q r d y" by simp
qed

interpretation rk3066: relock "rk3066_cur P" "leave_pll P" "rk3066_attempt P" "return_pll P" "rockchip_rk3066_pll_set_params P"
  for P :: "'hw pll_port"
proof
  fix r d
  show "rockchip_rk3066_pll_set_params P r d =
      (case leave_pll P d of (d1, m) \<Rightarrow> case rk3066_attempt P r d1 of (d2, ok) \<Rightarrow>
        if ok then Some (return_pll P m d2, None)
        else Option.bind (rockchip_rk3066_pll_set_params P (rk3066_cur P d) d2)
          (\<lambda>(d3, _). Some (return_pll P m d3, Some ETIMEDOUT)))"
    unfolding rk3066_attempt_def rk3066_cur_def
    by (subst rockchip_rk3066_pll_set_params.simps) (unfold Let_def, rule refl)
next
  fix Q r d y
  assume step: "\<And>f r d y. (\<And>r d y. f r d = Some y \<Longrightarrow> Q r d y) \<Longrightarrow>
        (case leave_pll P d of (d1, m) \<Rightarrow> case rk3066_attempt P r d1 of (d2, ok) \<Rightarrow>
          if ok then Some (return_pll P m d2, None)
          else Option.bind (f (rk3066_cur P d) d2) (\<lambda>(d3, _). Some (return_pll P m d3, Some ETIMEDOUT))) = Some y
        \<Longrightarrow> Q r d y"
    and y: "rockchip_rk3066_pll_set_params P r d = Some y"
  have "(\<lambda>((P', r), d) y. P' = P \<longrightarrow> Q r d y) ((P, r), d) y"
  proof (rule rockchip_rk3066_pll_set_params.raw_induct [of "\<lambda>((P', r), d) y. P' = P \<longrightarrow> Q r d y", OF _ y], unfold prod.case, rule impI)
    fix f :: "'hw pll_port \<Rightarrow> rockchip_pll_rate_table \<Rightarrow> 'hw rockchip_clk_pll \<Rightarrow> ('hw rockchip_clk_pll \<times> errno option) option"
      and P' r d y
    assume IH: "\<And>P' r d y. f P' r d = Some y \<Longrightarrow> P' = P \<longrightarrow> Q r d y"
      and eq: "(let cur = rockchip_rk3066_pll_get_params P' (pll_hw d) blank_setting\<lparr>rate := 0\<rparr>;
          (d1, remuxed) = leave_pll P' d;
          (d2, ok) = rockchip_pll_wait_lock P' (d1\<lparr>pll_hw := rk3066_program P' r (pll_hw d1)\<rparr>)
      in if ok then Some (return_pll P' remuxed d2, None)
         else Option.bind (f P' cur d2)
                (\<lambda>(d3, _). Some (return_pll P' remuxed d3, Some ETIMEDOUT))) = Some y"
      and "P' = P"
    show "Q r d y"
    proof (rule step [of "f P"])
      show "Q r d y" if "f P r d = Some y" for r d y using IH [OF that] by simp
    qed (use eq in \<open>unfold \<open>P' = P\<close> rk3066_attempt_def rk3066_cur_def Let_def\<close>)
  qed
  then show "Q r d y" by simp
qed

interpretation rk3399: relock "rk3399_cur P" "leave_pll P" "rk3399_attempt P" "return_pll P" "rockchip_rk3399_pll_set_params P"
  for P :: "'hw pll_port"
proof
  fix r d
  show "rockchip_rk3399_pll_set_params P r d =
      (case leave_pll P d of (d1, m) \<Rightarrow> case rk3399_attempt P r d1 of (d2, ok) \<Rightarrow>
        if ok then Some (return_pll P m d2, None)
        else Option.bind (rockchip_rk3399_pll_set_params P (rk3399_cur P d) d2)
          (\<lambda>(d3, _). Some (return_pll P m d3, Some ETIMEDOUT)))"
    unfolding rk3399_attempt_def rk3399_cur_def
    by (subst rockchip_rk3399_pll_set_params.simps) (unfold Let_def, rule refl)
next
  fix Q r d y
  assume step: "\<And>f r d y. (\<And>r d y. f r d = Some y \<Longrightarrow> Q r d y) \<Longrightarrow>
        (case leave_pll P d of (d1, m) \<Rightarrow> case rk3399_attempt P r d1 of (d2, ok) \<Rightarrow>
          if ok then Some (return_pll P m d2, None)
          else Option.bind (f (rk3399_cur P d) d2) (\<lambda>(d3, _). Some (return_pll P m d3, Some ETIMEDOUT))) = Some y
        \<Longrightarrow> Q r d y"
    and y: "rockchip_rk3399_pll_set_params P r d = Some y"
  have "(\<lambda>((P', r), d) y. P' = P \<longrightarrow> Q r d y) ((P, r), d) y"
  proof (rule rockchip_rk3399_pll_set_params.raw_induct [of "\<lambda>((P', r), d) y. P' = P \<longrightarrow> Q r d y", OF _ y], unfold prod.case, rule impI)
    fix f :: "'hw pll_port \<Rightarrow> rockchip_pll_rate_table \<Rightarrow> 'hw rockchip_clk_pll \<Rightarrow> ('hw rockchip_clk_pll \<times> errno option) option"
      and P' r d y
    assume IH: "\<And>P' r d y. f P' r d = Some y \<Longrightarrow> P' = P \<longrightarrow> Q r d y"
      and eq: "(let cur = rockchip_rk3399_pll_get_params P' (pll_hw d) blank_setting\<lparr>rate := 0\<rparr>;
          (d1, remuxed) = leave_pll P' d;
          (d2, ok) = rockchip_rk3399_pll_wait_lock P' (d1\<lparr>pll_hw := rk3399_program P' r (pll_hw d1)\<rparr>)
      in if ok then Some (return_pll P' remuxed d2, None)
         else Option.bind (f P' cur d2)
                (\<lambda>(d3, _). Some (return_pll P' remuxed d3, Some ETIMEDOUT))) = Some y"
      and "P' = P"
    show "Q r d y"
    proof (rule step [of "f P"])
      show "Q r d y" if "f P r d = Some y" for r d y using IH [OF that] by simp
    qed (use eq in \<open>unfold \<open>P' = P\<close> rk3399_attempt_def rk3399_cur_def Let_def\<close>)
  qed
  then show "Q r d y" by simp
qed

end
