(* ===== verification/Clk_Half.thy ===== *)
theory Clk_Half
  imports Pll
begin

text \<open>
  The half divider of the clock drivers, \<open>common/sdk_linux/drivers/clk/rockchip/clk-half-divider.c\<close>: a divider of
  the clock unit (CRU) whose field \<open>d\<close> divides by \<open>d + 1.5\<close>. A division by zero gives \<open>None\<close>.
\<close>

section \<open>Data\<close>

text \<open>The registers of the clock unit by their offset, and what the drivers use of a \<open>struct clk_divider\<close>.\<close>

record 'h cru_port =
  cru_read :: "u32 \<Rightarrow> 'h \<Rightarrow> u32"
  cru_write :: "u32 \<Rightarrow> u32 \<Rightarrow> 'h \<Rightarrow> 'h"

record clk_divider =
  dv_reg :: u32
  dv_shift :: nat
  dv_width :: nat
  dv_flags :: u8

definition CLK_DIVIDER_HIWORD_MASK :: u8 where "CLK_DIVIDER_HIWORD_MASK = BIT 3"
definition CLK_DIVIDER_ROUND_CLOSEST :: u8 where "CLK_DIVIDER_ROUND_CLOSEST = BIT 4"
definition CLK_SET_RATE_PARENT :: u64 where "CLK_SET_RATE_PARENT = BIT 2"

text \<open>
  A clock as the framework shows it: its flags, and \<open>clk_hw_round_rate\<close> of its parent, the rate that one would
  give when asked for a rate.
\<close>

record clk_view =
  hw_flags :: u64
  parent_round :: "u64 \<Rightarrow> u64"

definition div_mask :: "nat \<Rightarrow> u32" where
  "div_mask width = push_bit width 1 - 1"

text \<open>\<open>DIV_ROUND_UP_ULL\<close> divides with \<open>do_div\<close>; \<open>DIV_ROUND_UP\<close> is plain arithmetic of its operands' type.\<close>

definition DIV_ROUND_UP_ULL :: "u64 \<Rightarrow> u64 \<Rightarrow> u64 option" where
  "DIV_ROUND_UP_ULL ll d = do_div (ll + d - 1) d"

definition DIV_ROUND_UP2 :: "u32 \<Rightarrow> u32" where
  "DIV_ROUND_UP2 n = (n + 0x2 - 1) div 0x2"

section \<open>The operations\<close>

text \<open>\<open>abs\<close> of an unsigned long is taken of the signed one.\<close>

definition abs_long :: "u64 \<Rightarrow> int" where
  "abs_long x = (if sint x < 0 then sint (- x) else sint x)"

definition is_best_half_div :: "u64 \<Rightarrow> u64 \<Rightarrow> u64 \<Rightarrow> u8 \<Rightarrow> bool" where
  "is_best_half_div rt now best flags =
     (if flags AND CLK_DIVIDER_ROUND_CLOSEST \<noteq> 0 then abs_long (rt - now) \<le> abs_long (rt - best)
      else now \<le> rt \<and> best \<le> now)"

definition clk_half_divider_recalc_rate :: "'h cru_port \<Rightarrow> clk_divider \<Rightarrow> u64 \<Rightarrow> 'h \<Rightarrow> u64 option" where
  "clk_half_divider_recalc_rate P dv parent_rate h =
     (let val = drop_bit (dv_shift dv) (cru_read P (dv_reg dv) h) AND div_mask (dv_width dv) in
      DIV_ROUND_UP_ULL (parent_rate * 0x2) (ucast (val * 0x2 + 0x3)))"

text \<open>
  The search over the dividers: the best one so far, the rate it gives and the parent's rate for it, and whether
  one was found. \<open>half_step\<close> is the body of the loop.
\<close>

record half_search =
  sr_div :: u32
  sr_best :: u64
  sr_prate :: u64
  sr_found :: bool

definition half_parent :: "clk_view \<Rightarrow> u64 \<Rightarrow> u32 \<Rightarrow> u64" where
  "half_parent hw rt i = parent_round hw (rt * ucast (i * 0x2 + 0x3) div 0x2)"

definition half_step :: "clk_view \<Rightarrow> u64 \<Rightarrow> u8 \<Rightarrow> u32 \<Rightarrow> half_search \<Rightarrow> half_search option" where
  "half_step hw rt flags i s =
     (let parent_rate = half_parent hw rt i in
      Option.bind (DIV_ROUND_UP_ULL (parent_rate * 0x2) (ucast (i * 0x2 + 0x3))) (\<lambda>now.
        Some (if is_best_half_div rt now (sr_best s) flags
              then \<lparr>sr_div = i, sr_best = now, sr_prate = parent_rate, sr_found = True\<rparr> else s)))"

text \<open>\<open>half_scan n\<close> is the loop for the first \<open>n\<close> dividers.\<close>

primrec half_scan :: "clk_view \<Rightarrow> u64 \<Rightarrow> u8 \<Rightarrow> nat \<Rightarrow> half_search \<Rightarrow> half_search option" where
  "half_scan hw rt flags 0 s = Some s"
| "half_scan hw rt flags (Suc n) s = Option.bind (half_scan hw rt flags n s) (half_step hw rt flags (of_nat n))"

definition clk_half_divider_bestdiv :: "clk_view \<Rightarrow> u64 \<Rightarrow> u64 \<Rightarrow> nat \<Rightarrow> u8 \<Rightarrow> (u32 \<times> u64) option" where
  "clk_half_divider_bestdiv hw rate0 best_parent_rate width flags =
     (let rt = (if rate0 = 0 then 1 else rate0);
          maxdiv = (ucast (div_mask width) :: u64) in
      if hw_flags hw AND CLK_SET_RATE_PARENT = 0 then
        Option.bind (DIV_ROUND_UP_ULL (best_parent_rate * 0x2) rt) (\<lambda>q.
          let b = (ucast q :: u32);
              b' = (if b < 0x3 then 0 else DIV_ROUND_UP2 (b - 0x3)) in
          Some (if maxdiv < ucast b' then ucast maxdiv else b', best_parent_rate))
      else if rt = 0 then Some (-1, best_parent_rate)
      else
        map_option (\<lambda>s. if sr_found s then (sr_div s, sr_prate s) else (div_mask width, parent_round hw 1))
          (half_scan hw rt flags (Suc (unat (min (- 1 div rt) maxdiv)))
             \<lparr>sr_div = 0, sr_best = 0, sr_prate = best_parent_rate, sr_found = False\<rparr>))"

text \<open>Rounding a rate gives it with the rate it asks of the parent.\<close>

definition clk_half_divider_round_rate :: "clk_view \<Rightarrow> clk_divider \<Rightarrow> u64 \<Rightarrow> u64 \<Rightarrow> (u64 \<times> u64) option" where
  "clk_half_divider_round_rate hw dv rt prate =
     Option.bind (clk_half_divider_bestdiv hw rt prate (dv_width dv) (dv_flags dv)) (\<lambda>(d, prate').
       map_option (\<lambda>r. (r, prate')) (DIV_ROUND_UP_ULL (prate' * 0x2) (scast (d * 0x2 + 0x3))))"

definition clk_half_divider_set_rate :: "'h cru_port \<Rightarrow> clk_divider \<Rightarrow> u64 \<Rightarrow> u64 \<Rightarrow> 'h \<Rightarrow> 'h option" where
  "clk_half_divider_set_rate P dv rt parent_rate h =
     map_option (\<lambda>q.
       let value = min (DIV_ROUND_UP2 (ucast q - 0x3)) (div_mask (dv_width dv));
           val = (if dv_flags dv AND CLK_DIVIDER_HIWORD_MASK \<noteq> 0
                  then push_bit (dv_shift dv + 0x10) (div_mask (dv_width dv))
                  else cru_read P (dv_reg dv) h AND NOT (push_bit (dv_shift dv) (div_mask (dv_width dv)))) in
       cru_write P (dv_reg dv) (val OR push_bit (dv_shift dv) value) h)
       (DIV_ROUND_UP_ULL (parent_rate * 0x2) rt)"

section \<open>Registration\<close>

text \<open>
  What the kernel answers: whether the mux, the gate and the divider can be allocated, and what
  \<open>clk_hw_register_composite\<close> says. The result has what is kept.
\<close>

record half_env =
  mux_alloc_ok :: bool
  gate_alloc_ok :: bool
  div_alloc_ok :: bool
  composite_error :: "errno option"

datatype half_resource = Half_mux | Half_gate | Half_div | Half_composite

definition rockchip_clk_register_halfdiv ::
  "half_env \<Rightarrow> nat \<Rightarrow> u32 \<Rightarrow> u32 \<Rightarrow> nat \<Rightarrow> nat \<Rightarrow> u8 \<Rightarrow> int \<Rightarrow> half_resource list \<times> (errno + clk_divider option)" where
  "rockchip_clk_register_halfdiv env num_parents muxdiv_offset div_offset div_shift div_width div_flags gate_offset =
     (if 1 < num_parents \<and> \<not> mux_alloc_ok env then ([], Inl ENOMEM)
      else if 0 \<le> gate_offset \<and> \<not> gate_alloc_ok env then ([], Inl ENOMEM)
      else if 0 < div_width \<and> \<not> div_alloc_ok env then ([], Inl ENOMEM)
      else
        let dv = (if 0 < div_width
                  then Some \<lparr>dv_reg = if div_offset \<noteq> 0 then div_offset else muxdiv_offset, dv_shift = div_shift,
                              dv_width = div_width, dv_flags = div_flags\<rparr>
                  else None);
            mine = (if 0 < div_width then [Half_div] else []) in
        case composite_error env of
          Some e \<Rightarrow> (mine, Inl e)
        | None \<Rightarrow> ((if 1 < num_parents then [Half_mux] else []) @ (if 0 \<le> gate_offset then [Half_gate] else []) @
                   mine @ [Half_composite], Inr dv))"

text \<open>
  A registration that fails gives back what it allocated, except the divider when the framework refuses the clock.
\<close>

lemma rockchip_clk_register_halfdiv_leaks:
  assumes "rockchip_clk_register_halfdiv env n mo dof sh w fl go = (kept, Inl e)"
  shows "kept = (if 0 < w \<and> (n \<le> 1 \<or> mux_alloc_ok env) \<and> (go < 0 \<or> gate_alloc_ok env) \<and> div_alloc_ok env
    then [Half_div] else [])"
  using assms by (auto simp: rockchip_clk_register_halfdiv_def Let_def split: if_splits option.splits)

section \<open>Lemmas\<close>

definition ceil_div :: "nat \<Rightarrow> nat \<Rightarrow> nat" where
  "ceil_div a b = (a + b - 1) div b"

lemma ceil_div_le: "0 < b \<Longrightarrow> ceil_div a b \<le> c \<longleftrightarrow> a \<le> b * c"
proof -
  assume b: "0 < b"
  have "ceil_div a b \<le> c \<longleftrightarrow> (a + b - 1) div b < Suc c" by (simp add: ceil_div_def less_Suc_eq_le)
  also have "\<dots> \<longleftrightarrow> a + b - 1 < Suc c * b" using b by (simp only: div_less_iff_less_mult)
  also have "\<dots> \<longleftrightarrow> a \<le> b * c" using b by (auto simp: algebra_simps)
  finally show ?thesis .
qed

lemma ceil_div_pos: "0 < a \<Longrightarrow> 0 < b \<Longrightarrow> 0 < ceil_div a b"
  using ceil_div_le [of b a 0] by auto

lemma ceil_div_halves: "0 < r \<Longrightarrow> x \<le> r * (2 * d + 3) \<longleftrightarrow> ceil_div (ceil_div x r - 3) 2 \<le> d"
  using ceil_div_le [of r x "2 * d + 3"] ceil_div_le [of 2 "ceil_div x r - 3" d] by auto

lemma unat_round_up:
  assumes "0 < unat (d :: u64)" "unat ll + unat d \<le> 2 ^ 64"
  shows "unat ((ll + d - 1) div d) = ceil_div (unat ll) (unat d)"
proof -
  have "d \<noteq> 0" using assms(1) by auto
  then have "unat (ll + (d - 1)) = unat ll + (unat d - 1)"
    using assms by (subst unat_add_lem [THEN iffD1]) (auto simp: unat_minus_one)
  then show ?thesis using assms(1) by (simp add: ceil_div_def unat_div algebra_simps)
qed

lemma DIV_ROUND_UP_ULL_Some:
  assumes "0 < unat d" "unat d < 2 ^ 32" "unat ll + unat d \<le> 2 ^ 64"
  obtains q where "DIV_ROUND_UP_ULL ll d = Some q" and "unat q = ceil_div (unat ll) (unat d)"
proof
  have "d \<noteq> 0" using assms(1) by auto
  then show "DIV_ROUND_UP_ULL ll d = Some ((ll + d - 1) div d)"
    using assms(2) by (simp add: DIV_ROUND_UP_ULL_def do_div_small)
  show "unat ((ll + d - 1) div d) = ceil_div (unat ll) (unat d)" by (rule unat_round_up [OF assms(1,3)])
qed

lemma div_mask_mask: "width < 32 \<Longrightarrow> div_mask width = mask width"
  by (simp add: div_mask_def mask_eq_decr_exp push_bit_eq_mult)

lemma unat_div_mask: "width < 32 \<Longrightarrow> unat (div_mask width) = 2 ^ width - 1"
proof -
  assume w: "width < 32"
  then have "(2 :: nat) ^ width < 2 ^ 32" by (rule power_strict_increasing) simp
  then have "unat (2 ^ width :: u32) = 2 ^ width" by (metis of_nat_numeral of_nat_power unat_of_nat_small)
  moreover from this have "(2 ^ width :: u32) \<noteq> 0" by (metis power_not_zero unsigned_0 zero_neq_numeral)
  ultimately show ?thesis by (simp add: div_mask_def push_bit_eq_mult unat_minus_one)
qed

lemma up_down: "ucast (ucast (x :: u32) :: u64) = x"
  by (rule bit_word_eqI) (simp add: bit_simps)

lemma unat_half: "unat (d :: u32) < 2 ^ 31 - 2 \<Longrightarrow> unat (d * 0x2 + 0x3) = 2 * unat d + 3"
  by (simp add: unat_word_ariths)

lemma unat_scast: "unat (x :: u32) < 2 ^ 31 \<Longrightarrow> unat (scast x :: u64) = unat x"
proof -
  assume x: "unat x < 2 ^ 31"
  have "uint x < 2 ^ 31" unfolding uint_nat using x by (metis of_nat_less_iff of_nat_numeral of_nat_power)
  moreover have "- (2 ^ 31) \<le> uint x" by (rule order.trans [OF _ uint_ge_0]) simp
  ultimately have "sint x = uint x" by (simp add: sint_uint signed_take_bit_int_eq_self)
  then have "scast x = (of_nat (unat x) :: u64)" by (simp add: scast_eq)
  then show ?thesis using x by (simp add: unat_of_nat)
qed

lemma unat_DIV_ROUND_UP2:
  assumes "2 \<le> unat q" "unat q < 2 ^ 32"
  shows "unat (DIV_ROUND_UP2 (ucast (q :: u64) - 0x3)) = ceil_div (unat q - 3) 2"
proof (cases "unat q = 2")
  case True
  then have "ucast q = (2 :: u32)" by (simp add: word_unat_eq_iff ucast_small)
  then show ?thesis using True by (simp add: DIV_ROUND_UP2_def ceil_div_def)
next
  case False
  define y :: u32 where "y = ucast q - 0x3"
  have "unat y = unat q - 3" unfolding y_def
    using False assms by (subst unat_sub) (simp_all add: ucast_small word_le_nat_alt)
  then have "unat (y + 1) = unat q - 3 + 1" using assms by (simp add: unat_word_ariths)
  moreover have "y + 0x2 - 1 = y + 1" by simp
  ultimately show ?thesis unfolding DIV_ROUND_UP2_def y_def [symmetric] by (simp only: ceil_div_def unat_div) simp
qed

lemma hi_field:
  assumes "s + w \<le> 16" "v = take_bit w v"
  shows "drop_bit s (hiword old (push_bit (s + 0x10) (mask w) OR push_bit s v)) AND mask w = v"
proof (rule bit_word_eqI)
  fix n assume "n < LENGTH(32)"
  have "n < w \<Longrightarrow> n + s < 16" using assms(1) by simp
  then show "bit (drop_bit s (hiword old (push_bit (s + 0x10) (mask w) OR push_bit s v)) AND mask w) n = bit v n"
    using assms(1) arg_cong [OF assms(2), of "\<lambda>v. bit v n"]
    by (cases "n < w") (auto simp: bit_hiword bit_simps algebra_simps)
qed

lemma plain_field:
  assumes "s + w \<le> 32" "v = take_bit w (v :: u32)"
  shows "drop_bit s (old AND NOT (push_bit s (mask w)) OR push_bit s v) AND mask w = v"
proof (rule bit_word_eqI)
  fix n assume "n < LENGTH(32)"
  then show "bit (drop_bit s (old AND NOT (push_bit s (mask w)) OR push_bit s v) AND mask w) n = bit v n"
    using assms(1) arg_cong [OF assms(2), of "\<lambda>v. bit v n"]
    by (cases "n < w") (auto simp: bit_simps)
qed

section \<open>Setting a rounded rate\<close>

text \<open>
  The registers of the clock unit, with a write mask in their upper halves (\<open>hi\<close>) or without: a write changes
  the one register.
\<close>

definition cru_law :: "bool \<Rightarrow> ('h, 'x) cru_port_scheme \<Rightarrow> bool" where
  "cru_law hi P \<longleftrightarrow> (\<forall>a b v h. cru_read P a (cru_write P b v h) =
     (if a \<noteq> b then cru_read P a h else if hi then hiword (cru_read P b h) v else v))"

definition dv_hi :: "clk_divider \<Rightarrow> bool" where
  "dv_hi dv \<longleftrightarrow> dv_flags dv AND CLK_DIVIDER_HIWORD_MASK \<noteq> 0"

definition dv_fits :: "clk_divider \<Rightarrow> bool" where
  "dv_fits dv \<longleftrightarrow> dv_width dv \<le> 16 \<and> dv_shift dv + dv_width dv \<le> (if dv_hi dv then 16 else 32)"

text \<open>The field after a rate is set: the value, cut to the field.\<close>

lemma set_rate_field:
  assumes law: "cru_law (dv_hi dv) P" and fits: "dv_fits dv"
    and q: "DIV_ROUND_UP_ULL (parent_rate * 0x2) rt = Some q"
  defines "v \<equiv> min (DIV_ROUND_UP2 (ucast q - 0x3)) (div_mask (dv_width dv))"
  obtains h' where "clk_half_divider_set_rate P dv rt parent_rate h = Some h'"
    and "drop_bit (dv_shift dv) (cru_read P (dv_reg dv) h') AND div_mask (dv_width dv) = v"
    and "\<forall>a. a \<noteq> dv_reg dv \<longrightarrow> cru_read P a h' = cru_read P a h"
proof -
  have w: "dv_width dv < 32" using fits by (simp add: dv_fits_def)
  have "unat v < 2 ^ dv_width dv"
  proof -
    have "unat v \<le> unat (div_mask (dv_width dv))" unfolding v_def by (simp flip: word_le_nat_alt)
    then show ?thesis using unat_div_mask [OF w] by (simp add: Suc_le_lessD order_le_less_trans)
  qed
  then have v: "v = take_bit (dv_width dv) v"
    by (simp add: word_unat_eq_iff unsigned_take_bit_eq take_bit_nat_eq_self)
  let ?h = "cru_write P (dv_reg dv) ((if dv_hi dv then push_bit (dv_shift dv + 0x10) (div_mask (dv_width dv))
    else cru_read P (dv_reg dv) h AND NOT (push_bit (dv_shift dv) (div_mask (dv_width dv)))) OR push_bit (dv_shift dv) v) h"
  show ?thesis
  proof
    show "clk_half_divider_set_rate P dv rt parent_rate h = Some ?h"
      by (simp add: clk_half_divider_set_rate_def q v_def dv_hi_def Let_def)
    show "drop_bit (dv_shift dv) (cru_read P (dv_reg dv) ?h) AND div_mask (dv_width dv) = v"
      using law fits hi_field [OF _ v] plain_field [OF _ v]
      by (cases "dv_hi dv") (simp_all add: cru_law_def dv_fits_def div_mask_mask [OF w])
    show "\<forall>a. a \<noteq> dv_reg dv \<longrightarrow> cru_read P a ?h = cru_read P a h"
      using law by (simp add: cru_law_def)
  qed
qed

section \<open>The search\<close>

text \<open>
  Going through candidates and taking each that is as good as the best one so far gives one that no other is
  better than, whatever transitive order decides; or none, when none is as good as the start.
\<close>

locale best_scan =
  fixes better :: "'a \<Rightarrow> 'a \<Rightarrow> bool"
  assumes trans: "better x y \<Longrightarrow> better y z \<Longrightarrow> better x z"
begin

primrec scan :: "(nat \<Rightarrow> 'a) \<Rightarrow> 'a \<Rightarrow> nat \<Rightarrow> nat option" where
  "scan c b 0 = None"
| "scan c b (Suc n) = (if better (c n) (case scan c b n of None \<Rightarrow> b | Some i \<Rightarrow> c i) then Some n else scan c b n)"

lemma scan_None: "scan c b n = None \<Longrightarrow> i < n \<Longrightarrow> \<not> better (c i) b"
  by (induction n) (auto split: if_splits simp: less_Suc_eq)

lemma scan_Some:
  "scan c b n = Some i \<Longrightarrow> i < n \<and> better (c i) b \<and> (\<forall>j < n. better (c j) (c i) \<longrightarrow> better (c i) (c j))"
proof (induction n arbitrary: i)
  case (Suc n)
  show ?case
  proof (cases "scan c b n")
    case None
    then have "i = n" "better (c n) b" using Suc.prems by (auto split: if_splits)
    moreover have "\<not> better (c j) (c n)" if "j < n" for j
      using scan_None [OF None that] trans \<open>better (c n) b\<close> by blast
    ultimately show ?thesis by (auto simp: less_Suc_eq)
  next
    case (Some k)
    note k = Suc.IH [OF Some]
    show ?thesis
    proof (cases "better (c n) (c k)")
      case True
      then have "i = n" using Suc.prems Some by simp
      moreover have "better (c n) b" using True k trans by blast
      moreover have "better (c n) (c j)" if "j < n" "better (c j) (c n)" for j
        using that True k trans by blast
      ultimately show ?thesis by (auto simp: less_Suc_eq)
    next
      case False
      then have "i = k" using Suc.prems Some by simp
      then show ?thesis using k False by (auto simp: less_Suc_eq)
    qed
  qed
qed simp

end

interpretation half: best_scan "\<lambda>now best. is_best_half_div rt now best flags" for rt flags
  by unfold_locales (auto simp: is_best_half_div_def split: if_splits)

definition half_now :: "clk_view \<Rightarrow> u64 \<Rightarrow> u32 \<Rightarrow> u64" where
  "half_now hw rt i = (half_parent hw rt i * 0x2 + ucast (i * 0x2 + 0x3) - 1) div ucast (i * 0x2 + 0x3)"

lemma odd_nonzero: "i * 0x2 + 0x3 \<noteq> (0 :: u32)"
proof
  assume "i * 0x2 + 0x3 = 0"
  then have "even (i * 0x2 + 0x3)" by simp
  then show False by simp
qed

lemma half_step_eq:
  "half_step hw rt flags i s = Some (if is_best_half_div rt (half_now hw rt i) (sr_best s) flags
     then \<lparr>sr_div = i, sr_best = half_now hw rt i, sr_prate = half_parent hw rt i, sr_found = True\<rparr> else s)"
  by (simp add: half_step_def DIV_ROUND_UP_ULL_def do_div_u32 odd_nonzero half_now_def Let_def)

lemma half_scan_eq:
  assumes "sr_best s = 0"
  shows "half_scan hw rt flags n s = Some (case half.scan rt flags (\<lambda>i. half_now hw rt (of_nat i)) 0 n of
     None \<Rightarrow> s
   | Some i \<Rightarrow> \<lparr>sr_div = of_nat i, sr_best = half_now hw rt (of_nat i), sr_prate = half_parent hw rt (of_nat i),
                sr_found = True\<rparr>)"
  by (induction n) (auto simp: half_step_eq assms split: option.split)

text \<open>The last divider the search looks at.\<close>

definition half_top :: "u64 \<Rightarrow> nat \<Rightarrow> nat" where
  "half_top rt width = unat (min (- 1 div rt) (ucast (div_mask width) :: u64))"

lemma half_top_le: "width < 32 \<Longrightarrow> half_top rt width \<le> 2 ^ width - 1"
proof -
  assume w: "width < 32"
  have "min (- 1 div rt) (ucast (div_mask width)) \<le> (ucast (div_mask width) :: u64)" by simp
  then have "half_top rt width \<le> unat (ucast (div_mask width) :: u64)"
    unfolding half_top_def by (simp only: word_le_nat_alt)
  then show ?thesis using unat_div_mask [OF w] by simp
qed

text \<open>Where a half divider may change its parent's rate, \<open>clk_half_divider_bestdiv\<close> finds a divider, with the
  rate of the parent for it, whose rate no other one it may use is better than: with
  \<open>CLK_DIVIDER_ROUND_CLOSEST\<close> none is nearer to the rate wanted, without it none that is not above this rate is
  greater. Only when no rate is as good as a clock that stands still does it give the greatest divider.\<close>

theorem clk_half_divider_bestdiv_best:
  assumes "hw_flags hw AND CLK_SET_RATE_PARENT \<noteq> 0" and "rt \<noteq> 0"
  shows "\<exists>d prate. clk_half_divider_bestdiv hw rt prate0 width flags = Some (d, prate) \<and>
    ((\<exists>i \<le> half_top rt width. d = of_nat i \<and> prate = half_parent hw rt d \<and>
        is_best_half_div rt (half_now hw rt d) 0 flags \<and>
        (\<forall>j \<le> half_top rt width. is_best_half_div rt (half_now hw rt (of_nat j)) (half_now hw rt d) flags \<longrightarrow>
           is_best_half_div rt (half_now hw rt d) (half_now hw rt (of_nat j)) flags)) \<or>
     (\<forall>j \<le> half_top rt width. \<not> is_best_half_div rt (half_now hw rt (of_nat j)) 0 flags) \<and>
        d = div_mask width \<and> prate = parent_round hw 1)"
proof (cases "half.scan rt flags (\<lambda>i. half_now hw rt (of_nat i)) 0 (Suc (half_top rt width))")
  case None
  note best = half.scan_None [OF None, unfolded less_Suc_eq_le]
  have "clk_half_divider_bestdiv hw rt prate0 width flags = Some (div_mask width, parent_round hw 1)"
    using assms None unfolding clk_half_divider_bestdiv_def half_top_def Let_def
    by (simp add: half_scan_eq del: half_scan.simps half.scan.simps)
  then show ?thesis using best by blast
next
  case (Some i)
  note best = half.scan_Some [OF Some, unfolded less_Suc_eq_le]
  have "clk_half_divider_bestdiv hw rt prate0 width flags = Some (of_nat i, half_parent hw rt (of_nat i))"
    using assms Some unfolding clk_half_divider_bestdiv_def half_top_def Let_def
    by (simp add: half_scan_eq del: half_scan.simps half.scan.simps)
  then show ?thesis using best by blast
qed

text \<open>The divider fits the field.\<close>

lemma bestdiv_fits:
  assumes d: "clk_half_divider_bestdiv hw rt0 prate0 width flags = Some (d, prate)" and w: "width < 32"
  shows "unat d \<le> 2 ^ width - 1"
proof -
  define rt :: u64 where "rt = (if rt0 = 0 then 1 else rt0)"
  have rt: "rt \<noteq> 0" by (simp add: rt_def)
  show ?thesis
  proof (cases "hw_flags hw AND CLK_SET_RATE_PARENT = 0")
    case True
    then obtain b where b: "d = (if (ucast (div_mask width) :: u64) < ucast b then ucast (ucast (div_mask width) :: u64) else b)"
      using d by (auto simp: clk_half_divider_bestdiv_def Let_def bind_eq_Some_conv)
    have "unat d \<le> unat (div_mask width)"
      unfolding b by (auto simp: word_less_nat_alt up_down)
    then show ?thesis by (simp add: unat_div_mask [OF w])
  next
    case False
    let ?scan = "half.scan rt flags (\<lambda>i. half_now hw rt (of_nat i)) 0 (Suc (half_top rt width))"
    have d': "d = (case ?scan of None \<Rightarrow> div_mask width | Some i \<Rightarrow> of_nat i)"
      using d False rt unfolding clk_half_divider_bestdiv_def Let_def rt_def [symmetric] half_top_def [symmetric]
      by (auto simp: half_scan_eq simp del: half_scan.simps half.scan.simps split: option.splits)
    show ?thesis
    proof (cases ?scan)
      case None
      then show ?thesis using d' by (simp add: unat_div_mask [OF w])
    next
      case (Some i)
      then have "i \<le> 2 ^ width - 1" using half.scan_Some [OF Some] half_top_le [OF w, of rt] by linarith
      then show ?thesis using d' Some
        by (simp add: unat_of_nat order.trans [OF take_bit_nat_less_eq_self])
    qed
  qed
qed

text \<open>
  The numbers of a round trip: the rate \<open>r\<close> the divider \<open>d\<close> gives at twice the parent's rate \<open>x\<close>, and the divider
  \<open>e\<close> that is set for it.
\<close>

lemma half_roundtrip:
  fixes x d :: nat
  assumes x: "2 \<le> x"
  defines "r \<equiv> ceil_div x (2 * d + 3)"
  defines "e \<equiv> ceil_div (ceil_div x r - 3) 2"
  shows "0 < r" and "2 \<le> ceil_div x r" and "ceil_div x r \<le> 2 * d + 3" and "e \<le> d" and "ceil_div x (2 * e + 3) = r"
proof -
  show r0: "0 < r" unfolding r_def using x by (intro ceil_div_pos) simp_all
  have e: "x \<le> r * (2 * y + 3) \<longleftrightarrow> e \<le> y" for y unfolding e_def by (rule ceil_div_halves [OF r0])
  have xr: "x \<le> r * (2 * d + 3)" using ceil_div_le [of "2 * d + 3" x r] by (simp add: r_def mult.commute)
  then show "ceil_div x r \<le> 2 * d + 3" using ceil_div_le [OF r0] by simp
  show ed: "e \<le> d" using xr e by simp
  have "r \<le> x - 1" unfolding r_def
  proof (subst ceil_div_le)
    have "3 * (x - 1) \<le> (2 * d + 3) * (x - 1)" by (rule mult_right_mono) simp_all
    then show "x \<le> (2 * d + 3) * (x - 1)" using x by linarith
  qed simp
  then have "\<not> x \<le> r * 1" using x by linarith
  then show "2 \<le> ceil_div x r" using ceil_div_le [OF r0, of x 1] by linarith
  show "ceil_div x (2 * e + 3) = r"
  proof (rule antisym)
    show "ceil_div x (2 * e + 3) \<le> r" using e [of e] by (simp add: ceil_div_le mult.commute)
    have "x \<le> (2 * e + 3) * ceil_div x (2 * e + 3)" using ceil_div_le [of "2 * e + 3" x "ceil_div x (2 * e + 3)"] by simp
    also have "\<dots> \<le> (2 * d + 3) * ceil_div x (2 * e + 3)" using ed by simp
    finally show "r \<le> ceil_div x (2 * e + 3)" unfolding r_def by (subst ceil_div_le) simp_all
  qed
qed

text \<open>
  Without a change of the parent's rate the divider is the least one whose rate is not above the rate wanted, or
  the greatest of the field.
\<close>

lemma clk_half_divider_bestdiv_least:
  assumes fl: "hw_flags hw AND CLK_SET_RATE_PARENT = 0" and rt: "0 < unat rt" "unat rt < 2 ^ 32"
    and p: "unat prate < 2 ^ 62" and q: "ceil_div (2 * unat prate) (unat rt) < 2 ^ 32" and w: "width \<le> 16"
  obtains d where "clk_half_divider_bestdiv hw rt prate width flags = Some (d, prate)"
    and "ceil_div (2 * unat prate) (2 * unat d + 3) \<le> unat rt \<or> unat d = 2 ^ width - 1"
    and "\<forall>e < unat d. unat rt < ceil_div (2 * unat prate) (2 * e + 3)"
proof -
  have p2: "unat (prate * 0x2) = 2 * unat prate" using p by (simp add: unat_word_ariths)
  obtain x where x: "DIV_ROUND_UP_ULL (prate * 0x2) rt = Some x" "unat x = ceil_div (2 * unat prate) (unat rt)"
    using rt p by (auto elim: DIV_ROUND_UP_ULL_Some [of rt "prate * 0x2"] simp: p2)
  define b where "b = (if (ucast x :: u32) < 0x3 then 0 else DIV_ROUND_UP2 (ucast x - 0x3))"
  have x32: "unat (ucast x :: u32) = unat x" using x(2) q by (simp add: ucast_small)
  have b: "unat b = ceil_div (unat x - 3) 2"
  proof (cases "unat x < 3")
    case True
    then show ?thesis by (simp add: b_def word_less_nat_alt x32 ceil_div_def)
  next
    case False
    then show ?thesis
      using unat_DIV_ROUND_UP2 [of x] x(2) q by (simp add: b_def word_less_nat_alt x32)
  qed
  define d where "d = (if div_mask width < b then div_mask width else b)"
  have le: "ceil_div (2 * unat prate) (2 * e + 3) \<le> unat rt \<longleftrightarrow> unat b \<le> e" for e
    unfolding b x(2) ceil_div_halves [OF rt(1), symmetric] by (simp add: ceil_div_le mult.commute)
  have m: "unat (div_mask width) = 2 ^ width - 1" using w by (simp add: unat_div_mask)
  show ?thesis
  proof
    show "clk_half_divider_bestdiv hw rt prate width flags = Some (d, prate)"
      using fl rt x(1) unfolding clk_half_divider_bestdiv_def
      by (auto simp: Let_def d_def b_def up_down word_less_nat_alt)
    show "ceil_div (2 * unat prate) (2 * unat d + 3) \<le> unat rt \<or> unat d = 2 ^ width - 1"
      unfolding le by (simp add: d_def m)
    show "\<forall>e < unat d. unat rt < ceil_div (2 * unat prate) (2 * e + 3)"
      unfolding not_le [symmetric] le by (auto simp: d_def word_less_nat_alt)
  qed
qed

text \<open>A rate a half divider offers is the rate it then runs at: setting the rate
  \<open>clk_half_divider_round_rate\<close> gave, with the rate of the parent it asked for, writes the field so that
  \<open>clk_half_divider_recalc_rate\<close> gives this very rate, although the field may be another than the one the rounding
  found, and changes no other register. This holds with and without a write mask in the register, below \<open>2 ^ 32\<close> Hz.\<close>

theorem clk_half_divider_set_rate_recalc:
  assumes law: "cru_law (dv_hi dv) P" and fits: "dv_fits dv"
    and round: "clk_half_divider_round_rate hw dv rt prate0 = Some (r, prate)"
    and p: "0 < unat prate" "unat prate < 2 ^ 62" and r: "unat r < 2 ^ 32"
  shows "\<exists>h'. clk_half_divider_set_rate P dv r prate h = Some h' \<and> clk_half_divider_recalc_rate P dv prate h' = Some r \<and>
    (\<forall>a. a \<noteq> dv_reg dv \<longrightarrow> cru_read P a h' = cru_read P a h)"
proof -
  have w: "dv_width dv < 32" "dv_width dv \<le> 16" using fits by (simp_all add: dv_fits_def)
  obtain d where d: "clk_half_divider_bestdiv hw rt prate0 (dv_width dv) (dv_flags dv) = Some (d, prate)"
    and rd: "DIV_ROUND_UP_ULL (prate * 0x2) (scast (d * 0x2 + 0x3)) = Some r"
    using round by (auto simp: clk_half_divider_round_rate_def bind_eq_Some_conv)
  have dm: "unat d \<le> 2 ^ dv_width dv - 1" by (rule bestdiv_fits [OF d w(1)])
  have "(2 :: nat) ^ dv_width dv \<le> 2 ^ 16" using w(2) by (rule power_increasing) simp
  then have D: "unat d < 2 ^ 16" using dm by simp
  have p2: "unat (prate * 0x2) = 2 * unat prate" using p by (simp add: unat_word_ariths)
  have half: "unat (scast (d * 0x2 + 0x3) :: u64) = 2 * unat d + 3"
    using D by (subst unat_scast) (simp_all add: unat_half)
  obtain r' where "DIV_ROUND_UP_ULL (prate * 0x2) (scast (d * 0x2 + 0x3)) = Some r'"
    "unat r' = ceil_div (2 * unat prate) (2 * unat d + 3)"
    using D p by (rule_tac DIV_ROUND_UP_ULL_Some [of "scast (d * 0x2 + 0x3)" "prate * 0x2"]) (simp_all add: p2 half)
  with rd have R: "unat r = ceil_div (2 * unat prate) (2 * unat d + 3)" by simp
  have "2 \<le> 2 * unat prate" using p by simp
  note n = half_roundtrip [OF this, of "unat d", folded R]
  obtain q where q: "DIV_ROUND_UP_ULL (prate * 0x2) r = Some q" "unat q = ceil_div (2 * unat prate) (unat r)"
    using n(1) r p by (auto elim: DIV_ROUND_UP_ULL_Some [of r "prate * 0x2"] simp: p2)
  define e where "e = ceil_div (unat q - 3) 2"
  note n' = n(2-) [folded q(2), folded e_def]
  let ?v = "min (DIV_ROUND_UP2 (ucast q - 0x3)) (div_mask (dv_width dv))"
  have "unat (DIV_ROUND_UP2 (ucast q - 0x3)) = e"
    unfolding e_def using n' D by (intro unat_DIV_ROUND_UP2) simp_all
  then have v: "unat ?v = e" using n'(3) dm unat_div_mask [OF w(1)] by (simp add: min_def word_le_nat_alt)
  obtain h' where h': "clk_half_divider_set_rate P dv r prate h = Some h'"
    "drop_bit (dv_shift dv) (cru_read P (dv_reg dv) h') AND div_mask (dv_width dv) = ?v"
    "\<forall>a. a \<noteq> dv_reg dv \<longrightarrow> cru_read P a h' = cru_read P a h"
    by (rule set_rate_field [OF law fits q(1)])
  have half': "unat (?v * 0x2 + 0x3) = 2 * e + 3" using v n'(3) D by (simp add: unat_half)
  obtain x where x: "DIV_ROUND_UP_ULL (prate * 0x2) (ucast (?v * 0x2 + 0x3)) = Some x"
    "unat x = ceil_div (2 * unat prate) (2 * e + 3)"
    using D n'(3) p by (rule_tac DIV_ROUND_UP_ULL_Some [of "ucast (?v * 0x2 + 0x3)" "prate * 0x2"]) (simp_all add: p2 half')
  have "x = r" using x(2) n'(4) by (simp add: word_unat_eq_iff)
  then have "clk_half_divider_recalc_rate P dv prate h' = Some r"
    using x(1) h'(2) by (simp add: clk_half_divider_recalc_rate_def)
  then show ?thesis using h' by blast
qed

section \<open>Witnesses\<close>

text \<open>A clock unit as a map from offsets, with write masks; and one divider in it.\<close>

definition sim_cru :: "(u32 \<Rightarrow> u32) cru_port" where
  "sim_cru = \<lparr>cru_read = (\<lambda>a h. h a), cru_write = (\<lambda>a v h. h(a := hiword (h a) v))\<rparr>"

lemma sim_cru_law: "cru_law True sim_cru"
  by (simp add: cru_law_def sim_cru_def)

definition sim_divider :: clk_divider where
  "sim_divider = \<lparr>dv_reg = 0x44, dv_shift = 8, dv_width = 5, dv_flags = CLK_DIVIDER_HIWORD_MASK\<rparr>"

text \<open>A parent with any even rate.\<close>

definition sim_view :: "u64 \<Rightarrow> clk_view" where
  "sim_view f = \<lparr>hw_flags = f, parent_round = (\<lambda>r. r div 2 * 2)\<rparr>"

lemmas sim_half = sim_view_def sim_divider_def CLK_DIVIDER_HIWORD_MASK_def CLK_DIVIDER_ROUND_CLOSEST_def
  CLK_SET_RATE_PARENT_def BIT_def

theorem clk_half_divider_bestdiv_best_witness:
  "\<exists>d prate. clk_half_divider_bestdiv (sim_view CLK_SET_RATE_PARENT) 100 7 2 0 = Some (d, prate)"
  using clk_half_divider_bestdiv_best [of "sim_view CLK_SET_RATE_PARENT" 100 7 2 0] by (auto simp: sim_half)

theorem clk_half_divider_set_rate_recalc_witness:
  "\<exists>h'. clk_half_divider_set_rate sim_cru sim_divider 400000 1000000 (\<lambda>_. 0) = Some h' \<and>
     clk_half_divider_recalc_rate sim_cru sim_divider 1000000 h' = Some 400000"
proof -
  have hi: "dv_hi sim_divider" by (simp add: dv_hi_def sim_half)
  have "clk_half_divider_round_rate (sim_view 0) sim_divider 500000 1000000 = Some (400000, 1000000)"
    by (simp add: sim_half clk_half_divider_round_rate_def clk_half_divider_bestdiv_def Let_def
        DIV_ROUND_UP_ULL_def DIV_ROUND_UP2_def do_div_def div_mask_def)
  then show ?thesis
    using clk_half_divider_set_rate_recalc [of sim_divider sim_cru "sim_view 0" 500000 1000000 400000 1000000 "\<lambda>_. 0"]
      hi sim_cru_law by (auto simp: dv_fits_def sim_divider_def)
qed

end
