(* ===== verification/Clk_Cpu.thy ===== *)
theory Clk_Cpu
  imports Clk_Half
begin

text \<open>
  The clock of the cores, \<open>common/sdk_linux/drivers/clk/rockchip/clk-cpu.c\<close>: before the rate of the PLL that drives
  them is changed, the cores go to another parent, divided so far that they do not get faster; after it they go back.
  A function that does not return or divides by zero gives \<open>None\<close>.
\<close>

section \<open>Data\<close>

record rockchip_cpuclk_clksel =
  clksel_reg :: u32
  clksel_val :: u32

record rockchip_cpuclk_rate_table =
  cpu_prate :: u64
  cpu_divs :: "rockchip_cpuclk_clksel list"

record rockchip_cpuclk_reg_data =
  core_reg :: "u32 list"
  div_core_shift :: "nat list"
  div_core_mask :: "u32 list"
  num_cores :: nat
  mux_core_alt :: u32
  mux_core_main :: u32
  mux_core_shift :: nat
  mux_core_mask :: u32
  pll_name :: "string option"

text \<open>
  \<open>struct rockchip_cpuclk\<close>: the PLL of the boost module, None for NULL, over its own hardware \<open>'p\<close>; the table of
  rates, a copy of the chip's.
\<close>

record 'p rockchip_cpuclk =
  cpu_pll :: "'p rockchip_clk_pll option"
  cpu_rates :: "rockchip_cpuclk_rate_table list"
  rate_count :: nat
  cpu_data :: rockchip_cpuclk_reg_data

text \<open>The clock unit with \<open>clk_get_rate\<close> of the alternate parent; the two rates of a notification.\<close>

record 'h cpu_port = "'h cru_port" +
  alt_rate :: "'h \<Rightarrow> u64"

record clk_notifier_data =
  old_rate :: u64
  new_rate :: u64

datatype clk_event = PRE_RATE_CHANGE | POST_RATE_CHANGE | ABORT_RATE_CHANGE

section \<open>The operations\<close>

definition rockchip_get_cpuclk_settings :: "'p rockchip_cpuclk \<Rightarrow> u64 \<Rightarrow> rockchip_cpuclk_rate_table option" where
  "rockchip_get_cpuclk_settings c rt = find (\<lambda>t. rt = cpu_prate t) (take (rate_count c) (cpu_rates c))"

definition rockchip_cpuclk_recalc_rate ::
  "('h, 'x) cru_port_scheme \<Rightarrow> 'p rockchip_cpuclk \<Rightarrow> u64 \<Rightarrow> 'h \<Rightarrow> u64 option" where
  "rockchip_cpuclk_recalc_rate P c parent_rate h =
     (let rd = cpu_data c;
          clksel0 = drop_bit (div_core_shift rd ! 0) (cru_read P (core_reg rd ! 0) h) AND div_core_mask rd ! 0 in
      if clksel0 + 1 = 0 then None else Some (parent_rate div ucast (clksel0 + 1)))"

definition rockchip_cpuclk_set_dividers ::
  "('h, 'x) cru_port_scheme \<Rightarrow> rockchip_cpuclk_rate_table \<Rightarrow> 'h \<Rightarrow> 'h" where
  "rockchip_cpuclk_set_dividers P rt =
     fold (\<lambda>s h. if clksel_reg s = 0 then h else cru_write P (clksel_reg s) (clksel_val s) h) (cpu_divs rt)"

text \<open>Writing one value to the divider of every core.\<close>

definition write_core_divs :: "('h, 'x) cru_port_scheme \<Rightarrow> rockchip_cpuclk_reg_data \<Rightarrow> u32 \<Rightarrow> 'h \<Rightarrow> 'h" where
  "write_core_divs P rd v =
     fold (\<lambda>i. cru_write P (core_reg rd ! i) (HIWORD_UPDATE v (div_core_mask rd ! i) (div_core_shift rd ! i)))
       [0..<num_cores rd]"

definition write_core_mux :: "('h, 'x) cru_port_scheme \<Rightarrow> rockchip_cpuclk_reg_data \<Rightarrow> u32 \<Rightarrow> 'h \<Rightarrow> 'h" where
  "write_core_mux P rd v = cru_write P (core_reg rd ! 0) (HIWORD_UPDATE v (mux_core_mask rd) (mux_core_shift rd))"

text \<open>The divider of the alternate parent, an unsigned long; the writes take its lower half.\<close>

definition cpu_alt_div :: "rockchip_cpuclk_reg_data \<Rightarrow> u64 \<Rightarrow> u64 \<Rightarrow> u64" where
  "cpu_alt_div rd alt old =
     (let d = (alt + old - 1) div old - 1 in
      if ucast (div_core_mask rd ! 0) < d then ucast (div_core_mask rd ! 0) else d)"

definition rockchip_cpuclk_pre_rate_change ::
  "'h cpu_port \<Rightarrow> 'p pll_port \<Rightarrow> clk_notifier_data \<Rightarrow> 'p rockchip_cpuclk \<Rightarrow> 'h
   \<Rightarrow> (('p rockchip_cpuclk \<times> 'h) \<times> errno option) option" where
  "rockchip_cpuclk_pre_rate_change P B nd c h =
     (case rockchip_get_cpuclk_settings c (new_rate nd) of
        None \<Rightarrow> Some ((c, h), Some EINVAL)
      | Some _ \<Rightarrow>
        Option.bind (rockchip_boost_enable_recovery_sw_low B (cpu_pll c)) (\<lambda>pll.
          let alt = alt_rate P h; rd = cpu_data c in
          Option.bind
            (if old_rate nd < alt then
               (if old_rate nd = 0 then None
                else Some (write_core_divs P rd (ucast (cpu_alt_div rd alt (old_rate nd))) h))
             else Some h) (\<lambda>h1.
            Some ((c\<lparr>cpu_pll := rockchip_boost_add_core_div B alt pll\<rparr>, write_core_mux P rd (mux_core_alt rd) h1), None))))"

definition rockchip_cpuclk_post_rate_change ::
  "('h, 'x) cru_port_scheme \<Rightarrow> 'p pll_port \<Rightarrow> clk_notifier_data \<Rightarrow> 'p rockchip_cpuclk \<Rightarrow> 'h
   \<Rightarrow> ('p rockchip_cpuclk \<times> 'h) \<times> errno option" where
  "rockchip_cpuclk_post_rate_change P B nd c h =
     (case rockchip_get_cpuclk_settings c (new_rate nd) of
        None \<Rightarrow> ((c, h), Some EINVAL)
      | Some rt \<Rightarrow>
        let rd = cpu_data c;
            h1 = (if old_rate nd < new_rate nd then rockchip_cpuclk_set_dividers P rt h else h);
            h2 = write_core_divs P rd 0 (write_core_mux P rd (mux_core_main rd) h1);
            h3 = (if new_rate nd < old_rate nd then rockchip_cpuclk_set_dividers P rt h2 else h2)
        in ((c\<lparr>cpu_pll := rockchip_boost_disable_recovery_sw B (cpu_pll c)\<rparr>, h3), None))"

definition rockchip_cpuclk_notifier_cb ::
  "'h cpu_port \<Rightarrow> 'p pll_port \<Rightarrow> clk_event \<Rightarrow> clk_notifier_data \<Rightarrow> 'p rockchip_cpuclk \<Rightarrow> 'h
   \<Rightarrow> (('p rockchip_cpuclk \<times> 'h) \<times> errno option) option" where
  "rockchip_cpuclk_notifier_cb P B ev nd c h =
     (case ev of
        PRE_RATE_CHANGE \<Rightarrow> rockchip_cpuclk_pre_rate_change P B nd c h
      | POST_RATE_CHANGE \<Rightarrow> Some (rockchip_cpuclk_post_rate_change P B nd c h)
      | _ \<Rightarrow> Some ((c, h), None))"

section \<open>Registration\<close>

text \<open>
  A clock the caller hands over: NULL, an error pointer, or a clock. What the kernel answers to the registration;
  \<open>cpu_pll_there\<close> is the parent of the primary parent, the PLL of the boost module, and \<open>cpu_boost\<close> what
  \<open>rockchip_boost_init\<close> finds.
\<close>

datatype given_clk = Clk_null | Clk_error errno | Clk_given

record 'p cpuclk_env =
  cpu_kzalloc_ok :: bool
  cpu_pll_there :: "'p rockchip_clk_pll option"
  cpu_boost :: boost_dt
  alt_enable_error :: "errno option"
  notifier_error :: "errno option"
  cpu_kmemdup_ok :: bool
  cpu_register_error :: "errno option"

datatype cpuclk_resource = Cpuclk_struct | Alt_enabled | Notifier_registered | Cpu_table | Cpu_clk

definition CLK_GET_RATE_NOCACHE :: u64 where "CLK_GET_RATE_NOCACHE = BIT 6"
definition CLK_SET_RATE_NO_REPARENT :: u64 where "CLK_SET_RATE_NO_REPARENT = BIT 7"

text \<open>
  The result has what is allocated, enabled or registered and not given back. A NULL primary parent faults where
  its name is taken, before the check for it; so does \<open>rockchip_boost_init\<close> where it divides by zero.
\<close>

definition cpuclk_finish ::
  "'p cpuclk_env \<Rightarrow> rockchip_cpuclk_reg_data \<Rightarrow> rockchip_cpuclk_rate_table list \<Rightarrow> 'p rockchip_clk_pll option
   \<Rightarrow> cpuclk_resource list \<times> (errno + ('p rockchip_cpuclk \<times> u64))" where
  "cpuclk_finish env rd rates pll =
     (let flags = (if rates \<noteq> [] then CLK_SET_RATE_PARENT else 0) OR CLK_SET_RATE_NO_REPARENT OR CLK_GET_RATE_NOCACHE in
      case alt_enable_error env of Some e \<Rightarrow> ([], Inl e)
      | None \<Rightarrow>
        case notifier_error env of Some e \<Rightarrow> ([], Inl e)
        | None \<Rightarrow>
          if rates \<noteq> [] \<and> \<not> cpu_kmemdup_ok env then ([], Inl ENOMEM)
          else case cpu_register_error env of Some e \<Rightarrow> ([], Inl e)
          | None \<Rightarrow>
            (Cpuclk_struct # Alt_enabled # Notifier_registered # (if rates \<noteq> [] then [Cpu_table] else []) @ [Cpu_clk],
             Inr (\<lparr>cpu_pll = pll, cpu_rates = rates, rate_count = length rates, cpu_data = rd\<rparr>, flags)))"

definition rockchip_clk_register_cpuclk ::
  "'p pll_port \<Rightarrow> 'p cpuclk_env \<Rightarrow> nat \<Rightarrow> given_clk \<Rightarrow> given_clk \<Rightarrow> rockchip_cpuclk_reg_data
   \<Rightarrow> rockchip_cpuclk_rate_table list \<Rightarrow> (cpuclk_resource list \<times> (errno + ('p rockchip_cpuclk \<times> u64))) option" where
  "rockchip_clk_register_cpuclk B env num_parents parent alt rd rates =
     (if num_parents < 2 then Some ([], Inl EINVAL)
      else case (parent, alt) of
        (Clk_error _, _) \<Rightarrow> Some ([], Inl EINVAL)
      | (_, Clk_error _) \<Rightarrow> Some ([], Inl EINVAL)
      | _ \<Rightarrow>
        if \<not> cpu_kzalloc_ok env then Some ([], Inl ENOMEM)
        else if parent = Clk_null then None
        else case (pll_name rd, cpu_pll_there env) of
          (Some _, None) \<Rightarrow> Some ([], Inl EINVAL)
        | (name, there) \<Rightarrow>
          Option.bind (case (name, there) of (Some _, Some d) \<Rightarrow> map_option Some (rockchip_boost_init B (cpu_boost env) d)
              | _ \<Rightarrow> Some None) (\<lambda>pll.
            if alt = Clk_null then Some ([], Inl EINVAL) else Some (cpuclk_finish env rd rates pll)))"

text \<open>A registration that fails keeps nothing; one that succeeds has the table it was given.\<close>

lemma rockchip_clk_register_cpuclk_result:
  assumes "rockchip_clk_register_cpuclk B env n parent alt rd rates = Some (kept, res)"
  shows "case res of Inl e \<Rightarrow> kept = []
    | Inr (c, flags) \<Rightarrow> {Cpuclk_struct, Alt_enabled, Notifier_registered, Cpu_clk} \<subseteq> set kept \<and>
        (Cpu_table \<in> set kept \<longleftrightarrow> rates \<noteq> []) \<and> cpu_data c = rd \<and> (cpu_pll c \<noteq> None \<longleftrightarrow> pll_name rd \<noteq> None) \<and>
        (flags AND CLK_SET_RATE_PARENT \<noteq> 0 \<longleftrightarrow> rates \<noteq> []) \<and>
        (\<forall>r. rockchip_get_cpuclk_settings c r = find (\<lambda>t. r = cpu_prate t) rates)"
proof -
  have fin: "case snd (cpuclk_finish env rd rates pll) of Inl e \<Rightarrow> fst (cpuclk_finish env rd rates pll) = []
    | Inr (c, flags) \<Rightarrow>
        {Cpuclk_struct, Alt_enabled, Notifier_registered, Cpu_clk} \<subseteq> set (fst (cpuclk_finish env rd rates pll)) \<and>
        (Cpu_table \<in> set (fst (cpuclk_finish env rd rates pll)) \<longleftrightarrow> rates \<noteq> []) \<and> cpu_data c = rd \<and> cpu_pll c = pll \<and>
        (flags AND CLK_SET_RATE_PARENT \<noteq> 0 \<longleftrightarrow> rates \<noteq> []) \<and>
        (\<forall>r. rockchip_get_cpuclk_settings c r = find (\<lambda>t. r = cpu_prate t) rates)" for pll
    by (auto simp: cpuclk_finish_def rockchip_get_cpuclk_settings_def CLK_SET_RATE_PARENT_def
        CLK_SET_RATE_NO_REPARENT_def CLK_GET_RATE_NOCACHE_def BIT_def split: option.splits)
  have "(kept = [] \<and> (\<exists>e. res = Inl e)) \<or>
      (\<exists>pll. (pll \<noteq> None \<longleftrightarrow> pll_name rd \<noteq> None) \<and> (kept, res) = cpuclk_finish env rd rates pll)"
    using assms unfolding rockchip_clk_register_cpuclk_def
    by (auto simp: bind_eq_Some_conv split: if_splits given_clk.splits option.splits)
  then consider e where "kept = []" "res = Inl e"
    | pll where "pll \<noteq> None \<longleftrightarrow> pll_name rd \<noteq> None" "(kept, res) = cpuclk_finish env rd rates pll" by blast
  then show ?thesis
  proof cases
    case 2
    then show ?thesis using fin [of pll] by (auto simp flip: 2(2) split: sum.splits)
  qed simp
qed

section \<open>Fields of the registers\<close>

text \<open>A field of a register of the clock unit: offset, shift and mask. It lies in the lower half.\<close>

type_synonym cru_field = "u32 \<times> nat \<times> u32"

definition field_get :: "('h, 'x) cru_port_scheme \<Rightarrow> cru_field \<Rightarrow> 'h \<Rightarrow> u32" where
  "field_get P f h = drop_bit (fst (snd f)) (cru_read P (fst f) h) AND snd (snd f)"

definition field_put :: "('h, 'x) cru_port_scheme \<Rightarrow> cru_field \<Rightarrow> u32 \<Rightarrow> 'h \<Rightarrow> 'h" where
  "field_put P f v = cru_write P (fst f) (HIWORD_UPDATE v (snd (snd f)) (fst (snd f)))"

definition in_half :: "cru_field \<Rightarrow> bool" where
  "in_half f \<longleftrightarrow> fst (snd f) \<le> 16 \<and> unat (snd (snd f)) < 2 ^ (16 - fst (snd f))"

definition field_holds :: "cru_field \<Rightarrow> u32 \<Rightarrow> bool" where
  "field_holds f v \<longleftrightarrow> in_half f \<and> v AND snd (snd f) = v"

definition apart_from :: "cru_field \<Rightarrow> cru_field \<Rightarrow> bool" where
  "apart_from f g \<longleftrightarrow> in_half g \<and>
     (fst f = fst g \<longrightarrow> push_bit (fst (snd f)) (snd (snd f)) AND push_bit (fst (snd g)) (snd (snd g)) = 0)"

text \<open>What the drivers rely on: a field that is written has the value, and one that is apart from it keeps its own.\<close>

locale register_fields =
  fixes law :: "'p \<Rightarrow> bool" and get :: "'p \<Rightarrow> 'f \<Rightarrow> 'h \<Rightarrow> u32" and put :: "'p \<Rightarrow> 'f \<Rightarrow> u32 \<Rightarrow> 'h \<Rightarrow> 'h"
    and fits :: "'f \<Rightarrow> u32 \<Rightarrow> bool" and apart :: "'f \<Rightarrow> 'f \<Rightarrow> bool"
  assumes same: "law P \<Longrightarrow> fits f v \<Longrightarrow> get P f (put P f v h) = v"
    and other: "law P \<Longrightarrow> fits f v \<Longrightarrow> apart f g \<Longrightarrow> get P g (put P f v h) = get P g h"
begin

lemma puts_other:
  "law P \<Longrightarrow> \<forall>f \<in> set fs. fits f v \<and> apart f g \<Longrightarrow> get P g (fold (\<lambda>f. put P f v) fs h) = get P g h"
  by (induction fs arbitrary: h) (simp_all add: other)

lemma puts_same:
  "law P \<Longrightarrow> \<forall>f \<in> set fs. fits f v \<Longrightarrow> \<forall>f \<in> set fs. \<forall>g \<in> set fs. f = g \<or> apart f g \<Longrightarrow> g \<in> set fs
   \<Longrightarrow> get P g (fold (\<lambda>f. put P f v) fs h) = v"
proof (induction fs rule: rev_induct)
  case (snoc f fs)
  show ?case
  proof (cases "f = g")
    case True
    then show ?thesis using snoc.prems by (simp add: same)
  next
    case False
    then have "apart f g" "g \<in> set fs" using snoc.prems by auto
    moreover have "get P g (fold (\<lambda>f. put P f v) fs h) = v"
      using snoc.IH snoc.prems \<open>g \<in> set fs\<close> by simp
    ultimately show ?thesis using snoc.prems by (simp add: other)
  qed
qed simp

end

lemma in_half_bit: "in_half f \<Longrightarrow> bit (snd (snd f)) n \<Longrightarrow> n + fst (snd f) < 16"
proof -
  assume f: "in_half f" "bit (snd (snd f)) n"
  have "take_bit (16 - fst (snd f)) (snd (snd f)) = snd (snd f)"
    using f(1) by (simp add: in_half_def word_unat_eq_iff unsigned_take_bit_eq take_bit_nat_eq_self)
  then have "bit (take_bit (16 - fst (snd f)) (snd (snd f))) n" using f(2) by simp
  then show ?thesis by (auto simp: bit_take_bit_iff)
qed

lemma hiword_apart:
  assumes g: "in_half (a, s, m)" and val: "drop_bit 16 val AND push_bit s m = 0"
  shows "drop_bit s (hiword old val) AND m = drop_bit s old AND m"
proof (rule bit_word_eqI)
  fix n assume "n < LENGTH(32)"
  show "bit (drop_bit s (hiword old val) AND m) n = bit (drop_bit s old AND m) n"
  proof (cases "bit m n")
    case True
    then have n: "n + s < 16" using in_half_bit [OF g] by simp
    have "\<not> bit (drop_bit 16 val AND push_bit s m) (n + s)" by (simp add: val)
    then have "\<not> bit val (n + s + 16)" using True n by (simp add: bit_simps add.commute [of 16])
    then show ?thesis using n by (simp add: bit_simps bit_hiword add.commute [of s])
  qed (simp add: bit_simps)
qed

lemma HIWORD_UPDATE_mask:
  assumes "in_half (a, s, m)" "v AND m = v"
  shows "drop_bit 16 (HIWORD_UPDATE v m s) = push_bit s m"
proof (rule bit_word_eqI)
  fix n assume n: "n < LENGTH(32)"
  have "bit v k \<Longrightarrow> bit m k" for k using arg_cong [OF assms(2), of "\<lambda>v. bit v k"] by (simp add: bit_simps)
  then show "bit (drop_bit 16 (HIWORD_UPDATE v m s)) n = bit (push_bit s m) n"
    using in_half_bit [OF assms(1)] n by (fastforce simp: HIWORD_UPDATE_def bit_simps)
qed

interpretation cru: register_fields "cru_law True" field_get field_put field_holds apart_from
proof
  fix P :: "('h, 'x) cru_port_scheme" and f g :: cru_field and v h
  assume law: "cru_law True P" and v: "field_holds f v"
  obtain a s m where f: "f = (a, s, m)" by (cases f)
  have half: "in_half (a, s, m)" and vm: "v AND m = v" using v by (simp_all add: field_holds_def f)
  have bits: "bit v k \<Longrightarrow> bit m k" for k using arg_cong [OF vm, of "\<lambda>v. bit v k"] by (simp add: bit_simps)
  have "drop_bit s (hiword old (HIWORD_UPDATE v m s)) AND m = v" for old
  proof (rule bit_word_eqI)
    fix n assume "n < LENGTH(32)"
    show "bit (drop_bit s (hiword old (HIWORD_UPDATE v m s)) AND m) n = bit v n"
    proof (cases "bit m n")
      case True
      then have n: "n + s < 16" using in_half_bit [OF half] by simp
      then have "bit (hiword old (HIWORD_UPDATE v m s)) (n + s) = bit v n"
        using True in_half_bit [OF half, of "n + 16"] bits [of "n + 16"]
        by (auto simp: bit_hiword HIWORD_UPDATE_def bit_simps)
      then show ?thesis using True by (simp add: bit_simps add.commute)
    qed (use bits in \<open>auto simp: bit_simps\<close>)
  qed
  then show "field_get P f (field_put P f v h) = v"
    using law by (simp add: field_get_def field_put_def cru_law_def f)
  assume g: "apart_from f g"
  obtain b t k where gb: "g = (b, t, k)" by (cases g)
  have "a = b \<Longrightarrow> drop_bit t (hiword old (HIWORD_UPDATE v m s)) AND k = drop_bit t old AND k" for old
    using g by (intro hiword_apart [of b]) (simp_all add: apart_from_def gb f HIWORD_UPDATE_mask [OF half vm])
  then show "field_get P g (field_put P f v h) = field_get P g h"
    using law by (simp add: field_get_def field_put_def cru_law_def f gb)
qed

section \<open>A change of the rate\<close>

definition core_fld :: "rockchip_cpuclk_reg_data \<Rightarrow> nat \<Rightarrow> cru_field" where
  "core_fld rd i = (core_reg rd ! i, div_core_shift rd ! i, div_core_mask rd ! i)"

definition core_flds :: "rockchip_cpuclk_reg_data \<Rightarrow> cru_field list" where
  "core_flds rd = map (core_fld rd) [0..<num_cores rd]"

definition mux_fld :: "rockchip_cpuclk_reg_data \<Rightarrow> cru_field" where
  "mux_fld rd = (core_reg rd ! 0, mux_core_shift rd, mux_core_mask rd)"

text \<open>
  What a chip's description has to give: fields in the lower halves of their registers, apart from each other, the
  dividers of the cores all of one width; two values of the mux. And the settings of a rate leave these fields alone.
\<close>

definition cpu_data_ok :: "rockchip_cpuclk_reg_data \<Rightarrow> bool" where
  "cpu_data_ok rd \<longleftrightarrow> 0 < num_cores rd \<and>
     field_holds (mux_fld rd) (mux_core_alt rd) \<and> field_holds (mux_fld rd) (mux_core_main rd) \<and>
     mux_core_alt rd \<noteq> mux_core_main rd \<and>
     list_all (\<lambda>f. in_half f \<and> snd (snd f) = div_core_mask rd ! 0 \<and> apart_from f (mux_fld rd) \<and>
       apart_from (mux_fld rd) f \<and> list_all (\<lambda>g. f = g \<or> apart_from f g) (core_flds rd)) (core_flds rd) \<and>
     list_ex (\<lambda>w. div_core_mask rd ! 0 = mask w) [0..<17]"

definition divs_apart :: "rockchip_cpuclk_reg_data \<Rightarrow> rockchip_cpuclk_rate_table \<Rightarrow> bool" where
  "divs_apart rd rt \<longleftrightarrow> list_all (\<lambda>s. clksel_reg s = 0 \<or> list_all (\<lambda>f. clksel_reg s \<noteq> fst f \<or>
     drop_bit 16 (clksel_val s) AND push_bit (fst (snd f)) (snd (snd f)) = 0) (mux_fld rd # core_flds rd)) (cpu_divs rt)"

text \<open>The rate of a core whose divider is \<open>f\<close>, in Hz, when the PLL gives \<open>main\<close> and the other parent \<open>alt\<close>.\<close>

definition core_hz :: "('h, 'x) cru_port_scheme \<Rightarrow> rockchip_cpuclk_reg_data \<Rightarrow> cru_field \<Rightarrow> u64 \<Rightarrow> u64 \<Rightarrow> 'h \<Rightarrow> nat" where
  "core_hz P rd f main alt h =
     unat (if field_get P (mux_fld rd) h = mux_core_alt rd then alt else main) div (unat (field_get P f h) + 1)"

text \<open>The clock unit with all the states it has been in, the last one first: one for each write.\<close>

definition logged :: "'h cpu_port \<Rightarrow> 'h list cpu_port" where
  "logged P = \<lparr>cru_read = (\<lambda>a hs. cru_read P a (hd hs)), cru_write = (\<lambda>a v hs. cru_write P a v (hd hs) # hs),
     alt_rate = (\<lambda>hs. alt_rate P (hd hs))\<rparr>"

lemma logged_law: "cru_law True P \<Longrightarrow> cru_law True (logged P)"
  by (simp add: cru_law_def logged_def)

lemma logged_get [simp]: "field_get (logged P) f hs = field_get P f (hd hs)"
  by (simp add: field_get_def logged_def)

lemma logged_put: "field_put (logged P) f v hs = field_put P f v (hd hs) # hs"
  by (simp add: field_put_def logged_def)

lemma write_core_divs_puts: "write_core_divs P rd v = fold (\<lambda>f. field_put P f v) (core_flds rd)"
  by (simp add: write_core_divs_def core_flds_def fold_map comp_def field_put_def core_fld_def)

lemma write_core_mux_put: "write_core_mux P rd v = field_put P (mux_fld rd) v"
  by (simp add: fun_eq_iff write_core_mux_def field_put_def mux_fld_def)

text \<open>Every state of a log has a property \<open>R\<close>, the last one also \<open>Q\<close>.\<close>

definition log_ok :: "('h \<Rightarrow> bool) \<Rightarrow> ('h \<Rightarrow> bool) \<Rightarrow> 'h list \<Rightarrow> bool" where
  "log_ok R Q hs \<longleftrightarrow> hs \<noteq> [] \<and> Q (hd hs) \<and> (\<forall>x \<in> set hs. R x)"

lemma log_fold:
  "\<forall>f \<in> set fs. \<forall>hs. log_ok R Q hs \<longrightarrow> log_ok R Q (w f hs) \<Longrightarrow> log_ok R Q hs \<Longrightarrow> log_ok R Q (fold w fs hs)"
  by (induction fs arbitrary: hs) simp_all

lemma log_any: "log_ok R Q hs \<Longrightarrow> log_ok R (\<lambda>x. True) hs"
  by (simp add: log_ok_def)

lemma log_if: "log_ok R Q hs \<Longrightarrow> log_ok R Q hs' \<Longrightarrow> log_ok R Q (if b then hs else hs')"
  by simp

lemma log_put:
  "log_ok R Q hs \<Longrightarrow> (\<And>h. Q h \<Longrightarrow> Q' (field_put P f v h)) \<Longrightarrow> (\<And>h. Q' h \<Longrightarrow> R h) \<Longrightarrow>
   log_ok R Q' (field_put (logged P) f v hs)"
  by (simp add: log_ok_def logged_put)

text \<open>What the parts of a change do to the fields.\<close>

lemma core_fld_facts:
  assumes "cpu_data_ok rd" "f \<in> set (core_flds rd)"
  shows "in_half f" and "apart_from f (mux_fld rd)" and "apart_from (mux_fld rd) f"
    and "snd (snd f) = div_core_mask rd ! 0" and "g \<in> set (core_flds rd) \<Longrightarrow> f = g \<or> apart_from f g"
  using assms unfolding cpu_data_ok_def list_all_iff by blast+

lemma core_fits:
  assumes "cpu_data_ok rd" "v AND div_core_mask rd ! 0 = v"
  shows "\<forall>f \<in> set (core_flds rd). field_holds f v"
  using core_fld_facts [OF assms(1)] assms(2) by (simp add: field_holds_def)

lemma divs_keep_mux:
  assumes "cru_law True P" "cpu_data_ok rd" "v AND div_core_mask rd ! 0 = v" "\<And>h. field_get P (mux_fld rd) h = m \<Longrightarrow> R h"
  shows "log_ok R (\<lambda>h. field_get P (mux_fld rd) h = m) hs \<Longrightarrow>
    log_ok R (\<lambda>h. field_get P (mux_fld rd) h = m) (write_core_divs (logged P) rd v hs)"
  unfolding write_core_divs_puts
  using core_fits [OF assms(2,3)] core_fld_facts(2) [OF assms(2)]
  by (intro log_fold) (auto intro!: log_put assms(4) simp: cru.other [OF assms(1)])

lemma divs_written:
  assumes "cru_law True P" "cpu_data_ok rd" "v AND div_core_mask rd ! 0 = v" "f \<in> set (core_flds rd)"
  shows "field_get P f (write_core_divs P rd v h) = v"
  unfolding write_core_divs_puts
  using core_fits [OF assms(2,3)] core_fld_facts(5) [OF assms(2)] assms(4)
  by (intro cru.puts_same [OF assms(1)]) blast+

lemma divs_mux:
  assumes "cru_law True P" "cpu_data_ok rd" "v AND div_core_mask rd ! 0 = v"
  shows "field_get P (mux_fld rd) (write_core_divs P rd v h) = field_get P (mux_fld rd) h"
  unfolding write_core_divs_puts
  using core_fits [OF assms(2,3)] core_fld_facts(2) [OF assms(2)]
  by (intro cru.puts_other [OF assms(1)]) blast

lemma setting_field:
  assumes "cru_law True P" "cpu_data_ok rd" "divs_apart rd rt" "s \<in> set (cpu_divs rt)" "clksel_reg s \<noteq> 0"
    and f: "f \<in> set (mux_fld rd # core_flds rd)"
  shows "field_get P f (cru_write P (clksel_reg s) (clksel_val s) h) = field_get P f h"
proof -
  have half: "in_half f" using f assms(2) core_fld_facts(1) [OF assms(2), of f]
    by (cases "f = mux_fld rd") (auto simp: cpu_data_ok_def field_holds_def)
  obtain a t k where fa: "f = (a, t, k)" by (cases f)
  show ?thesis
  proof (cases "clksel_reg s = a")
    case True
    have "clksel_reg s \<noteq> fst f \<or> drop_bit 16 (clksel_val s) AND push_bit (fst (snd f)) (snd (snd f)) = 0"
      using assms(3-5) f unfolding divs_apart_def list_all_iff by blast
    then have "drop_bit 16 (clksel_val s) AND push_bit t k = 0" using True by (simp add: fa)
    from hiword_apart [OF half [unfolded fa] this] show ?thesis
      using assms(1) True by (simp add: field_get_def cru_law_def fa)
  qed (use assms(1) in \<open>simp add: field_get_def cru_law_def fa\<close>)
qed

lemma settings_keep:
  assumes "cru_law True P" "cpu_data_ok rd" "divs_apart rd rt" "set fs \<subseteq> set (mux_fld rd # core_flds rd)"
    and "\<And>h. \<forall>f \<in> set fs. field_get P f h = m f \<Longrightarrow> R h"
  shows "log_ok R (\<lambda>h. \<forall>f \<in> set fs. field_get P f h = m f) hs \<Longrightarrow>
    log_ok R (\<lambda>h. \<forall>f \<in> set fs. field_get P f h = m f) (rockchip_cpuclk_set_dividers (logged P) rt hs)"
  unfolding rockchip_cpuclk_set_dividers_def
proof (intro log_fold ballI allI impI)
  fix s hs assume s: "s \<in> set (cpu_divs rt)" and ok: "log_ok R (\<lambda>h. \<forall>f \<in> set fs. field_get P f h = m f) hs"
  have keep: "clksel_reg s \<noteq> 0 \<Longrightarrow> f \<in> set fs \<Longrightarrow>
      field_get P f (cru_write P (clksel_reg s) (clksel_val s) h) = field_get P f h" for f h
    using setting_field [OF assms(1-3) s] assms(4) by blast
  then show "log_ok R (\<lambda>h. \<forall>f \<in> set fs. field_get P f h = m f)
      (if clksel_reg s = 0 then hs else cru_write (logged P) (clksel_reg s) (clksel_val s) hs)"
    using ok by (auto simp: log_ok_def logged_def intro!: assms(5))
qed

text \<open>The divider of the alternate parent fits the field, and with it this parent is no faster than the old rate.\<close>

lemma cpu_mask:
  assumes "cpu_data_ok rd"
  obtains w where "w \<le> 16" and "div_core_mask rd ! 0 = mask w"
proof -
  from assms have "\<exists>w \<in> set [0..<17]. div_core_mask rd ! 0 = mask w" unfolding cpu_data_ok_def list_ex_iff by blast
  then obtain w where "w \<in> set [0..<17]" "div_core_mask rd ! 0 = mask w" by blast
  then show ?thesis by (intro that [of w]) simp_all
qed

lemma cpu_alt_div_bound:
  assumes ok: "cpu_data_ok rd" and old: "0 < unat old" and sum: "unat alt + unat old < 2 ^ 64"
    and alt: "unat old < unat alt" "unat alt \<le> unat old * (unat (div_core_mask rd ! 0) + 1)"
  defines "v \<equiv> (ucast (cpu_alt_div rd alt old) :: u32)"
  shows "v AND div_core_mask rd ! 0 = v" and "unat alt div (unat v + 1) \<le> unat old"
proof -
  obtain w where w: "w \<le> 16" and m: "div_core_mask rd ! 0 = mask w" by (rule cpu_mask [OF ok])
  let ?q = "(alt + old - 1) div old" and ?n = "ceil_div (unat alt) (unat old)"
  have q: "unat ?q = ?n" using old sum by (intro unat_round_up) simp_all
  have n: "0 < ?n" using old alt by (intro ceil_div_pos) simp_all
  then have d: "unat (?q - 1) = ?n - 1" using q by (subst unat_minus_one) auto
  have v64: "unat (cpu_alt_div rd alt old) = min (?n - 1) (unat (div_core_mask rd ! 0))"
    by (simp add: cpu_alt_div_def Let_def word_less_nat_alt d)
  have "(2 :: nat) ^ w \<le> 2 ^ 16" using w by (rule power_increasing) simp
  moreover have um: "unat (div_core_mask rd ! 0) = 2 ^ w - 1"
    using unat_div_mask [of w] w by (simp add: m div_mask_mask)
  ultimately have v: "unat v = min (?n - 1) (2 ^ w - 1)" unfolding v_def using v64 by (subst ucast_small) auto
  then have "unat v < 2 ^ w" by (simp add: min_less_iff_disj)
  then have "take_bit w v = v" by (simp add: word_unat_eq_iff unsigned_take_bit_eq take_bit_nat_eq_self)
  then show "v AND div_core_mask rd ! 0 = v" by (simp add: m take_bit_eq_mask)
  have "unat alt \<le> unat old * (unat v + 1)"
  proof (cases "?n - 1 \<le> 2 ^ w - 1")
    case True
    then have "?n \<le> unat v + 1" using v n by simp
    then show ?thesis using ceil_div_le [OF old] by simp
  next
    case False
    then show ?thesis using v alt(2) um by (simp add: min_def)
  qed
  then have "unat alt div (unat v + 1) \<le> unat old * (unat v + 1) div (unat v + 1)" by (rule div_le_mono)
  also have "\<dots> = unat old" by (rule nonzero_mult_div_cancel_right) simp
  finally show "unat alt div (unat v + 1) \<le> unat old" .
qed

lemma hz_main:
  "cpu_data_ok rd \<Longrightarrow> field_get P (mux_fld rd) h = mux_core_main rd \<Longrightarrow> core_hz P rd f r a h \<le> unat r"
  using div_le_dividend [of "unat r"] by (auto simp: core_hz_def cpu_data_ok_def)

lemma mux_holds: "cpu_data_ok rd \<Longrightarrow> field_holds (mux_fld rd) (mux_core_alt rd) \<and> field_holds (mux_fld rd) (mux_core_main rd)"
  by (simp add: cpu_data_ok_def)

text \<open>Before the change.\<close>

lemma pre_rate_change_result:
  assumes law: "cru_law True P" and ok: "cpu_data_ok (cpu_data c)"
    and rt: "rockchip_get_cpuclk_settings c (new_rate nd) = Some rt"
    and boost: "rockchip_boost_enable_recovery_sw_low B (cpu_pll c) = Some pll"
    and old: "0 < unat (old_rate nd)" "unat (alt_rate P h) + unat (old_rate nd) < 2 ^ 64"
    and alt: "unat (alt_rate P h) \<le> unat (old_rate nd) * (unat (div_core_mask (cpu_data c) ! 0) + 1)"
    and main: "field_get P (mux_fld (cpu_data c)) h = mux_core_main (cpu_data c)"
    and f: "f \<in> set (core_flds (cpu_data c))"
  obtains c1 hs1 where "rockchip_cpuclk_pre_rate_change (logged P) B nd c [h] = Some ((c1, hs1), None)"
    and "cpu_data c1 = cpu_data c" "cpu_rates c1 = cpu_rates c" "rate_count c1 = rate_count c"
    and "\<forall>x \<in> set hs1. core_hz P (cpu_data c) f (old_rate nd) (alt_rate P h) x \<le> unat (old_rate nd)"
    and "field_get P (mux_fld (cpu_data c)) (hd hs1) = mux_core_alt (cpu_data c)"
    and "unat (alt_rate P h) div (unat (field_get P f (hd hs1)) + 1) \<le> unat (old_rate nd)"
proof -
  let ?rd = "cpu_data c" and ?alt = "alt_rate P h" and ?old = "old_rate nd"
  let ?v = "ucast (cpu_alt_div ?rd ?alt ?old) :: u32"
  let ?R = "\<lambda>x. core_hz P ?rd f ?old ?alt x \<le> unat ?old"
  define hs0 where "hs0 = (if ?old < ?alt then write_core_divs (logged P) ?rd ?v [h] else [h])"
  define hs1 where "hs1 = field_put (logged P) (mux_fld ?rd) (mux_core_alt ?rd) hs0"
  have v: "?v AND div_core_mask ?rd ! 0 = ?v" "unat ?alt div (unat ?v + 1) \<le> unat ?old" if "?old < ?alt"
    using cpu_alt_div_bound [OF ok old] alt that by (simp_all add: word_less_nat_alt)
  have start: "log_ok ?R (\<lambda>x. field_get P (mux_fld ?rd) x = mux_core_main ?rd) [h]"
    by (simp add: log_ok_def main hz_main [OF ok])
  have log: "log_ok ?R (\<lambda>x. field_get P (mux_fld ?rd) x = mux_core_main ?rd) hs0"
  proof (cases "?old < ?alt")
    case True
    then show ?thesis unfolding hs0_def by (simp add: divs_keep_mux [OF law ok v(1) hz_main [OF ok] start])
  qed (simp add: hs0_def start)
  have bound: "unat ?alt div (unat (field_get P f (hd hs0)) + 1) \<le> unat ?old"
  proof (cases "?old < ?alt")
    case True
    then show ?thesis using divs_written [OF logged_law [OF law] ok v(1) f, of "[h]"] v(2) by (simp add: hs0_def)
  next
    case False
    then have "unat ?alt \<le> unat ?old" by (simp add: word_less_nat_alt)
    then show ?thesis using div_le_dividend [of "unat ?alt"] order.trans by blast
  qed
  have mux: "field_get P (mux_fld ?rd) (hd hs1) = mux_core_alt ?rd"
    using cru.same [OF law, of "mux_fld ?rd"] mux_holds [OF ok] by (simp add: hs1_def logged_put)
  have "field_get P f (hd hs1) = field_get P f (hd hs0)"
    using cru.other [OF law _ core_fld_facts(3) [OF ok f]] mux_holds [OF ok] by (simp add: hs1_def logged_put)
  with bound have b1: "unat ?alt div (unat (field_get P f (hd hs1)) + 1) \<le> unat ?old" by simp
  then have "?R (hd hs1)" using mux by (simp add: core_hz_def)
  then have all: "\<forall>x \<in> set hs1. ?R x" using log by (simp add: hs1_def logged_put log_ok_def)
  have al: "alt_rate (logged P) [h] = ?alt" by (simp add: logged_def)
  have "rockchip_cpuclk_pre_rate_change (logged P) B nd c [h] =
      Some ((c\<lparr>cpu_pll := rockchip_boost_add_core_div B ?alt pll\<rparr>, hs1), None)"
    using rt boost old(1) by (auto simp: rockchip_cpuclk_pre_rate_change_def al hs1_def hs0_def write_core_mux_put Let_def)
  then show ?thesis by (rule that) (use all mux b1 in simp_all)
qed

text \<open>After the change.\<close>

lemma post_rate_change_result:
  assumes law: "cru_law True P" and ok: "cpu_data_ok (cpu_data c)"
    and rt: "rockchip_get_cpuclk_settings c (new_rate nd) = Some rt" "divs_apart (cpu_data c) rt"
    and f: "f \<in> set (core_flds (cpu_data c))"
    and h: "field_get P (mux_fld (cpu_data c)) h = mux_core_alt (cpu_data c)"
      "unat alt div (unat (field_get P f h) + 1) \<le> m"
    and new: "unat (new_rate nd) \<le> m"
  obtains c2 hs2 where "rockchip_cpuclk_post_rate_change (logged P) B nd c [h] = ((c2, hs2), None)"
    and "cpu_data c2 = cpu_data c"
    and "\<forall>x \<in> set hs2. core_hz P (cpu_data c) f (new_rate nd) alt x \<le> m"
    and "field_get P (mux_fld (cpu_data c)) (hd hs2) = mux_core_main (cpu_data c)"
    and "\<forall>g \<in> set (core_flds (cpu_data c)). field_get P g (hd hs2) = 0"
proof -
  let ?rd = "cpu_data c" and ?new = "new_rate nd"
  let ?R = "\<lambda>x. core_hz P ?rd f ?new alt x \<le> m"
  let ?Q = "\<lambda>x. field_get P (mux_fld ?rd) x = mux_core_main ?rd"
  let ?set = "rockchip_cpuclk_set_dividers (logged P) rt"
  define hs1 where "hs1 = (if old_rate nd < ?new then ?set [h] else [h])"
  define hs2 where "hs2 = write_core_divs (logged P) ?rd 0 (field_put (logged P) (mux_fld ?rd) (mux_core_main ?rd) hs1)"
  define hs3 where "hs3 = (if ?new < old_rate nd then ?set hs2 else hs2)"
  define k where "k = (\<lambda>g. field_get P g h)"
  have f': "set [mux_fld ?rd, f] \<subseteq> set (mux_fld ?rd # core_flds ?rd)" using f by simp
  have R1: "?R x" if "\<forall>g \<in> set [mux_fld ?rd, f]. field_get P g x = k g" for x
    using that h by (simp add: core_hz_def k_def)
  have start: "log_ok ?R (\<lambda>x. \<forall>g \<in> set [mux_fld ?rd, f]. field_get P g x = k g) [h]"
    using R1 [of h] by (simp add: log_ok_def k_def)
  have log1: "log_ok ?R (\<lambda>x. True) hs1"
    unfolding hs1_def by (rule log_if [OF log_any [OF settings_keep [OF law ok rt(2) f' R1 start]] log_any [OF start]])
  have R2: "?Q x \<Longrightarrow> ?R x" for x by (rule order.trans [OF hz_main [OF ok] new])
  have "log_ok ?R ?Q (field_put (logged P) (mux_fld ?rd) (mux_core_main ?rd) hs1)"
    using log1 by (rule log_put) (simp_all add: cru.same [OF law] mux_holds [OF ok] R2)
  then have log2: "log_ok ?R ?Q hs2" unfolding hs2_def by (rule divs_keep_mux [OF law ok _ R2, rotated 2]) simp_all
  have zero2: "\<forall>g \<in> set (core_flds ?rd). field_get P g (hd hs2) = 0"
    using divs_written [OF logged_law [OF law] ok, of 0] by (simp add: hs2_def)
  define k2 where "k2 = (\<lambda>g. field_get P g (hd hs2))"
  let ?Q2 = "\<lambda>x. \<forall>g \<in> set (mux_fld ?rd # core_flds ?rd). field_get P g x = k2 g"
  have mux2: "k2 (mux_fld ?rd) = mux_core_main ?rd" using log2 by (simp add: log_ok_def k2_def)
  have R3: "?Q2 x \<Longrightarrow> ?R x" for x using R2 mux2 by simp
  have q2: "log_ok ?R ?Q2 hs2" using log2 by (simp add: log_ok_def k2_def)
  have log3: "log_ok ?R ?Q2 hs3"
    unfolding hs3_def by (rule log_if [OF settings_keep [OF law ok rt(2) order_refl R3 q2] q2])
  have "rockchip_cpuclk_post_rate_change (logged P) B nd c [h] =
      ((c\<lparr>cpu_pll := rockchip_boost_disable_recovery_sw B (cpu_pll c)\<rparr>, hs3), None)"
    using rt(1) by (simp add: rockchip_cpuclk_post_rate_change_def hs3_def hs2_def hs1_def write_core_mux_put Let_def)
  then show ?thesis
    by (rule that) (use log3 mux2 zero2 in \<open>simp_all add: log_ok_def k2_def\<close>)
qed

text \<open>
  Both notifications of one change: no core runs faster than the faster of the two rates at any time. The other
  parent must not be faster than the old rate times the greatest divider.
\<close>

lemma rate_change_bounded:
  assumes law: "cru_law True P" and ok: "cpu_data_ok (cpu_data c)"
    and rt: "rockchip_get_cpuclk_settings c (new_rate nd) = Some rt" "divs_apart (cpu_data c) rt"
    and boost: "rockchip_boost_enable_recovery_sw_low B (cpu_pll c) = Some pll"
    and old: "0 < unat (old_rate nd)" "unat (alt_rate P h) + unat (old_rate nd) < 2 ^ 64"
    and alt: "unat (alt_rate P h) \<le> unat (old_rate nd) * (unat (div_core_mask (cpu_data c) ! 0) + 1)"
    and main: "field_get P (mux_fld (cpu_data c)) h = mux_core_main (cpu_data c)"
    and f: "f \<in> set (core_flds (cpu_data c))"
  shows "\<exists>c1 hs1. rockchip_cpuclk_notifier_cb (logged P) B PRE_RATE_CHANGE nd c [h] = Some ((c1, hs1), None) \<and>
    (\<forall>x \<in> set hs1. core_hz P (cpu_data c) f (old_rate nd) (alt_rate P h) x \<le> unat (old_rate nd)) \<and>
    (\<forall>r. core_hz P (cpu_data c) f r (alt_rate P h) (hd hs1) \<le> unat (old_rate nd)) \<and>
    (\<forall>h2. (\<forall>g \<in> set (mux_fld (cpu_data c) # core_flds (cpu_data c)). field_get P g h2 = field_get P g (hd hs1)) \<longrightarrow>
      (\<exists>c2 hs2. rockchip_cpuclk_notifier_cb (logged P) B POST_RATE_CHANGE nd c1 [h2] = Some ((c2, hs2), None) \<and>
        (\<forall>x \<in> set hs2. core_hz P (cpu_data c) f (new_rate nd) (alt_rate P h) x \<le>
           max (unat (old_rate nd)) (unat (new_rate nd))) \<and>
        core_hz P (cpu_data c) f (new_rate nd) (alt_rate P h) (hd hs2) = unat (new_rate nd) \<and>
        rockchip_cpuclk_recalc_rate P c2 (new_rate nd) (hd hs2) = Some (new_rate nd)))"
proof -
  let ?rd = "cpu_data c"
  obtain c1 hs1 where 1: "rockchip_cpuclk_pre_rate_change (logged P) B nd c [h] = Some ((c1, hs1), None)"
    "cpu_data c1 = ?rd" "cpu_rates c1 = cpu_rates c" "rate_count c1 = rate_count c"
    "\<forall>x \<in> set hs1. core_hz P ?rd f (old_rate nd) (alt_rate P h) x \<le> unat (old_rate nd)"
    "field_get P (mux_fld ?rd) (hd hs1) = mux_core_alt ?rd"
    "unat (alt_rate P h) div (unat (field_get P f (hd hs1)) + 1) \<le> unat (old_rate nd)"
    by (rule pre_rate_change_result [where B = B, OF law ok rt(1) boost old alt main f])
  have rt1: "rockchip_get_cpuclk_settings c1 (new_rate nd) = Some rt"
    using rt(1) 1(3,4) by (simp add: rockchip_get_cpuclk_settings_def)
  have post: "\<exists>c2 hs2. rockchip_cpuclk_notifier_cb (logged P) B POST_RATE_CHANGE nd c1 [h2] = Some ((c2, hs2), None) \<and>
      (\<forall>x \<in> set hs2. core_hz P ?rd f (new_rate nd) (alt_rate P h) x \<le> max (unat (old_rate nd)) (unat (new_rate nd))) \<and>
      core_hz P ?rd f (new_rate nd) (alt_rate P h) (hd hs2) = unat (new_rate nd) \<and>
      rockchip_cpuclk_recalc_rate P c2 (new_rate nd) (hd hs2) = Some (new_rate nd)"
    if same: "\<forall>g \<in> set (mux_fld ?rd # core_flds ?rd). field_get P g h2 = field_get P g (hd hs1)" for h2
  proof -
    let ?m = "max (unat (old_rate nd)) (unat (new_rate nd))"
    have h2: "field_get P (mux_fld (cpu_data c1)) h2 = mux_core_alt (cpu_data c1)"
      "unat (alt_rate P h) div (unat (field_get P f h2) + 1) \<le> ?m"
      using same 1(2,6,7) f by simp_all
    obtain c2 hs2 where 2: "rockchip_cpuclk_post_rate_change (logged P) B nd c1 [h2] = ((c2, hs2), None)"
      "cpu_data c2 = cpu_data c1" "\<forall>x \<in> set hs2. core_hz P (cpu_data c1) f (new_rate nd) (alt_rate P h) x \<le> ?m"
      "field_get P (mux_fld (cpu_data c1)) (hd hs2) = mux_core_main (cpu_data c1)"
      "\<forall>g \<in> set (core_flds (cpu_data c1)). field_get P g (hd hs2) = 0"
      by (rule post_rate_change_result [where B = B and f = f, OF law _ rt1 _ _ h2 max.cobounded2]) (simp_all add: 1(2) ok rt(2) f)
    have "0 < num_cores ?rd" and ne: "mux_core_main ?rd \<noteq> mux_core_alt ?rd" using ok by (auto simp: cpu_data_ok_def)
    then have "core_fld ?rd 0 \<in> set (core_flds ?rd)" by (auto simp: core_flds_def)
    then have "field_get P (core_fld ?rd 0) (hd hs2) = 0" using 2(5) 1(2) by simp
    then have "rockchip_cpuclk_recalc_rate P c2 (new_rate nd) (hd hs2) = Some (new_rate nd)"
      using 2(2) 1(2) by (simp add: rockchip_cpuclk_recalc_rate_def field_get_def core_fld_def)
    moreover have "core_hz P ?rd f (new_rate nd) (alt_rate P h) (hd hs2) = unat (new_rate nd)"
      using 2(4,5) 1(2) f ne by (simp add: core_hz_def)
    ultimately show ?thesis using 2(1,3) 1(2) by (simp add: rockchip_cpuclk_notifier_cb_def)
  qed
  have "core_hz P ?rd f r (alt_rate P h) (hd hs1) \<le> unat (old_rate nd)" for r
    using 1(6,7) by (simp add: core_hz_def)
  then show ?thesis using 1(1,5) post by (auto simp: rockchip_cpuclk_notifier_cb_def)
qed

end
