(* ===== verification/Pll_Props.thy ===== *)
theory Pll_Props
  imports Pll
begin

text \<open>
  What setting a rate leaves in the registers, and what the recalculation reads there: the
  properties of the PLL driver.
\<close>

section \<open>The registers of a PLL\<close>

text \<open>
  What the properties assume of the registers \<open>con i\<close>: in a register with a write mask in the upper
  half word (\<open>hi i\<close>) a write changes the bits of the mask, in another one all of them, as far as they
  are fields (\<open>F i\<close>); writes to other registers, the polls, the mux and the boost module change no
  field.
\<close>

definition keeps_fields :: "'hw pll_port \<Rightarrow> (nat \<Rightarrow> u32) \<Rightarrow> (nat \<Rightarrow> nat set) \<Rightarrow> ('hw \<Rightarrow> 'hw) \<Rightarrow> bool" where
  "keeps_fields P con F f \<longleftrightarrow>
     (\<forall>h i. \<forall>b \<in> F i. bit (pll_read P (f h) (con i)) b = bit (pll_read P h (con i)) b)"

definition pll_law :: "'hw pll_port \<Rightarrow> (nat \<Rightarrow> u32) \<Rightarrow> (nat \<Rightarrow> nat set) \<Rightarrow> (nat \<Rightarrow> bool) \<Rightarrow> bool" where
  "pll_law P con F hi \<longleftrightarrow>
     (\<forall>h i v. \<forall>b \<in> F i. bit (pll_read P (pll_write P h (con i) v) (con i)) b =
        (if hi i \<and> \<not> bit v (b + 16) then bit (pll_read P h (con i)) b else bit v b))
   \<and> (\<forall>h v j. \<forall>i < 4. \<forall>b \<in> F j. i \<noteq> j \<longrightarrow>
        bit (pll_read P (pll_write P h (con i) v) (con j)) b = bit (pll_read P h (con j)) b)
   \<and> (\<forall>r n. keeps_fields P con F (\<lambda>h. fst (pll_poll P h r n)))
   \<and> (\<forall>r n. keeps_fields P con F (\<lambda>h. fst (grf_poll P h r n)))
   \<and> (\<forall>m. keeps_fields P con F (\<lambda>h. mux_set P h m))
   \<and> (\<forall>r v. keeps_fields P con F (\<lambda>h. boost_write P h r v))"

lemma pll_lawD:
  assumes "pll_law P con F hi" "b \<in> F j"
  shows "i < 4 \<Longrightarrow> bit (pll_read P (pll_write P h (con i) v) (con j)) b =
      (if i = j then if hi i \<and> \<not> bit v (b + 16) then bit (pll_read P h (con i)) b else bit v b
       else bit (pll_read P h (con j)) b)"
    and "bit (pll_read P (fst (pll_poll P h r n)) (con j)) b = bit (pll_read P h (con j)) b"
    and "bit (pll_read P (fst (grf_poll P h r n)) (con j)) b = bit (pll_read P h (con j)) b"
    and "bit (pll_read P (mux_set P h m) (con j)) b = bit (pll_read P h (con j)) b"
    and "bit (pll_read P (boost_write P h r w) (con j)) b = bit (pll_read P h (con j)) b"
  using assms by (auto simp: pll_law_def keeps_fields_def)

lemma bit_HIWORD_UPDATE [masks]:
  "bit (HIWORD_UPDATE v m s) b \<longleftrightarrow>
     b < 32 \<and> (s \<le> b \<and> bit v (b - s) \<or> s + 16 \<le> b \<and> bit m (b - (s + 16)))"
  by (auto simp: HIWORD_UPDATE_def bit_simps)

text \<open>A value that fits a field of \<open>n\<close> bits is read back when its bits are there.\<close>

lemma field_eqI:
  assumes "m = mask n" "\<And>b. b < n \<Longrightarrow> bit w (s + b) = bit v b" "v < 2 ^ n" "n < 32"
  shows "field w s m = v"
proof (rule bit_word_eqI)
  fix b assume "b < LENGTH(32)"
  have "v AND mask n = v" using assms(3) by (rule less_mask_eq)
  then have "bit v b \<Longrightarrow> b < n" by (metis bit_and_iff bit_mask_iff)
  then show "bit (field w s m) b = bit v b"
    using assms(1,2,4) by (auto simp: field_def bit_simps)
qed

text \<open>The fields of the RK3036 and of the RK3399, and which registers have a write mask.\<close>

definition rk3036_fields :: "nat \<Rightarrow> nat set" where
  "rk3036_fields i = (if i = 0 then {0..<15} else if i = 1 then {0..<9} \<union> {12} else if i = 2 then {0..<24} else {})"

definition rk3036_law :: "'hw pll_port \<Rightarrow> bool" where
  "rk3036_law P \<longleftrightarrow> pll_law P RK3036_PLLCON rk3036_fields (\<lambda>i. i < 2)"

definition rk3399_fields :: "nat \<Rightarrow> nat set" where
  "rk3399_fields i = (if i = 0 then {0..<12} else if i = 1 then {0..<6} \<union> {8..<11} \<union> {12..<15}
     else if i = 2 then {0..<24} else if i = 3 then {3} else {})"

definition rk3399_law :: "'hw pll_port \<Rightarrow> bool" where
  "rk3399_law P \<longleftrightarrow> pll_law P RK3399_PLLCON rk3399_fields (\<lambda>i. i \<noteq> 2)"

definition fits :: "rockchip_pll_rate_table \<Rightarrow> bool" where
  "fits r \<longleftrightarrow> fbdiv r < 2 ^ 12 \<and> refdiv r < 2 ^ 6 \<and> postdiv1 r < 2 ^ 3 \<and> postdiv2 r < 2 ^ 3
     \<and> dsmpd r < 2 ^ 1 \<and> frac r < 2 ^ 24"

lemma pll_masks:
  "RK3036_PLLCON0_FBDIV_MASK = mask 12" "RK3036_PLLCON0_POSTDIV1_MASK = mask 3"
  "RK3036_PLLCON1_REFDIV_MASK = mask 6" "RK3036_PLLCON1_POSTDIV2_MASK = mask 3"
  "RK3036_PLLCON1_DSMPD_MASK = mask 1" "RK3036_PLLCON2_FRAC_MASK = mask 24"
  "RK3399_PLLCON0_FBDIV_MASK = mask 12" "RK3399_PLLCON1_POSTDIV1_MASK = mask 3"
  "RK3399_PLLCON1_REFDIV_MASK = mask 6" "RK3399_PLLCON1_POSTDIV2_MASK = mask 3"
  "RK3399_PLLCON3_DSMPD_MASK = mask 1" "RK3399_PLLCON2_FRAC_MASK = mask 24"
  by (simp_all add: rk3036_regs rk3399_regs mask_eq_exp_minus_1)

lemma bits_below: "v < 2 ^ n \<Longrightarrow> bit (v :: u32) b \<Longrightarrow> b < n"
  by (metis bit_and_iff bit_mask_iff less_mask_eq)

text \<open>What the two programs leave in the fields.\<close>

lemma rk3036_program_bits:
  assumes law: "rk3036_law P" and fits: "fits r"
  shows "b < 12 \<Longrightarrow> bit (pll_read P (rk3036_program P r h) (RK3036_PLLCON 0)) b = bit (fbdiv r) b"
    "b < 3 \<Longrightarrow> bit (pll_read P (rk3036_program P r h) (RK3036_PLLCON 0)) (12 + b) = bit (postdiv1 r) b"
    "b < 6 \<Longrightarrow> bit (pll_read P (rk3036_program P r h) (RK3036_PLLCON 1)) b = bit (refdiv r) b"
    "b < 3 \<Longrightarrow> bit (pll_read P (rk3036_program P r h) (RK3036_PLLCON 1)) (6 + b) = bit (postdiv2 r) b"
    "b < 1 \<Longrightarrow> bit (pll_read P (rk3036_program P r h) (RK3036_PLLCON 1)) (12 + b) = bit (dsmpd r) b"
    "b < 24 \<Longrightarrow> bit (pll_read P (rk3036_program P r h) (RK3036_PLLCON 2)) b = bit (frac r) b"
proof -
  note L = pll_lawD(1) [OF law [unfolded rk3036_law_def]]
  note f = fits [unfolded fits_def]
  note d = rk3036_program_def Let_def L rk3036_fields_def bit_HIWORD_UPDATE pll_masks bit_simps
    RK3036_PLLCON0_FBDIV_SHIFT_def RK3036_PLLCON0_POSTDIV1_SHIFT_def RK3036_PLLCON1_REFDIV_SHIFT_def
    RK3036_PLLCON1_POSTDIV2_SHIFT_def RK3036_PLLCON1_DSMPD_SHIFT_def RK3036_PLLCON2_FRAC_SHIFT_def
  have B: "bit (fbdiv r) b \<Longrightarrow> b < 12" "bit (refdiv r) b \<Longrightarrow> b < 6" "bit (postdiv1 r) b \<Longrightarrow> b < 3"
    "bit (postdiv2 r) b \<Longrightarrow> b < 3" "bit (dsmpd r) b \<Longrightarrow> b < 1" "bit (frac r) b \<Longrightarrow> b < 24" for b
    using f by (blast dest: bits_below)+
  show "b < 12 \<Longrightarrow> bit (pll_read P (rk3036_program P r h) (RK3036_PLLCON 0)) b = bit (fbdiv r) b"
    by (auto simp: d dest: B)
  show "b < 3 \<Longrightarrow> bit (pll_read P (rk3036_program P r h) (RK3036_PLLCON 0)) (12 + b) = bit (postdiv1 r) b"
    by (auto simp: d dest: B)
  show "b < 6 \<Longrightarrow> bit (pll_read P (rk3036_program P r h) (RK3036_PLLCON 1)) b = bit (refdiv r) b"
    by (auto simp: d dest: B)
  show "b < 3 \<Longrightarrow> bit (pll_read P (rk3036_program P r h) (RK3036_PLLCON 1)) (6 + b) = bit (postdiv2 r) b"
    by (auto simp: d dest: B)
  show "b < 1 \<Longrightarrow> bit (pll_read P (rk3036_program P r h) (RK3036_PLLCON 1)) (12 + b) = bit (dsmpd r) b"
    by (auto simp: d dest: B)
  show "b < 24 \<Longrightarrow> bit (pll_read P (rk3036_program P r h) (RK3036_PLLCON 2)) b = bit (frac r) b"
    by (auto simp: d dest: B)
qed

lemma rk3399_program_bits:
  assumes law: "rk3399_law P" and fits: "fits r"
  shows "b < 12 \<Longrightarrow> bit (pll_read P (rk3399_program P r h) (RK3399_PLLCON 0)) b = bit (fbdiv r) b"
    "b < 6 \<Longrightarrow> bit (pll_read P (rk3399_program P r h) (RK3399_PLLCON 1)) b = bit (refdiv r) b"
    "b < 3 \<Longrightarrow> bit (pll_read P (rk3399_program P r h) (RK3399_PLLCON 1)) (8 + b) = bit (postdiv1 r) b"
    "b < 3 \<Longrightarrow> bit (pll_read P (rk3399_program P r h) (RK3399_PLLCON 1)) (12 + b) = bit (postdiv2 r) b"
    "b < 24 \<Longrightarrow> bit (pll_read P (rk3399_program P r h) (RK3399_PLLCON 2)) b = bit (frac r) b"
    "b < 1 \<Longrightarrow> bit (pll_read P (rk3399_program P r h) (RK3399_PLLCON 3)) (3 + b) = bit (dsmpd r) b"
proof -
  note L = pll_lawD(1) [OF law [unfolded rk3399_law_def]]
  note f = fits [unfolded fits_def]
  note d = rk3399_program_def Let_def L rk3399_fields_def bit_HIWORD_UPDATE pll_masks bit_simps masks
    RK3399_PLLCON0_FBDIV_SHIFT_def RK3399_PLLCON1_REFDIV_SHIFT_def RK3399_PLLCON1_POSTDIV1_SHIFT_def
    RK3399_PLLCON1_POSTDIV2_SHIFT_def RK3399_PLLCON2_FRAC_SHIFT_def RK3399_PLLCON3_DSMPD_SHIFT_def
    RK3399_PLLCON3_PWRDOWN_def
  have B: "bit (fbdiv r) b \<Longrightarrow> b < 12" "bit (refdiv r) b \<Longrightarrow> b < 6" "bit (postdiv1 r) b \<Longrightarrow> b < 3"
    "bit (postdiv2 r) b \<Longrightarrow> b < 3" "bit (dsmpd r) b \<Longrightarrow> b < 1" "bit (frac r) b \<Longrightarrow> b < 24" for b
    using f by (blast dest: bits_below)+
  show "b < 12 \<Longrightarrow> bit (pll_read P (rk3399_program P r h) (RK3399_PLLCON 0)) b = bit (fbdiv r) b"
    by (auto simp: d dest: B)
  show "b < 6 \<Longrightarrow> bit (pll_read P (rk3399_program P r h) (RK3399_PLLCON 1)) b = bit (refdiv r) b"
    by (auto simp: d dest: B)
  show "b < 3 \<Longrightarrow> bit (pll_read P (rk3399_program P r h) (RK3399_PLLCON 1)) (8 + b) = bit (postdiv1 r) b"
    by (auto simp: d dest: B)
  show "b < 3 \<Longrightarrow> bit (pll_read P (rk3399_program P r h) (RK3399_PLLCON 1)) (12 + b) = bit (postdiv2 r) b"
    by (auto simp: d dest: B)
  show "b < 24 \<Longrightarrow> bit (pll_read P (rk3399_program P r h) (RK3399_PLLCON 2)) b = bit (frac r) b"
    by (auto simp: d dest: B)
  show "b < 1 \<Longrightarrow> bit (pll_read P (rk3399_program P r h) (RK3399_PLLCON 3)) (3 + b) = bit (dsmpd r) b"
    by (auto simp: d dest: B)
qed

text \<open>The parameters read are those programmed; two hardware states with the same fields read the same.\<close>

definition settings_of :: "rockchip_pll_rate_table \<Rightarrow> rockchip_pll_rate_table \<Rightarrow> rockchip_pll_rate_table" where
  "settings_of cur r = cur\<lparr>fbdiv := fbdiv r, postdiv1 := postdiv1 r, refdiv := refdiv r,
     postdiv2 := postdiv2 r, dsmpd := dsmpd r, frac := frac r\<rparr>"

definition same_fields :: "'hw pll_port \<Rightarrow> (nat \<Rightarrow> u32) \<Rightarrow> (nat \<Rightarrow> nat set) \<Rightarrow> 'hw \<Rightarrow> 'hw \<Rightarrow> bool" where
  "same_fields P con F h h' \<longleftrightarrow>
     (\<forall>i. \<forall>b \<in> F i. bit (pll_read P h' (con i)) b = bit (pll_read P h (con i)) b)"

lemma rk3036_get_params_program:
  assumes law: "rk3036_law P" and fits: "fits r" and same: "same_fields P RK3036_PLLCON rk3036_fields (rk3036_program P r h) h'"
  shows "rockchip_rk3036_pll_get_params P h' cur = settings_of cur r"
proof -
  have S: "b \<in> rk3036_fields i \<Longrightarrow> bit (pll_read P h' (RK3036_PLLCON i)) b
      = bit (pll_read P (rk3036_program P r h) (RK3036_PLLCON i)) b" for i b
    using same by (simp add: same_fields_def)
  note f = fits [unfolded fits_def]
  have fbdiv: "field (pll_read P h' (RK3036_PLLCON 0)) 0 RK3036_PLLCON0_FBDIV_MASK = fbdiv r"
    by (rule field_eqI [OF pll_masks(1)])
      (use f in \<open>simp_all add: S rk3036_fields_def rk3036_program_bits [OF law fits] del: One_nat_def\<close>)
  have postdiv1: "field (pll_read P h' (RK3036_PLLCON 0)) 12 RK3036_PLLCON0_POSTDIV1_MASK = postdiv1 r"
    by (rule field_eqI [OF pll_masks(2)])
      (use f in \<open>simp_all add: S rk3036_fields_def rk3036_program_bits [OF law fits] del: One_nat_def\<close>)
  have refdiv: "field (pll_read P h' (RK3036_PLLCON 1)) 0 RK3036_PLLCON1_REFDIV_MASK = refdiv r"
    by (rule field_eqI [OF pll_masks(3)])
      (use f in \<open>simp_all add: S rk3036_fields_def rk3036_program_bits [OF law fits] del: One_nat_def\<close>)
  have postdiv2: "field (pll_read P h' (RK3036_PLLCON 1)) 6 RK3036_PLLCON1_POSTDIV2_MASK = postdiv2 r"
    by (rule field_eqI [OF pll_masks(4)])
      (use f in \<open>simp_all add: S rk3036_fields_def rk3036_program_bits [OF law fits] del: One_nat_def\<close>)
  have dsmpd: "field (pll_read P h' (RK3036_PLLCON 1)) 12 RK3036_PLLCON1_DSMPD_MASK = dsmpd r"
    by (rule field_eqI [OF pll_masks(5)])
      (use f rk3036_program_bits(5) [OF law fits, of 0 h, simplified] in \<open>simp_all add: S rk3036_fields_def\<close>)
  have frac: "field (pll_read P h' (RK3036_PLLCON 2)) 0 RK3036_PLLCON2_FRAC_MASK = frac r"
    by (rule field_eqI [OF pll_masks(6)])
      (use f in \<open>simp_all add: S rk3036_fields_def rk3036_program_bits [OF law fits] del: One_nat_def\<close>)
  show ?thesis
    by (simp add: rockchip_rk3036_pll_get_params_def settings_of_def Let_def
        RK3036_PLLCON0_FBDIV_SHIFT_def RK3036_PLLCON0_POSTDIV1_SHIFT_def RK3036_PLLCON1_REFDIV_SHIFT_def RK3036_PLLCON1_POSTDIV2_SHIFT_def RK3036_PLLCON1_DSMPD_SHIFT_def RK3036_PLLCON2_FRAC_SHIFT_def fbdiv postdiv1 refdiv postdiv2 dsmpd frac del: One_nat_def)
qed

lemma rk3399_get_params_program:
  assumes law: "rk3399_law P" and fits: "fits r" and same: "same_fields P RK3399_PLLCON rk3399_fields (rk3399_program P r h) h'"
  shows "rockchip_rk3399_pll_get_params P h' cur = settings_of cur r"
proof -
  have S: "b \<in> rk3399_fields i \<Longrightarrow> bit (pll_read P h' (RK3399_PLLCON i)) b
      = bit (pll_read P (rk3399_program P r h) (RK3399_PLLCON i)) b" for i b
    using same by (simp add: same_fields_def)
  note f = fits [unfolded fits_def]
  have fbdiv: "field (pll_read P h' (RK3399_PLLCON 0)) 0 RK3399_PLLCON0_FBDIV_MASK = fbdiv r"
    by (rule field_eqI [OF pll_masks(7)])
      (use f in \<open>simp_all add: S rk3399_fields_def rk3399_program_bits [OF law fits] del: One_nat_def\<close>)
  have postdiv1: "field (pll_read P h' (RK3399_PLLCON 1)) 8 RK3399_PLLCON1_POSTDIV1_MASK = postdiv1 r"
    by (rule field_eqI [OF pll_masks(8)])
      (use f in \<open>simp_all add: S rk3399_fields_def rk3399_program_bits [OF law fits] del: One_nat_def\<close>)
  have refdiv: "field (pll_read P h' (RK3399_PLLCON 1)) 0 RK3399_PLLCON1_REFDIV_MASK = refdiv r"
    by (rule field_eqI [OF pll_masks(9)])
      (use f in \<open>simp_all add: S rk3399_fields_def rk3399_program_bits [OF law fits] del: One_nat_def\<close>)
  have postdiv2: "field (pll_read P h' (RK3399_PLLCON 1)) 12 RK3399_PLLCON1_POSTDIV2_MASK = postdiv2 r"
    by (rule field_eqI [OF pll_masks(10)])
      (use f in \<open>simp_all add: S rk3399_fields_def rk3399_program_bits [OF law fits] del: One_nat_def\<close>)
  have dsmpd: "field (pll_read P h' (RK3399_PLLCON 3)) 3 RK3399_PLLCON3_DSMPD_MASK = dsmpd r"
    by (rule field_eqI [OF pll_masks(11)])
      (use f rk3399_program_bits(6) [OF law fits, of 0 h, simplified] in \<open>simp_all add: S rk3399_fields_def\<close>)
  have frac: "field (pll_read P h' (RK3399_PLLCON 2)) 0 RK3399_PLLCON2_FRAC_MASK = frac r"
    by (rule field_eqI [OF pll_masks(12)])
      (use f in \<open>simp_all add: S rk3399_fields_def rk3399_program_bits [OF law fits] del: One_nat_def\<close>)
  show ?thesis
    by (simp add: rockchip_rk3399_pll_get_params_def settings_of_def Let_def
        RK3399_PLLCON0_FBDIV_SHIFT_def RK3399_PLLCON1_REFDIV_SHIFT_def RK3399_PLLCON1_POSTDIV1_SHIFT_def RK3399_PLLCON1_POSTDIV2_SHIFT_def RK3399_PLLCON2_FRAC_SHIFT_def RK3399_PLLCON3_DSMPD_SHIFT_def fbdiv postdiv1 refdiv postdiv2 dsmpd frac del: One_nat_def)
qed


text \<open>The RK3066: every field is stored less one, and \<open>NB\<close> has a register of its own.\<close>

definition rk3066_fields :: "nat \<Rightarrow> nat set" where
  "rk3066_fields i = (if i = 0 then {0..<4} \<union> {8..<14} else if i = 1 then {0..<13}
     else if i = 2 then {0..<12} else if i = 3 then {0} else {})"

definition rk3066_law :: "'hw pll_port \<Rightarrow> bool" where
  "rk3066_law P \<longleftrightarrow> pll_law P RK3066_PLLCON rk3066_fields (\<lambda>_. True)"

definition fits3066 :: "rockchip_pll_rate_table \<Rightarrow> bool" where
  "fits3066 r \<longleftrightarrow> nr_field r - 1 < 2 ^ 6 \<and> no_field r - 1 < 2 ^ 4 \<and> nf_field r - 1 < 2 ^ 13"

definition settings3066 :: "rockchip_pll_rate_table \<Rightarrow> rockchip_pll_rate_table \<Rightarrow> rockchip_pll_rate_table" where
  "settings3066 cur r = cur\<lparr>fbdiv := nr_field r, refdiv := no_field r, postdiv1 := nf_field r,
     postdiv2 := ((nb_field r - 1) AND mask 12) + 1\<rparr>"

lemma rk3066_masks:
  "RK3066_PLLCON0_OD_MASK = mask 4" "RK3066_PLLCON0_NR_MASK = mask 6"
  "RK3066_PLLCON1_NF_MASK = mask 13" "RK3066_PLLCON2_NB_MASK = mask 12"
  by (simp_all add: rk3066_regs mask_eq_exp_minus_1)

lemma rk3066_program_bits:
  assumes law: "rk3066_law P" and fits: "fits3066 r"
  shows "b < 4 \<Longrightarrow> bit (pll_read P (rk3066_program P r h) (RK3066_PLLCON 0)) b = bit (no_field r - 1) b"
    "b < 6 \<Longrightarrow> bit (pll_read P (rk3066_program P r h) (RK3066_PLLCON 0)) (8 + b) = bit (nr_field r - 1) b"
    "b < 13 \<Longrightarrow> bit (pll_read P (rk3066_program P r h) (RK3066_PLLCON 1)) b = bit (nf_field r - 1) b"
    "b < 12 \<Longrightarrow> bit (pll_read P (rk3066_program P r h) (RK3066_PLLCON 2)) b = bit (nb_field r - 1) b"
    "bit (pll_read P (rk3066_program P r h) (RK3066_PLLCON 3)) 0 = bit (pll_read P h (RK3066_PLLCON 3)) 0"
proof -
  note L = pll_lawD(1) [OF law [unfolded rk3066_law_def]]
  note f = fits [unfolded fits3066_def]
  note d = rk3066_program_def Let_def L rk3066_fields_def bit_HIWORD_UPDATE rk3066_masks bit_or_iff bit_mask_iff masks
    bit_0_eq RK3066_PLLCON0_OD_SHIFT_def RK3066_PLLCON0_NR_SHIFT_def RK3066_PLLCON1_NF_SHIFT_def
    RK3066_PLLCON2_NB_SHIFT_def RK3066_PLLCON3_RESET_def
  have B: "bit (nr_field r - 1) b \<Longrightarrow> b < 6" "bit (no_field r - 1) b \<Longrightarrow> b < 4" "bit (nf_field r - 1) b \<Longrightarrow> b < 13" for b
    using f by (blast dest: bits_below)+
  show "b < 4 \<Longrightarrow> bit (pll_read P (rk3066_program P r h) (RK3066_PLLCON 0)) b = bit (no_field r - 1) b"
    by (auto simp: d dest: B)
  show "b < 6 \<Longrightarrow> bit (pll_read P (rk3066_program P r h) (RK3066_PLLCON 0)) (8 + b) = bit (nr_field r - 1) b"
    by (auto simp: d dest: B)
  show "b < 13 \<Longrightarrow> bit (pll_read P (rk3066_program P r h) (RK3066_PLLCON 1)) b = bit (nf_field r - 1) b"
    by (auto simp: d dest: B simp del: One_nat_def)
  show "b < 12 \<Longrightarrow> bit (pll_read P (rk3066_program P r h) (RK3066_PLLCON 2)) b = bit (nb_field r - 1) b"
    by (auto simp: d)
  show "bit (pll_read P (rk3066_program P r h) (RK3066_PLLCON 3)) 0 = bit (pll_read P h (RK3066_PLLCON 3)) 0"
    by (simp add: d)
qed

lemma rk3066_get_params_program:
  assumes law: "rk3066_law P" and fits: "fits3066 r" and same: "same_fields P RK3066_PLLCON rk3066_fields (rk3066_program P r h) h'"
  shows "rockchip_rk3066_pll_get_params P h' cur = settings3066 cur r"
proof -
  have S: "b \<in> rk3066_fields i \<Longrightarrow> bit (pll_read P h' (RK3066_PLLCON i)) b
      = bit (pll_read P (rk3066_program P r h) (RK3066_PLLCON i)) b" for i b
    using same by (simp add: same_fields_def)
  note f = fits [unfolded fits3066_def]
  note b = rk3066_program_bits [OF law fits]
  have no: "field (pll_read P h' (RK3066_PLLCON 0)) 0 RK3066_PLLCON0_OD_MASK = no_field r - 1"
    by (rule field_eqI [OF rk3066_masks(1)]) (use f in \<open>simp_all add: S rk3066_fields_def b\<close>)
  have nr: "field (pll_read P h' (RK3066_PLLCON 0)) 8 RK3066_PLLCON0_NR_MASK = nr_field r - 1"
    by (rule field_eqI [OF rk3066_masks(2)]) (use f in \<open>simp_all add: S rk3066_fields_def b\<close>)
  have nf: "field (pll_read P h' (RK3066_PLLCON 1)) 0 RK3066_PLLCON1_NF_MASK = nf_field r - 1"
    by (rule field_eqI [OF rk3066_masks(3)]) (use f in \<open>simp_all add: S rk3066_fields_def b del: One_nat_def\<close>)
  have nb: "field (pll_read P h' (RK3066_PLLCON 2)) 0 RK3066_PLLCON2_NB_MASK = (nb_field r - 1) AND mask 12"
    by (rule bit_word_eqI) (auto simp: field_def rk3066_masks bit_and_iff bit_mask_iff S rk3066_fields_def b)
  show ?thesis
    by (simp add: rockchip_rk3066_pll_get_params_def settings3066_def Let_def RK3066_PLLCON0_OD_SHIFT_def
        RK3066_PLLCON0_NR_SHIFT_def RK3066_PLLCON1_NF_SHIFT_def RK3066_PLLCON2_NB_SHIFT_def no nr nf nb del: One_nat_def)
qed


section \<open>Failed changes\<close>

text \<open>
  What a retry programs: an attempt with parameters that fit leaves them in the registers, whatever was
  there; the mux changes none of them. So the calls program the new and the old parameters in turn.
  \<open>law\<close> is what the registers have to satisfy for that.
\<close>

locale relock_reads = relock cur leave attempt home set_params
  for cur :: "'d \<Rightarrow> 'r" and leave :: "'d \<Rightarrow> 'd \<times> bool" and attempt :: "'r \<Rightarrow> 'd \<Rightarrow> 'd \<times> bool"
    and home :: "bool \<Rightarrow> 'd \<Rightarrow> 'd" and set_params :: "'r \<Rightarrow> 'd \<Rightarrow> ('d \<times> errno option) option" +
  fixes law :: bool and ok :: "'r \<Rightarrow> bool" and norm :: "'r \<Rightarrow> 'r"
  assumes cur_attempt: "law \<Longrightarrow> ok r \<Longrightarrow> cur (fst (attempt r d)) = norm r"
    and cur_home: "law \<Longrightarrow> cur (home m d) = cur d"
    and cur_ok: "ok (cur d)" and norm_cur: "norm (cur d) = cur d"
begin

lemma success: "law \<Longrightarrow> ok r \<Longrightarrow> set_params r d = Some (d', None) \<Longrightarrow> cur d' = norm r"
  using failed_result [of r d d' None] first_try [of r d] by (auto simp: cur_home cur_attempt)

lemma alternates:
  assumes "law" "ok r" "locks (call n r d)" "\<forall>k < n. \<not> locks (call k r d)"
  shows "\<exists>d' e. set_params r d = Some (d', e) \<and> (e = None \<longleftrightarrow> n = 0)
     \<and> cur d' = (if even n then norm r else cur d)"
  using assms
proof (induction n arbitrary: r d)
  case 0
  then have "set_params r d = Some (home (snd (leave d)) (fst (attempt r (fst (leave d)))), None)"
    by (intro first_try) simp
  with 0 show ?case by (simp add: cur_home cur_attempt)
next
  case (Suc n)
  let ?d2 = "fst (attempt r (fst (leave d)))"
  have "\<not> locks (r, d)" using Suc.prems(4) by (metis call.simps(1) zero_less_Suc)
  then have eq: "set_params r d =
      Option.bind (set_params (cur d) ?d2) (\<lambda>(d3, _). Some (home (snd (leave d)) d3, Some ETIMEDOUT))"
    by (subst unfold) (simp add: locks_def case_prod_beta)
  have "\<forall>k < n. \<not> locks (call k (cur d) ?d2)" using Suc.prems(4) by (metis call.simps(2) Suc_less_eq)
  with Suc.prems(1,3) cur_ok obtain d' e where "set_params (cur d) ?d2 = Some (d', e)"
    "cur d' = (if even n then norm (cur d) else cur ?d2)"
    using Suc.IH [of "cur d" ?d2] by auto
  then show ?case using Suc.prems(1,2) by (simp add: eq cur_home cur_attempt norm_cur)
qed

end

lemma same_fields_trans:
  "same_fields P con F h h' \<Longrightarrow> same_fields P con F h' h'' \<Longrightarrow> same_fields P con F h h''"
  by (simp add: same_fields_def)

lemma same_fields_steps [frame]:
  assumes "pll_law P con F hi"
  shows "same_fields P con F (pll_hw d) (pll_hw (return_pll P m d))"
    "same_fields P con F (pll_hw d) (pll_hw (fst (leave_pll P d)))"
    "same_fields P con F (pll_hw d) (pll_hw (rockchip_boost_disable_low P d))"
    "same_fields P con F (pll_hw d) (pll_hw (fst (rockchip_pll_wait_lock P d)))"
    "same_fields P con F (pll_hw d) (pll_hw (fst (rockchip_rk3036_pll_wait_lock P d)))"
    "same_fields P con F (pll_hw d) (pll_hw (fst (rockchip_rk3399_pll_wait_lock P d)))"
  using assms by (simp_all add: same_fields_def pll_lawD return_pll_def leave_pll_def rockchip_boost_disable_low_def
      rockchip_pll_wait_lock_def rockchip_rk3036_pll_wait_lock_def rockchip_rk3399_pll_wait_lock_def case_prod_beta)

lemma field_cong:
  assumes "\<And>b. b < n \<Longrightarrow> bit w (s + b) = bit w' (s + b)"
  shows "field w s (mask n) = field w' s (mask n)"
  by (rule bit_word_eqI) (use assms in \<open>auto simp: field_def bit_simps\<close>)

lemma rk3036_cur_same:
  assumes "same_fields P RK3036_PLLCON rk3036_fields (pll_hw d) (pll_hw d')"
  shows "rk3036_cur P d' = rk3036_cur P d"
proof -
  have S: "b \<in> rk3036_fields i \<Longrightarrow> bit (pll_read P (pll_hw d') (RK3036_PLLCON i)) b
      = bit (pll_read P (pll_hw d) (RK3036_PLLCON i)) b" for i b
    using assms by (simp add: same_fields_def)
  have "field (pll_read P (pll_hw d') (RK3036_PLLCON 0)) 0 (mask 12) = field (pll_read P (pll_hw d) (RK3036_PLLCON 0)) 0 (mask 12)"
    "field (pll_read P (pll_hw d') (RK3036_PLLCON 0)) 12 (mask 3) = field (pll_read P (pll_hw d) (RK3036_PLLCON 0)) 12 (mask 3)"
    "field (pll_read P (pll_hw d') (RK3036_PLLCON 1)) 0 (mask 6) = field (pll_read P (pll_hw d) (RK3036_PLLCON 1)) 0 (mask 6)"
    "field (pll_read P (pll_hw d') (RK3036_PLLCON 1)) 6 (mask 3) = field (pll_read P (pll_hw d) (RK3036_PLLCON 1)) 6 (mask 3)"
    "field (pll_read P (pll_hw d') (RK3036_PLLCON 1)) 12 (mask 1) = field (pll_read P (pll_hw d) (RK3036_PLLCON 1)) 12 (mask 1)"
    "field (pll_read P (pll_hw d') (RK3036_PLLCON 2)) 0 (mask 24) = field (pll_read P (pll_hw d) (RK3036_PLLCON 2)) 0 (mask 24)"
    by (rule field_cong, rule S, simp add: rk3036_fields_def)+
  then show ?thesis
    by (simp only: rk3036_cur_def rockchip_rk3036_pll_get_params_def Let_def pll_masks
        RK3036_PLLCON0_FBDIV_SHIFT_def RK3036_PLLCON0_POSTDIV1_SHIFT_def RK3036_PLLCON1_REFDIV_SHIFT_def
        RK3036_PLLCON1_POSTDIV2_SHIFT_def RK3036_PLLCON1_DSMPD_SHIFT_def RK3036_PLLCON2_FRAC_SHIFT_def)
qed

lemma rk3399_cur_same:
  assumes "same_fields P RK3399_PLLCON rk3399_fields (pll_hw d) (pll_hw d')"
  shows "rk3399_cur P d' = rk3399_cur P d"
proof -
  have S: "b \<in> rk3399_fields i \<Longrightarrow> bit (pll_read P (pll_hw d') (RK3399_PLLCON i)) b
      = bit (pll_read P (pll_hw d) (RK3399_PLLCON i)) b" for i b
    using assms by (simp add: same_fields_def)
  have "field (pll_read P (pll_hw d') (RK3399_PLLCON 0)) 0 (mask 12) = field (pll_read P (pll_hw d) (RK3399_PLLCON 0)) 0 (mask 12)"
    "field (pll_read P (pll_hw d') (RK3399_PLLCON 1)) 0 (mask 6) = field (pll_read P (pll_hw d) (RK3399_PLLCON 1)) 0 (mask 6)"
    "field (pll_read P (pll_hw d') (RK3399_PLLCON 1)) 8 (mask 3) = field (pll_read P (pll_hw d) (RK3399_PLLCON 1)) 8 (mask 3)"
    "field (pll_read P (pll_hw d') (RK3399_PLLCON 1)) 12 (mask 3) = field (pll_read P (pll_hw d) (RK3399_PLLCON 1)) 12 (mask 3)"
    "field (pll_read P (pll_hw d') (RK3399_PLLCON 2)) 0 (mask 24) = field (pll_read P (pll_hw d) (RK3399_PLLCON 2)) 0 (mask 24)"
    "field (pll_read P (pll_hw d') (RK3399_PLLCON 3)) 3 (mask 1) = field (pll_read P (pll_hw d) (RK3399_PLLCON 3)) 3 (mask 1)"
    by (rule field_cong, rule S, simp add: rk3399_fields_def)+
  then show ?thesis
    by (simp only: rk3399_cur_def rockchip_rk3399_pll_get_params_def Let_def pll_masks
        RK3399_PLLCON0_FBDIV_SHIFT_def RK3399_PLLCON1_REFDIV_SHIFT_def RK3399_PLLCON1_POSTDIV1_SHIFT_def
        RK3399_PLLCON1_POSTDIV2_SHIFT_def RK3399_PLLCON2_FRAC_SHIFT_def RK3399_PLLCON3_DSMPD_SHIFT_def)
qed

lemma rk3066_cur_same:
  assumes "same_fields P RK3066_PLLCON rk3066_fields (pll_hw d) (pll_hw d')"
  shows "rk3066_cur P d' = rk3066_cur P d"
proof -
  have S: "b \<in> rk3066_fields i \<Longrightarrow> bit (pll_read P (pll_hw d') (RK3066_PLLCON i)) b
      = bit (pll_read P (pll_hw d) (RK3066_PLLCON i)) b" for i b
    using assms by (simp add: same_fields_def)
  have "field (pll_read P (pll_hw d') (RK3066_PLLCON 0)) 0 (mask 4) = field (pll_read P (pll_hw d) (RK3066_PLLCON 0)) 0 (mask 4)"
    "field (pll_read P (pll_hw d') (RK3066_PLLCON 0)) 8 (mask 6) = field (pll_read P (pll_hw d) (RK3066_PLLCON 0)) 8 (mask 6)"
    "field (pll_read P (pll_hw d') (RK3066_PLLCON 1)) 0 (mask 13) = field (pll_read P (pll_hw d) (RK3066_PLLCON 1)) 0 (mask 13)"
    "field (pll_read P (pll_hw d') (RK3066_PLLCON 2)) 0 (mask 12) = field (pll_read P (pll_hw d) (RK3066_PLLCON 2)) 0 (mask 12)"
    by (rule field_cong, rule S, simp add: rk3066_fields_def)+
  then show ?thesis
    by (simp only: rk3066_cur_def rockchip_rk3066_pll_get_params_def Let_def rk3066_masks RK3066_PLLCON0_OD_SHIFT_def
        RK3066_PLLCON0_NR_SHIFT_def RK3066_PLLCON1_NF_SHIFT_def RK3066_PLLCON2_NB_SHIFT_def)
qed

lemma rk3036_attempt_reads:
  assumes "rk3036_law P" "fits r"
  shows "rk3036_cur P (fst (rk3036_attempt P r d)) = (settings_of blank_setting r)\<lparr>rate := 0\<rparr>"
proof -
  note law = assms(1) [unfolded rk3036_law_def]
  have "same_fields P RK3036_PLLCON rk3036_fields (rk3036_program P r (pll_hw d)) (pll_hw (fst (rk3036_attempt P r d)))"
    unfolding rk3036_attempt_def
    by (rule same_fields_trans [OF _ same_fields_steps(5) [OF law]])
      (use same_fields_steps(3) [OF law, of "d\<lparr>pll_hw := rk3036_program P r (pll_hw d)\<rparr>"] in simp)
  from rk3036_get_params_program [OF assms this] show ?thesis by (simp add: rk3036_cur_def)
qed

lemma rk3399_attempt_reads:
  assumes "rk3399_law P" "fits r"
  shows "rk3399_cur P (fst (rk3399_attempt P r d)) = (settings_of blank_setting r)\<lparr>rate := 0\<rparr>"
proof -
  note law = assms(1) [unfolded rk3399_law_def]
  have "same_fields P RK3399_PLLCON rk3399_fields (rk3399_program P r (pll_hw d)) (pll_hw (fst (rk3399_attempt P r d)))"
    unfolding rk3399_attempt_def
    using same_fields_steps(6) [OF law, of "d\<lparr>pll_hw := rk3399_program P r (pll_hw d)\<rparr>"] by simp
  from rk3399_get_params_program [OF assms this] show ?thesis by (simp add: rk3399_cur_def)
qed

lemma rk3066_attempt_reads:
  assumes "rk3066_law P" "fits3066 r"
  shows "rk3066_cur P (fst (rk3066_attempt P r d)) = (settings3066 blank_setting r)\<lparr>rate := 0\<rparr>"
proof -
  note law = assms(1) [unfolded rk3066_law_def]
  have "same_fields P RK3066_PLLCON rk3066_fields (rk3066_program P r (pll_hw d)) (pll_hw (fst (rk3066_attempt P r d)))"
    unfolding rk3066_attempt_def
    using same_fields_steps(4) [OF law, of "d\<lparr>pll_hw := rk3066_program P r (pll_hw d)\<rparr>"] by simp
  from rk3066_get_params_program [OF assms this] show ?thesis by (simp add: rk3066_cur_def)
qed

lemma field_less: "field w s (mask n) < 2 ^ n" if "n < 32"
  using and_mask_less' [of n "drop_bit s w"] that by (simp add: field_def)

lemma fits_cur:
  "fits (rk3036_cur P d)" "fits (rk3399_cur P d)" "fits3066 (rk3066_cur P d)"
proof -
  note d = fits_def fits3066_def rk3036_cur_def rk3399_cur_def rk3066_cur_def rockchip_rk3036_pll_get_params_def
    rockchip_rk3399_pll_get_params_def rockchip_rk3066_pll_get_params_def Let_def pll_masks rk3066_masks
  have L: "field w s (mask 12) < 2 ^ 12" "field w s (mask 3) < 2 ^ 3" "field w s (mask 6) < 2 ^ 6"
    "field w s (mask 1) < 2 ^ 1" "field w s (mask 24) < 2 ^ 24" "field w s (mask 4) < 2 ^ 4"
    "field w s (mask 13) < 2 ^ 13" for w s by (rule field_less, simp)+
  show "fits (rk3036_cur P d)" using L by (simp add: d del: mask_Suc_0)
  show "fits (rk3399_cur P d)" using L by (simp add: d del: mask_Suc_0)
  show "fits3066 (rk3066_cur P d)" using L by (simp add: d)
qed

lemma norm_cur:
  "(settings_of blank_setting (rk3036_cur P d))\<lparr>rate := 0\<rparr> = rk3036_cur P d"
  "(settings_of blank_setting (rk3399_cur P d))\<lparr>rate := 0\<rparr> = rk3399_cur P d"
  "(settings3066 blank_setting (rk3066_cur P d))\<lparr>rate := 0\<rparr> = rk3066_cur P d"
  by (simp_all add: settings_of_def settings3066_def rk3036_cur_def rk3399_cur_def rk3066_cur_def
      rockchip_rk3036_pll_get_params_def rockchip_rk3399_pll_get_params_def rockchip_rk3066_pll_get_params_def Let_def
      rk3066_masks field_def and.assoc)


interpretation rk3036r: relock_reads "rk3036_cur P" "leave_pll P" "rk3036_attempt P" "return_pll P"
  "rockchip_rk3036_pll_set_params P" "rk3036_law P" fits "\<lambda>r. (settings_of blank_setting r)\<lparr>rate := 0\<rparr>"
  for P :: "'hw pll_port"
  by unfold_locales
    (simp_all add: rk3036_attempt_reads fits_cur norm_cur rk3036_cur_same same_fields_steps rk3036_law_def)

interpretation rk3399r: relock_reads "rk3399_cur P" "leave_pll P" "rk3399_attempt P" "return_pll P"
  "rockchip_rk3399_pll_set_params P" "rk3399_law P" fits "\<lambda>r. (settings_of blank_setting r)\<lparr>rate := 0\<rparr>"
  for P :: "'hw pll_port"
  by unfold_locales
    (simp_all add: rk3399_attempt_reads fits_cur norm_cur rk3399_cur_same same_fields_steps rk3399_law_def)

interpretation rk3066r: relock_reads "rk3066_cur P" "leave_pll P" "rk3066_attempt P" "return_pll P"
  "rockchip_rk3066_pll_set_params P" "rk3066_law P" fits3066 "\<lambda>r. (settings3066 blank_setting r)\<lparr>rate := 0\<rparr>"
  for P :: "'hw pll_port"
  by unfold_locales
    (simp_all add: rk3066_attempt_reads fits_cur norm_cur rk3066_cur_same same_fields_steps rk3066_law_def)

lemma cur_blank:
  "rk3036_cur P d = rockchip_rk3036_pll_get_params P (pll_hw d) blank_setting"
  "rk3399_cur P d = rockchip_rk3399_pll_get_params P (pll_hw d) blank_setting"
  "rk3066_cur P d = rockchip_rk3066_pll_get_params P (pll_hw d) blank_setting"
  by (simp_all add: rk3036_cur_def rk3399_cur_def rk3066_cur_def rockchip_rk3036_pll_get_params_def
      rockchip_rk3399_pll_get_params_def rockchip_rk3066_pll_get_params_def Let_def blank_setting_def)

lemma norm_blank:
  "(settings_of blank_setting r)\<lparr>rate := 0\<rparr> = settings_of blank_setting r"
  "(settings3066 blank_setting r)\<lparr>rate := 0\<rparr> = settings3066 blank_setting r"
  by (simp_all add: settings_of_def settings3066_def blank_setting_def)

text \<open>
  C39: Changing the parameters of an RK3036 PLL returns exactly when the PLL locks in one of the calls the
  function makes of itself. When it does so first in call \<open>n\<close>, the result is 0 for \<open>n = 0\<close> and -ETIMEDOUT
  otherwise, and the registers hold the new parameters when \<open>n\<close> is even and the old ones when it is
  odd: a failed change need not restore the old ones.
\<close>

theorem rockchip_rk3036_pll_set_params_alternates:
  assumes "rk3036_law P" "fits r"
  shows "(rockchip_rk3036_pll_set_params P r d \<noteq> None) = (\<exists>n. rk3036.locks P (rk3036.call P n r d))
    \<and> (\<forall>n. rk3036.locks P (rk3036.call P n r d) \<and> (\<forall>k < n. \<not> rk3036.locks P (rk3036.call P k r d)) \<longrightarrow>
        (\<exists>d' e. rockchip_rk3036_pll_set_params P r d = Some (d', e) \<and> (e = None \<longleftrightarrow> n = 0)
           \<and> rockchip_rk3036_pll_get_params P (pll_hw d') blank_setting
              = (if even n then settings_of blank_setting r
                 else rockchip_rk3036_pll_get_params P (pll_hw d) blank_setting)))"
proof (intro conjI allI impI)
  show "(rockchip_rk3036_pll_set_params P r d \<noteq> None) = (\<exists>n. rk3036.locks P (rk3036.call P n r d))"
    by (rule rk3036.returns_iff)
next
  fix n
  assume "rk3036.locks P (rk3036.call P n r d) \<and> (\<forall>k < n. \<not> rk3036.locks P (rk3036.call P k r d))"
  with rk3036r.alternates [OF assms]
  show "\<exists>d' e. rockchip_rk3036_pll_set_params P r d = Some (d', e) \<and> (e = None \<longleftrightarrow> n = 0)
      \<and> rockchip_rk3036_pll_get_params P (pll_hw d') blank_setting
         = (if even n then settings_of blank_setting r
            else rockchip_rk3036_pll_get_params P (pll_hw d) blank_setting)"
    unfolding norm_blank cur_blank by blast
qed

section \<open>Setting a rate\<close>

lemma kept_fields [frame]:
  "scaling (return_pll P m d) = scaling d" "scaling (fst (leave_pll P d)) = scaling d"
  "scaling (fst (rk3036_attempt P r d)) = scaling d" "scaling (fst (rk3399_attempt P r d)) = scaling d"
  "scaling (fst (rk3066_attempt P r d)) = scaling d"
  by (simp_all add: return_pll_def leave_pll_def rk3036_attempt_def rk3399_attempt_def rk3066_attempt_def
      rockchip_boost_disable_low_def rockchip_pll_wait_lock_def rockchip_rk3036_pll_wait_lock_def
      rockchip_rk3399_pll_wait_lock_def case_prod_beta)

lemma first_lock:
  assumes "rockchip_rk3036_pll_set_params P r d = Some (d', None)"
  shows "d' = return_pll P (snd (leave_pll P d)) (fst (rk3036_attempt P r (fst (leave_pll P d))))"
  using rk3036.failed_result [OF assms] rk3036.first_try [of P r d] assms by simp

lemma get_pll_settings_miss:
  assumes "rate_table d = Some t" "rate_count d = length t" "\<forall>x \<in> set t. rate x \<noteq> f"
    and "(if ptype d = pll_rk3066 then rockchip_rk3066_pll_clk_set_by_auto (auto_table d) XIN f
          else rockchip_pll_clk_set_by_auto (auto_table d) XIN f) = Some (Some s)"
  shows "rockchip_get_pll_settings d f = Some (d\<lparr>scaling := 0, auto_table := s\<rparr>, Some s)"
proof -
  have "scan_rates d (\<lambda>x. f = x) 0 = Some None"
    by (rule scan_rates_cases [OF assms(1,2), of "\<lambda>x. f = x"]) (use assms(3) in \<open>auto dest: nth_mem\<close>)
  with assms(4) show ?thesis by (simp add: rockchip_get_pll_settings_def)
qed

lemma params_rate_settings: "params_rate p (settings_of cur r) = params_rate p r"
  by (simp add: params_rate_def settings_of_def cong: if_cong)

lemma auto_setting_found:
  assumes "f \<noteq> XIN" "800000000 \<le> unat f * 49" "unat f < 4096000000"
  obtains s where "rockchip_pll_clk_set_by_auto a XIN f = Some (Some s)" "fits s"
    "\<exists>R. params_rate XIN s = Some R \<and> unat R \<le> unat f \<and> unat f \<le> unat R + 2 \<and> (1000000 dvd unat f \<longrightarrow> R = f)"
proof -
  have "f \<noteq> 0" using assms(2) by auto
  obtain P1 P2 where P: "1 \<le> P1" "P1 < 8" "1 \<le> P2" "P2 < 8"
    and p: "rockchip_pll_clk_set_postdiv f (ucast f) = (of_nat P1, of_nat P2, of_nat (unat f * P1 * P2))"
    and V: "800000000 \<le> unat f * P1 * P2" "unat f * P1 * P2 < 4096000000"
    using set_postdiv_range [OF assms(2,3)] by blast
  have V32: "unat f * P1 * P2 < 2 ^ 32" by (rule less_trans [OF V(2)]) simp
  let ?t = "auto_setting a P1 P2 (unat f * P1 * P2)"
  have s: "rockchip_pll_clk_set_by_auto a XIN f = Some (Some ?t)"
    by (rule set_by_auto_vco [OF \<open>f \<noteq> 0\<close> assms(1) p _ V32]) (simp add: dvd_mult2)
  have "fits ?t" using auto_setting_fits [OF P V(2)] by (simp add: fits_def)
  moreover have "\<exists>R. params_rate XIN ?t = Some R \<and> unat R \<le> unat f \<and> unat f \<le> unat R + 2
      \<and> (1000000 dvd unat f \<longrightarrow> R = f)"
    using params_rate_auto [OF P refl V32, of a] by (auto simp: word_unat_eq_iff)
  ultimately show ?thesis using s by (intro that [of ?t])
qed

text \<open>
  C40: Setting a rate from 16.33 MHz up to 4.096 GHz that the table lacks on an RK3036 PLL, when it ends
  well, leaves registers from which the driver recalculates a rate at most the one asked for and less
  than three Hz below it; a whole number of MHz is met exactly.
\<close>

theorem rockchip_rk3036_pll_set_rate_recalc:
  assumes "rk3036_law P" "rate_table d = Some t" "rate_count d = length t" "\<forall>x \<in> set t. rate x \<noteq> f"
    and "ptype d \<noteq> pll_rk3066" "f \<noteq> XIN" "800000000 \<le> unat f * 49" "unat f < 4096000000"
    and "rockchip_rk3036_pll_set_rate P f d = Some (d', None)"
  shows "\<exists>R. rockchip_rk3036_pll_recalc_rate P d' XIN = Some R \<and> unat R \<le> unat f \<and> unat f \<le> unat R + 2
    \<and> (1000000 dvd unat f \<longrightarrow> R = f)"
proof -
  obtain s where s: "rockchip_pll_clk_set_by_auto (auto_table d) XIN f = Some (Some s)" "fits s"
    "\<exists>R. params_rate XIN s = Some R \<and> unat R \<le> unat f \<and> unat f \<le> unat R + 2 \<and> (1000000 dvd unat f \<longrightarrow> R = f)"
    using auto_setting_found [OF assms(6-8)] by blast
  let ?d = "d\<lparr>scaling := 0, auto_table := s\<rparr>"
  have "rockchip_get_pll_settings d f = Some (?d, Some s)"
    using assms(5) s(1) by (intro get_pll_settings_miss [OF assms(2-4)]) simp
  with assms(9) have p: "rockchip_rk3036_pll_set_params P s ?d = Some (d', None)"
    by (simp add: rockchip_rk3036_pll_set_rate_def)
  have "rockchip_rk3036_pll_get_params P (pll_hw d') blank_setting = settings_of blank_setting s"
    using rk3036r.success [OF assms(1) s(2) p] by (simp only: cur_blank norm_blank)
  moreover have "scaling d' = 0" by (simp add: first_lock [OF p] frame)
  ultimately show ?thesis using s(3) by (simp add: rockchip_rk3036_pll_recalc_rate_def params_rate_settings)
qed


text \<open>
  Below 16.33 MHz no post dividers bring the oscillator into its range; the driver programs 8, which the
  fields do not hold.
\<close>

lemma rk3036_program_postdiv1:
  assumes law: "rk3036_law P" and r: "fbdiv r < 2 ^ 12" "postdiv1 r = 8"
    and same: "same_fields P RK3036_PLLCON rk3036_fields (rk3036_program P r h) h'"
  shows "postdiv1 (rockchip_rk3036_pll_get_params P h' cur) = 0"
proof -
  note L = pll_lawD(1) [OF law [unfolded rk3036_law_def]]
  note d = rk3036_program_def Let_def L rk3036_fields_def bit_HIWORD_UPDATE pll_masks bit_or_iff bit_mask_iff
    RK3036_PLLCON0_FBDIV_SHIFT_def RK3036_PLLCON0_POSTDIV1_SHIFT_def
  have S: "b \<in> rk3036_fields i \<Longrightarrow> bit (pll_read P h' (RK3036_PLLCON i)) b
      = bit (pll_read P (rk3036_program P r h) (RK3036_PLLCON i)) b" for i b
    using same by (simp add: same_fields_def)
  have eight: "\<not> bit (8 :: u32) n" if "n < 3" for n
    using that by (auto simp: numeral_3_eq_3 less_Suc_eq)
  have "field (pll_read P h' (RK3036_PLLCON 0)) 12 RK3036_PLLCON0_POSTDIV1_MASK = 0"
    by (rule field_eqI [OF pll_masks(2)]) (use r(2) eight in \<open>auto simp: S d dest: bits_below [OF r(1)]\<close>)
  then show ?thesis
    by (simp add: rockchip_rk3036_pll_get_params_def Let_def RK3036_PLLCON0_POSTDIV1_SHIFT_def)
qed

lemma params_rate_no_postdiv: "postdiv1 r = 0 \<Longrightarrow> params_rate p r = None"
proof -
  assume "postdiv1 r = 0"
  then have "do_div x (ucast (postdiv1 r)) = None" for x by (simp add: do_div_def)
  then show ?thesis by (simp add: params_rate_def Option.bind_eq_None_conv)
qed

text \<open>
  Setting a rate below 16.33 MHz on an RK3036 PLL can end well, but the registers are left with post
  divider 0, and recalculating the rate divides by it.
\<close>

theorem rockchip_rk3036_pll_set_rate_low:
  assumes "rk3036_law P" "rate_table d = Some t" "rate_count d = length t" "\<forall>x \<in> set t. rate x \<noteq> f"
    and "ptype d \<noteq> pll_rk3066" "f \<noteq> 0" "unat f * 49 < 800000000"
    and "rockchip_rk3036_pll_set_rate P f d = Some (d', None)"
  shows "rockchip_rk3036_pll_recalc_rate P d' prate = None"
proof -
  let ?s = "auto_setting (auto_table d) 8 8 (unat f)"
  let ?d = "d\<lparr>scaling := 0, auto_table := ?s\<rparr>"
  let ?a = "fst (leave_pll P ?d)"
  have "rockchip_get_pll_settings d f = Some (?d, Some ?s)"
    using assms(5) set_by_auto_low [OF assms(6,7)] by (intro get_pll_settings_miss [OF assms(2-4)]) simp
  with assms(8) have "rockchip_rk3036_pll_set_params P ?s ?d = Some (d', None)"
    by (simp add: rockchip_rk3036_pll_set_rate_def)
  note d' = first_lock [OF this]
  note law = assms(1) [unfolded rk3036_law_def]
  have "unat f div 1000000 div gcd 24 (unat f div 1000000) < 4096"
    using assms(7) by (intro le_less_trans [OF div_le_dividend [of "unat f div 1000000"]])
      (simp add: div_less_iff_less_mult)
  then have fb: "fbdiv ?s < 2 ^ 12" by (simp add: auto_setting_def word_less_nat_alt unat_of_nat_small)
  have "same_fields P RK3036_PLLCON rk3036_fields (rk3036_program P ?s (pll_hw ?a)) (pll_hw d')"
    unfolding d' rk3036_attempt_def
    by (rule same_fields_trans [OF same_fields_trans [OF _ same_fields_steps(5) [OF law]] same_fields_steps(1) [OF law]])
      (use same_fields_steps(3) [OF law, of "?a\<lparr>pll_hw := rk3036_program P ?s (pll_hw ?a)\<rparr>"] in simp)
  from rk3036_program_postdiv1 [OF assms(1) fb _ this]
  have "postdiv1 (rockchip_rk3036_pll_get_params P (pll_hw d') blank_setting) = 0" by (simp add: auto_setting_def)
  moreover have "scaling d' = 0" by (simp add: d' frame)
  ultimately show ?thesis by (simp add: rockchip_rk3036_pll_recalc_rate_def params_rate_no_postdiv)
qed


lemma rk3066_setting_found:
  assumes "f \<noteq> 0" "f \<noteq> XIN" "unat f < 2 ^ 32" "valid_setting (unat XIN) (unat f) v"
  obtains nr nf no where
    "rockchip_rk3066_pll_clk_set_by_auto a XIN f = Some (Some (a\<lparr>fbdiv := nr, postdiv1 := nf, refdiv := no\<rparr>))"
    "unat nf * 24000000 = unat f * unat nr * unat no" "1 \<le> unat nr" "unat nr \<le> 64" "1 \<le> unat nf"
    "unat nf \<le> 4096" "1 \<le> unat no" "unat no \<le> 16"
proof -
  have "XIN \<noteq> 0" "unat XIN < 2 ^ 32" by (simp_all add: unat_eq_0 [symmetric])
  from rk3066_set_by_auto [OF this(1) assms(1,2) this(2) assms(3), of a] obtain b where
    b: "best_of {s. valid_setting (unat XIN) (unat f) s} (nats b)"
      "rockchip_rk3066_pll_clk_set_by_auto a XIN f = Some
        (case b of (nr, nf, no) \<Rightarrow> if nr \<le> PLL_NR_MAX \<and> no > 0
          then Some (a\<lparr>fbdiv := nr, postdiv1 := nf, refdiv := no\<rparr>) else None)"
    by blast
  obtain nr nf no where e: "b = (nr, nf, no)" by (metis prod_cases3)
  have "valid_setting (unat XIN) (unat f) (unat nr, unat nf, unat no)"
    using b(1) assms(4) by (cases v) (auto simp: best_of_def e nats_def)
  then have v: "unat nf * 24000000 = unat f * unat nr * unat no" "1 \<le> unat nr" "unat nr \<le> 64" "1 \<le> unat nf"
    "unat nf \<le> 4096" "1 \<le> unat no" "unat no \<le> 16" by (simp_all add: valid_setting_def)
  moreover have "nr \<le> PLL_NR_MAX" "no > 0" using v by (simp_all add: word_le_nat_alt word_less_nat_alt pll_consts)
  ultimately show ?thesis using b(2) by (intro that) (simp_all add: e)
qed

lemma rk3066_params_rate:
  fixes nr nf no :: u32
  assumes "unat nf * 24000000 = unat f * unat nr * unat no" "1 \<le> unat nr" "unat nf \<le> 4096" "1 \<le> unat no"
  shows "Option.bind (do_div (XIN * ucast nf) (ucast nr)) (\<lambda>r. do_div r (ucast no)) = Some f"
proof -
  have "24000000 * unat nf \<le> 24000000 * 4096" using assms(3) by (intro mult_le_mono2)
  then have "24000000 * unat nf < 2 ^ 64" by (rule le_less_trans) simp
  then have "unat (XIN * ucast nf) = 24000000 * unat nf" by (simp add: unat_word_ariths(2))
  also have "\<dots> = unat f * unat no * unat nr" using assms(1) by (simp only: mult.commute mult.left_commute)
  finally have "unat (XIN * ucast nf) = unat f * unat no * unat nr" .
  then have "unat (XIN * ucast nf div ucast nr div ucast no) = unat f"
    using assms(2,4) by (simp add: unat_div)
  then show ?thesis using assms(2,4) by (auto simp: do_div_u32 word_unat_eq_iff)
qed

text \<open>
  Setting a rate that the table of an RK3066 PLL lacks and that a valid setting gives, when it ends
  well, leaves registers from which the driver recalculates exactly this rate. The bandwidth \<open>NB\<close> is
  taken from the static setting, which nothing sets: from 0 it becomes 4096.
\<close>

theorem rockchip_rk3066_pll_set_rate_recalc:
  assumes "rk3066_law P" "rate_table d = Some t" "rate_count d = length t" "\<forall>x \<in> set t. rate x \<noteq> f"
    and "ptype d = pll_rk3066" "f \<noteq> 0" "f \<noteq> XIN" "unat f < 2 ^ 32" "valid_setting (unat XIN) (unat f) v"
    and "pll_read P (pll_hw d) (RK3066_PLLCON 3) AND RK3066_PLLCON3_BYPASS = 0"
    and "rockchip_rk3066_pll_set_rate P e f prate d = Some (d', None)"
  shows "rockchip_rk3066_pll_recalc_rate P d' XIN = Some f
    \<and> (nb_field (auto_table d) = 0 \<longrightarrow> nb_field (rockchip_rk3066_pll_get_params P (pll_hw d') blank_setting) = 4096)"
proof -
  obtain nr nf no where
    auto: "rockchip_rk3066_pll_clk_set_by_auto (auto_table d) XIN f
        = Some (Some ((auto_table d)\<lparr>fbdiv := nr, postdiv1 := nf, refdiv := no\<rparr>))"
    and v: "unat nf * 24000000 = unat f * unat nr * unat no" "1 \<le> unat nr" "unat nr \<le> 64" "1 \<le> unat nf"
      "unat nf \<le> 4096" "1 \<le> unat no" "unat no \<le> 16"
    using rk3066_setting_found [OF assms(6-9)] by blast
  let ?s = "(auto_table d)\<lparr>fbdiv := nr, postdiv1 := nf, refdiv := no\<rparr>"
  let ?d = "d\<lparr>scaling := 0, auto_table := ?s\<rparr>"
  have "rockchip_get_pll_settings d f = Some (?d, Some ?s)"
    using assms(5) auto by (intro get_pll_settings_miss [OF assms(2-4)]) simp
  with assms(11) have p: "rockchip_rk3066_pll_set_params P ?s ?d = Some (d', None)"
    by (auto simp: rockchip_rk3066_pll_set_rate_def Option.bind_eq_Some_conv split: if_splits)
  have m1: "unat (w - 1) = unat w - 1" if "1 \<le> unat w" for w :: u32
    using that by (simp add: unat_sub word_le_nat_alt)
  have fits: "fits3066 ?s" using v by (auto simp: fits3066_def word_less_nat_alt m1)
  have get: "rockchip_rk3066_pll_get_params P (pll_hw d') blank_setting = settings3066 blank_setting ?s"
    using rk3066r.success [OF assms(1) fits p] by (simp only: cur_blank norm_blank)
  have d': "d' = return_pll P (snd (leave_pll P ?d)) (fst (rk3066_attempt P ?s (fst (leave_pll P ?d))))"
    using rk3066.failed_result [OF p] rk3066.first_try [of P ?s ?d] p by simp
  have "scaling d' = 0" by (simp add: d' frame)
  moreover have "bit (pll_read P (pll_hw d') (RK3066_PLLCON 3)) 0 = bit (pll_read P (pll_hw d) (RK3066_PLLCON 3)) 0"
  proof -
    have "0 \<in> rk3066_fields 3" by (simp add: rk3066_fields_def)
    note steps = same_fields_steps(1,2,4) [OF assms(1) [unfolded rk3066_law_def], unfolded same_fields_def, THEN spec, THEN bspec, OF this]
    show ?thesis
      unfolding d' rk3066_attempt_def steps(1,3) using rk3066_program_bits(5) [OF assms(1) fits] steps(2) [of ?d] by simp
  qed
  ultimately have "rockchip_rk3066_pll_recalc_rate P d' XIN = Some f"
    using assms(10) rk3066_params_rate [OF v(1,2,5,6)]
    by (simp add: rockchip_rk3066_pll_recalc_rate_def RK3066_PLLCON3_BYPASS_def get settings3066_def)
  moreover have "nb_field (rockchip_rk3066_pll_get_params P (pll_hw d') blank_setting) = 4096"
    if "nb_field (auto_table d) = 0"
    using that by (simp add: get settings3066_def mask_eq_exp_minus_1)
  ultimately show ?thesis by blast
qed


section \<open>Compensation\<close>

text \<open>The change of the fraction, in numbers: the two truncated products.\<close>

definition frac_change :: "nat \<Rightarrow> nat \<Rightarrow> nat \<Rightarrow> nat" where
  "frac_change k F B = F * k div 1000000 + k * 2 ^ 24 div 1000000 * B"

lemma truncated_products:
  fixes M N k F B :: nat
  assumes "0 < M"
  shows "M * (F * k div M + k * N div M * B) \<le> k * (B * N + F)"
    "k * (B * N + F) < M * (F * k div M + k * N div M * B + B + 1)"
proof -
  obtain q r where q: "k * N = M * q + r" "r < M" "k * N div M = q"
    by (metis assms div_mod_decomp mod_less_divisor mult.commute)
  obtain m s where m: "F * k = M * m + s" "s < M" "F * k div M = m"
    by (metis assms div_mod_decomp mod_less_divisor mult.commute)
  have "k * (B * N + F) = (k * N) * B + F * k" by (simp add: algebra_simps)
  also have "\<dots> = M * (m + q * B) + (r * B + s)" unfolding q(1) m(1) by (simp add: algebra_simps)
  finally have e: "k * (B * N + F) = M * (m + q * B) + (r * B + s)" .
  then show "M * (F * k div M + k * N div M * B) \<le> k * (B * N + F)" by (simp add: q(3) m(3))
  have "r * B \<le> M * B" using q(2) by simp
  then have "r * B + s < M * B + M" using m(2) by linarith
  then show "k * (B * N + F) < M * (F * k div M + k * N div M * B + B + 1)"
    unfolding e q(3) m(3) by (simp add: algebra_simps)
qed

lemma frac_change_bounds:
  "1000000 * frac_change k F B \<le> k * (B * 2 ^ 24 + F)"
  "k * (B * 2 ^ 24 + F) < 1000000 * (frac_change k F B + B + 1)"
  unfolding frac_change_def by (rule truncated_products, simp)+

lemma frac_change_words:
  fixes F B :: u32
  assumes "F < 2 ^ 24" "B < 2 ^ 12" "k \<le> 1000"
  shows "unat (ucast F * of_nat k div 0xf4240 + push_bit 24 (of_nat k) div 0xf4240 * ucast B :: u64) = frac_change k (unat F) (unat B)"
    "frac_change k (unat F) (unat B) < 2 ^ 36"
proof -
  have F: "unat F < 2 ^ 24" and B: "unat B < 2 ^ 12" using assms by (simp_all add: word_less_nat_alt)
  have "unat F * k \<le> 2 ^ 24 * 1000" using F assms(3) by (intro mult_le_mono) simp_all
  moreover have k: "k * 2 ^ 24 \<le> 1000 * 2 ^ 24" using assms(3) by (intro mult_le_mono1)
  moreover have n: "k * 2 ^ 24 div 1000000 * unat B \<le> 1000 * 2 ^ 24 div 1000000 * 2 ^ 12"
    using k B by (intro mult_le_mono div_le_mono) simp_all
  moreover have m: "unat F * k div 1000000 \<le> 2 ^ 24 * 1000 div 1000000"
    using calculation(1) by (rule div_le_mono)
  moreover have uk: "unat (of_nat k :: u64) = k" using assms(3) by (simp add: unat_of_nat take_bit_nat_eq_self)
  ultimately have
    a: "unat (ucast F * of_nat k div 0xf4240 :: u64) = unat F * k div 1000000" and
    b: "unat (push_bit 24 (of_nat k) div 0xf4240 * ucast B :: u64) = k * 2 ^ 24 div 1000000 * unat B"
    by (simp_all add: unat_div unat_word_ariths(2) push_bit_eq_mult)
  show "frac_change k (unat F) (unat B) < 2 ^ 36"
    using add_mono [OF m n] unfolding frac_change_def by (rule le_less_trans) simp
  show "unat (ucast F * of_nat k div 0xf4240 + push_bit 24 (of_nat k) div 0xf4240 * ucast B :: u64) = frac_change k (unat F) (unat B)"
    using add_mono [OF m n] unfolding unat_word_ariths(1) a b frac_change_def by (intro mod_less) (rule le_less_trans, assumption, simp)
qed


text \<open>The sum and the difference in 64 bits: the comparison with the mask finds every overflow.\<close>

lemma frac_step:
  fixes F :: u32 and D :: u64
  assumes "F < 2 ^ 24" "unat D < 2 ^ 36"
  shows "\<not> ucast F - D > 0xffffff \<longleftrightarrow> unat D \<le> unat F"
    "\<not> ucast F - D > 0xffffff \<Longrightarrow> unat (ucast F - D) = unat F - unat D"
    "unat (ucast F + D) = unat F + unat D"
proof -
  have F: "unat F < 2 ^ 24" using assms by (simp add: word_less_nat_alt)
  show "unat (ucast F + D) = unat F + unat D" using F assms(2) by (simp add: unat_word_ariths(1))
  have "unat (ucast F - D) = (if unat D \<le> unat F then unat F - unat D else unat F + 2 ^ 64 - unat D)"
    using assms(2) by (simp add: unat_sub_if')
  then show "\<not> ucast F - D > 0xffffff \<longleftrightarrow> unat D \<le> unat F"
    "\<not> ucast F - D > 0xffffff \<Longrightarrow> unat (ucast F - D) = unat F - unat D"
    using F assms(2) by (auto simp: word_less_nat_alt not_less split: if_splits)
qed

lemma rk3036_write_frac:
  assumes law: "rk3036_law P" and v: "unat v < 2 ^ 24"
  shows "rockchip_rk3036_pll_get_params P (pll_write P h (RK3036_PLLCON 2)
      (ucast (ucast (pll_read P h (RK3036_PLLCON 2) AND NOT (push_bit 0 (mask 24))) OR (v :: u64)))) cur
    = (rockchip_rk3036_pll_get_params P h cur)\<lparr>frac := ucast v\<rparr>"
proof -
  note L = pll_lawD(1) [OF law [unfolded rk3036_law_def]]
  let ?h = "pll_write P h (RK3036_PLLCON 2)
      (ucast (ucast (pll_read P h (RK3036_PLLCON 2) AND NOT (push_bit 0 (mask 24))) OR v))"
  have "ucast v < (2 ^ 24 :: u32)" using v by (simp add: word_less_nat_alt ucast_small)
  then have "field (pll_read P ?h (RK3036_PLLCON 2)) 0 (mask 24) = ucast v"
    by (intro field_eqI [OF refl]) (simp_all add: L rk3036_fields_def bit_simps)
  moreover have "field (pll_read P ?h (RK3036_PLLCON 0)) 0 (mask 12) = field (pll_read P h (RK3036_PLLCON 0)) 0 (mask 12)"
    "field (pll_read P ?h (RK3036_PLLCON 0)) 12 (mask 3) = field (pll_read P h (RK3036_PLLCON 0)) 12 (mask 3)"
    "field (pll_read P ?h (RK3036_PLLCON 1)) 0 (mask 6) = field (pll_read P h (RK3036_PLLCON 1)) 0 (mask 6)"
    "field (pll_read P ?h (RK3036_PLLCON 1)) 6 (mask 3) = field (pll_read P h (RK3036_PLLCON 1)) 6 (mask 3)"
    "field (pll_read P ?h (RK3036_PLLCON 1)) 12 (mask 1) = field (pll_read P h (RK3036_PLLCON 1)) 12 (mask 1)"
    by (rule field_cong, simp add: L rk3036_fields_def del: One_nat_def)+
  ultimately show ?thesis
    by (simp only: rockchip_rk3036_pll_get_params_def Let_def pll_masks
        RK3036_PLLCON0_FBDIV_SHIFT_def RK3036_PLLCON0_POSTDIV1_SHIFT_def RK3036_PLLCON1_REFDIV_SHIFT_def
        RK3036_PLLCON1_POSTDIV2_SHIFT_def RK3036_PLLCON1_DSMPD_SHIFT_def RK3036_PLLCON2_FRAC_SHIFT_def) simp
qed

lemma compensation_result:
  fixes F B :: u32
  defines "D k \<equiv> ucast F * of_nat k div 0xf4240 + push_bit 24 (of_nat k) div 0xf4240 * ucast B :: u64"
  defines "v ppm \<equiv> if ppm < 0 then ucast F - D (nat \<bar>ppm\<bar>) else ucast F + D (nat \<bar>ppm\<bar>)"
  assumes ty: "ptype d = pll_rk3036 \<or> ptype d = pll_rk3328"
    and r: "rockchip_pll_clk_compensation P st (Some d) ppm = ((F, B), Some d', None)"
  shows "nat \<bar>ppm\<bar> \<le> 1000"
    and "if fst st = 0 then F = frac (rk3036_cur P d) \<and> B = fbdiv (rk3036_cur P d) else (F, B) = st"
    and "\<not> v ppm > 0xffffff"
    and "pll_hw d' = pll_write P (pll_hw d) (RK3036_PLLCON 2)
      (ucast (ucast (pll_read P (pll_hw d) (RK3036_PLLCON 2) AND NOT (push_bit 0 (mask 24))) OR v ppm))"
proof -
  let ?k = "nat \<bar>ppm\<bar>"
  show "?k \<le> 1000" using r by (auto simp: rockchip_pll_clk_compensation_def split: if_splits)
  have k: "of_int (if ppm < 0 then - ppm else ppm) = (of_nat ?k :: u64)" by auto
  have g: "(\<not> (ppm > 0x3e8 \<or> ppm < - 0x3e8))" "ptype d \<noteq> pll_rk3066" "ptype d \<noteq> pll_rk3399"
    using ty r by (auto simp: rockchip_pll_clk_compensation_def split: if_splits)
  obtain F0 B0 where fb: "(if fst st = 0 then (pll_read P (pll_hw d) (RK3036_PLLCON 2) AND mask 24,
      pll_read P (pll_hw d) (RK3036_PLLCON 0) AND mask 12) else st) = (F0, B0)"
    by fastforce
  have "rockchip_pll_clk_compensation P st (Some d) ppm =
    (let D = ucast F0 * of_nat ?k div 0xf4240 + push_bit 24 (of_nat ?k) div 0xf4240 * ucast B0 :: u64;
         v = (if ppm < 0 then ucast F0 - D else ucast F0 + D)
     in if F0 = 0 \<or> v > ucast (mask 24 :: u32) then ((F0, B0), Some d, Some EINVAL)
        else ((F0, B0), Some (d\<lparr>pll_hw := pll_write P (pll_hw d) (RK3036_PLLCON 2)
          (ucast (ucast (pll_read P (pll_hw d) (RK3036_PLLCON 2) AND NOT (push_bit 0 (mask 24))) OR v))\<rparr>), None))"
    unfolding rockchip_pll_clk_compensation_def if_not_P [OF g(1)] option.case if_not_P [OF g(2)] if_not_P [OF g(3)]
      Let_def prod.case k pll_masks fb RK3036_PLLCON2_FRAC_SHIFT_def push_bit_0_id id_apply by (rule refl)
  moreover have "ucast (mask 24 :: u32) = (0xffffff :: u64)" by (simp add: mask_eq_exp_minus_1)
  ultimately have "F0 = F" "B0 = B" and v: "\<not> v ppm > 0xffffff" "pll_hw d' = pll_write P (pll_hw d) (RK3036_PLLCON 2)
    (ucast (ucast (pll_read P (pll_hw d) (RK3036_PLLCON 2) AND NOT (push_bit 0 (mask 24))) OR v ppm))"
    using r unfolding v_def D_def by (simp_all only: Let_def split: if_splits) (simp_all add: r)
  show "\<not> v ppm > 0xffffff" "pll_hw d' = pll_write P (pll_hw d) (RK3036_PLLCON 2)
    (ucast (ucast (pll_read P (pll_hw d) (RK3036_PLLCON 2) AND NOT (push_bit 0 (mask 24))) OR v ppm))" by (fact v)+
  show "if fst st = 0 then F = frac (rk3036_cur P d) \<and> B = fbdiv (rk3036_cur P d) else (F, B) = st"
    using fb \<open>F0 = F\<close> \<open>B0 = B\<close>
    by (auto simp: rk3036_cur_def rockchip_rk3036_pll_get_params_def Let_def field_def pll_masks
        RK3036_PLLCON0_FBDIV_SHIFT_def RK3036_PLLCON2_FRAC_SHIFT_def split: if_splits)
qed

text \<open>
  A compensation by \<open>ppm\<close> on an RK3036 or RK3328 PLL that ends well changes the fraction only, by
  \<open>ppm\<close> millionths of the feedback divider with its fraction up to the rounding of the divider; the
  new fraction fits its field. The fraction and the divider are those that were read by the first
  compensation of any PLL.
\<close>

theorem rockchip_pll_clk_compensation_frac:
  assumes "rk3036_law P" "ptype d = pll_rk3036 \<or> ptype d = pll_rk3328"
    and "rockchip_pll_clk_compensation P st (Some d) ppm = ((F, B), Some d', None)"
    and "fst st < 2 ^ 24" "snd st < 2 ^ 12"
  shows "\<exists>D. 1000000 * D \<le> nat \<bar>ppm\<bar> * (unat B * 2 ^ 24 + unat F)
     \<and> nat \<bar>ppm\<bar> * (unat B * 2 ^ 24 + unat F) < 1000000 * (D + unat B + 1)
     \<and> (if ppm < 0 then D \<le> unat F else unat F + D < 2 ^ 24)
     \<and> rockchip_rk3036_pll_get_params P (pll_hw d') blank_setting
         = (rockchip_rk3036_pll_get_params P (pll_hw d) blank_setting)
             \<lparr>frac := of_nat (if ppm < 0 then unat F - D else unat F + D)\<rparr>
     \<and> (if fst st = 0
        then F = frac (rockchip_rk3036_pll_get_params P (pll_hw d) blank_setting)
           \<and> B = fbdiv (rockchip_rk3036_pll_get_params P (pll_hw d) blank_setting)
        else (F, B) = st)"
proof -
  let ?old = "rockchip_rk3036_pll_get_params P (pll_hw d) blank_setting"
  let ?k = "nat \<bar>ppm\<bar>"
  let ?D = "ucast F * of_nat ?k div 0xf4240 + push_bit 24 (of_nat ?k) div 0xf4240 * ucast B :: u64"
  let ?v = "if ppm < 0 then ucast F - ?D else ucast F + ?D"
  note k = compensation_result(1) [OF assms(2,3)] and st = compensation_result(2) [OF assms(2,3), unfolded cur_blank]
    and hw = compensation_result(3,4) [OF assms(2,3)]
  have small: "F < 2 ^ 24" "B < 2 ^ 12"
    using st assms(4,5) fits_cur(1) [of P d] by (auto simp: cur_blank fits_def split: if_splits)
  note D = frac_change_words [OF small k]
  let ?N = "frac_change ?k (unat F) (unat B)"
  note step = frac_step [OF small(1), of ?D, unfolded D(1), OF D(2)]
  have v: "unat ?v = (if ppm < 0 then unat F - ?N else unat F + ?N)"
    "if ppm < 0 then ?N \<le> unat F else unat F + ?N < 2 ^ 24"
  proof -
    show "unat ?v = (if ppm < 0 then unat F - ?N else unat F + ?N)"
      using hw(1) step(2,3) by (cases "ppm < 0") (simp_all only: if_True if_False simp_thms)
    show "if ppm < 0 then ?N \<le> unat F else unat F + ?N < 2 ^ 24"
      using hw(1) step(1,3) by (cases "ppm < 0") (simp_all only: if_True if_False simp_thms, simp add: word_less_nat_alt)
  qed
  have lt: "unat ?v < 2 ^ 24" using hw(1) by (simp only: word_less_nat_alt) simp
  have "ucast ?v = (of_nat (if ppm < 0 then unat F - ?N else unat F + ?N) :: u32)"
    unfolding v(1) [symmetric] by (rule ucast_unat)
  then have "rockchip_rk3036_pll_get_params P (pll_hw d') blank_setting
      = ?old\<lparr>frac := of_nat (if ppm < 0 then unat F - ?N else unat F + ?N)\<rparr>"
    unfolding hw(2) rk3036_write_frac [OF assms(1) lt] by simp
  then show ?thesis using frac_change_bounds(1) [of ?k "unat F" "unat B"] frac_change_bounds(2) [where k = ?k and F = "unat F" and B = "unat B"] v(2) st by (intro exI [of _ ?N]) blast
qed


section \<open>Registration\<close>

lemma table_len_takeWhile:
  "\<exists>x \<in> set tab. rate x = 0 \<Longrightarrow> table_len tab = Some (length (takeWhile (\<lambda>x. rate x \<noteq> 0) tab))"
  by (induction tab) auto

text \<open>
  Registering a PLL with a rate table: when it succeeds, the driver keeps the entries before the first
  with rate 0, with their number, unless copying them failed, and a PLL without a copy or, but for the
  RK3399, without its lock register gets operations that cannot set a rate. When it fails, all it
  allocated and registered is given back, except the copy of the table when the clock framework
  refuses the PLL.
\<close>

theorem rockchip_clk_register_pll_result:
  assumes "\<exists>x \<in> set tab. rate x = 0"
  shows "\<exists>log res. rockchip_clk_register_pll env ty n (Some tab) = Some (log, res)
    \<and> (case res of
         Inl e \<Rightarrow> log = (if pll_clk_error env = Some e \<and> kmemdup_ok env \<and> mux_clk_error env = None
             \<and> pll_kzalloc_ok env \<and> n = (if ty = pll_rk3328 then 1 else 2) then [Rate_table] else [])
       | Inr r \<Rightarrow> reg_count r = length (takeWhile (\<lambda>x. rate x \<noteq> 0) tab)
           \<and> reg_table r = (if kmemdup_ok env then Some (takeWhile (\<lambda>x. rate x \<noteq> 0) tab) else None)
           \<and> (reg_ops r \<in> {rk3036_ops, rk3066_ops, rk3399_ops}
                \<longleftrightarrow> reg_table r \<noteq> None \<and> (ty = pll_rk3399 \<or> env_grf_ok env)))"
proof -
  note len = table_len_takeWhile [OF assms]
  have "take (length (takeWhile (\<lambda>x. rate x \<noteq> 0) tab)) tab = takeWhile (\<lambda>x. rate x \<noteq> 0) tab"
    by (simp add: takeWhile_eq_take [symmetric])
  with len show ?thesis
    by (cases ty; cases "pll_kzalloc_ok env"; cases "mux_clk_error env"; cases "pll_clk_error env"; cases "kmemdup_ok env")
      (auto simp: rockchip_clk_register_pll_def pll_ops_for_def Let_def)
qed


section \<open>Witnesses\<close>

text \<open>
  Registers with and without write mask, and a PLL that fails to lock a number of times.
\<close>

definition masked_write :: "u32 \<Rightarrow> u32 \<Rightarrow> u32" where
  "masked_write old v = (old AND NOT (drop_bit 16 v)) OR (v AND drop_bit 16 v AND mask 16)"

definition sim_pll :: "u32 set \<Rightarrow> ((u32 \<Rightarrow> u32) \<times> nat) pll_port" where
  "sim_pll plain =
     \<lparr>pll_read = (\<lambda>h a. fst h a),
      pll_write = (\<lambda>h a v. ((fst h)(a := if a \<in> plain then v else masked_write (fst h a) v), snd h)),
      pll_poll = (\<lambda>h a n. ((fst h, snd h - 1), snd h = 0)),
      grf_poll = (\<lambda>h a n. ((fst h, snd h - 1), snd h = 0)),
      mux_get = (\<lambda>h. PLL_MODE_NORM), mux_set = (\<lambda>h m. h),
      boost_read = (\<lambda>h a. (h, 0)), boost_write = (\<lambda>h a v. h)\<rparr>"

definition sim_clk :: "rockchip_pll_type \<Rightarrow> nat \<Rightarrow> ((u32 \<Rightarrow> u32) \<times> nat) rockchip_clk_pll" where
  "sim_clk ty fails =
     \<lparr>ptype = ty, rate_table = Some [], rate_count = 0, sel = 0, scaling = 0, auto_table = blank_setting,
      pll_hw = ((\<lambda>_. 0)(0 := 0x1064, 4 := 0x41, 8 := 0x800000), fails), lock_offset = 0, lock_shift = 0,
      sync_rate = False, have_grf = True, boost_found = False, boost_enabled = False,
      boost_backup_pll_usage = 0, boost_backup_pll_rate = 0, boost_low_rate = 0, boost_high_rate = 0\<rparr>"

lemma bit_masked_write: "b < 16 \<Longrightarrow> bit (masked_write old v) b = (if bit v (b + 16) then bit v b else bit old b)"
  by (auto simp: masked_write_def bit_simps add.commute)

lemma sim_pll_law:
  assumes "\<And>i j. i < 4 \<Longrightarrow> F j \<noteq> {} \<Longrightarrow> i \<noteq> j \<Longrightarrow> con i \<noteq> con j"
    and "\<And>i. F i \<noteq> {} \<Longrightarrow> hi i \<longleftrightarrow> con i \<notin> plain" "\<And>i b. hi i \<Longrightarrow> b \<in> F i \<Longrightarrow> b < 16"
  shows "pll_law (sim_pll plain) con F hi"
  unfolding pll_law_def keeps_fields_def
proof (intro conjI allI ballI impI)
  fix h i v b assume b: "b \<in> F i"
  then have "F i \<noteq> {}" by blast
  with b show "bit (pll_read (sim_pll plain) (pll_write (sim_pll plain) h (con i) v) (con i)) b =
      (if hi i \<and> \<not> bit v (b + 16) then bit (pll_read (sim_pll plain) h (con i)) b else bit v b)"
    using assms(2) [of i] assms(3) [of i b] by (auto simp: sim_pll_def bit_masked_write)
next
  fix h v j i b assume b: "i < (4 :: nat)" "b \<in> F j" "i \<noteq> j"
  then have "F j \<noteq> {}" by blast
  with b show "bit (pll_read (sim_pll plain) (pll_write (sim_pll plain) h (con i) v) (con j)) b
      = bit (pll_read (sim_pll plain) h (con j)) b"
    using assms(1) [of i j] by (auto simp: sim_pll_def)
qed (simp_all add: sim_pll_def)

lemma four_cases: "i < 4 \<longleftrightarrow> i = 0 \<or> i = 1 \<or> i = 2 \<or> i = (3 :: nat)"
  by auto

lemma sim_pll_laws:
  "rk3036_law (sim_pll {8})" "rk3399_law (sim_pll {8})" "rk3066_law (sim_pll {})"
proof -
  have R: "rk3036_fields j \<noteq> {} \<Longrightarrow> j < 4" "rk3399_fields j \<noteq> {} \<Longrightarrow> j < 4" "rk3066_fields j \<noteq> {} \<Longrightarrow> j < 4" for j
    by (auto simp: rk3036_fields_def rk3399_fields_def rk3066_fields_def split: if_splits)
  show "rk3036_law (sim_pll {8})"
    unfolding rk3036_law_def
    by (rule sim_pll_law; (frule R)?) (auto simp: four_cases RK3036_PLLCON_def rk3036_fields_def split: if_splits)
  show "rk3399_law (sim_pll {8})"
    unfolding rk3399_law_def
    by (rule sim_pll_law; (frule R)?) (auto simp: four_cases RK3399_PLLCON_def rk3399_fields_def split: if_splits)
  show "rk3066_law (sim_pll {})"
    unfolding rk3066_law_def
    by (rule sim_pll_law; (frule R)?) (auto simp: four_cases RK3066_PLLCON_def rk3066_fields_def split: if_splits)
qed


lemma sim_attempts:
  "snd (pll_hw (fst (leave_pll (sim_pll S) d))) = snd (pll_hw d)"
  "snd (pll_hw (fst (rk3036_attempt (sim_pll S) r d))) = snd (pll_hw d) - 1"
  "snd (rk3036_attempt (sim_pll S) r d) \<longleftrightarrow> snd (pll_hw d) = 0"
  "snd (rk3066_attempt (sim_pll S) r d) \<longleftrightarrow> snd (pll_hw d) = 0"
proof -
  have "snd (rk3036_program (sim_pll S) r h) = snd h" "snd (rk3066_program (sim_pll S) r h) = snd h" for h
    by (simp_all add: rk3036_program_def rk3066_program_def sim_pll_def Let_def)
  moreover have "boost_write (sim_pll S) h a v = h" for h a v by (simp add: sim_pll_def)
  moreover have "pll_poll (sim_pll S) h a n = ((fst h, snd h - 1), snd h = 0)"
    "grf_poll (sim_pll S) h a n = ((fst h, snd h - 1), snd h = 0)" for h a n by (simp_all add: sim_pll_def)
  ultimately show "snd (pll_hw (fst (leave_pll (sim_pll S) d))) = snd (pll_hw d)"
    "snd (pll_hw (fst (rk3036_attempt (sim_pll S) r d))) = snd (pll_hw d) - 1"
    "snd (rk3036_attempt (sim_pll S) r d) \<longleftrightarrow> snd (pll_hw d) = 0"
    "snd (rk3066_attempt (sim_pll S) r d) \<longleftrightarrow> snd (pll_hw d) = 0"
    by (simp_all add: rk3036_attempt_def rk3066_attempt_def rockchip_boost_disable_low_def
        rockchip_rk3036_pll_wait_lock_def rockchip_pll_wait_lock_def)
      (simp add: leave_pll_def sim_pll_def)
qed

theorem rockchip_rk3036_pll_set_params_alternates_witness:
  "\<exists>d'. rockchip_rk3036_pll_set_params (sim_pll {8}) (blank_setting\<lparr>fbdiv := 50, refdiv := 1, postdiv1 := 1, postdiv2 := 1\<rparr>)
          (sim_clk pll_rk3036 2) = Some (d', Some ETIMEDOUT)
      \<and> fbdiv (rockchip_rk3036_pll_get_params (sim_pll {8}) (pll_hw d') blank_setting) = 50"
proof -
  let ?r = "blank_setting\<lparr>fbdiv := 50, refdiv := 1, postdiv1 := 1, postdiv2 := 1\<rparr>"
  let ?d = "sim_clk pll_rk3036 2"
  have fits: "fits ?r" by (simp add: fits_def blank_setting_def)
  have "snd (pll_hw ?d) = 2" by (simp add: sim_clk_def)
  then have "rk3036.locks (sim_pll {8}) (rk3036.call (sim_pll {8}) 2 ?r ?d)
    \<and> (\<forall>k < 2. \<not> rk3036.locks (sim_pll {8}) (rk3036.call (sim_pll {8}) k ?r ?d))"
    by (simp add: rk3036.locks_def numeral_2_eq_2 less_Suc_eq sim_attempts)
  from rockchip_rk3036_pll_set_params_alternates [OF sim_pll_laws(1) fits, THEN conjunct2, THEN spec, THEN mp, OF this]
  obtain d' e where d': "rockchip_rk3036_pll_set_params (sim_pll {8}) ?r ?d = Some (d', e)" "e \<noteq> None"
    "rockchip_rk3036_pll_get_params (sim_pll {8}) (pll_hw d') blank_setting = settings_of blank_setting ?r"
    by auto
  have "e = Some ETIMEDOUT"
    using d'(1,2) by (subst (asm) rk3036.unfold) (auto simp: Option.bind_eq_Some_conv split: prod.splits if_splits)
  with d' show ?thesis by (intro exI [of _ d']) (simp add: settings_of_def)
qed

lemma sim_set_rate:
  assumes "f \<noteq> XIN" "rockchip_pll_clk_set_by_auto blank_setting XIN f = Some (Some s)"
  shows "\<exists>d'. rockchip_rk3036_pll_set_rate (sim_pll {8}) f (sim_clk pll_rk3036 0) = Some (d', None)"
proof -
  let ?d = "sim_clk pll_rk3036 0"
  have "rockchip_get_pll_settings ?d f = Some (?d\<lparr>scaling := 0, auto_table := s\<rparr>, Some s)"
    using assms(2) by (intro get_pll_settings_miss [of _ "[]"]) (simp_all add: sim_clk_def)
  moreover have "rk3036.locks (sim_pll {8}) (s, ?d\<lparr>scaling := 0, auto_table := s\<rparr>)"
    by (simp add: rk3036.locks_def sim_attempts) (simp add: sim_clk_def)
  ultimately show ?thesis
    by (simp add: rockchip_rk3036_pll_set_rate_def rk3036.first_try)
qed

theorem rockchip_rk3036_pll_set_rate_recalc_witness:
  "\<exists>d'. rockchip_rk3036_pll_set_rate (sim_pll {8}) 816000000 (sim_clk pll_rk3036 0) = Some (d', None)
     \<and> rockchip_rk3036_pll_recalc_rate (sim_pll {8}) d' XIN = Some 816000000"
proof -
  have f: "(816000000 :: u64) \<noteq> XIN" "800000000 \<le> unat (816000000 :: u64) * 49" "unat (816000000 :: u64) < 4096000000"
    by (simp_all add: XIN_def pll_consts)
  obtain s where "rockchip_pll_clk_set_by_auto blank_setting XIN 816000000 = Some (Some s)"
    using auto_setting_found [OF f] by blast
  then obtain d' where d': "rockchip_rk3036_pll_set_rate (sim_pll {8}) 816000000 (sim_clk pll_rk3036 0) = Some (d', None)"
    using sim_set_rate [OF f(1)] by blast
  have "rate_table (sim_clk pll_rk3036 0) = Some []" "rate_count (sim_clk pll_rk3036 0) = length ([] :: rockchip_pll_rate_table list)"
    "\<forall>x \<in> set []. rate x \<noteq> 816000000" "ptype (sim_clk pll_rk3036 0) \<noteq> pll_rk3066" by (simp_all add: sim_clk_def)
  from rockchip_rk3036_pll_set_rate_recalc [OF sim_pll_laws(1) this f d'] d' show ?thesis by auto
qed

theorem rockchip_rk3036_pll_set_rate_low_witness:
  "\<exists>d'. rockchip_rk3036_pll_set_rate (sim_pll {8}) 12000000 (sim_clk pll_rk3036 0) = Some (d', None)
     \<and> rockchip_rk3036_pll_recalc_rate (sim_pll {8}) d' XIN = None"
proof -
  have f: "(12000000 :: u64) \<noteq> 0" "unat (12000000 :: u64) * 49 < 800000000" "(12000000 :: u64) \<noteq> XIN"
    by (simp_all add: XIN_def pll_consts)
  obtain d' where d': "rockchip_rk3036_pll_set_rate (sim_pll {8}) 12000000 (sim_clk pll_rk3036 0) = Some (d', None)"
    using sim_set_rate [OF f(3) set_by_auto_low [OF f(1,2)]] by blast
  have "rate_table (sim_clk pll_rk3036 0) = Some []" "rate_count (sim_clk pll_rk3036 0) = length ([] :: rockchip_pll_rate_table list)"
    "\<forall>x \<in> set []. rate x \<noteq> 12000000" "ptype (sim_clk pll_rk3036 0) \<noteq> pll_rk3066" by (simp_all add: sim_clk_def)
  from rockchip_rk3036_pll_set_rate_low [OF sim_pll_laws(1) this f(1,2) d'] d' show ?thesis by auto
qed


theorem rockchip_rk3066_pll_set_rate_recalc_witness:
  "\<exists>d'. rockchip_rk3066_pll_set_rate (sim_pll {}) EINVAL 600000000 XIN (sim_clk pll_rk3066 0) = Some (d', None)
     \<and> rockchip_rk3066_pll_recalc_rate (sim_pll {}) d' XIN = Some 600000000
     \<and> nb_field (rockchip_rk3066_pll_get_params (sim_pll {}) (pll_hw d') blank_setting) = 4096"
proof -
  let ?d = "sim_clk pll_rk3066 0"
  have f: "(600000000 :: u64) \<noteq> 0" "(600000000 :: u64) \<noteq> XIN" "unat (600000000 :: u64) < 2 ^ 32"
    by (simp_all add: XIN_def pll_consts)
  have v: "valid_setting (unat XIN) (unat (600000000 :: u64)) (1, 50, 2)" by (simp add: valid_setting_def)
  obtain s where s: "rockchip_rk3066_pll_clk_set_by_auto blank_setting XIN 600000000 = Some (Some s)"
    using rk3066_setting_found [OF f(1-3) v, of blank_setting] by blast
  have "rockchip_get_pll_settings ?d 600000000 = Some (?d\<lparr>scaling := 0, auto_table := s\<rparr>, Some s)"
    using s by (intro get_pll_settings_miss [of _ "[]"]) (simp_all add: sim_clk_def)
  moreover have "rk3066.locks (sim_pll {}) (s, ?d\<lparr>scaling := 0, auto_table := s\<rparr>)"
    by (simp add: rk3066.locks_def sim_attempts) (simp add: sim_clk_def)
  moreover have "\<exists>x. rockchip_rk3066_pll_recalc_rate (sim_pll {}) ?d XIN = Some x"
    by (simp add: rockchip_rk3066_pll_recalc_rate_def sim_clk_def sim_pll_def rockchip_rk3066_pll_get_params_def Let_def
        field_def rk3066_regs RK3066_PLLCON3_BYPASS_def do_div_u32)
  moreover have "have_grf ?d" by (simp add: sim_clk_def)
  ultimately obtain d' where d': "rockchip_rk3066_pll_set_rate (sim_pll {}) EINVAL 600000000 XIN ?d = Some (d', None)"
    by (auto simp: rockchip_rk3066_pll_set_rate_def rk3066.first_try)
  have t: "rate_table ?d = Some []" "rate_count ?d = length ([] :: rockchip_pll_rate_table list)"
    "\<forall>x \<in> set []. rate x \<noteq> 600000000" "ptype ?d = pll_rk3066" by (simp_all add: sim_clk_def)
  have byp: "pll_read (sim_pll {}) (pll_hw ?d) (RK3066_PLLCON 3) AND RK3066_PLLCON3_BYPASS = 0"
    by (simp add: sim_pll_def sim_clk_def rk3066_regs)
  have "nb_field (auto_table ?d) = 0" by (simp add: sim_clk_def blank_setting_def)
  then show ?thesis
    using rockchip_rk3066_pll_set_rate_recalc [OF sim_pll_laws(3) t f(1-3) v byp d'] d' by blast
qed

theorem rockchip_pll_clk_compensation_frac_witness:
  "\<exists>d'. rockchip_pll_clk_compensation (sim_pll {8}) (0, 0) (Some (sim_clk pll_rk3036 0)) 100
       = ((0x800000, 0x64), Some d', None)
     \<and> unat (frac (rockchip_rk3036_pll_get_params (sim_pll {8}) (pll_hw d') blank_setting)) < 2 ^ 24"
proof -
  let ?d = "sim_clk pll_rk3036 0"
  have ty: "ptype ?d = pll_rk3036 \<or> ptype ?d = pll_rk3328" by (simp add: sim_clk_def)
  obtain d' where d': "rockchip_pll_clk_compensation (sim_pll {8}) (0, 0) (Some ?d) 100 = ((0x800000, 0x64), Some d', None)"
    by (simp add: rockchip_pll_clk_compensation_def sim_clk_def sim_pll_def rk3036_regs Let_def)
  have small: "fst (0, 0) < (2 ^ 24 :: u32)" "snd (0, 0) < (2 ^ 12 :: u32)" by simp_all
  obtain D where D: "unat (0x800000 :: u32) + D < 2 ^ 24"
    "rockchip_rk3036_pll_get_params (sim_pll {8}) (pll_hw d') blank_setting
       = (rockchip_rk3036_pll_get_params (sim_pll {8}) (pll_hw ?d) blank_setting)
          \<lparr>frac := of_nat (unat (0x800000 :: u32) + D)\<rparr>"
    using rockchip_pll_clk_compensation_frac [OF sim_pll_laws(1) ty d' small] by auto
  have "unat (of_nat (unat (0x800000 :: u32) + D) :: u32) < 2 ^ 24"
    using D(1) by (subst unat_of_nat_small) simp_all
  with d' D(2) show ?thesis by simp
qed

theorem rockchip_clk_register_pll_result_witness:
  "\<exists>log res. rockchip_clk_register_pll \<lparr>pll_kzalloc_ok = True, mux_clk_error = None, kmemdup_ok = True,
       pll_clk_error = Some ENOMEM, env_grf_ok = True\<rparr> pll_rk3036 2 (Some [blank_setting\<lparr>rate := 5\<rparr>, blank_setting])
     = Some (log, Inl res) \<and> log = [Rate_table]"
proof -
  let ?tab = "[blank_setting\<lparr>rate := 5\<rparr>, blank_setting]"
  let ?env = "\<lparr>pll_kzalloc_ok = True, mux_clk_error = None, kmemdup_ok = True, pll_clk_error = Some ENOMEM, env_grf_ok = True\<rparr>"
  have "\<exists>x \<in> set ?tab. rate x = 0" by (simp add: blank_setting_def)
  note w = rockchip_clk_register_pll_result [OF this, of ?env pll_rk3036 2]
  have "rockchip_clk_register_pll ?env pll_rk3036 2 (Some ?tab) = Some ([Rate_table], Inl ENOMEM)"
    by (simp add: rockchip_clk_register_pll_def blank_setting_def Let_def)
  with w show ?thesis by (elim exE conjE) simp
qed

end
