(* ===== verification/Clk_Chips.thy ===== *)
theory Clk_Chips
  imports Clk_Cpu Pll_Props
begin

text \<open>
  The clocks of the cores of the chips, \<open>clk-px30.c\<close> to \<open>clk-rv1108.c\<close> in \<open>common/sdk_linux/drivers/clk/rockchip\<close>
  and \<open>common/vendor/drivers/clk/clk-rk1808.c\<close>: for each the fields of its registers and the settings of the other
  dividers for each rate, with which the change of a rate is safe. Entries the source leaves out are zero, and a
  setting of the register 0 is skipped. The RK3568 and the RK3588, with files of their own, are left out.
\<close>

section \<open>The registers\<close>

definition PX30_CLKSEL_CON :: "nat \<Rightarrow> u32" where "PX30_CLKSEL_CON x = of_nat x * 0x4 + 0x100"
definition RK1808_CLKSEL_CON :: "nat \<Rightarrow> u32" where "RK1808_CLKSEL_CON x = of_nat x * 0x4 + 0x100"
definition RK2928_CLKSEL_CON :: "nat \<Rightarrow> u32" where "RK2928_CLKSEL_CON x = of_nat x * 0x4 + 0x44"
definition RK3288_CLKSEL_CON :: "nat \<Rightarrow> u32" where "RK3288_CLKSEL_CON x = of_nat x * 0x4 + 0x60"
definition RK3308_CLKSEL_CON :: "nat \<Rightarrow> u32" where "RK3308_CLKSEL_CON x = of_nat x * 0x4 + 0x100"
definition RK3328_CLKSEL_CON :: "nat \<Rightarrow> u32" where "RK3328_CLKSEL_CON x = of_nat x * 0x4 + 0x100"
definition RK3368_CLKSEL_CON :: "nat \<Rightarrow> u32" where "RK3368_CLKSEL_CON x = of_nat x * 0x4 + 0x100"
definition RK3399_CLKSEL_CON :: "nat \<Rightarrow> u32" where "RK3399_CLKSEL_CON x = of_nat x * 0x4 + 0x100"
definition RV1108_CLKSEL_CON :: "nat \<Rightarrow> u32" where "RV1108_CLKSEL_CON x = of_nat x * 0x4 + 0x60"

section \<open>The PX30\<close>

definition PX30_DIV_ACLKM_MASK :: u32 where "PX30_DIV_ACLKM_MASK = 0x7"
definition PX30_DIV_ACLKM_SHIFT :: nat where "PX30_DIV_ACLKM_SHIFT = 12"
definition PX30_DIV_PCLK_DBG_MASK :: u32 where "PX30_DIV_PCLK_DBG_MASK = 0xf"
definition PX30_DIV_PCLK_DBG_SHIFT :: nat where "PX30_DIV_PCLK_DBG_SHIFT = 8"

definition PX30_CLKSEL0 :: "u32 \<Rightarrow> u32 \<Rightarrow> rockchip_cpuclk_clksel" where
  "PX30_CLKSEL0 aclk_core pclk_dbg = \<lparr>clksel_reg = PX30_CLKSEL_CON (0), clksel_val = HIWORD_UPDATE aclk_core PX30_DIV_ACLKM_MASK PX30_DIV_ACLKM_SHIFT OR HIWORD_UPDATE pclk_dbg PX30_DIV_PCLK_DBG_MASK PX30_DIV_PCLK_DBG_SHIFT\<rparr>"

definition PX30_CPUCLK_RATE :: "u64 \<Rightarrow> u32 \<Rightarrow> u32 \<Rightarrow> rockchip_cpuclk_rate_table" where
  "PX30_CPUCLK_RATE prate aclk_core pclk_dbg = \<lparr>cpu_prate = prate, cpu_divs = [PX30_CLKSEL0 aclk_core pclk_dbg]\<rparr>"

definition px30_cpuclk_rates :: "rockchip_cpuclk_rate_table list" where
  "px30_cpuclk_rates = [
    PX30_CPUCLK_RATE 1608000000 1 7, PX30_CPUCLK_RATE 1584000000 1 7, PX30_CPUCLK_RATE 1560000000 1 7,
    PX30_CPUCLK_RATE 1536000000 1 7, PX30_CPUCLK_RATE 1512000000 1 7, PX30_CPUCLK_RATE 1488000000 1 5,
    PX30_CPUCLK_RATE 1464000000 1 5, PX30_CPUCLK_RATE 1440000000 1 5, PX30_CPUCLK_RATE 1416000000 1 5,
    PX30_CPUCLK_RATE 1392000000 1 5, PX30_CPUCLK_RATE 1368000000 1 5, PX30_CPUCLK_RATE 1344000000 1 5,
    PX30_CPUCLK_RATE 1320000000 1 5, PX30_CPUCLK_RATE 1296000000 1 5, PX30_CPUCLK_RATE 1272000000 1 5,
    PX30_CPUCLK_RATE 1248000000 1 5, PX30_CPUCLK_RATE 1224000000 1 5, PX30_CPUCLK_RATE 1200000000 1 5,
    PX30_CPUCLK_RATE 1104000000 1 5, PX30_CPUCLK_RATE 1008000000 1 5, PX30_CPUCLK_RATE 912000000 1 5,
    PX30_CPUCLK_RATE 816000000 1 3, PX30_CPUCLK_RATE 696000000 1 3, PX30_CPUCLK_RATE 600000000 1 3,
    PX30_CPUCLK_RATE 408000000 1 1, PX30_CPUCLK_RATE 312000000 1 1, PX30_CPUCLK_RATE 216000000 1 1,
    PX30_CPUCLK_RATE 96000000 1 1]"

definition px30_cpuclk_data :: rockchip_cpuclk_reg_data where
  "px30_cpuclk_data = \<lparr>core_reg = [PX30_CLKSEL_CON 0], div_core_shift = [0], div_core_mask = [0xf], num_cores = 1, mux_core_alt = 1,
     mux_core_main = 0, mux_core_shift = 7, mux_core_mask = 0x1, pll_name = Some ''pll_apll''\<rparr>"

section \<open>The RK1808\<close>

definition RK1808_DIV_ACLKM_MASK :: u32 where "RK1808_DIV_ACLKM_MASK = 0x7"
definition RK1808_DIV_ACLKM_SHIFT :: nat where "RK1808_DIV_ACLKM_SHIFT = 12"
definition RK1808_DIV_PCLK_DBG_MASK :: u32 where "RK1808_DIV_PCLK_DBG_MASK = 0xf"
definition RK1808_DIV_PCLK_DBG_SHIFT :: nat where "RK1808_DIV_PCLK_DBG_SHIFT = 8"

definition RK1808_CLKSEL0 :: "u32 \<Rightarrow> u32 \<Rightarrow> rockchip_cpuclk_clksel" where
  "RK1808_CLKSEL0 aclk_core pclk_dbg = \<lparr>clksel_reg = RK1808_CLKSEL_CON (0), clksel_val = HIWORD_UPDATE aclk_core RK1808_DIV_ACLKM_MASK RK1808_DIV_ACLKM_SHIFT OR HIWORD_UPDATE pclk_dbg RK1808_DIV_PCLK_DBG_MASK RK1808_DIV_PCLK_DBG_SHIFT\<rparr>"

definition RK1808_CPUCLK_RATE :: "u64 \<Rightarrow> u32 \<Rightarrow> u32 \<Rightarrow> rockchip_cpuclk_rate_table" where
  "RK1808_CPUCLK_RATE prate aclk_core pclk_dbg = \<lparr>cpu_prate = prate, cpu_divs = [RK1808_CLKSEL0 aclk_core pclk_dbg]\<rparr>"

definition rk1808_cpuclk_rates :: "rockchip_cpuclk_rate_table list" where
  "rk1808_cpuclk_rates = [
    RK1808_CPUCLK_RATE 1608000000 1 7, RK1808_CPUCLK_RATE 1512000000 1 7, RK1808_CPUCLK_RATE 1488000000 1 5,
    RK1808_CPUCLK_RATE 1416000000 1 5, RK1808_CPUCLK_RATE 1392000000 1 5, RK1808_CPUCLK_RATE 1296000000 1 5,
    RK1808_CPUCLK_RATE 1200000000 1 5, RK1808_CPUCLK_RATE 1104000000 1 5, RK1808_CPUCLK_RATE 1008000000 1 5,
    RK1808_CPUCLK_RATE 912000000 1 5, RK1808_CPUCLK_RATE 816000000 1 3, RK1808_CPUCLK_RATE 696000000 1 3,
    RK1808_CPUCLK_RATE 600000000 1 3, RK1808_CPUCLK_RATE 408000000 1 1, RK1808_CPUCLK_RATE 312000000 1 1,
    RK1808_CPUCLK_RATE 216000000 1 1, RK1808_CPUCLK_RATE 96000000 1 1]"

definition rk1808_cpuclk_data :: rockchip_cpuclk_reg_data where
  "rk1808_cpuclk_data = \<lparr>core_reg = [RK1808_CLKSEL_CON 0], div_core_shift = [0], div_core_mask = [0xf], num_cores = 1, mux_core_alt = 2,
     mux_core_main = 0, mux_core_shift = 6, mux_core_mask = 0x3, pll_name = None\<rparr>"

section \<open>The RK3036\<close>

definition RK3036_DIV_PERI_MASK :: u32 where "RK3036_DIV_PERI_MASK = 0xf"
definition RK3036_DIV_PERI_SHIFT :: nat where "RK3036_DIV_PERI_SHIFT = 0"

definition RK3036_CLKSEL1 :: "u32 \<Rightarrow> rockchip_cpuclk_clksel" where
  "RK3036_CLKSEL1 core_periph_div = \<lparr>clksel_reg = RK2928_CLKSEL_CON (1), clksel_val = HIWORD_UPDATE core_periph_div RK3036_DIV_PERI_MASK RK3036_DIV_PERI_SHIFT\<rparr>"

definition RK3036_CPUCLK_RATE :: "u64 \<Rightarrow> u32 \<Rightarrow> rockchip_cpuclk_rate_table" where
  "RK3036_CPUCLK_RATE prate core_periph_div = \<lparr>cpu_prate = prate, cpu_divs = [RK3036_CLKSEL1 core_periph_div]\<rparr>"

definition rk3036_cpuclk_rates :: "rockchip_cpuclk_rate_table list" where
  "rk3036_cpuclk_rates = [
    RK3036_CPUCLK_RATE 1200000000 4, RK3036_CPUCLK_RATE 1008000000 4, RK3036_CPUCLK_RATE 816000000 4,
    RK3036_CPUCLK_RATE 600000000 4, RK3036_CPUCLK_RATE 408000000 4, RK3036_CPUCLK_RATE 312000000 4]"

definition rk3036_cpuclk_data :: rockchip_cpuclk_reg_data where
  "rk3036_cpuclk_data = \<lparr>core_reg = [RK2928_CLKSEL_CON 0], div_core_shift = [0], div_core_mask = [0x1f], num_cores = 1, mux_core_alt = 1,
     mux_core_main = 0, mux_core_shift = 7, mux_core_mask = 0x1, pll_name = None\<rparr>"

section \<open>The RK3128\<close>

definition RK3128_DIV_PERI_MASK :: u32 where "RK3128_DIV_PERI_MASK = 0xf"
definition RK3128_DIV_PERI_SHIFT :: nat where "RK3128_DIV_PERI_SHIFT = 0"
definition RK3128_DIV_ACLK_MASK :: u32 where "RK3128_DIV_ACLK_MASK = 0x7"
definition RK3128_DIV_ACLK_SHIFT :: nat where "RK3128_DIV_ACLK_SHIFT = 4"

definition RK3128_CLKSEL1 :: "u32 \<Rightarrow> u32 \<Rightarrow> rockchip_cpuclk_clksel" where
  "RK3128_CLKSEL1 core_aclk_div pclk_dbg_div = \<lparr>clksel_reg = RK2928_CLKSEL_CON (1), clksel_val = HIWORD_UPDATE pclk_dbg_div RK3128_DIV_PERI_MASK RK3128_DIV_PERI_SHIFT OR HIWORD_UPDATE core_aclk_div RK3128_DIV_ACLK_MASK RK3128_DIV_ACLK_SHIFT\<rparr>"

definition RK3128_CPUCLK_RATE :: "u64 \<Rightarrow> u32 \<Rightarrow> u32 \<Rightarrow> rockchip_cpuclk_rate_table" where
  "RK3128_CPUCLK_RATE prate core_aclk_div pclk_dbg_div = \<lparr>cpu_prate = prate, cpu_divs = [RK3128_CLKSEL1 core_aclk_div pclk_dbg_div]\<rparr>"

definition rk3128_cpuclk_rates :: "rockchip_cpuclk_rate_table list" where
  "rk3128_cpuclk_rates = [
    RK3128_CPUCLK_RATE 1800000000 1 7, RK3128_CPUCLK_RATE 1704000000 1 7, RK3128_CPUCLK_RATE 1608000000 1 7,
    RK3128_CPUCLK_RATE 1512000000 1 7, RK3128_CPUCLK_RATE 1488000000 1 5, RK3128_CPUCLK_RATE 1416000000 1 5,
    RK3128_CPUCLK_RATE 1392000000 1 5, RK3128_CPUCLK_RATE 1296000000 1 5, RK3128_CPUCLK_RATE 1200000000 1 5,
    RK3128_CPUCLK_RATE 1104000000 1 5, RK3128_CPUCLK_RATE 1008000000 1 5, RK3128_CPUCLK_RATE 912000000 1 5,
    RK3128_CPUCLK_RATE 816000000 1 3, RK3128_CPUCLK_RATE 696000000 1 3, RK3128_CPUCLK_RATE 600000000 1 3,
    RK3128_CPUCLK_RATE 408000000 1 1, RK3128_CPUCLK_RATE 312000000 1 1, RK3128_CPUCLK_RATE 216000000 1 1,
    RK3128_CPUCLK_RATE 96000000 1 1]"

definition rk3128_cpuclk_data :: rockchip_cpuclk_reg_data where
  "rk3128_cpuclk_data = \<lparr>core_reg = [RK2928_CLKSEL_CON 0], div_core_shift = [0], div_core_mask = [0x1f], num_cores = 1, mux_core_alt = 1,
     mux_core_main = 0, mux_core_shift = 7, mux_core_mask = 0x1, pll_name = None\<rparr>"

section \<open>The RK3188\<close>

definition RK3066_DIV_CORE_PERIPH_MASK :: u32 where "RK3066_DIV_CORE_PERIPH_MASK = 0x3"
definition RK3066_DIV_CORE_PERIPH_SHIFT :: nat where "RK3066_DIV_CORE_PERIPH_SHIFT = 6"
definition RK3066_DIV_ACLK_CORE_MASK :: u32 where "RK3066_DIV_ACLK_CORE_MASK = 0x7"
definition RK3066_DIV_ACLK_CORE_SHIFT :: nat where "RK3066_DIV_ACLK_CORE_SHIFT = 0"
definition RK3066_DIV_ACLK_HCLK_MASK :: u32 where "RK3066_DIV_ACLK_HCLK_MASK = 0x3"
definition RK3066_DIV_ACLK_HCLK_SHIFT :: nat where "RK3066_DIV_ACLK_HCLK_SHIFT = 8"
definition RK3066_DIV_ACLK_PCLK_MASK :: u32 where "RK3066_DIV_ACLK_PCLK_MASK = 0x3"
definition RK3066_DIV_ACLK_PCLK_SHIFT :: nat where "RK3066_DIV_ACLK_PCLK_SHIFT = 12"
definition RK3066_DIV_AHB2APB_MASK :: u32 where "RK3066_DIV_AHB2APB_MASK = 0x3"
definition RK3066_DIV_AHB2APB_SHIFT :: nat where "RK3066_DIV_AHB2APB_SHIFT = 14"
definition RK3188_DIV_ACLK_CORE_MASK :: u32 where "RK3188_DIV_ACLK_CORE_MASK = 0x7"
definition RK3188_DIV_ACLK_CORE_SHIFT :: nat where "RK3188_DIV_ACLK_CORE_SHIFT = 3"

definition RK3066_CLKSEL0 :: "u32 \<Rightarrow> rockchip_cpuclk_clksel" where
  "RK3066_CLKSEL0 core_peri = \<lparr>clksel_reg = RK2928_CLKSEL_CON (0), clksel_val = HIWORD_UPDATE core_peri RK3066_DIV_CORE_PERIPH_MASK RK3066_DIV_CORE_PERIPH_SHIFT\<rparr>"

definition RK3066_CLKSEL1 :: "u32 \<Rightarrow> u32 \<Rightarrow> u32 \<Rightarrow> u32 \<Rightarrow> rockchip_cpuclk_clksel" where
  "RK3066_CLKSEL1 aclk_core aclk_hclk aclk_pclk ahb2apb = \<lparr>clksel_reg = RK2928_CLKSEL_CON (1), clksel_val = HIWORD_UPDATE aclk_core RK3066_DIV_ACLK_CORE_MASK RK3066_DIV_ACLK_CORE_SHIFT OR HIWORD_UPDATE aclk_hclk RK3066_DIV_ACLK_HCLK_MASK RK3066_DIV_ACLK_HCLK_SHIFT OR HIWORD_UPDATE aclk_pclk RK3066_DIV_ACLK_PCLK_MASK RK3066_DIV_ACLK_PCLK_SHIFT OR HIWORD_UPDATE ahb2apb RK3066_DIV_AHB2APB_MASK RK3066_DIV_AHB2APB_SHIFT\<rparr>"

definition RK3188_CLKSEL1 :: "u32 \<Rightarrow> rockchip_cpuclk_clksel" where
  "RK3188_CLKSEL1 aclk_core = \<lparr>clksel_reg = RK2928_CLKSEL_CON (1), clksel_val = HIWORD_UPDATE aclk_core RK3188_DIV_ACLK_CORE_MASK RK3188_DIV_ACLK_CORE_SHIFT\<rparr>"

definition RK3066_CPUCLK_RATE :: "u64 \<Rightarrow> u32 \<Rightarrow> u32 \<Rightarrow> u32 \<Rightarrow> u32 \<Rightarrow> u32 \<Rightarrow> rockchip_cpuclk_rate_table" where
  "RK3066_CPUCLK_RATE prate core_peri acore ahclk apclk h2p = \<lparr>cpu_prate = prate, cpu_divs = [RK3066_CLKSEL0 core_peri, RK3066_CLKSEL1 acore ahclk apclk h2p]\<rparr>"

definition RK3188_CPUCLK_RATE :: "u64 \<Rightarrow> u32 \<Rightarrow> u32 \<Rightarrow> rockchip_cpuclk_rate_table" where
  "RK3188_CPUCLK_RATE prate core_peri aclk_core = \<lparr>cpu_prate = prate, cpu_divs = [RK3066_CLKSEL0 core_peri, RK3188_CLKSEL1 aclk_core]\<rparr>"

definition rk3066_cpuclk_rates :: "rockchip_cpuclk_rate_table list" where
  "rk3066_cpuclk_rates = [
    RK3066_CPUCLK_RATE 1416000000 2 3 1 2 1, RK3066_CPUCLK_RATE 1200000000 2 3 1 2 1,
    RK3066_CPUCLK_RATE 1008000000 2 2 1 2 1, RK3066_CPUCLK_RATE 816000000 2 2 1 2 1,
    RK3066_CPUCLK_RATE 600000000 1 2 1 2 1, RK3066_CPUCLK_RATE 504000000 1 1 1 2 1,
    RK3066_CPUCLK_RATE 312000000 0 1 1 1 0]"

definition rk3188_cpuclk_rates :: "rockchip_cpuclk_rate_table list" where
  "rk3188_cpuclk_rates = [
    RK3188_CPUCLK_RATE 1608000000 2 3, RK3188_CPUCLK_RATE 1416000000 2 3, RK3188_CPUCLK_RATE 1200000000 2 3,
    RK3188_CPUCLK_RATE 1008000000 2 3, RK3188_CPUCLK_RATE 816000000 2 3, RK3188_CPUCLK_RATE 600000000 1 3,
    RK3188_CPUCLK_RATE 504000000 1 3, RK3188_CPUCLK_RATE 312000000 0 1]"

definition rk3066_cpuclk_data :: rockchip_cpuclk_reg_data where
  "rk3066_cpuclk_data = \<lparr>core_reg = [RK2928_CLKSEL_CON 0], div_core_shift = [0], div_core_mask = [0x1f], num_cores = 1, mux_core_alt = 1,
     mux_core_main = 0, mux_core_shift = 8, mux_core_mask = 0x1, pll_name = None\<rparr>"

definition rk3188_cpuclk_data :: rockchip_cpuclk_reg_data where
  "rk3188_cpuclk_data = \<lparr>core_reg = [RK2928_CLKSEL_CON 0], div_core_shift = [9], div_core_mask = [0x1f], num_cores = 1, mux_core_alt = 1,
     mux_core_main = 0, mux_core_shift = 8, mux_core_mask = 0x1, pll_name = None\<rparr>"

section \<open>The RK3228\<close>

definition RK3228_DIV_PERI_MASK :: u32 where "RK3228_DIV_PERI_MASK = 0xf"
definition RK3228_DIV_PERI_SHIFT :: nat where "RK3228_DIV_PERI_SHIFT = 0"
definition RK3228_DIV_ACLK_MASK :: u32 where "RK3228_DIV_ACLK_MASK = 0x7"
definition RK3228_DIV_ACLK_SHIFT :: nat where "RK3228_DIV_ACLK_SHIFT = 4"

definition RK3228_CLKSEL1 :: "u32 \<Rightarrow> u32 \<Rightarrow> rockchip_cpuclk_clksel" where
  "RK3228_CLKSEL1 core_aclk_div core_peri_div = \<lparr>clksel_reg = RK2928_CLKSEL_CON (1), clksel_val = HIWORD_UPDATE core_peri_div RK3228_DIV_PERI_MASK RK3228_DIV_PERI_SHIFT OR HIWORD_UPDATE core_aclk_div RK3228_DIV_ACLK_MASK RK3228_DIV_ACLK_SHIFT\<rparr>"

definition RK3228_CPUCLK_RATE :: "u64 \<Rightarrow> u32 \<Rightarrow> u32 \<Rightarrow> rockchip_cpuclk_rate_table" where
  "RK3228_CPUCLK_RATE prate core_aclk_div core_peri_div = \<lparr>cpu_prate = prate, cpu_divs = [RK3228_CLKSEL1 core_aclk_div core_peri_div]\<rparr>"

definition rk3228_cpuclk_rates :: "rockchip_cpuclk_rate_table list" where
  "rk3228_cpuclk_rates = [
    RK3228_CPUCLK_RATE 1800000000 1 7, RK3228_CPUCLK_RATE 1704000000 1 7, RK3228_CPUCLK_RATE 1608000000 1 7,
    RK3228_CPUCLK_RATE 1512000000 1 7, RK3228_CPUCLK_RATE 1488000000 1 5, RK3228_CPUCLK_RATE 1464000000 1 5,
    RK3228_CPUCLK_RATE 1416000000 1 5, RK3228_CPUCLK_RATE 1392000000 1 5, RK3228_CPUCLK_RATE 1296000000 1 5,
    RK3228_CPUCLK_RATE 1200000000 1 5, RK3228_CPUCLK_RATE 1104000000 1 5, RK3228_CPUCLK_RATE 1008000000 1 5,
    RK3228_CPUCLK_RATE 912000000 1 5, RK3228_CPUCLK_RATE 816000000 1 3, RK3228_CPUCLK_RATE 696000000 1 3,
    RK3228_CPUCLK_RATE 600000000 1 3, RK3228_CPUCLK_RATE 408000000 1 1, RK3228_CPUCLK_RATE 312000000 1 1,
    RK3228_CPUCLK_RATE 216000000 1 1, RK3228_CPUCLK_RATE 96000000 1 1]"

definition rk3228_cpuclk_data :: rockchip_cpuclk_reg_data where
  "rk3228_cpuclk_data = \<lparr>core_reg = [RK2928_CLKSEL_CON 0], div_core_shift = [0], div_core_mask = [0x1f], num_cores = 1, mux_core_alt = 1,
     mux_core_main = 0, mux_core_shift = 6, mux_core_mask = 0x1, pll_name = None\<rparr>"

section \<open>The RK3288\<close>

definition RK3288_DIV_ACLK_CORE_M0_MASK :: u32 where "RK3288_DIV_ACLK_CORE_M0_MASK = 0xf"
definition RK3288_DIV_ACLK_CORE_M0_SHIFT :: nat where "RK3288_DIV_ACLK_CORE_M0_SHIFT = 0"
definition RK3288_DIV_ACLK_CORE_MP_MASK :: u32 where "RK3288_DIV_ACLK_CORE_MP_MASK = 0xf"
definition RK3288_DIV_ACLK_CORE_MP_SHIFT :: nat where "RK3288_DIV_ACLK_CORE_MP_SHIFT = 4"
definition RK3288_DIV_L2RAM_MASK :: u32 where "RK3288_DIV_L2RAM_MASK = 0x7"
definition RK3288_DIV_L2RAM_SHIFT :: nat where "RK3288_DIV_L2RAM_SHIFT = 0"
definition RK3288_DIV_ATCLK_MASK :: u32 where "RK3288_DIV_ATCLK_MASK = 0x1f"
definition RK3288_DIV_ATCLK_SHIFT :: nat where "RK3288_DIV_ATCLK_SHIFT = 4"
definition RK3288_DIV_PCLK_DBGPRE_MASK :: u32 where "RK3288_DIV_PCLK_DBGPRE_MASK = 0x1f"
definition RK3288_DIV_PCLK_DBGPRE_SHIFT :: nat where "RK3288_DIV_PCLK_DBGPRE_SHIFT = 9"

definition RK3288_CLKSEL0 :: "u32 \<Rightarrow> u32 \<Rightarrow> rockchip_cpuclk_clksel" where
  "RK3288_CLKSEL0 core_m0 core_mp = \<lparr>clksel_reg = RK3288_CLKSEL_CON (0), clksel_val = HIWORD_UPDATE core_m0 RK3288_DIV_ACLK_CORE_M0_MASK RK3288_DIV_ACLK_CORE_M0_SHIFT OR HIWORD_UPDATE core_mp RK3288_DIV_ACLK_CORE_MP_MASK RK3288_DIV_ACLK_CORE_MP_SHIFT\<rparr>"

definition RK3288_CLKSEL37 :: "u32 \<Rightarrow> u32 \<Rightarrow> u32 \<Rightarrow> rockchip_cpuclk_clksel" where
  "RK3288_CLKSEL37 l2ram atclk pclk_dbg_pre = \<lparr>clksel_reg = RK3288_CLKSEL_CON (37), clksel_val = HIWORD_UPDATE l2ram RK3288_DIV_L2RAM_MASK RK3288_DIV_L2RAM_SHIFT OR HIWORD_UPDATE atclk RK3288_DIV_ATCLK_MASK RK3288_DIV_ATCLK_SHIFT OR HIWORD_UPDATE pclk_dbg_pre RK3288_DIV_PCLK_DBGPRE_MASK RK3288_DIV_PCLK_DBGPRE_SHIFT\<rparr>"

definition RK3288_CPUCLK_RATE :: "u64 \<Rightarrow> u32 \<Rightarrow> u32 \<Rightarrow> u32 \<Rightarrow> u32 \<Rightarrow> u32 \<Rightarrow> rockchip_cpuclk_rate_table" where
  "RK3288_CPUCLK_RATE prate core_m0 core_mp l2ram atclk pdbg = \<lparr>cpu_prate = prate, cpu_divs = [RK3288_CLKSEL0 core_m0 core_mp, RK3288_CLKSEL37 l2ram atclk pdbg]\<rparr>"

definition rk3288_cpuclk_rates :: "rockchip_cpuclk_rate_table list" where
  "rk3288_cpuclk_rates = [
    RK3288_CPUCLK_RATE 1800000000 1 3 1 3 3, RK3288_CPUCLK_RATE 1704000000 1 3 1 3 3,
    RK3288_CPUCLK_RATE 1608000000 1 3 1 3 3, RK3288_CPUCLK_RATE 1512000000 1 3 1 3 3,
    RK3288_CPUCLK_RATE 1416000000 1 3 1 3 3, RK3288_CPUCLK_RATE 1200000000 1 3 1 3 3,
    RK3288_CPUCLK_RATE 1008000000 1 3 1 3 3, RK3288_CPUCLK_RATE 816000000 1 3 1 3 3,
    RK3288_CPUCLK_RATE 696000000 1 3 1 3 3, RK3288_CPUCLK_RATE 600000000 1 3 1 3 3,
    RK3288_CPUCLK_RATE 408000000 1 3 1 3 3, RK3288_CPUCLK_RATE 312000000 1 3 1 3 3,
    RK3288_CPUCLK_RATE 216000000 1 3 1 3 3, RK3288_CPUCLK_RATE 126000000 1 3 1 3 3]"

definition rk3288_cpuclk_data :: rockchip_cpuclk_reg_data where
  "rk3288_cpuclk_data = \<lparr>core_reg = [RK3288_CLKSEL_CON 0], div_core_shift = [8], div_core_mask = [0x1f], num_cores = 1, mux_core_alt = 1,
     mux_core_main = 0, mux_core_shift = 15, mux_core_mask = 0x1, pll_name = None\<rparr>"

section \<open>The RK3308\<close>

definition RK3308_DIV_ACLKM_MASK :: u32 where "RK3308_DIV_ACLKM_MASK = 0x7"
definition RK3308_DIV_ACLKM_SHIFT :: nat where "RK3308_DIV_ACLKM_SHIFT = 12"
definition RK3308_DIV_PCLK_DBG_MASK :: u32 where "RK3308_DIV_PCLK_DBG_MASK = 0xf"
definition RK3308_DIV_PCLK_DBG_SHIFT :: nat where "RK3308_DIV_PCLK_DBG_SHIFT = 8"

definition RK3308_CLKSEL0 :: "u32 \<Rightarrow> u32 \<Rightarrow> rockchip_cpuclk_clksel" where
  "RK3308_CLKSEL0 aclk_core pclk_dbg = \<lparr>clksel_reg = RK3308_CLKSEL_CON (0), clksel_val = HIWORD_UPDATE aclk_core RK3308_DIV_ACLKM_MASK RK3308_DIV_ACLKM_SHIFT OR HIWORD_UPDATE pclk_dbg RK3308_DIV_PCLK_DBG_MASK RK3308_DIV_PCLK_DBG_SHIFT\<rparr>"

definition RK3308_CPUCLK_RATE :: "u64 \<Rightarrow> u32 \<Rightarrow> u32 \<Rightarrow> rockchip_cpuclk_rate_table" where
  "RK3308_CPUCLK_RATE prate aclk_core pclk_dbg = \<lparr>cpu_prate = prate, cpu_divs = [RK3308_CLKSEL0 aclk_core pclk_dbg]\<rparr>"

definition rk3308_cpuclk_rates :: "rockchip_cpuclk_rate_table list" where
  "rk3308_cpuclk_rates = [
    RK3308_CPUCLK_RATE 1608000000 1 7, RK3308_CPUCLK_RATE 1512000000 1 7, RK3308_CPUCLK_RATE 1488000000 1 5,
    RK3308_CPUCLK_RATE 1416000000 1 5, RK3308_CPUCLK_RATE 1392000000 1 5, RK3308_CPUCLK_RATE 1296000000 1 5,
    RK3308_CPUCLK_RATE 1200000000 1 5, RK3308_CPUCLK_RATE 1104000000 1 5, RK3308_CPUCLK_RATE 1008000000 1 5,
    RK3308_CPUCLK_RATE 912000000 1 5, RK3308_CPUCLK_RATE 816000000 1 3, RK3308_CPUCLK_RATE 696000000 1 3,
    RK3308_CPUCLK_RATE 600000000 1 3, RK3308_CPUCLK_RATE 408000000 1 1, RK3308_CPUCLK_RATE 312000000 1 1,
    RK3308_CPUCLK_RATE 216000000 1 1, RK3308_CPUCLK_RATE 96000000 1 1]"

definition rk3308_cpuclk_data :: rockchip_cpuclk_reg_data where
  "rk3308_cpuclk_data = \<lparr>core_reg = [RK3308_CLKSEL_CON 0], div_core_shift = [0], div_core_mask = [0xf], num_cores = 1, mux_core_alt = 1,
     mux_core_main = 0, mux_core_shift = 6, mux_core_mask = 0x3, pll_name = None\<rparr>"

section \<open>The RK3328\<close>

definition RK3328_DIV_ACLKM_MASK :: u32 where "RK3328_DIV_ACLKM_MASK = 0x7"
definition RK3328_DIV_ACLKM_SHIFT :: nat where "RK3328_DIV_ACLKM_SHIFT = 4"
definition RK3328_DIV_PCLK_DBG_MASK :: u32 where "RK3328_DIV_PCLK_DBG_MASK = 0xf"
definition RK3328_DIV_PCLK_DBG_SHIFT :: nat where "RK3328_DIV_PCLK_DBG_SHIFT = 0"

definition RK3328_CLKSEL1 :: "u32 \<Rightarrow> u32 \<Rightarrow> rockchip_cpuclk_clksel" where
  "RK3328_CLKSEL1 aclk_core pclk_dbg = \<lparr>clksel_reg = RK3328_CLKSEL_CON (1), clksel_val = HIWORD_UPDATE aclk_core RK3328_DIV_ACLKM_MASK RK3328_DIV_ACLKM_SHIFT OR HIWORD_UPDATE pclk_dbg RK3328_DIV_PCLK_DBG_MASK RK3328_DIV_PCLK_DBG_SHIFT\<rparr>"

definition RK3328_CPUCLK_RATE :: "u64 \<Rightarrow> u32 \<Rightarrow> u32 \<Rightarrow> rockchip_cpuclk_rate_table" where
  "RK3328_CPUCLK_RATE prate aclk_core pclk_dbg = \<lparr>cpu_prate = prate, cpu_divs = [RK3328_CLKSEL1 aclk_core pclk_dbg]\<rparr>"

definition rk3328_cpuclk_rates :: "rockchip_cpuclk_rate_table list" where
  "rk3328_cpuclk_rates = [
    RK3328_CPUCLK_RATE 1800000000 1 7, RK3328_CPUCLK_RATE 1704000000 1 7, RK3328_CPUCLK_RATE 1608000000 1 7,
    RK3328_CPUCLK_RATE 1512000000 1 7, RK3328_CPUCLK_RATE 1488000000 1 5, RK3328_CPUCLK_RATE 1416000000 1 5,
    RK3328_CPUCLK_RATE 1392000000 1 5, RK3328_CPUCLK_RATE 1296000000 1 5, RK3328_CPUCLK_RATE 1200000000 1 5,
    RK3328_CPUCLK_RATE 1104000000 1 5, RK3328_CPUCLK_RATE 1008000000 1 5, RK3328_CPUCLK_RATE 912000000 1 5,
    RK3328_CPUCLK_RATE 816000000 1 3, RK3328_CPUCLK_RATE 696000000 1 3, RK3328_CPUCLK_RATE 600000000 1 3,
    RK3328_CPUCLK_RATE 408000000 1 1, RK3328_CPUCLK_RATE 312000000 1 1, RK3328_CPUCLK_RATE 216000000 1 1,
    RK3328_CPUCLK_RATE 96000000 1 1]"

definition rk3328_cpuclk_data :: rockchip_cpuclk_reg_data where
  "rk3328_cpuclk_data = \<lparr>core_reg = [RK3328_CLKSEL_CON 0], div_core_shift = [0], div_core_mask = [0x1f], num_cores = 1, mux_core_alt = 1,
     mux_core_main = 3, mux_core_shift = 6, mux_core_mask = 0x3, pll_name = None\<rparr>"

section \<open>The RK3368\<close>

definition RK3368_DIV_ACLKM_MASK :: u32 where "RK3368_DIV_ACLKM_MASK = 0x1f"
definition RK3368_DIV_ACLKM_SHIFT :: nat where "RK3368_DIV_ACLKM_SHIFT = 8"
definition RK3368_DIV_ATCLK_MASK :: u32 where "RK3368_DIV_ATCLK_MASK = 0x1f"
definition RK3368_DIV_ATCLK_SHIFT :: nat where "RK3368_DIV_ATCLK_SHIFT = 0"
definition RK3368_DIV_PCLK_DBG_MASK :: u32 where "RK3368_DIV_PCLK_DBG_MASK = 0x1f"
definition RK3368_DIV_PCLK_DBG_SHIFT :: nat where "RK3368_DIV_PCLK_DBG_SHIFT = 8"

definition RK3368_CLKSEL0 :: "nat \<Rightarrow> u32 \<Rightarrow> rockchip_cpuclk_clksel" where
  "RK3368_CLKSEL0 offs aclkm = \<lparr>clksel_reg = RK3368_CLKSEL_CON (0 + offs), clksel_val = HIWORD_UPDATE aclkm RK3368_DIV_ACLKM_MASK RK3368_DIV_ACLKM_SHIFT\<rparr>"

definition RK3368_CLKSEL1 :: "nat \<Rightarrow> u32 \<Rightarrow> u32 \<Rightarrow> rockchip_cpuclk_clksel" where
  "RK3368_CLKSEL1 offs atclk pdbg = \<lparr>clksel_reg = RK3368_CLKSEL_CON (1 + offs), clksel_val = HIWORD_UPDATE atclk RK3368_DIV_ATCLK_MASK RK3368_DIV_ATCLK_SHIFT OR HIWORD_UPDATE pdbg RK3368_DIV_PCLK_DBG_MASK RK3368_DIV_PCLK_DBG_SHIFT\<rparr>"

definition RK3368_CPUCLKB_RATE :: "u64 \<Rightarrow> u32 \<Rightarrow> u32 \<Rightarrow> u32 \<Rightarrow> rockchip_cpuclk_rate_table" where
  "RK3368_CPUCLKB_RATE prate aclkm atclk pdbg = \<lparr>cpu_prate = prate, cpu_divs = [RK3368_CLKSEL0 0 aclkm, RK3368_CLKSEL1 0 atclk pdbg]\<rparr>"

definition RK3368_CPUCLKL_RATE :: "u64 \<Rightarrow> u32 \<Rightarrow> u32 \<Rightarrow> u32 \<Rightarrow> rockchip_cpuclk_rate_table" where
  "RK3368_CPUCLKL_RATE prate aclkm atclk pdbg = \<lparr>cpu_prate = prate, cpu_divs = [RK3368_CLKSEL0 2 aclkm, RK3368_CLKSEL1 2 atclk pdbg]\<rparr>"

definition rk3368_cpuclkb_rates :: "rockchip_cpuclk_rate_table list" where
  "rk3368_cpuclkb_rates = [
    RK3368_CPUCLKB_RATE 1512000000 1 5 5, RK3368_CPUCLKB_RATE 1488000000 1 4 4, RK3368_CPUCLKB_RATE 1416000000 1 4 4,
    RK3368_CPUCLKB_RATE 1200000000 1 3 3, RK3368_CPUCLKB_RATE 1008000000 1 3 3, RK3368_CPUCLKB_RATE 816000000 1 2 2,
    RK3368_CPUCLKB_RATE 696000000 1 2 2, RK3368_CPUCLKB_RATE 600000000 1 1 1, RK3368_CPUCLKB_RATE 408000000 1 1 1,
    RK3368_CPUCLKB_RATE 312000000 1 1 1]"

definition rk3368_cpuclkl_rates :: "rockchip_cpuclk_rate_table list" where
  "rk3368_cpuclkl_rates = [
    RK3368_CPUCLKL_RATE 1512000000 1 6 6, RK3368_CPUCLKL_RATE 1488000000 1 5 5, RK3368_CPUCLKL_RATE 1416000000 1 5 5,
    RK3368_CPUCLKL_RATE 1200000000 1 4 4, RK3368_CPUCLKL_RATE 1008000000 1 4 4, RK3368_CPUCLKL_RATE 816000000 1 3 3,
    RK3368_CPUCLKL_RATE 696000000 1 2 2, RK3368_CPUCLKL_RATE 600000000 1 2 2, RK3368_CPUCLKL_RATE 408000000 1 1 1,
    RK3368_CPUCLKL_RATE 312000000 1 1 1]"

definition rk3368_cpuclkb_data :: rockchip_cpuclk_reg_data where
  "rk3368_cpuclkb_data = \<lparr>core_reg = [RK3368_CLKSEL_CON 0], div_core_shift = [0], div_core_mask = [0x1f], num_cores = 1, mux_core_alt = 1,
     mux_core_main = 0, mux_core_shift = 7, mux_core_mask = 0x1, pll_name = None\<rparr>"

definition rk3368_cpuclkl_data :: rockchip_cpuclk_reg_data where
  "rk3368_cpuclkl_data = \<lparr>core_reg = [RK3368_CLKSEL_CON 2], div_core_shift = [0], div_core_mask = [0x1f], num_cores = 1, mux_core_alt = 1,
     mux_core_main = 0, mux_core_shift = 7, mux_core_mask = 0x1, pll_name = None\<rparr>"

section \<open>The RK3399\<close>

definition RK3399_DIV_ACLKM_MASK :: u32 where "RK3399_DIV_ACLKM_MASK = 0x1f"
definition RK3399_DIV_ACLKM_SHIFT :: nat where "RK3399_DIV_ACLKM_SHIFT = 8"
definition RK3399_DIV_ATCLK_MASK :: u32 where "RK3399_DIV_ATCLK_MASK = 0x1f"
definition RK3399_DIV_ATCLK_SHIFT :: nat where "RK3399_DIV_ATCLK_SHIFT = 0"
definition RK3399_DIV_PCLK_DBG_MASK :: u32 where "RK3399_DIV_PCLK_DBG_MASK = 0x1f"
definition RK3399_DIV_PCLK_DBG_SHIFT :: nat where "RK3399_DIV_PCLK_DBG_SHIFT = 8"

definition RK3399_CLKSEL0 :: "nat \<Rightarrow> u32 \<Rightarrow> rockchip_cpuclk_clksel" where
  "RK3399_CLKSEL0 offs aclkm = \<lparr>clksel_reg = RK3399_CLKSEL_CON (0 + offs), clksel_val = HIWORD_UPDATE aclkm RK3399_DIV_ACLKM_MASK RK3399_DIV_ACLKM_SHIFT\<rparr>"

definition RK3399_CLKSEL1 :: "nat \<Rightarrow> u32 \<Rightarrow> u32 \<Rightarrow> rockchip_cpuclk_clksel" where
  "RK3399_CLKSEL1 offs atclk pdbg = \<lparr>clksel_reg = RK3399_CLKSEL_CON (1 + offs), clksel_val = HIWORD_UPDATE atclk RK3399_DIV_ATCLK_MASK RK3399_DIV_ATCLK_SHIFT OR HIWORD_UPDATE pdbg RK3399_DIV_PCLK_DBG_MASK RK3399_DIV_PCLK_DBG_SHIFT\<rparr>"

definition RK3399_CPUCLKL_RATE :: "u64 \<Rightarrow> u32 \<Rightarrow> u32 \<Rightarrow> u32 \<Rightarrow> rockchip_cpuclk_rate_table" where
  "RK3399_CPUCLKL_RATE prate aclkm atclk pdbg = \<lparr>cpu_prate = prate, cpu_divs = [RK3399_CLKSEL0 0 aclkm, RK3399_CLKSEL1 0 atclk pdbg]\<rparr>"

definition RK3399_CPUCLKB_RATE :: "u64 \<Rightarrow> u32 \<Rightarrow> u32 \<Rightarrow> u32 \<Rightarrow> rockchip_cpuclk_rate_table" where
  "RK3399_CPUCLKB_RATE prate aclkm atclk pdbg = \<lparr>cpu_prate = prate, cpu_divs = [RK3399_CLKSEL0 2 aclkm, RK3399_CLKSEL1 2 atclk pdbg]\<rparr>"

definition rk3399_cpuclkl_rates :: "rockchip_cpuclk_rate_table list" where
  "rk3399_cpuclkl_rates = [
    RK3399_CPUCLKL_RATE 1800000000 1 8 8, RK3399_CPUCLKL_RATE 1704000000 1 8 8, RK3399_CPUCLKL_RATE 1608000000 1 7 7,
    RK3399_CPUCLKL_RATE 1512000000 1 7 7, RK3399_CPUCLKL_RATE 1488000000 1 6 6, RK3399_CPUCLKL_RATE 1416000000 1 6 6,
    RK3399_CPUCLKL_RATE 1200000000 1 5 5, RK3399_CPUCLKL_RATE 1008000000 1 5 5, RK3399_CPUCLKL_RATE 816000000 1 4 4,
    RK3399_CPUCLKL_RATE 696000000 1 3 3, RK3399_CPUCLKL_RATE 600000000 1 3 3, RK3399_CPUCLKL_RATE 408000000 1 2 2,
    RK3399_CPUCLKL_RATE 312000000 1 1 1, RK3399_CPUCLKL_RATE 216000000 1 1 1, RK3399_CPUCLKL_RATE 96000000 1 1 1]"

definition rk3399_cpuclkb_rates :: "rockchip_cpuclk_rate_table list" where
  "rk3399_cpuclkb_rates = [
    RK3399_CPUCLKB_RATE 2208000000 1 11 11, RK3399_CPUCLKB_RATE 2184000000 1 11 11,
    RK3399_CPUCLKB_RATE 2088000000 1 10 10, RK3399_CPUCLKB_RATE 2040000000 1 10 10,
    RK3399_CPUCLKB_RATE 2016000000 1 9 9, RK3399_CPUCLKB_RATE 1992000000 1 9 9, RK3399_CPUCLKB_RATE 1896000000 1 9 9,
    RK3399_CPUCLKB_RATE 1800000000 1 8 8, RK3399_CPUCLKB_RATE 1704000000 1 8 8, RK3399_CPUCLKB_RATE 1608000000 1 7 7,
    RK3399_CPUCLKB_RATE 1512000000 1 7 7, RK3399_CPUCLKB_RATE 1488000000 1 6 6, RK3399_CPUCLKB_RATE 1416000000 1 6 6,
    RK3399_CPUCLKB_RATE 1200000000 1 5 5, RK3399_CPUCLKB_RATE 1008000000 1 5 5, RK3399_CPUCLKB_RATE 816000000 1 4 4,
    RK3399_CPUCLKB_RATE 696000000 1 3 3, RK3399_CPUCLKB_RATE 600000000 1 3 3, RK3399_CPUCLKB_RATE 408000000 1 2 2,
    RK3399_CPUCLKB_RATE 312000000 1 1 1, RK3399_CPUCLKB_RATE 216000000 1 1 1, RK3399_CPUCLKB_RATE 96000000 1 1 1]"

definition rk3399_cpuclkl_data :: rockchip_cpuclk_reg_data where
  "rk3399_cpuclkl_data = \<lparr>core_reg = [RK3399_CLKSEL_CON 0], div_core_shift = [0], div_core_mask = [0x1f], num_cores = 1, mux_core_alt = 3,
     mux_core_main = 0, mux_core_shift = 6, mux_core_mask = 0x3, pll_name = None\<rparr>"

definition rk3399_cpuclkb_data :: rockchip_cpuclk_reg_data where
  "rk3399_cpuclkb_data = \<lparr>core_reg = [RK3399_CLKSEL_CON 2], div_core_shift = [0], div_core_mask = [0x1f], num_cores = 1, mux_core_alt = 3,
     mux_core_main = 1, mux_core_shift = 6, mux_core_mask = 0x3, pll_name = None\<rparr>"

section \<open>The RV1108\<close>

definition RV1108_DIV_CORE_MASK :: u32 where "RV1108_DIV_CORE_MASK = 0xf"
definition RV1108_DIV_CORE_SHIFT :: nat where "RV1108_DIV_CORE_SHIFT = 4"

definition RV1108_CLKSEL0 :: "u32 \<Rightarrow> rockchip_cpuclk_clksel" where
  "RV1108_CLKSEL0 core_peri_div = \<lparr>clksel_reg = RV1108_CLKSEL_CON (1), clksel_val = HIWORD_UPDATE core_peri_div RV1108_DIV_CORE_MASK RV1108_DIV_CORE_SHIFT\<rparr>"

definition RV1108_CPUCLK_RATE :: "u64 \<Rightarrow> u32 \<Rightarrow> rockchip_cpuclk_rate_table" where
  "RV1108_CPUCLK_RATE prate core_peri_div = \<lparr>cpu_prate = prate, cpu_divs = [RV1108_CLKSEL0 core_peri_div]\<rparr>"

definition rv1108_cpuclk_rates :: "rockchip_cpuclk_rate_table list" where
  "rv1108_cpuclk_rates = [
    RV1108_CPUCLK_RATE 1608000000 7, RV1108_CPUCLK_RATE 1512000000 7, RV1108_CPUCLK_RATE 1488000000 5,
    RV1108_CPUCLK_RATE 1416000000 5, RV1108_CPUCLK_RATE 1392000000 5, RV1108_CPUCLK_RATE 1296000000 5,
    RV1108_CPUCLK_RATE 1200000000 5, RV1108_CPUCLK_RATE 1104000000 5, RV1108_CPUCLK_RATE 1008000000 5,
    RV1108_CPUCLK_RATE 912000000 5, RV1108_CPUCLK_RATE 816000000 3, RV1108_CPUCLK_RATE 696000000 3,
    RV1108_CPUCLK_RATE 600000000 3, RV1108_CPUCLK_RATE 500000000 3, RV1108_CPUCLK_RATE 408000000 1,
    RV1108_CPUCLK_RATE 312000000 1, RV1108_CPUCLK_RATE 216000000 1, RV1108_CPUCLK_RATE 96000000 1]"

definition rv1108_cpuclk_data :: rockchip_cpuclk_reg_data where
  "rv1108_cpuclk_data = \<lparr>core_reg = [RV1108_CLKSEL_CON 0], div_core_shift = [0], div_core_mask = [0x1f], num_cores = 1, mux_core_alt = 1,
     mux_core_main = 0, mux_core_shift = 8, mux_core_mask = 0x3, pll_name = None\<rparr>"

section \<open>All of them\<close>

definition cpu_chips :: "(rockchip_cpuclk_reg_data \<times> rockchip_cpuclk_rate_table list) list" where
  "cpu_chips = [
    (px30_cpuclk_data, px30_cpuclk_rates),
    (rk1808_cpuclk_data, rk1808_cpuclk_rates),
    (rk3036_cpuclk_data, rk3036_cpuclk_rates),
    (rk3128_cpuclk_data, rk3128_cpuclk_rates),
    (rk3066_cpuclk_data, rk3066_cpuclk_rates),
    (rk3188_cpuclk_data, rk3188_cpuclk_rates),
    (rk3228_cpuclk_data, rk3228_cpuclk_rates),
    (rk3288_cpuclk_data, rk3288_cpuclk_rates),
    (rk3308_cpuclk_data, rk3308_cpuclk_rates),
    (rk3328_cpuclk_data, rk3328_cpuclk_rates),
    (rk3368_cpuclkb_data, rk3368_cpuclkb_rates),
    (rk3368_cpuclkl_data, rk3368_cpuclkl_rates),
    (rk3399_cpuclkl_data, rk3399_cpuclkl_rates),
    (rk3399_cpuclkb_data, rk3399_cpuclkb_rates),
    (rv1108_cpuclk_data, rv1108_cpuclk_rates)]"

lemmas cpu_tables = RV1108_CLKSEL_CON_def RK3399_CLKSEL_CON_def RK3368_CLKSEL_CON_def RK3328_CLKSEL_CON_def
  RK3308_CLKSEL_CON_def RK3288_CLKSEL_CON_def RK2928_CLKSEL_CON_def RK1808_CLKSEL_CON_def PX30_CLKSEL_CON_def
  PX30_DIV_ACLKM_MASK_def PX30_DIV_ACLKM_SHIFT_def PX30_DIV_PCLK_DBG_MASK_def PX30_DIV_PCLK_DBG_SHIFT_def
  PX30_CLKSEL0_def PX30_CPUCLK_RATE_def px30_cpuclk_rates_def px30_cpuclk_data_def RK1808_DIV_ACLKM_MASK_def
  RK1808_DIV_ACLKM_SHIFT_def RK1808_DIV_PCLK_DBG_MASK_def RK1808_DIV_PCLK_DBG_SHIFT_def RK1808_CLKSEL0_def
  RK1808_CPUCLK_RATE_def rk1808_cpuclk_rates_def rk1808_cpuclk_data_def RK3036_DIV_PERI_MASK_def
  RK3036_DIV_PERI_SHIFT_def RK3036_CLKSEL1_def RK3036_CPUCLK_RATE_def rk3036_cpuclk_rates_def rk3036_cpuclk_data_def
  RK3128_DIV_PERI_MASK_def RK3128_DIV_PERI_SHIFT_def RK3128_DIV_ACLK_MASK_def RK3128_DIV_ACLK_SHIFT_def
  RK3128_CLKSEL1_def RK3128_CPUCLK_RATE_def rk3128_cpuclk_rates_def rk3128_cpuclk_data_def
  RK3066_DIV_CORE_PERIPH_MASK_def RK3066_DIV_CORE_PERIPH_SHIFT_def RK3066_DIV_ACLK_CORE_MASK_def
  RK3066_DIV_ACLK_CORE_SHIFT_def RK3066_DIV_ACLK_HCLK_MASK_def RK3066_DIV_ACLK_HCLK_SHIFT_def
  RK3066_DIV_ACLK_PCLK_MASK_def RK3066_DIV_ACLK_PCLK_SHIFT_def RK3066_DIV_AHB2APB_MASK_def RK3066_DIV_AHB2APB_SHIFT_def
  RK3188_DIV_ACLK_CORE_MASK_def RK3188_DIV_ACLK_CORE_SHIFT_def RK3066_CLKSEL0_def RK3066_CLKSEL1_def RK3188_CLKSEL1_def
  RK3066_CPUCLK_RATE_def RK3188_CPUCLK_RATE_def rk3066_cpuclk_rates_def rk3188_cpuclk_rates_def rk3066_cpuclk_data_def
  rk3188_cpuclk_data_def RK3228_DIV_PERI_MASK_def RK3228_DIV_PERI_SHIFT_def RK3228_DIV_ACLK_MASK_def
  RK3228_DIV_ACLK_SHIFT_def RK3228_CLKSEL1_def RK3228_CPUCLK_RATE_def rk3228_cpuclk_rates_def rk3228_cpuclk_data_def
  RK3288_DIV_ACLK_CORE_M0_MASK_def RK3288_DIV_ACLK_CORE_M0_SHIFT_def RK3288_DIV_ACLK_CORE_MP_MASK_def
  RK3288_DIV_ACLK_CORE_MP_SHIFT_def RK3288_DIV_L2RAM_MASK_def RK3288_DIV_L2RAM_SHIFT_def RK3288_DIV_ATCLK_MASK_def
  RK3288_DIV_ATCLK_SHIFT_def RK3288_DIV_PCLK_DBGPRE_MASK_def RK3288_DIV_PCLK_DBGPRE_SHIFT_def RK3288_CLKSEL0_def
  RK3288_CLKSEL37_def RK3288_CPUCLK_RATE_def rk3288_cpuclk_rates_def rk3288_cpuclk_data_def RK3308_DIV_ACLKM_MASK_def
  RK3308_DIV_ACLKM_SHIFT_def RK3308_DIV_PCLK_DBG_MASK_def RK3308_DIV_PCLK_DBG_SHIFT_def RK3308_CLKSEL0_def
  RK3308_CPUCLK_RATE_def rk3308_cpuclk_rates_def rk3308_cpuclk_data_def RK3328_DIV_ACLKM_MASK_def
  RK3328_DIV_ACLKM_SHIFT_def RK3328_DIV_PCLK_DBG_MASK_def RK3328_DIV_PCLK_DBG_SHIFT_def RK3328_CLKSEL1_def
  RK3328_CPUCLK_RATE_def rk3328_cpuclk_rates_def rk3328_cpuclk_data_def RK3368_DIV_ACLKM_MASK_def
  RK3368_DIV_ACLKM_SHIFT_def RK3368_DIV_ATCLK_MASK_def RK3368_DIV_ATCLK_SHIFT_def RK3368_DIV_PCLK_DBG_MASK_def
  RK3368_DIV_PCLK_DBG_SHIFT_def RK3368_CLKSEL0_def RK3368_CLKSEL1_def RK3368_CPUCLKB_RATE_def RK3368_CPUCLKL_RATE_def
  rk3368_cpuclkb_rates_def rk3368_cpuclkl_rates_def rk3368_cpuclkb_data_def rk3368_cpuclkl_data_def
  RK3399_DIV_ACLKM_MASK_def RK3399_DIV_ACLKM_SHIFT_def RK3399_DIV_ATCLK_MASK_def RK3399_DIV_ATCLK_SHIFT_def
  RK3399_DIV_PCLK_DBG_MASK_def RK3399_DIV_PCLK_DBG_SHIFT_def RK3399_CLKSEL0_def RK3399_CLKSEL1_def
  RK3399_CPUCLKL_RATE_def RK3399_CPUCLKB_RATE_def rk3399_cpuclkl_rates_def rk3399_cpuclkb_rates_def
  rk3399_cpuclkl_data_def rk3399_cpuclkb_data_def RV1108_DIV_CORE_MASK_def RV1108_DIV_CORE_SHIFT_def RV1108_CLKSEL0_def
  RV1108_CPUCLK_RATE_def rv1108_cpuclk_rates_def rv1108_cpuclk_data_def

text \<open>
  Every chip's description is one with which a change of the rate is safe: its fields are apart, and the settings
  of its rates leave them alone.
\<close>

lemma masks16: "list_ex (\<lambda>w. (m :: u32) = mask w) [0..<17]
    \<longleftrightarrow> m \<in> {0, 1, 3, 7, 15, 31, 63, 127, 255, 511, 1023, 2047, 4095, 8191, 16383, 32767, 65535}"
  by (simp add: upt_rec mask_eq_decr_exp)

lemmas cpu_fields = core_flds_def core_fld_def mux_fld_def field_holds_def in_half_def apart_from_def

lemma px30_data_ok: "cpu_data_ok px30_cpuclk_data"
  unfolding cpu_data_ok_def masks16 by (simp add: cpu_tables cpu_fields)

lemma px30_rates_apart: "list_all (divs_apart px30_cpuclk_data) px30_cpuclk_rates"
  by (simp add: cpu_tables divs_apart_def cpu_fields HIWORD_UPDATE_def)

lemma rk1808_data_ok: "cpu_data_ok rk1808_cpuclk_data"
  unfolding cpu_data_ok_def masks16 by (simp add: cpu_tables cpu_fields)

lemma rk1808_rates_apart: "list_all (divs_apart rk1808_cpuclk_data) rk1808_cpuclk_rates"
  by (simp add: cpu_tables divs_apart_def cpu_fields HIWORD_UPDATE_def)

lemma rk3036_data_ok: "cpu_data_ok rk3036_cpuclk_data"
  unfolding cpu_data_ok_def masks16 by (simp add: cpu_tables cpu_fields)

lemma rk3036_rates_apart: "list_all (divs_apart rk3036_cpuclk_data) rk3036_cpuclk_rates"
  by (simp add: cpu_tables divs_apart_def cpu_fields HIWORD_UPDATE_def)

lemma rk3128_data_ok: "cpu_data_ok rk3128_cpuclk_data"
  unfolding cpu_data_ok_def masks16 by (simp add: cpu_tables cpu_fields)

lemma rk3128_rates_apart: "list_all (divs_apart rk3128_cpuclk_data) rk3128_cpuclk_rates"
  by (simp add: cpu_tables divs_apart_def cpu_fields HIWORD_UPDATE_def)

lemma rk3066_data_ok: "cpu_data_ok rk3066_cpuclk_data"
  unfolding cpu_data_ok_def masks16 by (simp add: cpu_tables cpu_fields)

lemma rk3066_rates_apart: "list_all (divs_apart rk3066_cpuclk_data) rk3066_cpuclk_rates"
  by (simp add: cpu_tables divs_apart_def cpu_fields HIWORD_UPDATE_def)

lemma rk3188_data_ok: "cpu_data_ok rk3188_cpuclk_data"
  unfolding cpu_data_ok_def masks16 by (simp add: cpu_tables cpu_fields)

lemma rk3188_rates_apart: "list_all (divs_apart rk3188_cpuclk_data) rk3188_cpuclk_rates"
  by (simp add: cpu_tables divs_apart_def cpu_fields HIWORD_UPDATE_def)

lemma rk3228_data_ok: "cpu_data_ok rk3228_cpuclk_data"
  unfolding cpu_data_ok_def masks16 by (simp add: cpu_tables cpu_fields)

lemma rk3228_rates_apart: "list_all (divs_apart rk3228_cpuclk_data) rk3228_cpuclk_rates"
  by (simp add: cpu_tables divs_apart_def cpu_fields HIWORD_UPDATE_def)

lemma rk3288_data_ok: "cpu_data_ok rk3288_cpuclk_data"
  unfolding cpu_data_ok_def masks16 by (simp add: cpu_tables cpu_fields)

lemma rk3288_rates_apart: "list_all (divs_apart rk3288_cpuclk_data) rk3288_cpuclk_rates"
  by (simp add: cpu_tables divs_apart_def cpu_fields HIWORD_UPDATE_def)

lemma rk3308_data_ok: "cpu_data_ok rk3308_cpuclk_data"
  unfolding cpu_data_ok_def masks16 by (simp add: cpu_tables cpu_fields)

lemma rk3308_rates_apart: "list_all (divs_apart rk3308_cpuclk_data) rk3308_cpuclk_rates"
  by (simp add: cpu_tables divs_apart_def cpu_fields HIWORD_UPDATE_def)

lemma rk3328_data_ok: "cpu_data_ok rk3328_cpuclk_data"
  unfolding cpu_data_ok_def masks16 by (simp add: cpu_tables cpu_fields)

lemma rk3328_rates_apart: "list_all (divs_apart rk3328_cpuclk_data) rk3328_cpuclk_rates"
  by (simp add: cpu_tables divs_apart_def cpu_fields HIWORD_UPDATE_def)

lemma rk3368_b_data_ok: "cpu_data_ok rk3368_cpuclkb_data"
  unfolding cpu_data_ok_def masks16 by (simp add: cpu_tables cpu_fields)

lemma rk3368_b_rates_apart: "list_all (divs_apart rk3368_cpuclkb_data) rk3368_cpuclkb_rates"
  by (simp add: cpu_tables divs_apart_def cpu_fields HIWORD_UPDATE_def)

lemma rk3368_l_data_ok: "cpu_data_ok rk3368_cpuclkl_data"
  unfolding cpu_data_ok_def masks16 by (simp add: cpu_tables cpu_fields)

lemma rk3368_l_rates_apart: "list_all (divs_apart rk3368_cpuclkl_data) rk3368_cpuclkl_rates"
  by (simp add: cpu_tables divs_apart_def cpu_fields HIWORD_UPDATE_def)

lemma rk3399_l_data_ok: "cpu_data_ok rk3399_cpuclkl_data"
  unfolding cpu_data_ok_def masks16 by (simp add: cpu_tables cpu_fields)

lemma rk3399_l_rates_apart: "list_all (divs_apart rk3399_cpuclkl_data) rk3399_cpuclkl_rates"
  by (simp add: cpu_tables divs_apart_def cpu_fields HIWORD_UPDATE_def)

lemma rk3399_b_data_ok: "cpu_data_ok rk3399_cpuclkb_data"
  unfolding cpu_data_ok_def masks16 by (simp add: cpu_tables cpu_fields)

lemma rk3399_b_rates_apart: "list_all (divs_apart rk3399_cpuclkb_data) rk3399_cpuclkb_rates"
  by (simp add: cpu_tables divs_apart_def cpu_fields HIWORD_UPDATE_def)

lemma rv1108_data_ok: "cpu_data_ok rv1108_cpuclk_data"
  unfolding cpu_data_ok_def masks16 by (simp add: cpu_tables cpu_fields)

lemma rv1108_rates_apart: "list_all (divs_apart rv1108_cpuclk_data) rv1108_cpuclk_rates"
  by (simp add: cpu_tables divs_apart_def cpu_fields HIWORD_UPDATE_def)

lemmas cpu_chip_facts = px30_data_ok px30_rates_apart rk1808_data_ok rk1808_rates_apart rk3036_data_ok
  rk3036_rates_apart rk3128_data_ok rk3128_rates_apart rk3066_data_ok rk3066_rates_apart rk3188_data_ok
  rk3188_rates_apart rk3228_data_ok rk3228_rates_apart rk3288_data_ok rk3288_rates_apart rk3308_data_ok
  rk3308_rates_apart rk3328_data_ok rk3328_rates_apart rk3368_b_data_ok rk3368_b_rates_apart rk3368_l_data_ok
  rk3368_l_rates_apart rk3399_l_data_ok rk3399_l_rates_apart rk3399_b_data_ok rk3399_b_rates_apart rv1108_data_ok
  rv1108_rates_apart

lemma cpu_chips_ok: "list_all (\<lambda>(rd, ts). cpu_data_ok rd \<and> list_all (divs_apart rd) ts) cpu_chips"
  by (simp add: cpu_chips_def cpu_chip_facts)

section \<open>A change of the rate of the cores\<close>

lemma cpu_settings_listed: "rockchip_get_cpuclk_settings c r = Some t \<Longrightarrow> t \<in> set (cpu_rates c)"
  unfolding rockchip_get_cpuclk_settings_def find_Some_iff by (auto dest: nth_mem in_set_takeD)

lemma cpu_settings_there:
  assumes "rate_count c = length (cpu_rates c)" "r \<in> set (map cpu_prate (cpu_rates c))"
  obtains t where "rockchip_get_cpuclk_settings c r = Some t"
proof -
  have "find (\<lambda>t. r = cpu_prate t) (cpu_rates c) \<noteq> None" using assms(2) by (auto simp: find_None_iff)
  then show ?thesis using that assms(1) by (auto simp: rockchip_get_cpuclk_settings_def)
qed

text \<open>
  C32: On each of the chips above, while the rate of the PLL that drives the cores is changed to one of the chip's
  table, no core runs faster than before or after: \<open>rockchip_cpuclk_notifier_cb\<close> before the change keeps a core at most at the old
  rate after each single write, and leaves it on the other parent, at most at the old rate whatever the PLL does then;
  after the change it brings the core back, at most at the greater of the two rates after each write, and at the new
  rate in the end, which \<open>rockchip_cpuclk_recalc_rate\<close> then gives. Conditions: a write reaches just the bits of the
  one register its upper half selects; the cores are on the PLL before, and their mux and dividers stay as they are
  while it changes; the boost module, if there is one, ends its recovery; the old rate is not zero, its sum with the
  rate of the other parent does not wrap, and that one is at most the old rate times the greatest divider (where it
  is more, the driver limits the divider and warns).
\<close>

theorem rockchip_cpuclk_rate_change_bounded:
  assumes law: "cru_law True P"
    and chip: "(cpu_data c, cpu_rates c) \<in> set cpu_chips" "rate_count c = length (cpu_rates c)"
    and new: "new_rate nd \<in> set (map cpu_prate (cpu_rates c))"
    and boost: "rockchip_boost_enable_recovery_sw_low B (cpu_pll c) = Some pll"
    and old: "0 < unat (old_rate nd)" "unat (alt_rate P h) + unat (old_rate nd) < 2 ^ 64"
    and alt: "unat (alt_rate P h) \<le> unat (old_rate nd) * (unat (div_core_mask (cpu_data c) ! 0) + 1)"
    and main: "field_get P (mux_fld (cpu_data c)) h = mux_core_main (cpu_data c)"
    and f: "f \<in> set (core_flds (cpu_data c))"
  shows "\<exists>c1 hs1. rockchip_cpuclk_notifier_cb (logged P) B PRE_RATE_CHANGE nd c [h] = Some ((c1, hs1), None) \<and>
    (\<forall>x \<in> set hs1. core_hz P (cpu_data c) f (old_rate nd) (alt_rate P h) x \<le> unat (old_rate nd)) \<and>
    (\<forall>r. core_hz P (cpu_data c) f r (alt_rate P h) (hd hs1) \<le> unat (old_rate nd)) \<and>
    (\<forall>h2. (\<forall>g \<in> set (mux_fld (cpu_data c) # core_flds (cpu_data c)). field_get P g h2 = field_get P g (hd hs1)) \<longrightarrow>
      (\<exists>c2 hs2. rockchip_cpuclk_notifier_cb (logged P) B POST_RATE_CHANGE nd c1 [h2] = Some ((c2, hs2), None) \<and>
        (\<forall>x \<in> set hs2. core_hz P (cpu_data c) f (new_rate nd) (alt_rate P h) x \<le>
           max (unat (old_rate nd)) (unat (new_rate nd))) \<and>
        core_hz P (cpu_data c) f (new_rate nd) (alt_rate P h) (hd hs2) = unat (new_rate nd) \<and>
        rockchip_cpuclk_recalc_rate P c2 (new_rate nd) (hd hs2) = Some (new_rate nd)))"
proof -
  obtain rt where rt: "rockchip_get_cpuclk_settings c (new_rate nd) = Some rt"
    by (rule cpu_settings_there [OF chip(2) new])
  have ok: "cpu_data_ok (cpu_data c)" "list_all (divs_apart (cpu_data c)) (cpu_rates c)"
    using cpu_chips_ok chip(1) by (auto simp only: list_all_iff split: prod.splits)
  have "divs_apart (cpu_data c) rt" using ok(2) cpu_settings_listed [OF rt] by (simp only: list_all_iff)
  then show ?thesis by (rule rate_change_bounded [OF law ok(1) rt _ boost old alt main f])
qed

text \<open>The PX30 from 408 to 816 MHz, its other parent at 600 MHz.\<close>

definition sim_cpu :: "(u32 \<Rightarrow> u32) cpu_port" where
  "sim_cpu = \<lparr>cru_read = (\<lambda>a h. h a), cru_write = (\<lambda>a v h. h(a := hiword (h a) v)), alt_rate = (\<lambda>h. 600000000)\<rparr>"

lemma sim_cpu_law: "cru_law True sim_cpu"
  by (simp add: cru_law_def sim_cpu_def)

definition px30_cpu :: "((u32 \<Rightarrow> u32) \<times> nat) rockchip_cpuclk" where
  "px30_cpu = \<lparr>cpu_pll = None, cpu_rates = px30_cpuclk_rates, rate_count = length px30_cpuclk_rates,
     cpu_data = px30_cpuclk_data\<rparr>"

theorem rockchip_cpuclk_rate_change_bounded_witness:
  "\<exists>c1 hs1. rockchip_cpuclk_notifier_cb (logged sim_cpu) (sim_pll {}) PRE_RATE_CHANGE
       \<lparr>old_rate = 408000000, new_rate = 816000000\<rparr> px30_cpu [\<lambda>_. 0] = Some ((c1, hs1), None) \<and>
     (\<forall>x \<in> set hs1. core_hz sim_cpu px30_cpuclk_data (core_fld px30_cpuclk_data 0) 408000000 600000000 x \<le> 408000000)"
proof -
  have c: "cpu_data px30_cpu = px30_cpuclk_data" "cpu_rates px30_cpu = px30_cpuclk_rates"
    "rate_count px30_cpu = length px30_cpuclk_rates" "cpu_pll px30_cpu = None" by (simp_all add: px30_cpu_def)
  have chip: "(px30_cpuclk_data, px30_cpuclk_rates) \<in> set cpu_chips" by (simp add: cpu_chips_def)
  have new: "816000000 \<in> set (map cpu_prate px30_cpuclk_rates)" by (simp add: px30_cpuclk_rates_def PX30_CPUCLK_RATE_def)
  have "core_fld px30_cpuclk_data 0 \<in> set (core_flds px30_cpuclk_data)"
    by (simp add: core_flds_def px30_cpuclk_data_def)
  moreover have "field_get sim_cpu (mux_fld px30_cpuclk_data) (\<lambda>_. 0) = mux_core_main px30_cpuclk_data"
    by (simp add: field_get_def sim_cpu_def px30_cpuclk_data_def)
  moreover have "div_core_mask px30_cpuclk_data ! 0 = 0xf" by (simp add: px30_cpuclk_data_def)
  moreover have "alt_rate sim_cpu h = 600000000" for h by (simp add: sim_cpu_def)
  ultimately show ?thesis
    using rockchip_cpuclk_rate_change_bounded [of sim_cpu px30_cpu "\<lparr>old_rate = 408000000, new_rate = 816000000\<rparr>"
        "sim_pll {}" None "\<lambda>_. 0" "core_fld px30_cpuclk_data 0"] sim_cpu_law chip new
    by (simp add: c rockchip_boost_enable_recovery_sw_low_def) (elim exE conjE, intro exI conjI, assumption+)
qed

end
