(* ===== verification/Omx_Queue.thy ===== *)
theory Omx_Queue
  imports Prelude
begin

text \<open>
  The queue of the OMX component library, \<open>osal/Rockchip_OSAL_Queue.c\<close>: a ring of list elements on the
  heap, from which data pointers are taken in the order they came. Pointers are numbers, NULL is 0;
  a function that follows a pointer to an element that is not allocated gives \<open>None\<close>. Each function
  locks the mutex of the queue throughout, so it is one step.
\<close>

section \<open>State\<close>

type_synonym ptr = nat

datatype OMX_ERRORTYPE = OMX_ErrorNone | OMX_ErrorInsufficientResources | OMX_ErrorUndefined
  | OMX_ErrorBadParameter | OMX_ErrorComponentNotFound | OMX_ErrorInvalidState | OMX_ErrorSameState
  | OMX_ErrorIncorrectStateTransition | OMX_ErrorIncorrectStateOperation | OMX_ErrorBadPortIndex
  | OMX_ErrorResourcesLost | OMX_ErrorVersionMismatch

record ROCKCHIP_QElem =
  qdata :: ptr
  qNext :: ptr

record ROCKCHIP_QUEUE =
  qfirst :: ptr
  qlast :: ptr
  numElem :: int
  maxNumElem :: int

text \<open>The elements that are allocated and the number of mutexes; what the allocator and the mutexes answer.\<close>

record osal_heap =
  qcells :: "ptr \<Rightarrow> ROCKCHIP_QElem option"
  mutexes :: nat

record osal_env =
  q_malloc :: "osal_heap \<Rightarrow> ptr"
  mutex_create :: "osal_heap \<Rightarrow> OMX_ERRORTYPE"

definition zero_elem :: ROCKCHIP_QElem where
  "zero_elem = \<lparr>qdata = 0, qNext = 0\<rparr>"

definition upd_elem :: "ptr \<Rightarrow> (ROCKCHIP_QElem \<Rightarrow> ROCKCHIP_QElem) \<Rightarrow> osal_heap \<Rightarrow> osal_heap option" where
  "upd_elem p f h = map_option (\<lambda>e. h\<lparr>qcells := (qcells h)(p \<mapsto> f e)\<rparr>) (qcells h p)"

definition free_elem :: "ptr \<Rightarrow> osal_heap \<Rightarrow> osal_heap option" where
  "free_elem p h = map_option (\<lambda>e. h\<lparr>qcells := (qcells h)(p := None)\<rparr>) (qcells h p)"

section \<open>Operations\<close>

text \<open>The loop that appends \<open>n\<close> elements after \<open>cur\<close>; the flag is False when an allocation failed.\<close>

fun create_elems :: "osal_env \<Rightarrow> nat \<Rightarrow> ptr \<Rightarrow> osal_heap \<Rightarrow> (osal_heap \<times> ptr \<times> bool) option" where
  "create_elems E 0 cur h = Some (h, cur, True)"
| "create_elems E (Suc n) cur h =
     (let p = q_malloc E h in
      if p = 0 then Some (h, cur, False)
      else Option.bind (upd_elem cur (\<lambda>e. e\<lparr>qNext := p\<rparr>) (h\<lparr>qcells := (qcells h)(p \<mapsto> zero_elem)\<rparr>))
             (create_elems E n p))"

text \<open>Freeing the elements from \<open>p\<close> on up to NULL.\<close>

partial_function (option) free_elems :: "ptr \<Rightarrow> osal_heap \<Rightarrow> osal_heap option" where
  "free_elems p h =
     (if p = 0 then Some h
      else case qcells h p of None \<Rightarrow> None
        | Some e \<Rightarrow> Option.bind (free_elem p h) (free_elems (qNext e)))"

definition Rockchip_OSAL_QueueCreate ::
  "osal_env \<Rightarrow> ROCKCHIP_QUEUE option \<Rightarrow> int \<Rightarrow> osal_heap
   \<Rightarrow> (osal_heap \<times> ROCKCHIP_QUEUE option \<times> OMX_ERRORTYPE) option" where
  "Rockchip_OSAL_QueueCreate E queueHandle maxNum h =
     (case queueHandle of None \<Rightarrow> Some (h, None, OMX_ErrorBadParameter)
      | Some q \<Rightarrow>
        if mutex_create E h \<noteq> OMX_ErrorNone then Some (h, Some q, mutex_create E h)
        else
          let h1 = h\<lparr>mutexes := mutexes h + 1\<rparr>;
              p = q_malloc E h1 in
          if p = 0 then Some (h1, Some (q\<lparr>qfirst := 0\<rparr>), OMX_ErrorInsufficientResources)
          else
            let q1 = q\<lparr>qfirst := p, qlast := p, numElem := 0, maxNumElem := maxNum\<rparr> in
            Option.bind (create_elems E (nat (maxNum - 2)) p (h1\<lparr>qcells := (qcells h1)(p \<mapsto> zero_elem)\<rparr>))
              (\<lambda>(h2, cur, ok).
                if \<not> ok
                then map_option (\<lambda>h3. (h3, Some (q1\<lparr>qfirst := 0\<rparr>), OMX_ErrorInsufficientResources))
                       (free_elems p h2)
                else map_option (\<lambda>h3. (h3, Some q1, OMX_ErrorNone))
                       (upd_elem cur (\<lambda>e. e\<lparr>qNext := p\<rparr>) h2)))"

text \<open>Freeing \<open>n\<close> elements from \<open>p\<close> on; the pointer is the one behind them.\<close>

fun terminate_elems :: "nat \<Rightarrow> ptr \<Rightarrow> osal_heap \<Rightarrow> (osal_heap \<times> ptr) option" where
  "terminate_elems 0 p h = Some (h, p)"
| "terminate_elems (Suc n) p h =
     (case qcells h p of None \<Rightarrow> None
      | Some e \<Rightarrow> Option.bind (free_elem p h) (terminate_elems n (qNext e)))"

definition Rockchip_OSAL_QueueTerminate ::
  "ROCKCHIP_QUEUE option \<Rightarrow> osal_heap \<Rightarrow> (osal_heap \<times> ROCKCHIP_QUEUE option \<times> OMX_ERRORTYPE) option" where
  "Rockchip_OSAL_QueueTerminate queueHandle h =
     (case queueHandle of None \<Rightarrow> Some (h, None, OMX_ErrorBadParameter)
      | Some q \<Rightarrow>
        Option.bind (terminate_elems (nat (maxNumElem q - 2)) (qfirst q) h) (\<lambda>(h1, p).
        map_option (\<lambda>h2. (h2\<lparr>mutexes := mutexes h2 - 1\<rparr>, Some (q\<lparr>qfirst := 0\<rparr>), OMX_ErrorNone))
          (if p \<noteq> 0 then free_elem p h1 else Some h1)))"

definition Rockchip_OSAL_Queue ::
  "ROCKCHIP_QUEUE option \<Rightarrow> ptr \<Rightarrow> osal_heap \<Rightarrow> (osal_heap \<times> ROCKCHIP_QUEUE option \<times> int) option" where
  "Rockchip_OSAL_Queue queueHandle d h =
     (case queueHandle of None \<Rightarrow> Some (h, None, - 1)
      | Some q \<Rightarrow>
        Option.bind (qcells h (qlast q)) (\<lambda>e.
          if qdata e \<noteq> 0 \<or> numElem q \<ge> maxNumElem q then Some (h, Some q, - 1)
          else map_option (\<lambda>h1. (h1, Some (q\<lparr>qlast := qNext e, numElem := numElem q + 1\<rparr>), 0))
                 (upd_elem (qlast q) (\<lambda>e. e\<lparr>qdata := d\<rparr>) h)))"

definition Rockchip_OSAL_Dequeue ::
  "ROCKCHIP_QUEUE option \<Rightarrow> osal_heap \<Rightarrow> (osal_heap \<times> ROCKCHIP_QUEUE option \<times> ptr) option" where
  "Rockchip_OSAL_Dequeue queueHandle h =
     (case queueHandle of None \<Rightarrow> Some (h, None, 0)
      | Some q \<Rightarrow>
        Option.bind (qcells h (qfirst q)) (\<lambda>e.
          if qdata e = 0 \<or> numElem q \<le> 0 then Some (h, Some q, 0)
          else map_option (\<lambda>h1. (h1, Some (q\<lparr>qfirst := qNext e, numElem := numElem q - 1\<rparr>), qdata e))
                 (upd_elem (qfirst q) (\<lambda>e. e\<lparr>qdata := 0\<rparr>) h)))"

definition Rockchip_OSAL_GetElemNum :: "ROCKCHIP_QUEUE option \<Rightarrow> int" where
  "Rockchip_OSAL_GetElemNum queueHandle = (case queueHandle of None \<Rightarrow> - 1 | Some q \<Rightarrow> numElem q)"

definition Rockchip_OSAL_SetElemNum :: "ROCKCHIP_QUEUE option \<Rightarrow> int \<Rightarrow> ROCKCHIP_QUEUE option \<times> int" where
  "Rockchip_OSAL_SetElemNum queueHandle n =
     (case queueHandle of None \<Rightarrow> (None, - 1) | Some q \<Rightarrow> (Some (q\<lparr>numElem := n\<rparr>), n))"

text \<open>The loop that clears the elements from \<open>p\<close> on until it is back at \<open>stop\<close>.\<close>

partial_function (option) reset_elems :: "ptr \<Rightarrow> ptr \<Rightarrow> osal_heap \<Rightarrow> osal_heap option" where
  "reset_elems stop p h =
     (if p = stop then Some h
      else case qcells h p of None \<Rightarrow> None
        | Some e \<Rightarrow> Option.bind (upd_elem p (\<lambda>e. e\<lparr>qdata := 0\<rparr>) h) (reset_elems stop (qNext e)))"

definition Rockchip_OSAL_ResetQueue ::
  "ROCKCHIP_QUEUE option \<Rightarrow> osal_heap \<Rightarrow> (osal_heap \<times> ROCKCHIP_QUEUE option \<times> int) option" where
  "Rockchip_OSAL_ResetQueue queueHandle h =
     (case queueHandle of None \<Rightarrow> Some (h, None, - 1)
      | Some q \<Rightarrow>
        Option.bind (upd_elem (qfirst q) (\<lambda>e. e\<lparr>qdata := 0\<rparr>) h) (\<lambda>h1.
        case qcells h1 (qfirst q) of None \<Rightarrow> None
        | Some e \<Rightarrow>
            map_option (\<lambda>h2. (h2, Some (q\<lparr>qlast := qfirst q, numElem := 0\<rparr>), 0))
              (reset_elems (qfirst q) (qNext e) h1)))"

section \<open>The contract of a bounded queue\<close>

text \<open>
  What the clients of the queue rely on: \<open>rel s xs\<close> says that the queue in state \<open>s\<close> holds \<open>xs\<close>. The
  flag of \<open>enq\<close> is False when the queue is full.
\<close>

locale bounded_fifo =
  fixes enq :: "'s \<Rightarrow> 'a \<Rightarrow> ('s \<times> bool) option" and deq :: "'s \<Rightarrow> ('s \<times> 'a option) option"
    and rel :: "'s \<Rightarrow> 'a list \<Rightarrow> bool" and good :: "'a \<Rightarrow> bool" and cap :: nat
  assumes enq_room: "rel s xs \<Longrightarrow> good a \<Longrightarrow> length xs < cap \<Longrightarrow> \<exists>s'. enq s a = Some (s', True) \<and> rel s' (xs @ [a])"
    and enq_full: "rel s xs \<Longrightarrow> \<not> length xs < cap \<Longrightarrow> enq s a = Some (s, False)"
    and deq_empty: "rel s [] \<Longrightarrow> deq s = Some (s, None)"
    and deq_first: "rel s (x # xs) \<Longrightarrow> \<exists>s'. deq s = Some (s', Some x) \<and> rel s' xs"
    and within: "rel s xs \<Longrightarrow> length xs \<le> cap"
begin

text \<open>A sequence of requests: \<open>Some a\<close> puts \<open>a\<close> in, None takes one out. The results are what was put in and what came out.\<close>

fun run :: "'a option list \<Rightarrow> 's \<Rightarrow> ('s \<times> 'a list \<times> 'a list) option" where
  "run [] s = Some (s, [], [])"
| "run (Some a # ops) s =
     Option.bind (enq s a) (\<lambda>(s', ok).
       map_option (\<lambda>(s'', ins, outs). (s'', (if ok then a # ins else ins), outs)) (run ops s'))"
| "run (None # ops) s =
     Option.bind (deq s) (\<lambda>(s', x).
       map_option (\<lambda>(s'', ins, outs). (s'', ins, case x of None \<Rightarrow> outs | Some x \<Rightarrow> x # outs)) (run ops s'))"

lemma run_in_order:
  assumes "rel s xs" "\<forall>a. Some a \<in> set ops \<longrightarrow> good a"
  shows "\<exists>s' ins outs ys. run ops s = Some (s', ins, outs) \<and> rel s' ys \<and> xs @ ins = outs @ ys \<and> length ys \<le> cap"
  using assms
proof (induction ops arbitrary: s xs)
  case Nil
  then show ?case using within by auto
next
  case (Cons op ops)
  have good: "\<forall>a. Some a \<in> set ops \<longrightarrow> good a" using Cons.prems(2) by simp
  show ?case
  proof (cases op)
    case None
    show ?thesis
    proof (cases xs)
      case Nil
      then have "deq s = Some (s, None)" using Cons.prems(1) deq_empty by simp
      then show ?thesis using Cons.IH [OF Cons.prems(1) good] None by auto
    next
      case (Cons x xs')
      with Cons.prems(1) deq_first obtain s' where "deq s = Some (s', Some x)" "rel s' xs'" by blast
      then show ?thesis using Cons.IH [OF _ good, of s' xs'] None Cons by fastforce
    qed
  next
    case (Some a)
    show ?thesis
    proof (cases "length xs < cap")
      case True
      have "good a" using Cons.prems(2) Some by simp
      with Cons.prems(1) True enq_room obtain s' where "enq s a = Some (s', True)" "rel s' (xs @ [a])" by blast
      then show ?thesis using Cons.IH [OF _ good, of s' "xs @ [a]"] Some by fastforce
    next
      case False
      then have "enq s a = Some (s, False)" using Cons.prems(1) enq_full by blast
      then show ?thesis using Cons.IH [OF Cons.prems(1) good] Some by auto
    qed
  qed
qed

end

section \<open>The ring\<close>

text \<open>
  \<open>q_linked h cs\<close>: the elements \<open>cs\<close> form a ring. \<open>holds cs (h, q) xs\<close>: the queue on the ring \<open>cs\<close>, which
  starts at the element to be taken out next, holds the data \<open>xs\<close>.
\<close>

definition q_linked :: "osal_heap \<Rightarrow> ptr list \<Rightarrow> bool" where
  "q_linked h cs \<longleftrightarrow> cs \<noteq> [] \<and> distinct cs \<and> 0 \<notin> set cs
     \<and> (\<forall>i < length cs. \<exists>e. qcells h (cs ! i) = Some e \<and> qNext e = cs ! (Suc i mod length cs))"

definition data_at :: "osal_heap \<Rightarrow> ptr \<Rightarrow> ptr" where
  "data_at h p = (case qcells h p of None \<Rightarrow> 0 | Some e \<Rightarrow> qdata e)"

definition holds :: "osal_heap \<Rightarrow> ROCKCHIP_QUEUE \<Rightarrow> ptr list \<Rightarrow> ptr list \<Rightarrow> bool" where
  "holds h q cs xs \<longleftrightarrow> q_linked h cs \<and> qfirst q = hd cs \<and> qlast q = cs ! (length xs mod length cs)
     \<and> numElem q = int (length xs) \<and> int (length cs) \<le> maxNumElem q \<and> length xs \<le> length cs
     \<and> 0 \<notin> set xs \<and> map (data_at h) cs = xs @ replicate (length cs - length xs) 0"

lemma linkedD: "q_linked h cs \<Longrightarrow> i < length cs \<Longrightarrow> \<exists>e. qcells h (cs ! i) = Some e \<and> qNext e = cs ! (Suc i mod length cs)"
  by (simp add: q_linked_def)

lemma q_linked_upd:
  assumes "q_linked h cs" "upd_elem p f h = Some h'" "\<And>e. qNext (f e) = qNext e"
  shows "q_linked h' cs"
  using assms unfolding q_linked_def upd_elem_def by (fastforce simp: fun_upd_def)

lemma data_at_upd:
  "upd_elem p (\<lambda>e. e\<lparr>qdata := d\<rparr>) h = Some h' \<Longrightarrow> data_at h' = (data_at h)(p := d)"
  by (auto simp: upd_elem_def data_at_def fun_eq_iff)

lemma q_linked_rotate: "q_linked h cs \<Longrightarrow> q_linked h (rotate1 cs)"
proof -
  assume l: "q_linked h cs"
  have "cs \<noteq> []" using l by (simp add: q_linked_def)
  then have n: "i < length cs \<Longrightarrow> rotate1 cs ! i = cs ! (Suc i mod length cs)" for i by (simp add: nth_rotate1)
  have "\<exists>e. qcells h (rotate1 cs ! i) = Some e \<and> qNext e = rotate1 cs ! (Suc i mod length cs)" if "i < length cs" for i
  proof -
    have m: "Suc i mod length cs < length cs" using \<open>cs \<noteq> []\<close> by simp
    show ?thesis using linkedD [OF l m] that m by (simp add: n mod_Suc_eq)
  qed
  then show ?thesis using l by (simp add: q_linked_def)
qed

lemma holdsD:
  assumes "holds h q cs xs"
  shows "q_linked h cs" "0 < length cs" "length xs \<le> length cs" "numElem q = int (length xs)"
    "int (length cs) \<le> maxNumElem q" "qlast q = cs ! (length xs mod length cs)" "qfirst q = cs ! 0"
    and "i < length cs \<Longrightarrow> data_at h (cs ! i) = (if i < length xs then xs ! i else 0)"
    and "0 \<notin> set xs"
proof -
  note h = assms [unfolded holds_def]
  show "q_linked h cs" "length xs \<le> length cs" "numElem q = int (length xs)"
    "int (length cs) \<le> maxNumElem q" "qlast q = cs ! (length xs mod length cs)" "0 \<notin> set xs"
    using h by simp_all
  show "0 < length cs" using h by (simp add: q_linked_def)
  then show "qfirst q = cs ! 0" using h by (simp add: hd_conv_nth)
  assume i: "i < length cs"
  have "data_at h (cs ! i) = map (data_at h) cs ! i" using i by simp
  also have "\<dots> = (xs @ replicate (length cs - length xs) 0) ! i" using h by simp
  finally show "data_at h (cs ! i) = (if i < length xs then xs ! i else 0)" using i h by (simp add: nth_append)
qed

lemma holdsI:
  assumes "q_linked h cs" "length xs \<le> length cs" "numElem q = int (length xs)" "int (length cs) \<le> maxNumElem q"
    and "qlast q = cs ! (length xs mod length cs)" "qfirst q = cs ! 0" "0 \<notin> set xs"
    and "\<And>i. i < length cs \<Longrightarrow> data_at h (cs ! i) = (if i < length xs then xs ! i else 0)"
  shows "holds h q cs xs"
proof -
  have "cs \<noteq> []" using assms(1) by (simp add: q_linked_def)
  moreover have "map (data_at h) cs = xs @ replicate (length cs - length xs) 0"
    using assms(2,8) by (intro nth_equalityI) (simp_all add: nth_append)
  ultimately show ?thesis using assms(1-7) by (simp add: holds_def hd_conv_nth)
qed

lemma Queue_room:
  assumes "holds h q cs xs" "d \<noteq> 0" "length xs < length cs"
  shows "\<exists>h' q'. Rockchip_OSAL_Queue (Some q) d h = Some (h', Some q', 0) \<and> holds h' q' cs (xs @ [d])
    \<and> maxNumElem q' = maxNumElem q"
proof -
  note h = holdsD [OF assms(1)]
  have dist: "distinct cs" using h(1) by (simp add: q_linked_def)
  have last: "qlast q = cs ! length xs" using h(6) assms(3) by simp
  obtain e where e: "qcells h (cs ! length xs) = Some e" "qNext e = cs ! (Suc (length xs) mod length cs)"
    using linkedD [OF h(1) assms(3)] by blast
  have "qdata e = 0" using h(8) [OF assms(3)] e(1) by (simp add: data_at_def)
  let ?f = "\<lambda>e. e\<lparr>qdata := d\<rparr>"
  obtain h' where h': "upd_elem (cs ! length xs) ?f h = Some h'" using e(1) by (simp add: upd_elem_def)
  let ?q = "q\<lparr>qlast := qNext e, numElem := numElem q + 1\<rparr>"
  have "Rockchip_OSAL_Queue (Some q) d h = Some (h', Some ?q, 0)"
    using e(1) \<open>qdata e = 0\<close> h(4,5) assms(3) h' by (simp add: Rockchip_OSAL_Queue_def last)
  moreover have "holds h' ?q cs (xs @ [d])"
  proof (rule holdsI)
    show "q_linked h' cs" by (rule q_linked_upd [OF h(1) h']) simp
    show "data_at h' (cs ! i) = (if i < length (xs @ [d]) then (xs @ [d]) ! i else 0)" if "i < length cs" for i
      using that h(8) [OF that] assms(3) dist
      by (auto simp: data_at_upd [OF h'] nth_append nth_eq_iff_index_eq)
  qed (use h e(2) assms in auto)
  ultimately show ?thesis by auto
qed

lemma Queue_full:
  assumes "holds h q cs xs" "\<not> length xs < length cs"
  shows "Rockchip_OSAL_Queue (Some q) d h = Some (h, Some q, - 1)"
proof -
  note h = holdsD [OF assms(1)]
  have "length xs = length cs" using h(3) assms(2) by simp
  then have "data_at h (cs ! 0) = xs ! 0" "xs ! 0 \<in> set xs" "qlast q = cs ! 0" using h(2,6) h(8) [of 0] by auto
  moreover obtain e where "qcells h (cs ! 0) = Some e" using linkedD [OF h(1,2)] by blast
  moreover have "xs ! 0 \<noteq> 0" using h(9) calculation(2) by metis
  ultimately show ?thesis by (simp add: Rockchip_OSAL_Queue_def data_at_def)
qed

lemma Dequeue_empty:
  assumes "holds h q cs []"
  shows "Rockchip_OSAL_Dequeue (Some q) h = Some (h, Some q, 0)"
proof -
  note h = holdsD [OF assms]
  obtain e where "qcells h (cs ! 0) = Some e" using linkedD [OF h(1,2)] by blast
  then show ?thesis using h(4,7) by (simp add: Rockchip_OSAL_Dequeue_def)
qed

lemma Dequeue_first:
  assumes "holds h q cs (x # xs)"
  shows "\<exists>h' q'. Rockchip_OSAL_Dequeue (Some q) h = Some (h', Some q', x) \<and> holds h' q' (rotate1 cs) xs
    \<and> maxNumElem q' = maxNumElem q"
proof -
  note h = holdsD [OF assms]
  have dist: "distinct cs" using h(1) by (simp add: q_linked_def)
  obtain e where e: "qcells h (cs ! 0) = Some e" "qNext e = cs ! (1 mod length cs)"
    using linkedD [OF h(1,2)] by auto
  have x: "qdata e = x" "x \<noteq> 0" using h(8) [OF h(2)] h(9) e(1) by (auto simp: data_at_def)
  let ?f = "\<lambda>e. e\<lparr>qdata := 0\<rparr>"
  obtain h' where h': "upd_elem (cs ! 0) ?f h = Some h'" using e(1) by (simp add: upd_elem_def)
  let ?q = "q\<lparr>qfirst := qNext e, numElem := numElem q - 1\<rparr>"
  have "Rockchip_OSAL_Dequeue (Some q) h = Some (h', Some ?q, x)"
    using e(1) x h(4,7) h' by (simp add: Rockchip_OSAL_Dequeue_def)
  moreover have "holds h' ?q (rotate1 cs) xs"
  proof (rule holdsI)
    have l: "q_linked h' cs" by (rule q_linked_upd [OF h(1) h']) simp
    then show "q_linked h' (rotate1 cs)" by (rule q_linked_rotate)
    have n: "i < length cs \<Longrightarrow> rotate1 cs ! i = cs ! (Suc i mod length cs)" for i by (simp add: nth_rotate1)
    show "data_at h' (rotate1 cs ! i) = (if i < length xs then xs ! i else 0)" if "i < length (rotate1 cs)" for i
    proof (cases "Suc i = length cs")
      case True
      then show ?thesis using h(3) that by (simp add: n data_at_upd [OF h'])
    next
      case False
      then have i: "Suc i < length cs" using that by simp
      then have "cs ! Suc i \<noteq> cs ! 0" using dist h(2) by (simp add: nth_eq_iff_index_eq)
      then show ?thesis using h(8) [OF i] that i by (simp add: n data_at_upd [OF h'])
    qed
    show "qlast ?q = rotate1 cs ! (length xs mod length (rotate1 cs))"
      using h(2,3,6) by (simp add: n)
    show "qfirst ?q = rotate1 cs ! 0" using h(2) e(2) by (simp add: n)
  qed (use h in auto)
  ultimately show ?thesis by auto
qed

text \<open>A queue on a ring of \<open>n\<close> elements keeps the contract.\<close>

type_synonym queue_state = "osal_heap \<times> ROCKCHIP_QUEUE"

definition ring_enq :: "queue_state \<Rightarrow> ptr \<Rightarrow> (queue_state \<times> bool) option" where
  "ring_enq s d = Option.bind (Rockchip_OSAL_Queue (Some (snd s)) d (fst s))
     (\<lambda>(h, q, r). map_option (\<lambda>q. ((h, q), r = 0)) q)"

definition ring_deq :: "queue_state \<Rightarrow> (queue_state \<times> ptr option) option" where
  "ring_deq s = Option.bind (Rockchip_OSAL_Dequeue (Some (snd s)) (fst s))
     (\<lambda>(h, q, d). map_option (\<lambda>q. ((h, q), if d = 0 then None else Some d)) q)"

definition ring_holds :: "nat \<Rightarrow> queue_state \<Rightarrow> ptr list \<Rightarrow> bool" where
  "ring_holds n s xs \<longleftrightarrow> (\<exists>cs. length cs = n \<and> holds (fst s) (snd s) cs xs)"

interpretation ring: bounded_fifo ring_enq ring_deq "ring_holds n" "\<lambda>d. d \<noteq> 0" n for n
proof
  fix s xs and d :: ptr
  assume "ring_holds n s xs" "d \<noteq> 0" "length xs < n"
  then obtain cs where cs: "length cs = n" "holds (fst s) (snd s) cs xs" by (auto simp: ring_holds_def)
  from Queue_room [OF cs(2) \<open>d \<noteq> 0\<close>] cs(1) \<open>length xs < n\<close>
  show "\<exists>s'. ring_enq s d = Some (s', True) \<and> ring_holds n s' (xs @ [d])"
    by (auto simp: ring_enq_def ring_holds_def)
next
  fix s xs d
  assume "ring_holds n s xs" "\<not> length xs < n"
  then show "ring_enq s d = Some (s, False)" by (auto simp: ring_enq_def ring_holds_def Queue_full)
next
  fix s
  assume "ring_holds n s []"
  then show "ring_deq s = Some (s, None)" by (auto simp: ring_deq_def ring_holds_def Dequeue_empty)
next
  fix s x xs
  assume "ring_holds n s (x # xs)"
  then obtain cs where cs: "length cs = n" "holds (fst s) (snd s) cs (x # xs)" by (auto simp: ring_holds_def)
  have "x \<noteq> 0" using holdsD(9) [OF cs(2)] by auto
  with Dequeue_first [OF cs(2)] cs(1)
  show "\<exists>s'. ring_deq s = Some (s', Some x) \<and> ring_holds n s' xs"
    by (auto simp: ring_deq_def ring_holds_def) (metis length_rotate1)
next
  show "ring_holds n s xs \<Longrightarrow> length xs \<le> n" for s xs by (auto simp: ring_holds_def dest: holdsD(3))
qed

section \<open>Creation and termination\<close>

text \<open>An allocator returns NULL or a pointer to an element that is not allocated.\<close>

definition malloc_ok :: "osal_env \<Rightarrow> bool" where
  "malloc_ok E \<longleftrightarrow> (\<forall>h. q_malloc E h \<noteq> 0 \<longrightarrow> qcells h (q_malloc E h) = None)"

text \<open>\<open>chained h cs p\<close>: the elements \<open>cs\<close> follow each other, the last one points to \<open>p\<close>, and their data is NULL.\<close>

definition chained :: "osal_heap \<Rightarrow> ptr list \<Rightarrow> ptr \<Rightarrow> bool" where
  "chained h cs p \<longleftrightarrow> cs \<noteq> [] \<and> distinct cs \<and> 0 \<notin> set cs
     \<and> (\<forall>i < length cs. qcells h (cs ! i) = Some \<lparr>qdata = 0, qNext = (if Suc i < length cs then cs ! Suc i else p)\<rparr>)"

text \<open>The heap \<open>h\<close> without the elements \<open>A\<close> is the heap \<open>h0\<close>, which has none of them.\<close>

definition added :: "osal_heap \<Rightarrow> ptr set \<Rightarrow> osal_heap \<Rightarrow> bool" where
  "added h0 A h \<longleftrightarrow> mutexes h = mutexes h0 \<and> (\<forall>p. if p \<in> A then qcells h0 p = None else qcells h p = qcells h0 p)"

lemma chained_append:
  assumes "chained h cs 0" "qcells h p = None" "p \<noteq> 0" "cur = last cs"
  shows "\<exists>h'. upd_elem cur (\<lambda>e. e\<lparr>qNext := p\<rparr>) (h\<lparr>qcells := (qcells h)(p \<mapsto> zero_elem)\<rparr>) = Some h'
    \<and> chained h' (cs @ [p]) 0 \<and> (\<forall>x. x \<notin> set (cs @ [p]) \<longrightarrow> qcells h' x = qcells h x) \<and> mutexes h' = mutexes h"
proof -
  note c = assms(1) [unfolded chained_def]
  have cur: "cur = cs ! (length cs - 1)" "cur \<in> set cs" using c assms(4) by (simp_all add: last_conv_nth)
  have new: "p \<notin> set cs" using c assms(2) by (auto simp: in_set_conv_nth)
  have e: "qcells h cur = Some \<lparr>qdata = 0, qNext = 0\<rparr>" using c by (simp add: cur(1))
  let ?h = "h\<lparr>qcells := ((qcells h)(p \<mapsto> zero_elem))(cur \<mapsto> \<lparr>qdata = 0, qNext = p\<rparr>)\<rparr>"
  have "upd_elem cur (\<lambda>e. e\<lparr>qNext := p\<rparr>) (h\<lparr>qcells := (qcells h)(p \<mapsto> zero_elem)\<rparr>) = Some ?h"
    using e new cur(2) by (auto simp: upd_elem_def)
  moreover have "chained ?h (cs @ [p]) 0"
    unfolding chained_def
  proof (intro conjI allI impI)
    fix i assume i: "i < length (cs @ [p])"
    show "qcells ?h ((cs @ [p]) ! i) =
      Some \<lparr>qdata = 0, qNext = (if Suc i < length (cs @ [p]) then (cs @ [p]) ! Suc i else 0)\<rparr>"
    proof (cases "i = length cs")
      case True
      then show ?thesis using new cur(2) by (auto simp: zero_elem_def)
    next
      case False
      then have i: "i < length cs" using i by simp
      have "cs ! i \<in> set cs" using i by simp
      then have "cs ! i \<noteq> p" using new by metis
      moreover have "cs ! i = cur \<longleftrightarrow> Suc i = length cs"
        using c i by (auto simp: cur(1) nth_eq_iff_index_eq)
      ultimately show ?thesis using c i by (auto simp: nth_append less_Suc_eq)
    qed
  qed (use c new assms(3) in auto)
  ultimately show ?thesis using cur(2) by (intro exI [of _ ?h]) auto
qed

lemma create_elems_spec:
  assumes "malloc_ok E" "chained h cs 0" "cur = last cs" "added h0 (set cs) h"
  shows "\<exists>h' cs' ok. create_elems E n cur h = Some (h', last (cs @ cs'), ok) \<and> chained h' (cs @ cs') 0
     \<and> (ok \<longrightarrow> length cs' = n) \<and> added h0 (set (cs @ cs')) h'"
  using assms(2-4)
proof (induction n arbitrary: cs cur h)
  case 0
  then show ?case by (intro exI [of _ h] exI [of _ "[]"] exI [of _ True]) simp
next
  case (Suc n)
  show ?case
  proof (cases "q_malloc E h = 0")
    case True
    then show ?thesis using Suc.prems by (intro exI [of _ h] exI [of _ "[]"] exI [of _ False]) simp
  next
    case False
    let ?p = "q_malloc E h"
    have "qcells h ?p = None" using assms(1) False by (simp add: malloc_ok_def)
    from chained_append [OF Suc.prems(1) this False Suc.prems(2)] obtain h1 where
      h1: "upd_elem cur (\<lambda>e. e\<lparr>qNext := ?p\<rparr>) (h\<lparr>qcells := (qcells h)(?p \<mapsto> zero_elem)\<rparr>) = Some h1"
        "chained h1 (cs @ [?p]) 0" "\<forall>x. x \<notin> set (cs @ [?p]) \<longrightarrow> qcells h1 x = qcells h x" "mutexes h1 = mutexes h"
      by blast
    have "qcells h0 ?p = None"
      using Suc.prems(3) \<open>qcells h ?p = None\<close> unfolding added_def by metis
    then have "added h0 (set (cs @ [?p])) h1" using Suc.prems(3) h1(3,4) by (auto simp: added_def)
    from Suc.IH [OF h1(2) _ this, of ?p] obtain h' cs' ok where
      "create_elems E n ?p h1 = Some (h', last ((cs @ [?p]) @ cs'), ok)" "chained h' ((cs @ [?p]) @ cs') 0"
      "ok \<longrightarrow> length cs' = n" "added h0 (set ((cs @ [?p]) @ cs')) h'" by auto
    then show ?thesis
      using False h1(1) by (intro exI [of _ h'] exI [of _ "?p # cs'"] exI [of _ ok]) (simp add: Let_def)
  qed
qed

fun path :: "osal_heap \<Rightarrow> ptr list \<Rightarrow> ptr \<Rightarrow> bool" where
  "path h [] p = True"
| "path h (c # cs) p = ((\<exists>e. qcells h c = Some e \<and> qNext e = (case cs of [] \<Rightarrow> p | d # _ \<Rightarrow> d)) \<and> path h cs p)"

lemma path_nth:
  "(\<And>i. i < length cs \<Longrightarrow> \<exists>e. qcells h (cs ! i) = Some e \<and> qNext e = (if Suc i < length cs then cs ! Suc i else p))
     \<Longrightarrow> path h cs p"
proof (induction cs)
  case (Cons c cs)
  have "path h cs p"
  proof (rule Cons.IH)
    show "\<exists>e. qcells h (cs ! i) = Some e \<and> qNext e = (if Suc i < length cs then cs ! Suc i else p)"
      if "i < length cs" for i using Cons.prems [of "Suc i"] that by (cases "Suc i < length cs") simp_all
  qed
  then show ?case using Cons.prems [of 0] by (auto split: list.splits)
qed simp

lemma chained_path: "chained h cs p \<Longrightarrow> path h cs p"
  by (rule path_nth) (simp add: chained_def)

lemma q_linked_path: "q_linked h cs \<Longrightarrow> path h cs (cs ! 0)"
proof (rule path_nth)
  fix i assume l: "q_linked h cs" and i: "i < length cs"
  then show "\<exists>e. qcells h (cs ! i) = Some e \<and> qNext e = (if Suc i < length cs then cs ! Suc i else cs ! 0)"
    using linkedD [OF l i] by (cases "Suc i = length cs") auto
qed

lemma path_cong: "\<forall>c \<in> set cs. qcells h' c = qcells h c \<Longrightarrow> path h' cs p = path h cs p"
  by (induction cs) auto

lemma path_removed: "path h cs p \<Longrightarrow> c \<notin> set cs \<Longrightarrow> path (h\<lparr>qcells := (qcells h)(c := None)\<rparr>) cs p"
  by (induction cs) (auto split: list.splits)

definition removed :: "ptr set \<Rightarrow> osal_heap \<Rightarrow> osal_heap" where
  "removed A h = h\<lparr>qcells := (\<lambda>p. if p \<in> A then None else qcells h p)\<rparr>"

lemma removed_insert: "removed A (h\<lparr>qcells := (qcells h)(c := None)\<rparr>) = removed (insert c A) h"
  by (auto simp: removed_def fun_eq_iff)

lemma added_same:
  "added h0 A h \<Longrightarrow> \<forall>x. x \<notin> A \<longrightarrow> qcells h' x = qcells h x \<Longrightarrow> mutexes h' = mutexes h \<Longrightarrow> added h0 A h'"
  unfolding added_def by metis

lemma removed_added: "added h0 A h \<Longrightarrow> removed A h = h0"
  by (rule osal_heap.equality) (auto simp: added_def removed_def fun_eq_iff)

lemma free_elems_path:
  "path h cs 0 \<Longrightarrow> distinct cs \<Longrightarrow> 0 \<notin> set cs \<Longrightarrow> free_elems (case cs of [] \<Rightarrow> 0 | c # _ \<Rightarrow> c) h = Some (removed (set cs) h)"
proof (induction cs arbitrary: h)
  case Nil
  then show ?case by (subst free_elems.simps) (simp add: removed_def)
next
  case (Cons c cs)
  let ?h = "h\<lparr>qcells := (qcells h)(c := None)\<rparr>"
  obtain e where e: "qcells h c = Some e" "qNext e = (case cs of [] \<Rightarrow> 0 | d # _ \<Rightarrow> d)" using Cons.prems(1) by auto
  have "free_elems (case cs of [] \<Rightarrow> 0 | c # _ \<Rightarrow> c) ?h = Some (removed (set cs) ?h)"
    using Cons.prems by (intro Cons.IH path_removed) auto
  then show ?case
    using e Cons.prems(3) by (subst free_elems.simps) (simp add: free_elem_def removed_insert)
qed

lemma terminate_elems_path:
  "path h cs p \<Longrightarrow> distinct cs \<Longrightarrow>
     terminate_elems (length cs) (case cs of [] \<Rightarrow> p | c # _ \<Rightarrow> c) h = Some (removed (set cs) h, p)"
proof (induction cs arbitrary: h)
  case Nil
  then show ?case by (simp add: removed_def)
next
  case (Cons c cs)
  let ?h = "h\<lparr>qcells := (qcells h)(c := None)\<rparr>"
  obtain e where e: "qcells h c = Some e" "qNext e = (case cs of [] \<Rightarrow> p | d # _ \<Rightarrow> d)" using Cons.prems(1) by auto
  have "terminate_elems (length cs) (case cs of [] \<Rightarrow> p | c # _ \<Rightarrow> c) ?h = Some (removed (set cs) ?h, p)"
    using Cons.prems by (intro Cons.IH path_removed) auto
  then show ?case using e by (simp add: free_elem_def removed_insert)
qed

lemma close_ring:
  assumes c: "chained h cs 0"
  shows "\<exists>h'. upd_elem (last cs) (\<lambda>e. e\<lparr>qNext := hd cs\<rparr>) h = Some h' \<and> q_linked h' cs
    \<and> (\<forall>p \<in> set cs. data_at h' p = 0) \<and> (\<forall>p. p \<notin> set cs \<longrightarrow> qcells h' p = qcells h p) \<and> mutexes h' = mutexes h"
proof -
  note d = c [unfolded chained_def]
  have ne: "cs \<noteq> []" using d by simp
  have last: "last cs = cs ! (length cs - 1)" "hd cs = cs ! 0" using ne by (simp_all add: last_conv_nth hd_conv_nth)
  let ?h = "h\<lparr>qcells := (qcells h)(last cs \<mapsto> \<lparr>qdata = 0, qNext = hd cs\<rparr>)\<rparr>"
  have cell: "qcells ?h (cs ! i) = Some \<lparr>qdata = 0, qNext = cs ! (Suc i mod length cs)\<rparr>" if "i < length cs" for i
  proof (cases "Suc i = length cs")
    case True
    then have "cs ! i = last cs" by (simp add: last flip: True)
    then show ?thesis using True by (simp add: last)
  next
    case False
    then have "cs ! i \<noteq> last cs" using d that by (simp add: last nth_eq_iff_index_eq)
    then show ?thesis using d that False by simp
  qed
  have "upd_elem (last cs) (\<lambda>e. e\<lparr>qNext := hd cs\<rparr>) h = Some ?h" using d ne by (simp add: upd_elem_def last)
  moreover have "q_linked ?h cs" using d cell by (simp add: q_linked_def)
  moreover have "\<forall>p \<in> set cs. data_at ?h p = 0"
  proof
    fix p assume "p \<in> set cs"
    then obtain i where i: "i < length cs" "p = cs ! i" by (auto simp: in_set_conv_nth)
    show "data_at ?h p = 0" unfolding data_at_def i(2) cell [OF i(1)] by simp
  qed
  ultimately show ?thesis using ne by (intro exI [of _ ?h]) auto
qed

lemma QueueCreate_cases:
  assumes "malloc_ok E" "mutex_create E h = OMX_ErrorNone" "1 \<le> n"
  shows "\<exists>h' q' e. Rockchip_OSAL_QueueCreate E (Some q) n h = Some (h', Some q', e)
    \<and> (if e = OMX_ErrorNone
       then \<exists>cs. length cs = max 1 (nat n - 1) \<and> holds h' q' cs [] \<and> maxNumElem q' = n
          \<and> added (h\<lparr>mutexes := mutexes h + 1\<rparr>) (set cs) h'
       else e = OMX_ErrorInsufficientResources \<and> h' = h\<lparr>mutexes := mutexes h + 1\<rparr>)"
proof -
  let ?h1 = "h\<lparr>mutexes := mutexes h + 1\<rparr>"
  let ?p = "q_malloc E ?h1"
  show ?thesis
  proof (cases "?p = 0")
    case True
    then show ?thesis using assms(2) by (simp add: Rockchip_OSAL_QueueCreate_def)
  next
    case False
    let ?h2 = "?h1\<lparr>qcells := (qcells ?h1)(?p \<mapsto> zero_elem)\<rparr>"
    let ?q = "q\<lparr>qfirst := ?p, qlast := ?p, numElem := 0, maxNumElem := n\<rparr>"
    have new: "qcells h ?p = None" using assms(1) False unfolding malloc_ok_def by fastforce
    have "chained ?h2 [?p] 0" using False by (simp add: chained_def zero_elem_def)
    moreover have "added ?h1 (set [?p]) ?h2" using new by (simp add: added_def)
    ultimately obtain h3 cs' ok where c: "create_elems E (nat (n - 2)) ?p ?h2 = Some (h3, last ([?p] @ cs'), ok)"
      "chained h3 ([?p] @ cs') 0" "ok \<longrightarrow> length cs' = nat (n - 2)" "added ?h1 (set ([?p] @ cs')) h3"
      using create_elems_spec [OF assms(1), of ?h2 "[?p]" ?p ?h1 "nat (n - 2)"] by auto
    let ?cs = "[?p] @ cs'"
    have create: "Rockchip_OSAL_QueueCreate E (Some q) n h =
        (if \<not> ok then map_option (\<lambda>h4. (h4, Some (?q\<lparr>qfirst := 0\<rparr>), OMX_ErrorInsufficientResources)) (free_elems ?p h3)
         else map_option (\<lambda>h4. (h4, Some ?q, OMX_ErrorNone)) (upd_elem (last ?cs) (\<lambda>e. e\<lparr>qNext := ?p\<rparr>) h3))"
      using assms(2) False c(1) by (simp add: Rockchip_OSAL_QueueCreate_def Let_def)
    show ?thesis
    proof (cases ok)
      case False
      have dist: "distinct ?cs" "0 \<notin> set ?cs" using c(2) by (simp_all add: chained_def)
      have "free_elems ?p h3 = Some (removed (set ?cs) h3)"
        using free_elems_path [OF chained_path [OF c(2)] dist] by simp
      moreover have "removed (set ?cs) h3 = ?h1" by (rule removed_added [OF c(4)])
      ultimately show ?thesis using False by (simp add: create)
    next
      case True
      obtain h4 where h4: "upd_elem (last ?cs) (\<lambda>e. e\<lparr>qNext := ?p\<rparr>) h3 = Some h4" "q_linked h4 ?cs"
        "\<forall>x \<in> set ?cs. data_at h4 x = 0" "\<forall>x. x \<notin> set ?cs \<longrightarrow> qcells h4 x = qcells h3 x" "mutexes h4 = mutexes h3"
        using close_ring [OF c(2)] by auto
      have len: "length ?cs = max 1 (nat n - 1)" using c(3) True assms(3) by auto
      have "holds h4 ?q ?cs []"
      proof (rule holdsI)
        show "data_at h4 (?cs ! i) = (if i < length [] then [] ! i else 0)" if "i < length ?cs" for i
          using h4(3) nth_mem [OF that] by (metis length_0_conv less_nat_zero_code)
      qed (use h4(2) len assms(3) in auto)
      moreover have "added ?h1 (set ?cs) h4" by (rule added_same [OF c(4) h4(4,5)])
      ultimately have "\<exists>cs. length cs = max 1 (nat n - 1) \<and> holds h4 ?q cs [] \<and> maxNumElem ?q = n \<and> added ?h1 (set cs) h4"
        using len by (intro exI [of _ ?cs]) simp
      moreover have "Rockchip_OSAL_QueueCreate E (Some q) n h = Some (h4, Some ?q, OMX_ErrorNone)"
        using True h4(1) by (simp add: create)
      ultimately show ?thesis
        by (intro exI [of _ h4] exI [of _ ?q] exI [of _ OMX_ErrorNone]) (simp only: simp_thms if_True)
    qed
  qed
qed

text \<open>
  Creating a queue for at least one element on a heap with a correct allocator, when it ends well,
  leaves an empty queue on a ring of new elements, one less than asked for (but at least one), and
  otherwise the elements are as before; the mutex that was created remains in both cases.
\<close>

theorem Rockchip_OSAL_QueueCreate_result:
  assumes "malloc_ok E" "mutex_create E h = OMX_ErrorNone" "1 \<le> n"
  shows "\<exists>h' q' e. Rockchip_OSAL_QueueCreate E (Some q) n h = Some (h', Some q', e)
    \<and> (if e = OMX_ErrorNone
       then \<exists>cs. length cs = max 1 (nat n - 1) \<and> holds h' q' cs [] \<and> maxNumElem q' = n
          \<and> added (h\<lparr>mutexes := mutexes h + 1\<rparr>) (set cs) h'
       else e = OMX_ErrorInsufficientResources \<and> h' = h\<lparr>mutexes := mutexes h + 1\<rparr>)"
  by (rule QueueCreate_cases [OF assms])

text \<open>
  C37: Any sequence of requests to put in data other than NULL and to take data out, on an empty queue
  that was created for \<open>n\<close> elements, runs without a fault. What was taken out, followed by what the queue
  still holds, is what was accepted, in this order, and the queue never holds more than \<open>n - 1\<close> data
  (one when \<open>n\<close> is 1).
\<close>

theorem Rockchip_OSAL_Queue_in_order:
  assumes "malloc_ok E" "1 \<le> n" "Rockchip_OSAL_QueueCreate E (Some q0) n h0 = Some (h, Some q, OMX_ErrorNone)"
    and "Some 0 \<notin> set ops"
  shows "\<exists>h' q' ins outs ys cs. ring.run ops (h, q) = Some ((h', q'), ins, outs) \<and> ins = outs @ ys
    \<and> holds h' q' cs ys \<and> length ys \<le> max 1 (nat n - 1)"
proof -
  have "mutex_create E h0 = OMX_ErrorNone"
    using assms(3) by (auto simp: Rockchip_OSAL_QueueCreate_def split: if_splits)
  from QueueCreate_cases [OF assms(1) this assms(2), of q0] assms(3)
  have "ring_holds (max 1 (nat n - 1)) (h, q) []" by (auto simp: ring_holds_def)
  moreover have "\<forall>a. Some a \<in> set ops \<longrightarrow> a \<noteq> 0" using assms(4) by metis
  ultimately obtain s' ins outs ys where "ring.run ops (h, q) = Some (s', ins, outs)"
    "ring_holds (max 1 (nat n - 1)) s' ys" "[] @ ins = outs @ ys" "length ys \<le> max 1 (nat n - 1)"
    using ring.run_in_order by blast
  then show ?thesis by (cases s') (auto simp: ring_holds_def)
qed

lemma path_append: "path h (xs @ [y]) p = (path h xs y \<and> (\<exists>e. qcells h y = Some e \<and> qNext e = p))"
  by (induction xs) (auto split: list.splits)

text \<open>
  Terminating a queue frees every element of its ring and its mutex, whatever the queue holds.
\<close>

theorem Rockchip_OSAL_QueueTerminate_frees:
  assumes "holds h q cs xs" "length cs = max 1 (nat (maxNumElem q) - 1)"
  shows "Rockchip_OSAL_QueueTerminate (Some q) h
    = Some ((removed (set cs) h)\<lparr>mutexes := mutexes h - 1\<rparr>, Some (q\<lparr>qfirst := 0\<rparr>), OMX_ErrorNone)"
proof -
  note h = holdsD [OF assms(1)]
  have l: "distinct cs" "0 \<notin> set cs" "cs \<noteq> []" using h(1) by (simp_all add: q_linked_def)
  obtain bs c where bs: "cs = bs @ [c]" using l(3) by (metis append_butlast_last_id)
  have "path h bs c \<and> (\<exists>e. qcells h c = Some e)" using q_linked_path [OF h(1)] unfolding bs path_append by blast
  then obtain e where p: "path h bs c" "qcells h c = Some e" by blast
  have "nat (maxNumElem q - 2) = length bs" using assms(2) h(2,5) by (simp add: bs)
  moreover have "qfirst q = (case bs of [] \<Rightarrow> c | d # _ \<Rightarrow> d)" using h(7) by (cases bs) (simp_all add: bs)
  ultimately have t: "terminate_elems (nat (maxNumElem q - 2)) (qfirst q) h = Some (removed (set bs) h, c)"
    using terminate_elems_path [OF p(1)] l(1) by (simp add: bs)
  have "qcells (removed (set bs) h) c = Some e" using p(2) l(1) by (simp add: removed_def bs)
  moreover have "c \<noteq> 0" using l(2) by (auto simp: bs)
  ultimately show ?thesis
    by (simp add: Rockchip_OSAL_QueueTerminate_def t free_elem_def)
      (auto simp: removed_def bs fun_eq_iff intro!: osal_heap.equality)
qed

lemma reset_elems_path:
  "path h cs stop \<Longrightarrow> distinct cs \<Longrightarrow> stop \<notin> set cs \<Longrightarrow>
     reset_elems stop (case cs of [] \<Rightarrow> stop | c # _ \<Rightarrow> c) h
       = Some (h\<lparr>qcells := (\<lambda>p. if p \<in> set cs then map_option (\<lambda>e. e\<lparr>qdata := 0\<rparr>) (qcells h p) else qcells h p)\<rparr>)"
proof (induction cs arbitrary: h)
  case Nil
  then show ?case by (subst reset_elems.simps) simp
next
  case (Cons c cs)
  obtain e where e: "qcells h c = Some e" "qNext e = (case cs of [] \<Rightarrow> stop | d # _ \<Rightarrow> d)" using Cons.prems(1) by auto
  let ?h = "h\<lparr>qcells := (qcells h)(c \<mapsto> e\<lparr>qdata := 0\<rparr>)\<rparr>"
  have "path ?h cs stop" using Cons.prems(1,2) path_cong [of cs h ?h stop] by auto
  then have "reset_elems stop (case cs of [] \<Rightarrow> stop | c # _ \<Rightarrow> c) ?h
      = Some (?h\<lparr>qcells := (\<lambda>p. if p \<in> set cs then map_option (\<lambda>e. e\<lparr>qdata := 0\<rparr>) (qcells ?h p) else qcells ?h p)\<rparr>)"
    using Cons.prems by (intro Cons.IH) auto
  also have "\<dots> = Some (h\<lparr>qcells := (\<lambda>p. if p \<in> set (c # cs) then map_option (\<lambda>e. e\<lparr>qdata := 0\<rparr>) (qcells h p) else qcells h p)\<rparr>)"
    using Cons.prems(2) e(1) by (auto simp: fun_eq_iff)
  finally show ?case
    using e Cons.prems(3) by (subst reset_elems.simps) (simp add: upd_elem_def)
qed

text \<open>
  Resetting a queue returns, whatever the queue has been brought into, and leaves it empty.
\<close>

theorem Rockchip_OSAL_ResetQueue_empties:
  assumes "q_linked h cs" "qfirst q = hd cs" "int (length cs) \<le> maxNumElem q"
  shows "\<exists>h' q'. Rockchip_OSAL_ResetQueue (Some q) h = Some (h', Some q', 0) \<and> holds h' q' cs []"
proof -
  obtain c cs' where cs: "cs = c # cs'" using assms(1) by (cases cs) (auto simp: q_linked_def)
  have l: "distinct cs'" "c \<notin> set cs'" using assms(1) by (simp_all add: q_linked_def cs)
  have p: "path h (c # cs') c" using q_linked_path [OF assms(1)] by (simp add: cs)
  then obtain e where e: "qcells h c = Some e" "qNext e = (case cs' of [] \<Rightarrow> c | d # _ \<Rightarrow> d)" by auto
  let ?z = "\<lambda>e. e\<lparr>qdata := 0\<rparr>"
  let ?h1 = "h\<lparr>qcells := (qcells h)(c \<mapsto> ?z e)\<rparr>"
  have "path ?h1 cs' c" using p l(2) path_cong [of cs' h ?h1 c] by auto
  note r = reset_elems_path [OF this l]
  let ?h = "?h1\<lparr>qcells := (\<lambda>p. if p \<in> set cs' then map_option ?z (qcells ?h1 p) else qcells ?h1 p)\<rparr>"
  let ?q = "q\<lparr>qlast := c, numElem := 0\<rparr>"
  have cells: "qcells ?h x = map_option ?z (qcells h x)" if "x \<in> set cs" for x
    using that e(1) l(2) by (auto simp: cs)
  have "Rockchip_OSAL_ResetQueue (Some q) h = Some (?h, Some ?q, 0)"
    using assms(2) e r by (simp add: Rockchip_OSAL_ResetQueue_def upd_elem_def cs)
  moreover have "holds ?h ?q cs []"
  proof (rule holdsI)
    show "q_linked ?h cs"
      unfolding q_linked_def
    proof (intro conjI allI impI)
      fix i assume i: "i < length cs"
      show "\<exists>e. qcells ?h (cs ! i) = Some e \<and> qNext e = cs ! (Suc i mod length cs)"
        unfolding cells [OF nth_mem [OF i]] using linkedD [OF assms(1) i] by auto
    qed (use assms(1) in \<open>simp_all add: q_linked_def\<close>)
    show "data_at ?h (cs ! i) = (if i < length [] then [] ! i else 0)" if "i < length cs" for i
      using linkedD [OF assms(1) that] cells [OF nth_mem [OF that]] by (auto simp: data_at_def)
  qed (use assms in \<open>simp_all add: cs\<close>)
  ultimately show ?thesis by blast
qed

text \<open>
  NULL is accepted as data, but it cannot be taken out, and it holds back what is put in after it:
  the queue counts two data and gives none.
\<close>

theorem Rockchip_OSAL_Queue_null_blocks:
  assumes "holds h q cs []" "2 \<le> length cs" "d \<noteq> 0"
  shows "\<exists>h1 q1 h2 q2. Rockchip_OSAL_Queue (Some q) 0 h = Some (h1, Some q1, 0)
    \<and> Rockchip_OSAL_Queue (Some q1) d h1 = Some (h2, Some q2, 0)
    \<and> Rockchip_OSAL_GetElemNum (Some q2) = 2 \<and> Rockchip_OSAL_Dequeue (Some q2) h2 = Some (h2, Some q2, 0)"
proof -
  note h = holdsD [OF assms(1)]
  have one: "1 < length cs" and ne: "cs ! 0 \<noteq> cs ! 1"
    using assms(2) h(1) by (simp_all add: q_linked_def nth_eq_iff_index_eq)
  obtain e0 where e0: "qcells h (cs ! 0) = Some e0" "qNext e0 = cs ! 1"
    using linkedD [OF h(1,2)] one by auto
  obtain e1 where e1: "qcells h (cs ! 1) = Some e1" using linkedD [OF h(1) one] by blast
  have d0: "qdata e0 = 0" "qdata e1 = 0" using h(8) [OF h(2)] h(8) [OF one] e0(1) e1 by (simp_all add: data_at_def)
  let ?h1 = "h\<lparr>qcells := (qcells h)(cs ! 0 \<mapsto> e0\<lparr>qdata := 0\<rparr>)\<rparr>"
  let ?q1 = "q\<lparr>qlast := cs ! 1, numElem := 1\<rparr>"
  let ?h2 = "?h1\<lparr>qcells := (qcells ?h1)(cs ! 1 \<mapsto> e1\<lparr>qdata := d\<rparr>)\<rparr>"
  let ?q2 = "?q1\<lparr>qlast := qNext e1, numElem := 2\<rparr>"
  have "Rockchip_OSAL_Queue (Some q) 0 h = Some (?h1, Some ?q1, 0)"
    using e0 d0 h(4-6) one by (simp add: Rockchip_OSAL_Queue_def upd_elem_def)
  moreover have "Rockchip_OSAL_Queue (Some ?q1) d ?h1 = Some (?h2, Some ?q2, 0)"
    using e1 d0 ne h(5) one by (simp add: Rockchip_OSAL_Queue_def upd_elem_def)
  moreover have "Rockchip_OSAL_Dequeue (Some ?q2) ?h2 = Some (?h2, Some ?q2, 0)"
    using h(7) ne by (simp add: Rockchip_OSAL_Dequeue_def)
  moreover have "Rockchip_OSAL_GetElemNum (Some ?q2) = 2" by (simp add: Rockchip_OSAL_GetElemNum_def)
  ultimately show ?thesis by blast
qed

section \<open>Witnesses\<close>

text \<open>A heap with room for three elements.\<close>

definition sim_osal :: osal_env where
  "sim_osal = \<lparr>q_malloc = (\<lambda>h. if qcells h 1 = None then 1 else if qcells h 2 = None then 2
       else if qcells h 3 = None then 3 else 0), mutex_create = (\<lambda>_. OMX_ErrorNone)\<rparr>"

definition empty_heap :: osal_heap where
  "empty_heap = \<lparr>qcells = (\<lambda>_. None), mutexes = 0\<rparr>"

definition raw_queue :: ROCKCHIP_QUEUE where
  "raw_queue = \<lparr>qfirst = 0, qlast = 0, numElem = 0, maxNumElem = 0\<rparr>"

definition two_cells :: osal_heap where
  "two_cells = \<lparr>qcells = [1 \<mapsto> \<lparr>qdata = 0, qNext = 2\<rparr>, 2 \<mapsto> \<lparr>qdata = 0, qNext = 1\<rparr>], mutexes = 1\<rparr>"

definition two_queue :: ROCKCHIP_QUEUE where
  "two_queue = \<lparr>qfirst = 1, qlast = 1, numElem = 0, maxNumElem = 3\<rparr>"

lemma sim_osal_ok: "malloc_ok sim_osal" "mutex_create sim_osal h = OMX_ErrorNone"
  by (simp_all add: malloc_ok_def sim_osal_def)

lemma all_less_two: "(\<forall>i < Suc (Suc 0). P i) \<longleftrightarrow> P 0 \<and> P (Suc 0)"
  by (auto simp: less_Suc_eq)

lemma create_two: "Rockchip_OSAL_QueueCreate sim_osal (Some raw_queue) 3 empty_heap = Some (two_cells, Some two_queue, OMX_ErrorNone)"
  by (simp add: Rockchip_OSAL_QueueCreate_def sim_osal_def empty_heap_def raw_queue_def two_cells_def two_queue_def
      upd_elem_def zero_elem_def Let_def numeral_2_eq_2 eval_nat_numeral fun_eq_iff)

lemma two_holds: "holds two_cells two_queue [1, 2] []"
  by (simp add: holds_def q_linked_def two_cells_def two_queue_def data_at_def all_less_two)

theorem Rockchip_OSAL_QueueCreate_result_witness:
  "\<exists>h' q' e. Rockchip_OSAL_QueueCreate sim_osal (Some raw_queue) 9 empty_heap = Some (h', Some q', e)
     \<and> (e \<noteq> OMX_ErrorNone \<longrightarrow> h' = empty_heap\<lparr>mutexes := 1\<rparr>)"
proof -
  have "(1 :: int) \<le> 9" by simp
  from Rockchip_OSAL_QueueCreate_result [OF sim_osal_ok this, of raw_queue empty_heap] show ?thesis
    by (elim exE conjE) (auto simp: empty_heap_def split: if_splits)
qed

theorem Rockchip_OSAL_Queue_in_order_witness:
  "\<exists>h' q' outs ys. ring.run [Some 5, Some 6, Some 7, None] (two_cells, two_queue) = Some ((h', q'), outs @ ys, outs)
     \<and> length ys \<le> 2"
proof -
  have "(1 :: int) \<le> 3" "Some 0 \<notin> set [Some 5, Some 6, Some 7, None :: nat option]" by simp_all
  from Rockchip_OSAL_Queue_in_order [OF sim_osal_ok(1) this(1) create_two this(2)] show ?thesis by auto
qed

theorem Rockchip_OSAL_QueueTerminate_frees_witness:
  "\<exists>h'. Rockchip_OSAL_QueueTerminate (Some two_queue) two_cells = Some (h', Some (two_queue\<lparr>qfirst := 0\<rparr>), OMX_ErrorNone)
     \<and> qcells h' = (\<lambda>_. None)"
proof -
  have "length [1 :: nat, 2] = max 1 (nat (maxNumElem two_queue) - 1)" by (simp add: two_queue_def)
  from Rockchip_OSAL_QueueTerminate_frees [OF two_holds this] show ?thesis
    by (auto simp: removed_def two_cells_def fun_eq_iff)
qed

theorem Rockchip_OSAL_ResetQueue_empties_witness:
  "\<exists>h' q'. Rockchip_OSAL_ResetQueue (Some two_queue) two_cells = Some (h', Some q', 0) \<and> holds h' q' [1, 2] []"
proof -
  have "q_linked two_cells [1, 2]" "qfirst two_queue = hd [1, 2]" "int (length [1 :: nat, 2]) \<le> maxNumElem two_queue"
    using two_holds by (simp_all add: holds_def)
  from Rockchip_OSAL_ResetQueue_empties [OF this] show ?thesis .
qed

theorem Rockchip_OSAL_Queue_null_blocks_witness:
  "\<exists>h1 q1. Rockchip_OSAL_Queue (Some two_queue) 0 two_cells = Some (h1, Some q1, 0)"
proof -
  have "2 \<le> length [1 :: nat, 2]" "(7 :: nat) \<noteq> 0" by simp_all
  from Rockchip_OSAL_Queue_null_blocks [OF two_holds this] show ?thesis by blast
qed

end
