(* ===== verification/Omx_Resource.thy ===== *)
theory Omx_Resource
  imports Omx_Queue "HOL-Library.Multiset"
begin

text \<open>
  The resource manager of the OMX component library,
  \<open>component/common/Rockchip_OMX_Resourcemanager.c\<close>: at most 6 decoders and 4 encoders hold a
  hardware resource, others wait for one. The lists are q_linked lists that only these functions touch,
  so they are lists here. A NULL function pointer that is called gives \<open>None\<close>.
\<close>

section \<open>State\<close>

datatype OMX_STATETYPE = OMX_StateInvalid | OMX_StateLoaded | OMX_StateIdle | OMX_StateExecuting
  | OMX_StatePause | OMX_StateWaitForResources | OMX_StateMax

datatype ROCKCHIP_CODEC_TYPE = SW_CODEC | HW_VIDEO_DEC_CODEC | HW_VIDEO_ENC_CODEC

definition MAX_RESOURCE_VIDEO_DEC :: nat where "MAX_RESOURCE_VIDEO_DEC = 6"
definition MAX_RESOURCE_VIDEO_ENC :: nat where "MAX_RESOURCE_VIDEO_ENC = 4"

record ROCKCHIP_OMX_RM_COMPONENT_LIST =
  pOMXStandComp :: ptr
  groupPriority :: u32

record resource_lists =
  gpVideoDecRMComponentList :: "ROCKCHIP_OMX_RM_COMPONENT_LIST list"
  gpVideoDecRMWaitingList :: "ROCKCHIP_OMX_RM_COMPONENT_LIST list"
  gpVideoEncRMComponentList :: "ROCKCHIP_OMX_RM_COMPONENT_LIST list"
  gpVideoEncRMWaitingList :: "ROCKCHIP_OMX_RM_COMPONENT_LIST list"

text \<open>
  What the manager sees of the components, whose state is \<open>'c\<close>: what it reads of one, sending it a
  state command, and its event handler. \<open>rm_malloc\<close> says whether an allocation succeeds.
\<close>

record 'c rm_port =
  comp_codec :: "'c \<Rightarrow> ptr \<Rightarrow> ROCKCHIP_CODEC_TYPE"
  comp_priority :: "'c \<Rightarrow> ptr \<Rightarrow> u32"
  comp_state :: "'c \<Rightarrow> ptr \<Rightarrow> OMX_STATETYPE"
  send_state :: "'c \<Rightarrow> ptr \<Rightarrow> OMX_STATETYPE \<Rightarrow> 'c \<times> OMX_ERRORTYPE"
  error_event :: "'c \<Rightarrow> ptr \<Rightarrow> OMX_ERRORTYPE \<Rightarrow> 'c option"
  rm_malloc :: "'c \<Rightarrow> bool"

section \<open>Lists\<close>

definition addElementList ::
  "'c rm_port \<Rightarrow> 'c \<Rightarrow> ptr \<Rightarrow> ROCKCHIP_OMX_RM_COMPONENT_LIST list
   \<Rightarrow> ROCKCHIP_OMX_RM_COMPONENT_LIST list \<times> OMX_ERRORTYPE" where
  "addElementList P c p xs =
     (if rm_malloc P c then (xs @ [\<lparr>pOMXStandComp = p, groupPriority = comp_priority P c p\<rparr>], OMX_ErrorNone)
      else (xs, OMX_ErrorInsufficientResources))"

fun remove_comp :: "ptr \<Rightarrow> ROCKCHIP_OMX_RM_COMPONENT_LIST list \<Rightarrow> ROCKCHIP_OMX_RM_COMPONENT_LIST list option" where
  "remove_comp p [] = None"
| "remove_comp p (x # xs) = (if pOMXStandComp x = p then Some xs else map_option ((#) x) (remove_comp p xs))"

definition removeElementList ::
  "ptr \<Rightarrow> ROCKCHIP_OMX_RM_COMPONENT_LIST list \<Rightarrow> ROCKCHIP_OMX_RM_COMPONENT_LIST list \<times> OMX_ERRORTYPE" where
  "removeElementList p xs =
     (if xs = [] then (xs, OMX_ErrorUndefined)
      else case remove_comp p xs of
        Some ys \<Rightarrow> (ys, OMX_ErrorNone)
      | None \<Rightarrow> (xs, OMX_ErrorComponentNotFound))"

text \<open>One step of the search: a larger number is a lower priority.\<close>

definition low_step :: "u32 \<Rightarrow> ROCKCHIP_OMX_RM_COMPONENT_LIST option \<Rightarrow> ROCKCHIP_OMX_RM_COMPONENT_LIST
   \<Rightarrow> ROCKCHIP_OMX_RM_COMPONENT_LIST option" where
  "low_step prio cand x =
     (if groupPriority x > prio
      then case cand of
          None \<Rightarrow> Some x
        | Some c \<Rightarrow> if groupPriority c < groupPriority x then Some x else Some c
      else cand)"

definition searchLowPriority :: "ROCKCHIP_OMX_RM_COMPONENT_LIST list \<Rightarrow> u32
   \<Rightarrow> int \<times> ROCKCHIP_OMX_RM_COMPONENT_LIST option" where
  "searchLowPriority xs prio =
     (if xs = [] then (- 1, None)
      else case foldl (low_step prio) None xs of None \<Rightarrow> (0, None) | Some c \<Rightarrow> (1, Some c))"

definition removeComponent :: "'c rm_port \<Rightarrow> ptr \<Rightarrow> 'c \<Rightarrow> ('c \<times> OMX_ERRORTYPE) option" where
  "removeComponent P p c =
     (if comp_state P c p = OMX_StateIdle
      then map_option (\<lambda>c1. let (c2, e) = send_state P c1 p OMX_StateLoaded in
             (c2, if e \<noteq> OMX_ErrorNone then OMX_ErrorUndefined else OMX_ErrorNone))
           (error_event P c p OMX_ErrorResourcesLost)
      else Some (c, OMX_ErrorNone))"

section \<open>The manager\<close>

definition Rockchip_OMX_ResourceManager_Deinit :: "resource_lists \<Rightarrow> resource_lists" where
  "Rockchip_OMX_ResourceManager_Deinit rm =
     rm\<lparr>gpVideoDecRMComponentList := [], gpVideoDecRMWaitingList := [],
        gpVideoEncRMComponentList := [], gpVideoEncRMWaitingList := []\<rparr>"

text \<open>The branches for decoders and encoders are the same but for the list and its size.\<close>

definition check_list :: "'c rm_port \<Rightarrow> 'c \<Rightarrow> ptr \<Rightarrow> nat \<Rightarrow> ROCKCHIP_OMX_RM_COMPONENT_LIST list \<Rightarrow> OMX_ERRORTYPE" where
  "check_list P c p limit xs =
     (if length xs \<ge> limit \<and> fst (searchLowPriority xs (comp_priority P c p)) \<le> 0
      then OMX_ErrorInsufficientResources else OMX_ErrorNone)"

definition Rockchip_OMX_Check_Resource :: "'c rm_port \<Rightarrow> 'c \<Rightarrow> ptr \<Rightarrow> resource_lists \<Rightarrow> OMX_ERRORTYPE" where
  "Rockchip_OMX_Check_Resource P c p rm =
     (case comp_codec P c p of
        HW_VIDEO_DEC_CODEC \<Rightarrow> check_list P c p MAX_RESOURCE_VIDEO_DEC (gpVideoDecRMComponentList rm)
      | HW_VIDEO_ENC_CODEC \<Rightarrow> check_list P c p MAX_RESOURCE_VIDEO_ENC (gpVideoEncRMComponentList rm)
      | SW_CODEC \<Rightarrow> OMX_ErrorNone)"

definition get_list :: "'c rm_port \<Rightarrow> ptr \<Rightarrow> nat \<Rightarrow> 'c \<Rightarrow> ROCKCHIP_OMX_RM_COMPONENT_LIST list
   \<Rightarrow> ('c \<times> ROCKCHIP_OMX_RM_COMPONENT_LIST list \<times> OMX_ERRORTYPE) option" where
  "get_list P p limit c xs =
     (if length xs \<ge> limit then
        case searchLowPriority xs (comp_priority P c p) of
          (low, None) \<Rightarrow> Some (c, xs, OMX_ErrorInsufficientResources)
        | (low, Some cand) \<Rightarrow>
            if low \<le> 0 then Some (c, xs, OMX_ErrorInsufficientResources)
            else map_option (\<lambda>(c1, e).
                if e \<noteq> OMX_ErrorNone then (c1, xs, OMX_ErrorInsufficientResources)
                else let (ys, _) = removeElementList (pOMXStandComp cand) xs;
                         (zs, e) = addElementList P c1 p ys
                     in (c1, zs, if e \<noteq> OMX_ErrorNone then OMX_ErrorInsufficientResources else OMX_ErrorNone))
              (removeComponent P (pOMXStandComp cand) c)
      else let (zs, e) = addElementList P c p xs
           in Some (c, zs, if e \<noteq> OMX_ErrorNone then OMX_ErrorInsufficientResources else OMX_ErrorNone))"

definition Rockchip_OMX_Get_Resource ::
  "'c rm_port \<Rightarrow> ptr \<Rightarrow> 'c \<Rightarrow> resource_lists \<Rightarrow> ('c \<times> resource_lists \<times> OMX_ERRORTYPE) option" where
  "Rockchip_OMX_Get_Resource P p c rm =
     (case comp_codec P c p of
        HW_VIDEO_DEC_CODEC \<Rightarrow> map_option (\<lambda>(c, xs, e). (c, rm\<lparr>gpVideoDecRMComponentList := xs\<rparr>, e))
          (get_list P p MAX_RESOURCE_VIDEO_DEC c (gpVideoDecRMComponentList rm))
      | HW_VIDEO_ENC_CODEC \<Rightarrow> map_option (\<lambda>(c, xs, e). (c, rm\<lparr>gpVideoEncRMComponentList := xs\<rparr>, e))
          (get_list P p MAX_RESOURCE_VIDEO_ENC c (gpVideoEncRMComponentList rm))
      | SW_CODEC \<Rightarrow> Some (c, rm, OMX_ErrorNone))"

text \<open>Releasing: the first component that waits is told to become idle.\<close>

definition release_list :: "'c rm_port \<Rightarrow> ptr \<Rightarrow> 'c \<Rightarrow> ROCKCHIP_OMX_RM_COMPONENT_LIST list
   \<Rightarrow> ROCKCHIP_OMX_RM_COMPONENT_LIST list
   \<Rightarrow> 'c \<times> ROCKCHIP_OMX_RM_COMPONENT_LIST list \<times> ROCKCHIP_OMX_RM_COMPONENT_LIST list \<times> OMX_ERRORTYPE" where
  "release_list P p c xs ws =
     (if xs = [] then (c, xs, ws, OMX_ErrorUndefined)
      else let (ys, e) = removeElementList p xs in
        if e \<noteq> OMX_ErrorNone then (c, ys, ws, OMX_ErrorUndefined)
        else case ws of
            [] \<Rightarrow> (c, ys, ws, OMX_ErrorNone)
          | w # _ \<Rightarrow>
              let (ws', _) = removeElementList (pOMXStandComp w) ws;
                  (c1, e) = send_state P c (pOMXStandComp w) OMX_StateIdle
              in (c1, ys, ws', e))"

definition Rockchip_OMX_Release_Resource ::
  "'c rm_port \<Rightarrow> ptr \<Rightarrow> 'c \<Rightarrow> resource_lists \<Rightarrow> 'c \<times> resource_lists \<times> OMX_ERRORTYPE" where
  "Rockchip_OMX_Release_Resource P p c rm =
     (case comp_codec P c p of
        HW_VIDEO_DEC_CODEC \<Rightarrow>
          let (c1, xs, ws, e) = release_list P p c (gpVideoDecRMComponentList rm) (gpVideoDecRMWaitingList rm)
          in (c1, rm\<lparr>gpVideoDecRMComponentList := xs, gpVideoDecRMWaitingList := ws\<rparr>, e)
      | HW_VIDEO_ENC_CODEC \<Rightarrow>
          let (c1, xs, ws, e) = release_list P p c (gpVideoEncRMComponentList rm) (gpVideoEncRMWaitingList rm)
          in (c1, rm\<lparr>gpVideoEncRMComponentList := xs, gpVideoEncRMWaitingList := ws\<rparr>, e)
      | SW_CODEC \<Rightarrow> (c, rm, OMX_ErrorNone))"

definition Rockchip_OMX_In_WaitForResource ::
  "'c rm_port \<Rightarrow> ptr \<Rightarrow> 'c \<Rightarrow> resource_lists \<Rightarrow> resource_lists \<times> OMX_ERRORTYPE" where
  "Rockchip_OMX_In_WaitForResource P p c rm =
     (case comp_codec P c p of
        HW_VIDEO_DEC_CODEC \<Rightarrow>
          let (ws, e) = addElementList P c p (gpVideoDecRMWaitingList rm) in (rm\<lparr>gpVideoDecRMWaitingList := ws\<rparr>, e)
      | HW_VIDEO_ENC_CODEC \<Rightarrow>
          let (ws, e) = addElementList P c p (gpVideoEncRMWaitingList rm) in (rm\<lparr>gpVideoEncRMWaitingList := ws\<rparr>, e)
      | SW_CODEC \<Rightarrow> (rm, OMX_ErrorNone))"

definition Rockchip_OMX_Out_WaitForResource ::
  "'c rm_port \<Rightarrow> ptr \<Rightarrow> 'c \<Rightarrow> resource_lists \<Rightarrow> resource_lists \<times> OMX_ERRORTYPE" where
  "Rockchip_OMX_Out_WaitForResource P p c rm =
     (case comp_codec P c p of
        HW_VIDEO_DEC_CODEC \<Rightarrow>
          let (ws, e) = removeElementList p (gpVideoDecRMWaitingList rm) in (rm\<lparr>gpVideoDecRMWaitingList := ws\<rparr>, e)
      | HW_VIDEO_ENC_CODEC \<Rightarrow>
          let (ws, e) = removeElementList p (gpVideoEncRMWaitingList rm) in (rm\<lparr>gpVideoEncRMWaitingList := ws\<rparr>, e)
      | SW_CODEC \<Rightarrow> (rm, OMX_ErrorNone))"

section \<open>What the searches find\<close>

lemma low_fold:
  "foldl (low_step prio) cand xs = r \<Longrightarrow>
     (case r of None \<Rightarrow> cand = None \<and> (\<forall>x \<in> set xs. groupPriority x \<le> prio)
      | Some v \<Rightarrow> (v \<in> set xs \<and> prio < groupPriority v \<or> cand = Some v)
          \<and> (\<forall>x \<in> set xs. prio < groupPriority x \<longrightarrow> groupPriority x \<le> groupPriority v)
          \<and> (\<forall>u. cand = Some u \<longrightarrow> groupPriority u \<le> groupPriority v))"
proof (induction xs arbitrary: cand)
  case (Cons x xs)
  from Cons.IH [of "low_step prio cand x"] Cons.prems show ?case
    by (auto simp: low_step_def split: option.splits if_splits)
qed (auto split: option.splits)

lemma searchLowPriority_cases:
  obtains (none) n where "searchLowPriority xs prio = (n, None)" "n \<le> 0" "\<forall>x \<in> set xs. groupPriority x \<le> prio"
  | (some) v where "searchLowPriority xs prio = (1, Some v)" "v \<in> set xs" "prio < groupPriority v"
      "\<forall>x \<in> set xs. groupPriority x \<le> groupPriority v"
proof (cases "foldl (low_step prio) None xs")
  case None
  with low_fold [OF None] show ?thesis by (intro none [of "if xs = [] then - 1 else 0"]) (auto simp: searchLowPriority_def)
next
  case (Some v)
  then have v: "v \<in> set xs" "prio < groupPriority v" "\<forall>x \<in> set xs. prio < groupPriority x \<longrightarrow> groupPriority x \<le> groupPriority v"
    using low_fold [OF Some] by auto
  then have "xs \<noteq> []" by auto
  moreover have "groupPriority x \<le> groupPriority v" if "x \<in> set xs" for x
    using v that by (cases "prio < groupPriority x") auto
  ultimately show ?thesis using v Some by (intro some [of v]) (auto simp: searchLowPriority_def)
qed

lemma remove_comp_SomeD:
  "remove_comp p xs = Some ys \<Longrightarrow> \<exists>as x bs. xs = as @ x # bs \<and> ys = as @ bs \<and> pOMXStandComp x = p \<and> p \<notin> pOMXStandComp ` set as"
proof (induction xs arbitrary: ys)
  case (Cons x xs)
  show ?case
  proof (cases "pOMXStandComp x = p")
    case True
    then show ?thesis using Cons.prems by (intro exI [of _ "[]"] exI [of _ x] exI [of _ xs]) simp
  next
    case False
    then obtain zs where zs: "remove_comp p xs = Some zs" "ys = x # zs" using Cons.prems by auto
    from Cons.IH [OF zs(1)] obtain as y bs where "xs = as @ y # bs" "zs = as @ bs" "pOMXStandComp y = p" "p \<notin> pOMXStandComp ` set as"
      by blast
    then show ?thesis using False zs(2) by (intro exI [of _ "x # as"] exI [of _ y] exI [of _ bs]) simp
  qed
qed simp

lemma remove_comp_None: "remove_comp p xs = None \<longleftrightarrow> p \<notin> pOMXStandComp ` set xs"
  by (induction xs) auto

lemma remove_comp_entry:
  assumes "v \<in> set xs" "distinct (map pOMXStandComp xs)"
  shows "\<exists>ys. remove_comp (pOMXStandComp v) xs = Some ys \<and> mset xs = add_mset v (mset ys)
    \<and> distinct (map pOMXStandComp ys) \<and> pOMXStandComp v \<notin> pOMXStandComp ` set ys"
proof -
  obtain ys where ys: "remove_comp (pOMXStandComp v) xs = Some ys"
    using assms(1) remove_comp_None [of "pOMXStandComp v" xs] by (cases "remove_comp (pOMXStandComp v) xs") auto
  from remove_comp_SomeD [OF this] obtain as x bs where x: "xs = as @ x # bs" "ys = as @ bs" "pOMXStandComp x = pOMXStandComp v"
    by blast
  have "x = v" using assms x(1,3) by (auto simp: in_set_conv_decomp)
  then show ?thesis using ys x assms(2) by auto
qed

lemma removeElementList_length:
  "length (fst (removeElementList p xs)) \<le> length xs"
  "fst (removeElementList p xs) \<noteq> xs \<Longrightarrow> length (fst (removeElementList p xs)) < length xs"
  by (auto simp: removeElementList_def split: option.splits if_splits dest: remove_comp_SomeD)

text \<open>What getting a resource does to a list.\<close>

definition rm_entry :: "'c rm_port \<Rightarrow> 'c \<Rightarrow> ptr \<Rightarrow> ROCKCHIP_OMX_RM_COMPONENT_LIST" where
  "rm_entry P c p = \<lparr>pOMXStandComp = p, groupPriority = comp_priority P c p\<rparr>"

lemma get_list_cases:
  assumes "get_list P p limit c xs = Some (c', zs, e)" "distinct (map pOMXStandComp xs)" "0 < limit"
  obtains (room) "length xs < limit" "e = OMX_ErrorNone" "c' = c" "zs = xs @ [rm_entry P c p]"
  | (evict) v ys where "limit \<le> length xs" "e = OMX_ErrorNone" "v \<in> set xs" "comp_priority P c p < groupPriority v"
      "\<forall>x \<in> set xs. groupPriority x \<le> groupPriority v" "removeComponent P (pOMXStandComp v) c = Some (c', OMX_ErrorNone)"
      "mset xs = add_mset v (mset ys)" "pOMXStandComp v \<notin> pOMXStandComp ` set ys" "zs = ys @ [rm_entry P c' p]"
  | (lost) v ys where "limit \<le> length xs" "e = OMX_ErrorInsufficientResources" "\<not> rm_malloc P c'"
      "mset xs = add_mset v (mset ys)" "zs = ys"
  | (refused) "e = OMX_ErrorInsufficientResources" "zs = xs"
      "length xs < limit \<longrightarrow> \<not> rm_malloc P c"
      "limit \<le> length xs \<longrightarrow> (\<forall>x \<in> set xs. groupPriority x \<le> comp_priority P c p)
         \<or> (\<exists>v \<in> set xs. \<exists>e. removeComponent P (pOMXStandComp v) c = Some (c', e) \<and> e \<noteq> OMX_ErrorNone)"
proof (cases "limit \<le> length xs")
  case False
  then show ?thesis
    using assms(1) room refused by (auto simp: get_list_def addElementList_def rm_entry_def split: if_splits)
next
  case True
  show ?thesis
  proof (cases rule: searchLowPriority_cases [of xs "comp_priority P c p"])
    case (none n)
    then show ?thesis using assms(1) True refused by (simp add: get_list_def)
  next
    case (some v)
    obtain ys where ys: "remove_comp (pOMXStandComp v) xs = Some ys" "mset xs = add_mset v (mset ys)"
      "pOMXStandComp v \<notin> pOMXStandComp ` set ys"
      using remove_comp_entry [OF some(2) assms(2)] by blast
    have "xs \<noteq> []" using some(2) by auto
    then have rem: "removeElementList (pOMXStandComp v) xs = (ys, OMX_ErrorNone)" using ys(1) by (simp add: removeElementList_def)
    obtain c1 e1 where r: "removeComponent P (pOMXStandComp v) c = Some (c1, e1)"
      using assms(1) True some(1) by (auto simp: get_list_def)
    show ?thesis
    proof (cases "e1 = OMX_ErrorNone")
      case False
      then show ?thesis using assms(1) True some r refused by (auto simp: get_list_def)
    next
      case e1: True
      have eq: "(c', zs, e) = (c1, fst (addElementList P c1 p ys),
          if snd (addElementList P c1 p ys) \<noteq> OMX_ErrorNone then OMX_ErrorInsufficientResources else OMX_ErrorNone)"
        using assms(1) True some(1) r e1 rem by (auto simp: get_list_def case_prod_beta split: if_splits)
      show ?thesis
      proof (cases "rm_malloc P c1")
        case True
        then show ?thesis using eq evict [of v ys] \<open>limit \<le> length xs\<close> some(2-4) r e1 ys
          by (simp add: addElementList_def rm_entry_def)
      next
        case False
        then show ?thesis using eq lost [of v ys] \<open>limit \<le> length xs\<close> ys by (simp add: addElementList_def)
      qed
    qed
  qed
qed

lemma get_list_length:
  assumes "get_list P p limit c xs = Some (c', zs, e)" "length xs \<le> limit" "0 < limit"
  shows "length zs \<le> limit"
proof (cases "limit \<le> length xs")
  case False
  then show ?thesis using assms(1) by (auto simp: get_list_def addElementList_def split: if_splits)
next
  case True
  show ?thesis
  proof (cases rule: searchLowPriority_cases [of xs "comp_priority P c p"])
    case (none n)
    then show ?thesis using assms(1,2) True by (simp add: get_list_def)
  next
    case (some v)
    then have "xs \<noteq> []" by auto
    with some(2) obtain ys where ys: "remove_comp (pOMXStandComp v) xs = Some ys" "xs \<noteq> []"
      using remove_comp_None [of "pOMXStandComp v" xs] by (cases "remove_comp (pOMXStandComp v) xs") auto
    then have "removeElementList (pOMXStandComp v) xs = (ys, OMX_ErrorNone)" "length ys < length xs"
      using remove_comp_SomeD [OF ys(1)] by (auto simp: removeElementList_def)
    then show ?thesis
      using assms(1,2) True some(1) by (auto simp: get_list_def addElementList_def split: if_splits prod.splits)
  qed
qed

section \<open>Properties\<close>

text \<open>The steps of the manager; between them the components change as they like.\<close>

inductive rm_step :: "'c rm_port \<Rightarrow> 'c \<times> resource_lists \<Rightarrow> 'c \<times> resource_lists \<Rightarrow> bool" for P where
  get: "Rockchip_OMX_Get_Resource P p c rm = Some (c', rm', e) \<Longrightarrow> rm_step P (c, rm) (c', rm')"
| release: "Rockchip_OMX_Release_Resource P p c rm = (c', rm', e) \<Longrightarrow> rm_step P (c, rm) (c', rm')"
| wait_in: "Rockchip_OMX_In_WaitForResource P p c rm = (rm', e) \<Longrightarrow> rm_step P (c, rm) (c, rm')"
| wait_out: "Rockchip_OMX_Out_WaitForResource P p c rm = (rm', e) \<Longrightarrow> rm_step P (c, rm) (c, rm')"
| deinit: "rm_step P (c, rm) (c, Rockchip_OMX_ResourceManager_Deinit rm)"
| components: "rm_step P (c, rm) (c', rm)"

inductive_cases rm_stepE: "rm_step P (c, rm) (c', rm')"

definition no_resources :: resource_lists where
  "no_resources = \<lparr>gpVideoDecRMComponentList = [], gpVideoDecRMWaitingList = [],
     gpVideoEncRMComponentList = [], gpVideoEncRMWaitingList = []\<rparr>"

definition within_limits :: "resource_lists \<Rightarrow> bool" where
  "within_limits rm \<longleftrightarrow> length (gpVideoDecRMComponentList rm) \<le> MAX_RESOURCE_VIDEO_DEC
     \<and> length (gpVideoEncRMComponentList rm) \<le> MAX_RESOURCE_VIDEO_ENC"

lemma release_list_length:
  "release_list P p c xs ws = (c', ys, ws', e) \<Longrightarrow> length ys \<le> length xs"
  using removeElementList_length(1) [of p xs]
  by (auto simp: release_list_def case_prod_beta split: if_splits list.splits)

lemma rm_step_within: "rm_step P (c, rm) (c', rm') \<Longrightarrow> within_limits rm \<Longrightarrow> within_limits rm'"
proof (erule rm_stepE)
  fix p e
  assume "Rockchip_OMX_Get_Resource P p c rm = Some (c', rm', e)" "within_limits rm"
  then show "within_limits rm'"
    by (auto simp: Rockchip_OMX_Get_Resource_def within_limits_def MAX_RESOURCE_VIDEO_DEC_def MAX_RESOURCE_VIDEO_ENC_def
        split: ROCKCHIP_CODEC_TYPE.splits dest: get_list_length)
next
  fix p e
  assume "Rockchip_OMX_Release_Resource P p c rm = (c', rm', e)" "within_limits rm"
  then show "within_limits rm'"
    by (auto simp: Rockchip_OMX_Release_Resource_def within_limits_def
        split: ROCKCHIP_CODEC_TYPE.splits prod.splits dest!: release_list_length)
next
  fix p e
  assume "Rockchip_OMX_In_WaitForResource P p c rm = (rm', e)" "within_limits rm"
  then show "within_limits rm'"
    by (auto simp: Rockchip_OMX_In_WaitForResource_def within_limits_def split: ROCKCHIP_CODEC_TYPE.splits prod.splits)
next
  fix p e
  assume "Rockchip_OMX_Out_WaitForResource P p c rm = (rm', e)" "within_limits rm"
  then show "within_limits rm'"
    by (auto simp: Rockchip_OMX_Out_WaitForResource_def within_limits_def split: ROCKCHIP_CODEC_TYPE.splits prod.splits)
qed (auto simp: within_limits_def Rockchip_OMX_ResourceManager_Deinit_def)

lemma rm_steps_within: "(rm_step P)\<^sup>*\<^sup>* s s' \<Longrightarrow> within_limits (snd s) \<Longrightarrow> within_limits (snd s')"
proof (induction rule: rtranclp_induct)
  case (step s' s'')
  then show ?case using rm_step_within [of P "fst s'" "snd s'" "fst s''" "snd s''"] by simp
qed

text \<open>
  C38: However the components use the resource manager from its start on, at most 6 decoders and 4
  encoders are on its lists.
\<close>

theorem resources_bounded:
  assumes "(rm_step P)\<^sup>*\<^sup>* (c0, no_resources) (c, rm)"
  shows "length (gpVideoDecRMComponentList rm) \<le> 6 \<and> length (gpVideoEncRMComponentList rm) \<le> 4"
proof -
  have "within_limits no_resources" by (simp add: within_limits_def no_resources_def)
  with rm_steps_within [OF assms] show ?thesis
    by (simp add: within_limits_def MAX_RESOURCE_VIDEO_DEC_def MAX_RESOURCE_VIDEO_ENC_def)
qed

text \<open>
  Getting a resource for a decoder, when the components on the list are different: on success the
  decoder is last on the list; when the list was full, one component with the lowest priority of all,
  lower than that of the decoder, has left it. On error the list is unchanged, or, only if an
  allocation failed, one component short.
\<close>

theorem Rockchip_OMX_Get_Resource_result:
  assumes "Rockchip_OMX_Get_Resource P p c rm = Some (c', rm', e)" "comp_codec P c p = HW_VIDEO_DEC_CODEC"
    and "distinct (map pOMXStandComp (gpVideoDecRMComponentList rm))"
  shows "if e = OMX_ErrorNone
    then \<exists>ys. gpVideoDecRMComponentList rm' = ys @ [rm_entry P c' p]
      \<and> (if length (gpVideoDecRMComponentList rm) < 6 then ys = gpVideoDecRMComponentList rm
         else \<exists>v. mset (gpVideoDecRMComponentList rm) = add_mset v (mset ys) \<and> comp_priority P c p < groupPriority v
            \<and> (\<forall>x \<in> set (gpVideoDecRMComponentList rm). groupPriority x \<le> groupPriority v))
    else e = OMX_ErrorInsufficientResources
      \<and> (rm' = rm \<or> \<not> rm_malloc P c' \<and> (\<exists>v. mset (gpVideoDecRMComponentList rm) = add_mset v (mset (gpVideoDecRMComponentList rm'))))"
proof -
  let ?xs = "gpVideoDecRMComponentList rm"
  obtain zs where g: "get_list P p 6 c ?xs = Some (c', zs, e)" and rm': "rm' = rm\<lparr>gpVideoDecRMComponentList := zs\<rparr>"
    using assms(1,2) by (auto simp: Rockchip_OMX_Get_Resource_def MAX_RESOURCE_VIDEO_DEC_def)
  have pos: "(0 :: nat) < 6" by simp
  show ?thesis
  proof (cases rule: get_list_cases [OF g assms(3) pos])
    case 1 then show ?thesis by (simp add: rm')
  next
    case (2 v ys)
    then have full: "\<not> length ?xs < 6" by simp
    show ?thesis
      unfolding 2(2) if_P [OF refl] if_not_P [OF full]
      by (intro exI [of _ ys] exI [of _ v] conjI) (use 2 in \<open>simp_all add: rm'\<close>)
  next
    case (3 v ys) then show ?thesis by (auto simp: rm')
  next
    case 4 then show ?thesis by (simp add: rm')
  qed
qed

lemma get_list_check:
  assumes "\<And>c. rm_malloc P c" "\<And>q. \<exists>c1. removeComponent P q c = Some (c1, OMX_ErrorNone)"
  shows "\<exists>c' zs. get_list P p limit c xs = Some (c', zs, check_list P c p limit xs)"
proof (cases rule: searchLowPriority_cases [of xs "comp_priority P c p"])
  case (none n)
  then show ?thesis by (auto simp: get_list_def check_list_def addElementList_def assms(1))
next
  case (some v)
  obtain c1 where "removeComponent P (pOMXStandComp v) c = Some (c1, OMX_ErrorNone)" using assms(2) by blast
  with some show ?thesis
    by (auto simp: get_list_def check_list_def addElementList_def assms(1) split: prod.splits)
qed

text \<open>
  When allocations succeed and every component can be told to give its resource back, checking for
  a resource answers exactly whether getting it succeeds.
\<close>

theorem Rockchip_OMX_Check_Resource_exact:
  assumes "\<forall>c. rm_malloc P c" "\<forall>q. \<exists>c1. removeComponent P q c = Some (c1, OMX_ErrorNone)"
  shows "\<exists>c' rm'. Rockchip_OMX_Get_Resource P p c rm = Some (c', rm', Rockchip_OMX_Check_Resource P c p rm)"
proof -
  note g = get_list_check [of P c, OF assms(1) [THEN spec] assms(2) [THEN spec]]
  show ?thesis
    using g [of p MAX_RESOURCE_VIDEO_DEC "gpVideoDecRMComponentList rm"]
      g [of p MAX_RESOURCE_VIDEO_ENC "gpVideoEncRMComponentList rm"]
    by (auto simp: Rockchip_OMX_Get_Resource_def Rockchip_OMX_Check_Resource_def split: ROCKCHIP_CODEC_TYPE.splits)
qed

text \<open>
  When all six decoders on the list are executing, a decoder with a higher priority than one of
  them takes its place on the list, but the decoder that loses it is neither told nor stopped.
\<close>

theorem executing_decoder_evicted:
  assumes "comp_codec P c p = HW_VIDEO_DEC_CODEC" "length (gpVideoDecRMComponentList rm) = 6"
    and "distinct (map pOMXStandComp (gpVideoDecRMComponentList rm))" "rm_malloc P c"
    and "\<forall>x \<in> set (gpVideoDecRMComponentList rm). comp_state P c (pOMXStandComp x) = OMX_StateExecuting"
    and "\<exists>x \<in> set (gpVideoDecRMComponentList rm). comp_priority P c p < groupPriority x"
    and "p \<notin> pOMXStandComp ` set (gpVideoDecRMComponentList rm)"
  shows "\<exists>rm'. Rockchip_OMX_Get_Resource P p c rm = Some (c, rm', OMX_ErrorNone)
    \<and> (\<exists>v \<in> set (gpVideoDecRMComponentList rm). comp_state P c (pOMXStandComp v) = OMX_StateExecuting
         \<and> pOMXStandComp v \<notin> pOMXStandComp ` set (gpVideoDecRMComponentList rm'))"
proof -
  let ?xs = "gpVideoDecRMComponentList rm"
  show ?thesis
  proof (cases rule: searchLowPriority_cases [of ?xs "comp_priority P c p"])
    case (none n)
    then show ?thesis using assms(6) by (meson leD)
  next
    case (some v)
    obtain ys where ys: "remove_comp (pOMXStandComp v) ?xs = Some ys" "pOMXStandComp v \<notin> pOMXStandComp ` set ys"
      using remove_comp_entry [OF some(2) assms(3)] by blast
    have "?xs \<noteq> []" using some(2) by auto
    then have rem: "removeElementList (pOMXStandComp v) ?xs = (ys, OMX_ErrorNone)" using ys(1) by (simp add: removeElementList_def)
    have "removeComponent P (pOMXStandComp v) c = Some (c, OMX_ErrorNone)"
      using assms(5) some(2) by (simp add: removeComponent_def)
    then have "Rockchip_OMX_Get_Resource P p c rm =
        Some (c, rm\<lparr>gpVideoDecRMComponentList := ys @ [rm_entry P c p]\<rparr>, OMX_ErrorNone)"
      using assms(1,2,4) some(1) rem
      by (simp add: Rockchip_OMX_Get_Resource_def get_list_def addElementList_def MAX_RESOURCE_VIDEO_DEC_def rm_entry_def)
    moreover have "pOMXStandComp v \<noteq> p" using assms(7) some(2) by auto
    ultimately show ?thesis using assms(5) some(2) ys(2) by (intro exI conjI) (auto simp: rm_entry_def)
  qed
qed

text \<open>
  A decoder that releases its resource leaves the list, and the first decoder that waits leaves the
  waiting list and is told to become idle; it is not put on the list.
\<close>

theorem Rockchip_OMX_Release_Resource_hands_over:
  assumes "comp_codec P c p = HW_VIDEO_DEC_CODEC" "x \<in> set (gpVideoDecRMComponentList rm)" "pOMXStandComp x = p"
    and "distinct (map pOMXStandComp (gpVideoDecRMComponentList rm))" "gpVideoDecRMWaitingList rm = w # ws"
  shows "\<exists>ys. mset (gpVideoDecRMComponentList rm) = add_mset x (mset ys) \<and>
    Rockchip_OMX_Release_Resource P p c rm =
      (fst (send_state P c (pOMXStandComp w) OMX_StateIdle),
       rm\<lparr>gpVideoDecRMComponentList := ys, gpVideoDecRMWaitingList := ws\<rparr>,
       snd (send_state P c (pOMXStandComp w) OMX_StateIdle))"
proof -
  obtain ys where ys: "remove_comp p (gpVideoDecRMComponentList rm) = Some ys"
    "mset (gpVideoDecRMComponentList rm) = add_mset x (mset ys)"
    using remove_comp_entry [OF assms(2,4)] assms(3) by blast
  have "gpVideoDecRMComponentList rm \<noteq> []" using assms(2) by auto
  then have "removeElementList p (gpVideoDecRMComponentList rm) = (ys, OMX_ErrorNone)"
    using ys(1) by (simp add: removeElementList_def)
  with ys(2) assms(1,5) \<open>gpVideoDecRMComponentList rm \<noteq> []\<close> show ?thesis
    by (intro exI [of _ ys])
      (simp add: Rockchip_OMX_Release_Resource_def release_list_def removeElementList_def case_prod_beta)
qed

section \<open>Witnesses\<close>

text \<open>Decoders whose state is a map; component \<open>n\<close> has priority \<open>n\<close>.\<close>

definition sim_rm :: "(ptr \<Rightarrow> OMX_STATETYPE) rm_port" where
  "sim_rm = \<lparr>comp_codec = (\<lambda>_ _. HW_VIDEO_DEC_CODEC), comp_priority = (\<lambda>_ p. of_nat p), comp_state = (\<lambda>c. c),
     send_state = (\<lambda>c p s. (c(p := s), OMX_ErrorNone)), error_event = (\<lambda>c _ _. Some c), rm_malloc = (\<lambda>_. True)\<rparr>"

definition decoder_list :: "ptr list \<Rightarrow> ptr list \<Rightarrow> resource_lists" where
  "decoder_list xs ws = no_resources
     \<lparr>gpVideoDecRMComponentList := map (\<lambda>p. \<lparr>pOMXStandComp = p, groupPriority = of_nat p\<rparr>) xs,
      gpVideoDecRMWaitingList := map (\<lambda>p. \<lparr>pOMXStandComp = p, groupPriority = of_nat p\<rparr>) ws\<rparr>"

lemma sim_rm_removes: "\<forall>q. \<exists>c1. removeComponent sim_rm q c = Some (c1, OMX_ErrorNone)"
  by (simp add: removeComponent_def sim_rm_def)

theorem resources_bounded_witness:
  "length (gpVideoDecRMComponentList (decoder_list [7] [])) \<le> 6"
proof -
  have "Rockchip_OMX_Get_Resource sim_rm 7 (\<lambda>_. OMX_StateLoaded) no_resources
      = Some (\<lambda>_. OMX_StateLoaded, decoder_list [7] [], OMX_ErrorNone)"
    by (simp add: Rockchip_OMX_Get_Resource_def get_list_def addElementList_def sim_rm_def decoder_list_def
        no_resources_def MAX_RESOURCE_VIDEO_DEC_def)
  then have "(rm_step sim_rm)\<^sup>*\<^sup>* (\<lambda>_. OMX_StateLoaded, no_resources) (\<lambda>_. OMX_StateLoaded, decoder_list [7] [])"
    by (intro r_into_rtranclp rm_step.get)
  from resources_bounded [OF this] show ?thesis by blast
qed

theorem Rockchip_OMX_Get_Resource_result_witness:
  "\<exists>c' rm'. Rockchip_OMX_Get_Resource sim_rm 1 (\<lambda>_. OMX_StateIdle) (decoder_list [2, 3, 9, 4, 5, 6] [])
       = Some (c', rm', OMX_ErrorNone)
     \<and> (\<exists>ys. gpVideoDecRMComponentList rm' = ys @ [rm_entry sim_rm c' 1])"
proof -
  have c: "comp_codec sim_rm (\<lambda>_. OMX_StateIdle) 1 = HW_VIDEO_DEC_CODEC" by (simp add: sim_rm_def)
  have d: "distinct (map pOMXStandComp (gpVideoDecRMComponentList (decoder_list [2, 3, 9, 4, 5, 6] [])))"
    by (simp add: decoder_list_def)
  obtain c' rm' where g: "Rockchip_OMX_Get_Resource sim_rm 1 (\<lambda>_. OMX_StateIdle) (decoder_list [2, 3, 9, 4, 5, 6] [])
       = Some (c', rm', OMX_ErrorNone)"
    by (simp add: Rockchip_OMX_Get_Resource_def get_list_def addElementList_def sim_rm_def decoder_list_def
        MAX_RESOURCE_VIDEO_DEC_def searchLowPriority_def low_step_def removeComponent_def removeElementList_def)
  from Rockchip_OMX_Get_Resource_result [OF g c d] g show ?thesis by auto
qed

theorem Rockchip_OMX_Check_Resource_exact_witness:
  "\<exists>c' rm'. Rockchip_OMX_Get_Resource sim_rm 9 (\<lambda>_. OMX_StateIdle) (decoder_list [2, 3, 4, 5, 6, 7] [])
       = Some (c', rm', OMX_ErrorInsufficientResources)"
proof -
  have "\<forall>c. rm_malloc sim_rm c" by (simp add: sim_rm_def)
  moreover have "Rockchip_OMX_Check_Resource sim_rm (\<lambda>_. OMX_StateIdle) 9 (decoder_list [2, 3, 4, 5, 6, 7] [])
      = OMX_ErrorInsufficientResources"
    by (simp add: Rockchip_OMX_Check_Resource_def check_list_def sim_rm_def decoder_list_def MAX_RESOURCE_VIDEO_DEC_def
        searchLowPriority_def low_step_def)
  ultimately show ?thesis
    using Rockchip_OMX_Check_Resource_exact [OF _ sim_rm_removes, where p = 9 and rm = "decoder_list [2, 3, 4, 5, 6, 7] []"]
    by metis
qed

theorem executing_decoder_evicted_witness:
  "\<exists>rm'. Rockchip_OMX_Get_Resource sim_rm 1 (\<lambda>_. OMX_StateExecuting) (decoder_list [2, 3, 4, 5, 6, 7] [])
     = Some (\<lambda>_. OMX_StateExecuting, rm', OMX_ErrorNone)"
proof -
  let ?rm = "decoder_list [2, 3, 4, 5, 6, 7] []"
  have "comp_codec sim_rm (\<lambda>_. OMX_StateExecuting) 1 = HW_VIDEO_DEC_CODEC" "length (gpVideoDecRMComponentList ?rm) = 6"
    "distinct (map pOMXStandComp (gpVideoDecRMComponentList ?rm))" "rm_malloc sim_rm (\<lambda>_. OMX_StateExecuting)"
    "\<forall>x \<in> set (gpVideoDecRMComponentList ?rm). comp_state sim_rm (\<lambda>_. OMX_StateExecuting) (pOMXStandComp x) = OMX_StateExecuting"
    "\<exists>x \<in> set (gpVideoDecRMComponentList ?rm). comp_priority sim_rm (\<lambda>_. OMX_StateExecuting) 1 < groupPriority x"
    "1 \<notin> pOMXStandComp ` set (gpVideoDecRMComponentList ?rm)"
    by (simp_all add: sim_rm_def decoder_list_def)
  from executing_decoder_evicted [OF this] show ?thesis by blast
qed

theorem Rockchip_OMX_Release_Resource_hands_over_witness:
  "\<exists>rm'. Rockchip_OMX_Release_Resource sim_rm 2 (\<lambda>_. OMX_StateIdle) (decoder_list [2, 3] [8])
     = ((\<lambda>_. OMX_StateIdle)(8 := OMX_StateIdle), rm', OMX_ErrorNone)"
proof -
  let ?rm = "decoder_list [2, 3] [8]"
  have "comp_codec sim_rm (\<lambda>_. OMX_StateIdle) 2 = HW_VIDEO_DEC_CODEC"
    "\<lparr>pOMXStandComp = 2, groupPriority = 2\<rparr> \<in> set (gpVideoDecRMComponentList ?rm)"
    "pOMXStandComp \<lparr>pOMXStandComp = 2, groupPriority = 2\<rparr> = 2"
    "distinct (map pOMXStandComp (gpVideoDecRMComponentList ?rm))"
    "gpVideoDecRMWaitingList ?rm = [\<lparr>pOMXStandComp = 8, groupPriority = 8\<rparr>]"
    by (simp_all add: sim_rm_def decoder_list_def)
  from Rockchip_OMX_Release_Resource_hands_over [OF this] show ?thesis by (auto simp: sim_rm_def)
qed

end
