(* ===== verification/Omx_Component.thy ===== *)
theory Omx_Component
  imports Omx_Resource
begin

text \<open>
  The state machine of an OMX component, \<open>component/common/Rockchip_OMX_Basecomponent.c\<close>: sending a
  command, which queues a message, and setting the state, which the thread of the component does for
  such a message; and enabling, disabling and flushing ports, \<open>component/common/Rockchip_OMX_Baseport.c\<close>.
  A function that waits for ever, calls a NULL function pointer or uses a port that is not there gives
  \<open>None\<close>. The component is valid, so the checks of its version and of NULL pointers pass; the
  functions of the codec component and what other threads do during a wait are parameters.
\<close>

section \<open>State\<close>

definition ALL_PORT_NUM :: nat where "ALL_PORT_NUM = 2"
definition MAX_QUEUE_ELEMENTS :: nat where "MAX_QUEUE_ELEMENTS = 40"
definition ROCKCHIP_TUNNEL_ESTABLISHED :: u32 where "ROCKCHIP_TUNNEL_ESTABLISHED = 0x0001"
definition ROCKCHIP_TUNNEL_IS_SUPPLIER :: u32 where "ROCKCHIP_TUNNEL_IS_SUPPLIER = 0x0002"

datatype ROCKCHIP_OMX_PORT_WAY_TYPE = WAY1_PORT | WAY2_PORT
datatype ROCKCHIP_OMX_EXCEPTION_STATE = GENERAL_STATE | NEED_PORT_FLUSH | NEED_PORT_DISABLE | INVALID_STATE
datatype ROCKCHIP_OMX_TRANS_STATETYPE = ROCKCHIP_OMX_TransStateInvalid | ROCKCHIP_OMX_TransStateLoadedToIdle
  | ROCKCHIP_OMX_TransStateIdleToExecuting | ROCKCHIP_OMX_TransStateExecutingToIdle
  | ROCKCHIP_OMX_TransStateIdleToLoaded | ROCKCHIP_OMX_TransStateMax

text \<open>
  The handle fields of a component and of its ports that setting the state creates and terminates. The
  mutex of the only data buffer of a one-way port has the storage of that of the input buffer.
\<close>

datatype omx_handle = H_pause | H_portPause nat | H_allReturned nat | H_bufferSem nat
  | H_bufferMutex nat | H_outputMutex nat | H_portMutex nat | H_secureMutex nat

datatype omx_command = CommandStateSet OMX_STATETYPE | CommandFlush int | CommandPortDisable int
  | CommandPortEnable int | CommandMarkBuffer nat "ptr \<times> ptr" | CommandComponentDeInit

record ROCKCHIP_OMX_BASEPORT =
  bEnabled :: bool
  bPopulated :: bool
  portState :: OMX_STATETYPE
  bIsPortFlushed :: bool
  bIsPortDisabled :: bool
  tunnelFlags :: u32
  tunnelBufferNum :: nat
  bufferQnum :: int
  bufferSem :: int
  loadedSem :: int
  portWayType :: ROCKCHIP_OMX_PORT_WAY_TYPE
  bufferShare :: bool
  exceptionFlag :: ROCKCHIP_OMX_EXCEPTION_STATE
  markType :: "ptr \<times> ptr"

text \<open>
  A component: \<open>handles\<close> are the handle fields that are not NULL, \<open>leaked\<close> counts the objects whose
  handle was overwritten, \<open>lostMessages\<close> the messages that were dropped without being freed; \<open>signalled\<close> are the pause events that are
  set, and \<open>abendSignalled\<close> says whether the event that the destructor waits for is. The queue of messages
  is the list that a queue for \<open>MAX_QUEUE_ELEMENTS\<close> holds, that of the buffers of a port its length.
\<close>

record ROCKCHIP_OMX_BASECOMPONENT =
  currentState :: OMX_STATETYPE
  transientState :: ROCKCHIP_OMX_TRANS_STATETYPE
  abendState :: bool
  abendSignalled :: bool
  codecType :: ROCKCHIP_CODEC_TYPE
  nGroupPriority :: u32
  nPorts :: nat
  ports :: "nat \<Rightarrow> ROCKCHIP_OMX_BASEPORT"
  bMultiThreadProcess :: bool
  needFlushOnSeek :: bool
  pCallbacks :: bool
  codec_terminate_set :: bool
  handles :: "omx_handle set"
  leaked :: nat
  lostMessages :: nat
  signalled :: "omx_handle set"
  messageQ :: "omx_command list"
  msgSemaphore :: int
  exitMessageThread :: bool

datatype omx_event = CmdComplete omx_command | EventError OMX_ERRORTYPE

record 'w omx_world =
  comps :: "ptr \<Rightarrow> ROCKCHIP_OMX_BASECOMPONENT"
  rlists :: resource_lists
  ext :: 'w
  events :: "(ptr \<times> omx_event) list"

text \<open>
  What is outside: whether creating a handle, or allocating a message or a list element, succeeds; the
  functions of the codec component, which may change the component; and the waits for the semaphores
  that tell that the buffers of a port are there or gone, during which the application may change it.
\<close>

type_synonym 'w codec_fun = "ROCKCHIP_OMX_BASECOMPONENT \<Rightarrow> 'w \<Rightarrow> ROCKCHIP_OMX_BASECOMPONENT \<times> 'w \<times> OMX_ERRORTYPE"
type_synonym 'w wait_fun = "ROCKCHIP_OMX_BASECOMPONENT \<Rightarrow> 'w \<Rightarrow> (ROCKCHIP_OMX_BASECOMPONENT \<times> 'w) option"

record 'w omx_env =
  os_create :: "omx_handle \<Rightarrow> 'w \<Rightarrow> 'w \<times> OMX_ERRORTYPE"
  os_malloc :: "'w \<Rightarrow> bool"
  codec_componentInit :: "'w codec_fun"
  codec_componentTerminate :: "'w codec_fun"
  BufferProcessCreate :: "'w codec_fun"
  BufferProcessTerminate :: "'w codec_fun"
  AllocateTunnelBuffer :: "nat \<Rightarrow> 'w codec_fun"
  FreeTunnelBuffer :: "nat \<Rightarrow> 'w codec_fun"
  BufferFlush :: "nat \<Rightarrow> bool \<Rightarrow> 'w codec_fun"
  ComputeDecBufferCount :: "'w codec_fun"
  wait_loaded :: "nat \<Rightarrow> 'w wait_fun"
  wait_unloaded :: "nat \<Rightarrow> 'w wait_fun"

definition codec_call :: "'w codec_fun \<Rightarrow> ptr \<Rightarrow> 'w omx_world \<Rightarrow> 'w omx_world \<times> OMX_ERRORTYPE" where
  "codec_call f p w = (let (c, x, e) = f (comps w p) (ext w) in (w\<lparr>comps := (comps w)(p := c), ext := x\<rparr>, e))"

definition wait_call :: "'w wait_fun \<Rightarrow> ptr \<Rightarrow> 'w omx_world \<Rightarrow> 'w omx_world option" where
  "wait_call f p w = map_option (\<lambda>(c, x). w\<lparr>comps := (comps w)(p := c), ext := x\<rparr>) (f (comps w p) (ext w))"

definition upd_comp :: "ptr \<Rightarrow> (ROCKCHIP_OMX_BASECOMPONENT \<Rightarrow> ROCKCHIP_OMX_BASECOMPONENT) \<Rightarrow> 'w omx_world \<Rightarrow> 'w omx_world" where
  "upd_comp p f w = w\<lparr>comps := (comps w)(p := f (comps w p))\<rparr>"

definition upd_port :: "nat \<Rightarrow> (ROCKCHIP_OMX_BASEPORT \<Rightarrow> ROCKCHIP_OMX_BASEPORT)
   \<Rightarrow> ROCKCHIP_OMX_BASECOMPONENT \<Rightarrow> ROCKCHIP_OMX_BASECOMPONENT" where
  "upd_port i f c = c\<lparr>ports := (ports c)(i := f (ports c i))\<rparr>"

definition CHECK_PORT_TUNNELED :: "ROCKCHIP_OMX_BASEPORT \<Rightarrow> bool" where
  "CHECK_PORT_TUNNELED port \<longleftrightarrow> tunnelFlags port AND ROCKCHIP_TUNNEL_ESTABLISHED \<noteq> 0"

definition CHECK_PORT_BUFFER_SUPPLIER :: "ROCKCHIP_OMX_BASEPORT \<Rightarrow> bool" where
  "CHECK_PORT_BUFFER_SUPPLIER port \<longleftrightarrow> tunnelFlags port AND ROCKCHIP_TUNNEL_IS_SUPPLIER \<noteq> 0"

abbreviation supplies :: "ROCKCHIP_OMX_BASEPORT \<Rightarrow> bool" where
  "supplies port \<equiv> CHECK_PORT_TUNNELED port \<and> CHECK_PORT_BUFFER_SUPPLIER port"

section \<open>Sending a command\<close>

text \<open>Ports \<open>0\<close> (input) and \<open>1\<close> (output) that are disabled on the way to idle are released from their wait.\<close>

definition invalidate_port :: "nat \<Rightarrow> ROCKCHIP_OMX_BASECOMPONENT \<Rightarrow> ROCKCHIP_OMX_BASECOMPONENT" where
  "invalidate_port i c =
     (if \<not> bEnabled (ports c i) \<and> portState (ports c i) = OMX_StateIdle
      then upd_port i (\<lambda>p. p\<lparr>exceptionFlag := INVALID_STATE, loadedSem := loadedSem p + 1\<rparr>) c else c)"

definition set_port_states :: "OMX_STATETYPE \<Rightarrow> ROCKCHIP_OMX_BASECOMPONENT \<Rightarrow> ROCKCHIP_OMX_BASECOMPONENT" where
  "set_port_states s c = fold (\<lambda>i. upd_port i (\<lambda>p. p\<lparr>portState := s\<rparr>)) [0..<nPorts c] c"

definition Rockchip_StateSet :: "OMX_STATETYPE \<Rightarrow> ROCKCHIP_OMX_BASECOMPONENT \<Rightarrow> ROCKCHIP_OMX_BASECOMPONENT" where
  "Rockchip_StateSet dest c =
     (if dest = OMX_StateIdle \<and> currentState c = OMX_StateLoaded
      then set_port_states OMX_StateIdle (c\<lparr>transientState := ROCKCHIP_OMX_TransStateLoadedToIdle\<rparr>)
      else if dest = OMX_StateLoaded \<and> currentState c = OMX_StateIdle
      then set_port_states OMX_StateLoaded (c\<lparr>transientState := ROCKCHIP_OMX_TransStateIdleToLoaded\<rparr>)
      else if dest = OMX_StateIdle \<and> currentState c = OMX_StateExecuting
      then (invalidate_port 1 (invalidate_port 0 c))\<lparr>transientState := ROCKCHIP_OMX_TransStateExecutingToIdle\<rparr>
      else if dest = OMX_StateExecuting \<and> currentState c = OMX_StateIdle
      then c\<lparr>transientState := ROCKCHIP_OMX_TransStateIdleToExecuting\<rparr>
      else if dest = OMX_StateInvalid then set_port_states OMX_StateInvalid c
      else c)"

definition ALL_PORT_INDEX :: int where "ALL_PORT_INDEX = - 1"

text \<open>A negative port index other than \<open>ALL_PORT_INDEX\<close> passes the checks and is used: the result is \<open>None\<close>.\<close>

definition Rockchip_SetPortFlush ::
  "int \<Rightarrow> ROCKCHIP_OMX_BASECOMPONENT \<Rightarrow> (ROCKCHIP_OMX_BASECOMPONENT \<times> OMX_ERRORTYPE) option" where
  "Rockchip_SetPortFlush i c =
     (if currentState c = OMX_StateExecuting \<or> currentState c = OMX_StatePause then
        if i \<noteq> ALL_PORT_INDEX \<and> i \<ge> int (nPorts c) then Some (c, OMX_ErrorBadPortIndex)
        else if i = ALL_PORT_INDEX
        then Some (fold (\<lambda>i. upd_port i (\<lambda>p. p\<lparr>bIsPortFlushed := True\<rparr>)) [0..<ALL_PORT_NUM] c, OMX_ErrorNone)
        else if i < 0 then None
        else Some (upd_port (nat i) (\<lambda>p. p\<lparr>bIsPortFlushed := True\<rparr>) c, OMX_ErrorNone)
      else Some (c, OMX_ErrorIncorrectStateOperation))"

text \<open>Enabling and disabling all ports stops at the first one that is already in the state asked for.\<close>

fun enable_ports :: "nat list \<Rightarrow> ROCKCHIP_OMX_BASECOMPONENT \<Rightarrow> ROCKCHIP_OMX_BASECOMPONENT \<times> OMX_ERRORTYPE" where
  "enable_ports [] c = (c, OMX_ErrorNone)"
| "enable_ports (i # is) c =
     (if bEnabled (ports c i) then (c, OMX_ErrorIncorrectStateOperation)
      else enable_ports is (upd_port i (\<lambda>p. p\<lparr>portState := OMX_StateIdle\<rparr>) c))"

definition Rockchip_SetPortEnable ::
  "int \<Rightarrow> ROCKCHIP_OMX_BASECOMPONENT \<Rightarrow> (ROCKCHIP_OMX_BASECOMPONENT \<times> OMX_ERRORTYPE) option" where
  "Rockchip_SetPortEnable i c =
     (if i \<noteq> ALL_PORT_INDEX \<and> i \<ge> int (nPorts c) then Some (c, OMX_ErrorBadPortIndex)
      else if i = ALL_PORT_INDEX then Some (enable_ports [0..<nPorts c] c)
      else if i < 0 then None
      else Some (enable_ports [nat i] c))"

fun disable_ports :: "nat list \<Rightarrow> ROCKCHIP_OMX_BASECOMPONENT \<Rightarrow> ROCKCHIP_OMX_BASECOMPONENT \<times> OMX_ERRORTYPE" where
  "disable_ports [] c = (c, OMX_ErrorNone)"
| "disable_ports (i # is) c =
     (if \<not> bEnabled (ports c i) then (c, OMX_ErrorIncorrectStateOperation)
      else disable_ports is (upd_port i (\<lambda>p. p\<lparr>portState := OMX_StateLoaded, bIsPortDisabled := True\<rparr>) c))"

definition Rockchip_SetPortDisable ::
  "int \<Rightarrow> ROCKCHIP_OMX_BASECOMPONENT \<Rightarrow> (ROCKCHIP_OMX_BASECOMPONENT \<times> OMX_ERRORTYPE) option" where
  "Rockchip_SetPortDisable i c =
     (if i \<noteq> ALL_PORT_INDEX \<and> i \<ge> int (nPorts c) then Some (c, OMX_ErrorBadPortIndex)
      else if i = ALL_PORT_INDEX then Some (disable_ports [0..<nPorts c] c)
      else if i < 0 then None
      else Some (upd_port (nat i) (\<lambda>p. p\<lparr>portState := OMX_StateLoaded, bIsPortDisabled := True\<rparr>) c, OMX_ErrorNone))"

definition Rockchip_SetMarkBuffer :: "nat \<Rightarrow> ROCKCHIP_OMX_BASECOMPONENT \<Rightarrow> OMX_ERRORTYPE" where
  "Rockchip_SetMarkBuffer i c =
     (if i \<ge> nPorts c then OMX_ErrorBadPortIndex
      else if currentState c = OMX_StateExecuting \<or> currentState c = OMX_StatePause then OMX_ErrorNone
      else OMX_ErrorIncorrectStateOperation)"

definition Rockchip_OMX_CommandQueue ::
  "bool \<Rightarrow> omx_command \<Rightarrow> ROCKCHIP_OMX_BASECOMPONENT \<Rightarrow> ROCKCHIP_OMX_BASECOMPONENT \<times> OMX_ERRORTYPE" where
  "Rockchip_OMX_CommandQueue malloc cmd c =
     (if \<not> malloc then (c, OMX_ErrorInsufficientResources)
      else if length (messageQ c) < MAX_QUEUE_ELEMENTS - 1
      then (c\<lparr>messageQ := messageQ c @ [cmd], msgSemaphore := msgSemaphore c + 1\<rparr>, OMX_ErrorNone)
      else (c\<lparr>lostMessages := lostMessages c + 1\<rparr>, OMX_ErrorUndefined))"

text \<open>\<open>Rockchip_OMX_SendCommand\<close> on a valid handle.\<close>

definition Rockchip_OMX_SendCommand ::
  "bool \<Rightarrow> omx_command \<Rightarrow> ROCKCHIP_OMX_BASECOMPONENT \<Rightarrow> (ROCKCHIP_OMX_BASECOMPONENT \<times> OMX_ERRORTYPE) option" where
  "Rockchip_OMX_SendCommand malloc cmd c =
     (if currentState c = OMX_StateInvalid then Some (c, OMX_ErrorInvalidState)
      else
        map_option (\<lambda>(c1, e). if e \<noteq> OMX_ErrorNone then (c1, e) else Rockchip_OMX_CommandQueue malloc cmd c1)
          (case cmd of
             CommandStateSet s \<Rightarrow> Some (Rockchip_StateSet s c, OMX_ErrorNone)
           | CommandFlush i \<Rightarrow> Rockchip_SetPortFlush i (c\<lparr>needFlushOnSeek := True\<rparr>)
           | CommandPortDisable i \<Rightarrow> Rockchip_SetPortDisable i c
           | CommandPortEnable i \<Rightarrow> Rockchip_SetPortEnable i c
           | CommandMarkBuffer i _ \<Rightarrow> Some (c, Rockchip_SetMarkBuffer i c)
           | CommandComponentDeInit \<Rightarrow> Some (c, OMX_ErrorNone)))"

section \<open>Handles\<close>

text \<open>A semaphore that is created starts at 0, an event is not set.\<close>

definition new_handle :: "omx_handle \<Rightarrow> ROCKCHIP_OMX_BASECOMPONENT \<Rightarrow> ROCKCHIP_OMX_BASECOMPONENT" where
  "new_handle h c =
     (let c1 = c\<lparr>handles := insert h (handles c), signalled := signalled c - {h},
                 leaked := (if h \<in> handles c then leaked c + 1 else leaked c)\<rparr>
      in case h of H_bufferSem i \<Rightarrow> upd_port i (\<lambda>p. p\<lparr>bufferSem := 0\<rparr>) c1 | _ \<Rightarrow> c1)"

definition create_handle :: "'w omx_env \<Rightarrow> ptr \<Rightarrow> omx_handle \<Rightarrow> 'w omx_world \<Rightarrow> 'w omx_world \<times> OMX_ERRORTYPE" where
  "create_handle E p h w =
     (let (x, e) = os_create E h (ext w); w1 = w\<lparr>ext := x\<rparr>
      in if e \<noteq> OMX_ErrorNone then (w1, e) else (upd_comp p (new_handle h) w1, OMX_ErrorNone))"

text \<open>Semaphores and mutexes: the first that cannot be created ends it. Whether events are created is not checked.\<close>

fun create_handles :: "'w omx_env \<Rightarrow> ptr \<Rightarrow> omx_handle list \<Rightarrow> 'w omx_world \<Rightarrow> 'w omx_world \<times> OMX_ERRORTYPE" where
  "create_handles E p [] w = (w, OMX_ErrorNone)"
| "create_handles E p (h # hs) w =
     (let (w1, e) = create_handle E p h w
      in if e \<noteq> OMX_ErrorNone then (w1, OMX_ErrorInsufficientResources) else create_handles E p hs w1)"

definition create_events :: "'w omx_env \<Rightarrow> ptr \<Rightarrow> omx_handle list \<Rightarrow> 'w omx_world \<Rightarrow> 'w omx_world" where
  "create_events E p hs w = fold (\<lambda>h w. fst (create_handle E p h w)) hs w"

definition terminate_handles :: "omx_handle list \<Rightarrow> ROCKCHIP_OMX_BASECOMPONENT \<Rightarrow> ROCKCHIP_OMX_BASECOMPONENT" where
  "terminate_handles hs c = c\<lparr>handles := handles c - set hs, signalled := signalled c - set hs\<rparr>"

definition pause_events :: "ROCKCHIP_OMX_BASECOMPONENT \<Rightarrow> omx_handle list" where
  "pause_events c = (if \<not> bMultiThreadProcess c then [H_pause] else map H_portPause [0..<ALL_PORT_NUM])"

definition event_handles :: "ROCKCHIP_OMX_BASECOMPONENT \<Rightarrow> omx_handle list" where
  "event_handles c =
     (if \<not> bMultiThreadProcess c then [H_pause]
      else concat (map (\<lambda>i. H_portPause i # (if bufferShare (ports c i) then [H_allReturned i] else [])) [0..<ALL_PORT_NUM]))"

definition sem_handles :: "omx_handle list" where
  "sem_handles = map H_bufferSem [0..<ALL_PORT_NUM]"

definition mutex_handles :: "ROCKCHIP_OMX_BASECOMPONENT \<Rightarrow> omx_handle list" where
  "mutex_handles c =
     concat (map (\<lambda>i. (case portWayType (ports c i) of
         WAY1_PORT \<Rightarrow> [H_bufferMutex i] | WAY2_PORT \<Rightarrow> [H_bufferMutex i, H_outputMutex i])
       @ [H_portMutex i, H_secureMutex i]) [0..<ALL_PORT_NUM])"

definition all_handles :: "ROCKCHIP_OMX_BASECOMPONENT \<Rightarrow> omx_handle list" where
  "all_handles c = event_handles c @ sem_handles @ mutex_handles c"

text \<open>Posting or reading a semaphore that is not there, or setting an event that is not, does nothing.\<close>

definition post_sem :: "nat \<Rightarrow> nat \<Rightarrow> ROCKCHIP_OMX_BASECOMPONENT \<Rightarrow> ROCKCHIP_OMX_BASECOMPONENT" where
  "post_sem i n c = (if H_bufferSem i \<in> handles c then upd_port i (\<lambda>p. p\<lparr>bufferSem := bufferSem p + int n\<rparr>) c else c)"

definition sem_count :: "nat \<Rightarrow> ROCKCHIP_OMX_BASECOMPONENT \<Rightarrow> int" where
  "sem_count i c = (if H_bufferSem i \<in> handles c then bufferSem (ports c i) else 0)"

definition signal_pause :: "ROCKCHIP_OMX_BASECOMPONENT \<Rightarrow> ROCKCHIP_OMX_BASECOMPONENT" where
  "signal_pause c = c\<lparr>signalled := signalled c \<union> (set (pause_events c) \<inter> handles c)\<rparr>"

section \<open>Setting the state\<close>

text \<open>What the resource manager is given: components are told to change their state by a command.\<close>

definition concrete_rm :: "'w omx_env \<Rightarrow> 'w omx_world rm_port" where
  "concrete_rm E = \<lparr>comp_codec = \<lambda>w p. codecType (comps w p), comp_priority = \<lambda>w p. nGroupPriority (comps w p),
     comp_state = \<lambda>w p. currentState (comps w p),
     send_state = \<lambda>w p s. (case Rockchip_OMX_SendCommand (os_malloc E (ext w)) (CommandStateSet s) (comps w p) of
         Some (c, e) \<Rightarrow> (upd_comp p (\<lambda>_. c) w, e) | None \<Rightarrow> (w, OMX_ErrorUndefined)),
     error_event = \<lambda>w p e. if pCallbacks (comps w p) then Some (w\<lparr>events := events w @ [(p, EventError e)]\<rparr>) else None,
     rm_malloc = \<lambda>w. os_malloc E (ext w)\<rparr>"

definition get_resource :: "'w omx_env \<Rightarrow> ptr \<Rightarrow> 'w omx_world \<Rightarrow> ('w omx_world \<times> OMX_ERRORTYPE) option" where
  "get_resource E p w =
     map_option (\<lambda>(w1, rm, e). (w1\<lparr>rlists := rm\<rparr>, e)) (Rockchip_OMX_Get_Resource (concrete_rm E) p w (rlists w))"

definition release_resource :: "'w omx_env \<Rightarrow> ptr \<Rightarrow> 'w omx_world \<Rightarrow> 'w omx_world \<times> OMX_ERRORTYPE" where
  "release_resource E p w =
     (let (w1, rm, e) = Rockchip_OMX_Release_Resource (concrete_rm E) p w (rlists w) in (w1\<lparr>rlists := rm\<rparr>, e))"

definition set_current :: "OMX_STATETYPE \<Rightarrow> ptr \<Rightarrow> 'w omx_world \<Rightarrow> 'w omx_world" where
  "set_current s p w = upd_comp p (\<lambda>c. c\<lparr>currentState := s\<rparr>) w"

definition signal_abend :: "ptr \<Rightarrow> 'w omx_world \<Rightarrow> 'w omx_world" where
  "signal_abend p w = upd_comp p (\<lambda>c. c\<lparr>abendSignalled := True\<rparr>) w"

definition terminate_all :: "ptr \<Rightarrow> 'w omx_world \<Rightarrow> 'w omx_world" where
  "terminate_all p w = upd_comp p (\<lambda>c. terminate_handles (all_handles c) c) w"

text \<open>To the invalid state: whatever the codec answers, the result is that the state is invalid.\<close>

definition set_invalid :: "'w omx_env \<Rightarrow> ptr \<Rightarrow> 'w omx_world \<Rightarrow> 'w omx_world \<times> OMX_ERRORTYPE" where
  "set_invalid E p w =
     (let s = currentState (comps w p);
          w1 = (if s = OMX_StateWaitForResources
                then w\<lparr>rlists := fst (Rockchip_OMX_Out_WaitForResource (concrete_rm E) p w (rlists w))\<rparr> else w);
          (w2, _) = codec_call (BufferProcessTerminate E) p (set_current OMX_StateInvalid p w1);
          w3 = terminate_all p w2;
          w4 = (if codec_terminate_set (comps w3 p) then fst (codec_call (codec_componentTerminate E) p w3) else w3)
      in if s = OMX_StateMax then (w, OMX_ErrorInvalidState) else (w4, OMX_ErrorInvalidState))"

text \<open>The buffers queued at a port are freed.\<close>

definition drain_queue :: "nat \<Rightarrow> ROCKCHIP_OMX_BASECOMPONENT \<Rightarrow> ROCKCHIP_OMX_BASECOMPONENT" where
  "drain_queue i c = (if bufferQnum (ports c i) > 0 then upd_port i (\<lambda>p. p\<lparr>bufferQnum := 0\<rparr>) c else c)"

text \<open>Waiting until the buffers are gone. The flag is False when the loop is left by an error.\<close>

fun unload_ports :: "'w omx_env \<Rightarrow> ptr \<Rightarrow> nat list \<Rightarrow> OMX_ERRORTYPE \<Rightarrow> 'w omx_world
   \<Rightarrow> ('w omx_world \<times> OMX_ERRORTYPE \<times> bool) option" where
  "unload_ports E p [] e w = Some (w, e, True)"
| "unload_ports E p (i # is) e w =
     (let port = ports (comps w p) i in
      if supplies port then
        let (w2, e2) = codec_call (FreeTunnelBuffer E i) p (upd_comp p (drain_queue i) w)
        in if e2 \<noteq> OMX_ErrorNone then Some (w2, e2, False) else unload_ports E p is e2 w2
      else if bEnabled port then
        Option.bind (wait_call (wait_unloaded E i) p w)
          (\<lambda>w1. unload_ports E p is e (upd_comp p (upd_port i (\<lambda>p. p\<lparr>bPopulated := False\<rparr>)) w1))
      else unload_ports E p is e w)"

definition set_loaded :: "'w omx_env \<Rightarrow> ptr \<Rightarrow> 'w omx_world \<Rightarrow> ('w omx_world \<times> OMX_ERRORTYPE) option" where
  "set_loaded E p w =
     (case currentState (comps w p) of
        OMX_StateIdle \<Rightarrow>
          let (w1, e) = codec_call (BufferProcessTerminate E) p w; w2 = terminate_all p w1
          in if \<not> codec_terminate_set (comps w2 p) then None
             else let (w3, _) = codec_call (codec_componentTerminate E) p w2
               in map_option (\<lambda>(w4, e, done). (if done then set_current OMX_StateLoaded p w4 else w4, e))
                    (unload_ports E p [0..<nPorts (comps w3 p)] e w3)
      | OMX_StateWaitForResources \<Rightarrow>
          let (rm, e) = Rockchip_OMX_Out_WaitForResource (concrete_rm E) p w (rlists w)
          in Some (set_current OMX_StateLoaded p (w\<lparr>rlists := rm\<rparr>), e)
      | _ \<Rightarrow> Some (w, OMX_ErrorIncorrectStateTransition))"

text \<open>Waiting until the buffers are there: the destructor of the ports may end the wait abnormally.\<close>

fun load_ports :: "'w omx_env \<Rightarrow> ptr \<Rightarrow> nat list \<Rightarrow> 'w omx_world \<Rightarrow> ('w omx_world \<times> OMX_ERRORTYPE \<times> bool) option" where
  "load_ports E p [] w = Some (w, OMX_ErrorNone, True)"
| "load_ports E p (i # is) w =
     (let port = ports (comps w p) i in
      if \<not> bEnabled port then load_ports E p is w
      else if supplies port then
        let (w1, e) = codec_call (AllocateTunnelBuffer E i) p w
        in if e \<noteq> OMX_ErrorNone then Some (w1, e, False) else load_ports E p is w1
      else
        Option.bind (wait_call (wait_loaded E i) p w)
          (\<lambda>w1. if abendState (comps w1 p)
                then let (w2, e) = release_resource E p (signal_abend p w1) in Some (w2, e, False)
                else load_ports E p is (upd_comp p (upd_port i (\<lambda>p. p\<lparr>bPopulated := True\<rparr>)) w1)))"

definition idle_handles :: "'w omx_env \<Rightarrow> ptr \<Rightarrow> 'w omx_world \<Rightarrow> 'w omx_world \<times> OMX_ERRORTYPE" where
  "idle_handles E p w =
     (let (w1, e) = create_handles E p sem_handles (create_events E p (event_handles (comps w p)) w)
      in if e \<noteq> OMX_ErrorNone then (w1, e) else create_handles E p (mutex_handles (comps w1 p)) w1)"

definition loaded_to_idle :: "'w omx_env \<Rightarrow> ptr \<Rightarrow> 'w omx_world \<Rightarrow> ('w omx_world \<times> OMX_ERRORTYPE) option" where
  "loaded_to_idle E p w =
     map_option (\<lambda>(w1, e, done).
         if \<not> done then (w1, e)
         else let (w2, e) = idle_handles E p w1 in
           if e \<noteq> OMX_ErrorNone then (w2, e)
           else let (w3, e) = codec_call (BufferProcessCreate E) p w2 in
             if e \<noteq> OMX_ErrorNone then (terminate_all p w3, OMX_ErrorInsufficientResources)
             else (set_current OMX_StateIdle p w3, e))
       (load_ports E p [0..<nPorts (comps w p)] w)"

text \<open>The ports that an index stands for.\<close>

definition port_list :: "int \<Rightarrow> nat list option" where
  "port_list i =
     (if i = ALL_PORT_INDEX then Some [0..<ALL_PORT_NUM]
      else if 0 \<le> i \<and> i < int ALL_PORT_NUM then Some [nat i] else None)"

definition flush_ports :: "'w omx_env \<Rightarrow> ptr \<Rightarrow> bool \<Rightarrow> nat list \<Rightarrow> 'w omx_world \<Rightarrow> 'w omx_world" where
  "flush_ports E p bEvent is w = fold (\<lambda>i w. fst (codec_call (BufferFlush E i bEvent) p w)) is w"

definition Rockchip_OMX_BufferFlushProcess ::
  "'w omx_env \<Rightarrow> ptr \<Rightarrow> int \<Rightarrow> bool \<Rightarrow> 'w omx_world \<Rightarrow> ('w omx_world \<times> OMX_ERRORTYPE) option" where
  "Rockchip_OMX_BufferFlushProcess E p i bEvent w =
     map_option (\<lambda>is. (flush_ports E p bEvent is w, OMX_ErrorNone)) (port_list i)"

definition set_idle :: "'w omx_env \<Rightarrow> ptr \<Rightarrow> 'w omx_world \<Rightarrow> ('w omx_world \<times> OMX_ERRORTYPE) option" where
  "set_idle E p w =
     (let s = currentState (comps w p) in
      if s = OMX_StateLoaded then loaded_to_idle E p w
      else if s = OMX_StateExecuting \<or> s = OMX_StatePause then
        let w1 = (if s = OMX_StateExecuting then upd_comp p (\<lambda>c. c\<lparr>needFlushOnSeek := True\<rparr>) w else w)
        in map_option (\<lambda>(w2, _). (set_current OMX_StateIdle p w2, OMX_ErrorNone))
             (Rockchip_OMX_BufferFlushProcess E p ALL_PORT_INDEX False w1)
      else if s = OMX_StateWaitForResources then Some (set_current OMX_StateIdle p w, OMX_ErrorNone)
      else Some (w, OMX_ErrorIncorrectStateTransition))"

text \<open>The buffers of a port that supplies them are posted: all on the start, those queued after a pause.\<close>

definition post_tunnel :: "nat \<Rightarrow> ROCKCHIP_OMX_BASECOMPONENT \<Rightarrow> ROCKCHIP_OMX_BASECOMPONENT" where
  "post_tunnel i c =
     (if supplies (ports c i) \<and> bEnabled (ports c i) then post_sem i (tunnelBufferNum (ports c i)) c else c)"

definition post_queued :: "nat \<Rightarrow> ROCKCHIP_OMX_BASECOMPONENT \<Rightarrow> ROCKCHIP_OMX_BASECOMPONENT" where
  "post_queued i c =
     (if supplies (ports c i) \<and> bEnabled (ports c i) then post_sem i (nat (bufferQnum (ports c i) - sem_count i c)) c
      else c)"

definition set_executing :: "'w omx_env \<Rightarrow> ptr \<Rightarrow> 'w omx_world \<Rightarrow> 'w omx_world \<times> OMX_ERRORTYPE" where
  "set_executing E p w =
     (let s = currentState (comps w p) in
      if s = OMX_StateIdle then
        let (w1, e) = codec_call (codec_componentInit E) p w in
        if e \<noteq> OMX_ErrorNone then (fst (release_resource E p (signal_abend p w1)), e)
        else (upd_comp p (\<lambda>c. signal_pause ((fold post_tunnel [0..<nPorts c] c)
                \<lparr>transientState := ROCKCHIP_OMX_TransStateMax, currentState := OMX_StateExecuting\<rparr>)) w1, OMX_ErrorNone)
      else if s = OMX_StatePause then
        (upd_comp p (\<lambda>c. signal_pause ((fold post_queued [0..<nPorts c] c)\<lparr>currentState := OMX_StateExecuting\<rparr>)) w,
         OMX_ErrorNone)
      else (w, OMX_ErrorIncorrectStateTransition))"

definition set_pause :: "ptr \<Rightarrow> 'w omx_world \<Rightarrow> 'w omx_world \<times> OMX_ERRORTYPE" where
  "set_pause p w =
     (if currentState (comps w p) = OMX_StateIdle \<or> currentState (comps w p) = OMX_StateExecuting
      then (set_current OMX_StatePause p w, OMX_ErrorNone) else (w, OMX_ErrorIncorrectStateTransition))"

definition set_wait :: "'w omx_env \<Rightarrow> ptr \<Rightarrow> 'w omx_world \<Rightarrow> 'w omx_world \<times> OMX_ERRORTYPE" where
  "set_wait E p w =
     (if currentState (comps w p) = OMX_StateLoaded
      then let (rm, e) = Rockchip_OMX_In_WaitForResource (concrete_rm E) p w (rlists w)
           in (set_current OMX_StateWaitForResources p (w\<lparr>rlists := rm\<rparr>), e)
      else (w, OMX_ErrorIncorrectStateTransition))"

definition change_state :: "'w omx_env \<Rightarrow> ptr \<Rightarrow> OMX_STATETYPE \<Rightarrow> 'w omx_world \<Rightarrow> ('w omx_world \<times> OMX_ERRORTYPE) option" where
  "change_state E p dest w =
     (case dest of
        OMX_StateInvalid \<Rightarrow> Some (set_invalid E p w)
      | OMX_StateLoaded \<Rightarrow> set_loaded E p w
      | OMX_StateIdle \<Rightarrow> set_idle E p w
      | OMX_StateExecuting \<Rightarrow> Some (set_executing E p w)
      | OMX_StatePause \<Rightarrow> Some (set_pause p w)
      | OMX_StateWaitForResources \<Rightarrow> Some (set_wait E p w)
      | OMX_StateMax \<Rightarrow> Some (w, OMX_ErrorIncorrectStateTransition))"

text \<open>The states from which leaving for \<open>dest\<close> gives the resource back.\<close>

definition gives_back :: "OMX_STATETYPE \<Rightarrow> OMX_STATETYPE \<Rightarrow> bool" where
  "gives_back s dest \<longleftrightarrow> s = OMX_StateIdle \<and> dest = OMX_StateLoaded \<or> s = OMX_StateIdle \<and> dest = OMX_StateInvalid
     \<or> s = OMX_StateExecuting \<and> dest = OMX_StateInvalid \<or> s = OMX_StatePause \<and> dest = OMX_StateInvalid"

definition report :: "ptr \<Rightarrow> OMX_STATETYPE \<Rightarrow> 'w omx_world \<times> OMX_ERRORTYPE \<Rightarrow> 'w omx_world \<times> OMX_ERRORTYPE" where
  "report p dest r =
     (let (w, e) = r in
      (if pCallbacks (comps w p)
       then w\<lparr>events := events w @ [(p, if e = OMX_ErrorNone then CmdComplete (CommandStateSet dest) else EventError e)]\<rparr>
       else w, e))"

definition Rockchip_OMX_ComponentStateSet ::
  "'w omx_env \<Rightarrow> ptr \<Rightarrow> OMX_STATETYPE \<Rightarrow> 'w omx_world \<Rightarrow> ('w omx_world \<times> OMX_ERRORTYPE) option" where
  "Rockchip_OMX_ComponentStateSet E p dest w =
     map_option (report p dest)
       (let s = currentState (comps w p) in
        if s = dest then Some (w, OMX_ErrorSameState)
        else if s = OMX_StateInvalid then Some (w, OMX_ErrorInvalidState)
        else if s = OMX_StateLoaded \<and> dest = OMX_StateIdle then
          Option.bind (get_resource E p w)
            (\<lambda>(w1, e). if e \<noteq> OMX_ErrorNone then Some (signal_abend p w1, e) else change_state E p dest w1)
        else change_state E p dest (if gives_back s dest then fst (release_resource E p w) else w))"

section \<open>Enabling and disabling ports\<close>

definition send_event :: "ptr \<Rightarrow> omx_event \<Rightarrow> 'w omx_world \<Rightarrow> 'w omx_world option" where
  "send_event p e w = (if pCallbacks (comps w p) then Some (w\<lparr>events := events w @ [(p, e)]\<rparr>) else None)"

definition port_enabled :: "nat \<Rightarrow> ROCKCHIP_OMX_BASECOMPONENT \<Rightarrow> ROCKCHIP_OMX_BASECOMPONENT" where
  "port_enabled i = upd_port i (\<lambda>p. p\<lparr>exceptionFlag := GENERAL_STATE, bEnabled := True\<rparr>)"

definition Rockchip_OMX_EnablePort ::
  "'w omx_env \<Rightarrow> ptr \<Rightarrow> nat \<Rightarrow> 'w omx_world \<Rightarrow> ('w omx_world \<times> OMX_ERRORTYPE) option" where
  "Rockchip_OMX_EnablePort E p i w =
     (if currentState (comps w p) \<noteq> OMX_StateLoaded \<and> currentState (comps w p) \<noteq> OMX_StateWaitForResources
      then map_option (\<lambda>w1.
          (if exceptionFlag (ports (comps w1 p) i) = INVALID_STATE
           then upd_comp p (upd_port i (\<lambda>p. p\<lparr>exceptionFlag := NEED_PORT_DISABLE\<rparr>)) w1
           else upd_comp p (port_enabled i) (upd_comp p (upd_port i (\<lambda>p. p\<lparr>bPopulated := True\<rparr>)) w1), OMX_ErrorNone))
        (wait_call (wait_loaded E i) p w)
      else Some (upd_comp p (port_enabled i) w, OMX_ErrorNone))"

fun enable_each :: "'w omx_env \<Rightarrow> ptr \<Rightarrow> nat list \<Rightarrow> OMX_ERRORTYPE \<Rightarrow> 'w omx_world
   \<Rightarrow> ('w omx_world \<times> OMX_ERRORTYPE) option" where
  "enable_each E p [] ret w = Some (w, ret)"
| "enable_each E p (i # is) ret w =
     Option.bind (Rockchip_OMX_EnablePort E p i w) (\<lambda>(w1, e).
       Option.bind (if e = OMX_ErrorNone then send_event p (CmdComplete (CommandPortEnable (int i))) w1 else Some w1)
         (enable_each E p is e))"

definition report_error :: "ptr \<Rightarrow> 'w omx_world \<times> OMX_ERRORTYPE \<Rightarrow> ('w omx_world \<times> OMX_ERRORTYPE) option" where
  "report_error p r =
     (let (w, e) = r in
      if e \<noteq> OMX_ErrorNone then map_option (\<lambda>w1. (w1, e)) (send_event p (EventError e) w) else Some (w, e))"

definition Rockchip_OMX_PortEnableProcess ::
  "'w omx_env \<Rightarrow> ptr \<Rightarrow> int \<Rightarrow> 'w omx_world \<Rightarrow> ('w omx_world \<times> OMX_ERRORTYPE) option" where
  "Rockchip_OMX_PortEnableProcess E p i w =
     Option.bind (port_list i) (\<lambda>is. Option.bind (enable_each E p is OMX_ErrorNone w) (report_error p))"

definition Rockchip_OMX_DisablePort ::
  "'w omx_env \<Rightarrow> ptr \<Rightarrow> nat \<Rightarrow> 'w omx_world \<Rightarrow> ('w omx_world \<times> OMX_ERRORTYPE) option" where
  "Rockchip_OMX_DisablePort E p i w =
     (if \<not> bEnabled (ports (comps w p) i) then Some (w, OMX_ErrorNone)
      else map_option (\<lambda>w1.
          let (w2, e) = (if codecType (comps w1 p) = HW_VIDEO_DEC_CODEC \<and> i = 1
                         then codec_call (ComputeDecBufferCount E) p w1 else (w1, OMX_ErrorNone))
          in if e \<noteq> OMX_ErrorNone then (w2, e)
             else (upd_comp p (upd_port i (\<lambda>p. p\<lparr>bEnabled := False\<rparr>)) w2, OMX_ErrorNone))
        (if currentState (comps w p) \<noteq> OMX_StateLoaded
         then wait_call (wait_unloaded E i) p
           (upd_comp p (\<lambda>c. upd_port i (\<lambda>p. p\<lparr>bPopulated := False\<rparr>)
              (if CHECK_PORT_BUFFER_SUPPLIER (ports c i) then drain_queue i c else c)) w)
         else Some w))"

fun disable_each :: "'w omx_env \<Rightarrow> ptr \<Rightarrow> nat list \<Rightarrow> OMX_ERRORTYPE \<Rightarrow> 'w omx_world
   \<Rightarrow> ('w omx_world \<times> OMX_ERRORTYPE) option" where
  "disable_each E p [] ret w = Some (w, ret)"
| "disable_each E p (i # is) ret w =
     Option.bind (Rockchip_OMX_DisablePort E p i w) (\<lambda>(w1, e).
       let w2 = upd_comp p (upd_port i (\<lambda>p. p\<lparr>bIsPortDisabled := False\<rparr>)) w1 in
       Option.bind (if e = OMX_ErrorNone then send_event p (CmdComplete (CommandPortDisable (int i))) w2 else Some w2)
         (disable_each E p is e))"

definition Rockchip_OMX_PortDisableProcess ::
  "'w omx_env \<Rightarrow> ptr \<Rightarrow> int \<Rightarrow> 'w omx_world \<Rightarrow> ('w omx_world \<times> OMX_ERRORTYPE) option" where
  "Rockchip_OMX_PortDisableProcess E p i w =
     Option.bind (port_list i) (\<lambda>is.
       Option.bind (disable_each E p is OMX_ErrorNone (flush_ports E p False is w)) (report_error p))"

section \<open>The thread of a component\<close>

definition handle_command :: "'w omx_env \<Rightarrow> ptr \<Rightarrow> omx_command \<Rightarrow> 'w omx_world \<Rightarrow> 'w omx_world option" where
  "handle_command E p cmd w =
     (case cmd of
        CommandStateSet s \<Rightarrow> map_option fst (Rockchip_OMX_ComponentStateSet E p s w)
      | CommandFlush i \<Rightarrow> map_option fst (Rockchip_OMX_BufferFlushProcess E p i True w)
      | CommandPortDisable i \<Rightarrow> map_option fst (Rockchip_OMX_PortDisableProcess E p i w)
      | CommandPortEnable i \<Rightarrow> map_option fst (Rockchip_OMX_PortEnableProcess E p i w)
      | CommandMarkBuffer i m \<Rightarrow> Some (upd_comp p (upd_port i (\<lambda>p. p\<lparr>markType := m\<rparr>)) w)
      | CommandComponentDeInit \<Rightarrow> Some (upd_comp p (\<lambda>c. c\<lparr>exitMessageThread := True\<rparr>) w))"

text \<open>The thread waits for the semaphore of its messages; woken without a message it waits again.\<close>

partial_function (option) Rockchip_OMX_MessageHandlerThread :: "'w omx_env \<Rightarrow> ptr \<Rightarrow> 'w omx_world \<Rightarrow> 'w omx_world option" where
  "Rockchip_OMX_MessageHandlerThread E p w =
     (if exitMessageThread (comps w p) then Some w
      else if msgSemaphore (comps w p) \<le> 0 then None
      else let w1 = upd_comp p (\<lambda>c. c\<lparr>msgSemaphore := msgSemaphore c - 1\<rparr>) w in
        (case messageQ (comps w1 p) of
           [] \<Rightarrow> Rockchip_OMX_MessageHandlerThread E p w1
         | cmd # rest \<Rightarrow>
             Option.bind (handle_command E p cmd (upd_comp p (\<lambda>c. c\<lparr>messageQ := rest\<rparr>) w1))
               (Rockchip_OMX_MessageHandlerThread E p)))"

end
