(* ===== verification/Omx_State.thy ===== *)
theory Omx_State
  imports Omx_Component
begin

text \<open>
  What setting the state of an OMX component does: which transitions there are and how they end, that the
  handles of a component are there exactly while it is idle, executes or pauses, and the cases in which
  that fails.
\<close>

section \<open>What is kept\<close>

text \<open>
  A component of which only the rest has changed. The functions of the codec component, and what other
  threads do during a wait, change no component but the one they are called for, and keep this of it.
\<close>

definition kept :: "ROCKCHIP_OMX_BASECOMPONENT \<Rightarrow> ROCKCHIP_OMX_BASECOMPONENT \<Rightarrow> bool" where
  "kept c c' \<longleftrightarrow> currentState c' = currentState c \<and> handles c' = handles c \<and> leaked c' = leaked c
     \<and> codecType c' = codecType c \<and> nGroupPriority c' = nGroupPriority c
     \<and> nPorts c' = nPorts c \<and> bMultiThreadProcess c' = bMultiThreadProcess c \<and> pCallbacks c' = pCallbacks c
     \<and> codec_terminate_set c' = codec_terminate_set c
     \<and> (\<forall>i. portWayType (ports c' i) = portWayType (ports c i) \<and> bufferShare (ports c' i) = bufferShare (ports c i)
          \<and> tunnelFlags (ports c' i) = tunnelFlags (ports c i))"

definition keeps :: "'w codec_fun \<Rightarrow> bool" where
  "keeps f \<longleftrightarrow> (\<forall>c x. kept c (fst (f c x)))"

definition wait_keeps :: "'w wait_fun \<Rightarrow> bool" where
  "wait_keeps f \<longleftrightarrow> (\<forall>c x c' x'. f c x = Some (c', x') \<longrightarrow> kept c c')"

definition codec_law :: "'w omx_env \<Rightarrow> bool" where
  "codec_law E \<longleftrightarrow> keeps (codec_componentInit E) \<and> keeps (codec_componentTerminate E)
     \<and> keeps (BufferProcessCreate E) \<and> keeps (BufferProcessTerminate E) \<and> keeps (ComputeDecBufferCount E)
     \<and> (\<forall>i. keeps (AllocateTunnelBuffer E i) \<and> keeps (FreeTunnelBuffer E i)
          \<and> wait_keeps (wait_loaded E i) \<and> wait_keeps (wait_unloaded E i))
     \<and> (\<forall>i b. keeps (BufferFlush E i b))"

lemma kept_refl [simp, intro]: "kept c c"
  by (simp add: kept_def)

lemma kept_trans [trans]: "kept a b \<Longrightarrow> kept b c \<Longrightarrow> kept a c"
  by (simp add: kept_def)

lemma kept_port [intro]:
  assumes "\<And>q. portWayType (f q) = portWayType q" "\<And>q. bufferShare (f q) = bufferShare q"
    "\<And>q. tunnelFlags (f q) = tunnelFlags q"
  shows "kept c (upd_port i f c)"
  using assms by (simp add: kept_def upd_port_def)

lemmas kept_port_first = kept_trans [OF kept_port, rotated 3]

lemma kept_fold: "(\<And>i c. kept c (f i c)) \<Longrightarrow> kept c (fold f is c)"
  by (induction "is" arbitrary: c) (auto intro: kept_trans)

lemma kept_all_handles: "kept c c' \<Longrightarrow> all_handles c' = all_handles c"
  by (simp add: kept_def all_handles_def event_handles_def mutex_handles_def)

lemma kept_set_port_states: "kept c (set_port_states s c)"
  unfolding set_port_states_def by (intro kept_fold kept_port) auto

lemma kept_invalidate_port: "kept c (invalidate_port i c)"
  unfolding invalidate_port_def by (auto intro: kept_port)

lemma kept_StateSet: "kept c (Rockchip_StateSet s c)"
proof -
  have t: "kept c (c\<lparr>transientState := t\<rparr>)" for t c by (simp add: kept_def)
  show ?thesis
    unfolding Rockchip_StateSet_def
    by (auto intro: t kept_trans [OF t kept_set_port_states] kept_set_port_states
        kept_trans [OF kept_trans [OF kept_invalidate_port kept_invalidate_port] t])
qed

lemma kept_enable_ports: "kept c (fst (enable_ports is c))"
  by (induction "is" c rule: enable_ports.induct) (auto elim!: kept_port_first)

lemma kept_disable_ports: "kept c (fst (disable_ports is c))"
  by (induction "is" c rule: disable_ports.induct) (auto elim!: kept_port_first)

lemma kept_CommandQueue: "kept c (fst (Rockchip_OMX_CommandQueue m cmd c))"
  by (simp add: Rockchip_OMX_CommandQueue_def kept_def)

lemma kept_SetPortFlush: "Rockchip_SetPortFlush i c = Some (c', e) \<Longrightarrow> kept c c'"
  by (auto simp: Rockchip_SetPortFlush_def split: if_splits intro!: kept_fold kept_port)

lemma kept_SetPortEnable: "Rockchip_SetPortEnable i c = Some (c', e) \<Longrightarrow> kept c c'"
  using kept_enable_ports [of c] by (auto simp: Rockchip_SetPortEnable_def split: if_splits) (metis fst_conv)+

lemma kept_SetPortDisable: "Rockchip_SetPortDisable i c = Some (c', e) \<Longrightarrow> kept c c'"
  using kept_disable_ports [of c]
  by (auto simp: Rockchip_SetPortDisable_def split: if_splits intro: kept_port) (metis fst_conv)+

lemma kept_SendCommand: "Rockchip_OMX_SendCommand m cmd c = Some (c', e) \<Longrightarrow> kept c c'"
proof -
  assume s: "Rockchip_OMX_SendCommand m cmd c = Some (c', e)"
  have f: "kept c (c\<lparr>needFlushOnSeek := True\<rparr>)" by (simp add: kept_def)
  show ?thesis
  proof (cases "currentState c = OMX_StateInvalid")
    case True
    then show ?thesis using s by (simp add: Rockchip_OMX_SendCommand_def)
  next
    case False
    then obtain c1 e1 where c1: "(case cmd of
             CommandStateSet s \<Rightarrow> Some (Rockchip_StateSet s c, OMX_ErrorNone)
           | CommandFlush i \<Rightarrow> Rockchip_SetPortFlush i (c\<lparr>needFlushOnSeek := True\<rparr>)
           | CommandPortDisable i \<Rightarrow> Rockchip_SetPortDisable i c
           | CommandPortEnable i \<Rightarrow> Rockchip_SetPortEnable i c
           | CommandMarkBuffer i _ \<Rightarrow> Some (c, Rockchip_SetMarkBuffer i c)
           | CommandComponentDeInit \<Rightarrow> Some (c, OMX_ErrorNone)) = Some (c1, e1)"
      and r: "(if e1 \<noteq> OMX_ErrorNone then (c1, e1) else Rockchip_OMX_CommandQueue m cmd c1) = (c', e)"
      using s unfolding Rockchip_OMX_SendCommand_def by auto
    have "kept c c1"
      using c1 by (cases cmd) (auto intro: kept_StateSet kept_SetPortEnable kept_SetPortDisable
          kept_trans [OF f kept_SetPortFlush])
    moreover have "kept c1 c'"
      using r kept_CommandQueue [of c1 m cmd] by (auto split: if_splits)
    ultimately show ?thesis by (rule kept_trans)
  qed
qed

text \<open>The resource manager changes components only by the commands it sends and the events.\<close>

lemma removeComponent_rel:
  assumes "removeComponent P p c = Some (c', e)" "\<And>c. R c c" "\<And>a b c. R a b \<Longrightarrow> R b c \<Longrightarrow> R a c"
    and "\<And>c q s. R c (fst (send_state P c q s))" "\<And>c q e c'. error_event P c q e = Some c' \<Longrightarrow> R c c'"
  shows "R c c'"
proof (cases "comp_state P c p = OMX_StateIdle")
  case True
  with assms(1) obtain c1 where c1: "error_event P c p OMX_ErrorResourcesLost = Some c1"
    and "c' = fst (send_state P c1 p OMX_StateLoaded)"
    by (auto simp: removeComponent_def case_prod_beta Let_def)
  with assms(4) have "R c1 c'" by simp
  with assms(5) [OF c1] show ?thesis by (rule assms(3))
next
  case False
  with assms(1,2) show ?thesis by (simp add: removeComponent_def)
qed

lemma get_list_rel:
  assumes "get_list P p limit c xs = Some (c', ys, e)" "\<And>c. R c c" "\<And>a b c. R a b \<Longrightarrow> R b c \<Longrightarrow> R a c"
    and "\<And>c q s. R c (fst (send_state P c q s))" "\<And>c q e c'. error_event P c q e = Some c' \<Longrightarrow> R c c'"
  shows "R c c'"
  using assms(1,2) removeComponent_rel [where R = R, OF _ assms(2-5)]
  by (auto simp: get_list_def case_prod_beta Let_def split: if_splits prod.splits option.splits)

lemma release_list_rel:
  assumes "\<And>c. R c c" "\<And>c q s. R c (fst (send_state P c q s))"
  shows "R c (fst (release_list P p c xs ws))"
  using assms by (auto simp: release_list_def case_prod_beta Let_def split: list.split)

lemma Get_Resource_rel:
  assumes "Rockchip_OMX_Get_Resource P p c rm = Some (c', rm', e)" "\<And>c. R c c" "\<And>a b c. R a b \<Longrightarrow> R b c \<Longrightarrow> R a c"
    and "\<And>c q s. R c (fst (send_state P c q s))" "\<And>c q e c'. error_event P c q e = Some c' \<Longrightarrow> R c c'"
  shows "R c c'"
  using assms(1,2) get_list_rel [where R = R, OF _ assms(2-5)]
  by (auto simp: Rockchip_OMX_Get_Resource_def split: ROCKCHIP_CODEC_TYPE.splits)

lemma Release_Resource_rel:
  assumes "\<And>c. R c c" "\<And>c q s. R c (fst (send_state P c q s))"
  shows "R c (fst (Rockchip_OMX_Release_Resource P p c rm))"
  using release_list_rel [where R = R, OF assms] assms(1)
  by (auto simp: Rockchip_OMX_Release_Resource_def case_prod_beta Let_def split: ROCKCHIP_CODEC_TYPE.split)

text \<open>Two worlds with the same components up to what may change, and with the same flags of the abnormal end.\<close>

definition world_kept :: "'w omx_world \<Rightarrow> 'w omx_world \<Rightarrow> bool" where
  "world_kept w w' \<longleftrightarrow> (\<forall>q. kept (comps w q) (comps w' q) \<and> abendState (comps w' q) = abendState (comps w q)
     \<and> abendSignalled (comps w' q) = abendSignalled (comps w q))"

lemma world_keptD:
  assumes "world_kept w w'"
  shows "kept (comps w q) (comps w' q)" "abendState (comps w' q) = abendState (comps w q)"
    "abendSignalled (comps w' q) = abendSignalled (comps w q)"
  using assms by (auto simp: world_kept_def)

lemma world_kept_refl: "world_kept w w"
  by (simp add: world_kept_def)

lemma world_kept_trans: "world_kept a b \<Longrightarrow> world_kept b c \<Longrightarrow> world_kept a c"
  unfolding world_kept_def using kept_trans by metis

lemma abend_set_port_states:
  "abendState (set_port_states s c) = abendState c \<and> abendSignalled (set_port_states s c) = abendSignalled c"
proof -
  have "abendState (fold (\<lambda>i. upd_port i (\<lambda>p. p\<lparr>portState := s\<rparr>)) is c) = abendState c
      \<and> abendSignalled (fold (\<lambda>i. upd_port i (\<lambda>p. p\<lparr>portState := s\<rparr>)) is c) = abendSignalled c" for "is"
    by (induction "is" arbitrary: c) (simp_all add: upd_port_def)
  then show ?thesis by (simp add: set_port_states_def)
qed

lemma abend_SendCommand_state:
  assumes "Rockchip_OMX_SendCommand m (CommandStateSet s) c = Some (c', e)"
  shows "abendState c' = abendState c \<and> abendSignalled c' = abendSignalled c"
proof -
  have "abendState (Rockchip_StateSet s c) = abendState c \<and> abendSignalled (Rockchip_StateSet s c) = abendSignalled c"
    using abend_set_port_states by (simp add: Rockchip_StateSet_def invalidate_port_def upd_port_def)
  with assms show ?thesis
    by (auto simp: Rockchip_OMX_SendCommand_def Rockchip_OMX_CommandQueue_def split: if_splits)
qed

lemma world_kept_send: "world_kept w (fst (send_state (concrete_rm E) w q s))"
proof (cases "Rockchip_OMX_SendCommand (os_malloc E (ext w)) (CommandStateSet s) (comps w q)")
  case None
  then show ?thesis by (simp add: concrete_rm_def world_kept_refl)
next
  case (Some r)
  obtain c e where r: "r = (c, e)" by (cases r)
  show ?thesis
    using kept_SendCommand [OF Some [unfolded r]] abend_SendCommand_state [OF Some [unfolded r]]
    by (simp add: concrete_rm_def Some r world_kept_def upd_comp_def)
qed

lemma world_kept_event: "error_event (concrete_rm E) w q e = Some w' \<Longrightarrow> world_kept w w'"
  by (auto simp: concrete_rm_def world_kept_def split: if_splits)

lemma get_resource_kept: "get_resource E p w = Some (w', e) \<Longrightarrow> world_kept w w'"
proof -
  assume "get_resource E p w = Some (w', e)"
  then obtain w1 rm where w1: "Rockchip_OMX_Get_Resource (concrete_rm E) p w (rlists w) = Some (w1, rm, e)"
    and w': "w' = w1\<lparr>rlists := rm\<rparr>"
    by (auto simp: get_resource_def)
  have "world_kept w w1"
    by (rule Get_Resource_rel [OF w1 world_kept_refl world_kept_trans world_kept_send world_kept_event])
  then show ?thesis by (simp add: w' world_kept_def)
qed

lemma release_resource_kept: "world_kept w (fst (release_resource E p w))"
  using Release_Resource_rel [where R = world_kept and P = "concrete_rm E" and p = p and c = w and rm = "rlists w",
      OF world_kept_refl world_kept_send]
  by (simp add: release_resource_def case_prod_beta Let_def world_kept_def)

section \<open>The steps of a transition\<close>

text \<open>
  After a step all is kept, but that the component \<open>p\<close> is in the state \<open>s\<close>, has the handles \<open>H\<close> and has
  leaked \<open>n\<close> objects.
\<close>

definition after :: "ptr \<Rightarrow> OMX_STATETYPE \<Rightarrow> omx_handle set \<Rightarrow> nat \<Rightarrow> 'w omx_world \<Rightarrow> 'w omx_world \<Rightarrow> bool" where
  "after p s H n w w' \<longleftrightarrow> kept ((comps w p)\<lparr>currentState := s, handles := H, leaked := n\<rparr>) (comps w' p)
     \<and> (\<forall>q. q \<noteq> p \<longrightarrow> kept (comps w q) (comps w' q))"

abbreviation same :: "ptr \<Rightarrow> 'w omx_world \<Rightarrow> 'w omx_world \<Rightarrow> bool" where
  "same p w \<equiv> after p (currentState (comps w p)) (handles (comps w p)) (leaked (comps w p)) w"

lemma sameI: "(\<And>q. kept (comps w q) (comps w' q)) \<Longrightarrow> same p w w'"
  by (auto simp: after_def kept_def)

lemma same_refl [simp, intro]: "same p w w"
  by (rule sameI) simp

lemma same_world: "world_kept w w' \<Longrightarrow> same p w w'"
  by (rule sameI) (simp add: world_kept_def)

lemma after_trans: "after p s H n w w1 \<Longrightarrow> after p s' H' n' w1 w2 \<Longrightarrow> after p s' H' n' w w2"
  unfolding after_def kept_def by auto

lemma afterD:
  assumes "after p s H n w w'"
  shows "currentState (comps w' p) = s" "handles (comps w' p) = H" "leaked (comps w' p) = n"
    "all_handles (comps w' p) = all_handles (comps w p)" "nPorts (comps w' p) = nPorts (comps w p)"
    "codec_terminate_set (comps w' p) = codec_terminate_set (comps w p)"
    "pCallbacks (comps w' p) = pCallbacks (comps w p)" "codecType (comps w' p) = codecType (comps w p)"
    "tunnelFlags (ports (comps w' p) i) = tunnelFlags (ports (comps w p) i)"
    "event_handles (comps w' p) = event_handles (comps w p)" "mutex_handles (comps w' p) = mutex_handles (comps w p)"
    "q \<noteq> p \<Longrightarrow> kept (comps w q) (comps w' q)"
  using assms by (auto simp: after_def kept_def all_handles_def event_handles_def mutex_handles_def)

lemma after_same: "after p s H n w w1 \<Longrightarrow> same p w1 w2 \<Longrightarrow> after p s H n w w2"
  using after_trans afterD(1-3) by metis

lemma same_after: "same p w w1 \<Longrightarrow> after p s H n w1 w2 \<Longrightarrow> after p s H n w w2"
  by (rule after_trans)

lemma same_codec_call: "keeps f \<Longrightarrow> codec_call f p w = (w', e) \<Longrightarrow> same p w w'"
proof (rule sameI)
  fix q
  assume "keeps f" "codec_call f p w = (w', e)"
  moreover have "kept (comps w p) (fst (f (comps w p) (ext w)))" using \<open>keeps f\<close> by (simp add: keeps_def)
  ultimately show "kept (comps w q) (comps w' q)" by (auto simp: codec_call_def split: prod.splits)
qed

lemma same_wait_call: "wait_keeps f \<Longrightarrow> wait_call f p w = Some w' \<Longrightarrow> same p w w'"
  by (rule sameI) (auto simp: wait_keeps_def wait_call_def, blast)

lemma same_upd_comp: "(\<And>c. kept c (f c)) \<Longrightarrow> same p w (upd_comp p f w)"
  by (rule sameI) (simp add: upd_comp_def)

lemma same_rlists: "same p w (w\<lparr>rlists := r\<rparr>)" "same p w (w\<lparr>events := ev\<rparr>)"
  by (auto intro: sameI)

lemma same_signal_abend: "same p w (signal_abend p w)"
  unfolding signal_abend_def by (rule same_upd_comp) (simp add: kept_def)

lemma same_set_current: "after p s (handles (comps w p)) (leaked (comps w p)) w (set_current s p w)"
  by (simp add: after_def set_current_def upd_comp_def kept_def)

lemma same_terminate_all:
  "after p (currentState (comps w p)) (handles (comps w p) - set (all_handles (comps w p))) (leaked (comps w p)) w
     (terminate_all p w)"
  by (simp add: after_def terminate_all_def upd_comp_def kept_def terminate_handles_def)

lemma same_release: "same p w (fst (release_resource E p w))"
  using release_resource_kept by (rule same_world)

lemma same_fold: "(\<And>i w. same p w (f i w)) \<Longrightarrow> same p w (fold f is w)"
proof (induction "is" arbitrary: w)
  case (Cons i "is")
  show ?case using after_same [OF Cons.prems Cons.IH [OF Cons.prems]] by simp
qed simp

lemma same_flush: "codec_law E \<Longrightarrow> same p w (flush_ports E p b is w)"
  unfolding flush_ports_def
  by (rule same_fold) (metis codec_law_def prod.collapse same_codec_call)

lemma kept_drain: "kept c (drain_queue i c)"
  unfolding drain_queue_def by (auto intro: kept_port)

lemma unload_ports_same:
  assumes "codec_law E" "unload_ports E p is e w = Some (w', e', ok)"
  shows "same p w w' \<and> (\<not> ok \<longrightarrow> e' \<noteq> OMX_ErrorNone)
    \<and> ((\<forall>i. \<not> CHECK_PORT_TUNNELED (ports (comps w p) i)) \<longrightarrow> ok \<and> e' = e)"
  using assms(2)
proof (induction "is" arbitrary: w e)
  case (Cons i "is")
  define port where "port = ports (comps w p) i"
  have tunnel: "CHECK_PORT_TUNNELED (ports (comps w1 p) j) = CHECK_PORT_TUNNELED (ports (comps w p) j)"
    if "same p w w1" for w1 j
    using afterD(9) [OF that] by (simp add: CHECK_PORT_TUNNELED_def)
  consider (supplier) "supplies port" | (wait) "\<not> supplies port" "bEnabled port" | (skip) "\<not> supplies port" "\<not> bEnabled port"
    by blast
  then show ?case
  proof cases
    case supplier
    obtain w2 e2 where c: "codec_call (FreeTunnelBuffer E i) p (upd_comp p (drain_queue i) w) = (w2, e2)"
      by fastforce
    have s: "same p w w2"
      by (rule after_same [OF same_upd_comp same_codec_call [OF _ c]])
        (use assms(1) in \<open>auto simp: codec_law_def kept_drain\<close>)
    have "Some (w', e', ok) = (if e2 \<noteq> OMX_ErrorNone then Some (w2, e2, False) else unload_ports E p is e2 w2)"
      using Cons.prems supplier c by (simp add: port_def)
    then show ?thesis
      using Cons.IH [of e2 w2] after_same [OF s, of w'] s tunnel [OF s] supplier by (auto simp: port_def split: if_splits)
  next
    case wait
    then obtain w1 where w1: "wait_call (wait_unloaded E i) p w = Some w1"
      and r: "unload_ports E p is e (upd_comp p (upd_port i (\<lambda>p. p\<lparr>bPopulated := False\<rparr>)) w1) = Some (w', e', ok)"
      using Cons.prems by (auto simp: port_def bind_eq_Some_conv)
    have s: "same p w (upd_comp p (upd_port i (\<lambda>p. p\<lparr>bPopulated := False\<rparr>)) w1)"
      by (rule after_same [OF same_wait_call [OF _ w1] same_upd_comp])
        (use assms(1) in \<open>auto simp: codec_law_def intro: kept_port\<close>)
    show ?thesis using Cons.IH [OF r] after_same [OF s, of w'] tunnel [OF s] by auto
  next
    case skip
    then have "unload_ports E p is e w = Some (w', e', ok)" using Cons.prems by (auto simp: port_def Let_def split: if_splits)
    then show ?thesis by (rule Cons.IH)
  qed
qed simp

lemma load_ports_same:
  assumes "codec_law E" "load_ports E p is w = Some (w', e', ok)"
  shows "same p w w' \<and> (ok \<longrightarrow> e' = OMX_ErrorNone)
    \<and> (\<not> ok \<longrightarrow> e' = OMX_ErrorNone \<longrightarrow> abendSignalled (comps w' p) \<and> abendState (comps w' p))"
  using assms(2)
proof (induction "is" arbitrary: w)
  case (Cons i "is")
  define port where "port = ports (comps w p) i"
  consider (off) "\<not> bEnabled port" | (supplier) "bEnabled port" "supplies port" | (wait) "bEnabled port" "\<not> supplies port"
    by blast
  then show ?case
  proof cases
    case off
    then have "load_ports E p is w = Some (w', e', ok)" using Cons.prems by (simp add: port_def Let_def)
    then show ?thesis by (rule Cons.IH)
  next
    case supplier
    obtain w1 e1 where c: "codec_call (AllocateTunnelBuffer E i) p w = (w1, e1)" by fastforce
    have s: "same p w w1" by (rule same_codec_call [OF _ c]) (use assms(1) in \<open>auto simp: codec_law_def\<close>)
    have "Some (w', e', ok) = (if e1 \<noteq> OMX_ErrorNone then Some (w1, e1, False) else load_ports E p is w1)"
      using Cons.prems supplier c by (simp add: port_def)
    then show ?thesis using Cons.IH [of w1] after_same [OF s, of w'] s by (auto split: if_splits)
  next
    case wait
    obtain w1 where w1: "wait_call (wait_loaded E i) p w = Some w1"
      and r: "(if abendState (comps w1 p)
         then let (w2, e) = release_resource E p (signal_abend p w1) in Some (w2, e, False)
         else load_ports E p is (upd_comp p (upd_port i (\<lambda>p. p\<lparr>bPopulated := True\<rparr>)) w1)) = Some (w', e', ok)"
      using Cons.prems wait by (auto simp: port_def Let_def bind_eq_Some_conv split: if_splits)
    have s1: "same p w w1" by (rule same_wait_call [OF _ w1]) (use assms(1) in \<open>auto simp: codec_law_def\<close>)
    have s2: "same p w (upd_comp p (upd_port i (\<lambda>p. p\<lparr>bPopulated := True\<rparr>)) w1)"
      by (rule after_same [OF s1 same_upd_comp]) (auto intro: kept_port)
    have s3: "same p w (fst (release_resource E p (signal_abend p w1)))"
      by (rule after_same [OF after_same [OF s1 same_signal_abend] same_release])
    have ab: "abendState (comps (fst (release_resource E p (signal_abend p w1))) p) = abendState (comps w1 p)"
      "abendSignalled (comps (fst (release_resource E p (signal_abend p w1))) p)"
      using world_keptD(2,3) [OF release_resource_kept [of "signal_abend p w1" E p]]
      by (simp_all add: signal_abend_def upd_comp_def)
    show ?thesis
    proof (cases "abendState (comps w1 p)")
      case True
      then show ?thesis using r s3 ab by (auto simp: case_prod_beta Let_def)
    next
      case False
      then have "load_ports E p is (upd_comp p (upd_port i (\<lambda>p. p\<lparr>bPopulated := True\<rparr>)) w1) = Some (w', e', ok)"
        using r by simp
      then show ?thesis using Cons.IH after_same [OF s2, of w'] by blast
    qed
  qed
qed simp

definition os_ok :: "'w omx_env \<Rightarrow> bool" where
  "os_ok E \<longleftrightarrow> (\<forall>h x. snd (os_create E h x) = OMX_ErrorNone)"

text \<open>Creating handles that are not there: on success all of them are, on an error the first ones.\<close>

lemma kept_new_handle:
  "kept (c\<lparr>handles := insert h (handles c), leaked := (if h \<in> handles c then leaked c + 1 else leaked c)\<rparr>) (new_handle h c)"
  by (cases h) (simp_all add: new_handle_def Let_def kept_def upd_port_def)

lemma create_handle_after:
  assumes "create_handle E p h w = (w', e)" "h \<notin> handles (comps w p)"
  shows "if e = OMX_ErrorNone
    then after p (currentState (comps w p)) (insert h (handles (comps w p))) (leaked (comps w p)) w w' else same p w w'"
proof -
  obtain x e1 where x: "os_create E h (ext w) = (x, e1)" by fastforce
  show ?thesis
  proof (cases "e1 = OMX_ErrorNone")
    case True
    then have "w' = upd_comp p (new_handle h) (w\<lparr>ext := x\<rparr>)" "e = OMX_ErrorNone"
      using assms(1) x by (auto simp: create_handle_def)
    then show ?thesis
      using kept_new_handle [where c = "comps w p" and h = h] assms(2) by (simp add: after_def upd_comp_def kept_def)
  next
    case False
    then have "w' = w\<lparr>ext := x\<rparr>" "e \<noteq> OMX_ErrorNone" using assms(1) x by (auto simp: create_handle_def)
    then show ?thesis by (auto intro: sameI)
  qed
qed

lemma create_handles_after:
  assumes "create_handles E p hs w = (w', e)" "distinct hs" "set hs \<inter> handles (comps w p) = {}"
  shows "\<exists>k \<le> length hs. after p (currentState (comps w p)) (handles (comps w p) \<union> set (take k hs)) (leaked (comps w p)) w w'
    \<and> (if e = OMX_ErrorNone then k = length hs else e = OMX_ErrorInsufficientResources \<and> k < length hs
         \<and> (\<exists>x. snd (os_create E (hs ! k) x) \<noteq> OMX_ErrorNone))"
  using assms
proof (induction hs arbitrary: w)
  case (Cons h hs)
  obtain w1 e1 where c: "create_handle E p h w = (w1, e1)" by fastforce
  note one = create_handle_after [OF c]
  show ?case
  proof (cases "e1 = OMX_ErrorNone")
    case False
    then have "w' = w1" "e = OMX_ErrorInsufficientResources" using Cons.prems(1) c by auto
    moreover have "snd (os_create E h (ext w)) \<noteq> OMX_ErrorNone"
      using c False by (auto simp: create_handle_def Let_def split: prod.splits if_splits)
    ultimately show ?thesis using one False Cons.prems by (intro exI [of _ 0]) auto
  next
    case True
    then have a: "after p (currentState (comps w p)) (insert h (handles (comps w p))) (leaked (comps w p)) w w1"
      using one Cons.prems by auto
    have "create_handles E p hs w1 = (w', e)" using Cons.prems(1) c True by simp
    moreover have "set hs \<inter> handles (comps w1 p) = {}" using Cons.prems afterD(2) [OF a] by auto
    ultimately obtain k where k: "k \<le> length hs"
      "after p (currentState (comps w1 p)) (handles (comps w1 p) \<union> set (take k hs)) (leaked (comps w1 p)) w1 w'"
      "if e = OMX_ErrorNone then k = length hs else e = OMX_ErrorInsufficientResources \<and> k < length hs
         \<and> (\<exists>x. snd (os_create E (hs ! k) x) \<noteq> OMX_ErrorNone)"
      using Cons.IH Cons.prems(2) by (metis distinct.simps(2))
    have "after p (currentState (comps w p)) (handles (comps w p) \<union> set (take (Suc k) (h # hs))) (leaked (comps w p)) w w'"
      using after_trans [OF a k(2)] afterD(1-3) [OF a] by simp
    then show ?thesis using k(1,3) by (intro exI [of _ "Suc k"]) auto
  qed
qed auto

lemma create_events_after:
  assumes "distinct hs" "set hs \<inter> handles (comps w p) = {}"
  shows "\<exists>H \<subseteq> set hs. after p (currentState (comps w p)) (handles (comps w p) \<union> H) (leaked (comps w p)) w
      (create_events E p hs w)
    \<and> (os_ok E \<longrightarrow> H = set hs)"
  using assms
proof (induction hs arbitrary: w)
  case Nil
  then show ?case by (simp add: create_events_def)
next
  case (Cons h hs)
  obtain w1 e1 where c: "create_handle E p h w = (w1, e1)" by fastforce
  define G where "G = (if e1 = OMX_ErrorNone then {h} else {})"
  have a: "after p (currentState (comps w p)) (handles (comps w p) \<union> G) (leaked (comps w p)) w w1"
    using create_handle_after [OF c] Cons.prems by (auto simp: G_def)
  have all: "os_ok E \<Longrightarrow> G = {h}"
    using c by (auto simp: os_ok_def create_handle_def G_def Let_def split: prod.splits if_splits) (metis snd_conv)
  have "set hs \<inter> handles (comps w1 p) = {}"
    using Cons.prems afterD(2) [OF a] by (auto simp: G_def split: if_splits)
  then obtain H where H: "H \<subseteq> set hs"
    "after p (currentState (comps w1 p)) (handles (comps w1 p) \<union> H) (leaked (comps w1 p)) w1 (create_events E p hs w1)"
    "os_ok E \<longrightarrow> H = set hs"
    using Cons.IH [of w1] Cons.prems(1) by (metis distinct.simps(2))
  have "create_events E p (h # hs) w = create_events E p hs w1" by (simp add: create_events_def c)
  moreover have "after p (currentState (comps w p)) (handles (comps w p) \<union> (G \<union> H)) (leaked (comps w p)) w
      (create_events E p hs w1)"
    using after_trans [OF a H(2)] afterD(1-3) [OF a] by (simp add: Un_assoc)
  ultimately show ?case using H(1,3) all by (intro exI [of _ "G \<union> H"]) (auto simp: G_def split: if_splits)
qed

lemma two_ports: "[0..<ALL_PORT_NUM] = [0, 1]"
  by (simp add: ALL_PORT_NUM_def upt_rec)

lemma distinct_handles:
  "distinct (event_handles c)" "distinct sem_handles" "distinct (mutex_handles c)"
  "set (event_handles c) \<inter> set sem_handles = {}" "(set (event_handles c) \<union> set sem_handles) \<inter> set (mutex_handles c) = {}"
  by (auto simp: event_handles_def sem_handles_def mutex_handles_def two_ports split: ROCKCHIP_OMX_PORT_WAY_TYPE.splits)

lemma create_handles_append:
  "create_handles E p (hs @ ks) w =
     (let (w1, e) = create_handles E p hs w in if e \<noteq> OMX_ErrorNone then (w1, e) else create_handles E p ks w1)"
proof (induction hs arbitrary: w)
  case (Cons h hs)
  obtain w1 e1 where "create_handle E p h w = (w1, e1)" by fastforce
  with Cons show ?case by (cases "e1 = OMX_ErrorNone") simp_all
qed simp

lemma new_handle_lists:
  "mutex_handles (new_handle h c) = mutex_handles c" "event_handles (new_handle h c) = event_handles c"
  using kept_new_handle [where c = c and h = h] by (simp_all add: kept_def mutex_handles_def event_handles_def)

lemma create_handle_mutexes: "mutex_handles (comps (fst (create_handle E p h w)) p) = mutex_handles (comps w p)"
  by (simp add: create_handle_def case_prod_beta Let_def upd_comp_def new_handle_lists)

lemma create_handles_mutexes: "mutex_handles (comps (fst (create_handles E p hs w)) p) = mutex_handles (comps w p)"
  by (induction hs arbitrary: w) (simp_all add: create_handle_mutexes case_prod_beta Let_def)

lemma create_events_mutexes: "mutex_handles (comps (create_events E p hs w) p) = mutex_handles (comps w p)"
  by (induction hs arbitrary: w) (simp_all add: create_events_def create_handle_mutexes)

lemma idle_handles_list:
  "idle_handles E p w = create_handles E p (sem_handles @ mutex_handles (comps w p))
     (create_events E p (event_handles (comps w p)) w)"
  by (simp add: idle_handles_def create_handles_append case_prod_beta create_handles_mutexes create_events_mutexes
      Let_def)

lemma idle_handles_after:
  assumes "idle_handles E p w = (w', e)" "handles (comps w p) = {}"
  shows "\<exists>H. after p (currentState (comps w p)) H (leaked (comps w p)) w w' \<and> H \<subseteq> set (all_handles (comps w p))
    \<and> (os_ok E \<longrightarrow> H = set (all_handles (comps w p)))
    \<and> (e \<noteq> OMX_ErrorNone \<longrightarrow> e = OMX_ErrorInsufficientResources \<and> \<not> os_ok E)"
proof -
  define c where "c = comps w p"
  define hs where "hs = sem_handles @ mutex_handles c"
  note d = distinct_handles(1,3,4,5) [of c]
  obtain G where G: "G \<subseteq> set (event_handles c)" "after p (currentState c) G (leaked c) w (create_events E p (event_handles c) w)"
    "os_ok E \<longrightarrow> G = set (event_handles c)"
    using create_events_after [OF d(1), of w p E] assms(2) by (auto simp: c_def)
  note r = assms(1) [unfolded idle_handles_list, folded c_def hs_def]
  have "distinct hs" "set hs \<inter> G = {}" using d distinct_handles(2) G(1) by (auto simp: hs_def)
  then obtain k where k: "after p (currentState c) (G \<union> set (take k hs)) (leaked c)
      (create_events E p (event_handles c) w) w'"
    "if e = OMX_ErrorNone then k = length hs
     else e = OMX_ErrorInsufficientResources \<and> k < length hs \<and> (\<exists>x. snd (os_create E (hs ! k) x) \<noteq> OMX_ErrorNone)"
    using create_handles_after [OF r, unfolded afterD(1-3) [OF G(2)]] by blast
  have "set hs \<subseteq> set (all_handles c)" "set (event_handles c) \<subseteq> set (all_handles c)"
    by (auto simp: hs_def all_handles_def)
  then have "G \<union> set (take k hs) \<subseteq> set (all_handles c)" using G(1) set_take_subset [of k hs] by blast
  moreover have "G \<union> set (take k hs) = set (all_handles c)" if a: "os_ok E"
    using k(2) G(3) a by (auto simp: os_ok_def all_handles_def hs_def split: if_splits)
  ultimately show ?thesis
    using after_trans [OF G(2) k(1)] k(2)
    by (intro exI [of _ "G \<union> set (take k hs)"]) (auto simp: os_ok_def c_def split: if_splits)
qed

text \<open>Whatever handles there are: creating some changes nothing else.\<close>

lemma create_handle_any:
  "\<exists>H n. after p (currentState (comps w p)) H n w (fst (create_handle E p h w))"
proof -
  obtain x e where x: "os_create E h (ext w) = (x, e)" by fastforce
  have "after p (currentState (comps w p)) (insert h (handles (comps w p)))
      (if h \<in> handles (comps w p) then leaked (comps w p) + 1 else leaked (comps w p)) w (upd_comp p (new_handle h) (w\<lparr>ext := x\<rparr>))"
    using kept_new_handle [where c = "comps w p" and h = h] by (simp add: after_def upd_comp_def kept_def)
  moreover have "same p w (w\<lparr>ext := x\<rparr>)" by (auto intro: sameI)
  ultimately show ?thesis by (auto simp: create_handle_def x Let_def)
qed

lemma create_fold_any:
  assumes "\<And>h w. \<exists>H n. after p (currentState (comps w p)) H n w (f h w)"
  shows "\<exists>H n. after p (currentState (comps w p)) H n w (fold f hs w)"
proof (induction hs arbitrary: w)
  case (Cons h hs)
  obtain H n where a: "after p (currentState (comps w p)) H n w (f h w)" using assms by blast
  obtain K m where b: "after p (currentState (comps (f h w) p)) K m (f h w) (fold f hs (f h w))" using Cons by blast
  show ?case using after_trans [OF a b] afterD(1) [OF a] by auto
qed auto

lemma create_handles_any: "\<exists>H n. after p (currentState (comps w p)) H n w (fst (create_handles E p hs w))"
proof (induction hs arbitrary: w)
  case (Cons h hs)
  obtain w1 e1 where c: "create_handle E p h w = (w1, e1)" by fastforce
  obtain H n where a: "after p (currentState (comps w p)) H n w w1" using create_handle_any [of p w E h] c by auto
  obtain K m where b: "after p (currentState (comps w1 p)) K m w1 (fst (create_handles E p hs w1))" using Cons by blast
  show ?case using a after_trans [OF a b] afterD(1) [OF a] c by auto
qed auto

lemma idle_handles_any:
  assumes "idle_handles E p w = (w', e)"
  shows "\<exists>H n. after p (currentState (comps w p)) H n w w'"
proof -
  define w0 where "w0 = create_events E p (event_handles (comps w p)) w"
  obtain H n where a: "after p (currentState (comps w p)) H n w w0"
    using create_fold_any [OF create_handle_any] by (fastforce simp: w0_def create_events_def)
  obtain K m where "after p (currentState (comps w0 p)) K m w0 w'"
    using create_handles_any [of p w0 E "sem_handles @ mutex_handles (comps w p)"] assms
    by (auto simp: idle_handles_list w0_def)
  then show ?thesis using after_trans [OF a] afterD(1) [OF a] by metis
qed

section \<open>The transitions\<close>

lemma loaded_to_idle_after:
  assumes "codec_law E" "loaded_to_idle E p w = Some (w', e)" "currentState (comps w p) = OMX_StateLoaded"
  shows "\<exists>t H n. after p t H n w w'
    \<and> (t = OMX_StateIdle \<and> e = OMX_ErrorNone
       \<or> t = OMX_StateLoaded \<and> (e = OMX_ErrorNone \<longrightarrow> abendSignalled (comps w' p)))
    \<and> (handles (comps w p) = {} \<longrightarrow> n = leaked (comps w p) \<and> H \<subseteq> set (all_handles (comps w p))
         \<and> (os_ok E \<longrightarrow> H = (if t = OMX_StateIdle then set (all_handles (comps w p)) else {})))"
proof -
  obtain w1 e1 ok where l: "load_ports E p [0..<nPorts (comps w p)] w = Some (w1, e1, ok)"
    and r: "(w', e) = (if \<not> ok then (w1, e1)
         else let (w2, e) = idle_handles E p w1 in
           if e \<noteq> OMX_ErrorNone then (w2, e)
           else let (w3, e) = codec_call (BufferProcessCreate E) p w2 in
             if e \<noteq> OMX_ErrorNone then (terminate_all p w3, OMX_ErrorInsufficientResources)
             else (set_current OMX_StateIdle p w3, e))"
    using assms(2) by (auto simp: loaded_to_idle_def)
  have s: "same p w w1" and ab: "\<not> ok \<Longrightarrow> e1 = OMX_ErrorNone \<Longrightarrow> abendSignalled (comps w1 p)"
    using load_ports_same [OF assms(1) l] by auto
  obtain w2 e2 where i: "idle_handles E p w1 = (w2, e2)" by fastforce
  obtain w3 e3 where b: "codec_call (BufferProcessCreate E) p w2 = (w3, e3)" by fastforce
  obtain H n where "after p (currentState (comps w1 p)) H n w1 w2
    \<and> (handles (comps w1 p) = {} \<longrightarrow> n = leaked (comps w1 p) \<and> H \<subseteq> set (all_handles (comps w1 p))
        \<and> (os_ok E \<longrightarrow> H = set (all_handles (comps w1 p))))"
    using idle_handles_any [OF i] idle_handles_after [OF i] by metis
  then have a: "after p OMX_StateLoaded H n w w2" and n: "handles (comps w p) = {} \<longrightarrow> n = leaked (comps w p)
      \<and> H \<subseteq> set (all_handles (comps w p)) \<and> (os_ok E \<longrightarrow> H = set (all_handles (comps w p)))"
    using same_after [OF s] afterD(1-4) [OF s] assms(3) by auto
  have s3: "same p w2 w3" by (rule same_codec_call [OF _ b]) (use assms(1) in \<open>simp add: codec_law_def\<close>)
  note a3 = after_same [OF a s3] and f3 = afterD(1-4) [OF after_same [OF a s3]]
  consider "\<not> ok" | "ok" "e2 \<noteq> OMX_ErrorNone" | "ok" "e2 = OMX_ErrorNone" "e3 \<noteq> OMX_ErrorNone"
    | "ok" "e2 = OMX_ErrorNone" "e3 = OMX_ErrorNone" by blast
  then show ?thesis
  proof cases
    case 1
    then show ?thesis
      using r s ab assms(3) by (intro exI [of _ OMX_StateLoaded] exI [of _ "handles (comps w p)"] exI [of _ "leaked (comps w p)"]) simp
  next
    case 2
    then show ?thesis using r a n i idle_handles_after [OF i] afterD(2) [OF s]
      by (intro exI [of _ OMX_StateLoaded] exI [of _ H] exI [of _ n]) auto
  next
    case 3
    then have "w' = terminate_all p w3" "e = OMX_ErrorInsufficientResources" using r i b by auto
    moreover have "after p OMX_StateLoaded (H - set (all_handles (comps w p))) n w (terminate_all p w3)"
      using after_trans [OF a3 same_terminate_all] f3 by simp
    ultimately show ?thesis using n
      by (intro exI [of _ OMX_StateLoaded] exI [of _ "H - set (all_handles (comps w p))"] exI [of _ n]) auto
  next
    case 4
    then have "w' = set_current OMX_StateIdle p w3" "e = OMX_ErrorNone" using r i b by auto
    moreover have "after p OMX_StateIdle H n w (set_current OMX_StateIdle p w3)"
      using after_trans [OF a3 same_set_current] f3 by simp
    ultimately show ?thesis using n by (intro exI [of _ OMX_StateIdle] exI [of _ H] exI [of _ n]) auto
  qed
qed

text \<open>The transitions of the OMX standard, and a component whose handles are those of its state.\<close>

definition allowed :: "OMX_STATETYPE \<Rightarrow> OMX_STATETYPE \<Rightarrow> bool" where
  "allowed s d \<longleftrightarrow>
     (s, d) \<in> {(OMX_StateLoaded, OMX_StateIdle), (OMX_StateLoaded, OMX_StateWaitForResources),
       (OMX_StateWaitForResources, OMX_StateLoaded), (OMX_StateWaitForResources, OMX_StateIdle),
       (OMX_StateIdle, OMX_StateLoaded), (OMX_StateIdle, OMX_StateExecuting), (OMX_StateIdle, OMX_StatePause),
       (OMX_StateExecuting, OMX_StateIdle), (OMX_StateExecuting, OMX_StatePause),
       (OMX_StatePause, OMX_StateIdle), (OMX_StatePause, OMX_StateExecuting)}
     \<or> d = OMX_StateInvalid \<and> s \<noteq> OMX_StateInvalid \<and> s \<noteq> OMX_StateMax"

definition live :: "OMX_STATETYPE \<Rightarrow> bool" where
  "live s \<longleftrightarrow> s = OMX_StateIdle \<or> s = OMX_StateExecuting \<or> s = OMX_StatePause"

definition handles_ok :: "ROCKCHIP_OMX_BASECOMPONENT \<Rightarrow> bool" where
  "handles_ok c \<longleftrightarrow> handles c = (if live (currentState c) then set (all_handles c) else {})"

definition untunneled :: "ROCKCHIP_OMX_BASECOMPONENT \<Rightarrow> bool" where
  "untunneled c \<longleftrightarrow> (\<forall>i. \<not> CHECK_PORT_TUNNELED (ports c i))"

text \<open>What setting the state of \<open>p\<close> to \<open>d\<close> may do.\<close>

definition transition :: "'w omx_env \<Rightarrow> ptr \<Rightarrow> OMX_STATETYPE \<Rightarrow> 'w omx_world \<Rightarrow> 'w omx_world \<times> OMX_ERRORTYPE \<Rightarrow> bool" where
  "transition E p d w r \<longleftrightarrow> (\<exists>t H n. after p t H n w (fst r)
     \<and> (t = d \<and> allowed (currentState (comps w p)) d
        \<or> t = currentState (comps w p)
          \<and> (snd r = OMX_ErrorNone \<longrightarrow> t = OMX_StateLoaded \<and> d = OMX_StateIdle \<and> abendSignalled (comps (fst r) p)))
     \<and> (handles_ok (comps w p) \<and> os_ok E \<and> untunneled (comps w p)
          \<and> \<not> (currentState (comps w p) = OMX_StateWaitForResources \<and> d = OMX_StateIdle)
        \<longrightarrow> n = leaked (comps w p) \<and> H = (if live t then set (all_handles (comps w p)) else {})))"

lemma transitionI:
  assumes "after p t H n w w'" "t = d \<and> allowed (currentState (comps w p)) d
        \<or> t = currentState (comps w p)
          \<and> (e = OMX_ErrorNone \<longrightarrow> t = OMX_StateLoaded \<and> d = OMX_StateIdle \<and> abendSignalled (comps w' p))"
    and "handles_ok (comps w p) \<Longrightarrow> os_ok E \<Longrightarrow> untunneled (comps w p) \<Longrightarrow>
      \<not> (currentState (comps w p) = OMX_StateWaitForResources \<and> d = OMX_StateIdle) \<Longrightarrow>
      n = leaked (comps w p) \<and> H = (if live t then set (all_handles (comps w p)) else {})"
  shows "transition E p d w (w', e)"
  unfolding transition_def fst_conv snd_conv using assms by blast

lemma transition_stay: "same p w w' \<Longrightarrow> e \<noteq> OMX_ErrorNone \<Longrightarrow> transition E p d w (w', e)"
  by (erule transitionI) (auto simp: handles_ok_def)

lemmas transition_none = transition_stay [OF same_refl]

lemma transition_move:
  assumes "after p d (handles (comps w p)) (leaked (comps w p)) w w'" "allowed (currentState (comps w p)) d"
    "(live (currentState (comps w p)) \<longleftrightarrow> live d) \<or> currentState (comps w p) = OMX_StateWaitForResources \<and> d = OMX_StateIdle"
  shows "transition E p d w (w', e)"
  using assms by (intro transitionI [OF assms(1)]) (auto simp: handles_ok_def live_def)

lemma same_then_current: "same p w w1 \<Longrightarrow> after p s (handles (comps w p)) (leaked (comps w p)) w (set_current s p w1)"
  using after_trans same_set_current [where p = p and w = w1 and s = s] afterD(2,3) by metis

lemma set_invalid_transition:
  assumes "codec_law E" "currentState (comps w p) \<noteq> OMX_StateInvalid"
  shows "transition E p OMX_StateInvalid w (set_invalid E p w)"
proof (cases "currentState (comps w p) = OMX_StateMax")
  case True
  then show ?thesis by (simp add: set_invalid_def case_prod_beta Let_def transition_none)
next
  case False
  define w1 where "w1 = (if currentState (comps w p) = OMX_StateWaitForResources
      then w\<lparr>rlists := fst (Rockchip_OMX_Out_WaitForResource (concrete_rm E) p w (rlists w))\<rparr> else w)"
  obtain w2 e2 where b: "codec_call (BufferProcessTerminate E) p (set_current OMX_StateInvalid p w1) = (w2, e2)" by fastforce
  define w4 where "w4 = (if codec_terminate_set (comps (terminate_all p w2) p)
      then fst (codec_call (codec_componentTerminate E) p (terminate_all p w2)) else terminate_all p w2)"
  have "same p w w1" unfolding w1_def by (rule sameI) simp
  then have a1: "after p OMX_StateInvalid (handles (comps w p)) (leaked (comps w p)) w (set_current OMX_StateInvalid p w1)"
    by (rule same_then_current)
  have "same p (set_current OMX_StateInvalid p w1) w2"
    by (rule same_codec_call [OF _ b]) (use assms(1) in \<open>simp add: codec_law_def\<close>)
  note a2 = after_same [OF a1 this]
  have a3: "after p OMX_StateInvalid (handles (comps w p) - set (all_handles (comps w p))) (leaked (comps w p)) w
      (terminate_all p w2)"
    using after_trans [OF a2 same_terminate_all] afterD(1-4) [OF a2] by simp
  have "same p (terminate_all p w2) w4"
    unfolding w4_def using assms(1) same_codec_call [of "codec_componentTerminate E" p "terminate_all p w2"]
    by (auto simp: codec_law_def) (metis prod.collapse)
  note a4 = after_same [OF a3 this]
  have "set_invalid E p w = (w4, OMX_ErrorInvalidState)"
    using False b by (simp add: set_invalid_def w1_def w4_def Let_def)
  then show ?thesis
    using False assms(2) by (auto simp: allowed_def handles_ok_def live_def intro!: transitionI [OF a4] split: if_splits)
qed

lemma set_loaded_transition:
  assumes "codec_law E" "set_loaded E p w = Some r" "currentState (comps w p) \<noteq> OMX_StateLoaded"
  shows "transition E p OMX_StateLoaded w r"
proof (cases "currentState (comps w p)")
  case OMX_StateIdle
  obtain w1 e1 where b: "codec_call (BufferProcessTerminate E) p w = (w1, e1)" by fastforce
  obtain w3 e3 where c: "codec_call (codec_componentTerminate E) p (terminate_all p w1) = (w3, e3)" by fastforce
  obtain w4 e4 ok where u: "unload_ports E p [0..<nPorts (comps w3 p)] e1 w3 = Some (w4, e4, ok)"
    and r: "r = (if ok then set_current OMX_StateLoaded p w4 else w4, e4)"
    using assms(2) OMX_StateIdle b c by (auto simp: set_loaded_def Let_def split: if_splits)
  have "same p w w1" by (rule same_codec_call [OF _ b]) (use assms(1) in \<open>simp add: codec_law_def\<close>)
  then have a2: "after p OMX_StateIdle (handles (comps w p) - set (all_handles (comps w p))) (leaked (comps w p)) w
      (terminate_all p w1)"
    using after_trans [OF _ same_terminate_all, of p _ _ _ w w1] afterD(1-4) [of p _ _ _ w w1] OMX_StateIdle by auto
  have "same p (terminate_all p w1) w3" by (rule same_codec_call [OF _ c]) (use assms(1) in \<open>simp add: codec_law_def\<close>)
  note a3 = after_same [OF a2 this]
  note u4 = unload_ports_same [OF assms(1) u]
  then have a4: "after p OMX_StateIdle (handles (comps w p) - set (all_handles (comps w p))) (leaked (comps w p)) w w4"
    using after_same [OF a3] by blast
  have tun: "untunneled (comps w p) \<Longrightarrow> ok"
    using u4 afterD(9) [OF a3] by (auto simp: untunneled_def CHECK_PORT_TUNNELED_def)
  show ?thesis
  proof (cases ok)
    case True
    have "after p OMX_StateLoaded (handles (comps w p) - set (all_handles (comps w p))) (leaked (comps w p)) w
        (set_current OMX_StateLoaded p w4)"
      using after_trans [OF a4 same_set_current] afterD(2,3) [OF a4] by metis
    then show ?thesis unfolding r
      using True OMX_StateIdle
      by simp (erule transitionI, auto simp: allowed_def handles_ok_def live_def)
  next
    case False
    then show ?thesis unfolding r
      using u4 tun OMX_StateIdle by simp (rule transitionI [OF a4], auto simp: handles_ok_def live_def)
  qed
next
  case OMX_StateWaitForResources
  obtain rm e where "Rockchip_OMX_Out_WaitForResource (concrete_rm E) p w (rlists w) = (rm, e)" by fastforce
  then have "r = (set_current OMX_StateLoaded p (w\<lparr>rlists := rm\<rparr>), e)"
    using assms(2) OMX_StateWaitForResources by (simp add: set_loaded_def)
  then show ?thesis
    using OMX_StateWaitForResources
    by (auto simp: allowed_def live_def intro!: transition_move same_then_current same_rlists)
qed (use assms(2,3) in \<open>auto simp: set_loaded_def intro: transition_stay\<close>)

lemma set_idle_transition:
  assumes "codec_law E" "set_idle E p w = Some r" "currentState (comps w p) \<noteq> OMX_StateIdle"
  shows "transition E p OMX_StateIdle w r"
proof -
  obtain w' e where r: "r = (w', e)" by (cases r)
  consider (loaded) "currentState (comps w p) = OMX_StateLoaded"
    | (flush) "currentState (comps w p) = OMX_StateExecuting \<or> currentState (comps w p) = OMX_StatePause"
    | (waiting) "currentState (comps w p) = OMX_StateWaitForResources"
    | (other) "currentState (comps w p) = OMX_StateInvalid \<or> currentState (comps w p) = OMX_StateMax"
    using assms(3) by (cases "currentState (comps w p)") auto
  then show ?thesis
  proof cases
    case loaded
    then have "loaded_to_idle E p w = Some (w', e)" using assms(2) by (simp add: set_idle_def r)
    from loaded_to_idle_after [OF assms(1) this loaded] obtain t H n where
      a: "after p t H n w w'" and "t = OMX_StateIdle \<and> e = OMX_ErrorNone
         \<or> t = OMX_StateLoaded \<and> (e = OMX_ErrorNone \<longrightarrow> abendSignalled (comps w' p))"
      "handles (comps w p) = {} \<longrightarrow> n = leaked (comps w p) \<and> H \<subseteq> set (all_handles (comps w p))
         \<and> (os_ok E \<longrightarrow> H = (if t = OMX_StateIdle then set (all_handles (comps w p)) else {}))" by blast
    then show ?thesis unfolding r
      by (intro transitionI [OF a]) (auto simp: loaded allowed_def handles_ok_def live_def)
  next
    case flush
    define w1 where "w1 = (if currentState (comps w p) = OMX_StateExecuting
      then upd_comp p (\<lambda>c. c\<lparr>needFlushOnSeek := True\<rparr>) w else w)"
    have "same p w w1" unfolding w1_def by (rule sameI) (auto simp: kept_def upd_comp_def)
    then have "same p w (flush_ports E p False [0..<ALL_PORT_NUM] w1)" using after_same same_flush [OF assms(1)] by metis
    moreover have "r = (set_current OMX_StateIdle p (flush_ports E p False [0..<ALL_PORT_NUM] w1), OMX_ErrorNone)"
      using assms(2) flush
      by (auto simp: set_idle_def w1_def Rockchip_OMX_BufferFlushProcess_def port_list_def ALL_PORT_INDEX_def)
    ultimately show ?thesis
      using flush by (auto simp: allowed_def live_def intro!: transition_move same_then_current)
  next
    case waiting
    then have "r = (set_current OMX_StateIdle p w, OMX_ErrorNone)" using assms(2) by (simp add: set_idle_def)
    then show ?thesis using waiting by (auto simp: allowed_def live_def intro!: transition_move same_set_current)
  next
    case other
    then have "r = (w, OMX_ErrorIncorrectStateTransition)" using assms(2) by (auto simp: set_idle_def)
    then show ?thesis by (simp add: transition_none)
  qed
qed

lemma kept_post_sem: "kept c (post_sem i n c)"
  unfolding post_sem_def by (auto intro: kept_port)

lemma kept_posts: "kept c (fold post_tunnel is c)" "kept c (fold post_queued is c)"
  by (intro kept_fold; simp add: post_tunnel_def post_queued_def kept_post_sem)+

lemma kept_signal_pause: "kept c (signal_pause c)"
  by (simp add: signal_pause_def kept_def)

lemma kept_state_set:
  "kept c c' \<Longrightarrow> kept (c\<lparr>currentState := s\<rparr>) (c'\<lparr>transientState := t, currentState := s\<rparr>)"
  "kept c c' \<Longrightarrow> kept (c\<lparr>currentState := s\<rparr>) (c'\<lparr>currentState := s\<rparr>)"
  by (simp_all add: kept_def)

lemma set_executing_transition:
  assumes "codec_law E" "currentState (comps w p) \<noteq> OMX_StateExecuting"
  shows "transition E p OMX_StateExecuting w (set_executing E p w)"
proof -
  have run: "after p OMX_StateExecuting (handles (comps w1 p)) (leaked (comps w1 p)) w1
      (upd_comp p (\<lambda>c. signal_pause (f c)) w1)" if "\<And>c. kept (c\<lparr>currentState := OMX_StateExecuting\<rparr>) (f c)" for f w1
    using kept_trans [OF that kept_signal_pause] by (auto simp: after_def upd_comp_def kept_def)
  consider (idle) "currentState (comps w p) = OMX_StateIdle" | (pause) "currentState (comps w p) = OMX_StatePause"
    | (other) "currentState (comps w p) \<noteq> OMX_StateIdle" "currentState (comps w p) \<noteq> OMX_StatePause" by blast
  then show ?thesis
  proof cases
    case idle
    obtain w1 e where c: "codec_call (codec_componentInit E) p w = (w1, e)" by fastforce
    have s: "same p w w1" by (rule same_codec_call [OF _ c]) (use assms(1) in \<open>simp add: codec_law_def\<close>)
    show ?thesis
    proof (cases "e = OMX_ErrorNone")
      case False
      have "same p w (fst (release_resource E p (signal_abend p w1)))"
        using after_same [OF after_same [OF s same_signal_abend] same_release] .
      then show ?thesis using False idle c by (simp add: set_executing_def transition_stay)
    next
      case True
      have "after p OMX_StateExecuting (handles (comps w p)) (leaked (comps w p)) w
          (upd_comp p (\<lambda>c. signal_pause ((fold post_tunnel [0..<nPorts c] c)
             \<lparr>transientState := ROCKCHIP_OMX_TransStateMax, currentState := OMX_StateExecuting\<rparr>)) w1)"
        using after_trans [OF s run [OF kept_state_set(1) [OF kept_posts(1)]]] unfolding afterD(2,3) [OF s] .
      then show ?thesis using True idle c
        by (auto simp: set_executing_def allowed_def live_def intro!: transition_move)
    qed
  next
    case pause
    then show ?thesis
      by (auto simp: set_executing_def allowed_def live_def
          intro!: transition_move run [OF kept_state_set(2) [OF kept_posts(2)]])
  next
    case other
    then show ?thesis by (simp add: set_executing_def transition_none)
  qed
qed

lemma set_pause_transition:
  "currentState (comps w p) \<noteq> OMX_StatePause \<Longrightarrow> transition E p OMX_StatePause w (set_pause p w)"
  by (auto simp: set_pause_def allowed_def live_def intro!: transition_none transition_move same_set_current)

lemma set_wait_transition:
  assumes "currentState (comps w p) \<noteq> OMX_StateWaitForResources"
  shows "transition E p OMX_StateWaitForResources w (set_wait E p w)"
  using assms
  by (auto simp: set_wait_def allowed_def live_def case_prod_beta Let_def
      intro!: transition_none transition_move same_then_current same_rlists)

lemma change_state_transition:
  assumes "codec_law E" "change_state E p d w = Some r" "currentState (comps w p) \<noteq> d"
    and "currentState (comps w p) \<noteq> OMX_StateInvalid"
  shows "transition E p d w r"
  using assms
  by (cases d) (auto simp: change_state_def intro: set_invalid_transition set_loaded_transition set_idle_transition
      set_executing_transition set_pause_transition set_wait_transition transition_none)

lemma change_state_refuses:
  assumes "change_state E p d w = Some (w', e)" "\<not> allowed (currentState (comps w p)) d" "currentState (comps w p) \<noteq> d"
    and "currentState (comps w p) \<noteq> OMX_StateInvalid"
  shows "w' = w \<and> e \<noteq> OMX_ErrorNone"
  using assms
  by (cases d)
    (auto simp: change_state_def allowed_def set_invalid_def set_loaded_def set_idle_def set_executing_def set_pause_def
      set_wait_def case_prod_beta Let_def split: OMX_STATETYPE.splits if_splits)

lemma transition_after_same:
  assumes "same p w w1" "transition E p d w1 r"
  shows "transition E p d w r"
proof -
  note f = afterD(1-4) [OF assms(1)] and t = afterD(9) [OF assms(1)]
  have "handles_ok (comps w1 p) = handles_ok (comps w p)" "untunneled (comps w1 p) = untunneled (comps w p)"
    using f t by (simp_all add: handles_ok_def untunneled_def CHECK_PORT_TUNNELED_def)
  moreover obtain t H n where a: "after p t H n w1 (fst r)" and "t = d \<and> allowed (currentState (comps w1 p)) d
        \<or> t = currentState (comps w1 p)
          \<and> (snd r = OMX_ErrorNone \<longrightarrow> t = OMX_StateLoaded \<and> d = OMX_StateIdle \<and> abendSignalled (comps (fst r) p))"
    and "handles_ok (comps w1 p) \<and> os_ok E \<and> untunneled (comps w1 p)
          \<and> \<not> (currentState (comps w1 p) = OMX_StateWaitForResources \<and> d = OMX_StateIdle)
        \<longrightarrow> n = leaked (comps w1 p) \<and> H = (if live t then set (all_handles (comps w1 p)) else {})"
    using assms(2) unfolding transition_def by blast
  ultimately have "transition E p d w (fst r, snd r)"
    unfolding f by (intro transitionI [OF after_trans [OF assms(1) a]]) blast+
  then show ?thesis by simp
qed

lemma report_fields:
  "comps (fst (report p d r)) = comps (fst r)" "rlists (fst (report p d r)) = rlists (fst r)"
  "snd (report p d r) = snd r"
  by (simp_all add: report_def case_prod_beta Let_def)

lemma transition_report: "transition E p d w r \<Longrightarrow> transition E p d w (report p d r)"
  by (simp add: transition_def report_fields after_def)

lemma ComponentStateSet_transition:
  assumes "codec_law E" "Rockchip_OMX_ComponentStateSet E p d w = Some r" "currentState (comps w p) \<noteq> d"
    and "currentState (comps w p) \<noteq> OMX_StateInvalid"
  shows "transition E p d w r"
proof (cases "currentState (comps w p) = OMX_StateLoaded \<and> d = OMX_StateIdle")
  case True
  then obtain w1 e1 r1 where g: "get_resource E p w = Some (w1, e1)" and r: "r = report p d r1"
    and r1: "(if e1 \<noteq> OMX_ErrorNone then Some (signal_abend p w1, e1) else change_state E p d w1) = Some r1"
    using assms(2,3) by (auto simp: Rockchip_OMX_ComponentStateSet_def Let_def bind_eq_Some_conv)
  have s: "same p w w1" by (rule same_world [OF get_resource_kept [OF g]])
  have "transition E p d w r1"
  proof (cases "e1 = OMX_ErrorNone")
    case True
    then show ?thesis
      using r1 assms(3,4) afterD(1) [OF s] by (intro transition_after_same [OF s] change_state_transition [OF assms(1)]) auto
  next
    case False
    then show ?thesis using r1 after_same [OF s same_signal_abend] by (auto intro: transition_stay)
  qed
  then show ?thesis by (simp add: r transition_report)
next
  case False
  define w1 where "w1 = (if gives_back (currentState (comps w p)) d then fst (release_resource E p w) else w)"
  obtain r1 where r: "r = report p d r1" and r1: "change_state E p d w1 = Some r1"
    using assms(2-4) False by (auto simp: Rockchip_OMX_ComponentStateSet_def Let_def w1_def)
  have s: "same p w w1" unfolding w1_def by (cases "gives_back (currentState (comps w p)) d") (simp_all only: if_True if_False same_release same_refl)
  show ?thesis
    unfolding r using r1 assms(3,4) afterD(1) [OF s]
    by (intro transition_report transition_after_same [OF s] change_state_transition [OF assms(1)]) auto
qed

lemma ComponentStateSet_none:
  assumes "Rockchip_OMX_ComponentStateSet E p d w = Some (w', e)"
    "currentState (comps w p) = d \<or> currentState (comps w p) = OMX_StateInvalid"
  shows "comps w' = comps w \<and> rlists w' = rlists w \<and> e \<noteq> OMX_ErrorNone"
proof -
  have "report p d (w, if currentState (comps w p) = d then OMX_ErrorSameState else OMX_ErrorInvalidState) = (w', e)"
    using assms by (cases "currentState (comps w p) = d") (auto simp: Rockchip_OMX_ComponentStateSet_def Let_def)
  then show ?thesis
    using report_fields [of p d "(w, if currentState (comps w p) = d then OMX_ErrorSameState else OMX_ErrorInvalidState)"]
    by (auto split: if_splits)
qed

text \<open>
  C33: Setting the state of a component, when the functions of the codec component do not set it
  themselves: the component is in the new state afterwards, and the OMX standard has this transition, or
  is in the old state. A result without error means that it is in the new state, or that the wait for
  the buffers was ended by the destructor, which is told so. Where the standard has no transition the
  result is an error and nothing changes. The other components keep their state and handles.
\<close>

theorem Rockchip_OMX_ComponentStateSet_transitions:
  assumes "codec_law E" "Rockchip_OMX_ComponentStateSet E p d w = Some (w', e)"
  defines "s \<equiv> currentState (comps w p)" and "s' \<equiv> currentState (comps w' p)"
  shows "(s' = d \<and> allowed s d \<or> s' = s)
    \<and> (e = OMX_ErrorNone \<longrightarrow> s' = d \<or> s = OMX_StateLoaded \<and> d = OMX_StateIdle \<and> abendSignalled (comps w' p))
    \<and> (\<not> allowed s d \<longrightarrow> e \<noteq> OMX_ErrorNone \<and> comps w' = comps w \<and> rlists w' = rlists w)
    \<and> (\<forall>q. q \<noteq> p \<longrightarrow> kept (comps w q) (comps w' q))"
proof (cases "s = d \<or> s = OMX_StateInvalid")
  case True
  then show ?thesis using ComponentStateSet_none [OF assms(2)] by (simp add: s_def s'_def)
next
  case False
  then have t: "transition E p d w (w', e)"
    using ComponentStateSet_transition [OF assms(1,2)] by (simp add: s_def)
  have "e \<noteq> OMX_ErrorNone \<and> comps w' = comps w \<and> rlists w' = rlists w" if n: "\<not> allowed s d"
  proof -
    have "\<not> (s = OMX_StateLoaded \<and> d = OMX_StateIdle)" "\<not> gives_back s d"
      using n by (auto simp: allowed_def gives_back_def)
    then have "map_option (report p d) (change_state E p d w) = Some (w', e)"
      using assms(2) False unfolding Rockchip_OMX_ComponentStateSet_def Let_def s_def by auto
    then obtain r1 where r1: "report p d r1 = (w', e)" "change_state E p d w = Some r1"
      unfolding map_option_eq_Some by metis
    then have "fst r1 = w \<and> snd r1 \<noteq> OMX_ErrorNone"
      using change_state_refuses [of E p d w "fst r1" "snd r1"] n False by (simp add: s_def)
    then show ?thesis using r1(1) report_fields [of p d r1] by (metis fst_conv snd_conv)
  qed
  moreover obtain t H n where a: "after p t H n w w'" and "t = d \<and> allowed s d \<or> t = s
      \<and> (e = OMX_ErrorNone \<longrightarrow> t = OMX_StateLoaded \<and> d = OMX_StateIdle \<and> abendSignalled (comps w' p))"
    using t unfolding transition_def s_def fst_conv snd_conv by blast
  moreover have "s' = t" using afterD(1) [OF a] by (simp add: s'_def)
  ultimately show ?thesis using afterD(12) [OF a] by blast
qed

section \<open>The handles\<close>

lemma same_report_error: "report_error p (w, e) = Some (w', e') \<Longrightarrow> same p w w'"
  by (auto simp: report_error_def send_event_def same_rlists split: if_splits)

lemma same_send_event: "send_event p e w = Some w' \<Longrightarrow> same p w w'"
  by (auto simp: send_event_def same_rlists split: if_splits)

lemma EnablePort_same:
  assumes "codec_law E" "Rockchip_OMX_EnablePort E p i w = Some (w', e)"
  shows "same p w w'"
proof -
  have k: "same p w (upd_comp p (port_enabled i) w)"
    "same p w (upd_comp p (upd_port i (\<lambda>p. p\<lparr>exceptionFlag := NEED_PORT_DISABLE\<rparr>)) w)"
    "same p w (upd_comp p (upd_port i (\<lambda>p. p\<lparr>bPopulated := True\<rparr>)) w)" for w
    by (auto simp: port_enabled_def intro!: same_upd_comp kept_port)
  show ?thesis
  proof (cases "currentState (comps w p) \<noteq> OMX_StateLoaded \<and> currentState (comps w p) \<noteq> OMX_StateWaitForResources")
    case True
    then obtain w1 where w1: "wait_call (wait_loaded E i) p w = Some w1"
      and w': "w' = (if exceptionFlag (ports (comps w1 p) i) = INVALID_STATE
           then upd_comp p (upd_port i (\<lambda>p. p\<lparr>exceptionFlag := NEED_PORT_DISABLE\<rparr>)) w1
           else upd_comp p (port_enabled i) (upd_comp p (upd_port i (\<lambda>p. p\<lparr>bPopulated := True\<rparr>)) w1))"
      using assms(2) by (auto simp: Rockchip_OMX_EnablePort_def)
    have "same p w w1" by (rule same_wait_call [OF _ w1]) (use assms(1) in \<open>simp add: codec_law_def\<close>)
    moreover have "same p w1 w'"
      unfolding w' using after_same [OF k(3) k(1)] k(2) by (simp only: split: if_split) blast
    ultimately show ?thesis by (rule after_same)
  next
    case False
    then have "w' = upd_comp p (port_enabled i) w" using assms(2) by (auto simp: Rockchip_OMX_EnablePort_def)
    then show ?thesis using k(1) by (simp only:)
  qed
qed

lemma DisablePort_same:
  assumes "codec_law E" "Rockchip_OMX_DisablePort E p i w = Some (w', e)"
  shows "same p w w'"
proof (cases "bEnabled (ports (comps w p) i)")
  case True
  define f where "f = (\<lambda>c. upd_port i (\<lambda>p. p\<lparr>bPopulated := False\<rparr>)
    (if CHECK_PORT_BUFFER_SUPPLIER (ports c i) then drain_queue i c else c))"
  define count where "count w1 = (if codecType (comps w1 p) = HW_VIDEO_DEC_CODEC \<and> i = 1
    then codec_call (ComputeDecBufferCount E) p w1 else (w1, OMX_ErrorNone))" for w1
  obtain w1 where w1: "(if currentState (comps w p) \<noteq> OMX_StateLoaded
      then wait_call (wait_unloaded E i) p (upd_comp p f w) else Some w) = Some w1"
    and r: "(if snd (count w1) \<noteq> OMX_ErrorNone then (fst (count w1), snd (count w1))
       else (upd_comp p (upd_port i (\<lambda>p. p\<lparr>bEnabled := False\<rparr>)) (fst (count w1)), OMX_ErrorNone)) = (w', e)"
    using assms(2) True
    unfolding Rockchip_OMX_DisablePort_def f_def [symmetric] count_def [symmetric] case_prod_beta Let_def
    by (simp add: map_option_case split: option.splits)
  then have w': "w' = (if snd (count w1) \<noteq> OMX_ErrorNone then fst (count w1)
       else upd_comp p (upd_port i (\<lambda>p. p\<lparr>bEnabled := False\<rparr>)) (fst (count w1)))"
    by (simp split: if_splits)
  have f: "kept c (f c)" for c
    using kept_trans [OF kept_drain kept_port] kept_port by (simp add: f_def)
  have "same p w w1"
  proof (cases "currentState (comps w p) = OMX_StateLoaded")
    case False
    then have "wait_call (wait_unloaded E i) p (upd_comp p f w) = Some w1" using w1 by simp
    then show ?thesis
      using assms(1) by (intro after_same [OF same_upd_comp [OF f] same_wait_call]) (auto simp: codec_law_def)
  next
    case True
    then have "w1 = w" using w1 by simp
    then show ?thesis by (simp only: same_refl)
  qed
  moreover have "same p w1 (fst (count w1))"
    using assms(1) same_codec_call [of "ComputeDecBufferCount E" p w1] by (auto simp: count_def codec_law_def) (metis prod.collapse)
  moreover have "same p (fst (count w1)) w'"
    unfolding w' by (auto intro!: same_upd_comp kept_port)
  ultimately show ?thesis by (blast intro: after_same)
next
  case False
  then show ?thesis using assms(2) by (simp add: Rockchip_OMX_DisablePort_def)
qed

lemma enable_each_same:
  assumes "codec_law E" "enable_each E p is ret w = Some (w', e)"
  shows "same p w w'"
  using assms(2)
proof (induction "is" arbitrary: w ret)
  case (Cons i "is")
  then obtain w1 e1 w2 where "Rockchip_OMX_EnablePort E p i w = Some (w1, e1)"
    and w2: "(if e1 = OMX_ErrorNone then send_event p (CmdComplete (CommandPortEnable (int i))) w1 else Some w1) = Some w2"
    and r: "enable_each E p is e1 w2 = Some (w', e)"
    by (auto simp: bind_eq_Some_conv)
  then have "same p w w1" using EnablePort_same [OF assms(1)] by blast
  moreover have "same p w1 w2" using w2 same_send_event by (auto split: if_splits)
  ultimately show ?case using Cons.IH [OF r] after_same by blast
qed simp

lemma disable_each_same:
  assumes "codec_law E" "disable_each E p is ret w = Some (w', e)"
  shows "same p w w'"
  using assms(2)
proof (induction "is" arbitrary: w ret)
  case (Cons i "is")
  define off :: "'a omx_world \<Rightarrow> 'a omx_world" where "off = upd_comp p (upd_port i (\<lambda>p. p\<lparr>bIsPortDisabled := False\<rparr>))"
  obtain w1 e1 w2 where "Rockchip_OMX_DisablePort E p i w = Some (w1, e1)"
    and w2: "(if e1 = OMX_ErrorNone then send_event p (CmdComplete (CommandPortDisable (int i))) (off w1) else Some (off w1))
      = Some w2"
    and r: "disable_each E p is e1 w2 = Some (w', e)"
    using Cons.prems unfolding disable_each.simps off_def [symmetric] Let_def by (auto simp: bind_eq_Some_conv)
  then have "same p w w1" using DisablePort_same [OF assms(1)] by blast
  moreover have "same p w1 (off w1)" unfolding off_def by (auto intro!: same_upd_comp kept_port)
  moreover have "same p (off w1) w2" using w2 same_send_event by (auto split: if_splits)
  ultimately show ?case using Cons.IH [OF r] after_same by blast
qed simp

lemma PortEnableProcess_same:
  assumes "codec_law E" "Rockchip_OMX_PortEnableProcess E p i w = Some (w', e)"
  shows "same p w w'"
proof -
  obtain "is" w1 e1 where "enable_each E p is OMX_ErrorNone w = Some (w1, e1)" "report_error p (w1, e1) = Some (w', e)"
    using assms(2) by (auto simp: Rockchip_OMX_PortEnableProcess_def bind_eq_Some_conv)
  then show ?thesis using enable_each_same [OF assms(1)] same_report_error after_same by blast
qed

lemma BufferFlushProcess_same:
  "codec_law E \<Longrightarrow> Rockchip_OMX_BufferFlushProcess E p i b w = Some (w', e) \<Longrightarrow> same p w w'"
  using same_flush by (force simp: Rockchip_OMX_BufferFlushProcess_def)

lemma PortDisableProcess_same:
  assumes "codec_law E" "Rockchip_OMX_PortDisableProcess E p i w = Some (w', e)"
  shows "same p w w'"
proof -
  obtain "is" w1 e1 where d: "disable_each E p is OMX_ErrorNone (flush_ports E p False is w) = Some (w1, e1)"
    and r: "report_error p (w1, e1) = Some (w', e)"
    using assms(2) by (auto simp: Rockchip_OMX_PortDisableProcess_def bind_eq_Some_conv)
  show ?thesis
    by (rule after_same [OF after_same [OF same_flush [OF assms(1)] disable_each_same [OF assms(1) d]]
          same_report_error [OF r]])
qed

text \<open>
  The steps of a system of components: setting a state, except the one from waiting to idle, commands,
  the work on ports, and whatever else keeps states and handles.
\<close>

inductive omx_step :: "'w omx_env \<Rightarrow> 'w omx_world \<Rightarrow> 'w omx_world \<Rightarrow> bool" for E where
  set_state: "Rockchip_OMX_ComponentStateSet E p d w = Some (w', e)
    \<Longrightarrow> \<not> (currentState (comps w p) = OMX_StateWaitForResources \<and> d = OMX_StateIdle) \<Longrightarrow> omx_step E w w'"
| command: "Rockchip_OMX_SendCommand m cmd (comps w p) = Some (c, e) \<Longrightarrow> omx_step E w (upd_comp p (\<lambda>_. c) w)"
| flush: "Rockchip_OMX_BufferFlushProcess E p i b w = Some (w', e) \<Longrightarrow> omx_step E w w'"
| enable: "Rockchip_OMX_PortEnableProcess E p i w = Some (w', e) \<Longrightarrow> omx_step E w w'"
| disable: "Rockchip_OMX_PortDisableProcess E p i w = Some (w', e) \<Longrightarrow> omx_step E w w'"
| others: "(\<And>q. kept (comps w q) (comps w' q)) \<Longrightarrow> omx_step E w w'"

definition all_ok :: "'w omx_world \<Rightarrow> bool" where
  "all_ok w \<longleftrightarrow> (\<forall>p. handles_ok (comps w p) \<and> untunneled (comps w p) \<and> leaked (comps w p) = 0)"

lemma all_ok_kept:
  assumes "all_ok w" "\<And>q. kept (comps w q) (comps w' q)"
  shows "all_ok w'"
proof -
  have "handles_ok (comps w' q) \<and> untunneled (comps w' q) \<and> leaked (comps w' q) = 0" for q
    using assms(1) assms(2) [of q] kept_all_handles [OF assms(2) [of q]]
    by (simp add: all_ok_def kept_def handles_ok_def untunneled_def CHECK_PORT_TUNNELED_def)
  then show ?thesis by (simp add: all_ok_def)
qed

lemma same_kept: "same p w w' \<Longrightarrow> kept (comps w q) (comps w' q)"
  by (cases "q = p") (auto simp: after_def kept_def)

lemma all_ok_set:
  assumes "codec_law E" "os_ok E" "all_ok w" "Rockchip_OMX_ComponentStateSet E p d w = Some (w', e)"
    and "\<not> (currentState (comps w p) = OMX_StateWaitForResources \<and> d = OMX_StateIdle)"
  shows "all_ok w'"
proof (cases "currentState (comps w p) = d \<or> currentState (comps w p) = OMX_StateInvalid")
  case True
  then have "comps w' = comps w" using ComponentStateSet_none [OF assms(4)] by simp
  then show ?thesis using assms(3) by (simp add: all_ok_def)
next
  case False
  then have "transition E p d w (w', e)" using ComponentStateSet_transition [OF assms(1,4)] by simp
  then obtain t H n where a: "after p t H n w w'"
    and h: "handles_ok (comps w p) \<and> os_ok E \<and> untunneled (comps w p) \<longrightarrow>
      n = leaked (comps w p) \<and> H = (if live t then set (all_handles (comps w p)) else {})"
    using assms(5) unfolding transition_def fst_conv by blast
  have "handles_ok (comps w' q) \<and> untunneled (comps w' q) \<and> leaked (comps w' q) = 0" for q
  proof (cases "q = p")
    case True
    then show ?thesis
      using h assms(2,3) afterD(1-4,9) [OF a]
      by (simp add: all_ok_def handles_ok_def untunneled_def CHECK_PORT_TUNNELED_def)
  next
    case False
    note k = afterD(12) [OF a False]
    then show ?thesis
      using assms(3) kept_all_handles [OF k]
      by (simp add: all_ok_def kept_def handles_ok_def untunneled_def CHECK_PORT_TUNNELED_def)
  qed
  then show ?thesis by (simp add: all_ok_def)
qed

lemma omx_step_ok:
  assumes "codec_law E" "os_ok E" "omx_step E w w'" "all_ok w"
  shows "all_ok w'"
  using assms(3,4)
proof cases
  case (set_state p d e)
  then show ?thesis using all_ok_set [OF assms(1,2,4)] by blast
next
  case (command m cmd p c e)
  then show ?thesis using kept_SendCommand by (intro all_ok_kept [OF assms(4)]) (auto simp: upd_comp_def)
next
  case (flush p i b e)
  show ?thesis by (rule all_ok_kept [OF assms(4) same_kept [OF BufferFlushProcess_same [OF assms(1) flush]]])
next
  case (enable p i e)
  show ?thesis by (rule all_ok_kept [OF assms(4) same_kept [OF PortEnableProcess_same [OF assms(1) enable]]])
next
  case (disable p i e)
  show ?thesis by (rule all_ok_kept [OF assms(4) same_kept [OF PortDisableProcess_same [OF assms(1) disable]]])
next
  case others
  show ?thesis by (rule all_ok_kept [OF assms(4) others])
qed

text \<open>
  C34: When no object fails to be created and no port is tunnelled (the codec components refuse tunnels),
  every component that is idle, executes or pauses has exactly the handles of its ports and threads, every
  other one has none, and no handle is ever overwritten, however states are set, commands sent and ports
  enabled, disabled and flushed, as long as no waiting component is made idle.
\<close>

theorem omx_handles_invariant:
  assumes "codec_law E" "os_ok E" "(omx_step E)\<^sup>*\<^sup>* w w'" "all_ok w"
  shows "handles (comps w' p) = (if currentState (comps w' p) \<in> {OMX_StateIdle, OMX_StateExecuting, OMX_StatePause}
      then set (all_handles (comps w' p)) else {}) \<and> leaked (comps w' p) = 0"
proof -
  have "all_ok w'" using assms(3,4) omx_step_ok [OF assms(1,2)] by (induction rule: rtranclp_induct) blast+
  then show ?thesis by (simp add: all_ok_def handles_ok_def live_def)
qed

end
