(* ===== verification/Omx_Lifecycle.thy ===== *)
theory Omx_Lifecycle
  imports Omx_State
begin

section \<open>Transitions that succeed\<close>

text \<open>An environment that never fails: objects and messages can be allocated, the codec component
  succeeds, and the buffers come and go without an abnormal end.\<close>

definition willing :: "'w omx_env \<Rightarrow> bool" where
  "willing E \<longleftrightarrow> codec_law E \<and> os_ok E \<and> (\<forall>x. os_malloc E x)
     \<and> (\<forall>c x. snd (snd (BufferProcessCreate E c x)) = OMX_ErrorNone
          \<and> snd (snd (BufferProcessTerminate E c x)) = OMX_ErrorNone)
     \<and> (\<forall>i c x. \<exists>c' x'. wait_loaded E i c x = Some (c', x') \<and> abendState c' = abendState c)
     \<and> (\<forall>i c x. wait_unloaded E i c x \<noteq> None)"

lemma rlists_kept [simp]:
  "rlists (upd_comp p f w) = rlists w" "rlists (set_current s p w) = rlists w" "rlists (terminate_all p w) = rlists w"
  "rlists (fst (codec_call g p w)) = rlists w" "rlists (fst (create_handle E p h w)) = rlists w"
  by (simp_all add: upd_comp_def set_current_def terminate_all_def codec_call_def create_handle_def case_prod_beta Let_def)

lemma rlists_wait: "wait_call f p w = Some w' \<Longrightarrow> rlists w' = rlists w"
  by (auto simp: wait_call_def)

lemma rlists_idle_handles: "rlists (fst (idle_handles E p w)) = rlists w"
proof -
  have "rlists (fst (create_handles E p hs w)) = rlists w" for hs w
    by (induction hs arbitrary: w) (simp_all add: case_prod_beta Let_def)
  moreover have "rlists (create_events E p hs w) = rlists w" for hs w
    by (induction hs arbitrary: w) (simp_all add: create_events_def)
  ultimately show ?thesis by (simp add: idle_handles_list)
qed

lemma untunneled_supplies: "untunneled c \<Longrightarrow> \<not> supplies (ports c i)"
  by (simp add: untunneled_def)

lemma untunneled_same: "same p w w' \<Longrightarrow> untunneled (comps w p) \<Longrightarrow> untunneled (comps w' p)"
  using afterD(9) [of p _ _ _ w w'] by (simp add: untunneled_def CHECK_PORT_TUNNELED_def)

lemma load_ports_willing:
  assumes "willing E" "untunneled (comps w p)" "\<not> abendState (comps w p)"
  shows "\<exists>w'. load_ports E p is w = Some (w', OMX_ErrorNone, True) \<and> rlists w' = rlists w"
  using assms(2,3)
proof (induction "is" arbitrary: w)
  case (Cons i "is")
  show ?case
  proof (cases "bEnabled (ports (comps w p) i)")
    case False
    then show ?thesis using Cons by simp
  next
    case True
    obtain c' x' where "wait_loaded E i (comps w p) (ext w) = Some (c', x')" "abendState c' = abendState (comps w p)"
      using assms(1) unfolding willing_def by meson
    then obtain w1 where w1: "wait_call (wait_loaded E i) p w = Some w1" "\<not> abendState (comps w1 p)"
      using Cons.prems(2) by (simp add: wait_call_def)
    define w2 where "w2 = upd_comp p (upd_port i (\<lambda>p. p\<lparr>bPopulated := True\<rparr>)) w1"
    have "same p w w1" by (rule same_wait_call [OF _ w1(1)]) (use assms(1) in \<open>auto simp: willing_def codec_law_def\<close>)
    then have "same p w w2" unfolding w2_def by (rule after_same) (auto intro!: same_upd_comp kept_port)
    from untunneled_same [OF this Cons.prems(1)] have "untunneled (comps w2 p)" .
    moreover have "\<not> abendState (comps w2 p)" using w1(2) by (simp add: w2_def upd_comp_def upd_port_def)
    ultimately obtain w' where "load_ports E p is w2 = Some (w', OMX_ErrorNone, True)" "rlists w' = rlists w2"
      using Cons.IH by blast
    then show ?thesis
      using True w1 untunneled_supplies [OF Cons.prems(1), of i] rlists_wait [OF w1(1)] by (auto simp: w2_def)
  qed
qed simp

lemma unload_ports_willing:
  assumes "willing E" "untunneled (comps w p)"
  shows "\<exists>w'. unload_ports E p is OMX_ErrorNone w = Some (w', OMX_ErrorNone, True) \<and> rlists w' = rlists w"
  using assms(2)
proof (induction "is" arbitrary: w)
  case (Cons i "is")
  show ?case
  proof (cases "bEnabled (ports (comps w p) i)")
    case False
    then show ?thesis using Cons untunneled_supplies [OF Cons.prems, of i] by (auto simp: Let_def)
  next
    case True
    have "wait_unloaded E i (comps w p) (ext w) \<noteq> None" using assms(1) by (simp add: willing_def)
    then obtain w1 where w1: "wait_call (wait_unloaded E i) p w = Some w1" by (auto simp: wait_call_def)
    define w2 where "w2 = upd_comp p (upd_port i (\<lambda>p. p\<lparr>bPopulated := False\<rparr>)) w1"
    have "same p w w1" by (rule same_wait_call [OF _ w1]) (use assms(1) in \<open>auto simp: willing_def codec_law_def\<close>)
    then have "same p w w2" unfolding w2_def by (rule after_same) (auto intro!: same_upd_comp kept_port)
    from untunneled_same [OF this Cons.prems] obtain w' where
      "unload_ports E p is OMX_ErrorNone w2 = Some (w', OMX_ErrorNone, True)" "rlists w' = rlists w2"
      using Cons.IH by blast
    then show ?thesis
      using True w1 untunneled_supplies [OF Cons.prems, of i] rlists_wait [OF w1] by (auto simp: w2_def Let_def)
  qed
qed simp

lemma loaded_to_idle_willing:
  assumes "willing E" "untunneled (comps w p)" "\<not> abendState (comps w p)" "currentState (comps w p) = OMX_StateLoaded"
    and "handles (comps w p) = {}"
  shows "\<exists>w'. loaded_to_idle E p w = Some (w', OMX_ErrorNone) \<and> rlists w' = rlists w
    \<and> after p OMX_StateIdle (set (all_handles (comps w p))) (leaked (comps w p)) w w'"
proof -
  have law: "codec_law E" "os_ok E" using assms(1) by (simp_all add: willing_def)
  obtain w1 where w1: "load_ports E p [0..<nPorts (comps w p)] w = Some (w1, OMX_ErrorNone, True)" "rlists w1 = rlists w"
    using load_ports_willing [OF assms(1-3)] by blast
  have s: "same p w w1" using load_ports_same [OF law(1) w1(1)] by blast
  obtain w2 e2 where i: "idle_handles E p w1 = (w2, e2)" by fastforce
  have e2: "e2 = OMX_ErrorNone" using idle_handles_after [OF i] afterD(2) [OF s] law(2) assms(5) by auto
  obtain w3 e3 where b: "codec_call (BufferProcessCreate E) p w2 = (w3, e3)" by fastforce
  have e3: "e3 = OMX_ErrorNone"
    using assms(1) b unfolding willing_def codec_call_def by (auto simp: case_prod_beta Let_def)
  have l: "loaded_to_idle E p w = Some (set_current OMX_StateIdle p w3, OMX_ErrorNone)"
    by (simp add: loaded_to_idle_def w1 i e2 b e3)
  have r: "rlists w3 = rlists w"
    using rlists_idle_handles [of E p w1] rlists_kept(4) [of "BufferProcessCreate E" p w2] i b w1(2) by simp
  obtain t H n where a: "after p t H n w (set_current OMX_StateIdle p w3)"
    and h: "n = leaked (comps w p)" "H = (if t = OMX_StateIdle then set (all_handles (comps w p)) else {})"
    using loaded_to_idle_after [OF law(1) l assms(4)] assms(5) law(2) by blast
  have "t = OMX_StateIdle" using afterD(1) [OF a] by (simp add: set_current_def upd_comp_def)
  then show ?thesis using l r a h by auto
qed

lemma set_loaded_willing:
  assumes "willing E" "untunneled (comps w p)" "currentState (comps w p) = OMX_StateIdle" "codec_terminate_set (comps w p)"
  shows "\<exists>w'. set_loaded E p w = Some (w', OMX_ErrorNone) \<and> rlists w' = rlists w"
proof -
  have law: "codec_law E" using assms(1) by (simp add: willing_def)
  obtain w1 e1 where b: "codec_call (BufferProcessTerminate E) p w = (w1, e1)" by fastforce
  have e1: "e1 = OMX_ErrorNone"
    using assms(1) b unfolding willing_def codec_call_def by (auto simp: case_prod_beta Let_def)
  obtain w3 e3 where c: "codec_call (codec_componentTerminate E) p (terminate_all p w1) = (w3, e3)" by fastforce
  have "same p w w1" by (rule same_codec_call [OF _ b]) (use law in \<open>simp add: codec_law_def\<close>)
  from after_trans [OF this same_terminate_all] have a: "after p (currentState (comps w1 p))
      (handles (comps w1 p) - set (all_handles (comps w1 p))) (leaked (comps w1 p)) w (terminate_all p w1)" .
  have "same p (terminate_all p w1) w3" by (rule same_codec_call [OF _ c]) (use law in \<open>simp add: codec_law_def\<close>)
  note a3 = after_same [OF a this]
  have "untunneled (comps w3 p)" using assms(2) afterD(9) [OF a3] by (simp add: untunneled_def CHECK_PORT_TUNNELED_def)
  then obtain w4 where w4: "unload_ports E p [0..<nPorts (comps w3 p)] OMX_ErrorNone w3 = Some (w4, OMX_ErrorNone, True)"
    "rlists w4 = rlists w3"
    using unload_ports_willing [OF assms(1)] by blast
  have "codec_terminate_set (comps (terminate_all p w1) p)" using assms(4) afterD(6) [OF a] by simp
  then have "set_loaded E p w = Some (set_current OMX_StateLoaded p w4, OMX_ErrorNone)"
    using assms(3) by (simp add: set_loaded_def b c e1 w4)
  moreover have "rlists w3 = rlists w"
    using rlists_kept(4) [of "BufferProcessTerminate E" p w] rlists_kept(4) [of "codec_componentTerminate E" p "terminate_all p w1"]
      b c by simp
  ultimately show ?thesis using w4(2) by simp
qed

text \<open>A decoder for which there is room gets its resource, and gives it back when nobody waits.\<close>

lemma get_resource_room:
  assumes "\<forall>x. os_malloc E x" "codecType (comps w p) = HW_VIDEO_DEC_CODEC" "length (gpVideoDecRMComponentList (rlists w)) < 6"
  shows "get_resource E p w = Some (w\<lparr>rlists := (rlists w)\<lparr>gpVideoDecRMComponentList :=
    gpVideoDecRMComponentList (rlists w) @ [\<lparr>pOMXStandComp = p, groupPriority = nGroupPriority (comps w p)\<rparr>]\<rparr>\<rparr>, OMX_ErrorNone)"
  using assms
  by (simp add: get_resource_def Rockchip_OMX_Get_Resource_def concrete_rm_def get_list_def addElementList_def
      MAX_RESOURCE_VIDEO_DEC_def)

lemma remove_comp_last: "p \<notin> pOMXStandComp ` set xs \<Longrightarrow> pOMXStandComp x = p \<Longrightarrow> remove_comp p (xs @ [x]) = Some xs"
  by (induction xs) auto

lemma release_resource_last:
  assumes "codecType (comps w p) = HW_VIDEO_DEC_CODEC" "gpVideoDecRMWaitingList (rlists w) = []"
    and "gpVideoDecRMComponentList (rlists w) = xs @ [x]" "pOMXStandComp x = p" "p \<notin> pOMXStandComp ` set xs"
  shows "fst (release_resource E p w) = w\<lparr>rlists := (rlists w)\<lparr>gpVideoDecRMComponentList := xs\<rparr>\<rparr>"
  using assms(1-3) remove_comp_last [OF assms(5,4)]
  by (simp add: release_resource_def Rockchip_OMX_Release_Resource_def concrete_rm_def release_list_def
      removeElementList_def)

lemma ComponentStateSet_idle:
  assumes "currentState (comps w p) = OMX_StateLoaded" "get_resource E p w = Some (w1, OMX_ErrorNone)"
    "loaded_to_idle E p w1 = Some r" "currentState (comps w1 p) = OMX_StateLoaded"
  shows "Rockchip_OMX_ComponentStateSet E p OMX_StateIdle w = Some (report p OMX_StateIdle r)"
  using assms by (simp add: Rockchip_OMX_ComponentStateSet_def change_state_def set_idle_def)

lemma ComponentStateSet_loaded:
  assumes "currentState (comps w p) = OMX_StateIdle" "set_loaded E p (fst (release_resource E p w)) = Some r"
  shows "Rockchip_OMX_ComponentStateSet E p OMX_StateLoaded w = Some (report p OMX_StateLoaded r)"
  using assms by (simp add: Rockchip_OMX_ComponentStateSet_def change_state_def gives_back_def)

lemma reported: "\<exists>w''. report p d (w', e) = (w'', e) \<and> comps w'' = comps w' \<and> rlists w'' = rlists w' \<and> ext w'' = ext w'"
  by (simp add: report_def)

text \<open>
  C35: A loaded decoder without tunnels and handles, of which the codec has set its terminate function, in
  an environment in which every allocation, every call of the codec and every wait for buffers succeeds,
  with fewer than six decoders on the list of the resource manager, itself not among them, and none waiting:
  it goes from loaded to idle, with all its handles and its resource, and back to loaded; then it has no
  handle, nothing has leaked and the lists of the resource manager are as before.
\<close>

theorem omx_loaded_idle_loaded:
  assumes "willing E" "untunneled (comps w p)" "\<not> abendState (comps w p)" "codec_terminate_set (comps w p)"
    and "currentState (comps w p) = OMX_StateLoaded" "handles (comps w p) = {}"
    and "codecType (comps w p) = HW_VIDEO_DEC_CODEC" "length (gpVideoDecRMComponentList (rlists w)) < 6"
    and "p \<notin> pOMXStandComp ` set (gpVideoDecRMComponentList (rlists w))" "gpVideoDecRMWaitingList (rlists w) = []"
  shows "\<exists>w1 w2. Rockchip_OMX_ComponentStateSet E p OMX_StateIdle w = Some (w1, OMX_ErrorNone)
    \<and> currentState (comps w1 p) = OMX_StateIdle \<and> handles (comps w1 p) = set (all_handles (comps w1 p))
    \<and> p \<in> pOMXStandComp ` set (gpVideoDecRMComponentList (rlists w1))
    \<and> Rockchip_OMX_ComponentStateSet E p OMX_StateLoaded w1 = Some (w2, OMX_ErrorNone)
    \<and> currentState (comps w2 p) = OMX_StateLoaded \<and> handles (comps w2 p) = {}
    \<and> leaked (comps w2 p) = leaked (comps w p) \<and> rlists w2 = rlists w"
proof -
  have law: "codec_law E" "os_ok E" using assms(1) by (simp_all add: willing_def)
  define entry where "entry = \<lparr>pOMXStandComp = p, groupPriority = nGroupPriority (comps w p)\<rparr>"
  define rm where "rm = (rlists w)\<lparr>gpVideoDecRMComponentList := gpVideoDecRMComponentList (rlists w) @ [entry]\<rparr>"
  obtain w0 where l: "loaded_to_idle E p (w\<lparr>rlists := rm\<rparr>) = Some (w0, OMX_ErrorNone)" "rlists w0 = rm"
    and a0: "after p OMX_StateIdle (set (all_handles (comps w p))) (leaked (comps w p)) (w\<lparr>rlists := rm\<rparr>) w0"
    using loaded_to_idle_willing [OF assms(1), of "w\<lparr>rlists := rm\<rparr>" p] assms(2,3,5,6) by auto
  have "get_resource E p w = Some (w\<lparr>rlists := rm\<rparr>, OMX_ErrorNone)"
    using get_resource_room [OF _ assms(7,8), of E] assms(1) by (simp add: rm_def entry_def willing_def)
  from ComponentStateSet_idle [OF assms(5) this l(1)] obtain w1
    where w1: "Rockchip_OMX_ComponentStateSet E p OMX_StateIdle w = Some (w1, OMX_ErrorNone)"
      "comps w1 = comps w0" "rlists w1 = rm"
    using reported [of p OMX_StateIdle w0 OMX_ErrorNone] l(2) assms(5) by auto
  have a: "after p OMX_StateIdle (set (all_handles (comps w p))) (leaked (comps w p)) w w1"
    using a0 w1(2) by (simp add: after_def)
  note f = afterD(1-4,6,8) [OF a]
  have rel: "fst (release_resource E p w1) = w1\<lparr>rlists := rlists w\<rparr>"
    using release_resource_last [of w1 p "gpVideoDecRMComponentList (rlists w)" entry E] f(6) assms(7,9,10) w1(3)
    by (simp add: rm_def entry_def)
  have "untunneled (comps w1 p)"
    using assms(2) afterD(9) [OF a] by (simp add: untunneled_def CHECK_PORT_TUNNELED_def)
  then obtain w3 where w3: "set_loaded E p (w1\<lparr>rlists := rlists w\<rparr>) = Some (w3, OMX_ErrorNone)" "rlists w3 = rlists w"
    using set_loaded_willing [OF assms(1), of "w1\<lparr>rlists := rlists w\<rparr>" p] assms(4) f by auto
  obtain w2 where w2: "Rockchip_OMX_ComponentStateSet E p OMX_StateLoaded w1 = Some (w2, OMX_ErrorNone)"
    "comps w2 = comps w3" "rlists w2 = rlists w"
    using ComponentStateSet_loaded [OF f(1), of E "(w3, OMX_ErrorNone)"] rel w3
      reported [of p OMX_StateLoaded w3 OMX_ErrorNone] by auto
  have "transition E p OMX_StateLoaded w1 (w2, OMX_ErrorNone)"
    using ComponentStateSet_transition [OF law(1) w2(1)] f(1) by simp
  moreover have "handles_ok (comps w1 p)" using f by (simp add: handles_ok_def live_def)
  ultimately obtain t H n where b: "after p t H n w1 w2" "t = OMX_StateLoaded"
    and "n = leaked (comps w1 p) \<and> H = (if live t then set (all_handles (comps w1 p)) else {})"
    using \<open>untunneled (comps w1 p)\<close> law(2) f(1) unfolding transition_def by auto
  then have "currentState (comps w2 p) = OMX_StateLoaded" "handles (comps w2 p) = {}" "leaked (comps w2 p) = leaked (comps w p)"
    using afterD(1-3) [OF b(1)] f by (simp_all add: live_def)
  then show ?thesis using w1 w2 f by (auto simp: rm_def entry_def)
qed

section \<open>Transitions that go wrong\<close>

text \<open>
  A component that waits for resources and is made idle, as the resource manager tells it when one
  becomes free, and then executing, executes without any of its handles and without being on a list of
  the resource manager, if it is not there while it waits; both transitions are reported as complete.
\<close>

theorem waiting_component_executes_without_handles:
  assumes "codec_law E" "\<forall>c x. snd (snd (codec_componentInit E c x)) = OMX_ErrorNone"
    and "currentState (comps w p) = OMX_StateWaitForResources" "handles (comps w p) = {}" "pCallbacks (comps w p)"
  shows "\<exists>w1 w2. Rockchip_OMX_ComponentStateSet E p OMX_StateIdle w = Some (w1, OMX_ErrorNone)
    \<and> Rockchip_OMX_ComponentStateSet E p OMX_StateExecuting w1 = Some (w2, OMX_ErrorNone)
    \<and> currentState (comps w2 p) = OMX_StateExecuting \<and> handles (comps w2 p) = {} \<and> rlists w2 = rlists w
    \<and> events w2 = events w @ [(p, CmdComplete (CommandStateSet OMX_StateIdle)),
        (p, CmdComplete (CommandStateSet OMX_StateExecuting))]"
proof -
  define w1 where "w1 = (set_current OMX_StateIdle p w)
    \<lparr>events := events w @ [(p, CmdComplete (CommandStateSet OMX_StateIdle))]\<rparr>"
  have 1: "Rockchip_OMX_ComponentStateSet E p OMX_StateIdle w = Some (w1, OMX_ErrorNone)"
    using assms(3,5) by (simp add: Rockchip_OMX_ComponentStateSet_def gives_back_def change_state_def set_idle_def
        report_def w1_def set_current_def upd_comp_def)
  have f: "currentState (comps w1 p) = OMX_StateIdle" "handles (comps w1 p) = {}" "rlists w1 = rlists w"
    "pCallbacks (comps w1 p)"
    using assms(4,5) by (simp_all add: w1_def set_current_def upd_comp_def)
  obtain w3 e where c: "codec_call (codec_componentInit E) p w1 = (w3, e)" by fastforce
  have e: "e = OMX_ErrorNone" "events w3 = events w1"
    using c assms(2) by (auto simp: codec_call_def case_prod_beta Let_def)
  have s: "same p w1 w3" by (rule same_codec_call [OF _ c]) (use assms(1) in \<open>simp add: codec_law_def\<close>)
  obtain w4 where w4: "set_executing E p w1 = (w4, OMX_ErrorNone)" "currentState (comps w4 p) = OMX_StateExecuting"
    "events w4 = events w1" "rlists w4 = rlists w"
    using f c e rlists_kept(4) [of "codec_componentInit E" p w1]
    by (simp add: set_executing_def upd_comp_def signal_pause_def)
  have "handles (comps w4 p) = {}"
    using w4(1) f c e(1) afterD(2) [OF s] kept_posts(1) [of "comps w3 p" "[0..<nPorts (comps w3 p)]"]
    by (auto simp: set_executing_def upd_comp_def signal_pause_def kept_def)
  moreover have "pCallbacks (comps w4 p)"
    using w4(1) f c e(1) afterD(7) [OF s] kept_posts(1) [of "comps w3 p" "[0..<nPorts (comps w3 p)]"]
    by (auto simp: set_executing_def upd_comp_def signal_pause_def kept_def)
  moreover have "Rockchip_OMX_ComponentStateSet E p OMX_StateExecuting w1
      = Some (report p OMX_StateExecuting (w4, OMX_ErrorNone))"
    using f(1) w4(1) by (simp add: Rockchip_OMX_ComponentStateSet_def gives_back_def change_state_def)
  ultimately show ?thesis
    using 1 w4(2-4) by (intro exI [of _ w1] exI) (auto simp: report_def w1_def)
qed

text \<open>One attempt to become idle in which the mutex of the input buffer cannot be created.\<close>

definition no_input_mutex :: "'w omx_env \<Rightarrow> bool" where
  "no_input_mutex E \<longleftrightarrow> (\<forall>x. os_malloc E x)
     \<and> (\<forall>h x. os_create E h x = (x, if h = H_bufferMutex 0 then OMX_ErrorInsufficientResources else OMX_ErrorNone))"

definition three_handles :: "ROCKCHIP_OMX_BASECOMPONENT \<Rightarrow> ROCKCHIP_OMX_BASECOMPONENT" where
  "three_handles c = new_handle (H_bufferSem 1) (new_handle (H_bufferSem 0) (new_handle H_pause c))"

lemma load_ports_off: "\<forall>i. \<not> bEnabled (ports (comps w p) i) \<Longrightarrow> load_ports E p is w = Some (w, OMX_ErrorNone, True)"
  by (induction "is") simp_all

lemma failing_idle_handles:
  assumes "no_input_mutex E" "\<not> bMultiThreadProcess (comps w p)"
  shows "idle_handles E p w = (upd_comp p three_handles w, OMX_ErrorInsufficientResources)"
proof -
  have c: "create_handle E p h w = (if h = H_bufferMutex 0 then (w, OMX_ErrorInsufficientResources)
      else (upd_comp p (new_handle h) w, OMX_ErrorNone))" for h w
    using assms(1) by (simp add: no_input_mutex_def create_handle_def Let_def)
  obtain hs where m: "mutex_handles (comps w p) = H_bufferMutex 0 # hs"
    by (cases "portWayType (ports (comps w p) 0)") (auto simp: mutex_handles_def two_ports)
  have "event_handles (comps w p) = [H_pause]" using assms(2) by (simp add: event_handles_def)
  then show ?thesis
    by (simp add: idle_handles_list create_events_def m sem_handles_def two_ports c)
      (simp add: upd_comp_def three_handles_def)
qed

lemma failing_attempt:
  assumes "no_input_mutex E" "\<forall>i. \<not> bEnabled (ports (comps w p) i)" "\<not> bMultiThreadProcess (comps w p)"
    and "currentState (comps w p) = OMX_StateLoaded" "codecType (comps w p) = HW_VIDEO_DEC_CODEC"
    and "length (gpVideoDecRMComponentList (rlists w)) < 6"
  shows "\<exists>w'. Rockchip_OMX_ComponentStateSet E p OMX_StateIdle w = Some (w', OMX_ErrorInsufficientResources)
    \<and> comps w' p = three_handles (comps w p)
    \<and> gpVideoDecRMComponentList (rlists w') = gpVideoDecRMComponentList (rlists w)
        @ [\<lparr>pOMXStandComp = p, groupPriority = nGroupPriority (comps w p)\<rparr>]"
proof -
  define w0 where "w0 = w\<lparr>rlists := (rlists w)\<lparr>gpVideoDecRMComponentList :=
    gpVideoDecRMComponentList (rlists w) @ [\<lparr>pOMXStandComp = p, groupPriority = nGroupPriority (comps w p)\<rparr>]\<rparr>\<rparr>"
  have w0: "comps w0 = comps w" by (simp add: w0_def)
  have g: "get_resource E p w = Some (w0, OMX_ErrorNone)"
    using assms(1,5,6) by (simp add: w0_def no_input_mutex_def get_resource_def Rockchip_OMX_Get_Resource_def concrete_rm_def
        get_list_def addElementList_def MAX_RESOURCE_VIDEO_DEC_def)
  have "loaded_to_idle E p w0 = Some (upd_comp p three_handles w0, OMX_ErrorInsufficientResources)"
    using load_ports_off [of w0 p] failing_idle_handles [OF assms(1), of w0 p] assms(2,3) w0 by (simp add: loaded_to_idle_def)
  from ComponentStateSet_idle [OF assms(4) g this] show ?thesis
    using reported [of p OMX_StateIdle "upd_comp p three_handles w0" OMX_ErrorInsufficientResources] w0 assms(4)
    by (auto simp: upd_comp_def w0_def)
qed

lemma three_handles_fields:
  "handles (three_handles c) = {H_pause, H_bufferSem 0, H_bufferSem 1} \<union> handles c"
  "currentState (three_handles c) = currentState c" "codecType (three_handles c) = codecType c"
  "bMultiThreadProcess (three_handles c) = bMultiThreadProcess c" "bEnabled (ports (three_handles c) i) = bEnabled (ports c i)"
  "leaked (three_handles c) = leaked c + card ({H_pause, H_bufferSem 0, H_bufferSem 1} \<inter> handles c)"
  by (auto simp: three_handles_def new_handle_def Let_def upd_port_def Int_insert_left card_insert_if)

text \<open>
  What such an attempt leaves: the pause event and the semaphores, which the next attempt overwrites.
\<close>

theorem failed_idle_leaks:
  assumes "no_input_mutex E" "\<forall>i. \<not> bEnabled (ports (comps w p) i)" "\<not> bMultiThreadProcess (comps w p)"
    and "currentState (comps w p) = OMX_StateLoaded" "handles (comps w p) = {}" "leaked (comps w p) = 0"
    and "codecType (comps w p) = HW_VIDEO_DEC_CODEC" "gpVideoDecRMComponentList (rlists w) = []"
  shows "\<exists>w1 w2. Rockchip_OMX_ComponentStateSet E p OMX_StateIdle w = Some (w1, OMX_ErrorInsufficientResources)
    \<and> currentState (comps w1 p) = OMX_StateLoaded
    \<and> handles (comps w1 p) = {H_pause, H_bufferSem 0, H_bufferSem 1} \<and> leaked (comps w1 p) = 0
    \<and> map pOMXStandComp (gpVideoDecRMComponentList (rlists w1)) = [p]
    \<and> Rockchip_OMX_ComponentStateSet E p OMX_StateIdle w1 = Some (w2, OMX_ErrorInsufficientResources)
    \<and> leaked (comps w2 p) = 3 \<and> map pOMXStandComp (gpVideoDecRMComponentList (rlists w2)) = [p, p]"
proof -
  obtain w1 where w1: "Rockchip_OMX_ComponentStateSet E p OMX_StateIdle w = Some (w1, OMX_ErrorInsufficientResources)"
    "comps w1 p = three_handles (comps w p)" "map pOMXStandComp (gpVideoDecRMComponentList (rlists w1)) = [p]"
    using failing_attempt [OF assms(1-4,7)] assms(8) by auto
  then have "length (gpVideoDecRMComponentList (rlists w1)) < 6" by auto
  then obtain w2 where w2: "Rockchip_OMX_ComponentStateSet E p OMX_StateIdle w1 = Some (w2, OMX_ErrorInsufficientResources)"
    "comps w2 p = three_handles (comps w1 p)" "map pOMXStandComp (gpVideoDecRMComponentList (rlists w2)) = [p, p]"
    using failing_attempt [OF assms(1), of w1 p] assms w1(2,3) by (auto simp: three_handles_fields)
  show ?thesis using w1 w2 assms by (auto simp: three_handles_fields)
qed

text \<open>Waiting for the buffers of ports without tunnels ends early only when the component ends abnormally.\<close>

lemma load_ports_ends:
  assumes "codec_law E" "untunneled (comps w p)" "load_ports E p is w = Some (w', e, ok)"
  shows "(ok \<longrightarrow> rlists w' = rlists w) \<and> (\<not> ok \<longrightarrow> abendState (comps w' p))"
  using assms(2,3)
proof (induction "is" arbitrary: w)
  case (Cons i "is")
  show ?case
  proof (cases "bEnabled (ports (comps w p) i)")
    case False
    then show ?thesis using Cons by simp
  next
    case True
    note nosupply = untunneled_supplies [OF Cons.prems(1), of i]
    obtain w1 where w1: "wait_call (wait_loaded E i) p w = Some w1"
      and run: "(if abendState (comps w1 p) then let (w2, e) = release_resource E p (signal_abend p w1) in Some (w2, e, False)
          else load_ports E p is (upd_comp p (upd_port i (\<lambda>p. p\<lparr>bPopulated := True\<rparr>)) w1)) = Some (w', e, ok)"
      using Cons.prems(2) True nosupply by (auto simp: bind_eq_Some_conv)
    show ?thesis
    proof (cases "abendState (comps w1 p)")
      case True
      then have "w' = fst (release_resource E p (signal_abend p w1))" "\<not> ok" using run by (auto simp: case_prod_beta Let_def)
      moreover have "abendState (comps (fst (release_resource E p (signal_abend p w1))) p) = abendState (comps w1 p)"
        using world_keptD(2) [OF release_resource_kept [of "signal_abend p w1" E p]] by (simp add: signal_abend_def upd_comp_def)
      ultimately show ?thesis using True by simp
    next
      case False
      let ?w2 = "upd_comp p (upd_port i (\<lambda>p. p\<lparr>bPopulated := True\<rparr>)) w1"
      have "same p w w1" by (rule same_wait_call [OF _ w1]) (use assms(1) in \<open>simp add: codec_law_def\<close>)
      then have "same p w ?w2" by (rule after_same) (auto intro!: same_upd_comp kept_port)
      from untunneled_same [OF this Cons.prems(1)] have "untunneled (comps ?w2 p)" .
      then show ?thesis using Cons.IH [of ?w2] run False rlists_wait [OF w1] by simp
    qed
  qed
qed simp

lemma loaded_to_idle_fails:
  assumes "codec_law E" "untunneled (comps w p)" "currentState (comps w p) = OMX_StateLoaded"
    and "loaded_to_idle E p w = Some (w', e)" "e \<noteq> OMX_ErrorNone"
  shows "currentState (comps w' p) = OMX_StateLoaded" "abendState (comps w' p) \<or> rlists w' = rlists w"
proof -
  obtain w1 e1 ok where l: "load_ports E p [0..<nPorts (comps w p)] w = Some (w1, e1, ok)"
    using assms(4) by (auto simp: loaded_to_idle_def)
  note ends = load_ports_ends [OF assms(1,2) l]
  have s1: "same p w w1" using load_ports_same [OF assms(1) l] by blast
  obtain w2 e2 where i: "idle_handles E p w1 = (w2, e2)" by fastforce
  obtain w3 e3 where b: "codec_call (BufferProcessCreate E) p w2 = (w3, e3)" by fastforce
  have r: "rlists w2 = rlists w1" "rlists w3 = rlists w2"
    using rlists_idle_handles [of E p w1] rlists_kept(4) [of "BufferProcessCreate E" p w2] i b by simp_all
  obtain H n where a2: "after p (currentState (comps w1 p)) H n w1 w2" using idle_handles_any [OF i] by blast
  have s3: "same p w2 w3" by (rule same_codec_call [OF _ b]) (use assms(1) in \<open>simp add: codec_law_def\<close>)
  have "(w', e) = (if \<not> ok then (w1, e1) else if e2 \<noteq> OMX_ErrorNone then (w2, e2)
      else if e3 \<noteq> OMX_ErrorNone then (terminate_all p w3, OMX_ErrorInsufficientResources) else (set_current OMX_StateIdle p w3, e3))"
    using assms(4) l i b by (auto simp: loaded_to_idle_def split: if_splits)
  then consider "\<not> ok" "w' = w1" | "ok" "w' = w2" | "ok" "w' = terminate_all p w3"
    using assms(5) by (auto split: if_splits)
  then have "currentState (comps w' p) = OMX_StateLoaded \<and> (abendState (comps w' p) \<or> rlists w' = rlists w)"
  proof cases
    case 1
    then show ?thesis using ends afterD(1) [OF s1] assms(3) by simp
  next
    case 2
    then show ?thesis using ends r(1) afterD(1) [OF a2] afterD(1) [OF s1] assms(3) by simp
  next
    case 3
    have "currentState (comps (terminate_all p w3) p) = currentState (comps w3 p)"
      using afterD(1) [OF same_terminate_all] by blast
    then show ?thesis using 3 ends r afterD(1) [OF s3] afterD(1) [OF a2] afterD(1) [OF s1] assms(3) by simp
  qed
  then show "currentState (comps w' p) = OMX_StateLoaded" "abendState (comps w' p) \<or> rlists w' = rlists w" by simp_all
qed

text \<open>
  C36: A loaded decoder without tunnels for which there is room (fewer than six on the list, and memory for
  the list) is told to become idle, and that fails after it got its resource: because a semaphore or mutex
  cannot be created or the codec cannot start its threads. Unless the component ended abnormally while it
  waited for buffers, it stays loaded but keeps the place on the list of the resource manager that it got,
  so that every failing attempt takes another place.
\<close>

theorem failed_idle_keeps_place:
  assumes "codec_law E" "untunneled (comps w p)" "\<forall>x. os_malloc E x"
    and "currentState (comps w p) = OMX_StateLoaded" "codecType (comps w p) = HW_VIDEO_DEC_CODEC"
    and "length (gpVideoDecRMComponentList (rlists w)) < 6"
    and "Rockchip_OMX_ComponentStateSet E p OMX_StateIdle w = Some (w', e)" "e \<noteq> OMX_ErrorNone"
    and "\<not> abendState (comps w' p)"
  shows "currentState (comps w' p) = OMX_StateLoaded
    \<and> rlists w' = (rlists w)\<lparr>gpVideoDecRMComponentList := gpVideoDecRMComponentList (rlists w)
        @ [\<lparr>pOMXStandComp = p, groupPriority = nGroupPriority (comps w p)\<rparr>]\<rparr>"
proof -
  define w0 where "w0 = w\<lparr>rlists := (rlists w)\<lparr>gpVideoDecRMComponentList :=
    gpVideoDecRMComponentList (rlists w) @ [\<lparr>pOMXStandComp = p, groupPriority = nGroupPriority (comps w p)\<rparr>]\<rparr>\<rparr>"
  have w0: "comps w0 = comps w" by (simp add: w0_def)
  have g: "get_resource E p w = Some (w0, OMX_ErrorNone)"
    using get_resource_room [OF assms(3,5,6)] by (simp add: w0_def)
  have "loaded_to_idle E p w0 \<noteq> None"
    using assms(4,7) g w0 by (auto simp: Rockchip_OMX_ComponentStateSet_def change_state_def set_idle_def split: if_splits)
  then obtain w1 e1 where l: "loaded_to_idle E p w0 = Some (w1, e1)" by auto
  have "report p OMX_StateIdle (w1, e1) = (w', e)"
    using ComponentStateSet_idle [OF assms(4) g l] assms(4,7) w0 by simp
  then have w': "e1 = e" "comps w' = comps w1" "rlists w' = rlists w1" using reported [of p OMX_StateIdle w1 e1] by auto
  note f = loaded_to_idle_fails [OF assms(1) _ _ l, unfolded w0 w'(1), OF assms(2,4,8)]
  show ?thesis using f assms(9) w' by (simp add: w0_def)
qed

section \<open>Witnesses\<close>

text \<open>Decoders whose codec functions do nothing; the objects in \<open>bad\<close> cannot be created.\<close>

definition sim_codec :: "unit codec_fun" where
  "sim_codec c x = (c, x, OMX_ErrorNone)"

definition sim_omx :: "omx_handle set \<Rightarrow> unit omx_env" where
  "sim_omx bad = \<lparr>os_create = \<lambda>h x. (x, if h \<in> bad then OMX_ErrorInsufficientResources else OMX_ErrorNone),
     os_malloc = \<lambda>_. True, codec_componentInit = sim_codec, codec_componentTerminate = sim_codec,
     BufferProcessCreate = sim_codec, BufferProcessTerminate = sim_codec, AllocateTunnelBuffer = \<lambda>_. sim_codec,
     FreeTunnelBuffer = \<lambda>_. sim_codec, BufferFlush = \<lambda>_ _. sim_codec, ComputeDecBufferCount = sim_codec,
     wait_loaded = \<lambda>_ c x. Some (c, x), wait_unloaded = \<lambda>_ c x. Some (c, x)\<rparr>"

definition sim_decoder :: "OMX_STATETYPE \<Rightarrow> bool \<Rightarrow> ROCKCHIP_OMX_BASECOMPONENT" where
  "sim_decoder s on = \<lparr>currentState = s, transientState = ROCKCHIP_OMX_TransStateInvalid, abendState = False,
     abendSignalled = False, codecType = HW_VIDEO_DEC_CODEC, nGroupPriority = 1, nPorts = 2,
     ports = \<lambda>_. \<lparr>bEnabled = on, bPopulated = False, portState = s, bIsPortFlushed = False, bIsPortDisabled = False,
       tunnelFlags = 0, tunnelBufferNum = 0, bufferQnum = 0, bufferSem = 0, loadedSem = 0, portWayType = WAY2_PORT,
       bufferShare = False, exceptionFlag = GENERAL_STATE, markType = (0, 0)\<rparr>,
     bMultiThreadProcess = False, needFlushOnSeek = False, pCallbacks = True, codec_terminate_set = True,
     handles = {}, leaked = 0, lostMessages = 0, signalled = {}, messageQ = [], msgSemaphore = 0,
     exitMessageThread = False\<rparr>"

definition sim_omx_world :: "OMX_STATETYPE \<Rightarrow> bool \<Rightarrow> unit omx_world" where
  "sim_omx_world s on = \<lparr>comps = \<lambda>_. (let c = sim_decoder s on in
       if live s then c\<lparr>handles := set (all_handles c)\<rparr> else c),
     rlists = no_resources, ext = (), events = []\<rparr>"

lemma sim_omx_laws: "codec_law (sim_omx bad)" "willing (sim_omx {})" "os_ok (sim_omx {})" "no_input_mutex (sim_omx {H_bufferMutex 0})"
  by (auto simp: codec_law_def keeps_def wait_keeps_def willing_def os_ok_def no_input_mutex_def sim_omx_def sim_codec_def)

lemma sim_decoder_untunneled: "untunneled (sim_decoder s on)"
  by (simp add: untunneled_def CHECK_PORT_TUNNELED_def sim_decoder_def)

lemma sim_world_fields:
  "currentState (comps (sim_omx_world s on) p) = s" "leaked (comps (sim_omx_world s on) p) = 0"
  "codecType (comps (sim_omx_world s on) p) = HW_VIDEO_DEC_CODEC" "pCallbacks (comps (sim_omx_world s on) p)"
  "codec_terminate_set (comps (sim_omx_world s on) p)" "\<not> abendState (comps (sim_omx_world s on) p)"
  "\<not> bMultiThreadProcess (comps (sim_omx_world s on) p)" "bEnabled (ports (comps (sim_omx_world s on) p) i) = on"
  "\<not> live s \<Longrightarrow> handles (comps (sim_omx_world s on) p) = {}" "rlists (sim_omx_world s on) = no_resources"
  "untunneled (comps (sim_omx_world s on) p)"
  using sim_decoder_untunneled [of s on] by (simp_all add: sim_omx_world_def sim_decoder_def Let_def untunneled_def)

lemma sim_all_ok: "all_ok (sim_omx_world s on)"
proof -
  have "all_handles (c\<lparr>handles := H\<rparr>) = all_handles c" for c H
    by (simp add: all_handles_def event_handles_def mutex_handles_def)
  moreover have "currentState (sim_decoder s on) = s" "handles (sim_decoder s on) = {}"
    by (simp_all add: sim_decoder_def)
  ultimately have "handles_ok (comps (sim_omx_world s on) p)" for p
    by (simp add: handles_ok_def sim_omx_world_def Let_def)
  then show ?thesis by (simp add: all_ok_def sim_world_fields)
qed

lemma sim_pause:
  "\<exists>w'. Rockchip_OMX_ComponentStateSet (sim_omx {}) 0 OMX_StatePause (sim_omx_world OMX_StateIdle True)
     = Some (w', OMX_ErrorNone) \<and> currentState (comps w' 0) = OMX_StatePause"
  using reported [of 0 OMX_StatePause "set_current OMX_StatePause 0 (sim_omx_world OMX_StateIdle True)" OMX_ErrorNone]
  by (auto simp: Rockchip_OMX_ComponentStateSet_def gives_back_def change_state_def set_pause_def sim_world_fields
      set_current_def upd_comp_def)

theorem Rockchip_OMX_ComponentStateSet_transitions_witness:
  "\<exists>w'. Rockchip_OMX_ComponentStateSet (sim_omx {}) 0 OMX_StatePause (sim_omx_world OMX_StateIdle True)
     = Some (w', OMX_ErrorNone) \<and> currentState (comps w' 0) = OMX_StatePause \<and> allowed OMX_StateIdle OMX_StatePause
     \<and> kept (comps (sim_omx_world OMX_StateIdle True) 1) (comps w' 1)"
proof -
  obtain w' where w': "Rockchip_OMX_ComponentStateSet (sim_omx {}) 0 OMX_StatePause (sim_omx_world OMX_StateIdle True)
     = Some (w', OMX_ErrorNone)" "currentState (comps w' 0) = OMX_StatePause"
    using sim_pause by blast
  then show ?thesis
    using Rockchip_OMX_ComponentStateSet_transitions [OF sim_omx_laws(1) w'(1)]
    by (auto simp: sim_world_fields allowed_def)
qed

theorem omx_handles_invariant_witness:
  "\<exists>w'. (omx_step (sim_omx {}))\<^sup>*\<^sup>* (sim_omx_world OMX_StateIdle True) w' \<and> currentState (comps w' 0) = OMX_StatePause
     \<and> handles (comps w' 0) = set (all_handles (comps w' 0)) \<and> leaked (comps w' 0) = 0"
proof -
  obtain w' where w': "Rockchip_OMX_ComponentStateSet (sim_omx {}) 0 OMX_StatePause (sim_omx_world OMX_StateIdle True)
     = Some (w', OMX_ErrorNone)" "currentState (comps w' 0) = OMX_StatePause"
    using sim_pause by blast
  have "omx_step (sim_omx {}) (sim_omx_world OMX_StateIdle True) w'" by (rule omx_step.set_state [OF w'(1)]) simp
  then have r: "(omx_step (sim_omx {}))\<^sup>*\<^sup>* (sim_omx_world OMX_StateIdle True) w'" by blast
  show ?thesis
    using omx_handles_invariant [OF sim_omx_laws(1,3) r sim_all_ok, of 0] r w'(2) by auto
qed

theorem omx_loaded_idle_loaded_witness:
  "\<exists>w1 w2. Rockchip_OMX_ComponentStateSet (sim_omx {}) 7 OMX_StateIdle (sim_omx_world OMX_StateLoaded True)
       = Some (w1, OMX_ErrorNone)
     \<and> handles (comps w1 7) = set (all_handles (comps w1 7))
     \<and> Rockchip_OMX_ComponentStateSet (sim_omx {}) 7 OMX_StateLoaded w1 = Some (w2, OMX_ErrorNone)
     \<and> handles (comps w2 7) = {} \<and> rlists w2 = no_resources"
  using omx_loaded_idle_loaded [OF sim_omx_laws(2), of "sim_omx_world OMX_StateLoaded True" 7]
  by (auto simp: sim_world_fields live_def no_resources_def)

theorem waiting_component_executes_without_handles_witness:
  "\<exists>w1 w2. Rockchip_OMX_ComponentStateSet (sim_omx {}) 7 OMX_StateIdle (sim_omx_world OMX_StateWaitForResources True)
       = Some (w1, OMX_ErrorNone)
     \<and> Rockchip_OMX_ComponentStateSet (sim_omx {}) 7 OMX_StateExecuting w1 = Some (w2, OMX_ErrorNone)
     \<and> currentState (comps w2 7) = OMX_StateExecuting \<and> handles (comps w2 7) = {}"
proof -
  have "\<forall>c x. snd (snd (codec_componentInit (sim_omx {}) c x)) = OMX_ErrorNone"
    by (simp add: sim_omx_def sim_codec_def)
  from waiting_component_executes_without_handles [OF sim_omx_laws(1) this, of "sim_omx_world OMX_StateWaitForResources True" 7]
  show ?thesis by (auto simp: sim_world_fields live_def)
qed

text \<open>A decoder of the kind the codec components make, with two threads.\<close>

definition sim_threads :: "unit omx_world" where
  "sim_threads = upd_comp 7 (\<lambda>c. c\<lparr>bMultiThreadProcess := True\<rparr>) (sim_omx_world OMX_StateLoaded True)"

lemma sim_threads_run:
  "\<exists>w' e. Rockchip_OMX_ComponentStateSet (sim_omx {H_portMutex 1}) 7 OMX_StateIdle sim_threads = Some (w', e)
     \<and> e \<noteq> OMX_ErrorNone \<and> \<not> abendState (comps w' 7)"
  by (simp add: Rockchip_OMX_ComponentStateSet_def change_state_def set_idle_def loaded_to_idle_def get_resource_room
      report_def sim_threads_def upd_comp_def sim_omx_world_def sim_decoder_def live_def no_resources_def sim_omx_def
      wait_call_def CHECK_PORT_TUNNELED_def upd_port_def upt_rec idle_handles_def create_events_def event_handles_def
      create_handle_def sem_handles_def mutex_handles_def new_handle_def ALL_PORT_NUM_def Let_def)

theorem failed_idle_keeps_place_witness:
  "\<exists>w' e. Rockchip_OMX_ComponentStateSet (sim_omx {H_portMutex 1}) 7 OMX_StateIdle sim_threads = Some (w', e)
     \<and> e \<noteq> OMX_ErrorNone \<and> currentState (comps w' 7) = OMX_StateLoaded
     \<and> map pOMXStandComp (gpVideoDecRMComponentList (rlists w')) = [7]"
proof -
  have f: "untunneled (comps sim_threads 7)" "currentState (comps sim_threads 7) = OMX_StateLoaded"
    "codecType (comps sim_threads 7) = HW_VIDEO_DEC_CODEC" "rlists sim_threads = no_resources"
    using sim_world_fields(11) [of OMX_StateLoaded True 7]
    by (simp_all add: sim_threads_def upd_comp_def sim_world_fields untunneled_def)
  have m: "\<forall>x. os_malloc (sim_omx {H_portMutex 1}) x" by (simp add: sim_omx_def)
  obtain w' e where w': "Rockchip_OMX_ComponentStateSet (sim_omx {H_portMutex 1}) 7 OMX_StateIdle sim_threads = Some (w', e)"
    "e \<noteq> OMX_ErrorNone" "\<not> abendState (comps w' 7)" using sim_threads_run by blast
  show ?thesis
    using failed_idle_keeps_place [OF sim_omx_laws(1) f(1) m f(2,3) _ w'(1,2)] w' f(4) by (auto simp: no_resources_def)
qed

theorem failed_idle_leaks_witness:
  "\<exists>w1 w2. Rockchip_OMX_ComponentStateSet (sim_omx {H_bufferMutex 0}) 7 OMX_StateIdle (sim_omx_world OMX_StateLoaded False)
       = Some (w1, OMX_ErrorInsufficientResources)
     \<and> Rockchip_OMX_ComponentStateSet (sim_omx {H_bufferMutex 0}) 7 OMX_StateIdle w1
       = Some (w2, OMX_ErrorInsufficientResources) \<and> leaked (comps w2 7) = 3
     \<and> map pOMXStandComp (gpVideoDecRMComponentList (rlists w2)) = [7, 7]"
  using failed_idle_leaks [OF sim_omx_laws(4), of "sim_omx_world OMX_StateLoaded False" 7]
  by (auto simp: sim_world_fields live_def no_resources_def)

end
