(* ===== verification/Vendor_Format.thy ===== *)
theory Vendor_Format
  imports Prelude
begin

text \<open>
  The vendor storage of the eMMC, \<open>drivers/rockchip/sdmmc_vendor_storage.c\<close>: the block of 64 KiB that
  is kept in memory and written to one of four places of the card, as a structure and as bytes, and the
  transfer of its sectors.
\<close>

section \<open>The block\<close>

definition EMMC_VENDOR_PART_START :: nat where "EMMC_VENDOR_PART_START = 1024 * 7"
definition EMMC_VENDOR_PART_SIZE :: nat where "EMMC_VENDOR_PART_SIZE = 128"
definition EMMC_VENDOR_PART_NUM :: nat where "EMMC_VENDOR_PART_NUM = 4"
definition EMMC_VENDOR_TAG :: u32 where "EMMC_VENDOR_TAG = 0x524B5644"

definition VENDOR_ITEMS :: nat where "VENDOR_ITEMS = 126"
definition VENDOR_DATA :: nat where "VENDOR_DATA = EMMC_VENDOR_PART_SIZE * 0x200 - 0x400 - 0x8"

record vendor_item =
  item_id :: u16
  item_offset :: u16
  item_size :: u16
  item_flag :: u16

record vendor_info =
  vendor_tag :: u32
  version :: u32
  next_index :: u16
  item_num :: u16
  free_offset :: u16
  free_size :: u16
  item :: "vendor_item list"
  vendor_data :: "u8 list"
  vendor_hash :: u32
  version2 :: u32

text \<open>The memory of the structure, least significant bytes first and without gaps.\<close>

definition bytes16 :: "u16 \<Rightarrow> u8 list" where
  "bytes16 x = [ucast x, ucast (drop_bit 8 x)]"

definition bytes32 :: "u32 \<Rightarrow> u8 list" where
  "bytes32 x = [ucast x, ucast (drop_bit 8 x), ucast (drop_bit 16 x), ucast (drop_bit 24 x)]"

definition word16 :: "u8 list \<Rightarrow> u16" where
  "word16 bs = ucast (bs ! 0) OR push_bit 8 (ucast (bs ! 1))"

definition word32 :: "u8 list \<Rightarrow> u32" where
  "word32 bs = ucast (bs ! 0) OR push_bit 8 (ucast (bs ! 1)) OR push_bit 16 (ucast (bs ! 2)) OR push_bit 24 (ucast (bs ! 3))"

definition item_bytes :: "vendor_item \<Rightarrow> u8 list" where
  "item_bytes it = bytes16 (item_id it) @ bytes16 (item_offset it) @ bytes16 (item_size it) @ bytes16 (item_flag it)"

definition item_at :: "u8 list \<Rightarrow> vendor_item" where
  "item_at bs = \<lparr>item_id = word16 bs, item_offset = word16 (drop 2 bs), item_size = word16 (drop 4 bs),
     item_flag = word16 (drop 6 bs)\<rparr>"

definition info_bytes :: "vendor_info \<Rightarrow> u8 list" where
  "info_bytes v = bytes32 (vendor_tag v) @ bytes32 (version v) @ bytes16 (next_index v) @ bytes16 (item_num v)
     @ bytes16 (free_offset v) @ bytes16 (free_size v) @ concat (map item_bytes (item v)) @ vendor_data v
     @ bytes32 (vendor_hash v) @ bytes32 (version2 v)"

definition info_at :: "u8 list \<Rightarrow> vendor_info" where
  "info_at bs = \<lparr>vendor_tag = word32 bs, version = word32 (drop 4 bs), next_index = word16 (drop 8 bs),
     item_num = word16 (drop 10 bs), free_offset = word16 (drop 12 bs), free_size = word16 (drop 14 bs),
     item = map (\<lambda>i. item_at (drop (16 + 8 * i) bs)) [0..<VENDOR_ITEMS],
     vendor_data = take VENDOR_DATA (drop (16 + 8 * VENDOR_ITEMS) bs),
     vendor_hash = word32 (drop (16 + 8 * VENDOR_ITEMS + VENDOR_DATA) bs),
     version2 = word32 (drop (20 + 8 * VENDOR_ITEMS + VENDOR_DATA) bs)\<rparr>"

text \<open>The fixed sizes of the arrays.\<close>

definition sized :: "vendor_info \<Rightarrow> bool" where
  "sized v \<longleftrightarrow> length (item v) = VENDOR_ITEMS \<and> length (vendor_data v) = VENDOR_DATA"

lemma VENDOR_sizes: "VENDOR_ITEMS = 126" "VENDOR_DATA = 64504"
  by (simp_all add: VENDOR_ITEMS_def VENDOR_DATA_def EMMC_VENDOR_PART_SIZE_def)

lemma word16_bytes16: "word16 (bytes16 x @ bs) = x"
  by (rule bit_word_eqI) (auto simp: word16_def bytes16_def bit_simps)

lemma word32_bytes32: "word32 (bytes32 x @ bs) = x"
proof (rule bit_word_eqI)
  fix n
  assume "n < LENGTH(32)"
  then consider "n < 8" | "8 \<le> n" "n < 16" | "16 \<le> n" "n < 24" | "24 \<le> n" "n < 32" by force
  then show "bit (word32 (bytes32 x @ bs)) n = bit x n"
    by cases (auto simp: word32_def bytes32_def bit_simps)
qed

lemma bytes_length [simp]: "length (bytes16 x) = 2" "length (bytes32 y) = 4" "length (item_bytes it) = 8"
  by (simp_all add: bytes16_def bytes32_def item_bytes_def)

lemma item_at_item_bytes: "item_at (item_bytes it @ bs) = it"
  by (simp add: item_at_def item_bytes_def word16_bytes16)

lemma items_at:
  "map (\<lambda>i. item_at (drop (8 * i) (concat (map item_bytes its) @ bs))) [0..<length its] = its"
proof (induction its)
  case (Cons it its)
  have "map (\<lambda>i. item_at (drop (8 * i) (concat (map item_bytes (it # its)) @ bs))) [0..<length (it # its)]
      = item_at (item_bytes it @ concat (map item_bytes its) @ bs)
        # map (\<lambda>i. item_at (drop (8 * i) (concat (map item_bytes its) @ bs))) [0..<length its]"
    by (simp add: upt_conv_Cons map_Suc_upt [symmetric] del: upt_Suc)
  then show ?case using Cons by (simp add: item_at_item_bytes)
qed simp

lemma items_length: "length (concat (map item_bytes its)) = 8 * length its"
  by (induction its) simp_all

lemma info_bytes_length: "sized v \<Longrightarrow> length (info_bytes v) = 65536"
  by (simp add: info_bytes_def sized_def items_length VENDOR_sizes)

text \<open>the structure is what is read back from its bytes.\<close>

theorem info_at_info_bytes: "sized v \<Longrightarrow> info_at (info_bytes v) = v"
proof -
  assume s: "sized v"
  define front where "front = bytes32 (vendor_tag v) @ bytes32 (version v) @ bytes16 (next_index v)
    @ bytes16 (item_num v) @ bytes16 (free_offset v) @ bytes16 (free_size v)"
  define rear where "rear = vendor_data v @ bytes32 (vendor_hash v) @ bytes32 (version2 v)"
  have f: "length front = 16" by (simp add: front_def)
  have b: "info_bytes v = front @ concat (map item_bytes (item v)) @ rear"
    by (simp add: info_bytes_def front_def rear_def)
  have items: "map (\<lambda>i. item_at (drop (16 + 8 * i) (info_bytes v))) [0..<VENDOR_ITEMS] = item v"
    using items_at [of "item v" rear] s by (simp add: b f sized_def)
  have rest: "drop (16 + 8 * VENDOR_ITEMS + k) (info_bytes v) = drop k rear" for k
    using s by (simp add: b f items_length sized_def)
  have "take VENDOR_DATA rear = vendor_data v" "word32 (drop VENDOR_DATA rear) = vendor_hash v"
    "word32 (drop (4 + VENDOR_DATA) rear) = version2 v"
    using s word32_bytes32 [of "version2 v" "[]"] by (simp_all add: rear_def sized_def word32_bytes32)
  moreover have "word32 (info_bytes v) = vendor_tag v" "word32 (drop 4 (info_bytes v)) = version v"
    "word16 (drop 8 (info_bytes v)) = next_index v" "word16 (drop 10 (info_bytes v)) = item_num v"
    "word16 (drop 12 (info_bytes v)) = free_offset v" "word16 (drop 14 (info_bytes v)) = free_size v"
    by (simp_all add: info_bytes_def word32_bytes32 word16_bytes16)
  ultimately show ?thesis
    using items rest [of 0] rest [of VENDOR_DATA] rest [of "4 + VENDOR_DATA"]
    by (simp add: info_at_def add.assoc add.commute add.left_commute)
qed

section \<open>Sectors\<close>

text \<open>
  A sector of the block in memory. \<open>transfer_read addr old e\<close> gives what the buffer holds after reading
  sector \<open>addr\<close> into it, and whether that went well; a sector that is written is the given one.
\<close>

definition sector :: "nat \<Rightarrow> u8 list \<Rightarrow> u8 list" where
  "sector k bs = take 0x200 (drop (0x200 * k) bs)"

definition put_sector :: "nat \<Rightarrow> u8 list \<Rightarrow> u8 list \<Rightarrow> u8 list" where
  "put_sector k s bs = take (0x200 * k) bs @ s @ drop (0x200 * k + 0x200) bs"

record 'e emmc_port =
  transfer_read :: "nat \<Rightarrow> u8 list \<Rightarrow> 'e \<Rightarrow> 'e \<times> u8 list \<times> bool"
  transfer_write :: "nat \<Rightarrow> u8 list \<Rightarrow> 'e \<Rightarrow> 'e \<times> bool"

definition transfer_sector :: "'e emmc_port \<Rightarrow> bool \<Rightarrow> nat \<Rightarrow> nat \<Rightarrow> u8 list \<Rightarrow> 'e \<Rightarrow> 'e \<times> u8 list \<times> bool" where
  "transfer_sector P wr k addr buf e =
     (if wr then (let (e1, ok) = transfer_write P addr (sector k buf) e in (e1, buf, ok))
      else (let (e1, s, ok) = transfer_read P addr (sector k buf) e in (e1, put_sector k s buf, ok)))"

text \<open>The result is that of the last sector.\<close>

fun emmc_vendor_ops_from :: "'e emmc_port \<Rightarrow> bool \<Rightarrow> nat \<Rightarrow> nat list \<Rightarrow> bool \<Rightarrow> u8 list \<Rightarrow> 'e \<Rightarrow> 'e \<times> u8 list \<times> bool" where
  "emmc_vendor_ops_from P wr addr [] ok buf e = (e, buf, ok)"
| "emmc_vendor_ops_from P wr addr (i # is) ok buf e =
     (let (e1, buf1, ok1) = transfer_sector P wr i (addr + i) buf e
      in emmc_vendor_ops_from P wr addr is ok1 buf1 e1)"

definition emmc_vendor_ops :: "'e emmc_port \<Rightarrow> u8 list \<Rightarrow> nat \<Rightarrow> nat \<Rightarrow> bool \<Rightarrow> 'e \<Rightarrow> 'e \<times> u8 list \<times> bool" where
  "emmc_vendor_ops P buf addr n_sec wr e = emmc_vendor_ops_from P wr addr [0..<n_sec] True buf e"

section \<open>Finding the block\<close>

text \<open>
  The scan of the four places: of each the first and the last sector are read, and the first place with
  the highest version whose two copies agree is kept. Version 0 stands for none.
\<close>

fun scan_places :: "'e emmc_port \<Rightarrow> nat list \<Rightarrow> u32 \<Rightarrow> nat \<Rightarrow> u8 list \<Rightarrow> 'e \<Rightarrow> 'e \<times> u8 list \<times> (u32 \<times> nat) option" where
  "scan_places P [] max_ver max_index buf e = (e, buf, Some (max_ver, max_index))"
| "scan_places P (i # is) max_ver max_index buf e =
     (let (e1, buf1, ok1) = transfer_sector P False 0 (EMMC_VENDOR_PART_START + EMMC_VENDOR_PART_SIZE * i) buf e in
      if \<not> ok1 then (e1, buf1, None)
      else
        let (e2, buf2, ok2) = transfer_sector P False (EMMC_VENDOR_PART_SIZE - 1)
              (EMMC_VENDOR_PART_START + EMMC_VENDOR_PART_SIZE * (i + 1) - 1) buf1 e1;
            v = info_at buf2
        in if \<not> ok2 then (e2, buf2, None)
           else if vendor_tag v = EMMC_VENDOR_TAG \<and> version2 v = version v \<and> max_ver < version v
           then scan_places P is (version v) i buf2 e2
           else scan_places P is max_ver max_index buf2 e2)"

definition blank_item :: vendor_item where
  "blank_item = \<lparr>item_id = 0, item_offset = 0, item_size = 0, item_flag = 0\<rparr>"

definition blank_info :: vendor_info where
  "blank_info = \<lparr>vendor_tag = EMMC_VENDOR_TAG, version = 1, next_index = 0, item_num = 0, free_offset = 0,
     free_size = of_nat VENDOR_DATA, item = replicate VENDOR_ITEMS blank_item, vendor_data = replicate VENDOR_DATA 0,
     vendor_hash = 0, version2 = 1\<rparr>"

definition emmc_vendor_storage_init :: "'e emmc_port \<Rightarrow> u8 list \<Rightarrow> 'e \<Rightarrow> 'e \<times> vendor_info option" where
  "emmc_vendor_storage_init P buf e =
     (case scan_places P [0..<EMMC_VENDOR_PART_NUM] 0 0 buf e of
        (e1, buf1, None) \<Rightarrow> (e1, None)
      | (e1, buf1, Some (max_ver, max_index)) \<Rightarrow>
          if max_ver \<noteq> 0 then
            let (e2, buf2, ok) = emmc_vendor_ops P buf1 (EMMC_VENDOR_PART_START + EMMC_VENDOR_PART_SIZE * max_index)
                  EMMC_VENDOR_PART_SIZE False e1
            in (e2, if ok then Some (info_at buf2) else None)
          else (e1, Some blank_info))"

end
