(* ===== verification/Vendor_Storage.thy ===== *)
theory Vendor_Storage
  imports Vendor_Format
begin

text \<open>
  Reading and writing the items of the vendor storage, \<open>drivers/rockchip/sdmmc_vendor_storage.c\<close>, and the
  registration of the storage, \<open>rk_vendor_storage.c\<close>. A function that uses an item or data outside the
  arrays of the structure, or that copies a region onto one that overlaps it, gives \<open>None\<close>.
\<close>

section \<open>Operations\<close>

text \<open>\<open>ALIGN(size, 0x40)\<close>.\<close>

definition align64 :: "u32 \<Rightarrow> u32" where
  "align64 x = (x + 0x3f) AND NOT 0x3f"

text \<open>The first item among the given ones with the identifier.\<close>

fun find_item :: "vendor_info \<Rightarrow> u32 \<Rightarrow> nat list \<Rightarrow> nat option option" where
  "find_item v i [] = Some None"
| "find_item v i (k # ks) =
     (if length (item v) \<le> k then None
      else if ucast (item_id (item v ! k)) = i then Some (Some k) else find_item v i ks)"

text \<open>The result and the bytes that were copied.\<close>

definition emmc_vendor_read :: "vendor_info option \<Rightarrow> u32 \<Rightarrow> u32 \<Rightarrow> (int \<times> u8 list) option" where
  "emmc_vendor_read g i sz =
     (case g of
        None \<Rightarrow> Some (- 12, [])
      | Some v \<Rightarrow>
          Option.bind (find_item v i [0..<unat (item_num v)]) (\<lambda>k. case k of
              None \<Rightarrow> Some (- 1, [])
            | Some k \<Rightarrow>
                let it = item v ! k; off = unat (item_offset it);
                    n = unat (if sz > ucast (item_size it) then ucast (item_size it) else sz)
                in if off + n \<le> length (vendor_data v) then Some (int n, take n (drop off (vendor_data v))) else None))"

definition put_data :: "nat \<Rightarrow> u8 list \<Rightarrow> vendor_info \<Rightarrow> vendor_info option" where
  "put_data off bs v =
     (if off + length bs \<le> length (vendor_data v)
      then Some (v\<lparr>vendor_data := take off (vendor_data v) @ bs @ drop (off + length bs) (vendor_data v)\<rparr>) else None)"

text \<open>\<open>memcpy\<close> inside the data. As in the C standard its regions may not overlap.\<close>

definition copy_data :: "nat \<Rightarrow> nat \<Rightarrow> nat \<Rightarrow> vendor_info \<Rightarrow> vendor_info option" where
  "copy_data dst src n v =
     (if src + n \<le> length (vendor_data v) \<and> (n = 0 \<or> dst + n \<le> src \<or> src + n \<le> dst)
      then put_data dst (take n (drop src (vendor_data v))) v else None)"

text \<open>The items after a removed one move up, and their data to \<open>offset\<close> and on.\<close>

fun move_items :: "nat list \<Rightarrow> u32 \<Rightarrow> vendor_info \<Rightarrow> (vendor_info \<times> u32) option" where
  "move_items [] offset v = Some (v, offset)"
| "move_items (j # js) offset v =
     (if length (item v) \<le> j + 1 then None
      else
        let next = item v ! (j + 1); next_size = align64 (ucast (item_size next));
            v1 = v\<lparr>item := (item v)[j := (item v ! j)\<lparr>item_id := item_id next, item_size := item_size next,
                   item_offset := ucast offset\<rparr>]\<rparr>
        in Option.bind (copy_data (unat offset) (unat (item_offset next)) (unat next_size) v1)
             (move_items js (offset + next_size)))"

text \<open>What is written goes to the next of the four places; whether that went well is not checked.\<close>

definition commit :: "'e emmc_port \<Rightarrow> vendor_info \<Rightarrow> 'e \<Rightarrow> vendor_info \<times> 'e" where
  "commit P v e =
     (let place = unat (next_index v);
          n = next_index v + 1;
          v1 = v\<lparr>version := version v + 1, version2 := version v + 1,
                 next_index := (if n \<ge> of_nat EMMC_VENDOR_PART_NUM then 0 else n)\<rparr>;
          (e1, _) = emmc_vendor_ops P (info_bytes v1)
            (EMMC_VENDOR_PART_START + EMMC_VENDOR_PART_SIZE * place) EMMC_VENDOR_PART_SIZE True e
      in (v1, e1))"

definition rewrite_item :: "'e emmc_port \<Rightarrow> nat \<Rightarrow> u32 \<Rightarrow> u8 list \<Rightarrow> u32 \<Rightarrow> vendor_info \<Rightarrow> (vendor_info \<times> bool) option" where
  "rewrite_item P k i buf sz v =
     (let it = item v ! k; alloc_size = align64 (ucast (item_size it)) in
      if sz > alloc_size then
        if ucast (free_size v) < align64 sz then Some (v, False)
        else
          Option.bind (move_items [k..<unat (item_num v) - 1] (ucast (item_offset it)) v)
            (\<lambda>(v1, offset).
              let j = unat (item_num v) - 1;
                  v2 = v1\<lparr>item := (item v1)[j := (item v1 ! j)\<lparr>item_id := ucast i, item_offset := ucast offset,
                         item_size := ucast sz\<rparr>]\<rparr>
              in map_option (\<lambda>v3. (v3\<lparr>free_offset := ucast (offset + align64 sz),
                       free_size := free_size v3 - ucast (align64 sz - alloc_size)\<rparr>, True))
                   (put_data (unat (item_offset (item v2 ! j))) buf v2))
      else map_option (\<lambda>v1. (v1\<lparr>item := (item v1)[k := (item v1 ! k)\<lparr>item_size := ucast sz\<rparr>]\<rparr>, True))
             (put_data (unat (item_offset it)) buf v))"

definition append_item :: "u32 \<Rightarrow> u8 list \<Rightarrow> u32 \<Rightarrow> vendor_info \<Rightarrow> vendor_info option" where
  "append_item i buf sz v =
     (let k = unat (item_num v) in
      if length (item v) \<le> k then None
      else
        let v1 = v\<lparr>item := (item v)[k := (item v ! k)\<lparr>item_id := ucast i, item_offset := free_offset v,
                     item_size := ucast sz\<rparr>],
                   free_offset := free_offset v + ucast (align64 sz), free_size := free_size v - ucast (align64 sz)\<rparr>
        in map_option (\<lambda>v2. v2\<lparr>item_num := item_num v2 + 1\<rparr>) (put_data (unat (free_offset v)) buf v1))"

text \<open>\<open>buf\<close> are the \<open>sz\<close> bytes of the caller.\<close>

definition emmc_vendor_write ::
  "'e emmc_port \<Rightarrow> vendor_info option \<Rightarrow> u32 \<Rightarrow> u8 list \<Rightarrow> u32 \<Rightarrow> 'e \<Rightarrow> (vendor_info option \<times> 'e \<times> int) option" where
  "emmc_vendor_write P g i buf sz e =
     (case g of
        None \<Rightarrow> Some (None, e, - 12)
      | Some v \<Rightarrow>
          Option.bind (find_item v i [0..<unat (item_num v)]) (\<lambda>k. case k of
              Some k \<Rightarrow>
                map_option (\<lambda>(v1, ok). if ok then (let (v2, e1) = commit P v1 e in (Some v2, e1, 0)) else (Some v1, e, - 1))
                  (rewrite_item P k i buf sz v)
            | None \<Rightarrow>
                if ucast (free_size v) \<ge> align64 sz
                then map_option (\<lambda>v1. let (v2, e1) = commit P v1 e in (Some v2, e1, 0)) (append_item i buf sz v)
                else Some (Some v, e, - 1)))"

end
