(* ===== verification/Vendor_Layout.thy ===== *)
theory Vendor_Layout
  imports Vendor_Storage
begin

text \<open>
  How the items of the vendor storage are laid out in its data, what the storage holds as a map from
  identifiers to byte strings, and what moving items up does to both.
\<close>

section \<open>Alignment\<close>

definition up64 :: "nat \<Rightarrow> nat" where
  "up64 n = 64 * ((n + 63) div 64)"

lemma and_not_mask6: "unat (x AND NOT (mask 6 :: u32)) = 64 * (unat x div 64)"
proof -
  have "x AND NOT (mask 6) = push_bit 6 (drop_bit 6 x)"
    by (rule bit_word_eqI) (auto simp: bit_simps)
  moreover have "unat (drop_bit 6 x) = unat x div 64" by (simp only: unat_drop_bit_eq) (simp add: drop_bit_eq_div)
  moreover have "64 * (unat x div 64) < 2 ^ 32"
    by (rule le_less_trans [OF times_div_less_eq_dividend]) (use unsigned_less [of x] in simp)
  ultimately show ?thesis by (simp add: push_bit_eq_mult unat_word_ariths)
qed

lemma unat_align64: "unat x \<le> 2 ^ 32 - 64 \<Longrightarrow> unat (align64 x) = up64 (unat x)"
proof -
  assume x: "unat x \<le> 2 ^ 32 - 64"
  have "(0x3f :: u32) = mask 6" by (simp add: mask_eq_exp_minus_1)
  then have "align64 x = (x + 0x3f) AND NOT (mask 6)" by (simp only: align64_def)
  then show ?thesis using x by (simp add: and_not_mask6 up64_def unat_word_ariths)
qed

lemma up64_ge: "n \<le> up64 n"
  by (simp add: up64_def) 

lemma up64_mono: "m \<le> n \<Longrightarrow> up64 m \<le> up64 n"
  by (simp add: up64_def div_le_mono)

lemma up64_less: "up64 n < n + 64"
  by (simp add: up64_def)

lemma unat_align64_item: "unat (align64 (ucast (s :: u16))) = up64 (unat s)"
proof -
  have "unat s < 65536" using unsigned_less [of s] by simp
  then show ?thesis by (simp add: unat_align64 unsigned_ucast_eq take_bit_nat_eq_self)
qed

section \<open>Layout\<close>

text \<open>
  The data of the items follow each other from \<open>off\<close> to \<open>stop\<close>; an item that was written again with fewer
  bytes leaves a gap.
\<close>

definition extent :: "vendor_item \<Rightarrow> nat" where
  "extent it = up64 (unat (item_size it))"

fun laid :: "nat \<Rightarrow> vendor_item list \<Rightarrow> nat \<Rightarrow> bool" where
  "laid off [] stop \<longleftrightarrow> off \<le> stop"
| "laid off (it # its) stop \<longleftrightarrow> off \<le> unat (item_offset it) \<and> laid (unat (item_offset it) + extent it) its stop"

definition content :: "u8 list \<Rightarrow> vendor_item \<Rightarrow> u8 list" where
  "content d it = take (unat (item_size it)) (drop (unat (item_offset it)) d)"

definition used_items :: "vendor_info \<Rightarrow> vendor_item list" where
  "used_items v = take (unat (item_num v)) (item v)"

definition stored :: "vendor_info \<Rightarrow> u16 \<Rightarrow> u8 list option" where
  "stored v = map_of (map (\<lambda>it. (item_id it, content (vendor_data v) it)) (used_items v))"

definition wf_vendor :: "vendor_info \<Rightarrow> bool" where
  "wf_vendor v \<longleftrightarrow> sized v \<and> unat (item_num v) \<le> VENDOR_ITEMS \<and> unat (next_index v) < EMMC_VENDOR_PART_NUM
     \<and> vendor_tag v = EMMC_VENDOR_TAG \<and> version2 v = version v
     \<and> laid 0 (used_items v) (unat (free_offset v))
     \<and> unat (free_offset v) + unat (free_size v) \<le> VENDOR_DATA
     \<and> distinct (map item_id (used_items v))"

lemma extent_ge: "unat (item_size it) \<le> extent it"
  by (simp add: extent_def up64_ge)

lemma laid_le: "laid off xs stop \<Longrightarrow> off \<le> stop"
  by (induction xs arbitrary: off) fastforce+

lemma laid_append: "laid off (xs @ ys) stop \<longleftrightarrow> (\<exists>m. laid off xs m \<and> laid m ys stop)"
proof (induction xs arbitrary: off)
  case Nil
  have "laid m ys stop \<Longrightarrow> off \<le> m \<Longrightarrow> laid off ys stop" for m by (cases ys) auto
  then show ?case by auto
qed auto

lemma laid_bounds:
  "laid off xs stop \<Longrightarrow> x \<in> set xs \<Longrightarrow> off \<le> unat (item_offset x) \<and> unat (item_offset x) + extent x \<le> stop"
proof (induction xs arbitrary: off)
  case (Cons y ys)
  then show ?case using laid_le [of "unat (item_offset y) + extent y" ys stop] by fastforce
qed simp

lemma laid_weaken: "laid off xs stop \<Longrightarrow> off' \<le> off \<Longrightarrow> stop \<le> stop' \<Longrightarrow> laid off' xs stop'"
  by (induction xs arbitrary: off off') auto

lemma content_put:
  assumes "off + length bs \<le> length d"
    "unat (item_offset x) + unat (item_size x) \<le> off \<or> off + length bs \<le> unat (item_offset x)"
  shows "content (take off d @ bs @ drop (off + length bs) d) x = content d x"
  using assms(2)
proof
  assume "unat (item_offset x) + unat (item_size x) \<le> off"
  then show ?thesis using assms(1) by (simp add: content_def min_def take_drop)
next
  assume "off + length bs \<le> unat (item_offset x)"
  then have "unat (item_offset x) = (off + length bs) + (unat (item_offset x) - (off + length bs))" by simp
  then obtain k where k: "unat (item_offset x) = off + length bs + k" by blast
  show ?thesis using assms(1) by (simp add: content_def k min_def add.commute)
qed

lemma content_take:
  "unat (item_offset x) + unat (item_size x) \<le> n \<Longrightarrow> take n d' = take n d \<Longrightarrow> content d' x = content d x"
proof -
  assume n: "unat (item_offset x) + unat (item_size x) \<le> n" and t: "take n d' = take n d"
  have "content d x = drop (unat (item_offset x)) (take (unat (item_offset x) + unat (item_size x)) (take n d))" for d
    using n by (simp add: content_def take_drop min_def add.commute)
  from this [of d] this [of d'] show ?thesis by (simp only: t)
qed

lemma content_length:
  "unat (item_offset x) + extent x \<le> length d \<Longrightarrow> length (content d x) = unat (item_size x)"
  using extent_ge [of x] by (simp add: content_def)

section \<open>Moving items\<close>

text \<open>
  The items from \<open>off\<close> on move up, each onto bytes it does not hold itself: the one in front of them leaves
  as much space as the largest of them takes.
\<close>

fun moves_apart :: "nat \<Rightarrow> vendor_item list \<Rightarrow> bool" where
  "moves_apart off [] \<longleftrightarrow> True"
| "moves_apart off (it # its) \<longleftrightarrow> off + extent it \<le> unat (item_offset it) \<and> moves_apart (off + extent it) its"

lemma copy_data_apart:
  assumes "src + n \<le> length (vendor_data v)" "dst + n \<le> src"
  shows "copy_data dst src n v = Some (v\<lparr>vendor_data := take dst (vendor_data v)
     @ take n (drop src (vendor_data v)) @ drop (dst + n) (vendor_data v)\<rparr>)"
  using assms by (simp add: copy_data_def put_data_def)

lemma copy_data_overlap: "dst \<le> src \<Longrightarrow> src < dst + n \<Longrightarrow> copy_data dst src n v = None"
  by (simp add: copy_data_def)

text \<open>One step: the item behind takes the place of the one in front.\<close>

abbreviation moved_up :: "u32 \<Rightarrow> vendor_item \<Rightarrow> vendor_item \<Rightarrow> vendor_item" where
  "moved_up offset x b \<equiv> x\<lparr>item_id := item_id b, item_size := item_size b, item_offset := ucast offset\<rparr>"

abbreviation moved_data :: "nat \<Rightarrow> vendor_item \<Rightarrow> u8 list \<Rightarrow> u8 list" where
  "moved_data p b d \<equiv> take p d @ take (extent b) (drop (unat (item_offset b)) d) @ drop (p + extent b) d"

lemma move_items_step:
  assumes "item v = A @ x # (b # B) @ C" "unat (item_offset b) + extent b \<le> length (vendor_data v)"
    "unat offset + extent b \<le> unat (item_offset b)"
  shows "move_items [length A..<length A + length (b # B)] offset v
      = move_items [length (A @ [moved_up offset x b])..<length (A @ [moved_up offset x b]) + length B]
          (offset + align64 (ucast (item_size b)))
          (v\<lparr>item := (A @ [moved_up offset x b]) @ b # B @ C, vendor_data := moved_data (unat offset) b (vendor_data v)\<rparr>)"
proof -
  have "[length A..<length A + length (b # B)] = length A # [Suc (length A)..<Suc (length A) + length B]"
    by (simp add: upt_rec)
  moreover have "(item v)[length A := moved_up offset x b] = (A @ [moved_up offset x b]) @ b # B @ C" using assms(1) by simp
  ultimately show ?thesis
    using assms copy_data_apart [of "unat (item_offset b)" "extent b"
        "v\<lparr>item := (A @ [moved_up offset x b]) @ b # B @ C\<rparr>" "unat offset"]
    by (simp add: unat_align64_item extent_def Let_def nth_append)
qed

lemma move_items_step_overlap:
  assumes "item v = A @ x # (b # B) @ C" "unat offset \<le> unat (item_offset b)"
    "unat (item_offset b) < unat offset + extent b"
  shows "move_items [length A..<length A + length (b # B)] offset v = None"
proof -
  have "[length A..<length A + length (b # B)] = length A # [Suc (length A)..<Suc (length A) + length B]"
    by (simp add: upt_rec)
  moreover have "(item v)[length A := moved_up offset x b] = (A @ [moved_up offset x b]) @ b # B @ C" using assms(1) by simp
  ultimately show ?thesis
    using assms copy_data_overlap [of "unat offset" "unat (item_offset b)" "extent b"
        "v\<lparr>item := (A @ [moved_up offset x b]) @ b # B @ C\<rparr>"]
    by (simp add: unat_align64_item extent_def Let_def nth_append)
qed

lemma move_items_spec:
  assumes "item v = A @ x # B @ C" "laid q B stop" "unat offset \<le> q" "stop \<le> length (vendor_data v)"
    "length (vendor_data v) < 2 ^ 16" "moves_apart (unat offset) B"
  shows "\<exists>its l D offset'. move_items [length A..<length A + length B] offset v
      = Some (v\<lparr>item := A @ its @ l # C, vendor_data := D\<rparr>, offset')
    \<and> map item_id its = map item_id B \<and> map item_size its = map item_size B
    \<and> laid (unat offset) its (unat offset') \<and> unat offset' + q \<le> stop + unat offset
    \<and> map (content D) its = map (content (vendor_data v)) B
    \<and> take (unat offset) D = take (unat offset) (vendor_data v) \<and> length D = length (vendor_data v)"
  using assms
proof (induction B arbitrary: A x v offset q)
  case Nil
  have "v\<lparr>item := A @ [] @ x # C, vendor_data := vendor_data v\<rparr> = v" using Nil(1) by simp
  moreover have "q \<le> stop" using Nil(2) by simp
  ultimately show ?case
    by (intro exI [of _ "[]"] exI [of _ x] exI [of _ "vendor_data v"] exI [of _ offset]) simp
next
  case (Cons b B)
  let ?d = "vendor_data v" and ?p = "unat offset" and ?src = "unat (item_offset b)" and ?n = "extent b"
  let ?d1 = "take ?p ?d @ take ?n (drop ?src ?d) @ drop (?p + ?n) ?d"
  let ?y = "x\<lparr>item_id := item_id b, item_size := item_size b, item_offset := ucast offset\<rparr>"
  let ?v2 = "v\<lparr>item := (A @ [?y]) @ b # B @ C, vendor_data := ?d1\<rparr>"
  have lb: "laid (?src + ?n) B stop" and q: "q \<le> ?src" using Cons.prems(2) by simp_all
  have fin: "?src + ?n \<le> stop" using laid_le [OF lb] .
  have n: "unat (align64 (ucast (item_size b))) = ?n" by (simp add: unat_align64_item extent_def)
  have pn: "unat (offset + align64 (ucast (item_size b))) = ?p + ?n"
    using fin q Cons.prems(3-5) by (simp add: unat_word_ariths n)
  have off: "unat (ucast offset :: u16) = ?p"
    using fin q Cons.prems(3-5) by (simp add: unsigned_ucast_eq take_bit_nat_eq_self)
  have len: "length ?d1 = length ?d" using fin q Cons.prems(3,4) by simp
  have "?p + ?n \<le> ?src" using Cons.prems(6) by simp
  note step = move_items_step [OF Cons.prems(1) order.trans [OF fin Cons.prems(4)] this]
  obtain its l D offset' where IH: "move_items [length (A @ [?y])..<length (A @ [?y]) + length B]
        (offset + align64 (ucast (item_size b))) ?v2 = Some (?v2\<lparr>item := (A @ [?y]) @ its @ l # C, vendor_data := D\<rparr>, offset')"
      "map item_id its = map item_id B" "map item_size its = map item_size B"
      "laid (?p + ?n) its (unat offset')" "unat offset' + (?src + ?n) \<le> stop + (?p + ?n)"
      "map (content D) its = map (content ?d1) B" "take (?p + ?n) D = take (?p + ?n) ?d1" "length D = length ?d1"
    using Cons.IH [of ?v2 "A @ [?y]" b "?src + ?n" "offset + align64 (ucast (item_size b))"]
      lb q Cons.prems(3-6) fin len by (auto simp: pn)
  have rest: "content ?d1 z = content ?d z" if "z \<in> set B" for z
    using laid_bounds [OF lb that] content_put [of ?p "take ?n (drop ?src ?d)" ?d z] fin q Cons.prems(3,4) by simp
  have here: "content D ?y = content ?d b"
  proof -
    have "content D ?y = content ?d1 ?y"
      using content_take [OF _ IH(7), of ?y] extent_ge [of b] by (simp add: off)
    then show ?thesis
      using fin q Cons.prems(3,4) extent_ge [of b] by (simp add: content_def off)
  qed
  have "take ?p D = take ?p (take (?p + ?n) D)" by simp
  also have "\<dots> = take ?p ?d" using IH(7) fin q Cons.prems(3,4) by simp
  finally have "take ?p D = take ?p ?d" .
  then show ?case
    using step IH(1-5,8) len rest here q off
    by (intro exI [of _ "?y # its"] exI [of _ l] exI [of _ D] exI [of _ offset'])
      (simp add: IH(6) extent_def)
qed

text \<open>A region that overlaps the one it is copied to makes the whole undefined.\<close>

lemma move_items_overlap:
  assumes "item v = A @ x # B @ C" "laid q B stop" "unat offset \<le> q" "stop \<le> length (vendor_data v)"
    "length (vendor_data v) < 2 ^ 16" "\<not> moves_apart (unat offset) B"
  shows "move_items [length A..<length A + length B] offset v = None"
  using assms
proof (induction B arbitrary: A x v offset q)
  case (Cons b B)
  let ?d = "vendor_data v" and ?p = "unat offset" and ?src = "unat (item_offset b)" and ?n = "extent b"
  let ?y = "moved_up offset x b"
  let ?v2 = "v\<lparr>item := (A @ [?y]) @ b # B @ C, vendor_data := moved_data ?p b ?d\<rparr>"
  have lb: "laid (?src + ?n) B stop" and q: "q \<le> ?src" using Cons.prems(2) by simp_all
  have fin: "?src + ?n \<le> stop" using laid_le [OF lb] .
  have p: "?p \<le> ?src" using q Cons.prems(3) by simp
  show ?case
  proof (cases "?p + ?n \<le> ?src")
    case True
    have pn: "unat (offset + align64 (ucast (item_size b))) = ?p + ?n"
      using fin p Cons.prems(4,5) by (simp add: unat_word_ariths unat_align64_item extent_def)
    have "length (moved_data ?p b ?d) = length ?d" using fin p Cons.prems(4) by simp
    then have "move_items [length (A @ [?y])..<length (A @ [?y]) + length B]
        (offset + align64 (ucast (item_size b))) ?v2 = None"
      using Cons.IH [of ?v2 "A @ [?y]" b "?src + ?n" "offset + align64 (ucast (item_size b))"]
        lb p Cons.prems(4-6) fin True by (auto simp: pn)
    then show ?thesis
      using move_items_step [OF Cons.prems(1) order.trans [OF fin Cons.prems(4)] True] by simp
  next
    case False
    then show ?thesis using move_items_step_overlap [OF Cons.prems(1) p] by simp
  qed
qed simp

end
