(* ===== verification/Vendor_Read.thy ===== *)
theory Vendor_Read
  imports Vendor_Layout
begin

text \<open>
  Finding and reading an item of the vendor storage, \<open>emmc_vendor_read\<close> of
  \<open>drivers/rockchip/sdmmc_vendor_storage.c\<close>: reading gives what the storage holds as a map.
\<close>

section \<open>Finding an item\<close>

lemma find_item_find:
  "\<forall>k \<in> set ks. k < length (item v) \<Longrightarrow> find_item v i ks = Some (List.find (\<lambda>k. ucast (item_id (item v ! k)) = i) ks)"
  by (induction ks) auto

lemma ucast_id: "i < 2 ^ 16 \<Longrightarrow> (ucast (x :: u16) = (i :: u32)) = (x = ucast i)"
proof -
  assume "i < 2 ^ 16"
  then have "unat i < 2 ^ 16" by (simp add: word_less_nat_alt)
  then have u: "unat (ucast i :: u16) = unat i" by (simp add: unsigned_ucast_eq take_bit_nat_eq_self)
  have "unat x < 65536" using unsigned_less [of x] by simp
  then have "unat (ucast x :: u32) = unat x" by (simp add: unsigned_ucast_eq take_bit_nat_eq_self)
  then show ?thesis by (metis u word_unat_eq_iff)
qed

lemma find_item_cases:
  assumes "wf_vendor v" "i < 2 ^ 16"
  obtains (found) A x B C where "find_item v i [0..<unat (item_num v)] = Some (Some (length A))"
      "item v = A @ x # B @ C" "used_items v = A @ x # B" "item_id x = ucast i"
  | (absent) "find_item v i [0..<unat (item_num v)] = Some None" "ucast i \<notin> item_id ` set (used_items v)"
proof -
  let ?n = "unat (item_num v)"
  have n: "?n \<le> length (item v)" using assms(1) by (simp add: wf_vendor_def sized_def)
  have f: "find_item v i [0..<?n] = Some (List.find (\<lambda>k. item_id (item v ! k) = ucast i) [0..<?n])"
    using n by (subst find_item_find) (auto simp: ucast_id [OF assms(2)])
  show thesis
  proof (cases "List.find (\<lambda>k. item_id (item v ! k) = ucast i) [0..<?n]")
    case None
    then have "item_id (used_items v ! k) \<noteq> ucast i" if "k < ?n" for k
      using that n by (auto simp: find_None_iff used_items_def)
    then show thesis using absent f None n by (force simp: in_set_conv_nth used_items_def)
  next
    case (Some k)
    then have k: "k < ?n" "item_id (item v ! k) = ucast i" by (auto simp: find_Some_iff)
    define A B C where "A = take k (item v)" and "B = drop (Suc k) (used_items v)" and "C = drop ?n (item v)"
    have u: "used_items v = A @ item v ! k # B"
      using k(1) n id_take_nth_drop [of k "used_items v"] by (simp add: A_def B_def used_items_def min_def)
    then have "item v = A @ item v ! k # B @ C"
      using append_take_drop_id [of ?n "item v"] by (simp add: C_def used_items_def)
    then show thesis using found [of A "item v ! k" B C] f Some u k n by (simp add: A_def)
  qed
qed

section \<open>Reading\<close>

lemma stored_found:
  assumes "used_items v = A @ x # B" "wf_vendor v"
  shows "stored v (item_id x) = Some (content (vendor_data v) x)"
proof -
  have "map_of (map (\<lambda>it. (item_id it, content (vendor_data v) it)) A) (item_id x) = None"
    using assms by (auto simp: wf_vendor_def map_of_eq_None_iff)
  then show ?thesis by (simp add: stored_def assms(1) map_add_def)
qed

lemma stored_absent: "a \<notin> item_id ` set (used_items v) \<Longrightarrow> stored v a = None"
  by (force simp: stored_def map_of_eq_None_iff)

lemma item_fits:
  assumes "wf_vendor v" "x \<in> set (used_items v)"
  shows "unat (item_offset x) + extent x \<le> unat (free_offset v)" "unat (free_offset v) \<le> length (vendor_data v)"
  using assms laid_bounds [of 0 "used_items v" "unat (free_offset v)" x] by (auto simp: wf_vendor_def sized_def)

lemma emmc_vendor_read_law:
  assumes "wf_vendor v" "i < 2 ^ 16"
  shows "emmc_vendor_read (Some v) i sz = Some (case stored v (ucast i) of
      None \<Rightarrow> (- 1, [])
    | Some bs \<Rightarrow> (int (min (unat sz) (length bs)), take (unat sz) bs))"
  using assms
proof (cases rule: find_item_cases)
  case (found A x B C)
  have x: "x \<in> set (used_items v)" using found(3) by simp
  have fits: "unat (item_offset x) + unat (item_size x) \<le> length (vendor_data v)"
    using item_fits [OF assms(1) x] extent_ge [of x] by simp
  have s: "stored v (ucast i) = Some (content (vendor_data v) x)"
    using stored_found [OF found(3) assms(1)] found(4) by simp
  have "unat (item_size x) < 65536" using unsigned_less [of "item_size x"] by simp
  then have c: "unat (ucast (item_size x) :: u32) = unat (item_size x)"
    by (simp add: unsigned_ucast_eq take_bit_nat_eq_self)
  have n: "unat (if sz > ucast (item_size x) then ucast (item_size x) else sz) = min (unat sz) (unat (item_size x))"
    by (auto simp: c word_less_nat_alt min_def)
  have r: "emmc_vendor_read (Some v) i sz = (if unat (item_offset x) + m \<le> length (vendor_data v)
      then Some (int m, take m (drop (unat (item_offset x)) (vendor_data v))) else None)"
    if "m = unat (if sz > ucast (item_size x) then ucast (item_size x) else sz)" for m
    using found(1,2) by (simp add: emmc_vendor_read_def Let_def that)
  show ?thesis
    using fits by (simp add: r [OF n [symmetric]] s content_def min.assoc)
next
  case absent
  then show ?thesis by (simp add: emmc_vendor_read_def stored_absent)
qed


text \<open>reading an item copies as much of what is stored as fits and returns the length.\<close>

theorem emmc_vendor_read_stored:
  assumes "wf_vendor v" "i < 2 ^ 16"
  shows "emmc_vendor_read (Some v) i sz = Some (case stored v (ucast i) of
      None \<Rightarrow> (- 1, [])
    | Some bs \<Rightarrow> (int (min (unat sz) (length bs)), take (unat sz) bs))"
  by (rule emmc_vendor_read_law [OF assms])

end
