(* ===== verification/Vendor_Write.thy ===== *)
theory Vendor_Write
  imports Vendor_Read
begin

text \<open>
  Writing an item of the vendor storage, \<open>emmc_vendor_write\<close> of
  \<open>drivers/rockchip/sdmmc_vendor_storage.c\<close>: the layout of the items is kept and the storage, as a map,
  changes at the identifier that is written and nowhere else.
\<close>

section \<open>Writing\<close>

lemma commit_keeps:
  assumes "wf_vendor v" "commit P v e = (v', e')"
  shows "wf_vendor v'" "stored v' = stored v" "free_size v' = free_size v" "used_items v' = used_items v"
proof -
  have "unat (if next_index v + 1 \<ge> of_nat EMMC_VENDOR_PART_NUM then 0 else next_index v + 1) < EMMC_VENDOR_PART_NUM"
    by (simp add: EMMC_VENDOR_PART_NUM_def word_le_nat_alt not_le)
  moreover have "v' = v\<lparr>version := version v + 1, version2 := version v + 1,
      next_index := (if next_index v + 1 \<ge> of_nat EMMC_VENDOR_PART_NUM then 0 else next_index v + 1)\<rparr>"
    using assms(2) by (auto simp: commit_def Let_def split: prod.splits)
  ultimately show "wf_vendor v'" "stored v' = stored v" "free_size v' = free_size v" "used_items v' = used_items v"
    using assms(1) by (simp_all add: wf_vendor_def stored_def used_items_def sized_def)
qed

text \<open>Whatever happens to the items, only what is found under the identifier changes.\<close>

lemma map_of_replace:
  assumes "distinct (map fst xs)" "distinct (map fst ys)" "set ys = insert (i, b) {p \<in> set xs. fst p \<noteq> i}"
  shows "map_of ys = (map_of xs)(i \<mapsto> b)"
proof
  fix j
  have iff: "map_of ys j = Some c \<longleftrightarrow> ((map_of xs)(i \<mapsto> b)) j = Some c" for c
    using assms by (auto simp: map_of_eq_Some_iff)
  show "map_of ys j = ((map_of xs)(i \<mapsto> b)) j"
  proof (cases "map_of ys j")
    case None
    then show ?thesis using iff by (cases "((map_of xs)(i \<mapsto> b)) j") auto
  next
    case (Some c)
    then show ?thesis using iff [of c] by simp
  qed
qed

abbreviation entries :: "u8 list \<Rightarrow> vendor_item list \<Rightarrow> (u16 \<times> u8 list) list" where
  "entries d \<equiv> map (\<lambda>it. (item_id it, content d it))"

lemma image_filter_key: "(\<And>z. k (f z) = h z) \<Longrightarrow> f ` {z \<in> S. h z \<noteq> i} = {p \<in> f ` S. k p \<noteq> i}"
  by (auto simp: image_def)

lemma stored_written:
  assumes "distinct (map item_id (used_items v))" "distinct (map item_id (used_items v'))"
    "set (used_items v') = insert y (set os')" "entries (vendor_data v') os' = entries (vendor_data v) os"
    "set os = {z \<in> set (used_items v). item_id z \<noteq> i}" "item_id y = i" "content (vendor_data v') y = buf"
  shows "stored v' = (stored v)(i \<mapsto> buf)"
proof -
  let ?f = "\<lambda>w z. (item_id z, content (vendor_data w) z)"
  have "?f v' ` set os' = set (entries (vendor_data v') os')" by (simp only: set_map)
  also have "\<dots> = ?f v ` set os" by (simp only: assms(4) set_map)
  also have "\<dots> = {p \<in> ?f v ` set (used_items v). fst p \<noteq> i}" unfolding assms(5) by (rule image_filter_key) simp
  finally have others: "?f v' ` set os' = {p \<in> ?f v ` set (used_items v). fst p \<noteq> i}" .
  have "set (entries (vendor_data v') (used_items v')) = insert (?f v' y) (?f v' ` set os')"
    by (simp only: set_map assms(3) image_insert)
  also have "\<dots> = insert (i, buf) {p \<in> set (entries (vendor_data v) (used_items v)). fst p \<noteq> i}"
    by (simp only: others assms(6,7) set_map)
  finally show ?thesis
    unfolding stored_def using assms(1,2) by (intro map_of_replace) (simp_all add: comp_def)
qed

lemma entries_put:
  assumes "off + length bs \<le> length d"
    "\<And>x. x \<in> set xs \<Longrightarrow> unat (item_offset x) + unat (item_size x) \<le> off \<or> off + length bs \<le> unat (item_offset x)"
  shows "entries (take off d @ bs @ drop (off + length bs) d) xs = entries d xs"
  using assms content_put by simp

lemma content_here:
  assumes "unat (item_offset y) = off" "unat (item_size y) = length bs" "off \<le> length d"
  shows "content (take off d @ bs @ zs) y = bs"
  using assms by (simp add: content_def)

text \<open>The size as the item has it, and the space it needs.\<close>

lemma write_sizes:
  assumes "align64 sz \<le> ucast (f :: u16)" "unat sz \<le> 2 ^ 32 - 64"
  shows "unat (align64 sz) = up64 (unat sz)" "up64 (unat sz) \<le> unat f" "unat (ucast sz :: u16) = unat sz"
    "unat (ucast (align64 sz) :: u16) = up64 (unat sz)"
proof -
  have f: "unat f < 65536" using unsigned_less [of f] by simp
  then have "unat (ucast f :: u32) = unat f" by (simp add: unsigned_ucast_eq take_bit_nat_eq_self)
  then show a: "unat (align64 sz) = up64 (unat sz)" "up64 (unat sz) \<le> unat f"
    using assms by (simp_all add: unat_align64 word_le_nat_alt)
  show "unat (ucast sz :: u16) = unat sz" "unat (ucast (align64 sz) :: u16) = up64 (unat sz)"
    using f a up64_ge [of "unat sz"] by (simp_all add: unsigned_ucast_eq take_bit_nat_eq_self)
qed

text \<open>A new item is put behind the others.\<close>

lemma append_item_spec:
  assumes wf: "wf_vendor v" and absent: "ucast i \<notin> item_id ` set (used_items v)"
    and room: "align64 sz \<le> ucast (free_size v)" "unat sz \<le> 2 ^ 32 - 64"
    and buf: "length buf = unat sz" and num: "unat (item_num v) < VENDOR_ITEMS"
  obtains v' where "append_item i buf sz v = Some v'" "wf_vendor v'" "stored v' = (stored v)(ucast i \<mapsto> buf)"
proof -
  note sizes = write_sizes [OF room]
  let ?k = "unat (item_num v)" and ?A = "used_items v" and ?fo = "unat (free_offset v)" and ?d = "vendor_data v"
  let ?y = "(item v ! ?k)\<lparr>item_id := ucast i, item_offset := free_offset v, item_size := ucast sz\<rparr>"
  have len: "length (item v) = VENDOR_ITEMS" "length ?d = VENDOR_DATA" using wf by (simp_all add: wf_vendor_def sized_def)
  have space: "?fo + unat (free_size v) \<le> VENDOR_DATA" using wf by (simp add: wf_vendor_def)
  have fo: "?fo + length buf \<le> length ?d" using space sizes(2) up64_ge [of "unat sz"] by (simp add: buf len)
  define v' where "v' = v\<lparr>item := (item v)[?k := ?y], free_offset := free_offset v + ucast (align64 sz),
    free_size := free_size v - ucast (align64 sz),
    vendor_data := take ?fo ?d @ buf @ drop (?fo + length buf) ?d, item_num := item_num v + 1\<rparr>"
  have run: "append_item i buf sz v = Some v'"
    using num fo by (simp add: append_item_def Let_def put_data_def len v'_def)
  have n: "unat (item_num v') = Suc ?k" using num by (simp add: unat_word_ariths VENDOR_sizes v'_def)
  have u: "used_items v' = ?A @ [?y]"
    unfolding used_items_def [of v'] n using num by (simp add: v'_def used_items_def len take_Suc_conv_app_nth)
  have d: "vendor_data v' = take ?fo ?d @ buf @ drop (?fo + length buf) ?d" by (simp add: v'_def)
  have fo': "unat (free_offset v') = ?fo + up64 (unat sz)"
    using space sizes(2) by (simp add: unat_word_ariths sizes(4) VENDOR_sizes v'_def)
  have fs': "unat (free_size v') = unat (free_size v) - up64 (unat sz)"
    using sizes(2,4) by (simp add: unat_sub word_le_nat_alt v'_def)
  have ids: "distinct (map item_id (used_items v'))" using wf absent by (simp add: u wf_vendor_def)
  have "laid 0 (used_items v') (unat (free_offset v'))"
    using wf by (auto simp: u fo' laid_append extent_def sizes wf_vendor_def)
  moreover have "sized v'" "vendor_tag v' = EMMC_VENDOR_TAG" "version2 v' = version v'"
    "unat (next_index v') < EMMC_VENDOR_PART_NUM"
    using wf fo by (simp_all add: v'_def wf_vendor_def sized_def)
  ultimately have "wf_vendor v'"
    using ids num space sizes(2) by (simp add: wf_vendor_def n fo' fs')
  moreover have "stored v' = (stored v)(ucast i \<mapsto> buf)"
  proof (rule stored_written [OF _ ids])
    have "unat (item_offset x) + unat (item_size x) \<le> ?fo" if "x \<in> set ?A" for x
      using item_fits(1) [OF wf that] extent_ge [of x] by simp
    then show "entries (vendor_data v') ?A = entries ?d ?A" unfolding d by (intro entries_put fo) simp
    show "content (vendor_data v') ?y = buf" unfolding d using fo by (intro content_here) (simp_all add: sizes buf)
    show "set ?A = {z \<in> set (used_items v). item_id z \<noteq> ucast i}" using absent by force
  qed (use wf in \<open>auto simp: u wf_vendor_def\<close>)
  ultimately show thesis using run that by blast
qed

text \<open>An item is written again where it is, when it fits.\<close>

lemma unat_ucast_size: "unat (ucast (s :: u16) :: u32) = unat s"
proof -
  have "unat s < 65536" using unsigned_less [of s] by simp
  then show ?thesis by (simp add: unsigned_ucast_eq take_bit_nat_eq_self)
qed

lemma laid_shrink:
  assumes "laid off (A @ x # B) stop" "item_offset y = item_offset x" "extent y \<le> extent x"
  shows "laid off (A @ y # B) stop"
  using assms laid_weaken [of "unat (item_offset x) + extent x" B stop "unat (item_offset x) + extent y" stop]
  by (auto simp: laid_append)

lemma up64_up64: "n \<le> up64 m \<Longrightarrow> up64 n \<le> up64 m"
proof -
  assume "n \<le> up64 m"
  then have "(n + 63) div 64 \<le> (64 * ((m + 63) div 64) + 63) div 64" by (simp add: up64_def div_le_mono)
  then show ?thesis by (simp add: up64_def)
qed

lemma used_items_length: "wf_vendor v \<Longrightarrow> length (used_items v) = unat (item_num v)"
  by (simp add: used_items_def wf_vendor_def sized_def)

lemma rewrite_here_spec:
  assumes wf: "wf_vendor v" and item: "item v = A @ x # B @ C" "used_items v = A @ x # B" "item_id x = ucast i"
    and fits: "unat sz \<le> extent x" and buf: "length buf = unat sz"
  obtains v' where "rewrite_item P (length A) i buf sz v = Some (v', True)" "wf_vendor v'"
    "stored v' = (stored v)(ucast i \<mapsto> buf)"
    "free_size v' = free_size v" "free_offset v' = free_offset v"
    "used_items v' = A @ x\<lparr>item_size := ucast sz\<rparr> # B"
proof -
  let ?d = "vendor_data v" and ?off = "unat (item_offset x)" and ?y = "x\<lparr>item_size := ucast sz\<rparr>"
  have x: "x \<in> set (used_items v)" using item(2) by simp
  have e: "?off + extent x \<le> length ?d" using item_fits [OF wf x] by simp
  have len: "length ?d = VENDOR_DATA" using wf by (simp add: wf_vendor_def sized_def)
  have off: "?off + length buf \<le> length ?d" using e fits buf by simp
  have sz: "unat (ucast sz :: u16) = unat sz"
    using e fits len by (simp add: unsigned_ucast_eq take_bit_nat_eq_self VENDOR_sizes)
  define v' where "v' = v\<lparr>vendor_data := take ?off ?d @ buf @ drop (?off + length buf) ?d, item := A @ ?y # B @ C\<rparr>"
  have "\<not> align64 (ucast (item_size x)) < sz" using fits by (simp add: word_less_nat_alt unat_align64_item extent_def)
  then have run: "rewrite_item P (length A) i buf sz v = Some (v', True)"
    using off by (simp add: rewrite_item_def item(1) Let_def put_data_def v'_def)
  have n: "unat (item_num v) = length (A @ x # B)"
    using used_items_length [OF wf] by (simp add: item(2))
  have u: "used_items v' = A @ ?y # B" using n by (simp add: used_items_def v'_def)
  have d: "vendor_data v' = take ?off ?d @ buf @ drop (?off + length buf) ?d" by (simp add: v'_def)
  have ids: "distinct (map item_id (used_items v'))" using wf by (simp add: u wf_vendor_def item(2))
  have ext: "extent ?y \<le> extent x" using up64_up64 fits by (simp add: extent_def sz)
  have l: "laid 0 (A @ x # B) (unat (free_offset v))" using wf by (simp add: wf_vendor_def item(2))
  have "laid 0 (used_items v') (unat (free_offset v'))"
    using laid_shrink [OF l _ ext] unfolding u by (simp add: v'_def)
  then have "wf_vendor v'"
    using wf ids off by (simp add: wf_vendor_def sized_def v'_def item(1))
  moreover have "stored v' = (stored v)(ucast i \<mapsto> buf)"
  proof (rule stored_written [OF _ ids])
    obtain m where m: "laid 0 A m" "m \<le> ?off" "laid (?off + extent x) B (unat (free_offset v))"
      using l by (auto simp: laid_append)
    have "unat (item_offset z) + unat (item_size z) \<le> ?off \<or> ?off + length buf \<le> unat (item_offset z)"
      if "z \<in> set (A @ B)" for z
      using that laid_bounds [OF m(1), of z] laid_bounds [OF m(3), of z] m(2) extent_ge [of z] fits buf by auto
    then show "entries (vendor_data v') (A @ B) = entries ?d (A @ B)" unfolding d by (intro entries_put off)
    show "content (vendor_data v') ?y = buf" unfolding d using off by (intro content_here) (simp_all add: sz buf)
    show "set (A @ B) = {z \<in> set (used_items v). item_id z \<noteq> ucast i}"
      using wf item(3) by (force simp: wf_vendor_def item(2))
  qed (use wf item(3) in \<open>auto simp: u wf_vendor_def\<close>)
  ultimately show thesis using run that u by (simp add: v'_def)
qed

text \<open>Otherwise those behind it move up and it becomes the last.\<close>

lemma rewrite_grow_run:
  assumes wf: "wf_vendor v" and item: "item v = A @ x # B @ C" "used_items v = A @ x # B"
    and large: "extent x < unat sz" and room: "align64 sz \<le> ucast (free_size v)" "unat sz \<le> 2 ^ 32 - 64"
    and apart: "moves_apart (unat (item_offset x)) B" and buf: "length buf = unat sz"
    and y: "\<And>l p. y l p = l\<lparr>item_id := ucast i, item_offset := ucast p, item_size := ucast sz\<rparr>"
  obtains its l D p v' where "rewrite_item P (length A) i buf sz v = Some (v', True)"
    "v' = v\<lparr>item := A @ its @ y l p # C, vendor_data := take (unat p) D @ buf @ drop (unat p + length buf) D,
       free_offset := ucast (p + align64 sz), free_size := free_size v - ucast (align64 sz - align64 (ucast (item_size x)))\<rparr>"
    "map item_id its = map item_id B" "map (content D) its = map (content (vendor_data v)) B"
    "laid (unat (item_offset x)) its (unat p)" "unat p + extent x \<le> unat (free_offset v)"
    "take (unat (item_offset x)) D = take (unat (item_offset x)) (vendor_data v)" "length D = VENDOR_DATA"
    "unat p + length buf \<le> VENDOR_DATA" "unat (ucast p :: u16) = unat p"
proof -
  note sizes = write_sizes [OF room]
  let ?off = "unat (item_offset x)"
  have len: "length (vendor_data v) = VENDOR_DATA" and space: "unat (free_offset v) + unat (free_size v) \<le> VENDOR_DATA"
    and l: "laid 0 (A @ x # B) (unat (free_offset v))" using wf by (simp_all add: wf_vendor_def sized_def item(2))
  have lB: "laid (?off + extent x) B (unat (free_offset v))" using l by (auto simp: laid_append)
  have n: "unat (item_num v) = length A + length B + 1" using used_items_length [OF wf] by (simp add: item(2))
  have fo: "unat (free_offset v) \<le> length (vendor_data v)" "length (vendor_data v) < 2 ^ 16"
    using space by (simp_all add: len VENDOR_sizes)
  obtain its l D p where mv: "move_items [length A..<length A + length B] (ucast (item_offset x)) v
      = Some (v\<lparr>item := A @ its @ l # C, vendor_data := D\<rparr>, p)"
    and its: "map item_id its = map item_id B" "map (content D) its = map (content (vendor_data v)) B"
      "laid ?off its (unat p)" "unat p + extent x \<le> unat (free_offset v)"
      "take ?off D = take ?off (vendor_data v)" and D: "length D = VENDOR_DATA"
    using move_items_spec [OF item(1) lB _ fo, of "ucast (item_offset x)"] apart by (auto simp: unat_ucast_size len)
  have its_len: "length its = length B" using arg_cong [OF its(1), of length] by simp
  have p: "unat (ucast p :: u16) = unat p"
    using its(4) fo by (simp add: unsigned_ucast_eq take_bit_nat_eq_self)
  have put: "unat p + length buf \<le> VENDOR_DATA"
    using its(4) space sizes(2) up64_ge [of "unat sz"] by (simp add: buf)
  have "align64 (ucast (item_size x)) < sz" using large by (simp add: word_less_nat_alt unat_align64_item extent_def)
  moreover have "\<not> ucast (free_size v) < align64 sz" using room(1) by simp
  ultimately have "rewrite_item P (length A) i buf sz v = Some (v\<lparr>item := A @ its @ y l p # C,
      vendor_data := take (unat p) D @ buf @ drop (unat p + length buf) D, free_offset := ucast (p + align64 sz),
      free_size := free_size v - ucast (align64 sz - align64 (ucast (item_size x)))\<rparr>, True)"
    using mv put
    by (simp add: rewrite_item_def item(1) Let_def n its_len put_data_def p nth_append list_update_append y D)
  then show thesis using that [OF _ refl its D put p] by blast
qed

lemma map_pair_eq:
  "map f xs = map f' ys \<Longrightarrow> map g xs = map g' ys \<Longrightarrow> map (\<lambda>x. (f x, g x)) xs = map (\<lambda>y. (f' y, g' y)) ys"
proof (induction xs arbitrary: ys)
  case (Cons x xs)
  then show ?case by (cases ys) auto
qed simp

lemma rewrite_grow_spec:
  assumes wf: "wf_vendor v" and item: "item v = A @ x # B @ C" "used_items v = A @ x # B" "item_id x = ucast i"
    and large: "extent x < unat sz" and room: "align64 sz \<le> ucast (free_size v)" "unat sz \<le> 2 ^ 32 - 64"
    and apart: "moves_apart (unat (item_offset x)) B" and buf: "length buf = unat sz"
  obtains v' where "rewrite_item P (length A) i buf sz v = Some (v', True)" "wf_vendor v'"
    "stored v' = (stored v)(ucast i \<mapsto> buf)"
    "unat (free_size v') = unat (free_size v) - (up64 (unat sz) - extent x)"
proof -
  note sizes = write_sizes [OF room]
  define y where "y = (\<lambda>l p. l\<lparr>item_id := ucast i, item_offset := ucast (p :: u32), item_size := ucast sz\<rparr> :: vendor_item)"
  obtain its l D p v' where run: "rewrite_item P (length A) i buf sz v = Some (v', True)"
    and v': "v' = v\<lparr>item := A @ its @ y l p # C, vendor_data := take (unat p) D @ buf @ drop (unat p + length buf) D,
       free_offset := ucast (p + align64 sz), free_size := free_size v - ucast (align64 sz - align64 (ucast (item_size x)))\<rparr>"
    and its: "map item_id its = map item_id B" "map (content D) its = map (content (vendor_data v)) B"
      "laid (unat (item_offset x)) its (unat p)" "unat p + extent x \<le> unat (free_offset v)"
      "take (unat (item_offset x)) D = take (unat (item_offset x)) (vendor_data v)"
    and D: "length D = VENDOR_DATA" and put: "unat p + length buf \<le> VENDOR_DATA" and p: "unat (ucast p :: u16) = unat p"
    by (rule rewrite_grow_run [OF wf item(1,2) large room apart buf, where P = P and y = y]) (auto simp: y_def)
  have space: "unat (free_offset v) + unat (free_size v) \<le> VENDOR_DATA" using wf by (simp add: wf_vendor_def)
  obtain m where m: "laid 0 A m" "m \<le> unat (item_offset x)"
    using wf by (auto simp: laid_append wf_vendor_def item(2))
  have ext: "extent x \<le> up64 (unat sz)" using large up64_ge [of "unat sz"] by simp
  have d: "vendor_data v' = take (unat p) D @ buf @ drop (unat p + length buf) D" by (simp add: v')
  have n: "unat (item_num v) = Suc (length A + length B)" using used_items_length [OF wf] by (simp add: item(2))
  have u: "used_items v' = A @ its @ [y l p]"
    unfolding used_items_def [of v'] using n arg_cong [OF its(1), of length] by (simp add: v')
  have "unat (align64 sz - align64 (ucast (item_size x))) = up64 (unat sz) - extent x"
    using ext sizes(1) by (simp add: unat_sub word_le_nat_alt unat_align64_item extent_def)
  then have fs: "unat (free_size v') = unat (free_size v) - (up64 (unat sz) - extent x)"
    using sizes(2) space
    by (simp add: v' unat_sub word_le_nat_alt unsigned_ucast_eq take_bit_nat_eq_self VENDOR_sizes)
  have fo: "unat (free_offset v') = unat p + up64 (unat sz)"
    using its(4) sizes(1,2) space
    by (simp add: v' unat_word_ariths unsigned_ucast_eq take_bit_nat_eq_self VENDOR_sizes)
  have ids: "distinct (map item_id (used_items v'))"
    using wf item(3) by (auto simp: u its(1) y_def wf_vendor_def item(2) distinct_map)
  have lay: "laid 0 (A @ its) (unat p)"
    using m its(3) laid_weaken [of _ its "unat p" m "unat p"] by (auto simp: laid_append)
  then have "laid 0 (used_items v') (unat (free_offset v'))"
    unfolding u append_assoc [symmetric] laid_append [of 0 "A @ its"] by (auto simp: y_def p fo extent_def sizes(3))
  then have "wf_vendor v'"
    using wf ids fs fo its(4) sizes(2) space ext used_items_length [OF wf] D put arg_cong [OF its(1), of length]
    by (simp add: wf_vendor_def sized_def v' item(1))
  moreover have "stored v' = (stored v)(ucast i \<mapsto> buf)"
  proof (rule stored_written [OF _ ids])
    have "content D z = content (vendor_data v) z" if "z \<in> set A" for z
      using laid_bounds [OF m(1) that] m(2) extent_ge [of z] content_take [OF _ its(5), of z] by simp
    then have "entries D (A @ its) = entries (vendor_data v) (A @ B)"
      using map_pair_eq [OF its(1,2)] by simp
    moreover have "unat (item_offset z) + unat (item_size z) \<le> unat p" if "z \<in> set (A @ its)" for z
      using laid_bounds [OF lay that] extent_ge [of z] by simp
    then have "entries (vendor_data v') (A @ its) = entries D (A @ its)"
      unfolding d using put D by (intro entries_put) auto
    ultimately show "entries (vendor_data v') (A @ its) = entries (vendor_data v) (A @ B)" by simp
    show "content (vendor_data v') (y l p) = buf"
      unfolding d using put D by (intro content_here) (simp_all add: y_def p sizes(3) buf)
    show "set (A @ B) = {z \<in> set (used_items v). item_id z \<noteq> ucast i}"
      using wf item(3) by (force simp: wf_vendor_def item(2))
  qed (use wf in \<open>auto simp: u y_def wf_vendor_def\<close>)
  ultimately show thesis using run that fs by blast
qed

section \<open>The result of a write\<close>

text \<open>Growing in the middle of items of which one is larger than the space it moves up by is undefined.\<close>

lemma rewrite_overlap:
  assumes wf: "wf_vendor v" and item: "item v = A @ x # B @ C" "used_items v = A @ x # B"
    and large: "extent x < unat sz" and room: "align64 sz \<le> ucast (free_size v)"
    and overlap: "\<not> moves_apart (unat (item_offset x)) B"
  shows "rewrite_item P (length A) i buf sz v = None"
proof -
  have l: "laid 0 (A @ x # B) (unat (free_offset v))" using wf by (simp add: wf_vendor_def item(2))
  have lB: "laid (unat (item_offset x) + extent x) B (unat (free_offset v))" using l by (auto simp: laid_append)
  have fo: "unat (free_offset v) \<le> length (vendor_data v)" "length (vendor_data v) < 2 ^ 16"
    using wf by (simp_all add: wf_vendor_def sized_def VENDOR_sizes)
  have n: "unat (item_num v) = length A + length B + 1" using used_items_length [OF wf] by (simp add: item(2))
  have "move_items [length A..<length A + length B] (ucast (item_offset x)) v = None"
    using move_items_overlap [OF item(1) lB _ fo, of "ucast (item_offset x)"] overlap by (simp add: unat_ucast_size)
  moreover have "align64 (ucast (item_size x)) < sz" using large by (simp add: word_less_nat_alt unat_align64_item extent_def)
  moreover have "\<not> ucast (free_size v) < align64 sz" using room by simp
  ultimately show ?thesis by (simp add: rewrite_item_def item(1) Let_def n nth_append)
qed

text \<open>The space that must be free: for an item that grows the whole of its new space.\<close>

definition room_for :: "vendor_info \<Rightarrow> u16 \<Rightarrow> nat \<Rightarrow> bool" where
  "room_for v i n \<longleftrightarrow> (\<exists>bs. stored v i = Some bs \<and> n \<le> up64 (length bs)) \<or> up64 n \<le> unat (free_size v)"

text \<open>
  The items behind one that does not fit in its place move up. That is undefined when one of them is
  larger than the space by which it moves.
\<close>

definition overlaps :: "vendor_info \<Rightarrow> u16 \<Rightarrow> nat \<Rightarrow> bool" where
  "overlaps v i n \<longleftrightarrow>
     (case dropWhile (\<lambda>it. item_id it \<noteq> i) (used_items v) of
        [] \<Rightarrow> False
      | x # its \<Rightarrow> extent x < n \<and> \<not> moves_apart (unat (item_offset x)) its)"

text \<open>A write with room stays inside the arrays, and its copies do not overlap.\<close>

definition write_defined :: "vendor_info \<Rightarrow> u16 \<Rightarrow> nat \<Rightarrow> bool" where
  "write_defined v i n \<longleftrightarrow>
     (room_for v i n \<longrightarrow> (if stored v i = None then unat (item_num v) < VENDOR_ITEMS else \<not> overlaps v i n))"

lemma overlaps_found:
  assumes "wf_vendor v" "used_items v = A @ x # B" "item_id x = i"
  shows "overlaps v i n \<longleftrightarrow> extent x < n \<and> \<not> moves_apart (unat (item_offset x)) B"
proof -
  have "distinct (map item_id (A @ x # B))" using assms(1,2) by (simp add: wf_vendor_def)
  then have "item_id y \<noteq> i" if "y \<in> set A" for y
    using assms(3) that by (metis map_append list.simps(9) distinct_append disjoint_iff image_eqI list.set_intros(1) list.set_map)
  then have "dropWhile (\<lambda>it. item_id it \<noteq> i) (A @ x # B) = x # B"
    using assms(3) by (simp add: dropWhile_append2)
  then show ?thesis by (simp add: overlaps_def assms(2))
qed

lemma room_word: "unat sz \<le> 2 ^ 32 - 64 \<Longrightarrow> align64 sz \<le> ucast (f :: u16) \<longleftrightarrow> up64 (unat sz) \<le> unat f"
  by (simp add: word_le_nat_alt unat_ucast_size unat_align64)

definition written :: "vendor_info \<Rightarrow> u16 \<Rightarrow> u8 list \<Rightarrow> 'e \<Rightarrow> (vendor_info option \<times> 'e \<times> int) option \<Rightarrow> bool" where
  "written v i bs e res \<longleftrightarrow>
     (case res of
        None \<Rightarrow> \<not> write_defined v i (length bs)
      | Some (g, e', r) \<Rightarrow> write_defined v i (length bs) \<and> (\<exists>v'. g = Some v' \<and> wf_vendor v'
          \<and> (if room_for v i (length bs) then r = 0 \<and> stored v' = (stored v)(i \<mapsto> bs)
             else r = - 1 \<and> v' = v \<and> e' = e)))"

lemma present_written:
  assumes wf: "wf_vendor v" and buf: "length buf = unat sz" and size: "unat sz \<le> 2 ^ 32 - 64"
    and found: "find_item v i [0..<unat (item_num v)] = Some (Some (length A))" "item v = A @ x # B @ C"
      "used_items v = A @ x # B" "item_id x = ucast i"
  shows "written v (ucast i) buf e (emmc_vendor_write P (Some v) i buf sz e)"
proof -
  have x: "x \<in> set (used_items v)" using found(3) by simp
  have s: "stored v (ucast i) = Some (content (vendor_data v) x)"
    using stored_found [OF found(3) wf] found(4) by simp
  have c: "up64 (length (content (vendor_data v) x)) = extent x"
    using content_length [of x "vendor_data v"] item_fits [OF wf x] by (simp add: extent_def)
  note o = overlaps_found [OF wf found(3,4), of "unat sz"]
  show ?thesis
  proof (cases "room_for v (ucast i) (unat sz)")
    case True
    have grow: "align64 sz \<le> ucast (free_size v)" if "\<not> unat sz \<le> extent x"
      using True that by (simp add: room_for_def s c room_word [OF size])
    show ?thesis
    proof (cases "overlaps v (ucast i) (unat sz)")
      case overlap: True
      then have "rewrite_item P (length A) i buf sz v = None"
        using rewrite_overlap [OF wf found(2,3) _ grow] o by simp
      then show ?thesis
        using True overlap by (simp add: emmc_vendor_write_def found(1) written_def write_defined_def buf s)
    next
      case False
      obtain v1 where v1: "rewrite_item P (length A) i buf sz v = Some (v1, True)" "wf_vendor v1"
        "stored v1 = (stored v)(ucast i \<mapsto> buf)"
      proof (cases "unat sz \<le> extent x")
        case True
        then show thesis using rewrite_here_spec [OF wf found(2-4) True buf, of P] that by blast
      next
        case large: False
        then have "moves_apart (unat (item_offset x)) B" using False o by simp
        then obtain v1 where "rewrite_item P (length A) i buf sz v = Some (v1, True)" "wf_vendor v1"
          "stored v1 = (stored v)(ucast i \<mapsto> buf)"
          using rewrite_grow_spec [OF wf found(2-4) _ grow [OF large] size _ buf, of P] large not_le by metis
        then show thesis by (rule that)
      qed
      obtain v2 e2 where cm: "commit P v1 e = (v2, e2)" by fastforce
      have "emmc_vendor_write P (Some v) i buf sz e = Some (Some v2, e2, 0)"
        by (simp add: emmc_vendor_write_def found(1) v1(1) cm)
      then show ?thesis
        using True False commit_keeps [OF v1(2) cm] v1(3) by (simp add: written_def write_defined_def buf s)
    qed
  next
    case False
    then have "rewrite_item P (length A) i buf sz v = Some (v, False)"
      using room_word [OF size, of "free_size v"]
      by (simp add: rewrite_item_def found(2) Let_def room_for_def s c word_less_nat_alt unat_align64_item extent_def
          word_le_nat_alt not_le)
    then have "emmc_vendor_write P (Some v) i buf sz e = Some (Some v, e, - 1)"
      by (simp add: emmc_vendor_write_def found(1))
    then show ?thesis using False wf by (simp add: written_def write_defined_def buf)
  qed
qed

lemma new_written:
  assumes wf: "wf_vendor v" and buf: "length buf = unat sz" and size: "unat sz \<le> 2 ^ 32 - 64"
    and absent: "find_item v i [0..<unat (item_num v)] = Some None" "ucast i \<notin> item_id ` set (used_items v)"
  shows "written v (ucast i) buf e (emmc_vendor_write P (Some v) i buf sz e)"
proof -
  have s: "stored v (ucast i) = None" using stored_absent absent(2) .
  have room: "room_for v (ucast i) (unat sz) \<longleftrightarrow> align64 sz \<le> ucast (free_size v)"
    by (simp add: room_for_def s room_word [OF size])
  show ?thesis
  proof (cases "room_for v (ucast i) (unat sz)")
    case True
    show ?thesis
    proof (cases "unat (item_num v) < VENDOR_ITEMS")
      case num: True
      obtain v1 where v1: "append_item i buf sz v = Some v1" "wf_vendor v1" "stored v1 = (stored v)(ucast i \<mapsto> buf)"
        using append_item_spec [OF wf absent(2) _ size buf] num True room by blast
      obtain v2 e2 where cm: "commit P v1 e = (v2, e2)" by fastforce
      have "emmc_vendor_write P (Some v) i buf sz e = Some (Some v2, e2, 0)"
        using True room by (simp add: emmc_vendor_write_def absent(1) v1(1) cm)
      then show ?thesis
        using True num commit_keeps [OF v1(2) cm] v1(3) by (simp add: written_def write_defined_def buf s)
    next
      case num: False
      then have "append_item i buf sz v = None" using wf by (simp add: append_item_def wf_vendor_def sized_def)
      then have "emmc_vendor_write P (Some v) i buf sz e = None"
        using True room by (simp add: emmc_vendor_write_def absent(1))
      then show ?thesis using True num by (simp add: written_def write_defined_def buf s)
    qed
  next
    case False
    then show ?thesis using room wf by (simp add: emmc_vendor_write_def absent(1) written_def write_defined_def buf)
  qed
qed

lemma emmc_vendor_write_written:
  assumes "wf_vendor v" "i < 2 ^ 16" "length buf = unat sz" "unat sz \<le> 2 ^ 32 - 64"
  shows "written v (ucast i) buf e (emmc_vendor_write P (Some v) i buf sz e)"
  using assms(1,2)
proof (cases rule: find_item_cases)
  case (found A x B C)
  then show ?thesis by (rule present_written [OF assms(1,3,4)])
next
  case absent
  then show ?thesis by (rule new_written [OF assms(1,3,4)])
qed

lemma emmc_vendor_write_law:
  assumes "wf_vendor v" "i < 2 ^ 16" "length buf = unat sz" "unat sz \<le> 2 ^ 32 - 64"
    "write_defined v (ucast i) (unat sz)"
  shows "\<exists>v' e' r. emmc_vendor_write P (Some v) i buf sz e = Some (Some v', e', r) \<and> wf_vendor v'
    \<and> (if room_for v (ucast i) (unat sz) then r = 0 \<and> stored v' = (stored v)(ucast i \<mapsto> buf)
       else r = - 1 \<and> v' = v \<and> e' = e)"
  using emmc_vendor_write_written [OF assms(1-4), of e P] assms(3,5)
  by (cases "emmc_vendor_write P (Some v) i buf sz e") (fastforce simp: written_def)+

text \<open>
  C9: a write to a well-formed storage, of fewer than 2 ^ 32 - 63 bytes under an identifier of 16 bits, has
  one of three ends. Without room it returns -1 and changes nothing. With room it returns 0, the storage
  stays well-formed and as a map changes at that identifier only, to exactly the given bytes. With room it
  leaves what C defines just when a new item finds the array of 126 items full, or an item that has to grow
  makes an item behind it move onto bytes it holds itself.
\<close>

theorem emmc_vendor_write_refines:
  assumes "wf_vendor v" "i < 2 ^ 16" "length buf = unat sz" "unat sz \<le> 2 ^ 32 - 64"
  shows "case emmc_vendor_write P (Some v) i buf sz e of
      None \<Rightarrow> room_for v (ucast i) (unat sz)
        \<and> (if stored v (ucast i) = None then unat (item_num v) = VENDOR_ITEMS else overlaps v (ucast i) (unat sz))
    | Some (g, e', r) \<Rightarrow> \<exists>v'. g = Some v' \<and> wf_vendor v'
        \<and> (if room_for v (ucast i) (unat sz)
           then r = 0 \<and> stored v' = (stored v)(ucast i \<mapsto> buf)
             \<and> (if stored v (ucast i) = None then unat (item_num v) < VENDOR_ITEMS
                else \<not> overlaps v (ucast i) (unat sz))
           else r = - 1 \<and> v' = v \<and> e' = e)"
  using emmc_vendor_write_written [OF assms, of e P] assms(1,3)
  by (auto simp: written_def write_defined_def wf_vendor_def split: option.splits if_splits)

end
