(* ===== verification/Vendor_Card.thy ===== *)
theory Vendor_Card
  imports Vendor_Write
begin

text \<open>
  The vendor storage on the card: what a start of the system finds after writes, and after a write that was
  interrupted between two sectors.
\<close>

section \<open>Sectors of a block\<close>

lemma sector_length: "length bs = 65536 \<Longrightarrow> k < 128 \<Longrightarrow> length (sector k bs) = 0x200"
  by (simp add: sector_def)

lemma put_sector_length: "length bs = 65536 \<Longrightarrow> k < 128 \<Longrightarrow> length s = 0x200 \<Longrightarrow> length (put_sector k s bs) = 65536"
  by (simp add: put_sector_def)

lemma sector_concat: "n \<le> 128 \<Longrightarrow> length bs = 65536 \<Longrightarrow> concat (map (\<lambda>k. sector k bs) [0..<n]) = take (0x200 * n) bs"
proof (induction n)
  case (Suc n)
  have "concat (map (\<lambda>k. sector k bs) [0..<Suc n]) = take (0x200 * n) bs @ sector n bs" using Suc by simp
  also have "\<dots> = take (0x200 * n + 0x200) bs" by (simp only: sector_def take_add)
  finally show ?case by (simp add: add.commute)
qed simp

text \<open>The three words that tell whether a block is whole are in its first and in its last sector.\<close>

definition block_tag :: "u8 list \<Rightarrow> u32" where "block_tag = word32"
definition block_version :: "u8 list \<Rightarrow> u32" where "block_version s = word32 (drop 4 s)"
definition block_version2 :: "u8 list \<Rightarrow> u32" where "block_version2 s = word32 (drop 508 s)"

lemma word32_take: "word32 (take n bs) = word32 bs" if "4 \<le> n" "4 \<le> length bs"
  using that by (simp add: word32_def)

lemma info_at_words:
  assumes "length bs = 65536"
  shows "vendor_tag (info_at bs) = block_tag (sector 0 bs)" "version (info_at bs) = block_version (sector 0 bs)"
    "version2 (info_at bs) = block_version2 (sector 127 bs)"
  using assms by (simp_all add: info_at_def block_tag_def block_version_def block_version2_def sector_def
      VENDOR_sizes drop_take word32_take)

lemma sector_put_sector:
  assumes "length bs = 65536" "length s = 0x200" "k < 128" "j < 128"
  shows "sector j (put_sector k s bs) = (if j = k then s else sector j bs)"
proof (cases j k rule: linorder_cases)
  case less
  then obtain d where "k = Suc (j + d)" using less_iff_Suc_add by blast
  then show ?thesis using assms by (simp add: sector_def put_sector_def drop_take min_def)
next
  case greater
  then obtain d where "j = Suc (k + d)" using less_iff_Suc_add by blast
  then show ?thesis using assms by (simp add: sector_def put_sector_def min_def ac_simps)
qed (use assms in \<open>simp add: sector_def put_sector_def\<close>)

lemma sector_of_concat:
  assumes "\<And>k. k < n \<Longrightarrow> length (f k) = 0x200" "j < n"
  shows "sector j (concat (map f [0..<n])) = f j"
  using assms
proof (induction n)
  case (Suc n)
  have l: "length (concat (map f [0..<n])) = 0x200 * n" using Suc.prems(1) by (induction n) simp_all
  show ?case
  proof (cases "j = n")
    case True
    then show ?thesis using l Suc.prems(1) by (simp add: sector_def)
  next
    case False
    then obtain d where d: "n = Suc (j + d)" using Suc.prems(2) less_iff_Suc_add by (metis less_antisym)
    have "sector j (concat (map f [0..<Suc n])) = sector j (concat (map f [0..<n]))"
      using l by (simp add: sector_def d)
    then show ?thesis using Suc False by simp
  qed
qed simp

section \<open>A card that keeps what is written\<close>

text \<open>
  The law of the transfers: \<open>disk e\<close> gives the sectors, reads go well, and writing changes one sector. Whether
  a write reports that it went well does not matter, as the code does not look at it.
\<close>

definition card_law :: "'e emmc_port \<Rightarrow> ('e \<Rightarrow> nat \<Rightarrow> u8 list) \<Rightarrow> bool" where
  "card_law P disk \<longleftrightarrow>
     (\<forall>a old e. \<exists>e1. transfer_read P a old e = (e1, disk e a, True) \<and> disk e1 = disk e)
     \<and> (\<forall>a s e. disk (fst (transfer_write P a s e)) = (disk e)(a := s))"

definition sectors :: "('e \<Rightarrow> nat \<Rightarrow> u8 list) \<Rightarrow> 'e \<Rightarrow> bool" where
  "sectors disk e \<longleftrightarrow> (\<forall>a. length (disk e a) = 0x200)"

definition place_at :: "nat \<Rightarrow> nat" where
  "place_at i = EMMC_VENDOR_PART_START + EMMC_VENDOR_PART_SIZE * i"

definition block_at :: "(nat \<Rightarrow> u8 list) \<Rightarrow> nat \<Rightarrow> u8 list" where
  "block_at c i = concat (map (\<lambda>k. c (place_at i + k)) [0..<EMMC_VENDOR_PART_SIZE])"

lemma transfer_sector_read:
  assumes "card_law P disk"
  obtains e1 where "transfer_sector P False k a buf e = (e1, put_sector k (disk e a) buf, True)" "disk e1 = disk e"
proof -
  obtain e1 where "transfer_read P a (sector k buf) e = (e1, disk e a, True)" "disk e1 = disk e"
    using assms unfolding card_law_def by blast
  then show thesis using that by (simp add: transfer_sector_def)
qed

lemma ops_from_append:
  "emmc_vendor_ops_from P wr addr (xs @ ys) ok buf e
   = (let (e1, buf1, ok1) = emmc_vendor_ops_from P wr addr xs ok buf e in emmc_vendor_ops_from P wr addr ys ok1 buf1 e1)"
  by (induction xs arbitrary: ok buf e) (auto split: prod.splits)

lemma read_sectors:
  assumes "card_law P disk" "sectors disk e" "length buf = 65536" "n \<le> 128"
  shows "\<exists>e1. emmc_vendor_ops_from P False addr [0..<n] True buf e
      = (e1, concat (map (\<lambda>k. disk e (addr + k)) [0..<n]) @ drop (0x200 * n) buf, True) \<and> disk e1 = disk e"
  using assms(4)
proof (induction n)
  case (Suc n)
  define b where "b = concat (map (\<lambda>k. disk e (addr + k)) [0..<n])"
  obtain e1 where e1: "emmc_vendor_ops_from P False addr [0..<n] True buf e = (e1, b @ drop (0x200 * n) buf, True)"
    "disk e1 = disk e" using Suc by (auto simp: b_def)
  have l: "length b = 0x200 * n" unfolding b_def using assms(2) by (induction n) (simp_all add: sectors_def)
  obtain e2 where e2: "transfer_sector P False n (addr + n) (b @ drop (0x200 * n) buf) e1
      = (e2, put_sector n (disk e1 (addr + n)) (b @ drop (0x200 * n) buf), True)" "disk e2 = disk e1"
    using transfer_sector_read [OF assms(1)] .
  have "put_sector n (disk e (addr + n)) (b @ drop (0x200 * n) buf) = b @ disk e (addr + n) @ drop (0x200 * Suc n) buf"
    by (simp add: put_sector_def l)
  then show ?case using e1 e2 by (simp add: ops_from_append b_def)
qed simp

lemma emmc_vendor_ops_reads:
  assumes "card_law P disk" "sectors disk e" "length buf = 65536"
  obtains e1 where "emmc_vendor_ops P buf (place_at i) EMMC_VENDOR_PART_SIZE False e = (e1, block_at (disk e) i, True)"
    "disk e1 = disk e"
  using read_sectors [OF assms, of 128 "place_at i"] assms(3)
  by (auto simp: emmc_vendor_ops_def block_at_def EMMC_VENDOR_PART_SIZE_def)

section \<open>Starting\<close>

definition good :: "(nat \<Rightarrow> u8 list) \<Rightarrow> nat \<Rightarrow> bool" where
  "good c i \<longleftrightarrow> block_tag (c (place_at i)) = EMMC_VENDOR_TAG
     \<and> block_version2 (c (place_at i + 127)) = block_version (c (place_at i))"

text \<open>The choice the scan makes.\<close>

fun pick :: "(nat \<Rightarrow> u8 list) \<Rightarrow> nat list \<Rightarrow> u32 \<times> nat \<Rightarrow> u32 \<times> nat" where
  "pick c [] m = m"
| "pick c (i # is) m =
     pick c is (if good c i \<and> fst m < block_version (c (place_at i)) then (block_version (c (place_at i)), i) else m)"

lemma scan_places_read:
  assumes "transfer_sector P False 0 (place_at i) buf e = (e1, buf1, True)"
    "transfer_sector P False 127 (place_at i + 127) buf1 e1 = (e2, buf2, True)" "info_at buf2 = v"
  shows "scan_places P (i # is) mv mi buf e =
    (if vendor_tag v = EMMC_VENDOR_TAG \<and> version2 v = version v \<and> mv < version v
     then scan_places P is (version v) i buf2 e2 else scan_places P is mv mi buf2 e2)"
proof -
  have "EMMC_VENDOR_PART_START + EMMC_VENDOR_PART_SIZE * i = place_at i"
    "EMMC_VENDOR_PART_START + EMMC_VENDOR_PART_SIZE * (i + 1) - 1 = place_at i + 127" "EMMC_VENDOR_PART_SIZE - 1 = 127"
    by (simp_all add: place_at_def EMMC_VENDOR_PART_SIZE_def)
  then show ?thesis using assms by (simp only: scan_places.simps Let_def prod.case simp_thms if_False)
qed

lemma scan_places_pick:
  assumes "card_law P disk" "sectors disk e" "length buf = 65536"
  shows "\<exists>e1 buf1. scan_places P is (fst m) (snd m) buf e = (e1, buf1, Some (pick (disk e) is m))
    \<and> disk e1 = disk e \<and> length buf1 = 65536"
  using assms(2,3)
proof (induction "is" arbitrary: m buf e)
  case (Cons i "is")
  have s: "length (disk e x) = 0x200" for x using Cons.prems(1) by (simp add: sectors_def)
  obtain e1 b1 where e1: "transfer_sector P False 0 (place_at i) buf e = (e1, b1, True)" "disk e1 = disk e"
    and b1: "b1 = put_sector 0 (disk e (place_at i)) buf"
    using transfer_sector_read [OF assms(1)] by metis
  obtain e2 b2 where e2: "transfer_sector P False 127 (place_at i + 127) b1 e1 = (e2, b2, True)" "disk e2 = disk e"
    and b2: "b2 = put_sector 127 (disk e (place_at i + 127)) b1"
    using transfer_sector_read [OF assms(1)] e1(2) by metis
  have l1: "length b1 = 65536" using Cons.prems(2) s by (simp add: b1 put_sector_length)
  have l2: "length b2 = 65536" using l1 s by (simp add: b2 put_sector_length)
  have secs: "sector 0 b2 = disk e (place_at i)" "sector 127 b2 = disk e (place_at i + 127)"
    using l1 s Cons.prems(2) by (simp_all add: sector_put_sector b1 b2 put_sector_length)
  have w: "vendor_tag (info_at b2) = block_tag (disk e (place_at i))"
    "version (info_at b2) = block_version (disk e (place_at i))"
    "version2 (info_at b2) = block_version2 (disk e (place_at i + 127))"
    by (simp_all only: info_at_words [OF l2] secs)
  let ?m = "if good (disk e) i \<and> fst m < block_version (disk e (place_at i)) then (block_version (disk e (place_at i)), i) else m"
  have "scan_places P (i # is) (fst m) (snd m) buf e = scan_places P is (fst ?m) (snd ?m) b2 e2"
    unfolding scan_places_read [OF e1(1) e2(1) refl] w by (simp add: good_def)
  moreover have "sectors disk e2" using Cons.prems(1) e2(2) by (simp add: sectors_def)
  ultimately show ?case using Cons.IH [OF _ l2, of e2 ?m] by (simp only: pick.simps e2(2))
qed simp

lemma pick_keeps: "\<forall>i \<in> set is. good c i \<longrightarrow> block_version (c (place_at i)) \<le> fst m \<Longrightarrow> pick c is m = m"
  by (induction "is") auto

lemma pick_newest:
  assumes "p \<in> set is" "good c p" "fst m < block_version (c (place_at p))"
    "\<forall>i \<in> set is. i \<noteq> p \<longrightarrow> good c i \<longrightarrow> block_version (c (place_at i)) < block_version (c (place_at p))"
  shows "pick c is m = (block_version (c (place_at p)), p)"
  using assms
proof (induction "is" arbitrary: m)
  case (Cons i "is")
  show ?case
  proof (cases "i = p")
    case True
    then show ?thesis using Cons.prems by (auto intro!: pick_keeps simp: order.strict_iff_order)
  next
    case False
    then show ?thesis using Cons by auto
  qed
qed simp

text \<open>A place that holds the block of \<open>v\<close>, whole.\<close>

lemma block_words:
  assumes "block_at c i = info_bytes v" "sized v" "\<And>a. length (c a) = 0x200"
  shows "block_tag (c (place_at i)) = vendor_tag v" "block_version (c (place_at i)) = version v"
    "block_version2 (c (place_at i + 127)) = version2 v"
proof -
  have l: "length (info_bytes v) = 65536" using info_bytes_length [OF assms(2)] .
  have sec: "sector k (block_at c i) = c (place_at i + k)" if "k < 128" for k
    using that assms(3) by (simp add: block_at_def EMMC_VENDOR_PART_SIZE_def sector_of_concat)
  have "c (place_at i) = sector 0 (info_bytes v)" "c (place_at i + 127) = sector 127 (info_bytes v)"
    using sec [of 0] sec [of 127] assms(1) by simp_all
  then show "block_tag (c (place_at i)) = vendor_tag v" "block_version (c (place_at i)) = version v"
    "block_version2 (c (place_at i + 127)) = version2 v"
    using info_at_words [OF l] info_at_info_bytes [OF assms(2)] by simp_all
qed

text \<open>
  \<open>v\<close> is what a start finds: it is in the place before the next one and newer than all others, or nothing
  was ever written. The last word of another place is an older version, or, on a card that was not
  written before, far from all versions to come.
\<close>

definition stale :: "(nat \<Rightarrow> u8 list) \<Rightarrow> u32 \<Rightarrow> nat \<Rightarrow> bool" where
  "stale c n i \<longleftrightarrow> (block_version2 (c (place_at i + 127)) < n \<or> 2 ^ 31 \<le> block_version2 (c (place_at i + 127)))
     \<and> (good c i \<longrightarrow> block_version (c (place_at i)) < n)"

definition saved_in :: "(nat \<Rightarrow> u8 list) \<Rightarrow> vendor_info \<Rightarrow> nat \<Rightarrow> bool" where
  "saved_in c v p \<longleftrightarrow> p < 4 \<and> unat (next_index v) = (p + 1) mod 4 \<and> block_at c p = info_bytes v \<and> 0 < version v
     \<and> (\<forall>i < 4. i \<noteq> p \<longrightarrow> stale c (version v) i)"

definition on_card :: "(nat \<Rightarrow> u8 list) \<Rightarrow> vendor_info \<Rightarrow> bool" where
  "on_card c v \<longleftrightarrow> (\<exists>p. saved_in c v p) \<or> v = blank_info \<and> (\<forall>i < 4. stale c (version v) i)"

lemma emmc_vendor_storage_init_finds:
  assumes "card_law P disk" "sectors disk e" "length buf = 65536" "wf_vendor v" "on_card (disk e) v"
  obtains e1 where "emmc_vendor_storage_init P buf e = (e1, Some v)" "disk e1 = disk e"
proof -
  obtain e1 b1 where e1: "scan_places P [0..<4] 0 0 buf e = (e1, b1, Some (pick (disk e) [0..<4] (0, 0)))"
      "disk e1 = disk e" "length b1 = 65536"
    using scan_places_pick [OF assms(1-3), of "[0..<4]" "(0, 0)"] by auto
  from assms(5) consider p where "saved_in (disk e) v p" | "v = blank_info" "\<forall>i < 4. stale (disk e) (version v) i"
    by (auto simp: on_card_def)
  then show thesis
  proof cases
    case 1
    have sec: "\<And>a. length (disk e a) = 0x200" using assms(2) by (simp add: sectors_def)
    have sz: "sized v" using assms(4) by (simp add: wf_vendor_def)
    have w: "block_tag (disk e (place_at p)) = vendor_tag v" "block_version (disk e (place_at p)) = version v"
      "block_version2 (disk e (place_at p + 127)) = version2 v"
      using block_words [of "disk e" p v, OF _ sz sec] 1 by (simp_all add: saved_in_def)
    have "pick (disk e) [0..<4] (0, 0) = (block_version (disk e (place_at p)), p)"
      using 1 assms(4) by (intro pick_newest) (auto simp: w good_def wf_vendor_def saved_in_def stale_def)
    moreover have "sectors disk e1" using assms(2) e1(2) by (simp add: sectors_def)
    then obtain e2 where "emmc_vendor_ops P b1 (place_at p) EMMC_VENDOR_PART_SIZE False e1 = (e2, block_at (disk e1) p, True)"
      "disk e2 = disk e1"
      using emmc_vendor_ops_reads [OF assms(1) _ e1(3)] by metis
    ultimately have "emmc_vendor_storage_init P buf e = (e2, Some (info_at (info_bytes v)))" "disk e2 = disk e"
      using e1 1 by (auto simp: emmc_vendor_storage_init_def EMMC_VENDOR_PART_NUM_def w saved_in_def
          place_at_def [symmetric])
    then show thesis using that by (simp add: info_at_info_bytes sz)
  next
    case 2
    have "pick (disk e) [0..<4] (0, 0) = (0, 0)"
      using 2 by (intro pick_keeps) (auto simp: stale_def blank_info_def)
    then show thesis
      using that [of e1] e1 2(1) by (simp add: emmc_vendor_storage_init_def EMMC_VENDOR_PART_NUM_def)
  qed
qed

section \<open>Writing, until the power is lost\<close>

text \<open>A card that loses the power after some writes.\<close>

definition dying :: "'e emmc_port \<Rightarrow> ('e \<times> nat) emmc_port" where
  "dying P = \<lparr>transfer_read = (\<lambda>a old (e, n). let (e1, s, ok) = transfer_read P a old e in ((e1, n), s, ok)),
     transfer_write = (\<lambda>a s (e, n). if n = 0 then ((e, n), False)
       else (let (e1, ok) = transfer_write P a s e in ((e1, n - 1), ok)))\<rparr>"

text \<open>A block of which the first \<open>m\<close> sectors have been written to a place.\<close>

definition partly :: "(nat \<Rightarrow> u8 list) \<Rightarrow> nat \<Rightarrow> u8 list \<Rightarrow> nat \<Rightarrow> nat \<Rightarrow> u8 list" where
  "partly c q bs m a = (if place_at q \<le> a \<and> a < place_at q + min m 128 then sector (a - place_at q) bs else c a)"

lemma dying_writes:
  assumes "card_law P disk"
  shows "disk (fst (fst (emmc_vendor_ops_from (dying P) True addr ks ok bs (e, m)))) a
    = (if a \<in> (\<lambda>k. addr + k) ` set (take m ks) then sector (a - addr) bs else disk e a)"
proof (induction ks arbitrary: ok e m)
  case (Cons k ks)
  show ?case
  proof (cases m)
    case 0
    then show ?thesis using Cons [of False e 0]
      by (simp add: transfer_sector_def dying_def)
  next
    case (Suc n)
    obtain e1 ok1 where w: "transfer_write P (addr + k) (sector k bs) e = (e1, ok1)" by fastforce
    have "disk (fst (transfer_write P (addr + k) (sector k bs) e)) = (disk e)(addr + k := sector k bs)"
      using assms unfolding card_law_def by blast
    then have "disk e1 = (disk e)(addr + k := sector k bs)" using w by simp
    then show ?thesis using Suc w Cons [of ok1 e1 n]
      by (auto simp: transfer_sector_def dying_def)
  qed
qed simp

lemma commit_dying:
  assumes "card_law P disk" "commit (dying P) v (e, m) = (v1, (e1, m1))"
  shows "disk e1 = partly (disk e) (unat (next_index v)) (info_bytes v1) m"
proof
  fix a
  let ?q = "unat (next_index v)"
  have "disk e1 a = (if a \<in> (\<lambda>k. place_at ?q + k) ` set (take m [0..<128]) then sector (a - place_at ?q) (info_bytes v1)
      else disk e a)"
    using assms(2) dying_writes [OF assms(1), of "place_at ?q" "[0..<128]" True "info_bytes v1" e m a]
    by (auto simp: commit_def Let_def emmc_vendor_ops_def place_at_def EMMC_VENDOR_PART_SIZE_def split: prod.splits)
  also have "set (take m [0..<128]) = {..<min m 128}"
    by (cases "m \<le> 128") (auto simp: take_upt)
  also have "a \<in> (\<lambda>k. place_at ?q + k) ` {..<min m 128} \<longleftrightarrow> place_at ?q \<le> a \<and> a < place_at ?q + min m 128"
    by (auto simp: image_iff intro!: bexI [of _ "a - place_at ?q"])
  finally show "disk e1 a = partly (disk e) ?q (info_bytes v1) m a" by (simp add: partly_def)
qed

text \<open>The places do not overlap.\<close>

lemma partly_elsewhere: "i \<noteq> q \<Longrightarrow> k < 128 \<Longrightarrow> partly c q bs m (place_at i + k) = c (place_at i + k)"
  by (cases i q rule: linorder_cases) (auto simp: partly_def place_at_def EMMC_VENDOR_PART_SIZE_def)

lemma partly_here: "k < 128 \<Longrightarrow> partly c q bs m (place_at q + k) = (if k < m then sector k bs else c (place_at q + k))"
  by (simp add: partly_def)

lemma partly_block: "i \<noteq> q \<Longrightarrow> block_at (partly c q bs m) i = block_at c i"
  unfolding block_at_def EMMC_VENDOR_PART_SIZE_def
  by (intro arg_cong [where f = concat] map_cong) (simp_all add: partly_elsewhere)

lemma partly_stale: "i \<noteq> q \<Longrightarrow> stale (partly c q bs m) n i = stale c n i"
  using partly_elsewhere [of i q 0] partly_elsewhere [of i q 127] by (simp add: stale_def good_def)

lemma partly_whole:
  assumes "128 \<le> m" "length bs = 65536"
  shows "block_at (partly c q bs m) q = bs"
proof -
  have "block_at (partly c q bs m) q = concat (map (\<lambda>k. sector k bs) [0..<128])"
    unfolding block_at_def EMMC_VENDOR_PART_SIZE_def using assms(1)
    by (intro arg_cong [where f = concat] map_cong) (simp_all add: partly_here)
  then show ?thesis using sector_concat [of 128 bs] assms(2) by simp
qed

lemma next_version: "(x :: u32) < 2 ^ 31 - 1 \<Longrightarrow> x < x + 1 \<and> x + 1 < 2 ^ 31"
  by (simp add: word_less_nat_alt unat_word_ariths)

text \<open>Until its last sector is written, a block does not count.\<close>

lemma partly_unfinished:
  assumes "m < 128" "stale c n q" "n < 2 ^ 31 - 1" "sized v" "version v = n + 1" "version2 v = n + 1"
  shows "stale (partly c q (info_bytes v) m) n q"
proof -
  have l: "length (info_bytes v) = 65536" using info_bytes_length [OF assms(4)] .
  have last: "partly c q (info_bytes v) m (place_at q + 127) = c (place_at q + 127)"
    using assms(1) partly_here [of 127 c q "info_bytes v" m] by simp
  show ?thesis
  proof (cases "m = 0")
    case True
    then show ?thesis using assms(2) partly_here [of 0 c q "info_bytes v" 0] last by (simp add: stale_def good_def)
  next
    case False
    then have first: "partly c q (info_bytes v) m (place_at q) = sector 0 (info_bytes v)"
      using partly_here [of 0 c q "info_bytes v" m] by simp
    have "block_version (sector 0 (info_bytes v)) = n + 1"
      using info_at_words(2) [OF l] info_at_info_bytes [OF assms(4)] assms(5) by simp
    moreover have "block_version2 (c (place_at q + 127)) \<noteq> n + 1"
      using assms(2) next_version [OF assms(3)] by (auto simp: stale_def)
    ultimately show ?thesis using assms(2) by (auto simp: stale_def good_def first last)
  qed
qed

lemma stale_mono: "stale c n i \<Longrightarrow> n \<le> n' \<Longrightarrow> stale c n' i"
  by (auto simp: stale_def)

lemma saved_stale:
  assumes "saved_in c v p" "sized v" "version2 v = version v" "\<And>a. length (c a) = 0x200" "version v < n'"
  shows "stale c n' p"
  using block_words [of c p v] assms by (auto simp: saved_in_def stale_def)

text \<open>Writing the next block in the next place: up to the last sector the card holds the old one, then the new.\<close>

lemma partly_old_on_card:
  assumes card: "on_card c v" and q: "q = unat (next_index v)" and st: "stale (partly c q bs m) (version v) q"
  shows "on_card (partly c q bs m) v"
proof -
  have others: "stale (partly c q bs m) (version v) i \<longleftrightarrow> i = q \<or> stale c (version v) i" if "i < 4" for i
    using st partly_stale [of i q] by (cases "i = q") auto
  from card consider p where "saved_in c v p" | "v = blank_info" "\<forall>i < 4. stale c (version v) i"
    by (auto simp: on_card_def)
  then show ?thesis
  proof cases
    case 1
    then have "p \<noteq> q" by (auto simp: saved_in_def mod_Suc q split: if_splits)
    then have "saved_in (partly c q bs m) v p"
      using 1 others by (auto simp: saved_in_def partly_block)
    then show ?thesis by (auto simp: on_card_def)
  next
    case 2
    then show ?thesis using others by (auto simp: on_card_def)
  qed
qed

lemma partly_new_on_card:
  assumes card: "on_card c v" "\<And>a. length (c a) = 0x200" and wf: "wf_vendor v" "wf_vendor v1"
    and new: "version v1 = version v + 1" "unat (next_index v1) = (q + 1) mod 4" "version v < version v + 1"
    and q: "q = unat (next_index v)" and m: "128 \<le> m"
  shows "on_card (partly c q (info_bytes v1) m) v1"
proof -
  have sz: "sized v1" "sized v" "version2 v = version v" "q < 4"
    using wf q by (simp_all add: wf_vendor_def EMMC_VENDOR_PART_NUM_def)
  have st: "stale c (version v + 1) i" if "i < 4" "i \<noteq> q" for i
  proof -
    from card(1) consider p where "saved_in c v p" | "\<forall>i < 4. stale c (version v) i" by (auto simp: on_card_def)
    then show ?thesis
    proof cases
      case 1
      then show ?thesis
        using saved_stale [OF 1 sz(2,3) card(2) new(3)] stale_mono [of c "version v" i "version v + 1"] new(3) that
        by (cases "i = p") (auto simp: saved_in_def)
    next
      case 2
      then show ?thesis using stale_mono [of c "version v" i "version v + 1"] new(3) that by simp
    qed
  qed
  have "0 < version v1" using new(3) by (metis new(1) word_gt_0 not_less_iff_gr_or_eq word_not_simps(1))
  then have "saved_in (partly c q (info_bytes v1) m) v1 q"
    using sz new st partly_whole [OF m info_bytes_length [OF sz(1)]] by (auto simp: saved_in_def partly_stale)
  then show ?thesis by (auto simp: on_card_def)
qed

lemma partly_on_card:
  assumes card: "on_card c v" "\<And>a. length (c a) = 0x200" and wf: "wf_vendor v" "wf_vendor v1"
    and new: "version v1 = version v + 1" "unat (next_index v1) = (unat (next_index v) + 1) mod 4"
    and small: "version v < 2 ^ 31 - 1"
  shows "on_card (partly c (unat (next_index v)) (info_bytes v1) m) (if m < 128 then v else v1)"
proof (cases "m < 128")
  case True
  have "stale c (version v) (unat (next_index v))"
    using card(1) wf(1) unfolding on_card_def saved_in_def wf_vendor_def EMMC_VENDOR_PART_NUM_def
    by (auto simp: mod_Suc split: if_splits)
  then have "stale (partly c (unat (next_index v)) (info_bytes v1) m) (version v) (unat (next_index v))"
    using wf(2) new(1) by (intro partly_unfinished [OF True _ small]) (auto simp: wf_vendor_def)
  then show ?thesis using partly_old_on_card [OF card(1) refl] True by simp
next
  case False
  then show ?thesis
    using partly_new_on_card [OF card wf new _ refl, of m] next_version [OF small] by simp
qed

text \<open>The operations on the items leave the words at the ends of the block and the next place alone.\<close>

definition header :: "vendor_info \<Rightarrow> u32 \<times> u16" where
  "header v = (version v, next_index v)"

lemma put_data_header: "put_data off bs v = Some v1 \<Longrightarrow> header v1 = header v"
  by (auto simp: put_data_def header_def split: if_splits)

lemma move_items_header: "move_items js off v = Some (v1, off1) \<Longrightarrow> header v1 = header v"
proof (induction js arbitrary: off v)
  case (Cons j js)
  then show ?case
    by (fastforce simp: Let_def copy_data_def bind_eq_Some_conv header_def dest!: put_data_header split: if_splits)
qed simp

lemma rewrite_item_header: "rewrite_item P k i buf sz v = Some (v1, ok) \<Longrightarrow> header v1 = header v"
  by (auto simp: rewrite_item_def Let_def bind_eq_Some_conv header_def split: if_splits
      dest!: put_data_header move_items_header)

lemma append_item_header: "append_item i buf sz v = Some v1 \<Longrightarrow> header v1 = header v"
  by (auto simp: append_item_def Let_def header_def split: if_splits dest!: put_data_header)

lemma emmc_vendor_write_commits:
  assumes "emmc_vendor_write P (Some v) i buf sz e = Some (Some v', e', 0)"
  obtains v1 where "commit P v1 e = (v', e')" "header v1 = header v"
proof -
  obtain k where k: "find_item v i [0..<unat (item_num v)] = Some k"
    using assms by (auto simp: emmc_vendor_write_def bind_eq_Some_conv)
  show thesis
  proof (cases k)
    case None
    then obtain v1 where v1: "append_item i buf sz v = Some v1"
      using assms k by (auto simp: emmc_vendor_write_def split: if_splits)
    then have "commit P v1 e = (v', e')"
      using assms k None by (cases "commit P v1 e") (auto simp: emmc_vendor_write_def split: if_splits)
    then show thesis using that append_item_header [OF v1] by blast
  next
    case (Some j)
    then obtain v1 ok where v1: "rewrite_item P j i buf sz v = Some (v1, ok)"
      using assms k by (auto simp: emmc_vendor_write_def)
    then have "commit P v1 e = (v', e')"
      using assms k Some by (cases "commit P v1 e") (auto simp: emmc_vendor_write_def split: if_splits)
    then show thesis using that rewrite_item_header [OF v1] by blast
  qed
qed

lemma commit_header:
  assumes "commit P v e = (v', e')" "unat (next_index v) < 4"
  shows "version v' = version v + 1" "unat (next_index v') = (unat (next_index v) + 1) mod 4"
proof -
  have "version v' = version v + 1 \<and> next_index v' = (if next_index v + 1 \<ge> 4 then 0 else next_index v + 1)"
    using assms(1) by (auto simp: commit_def Let_def EMMC_VENDOR_PART_NUM_def split: prod.splits)
  moreover have "unat (next_index v + 1) = unat (next_index v) + 1" using assms(2) by (simp add: unat_word_ariths)
  ultimately show "version v' = version v + 1" "unat (next_index v') = (unat (next_index v) + 1) mod 4"
    using assms(2) by (auto simp: word_le_nat_alt mod_Suc)
qed

text \<open>
  C10: a write that has room and is defined, under an identifier of 16 bits and after fewer than
  2 ^ 31 - 1 writes before it, to a card that keeps whole sectors and holds the storage as it is in memory:
  whatever the number of its 128 sectors that get onto the card before the power is lost, the next start
  finds a well-formed storage, which is that before the write when a sector is missing, and otherwise that
  after it.
\<close>

theorem emmc_vendor_write_power_loss:
  assumes card: "card_law P disk" "sectors disk e" "on_card (disk e) v" "version v < 2 ^ 31 - 1"
    and wr: "wf_vendor v" "i < 2 ^ 16" "length buf = unat sz" "unat sz \<le> 2 ^ 32 - 64"
      "room_for v (ucast i) (unat sz)"
      "stored v (ucast i) = None \<Longrightarrow> unat (item_num v) < VENDOR_ITEMS" "\<not> overlaps v (ucast i) (unat sz)"
    and memory: "length mem = 65536"
  shows "\<exists>v' e' m' w e2. emmc_vendor_write (dying P) (Some v) i buf sz (e, m) = Some (Some v', (e', m'), 0)
    \<and> emmc_vendor_storage_init P mem e' = (e2, Some w) \<and> wf_vendor w \<and> on_card (disk e2) w
    \<and> stored w = (if m < 128 then stored v else (stored v)(ucast i \<mapsto> buf))"
proof -
  have "write_defined v (ucast i) (unat sz)" using wr(5-7) by (simp add: write_defined_def)
  from emmc_vendor_write_law [OF wr(1-4) this, of "dying P" "(e, m)"]
  obtain v' e' m' where w: "emmc_vendor_write (dying P) (Some v) i buf sz (e, m) = Some (Some v', (e', m'), 0)"
    "wf_vendor v'" "stored v' = (stored v)(ucast i \<mapsto> buf)"
    using wr(5) by auto
  obtain v1 where v1: "commit (dying P) v1 (e, m) = (v', (e', m'))" "header v1 = header v"
    using emmc_vendor_write_commits [OF w(1)] .
  have n: "unat (next_index v1) < 4" "next_index v1 = next_index v" "version v1 = version v"
    using v1(2) wr(1) by (simp_all add: header_def wf_vendor_def EMMC_VENDOR_PART_NUM_def)
  note h = commit_header [OF v1(1) n(1), unfolded n]
  have d: "disk e' = partly (disk e) (unat (next_index v)) (info_bytes v') m"
    using commit_dying [OF card(1) v1(1)] by (simp add: n)
  have s: "length (disk e a) = 0x200" for a using card(2) by (simp add: sectors_def)
  have l: "length (info_bytes v') = 65536" using w(2) info_bytes_length by (simp add: wf_vendor_def)
  have s': "sectors disk e'" unfolding sectors_def d using s l by (auto simp: partly_def sector_length)
  let ?w = "if m < 128 then v else v'"
  have oc: "on_card (disk e') ?w" unfolding d by (rule partly_on_card [OF card(3) s wr(1) w(2) h card(4)])
  have wf: "wf_vendor ?w" using wr(1) w(2) by simp
  obtain e2 where "emmc_vendor_storage_init P mem e' = (e2, Some ?w)" "disk e2 = disk e'"
    using emmc_vendor_storage_init_finds [OF card(1) s' memory wf oc] .
  then show ?thesis
    using w oc wf
    by (intro exI [of _ v'] exI [of _ e'] exI [of _ m'] exI [of _ ?w] exI [of _ e2] conjI) simp_all
qed

end
