(* ===== verification/Vendor_Store.thy ===== *)
theory Vendor_Store
  imports Vendor_Card
begin

text \<open>
  The vendor storage as its users see it: the registration of the storage of the eMMC in
  \<open>rk_vendor_storage.c\<close>, the identifiers of \<open>rk_vendor_storage.h\<close>, sequences of writes, and what goes
  wrong outside the conditions under which a write is exact.
\<close>

section \<open>Registration\<close>

text \<open>
  \<open>_vendor_read\<close> and \<open>_vendor_write\<close>: functions of the identifier, the bytes, the size and of what they work
  on; \<open>NULL\<close> is \<open>None\<close>.
\<close>

record 's vendor_registry =
  vendor_read_fn :: "(u32 \<Rightarrow> u32 \<Rightarrow> 's \<Rightarrow> (int \<times> u8 list) option) option"
  vendor_write_fn :: "(u32 \<Rightarrow> u8 list \<Rightarrow> u32 \<Rightarrow> 's \<Rightarrow> ('s \<times> int) option) option"

definition rk_vendor_register ::
  "(u32 \<Rightarrow> u32 \<Rightarrow> 's \<Rightarrow> (int \<times> u8 list) option) option
   \<Rightarrow> (u32 \<Rightarrow> u8 list \<Rightarrow> u32 \<Rightarrow> 's \<Rightarrow> ('s \<times> int) option) option \<Rightarrow> 's vendor_registry \<Rightarrow> int \<times> 's vendor_registry" where
  "rk_vendor_register rd wr g =
     (case vendor_read_fn g of None \<Rightarrow> (0, g\<lparr>vendor_read_fn := rd, vendor_write_fn := wr\<rparr>) | Some f \<Rightarrow> (- 1, g))"

definition rk_vendor_read :: "'s vendor_registry \<Rightarrow> u32 \<Rightarrow> u32 \<Rightarrow> 's \<Rightarrow> (int \<times> u8 list) option" where
  "rk_vendor_read g i sz s = (case vendor_read_fn g of Some f \<Rightarrow> f i sz s | None \<Rightarrow> Some (- 1, []))"

definition rk_vendor_write :: "'s vendor_registry \<Rightarrow> u32 \<Rightarrow> u8 list \<Rightarrow> u32 \<Rightarrow> 's \<Rightarrow> ('s \<times> int) option" where
  "rk_vendor_write g i buf sz s = (case vendor_write_fn g of Some f \<Rightarrow> f i buf sz s | None \<Rightarrow> Some (s, - 1))"

definition is_rk_vendor_ready :: "'s vendor_registry \<Rightarrow> bool" where
  "is_rk_vendor_ready g \<longleftrightarrow> vendor_read_fn g \<noteq> None \<and> vendor_write_fn g \<noteq> None"

text \<open>The registration at the end of \<open>vendor_init_thread\<close>: the functions work on \<open>g_vendor\<close> and the card.\<close>

type_synonym 'e emmc_state = "vendor_info option \<times> 'e"

definition emmc_register :: "'e emmc_port \<Rightarrow> 'e emmc_state vendor_registry \<Rightarrow> int \<times> 'e emmc_state vendor_registry" where
  "emmc_register P g =
     rk_vendor_register (Some (\<lambda>i sz (v, e). emmc_vendor_read v i sz))
       (Some (\<lambda>i buf sz (v, e). map_option (\<lambda>(v1, e1, r). ((v1, e1), r)) (emmc_vendor_write P v i buf sz e))) g"

definition no_vendor :: "'s vendor_registry" where
  "no_vendor = \<lparr>vendor_read_fn = None, vendor_write_fn = None\<rparr>"

text \<open>The identifiers of \<open>rk_vendor_storage.h\<close>.\<close>

definition RSV_ID :: u32 where "RSV_ID = 0"
definition SN_ID :: u32 where "SN_ID = 1"
definition WIFI_MAC_ID :: u32 where "WIFI_MAC_ID = 2"
definition LAN_MAC_ID :: u32 where "LAN_MAC_ID = 3"
definition BT_MAC_ID :: u32 where "BT_MAC_ID = 4"
definition HDCP_14_HDMI_ID :: u32 where "HDCP_14_HDMI_ID = 5"
definition HDCP_14_DP_ID :: u32 where "HDCP_14_DP_ID = 6"
definition HDCP_2X_ID :: u32 where "HDCP_2X_ID = 7"
definition DRM_KEY_ID :: u32 where "DRM_KEY_ID = 8"
definition PLAYREADY_CERT_ID :: u32 where "PLAYREADY_CERT_ID = 9"
definition ATTENTION_KEY_ID :: u32 where "ATTENTION_KEY_ID = 10"
definition PLAYREADY_ROOT_KEY_0_ID :: u32 where "PLAYREADY_ROOT_KEY_0_ID = 11"
definition PLAYREADY_ROOT_KEY_1_ID :: u32 where "PLAYREADY_ROOT_KEY_1_ID = 12"
definition SENSOR_CALIBRATION_ID :: u32 where "SENSOR_CALIBRATION_ID = 13"
definition IMEI_ID :: u32 where "IMEI_ID = 15"
definition LAN_RGMII_DL_ID :: u32 where "LAN_RGMII_DL_ID = 16"
definition EINK_VCOM_ID :: u32 where "EINK_VCOM_ID = 17"

definition vendor_ids :: "u32 list" where
  "vendor_ids = [RSV_ID, SN_ID, WIFI_MAC_ID, LAN_MAC_ID, BT_MAC_ID, HDCP_14_HDMI_ID, HDCP_14_DP_ID, HDCP_2X_ID,
     DRM_KEY_ID, PLAYREADY_CERT_ID, ATTENTION_KEY_ID, PLAYREADY_ROOT_KEY_0_ID, PLAYREADY_ROOT_KEY_1_ID,
     SENSOR_CALIBRATION_ID, IMEI_ID, LAN_RGMII_DL_ID, EINK_VCOM_ID]"

section \<open>A store of items\<close>

text \<open>
  What a user relies on: a write that fits is all or nothing, and a read gives what is held. Data that are
  not larger than those they replace always fit.
\<close>

locale item_store =
  fixes inv :: "'s \<Rightarrow> bool" and held :: "'s \<Rightarrow> 'k \<Rightarrow> 'd option" and known :: "'k \<Rightarrow> 'd \<Rightarrow> bool"
    and fits :: "'s \<Rightarrow> 'k \<Rightarrow> 'd \<Rightarrow> bool" and small :: "'d \<Rightarrow> 'd \<Rightarrow> bool"
    and put :: "'k \<Rightarrow> 'd \<Rightarrow> 's \<Rightarrow> ('s \<times> int) option" and get :: "'k \<Rightarrow> 's \<Rightarrow> 'd option option"
  assumes put_law: "inv s \<Longrightarrow> known k d \<Longrightarrow> fits s k d \<Longrightarrow>
      \<exists>s' r. put k d s = Some (s', r) \<and> inv s' \<and> held s' = (if r = 0 then (held s)(k \<mapsto> d) else held s)"
    and put_none: "inv s \<Longrightarrow> known k d \<Longrightarrow> \<not> fits s k d \<Longrightarrow> put k d s = None"
    and small_fits: "inv s \<Longrightarrow> known k d \<Longrightarrow> (\<And>b. held s k = Some b \<Longrightarrow> small d b) \<Longrightarrow> fits s k d"
    and get_law: "inv s \<Longrightarrow> known k d \<Longrightarrow> get k s = Some (held s k)"

text \<open>Writes one after the other, with their results.\<close>

fun put_all :: "('k \<Rightarrow> 'd \<Rightarrow> 's \<Rightarrow> ('s \<times> int) option) \<Rightarrow> ('k \<times> 'd) list \<Rightarrow> 's \<Rightarrow> ('s \<times> int list) option" where
  "put_all put [] s = Some (s, [])"
| "put_all put ((k, d) # rs) s =
     Option.bind (put k d s) (\<lambda>(s1, r). map_option (\<lambda>(s2, rs2). (s2, r # rs2)) (put_all put rs s1))"

text \<open>Those that succeeded.\<close>

definition accepted :: "('k \<times> 'd) list \<Rightarrow> int list \<Rightarrow> ('k \<times> 'd) list" where
  "accepted rs oks = map fst (filter (\<lambda>(_, r). r = 0) (zip rs oks))"

text \<open>One of the writes does not fit after those before it.\<close>

definition stuck :: "('s \<Rightarrow> 'k \<Rightarrow> 'd \<Rightarrow> bool) \<Rightarrow> ('k \<Rightarrow> 'd \<Rightarrow> 's \<Rightarrow> ('s \<times> int) option) \<Rightarrow> ('k \<times> 'd) list \<Rightarrow> 's \<Rightarrow> bool" where
  "stuck fits put rs s \<longleftrightarrow> (\<exists>n < length rs. \<exists>s1 oks. put_all put (take n rs) s = Some (s1, oks)
     \<and> \<not> fits s1 (fst (rs ! n)) (snd (rs ! n)))"

lemma stuck_Cons:
  assumes "put k d s = Some (s1, r)" "fits s k d"
  shows "stuck fits put ((k, d) # rs) s \<longleftrightarrow> stuck fits put rs s1"
  using assms unfolding stuck_def length_Cons Ex_less_Suc2 by (auto split: prod.splits)

context item_store
begin

lemma put_all_law:
  assumes "inv s" "\<forall>(k, d) \<in> set rs. known k d"
  shows "case put_all put rs s of
      None \<Rightarrow> stuck fits put rs s
    | Some (s', oks) \<Rightarrow> \<not> stuck fits put rs s \<and> length oks = length rs \<and> inv s'
        \<and> held s' = held s ++ map_of (rev (accepted rs oks))"
  using assms
proof (induction rs arbitrary: s)
  case Nil
  then show ?case by (simp add: accepted_def stuck_def)
next
  case (Cons x rs)
  obtain k d where x: "x = (k, d)" by force
  have known: "known k d" using Cons.prems(2) x by auto
  show ?case
  proof (cases "fits s k d")
    case True
    obtain s1 r where s1: "put k d s = Some (s1, r)" "inv s1" "held s1 = (if r = 0 then (held s)(k \<mapsto> d) else held s)"
      using put_law [OF Cons.prems(1) known True] by blast
    note st = stuck_Cons [where fits = fits and put = put and rs = rs, OF s1(1) True]
    have ih: "case put_all put rs s1 of None \<Rightarrow> stuck fits put rs s1
      | Some (s', oks) \<Rightarrow> \<not> stuck fits put rs s1 \<and> length oks = length rs \<and> inv s'
          \<and> held s' = held s1 ++ map_of (rev (accepted rs oks))"
      using Cons.IH [OF s1(2)] Cons.prems(2) by simp
    show ?thesis
    proof (cases "put_all put rs s1")
      case None
      then show ?thesis using ih by (simp add: x s1(1) st)
    next
      case (Some p)
      obtain s2 oks where p: "p = (s2, oks)" by force
      have "held s2 = held s ++ map_of (rev (accepted (x # rs) (r # oks)))"
        using s1(3) ih Some by (auto simp: accepted_def x p)
      then show ?thesis using ih Some by (simp add: x s1(1) st p)
    qed
  next
    case False
    have "stuck fits put (x # rs) s" using False unfolding stuck_def by (intro exI [of _ 0]) (simp add: x)
    moreover have "put_all put (x # rs) s = None" by (simp add: x put_none [OF Cons.prems(1) known False])
    ultimately show ?thesis by simp
  qed
qed

lemma put_all_get:
  assumes "inv s" "\<forall>(k, d) \<in> set rs. known k d" "known k d"
  shows "case put_all put rs s of
      None \<Rightarrow> stuck fits put rs s
    | Some (s', oks) \<Rightarrow> \<not> stuck fits put rs s \<and> length oks = length rs
        \<and> get k s' = Some ((held s ++ map_of (rev (accepted rs oks))) k)"
  using put_all_law [OF assms(1,2)] get_law [OF _ assms(3)] by (auto split: option.splits)

text \<open>Nothing gets stuck when no write is larger than another of its key or than what is held.\<close>

lemma put_all_small:
  assumes "inv s" "\<forall>(k, d) \<in> set rs. known k d"
    "\<forall>(k, d) \<in> set rs. (\<forall>b. held s k = Some b \<longrightarrow> small d b) \<and> (\<forall>d'. (k, d') \<in> set rs \<longrightarrow> small d d')"
  shows "put_all put rs s \<noteq> None"
  using assms
proof (induction rs arbitrary: s)
  case (Cons x rs)
  obtain k d where x: "x = (k, d)" by force
  have "fits s k d" using small_fits [OF Cons.prems(1)] Cons.prems(2,3) x by auto
  then obtain s1 r where s1: "put k d s = Some (s1, r)" "inv s1" "held s1 = (if r = 0 then (held s)(k \<mapsto> d) else held s)"
    using put_law [OF Cons.prems(1)] Cons.prems(2) x by force
  have "put_all put rs s1 \<noteq> None"
    by (rule Cons.IH [OF s1(2)]) (use Cons.prems(2,3) s1(3) x in \<open>auto split: if_splits\<close>)
  then show ?case by (auto simp: x s1(1))
qed simp

end

section \<open>The eMMC as such a store\<close>

text \<open>The state of the registered storage is well-formed and holds items of the known identifiers only.\<close>

definition known_ids :: "u16 set" where
  "known_ids = ucast ` set vendor_ids"

definition vendor_inv :: "'e emmc_state \<Rightarrow> bool" where
  "vendor_inv s \<longleftrightarrow> (case fst s of None \<Rightarrow> False | Some v \<Rightarrow> wf_vendor v \<and> dom (stored v) \<subseteq> known_ids)"

definition vendor_held :: "'e emmc_state \<Rightarrow> u16 \<Rightarrow> u8 list option" where
  "vendor_held s i = Option.bind (fst s) (\<lambda>v. stored v i)"

definition vendor_known :: "u16 \<Rightarrow> u8 list \<Rightarrow> bool" where
  "vendor_known i bs \<longleftrightarrow> i \<in> known_ids \<and> length bs < 2 ^ 16"

definition emmc_registry :: "'e emmc_port \<Rightarrow> 'e emmc_state vendor_registry" where
  "emmc_registry P = snd (emmc_register P no_vendor)"

text \<open>A write does not make items move onto bytes they hold themselves.\<close>

definition vendor_fits :: "'e emmc_state \<Rightarrow> u16 \<Rightarrow> u8 list \<Rightarrow> bool" where
  "vendor_fits s i bs \<longleftrightarrow>
     (case fst s of None \<Rightarrow> False | Some v \<Rightarrow> room_for v i (length bs) \<longrightarrow> \<not> overlaps v i (length bs))"

text \<open>Bytes that fit in the space that others take, a multiple of 64.\<close>

definition vendor_small :: "u8 list \<Rightarrow> u8 list \<Rightarrow> bool" where
  "vendor_small bs old \<longleftrightarrow> length bs \<le> up64 (length old)"

definition vendor_put :: "'e emmc_port \<Rightarrow> u16 \<Rightarrow> u8 list \<Rightarrow> 'e emmc_state \<Rightarrow> ('e emmc_state \<times> int) option" where
  "vendor_put P i bs s = rk_vendor_write (emmc_registry P) (ucast i) bs (of_nat (length bs)) s"

definition vendor_get :: "'e emmc_port \<Rightarrow> u16 \<Rightarrow> 'e emmc_state \<Rightarrow> u8 list option option" where
  "vendor_get P i s =
     map_option (\<lambda>(r, bs). if r < 0 then None else Some bs) (rk_vendor_read (emmc_registry P) (ucast i) 0xffff s)"

lemma dom_stored: "dom (stored v) = item_id ` set (used_items v)"
  by (force simp: stored_def dom_map_of_conv_image_fst)

lemma item_num_card: "wf_vendor v \<Longrightarrow> unat (item_num v) = card (dom (stored v))"
  using distinct_card [of "map item_id (used_items v)"]
  by (simp add: dom_stored used_items_length wf_vendor_def)

lemma card_known: "card known_ids \<le> 17" "finite known_ids"
proof -
  have "card known_ids \<le> card (set vendor_ids)" unfolding known_ids_def by (rule card_image_le) simp
  also have "\<dots> \<le> length vendor_ids" by (rule card_length)
  finally show "card known_ids \<le> 17" by (simp add: vendor_ids_def)
qed (simp add: known_ids_def)

lemma ucast_u16: "(ucast (ucast (i :: u16) :: u32) :: u16) = i" "(ucast i :: u32) < 2 ^ 16"
proof -
  show "(ucast (ucast i :: u32) :: u16) = i" by (rule bit_word_eqI) (simp add: bit_simps)
  show "(ucast i :: u32) < 2 ^ 16"
    using unsigned_less [of i] by (simp add: word_less_nat_alt unat_ucast_size) 
qed

lemma overlaps_stored: "wf_vendor v \<Longrightarrow> overlaps v i n \<Longrightarrow> \<exists>bs. stored v i = Some bs \<and> up64 (length bs) < n"
proof -
  assume wf: "wf_vendor v" and o: "overlaps v i n"
  obtain x B where d: "dropWhile (\<lambda>it. item_id it \<noteq> i) (used_items v) = x # B"
    using o by (auto simp: overlaps_def split: list.splits)
  obtain A where u: "used_items v = A @ x # B" using takeWhile_dropWhile_id d by metis
  have i: "item_id x = i" using hd_dropWhile [of "\<lambda>it. item_id it \<noteq> i" "used_items v"] d by simp
  have "up64 (length (content (vendor_data v) x)) = extent x"
    using content_length [of x "vendor_data v"] item_fits [OF wf, of x] u by (simp add: extent_def)
  then show ?thesis
    using stored_found [OF u wf] overlaps_found [OF wf u i] o i by simp
qed

lemma vendor_put_result:
  assumes "vendor_inv s" "vendor_known i bs"
  shows "if vendor_fits s i bs
    then \<exists>s' r. vendor_put P i bs s = Some (s', r) \<and> vendor_inv s'
      \<and> vendor_held s' = (if r = 0 then (vendor_held s)(i \<mapsto> bs) else vendor_held s)
    else vendor_put P i bs s = None"
proof -
  obtain v e where s: "s = (Some v, e)" "wf_vendor v" "dom (stored v) \<subseteq> known_ids"
    using assms(1) by (cases s) (auto simp: vendor_inv_def split: option.splits)
  have i: "i \<in> known_ids" and l: "length bs < 2 ^ 16" using assms(2) by (simp_all add: vendor_known_def)
  then have sz: "unat (of_nat (length bs) :: u32) = length bs"
    by (simp add: unat_of_nat take_bit_nat_eq_self)
  have "unat (item_num v) \<le> 17"
    using item_num_card [OF s(2)] card_mono [OF card_known(2) s(3)] card_known(1) by simp
  then have num: "unat (item_num v) < VENDOR_ITEMS" by (simp add: VENDOR_sizes)
  have d: "write_defined v i (length bs) \<longleftrightarrow> vendor_fits s i bs"
    using num overlaps_stored [OF s(2), of i "length bs"] by (auto simp: write_defined_def vendor_fits_def s(1))
  have p: "vendor_put P i bs s
      = map_option (\<lambda>(v1, e1, r). ((v1, e1), r)) (emmc_vendor_write P (Some v) (ucast i) bs (of_nat (length bs)) e)"
    by (simp add: vendor_put_def rk_vendor_write_def emmc_registry_def emmc_register_def rk_vendor_register_def
        no_vendor_def s(1))
  have w: "written v i bs e (emmc_vendor_write P (Some v) (ucast i) bs (of_nat (length bs)) e)"
    using emmc_vendor_write_written [OF s(2) ucast_u16(2), of bs "of_nat (length bs)" i e P] sz l by (simp add: ucast_u16)
  show ?thesis
  proof (cases "emmc_vendor_write P (Some v) (ucast i) bs (of_nat (length bs)) e")
    case None
    then show ?thesis using w d p by (simp add: written_def)
  next
    case (Some q)
    then obtain v' e' r where q: "q = (Some v', e', r)" "wf_vendor v'" "vendor_fits s i bs"
      "stored v' = (if r = 0 then (stored v)(i \<mapsto> bs) else stored v)"
      using w d by (cases q) (auto simp: written_def split: if_splits)
    have "vendor_inv (Some v', e')" using q(2,4) s(3) i by (auto simp: vendor_inv_def split: if_splits)
    moreover have "vendor_held (Some v', e') = (if r = 0 then (vendor_held s)(i \<mapsto> bs) else vendor_held s)"
      using q(4) by (auto simp: vendor_held_def s(1))
    ultimately show ?thesis using p q(1,3) Some by auto
  qed
qed

lemma vendor_put_law:
  assumes "vendor_inv s" "vendor_known i bs"
  shows "vendor_fits s i bs \<Longrightarrow> \<exists>s' r. vendor_put P i bs s = Some (s', r) \<and> vendor_inv s'
      \<and> vendor_held s' = (if r = 0 then (vendor_held s)(i \<mapsto> bs) else vendor_held s)"
    and "\<not> vendor_fits s i bs \<Longrightarrow> vendor_put P i bs s = None"
  using vendor_put_result [OF assms, of P] by simp_all

lemma vendor_small_fits:
  assumes "vendor_inv s" "\<And>b. vendor_held s i = Some b \<Longrightarrow> vendor_small bs b"
  shows "vendor_fits s i bs"
proof -
  obtain v e where s: "s = (Some v, e)" "wf_vendor v"
    using assms(1) by (cases s) (auto simp: vendor_inv_def split: option.splits)
  show ?thesis
    using assms(2) overlaps_stored [OF s(2), of i "length bs"]
    by (auto simp: vendor_fits_def vendor_held_def vendor_small_def s(1))
qed

lemma vendor_get_law:
  assumes "vendor_inv s"
  shows "vendor_get P i s = Some (vendor_held s i)"
proof -
  obtain v e where s: "s = (Some v, e)" "wf_vendor v"
    using assms by (cases s) (auto simp: vendor_inv_def split: option.splits)
  have r: "vendor_get P i s = map_option (\<lambda>(r, bs). if r < 0 then None else Some bs) (emmc_vendor_read (Some v) (ucast i) 0xffff)"
    by (simp add: vendor_get_def rk_vendor_read_def emmc_registry_def emmc_register_def rk_vendor_register_def
        no_vendor_def s(1))
  show ?thesis
  proof (cases "stored v i")
    case None
    then show ?thesis unfolding r by (simp add: emmc_vendor_read_law [OF s(2) ucast_u16(2)] ucast_u16 vendor_held_def s(1))
  next
    case (Some bs)
    then obtain x where x: "x \<in> set (used_items v)" "bs = content (vendor_data v) x"
      unfolding stored_def by (auto dest!: map_of_SomeD)
    have "unat (item_size x) < 65536" using unsigned_less [of "item_size x"] by simp
    then have "length bs \<le> 65535" by (simp add: x(2) content_def)
    then show ?thesis
      unfolding r using Some by (simp add: emmc_vendor_read_law [OF s(2) ucast_u16(2)] ucast_u16 vendor_held_def s(1))
  qed
qed

interpretation emmc: item_store vendor_inv vendor_held vendor_known vendor_fits vendor_small "vendor_put P" "vendor_get P"
  by unfold_locales (rule vendor_put_law vendor_small_fits vendor_get_law; assumption)+

text \<open>
  C11: any writes of fewer than 2 ^ 16 bytes under the identifiers of the header, through
  \<open>rk_vendor_write\<close> on the registered eMMC, of which some may have found no room. Either one of them, after
  those before it, would have to move an item onto bytes it holds itself, which C leaves undefined; or all
  return, and \<open>rk_vendor_read\<close> of an identifier gives the bytes of the last write that returned 0, or what was
  there before. All return when no write needs more 64-byte units than another of its identifier or than
  what is held under it.
\<close>

theorem rk_vendor_last_write_read:
  assumes "vendor_inv s" "\<forall>(i, bs) \<in> set rs. vendor_known i bs" "vendor_known i bs"
  shows "(case put_all (vendor_put P) rs s of
      None \<Rightarrow> stuck vendor_fits (vendor_put P) rs s
    | Some (s', oks) \<Rightarrow> \<not> stuck vendor_fits (vendor_put P) rs s \<and> length oks = length rs
        \<and> vendor_get P i s' = Some ((vendor_held s ++ map_of (rev (accepted rs oks))) i))
    \<and> ((\<forall>(k, d) \<in> set rs. (\<forall>b. vendor_held s k = Some b \<longrightarrow> vendor_small d b)
          \<and> (\<forall>d'. (k, d') \<in> set rs \<longrightarrow> vendor_small d d'))
       \<longrightarrow> put_all (vendor_put P) rs s \<noteq> None)"
  using emmc.put_all_get [OF assms] emmc.put_all_small [OF assms(1,2)] by blast

lemma wf_blank: "wf_vendor blank_info" "stored blank_info = Map.empty"
  by (auto simp: wf_vendor_def blank_info_def used_items_def stored_def sized_def VENDOR_sizes EMMC_VENDOR_PART_NUM_def)

lemma known_2: "vendor_known 2 (replicate 6 7)"
proof -
  have "(2 :: u16) = ucast WIFI_MAC_ID" by (simp add: WIFI_MAC_ID_def)
  then show ?thesis by (auto simp: vendor_known_def known_ids_def vendor_ids_def)
qed

end
