(* ===== verification/Vendor_Faults.thy ===== *)
theory Vendor_Faults
  imports Vendor_Store
begin

text \<open>
  What goes wrong in the vendor storage outside the conditions under which a write is exact, and examples
  at which the properties of the storage apply.
\<close>

text \<open>A card in memory.\<close>

definition sim_card :: "(nat \<Rightarrow> u8 list) emmc_port" where
  "sim_card = \<lparr>transfer_read = (\<lambda>a old c. (c, c a, True)), transfer_write = (\<lambda>a s c. (c(a := s), True))\<rparr>"

definition zero_card :: "nat \<Rightarrow> u8 list" where
  "zero_card a = replicate 0x200 0"

section \<open>Identifiers of more than 16 bits\<close>

lemma find_item_wide:
  "2 ^ 16 \<le> i \<Longrightarrow> \<forall>k \<in> set ks. k < length (item v) \<Longrightarrow> find_item v i ks = Some None"
proof (induction ks)
  case (Cons k ks)
  have "(ucast (item_id (item v ! k)) :: u32) < 2 ^ 16" by (rule ucast_u16(2))
  then show ?case using Cons by auto
qed simp

text \<open>
  an item that is written under a larger identifier takes its space and is reported as written, but
  is never found again: every further write appends one more.
\<close>

theorem wide_identifier_is_lost:
  assumes "wf_vendor v" "2 ^ 16 \<le> i" "align64 sz \<le> ucast (free_size v)" "unat sz \<le> 2 ^ 32 - 64"
    "length buf = unat sz" "unat (item_num v) < VENDOR_ITEMS"
  shows "\<exists>v' e'. emmc_vendor_write P (Some v) i buf sz e = Some (Some v', e', 0)
    \<and> item_num v' = item_num v + 1 \<and> unat (free_size v') = unat (free_size v) - up64 (unat sz)
    \<and> emmc_vendor_read (Some v') i n = Some (- 1, [])"
proof -
  note sizes = write_sizes [OF assms(3,4)]
  have len: "length (item v) = VENDOR_ITEMS" "length (vendor_data v) = VENDOR_DATA"
    and space: "unat (free_offset v) + unat (free_size v) \<le> VENDOR_DATA"
    using assms(1) by (simp_all add: wf_vendor_def sized_def)
  have fits: "unat (free_offset v) + length buf \<le> VENDOR_DATA"
    using space sizes(2) up64_ge [of "unat sz"] assms(5) by simp
  obtain v1 where v1: "append_item i buf sz v = Some v1" "item_num v1 = item_num v + 1" "length (item v1) = VENDOR_ITEMS"
    "free_size v1 = free_size v - ucast (align64 sz)"
    using fits assms(6) len by (fastforce simp: append_item_def Let_def put_data_def)
  obtain v' e' where c: "commit P v1 e = (v', e')" by fastforce
  have v': "item_num v' = item_num v1" "item v' = item v1" "free_size v' = free_size v1"
    using c by (auto simp: commit_def Let_def split: prod.splits)
  have "\<forall>k \<in> set [0..<unat (item_num v)]. k < length (item v)" using assms(6) len by simp
  then have "emmc_vendor_write P (Some v) i buf sz e = Some (Some v', e', 0)"
    using find_item_wide [OF assms(2)] assms(3) v1(1) c by (simp add: emmc_vendor_write_def)
  moreover have "unat (item_num v + 1) = unat (item_num v) + 1"
    using assms(6) by (simp add: unat_word_ariths VENDOR_sizes)
  then have "\<forall>k \<in> set [0..<unat (item_num v')]. k < length (item v')"
    using assms(6) v1 v' by simp
  then have "emmc_vendor_read (Some v') i n = Some (- 1, [])"
    using find_item_wide [OF assms(2)] by (simp add: emmc_vendor_read_def)
  moreover have "unat (free_size v') = unat (free_size v) - up64 (unat sz)"
    using sizes(2,4) by (simp add: v' v1 unat_sub word_le_nat_alt)
  ultimately show ?thesis using v1(2) v'(1) by auto
qed

theorem wide_identifier_is_lost_witness:
  "\<exists>v' e'. emmc_vendor_write sim_card (Some blank_info) 0x10002 [7] 1 zero_card = Some (Some v', e', 0)
    \<and> item_num v' = item_num blank_info + 1 \<and> unat (free_size v') = unat (free_size blank_info) - up64 (unat (1 :: u32))
    \<and> emmc_vendor_read (Some v') 0x10002 1 = Some (- 1, [])"
  by (rule wide_identifier_is_lost [OF wf_blank(1)])
    (simp_all add: blank_info_def align64_def VENDOR_sizes)

section \<open>The end of the array of items\<close>

text \<open>
  with 126 items a further one is written beyond the array, into the data, as long as there is
  space for its bytes.
\<close>

theorem full_storage_is_overrun:
  assumes "wf_vendor v" "unat (item_num v) = VENDOR_ITEMS" "i < 2 ^ 16" "stored v (ucast i) = None"
    "align64 sz \<le> ucast (free_size v)"
  shows "emmc_vendor_write P (Some v) i buf sz e = None"
  using assms(1,3)
proof (cases rule: find_item_cases)
  case (found A x B C)
  then show ?thesis using assms(4) stored_found [OF found(3) assms(1)] by simp
next
  case absent
  then show ?thesis using assms by (simp add: emmc_vendor_write_def append_item_def wf_vendor_def sized_def)
qed

definition full_info :: vendor_info where
  "full_info = blank_info\<lparr>item_num := 126, free_offset := 0, item := map (\<lambda>k. blank_item\<lparr>item_id := of_nat k\<rparr>) [0..<126]\<rparr>"

lemma laid_empty: "\<forall>x \<in> set xs. item_offset x = 0 \<and> item_size x = 0 \<Longrightarrow> laid 0 xs 0"
  by (induction xs) (simp_all add: extent_def up64_def)

lemma wf_full: "wf_vendor full_info"
proof -
  have "inj_on (\<lambda>k. of_nat k :: u16) {0..<126}"
    by (auto simp: inj_on_def word_unat_eq_iff unat_of_nat take_bit_nat_eq_self)
  then have "distinct (map item_id (used_items full_info))"
    by (simp add: full_info_def used_items_def distinct_map comp_def inj_on_def)
  moreover have "laid 0 (used_items full_info) 0"
    by (intro laid_empty) (auto simp: full_info_def used_items_def blank_item_def)
  ultimately show ?thesis
    using wf_blank(1) by (simp add: wf_vendor_def full_info_def sized_def VENDOR_sizes)
qed

theorem full_storage_is_overrun_witness:
  "emmc_vendor_write sim_card (Some full_info) 200 [7] 1 zero_card = None"
proof (rule full_storage_is_overrun [OF wf_full])
  show "stored full_info (ucast (200 :: u32)) = None"
  proof (rule stored_absent, rule notI)
    assume "ucast (200 :: u32) \<in> item_id ` set (used_items full_info)"
    then obtain k where k: "k < 126" "(200 :: u16) = of_nat k" by (auto simp: full_info_def used_items_def)
    have "unat (of_nat k :: u16) = k" using k(1) by (simp add: unat_of_nat take_bit_nat_eq_self)
    moreover have "unat (200 :: u16) = 200" by simp
    ultimately have "k = 200" using k(2) by metis
    then show False using k(1) by simp
  qed
qed (simp_all add: full_info_def blank_info_def align64_def VENDOR_sizes)

section \<open>Space that is lost\<close>

lemma rewritten:
  assumes "find_item v i [0..<unat (item_num v)] = Some (Some k)" "rewrite_item P k i buf sz v = Some (v1, True)"
    "commit P v1 e = (v2, e2)"
  shows "emmc_vendor_write P (Some v) i buf sz e = Some (Some v2, e2, 0)"
  using assms by (simp add: emmc_vendor_write_def)

lemma item_extent:
  assumes "wf_vendor v" "used_items v = A @ x # B"
  shows "up64 (length (content (vendor_data v) x)) = extent x"
  using content_length [of x "vendor_data v"] item_fits [OF assms(1), of x] assms(2) by (simp add: extent_def)

text \<open>A write that fits the old extent, and one that does not, with the space that is left.\<close>

lemma write_fitting:
  assumes wf: "wf_vendor v" and i: "i < 2 ^ 16" and old: "stored v (ucast i) = Some bs" "unat sz \<le> up64 (length bs)"
    and buf: "length buf = unat sz"
  obtains v' e' where "emmc_vendor_write P (Some v) i buf sz e = Some (Some v', e', 0)" "wf_vendor v'"
    "stored v' = (stored v)(ucast i \<mapsto> buf)" "free_size v' = free_size v"
    "\<And>n. overlaps v' (ucast i) n \<Longrightarrow> overlaps v (ucast i) (Suc (up64 (length bs)))"
  using wf i
proof (cases rule: find_item_cases)
  case (found A x B C)
  have bs: "up64 (length bs) = extent x"
    using stored_found [OF found(3) wf] item_extent [OF wf found(3)] found(4) old(1) by simp
  obtain v1 where v1: "rewrite_item P (length A) i buf sz v = Some (v1, True)" "wf_vendor v1"
    "stored v1 = (stored v)(ucast i \<mapsto> buf)" "free_size v1 = free_size v"
    "used_items v1 = A @ x\<lparr>item_size := ucast sz\<rparr> # B"
    using rewrite_here_spec [OF wf found(2-4) _ buf, of P] old(2) unfolding bs by metis
  obtain v2 e2 where c: "commit P v1 e = (v2, e2)" by fastforce
  note keeps = commit_keeps [OF v1(2) c]
  have "overlaps v (ucast i) (Suc (up64 (length bs)))" if "overlaps v2 (ucast i) n" for n
    using that overlaps_found [of v2 A "x\<lparr>item_size := ucast sz\<rparr>" B "ucast i" n] keeps v1(5) found(4)
      overlaps_found [OF wf found(3,4)] bs by simp
  then show thesis using that [OF rewritten [OF found(1) v1(1) c]] keeps v1(3,4) by simp
next
  case absent
  then show thesis using old(1) stored_absent [OF absent(2)] by simp
qed

lemma write_growing:
  assumes wf: "wf_vendor v" and i: "i < 2 ^ 16" and old: "stored v (ucast i) = Some bs" "up64 (length bs) < unat sz"
    and buf: "length buf = unat sz" and room: "up64 (unat sz) \<le> unat (free_size v)" "unat sz \<le> 2 ^ 32 - 64"
    and apart: "\<not> overlaps v (ucast i) (unat sz)"
  obtains v' e' where "emmc_vendor_write P (Some v) i buf sz e = Some (Some v', e', 0)" "wf_vendor v'"
    "stored v' = (stored v)(ucast i \<mapsto> buf)"
    "unat (free_size v') = unat (free_size v) - (up64 (unat sz) - up64 (length bs))"
  using wf i
proof (cases rule: find_item_cases)
  case (found A x B C)
  have bs: "up64 (length bs) = extent x"
    using stored_found [OF found(3) wf] item_extent [OF wf found(3)] found(4) old(1) by simp
  have r: "align64 sz \<le> ucast (free_size v)" using room(1) by (simp add: room_word [OF room(2)])
  obtain v1 where v1: "rewrite_item P (length A) i buf sz v = Some (v1, True)" "wf_vendor v1"
    "stored v1 = (stored v)(ucast i \<mapsto> buf)" "unat (free_size v1) = unat (free_size v) - (up64 (unat sz) - extent x)"
    using rewrite_grow_spec [OF wf found(2-4) _ r room(2) _ buf, of P] overlaps_found [OF wf found(3,4)] apart old(2)
    unfolding bs by metis
  obtain v2 e2 where c: "commit P v1 e = (v2, e2)" by fastforce
  show thesis using that [OF rewritten [OF found(1) v1(1) c]] commit_keeps [OF v1(2) c] v1(3,4) by (simp add: bs)
next
  case absent
  then show thesis using old(1) stored_absent [OF absent(2)] by simp
qed

text \<open>
  writing fewer bytes into an item and then as many as before costs space although the storage holds
  the same again; done often enough, an almost empty storage has no room.
\<close>

theorem shrinking_loses_space:
  assumes "wf_vendor v" "i < 2 ^ 16" "\<not> overlaps v (ucast i) (Suc (up64 (length bs)))" "stored v (ucast i) = Some bs"
    "length few = unat n" "up64 (unat n) < length bs" "length bs = unat sz" "up64 (length bs) \<le> unat (free_size v)"
  shows "\<exists>v1 e1 v2 e2. emmc_vendor_write P (Some v) i few n e = Some (Some v1, e1, 0)
    \<and> emmc_vendor_write P (Some v1) i bs sz e1 = Some (Some v2, e2, 0)
    \<and> stored v2 = stored v \<and> unat (free_size v2) = unat (free_size v) - (up64 (length bs) - up64 (unat n))"
proof -
  have le: "unat n \<le> up64 (length bs)" using assms(6) up64_ge [of "unat n"] up64_ge [of "length bs"] by simp
  obtain v1 e1 where v1: "emmc_vendor_write P (Some v) i few n e = Some (Some v1, e1, 0)" "wf_vendor v1"
    "stored v1 = (stored v)(ucast i \<mapsto> few)" "free_size v1 = free_size v"
    "\<And>n. overlaps v1 (ucast i) n \<Longrightarrow> overlaps v (ucast i) (Suc (up64 (length bs)))"
    by (rule write_fitting [where P = P and e = e, OF assms(1,2,4) le assms(5)]) blast
  have "unat (free_size v) < 65536" using unsigned_less [of "free_size v"] by simp
  then have n: "unat sz \<le> 2 ^ 32 - 64" using assms(7,8) up64_ge [of "length bs"] by simp
  have "\<not> overlaps v1 (ucast i) (unat sz)" using assms(3) v1(5) by blast
  then obtain v2 e2 where "emmc_vendor_write P (Some v1) i bs sz e1 = Some (Some v2, e2, 0)"
    "stored v2 = (stored v1)(ucast i \<mapsto> bs)"
    "unat (free_size v2) = unat (free_size v1) - (up64 (unat sz) - up64 (length few))"
    using write_growing [OF v1(2) assms(2), of few sz bs P] v1(3,4) n assms(5-8) by (metis fun_upd_same)
  moreover have "(stored v)(ucast i \<mapsto> few, ucast i \<mapsto> bs) = stored v" using assms(4) by (simp add: fun_upd_idem)
  ultimately show ?thesis using v1 assms(5,7) by auto
qed

section \<open>Examples\<close>

text \<open>A storage with one item.\<close>

definition one_info :: vendor_info where
  "one_info = blank_info\<lparr>item_num := 1, free_offset := 128, free_size := of_nat VENDOR_DATA - 128,
     item := (item blank_info)[0 := \<lparr>item_id = 2, item_offset = 0, item_size = 128, item_flag = 0\<rparr>]\<rparr>"

lemma one_info_items: "used_items one_info = [\<lparr>item_id = 2, item_offset = 0, item_size = 128, item_flag = 0\<rparr>]"
  by (simp add: one_info_def blank_info_def used_items_def VENDOR_sizes take_Suc hd_conv_nth)

lemma wf_one: "wf_vendor one_info"
  using wf_blank(1) unfolding wf_vendor_def one_info_items
  by (simp add: one_info_def sized_def VENDOR_sizes extent_def up64_def)

lemma one_free: "unat (free_size one_info) = 64376"
  by (simp add: one_info_def VENDOR_sizes)

lemma stored_one: "stored one_info = [2 \<mapsto> replicate 128 0]"
  by (simp add: stored_def one_info_items) (simp add: content_def one_info_def blank_info_def VENDOR_sizes)

theorem shrinking_loses_space_witness:
  "\<exists>v1 e1 v2 e2. emmc_vendor_write sim_card (Some one_info) 2 [7] 1 zero_card = Some (Some v1, e1, 0)
    \<and> emmc_vendor_write sim_card (Some v1) 2 (replicate 128 0) 128 e1 = Some (Some v2, e2, 0)
    \<and> stored v2 = stored one_info
    \<and> unat (free_size v2) = unat (free_size one_info) - (up64 (length (replicate 128 (0 :: u8))) - up64 (unat (1 :: u32)))"
  by (rule shrinking_loses_space [OF wf_one])
    (simp_all add: overlaps_def one_info_items sim_card_def stored_one up64_def one_free)

theorem emmc_vendor_read_stored_witness:
  "emmc_vendor_read (Some one_info) 2 6 = Some (6, replicate 6 0)"
  using emmc_vendor_read_stored [OF wf_one, of 2 6] by (simp add: stored_one)

text \<open>A storage with two items, of \<open>a\<close> and of \<open>b\<close> bytes.\<close>

definition two_info :: "nat \<Rightarrow> nat \<Rightarrow> vendor_info" where
  "two_info a b = blank_info\<lparr>item_num := 2, free_offset := of_nat (up64 a + up64 b),
     free_size := of_nat (VENDOR_DATA - (up64 a + up64 b)),
     item := (item blank_info)[0 := \<lparr>item_id = 2, item_offset = 0, item_size = of_nat a, item_flag = 0\<rparr>,
       1 := \<lparr>item_id = 1, item_offset = of_nat (up64 a), item_size = of_nat b, item_flag = 0\<rparr>]\<rparr>"

lemma two_info_items: "used_items (two_info a b) = [\<lparr>item_id = 2, item_offset = 0, item_size = of_nat a, item_flag = 0\<rparr>,
    \<lparr>item_id = 1, item_offset = of_nat (up64 a), item_size = of_nat b, item_flag = 0\<rparr>]"
proof -
  have "replicate 126 blank_item = blank_item # blank_item # replicate 124 blank_item"
    by (simp add: numeral_eq_Suc)
  then show ?thesis by (simp add: two_info_def blank_info_def used_items_def VENDOR_sizes)
qed

lemma wf_two: "wf_vendor (two_info 128 6)" "wf_vendor (two_info 6 128)"
  using wf_blank(1) unfolding wf_vendor_def two_info_items
  by (simp_all add: two_info_def sized_def VENDOR_sizes extent_def up64_def)

lemma two_free: "unat (free_size (two_info 128 6)) = 64312" "unat (free_size (two_info 6 128)) = 64312"
  by (simp_all add: two_info_def up64_def VENDOR_sizes)

lemma stored_two: "stored (two_info a b) 2 \<noteq> None"
  by (simp add: stored_def two_info_items)

text \<open>The first item grows: a small one behind it moves up, a larger one would overlap itself.\<close>

theorem emmc_vendor_write_refines_witness:
  "(\<exists>v' e'. emmc_vendor_write sim_card (Some (two_info 128 6)) 2 (replicate 200 7) 200 zero_card = Some (Some v', e', 0)
      \<and> wf_vendor v' \<and> stored v' = (stored (two_info 128 6))(2 \<mapsto> replicate 200 7))
    \<and> emmc_vendor_write sim_card (Some (two_info 6 128)) 2 (replicate 200 7) 200 zero_card = None"
proof -
  have o: "\<not> overlaps (two_info 128 6) 2 200" "overlaps (two_info 6 128) 2 200"
    by (simp_all add: overlaps_def two_info_items extent_def up64_def)
  have r: "room_for (two_info 128 6) 2 200" "room_for (two_info 6 128) 2 200"
    by (simp_all add: room_for_def two_free up64_def)
  show ?thesis
    using emmc_vendor_write_refines [OF wf_two(1), of 2 "replicate 200 7" 200 zero_card sim_card]
      emmc_vendor_write_refines [OF wf_two(2), of 2 "replicate 200 7" 200 zero_card sim_card] o r
    by (simp add: stored_two split: option.splits) auto
qed

theorem info_at_info_bytes_witness: "info_at (info_bytes blank_info) = blank_info"
  by (rule info_at_info_bytes) (use wf_blank(1) in \<open>simp add: wf_vendor_def\<close>)

lemma sim_card_law: "card_law sim_card (\<lambda>c. c)"
  by (auto simp: card_law_def sim_card_def)

lemma blank_on_card: "on_card zero_card blank_info"
  by (auto simp: on_card_def stale_def good_def zero_card_def blank_info_def block_tag_def block_version_def
      block_version2_def word32_def EMMC_VENDOR_TAG_def)

theorem emmc_vendor_write_power_loss_witness:
  "\<exists>v' e' m' w e2. emmc_vendor_write (dying sim_card) (Some blank_info) 1 [7] 1 (zero_card, 5) = Some (Some v', (e', m'), 0)
    \<and> emmc_vendor_storage_init sim_card (replicate 65536 0) e' = (e2, Some w) \<and> wf_vendor w
    \<and> on_card e2 w
    \<and> stored w = (if (5 :: nat) < 128 then stored blank_info else (stored blank_info)(ucast (1 :: u32) \<mapsto> [7]))"
proof (rule emmc_vendor_write_power_loss [OF sim_card_law])
  show "sectors (\<lambda>c. c) zero_card" by (simp add: sectors_def zero_card_def)
  show "on_card zero_card blank_info" by (rule blank_on_card)
  show "room_for blank_info (ucast (1 :: u32)) (unat (1 :: u32))"
    by (simp add: room_for_def blank_info_def VENDOR_sizes up64_def)
qed (use wf_blank in \<open>simp_all add: blank_info_def VENDOR_sizes overlaps_def used_items_def\<close>)

theorem rk_vendor_last_write_read_witness:
  "\<exists>s' oks. put_all (vendor_put sim_card) [(2 :: u16, replicate 6 7), (2, [9])] (Some blank_info, zero_card) = Some (s', oks)
    \<and> length oks = 2
    \<and> vendor_get sim_card 2 s' = Some (map_of (rev (accepted [(2 :: u16, replicate 6 7), (2, [9])] oks)) 2)"
proof -
  let ?s = "(Some blank_info, zero_card)" and ?rs = "[(2 :: u16, replicate 6 (7 :: u8)), (2, [9])]"
  have inv: "vendor_inv ?s" and h: "vendor_held ?s = Map.empty" using wf_blank by (simp_all add: vendor_inv_def vendor_held_def dom_def fun_eq_iff)
  have "vendor_known 2 [9]" using known_2 by (simp add: vendor_known_def)
  then have k: "\<forall>(i, bs) \<in> set ?rs. vendor_known i bs" using known_2 by simp
  have "put_all (vendor_put sim_card) ?rs ?s \<noteq> None"
    using rk_vendor_last_write_read [OF inv k known_2, of sim_card] by (simp add: h vendor_small_def up64_def)
  then show ?thesis
    using rk_vendor_last_write_read [OF inv k known_2, of sim_card] by (auto simp: h split: option.splits)
qed

end
