(* ===== verification/Power_Info.thy ===== *)
theory Power_Info
  imports Prelude
begin

text \<open>
  The power domains of the Rockchip chips, the tables of \<open>common/vendor/drivers/rockchip/pm_domains.c\<close>: which
  bits of which registers of the power management unit switch a domain, ask it to become idle and tell
  its status.
\<close>

section \<open>Domains\<close>

record rockchip_domain_info =
  domain_name :: "string option"
  pwr_mask :: u32
  status_mask :: u32
  req_mask :: u32
  idle_mask :: u32
  ack_mask :: u32
  active_wakeup :: bool
  pwr_w_mask :: u32
  req_w_mask :: u32
  repair_status_mask :: u32
  keepon_startup :: bool
  domain_pwr_offset :: u32
  domain_req_offset :: u32

text \<open>Fields that an initialiser does not name are zero; so is an element of the array without one.\<close>

definition no_domain_info :: rockchip_domain_info where
  "no_domain_info = \<lparr>domain_name = None, pwr_mask = 0, status_mask = 0, req_mask = 0, idle_mask = 0, ack_mask = 0,
     active_wakeup = False, pwr_w_mask = 0, req_w_mask = 0, repair_status_mask = 0, keepon_startup = False,
     domain_pwr_offset = 0, domain_req_offset = 0\<rparr>"

definition DOMAIN :: "string \<Rightarrow> u32 \<Rightarrow> u32 \<Rightarrow> u32 \<Rightarrow> u32 \<Rightarrow> u32 \<Rightarrow> bool \<Rightarrow> bool \<Rightarrow> rockchip_domain_info" where
  "DOMAIN nm pwr status req idle ack wakeup keepon = no_domain_info
     \<lparr>domain_name := Some nm, pwr_mask := pwr, status_mask := status, req_mask := req, idle_mask := idle,
      ack_mask := ack, active_wakeup := wakeup, keepon_startup := keepon\<rparr>"

definition DOMAIN_M :: "string \<Rightarrow> u32 \<Rightarrow> u32 \<Rightarrow> u32 \<Rightarrow> u32 \<Rightarrow> u32 \<Rightarrow> bool \<Rightarrow> bool \<Rightarrow> rockchip_domain_info" where
  "DOMAIN_M nm pwr status req idle ack wakeup keepon = no_domain_info
     \<lparr>domain_name := Some nm, pwr_w_mask := push_bit 16 pwr, pwr_mask := pwr, status_mask := status,
      req_w_mask := push_bit 16 req, req_mask := req, idle_mask := idle, ack_mask := ack,
      active_wakeup := wakeup, keepon_startup := keepon\<rparr>"

definition DOMAIN_M_O ::
  "string \<Rightarrow> u32 \<Rightarrow> u32 \<Rightarrow> u32 \<Rightarrow> u32 \<Rightarrow> u32 \<Rightarrow> u32 \<Rightarrow> u32 \<Rightarrow> bool \<Rightarrow> bool \<Rightarrow> rockchip_domain_info" where
  "DOMAIN_M_O nm pwr status p_offset req idle ack r_offset wakeup keepon =
     (DOMAIN_M nm pwr status req idle ack wakeup keepon)\<lparr>domain_pwr_offset := p_offset, domain_req_offset := r_offset\<rparr>"

definition DOMAIN_M_O_R ::
  "string \<Rightarrow> u32 \<Rightarrow> u32 \<Rightarrow> u32 \<Rightarrow> u32 \<Rightarrow> u32 \<Rightarrow> u32 \<Rightarrow> u32 \<Rightarrow> u32 \<Rightarrow> bool \<Rightarrow> bool \<Rightarrow> rockchip_domain_info" where
  "DOMAIN_M_O_R nm p_offset pwr status r_status r_offset req idle ack wakeup keepon =
     (DOMAIN_M nm pwr status req idle ack wakeup keepon)
     \<lparr>domain_pwr_offset := p_offset, repair_status_mask := r_status, domain_req_offset := r_offset\<rparr>"

definition DOMAIN_RK3036 :: "string \<Rightarrow> u32 \<Rightarrow> u32 \<Rightarrow> u32 \<Rightarrow> bool \<Rightarrow> rockchip_domain_info" where
  "DOMAIN_RK3036 nm req ack idle wakeup = no_domain_info
     \<lparr>domain_name := Some nm, req_mask := req, req_w_mask := push_bit 16 req, ack_mask := ack, idle_mask := idle,
      active_wakeup := wakeup\<rparr>"

definition DOMAIN_PX30 :: "string \<Rightarrow> u32 \<Rightarrow> u32 \<Rightarrow> u32 \<Rightarrow> bool \<Rightarrow> rockchip_domain_info" where
  "DOMAIN_PX30 nm pwr status req wakeup = DOMAIN_M nm pwr status req (push_bit 16 req) req wakeup False"

definition DOMAIN_PX30_PROTECT :: "string \<Rightarrow> u32 \<Rightarrow> u32 \<Rightarrow> u32 \<Rightarrow> bool \<Rightarrow> rockchip_domain_info" where
  "DOMAIN_PX30_PROTECT nm pwr status req wakeup = DOMAIN_M nm pwr status req (push_bit 16 req) req wakeup True"

definition DOMAIN_RV1126 :: "string \<Rightarrow> u32 \<Rightarrow> u32 \<Rightarrow> u32 \<Rightarrow> bool \<Rightarrow> rockchip_domain_info" where
  "DOMAIN_RV1126 nm pwr req idle wakeup = DOMAIN_M nm pwr pwr req idle idle wakeup False"

definition DOMAIN_RV1126_PROTECT :: "string \<Rightarrow> u32 \<Rightarrow> u32 \<Rightarrow> u32 \<Rightarrow> bool \<Rightarrow> rockchip_domain_info" where
  "DOMAIN_RV1126_PROTECT nm pwr req idle wakeup = DOMAIN_M nm pwr pwr req idle idle wakeup True"

definition DOMAIN_RV1126_O :: "string \<Rightarrow> u32 \<Rightarrow> u32 \<Rightarrow> u32 \<Rightarrow> u32 \<Rightarrow> bool \<Rightarrow> rockchip_domain_info" where
  "DOMAIN_RV1126_O nm pwr req idle r_offset wakeup = DOMAIN_M_O nm pwr pwr 0 req idle idle r_offset wakeup False"

definition DOMAIN_RK3288 :: "string \<Rightarrow> u32 \<Rightarrow> u32 \<Rightarrow> u32 \<Rightarrow> bool \<Rightarrow> rockchip_domain_info" where
  "DOMAIN_RK3288 nm pwr status req wakeup = DOMAIN nm pwr status req req (push_bit 16 req) wakeup False"

definition DOMAIN_RK3288_PROTECT :: "string \<Rightarrow> u32 \<Rightarrow> u32 \<Rightarrow> u32 \<Rightarrow> bool \<Rightarrow> rockchip_domain_info" where
  "DOMAIN_RK3288_PROTECT nm pwr status req wakeup = DOMAIN nm pwr status req req (push_bit 16 req) wakeup True"

definition DOMAIN_RK3328 :: "string \<Rightarrow> u32 \<Rightarrow> u32 \<Rightarrow> u32 \<Rightarrow> bool \<Rightarrow> rockchip_domain_info" where
  "DOMAIN_RK3328 nm pwr status req wakeup = DOMAIN_M nm pwr pwr req (push_bit 10 req) req wakeup False"

definition DOMAIN_RK3368 :: "string \<Rightarrow> u32 \<Rightarrow> u32 \<Rightarrow> u32 \<Rightarrow> bool \<Rightarrow> rockchip_domain_info" where
  "DOMAIN_RK3368 nm pwr status req wakeup = DOMAIN nm pwr status req (push_bit 16 req) req wakeup False"

definition DOMAIN_RK3368_PROTECT :: "string \<Rightarrow> u32 \<Rightarrow> u32 \<Rightarrow> u32 \<Rightarrow> bool \<Rightarrow> rockchip_domain_info" where
  "DOMAIN_RK3368_PROTECT nm pwr status req wakeup = DOMAIN nm pwr status req (push_bit 16 req) req wakeup True"

definition DOMAIN_RK3399 :: "string \<Rightarrow> u32 \<Rightarrow> u32 \<Rightarrow> u32 \<Rightarrow> bool \<Rightarrow> rockchip_domain_info" where
  "DOMAIN_RK3399 nm pwr status req wakeup = DOMAIN nm pwr status req req req wakeup False"

definition DOMAIN_RK3399_PROTECT :: "string \<Rightarrow> u32 \<Rightarrow> u32 \<Rightarrow> u32 \<Rightarrow> bool \<Rightarrow> rockchip_domain_info" where
  "DOMAIN_RK3399_PROTECT nm pwr status req wakeup = DOMAIN nm pwr status req req req wakeup True"

definition DOMAIN_RK3568 :: "string \<Rightarrow> u32 \<Rightarrow> u32 \<Rightarrow> bool \<Rightarrow> rockchip_domain_info" where
  "DOMAIN_RK3568 nm pwr req wakeup = DOMAIN_M nm pwr pwr req req req wakeup False"

definition DOMAIN_RK3568_PROTECT :: "string \<Rightarrow> u32 \<Rightarrow> u32 \<Rightarrow> bool \<Rightarrow> rockchip_domain_info" where
  "DOMAIN_RK3568_PROTECT nm pwr req wakeup = DOMAIN_M nm pwr pwr req req req wakeup True"

definition DOMAIN_RK3588 ::
  "string \<Rightarrow> u32 \<Rightarrow> u32 \<Rightarrow> u32 \<Rightarrow> u32 \<Rightarrow> u32 \<Rightarrow> u32 \<Rightarrow> u32 \<Rightarrow> bool \<Rightarrow> rockchip_domain_info" where
  "DOMAIN_RK3588 nm p_offset pwr status r_status r_offset req idle wakeup =
     DOMAIN_M_O_R nm p_offset pwr status r_status r_offset req idle idle wakeup False"

definition DOMAIN_RK3588_P ::
  "string \<Rightarrow> u32 \<Rightarrow> u32 \<Rightarrow> u32 \<Rightarrow> u32 \<Rightarrow> u32 \<Rightarrow> u32 \<Rightarrow> u32 \<Rightarrow> bool \<Rightarrow> rockchip_domain_info" where
  "DOMAIN_RK3588_P nm p_offset pwr status r_status r_offset req idle wakeup =
     DOMAIN_M_O_R nm p_offset pwr status r_status r_offset req idle idle wakeup True"

section \<open>The domains of the chips\<close>

text \<open>The initialisers of each array, in their order; where in the array they stand comes below.\<close>

definition px30_pm_domains :: "rockchip_domain_info list" where
  "px30_pm_domains =
     [DOMAIN_PX30 ''usb'' (BIT 5) (BIT 5) (BIT 10) True,
      DOMAIN_PX30 ''sdcard'' (BIT 8) (BIT 8) (BIT 9) False,
      DOMAIN_PX30 ''gmac'' (BIT 10) (BIT 10) (BIT 6) False,
      DOMAIN_PX30 ''mmc_nand'' (BIT 11) (BIT 11) (BIT 5) False,
      DOMAIN_PX30 ''vpu'' (BIT 12) (BIT 12) (BIT 14) False,
      DOMAIN_PX30_PROTECT ''vo'' (BIT 13) (BIT 13) (BIT 7) False,
      DOMAIN_PX30_PROTECT ''vi'' (BIT 14) (BIT 14) (BIT 8) False,
      DOMAIN_PX30 ''gpu'' (BIT 15) (BIT 15) (BIT 2) False]"

definition rv1126_pm_domains :: "rockchip_domain_info list" where
  "rv1126_pm_domains =
     [DOMAIN_RV1126_O ''crypto'' (BIT 10) (BIT 4) (BIT 20) 0x4 False,
      DOMAIN_RV1126 ''vepu'' (BIT 2) (BIT 9) (BIT 9) False,
      DOMAIN_RV1126 ''vi'' (BIT 4) (BIT 6) (BIT 6) False,
      DOMAIN_RV1126_PROTECT ''vo'' (BIT 5) (BIT 7) (BIT 7) False,
      DOMAIN_RV1126 ''ispp'' (BIT 1) (BIT 8) (BIT 8) False,
      DOMAIN_RV1126 ''vdpu'' (BIT 3) (BIT 10) (BIT 10) False,
      DOMAIN_RV1126 ''nvm'' (BIT 7) (BIT 11) (BIT 11) False,
      DOMAIN_RV1126 ''sdio'' (BIT 8) (BIT 13) (BIT 13) False,
      DOMAIN_RV1126 ''usb'' (BIT 9) (BIT 15) (BIT 15) True,
      DOMAIN_RV1126_O ''npu'' (BIT 0) (BIT 2) (BIT 18) 0x4 False]"

definition rk1808_pm_domains :: "rockchip_domain_info list" where
  "rk1808_pm_domains =
     [DOMAIN_PX30 ''npu'' (BIT 15) (BIT 15) (BIT 2) False,
      DOMAIN_PX30 ''pcie'' (BIT 9) (BIT 9) (BIT 4) True,
      DOMAIN_PX30 ''vpu'' (BIT 13) (BIT 13) (BIT 7) False,
      DOMAIN_PX30_PROTECT ''vio'' (BIT 14) (BIT 14) (BIT 8) False]"

definition rk3036_pm_domains :: "rockchip_domain_info list" where
  "rk3036_pm_domains =
     [DOMAIN_RK3036 ''msch'' (BIT 14) (BIT 23) (BIT 30) True,
      DOMAIN_RK3036 ''core'' (BIT 13) (BIT 17) (BIT 24) False,
      DOMAIN_RK3036 ''peri'' (BIT 12) (BIT 18) (BIT 25) False,
      DOMAIN_RK3036 ''vio'' (BIT 11) (BIT 19) (BIT 26) False,
      DOMAIN_RK3036 ''vpu'' (BIT 10) (BIT 20) (BIT 27) False,
      DOMAIN_RK3036 ''gpu'' (BIT 9) (BIT 21) (BIT 28) False,
      DOMAIN_RK3036 ''sys'' (BIT 8) (BIT 22) (BIT 29) False]"

definition rk3066_pm_domains :: "rockchip_domain_info list" where
  "rk3066_pm_domains =
     [DOMAIN ''gpu'' (BIT 9) (BIT 9) (BIT 3) (BIT 24) (BIT 29) False False,
      DOMAIN ''video'' (BIT 8) (BIT 8) (BIT 4) (BIT 23) (BIT 28) False False,
      DOMAIN ''vio'' (BIT 7) (BIT 7) (BIT 5) (BIT 22) (BIT 27) False True,
      DOMAIN ''peri'' (BIT 6) (BIT 6) (BIT 2) (BIT 25) (BIT 30) False False,
      DOMAIN ''cpu'' 0 (BIT 5) (BIT 1) (BIT 26) (BIT 31) False False]"

definition rk3128_pm_domains :: "rockchip_domain_info list" where
  "rk3128_pm_domains =
     [DOMAIN_RK3288 ''core'' (BIT 0) (BIT 0) (BIT 4) False,
      DOMAIN_RK3288 ''msch'' 0 0 (BIT 6) True,
      DOMAIN_RK3288_PROTECT ''vio'' (BIT 3) (BIT 3) (BIT 2) False,
      DOMAIN_RK3288 ''video'' (BIT 2) (BIT 2) (BIT 1) False,
      DOMAIN_RK3288 ''gpu'' (BIT 1) (BIT 1) (BIT 3) False]"

definition rk3188_pm_domains :: "rockchip_domain_info list" where
  "rk3188_pm_domains =
     [DOMAIN ''gpu'' (BIT 9) (BIT 9) (BIT 3) (BIT 24) (BIT 29) False False,
      DOMAIN ''video'' (BIT 8) (BIT 8) (BIT 4) (BIT 23) (BIT 28) False False,
      DOMAIN ''vio'' (BIT 7) (BIT 7) (BIT 5) (BIT 22) (BIT 27) False True,
      DOMAIN ''peri'' (BIT 6) (BIT 6) (BIT 2) (BIT 25) (BIT 30) False False,
      DOMAIN ''cpu'' (BIT 5) (BIT 5) (BIT 1) (BIT 26) (BIT 31) False False]"

definition rk3228_pm_domains :: "rockchip_domain_info list" where
  "rk3228_pm_domains =
     [DOMAIN_RK3036 ''core'' (BIT 0) (BIT 0) (BIT 16) True,
      DOMAIN_RK3036 ''msch'' (BIT 1) (BIT 1) (BIT 17) True,
      DOMAIN_RK3036 ''bus'' (BIT 2) (BIT 2) (BIT 18) True,
      DOMAIN_RK3036 ''sys'' (BIT 3) (BIT 3) (BIT 19) True,
      DOMAIN_RK3036 ''vio'' (BIT 4) (BIT 4) (BIT 20) False,
      DOMAIN_RK3036 ''vop'' (BIT 5) (BIT 5) (BIT 21) False,
      DOMAIN_RK3036 ''vpu'' (BIT 6) (BIT 6) (BIT 22) False,
      DOMAIN_RK3036 ''vdec'' (BIT 7) (BIT 7) (BIT 23) False,
      DOMAIN_RK3036 ''gpu'' (BIT 8) (BIT 8) (BIT 24) False,
      DOMAIN_RK3036 ''peri'' (BIT 9) (BIT 9) (BIT 25) True,
      DOMAIN_RK3036 ''gmac'' (BIT 10) (BIT 10) (BIT 26) False]"

definition rk3288_pm_domains :: "rockchip_domain_info list" where
  "rk3288_pm_domains =
     [DOMAIN_RK3288_PROTECT ''vio'' (BIT 7) (BIT 7) (BIT 4) False,
      DOMAIN_RK3288 ''hevc'' (BIT 14) (BIT 10) (BIT 9) False,
      DOMAIN_RK3288 ''video'' (BIT 8) (BIT 8) (BIT 3) False,
      DOMAIN_RK3288 ''gpu'' (BIT 9) (BIT 9) (BIT 2) False]"

definition rk3328_pm_domains :: "rockchip_domain_info list" where
  "rk3328_pm_domains =
     [DOMAIN_RK3328 ''core'' 0 (BIT 0) (BIT 0) False,
      DOMAIN_RK3328 ''gpu'' 0 (BIT 1) (BIT 1) False,
      DOMAIN_RK3328 ''bus'' 0 (BIT 2) (BIT 2) True,
      DOMAIN_RK3328 ''msch'' 0 (BIT 3) (BIT 3) True,
      DOMAIN_RK3328 ''peri'' 0 (BIT 4) (BIT 4) True,
      DOMAIN_RK3328 ''video'' 0 (BIT 5) (BIT 5) False,
      DOMAIN_RK3328 ''hevc'' 0 (BIT 6) (BIT 6) False,
      DOMAIN_RK3328 ''vio'' 0 (BIT 8) (BIT 8) False,
      DOMAIN_RK3328 ''vpu'' 0 (BIT 9) (BIT 9) False]"

definition rk3366_pm_domains :: "rockchip_domain_info list" where
  "rk3366_pm_domains =
     [DOMAIN_RK3368 ''peri'' (BIT 10) (BIT 10) (BIT 6) True,
      DOMAIN_RK3368_PROTECT ''vio'' (BIT 14) (BIT 14) (BIT 8) False,
      DOMAIN_RK3368 ''video'' (BIT 13) (BIT 13) (BIT 7) False,
      DOMAIN_RK3368 ''rkvdec'' (BIT 11) (BIT 11) (BIT 7) False,
      DOMAIN_RK3368 ''wifibt'' (BIT 8) (BIT 8) (BIT 9) False,
      DOMAIN_RK3368 ''vpu'' (BIT 12) (BIT 12) (BIT 7) False,
      DOMAIN_RK3368 ''gpu'' (BIT 15) (BIT 15) (BIT 2) False]"

definition rk3368_pm_domains :: "rockchip_domain_info list" where
  "rk3368_pm_domains =
     [DOMAIN_RK3368 ''peri'' (BIT 13) (BIT 12) (BIT 6) True,
      DOMAIN_RK3368_PROTECT ''vio'' (BIT 15) (BIT 14) (BIT 8) False,
      DOMAIN_RK3368 ''video'' (BIT 14) (BIT 13) (BIT 7) False,
      DOMAIN_RK3368 ''gpu_0'' (BIT 16) (BIT 15) (BIT 2) False,
      DOMAIN_RK3368 ''gpu_1'' (BIT 17) (BIT 16) (BIT 2) False]"

definition rk3399_pm_domains :: "rockchip_domain_info list" where
  "rk3399_pm_domains =
     [DOMAIN_RK3399 ''tcpd0'' (BIT 8) (BIT 8) 0 False,
      DOMAIN_RK3399 ''tcpd1'' (BIT 9) (BIT 9) 0 False,
      DOMAIN_RK3399 ''cci'' (BIT 10) (BIT 10) 0 True,
      DOMAIN_RK3399 ''cci0'' 0 0 (BIT 15) True,
      DOMAIN_RK3399 ''cci1'' 0 0 (BIT 16) True,
      DOMAIN_RK3399 ''perilp'' (BIT 11) (BIT 11) (BIT 1) True,
      DOMAIN_RK3399 ''perihp'' (BIT 12) (BIT 12) (BIT 2) True,
      DOMAIN_RK3399 ''center'' (BIT 13) (BIT 13) (BIT 14) True,
      DOMAIN_RK3399_PROTECT ''vio'' (BIT 14) (BIT 14) (BIT 17) False,
      DOMAIN_RK3399 ''gpu'' (BIT 15) (BIT 15) (BIT 0) False,
      DOMAIN_RK3399 ''vcodec'' (BIT 16) (BIT 16) (BIT 3) False,
      DOMAIN_RK3399 ''vdu'' (BIT 17) (BIT 17) (BIT 4) False,
      DOMAIN_RK3399 ''rga'' (BIT 18) (BIT 18) (BIT 5) False,
      DOMAIN_RK3399 ''iep'' (BIT 19) (BIT 19) (BIT 6) False,
      DOMAIN_RK3399_PROTECT ''vo'' (BIT 20) (BIT 20) 0 False,
      DOMAIN_RK3399_PROTECT ''vopb'' 0 0 (BIT 7) False,
      DOMAIN_RK3399_PROTECT ''vopl'' 0 0 (BIT 8) False,
      DOMAIN_RK3399 ''isp0'' (BIT 22) (BIT 22) (BIT 9) False,
      DOMAIN_RK3399 ''isp1'' (BIT 23) (BIT 23) (BIT 10) False,
      DOMAIN_RK3399_PROTECT ''hdcp'' (BIT 24) (BIT 24) (BIT 11) False,
      DOMAIN_RK3399 ''gmac'' (BIT 25) (BIT 25) (BIT 23) True,
      DOMAIN_RK3399 ''emmc'' (BIT 26) (BIT 26) (BIT 24) True,
      DOMAIN_RK3399 ''usb3'' (BIT 27) (BIT 27) (BIT 12) True,
      DOMAIN_RK3399_PROTECT ''edp'' (BIT 28) (BIT 28) (BIT 22) False,
      DOMAIN_RK3399 ''gic'' (BIT 29) (BIT 29) (BIT 27) True,
      DOMAIN_RK3399 ''sd'' (BIT 30) (BIT 30) (BIT 28) True,
      DOMAIN_RK3399 ''sdioaudio'' (BIT 31) (BIT 31) (BIT 29) True]"

definition rk3568_pm_domains :: "rockchip_domain_info list" where
  "rk3568_pm_domains =
     [DOMAIN_RK3568 ''npu'' (BIT 1) (BIT 2) False,
      DOMAIN_RK3568 ''gpu'' (BIT 0) (BIT 1) False,
      DOMAIN_RK3568 ''vi'' (BIT 6) (BIT 3) False,
      DOMAIN_RK3568_PROTECT ''vo'' (BIT 7) (BIT 4) False,
      DOMAIN_RK3568 ''rga'' (BIT 5) (BIT 5) False,
      DOMAIN_RK3568 ''vpu'' (BIT 2) (BIT 6) False,
      DOMAIN_RK3568 ''rkvdec'' (BIT 4) (BIT 8) False,
      DOMAIN_RK3568 ''rkvenc'' (BIT 3) (BIT 7) False,
      DOMAIN_RK3568 ''pipe'' (BIT 8) (BIT 11) False]"

definition rk3588_pm_domains :: "rockchip_domain_info list" where
  "rk3588_pm_domains =
     [DOMAIN_RK3588 ''gpu'' 0x0 (BIT 0) 0 (BIT 1) 0x0 (BIT 0) (BIT 0) False,
      DOMAIN_RK3588 ''npu'' 0x0 (BIT 1) (BIT 1) 0 0x0 0 0 False,
      DOMAIN_RK3588 ''vcodec'' 0x0 (BIT 2) (BIT 2) 0 0x0 0 0 False,
      DOMAIN_RK3588 ''nputop'' 0x0 (BIT 3) 0 (BIT 2) 0x0 (BIT 1) (BIT 1) False,
      DOMAIN_RK3588 ''npu1'' 0x0 (BIT 4) 0 (BIT 3) 0x0 (BIT 2) (BIT 2) False,
      DOMAIN_RK3588 ''npu2'' 0x0 (BIT 5) 0 (BIT 4) 0x0 (BIT 3) (BIT 3) False,
      DOMAIN_RK3588 ''venc0'' 0x0 (BIT 6) 0 (BIT 5) 0x0 (BIT 4) (BIT 4) False,
      DOMAIN_RK3588 ''venc1'' 0x0 (BIT 7) 0 (BIT 6) 0x0 (BIT 5) (BIT 5) False,
      DOMAIN_RK3588 ''rkvdec0'' 0x0 (BIT 8) 0 (BIT 7) 0x0 (BIT 6) (BIT 6) False,
      DOMAIN_RK3588 ''rkvdec1'' 0x0 (BIT 9) 0 (BIT 8) 0x0 (BIT 7) (BIT 7) False,
      DOMAIN_RK3588 ''vdpu'' 0x0 (BIT 10) 0 (BIT 9) 0x0 (BIT 8) (BIT 8) False,
      DOMAIN_RK3588 ''rga30'' 0x0 (BIT 11) 0 (BIT 10) 0x0 0 0 False,
      DOMAIN_RK3588 ''av1'' 0x0 (BIT 12) 0 (BIT 11) 0x0 (BIT 9) (BIT 9) False,
      DOMAIN_RK3588 ''vi'' 0x0 (BIT 13) 0 (BIT 12) 0x0 (BIT 10) (BIT 10) False,
      DOMAIN_RK3588 ''fec'' 0x0 (BIT 14) 0 (BIT 13) 0x0 0 0 False,
      DOMAIN_RK3588 ''isp1'' 0x0 (BIT 15) 0 (BIT 14) 0x0 (BIT 11) (BIT 11) False,
      DOMAIN_RK3588 ''rga31'' 0x4 (BIT 0) 0 (BIT 15) 0x0 (BIT 12) (BIT 12) False,
      DOMAIN_RK3588_P ''vop'' 0x4 (BIT 1) 0 (BIT 16) 0x0 (BIT 13 OR BIT 14) (BIT 13 OR BIT 14) False,
      DOMAIN_RK3588_P ''vo0'' 0x4 (BIT 2) 0 (BIT 17) 0x0 (BIT 15) (BIT 15) False,
      DOMAIN_RK3588_P ''vo1'' 0x4 (BIT 3) 0 (BIT 18) 0x4 (BIT 0) (BIT 16) False,
      DOMAIN_RK3588 ''audio'' 0x4 (BIT 4) 0 (BIT 19) 0x4 (BIT 1) (BIT 17) False,
      DOMAIN_RK3588 ''php'' 0x4 (BIT 5) 0 (BIT 20) 0x4 (BIT 5) (BIT 21) False,
      DOMAIN_RK3588 ''gmac'' 0x4 (BIT 6) 0 (BIT 21) 0x0 0 0 False,
      DOMAIN_RK3588 ''pcie'' 0x4 (BIT 7) 0 (BIT 22) 0x0 0 0 True,
      DOMAIN_RK3588 ''nvm'' 0x4 (BIT 8) (BIT 24) 0 0x4 (BIT 2) (BIT 18) False,
      DOMAIN_RK3588 ''nvm0'' 0x4 (BIT 9) 0 (BIT 23) 0x0 0 0 False,
      DOMAIN_RK3588 ''sdio'' 0x4 (BIT 10) 0 (BIT 24) 0x4 (BIT 3) (BIT 19) False,
      DOMAIN_RK3588 ''usb'' 0x4 (BIT 11) 0 (BIT 25) 0x4 (BIT 4) (BIT 20) True,
      DOMAIN_RK3588 ''sdmmc'' 0x4 (BIT 13) 0 (BIT 26) 0x0 0 0 False]"

section \<open>The power management units\<close>

record rockchip_pmu_info =
  pwr_offset :: u32
  status_offset :: u32
  req_offset :: u32
  idle_offset :: u32
  ack_offset :: u32
  repair_status_offset :: u32
  core_pwrcnt_offset :: u32
  gpu_pwrcnt_offset :: u32
  core_power_transition_time :: u32
  gpu_power_transition_time :: u32
  num_domains :: nat
  domain_info :: "nat \<Rightarrow> rockchip_domain_info"

definition no_pmu_info :: rockchip_pmu_info where
  "no_pmu_info = \<lparr>pwr_offset = 0, status_offset = 0, req_offset = 0, idle_offset = 0, ack_offset = 0,
     repair_status_offset = 0, core_pwrcnt_offset = 0, gpu_pwrcnt_offset = 0, core_power_transition_time = 0,
     gpu_power_transition_time = 0, num_domains = 0, domain_info = (\<lambda>_. no_domain_info)\<rparr>"

text \<open>
  The indices of the initialisers are the identifiers of \<open>dt-bindings/power\<close>, not all of which are in the
  tree; they are a parameter. The array reaches to the largest, and its other elements are zero.
\<close>

definition array_size :: "nat list \<Rightarrow> nat" where
  "array_size ids = foldr max (map Suc ids) 0"

definition placed :: "nat list \<Rightarrow> rockchip_domain_info list \<Rightarrow> nat \<Rightarrow> rockchip_domain_info" where
  "placed ids ds k = (case map_of (zip ids ds) k of Some d \<Rightarrow> d | None \<Rightarrow> no_domain_info)"

definition px30_pmu :: "nat list \<Rightarrow> rockchip_pmu_info" where
  "px30_pmu ids = no_pmu_info\<lparr>pwr_offset := 0x18, status_offset := 0x20, req_offset := 0x64, idle_offset := 0x6c, ack_offset := 0x6c,
     num_domains := array_size ids, domain_info := placed ids px30_pm_domains\<rparr>"

definition rv1126_pmu :: "nat list \<Rightarrow> rockchip_pmu_info" where
  "rv1126_pmu ids = no_pmu_info\<lparr>pwr_offset := 0x110, status_offset := 0x108, req_offset := 0xc0, idle_offset := 0xd8, ack_offset := 0xd0,
     num_domains := array_size ids, domain_info := placed ids rv1126_pm_domains\<rparr>"

definition rk1808_pmu :: "nat list \<Rightarrow> rockchip_pmu_info" where
  "rk1808_pmu ids = no_pmu_info\<lparr>pwr_offset := 0x18, status_offset := 0x20, req_offset := 0x64, idle_offset := 0x6c, ack_offset := 0x6c,
     num_domains := array_size ids, domain_info := placed ids rk1808_pm_domains\<rparr>"

definition rk3036_pmu :: "nat list \<Rightarrow> rockchip_pmu_info" where
  "rk3036_pmu ids = no_pmu_info\<lparr>req_offset := 0x148, idle_offset := 0x14c, ack_offset := 0x14c,
     num_domains := array_size ids, domain_info := placed ids rk3036_pm_domains\<rparr>"

definition rk3066_pmu :: "nat list \<Rightarrow> rockchip_pmu_info" where
  "rk3066_pmu ids = no_pmu_info\<lparr>pwr_offset := 0x08, status_offset := 0x0c, req_offset := 0x38, idle_offset := 0x0c, ack_offset := 0x0c,
     num_domains := array_size ids, domain_info := placed ids rk3066_pm_domains\<rparr>"

definition rk3128_pmu :: "nat list \<Rightarrow> rockchip_pmu_info" where
  "rk3128_pmu ids = no_pmu_info\<lparr>pwr_offset := 0x04, status_offset := 0x08, req_offset := 0x0c, idle_offset := 0x10, ack_offset := 0x10,
     num_domains := array_size ids, domain_info := placed ids rk3128_pm_domains\<rparr>"

definition rk3188_pmu :: "nat list \<Rightarrow> rockchip_pmu_info" where
  "rk3188_pmu ids = no_pmu_info\<lparr>pwr_offset := 0x08, status_offset := 0x0c, req_offset := 0x38, idle_offset := 0x0c, ack_offset := 0x0c,
     num_domains := array_size ids, domain_info := placed ids rk3188_pm_domains\<rparr>"

definition rk3228_pmu :: "nat list \<Rightarrow> rockchip_pmu_info" where
  "rk3228_pmu ids = no_pmu_info\<lparr>req_offset := 0x40c, idle_offset := 0x488, ack_offset := 0x488,
     num_domains := array_size ids, domain_info := placed ids rk3228_pm_domains\<rparr>"

definition rk3288_pmu :: "nat list \<Rightarrow> rockchip_pmu_info" where
  "rk3288_pmu ids = no_pmu_info\<lparr>pwr_offset := 0x08, status_offset := 0x0c, req_offset := 0x10, idle_offset := 0x14, ack_offset := 0x14, core_pwrcnt_offset := 0x34, gpu_pwrcnt_offset := 0x3c, core_power_transition_time := 24, gpu_power_transition_time := 24,
     num_domains := array_size ids, domain_info := placed ids rk3288_pm_domains\<rparr>"

definition rk3328_pmu :: "nat list \<Rightarrow> rockchip_pmu_info" where
  "rk3328_pmu ids = no_pmu_info\<lparr>req_offset := 0x414, idle_offset := 0x484, ack_offset := 0x484,
     num_domains := array_size ids, domain_info := placed ids rk3328_pm_domains\<rparr>"

definition rk3366_pmu :: "nat list \<Rightarrow> rockchip_pmu_info" where
  "rk3366_pmu ids = no_pmu_info\<lparr>pwr_offset := 0x0c, status_offset := 0x10, req_offset := 0x3c, idle_offset := 0x40, ack_offset := 0x40, core_pwrcnt_offset := 0x48, gpu_pwrcnt_offset := 0x50, core_power_transition_time := 24, gpu_power_transition_time := 24,
     num_domains := array_size ids, domain_info := placed ids rk3366_pm_domains\<rparr>"

definition rk3368_pmu :: "nat list \<Rightarrow> rockchip_pmu_info" where
  "rk3368_pmu ids = no_pmu_info\<lparr>pwr_offset := 0x0c, status_offset := 0x10, req_offset := 0x3c, idle_offset := 0x40, ack_offset := 0x40, core_pwrcnt_offset := 0x48, gpu_pwrcnt_offset := 0x50, core_power_transition_time := 24, gpu_power_transition_time := 24,
     num_domains := array_size ids, domain_info := placed ids rk3368_pm_domains\<rparr>"

definition rk3399_pmu :: "nat list \<Rightarrow> rockchip_pmu_info" where
  "rk3399_pmu ids = no_pmu_info\<lparr>pwr_offset := 0x14, status_offset := 0x18, req_offset := 0x60, idle_offset := 0x64, ack_offset := 0x68,
     num_domains := array_size ids, domain_info := placed ids rk3399_pm_domains\<rparr>"

definition rk3568_pmu :: "nat list \<Rightarrow> rockchip_pmu_info" where
  "rk3568_pmu ids = no_pmu_info\<lparr>pwr_offset := 0xa0, status_offset := 0x98, req_offset := 0x50, idle_offset := 0x68, ack_offset := 0x60,
     num_domains := array_size ids, domain_info := placed ids rk3568_pm_domains\<rparr>"

definition rk3588_pmu :: "nat list \<Rightarrow> rockchip_pmu_info" where
  "rk3588_pmu ids = no_pmu_info\<lparr>pwr_offset := 0x14c, status_offset := 0x180, req_offset := 0x10c, idle_offset := 0x120, ack_offset := 0x118, repair_status_offset := 0x290,
     num_domains := array_size ids, domain_info := placed ids rk3588_pm_domains\<rparr>"

section \<open>The tables are consistent\<close>

text \<open>
  A domain that is switched or asked by a register with a write mask has its bits in the lower half and
  the mask of the same bits above; it has at most one bit for power; one without power and status bits
  can be asked to become idle, and tells whether it is.
\<close>

definition domain_ok :: "rockchip_domain_info \<Rightarrow> bool" where
  "domain_ok d \<longleftrightarrow>
     (pwr_w_mask d \<noteq> 0 \<longrightarrow> pwr_w_mask d = push_bit 16 (pwr_mask d) \<and> drop_bit 16 (pwr_mask d) = 0)
     \<and> (req_w_mask d \<noteq> 0 \<longrightarrow> req_w_mask d = push_bit 16 (req_mask d) \<and> drop_bit 16 (req_mask d) = 0)
     \<and> (req_mask d \<noteq> 0 \<longrightarrow> idle_mask d \<noteq> 0 \<and> ack_mask d \<noteq> 0)
     \<and> (pwr_mask d = 0 \<longrightarrow> req_mask d \<noteq> 0)
     \<and> (pwr_mask d \<noteq> 0 \<longrightarrow> status_mask d \<noteq> 0 \<or> repair_status_mask d \<noteq> 0)"

text \<open>No two domains of a chip share a power bit of a register.\<close>

fun powers_apart :: "rockchip_domain_info list \<Rightarrow> bool" where
  "powers_apart [] \<longleftrightarrow> True"
| "powers_apart (d # ds) \<longleftrightarrow>
     list_all (\<lambda>d'. domain_pwr_offset d = domain_pwr_offset d' \<longrightarrow> pwr_mask d AND pwr_mask d' = 0) ds \<and> powers_apart ds"

text \<open>The same for the bits that ask a domain to become idle.\<close>

fun requests_apart :: "rockchip_domain_info list \<Rightarrow> bool" where
  "requests_apart [] \<longleftrightarrow> True"
| "requests_apart (d # ds) \<longleftrightarrow>
     list_all (\<lambda>d'. domain_req_offset d = domain_req_offset d' \<longrightarrow> req_mask d AND req_mask d' = 0) ds \<and> requests_apart ds"

definition rockchip_chips :: "rockchip_domain_info list list" where
  "rockchip_chips = [px30_pm_domains, rv1126_pm_domains, rk1808_pm_domains, rk3036_pm_domains, rk3066_pm_domains,
     rk3128_pm_domains, rk3188_pm_domains, rk3228_pm_domains, rk3288_pm_domains, rk3328_pm_domains, rk3366_pm_domains,
     rk3368_pm_domains, rk3399_pm_domains, rk3568_pm_domains, rk3588_pm_domains]"

lemmas domain_macros = DOMAIN_def DOMAIN_M_def DOMAIN_M_O_def DOMAIN_M_O_R_def DOMAIN_RK3036_def DOMAIN_PX30_def
  DOMAIN_PX30_PROTECT_def DOMAIN_RV1126_def DOMAIN_RV1126_PROTECT_def DOMAIN_RV1126_O_def DOMAIN_RK3288_def
  DOMAIN_RK3288_PROTECT_def DOMAIN_RK3328_def DOMAIN_RK3368_def DOMAIN_RK3368_PROTECT_def DOMAIN_RK3399_def
  DOMAIN_RK3399_PROTECT_def DOMAIN_RK3568_def DOMAIN_RK3568_PROTECT_def DOMAIN_RK3588_def DOMAIN_RK3588_P_def
  no_domain_info_def

lemma px30_domains_ok:
  "list_all domain_ok px30_pm_domains" "powers_apart px30_pm_domains" "requests_apart px30_pm_domains"
  by (simp_all add: px30_pm_domains_def domain_ok_def domain_macros BIT_def)

lemma rv1126_domains_ok:
  "list_all domain_ok rv1126_pm_domains" "powers_apart rv1126_pm_domains" "requests_apart rv1126_pm_domains"
  by (simp_all add: rv1126_pm_domains_def domain_ok_def domain_macros BIT_def)

lemma rk1808_domains_ok:
  "list_all domain_ok rk1808_pm_domains" "powers_apart rk1808_pm_domains" "requests_apart rk1808_pm_domains"
  by (simp_all add: rk1808_pm_domains_def domain_ok_def domain_macros BIT_def)

lemma rk3036_domains_ok:
  "list_all domain_ok rk3036_pm_domains" "powers_apart rk3036_pm_domains" "requests_apart rk3036_pm_domains"
  by (simp_all add: rk3036_pm_domains_def domain_ok_def domain_macros BIT_def)

lemma rk3066_domains_ok:
  "list_all domain_ok rk3066_pm_domains" "powers_apart rk3066_pm_domains" "requests_apart rk3066_pm_domains"
  by (simp_all add: rk3066_pm_domains_def domain_ok_def domain_macros BIT_def)

lemma rk3128_domains_ok:
  "list_all domain_ok rk3128_pm_domains" "powers_apart rk3128_pm_domains" "requests_apart rk3128_pm_domains"
  by (simp_all add: rk3128_pm_domains_def domain_ok_def domain_macros BIT_def)

lemma rk3188_domains_ok:
  "list_all domain_ok rk3188_pm_domains" "powers_apart rk3188_pm_domains" "requests_apart rk3188_pm_domains"
  by (simp_all add: rk3188_pm_domains_def domain_ok_def domain_macros BIT_def)

lemma rk3228_domains_ok:
  "list_all domain_ok rk3228_pm_domains" "powers_apart rk3228_pm_domains" "requests_apart rk3228_pm_domains"
  by (simp_all add: rk3228_pm_domains_def domain_ok_def domain_macros BIT_def)

lemma rk3288_domains_ok:
  "list_all domain_ok rk3288_pm_domains" "powers_apart rk3288_pm_domains" "requests_apart rk3288_pm_domains"
  by (simp_all add: rk3288_pm_domains_def domain_ok_def domain_macros BIT_def)

lemma rk3328_domains_ok:
  "list_all domain_ok rk3328_pm_domains" "powers_apart rk3328_pm_domains" "requests_apart rk3328_pm_domains"
  by (simp_all add: rk3328_pm_domains_def domain_ok_def domain_macros BIT_def)

lemma rk3366_domains_ok:
  "list_all domain_ok rk3366_pm_domains" "powers_apart rk3366_pm_domains" "\<not> requests_apart rk3366_pm_domains"
  by (simp_all add: rk3366_pm_domains_def domain_ok_def domain_macros BIT_def)

lemma rk3368_domains_ok:
  "list_all domain_ok rk3368_pm_domains" "powers_apart rk3368_pm_domains" "\<not> requests_apart rk3368_pm_domains"
  by (simp_all add: rk3368_pm_domains_def domain_ok_def domain_macros BIT_def)

lemma rk3399_domains_ok:
  "list_all domain_ok rk3399_pm_domains" "powers_apart rk3399_pm_domains" "requests_apart rk3399_pm_domains"
  by (simp_all add: rk3399_pm_domains_def domain_ok_def domain_macros BIT_def)

lemma rk3568_domains_ok:
  "list_all domain_ok rk3568_pm_domains" "powers_apart rk3568_pm_domains" "requests_apart rk3568_pm_domains"
  by (simp_all add: rk3568_pm_domains_def domain_ok_def domain_macros BIT_def)

lemma rk3588_domains_ok:
  "list_all domain_ok rk3588_pm_domains" "powers_apart rk3588_pm_domains" "requests_apart rk3588_pm_domains"
  by (simp_all add: rk3588_pm_domains_def domain_ok_def domain_macros BIT_def)

lemmas chips_ok = px30_domains_ok rv1126_domains_ok rk1808_domains_ok rk3036_domains_ok rk3066_domains_ok rk3128_domains_ok
  rk3188_domains_ok rk3228_domains_ok rk3288_domains_ok rk3328_domains_ok
  rk3366_domains_ok rk3368_domains_ok rk3399_domains_ok rk3568_domains_ok rk3588_domains_ok

text \<open>
  The tables of all fifteen chips are consistent and no two domains share a power bit; on the RK3366
  and the RK3368, and nowhere else, domains share the bit that asks them to become idle.
\<close>

lemma rockchip_chips_consistent:
  "list_all (\<lambda>ds. list_all domain_ok ds \<and> powers_apart ds) rockchip_chips
   \<and> filter (\<lambda>ds. \<not> requests_apart ds) rockchip_chips = [rk3366_pm_domains, rk3368_pm_domains]"
  by (simp only: rockchip_chips_def list.pred_inject filter.simps chips_ok simp_thms if_True if_False)

end
