(* ===== verification/Power_Domain.thy ===== *)
theory Power_Domain
  imports Power_Info
begin

text \<open>
  The power domains of \<open>common/vendor/drivers/rockchip/pm_domains.c\<close>: asking a domain to become idle,
  switching its power with its clocks, its supply and the quality-of-service registers of its bus masters,
  and the functions other drivers call. \<open>None\<close> as a result is an access outside an array, or \<open>panic\<close>, which
  does not return.
\<close>

section \<open>State\<close>

definition QOS_PRIORITY :: u32 where "QOS_PRIORITY = 0x08"
definition QOS_MODE :: u32 where "QOS_MODE = 0x0c"
definition QOS_BANDWIDTH :: u32 where "QOS_BANDWIDTH = 0x10"
definition QOS_SATURATION :: u32 where "QOS_SATURATION = 0x14"
definition QOS_EXTCONTROL :: u32 where "QOS_EXTCONTROL = 0x18"
definition MAX_QOS_REGS_NUM :: nat where "MAX_QOS_REGS_NUM = 5"

text \<open>
  The other side: the registers of the unit and of the bus masters, of which \<open>'h\<close> is the state (a number
  stands for the register map of a bus master); \<open>pmu_budget\<close> is how often a loop samples within 10 ms.
  Supplies have the state \<open>'r\<close> and are found by the name of the domain.
\<close>

record ('h, 'r) power_port =
  regmap_read :: "u32 \<Rightarrow> 'h \<Rightarrow> u32"
  regmap_write :: "u32 \<Rightarrow> u32 \<Rightarrow> 'h \<Rightarrow> 'h"
  qos_read :: "nat \<Rightarrow> u32 \<Rightarrow> 'h \<Rightarrow> u32"
  qos_write :: "nat \<Rightarrow> u32 \<Rightarrow> u32 \<Rightarrow> 'h \<Rightarrow> 'h"
  pmu_elapse :: "'h \<Rightarrow> 'h"
  pmu_budget :: nat
  regulator_get :: "string \<Rightarrow> 'r \<Rightarrow> 'r \<times> errno option"
  regulator_enable :: "string \<Rightarrow> 'r \<Rightarrow> 'r \<times> errno option"
  regulator_disable :: "string \<Rightarrow> 'r \<Rightarrow> 'r \<times> errno option"

datatype vdd_supply = Supply_NULL | Supply_ERR errno | Supply

definition IS_ERR_supply :: "vdd_supply \<Rightarrow> bool" where
  "IS_ERR_supply s \<longleftrightarrow> (case s of Supply_ERR e \<Rightarrow> True | _ \<Rightarrow> False)"

text \<open>
  \<open>struct rockchip_pm_domain\<close>. The five pointers of \<open>qos_save_regs\<close> point into one allocation, \<open>qos_stride\<close>
  apart. \<open>clk_enabled\<close> counts how often the clocks of the domain are enabled; \<open>genpd_off\<close> is the state the
  domain was registered with.
\<close>

record rockchip_pm_domain =
  info :: rockchip_domain_info
  genpd_name :: string
  genpd_always_on :: bool
  genpd_active_wakeup :: bool
  genpd_off :: bool
  num_qos :: nat
  qos_regmap :: "nat list"
  qos_stride :: nat
  qos_save_regs :: "u32 list"
  num_clks :: nat
  clk_enabled :: int
  is_ignore_pwr :: bool
  is_qos_saved :: bool
  vdd :: vdd_supply

text \<open>
  \<open>struct rockchip_pmu\<close> with what its operations act on; \<open>clk_error\<close> is what \<open>clk_bulk_enable\<close> returns,
  \<open>clk_refs\<close> and \<open>clk_prepares\<close> count the clocks that were looked up and the domains that prepared theirs.
  Of the power management core there are the links from parents to subdomains and \<open>genpd_list\<close>, the
  domains of the unit that it knows.
\<close>

record ('h, 'r) rockchip_pmu =
  pmu_info :: rockchip_pmu_info
  genpd_domains :: "nat \<Rightarrow> rockchip_pm_domain option"
  pmu_hw :: 'h
  supplies :: 'r
  clk_error :: "errno option"
  pm_domain_always_on :: bool
  clk_refs :: int
  clk_prepares :: int
  subdomains :: "(nat \<times> nat) list"
  genpd_list :: "nat set"

section \<open>Idle requests\<close>

text \<open>\<open>regmap_update_bits\<close> writes when the value changes.\<close>

definition regmap_update_bits :: "('h, 'r) power_port \<Rightarrow> u32 \<Rightarrow> u32 \<Rightarrow> u32 \<Rightarrow> 'h \<Rightarrow> 'h" where
  "regmap_update_bits P off msk v h =
     (let old = regmap_read P off h; new = (old AND NOT msk) OR (v AND msk)
      in if new = old then h else regmap_write P off new h)"

definition rockchip_pmu_domain_is_idle :: "('h, 'r) power_port \<Rightarrow> rockchip_pmu_info \<Rightarrow> rockchip_domain_info \<Rightarrow> 'h \<Rightarrow> bool" where
  "rockchip_pmu_domain_is_idle P i d h \<longleftrightarrow> regmap_read P (idle_offset i) h AND idle_mask d = idle_mask d"

definition rockchip_pmu_read_ack :: "('h, 'r) power_port \<Rightarrow> rockchip_pmu_info \<Rightarrow> 'h \<Rightarrow> u32" where
  "rockchip_pmu_read_ack P i h = regmap_read P (ack_offset i) h"

definition request_idle :: "('h, 'r) power_port \<Rightarrow> rockchip_pmu_info \<Rightarrow> rockchip_domain_info \<Rightarrow> bool \<Rightarrow> 'h \<Rightarrow> 'h" where
  "request_idle P i d idle h =
     (let off = req_offset i + domain_req_offset d in
      if req_w_mask d \<noteq> 0
      then regmap_write P off (if idle then req_mask d OR req_w_mask d else req_w_mask d) h
      else regmap_update_bits P off (req_mask d) (if idle then - 1 else 0) h)"

definition acked :: "('h, 'r) power_port \<Rightarrow> rockchip_pmu_info \<Rightarrow> rockchip_domain_info \<Rightarrow> bool \<Rightarrow> 'h \<Rightarrow> bool" where
  "acked P i d idle h \<longleftrightarrow> rockchip_pmu_read_ack P i h AND ack_mask d = (if idle then ack_mask d else 0)"

text \<open>A time-out panics, otherwise the result is 0.\<close>

definition rockchip_pmu_set_idle_request ::
  "('h, 'r) power_port \<Rightarrow> rockchip_pmu_info \<Rightarrow> rockchip_domain_info \<Rightarrow> bool \<Rightarrow> 'h \<Rightarrow> 'h option" where
  "rockchip_pmu_set_idle_request P i d idle h =
     (if req_mask d = 0 then Some h
      else
        let (h1, ok1) = poll_timeout (pmu_budget P) (acked P i d idle) (pmu_elapse P) (request_idle P i d idle h)
        in if \<not> ok1 then None
           else
             let (h2, ok2) = poll_timeout (pmu_budget P) (\<lambda>h. rockchip_pmu_domain_is_idle P i d h = idle) (pmu_elapse P) h1
             in if ok2 then Some h2 else None)"

section \<open>The registers of the bus masters\<close>

definition qos_regs :: "(nat \<times> u32) list" where
  "qos_regs = [(0, QOS_PRIORITY), (1, QOS_MODE), (2, QOS_BANDWIDTH), (3, QOS_SATURATION), (4, QOS_EXTCONTROL)]"

fun save_regs :: "('h, 'r) power_port \<Rightarrow> nat \<Rightarrow> nat \<Rightarrow> nat \<Rightarrow> (nat \<times> u32) list \<Rightarrow> 'h \<Rightarrow> u32 list \<Rightarrow> u32 list option" where
  "save_regs P q stride i [] h s = Some s"
| "save_regs P q stride i ((k, r) # rs) h s =
     (if length s \<le> k * stride + i then None else save_regs P q stride i rs h (s[k * stride + i := qos_read P q r h]))"

fun save_blocks :: "('h, 'r) power_port \<Rightarrow> nat list \<Rightarrow> nat \<Rightarrow> nat list \<Rightarrow> 'h \<Rightarrow> u32 list \<Rightarrow> u32 list option" where
  "save_blocks P qs stride [] h s = Some s"
| "save_blocks P qs stride (i # is) h s =
     (if length qs \<le> i then None
      else Option.bind (save_regs P (qs ! i) stride i qos_regs h s) (save_blocks P qs stride is h))"

definition rockchip_pmu_save_qos :: "('h, 'r) power_port \<Rightarrow> rockchip_pm_domain \<Rightarrow> 'h \<Rightarrow> rockchip_pm_domain option" where
  "rockchip_pmu_save_qos P pd h =
     map_option (\<lambda>s. pd\<lparr>qos_save_regs := s\<rparr>) (save_blocks P (qos_regmap pd) (qos_stride pd) [0..<num_qos pd] h (qos_save_regs pd))"

fun restore_regs :: "('h, 'r) power_port \<Rightarrow> nat \<Rightarrow> nat \<Rightarrow> nat \<Rightarrow> (nat \<times> u32) list \<Rightarrow> u32 list \<Rightarrow> 'h \<Rightarrow> 'h option" where
  "restore_regs P q stride i [] s h = Some h"
| "restore_regs P q stride i ((k, r) # rs) s h =
     (if length s \<le> k * stride + i then None
      else restore_regs P q stride i rs s (qos_write P q r (s ! (k * stride + i)) h))"

fun restore_blocks :: "('h, 'r) power_port \<Rightarrow> nat list \<Rightarrow> nat \<Rightarrow> nat list \<Rightarrow> u32 list \<Rightarrow> 'h \<Rightarrow> 'h option" where
  "restore_blocks P qs stride [] s h = Some h"
| "restore_blocks P qs stride (i # is) s h =
     (if length qs \<le> i then None
      else Option.bind (restore_regs P (qs ! i) stride i qos_regs s h) (restore_blocks P qs stride is s))"

definition rockchip_pmu_restore_qos :: "('h, 'r) power_port \<Rightarrow> rockchip_pm_domain \<Rightarrow> 'h \<Rightarrow> 'h option" where
  "rockchip_pmu_restore_qos P pd h =
     restore_blocks P (qos_regmap pd) (qos_stride pd) [0..<num_qos pd] (qos_save_regs pd) h"

section \<open>Power\<close>

definition rockchip_pmu_domain_is_on :: "('h, 'r) power_port \<Rightarrow> rockchip_pmu_info \<Rightarrow> rockchip_domain_info \<Rightarrow> 'h \<Rightarrow> bool" where
  "rockchip_pmu_domain_is_on P i d h \<longleftrightarrow>
     (if repair_status_mask d \<noteq> 0 then regmap_read P (repair_status_offset i) h AND repair_status_mask d \<noteq> 0
      else if status_mask d = 0 then \<not> rockchip_pmu_domain_is_idle P i d h
      else regmap_read P (status_offset i) h AND status_mask d = 0)"

definition request_power :: "('h, 'r) power_port \<Rightarrow> rockchip_pmu_info \<Rightarrow> rockchip_domain_info \<Rightarrow> bool \<Rightarrow> 'h \<Rightarrow> 'h" where
  "request_power P i d on h =
     (let off = pwr_offset i + domain_pwr_offset d in
      if pwr_w_mask d \<noteq> 0
      then regmap_write P off (if on then pwr_w_mask d else pwr_mask d OR pwr_w_mask d) h
      else regmap_update_bits P off (pwr_mask d) (if on then 0 else - 1) h)"

definition rockchip_do_pmu_set_power_domain ::
  "('h, 'r) power_port \<Rightarrow> rockchip_pmu_info \<Rightarrow> rockchip_domain_info \<Rightarrow> bool \<Rightarrow> 'h \<Rightarrow> 'h option" where
  "rockchip_do_pmu_set_power_domain P i d on h =
     (if pwr_mask d = 0 then Some h
      else
        let (h1, ok) = poll_timeout (pmu_budget P) (\<lambda>h. rockchip_pmu_domain_is_on P i d h = on) (pmu_elapse P)
              (request_power P i d on h)
        in if ok then Some h1 else None)"

text \<open>The supply is looked up until it is found, or known not to exist.\<close>

definition get_supply :: "('h, 'r) power_port \<Rightarrow> rockchip_pm_domain \<Rightarrow> 'r \<Rightarrow> rockchip_pm_domain \<times> 'r" where
  "get_supply P pd r =
     (if vdd pd \<noteq> Supply \<and> vdd pd \<noteq> Supply_ERR ENODEV
      then case regulator_get P (genpd_name pd) r of
          (r1, None) \<Rightarrow> (pd\<lparr>vdd := Supply\<rparr>, r1)
        | (r1, Some e) \<Rightarrow> (pd\<lparr>vdd := Supply_ERR e\<rparr>, r1)
      else (pd, r))"

definition enable_supply :: "('h, 'r) power_port \<Rightarrow> bool \<Rightarrow> rockchip_pm_domain \<Rightarrow> 'r \<Rightarrow> 'r \<times> errno option" where
  "enable_supply P on pd r = (if on \<and> \<not> IS_ERR_supply (vdd pd) then regulator_enable P (genpd_name pd) r else (r, None))"

definition disable_supply :: "('h, 'r) power_port \<Rightarrow> bool \<Rightarrow> rockchip_pm_domain \<Rightarrow> 'r \<Rightarrow> 'r \<times> errno option" where
  "disable_supply P on pd r = (if \<not> on \<and> \<not> IS_ERR_supply (vdd pd) then regulator_disable P (genpd_name pd) r else (r, None))"

definition clk_bulk_enable_pd :: "('h, 'r) rockchip_pmu \<Rightarrow> rockchip_pm_domain \<Rightarrow> rockchip_pm_domain \<times> errno option" where
  "clk_bulk_enable_pd w pd =
     (case clk_error w of
        Some e \<Rightarrow> if num_clks pd = 0 then (pd\<lparr>clk_enabled := clk_enabled pd + 1\<rparr>, None) else (pd, Some e)
      | None \<Rightarrow> (pd\<lparr>clk_enabled := clk_enabled pd + 1\<rparr>, None))"

definition clk_bulk_disable_pd :: "rockchip_pm_domain \<Rightarrow> rockchip_pm_domain" where
  "clk_bulk_disable_pd pd = pd\<lparr>clk_enabled := clk_enabled pd - 1\<rparr>"

text \<open>What happens with the clocks on: down, the registers are saved and the domain becomes idle first; up, last.\<close>

definition switch_power ::
  "('h, 'r) power_port \<Rightarrow> rockchip_pmu_info \<Rightarrow> bool \<Rightarrow> rockchip_pm_domain \<Rightarrow> 'h \<Rightarrow> (rockchip_pm_domain \<times> 'h) option" where
  "switch_power P i on pd h =
     (if on then
        Option.bind (rockchip_do_pmu_set_power_domain P i (info pd) True h) (\<lambda>h1.
        Option.bind (rockchip_pmu_set_idle_request P i (info pd) False h1) (\<lambda>h2.
        map_option (\<lambda>h3. (pd, h3)) (if is_qos_saved pd then rockchip_pmu_restore_qos P pd h2 else Some h2)))
      else
        Option.bind (rockchip_pmu_save_qos P pd h) (\<lambda>pd1.
        let pd2 = pd1\<lparr>is_qos_saved := True\<rparr> in
        Option.bind (rockchip_pmu_set_idle_request P i (info pd) True h) (\<lambda>h1.
        map_option (\<lambda>h2. (pd2, h2)) (rockchip_do_pmu_set_power_domain P i (info pd) False h1))))"

definition rockchip_pd_power ::
  "('h, 'r) power_port \<Rightarrow> bool \<Rightarrow> rockchip_pm_domain \<Rightarrow> ('h, 'r) rockchip_pmu
   \<Rightarrow> (rockchip_pm_domain \<times> ('h, 'r) rockchip_pmu \<times> errno option) option" where
  "rockchip_pd_power P on pd w =
     (if pm_domain_always_on w \<and> \<not> on then Some (pd, w, None)
      else if rockchip_pmu_domain_is_on P (pmu_info w) (info pd) (pmu_hw w) = on then Some (pd, w, None)
      else
        let (pd1, r1) = get_supply P pd (supplies w);
            (r2, e) = enable_supply P on pd1 r1;
            w1 = w\<lparr>supplies := r2\<rparr>
        in if e \<noteq> None then Some (pd1, w1, e)
           else
             let (pd2, e2) = clk_bulk_enable_pd w1 pd1 in
             if e2 \<noteq> None then Some (pd2, w1, e2)
             else
               Option.bind (switch_power P (pmu_info w) on pd2 (pmu_hw w1)) (\<lambda>(pd3, h3).
               let pd4 = clk_bulk_disable_pd pd3;
                   (r3, e3) = disable_supply P on pd4 (supplies w1)
               in Some (pd4, w1\<lparr>pmu_hw := h3, supplies := r3\<rparr>, e3)))"

definition rockchip_pd_power_on ::
  "('h, 'r) power_port \<Rightarrow> rockchip_pm_domain \<Rightarrow> ('h, 'r) rockchip_pmu
   \<Rightarrow> (rockchip_pm_domain \<times> ('h, 'r) rockchip_pmu \<times> errno option) option" where
  "rockchip_pd_power_on P pd w = (if is_ignore_pwr pd then Some (pd, w, None) else rockchip_pd_power P True pd w)"

definition rockchip_pd_power_off ::
  "('h, 'r) power_port \<Rightarrow> rockchip_pm_domain \<Rightarrow> ('h, 'r) rockchip_pmu
   \<Rightarrow> (rockchip_pm_domain \<times> ('h, 'r) rockchip_pmu \<times> errno option) option" where
  "rockchip_pd_power_off P pd w = (if is_ignore_pwr pd then Some (pd, w, None) else rockchip_pd_power P False pd w)"

end
