(* ===== verification/Power_Init.thy ===== *)
theory Power_Init
  imports Power_Domain
begin

text \<open>
  The functions of \<open>pm_domains.c\<close> that other drivers call, and setting up the domains from the device tree.
\<close>

section \<open>Calls from other drivers\<close>

text \<open>
  A device is the domain it belongs to, \<open>None\<close> when it is no device or has none.
\<close>

definition rockchip_pmu_idle_request ::
  "('h, 'r) power_port \<Rightarrow> nat option \<Rightarrow> bool \<Rightarrow> ('h, 'r) rockchip_pmu \<Rightarrow> (('h, 'r) rockchip_pmu \<times> errno option) option" where
  "rockchip_pmu_idle_request P dev idle w =
     (case dev of None \<Rightarrow> Some (w, Some EINVAL)
      | Some k \<Rightarrow> Option.bind (genpd_domains w k) (\<lambda>pd.
          map_option (\<lambda>h. (w\<lparr>pmu_hw := h\<rparr>, None)) (rockchip_pmu_set_idle_request P (pmu_info w) (info pd) idle (pmu_hw w))))"

definition rockchip_save_qos ::
  "('h, 'r) power_port \<Rightarrow> nat option \<Rightarrow> ('h, 'r) rockchip_pmu \<Rightarrow> (('h, 'r) rockchip_pmu \<times> errno option) option" where
  "rockchip_save_qos P dev w =
     (case dev of None \<Rightarrow> Some (w, Some EINVAL)
      | Some k \<Rightarrow> Option.bind (genpd_domains w k) (\<lambda>pd.
          map_option (\<lambda>pd1. (w\<lparr>genpd_domains := (genpd_domains w)(k \<mapsto> pd1)\<rparr>, None)) (rockchip_pmu_save_qos P pd (pmu_hw w))))"

definition rockchip_restore_qos ::
  "('h, 'r) power_port \<Rightarrow> nat option \<Rightarrow> ('h, 'r) rockchip_pmu \<Rightarrow> (('h, 'r) rockchip_pmu \<times> errno option) option" where
  "rockchip_restore_qos P dev w =
     (case dev of None \<Rightarrow> Some (w, Some EINVAL)
      | Some k \<Rightarrow> Option.bind (genpd_domains w k) (\<lambda>pd.
          map_option (\<lambda>h. (w\<lparr>pmu_hw := h\<rparr>, None)) (rockchip_pmu_restore_qos P pd (pmu_hw w))))"

text \<open>A function of a domain, on the one with the given number.\<close>

definition on_domain ::
  "(rockchip_pm_domain \<Rightarrow> ('h, 'r) rockchip_pmu \<Rightarrow> (rockchip_pm_domain \<times> ('h, 'r) rockchip_pmu \<times> errno option) option)
   \<Rightarrow> nat \<Rightarrow> ('h, 'r) rockchip_pmu \<Rightarrow> (('h, 'r) rockchip_pmu \<times> errno option) option" where
  "on_domain f k w = Option.bind (genpd_domains w k) (\<lambda>pd.
     map_option (\<lambda>(pd1, w1, e). (w1\<lparr>genpd_domains := (genpd_domains w1)(k \<mapsto> pd1)\<rparr>, e)) (f pd w))"

definition rockchip_pmu_pd_on ::
  "('h, 'r) power_port \<Rightarrow> nat option \<Rightarrow> ('h, 'r) rockchip_pmu \<Rightarrow> (('h, 'r) rockchip_pmu \<times> errno option) option" where
  "rockchip_pmu_pd_on P dev w =
     (case dev of None \<Rightarrow> Some (w, Some EINVAL) | Some k \<Rightarrow> on_domain (rockchip_pd_power P True) k w)"

definition rockchip_pmu_pd_off ::
  "('h, 'r) power_port \<Rightarrow> nat option \<Rightarrow> ('h, 'r) rockchip_pmu \<Rightarrow> (('h, 'r) rockchip_pmu \<times> errno option) option" where
  "rockchip_pmu_pd_off P dev w =
     (case dev of None \<Rightarrow> Some (w, Some EINVAL) | Some k \<Rightarrow> on_domain (rockchip_pd_power P False) k w)"

definition rockchip_pmu_pd_is_on :: "('h, 'r) power_port \<Rightarrow> nat option \<Rightarrow> ('h, 'r) rockchip_pmu \<Rightarrow> bool option" where
  "rockchip_pmu_pd_is_on P dev w =
     (case dev of None \<Rightarrow> Some False
      | Some k \<Rightarrow> map_option (\<lambda>pd. rockchip_pmu_domain_is_on P (pmu_info w) (info pd) (pmu_hw w)) (genpd_domains w k))"

section \<open>The clocks of a device\<close>

text \<open>
  \<open>clks\<close> are the results of adding the clocks of the device one after the other; the result are the clocks
  of the device, of which an error leaves none.
\<close>

fun add_clks :: "errno option list \<Rightarrow> nat \<Rightarrow> nat option \<times> errno option" where
  "add_clks [] n = (Some n, None)"
| "add_clks (None # cs) n = add_clks cs (n + 1)"
| "add_clks (Some e # cs) n = (None, Some e)"

definition rockchip_pd_attach_dev :: "errno option \<Rightarrow> errno option list \<Rightarrow> nat option \<times> errno option" where
  "rockchip_pd_attach_dev create clks = (case create of Some e \<Rightarrow> (None, Some e) | None \<Rightarrow> add_clks clks 0)"

definition rockchip_pd_detach_dev :: "nat option \<Rightarrow> nat option" where
  "rockchip_pd_detach_dev clks = None"

section \<open>The device tree\<close>

text \<open>
  A bus master: whether it is available, its register map if there is one, and the initial values of its
  five registers. A node of a domain: its number, its name, what looking up each of its clocks gives, what
  preparing them gives, its bus masters, which of the five allocations succeed, what making it a subdomain
  of its parent gives, and the nodes in it.
\<close>

record dt_qos =
  qos_available :: bool
  qos_map :: "nat option"
  qos_init :: "u32 option list"

record dt_alloc =
  alloc_pd :: bool
  alloc_clks :: bool
  alloc_qos_regmap :: bool
  alloc_qos_save :: "u32 list option"
  alloc_qos_need :: bool

datatype dt_node = Dt_node (dt_reg: "nat option") (dt_name: string) (dt_clks: "errno option list")
  (dt_prepare: "errno option") (dt_qos: "dt_qos option list") (dt_alloc: dt_alloc) (dt_add: "errno option")
  (dt_children: "dt_node list")

section \<open>Initial values of the bus masters\<close>

fun init_regs :: "('h, 'r) power_port \<Rightarrow> nat \<Rightarrow> nat \<Rightarrow> nat \<Rightarrow> (nat \<times> u32) list \<Rightarrow> bool list \<Rightarrow> u32 list \<Rightarrow> 'h \<Rightarrow> 'h option" where
  "init_regs P q stride i [] need s h = Some h"
| "init_regs P q stride i ((k, r) # rs) need s h =
     (if length need \<le> k * stride + i then None
      else if need ! (k * stride + i)
      then (if length s \<le> k * stride + i then None
            else init_regs P q stride i rs need s (qos_write P q r (s ! (k * stride + i)) h))
      else init_regs P q stride i rs need s h)"

fun init_blocks :: "('h, 'r) power_port \<Rightarrow> nat list \<Rightarrow> nat \<Rightarrow> nat list \<Rightarrow> bool list \<Rightarrow> u32 list \<Rightarrow> 'h \<Rightarrow> 'h option" where
  "init_blocks P qs stride [] need s h = Some h"
| "init_blocks P qs stride (i # is) need s h =
     (if length qs \<le> i then None
      else Option.bind (init_regs P (qs ! i) stride i qos_regs need s h) (init_blocks P qs stride is need s))"

text \<open>The results of switching the power are not looked at.\<close>

definition rockchip_pd_qos_init ::
  "('h, 'r) power_port \<Rightarrow> bool list \<Rightarrow> rockchip_pm_domain \<Rightarrow> ('h, 'r) rockchip_pmu
   \<Rightarrow> (rockchip_pm_domain \<times> ('h, 'r) rockchip_pmu) option" where
  "rockchip_pd_qos_init P need pd w =
     (let was_on = rockchip_pmu_domain_is_on P (pmu_info w) (info pd) (pmu_hw w) in
      Option.bind (if was_on then Some (pd, w, None) else rockchip_pd_power P True pd w) (\<lambda>(pd1, w1, _).
      Option.bind (init_blocks P (qos_regmap pd1) (qos_stride pd1) [0..<num_qos pd1] need (qos_save_regs pd1) (pmu_hw w1)) (\<lambda>h.
      let w2 = w1\<lparr>pmu_hw := h\<rparr> in
      if was_on then Some (pd1, w2)
      else map_option (\<lambda>(pd3, w3, _). (pd3, w3)) (rockchip_pd_power P False pd1 w2))))"

section \<open>Adding a domain\<close>

text \<open>
  The loop over the bus masters: the register maps are collected without gaps, but the initial values are
  put where the node stands. The third component says that something is to be initialised.
\<close>

fun put_init :: "nat \<Rightarrow> nat \<Rightarrow> nat \<Rightarrow> u32 option list \<Rightarrow> u32 list \<Rightarrow> bool list \<Rightarrow> (u32 list \<times> bool list) option" where
  "put_init stride j k [] s need = Some (s, need)"
| "put_init stride j k (None # vs) s need = put_init stride j (k + 1) vs s need"
| "put_init stride j k (Some v # vs) s need =
     (if length s \<le> k * stride + j \<or> length need \<le> k * stride + j then None
      else put_init stride j (k + 1) vs (s[k * stride + j := v]) (need[k * stride + j := True]))"

fun read_qos ::
  "nat \<Rightarrow> nat \<Rightarrow> dt_qos option list \<Rightarrow> nat list \<Rightarrow> u32 list \<Rightarrow> bool list \<Rightarrow> (errno + nat list \<times> u32 list \<times> bool list) option" where
  "read_qos stride j [] maps s need = Some (Inr (maps, s, need))"
| "read_qos stride j (None # qs) maps s need = Some (Inl ENODEV)"
| "read_qos stride j (Some q # qs) maps s need =
     (if \<not> qos_available q then read_qos stride (j + 1) qs maps s need
      else case qos_map q of
          None \<Rightarrow> Some (Inl ENODEV)
        | Some m \<Rightarrow> Option.bind (put_init stride j 0 (qos_init q) s need)
            (\<lambda>(s1, need1). read_qos stride (j + 1) qs (maps @ [m]) s1 need1))"

definition count_qos :: "dt_qos option list \<Rightarrow> nat" where
  "count_qos qs = length (filter (\<lambda>q. case q of Some q \<Rightarrow> qos_available q | None \<Rightarrow> False) qs)"

text \<open>The bus masters of a domain; the flags of what is to be initialised are freed afterwards.\<close>

definition setup_qos :: "dt_node \<Rightarrow> rockchip_pm_domain \<Rightarrow> (errno + rockchip_pm_domain \<times> bool list) option" where
  "setup_qos nd pd =
     (let n = count_qos (dt_qos nd); a = dt_alloc nd; pd1 = pd\<lparr>num_qos := n\<rparr> in
      if n = 0 then Some (Inr (pd1, []))
      else if \<not> alloc_qos_regmap a then Some (Inl ENOMEM)
      else case alloc_qos_save a of
          None \<Rightarrow> Some (Inl ENOMEM)
        | Some junk \<Rightarrow>
            if \<not> alloc_qos_need a then Some (Inl ENOMEM)
            else
              let stride = length (dt_qos nd); s = take (MAX_QOS_REGS_NUM * n) (junk @ replicate (MAX_QOS_REGS_NUM * n) 0)
              in map_option (map_sum (\<lambda>e. e) (\<lambda>(maps, s1, need).
                   (pd1\<lparr>qos_regmap := maps, qos_stride := stride, qos_save_regs := s1\<rparr>, need)))
                 (read_qos stride 0 (dt_qos nd) [] s (replicate (MAX_QOS_REGS_NUM * n) False)))"

definition new_domain :: "rockchip_domain_info \<Rightarrow> dt_node \<Rightarrow> rockchip_pm_domain" where
  "new_domain d nd = \<lparr>info = d,
     genpd_name = (case domain_name d of Some n \<Rightarrow> n | None \<Rightarrow> dt_name nd), genpd_always_on = False,
     genpd_active_wakeup = active_wakeup d, genpd_off = False, num_qos = 0, qos_regmap = [], qos_stride = 0, qos_save_regs = [],
     num_clks = length (dt_clks nd), clk_enabled = 0, is_ignore_pwr = (pwr_mask d = 0), is_qos_saved = False,
     vdd = Supply_NULL\<rparr>"

text \<open>A domain that has to be on during the start is switched on.\<close>

definition keep_on ::
  "('h, 'r) power_port \<Rightarrow> rockchip_pm_domain \<Rightarrow> ('h, 'r) rockchip_pmu
   \<Rightarrow> (rockchip_pm_domain \<times> ('h, 'r) rockchip_pmu \<times> errno option) option" where
  "keep_on P pd w =
     (if keepon_startup (info pd) then
        let pd1 = pd\<lparr>genpd_always_on := True\<rparr> in
        if rockchip_pmu_domain_is_on P (pmu_info w) (info pd1) (pmu_hw w) then Some (pd1, w, None)
        else rockchip_pd_power P True pd1 w
      else Some (pd, w, None))"

text \<open>The number of clocks that are found before one is missing, and its error.\<close>

fun get_clks :: "errno option list \<Rightarrow> nat \<Rightarrow> nat \<times> errno option" where
  "get_clks [] n = (n, None)"
| "get_clks (None # cs) n = get_clks cs (n + 1)"
| "get_clks (Some e # cs) n = (n, Some e)"

definition put_clks :: "nat \<Rightarrow> ('h, 'r) rockchip_pmu \<Rightarrow> ('h, 'r) rockchip_pmu" where
  "put_clks n w = w\<lparr>clk_refs := clk_refs w - int n\<rparr>"

definition unprepare_clks :: "('h, 'r) rockchip_pmu \<Rightarrow> ('h, 'r) rockchip_pmu" where
  "unprepare_clks w = w\<lparr>clk_prepares := clk_prepares w - 1\<rparr>"

text \<open>What follows the preparation of the clocks.\<close>

definition finish_domain ::
  "('h, 'r) power_port \<Rightarrow> nat \<Rightarrow> dt_node \<Rightarrow> rockchip_pm_domain \<Rightarrow> ('h, 'r) rockchip_pmu
   \<Rightarrow> (('h, 'r) rockchip_pmu \<times> errno option) option" where
  "finish_domain P k nd pd w =
     Option.bind (setup_qos nd pd) (\<lambda>q. case q of
         Inl e \<Rightarrow> Some (put_clks (num_clks pd) (unprepare_clks w), Some e)
       | Inr (pd1, need) \<Rightarrow>
           Option.bind (keep_on P pd1 w) (\<lambda>(pd2, w2, e).
           if e \<noteq> None then Some (put_clks (num_clks pd) (unprepare_clks w2), e)
           else
             Option.bind (if True \<in> set need then rockchip_pd_qos_init P need pd2 w2 else Some (pd2, w2)) (\<lambda>(pd3, w3).
             let pd4 = pd3\<lparr>genpd_off := \<not> rockchip_pmu_domain_is_on P (pmu_info w3) (info pd3) (pmu_hw w3)\<rparr>
             in Some (w3\<lparr>genpd_domains := (genpd_domains w3)(k \<mapsto> pd4), genpd_list := insert k (genpd_list w3)\<rparr>, None))))"

definition rockchip_pm_add_one_domain ::
  "('h, 'r) power_port \<Rightarrow> dt_node \<Rightarrow> ('h, 'r) rockchip_pmu \<Rightarrow> (('h, 'r) rockchip_pmu \<times> errno option) option" where
  "rockchip_pm_add_one_domain P nd w =
     (case dt_reg nd of
        None \<Rightarrow> Some (w, Some EINVAL)
      | Some k \<Rightarrow>
          if num_domains (pmu_info w) \<le> k then Some (w, Some EINVAL)
          else if genpd_domains w k \<noteq> None then Some (w, None)
          else if \<not> alloc_pd (dt_alloc nd) then Some (w, Some ENOMEM)
          else
            let pd = new_domain (domain_info (pmu_info w) k) nd in
            if 0 < num_clks pd \<and> \<not> alloc_clks (dt_alloc nd) then Some (w, Some ENOMEM)
            else
              let (n, e) = get_clks (dt_clks nd) 0; w1 = w\<lparr>clk_refs := clk_refs w + int n\<rparr> in
              if e \<noteq> None then Some (w1, e)
              else if dt_prepare nd \<noteq> None then Some (put_clks (num_clks pd) w1, dt_prepare nd)
              else finish_domain P k nd pd (w1\<lparr>clk_prepares := clk_prepares w1 + 1\<rparr>))"

section \<open>Subdomains\<close>

text \<open>
  The nodes in a node are added and made subdomains of it, and so on for the nodes in them; the result of
  this last step is not looked at. A subdomain of a domain whose power is switched is switched too.
\<close>

definition link_subdomain :: "nat \<Rightarrow> nat \<Rightarrow> ('h, 'r) rockchip_pmu \<Rightarrow> ('h, 'r) rockchip_pmu option" where
  "link_subdomain k j w =
     (case (genpd_domains w k, genpd_domains w j) of
        (Some parent, Some child) \<Rightarrow>
          Some (w\<lparr>subdomains := (k, j) # subdomains w,
            genpd_domains := (if is_ignore_pwr parent then genpd_domains w
              else (genpd_domains w)(j \<mapsto> child\<lparr>is_ignore_pwr := False\<rparr>))\<rparr>)
      | _ \<Rightarrow> None)"

fun rockchip_pm_add_subdomain ::
  "('h, 'r) power_port \<Rightarrow> dt_node \<Rightarrow> ('h, 'r) rockchip_pmu \<Rightarrow> (('h, 'r) rockchip_pmu \<times> errno option) option"
and add_children ::
  "('h, 'r) power_port \<Rightarrow> nat option \<Rightarrow> dt_node list \<Rightarrow> ('h, 'r) rockchip_pmu \<Rightarrow> (('h, 'r) rockchip_pmu \<times> errno option) option"
where
  "rockchip_pm_add_subdomain P (Dt_node r nm cs pr qs al ad ch) w = add_children P r ch w"
| "add_children P r [] w = Some (w, None)"
| "add_children P r (np # nps) w =
     (case r of
        None \<Rightarrow> Some (w, Some EINVAL)
      | Some k \<Rightarrow>
          Option.bind (rockchip_pm_add_one_domain P np w) (\<lambda>(w1, e).
          if e \<noteq> None then Some (w1, e)
          else case dt_reg np of
              None \<Rightarrow> Some (w1, Some EINVAL)
            | Some j \<Rightarrow>
                if genpd_domains w k = None then None
                else if dt_add np \<noteq> None then Some (w1, dt_add np)
                else Option.bind (link_subdomain k j w1) (\<lambda>w2.
                     Option.bind (rockchip_pm_add_subdomain P np w2) (\<lambda>(w3, _). add_children P r nps w3))))"

section \<open>Probing\<close>

definition rockchip_configure_pd_cnt :: "('h, 'r) power_port \<Rightarrow> u32 \<Rightarrow> u32 \<Rightarrow> 'h \<Rightarrow> 'h" where
  "rockchip_configure_pd_cnt P off count h = regmap_write P (off + 4) count (regmap_write P off count h)"

text \<open>
  \<open>pm_genpd_remove\<close> is outside: \<open>R k links\<close> is the error with which it refuses domain \<open>k\<close> (\<open>-EBUSY\<close> for one that
  has subdomains), otherwise the domain leaves the list of the core and its links to its parents. In both
  cases the clocks are given back and \<open>num_clks\<close> becomes 0.
\<close>

type_synonym genpd_remove = "nat \<Rightarrow> (nat \<times> nat) list \<Rightarrow> errno option"

definition pm_genpd_remove :: "genpd_remove \<Rightarrow> nat \<Rightarrow> ('h, 'r) rockchip_pmu \<Rightarrow> ('h, 'r) rockchip_pmu \<times> errno option" where
  "pm_genpd_remove R k w =
     (case R k (subdomains w) of
        Some e \<Rightarrow> (w, Some e)
      | None \<Rightarrow> (w\<lparr>genpd_list := genpd_list w - {k}, subdomains := filter (\<lambda>(p, c). c \<noteq> k) (subdomains w)\<rparr>, None))"

definition rockchip_pm_remove_one_domain ::
  "genpd_remove \<Rightarrow> nat \<Rightarrow> rockchip_pm_domain \<Rightarrow> ('h, 'r) rockchip_pmu \<Rightarrow> ('h, 'r) rockchip_pmu" where
  "rockchip_pm_remove_one_domain R k pd w =
     (let (w1, ret) = pm_genpd_remove R k w; w2 = put_clks (num_clks pd) (unprepare_clks w1)
      in w2\<lparr>genpd_domains := (genpd_domains w2)(k \<mapsto> pd\<lparr>num_clks := 0\<rparr>)\<rparr>)"

fun cleanup_domains :: "genpd_remove \<Rightarrow> nat list \<Rightarrow> ('h, 'r) rockchip_pmu \<Rightarrow> ('h, 'r) rockchip_pmu" where
  "cleanup_domains R [] w = w"
| "cleanup_domains R (k # ks) w =
     cleanup_domains R ks (case genpd_domains w k of
        None \<Rightarrow> w
      | Some pd \<Rightarrow> rockchip_pm_remove_one_domain R k pd w)"

definition rockchip_pm_domain_cleanup :: "genpd_remove \<Rightarrow> ('h, 'r) rockchip_pmu \<Rightarrow> ('h, 'r) rockchip_pmu" where
  "rockchip_pm_domain_cleanup R w = cleanup_domains R [0..<num_domains (pmu_info w)] w"

text \<open>The loop over the nodes; its first component is the error the function starts with.\<close>

fun add_nodes ::
  "('h, 'r) power_port \<Rightarrow> errno option \<Rightarrow> dt_node list \<Rightarrow> ('h, 'r) rockchip_pmu \<Rightarrow> (('h, 'r) rockchip_pmu \<times> errno option) option" where
  "add_nodes P e [] w = Some (w, e)"
| "add_nodes P e (nd # nds) w =
     Option.bind (rockchip_pm_add_one_domain P nd w) (\<lambda>(w1, e1).
     if e1 \<noteq> None then Some (w1, e1)
     else Option.bind (rockchip_pm_add_subdomain P nd w1) (\<lambda>(w2, e2).
          if e2 \<noteq> None then Some (w2, e2) else add_nodes P e2 nds w2))"

text \<open>
  What probing meets: its node, the data of the chip, memory, its parent and the registers of that, and
  what removing a domain again gives.
\<close>

record pm_probe_env =
  has_node :: bool
  match_data :: "rockchip_pmu_info option"
  alloc_pmu :: bool
  has_parent :: bool
  syscon_error :: "errno option"
  iomap_ok :: bool
  provider_error :: "errno option"
  dt_nodes :: "dt_node list"
  genpd_remove_error :: genpd_remove

definition configure_counts :: "('h, 'r) power_port \<Rightarrow> rockchip_pmu_info \<Rightarrow> 'h \<Rightarrow> 'h" where
  "configure_counts P i h =
     (let h1 = (if core_power_transition_time i \<noteq> 0
                then rockchip_configure_pd_cnt P (core_pwrcnt_offset i) (core_power_transition_time i) h else h)
      in if gpu_pwrcnt_offset i \<noteq> 0 then rockchip_configure_pd_cnt P (gpu_pwrcnt_offset i) (gpu_power_transition_time i) h1 else h1)"

definition rockchip_pm_domain_probe ::
  "('h, 'r) power_port \<Rightarrow> pm_probe_env \<Rightarrow> ('h, 'r) rockchip_pmu \<Rightarrow> (('h, 'r) rockchip_pmu \<times> errno option) option" where
  "rockchip_pm_domain_probe P E w =
     (if \<not> has_node E then Some (w, Some ENODEV)
      else case match_data E of
          None \<Rightarrow> Some (w, Some EINVAL)
        | Some i \<Rightarrow>
            if \<not> alloc_pmu E then Some (w, Some ENOMEM)
            else if \<not> has_parent E then Some (w, Some ENODEV)
            else if syscon_error E \<noteq> None then Some (w, syscon_error E)
            else if \<not> iomap_ok E then Some (w, Some ENOMEM)
            else
              let w1 = w\<lparr>pmu_info := i, genpd_domains := Map.empty, subdomains := [], genpd_list := {}, pmu_hw := configure_counts P i (pmu_hw w)\<rparr>
              in Option.bind (add_nodes P (Some ENODEV) (dt_nodes E) w1) (\<lambda>(w2, e).
                 let e1 = (case e of Some x \<Rightarrow> Some x | None \<Rightarrow> provider_error E)
                 in if e1 \<noteq> None then Some (rockchip_pm_domain_cleanup (genpd_remove_error E) w2, e1) else Some (w2, None)))"

section \<open>The end of the start\<close>

text \<open>
  \<open>idle_devices k\<close> is what resuming and suspending the unused devices of domain \<open>k\<close> does, which the power
  management core calls back into this driver for.
\<close>

definition rockchip_pd_keepon_do_release ::
  "(nat \<Rightarrow> ('h, 'r) rockchip_pmu \<Rightarrow> ('h, 'r) rockchip_pmu option) \<Rightarrow> nat \<Rightarrow> rockchip_pm_domain
   \<Rightarrow> ('h, 'r) rockchip_pmu \<Rightarrow> ('h, 'r) rockchip_pmu option" where
  "rockchip_pd_keepon_do_release idle_devices k pd w =
     idle_devices k (w\<lparr>genpd_domains := (genpd_domains w)(k \<mapsto> pd\<lparr>genpd_always_on := False\<rparr>)\<rparr>)"

fun release_domains ::
  "(nat \<Rightarrow> ('h, 'r) rockchip_pmu \<Rightarrow> ('h, 'r) rockchip_pmu option) \<Rightarrow> nat list \<Rightarrow> ('h, 'r) rockchip_pmu \<Rightarrow> ('h, 'r) rockchip_pmu option" where
  "release_domains idle_devices [] w = Some w"
| "release_domains idle_devices (k # ks) w =
     Option.bind (case genpd_domains w k of
         None \<Rightarrow> Some w
       | Some pd \<Rightarrow> if keepon_startup (info pd) then rockchip_pd_keepon_do_release idle_devices k pd w else Some w)
       (release_domains idle_devices ks)"

definition rockchip_pd_keepon_release ::
  "(nat \<Rightarrow> ('h, 'r) rockchip_pmu \<Rightarrow> ('h, 'r) rockchip_pmu option) \<Rightarrow> ('h, 'r) rockchip_pmu option
   \<Rightarrow> ('h, 'r) rockchip_pmu option option" where
  "rockchip_pd_keepon_release idle_devices g_pmu =
     (case g_pmu of None \<Rightarrow> Some None
      | Some w \<Rightarrow> map_option Some (release_domains idle_devices [0..<num_domains (pmu_info w)] w))"

end
