(* ===== verification/Power_Props.thy ===== *)
theory Power_Props
  imports Power_Init
begin

text \<open>
  What switching a power domain does: its power, clocks and supply, that the registers of its bus masters
  survive, that it succeeds on a unit that responds, and the cases that go wrong.
\<close>

section \<open>The registers of the bus masters\<close>

text \<open>The allocation holds the five rows of a domain.\<close>

definition qos_ok :: "rockchip_pm_domain \<Rightarrow> bool" where
  "qos_ok pd \<longleftrightarrow> length (qos_regmap pd) = num_qos pd \<and> num_qos pd \<le> qos_stride pd
     \<and> (0 < num_qos pd \<longrightarrow> 4 * qos_stride pd + num_qos pd \<le> length (qos_save_regs pd))"

text \<open>Row \<open>k\<close> holds the register \<open>r\<close> of each bus master.\<close>

definition holds_regs :: "('h, 'r) power_port \<Rightarrow> nat list \<Rightarrow> nat \<Rightarrow> nat set \<Rightarrow> 'h \<Rightarrow> u32 list \<Rightarrow> bool" where
  "holds_regs P qs stride I h s \<longleftrightarrow> (\<forall>i \<in> I. \<forall>(k, r) \<in> set qos_regs. s ! (k * stride + i) = qos_read P (qs ! i) r h)"

lemma row_index: "i < (n :: nat) \<Longrightarrow> i' < n \<Longrightarrow> k * n + i = k' * n + i' \<longleftrightarrow> k = k' \<and> i = i'"
  by (metis add.commute add.right_neutral div_less div_mult_self3 less_nat_zero_code mod_less mod_mult_self3)

lemma qos_regs_rows: "(k, r) \<in> set qos_regs \<Longrightarrow> k < 5" "distinct (map fst qos_regs)" "distinct (map snd qos_regs)"
  by (auto simp: qos_regs_def QOS_PRIORITY_def QOS_MODE_def QOS_BANDWIDTH_def QOS_SATURATION_def QOS_EXTCONTROL_def)

lemma save_regs_result:
  assumes "\<forall>(k, r) \<in> set rs. k * stride + i < length s" "distinct (map fst rs)" "i < stride"
  shows "\<exists>s'. save_regs P q stride i rs h s = Some s' \<and> length s' = length s
    \<and> (\<forall>(k, r) \<in> set rs. s' ! (k * stride + i) = qos_read P q r h)
    \<and> (\<forall>x. (\<forall>(k, r) \<in> set rs. x \<noteq> k * stride + i) \<longrightarrow> s' ! x = s ! x)"
  using assms
proof (induction rs arbitrary: s)
  case (Cons a rs)
  obtain k r where a: "a = (k, r)" by force
  let ?s = "s[k * stride + i := qos_read P q r h]"
  obtain s' where s': "save_regs P q stride i rs h ?s = Some s'" "length s' = length s"
    "\<forall>(k, r) \<in> set rs. s' ! (k * stride + i) = qos_read P q r h"
    "\<forall>x. (\<forall>(k, r) \<in> set rs. x \<noteq> k * stride + i) \<longrightarrow> s' ! x = ?s ! x"
    using Cons.IH [of ?s] Cons.prems by (auto simp: a)
  have "\<forall>(k', r') \<in> set rs. k * stride + i \<noteq> k' * stride + i"
    using Cons.prems(2,3) by (force simp: a)
  then have "s' ! (k * stride + i) = qos_read P q r h" using s'(4) Cons.prems(1) by (simp add: a)
  then show ?case
    using s' Cons.prems(1) by (intro exI [of _ s']) (auto simp: a)
qed simp

lemma save_blocks_result:
  assumes "\<forall>i \<in> set is. i < length qs \<and> i < stride" "\<forall>i \<in> set is. \<forall>(k, r) \<in> set qos_regs. k * stride + i < length s"
    "distinct is"
  shows "\<exists>s'. save_blocks P qs stride is h s = Some s' \<and> length s' = length s \<and> holds_regs P qs stride (set is) h s'
    \<and> (\<forall>i < stride. i \<notin> set is \<longrightarrow> (\<forall>k. s' ! (k * stride + i) = s ! (k * stride + i)))"
  using assms
proof (induction "is" arbitrary: s)
  case Nil
  then show ?case by (simp add: holds_regs_def)
next
  case (Cons i "is")
  have i: "i < stride" "\<forall>(k, r) \<in> set qos_regs. k * stride + i < length s" using Cons.prems by simp_all
  obtain s1 where s1: "save_regs P (qs ! i) stride i qos_regs h s = Some s1" "length s1 = length s"
    "\<forall>(k, r) \<in> set qos_regs. s1 ! (k * stride + i) = qos_read P (qs ! i) r h"
    "\<forall>x. (\<forall>(k, r) \<in> set qos_regs. x \<noteq> k * stride + i) \<longrightarrow> s1 ! x = s ! x"
    using save_regs_result [OF i(2) qos_regs_rows(2) i(1), of P "qs ! i" h] by (elim exE conjE) (rule that)
  obtain s2 where s2: "save_blocks P qs stride is h s1 = Some s2" "length s2 = length s"
    "holds_regs P qs stride (set is) h s2"
    "\<forall>i < stride. i \<notin> set is \<longrightarrow> (\<forall>k. s2 ! (k * stride + i) = s1 ! (k * stride + i))"
    using Cons.IH [of s1] Cons.prems s1(2) by auto
  have "s2 ! (k * stride + i) = s1 ! (k * stride + i)" for k using s2(4) i(1) Cons.prems(3) by simp
  then have "holds_regs P qs stride (set (i # is)) h s2"
    using s1(3) s2(3) by (auto simp: holds_regs_def)
  moreover have "s2 ! (k * stride + j) = s ! (k * stride + j)" if "j < stride" "j \<notin> set (i # is)" for j k
  proof -
    have "k * stride + j \<noteq> k' * stride + i" for k' using row_index [OF that(1) i(1)] that(2) by simp
    then have "s1 ! (k * stride + j) = s ! (k * stride + j)" using s1(4) by blast
    then show ?thesis using s2(4) that by simp
  qed
  moreover have "save_blocks P qs stride (i # is) h s = Some s2" using s1(1) s2(1) Cons.prems(1) by simp
  ultimately show ?case using s1(2) s2(2) by (intro exI [of _ s2] conjI allI impI) simp_all
qed

lemma save_qos_result:
  assumes "qos_ok pd"
  obtains s where "rockchip_pmu_save_qos P pd h = Some (pd\<lparr>qos_save_regs := s\<rparr>)" "length s = length (qos_save_regs pd)"
    "holds_regs P (qos_regmap pd) (qos_stride pd) {..<num_qos pd} h s"
proof -
  have "k * qos_stride pd + i < length (qos_save_regs pd)" if "i < num_qos pd" "k < 5" for i k
  proof -
    have "k * qos_stride pd \<le> 4 * qos_stride pd" by (rule mult_le_mono1) (use that(2) in simp)
    moreover have "4 * qos_stride pd + num_qos pd \<le> length (qos_save_regs pd)"
      using assms that(1) by (simp add: qos_ok_def)
    ultimately show ?thesis using that(1) by linarith
  qed
  then have "\<forall>i \<in> set [0..<num_qos pd]. \<forall>(k, r) \<in> set qos_regs. k * qos_stride pd + i < length (qos_save_regs pd)"
    using qos_regs_rows(1) by auto
  from save_blocks_result [OF _ this, of "qos_regmap pd" P h] assms obtain s where
    "save_blocks P (qos_regmap pd) (qos_stride pd) [0..<num_qos pd] h (qos_save_regs pd) = Some s"
    "length s = length (qos_save_regs pd)"
    "holds_regs P (qos_regmap pd) (qos_stride pd) (set [0..<num_qos pd]) h s"
    by (auto simp: qos_ok_def)
  then show thesis using that by (simp add: rockchip_pmu_save_qos_def atLeast0LessThan)
qed

text \<open>A register keeps what is written to it, and writing it changes no other.\<close>

definition qos_law :: "('h, 'r) power_port \<Rightarrow> bool" where
  "qos_law P \<longleftrightarrow> (\<forall>q r q' r' v h. qos_read P q r (qos_write P q' r' v h) = (if q = q' \<and> r = r' then v else qos_read P q r h))"

lemma restore_regs_result:
  assumes "qos_law P" "\<forall>(k, r) \<in> set rs. k * stride + i < length s" "distinct (map snd rs)"
  shows "\<exists>h'. restore_regs P q stride i rs s h = Some h' \<and> (\<forall>(k, r) \<in> set rs. qos_read P q r h' = s ! (k * stride + i))
    \<and> (\<forall>q' r. q' \<noteq> q \<or> r \<notin> snd ` set rs \<longrightarrow> qos_read P q' r h' = qos_read P q' r h)"
  using assms(2,3)
proof (induction rs arbitrary: h)
  case (Cons a rs)
  obtain k r where a: "a = (k, r)" by force
  let ?h = "qos_write P q r (s ! (k * stride + i)) h"
  obtain h' where h': "restore_regs P q stride i rs s ?h = Some h'"
    "\<forall>(k, r) \<in> set rs. qos_read P q r h' = s ! (k * stride + i)"
    "\<forall>q' r. q' \<noteq> q \<or> r \<notin> snd ` set rs \<longrightarrow> qos_read P q' r h' = qos_read P q' r ?h"
    using Cons.IH [of ?h] Cons.prems by (auto simp: a)
  have w: "qos_read P q' r' ?h = (if q' = q \<and> r' = r then s ! (k * stride + i) else qos_read P q' r' h)" for q' r'
    using assms(1) by (simp add: qos_law_def)
  have "r \<notin> snd ` set rs" using Cons.prems(2) by (simp add: a)
  then have "qos_read P q r h' = s ! (k * stride + i)" using h'(3) w by simp
  moreover have "restore_regs P q stride i (a # rs) s h = Some h'" using h'(1) Cons.prems(1) by (simp add: a)
  ultimately show ?case
    using h'(2,3) w by (intro exI [of _ h'] conjI) (auto simp: a)
qed simp

lemma restore_blocks_result:
  assumes "qos_law P" "\<forall>i \<in> set is. i < length qs" "\<forall>i \<in> set is. \<forall>(k, r) \<in> set qos_regs. k * stride + i < length s"
    "distinct is" "distinct qs"
  shows "\<exists>h'. restore_blocks P qs stride is s h = Some h' \<and> holds_regs P qs stride (set is) h' s
    \<and> (\<forall>q r. q \<notin> (\<lambda>i. qs ! i) ` set is \<longrightarrow> qos_read P q r h' = qos_read P q r h)"
  using assms(2-4)
proof (induction "is" arbitrary: h)
  case Nil
  then show ?case by (simp add: holds_regs_def)
next
  case (Cons i "is")
  have i: "\<forall>(k, r) \<in> set qos_regs. k * stride + i < length s" using Cons.prems by simp
  obtain h1 where h1: "restore_regs P (qs ! i) stride i qos_regs s h = Some h1"
    "\<forall>(k, r) \<in> set qos_regs. qos_read P (qs ! i) r h1 = s ! (k * stride + i)"
    "\<forall>q' r. q' \<noteq> qs ! i \<or> r \<notin> snd ` set qos_regs \<longrightarrow> qos_read P q' r h1 = qos_read P q' r h"
    using restore_regs_result [OF assms(1) i qos_regs_rows(3), of "qs ! i" h] by (elim exE conjE) (rule that)
  obtain h2 where h2: "restore_blocks P qs stride is s h1 = Some h2" "holds_regs P qs stride (set is) h2 s"
    "\<forall>q r. q \<notin> (\<lambda>i. qs ! i) ` set is \<longrightarrow> qos_read P q r h2 = qos_read P q r h1"
    using Cons.IH [of h1] Cons.prems by auto
  have "qs ! i \<notin> (\<lambda>i. qs ! i) ` set is"
    using Cons.prems assms(5) by (auto simp: nth_eq_iff_index_eq)
  then have "qos_read P (qs ! i) r h2 = qos_read P (qs ! i) r h1" for r using h2(3) by blast
  then have "holds_regs P qs stride (set (i # is)) h2 s"
    using h1(2) h2(2) by (auto simp: holds_regs_def)
  moreover have "restore_blocks P qs stride (i # is) s h = Some h2" using h1(1) h2(1) Cons.prems(1) by simp
  moreover have "qos_read P q r h2 = qos_read P q r h" if "q \<notin> (\<lambda>i. qs ! i) ` set (i # is)" for q r
    using that h1(3) h2(3) by simp
  ultimately show ?case by (intro exI [of _ h2] conjI allI impI)
qed

lemma qos_ok_index:
  assumes "qos_ok pd" "i < num_qos pd" "k < 5"
  shows "k * qos_stride pd + i < length (qos_save_regs pd)"
proof -
  have "k * qos_stride pd \<le> 4 * qos_stride pd" by (rule mult_le_mono1) (use assms(3) in simp)
  moreover have "4 * qos_stride pd + num_qos pd \<le> length (qos_save_regs pd)"
    using assms(1,2) by (simp add: qos_ok_def)
  ultimately show ?thesis using assms(2) by linarith
qed

lemma restore_qos_result:
  assumes "qos_law P" "qos_ok pd" "distinct (qos_regmap pd)"
  obtains h' where "rockchip_pmu_restore_qos P pd h = Some h'"
    "holds_regs P (qos_regmap pd) (qos_stride pd) {..<num_qos pd} h' (qos_save_regs pd)"
proof -
  have "\<forall>i \<in> set [0..<num_qos pd]. \<forall>(k, r) \<in> set qos_regs. k * qos_stride pd + i < length (qos_save_regs pd)"
    using qos_ok_index [OF assms(2)] qos_regs_rows(1) by auto
  from restore_blocks_result [OF assms(1) _ this, of "qos_regmap pd" h] assms(2,3) obtain h' where
    "restore_blocks P (qos_regmap pd) (qos_stride pd) [0..<num_qos pd] (qos_save_regs pd) h = Some h'"
    "holds_regs P (qos_regmap pd) (qos_stride pd) (set [0..<num_qos pd]) h' (qos_save_regs pd)"
    by (auto simp: qos_ok_def)
  then show thesis using that by (simp add: rockchip_pmu_restore_qos_def atLeast0LessThan)
qed

section \<open>Idle requests and power\<close>

definition elapsed :: "('h, 'r) power_port \<Rightarrow> nat \<Rightarrow> 'h \<Rightarrow> 'h" where
  "elapsed P k h = (pmu_elapse P ^^ k) h"

definition steady :: "('h, 'r) power_port \<Rightarrow> rockchip_pmu_info \<Rightarrow> rockchip_domain_info \<Rightarrow> bool \<Rightarrow> 'h \<Rightarrow> bool" where
  "steady P i d on h \<longleftrightarrow> (\<forall>j. rockchip_pmu_domain_is_on P i d (elapsed P j h) = on)"

text \<open>
  What is assumed of a domain: once its status shows the power it was asked for it stays so, also over idle
  requests; that it gets there in time, and that idle requests are answered in time.
\<close>

definition power_law :: "('h, 'r) power_port \<Rightarrow> rockchip_pmu_info \<Rightarrow> rockchip_domain_info \<Rightarrow> bool" where
  "power_law P i d \<longleftrightarrow>
     (\<forall>h on k. rockchip_pmu_domain_is_on P i d (elapsed P k (request_power P i d on h)) = on
        \<longrightarrow> steady P i d on (elapsed P k (request_power P i d on h)))
     \<and> (\<forall>h on idle. steady P i d on h \<longrightarrow> steady P i d on (request_idle P i d idle h))
     \<and> (\<forall>h on q r v. steady P i d on h \<longrightarrow> steady P i d on (qos_write P q r v h))"

definition responds :: "('h, 'r) power_port \<Rightarrow> rockchip_pmu_info \<Rightarrow> rockchip_domain_info \<Rightarrow> bool" where
  "responds P i d \<longleftrightarrow>
     (\<forall>h on. \<exists>k \<le> pmu_budget P. rockchip_pmu_domain_is_on P i d (elapsed P k (request_power P i d on h)) = on)
     \<and> (\<forall>h idle. \<exists>k \<le> pmu_budget P. \<forall>j \<ge> k. acked P i d idle (elapsed P j (request_idle P i d idle h))
          \<and> rockchip_pmu_domain_is_idle P i d (elapsed P j (request_idle P i d idle h)) = idle)"

lemma elapsed_elapsed: "elapsed P j (elapsed P k h) = elapsed P (j + k) h"
  by (simp add: elapsed_def funpow_add)

lemma steady_after: "steady P i d on h \<Longrightarrow> steady P i d on (elapsed P k h)"
  by (simp add: steady_def elapsed_elapsed)

lemma poll_after:
  obtains k where "k \<le> n" "fst (poll_timeout n cond (pmu_elapse P) h) = elapsed P k h"
  using poll_timeout_reach [of n cond "pmu_elapse P" h] by (auto simp: elapsed_def)

lemma poll_succeeds:
  "k \<le> n \<Longrightarrow> cond (elapsed P k h) \<Longrightarrow> snd (poll_timeout n cond (pmu_elapse P) h)"
  by (simp add: elapsed_def poll_timeout_live)

lemma set_power_steady:
  assumes "power_law P i d" "pwr_mask d \<noteq> 0" "rockchip_do_pmu_set_power_domain P i d on h = Some h'"
  shows "steady P i d on h'"
proof -
  obtain k where k: "fst (poll_timeout (pmu_budget P) (\<lambda>h. rockchip_pmu_domain_is_on P i d h = on) (pmu_elapse P)
      (request_power P i d on h)) = elapsed P k (request_power P i d on h)"
    using poll_after .
  have "h' = elapsed P k (request_power P i d on h)" "rockchip_pmu_domain_is_on P i d h' = on"
    using assms(2,3) k poll_timeout_cond [of "pmu_budget P" "\<lambda>h. rockchip_pmu_domain_is_on P i d h = on" "pmu_elapse P"
        "request_power P i d on h"]
    by (auto simp: rockchip_do_pmu_set_power_domain_def case_prod_beta Let_def split: if_splits)
  then show ?thesis using assms(1) unfolding power_law_def by blast
qed

lemma idle_request_after:
  assumes "rockchip_pmu_set_idle_request P i d idle h = Some h'"
  shows "h' = h \<or> (\<exists>k. h' = elapsed P k (request_idle P i d idle h))"
proof (cases "req_mask d = 0")
  case False
  let ?h = "request_idle P i d idle h"
  obtain k where k: "fst (poll_timeout (pmu_budget P) (acked P i d idle) (pmu_elapse P) ?h) = elapsed P k ?h"
    using poll_after .
  obtain k' where "fst (poll_timeout (pmu_budget P) (\<lambda>h. rockchip_pmu_domain_is_idle P i d h = idle) (pmu_elapse P)
      (elapsed P k ?h)) = elapsed P k' (elapsed P k ?h)"
    using poll_after .
  then have "h' = elapsed P (k' + k) ?h"
    using assms False k by (auto simp: rockchip_pmu_set_idle_request_def elapsed_elapsed case_prod_beta Let_def split: if_splits)
  then show ?thesis by blast
qed (use assms in \<open>simp add: rockchip_pmu_set_idle_request_def\<close>)

lemma idle_request_steady:
  assumes "power_law P i d" "steady P i d on h" "rockchip_pmu_set_idle_request P i d idle h = Some h'"
  shows "steady P i d on h'"
proof -
  have "steady P i d on (request_idle P i d idle h)" using assms(1,2) by (simp add: power_law_def)
  then show ?thesis using idle_request_after [OF assms(3)] assms(2) steady_after by auto
qed

lemma set_power_responds:
  assumes "responds P i d"
  obtains h' where "rockchip_do_pmu_set_power_domain P i d on h = Some h'"
proof (cases "pwr_mask d = 0")
  case False
  obtain k where "k \<le> pmu_budget P" "rockchip_pmu_domain_is_on P i d (elapsed P k (request_power P i d on h)) = on"
    using assms unfolding responds_def by blast
  then have "snd (poll_timeout (pmu_budget P) (\<lambda>h. rockchip_pmu_domain_is_on P i d h = on) (pmu_elapse P)
      (request_power P i d on h))"
    by (rule poll_succeeds)
  then show thesis using that False by (auto simp: rockchip_do_pmu_set_power_domain_def case_prod_beta Let_def)
qed (use that in \<open>simp add: rockchip_do_pmu_set_power_domain_def\<close>)

lemma idle_request_responds:
  assumes "responds P i d"
  obtains h' where "rockchip_pmu_set_idle_request P i d idle h = Some h'"
proof (cases "req_mask d = 0")
  case False
  let ?h = "request_idle P i d idle h"
  have "\<exists>k \<le> pmu_budget P. \<forall>j \<ge> k. acked P i d idle (elapsed P j ?h) \<and> rockchip_pmu_domain_is_idle P i d (elapsed P j ?h) = idle"
    using assms by (simp add: responds_def)
  then obtain k where k: "k \<le> pmu_budget P" "\<And>j. k \<le> j \<Longrightarrow> acked P i d idle (elapsed P j ?h)"
    "\<And>j. k \<le> j \<Longrightarrow> rockchip_pmu_domain_is_idle P i d (elapsed P j ?h) = idle"
    by auto
  obtain k1 where k1: "fst (poll_timeout (pmu_budget P) (acked P i d idle) (pmu_elapse P) ?h) = elapsed P k1 ?h"
    using poll_after .
  have "snd (poll_timeout (pmu_budget P) (acked P i d idle) (pmu_elapse P) ?h)"
    by (rule poll_succeeds [OF k(1)]) (simp add: k(2))
  moreover have "rockchip_pmu_domain_is_idle P i d (elapsed P k (elapsed P k1 ?h)) = idle" using k(3) by (simp add: elapsed_elapsed)
  then have "snd (poll_timeout (pmu_budget P) (\<lambda>h. rockchip_pmu_domain_is_idle P i d h = idle) (pmu_elapse P) (elapsed P k1 ?h))"
    by (rule poll_succeeds [OF k(1)])
  ultimately show thesis
    using that False k1 by (auto simp: rockchip_pmu_set_idle_request_def case_prod_beta Let_def)
qed (use that in \<open>simp add: rockchip_pmu_set_idle_request_def\<close>)

end
