(* ===== verification/Power_Sim.thy ===== *)
theory Power_Sim
  imports Power_Props
begin

text \<open>
  A unit on which the domains of the RK3568 can be switched: it keeps the word of the powers and that of the
  idle requests, answers at once, and loses the registers of the bus masters when a power goes off. Supplies
  are counters.
\<close>

type_synonym sim_unit = "u32 \<times> u32 \<times> (nat \<Rightarrow> u32 \<Rightarrow> u32)"

definition sim_write :: "u32 \<Rightarrow> u32 \<Rightarrow> sim_unit \<Rightarrow> sim_unit" where
  "sim_write off v h =
     (case h of (pwr, req, qos) \<Rightarrow>
        if off = 0xa0 then (v, req, if v AND 0xffff = 0 then qos else (\<lambda>_ _. 0))
        else if off = 0x50 then (pwr, v, qos) else h)"

definition sim_power :: "(sim_unit, int) power_port" where
  "sim_power = \<lparr>regmap_read = (\<lambda>off h. case h of (pwr, req, qos) \<Rightarrow> if off = 0x98 then pwr else if off = 0x60 \<or> off = 0x68 then req else 0),
     regmap_write = sim_write,
     qos_read = (\<lambda>q r h. case h of (pwr, req, qos) \<Rightarrow> qos q r),
     qos_write = (\<lambda>q r v h. case h of (pwr, req, qos) \<Rightarrow> (pwr, req, qos(q := (qos q)(r := v)))),
     pmu_elapse = (\<lambda>h. h), pmu_budget = 1,
     regulator_get = (\<lambda>n r. (r, None)), regulator_enable = (\<lambda>n r. (r + 1, None)), regulator_disable = (\<lambda>n r. (r - 1, None))\<rparr>"

definition sim_info :: rockchip_pmu_info where
  "sim_info = rk3568_pmu [6..<15]"

text \<open>The domain of the graphics processor with two bus masters, registered by a unit whose powers are on.\<close>

definition gpu_domain :: rockchip_pm_domain where
  "gpu_domain = \<lparr>info = domain_info sim_info 7, genpd_name = ''gpu'', genpd_always_on = False, genpd_active_wakeup = False,
     genpd_off = False, num_qos = 2, qos_regmap = [3, 4], qos_stride = 2, qos_save_regs = [0, 0, 0, 0, 0, 0, 0, 0, 0, 0], num_clks = 1,
     clk_enabled = 0, is_ignore_pwr = False, is_qos_saved = False, vdd = Supply_NULL\<rparr>"

definition sim_pmu :: "(sim_unit, int) rockchip_pmu" where
  "sim_pmu = \<lparr>pmu_info = sim_info, genpd_domains = [7 \<mapsto> gpu_domain], pmu_hw = (0, 0, \<lambda>q r. r + 7), supplies = 1,
     clk_error = None, pm_domain_always_on = False, clk_refs = 1, clk_prepares = 1, subdomains = [], genpd_list = {7}\<rparr>"

lemmas sim_info_simps = sim_info_def rk3568_pmu_def no_pmu_info_def placed_def rk3568_pm_domains_def domain_macros BIT_def

lemma sim_info_fields [simp]:
  "pwr_offset sim_info = 0xa0" "status_offset sim_info = 0x98" "req_offset sim_info = 0x50" "idle_offset sim_info = 0x68"
  "ack_offset sim_info = 0x60" "num_domains sim_info = 15"
  by (simp_all add: sim_info_def rk3568_pmu_def no_pmu_info_def array_size_def)

lemma sim_gpu: "domain_info sim_info 7 = DOMAIN_RK3568 ''gpu'' (BIT 0) (BIT 1) False"
  by (simp add: sim_info_def rk3568_pmu_def placed_def rk3568_pm_domains_def)

lemma sim_gpu_fields [simp]:
  "pwr_mask (domain_info sim_info 7) = 1" "status_mask (domain_info sim_info 7) = 1" "req_mask (domain_info sim_info 7) = 2"
  "idle_mask (domain_info sim_info 7) = 2" "ack_mask (domain_info sim_info 7) = 2"
  "pwr_w_mask (domain_info sim_info 7) = 0x10000" "req_w_mask (domain_info sim_info 7) = 0x20000"
  "repair_status_mask (domain_info sim_info 7) = 0" "domain_pwr_offset (domain_info sim_info 7) = 0"
  "domain_req_offset (domain_info sim_info 7) = 0"
  by (simp_all add: sim_gpu domain_macros BIT_def)

lemma sim_after [simp]: "elapsed sim_power k h = h"
  by (induction k) (simp_all add: elapsed_def sim_power_def)

lemma sim_is_on [simp]: "rockchip_pmu_domain_is_on sim_power sim_info (domain_info sim_info 7) (p, q, f) \<longleftrightarrow> p AND 1 = 0"
  by (simp add: rockchip_pmu_domain_is_on_def sim_power_def)

lemma sim_request_power [simp]: "request_power sim_power sim_info (domain_info sim_info 7) on (p, q, f) =
    (if on then (0x10000, q, f) else (0x10001, q, \<lambda>_ _. 0))"
  by (simp add: request_power_def sim_power_def sim_write_def)

lemma sim_request_idle [simp]: "request_idle sim_power sim_info (domain_info sim_info 7) b (p, q, f) =
    (p, if b then 0x20002 else 0x20000, f)"
  by (simp add: request_idle_def sim_power_def sim_write_def)

lemma sim_acked [simp]: "acked sim_power sim_info (domain_info sim_info 7) b (p, q, f) \<longleftrightarrow> q AND 2 = (if b then 2 else 0)"
  by (simp add: acked_def rockchip_pmu_read_ack_def sim_power_def)

lemma sim_is_idle [simp]: "rockchip_pmu_domain_is_idle sim_power sim_info (domain_info sim_info 7) (p, q, f) \<longleftrightarrow> q AND 2 = 2"
  by (simp add: rockchip_pmu_domain_is_idle_def sim_power_def)

lemma sim_qos_access [simp]: "qos_write sim_power q r v (p, i, f) = (p, i, f(q := (f q)(r := v)))"
    "qos_read sim_power q r (p, i, f) = f q r"
  by (simp_all add: sim_power_def)

lemma sim_power_law: "power_law sim_power sim_info (domain_info sim_info 7)"
  by (auto simp: power_law_def steady_def)

lemma sim_responds: "responds sim_power sim_info (domain_info sim_info 7)"
  by (auto simp: responds_def split: prod.splits)

lemma sim_qos_law: "qos_law sim_power"
  by (auto simp: qos_law_def sim_power_def)

lemma sim_qos_ok: "qos_ok gpu_domain" "distinct (qos_regmap gpu_domain)"
  by (simp_all add: qos_ok_def gpu_domain_def)


text \<open>Off and on again.\<close>

lemma sim_poll [simp]: "poll_timeout (pmu_budget sim_power) c (pmu_elapse sim_power) h = (h, c h)"
  by (simp add: sim_power_def numeral_eq_Suc)

lemma sim_supplies [simp]: "regulator_get sim_power n r = (r, None)" "regulator_enable sim_power n r = (r + 1, None)"
    "regulator_disable sim_power n r = (r - 1, None)"
  by (simp_all add: sim_power_def)

definition sim_off :: rockchip_pm_domain where
  "sim_off = gpu_domain\<lparr>qos_save_regs := [0xf, 0xf, 0x13, 0x13, 0x17, 0x17, 0x1b, 0x1b, 0x1f, 0x1f], is_qos_saved := True, vdd := Supply\<rparr>"

definition sim_pmu_off :: "(sim_unit, int) rockchip_pmu" where
  "sim_pmu_off = sim_pmu\<lparr>pmu_hw := (0x10001, 0x20002, \<lambda>_ _. 0), supplies := 0\<rparr>"

lemmas sim_simps = gpu_domain_def sim_pmu_def sim_off_def sim_pmu_off_def rockchip_pd_power_def get_supply_def enable_supply_def
  disable_supply_def IS_ERR_supply_def clk_bulk_enable_pd_def clk_bulk_disable_pd_def switch_power_def rockchip_pmu_save_qos_def
  rockchip_pmu_restore_qos_def rockchip_pmu_set_idle_request_def rockchip_do_pmu_set_power_domain_def qos_regs_def
  QOS_PRIORITY_def QOS_MODE_def QOS_BANDWIDTH_def QOS_SATURATION_def QOS_EXTCONTROL_def

lemma list_update_numeral [simp]: "(x # xs)[numeral n := v] = x # xs[pred_numeral n := v]"
  by (simp add: numeral_eq_Suc)

lemma sim_power_off: "rockchip_pd_power sim_power False gpu_domain sim_pmu = Some (sim_off, sim_pmu_off, None)"
  by (simp add: sim_simps numeral_2_eq_2)

lemma sim_power_on:
  "\<exists>pd w. rockchip_pd_power sim_power True sim_off sim_pmu_off = Some (pd, w, None) \<and> pmu_info w = sim_info
     \<and> pmu_hw w = (0x10000, 0x20000, \<lambda>q r. if q \<in> {3, 4} \<and> r \<in> snd ` set qos_regs then r + 7 else 0)"
  by (simp add: sim_simps numeral_2_eq_2 fun_eq_iff)


lemma sim_fields:
  "pmu_info sim_pmu = sim_info" "pmu_info sim_pmu_off = sim_info" "info gpu_domain = domain_info sim_info 7"
  "info sim_off = domain_info sim_info 7" "pmu_hw sim_pmu = (0, 0, \<lambda>q r. r + 7)" "pmu_hw sim_pmu_off = (0x10001, 0x20002, \<lambda>_ _. 0)"
  "\<not> pm_domain_always_on sim_pmu" "clk_error sim_pmu = None" "qos_regmap gpu_domain = [3, 4]"
  by (simp_all add: gpu_domain_def sim_pmu_def sim_off_def sim_pmu_off_def)

end
