(* ===== verification/Power_Switch.thy ===== *)
theory Power_Switch
  imports Power_Sim
begin

text \<open>
  Switching the power of a domain, \<open>rockchip_pd_power\<close>: what it leaves behind, that it succeeds, the round
  trip of the registers of the bus masters, and the errors.
\<close>

section \<open>One switch\<close>

lemma holds_regsD:
  "holds_regs P qs stride I h s \<Longrightarrow> i \<in> I \<Longrightarrow> (k, r) \<in> set qos_regs \<Longrightarrow> s ! (k * stride + i) = qos_read P (qs ! i) r h"
  by (auto simp: holds_regs_def)



lemma switch_on:
  assumes "switch_power P i True pd h = Some (pd', h')"
  obtains h1 h2 where "rockchip_do_pmu_set_power_domain P i (info pd) True h = Some h1"
    "rockchip_pmu_set_idle_request P i (info pd) False h1 = Some h2"
    "(if is_qos_saved pd then rockchip_pmu_restore_qos P pd h2 else Some h2) = Some h'" "pd' = pd"
  using assms by (auto simp: switch_power_def bind_eq_Some_conv)

lemma switch_off:
  assumes "switch_power P i False pd h = Some (pd', h')"
  obtains pd1 h1 where "rockchip_pmu_save_qos P pd h = Some pd1" "pd' = pd1\<lparr>is_qos_saved := True\<rparr>"
    "rockchip_pmu_set_idle_request P i (info pd) True h = Some h1"
    "rockchip_do_pmu_set_power_domain P i (info pd) False h1 = Some h'"
  using assms by (auto simp: switch_power_def bind_eq_Some_conv Let_def)


lemma save_qos_same:
  "rockchip_pmu_save_qos P pd h = Some pd1 \<Longrightarrow> pd1 = pd\<lparr>qos_save_regs := qos_save_regs pd1\<rparr>"
  by (auto simp: rockchip_pmu_save_qos_def)

lemma switch_same:
  assumes "switch_power P i on pd h = Some (pd', h')"
  shows "pd' = pd\<lparr>qos_save_regs := qos_save_regs pd', is_qos_saved := is_qos_saved pd'\<rparr>"
proof (cases on)
  case False
  then obtain pd1 where "rockchip_pmu_save_qos P pd h = Some pd1" "pd' = pd1\<lparr>is_qos_saved := True\<rparr>"
    using assms by (auto elim: switch_off)
  then show ?thesis by (auto simp: rockchip_pmu_save_qos_def)
qed (use assms in \<open>auto elim: switch_on\<close>)

text \<open>How a call ends: without doing anything, before the clocks are on, or after the switch.\<close>

lemma power_nothing:
  assumes "pm_domain_always_on w \<and> \<not> on \<or> rockchip_pmu_domain_is_on P (pmu_info w) (info pd) (pmu_hw w) = on"
  shows "rockchip_pd_power P on pd w = Some (pd, w, None)"
  unfolding rockchip_pd_power_def using assms by presburger

lemma rockchip_pd_power_cases:
  assumes "rockchip_pd_power P on pd w = Some (pd', w', e)"
  obtains (nothing) "pd' = pd" "w' = w" "e = None"
      "pm_domain_always_on w \<and> \<not> on \<or> rockchip_pmu_domain_is_on P (pmu_info w) (info pd) (pmu_hw w) = on"
  | (failed) v r where "rockchip_pmu_domain_is_on P (pmu_info w) (info pd) (pmu_hw w) \<noteq> on"
      "pd' = pd\<lparr>vdd := v\<rparr>" "w' = w\<lparr>supplies := r\<rparr>" "e \<noteq> None"
  | (switched) v r pd3 h3 where "rockchip_pmu_domain_is_on P (pmu_info w) (info pd) (pmu_hw w) \<noteq> on"
      "switch_power P (pmu_info w) on (pd\<lparr>vdd := v, clk_enabled := clk_enabled pd + 1\<rparr>) (pmu_hw w) = Some (pd3, h3)"
      "pd' = pd3\<lparr>clk_enabled := clk_enabled pd3 - 1\<rparr>" "w' = w\<lparr>pmu_hw := h3, supplies := r\<rparr>" "on \<Longrightarrow> e = None"
      "\<not> (pm_domain_always_on w \<and> \<not> on)"
proof -
  obtain pd1 r1 where g: "get_supply P pd (supplies w) = (pd1, r1)" by force
  then obtain v where v: "pd1 = pd\<lparr>vdd := v\<rparr>"
    by (auto simp: get_supply_def split: if_splits prod.splits option.splits intro: that [of "vdd pd"])
  obtain r2 e2 where e: "enable_supply P on pd1 r1 = (r2, e2)" by force
  obtain pd2 e3 where c: "clk_bulk_enable_pd (w\<lparr>supplies := r2\<rparr>) pd1 = (pd2, e3)" by force
  have c': "pd2 = pd1\<lparr>clk_enabled := clk_enabled pd1 + 1\<rparr>" if "e3 = None"
    using c that by (auto simp: clk_bulk_enable_pd_def split: option.splits if_splits)
  have c'': "pd2 = pd1" if "e3 \<noteq> None"
    using c that by (auto simp: clk_bulk_enable_pd_def split: option.splits if_splits)
  consider "pm_domain_always_on w \<and> \<not> on \<or> rockchip_pmu_domain_is_on P (pmu_info w) (info pd) (pmu_hw w) = on"
    | "\<not> (pm_domain_always_on w \<and> \<not> on)" "rockchip_pmu_domain_is_on P (pmu_info w) (info pd) (pmu_hw w) \<noteq> on" "e2 \<noteq> None"
    | "\<not> (pm_domain_always_on w \<and> \<not> on)" "rockchip_pmu_domain_is_on P (pmu_info w) (info pd) (pmu_hw w) \<noteq> on" "e2 = None" "e3 \<noteq> None"
    | "\<not> (pm_domain_always_on w \<and> \<not> on)" "rockchip_pmu_domain_is_on P (pmu_info w) (info pd) (pmu_hw w) \<noteq> on" "e2 = None" "e3 = None"
    by blast
  then show thesis
  proof cases
    case 1
    have "pd' = pd" "w' = w" "e = None" using assms power_nothing [OF 1] by simp_all
    then show thesis using 1 by (rule nothing)
  next
    case 2
    then show thesis using assms failed [of v r2] g e v by (auto simp: rockchip_pd_power_def)
  next
    case 3
    then show thesis using assms failed [of v r2] g e c v c'' by (auto simp: rockchip_pd_power_def)
  next
    case 4
    then have run: "rockchip_pd_power P on pd w = Option.bind (switch_power P (pmu_info w) on pd2 (pmu_hw w)) (\<lambda>(pd3, h3).
        let (r3, e3) = disable_supply P on (clk_bulk_disable_pd pd3) r2
        in Some (clk_bulk_disable_pd pd3, w\<lparr>pmu_hw := h3, supplies := r3\<rparr>, e3))"
      using g e c by (auto simp: rockchip_pd_power_def Let_def)
    then obtain pd3 h3 where sw: "switch_power P (pmu_info w) on pd2 (pmu_hw w) = Some (pd3, h3)"
      using assms by (cases "switch_power P (pmu_info w) on pd2 (pmu_hw w)") auto
    obtain r3 e4 where d: "disable_supply P on (clk_bulk_disable_pd pd3) r2 = (r3, e4)" by force
    have s: "switch_power P (pmu_info w) on pd2 (pmu_hw w) = Some (pd3, h3)"
      "pd' = clk_bulk_disable_pd pd3" "disable_supply P on (clk_bulk_disable_pd pd3) r2 = (r3, e)"
      "w' = w\<lparr>pmu_hw := h3, supplies := r3\<rparr>"
      using assms run sw d by simp_all
    have "on \<Longrightarrow> e = None" using s(3) by (auto simp: disable_supply_def)
    then show thesis using 4 s c' v by (intro switched [of v pd3 h3 r3]) (auto simp: clk_bulk_disable_pd_def)
  qed
qed



section \<open>A unit that responds\<close>

lemma switch_responds:
  assumes "responds P i (info pd)" "qos_law P" "qos_ok pd" "distinct (qos_regmap pd)"
  obtains pd' h' where "switch_power P i on pd h = Some (pd', h')"
proof (cases on)
  case True
  obtain h1 where h1: "rockchip_do_pmu_set_power_domain P i (info pd) True h = Some h1"
    using set_power_responds [OF assms(1)] .
  obtain h2 where h2: "rockchip_pmu_set_idle_request P i (info pd) False h1 = Some h2"
    using idle_request_responds [OF assms(1)] .
  obtain h3 where "rockchip_pmu_restore_qos P pd h2 = Some h3" using restore_qos_result [OF assms(2-4)] .
  then show thesis using that True h1 h2 by (cases "is_qos_saved pd") (simp_all add: switch_power_def)
next
  case False
  obtain s where s: "rockchip_pmu_save_qos P pd h = Some (pd\<lparr>qos_save_regs := s\<rparr>)" using save_qos_result [OF assms(3)] .
  obtain h1 where h1: "rockchip_pmu_set_idle_request P i (info pd) True h = Some h1"
    using idle_request_responds [OF assms(1)] .
  obtain h2 where "rockchip_do_pmu_set_power_domain P i (info pd) False h1 = Some h2"
    using set_power_responds [OF assms(1)] .
  then show thesis using that False s h1 by (simp add: switch_power_def)
qed

text \<open>The error of a switch: that of the supply, where the domain has one, or that of its clocks.\<close>

definition power_error :: "('h, 'r) power_port \<Rightarrow> bool \<Rightarrow> rockchip_pm_domain \<Rightarrow> ('h, 'r) rockchip_pmu \<Rightarrow> errno option" where
  "power_error P on pd w =
     (if pm_domain_always_on w \<and> \<not> on \<or> rockchip_pmu_domain_is_on P (pmu_info w) (info pd) (pmu_hw w) = on then None
      else
        let (pd1, r1) = get_supply P pd (supplies w); (r2, e) = enable_supply P on pd1 r1
        in if e \<noteq> None then e
           else if num_clks pd \<noteq> 0 \<and> clk_error w \<noteq> None then clk_error w
           else snd (disable_supply P on pd1 r2))"

lemma get_supply_vdd: "get_supply P pd r = (pd1, r1) \<Longrightarrow> \<exists>v. pd1 = pd\<lparr>vdd := v\<rparr>"
  by (auto simp: get_supply_def split: if_splits prod.splits option.splits intro: exI [of _ "vdd pd"])

lemma disable_supply_same:
  "vdd pd' = vdd pd \<Longrightarrow> genpd_name pd' = genpd_name pd \<Longrightarrow> disable_supply P on pd' r = disable_supply P on pd r"
  by (simp add: disable_supply_def)

text \<open>
  C17: on a unit that answers within the time of each wait, for a domain whose bus masters have registers
  that keep what is written and fit what was allocated for them: switching always returns and never
  panics. It returns the error of enabling the supply when switching on, of enabling the clocks, or of
  disabling the supply when switching off, the first of them that there is; otherwise 0.
\<close>

theorem rockchip_pd_power_succeeds:
  assumes "responds P (pmu_info w) (info pd)" "qos_law P" "qos_ok pd" "distinct (qos_regmap pd)"
  shows "\<exists>pd' w'. rockchip_pd_power P on pd w = Some (pd', w', power_error P on pd w)"
proof (cases "pm_domain_always_on w \<and> \<not> on \<or> rockchip_pmu_domain_is_on P (pmu_info w) (info pd) (pmu_hw w) = on")
  case True
  then show ?thesis using power_nothing [OF True] by (simp add: power_error_def)
next
  case False
  then have always: "\<not> (pm_domain_always_on w \<and> \<not> on)"
    and other: "\<not> rockchip_pmu_domain_is_on P (pmu_info w) (info pd) (pmu_hw w) = on" by auto
  obtain pd1 r1 where g: "get_supply P pd (supplies w) = (pd1, r1)" by force
  then obtain v where v: "pd1 = pd\<lparr>vdd := v\<rparr>" using get_supply_vdd [of P pd "supplies w"] by fast
  obtain r2 e2 where e: "enable_supply P on pd1 r1 = (r2, e2)" by force
  obtain pd2 e3 where c: "clk_bulk_enable_pd (w\<lparr>supplies := r2\<rparr>) pd1 = (pd2, e3)" by force
  have c3: "e3 = (if num_clks pd \<noteq> 0 \<and> clk_error w \<noteq> None then clk_error w else None)"
    "e3 = None \<Longrightarrow> pd2 = pd1\<lparr>clk_enabled := clk_enabled pd1 + 1\<rparr>"
    using c v by (auto simp: clk_bulk_enable_pd_def split: option.splits if_splits)
  show ?thesis
  proof (cases "e2 = None \<and> e3 = None")
    case failed: False
    then show ?thesis using False g e c c3(1) by (auto simp: rockchip_pd_power_def power_error_def split: if_splits)
  next
    case True
    let ?pd = "pd1\<lparr>clk_enabled := clk_enabled pd1 + 1\<rparr>"
    have pre: "responds P (pmu_info w) (info ?pd)" "qos_law P" "qos_ok ?pd" "distinct (qos_regmap ?pd)"
      using assms by (simp_all add: v qos_ok_def)
    obtain pd3 h3 where s: "switch_power P (pmu_info w) on ?pd (pmu_hw w) = Some (pd3, h3)"
      using switch_responds [OF pre] .
    have "vdd pd3 = vdd pd1" "genpd_name pd3 = genpd_name pd1"
      using arg_cong [OF switch_same [OF s], of vdd] arg_cong [OF switch_same [OF s], of genpd_name] by simp_all
    then have d: "disable_supply P on (clk_bulk_disable_pd pd3) r2 = disable_supply P on pd1 r2"
      by (intro disable_supply_same) (simp_all add: clk_bulk_disable_pd_def)
    obtain r3 e4 where d4: "disable_supply P on pd1 r2 = (r3, e4)" by force
    have "rockchip_pd_power P on pd w = Some (clk_bulk_disable_pd pd3, w\<lparr>pmu_hw := h3, supplies := r3\<rparr>, e4)"
      unfolding rockchip_pd_power_def if_not_P [OF always] if_not_P [OF other]
      using g e c c3(2) s d d4 True by (simp add: Let_def)
    moreover have "power_error P on pd w = e4" using False g e c3(1) True d4 by (auto simp: power_error_def split: if_splits)
    ultimately show ?thesis by simp
  qed
qed

text \<open>A unit whose supplies cannot be enabled.\<close>

definition dead_power :: "(sim_unit, int) power_port" where
  "dead_power = sim_power\<lparr>regulator_enable := \<lambda>n r. (r, Some EIO)\<rparr>"

lemma dead_power_fields:
  "regmap_read dead_power = regmap_read sim_power" "regmap_write dead_power = regmap_write sim_power"
  "qos_read dead_power = qos_read sim_power" "qos_write dead_power = qos_write sim_power"
  "pmu_elapse dead_power = pmu_elapse sim_power" "pmu_budget dead_power = pmu_budget sim_power"
  by (simp_all add: dead_power_def)

lemma dead_power_access:
  "request_power dead_power = request_power sim_power" "request_idle dead_power = request_idle sim_power"
  "acked dead_power = acked sim_power" "rockchip_pmu_domain_is_idle dead_power = rockchip_pmu_domain_is_idle sim_power"
  "elapsed dead_power = elapsed sim_power"
  by (simp_all add: fun_eq_iff Let_def request_power_def request_idle_def regmap_update_bits_def acked_def rockchip_pmu_read_ack_def
      rockchip_pmu_domain_is_idle_def elapsed_def dead_power_fields)

lemma dead_power_is_on: "rockchip_pmu_domain_is_on dead_power = rockchip_pmu_domain_is_on sim_power"
  by (simp add: fun_eq_iff rockchip_pmu_domain_is_on_def dead_power_fields dead_power_access)

lemma dead_power_same: "responds dead_power = responds sim_power" "qos_law dead_power = qos_law sim_power"
  by (simp_all add: fun_eq_iff responds_def qos_law_def dead_power_fields dead_power_access dead_power_is_on)

theorem rockchip_pd_power_succeeds_witness:
  "(\<exists>pd' w'. rockchip_pd_power sim_power False gpu_domain sim_pmu = Some (pd', w', None))
    \<and> (\<exists>pd' w'. rockchip_pd_power dead_power True sim_off sim_pmu_off = Some (pd', w', Some EIO))"
proof -
  have ok: "qos_ok sim_off" "distinct (qos_regmap sim_off)" using sim_qos_ok by (simp_all add: sim_off_def qos_ok_def gpu_domain_def)
  have "power_error sim_power False gpu_domain sim_pmu = None" "power_error dead_power True sim_off sim_pmu_off = Some EIO"
    by (simp_all add: power_error_def sim_fields get_supply_def enable_supply_def disable_supply_def dead_power_is_on IS_ERR_supply_def)
      (simp_all add: sim_off_def dead_power_def)
  then show ?thesis
    using rockchip_pd_power_succeeds [OF _ sim_qos_law sim_qos_ok, of sim_pmu False]
      rockchip_pd_power_succeeds [OF _ _ ok, of dead_power sim_pmu_off True] sim_responds sim_qos_law
    by (simp add: sim_fields dead_power_same)
qed

section \<open>The registers survive\<close>

text \<open>
  C13: switching a domain off and later, from any state of the unit in which it is off, on again brings
  back the registers of its bus masters.
\<close>

theorem rockchip_pd_power_cycle_qos:
  assumes "qos_law P" "qos_ok pd" "distinct (qos_regmap pd)"
    and off: "rockchip_pd_power P False pd w = Some (pd1, w1, None)" "\<not> pm_domain_always_on w"
      "rockchip_pmu_domain_is_on P (pmu_info w) (info pd) (pmu_hw w)"
    and on: "rockchip_pd_power P True pd1 w2 = Some (pd2, w3, None)"
      "\<not> rockchip_pmu_domain_is_on P (pmu_info w2) (info pd1) (pmu_hw w2)"
  shows "\<forall>q \<in> set (qos_regmap pd). \<forall>(k, r) \<in> set qos_regs. qos_read P q r (pmu_hw w3) = qos_read P q r (pmu_hw w)"
proof -
  let ?qs = "qos_regmap pd" and ?n = "num_qos pd" and ?st = "qos_stride pd"
  have saved: "holds_regs P ?qs ?st {..<?n} (pmu_hw w) (qos_save_regs pd1) \<and> is_qos_saved pd1
    \<and> length (qos_save_regs pd1) = length (qos_save_regs pd) \<and> qos_regmap pd1 = ?qs \<and> num_qos pd1 = ?n \<and> qos_stride pd1 = ?st"
    using off(1)
  proof (cases rule: rockchip_pd_power_cases)
    case (switched v r pd3 h3)
    let ?pd = "pd\<lparr>vdd := v, clk_enabled := clk_enabled pd + 1\<rparr>"
    have ok: "qos_ok ?pd" using assms(2) by (simp add: qos_ok_def)
    obtain s where s: "rockchip_pmu_save_qos P ?pd (pmu_hw w) = Some (?pd\<lparr>qos_save_regs := s\<rparr>)"
      "length s = length (qos_save_regs pd)" "holds_regs P ?qs ?st {..<?n} (pmu_hw w) s"
      using save_qos_result [OF ok, of P "pmu_hw w"] by auto
    have "pd3 = ?pd\<lparr>qos_save_regs := s, is_qos_saved := True\<rparr>"
      using switch_off [OF switched(2) [simplified]] s(1) by auto
    then show ?thesis using s switched(3) by simp
  qed (use off(2,3) in auto)
  have "holds_regs P ?qs ?st {..<?n} (pmu_hw w3) (qos_save_regs pd1)"
    using on(1)
  proof (cases rule: rockchip_pd_power_cases)
    case (switched v r pd3 h3)
    let ?pd = "pd1\<lparr>vdd := v, clk_enabled := clk_enabled pd1 + 1\<rparr>"
    obtain h2 where h2: "rockchip_pmu_restore_qos P ?pd h2 = Some h3"
      using switch_on [OF switched(2) [simplified]] saved by auto
    have "qos_ok ?pd" "distinct (qos_regmap ?pd)" using assms(2,3) saved by (simp_all add: qos_ok_def)
    from restore_qos_result [OF assms(1) this, of h2] h2 show ?thesis using switched(4) saved by simp
  qed (use on(2) in auto)
  then have "qos_read P (?qs ! j) r (pmu_hw w3) = qos_read P (?qs ! j) r (pmu_hw w)" if "j < ?n" "(k, r) \<in> set qos_regs" for j k r
    using holds_regsD [of P ?qs ?st "{..<?n}" _ "qos_save_regs pd1" j k r] saved that by (metis lessThan_iff)
  moreover have "\<exists>j < ?n. q = ?qs ! j" if "q \<in> set ?qs" for q
    using that assms(2) by (auto simp: qos_ok_def in_set_conv_nth)
  ultimately show ?thesis by blast
qed

theorem rockchip_pd_power_cycle_qos_witness:
  "\<exists>pd w. rockchip_pd_power sim_power True sim_off sim_pmu_off = Some (pd, w, None)
     \<and> (\<forall>q \<in> {3, 4}. \<forall>(k, r) \<in> set qos_regs. qos_read sim_power q r (pmu_hw w) = r + 7)"
proof -
  obtain pd w where on: "rockchip_pd_power sim_power True sim_off sim_pmu_off = Some (pd, w, None)" using sim_power_on by blast
  have "\<forall>q \<in> set (qos_regmap gpu_domain). \<forall>(k, r) \<in> set qos_regs. qos_read sim_power q r (pmu_hw w) = qos_read sim_power q r (pmu_hw sim_pmu)"
    using rockchip_pd_power_cycle_qos [OF sim_qos_law sim_qos_ok sim_power_off _ _ on] by (simp add: sim_fields)
  then show ?thesis using on by (auto simp: sim_fields)
qed

end
