(* ===== verification/Power_Registry.thy ===== *)
theory Power_Registry
  imports Power_Switch
begin

text \<open>
  The registered domains over all operations: their clocks are balanced, an error of adding a domain gives
  back what was taken, and what the errors leave behind.
\<close>

section \<open>Adding a domain\<close>

text \<open>Switching a domain changes of the unit only its registers and the supplies.\<close>

definition only_hw :: "('h, 'r) rockchip_pmu \<Rightarrow> ('h, 'r) rockchip_pmu \<Rightarrow> bool" where
  "only_hw w w' \<longleftrightarrow> w' = w\<lparr>pmu_hw := pmu_hw w', supplies := supplies w'\<rparr>"

text \<open>What switching keeps of a domain.\<close>

definition same_domain :: "rockchip_pm_domain \<Rightarrow> rockchip_pm_domain \<Rightarrow> bool" where
  "same_domain pd pd' \<longleftrightarrow> pd' = pd\<lparr>vdd := vdd pd', qos_save_regs := qos_save_regs pd', is_qos_saved := is_qos_saved pd'\<rparr>
     \<and> length (qos_save_regs pd') = length (qos_save_regs pd)"

lemma only_hw_refl [simp]: "only_hw w w"
  by (simp add: only_hw_def)

lemma only_hw_trans: "only_hw w w1 \<Longrightarrow> only_hw w1 w2 \<Longrightarrow> only_hw w w2"
  by (cases w; cases w1; cases w2) (simp add: only_hw_def)

lemma same_domain_refl [simp]: "same_domain pd pd"
  by (simp add: same_domain_def)

lemma same_domain_trans: "same_domain a b \<Longrightarrow> same_domain b c \<Longrightarrow> same_domain a c"
  by (cases a; cases b; cases c) (simp add: same_domain_def)

lemma save_regs_length: "save_regs P q stride i rs h s = Some s' \<Longrightarrow> length s' = length s"
  by (induction rs arbitrary: s) (force split: if_splits)+

lemma save_blocks_length: "save_blocks P qs stride is h s = Some s' \<Longrightarrow> length s' = length s"
proof (induction "is" arbitrary: s)
  case (Cons i "is")
  then show ?case using save_regs_length by (fastforce simp: bind_eq_Some_conv split: if_splits)
qed simp

lemma switch_length: "switch_power P i on pd h = Some (pd', h') \<Longrightarrow> length (qos_save_regs pd') = length (qos_save_regs pd)"
  by (cases on)
    (auto elim!: switch_on switch_off dest!: save_blocks_length simp: rockchip_pmu_save_qos_def)

lemma rockchip_pd_power_same:
  assumes "rockchip_pd_power P on pd w = Some (pd', w', e)"
  shows "same_domain pd pd' \<and> only_hw w w'"
  using assms
proof (cases rule: rockchip_pd_power_cases)
  case (switched v r pd3 h3)
  obtain s b where "pd3 = pd\<lparr>vdd := v, clk_enabled := clk_enabled pd + 1, qos_save_regs := s, is_qos_saved := b\<rparr>"
    using switch_same [OF switched(2)] by blast
  then show ?thesis
    using switched(3,4) switch_length [OF switched(2)] by (simp add: same_domain_def only_hw_def)
qed (simp_all add: same_domain_def only_hw_def)

lemma qos_init_same:
  assumes "rockchip_pd_qos_init P need pd w = Some (pd', w')"
  shows "same_domain pd pd' \<and> only_hw w w'"
proof -
  let ?on = "rockchip_pmu_domain_is_on P (pmu_info w) (info pd) (pmu_hw w)"
  obtain pd1 w1 e h where p: "(if ?on then Some (pd, w, None) else rockchip_pd_power P True pd w) = Some (pd1, w1, e)"
    "(if ?on then Some (pd1, w1\<lparr>pmu_hw := h\<rparr>)
      else map_option (\<lambda>(pd3, w3, _). (pd3, w3)) (rockchip_pd_power P False pd1 (w1\<lparr>pmu_hw := h\<rparr>))) = Some (pd', w')"
    using assms by (auto simp: rockchip_pd_qos_init_def Let_def bind_eq_Some_conv)
  have s1: "same_domain pd pd1" "only_hw w w1"
    using p(1) rockchip_pd_power_same [of P True pd w pd1 w1 e] by (simp_all split: if_splits)
  have o: "only_hw w (w1\<lparr>pmu_hw := h\<rparr>)" by (rule only_hw_trans [OF s1(2)]) (simp add: only_hw_def)
  show ?thesis
  proof (cases ?on)
    case True
    then show ?thesis using p(2) s1(1) o by simp
  next
    case False
    then obtain e' where "rockchip_pd_power P False pd1 (w1\<lparr>pmu_hw := h\<rparr>) = Some (pd', w', e')" using p(2) by auto
    then show ?thesis using rockchip_pd_power_same same_domain_trans [OF s1(1)] only_hw_trans [OF o] by blast
  qed
qed

text \<open>What holds of a registered domain.\<close>

definition domain_good :: "rockchip_domain_info \<Rightarrow> rockchip_pm_domain \<Rightarrow> bool" where
  "domain_good d pd \<longleftrightarrow> info pd = d \<and> clk_enabled pd = 0 \<and> length (qos_regmap pd) = num_qos pd
     \<and> (0 < num_qos pd \<longrightarrow> length (qos_save_regs pd) = MAX_QOS_REGS_NUM * num_qos pd)
     \<and> (is_ignore_pwr pd \<longrightarrow> pwr_mask d = 0)"

lemma same_domain_good: "same_domain pd pd' \<Longrightarrow> domain_good d pd \<Longrightarrow> domain_good d pd'"
  by (cases pd; cases pd') (simp add: same_domain_def domain_good_def)

lemma same_domain_clks: "same_domain pd pd' \<Longrightarrow> num_clks pd' = num_clks pd"
  by (cases pd; cases pd') (simp add: same_domain_def)

lemma put_init_lengths:
  "put_init stride j k vs s need = Some (s', need') \<Longrightarrow> length s' = length s \<and> length need' = length need"
  by (induction stride j k vs s need rule: put_init.induct) (auto split: if_splits)

lemma read_qos_lengths:
  "read_qos stride j qs maps s need = Some (Inr (maps', s', need'))
   \<Longrightarrow> length maps' = length maps + count_qos qs \<and> length s' = length s"
proof (induction stride j qs maps s need rule: read_qos.induct)
  case (3 stride j q qs maps s need)
  show ?case
  proof (cases "qos_available q")
    case True
    then obtain m s1 need1 where "qos_map q = Some m" "put_init stride j 0 (qos_init q) s need = Some (s1, need1)"
      "read_qos stride (j + 1) qs (maps @ [m]) s1 need1 = Some (Inr (maps', s', need'))"
      using 3(3) by (auto simp: bind_eq_Some_conv split: option.splits)
    then show ?thesis using 3(2) [OF _ \<open>qos_map q = Some m\<close>, of "(s1, need1)"] True put_init_lengths by (auto simp: count_qos_def)
  next
    case False
    then show ?thesis using 3(1,3) by (simp add: count_qos_def)
  qed
qed (simp_all add: count_qos_def)

lemma setup_qos_cases:
  assumes "setup_qos nd pd0 = Some (Inr (pd, need))"
  obtains (none) "count_qos (dt_qos nd) = 0" "pd = pd0\<lparr>num_qos := 0\<rparr>"
  | (some) maps s s0 need0 where "0 < count_qos (dt_qos nd)" "length s0 = MAX_QOS_REGS_NUM * count_qos (dt_qos nd)"
      "read_qos (length (dt_qos nd)) 0 (dt_qos nd) [] s0 need0 = Some (Inr (maps, s, need))"
      "pd = pd0\<lparr>num_qos := count_qos (dt_qos nd), qos_regmap := maps, qos_stride := length (dt_qos nd), qos_save_regs := s\<rparr>"
proof -
  let ?n = "count_qos (dt_qos nd)"
  show thesis
  proof (cases "?n = 0")
    case True
    then show thesis using assms none by (auto simp: setup_qos_def Let_def)
  next
    case False
    let ?s = "\<lambda>junk. take (MAX_QOS_REGS_NUM * ?n) (junk @ replicate (MAX_QOS_REGS_NUM * ?n) 0)"
    let ?read = "\<lambda>junk. read_qos (length (dt_qos nd)) 0 (dt_qos nd) [] (?s junk) (replicate (MAX_QOS_REGS_NUM * ?n) False)"
    let ?pd = "\<lambda>maps s. pd0\<lparr>num_qos := ?n, qos_regmap := maps, qos_stride := length (dt_qos nd), qos_save_regs := s\<rparr>"
    obtain junk where "alloc_qos_save (dt_alloc nd) = Some junk"
      and m: "map_option (map_sum (\<lambda>e. e) (\<lambda>(maps, s, need). (?pd maps s, need))) (?read junk) = Some (Inr (pd, need))"
      using assms False by (auto simp: setup_qos_def Let_def simp del: take_append split: if_splits option.splits)
    then obtain z where z: "?read junk = Some z" "map_sum (\<lambda>e. e) (\<lambda>(maps, s, need). (?pd maps s, need)) z = Inr (pd, need)"
      by (auto simp del: take_append)
    then obtain maps s1 where r: "?read junk = Some (Inr (maps, s1, need))" and pd: "pd = ?pd maps s1"
      by (cases z) (auto simp del: take_append)
    show thesis by (rule some [OF _ _ r pd]) (use False in simp_all)
  qed
qed

lemma setup_qos_good:
  assumes "setup_qos nd (new_domain d nd) = Some (Inr (pd, need))"
  shows "domain_good d pd" "num_clks pd = length (dt_clks nd)"
proof -
  have "domain_good d pd \<and> num_clks pd = length (dt_clks nd)"
    using assms
  proof (cases rule: setup_qos_cases)
    case (some maps s s0 need0)
    then show ?thesis using read_qos_lengths [OF some(3)] by (simp add: domain_good_def new_domain_def)
  qed (simp add: domain_good_def new_domain_def)
  then show "domain_good d pd" "num_clks pd = length (dt_clks nd)" by simp_all
qed

text \<open>Switching it on for the start and initialising its bus masters.\<close>

lemma keep_on_same:
  assumes "keep_on P pd w = Some (pd', w', e)"
  shows "same_domain (pd\<lparr>genpd_always_on := genpd_always_on pd'\<rparr>) pd' \<and> only_hw w w'"
proof (cases "keepon_startup (info pd) \<and> \<not> rockchip_pmu_domain_is_on P (pmu_info w) (info pd) (pmu_hw w)")
  case True
  then have "rockchip_pd_power P True (pd\<lparr>genpd_always_on := True\<rparr>) w = Some (pd', w', e)"
    using assms by (simp add: keep_on_def)
  from rockchip_pd_power_same [OF this] show ?thesis by (cases pd; cases pd') (simp add: same_domain_def)
next
  case False
  then show ?thesis using assms by (auto simp: keep_on_def Let_def split: if_splits)
qed

text \<open>What adding a domain gives: an error and what was there before, but for its registers; or the new domain.\<close>

lemma finish_domain_result:
  assumes "finish_domain P k nd (new_domain d nd) w = Some (w', e)"
  shows "(e \<noteq> None \<longrightarrow> only_hw (put_clks (length (dt_clks nd)) (unprepare_clks w)) w')
    \<and> (e = None \<longrightarrow> (\<exists>pd. only_hw (w\<lparr>genpd_domains := (genpd_domains w)(k \<mapsto> pd), genpd_list := insert k (genpd_list w)\<rparr>) w' \<and> domain_good d pd
         \<and> num_clks pd = length (dt_clks nd)))"
proof -
  let ?pd = "new_domain d nd"
  have n: "num_clks ?pd = length (dt_clks nd)" by (simp add: new_domain_def)
  obtain q where q: "setup_qos nd ?pd = Some q" using assms by (auto simp: finish_domain_def bind_eq_Some_conv)
  show ?thesis
  proof (cases q)
    case (Inl x)
    then show ?thesis using assms q n by (auto simp: finish_domain_def)
  next
    case (Inr y)
    obtain pd1 need where y: "y = (pd1, need)" by force
    have g1: "domain_good d pd1" "num_clks pd1 = length (dt_clks nd)"
      using setup_qos_good q Inr y by blast+
    obtain pd2 w2 e2 where k: "keep_on P pd1 w = Some (pd2, w2, e2)"
      using assms q Inr y by (auto simp: finish_domain_def bind_eq_Some_conv)
    have s2: "same_domain (pd1\<lparr>genpd_always_on := genpd_always_on pd2\<rparr>) pd2" "only_hw w w2" using keep_on_same [OF k] by simp_all
    have g2: "domain_good d pd2" "num_clks pd2 = length (dt_clks nd)"
      using same_domain_good [OF s2(1)] g1 same_domain_clks [OF s2(1)] by (simp_all add: domain_good_def)
    show ?thesis
    proof (cases "e2 = None")
      case False
      then have "w' = put_clks (length (dt_clks nd)) (unprepare_clks w2)" "e = e2"
        using assms q Inr y k n by (simp_all add: finish_domain_def)
      then show ?thesis using False s2(2) by (cases w; cases w2) (simp add: only_hw_def put_clks_def unprepare_clks_def)
    next
      case True
      obtain pd3 w3 where i: "(if True \<in> set need then rockchip_pd_qos_init P need pd2 w2 else Some (pd2, w2)) = Some (pd3, w3)"
        using assms q Inr y k True by (auto simp: finish_domain_def bind_eq_Some_conv)
      have s3: "same_domain pd2 pd3" "only_hw w2 w3"
        using i qos_init_same [of P need pd2 w2 pd3 w3] by (simp_all split: if_splits)
      define pd4 where "pd4 = pd3\<lparr>genpd_off := \<not> rockchip_pmu_domain_is_on P (pmu_info w3) (info pd3) (pmu_hw w3)\<rparr>"
      have w': "w' = w3\<lparr>genpd_domains := (genpd_domains w3)(k \<mapsto> pd4), genpd_list := insert k (genpd_list w3)\<rparr>" "e = None"
        using assms q Inr y k True i by (simp_all add: finish_domain_def pd4_def Let_def)
      have "domain_good d pd4" "num_clks pd4 = length (dt_clks nd)"
        using same_domain_good [OF s3(1) g2(1)] same_domain_clks [OF s3(1)] g2(2) by (simp_all add: pd4_def domain_good_def)
      moreover have "only_hw (w\<lparr>genpd_domains := (genpd_domains w)(k \<mapsto> pd4), genpd_list := insert k (genpd_list w)\<rparr>) w'"
        using only_hw_trans [OF s2(2) s3(2)] w'(1) by (cases w; cases w3) (simp add: only_hw_def)
      ultimately show ?thesis using w'(2) by blast
    qed
  qed
qed

lemma new_domain_clks [simp]: "num_clks (new_domain d nd) = length (dt_clks nd)"
  by (simp add: new_domain_def)

lemma get_clks_all: "get_clks cs n = (m, None) \<Longrightarrow> m = n + length cs"
  by (induction cs n rule: get_clks.induct) auto

text \<open>Once all clocks have been found.\<close>

lemma prepare_domain_cases:
  fixes w :: "('h, 'r) rockchip_pmu" and nd d
  defines "w1 \<equiv> w\<lparr>clk_refs := clk_refs w + int (length (dt_clks nd))\<rparr>"
  assumes "(if dt_prepare nd \<noteq> None then Some (put_clks (length (dt_clks nd)) w1, dt_prepare nd)
      else finish_domain P k nd (new_domain d nd) (w1\<lparr>clk_prepares := clk_prepares w1 + 1\<rparr>)) = Some (w', e)"
  obtains (undone) "only_hw w w'" "e \<noteq> None"
  | (added) pd where "e = None" "domain_good d pd" "num_clks pd = length (dt_clks nd)"
      "only_hw (w\<lparr>genpd_domains := (genpd_domains w)(k \<mapsto> pd), genpd_list := insert k (genpd_list w),
         clk_prepares := clk_prepares w + 1, clk_refs := clk_refs w + int (length (dt_clks nd))\<rparr>) w'"
proof (cases "dt_prepare nd = None")
  case False
  then have "w' = w" "e \<noteq> None" using assms(2) by (auto simp: w1_def put_clks_def)
  then show thesis using undone by simp
next
  case True
  then have f: "finish_domain P k nd (new_domain d nd) (w1\<lparr>clk_prepares := clk_prepares w1 + 1\<rparr>) = Some (w', e)"
    using assms(2) by simp
  show thesis
  proof (cases "e = None")
    case False
    then have "only_hw w w'" using finish_domain_result [OF f] by (simp add: w1_def put_clks_def unprepare_clks_def)
    then show thesis using False by (rule undone)
  next
    case True
    then obtain pd where "only_hw (w1\<lparr>clk_prepares := clk_prepares w1 + 1, genpd_domains := (genpd_domains w1)(k \<mapsto> pd),
        genpd_list := insert k (genpd_list w1)\<rparr>) w'"
      "domain_good d pd" "num_clks pd = length (dt_clks nd)"
      using finish_domain_result [OF f] by auto
    moreover have "w1\<lparr>clk_prepares := clk_prepares w1 + 1, genpd_domains := (genpd_domains w1)(k \<mapsto> pd),
        genpd_list := insert k (genpd_list w1)\<rparr>
      = w\<lparr>genpd_domains := (genpd_domains w)(k \<mapsto> pd), genpd_list := insert k (genpd_list w),
           clk_prepares := clk_prepares w + 1, clk_refs := clk_refs w + int (length (dt_clks nd))\<rparr>"
      by (simp add: w1_def)
    ultimately show thesis using True by (metis added)
  qed
qed

text \<open>How adding a domain ends.\<close>

lemma add_one_domain_cases:
  assumes "rockchip_pm_add_one_domain P nd w = Some (w', e)"
  obtains (refused) "w' = w" "e \<noteq> None \<or> (\<exists>k. dt_reg nd = Some k \<and> k < num_domains (pmu_info w) \<and> genpd_domains w k \<noteq> None)"
  | (no_clock) n x where "get_clks (dt_clks nd) 0 = (n, Some x)" "e = Some x" "w' = w\<lparr>clk_refs := clk_refs w + int n\<rparr>"
  | (undone) "only_hw w w'" "e \<noteq> None"
  | (added) k pd where "dt_reg nd = Some k" "k < num_domains (pmu_info w)" "genpd_domains w k = None" "e = None"
      "domain_good (domain_info (pmu_info w) k) pd" "num_clks pd = length (dt_clks nd)"
      "only_hw (w\<lparr>genpd_domains := (genpd_domains w)(k \<mapsto> pd), genpd_list := insert k (genpd_list w),
         clk_prepares := clk_prepares w + 1, clk_refs := clk_refs w + int (length (dt_clks nd))\<rparr>) w'"
proof (cases "dt_reg nd")
  case None
  then have "w' = w" "e \<noteq> None" using assms by (auto simp: rockchip_pm_add_one_domain_def)
  then show thesis by (intro refused) simp_all
next
  case (Some k)
  note reg = Some
  note run = assms [unfolded rockchip_pm_add_one_domain_def reg option.case Let_def]
  show thesis
  proof (cases "num_domains (pmu_info w) \<le> k \<or> genpd_domains w k \<noteq> None \<or> \<not> alloc_pd (dt_alloc nd)
      \<or> 0 < length (dt_clks nd) \<and> \<not> alloc_clks (dt_alloc nd)")
    case True
    then have "w' = w" "e \<noteq> None \<or> k < num_domains (pmu_info w) \<and> genpd_domains w k \<noteq> None"
      using run by (auto split: if_splits)
    then show thesis using reg by (intro refused) simp_all
  next
    case False
    then have k: "k < num_domains (pmu_info w)" "genpd_domains w k = None" by simp_all
    obtain n x where g: "get_clks (dt_clks nd) 0 = (n, x)" by force
    show thesis
    proof (cases x)
      case (Some y)
      then have "e = Some y" "w' = w\<lparr>clk_refs := clk_refs w + int n\<rparr>"
        using run False g by (auto split: if_splits)
      then show thesis using no_clock g Some by blast
    next
      case None
      have n: "n = length (dt_clks nd)" using get_clks_all [of "dt_clks nd" 0 n] g None by simp
      let ?w = "w\<lparr>clk_refs := clk_refs w + int (length (dt_clks nd))\<rparr>"
      have "(if dt_prepare nd \<noteq> None then Some (put_clks (length (dt_clks nd)) ?w, dt_prepare nd)
          else finish_domain P k nd (new_domain (domain_info (pmu_info w) k) nd) (?w\<lparr>clk_prepares := clk_prepares ?w + 1\<rparr>))
          = Some (w', e)"
        using run False g None n by (auto split: if_splits)
      then show thesis
        by (cases rule: prepare_domain_cases) (use undone added reg k in blast)+
    qed
  qed
qed

text \<open>
  when a domain cannot be added, none is registered and no clocks stay prepared; no clock stays
  looked up either, unless one of the clocks itself was missing, when those before it are not given back.
\<close>

theorem rockchip_pm_add_one_domain_error:
  assumes "rockchip_pm_add_one_domain P nd w = Some (w', Some x)"
  shows "genpd_domains w' = genpd_domains w \<and> clk_prepares w' = clk_prepares w
    \<and> (clk_refs w' = clk_refs w
      \<or> (\<exists>n y. get_clks (dt_clks nd) 0 = (n, Some y) \<and> clk_refs w' = clk_refs w + int n))"
  using assms
proof (cases rule: add_one_domain_cases)
  case undone
  then have "genpd_domains w' = genpd_domains w \<and> clk_prepares w' = clk_prepares w \<and> clk_refs w' = clk_refs w"
    by (cases w; cases w') (simp add: only_hw_def)
  then show ?thesis by simp
qed auto

section \<open>All operations\<close>

text \<open>
  A domain is registered at most once, under a number of the table, with the data the table has for it, its
  clocks enabled by nobody and prepared once; the core knows just these, and links lead from one of them to
  another; the clocks of the registered domains are still held.
\<close>

definition clocks_held :: "(nat \<Rightarrow> rockchip_pm_domain option) \<Rightarrow> int" where
  "clocks_held m = (\<Sum>k \<in> dom m. int (num_clks (the (m k))))"

definition pmu_ok :: "int \<Rightarrow> int \<Rightarrow> ('h, 'r) rockchip_pmu \<Rightarrow> bool" where
  "pmu_ok prepares refs w \<longleftrightarrow>
     (\<forall>k pd. genpd_domains w k = Some pd \<longrightarrow> k < num_domains (pmu_info w) \<and> domain_good (domain_info (pmu_info w) k) pd)
     \<and> genpd_list w = dom (genpd_domains w) \<and> set (subdomains w) \<subseteq> dom (genpd_domains w) \<times> dom (genpd_domains w)
     \<and> clk_prepares w = prepares + int (card (dom (genpd_domains w)))
     \<and> refs + clocks_held (genpd_domains w) \<le> clk_refs w"

text \<open>An operation of another driver, of the power management core, or of setting up.\<close>

inductive power_step :: "('h, 'r) power_port \<Rightarrow> ('h, 'r) rockchip_pmu \<Rightarrow> ('h, 'r) rockchip_pmu \<Rightarrow> bool" for P where
  core_on: "on_domain (rockchip_pd_power_on P) k w = Some (w', e) \<Longrightarrow> power_step P w w'"
| core_off: "on_domain (rockchip_pd_power_off P) k w = Some (w', e) \<Longrightarrow> power_step P w w'"
| pd_on: "rockchip_pmu_pd_on P dev w = Some (w', e) \<Longrightarrow> power_step P w w'"
| pd_off: "rockchip_pmu_pd_off P dev w = Some (w', e) \<Longrightarrow> power_step P w w'"
| idle: "rockchip_pmu_idle_request P dev b w = Some (w', e) \<Longrightarrow> power_step P w w'"
| save_qos: "rockchip_save_qos P dev w = Some (w', e) \<Longrightarrow> power_step P w w'"
| restore_qos: "rockchip_restore_qos P dev w = Some (w', e) \<Longrightarrow> power_step P w w'"
| add_domain: "rockchip_pm_add_one_domain P nd w = Some (w', e) \<Longrightarrow> power_step P w w'"
| link: "link_subdomain k j w = Some w' \<Longrightarrow> power_step P w w'"
| release: "rockchip_pd_keepon_do_release (\<lambda>k. Some) k pd w = Some w' \<Longrightarrow> genpd_domains w k = Some pd \<Longrightarrow> power_step P w w'"

lemma clocks_held_same:
  assumes "m k = Some pd" "num_clks pd' = num_clks pd"
  shows "clocks_held (m(k \<mapsto> pd')) = clocks_held m"
proof -
  have "dom (m(k \<mapsto> pd')) = dom m" using assms(1) by auto
  then show ?thesis unfolding clocks_held_def using assms by (intro sum.cong) auto
qed

lemma clocks_held_new: "finite (dom m) \<Longrightarrow> m k = None \<Longrightarrow> clocks_held (m(k \<mapsto> pd)) = clocks_held m + int (num_clks pd)"
proof -
  assume *: "finite (dom m)" "m k = None"
  have "(\<Sum>j \<in> dom m. int (num_clks (the ((m(k \<mapsto> pd)) j)))) = (\<Sum>j \<in> dom m. int (num_clks (the (m j))))"
    using *(2) by (intro sum.cong) auto
  moreover have "k \<notin> dom m" using *(2) by auto
  ultimately show ?thesis using *(1) by (simp add: clocks_held_def)
qed

lemma pmu_ok_finite: "pmu_ok p r w \<Longrightarrow> finite (dom (genpd_domains w))"
  by (rule finite_subset [of _ "{..<num_domains (pmu_info w)}"]) (auto simp: pmu_ok_def)

text \<open>What a step does to the unit: one domain at most changes, or one comes.\<close>

lemma pmu_ok_hw:
  "pmu_ok p r w \<Longrightarrow> only_hw w w' \<Longrightarrow> pmu_ok p r w'"
  by (cases w; cases w') (simp add: pmu_ok_def only_hw_def)

lemma pmu_ok_update:
  assumes "pmu_ok p r w" "genpd_domains w k = Some pd" "domain_good (domain_info (pmu_info w) k) pd'" "num_clks pd' = num_clks pd"
  shows "pmu_ok p r (w\<lparr>genpd_domains := (genpd_domains w)(k \<mapsto> pd')\<rparr>)"
proof -
  have "insert k (dom (genpd_domains w)) = dom (genpd_domains w)" using assms(2) by auto
  moreover have "k < num_domains (pmu_info w)" using assms(1,2) by (simp add: pmu_ok_def)
  ultimately show ?thesis using assms(1,3) clocks_held_same [of "genpd_domains w", OF assms(2,4)] by (simp add: pmu_ok_def)
qed

lemma pmu_ok_good: "pmu_ok p r w \<Longrightarrow> genpd_domains w k = Some pd \<Longrightarrow> domain_good (domain_info (pmu_info w) k) pd"
  by (simp add: pmu_ok_def)

lemma pmu_ok_on_domain:
  assumes "pmu_ok p r w" "on_domain f k w = Some (w', e)"
    and "\<And>pd pd1 w1 e. f pd w = Some (pd1, w1, e) \<Longrightarrow> same_domain pd pd1 \<and> only_hw w w1"
  shows "pmu_ok p r w'"
proof -
  obtain pd pd1 w1 where f: "genpd_domains w k = Some pd" "f pd w = Some (pd1, w1, e)"
    and w': "w' = w1\<lparr>genpd_domains := (genpd_domains w1)(k \<mapsto> pd1)\<rparr>"
    using assms(2) by (auto simp: on_domain_def bind_eq_Some_conv)
  have s: "same_domain pd pd1" "only_hw w w1" using assms(3) [OF f(2)] by simp_all
  have i: "genpd_domains w1 = genpd_domains w" "pmu_info w1 = pmu_info w" using s(2) by (cases w; cases w1; simp add: only_hw_def)+
  have "pmu_ok p r w1" using pmu_ok_hw [OF assms(1) s(2)] .
  then show ?thesis
    unfolding w' using same_domain_good [OF s(1) pmu_ok_good [OF assms(1) f(1)]] same_domain_clks [OF s(1)] f(1) i
    by (intro pmu_ok_update [of _ _ _ _ pd]) simp_all
qed

lemma pmu_ok_add:
  assumes "pmu_ok p r w" "rockchip_pm_add_one_domain P nd w = Some (w', e)"
  shows "pmu_ok p r w'"
  using assms(2)
proof (cases rule: add_one_domain_cases)
  case refused
  then show ?thesis using assms(1) by simp
next
  case (no_clock n x)
  then show ?thesis using assms(1) by (simp add: pmu_ok_def)
next
  case undone
  then show ?thesis using assms(1) pmu_ok_hw by blast
next
  case (added k pd)
  have "k \<notin> dom (genpd_domains w)" using added(3) by auto
  moreover have "set (subdomains w) \<subseteq> insert k (dom (genpd_domains w)) \<times> insert k (dom (genpd_domains w))"
    using assms(1) by (auto simp: pmu_ok_def)
  ultimately have "pmu_ok p r (w\<lparr>genpd_domains := (genpd_domains w)(k \<mapsto> pd), genpd_list := insert k (genpd_list w),
      clk_prepares := clk_prepares w + 1, clk_refs := clk_refs w + int (length (dt_clks nd))\<rparr>)"
    using assms(1) added clocks_held_new [OF pmu_ok_finite [OF assms(1)] added(3), of pd] pmu_ok_finite [OF assms(1)]
    by (simp add: pmu_ok_def)
  then show ?thesis using pmu_ok_hw added(7) by blast
qed

lemma pmu_ok_link: "pmu_ok p r w \<Longrightarrow> link_subdomain k j w = Some w' \<Longrightarrow> pmu_ok p r w'"
proof -
  assume ok: "pmu_ok p r w" and link: "link_subdomain k j w = Some w'"
  then obtain a c where g: "genpd_domains w k = Some a" "genpd_domains w j = Some c"
    and w': "w' = w\<lparr>subdomains := (k, j) # subdomains w, genpd_domains := (if is_ignore_pwr a then genpd_domains w
      else (genpd_domains w)(j \<mapsto> c\<lparr>is_ignore_pwr := False\<rparr>))\<rparr>"
    by (auto simp: link_subdomain_def split: option.splits)
  have "domain_good (domain_info (pmu_info w) j) (c\<lparr>is_ignore_pwr := False\<rparr>)"
    using pmu_ok_good [OF ok g(2)] by (simp add: domain_good_def)
  then have "pmu_ok p r (w\<lparr>genpd_domains := (genpd_domains w)(j \<mapsto> c\<lparr>is_ignore_pwr := False\<rparr>)\<rparr>)"
    by (intro pmu_ok_update [OF ok g(2)]) simp_all
  moreover have "k \<in> dom (genpd_domains w)" "j \<in> dom (genpd_domains w)" using g by auto
  ultimately show ?thesis using ok by (auto simp: w' pmu_ok_def)
qed

lemma power_on_off_same:
  "rockchip_pd_power_on P pd w = Some (pd1, w1, e) \<Longrightarrow> same_domain pd pd1 \<and> only_hw w w1"
  "rockchip_pd_power_off P pd w = Some (pd1, w1, e) \<Longrightarrow> same_domain pd pd1 \<and> only_hw w w1"
  using rockchip_pd_power_same [of P _ pd w pd1 w1 e]
  by (auto simp: rockchip_pd_power_on_def rockchip_pd_power_off_def split: if_splits)

lemma pmu_ok_power:
  "on_domain (rockchip_pd_power_on P) k w = Some (w', e) \<Longrightarrow> pmu_ok p r w \<Longrightarrow> pmu_ok p r w'"
  "on_domain (rockchip_pd_power_off P) k w = Some (w', e) \<Longrightarrow> pmu_ok p r w \<Longrightarrow> pmu_ok p r w'"
  "on_domain (rockchip_pd_power P on) k w = Some (w', e) \<Longrightarrow> pmu_ok p r w \<Longrightarrow> pmu_ok p r w'"
  by (rule pmu_ok_on_domain, assumption, assumption, simp add: power_on_off_same rockchip_pd_power_same)+

lemma pmu_ok_registers [simp]: "pmu_ok p r (w\<lparr>pmu_hw := h\<rparr>) = pmu_ok p r w"
  by (simp add: pmu_ok_def)

lemma save_qos_same_domain: "rockchip_pmu_save_qos P pd h = Some pd1 \<Longrightarrow> same_domain pd pd1"
  by (auto simp: rockchip_pmu_save_qos_def same_domain_def dest: save_blocks_length)

lemma power_step_ok:
  assumes "power_step P w w'" "pmu_ok p r w"
  shows "pmu_ok p r w'"
  using assms
proof (induction rule: power_step.induct)
  case (save_qos dev w w' e)
  show ?case
  proof (cases dev)
    case None
    then show ?thesis using save_qos by (simp add: rockchip_save_qos_def)
  next
    case (Some k)
    then obtain pd pd1 where pd: "genpd_domains w k = Some pd" "rockchip_pmu_save_qos P pd (pmu_hw w) = Some pd1"
      "w' = w\<lparr>genpd_domains := (genpd_domains w)(k \<mapsto> pd1)\<rparr>"
      using save_qos(1) by (auto simp: rockchip_save_qos_def bind_eq_Some_conv)
    have s: "same_domain pd pd1" using save_qos_same_domain [OF pd(2)] .
    show ?thesis
      unfolding pd(3)
      by (rule pmu_ok_update [OF save_qos(2) pd(1) same_domain_good [OF s pmu_ok_good [OF save_qos(2) pd(1)]] same_domain_clks [OF s]])
  qed
next
  case (release k pd w w')
  then have "domain_good (domain_info (pmu_info w) k) (pd\<lparr>genpd_always_on := False\<rparr>)"
    using pmu_ok_good [of p r w k pd] by (simp add: domain_good_def)
  then have "pmu_ok p r (w\<lparr>genpd_domains := (genpd_domains w)(k \<mapsto> pd\<lparr>genpd_always_on := False\<rparr>)\<rparr>)"
    using release by (intro pmu_ok_update [of _ _ _ _ pd]) simp_all
  then show ?case using release(1) by (simp add: rockchip_pd_keepon_do_release_def)
qed (auto simp: rockchip_pmu_pd_on_def rockchip_pmu_pd_off_def rockchip_pmu_idle_request_def rockchip_restore_qos_def bind_eq_Some_conv
    dest: pmu_ok_power pmu_ok_add pmu_ok_link split: option.splits)

text \<open>No step takes a domain away or gives it other data.\<close>

definition keeps_domains :: "('h, 'r) rockchip_pmu \<Rightarrow> ('h, 'r) rockchip_pmu \<Rightarrow> bool" where
  "keeps_domains w w' \<longleftrightarrow> pmu_info w' = pmu_info w
     \<and> (\<forall>k pd. genpd_domains w k = Some pd \<longrightarrow> (\<exists>pd'. genpd_domains w' k = Some pd' \<and> info pd' = info pd \<and> num_clks pd' = num_clks pd))"

lemma keeps_refl [simp]: "keeps_domains w w"
  by (simp add: keeps_domains_def)

lemma keeps_trans: "keeps_domains w w1 \<Longrightarrow> keeps_domains w1 w2 \<Longrightarrow> keeps_domains w w2"
  unfolding keeps_domains_def by metis

lemma keeps_hw: "only_hw w w' \<Longrightarrow> keeps_domains w w'"
  by (cases w; cases w') (simp add: keeps_domains_def only_hw_def)

lemma keeps_update:
  "genpd_domains w k = Some pd \<Longrightarrow> info pd' = info pd \<Longrightarrow> num_clks pd' = num_clks pd
   \<Longrightarrow> keeps_domains w (w\<lparr>genpd_domains := (genpd_domains w)(k \<mapsto> pd')\<rparr>)"
  by (simp add: keeps_domains_def)

lemma same_domain_info: "same_domain pd pd' \<Longrightarrow> info pd' = info pd"
  by (cases pd; cases pd') (simp add: same_domain_def)

lemma keeps_on_domain:
  assumes "on_domain f k w = Some (w', e)"
    and "\<And>pd pd1 w1 e. f pd w = Some (pd1, w1, e) \<Longrightarrow> same_domain pd pd1 \<and> only_hw w w1"
  shows "keeps_domains w w'"
proof -
  obtain pd pd1 w1 where f: "genpd_domains w k = Some pd" "f pd w = Some (pd1, w1, e)"
    and w': "w' = w1\<lparr>genpd_domains := (genpd_domains w1)(k \<mapsto> pd1)\<rparr>"
    using assms(1) by (auto simp: on_domain_def bind_eq_Some_conv)
  have s: "same_domain pd pd1" "only_hw w w1" using assms(2) [OF f(2)] by simp_all
  then have "genpd_domains w1 k = Some pd" using f(1) by (cases w; cases w1) (simp add: only_hw_def)
  then have "keeps_domains w1 w'"
    unfolding w' by (rule keeps_update) (simp_all add: same_domain_info [OF s(1)] same_domain_clks [OF s(1)])
  then show ?thesis by (rule keeps_trans [OF keeps_hw [OF s(2)]])
qed

lemma keeps_power:
  "on_domain (rockchip_pd_power_on P) k w = Some (w', e) \<Longrightarrow> keeps_domains w w'"
  "on_domain (rockchip_pd_power_off P) k w = Some (w', e) \<Longrightarrow> keeps_domains w w'"
  "on_domain (rockchip_pd_power P on) k w = Some (w', e) \<Longrightarrow> keeps_domains w w'"
  by (rule keeps_on_domain, assumption, simp add: power_on_off_same rockchip_pd_power_same)+

lemma keeps_add:
  assumes "rockchip_pm_add_one_domain P nd w = Some (w', e)"
  shows "keeps_domains w w'"
  using assms
proof (cases rule: add_one_domain_cases)
  case (added k pd)
  let ?w = "w\<lparr>genpd_domains := (genpd_domains w)(k \<mapsto> pd), genpd_list := insert k (genpd_list w),
      clk_prepares := clk_prepares w + 1, clk_refs := clk_refs w + int (length (dt_clks nd))\<rparr>"
  have "keeps_domains w ?w" using added(3) by (auto simp: keeps_domains_def)
  then show ?thesis using keeps_hw [OF added(7)] by (rule keeps_trans)
next
  case (no_clock n x)
  then show ?thesis by (simp add: keeps_domains_def)
qed (simp_all add: keeps_hw)

lemma keeps_link: "link_subdomain k j w = Some w' \<Longrightarrow> keeps_domains w w'"
  by (auto simp: link_subdomain_def keeps_domains_def split: option.splits)

lemma keeps_registers [simp]: "keeps_domains w (w\<lparr>pmu_hw := h\<rparr>)"
  by (simp add: keeps_domains_def)

lemma power_step_keeps: "power_step P w w' \<Longrightarrow> keeps_domains w w'"
proof (induction rule: power_step.induct)
  case (save_qos dev w w' e)
  then show ?case
    using save_qos_same_domain same_domain_info same_domain_clks
    by (fastforce simp: rockchip_save_qos_def bind_eq_Some_conv split: option.splits intro: keeps_update)
next
  case (release k pd w w')
  then show ?case by (auto simp: rockchip_pd_keepon_do_release_def intro: keeps_update)
qed (auto simp: rockchip_pmu_pd_on_def rockchip_pmu_pd_off_def rockchip_pmu_idle_request_def rockchip_restore_qos_def bind_eq_Some_conv
    dest: keeps_power keeps_add keeps_link split: option.splits)

lemma power_steps_keep: "(power_step P)\<^sup>*\<^sup>* w w' \<Longrightarrow> keeps_domains w w'"
  by (induction rule: rtranclp_induct) (auto intro: keeps_trans power_step_keeps)

section \<open>Probing\<close>

text \<open>Setting up from the device tree is a sequence of these steps.\<close>

lemma add_subdomain_steps:
  "rockchip_pm_add_subdomain P nd w = Some (w', e) \<Longrightarrow> (power_step P)\<^sup>*\<^sup>* w w'"
  "add_children P r nds w = Some (w', e) \<Longrightarrow> (power_step P)\<^sup>*\<^sup>* w w'"
proof (induction P nd w and P r nds w arbitrary: w' e and w' e rule: rockchip_pm_add_subdomain_add_children.induct)
  case (3 P r np nps w)
  show ?case
  proof (cases r)
    case None
    then show ?thesis using 3(3) by simp
  next
    case (Some k)
    obtain w1 e1 where a: "rockchip_pm_add_one_domain P np w = Some (w1, e1)"
      using 3(3) Some by (auto simp: bind_eq_Some_conv)
    then have s1: "(power_step P)\<^sup>*\<^sup>* w w1" by (auto intro: add_domain)
    show ?thesis
    proof (cases "e1 = None \<and> dt_reg np \<noteq> None \<and> dt_add np = None")
      case False
      then have "w' = w1" using 3(3) Some a by (auto split: if_splits option.splits)
      then show ?thesis using s1 by simp
    next
      case True
      then obtain j where j: "dt_reg np = Some j" by blast
      obtain w2 w3 e3 where l: "link_subdomain k j w1 = Some w2" "rockchip_pm_add_subdomain P np w2 = Some (w3, e3)"
        "add_children P r nps w3 = Some (w', e)" "genpd_domains w k \<noteq> None"
        using 3(3) Some a True j by (auto simp: bind_eq_Some_conv split: if_splits)
      have "(power_step P)\<^sup>*\<^sup>* w2 w3" "(power_step P)\<^sup>*\<^sup>* w3 w'"
        using 3(1,2) Some a True j l by (auto split: if_splits)
      then show ?thesis using s1 link [OF l(1)] by (meson rtranclp.rtrancl_into_rtrancl rtranclp_trans)
    qed
  qed
qed auto

lemma add_nodes_steps: "add_nodes P e0 nds w = Some (w', e) \<Longrightarrow> (power_step P)\<^sup>*\<^sup>* w w'"
proof (induction nds arbitrary: w e0)
  case (Cons nd nds)
  obtain w1 e1 where a: "rockchip_pm_add_one_domain P nd w = Some (w1, e1)"
    using Cons.prems by (auto simp: bind_eq_Some_conv)
  then have s1: "(power_step P)\<^sup>*\<^sup>* w w1" by (auto intro: add_domain)
  show ?case
  proof (cases "e1 = None")
    case True
    then obtain w2 e2 where b: "rockchip_pm_add_subdomain P nd w1 = Some (w2, e2)"
      using Cons.prems a by (auto simp: bind_eq_Some_conv)
    have "(power_step P)\<^sup>*\<^sup>* w2 w'"
      using Cons.IH [of None w2] Cons.prems a b True by (cases "e2 = None") auto
    then show ?thesis using s1 add_subdomain_steps(1) [OF b] by (meson rtranclp_trans)
  qed (use Cons.prems a s1 in auto)
qed simp

lemma power_steps_ok: "(power_step P)\<^sup>*\<^sup>* w w' \<Longrightarrow> pmu_ok p r w \<Longrightarrow> pmu_ok p r w'"
  by (induction rule: rtranclp_induct) (auto intro: power_step_ok)

lemma pmu_ok_start:
  "pmu_ok (clk_prepares w) (clk_refs w) (w\<lparr>pmu_info := i, genpd_domains := Map.empty, subdomains := [], genpd_list := {}, pmu_hw := h\<rparr>)"
  by (simp add: pmu_ok_def clocks_held_def)

text \<open>How probing ends.\<close>

lemma probe_cases:
  assumes "rockchip_pm_domain_probe P E w = Some (w', e)"
  obtains (early) "w' = w" "e \<noteq> None"
  | (failed) w2 where "pmu_ok (clk_prepares w) (clk_refs w) w2" "w' = rockchip_pm_domain_cleanup (genpd_remove_error E) w2" "e \<noteq> None"
  | (probed) "pmu_ok (clk_prepares w) (clk_refs w) w'" "e = None"
proof (cases "has_node E \<and> alloc_pmu E \<and> has_parent E \<and> syscon_error E = None \<and> iomap_ok E \<and> match_data E \<noteq> None")
  case False
  then have "w' = w \<and> e \<noteq> None" using assms by (auto simp: rockchip_pm_domain_probe_def dest: sym split: if_splits option.splits)
  then show thesis using early by simp
next
  case True
  then obtain i where i: "match_data E = Some i" by blast
  let ?w = "w\<lparr>pmu_info := i, genpd_domains := Map.empty, subdomains := [], genpd_list := {}, pmu_hw := configure_counts P i (pmu_hw w)\<rparr>"
  obtain w2 e2 where a: "add_nodes P (Some ENODEV) (dt_nodes E) ?w = Some (w2, e2)"
    using assms True i by (auto simp: rockchip_pm_domain_probe_def bind_eq_Some_conv)
  have ok: "pmu_ok (clk_prepares w) (clk_refs w) w2"
    using power_steps_ok [OF add_nodes_steps [OF a] pmu_ok_start] .
  let ?e = "case e2 of Some x \<Rightarrow> Some x | None \<Rightarrow> provider_error E"
  have "(if ?e \<noteq> None then Some (rockchip_pm_domain_cleanup (genpd_remove_error E) w2, ?e) else Some (w2, None)) = Some (w', e)"
    using assms True i a by (simp add: rockchip_pm_domain_probe_def Let_def)
  then show thesis using failed [OF ok] probed ok by (cases "?e = None") simp_all
qed

text \<open>
  C14: after a probe that succeeded, whatever other drivers and the power management core do with the
  domains, in any order (switching them, idle requests, saving and restoring registers, adding further
  domains and links, releasing those kept on for the start): every domain that probing registered is still
  registered under its number, with the data of the table and its clocks; and of every registered domain the
  clocks are prepared once, not left enabled, and not given back.
\<close>

theorem rockchip_pm_domains_stay_ok:
  assumes "rockchip_pm_domain_probe P E w = Some (w1, None)" "(power_step P)\<^sup>*\<^sup>* w1 w2"
  shows "pmu_ok (clk_prepares w) (clk_refs w) w2 \<and> keeps_domains w1 w2"
  using assms(1)
proof (cases rule: probe_cases)
  case probed
  then show ?thesis using power_steps_ok [OF assms(2)] power_steps_keep [OF assms(2)] by simp
qed simp_all

text \<open>What removing the domains with the given numbers gives back, and which of them the core may keep.\<close>

lemma remove_one_domain_fields:
  fixes w :: "('h, 'r) rockchip_pmu"
  defines "w' \<equiv> \<lambda>R k pd. rockchip_pm_remove_one_domain R k pd (w :: ('h, 'r) rockchip_pmu)"
  shows "clk_prepares (w' R k pd) = clk_prepares w - 1" "clk_refs (w' R k pd) = clk_refs w - int (num_clks pd)"
    "genpd_domains (w' R k pd) = (genpd_domains w)(k \<mapsto> pd\<lparr>num_clks := 0\<rparr>)"
    "set (subdomains (w' R k pd)) \<subseteq> set (subdomains w)"
    "genpd_list (w' R k pd) = (if R k (subdomains w) = None then genpd_list w - {k} else genpd_list w)"
  by (auto simp: w'_def rockchip_pm_remove_one_domain_def pm_genpd_remove_def put_clks_def unprepare_clks_def
      split: prod.splits option.splits)






text \<open>
  When the core refuses domains that have subdomains, one whose subdomain has a larger number stays: it is
  tried first. Its memory is freed all the same once probing has failed.
\<close>

lemma cleanup_append: "cleanup_domains R (ks @ ls) w = cleanup_domains R ls (cleanup_domains R ks w)"
  by (induction ks arbitrary: w) simp_all

lemma remove_one_domain_others:
  assumes "j \<noteq> i"
  shows "(k, j) \<in> set (subdomains w) \<Longrightarrow> (k, j) \<in> set (subdomains (rockchip_pm_remove_one_domain R i pd w))"
    "j \<in> genpd_list w \<Longrightarrow> j \<in> genpd_list (rockchip_pm_remove_one_domain R i pd w)"
    "genpd_domains (rockchip_pm_remove_one_domain R i pd w) j = genpd_domains w j"
  using assms by (auto simp: rockchip_pm_remove_one_domain_def pm_genpd_remove_def put_clks_def unprepare_clks_def split: option.splits)

lemma cleanup_others:
  assumes "j \<notin> set ks"
  shows "(k, j) \<in> set (subdomains w) \<Longrightarrow> (k, j) \<in> set (subdomains (cleanup_domains R ks w))"
    "j \<in> genpd_list w \<Longrightarrow> j \<in> genpd_list (cleanup_domains R ks w)"
    "genpd_domains (cleanup_domains R ks w) j = genpd_domains w j"
  using assms by (induction ks arbitrary: w) (auto simp: remove_one_domain_others split: option.splits)

theorem parent_stays_with_core:
  assumes "\<forall>k ls. (\<exists>c. (k, c) \<in> set ls) \<longrightarrow> R k ls \<noteq> None" "(k, j) \<in> set (subdomains w)" "k < j"
    "k < num_domains (pmu_info w)" "genpd_domains w k \<noteq> None" "k \<in> genpd_list w"
  shows "k \<in> genpd_list (rockchip_pm_domain_cleanup R w)"
proof -
  let ?n = "num_domains (pmu_info w)" and ?w = "cleanup_domains R [0..<k] w"
  have split: "[0..<?n] = [0..<k] @ k # [Suc k..<?n]"
    using assms(4) upt_add_eq_append [of 0 k "?n - k"] by (simp add: upt_conv_Cons)
  have link: "(k, j) \<in> set (subdomains ?w)" by (rule cleanup_others(1)) (use assms(2,3) in simp_all)
  have k: "k \<in> genpd_list ?w" "genpd_domains ?w k = genpd_domains w k"
    using assms(6) by (simp_all add: cleanup_others)
  then obtain pd where pd: "genpd_domains ?w k = Some pd" using assms(5) by auto
  have "R k (subdomains ?w) \<noteq> None" using assms(1) link by blast
  then have "k \<in> genpd_list (rockchip_pm_remove_one_domain R k pd ?w)"
    using k(1) remove_one_domain_fields(5) [where w = ?w and R = R and k = k and pd = pd] by simp
  then have "k \<in> genpd_list (cleanup_domains R [Suc k..<?n] (rockchip_pm_remove_one_domain R k pd ?w))"
    by (intro cleanup_others(2)) simp_all
  then show ?thesis by (simp add: rockchip_pm_domain_cleanup_def split cleanup_append pd)
qed


section \<open>Domains with bus masters that are not available\<close>

lemma save_regs_fits: "save_regs P q stride i rs h s = Some s' \<Longrightarrow> (k, r) \<in> set rs \<Longrightarrow> k * stride + i < length s"
proof (induction rs arbitrary: s)
  case (Cons a rs)
  obtain k' r' where a: "a = (k', r')" by force
  show ?case using Cons.IH [of "s[k' * stride + i := qos_read P q r' h]"] Cons.prems by (auto simp: a split: if_splits)
qed simp

lemma save_blocks_fits:
  "save_blocks P qs stride is h s = Some s' \<Longrightarrow> i \<in> set is \<Longrightarrow> (k, r) \<in> set qos_regs \<Longrightarrow> k * stride + i < length s"
proof (induction "is" arbitrary: s)
  case (Cons j js)
  then obtain s1 where s1: "save_regs P (qs ! j) stride j qos_regs h s = Some s1" "save_blocks P qs stride js h s1 = Some s'"
    by (auto simp: bind_eq_Some_conv split: if_splits)
  show ?case
  proof (cases "i = j")
    case True
    then show ?thesis using save_regs_fits [OF s1(1)] Cons.prems(3) by simp
  next
    case False
    then show ?thesis using Cons.IH [OF s1(2)] Cons.prems save_regs_length [OF s1(1)] by simp
  qed
qed simp

lemma setup_qos_stride:
  assumes "setup_qos nd (new_domain d nd) = Some (Inr (pd, need))" "0 < num_qos pd"
  shows "qos_stride pd = length (dt_qos nd) \<and> num_qos pd = count_qos (dt_qos nd)"
  using assms(1) by (cases rule: setup_qos_cases) (use assms(2) in simp_all)

text \<open>
  C16: the registers of the bus masters fit into what was allocated for them just when all nodes of bus
  masters are available; when one of several is not, saving the registers runs over the end.
\<close>

theorem rockchip_pmu_save_qos_fits:
  assumes "setup_qos nd (new_domain d nd) = Some (Inr (pd, need))" "0 < num_qos pd"
  shows "rockchip_pmu_save_qos P pd h \<noteq> None \<longleftrightarrow> count_qos (dt_qos nd) = length (dt_qos nd)"
proof
  have g: "domain_good d pd" using setup_qos_good(1) [OF assms(1)] .
  note st = setup_qos_stride [OF assms]
  have le: "count_qos (dt_qos nd) \<le> length (dt_qos nd)" by (simp add: count_qos_def)
  show "count_qos (dt_qos nd) = length (dt_qos nd)" if fits: "rockchip_pmu_save_qos P pd h \<noteq> None"
  proof (rule ccontr)
    assume "count_qos (dt_qos nd) \<noteq> length (dt_qos nd)"
    then have less: "num_qos pd < qos_stride pd" using le st by simp
    obtain s where s: "save_blocks P (qos_regmap pd) (qos_stride pd) [0..<num_qos pd] h (qos_save_regs pd) = Some s"
      using fits by (auto simp: rockchip_pmu_save_qos_def)
    have "4 * qos_stride pd + (num_qos pd - 1) < length (qos_save_regs pd)"
      by (rule save_blocks_fits [OF s]) (use assms(2) in \<open>simp_all add: qos_regs_def\<close>)
    then show False using g less assms(2) by (simp add: domain_good_def MAX_QOS_REGS_NUM_def)
  qed
  show "rockchip_pmu_save_qos P pd h \<noteq> None" if "count_qos (dt_qos nd) = length (dt_qos nd)"
  proof -
    have "qos_ok pd" using g st that assms(2) by (simp add: domain_good_def qos_ok_def MAX_QOS_REGS_NUM_def)
    from save_qos_result [OF this, of P h] show ?thesis by auto
  qed
qed

section \<open>A clock that does not start\<close>

text \<open>when the clocks of a domain that is to be switched on fail, its supply is left enabled.\<close>

theorem rockchip_pd_power_clock_error:
  assumes "\<not> rockchip_pmu_domain_is_on P (pmu_info w) (info pd) (pmu_hw w)" "vdd pd = Supply"
    "regulator_enable P (genpd_name pd) (supplies w) = (r, None)" "clk_error w = Some x" "num_clks pd \<noteq> 0"
  shows "rockchip_pd_power P True pd w = Some (pd, w\<lparr>supplies := r\<rparr>, Some x)"
  using assms by (simp add: rockchip_pd_power_def get_supply_def enable_supply_def IS_ERR_supply_def clk_bulk_enable_pd_def)

theorem rockchip_pd_power_clock_error_witness:
  "rockchip_pd_power sim_power True sim_off (sim_pmu_off\<lparr>clk_error := Some EIO\<rparr>)
   = Some (sim_off, sim_pmu_off\<lparr>clk_error := Some EIO, supplies := 1\<rparr>, Some EIO)"
  using rockchip_pd_power_clock_error [of sim_power "sim_pmu_off\<lparr>clk_error := Some EIO\<rparr>" sim_off 1 EIO]
  by (simp add: sim_fields) (simp add: sim_off_def gpu_domain_def sim_pmu_off_def sim_pmu_def)

section \<open>Concrete trees\<close>

definition sim_node :: "errno option list \<Rightarrow> errno option \<Rightarrow> dt_qos option list \<Rightarrow> dt_node" where
  "sim_node clks prepare qos = Dt_node (Some 7) ''gpu'' clks prepare qos
     \<lparr>alloc_pd = True, alloc_clks = True, alloc_qos_regmap = True, alloc_qos_save = Some [], alloc_qos_need = True\<rparr> None []"

definition sim_qos :: "bool \<Rightarrow> dt_qos option" where
  "sim_qos av = Some \<lparr>qos_available = av, qos_map = Some 3, qos_init = [None, None, None, None, None]\<rparr>"

definition tree_env :: "dt_node list \<Rightarrow> pm_probe_env" where
  "tree_env nds = \<lparr>has_node = True, match_data = Some sim_info, alloc_pmu = True, has_parent = True, syscon_error = None,
     iomap_ok = True, provider_error = None, dt_nodes = nds,
     genpd_remove_error = (\<lambda>k ls. if \<exists>(p, c) \<in> set ls. p = k then Some EBUSY else None)\<rparr>"

definition sim_registered :: rockchip_pm_domain where
  "sim_registered = new_domain (domain_info sim_info 7) (sim_node [None] None [])"

lemma sim_node_fields [simp]:
  "dt_reg (sim_node cs pr qs) = Some 7" "dt_clks (sim_node cs pr qs) = cs" "dt_prepare (sim_node cs pr qs) = pr"
  "dt_qos (sim_node cs pr qs) = qs" "alloc_pd (dt_alloc (sim_node cs pr qs))" "alloc_clks (dt_alloc (sim_node cs pr qs))"
  "alloc_qos_regmap (dt_alloc (sim_node cs pr qs))" "alloc_qos_save (dt_alloc (sim_node cs pr qs)) = Some []"
  "alloc_qos_need (dt_alloc (sim_node cs pr qs))" "rockchip_pm_add_subdomain P (sim_node cs pr qs) w = Some (w, None)"
  by (simp_all add: sim_node_def)

lemma tree_env_fields [simp]:
  "has_node (tree_env nds)" "match_data (tree_env nds) = Some sim_info" "alloc_pmu (tree_env nds)" "has_parent (tree_env nds)"
  "syscon_error (tree_env nds) = None" "iomap_ok (tree_env nds)" "provider_error (tree_env nds) = None" "dt_nodes (tree_env nds) = nds"
  by (simp_all add: tree_env_def)

lemma sim_registered_fields:
  "info sim_registered = domain_info sim_info 7" "\<not> keepon_startup (domain_info sim_info 7)"
  "sim_registered\<lparr>num_qos := 0, genpd_off := False\<rparr> = sim_registered"
  by (simp_all add: sim_registered_def new_domain_def sim_gpu domain_macros)

lemma sim_counts [simp]: "configure_counts P sim_info h = h"
  by (simp add: configure_counts_def sim_info_def rk3568_pmu_def no_pmu_info_def)

lemma sim_add:
  "genpd_domains w 7 = None \<Longrightarrow> pmu_info w = sim_info \<Longrightarrow> pmu_hw w = (0, r, f)
   \<Longrightarrow> rockchip_pm_add_one_domain sim_power (sim_node [None] None []) w
     = Some (w\<lparr>clk_refs := clk_refs w + 1, clk_prepares := clk_prepares w + 1,
         genpd_domains := (genpd_domains w)(7 \<mapsto> sim_registered), genpd_list := insert 7 (genpd_list w)\<rparr>, None)"
  using sim_registered_fields
  by (simp add: rockchip_pm_add_one_domain_def finish_domain_def setup_qos_def count_qos_def keep_on_def sim_registered_def)

lemma sim_probe:
  "rockchip_pm_domain_probe sim_power (tree_env [sim_node [None] None []]) sim_pmu
   = Some (sim_pmu\<lparr>genpd_domains := [7 \<mapsto> sim_registered], clk_refs := 2, clk_prepares := 2\<rparr>, None)"
  by (simp add: rockchip_pm_domain_probe_def sim_add sim_pmu_def)

theorem rockchip_pm_domains_stay_ok_witness:
  "let w = sim_pmu\<lparr>genpd_domains := [7 \<mapsto> sim_registered], clk_refs := 2, clk_prepares := 2\<rparr>;
     w' = w\<lparr>pmu_hw := (0, 0x20002, \<lambda>q r. r + 7)\<rparr>
   in pmu_ok 1 1 w' \<and> keeps_domains w w'"
proof -
  let ?w = "sim_pmu\<lparr>genpd_domains := [7 \<mapsto> sim_registered], clk_refs := 2, clk_prepares := 2\<rparr>"
  have "power_step sim_power ?w (?w\<lparr>pmu_hw := (0, 0x20002, \<lambda>q r. r + 7)\<rparr>)"
    by (rule idle [of _ "Some 7" True _ _ None])
      (simp add: rockchip_pmu_idle_request_def rockchip_pmu_set_idle_request_def sim_fields sim_registered_fields)
  then have "(power_step sim_power)\<^sup>*\<^sup>* ?w (?w\<lparr>pmu_hw := (0, 0x20002, \<lambda>q r. r + 7)\<rparr>)" by (rule r_into_rtranclp)
  then show ?thesis using rockchip_pm_domains_stay_ok [OF sim_probe] by (simp add: sim_pmu_def Let_def)
qed




theorem rockchip_pm_add_one_domain_error_witness:
  "\<exists>w'. rockchip_pm_add_one_domain sim_power (sim_node [None, Some EIO] None []) (sim_pmu\<lparr>genpd_domains := Map.empty\<rparr>) = Some (w', Some EIO)
     \<and> genpd_domains w' = Map.empty \<and> clk_refs w' \<in> {1, 2}"
proof -
  let ?w = "sim_pmu\<lparr>genpd_domains := Map.empty\<rparr>"
  have "\<exists>w'. rockchip_pm_add_one_domain sim_power (sim_node [None, Some EIO] None []) ?w = Some (w', Some EIO)"
    by (simp add: rockchip_pm_add_one_domain_def sim_fields)
  then obtain w' where w': "rockchip_pm_add_one_domain sim_power (sim_node [None, Some EIO] None []) ?w = Some (w', Some EIO)" ..
  show ?thesis using rockchip_pm_add_one_domain_error [OF w'] w' by (auto simp: sim_pmu_def)
qed

theorem rockchip_pmu_save_qos_fits_witness:
  "rockchip_pmu_save_qos sim_power ((new_domain no_domain_info (sim_node [] None [sim_qos True, sim_qos False]))
     \<lparr>num_qos := 1, qos_regmap := [3], qos_stride := 2, qos_save_regs := [0, 0, 0, 0, 0]\<rparr>) (0, 0, \<lambda>_ _. 0) = None"
proof -
  let ?nd = "sim_node [] None [sim_qos True, sim_qos False]"
  let ?pd = "(new_domain no_domain_info ?nd)\<lparr>num_qos := 1, qos_regmap := [3], qos_stride := 2, qos_save_regs := [0, 0, 0, 0, 0]\<rparr>"
  have "setup_qos ?nd (new_domain no_domain_info ?nd) = Some (Inr (?pd, replicate 5 False))"
    by (simp add: setup_qos_def count_qos_def sim_qos_def MAX_QOS_REGS_NUM_def Let_def) (simp add: numeral_eq_Suc)
  from rockchip_pmu_save_qos_fits [OF this, of sim_power "(0, 0, \<lambda>_ _. 0)"] show ?thesis
    by (simp add: count_qos_def sim_qos_def)
qed

end
