(* ===== verification/Pin_Chips.thy ===== *)
theory Pin_Chips
  imports Prelude
begin

text \<open>
  The pins of the Rockchip chips, the tables of \<open>common/sdk_linux/drivers/pinctrl/pinctrl-rockchip.c\<close>: banks of
  pins, the pins whose function is set in an unusual place, and the routes that go with a function.
\<close>

section \<open>Types\<close>

datatype rockchip_pinctrl_type = PX30 | RV1108 | RV1126 | RK1808 | RK2928 | RK3066B | RK3128 | RK3188 | RK3288
  | RK3308 | RK3368 | RK3399 | RK3568

text \<open>The flags of an iomux.\<close>

definition IOMUX_GPIO_ONLY :: u32 where "IOMUX_GPIO_ONLY = BIT 0"
definition IOMUX_WIDTH_4BIT :: u32 where "IOMUX_WIDTH_4BIT = BIT 1"
definition IOMUX_SOURCE_PMU :: u32 where "IOMUX_SOURCE_PMU = BIT 2"
definition IOMUX_UNROUTED :: u32 where "IOMUX_UNROUTED = BIT 3"
definition IOMUX_WIDTH_3BIT :: u32 where "IOMUX_WIDTH_3BIT = BIT 4"
definition IOMUX_WIDTH_2BIT :: u32 where "IOMUX_WIDTH_2BIT = BIT 5"
definition IOMUX_WRITABLE_32BIT :: u32 where "IOMUX_WRITABLE_32BIT = BIT 6"
definition IOMUX_L_SOURCE_PMU :: u32 where "IOMUX_L_SOURCE_PMU = BIT 7"

lemmas iomux_flags = IOMUX_GPIO_ONLY_def IOMUX_WIDTH_4BIT_def IOMUX_SOURCE_PMU_def IOMUX_UNROUTED_def
  IOMUX_WIDTH_3BIT_def IOMUX_WIDTH_2BIT_def IOMUX_WRITABLE_32BIT_def IOMUX_L_SOURCE_PMU_def

record rockchip_iomux =
  iom_type :: u32
  iom_offset :: int

datatype rockchip_pin_drv_type = DRV_TYPE_IO_DEFAULT | DRV_TYPE_IO_1V8_OR_3V0 | DRV_TYPE_IO_1V8_ONLY
  | DRV_TYPE_IO_1V8_3V0_AUTO | DRV_TYPE_IO_3V3_ONLY

datatype rockchip_pin_pull_type = PULL_TYPE_IO_DEFAULT | PULL_TYPE_IO_1V8_ONLY

datatype rockchip_mux_route_location = ROCKCHIP_ROUTE_SAME | ROCKCHIP_ROUTE_PMU | ROCKCHIP_ROUTE_GRF

record rockchip_drv =
  drv_type :: rockchip_pin_drv_type
  drv_offset :: int

text \<open>
  \<open>struct rockchip_pin_bank\<close> as far as the settings of its pins need it; \<open>iomux\<close>, \<open>drv\<close> and \<open>pull_type\<close> have
  an element for each eight pins.
\<close>

record rockchip_pin_bank =
  pin_base :: int
  nr_pins :: int
  bank_name :: string
  bank_num :: int
  iomux :: "rockchip_iomux list"
  drv :: "rockchip_drv list"
  pull_type :: "rockchip_pin_pull_type list"
  recalced_mask :: u32
  route_mask :: u32

record rockchip_mux_recalced_data =
  rc_num :: int
  rc_pin :: int
  rc_reg :: int
  rc_bit :: int
  rc_mask :: int

record rockchip_mux_route_data =
  rt_bank_num :: int
  rt_pin :: int
  rt_func :: int
  route_location :: rockchip_mux_route_location
  route_offset :: int
  route_val :: u32

section \<open>Banks\<close>

definition bank_of :: "int \<Rightarrow> int \<Rightarrow> string \<Rightarrow> rockchip_iomux list \<Rightarrow> rockchip_drv list \<Rightarrow> rockchip_pin_pull_type list \<Rightarrow> rockchip_pin_bank" where
  "bank_of num pins label ioms drvs pulls = \<lparr>pin_base = 0, nr_pins = pins, bank_name = label, bank_num = num,
     iomux = ioms, drv = drvs, pull_type = pulls, recalced_mask = 0, route_mask = 0\<rparr>"

abbreviation no_drv :: "rockchip_drv list" where
  "no_drv \<equiv> replicate 4 \<lparr>drv_type = DRV_TYPE_IO_DEFAULT, drv_offset = 0\<rparr>"

abbreviation no_pull :: "rockchip_pin_pull_type list" where
  "no_pull \<equiv> replicate 4 PULL_TYPE_IO_DEFAULT"

definition PIN_BANK :: "int \<Rightarrow> int \<Rightarrow> string \<Rightarrow> rockchip_pin_bank" where
  "PIN_BANK num pins label = bank_of num pins label (replicate 4 \<lparr>iom_type = 0, iom_offset = - 1\<rparr>) no_drv no_pull"

definition PIN_BANK_IOMUX_FLAGS :: "int \<Rightarrow> int \<Rightarrow> string \<Rightarrow> u32 list \<Rightarrow> rockchip_pin_bank" where
  "PIN_BANK_IOMUX_FLAGS num pins label ioms =
     bank_of num pins label (map (\<lambda>t. \<lparr>iom_type = t, iom_offset = - 1\<rparr>) ioms) no_drv no_pull"

definition PIN_BANK_IOMUX_FLAGS_OFFSET :: "int \<Rightarrow> int \<Rightarrow> string \<Rightarrow> u32 list \<Rightarrow> int list \<Rightarrow> rockchip_pin_bank" where
  "PIN_BANK_IOMUX_FLAGS_OFFSET num pins label ioms offs =
     bank_of num pins label (map2 rockchip_iomux.make ioms offs) no_drv no_pull"

definition PIN_BANK_DRV_FLAGS :: "int \<Rightarrow> int \<Rightarrow> string \<Rightarrow> rockchip_pin_drv_type list \<Rightarrow> rockchip_pin_bank" where
  "PIN_BANK_DRV_FLAGS num pins label drvs =
     bank_of num pins label (replicate 4 \<lparr>iom_type = 0, iom_offset = - 1\<rparr>) (map (\<lambda>t. \<lparr>drv_type = t, drv_offset = - 1\<rparr>) drvs) no_pull"

definition PIN_BANK_DRV_FLAGS_PULL_FLAGS ::
  "int \<Rightarrow> int \<Rightarrow> string \<Rightarrow> rockchip_pin_drv_type list \<Rightarrow> rockchip_pin_pull_type list \<Rightarrow> rockchip_pin_bank" where
  "PIN_BANK_DRV_FLAGS_PULL_FLAGS num pins label drvs pulls =
     bank_of num pins label (replicate 4 \<lparr>iom_type = 0, iom_offset = - 1\<rparr>) (map (\<lambda>t. \<lparr>drv_type = t, drv_offset = - 1\<rparr>) drvs) pulls"

definition PIN_BANK_IOMUX_DRV_FLAGS_OFFSET ::
  "int \<Rightarrow> int \<Rightarrow> string \<Rightarrow> u32 list \<Rightarrow> rockchip_pin_drv_type list \<Rightarrow> int list \<Rightarrow> rockchip_pin_bank" where
  "PIN_BANK_IOMUX_DRV_FLAGS_OFFSET num pins label ioms drvs offs =
     bank_of num pins label (map (\<lambda>t. \<lparr>iom_type = t, iom_offset = - 1\<rparr>) ioms) (map2 rockchip_drv.make drvs offs) no_pull"

definition PIN_BANK_IOMUX_FLAGS_DRV_FLAGS_OFFSET_PULL_FLAGS ::
  "int \<Rightarrow> int \<Rightarrow> string \<Rightarrow> u32 list \<Rightarrow> rockchip_pin_drv_type list \<Rightarrow> int list \<Rightarrow> rockchip_pin_pull_type list \<Rightarrow> rockchip_pin_bank" where
  "PIN_BANK_IOMUX_FLAGS_DRV_FLAGS_OFFSET_PULL_FLAGS num pins label ioms drvs offs pulls =
     bank_of num pins label (map (\<lambda>t. \<lparr>iom_type = t, iom_offset = - 1\<rparr>) ioms) (map2 rockchip_drv.make drvs offs) pulls"

lemmas bank_macros = bank_of_def PIN_BANK_def PIN_BANK_IOMUX_FLAGS_def PIN_BANK_IOMUX_FLAGS_OFFSET_def PIN_BANK_DRV_FLAGS_def
  PIN_BANK_DRV_FLAGS_PULL_FLAGS_def PIN_BANK_IOMUX_DRV_FLAGS_OFFSET_def PIN_BANK_IOMUX_FLAGS_DRV_FLAGS_OFFSET_PULL_FLAGS_def
  rockchip_iomux.make_def rockchip_drv.make_def

definition px30_pin_banks :: "rockchip_pin_bank list" where
  "px30_pin_banks =
     [PIN_BANK_IOMUX_FLAGS 0 32 ''gpio0'' [IOMUX_SOURCE_PMU, IOMUX_SOURCE_PMU, IOMUX_SOURCE_PMU, IOMUX_SOURCE_PMU],
      PIN_BANK_IOMUX_FLAGS 1 32 ''gpio1'' [IOMUX_WIDTH_4BIT, IOMUX_WIDTH_4BIT, IOMUX_WIDTH_4BIT, IOMUX_WIDTH_4BIT],
      PIN_BANK_IOMUX_FLAGS 2 32 ''gpio2'' [IOMUX_WIDTH_4BIT, IOMUX_WIDTH_4BIT, IOMUX_WIDTH_4BIT, IOMUX_WIDTH_4BIT],
      PIN_BANK_IOMUX_FLAGS 3 32 ''gpio3'' [IOMUX_WIDTH_4BIT, IOMUX_WIDTH_4BIT, IOMUX_WIDTH_4BIT, IOMUX_WIDTH_4BIT]]"

definition rv1108_pin_banks :: "rockchip_pin_bank list" where
  "rv1108_pin_banks =
     [PIN_BANK_IOMUX_FLAGS 0 32 ''gpio0'' [IOMUX_SOURCE_PMU, IOMUX_SOURCE_PMU, IOMUX_SOURCE_PMU, IOMUX_SOURCE_PMU],
      PIN_BANK_IOMUX_FLAGS 1 32 ''gpio1'' [0, 0, 0, 0],
      PIN_BANK_IOMUX_FLAGS 2 32 ''gpio2'' [0, 0, 0, 0],
      PIN_BANK_IOMUX_FLAGS 3 32 ''gpio3'' [0, 0, 0, 0]]"

definition rv1126_pin_banks :: "rockchip_pin_bank list" where
  "rv1126_pin_banks =
     [PIN_BANK_IOMUX_FLAGS 0 32 ''gpio0'' [IOMUX_WIDTH_4BIT OR IOMUX_SOURCE_PMU, IOMUX_WIDTH_4BIT OR IOMUX_SOURCE_PMU, IOMUX_WIDTH_4BIT OR IOMUX_L_SOURCE_PMU, IOMUX_WIDTH_4BIT],
      PIN_BANK_IOMUX_FLAGS_OFFSET 1 32 ''gpio1'' [IOMUX_WIDTH_4BIT, IOMUX_WIDTH_4BIT, IOMUX_WIDTH_4BIT, IOMUX_WIDTH_4BIT] [0x10010, 0x10018, 0x10020, 0x10028],
      PIN_BANK_IOMUX_FLAGS 2 32 ''gpio2'' [IOMUX_WIDTH_4BIT, IOMUX_WIDTH_4BIT, IOMUX_WIDTH_4BIT, IOMUX_WIDTH_4BIT],
      PIN_BANK_IOMUX_FLAGS 3 32 ''gpio3'' [IOMUX_WIDTH_4BIT, IOMUX_WIDTH_4BIT, IOMUX_WIDTH_4BIT, IOMUX_WIDTH_4BIT],
      PIN_BANK_IOMUX_FLAGS 4 2 ''gpio4'' [IOMUX_WIDTH_4BIT, 0, 0, 0]]"

definition rk1808_pin_banks :: "rockchip_pin_bank list" where
  "rk1808_pin_banks =
     [PIN_BANK_IOMUX_FLAGS 0 32 ''gpio0'' [IOMUX_SOURCE_PMU, IOMUX_SOURCE_PMU, IOMUX_SOURCE_PMU, IOMUX_SOURCE_PMU],
      PIN_BANK_IOMUX_FLAGS 1 32 ''gpio1'' [IOMUX_WIDTH_4BIT, IOMUX_WIDTH_4BIT, IOMUX_WIDTH_4BIT, IOMUX_WIDTH_4BIT],
      PIN_BANK_IOMUX_FLAGS 2 32 ''gpio2'' [IOMUX_WIDTH_4BIT, IOMUX_WIDTH_4BIT, IOMUX_WIDTH_4BIT, IOMUX_WIDTH_4BIT],
      PIN_BANK_IOMUX_FLAGS 3 32 ''gpio3'' [IOMUX_WIDTH_4BIT, IOMUX_WIDTH_4BIT, IOMUX_WIDTH_4BIT, IOMUX_WIDTH_4BIT],
      PIN_BANK_IOMUX_FLAGS 4 32 ''gpio4'' [IOMUX_WIDTH_4BIT, IOMUX_WIDTH_4BIT, IOMUX_WIDTH_4BIT, IOMUX_WIDTH_4BIT]]"

definition rk2928_pin_banks :: "rockchip_pin_bank list" where
  "rk2928_pin_banks =
     [PIN_BANK 0 32 ''gpio0'',
      PIN_BANK 1 32 ''gpio1'',
      PIN_BANK 2 32 ''gpio2'',
      PIN_BANK 3 32 ''gpio3'']"

definition rk3036_pin_banks :: "rockchip_pin_bank list" where
  "rk3036_pin_banks =
     [PIN_BANK 0 32 ''gpio0'',
      PIN_BANK 1 32 ''gpio1'',
      PIN_BANK 2 32 ''gpio2'']"

definition rk3066a_pin_banks :: "rockchip_pin_bank list" where
  "rk3066a_pin_banks =
     [PIN_BANK 0 32 ''gpio0'',
      PIN_BANK 1 32 ''gpio1'',
      PIN_BANK 2 32 ''gpio2'',
      PIN_BANK 3 32 ''gpio3'',
      PIN_BANK 4 32 ''gpio4'',
      PIN_BANK 6 16 ''gpio6'']"

definition rk3066b_pin_banks :: "rockchip_pin_bank list" where
  "rk3066b_pin_banks =
     [PIN_BANK 0 32 ''gpio0'',
      PIN_BANK 1 32 ''gpio1'',
      PIN_BANK 2 32 ''gpio2'',
      PIN_BANK 3 32 ''gpio3'']"

definition rk3128_pin_banks :: "rockchip_pin_bank list" where
  "rk3128_pin_banks =
     [PIN_BANK 0 32 ''gpio0'',
      PIN_BANK 1 32 ''gpio1'',
      PIN_BANK 2 32 ''gpio2'',
      PIN_BANK 3 32 ''gpio3'']"

definition rk3188_pin_banks :: "rockchip_pin_bank list" where
  "rk3188_pin_banks =
     [PIN_BANK_IOMUX_FLAGS 0 32 ''gpio0'' [IOMUX_GPIO_ONLY, 0, 0, 0],
      PIN_BANK 1 32 ''gpio1'',
      PIN_BANK 2 32 ''gpio2'',
      PIN_BANK 3 32 ''gpio3'']"

definition rk3228_pin_banks :: "rockchip_pin_bank list" where
  "rk3228_pin_banks =
     [PIN_BANK 0 32 ''gpio0'',
      PIN_BANK 1 32 ''gpio1'',
      PIN_BANK 2 32 ''gpio2'',
      PIN_BANK 3 32 ''gpio3'']"

definition rk3288_pin_banks :: "rockchip_pin_bank list" where
  "rk3288_pin_banks =
     [PIN_BANK_IOMUX_FLAGS 0 24 ''gpio0'' [IOMUX_SOURCE_PMU OR IOMUX_WRITABLE_32BIT, IOMUX_SOURCE_PMU OR IOMUX_WRITABLE_32BIT, IOMUX_SOURCE_PMU OR IOMUX_WRITABLE_32BIT, IOMUX_UNROUTED],
      PIN_BANK_IOMUX_FLAGS 1 32 ''gpio1'' [IOMUX_UNROUTED, IOMUX_UNROUTED, IOMUX_UNROUTED, 0],
      PIN_BANK_IOMUX_FLAGS 2 32 ''gpio2'' [0, 0, 0, IOMUX_UNROUTED],
      PIN_BANK_IOMUX_FLAGS 3 32 ''gpio3'' [0, 0, 0, IOMUX_WIDTH_4BIT],
      PIN_BANK_IOMUX_FLAGS 4 32 ''gpio4'' [IOMUX_WIDTH_4BIT, IOMUX_WIDTH_4BIT, 0, 0],
      PIN_BANK_IOMUX_FLAGS 5 32 ''gpio5'' [IOMUX_UNROUTED, 0, 0, IOMUX_UNROUTED],
      PIN_BANK_IOMUX_FLAGS 6 32 ''gpio6'' [0, 0, 0, IOMUX_UNROUTED],
      PIN_BANK_IOMUX_FLAGS 7 32 ''gpio7'' [0, 0, IOMUX_WIDTH_4BIT, IOMUX_UNROUTED],
      PIN_BANK 8 16 ''gpio8'']"

definition rk3308_pin_banks :: "rockchip_pin_bank list" where
  "rk3308_pin_banks =
     [PIN_BANK_IOMUX_FLAGS 0 32 ''gpio0'' [IOMUX_WIDTH_2BIT, IOMUX_WIDTH_2BIT, IOMUX_WIDTH_2BIT, IOMUX_WIDTH_2BIT],
      PIN_BANK_IOMUX_FLAGS 1 32 ''gpio1'' [IOMUX_WIDTH_2BIT, IOMUX_WIDTH_2BIT, IOMUX_WIDTH_2BIT, IOMUX_WIDTH_2BIT],
      PIN_BANK_IOMUX_FLAGS 2 32 ''gpio2'' [IOMUX_WIDTH_2BIT, IOMUX_WIDTH_2BIT, IOMUX_WIDTH_2BIT, IOMUX_WIDTH_2BIT],
      PIN_BANK_IOMUX_FLAGS 3 32 ''gpio3'' [IOMUX_WIDTH_2BIT, IOMUX_WIDTH_2BIT, IOMUX_WIDTH_2BIT, IOMUX_WIDTH_2BIT],
      PIN_BANK_IOMUX_FLAGS 4 32 ''gpio4'' [IOMUX_WIDTH_2BIT, IOMUX_WIDTH_2BIT, IOMUX_WIDTH_2BIT, IOMUX_WIDTH_2BIT]]"

definition rk3328_pin_banks :: "rockchip_pin_bank list" where
  "rk3328_pin_banks =
     [PIN_BANK_IOMUX_FLAGS 0 32 ''gpio0'' [0, 0, 0, 0],
      PIN_BANK_IOMUX_FLAGS 1 32 ''gpio1'' [0, 0, 0, 0],
      PIN_BANK_IOMUX_FLAGS 2 32 ''gpio2'' [0, IOMUX_WIDTH_3BIT, IOMUX_WIDTH_3BIT, 0],
      PIN_BANK_IOMUX_FLAGS 3 32 ''gpio3'' [IOMUX_WIDTH_3BIT, IOMUX_WIDTH_3BIT, 0, 0]]"

definition rk3368_pin_banks :: "rockchip_pin_bank list" where
  "rk3368_pin_banks =
     [PIN_BANK_IOMUX_FLAGS 0 32 ''gpio0'' [IOMUX_SOURCE_PMU, IOMUX_SOURCE_PMU, IOMUX_SOURCE_PMU, IOMUX_SOURCE_PMU],
      PIN_BANK 1 32 ''gpio1'',
      PIN_BANK 2 32 ''gpio2'',
      PIN_BANK 3 32 ''gpio3'']"

definition rk3399_pin_banks :: "rockchip_pin_bank list" where
  "rk3399_pin_banks =
     [PIN_BANK_IOMUX_FLAGS_DRV_FLAGS_OFFSET_PULL_FLAGS 0 32 ''gpio0'' [IOMUX_SOURCE_PMU, IOMUX_SOURCE_PMU, IOMUX_SOURCE_PMU, IOMUX_SOURCE_PMU] [DRV_TYPE_IO_1V8_ONLY, DRV_TYPE_IO_1V8_ONLY, DRV_TYPE_IO_DEFAULT, DRV_TYPE_IO_DEFAULT] [0x80, 0x88, - 1, - 1] [PULL_TYPE_IO_1V8_ONLY, PULL_TYPE_IO_1V8_ONLY, PULL_TYPE_IO_DEFAULT, PULL_TYPE_IO_DEFAULT],
      PIN_BANK_IOMUX_DRV_FLAGS_OFFSET 1 32 ''gpio1'' [IOMUX_SOURCE_PMU, IOMUX_SOURCE_PMU, IOMUX_SOURCE_PMU, IOMUX_SOURCE_PMU] [DRV_TYPE_IO_1V8_OR_3V0, DRV_TYPE_IO_1V8_OR_3V0, DRV_TYPE_IO_1V8_OR_3V0, DRV_TYPE_IO_1V8_OR_3V0] [0xa0, 0xa8, 0xb0, 0xb8],
      PIN_BANK_DRV_FLAGS_PULL_FLAGS 2 32 ''gpio2'' [DRV_TYPE_IO_1V8_OR_3V0, DRV_TYPE_IO_1V8_OR_3V0, DRV_TYPE_IO_1V8_ONLY, DRV_TYPE_IO_1V8_ONLY] [PULL_TYPE_IO_DEFAULT, PULL_TYPE_IO_DEFAULT, PULL_TYPE_IO_1V8_ONLY, PULL_TYPE_IO_1V8_ONLY],
      PIN_BANK_DRV_FLAGS 3 32 ''gpio3'' [DRV_TYPE_IO_3V3_ONLY, DRV_TYPE_IO_3V3_ONLY, DRV_TYPE_IO_3V3_ONLY, DRV_TYPE_IO_1V8_OR_3V0],
      PIN_BANK_DRV_FLAGS 4 32 ''gpio4'' [DRV_TYPE_IO_1V8_OR_3V0, DRV_TYPE_IO_1V8_3V0_AUTO, DRV_TYPE_IO_1V8_OR_3V0, DRV_TYPE_IO_1V8_OR_3V0]]"

definition rk3568_pin_banks :: "rockchip_pin_bank list" where
  "rk3568_pin_banks =
     [PIN_BANK_IOMUX_FLAGS 0 32 ''gpio0'' [IOMUX_SOURCE_PMU OR IOMUX_WIDTH_4BIT, IOMUX_SOURCE_PMU OR IOMUX_WIDTH_4BIT, IOMUX_SOURCE_PMU OR IOMUX_WIDTH_4BIT, IOMUX_SOURCE_PMU OR IOMUX_WIDTH_4BIT],
      PIN_BANK_IOMUX_FLAGS 1 32 ''gpio1'' [IOMUX_WIDTH_4BIT, IOMUX_WIDTH_4BIT, IOMUX_WIDTH_4BIT, IOMUX_WIDTH_4BIT],
      PIN_BANK_IOMUX_FLAGS 2 32 ''gpio2'' [IOMUX_WIDTH_4BIT, IOMUX_WIDTH_4BIT, IOMUX_WIDTH_4BIT, IOMUX_WIDTH_4BIT],
      PIN_BANK_IOMUX_FLAGS 3 32 ''gpio3'' [IOMUX_WIDTH_4BIT, IOMUX_WIDTH_4BIT, IOMUX_WIDTH_4BIT, IOMUX_WIDTH_4BIT],
      PIN_BANK_IOMUX_FLAGS 4 32 ''gpio4'' [IOMUX_WIDTH_4BIT, IOMUX_WIDTH_4BIT, IOMUX_WIDTH_4BIT, IOMUX_WIDTH_4BIT]]"

section \<open>Pins with an iomux of their own\<close>

definition recalced :: "int \<Rightarrow> int \<Rightarrow> int \<Rightarrow> int \<Rightarrow> int \<Rightarrow> rockchip_mux_recalced_data" where
  "recalced num pin reg bt msk = \<lparr>rc_num = num, rc_pin = pin, rc_reg = reg, rc_bit = bt, rc_mask = msk\<rparr>"

definition rv1108_mux_recalced_data :: "rockchip_mux_recalced_data list" where
  "rv1108_mux_recalced_data =
     [recalced 1 0 0x418 0 0x3,
      recalced 1 1 0x418 2 0x3,
      recalced 1 2 0x418 4 0x3,
      recalced 1 3 0x418 6 0x3,
      recalced 1 4 0x418 8 0x3,
      recalced 1 5 0x418 10 0x3,
      recalced 1 6 0x418 12 0x3,
      recalced 1 7 0x418 14 0x3,
      recalced 1 8 0x41c 0 0x3,
      recalced 1 9 0x41c 2 0x3]"

definition rv1126_mux_recalced_data :: "rockchip_mux_recalced_data list" where
  "rv1126_mux_recalced_data =
     [recalced 0 20 0x10000 0 0xf,
      recalced 0 21 0x10000 4 0xf,
      recalced 0 22 0x10000 8 0xf,
      recalced 0 23 0x10000 12 0xf]"

definition rk3128_mux_recalced_data :: "rockchip_mux_recalced_data list" where
  "rk3128_mux_recalced_data =
     [recalced 2 20 0xe8 0 0x7,
      recalced 2 21 0xe8 4 0x7,
      recalced 2 22 0xe8 8 0x7,
      recalced 2 23 0xe8 12 0x7,
      recalced 2 24 0xd4 12 0x7]"

definition rk3308_mux_recalced_data :: "rockchip_mux_recalced_data list" where
  "rk3308_mux_recalced_data =
     [recalced 1 14 0x28 12 0xf,
      recalced 1 15 0x2c 0 0x3,
      recalced 1 18 0x30 4 0xf,
      recalced 1 19 0x30 8 0xf,
      recalced 1 20 0x30 12 0xf,
      recalced 1 21 0x34 0 0xf,
      recalced 1 22 0x34 4 0xf,
      recalced 1 23 0x34 8 0xf,
      recalced 3 12 0x68 8 0xf,
      recalced 3 13 0x68 12 0xf,
      recalced 2 2 0x608 0 0x7,
      recalced 2 3 0x608 4 0x7,
      recalced 2 16 0x610 8 0x7,
      recalced 3 10 0x610 0 0x7,
      recalced 3 11 0x610 4 0x7]"

definition rk3328_mux_recalced_data :: "rockchip_mux_recalced_data list" where
  "rk3328_mux_recalced_data =
     [recalced 2 8 0x24 0 0x3,
      recalced 2 9 0x24 2 0x3,
      recalced 2 10 0x24 4 0x3,
      recalced 2 11 0x24 6 0x3,
      recalced 2 12 0x24 8 0x3,
      recalced 2 13 0x24 10 0x3,
      recalced 2 14 0x24 12 0x3,
      recalced 2 15 0x28 0 0x7,
      recalced 2 23 0x30 14 0x3]"

section \<open>Routes\<close>

text \<open>
  The numbers of the pins of a bank, \<open>RK_PA0\<close> to \<open>RK_PD7\<close> of \<open>dt-bindings/pinctrl/rockchip.h\<close>, are not in the tree;
  they are a parameter.
\<close>

datatype rk_port = PA | PB | PC | PD

definition WRITE_MASK_VAL :: "nat \<Rightarrow> nat \<Rightarrow> u32 \<Rightarrow> u32" where
  "WRITE_MASK_VAL h l v = GENMASK (h + 16) (l + 16) OR (push_bit l v AND GENMASK h l)"

definition PIN_BANK_MUX_ROUTE_FLAGS ::
  "int \<Rightarrow> int \<Rightarrow> int \<Rightarrow> int \<Rightarrow> u32 \<Rightarrow> rockchip_mux_route_location \<Rightarrow> rockchip_mux_route_data" where
  "PIN_BANK_MUX_ROUTE_FLAGS num pin func reg v flag = \<lparr>rt_bank_num = num, rt_pin = pin, rt_func = func,
     route_location = flag, route_offset = reg, route_val = v\<rparr>"

definition RK_MUXROUTE_SAME :: "int \<Rightarrow> int \<Rightarrow> int \<Rightarrow> int \<Rightarrow> u32 \<Rightarrow> rockchip_mux_route_data" where
  "RK_MUXROUTE_SAME num pin func reg v = PIN_BANK_MUX_ROUTE_FLAGS num pin func reg v ROCKCHIP_ROUTE_SAME"

definition RK_MUXROUTE_GRF :: "int \<Rightarrow> int \<Rightarrow> int \<Rightarrow> int \<Rightarrow> u32 \<Rightarrow> rockchip_mux_route_data" where
  "RK_MUXROUTE_GRF num pin func reg v = PIN_BANK_MUX_ROUTE_FLAGS num pin func reg v ROCKCHIP_ROUTE_GRF"

definition RK_MUXROUTE_PMU :: "int \<Rightarrow> int \<Rightarrow> int \<Rightarrow> int \<Rightarrow> u32 \<Rightarrow> rockchip_mux_route_data" where
  "RK_MUXROUTE_PMU num pin func reg v = PIN_BANK_MUX_ROUTE_FLAGS num pin func reg v ROCKCHIP_ROUTE_PMU"

definition rv1126_mux_route_data :: "(rk_port \<Rightarrow> int \<Rightarrow> int) \<Rightarrow> rockchip_mux_route_data list" where
  "rv1126_mux_route_data pno =
     [RK_MUXROUTE_GRF 3 (pno PD 2) 1 0x10260 (WRITE_MASK_VAL 0 0 0),
      RK_MUXROUTE_GRF 3 (pno PB 0) 3 0x10260 (WRITE_MASK_VAL 0 0 1),
      RK_MUXROUTE_GRF 0 (pno PD 4) 4 0x10260 (WRITE_MASK_VAL 3 2 0),
      RK_MUXROUTE_GRF 1 (pno PD 5) 2 0x10260 (WRITE_MASK_VAL 3 2 1),
      RK_MUXROUTE_GRF 2 (pno PC 7) 6 0x10260 (WRITE_MASK_VAL 3 2 2),
      RK_MUXROUTE_GRF 1 (pno PD 0) 1 0x10260 (WRITE_MASK_VAL 4 4 0),
      RK_MUXROUTE_GRF 2 (pno PB 3) 2 0x10260 (WRITE_MASK_VAL 4 4 1),
      RK_MUXROUTE_GRF 3 (pno PD 4) 2 0x10260 (WRITE_MASK_VAL 12 12 0),
      RK_MUXROUTE_GRF 3 (pno PC 0) 3 0x10260 (WRITE_MASK_VAL 12 12 1),
      RK_MUXROUTE_GRF 3 (pno PC 6) 1 0x10264 (WRITE_MASK_VAL 0 0 0),
      RK_MUXROUTE_GRF 2 (pno PD 1) 3 0x10264 (WRITE_MASK_VAL 0 0 1),
      RK_MUXROUTE_GRF 3 (pno PA 4) 5 0x10264 (WRITE_MASK_VAL 5 4 0),
      RK_MUXROUTE_GRF 2 (pno PD 4) 7 0x10264 (WRITE_MASK_VAL 5 4 1),
      RK_MUXROUTE_GRF 1 (pno PD 6) 3 0x10264 (WRITE_MASK_VAL 5 4 2),
      RK_MUXROUTE_GRF 3 (pno PA 0) 7 0x10264 (WRITE_MASK_VAL 6 6 0),
      RK_MUXROUTE_GRF 4 (pno PA 0) 4 0x10264 (WRITE_MASK_VAL 6 6 1),
      RK_MUXROUTE_GRF 2 (pno PA 5) 7 0x10264 (WRITE_MASK_VAL 9 8 0),
      RK_MUXROUTE_GRF 3 (pno PB 0) 5 0x10264 (WRITE_MASK_VAL 9 8 1),
      RK_MUXROUTE_GRF 1 (pno PD 0) 4 0x10264 (WRITE_MASK_VAL 9 8 2),
      RK_MUXROUTE_GRF 3 (pno PC 0) 5 0x10264 (WRITE_MASK_VAL 11 10 0),
      RK_MUXROUTE_GRF 1 (pno PC 6) 3 0x10264 (WRITE_MASK_VAL 11 10 1),
      RK_MUXROUTE_GRF 2 (pno PD 5) 6 0x10264 (WRITE_MASK_VAL 11 10 2),
      RK_MUXROUTE_GRF 3 (pno PC 0) 2 0x10264 (WRITE_MASK_VAL 12 12 0),
      RK_MUXROUTE_GRF 2 (pno PB 7) 2 0x10264 (WRITE_MASK_VAL 12 12 1),
      RK_MUXROUTE_GRF 3 (pno PA 1) 3 0x10264 (WRITE_MASK_VAL 13 13 0),
      RK_MUXROUTE_GRF 3 (pno PA 7) 5 0x10264 (WRITE_MASK_VAL 13 13 1),
      RK_MUXROUTE_GRF 3 (pno PA 4) 6 0x10268 (WRITE_MASK_VAL 0 0 0),
      RK_MUXROUTE_GRF 2 (pno PD 7) 5 0x10268 (WRITE_MASK_VAL 0 0 1),
      RK_MUXROUTE_GRF 3 (pno PA 5) 6 0x10268 (WRITE_MASK_VAL 2 2 0),
      RK_MUXROUTE_GRF 2 (pno PD 6) 5 0x10268 (WRITE_MASK_VAL 2 2 1),
      RK_MUXROUTE_GRF 3 (pno PA 6) 6 0x10268 (WRITE_MASK_VAL 4 4 0),
      RK_MUXROUTE_GRF 2 (pno PD 5) 5 0x10268 (WRITE_MASK_VAL 4 4 1),
      RK_MUXROUTE_GRF 3 (pno PA 7) 6 0x10268 (WRITE_MASK_VAL 6 6 0),
      RK_MUXROUTE_GRF 3 (pno PA 1) 5 0x10268 (WRITE_MASK_VAL 6 6 1),
      RK_MUXROUTE_GRF 1 (pno PA 5) 3 0x10268 (WRITE_MASK_VAL 8 8 0),
      RK_MUXROUTE_GRF 3 (pno PA 2) 1 0x10268 (WRITE_MASK_VAL 8 8 1),
      RK_MUXROUTE_GRF 3 (pno PC 6) 3 0x10268 (WRITE_MASK_VAL 11 10 0),
      RK_MUXROUTE_GRF 1 (pno PA 7) 2 0x10268 (WRITE_MASK_VAL 11 10 1),
      RK_MUXROUTE_GRF 3 (pno PA 0) 4 0x10268 (WRITE_MASK_VAL 11 10 2),
      RK_MUXROUTE_GRF 3 (pno PA 4) 4 0x10268 (WRITE_MASK_VAL 13 12 0),
      RK_MUXROUTE_GRF 2 (pno PA 6) 4 0x10268 (WRITE_MASK_VAL 13 12 1),
      RK_MUXROUTE_GRF 1 (pno PD 5) 3 0x10268 (WRITE_MASK_VAL 13 12 2),
      RK_MUXROUTE_GRF 3 (pno PA 6) 4 0x10268 (WRITE_MASK_VAL 15 14 0),
      RK_MUXROUTE_GRF 2 (pno PB 0) 4 0x10268 (WRITE_MASK_VAL 15 14 1),
      RK_MUXROUTE_GRF 2 (pno PA 0) 3 0x10268 (WRITE_MASK_VAL 15 14 2),
      RK_MUXROUTE_PMU 0 (pno PB 6) 3 0x114 (WRITE_MASK_VAL 0 0 0),
      RK_MUXROUTE_PMU 2 (pno PB 3) 5 0x114 (WRITE_MASK_VAL 0 0 1),
      RK_MUXROUTE_PMU 0 (pno PB 7) 3 0x114 (WRITE_MASK_VAL 2 2 0),
      RK_MUXROUTE_PMU 2 (pno PB 2) 5 0x114 (WRITE_MASK_VAL 2 2 1),
      RK_MUXROUTE_PMU 0 (pno PC 0) 3 0x114 (WRITE_MASK_VAL 4 4 0),
      RK_MUXROUTE_PMU 2 (pno PB 1) 5 0x114 (WRITE_MASK_VAL 4 4 1),
      RK_MUXROUTE_PMU 0 (pno PC 1) 3 0x114 (WRITE_MASK_VAL 6 6 0),
      RK_MUXROUTE_PMU 2 (pno PB 0) 5 0x114 (WRITE_MASK_VAL 6 6 1),
      RK_MUXROUTE_PMU 0 (pno PC 2) 3 0x114 (WRITE_MASK_VAL 8 8 0),
      RK_MUXROUTE_PMU 2 (pno PA 7) 5 0x114 (WRITE_MASK_VAL 8 8 1),
      RK_MUXROUTE_PMU 0 (pno PC 3) 3 0x114 (WRITE_MASK_VAL 10 10 0),
      RK_MUXROUTE_PMU 2 (pno PA 6) 5 0x114 (WRITE_MASK_VAL 10 10 1),
      RK_MUXROUTE_PMU 0 (pno PB 2) 3 0x114 (WRITE_MASK_VAL 12 12 0),
      RK_MUXROUTE_PMU 2 (pno PD 4) 5 0x114 (WRITE_MASK_VAL 12 12 1),
      RK_MUXROUTE_PMU 0 (pno PB 1) 3 0x114 (WRITE_MASK_VAL 14 14 0),
      RK_MUXROUTE_PMU 3 (pno PA 0) 5 0x114 (WRITE_MASK_VAL 14 14 1),
      RK_MUXROUTE_PMU 0 (pno PB 0) 1 0x118 (WRITE_MASK_VAL 1 0 0),
      RK_MUXROUTE_PMU 2 (pno PA 1) 1 0x118 (WRITE_MASK_VAL 1 0 1),
      RK_MUXROUTE_PMU 2 (pno PB 2) 6 0x118 (WRITE_MASK_VAL 1 0 2),
      RK_MUXROUTE_PMU 0 (pno PB 6) 2 0x118 (WRITE_MASK_VAL 2 2 0),
      RK_MUXROUTE_PMU 1 (pno PD 0) 5 0x118 (WRITE_MASK_VAL 2 2 1)]"

definition rk1808_mux_route_data :: "(rk_port \<Rightarrow> int \<Rightarrow> int) \<Rightarrow> rockchip_mux_route_data list" where
  "rk1808_mux_route_data pno =
     [RK_MUXROUTE_SAME 3 (pno PB 4) 2 0x190 (BIT (16 + 3)),
      RK_MUXROUTE_SAME 1 (pno PB 5) 2 0x190 (BIT (16 + 3) OR BIT 3),
      RK_MUXROUTE_SAME 1 (pno PA 6) 2 0x190 (BIT (16 + 4)),
      RK_MUXROUTE_SAME 2 (pno PA 4) 3 0x190 (BIT (16 + 4) OR BIT 4),
      RK_MUXROUTE_SAME 4 (pno PB 7) 2 0x190 (BIT (16 + 5)),
      RK_MUXROUTE_SAME 3 (pno PD 2) 3 0x190 (BIT (16 + 5) OR BIT 5),
      RK_MUXROUTE_SAME 4 (pno PB 0) 2 0x190 (BIT (16 + 13)),
      RK_MUXROUTE_SAME 1 (pno PB 4) 3 0x190 (BIT (16 + 13) OR BIT 13),
      RK_MUXROUTE_SAME 4 (pno PA 3) 2 0x190 (BIT (16 + 14) OR BIT (16 + 15)),
      RK_MUXROUTE_SAME 2 (pno PD 1) 2 0x190 (BIT (16 + 14) OR BIT (16 + 15) OR BIT 14),
      RK_MUXROUTE_SAME 3 (pno PA 4) 2 0x190 (BIT (16 + 14) OR BIT (16 + 15) OR BIT 15)]"

definition px30_mux_route_data :: "(rk_port \<Rightarrow> int \<Rightarrow> int) \<Rightarrow> rockchip_mux_route_data list" where
  "px30_mux_route_data pno =
     [RK_MUXROUTE_SAME 2 (pno PA 0) 1 0x184 (BIT (16 + 7)),
      RK_MUXROUTE_SAME 3 (pno PA 3) 3 0x184 (BIT (16 + 7) OR BIT 7),
      RK_MUXROUTE_SAME 3 (pno PC 6) 2 0x184 (BIT (16 + 8)),
      RK_MUXROUTE_SAME 2 (pno PC 6) 1 0x184 (BIT (16 + 8) OR BIT 8),
      RK_MUXROUTE_SAME 1 (pno PD 3) 2 0x184 (BIT (16 + 10)),
      RK_MUXROUTE_SAME 2 (pno PB 6) 2 0x184 (BIT (16 + 10) OR BIT 10),
      RK_MUXROUTE_SAME 0 (pno PC 1) 2 0x184 (BIT (16 + 9)),
      RK_MUXROUTE_SAME 1 (pno PB 7) 2 0x184 (BIT (16 + 9) OR BIT 9)]"

definition rk3128_mux_route_data :: "(rk_port \<Rightarrow> int \<Rightarrow> int) \<Rightarrow> rockchip_mux_route_data list" where
  "rk3128_mux_route_data pno =
     [RK_MUXROUTE_SAME 1 (pno PB 2) 1 0x144 (BIT (16 + 3) OR BIT (16 + 4)),
      RK_MUXROUTE_SAME 1 (pno PD 3) 3 0x144 (BIT (16 + 3) OR BIT (16 + 4) OR BIT 3),
      RK_MUXROUTE_SAME 0 (pno PB 5) 2 0x144 (BIT (16 + 3) OR BIT (16 + 4) OR BIT 4),
      RK_MUXROUTE_SAME 1 (pno PA 5) 1 0x144 (BIT (16 + 5)),
      RK_MUXROUTE_SAME 0 (pno PB 6) 1 0x144 (BIT (16 + 5) OR BIT 5),
      RK_MUXROUTE_SAME 1 (pno PC 6) 2 0x144 (BIT (16 + 6)),
      RK_MUXROUTE_SAME 2 (pno PA 4) 2 0x144 (BIT (16 + 6) OR BIT 6)]"

definition rk3188_mux_route_data :: "(rk_port \<Rightarrow> int \<Rightarrow> int) \<Rightarrow> rockchip_mux_route_data list" where
  "rk3188_mux_route_data pno =
     [RK_MUXROUTE_SAME 0 (pno PD 0) 1 0xa0 (BIT (16 + 11)),
      RK_MUXROUTE_SAME 0 (pno PD 0) 2 0xa0 (BIT (16 + 11) OR BIT 11)]"

definition rk3228_mux_route_data :: "(rk_port \<Rightarrow> int \<Rightarrow> int) \<Rightarrow> rockchip_mux_route_data list" where
  "rk3228_mux_route_data pno =
     [RK_MUXROUTE_SAME 0 (pno PD 2) 1 0x50 (BIT 16),
      RK_MUXROUTE_SAME 3 (pno PC 5) 1 0x50 (BIT 16 OR BIT 0),
      RK_MUXROUTE_SAME 0 (pno PD 3) 1 0x50 (BIT (16 + 1)),
      RK_MUXROUTE_SAME 0 (pno PD 6) 2 0x50 (BIT (16 + 1) OR BIT 1),
      RK_MUXROUTE_SAME 0 (pno PD 4) 1 0x50 (BIT (16 + 2)),
      RK_MUXROUTE_SAME 1 (pno PB 4) 2 0x50 (BIT (16 + 2) OR BIT 2),
      RK_MUXROUTE_SAME 3 (pno PD 2) 1 0x50 (BIT (16 + 3)),
      RK_MUXROUTE_SAME 1 (pno PB 3) 2 0x50 (BIT (16 + 3) OR BIT 3),
      RK_MUXROUTE_SAME 1 (pno PA 1) 1 0x50 (BIT (16 + 4)),
      RK_MUXROUTE_SAME 3 (pno PA 2) 1 0x50 (BIT (16 + 4) OR BIT 4),
      RK_MUXROUTE_SAME 0 (pno PB 5) 2 0x50 (BIT (16 + 5)),
      RK_MUXROUTE_SAME 2 (pno PA 0) 2 0x50 (BIT (16 + 5) OR BIT 5),
      RK_MUXROUTE_SAME 1 (pno PC 6) 2 0x50 (BIT (16 + 7)),
      RK_MUXROUTE_SAME 2 (pno PA 4) 2 0x50 (BIT (16 + 7) OR BIT 7),
      RK_MUXROUTE_SAME 1 (pno PC 3) 2 0x50 (BIT (16 + 8)),
      RK_MUXROUTE_SAME 1 (pno PB 2) 2 0x50 (BIT (16 + 8) OR BIT 8),
      RK_MUXROUTE_SAME 1 (pno PB 2) 1 0x50 (BIT (16 + 11)),
      RK_MUXROUTE_SAME 3 (pno PB 5) 1 0x50 (BIT (16 + 11) OR BIT 11)]"

definition rk3288_mux_route_data :: "(rk_port \<Rightarrow> int \<Rightarrow> int) \<Rightarrow> rockchip_mux_route_data list" where
  "rk3288_mux_route_data pno =
     [RK_MUXROUTE_SAME 7 (pno PC 0) 2 0x264 (BIT (16 + 12) OR BIT 12),
      RK_MUXROUTE_SAME 7 (pno PC 7) 4 0x264 (BIT (16 + 12))]"

definition rk3308_mux_route_data :: "(rk_port \<Rightarrow> int \<Rightarrow> int) \<Rightarrow> rockchip_mux_route_data list" where
  "rk3308_mux_route_data pno =
     [RK_MUXROUTE_SAME 0 (pno PC 3) 1 0x314 (BIT (16 + 0) OR BIT 0),
      RK_MUXROUTE_SAME 1 (pno PC 6) 2 0x314 (BIT (16 + 2) OR BIT (16 + 3)),
      RK_MUXROUTE_SAME 4 (pno PD 2) 2 0x314 (BIT (16 + 2) OR BIT (16 + 3) OR BIT 2),
      RK_MUXROUTE_SAME 0 (pno PB 7) 2 0x608 (BIT (16 + 8) OR BIT (16 + 9)),
      RK_MUXROUTE_SAME 3 (pno PB 4) 2 0x608 (BIT (16 + 8) OR BIT (16 + 9) OR BIT 8),
      RK_MUXROUTE_SAME 2 (pno PA 0) 3 0x608 (BIT (16 + 8) OR BIT (16 + 9) OR BIT 9),
      RK_MUXROUTE_SAME 1 (pno PA 3) 2 0x308 (BIT (16 + 3)),
      RK_MUXROUTE_SAME 1 (pno PA 4) 2 0x308 (BIT (16 + 3)),
      RK_MUXROUTE_SAME 1 (pno PB 5) 2 0x308 (BIT (16 + 3) OR BIT 3),
      RK_MUXROUTE_SAME 1 (pno PB 6) 2 0x308 (BIT (16 + 3) OR BIT 3),
      RK_MUXROUTE_SAME 1 (pno PA 4) 3 0x308 (BIT (16 + 12) OR BIT (16 + 13)),
      RK_MUXROUTE_SAME 1 (pno PB 6) 4 0x308 (BIT (16 + 12) OR BIT (16 + 13) OR BIT 12),
      RK_MUXROUTE_SAME 2 (pno PA 6) 2 0x308 (BIT (16 + 12) OR BIT (16 + 13) OR BIT 13),
      RK_MUXROUTE_SAME 2 (pno PA 4) 3 0x600 (BIT (16 + 2) OR BIT 2),
      RK_MUXROUTE_SAME 3 (pno PB 2) 3 0x314 (BIT (16 + 9)),
      RK_MUXROUTE_SAME 2 (pno PA 4) 2 0x314 (BIT (16 + 9) OR BIT 9),
      RK_MUXROUTE_SAME 0 (pno PB 3) 3 0x314 (BIT (16 + 10) OR BIT (16 + 11)),
      RK_MUXROUTE_SAME 1 (pno PC 6) 7 0x314 (BIT (16 + 10) OR BIT (16 + 11) OR BIT 10),
      RK_MUXROUTE_SAME 2 (pno PA 2) 5 0x314 (BIT (16 + 10) OR BIT (16 + 11) OR BIT 11),
      RK_MUXROUTE_SAME 0 (pno PB 3) 2 0x314 (BIT (16 + 12) OR BIT (16 + 13)),
      RK_MUXROUTE_SAME 1 (pno PC 6) 5 0x314 (BIT (16 + 12) OR BIT (16 + 13) OR BIT 12),
      RK_MUXROUTE_SAME 2 (pno PA 2) 4 0x314 (BIT (16 + 12) OR BIT (16 + 13) OR BIT 13),
      RK_MUXROUTE_SAME 1 (pno PC 4) 3 0x314 (BIT (16 + 14)),
      RK_MUXROUTE_SAME 4 (pno PA 2) 2 0x314 (BIT (16 + 14) OR BIT 14),
      RK_MUXROUTE_SAME 3 (pno PB 4) 4 0x314 (BIT (16 + 15)),
      RK_MUXROUTE_SAME 0 (pno PC 1) 3 0x314 (BIT (16 + 15) OR BIT 15)]"

definition rk3328_mux_route_data :: "(rk_port \<Rightarrow> int \<Rightarrow> int) \<Rightarrow> rockchip_mux_route_data list" where
  "rk3328_mux_route_data pno =
     [RK_MUXROUTE_SAME 1 (pno PA 1) 2 0x50 (BIT 16 OR BIT (16 + 1)),
      RK_MUXROUTE_SAME 2 (pno PA 1) 1 0x50 (BIT 16 OR BIT (16 + 1) OR BIT 0),
      RK_MUXROUTE_SAME 1 (pno PB 3) 2 0x50 (BIT (16 + 2) OR BIT 2),
      RK_MUXROUTE_SAME 1 (pno PB 6) 2 0x50 (BIT (16 + 10) OR BIT 10),
      RK_MUXROUTE_SAME 2 (pno PC 3) 2 0x50 (BIT (16 + 3)),
      RK_MUXROUTE_SAME 1 (pno PC 7) 3 0x50 (BIT (16 + 3) OR BIT 3),
      RK_MUXROUTE_SAME 3 (pno PA 2) 4 0x50 (BIT (16 + 4) OR BIT (16 + 5) OR BIT 5),
      RK_MUXROUTE_SAME 1 (pno PD 0) 1 0x50 (BIT (16 + 6)),
      RK_MUXROUTE_SAME 3 (pno PA 2) 6 0x50 (BIT (16 + 6) OR BIT 6),
      RK_MUXROUTE_SAME 2 (pno PC 6) 3 0x50 (BIT (16 + 7) OR BIT 7),
      RK_MUXROUTE_SAME 2 (pno PC 0) 3 0x50 (BIT (16 + 8) OR BIT 8),
      RK_MUXROUTE_SAME 2 (pno PC 0) 4 0x50 (BIT (16 + 9) OR BIT 9)]"

definition rk3399_mux_route_data :: "(rk_port \<Rightarrow> int \<Rightarrow> int) \<Rightarrow> rockchip_mux_route_data list" where
  "rk3399_mux_route_data pno =
     [RK_MUXROUTE_SAME 4 (pno PB 0) 2 0xe21c (BIT (16 + 10) OR BIT (16 + 11)),
      RK_MUXROUTE_SAME 4 (pno PC 0) 2 0xe21c (BIT (16 + 10) OR BIT (16 + 11) OR BIT 10),
      RK_MUXROUTE_SAME 4 (pno PC 3) 1 0xe21c (BIT (16 + 10) OR BIT (16 + 11) OR BIT 11),
      RK_MUXROUTE_SAME 2 (pno PD 2) 2 0xe21c (BIT (16 + 14)),
      RK_MUXROUTE_SAME 4 (pno PD 0) 1 0xe21c (BIT (16 + 14) OR BIT 14)]"

definition rk3568_mux_route_data :: "(rk_port \<Rightarrow> int \<Rightarrow> int) \<Rightarrow> rockchip_mux_route_data list" where
  "rk3568_mux_route_data pno =
     [RK_MUXROUTE_PMU 0 (pno PB 7) 1 0x110 (WRITE_MASK_VAL 1 0 0),
      RK_MUXROUTE_PMU 0 (pno PC 7) 2 0x110 (WRITE_MASK_VAL 1 0 1),
      RK_MUXROUTE_PMU 0 (pno PC 0) 1 0x110 (WRITE_MASK_VAL 3 2 0),
      RK_MUXROUTE_PMU 0 (pno PB 5) 4 0x110 (WRITE_MASK_VAL 3 2 1),
      RK_MUXROUTE_PMU 0 (pno PC 1) 1 0x110 (WRITE_MASK_VAL 5 4 0),
      RK_MUXROUTE_PMU 0 (pno PB 6) 4 0x110 (WRITE_MASK_VAL 5 4 1),
      RK_MUXROUTE_PMU 0 (pno PB 3) 2 0x300 (WRITE_MASK_VAL 0 0 0),
      RK_MUXROUTE_GRF 2 (pno PA 1) 4 0x300 (WRITE_MASK_VAL 0 0 1),
      RK_MUXROUTE_GRF 1 (pno PA 1) 3 0x300 (WRITE_MASK_VAL 2 2 0),
      RK_MUXROUTE_GRF 4 (pno PC 3) 3 0x300 (WRITE_MASK_VAL 2 2 1),
      RK_MUXROUTE_GRF 4 (pno PB 5) 3 0x300 (WRITE_MASK_VAL 4 4 0),
      RK_MUXROUTE_GRF 2 (pno PB 2) 4 0x300 (WRITE_MASK_VAL 4 4 1),
      RK_MUXROUTE_GRF 4 (pno PC 4) 1 0x300 (WRITE_MASK_VAL 6 6 0),
      RK_MUXROUTE_PMU 0 (pno PC 2) 2 0x300 (WRITE_MASK_VAL 6 6 1),
      RK_MUXROUTE_GRF 3 (pno PB 1) 3 0x300 (WRITE_MASK_VAL 8 8 0),
      RK_MUXROUTE_GRF 4 (pno PA 7) 3 0x300 (WRITE_MASK_VAL 8 8 1),
      RK_MUXROUTE_GRF 4 (pno PD 1) 1 0x300 (WRITE_MASK_VAL 10 10 0),
      RK_MUXROUTE_PMU 0 (pno PC 7) 1 0x300 (WRITE_MASK_VAL 10 10 1),
      RK_MUXROUTE_PMU 0 (pno PB 6) 1 0x300 (WRITE_MASK_VAL 14 14 0),
      RK_MUXROUTE_GRF 4 (pno PB 4) 1 0x300 (WRITE_MASK_VAL 14 14 1),
      RK_MUXROUTE_GRF 1 (pno PA 0) 1 0x304 (WRITE_MASK_VAL 0 0 0),
      RK_MUXROUTE_GRF 3 (pno PB 6) 4 0x304 (WRITE_MASK_VAL 0 0 1),
      RK_MUXROUTE_GRF 4 (pno PB 2) 1 0x304 (WRITE_MASK_VAL 2 2 0),
      RK_MUXROUTE_GRF 2 (pno PB 1) 2 0x304 (WRITE_MASK_VAL 2 2 1),
      RK_MUXROUTE_GRF 3 (pno PB 4) 4 0x304 (WRITE_MASK_VAL 4 4 0),
      RK_MUXROUTE_GRF 4 (pno PD 0) 2 0x304 (WRITE_MASK_VAL 4 4 1),
      RK_MUXROUTE_GRF 3 (pno PB 1) 5 0x304 (WRITE_MASK_VAL 14 14 0),
      RK_MUXROUTE_GRF 1 (pno PD 5) 4 0x304 (WRITE_MASK_VAL 14 14 1),
      RK_MUXROUTE_GRF 3 (pno PB 2) 5 0x308 (WRITE_MASK_VAL 0 0 0),
      RK_MUXROUTE_GRF 1 (pno PD 6) 4 0x308 (WRITE_MASK_VAL 0 0 1),
      RK_MUXROUTE_GRF 3 (pno PB 5) 5 0x308 (WRITE_MASK_VAL 2 2 0),
      RK_MUXROUTE_GRF 2 (pno PA 1) 2 0x308 (WRITE_MASK_VAL 2 2 1),
      RK_MUXROUTE_GRF 3 (pno PB 6) 5 0x308 (WRITE_MASK_VAL 4 4 0),
      RK_MUXROUTE_GRF 4 (pno PC 0) 3 0x308 (WRITE_MASK_VAL 4 4 1),
      RK_MUXROUTE_GRF 3 (pno PB 7) 2 0x308 (WRITE_MASK_VAL 6 6 0),
      RK_MUXROUTE_GRF 4 (pno PC 5) 1 0x308 (WRITE_MASK_VAL 6 6 1),
      RK_MUXROUTE_GRF 3 (pno PC 0) 2 0x308 (WRITE_MASK_VAL 8 8 0),
      RK_MUXROUTE_GRF 4 (pno PC 6) 1 0x308 (WRITE_MASK_VAL 8 8 1),
      RK_MUXROUTE_GRF 3 (pno PC 4) 1 0x308 (WRITE_MASK_VAL 10 10 0),
      RK_MUXROUTE_GRF 4 (pno PC 2) 1 0x308 (WRITE_MASK_VAL 10 10 1),
      RK_MUXROUTE_GRF 3 (pno PC 5) 1 0x308 (WRITE_MASK_VAL 12 12 0),
      RK_MUXROUTE_GRF 4 (pno PC 3) 1 0x308 (WRITE_MASK_VAL 12 12 1),
      RK_MUXROUTE_GRF 3 (pno PD 2) 3 0x308 (WRITE_MASK_VAL 14 14 0),
      RK_MUXROUTE_GRF 3 (pno PA 5) 5 0x308 (WRITE_MASK_VAL 14 14 1),
      RK_MUXROUTE_PMU 0 (pno PB 5) 2 0x30c (WRITE_MASK_VAL 0 0 0),
      RK_MUXROUTE_GRF 2 (pno PD 3) 3 0x30c (WRITE_MASK_VAL 0 0 1),
      RK_MUXROUTE_GRF 2 (pno PB 5) 3 0x30c (WRITE_MASK_VAL 2 2 0),
      RK_MUXROUTE_GRF 3 (pno PC 3) 3 0x30c (WRITE_MASK_VAL 2 2 1),
      RK_MUXROUTE_GRF 2 (pno PC 1) 4 0x30c (WRITE_MASK_VAL 4 4 0),
      RK_MUXROUTE_GRF 3 (pno PA 0) 3 0x30c (WRITE_MASK_VAL 4 4 1),
      RK_MUXROUTE_GRF 4 (pno PB 3) 4 0x30c (WRITE_MASK_VAL 6 6 0),
      RK_MUXROUTE_GRF 4 (pno PC 2) 2 0x30c (WRITE_MASK_VAL 6 6 1),
      RK_MUXROUTE_GRF 2 (pno PB 4) 2 0x30c (WRITE_MASK_VAL 8 8 0),
      RK_MUXROUTE_GRF 3 (pno PD 6) 4 0x30c (WRITE_MASK_VAL 8 8 1),
      RK_MUXROUTE_PMU 0 (pno PD 1) 1 0x30c (WRITE_MASK_VAL 10 10 0),
      RK_MUXROUTE_GRF 1 (pno PD 5) 2 0x30c (WRITE_MASK_VAL 10 10 1),
      RK_MUXROUTE_GRF 1 (pno PA 1) 2 0x30c (WRITE_MASK_VAL 12 12 0),
      RK_MUXROUTE_GRF 3 (pno PB 7) 4 0x30c (WRITE_MASK_VAL 12 12 1),
      RK_MUXROUTE_GRF 1 (pno PA 6) 2 0x30c (WRITE_MASK_VAL 14 14 0),
      RK_MUXROUTE_GRF 3 (pno PB 2) 4 0x30c (WRITE_MASK_VAL 14 14 1),
      RK_MUXROUTE_GRF 2 (pno PA 2) 3 0x310 (WRITE_MASK_VAL 0 0 0),
      RK_MUXROUTE_GRF 3 (pno PC 2) 4 0x310 (WRITE_MASK_VAL 0 0 1),
      RK_MUXROUTE_GRF 2 (pno PA 4) 3 0x310 (WRITE_MASK_VAL 2 2 0),
      RK_MUXROUTE_GRF 1 (pno PD 5) 3 0x310 (WRITE_MASK_VAL 2 2 1),
      RK_MUXROUTE_GRF 2 (pno PA 6) 3 0x310 (WRITE_MASK_VAL 5 4 0),
      RK_MUXROUTE_GRF 3 (pno PC 4) 4 0x310 (WRITE_MASK_VAL 5 4 1),
      RK_MUXROUTE_GRF 4 (pno PA 2) 4 0x310 (WRITE_MASK_VAL 5 4 2),
      RK_MUXROUTE_GRF 2 (pno PC 5) 3 0x310 (WRITE_MASK_VAL 6 6 0),
      RK_MUXROUTE_GRF 2 (pno PD 7) 4 0x310 (WRITE_MASK_VAL 6 6 1),
      RK_MUXROUTE_GRF 2 (pno PB 0) 3 0x310 (WRITE_MASK_VAL 9 8 0),
      RK_MUXROUTE_GRF 4 (pno PC 5) 4 0x310 (WRITE_MASK_VAL 9 8 1),
      RK_MUXROUTE_GRF 4 (pno PA 4) 4 0x310 (WRITE_MASK_VAL 9 8 2),
      RK_MUXROUTE_GRF 1 (pno PA 2) 1 0x310 (WRITE_MASK_VAL 11 10 0),
      RK_MUXROUTE_GRF 3 (pno PC 6) 4 0x310 (WRITE_MASK_VAL 11 10 1),
      RK_MUXROUTE_GRF 2 (pno PD 0) 5 0x310 (WRITE_MASK_VAL 11 10 2),
      RK_MUXROUTE_GRF 2 (pno PC 1) 1 0x310 (WRITE_MASK_VAL 12 12 0),
      RK_MUXROUTE_GRF 4 (pno PB 6) 5 0x310 (WRITE_MASK_VAL 12 12 1),
      RK_MUXROUTE_GRF 3 (pno PA 2) 4 0x310 (WRITE_MASK_VAL 14 14 0),
      RK_MUXROUTE_GRF 4 (pno PC 2) 5 0x310 (WRITE_MASK_VAL 14 14 1),
      RK_MUXROUTE_GRF 1 (pno PA 4) 3 0x314 (WRITE_MASK_VAL 1 0 0),
      RK_MUXROUTE_GRF 1 (pno PA 6) 3 0x314 (WRITE_MASK_VAL 1 0 0),
      RK_MUXROUTE_GRF 3 (pno PD 6) 5 0x314 (WRITE_MASK_VAL 1 0 1),
      RK_MUXROUTE_GRF 4 (pno PA 0) 4 0x314 (WRITE_MASK_VAL 1 0 1),
      RK_MUXROUTE_GRF 3 (pno PC 4) 5 0x314 (WRITE_MASK_VAL 1 0 2),
      RK_MUXROUTE_PMU 0 (pno PA 5) 3 0x314 (WRITE_MASK_VAL 3 2 0),
      RK_MUXROUTE_GRF 2 (pno PD 0) 4 0x314 (WRITE_MASK_VAL 3 2 1),
      RK_MUXROUTE_GRF 1 (pno PB 0) 4 0x314 (WRITE_MASK_VAL 3 2 2),
      RK_MUXROUTE_PMU 0 (pno PA 4) 3 0x314 (WRITE_MASK_VAL 5 4 0),
      RK_MUXROUTE_GRF 2 (pno PD 2) 4 0x314 (WRITE_MASK_VAL 5 4 1),
      RK_MUXROUTE_GRF 1 (pno PA 5) 4 0x314 (WRITE_MASK_VAL 5 4 2),
      RK_MUXROUTE_PMU 0 (pno PA 6) 2 0x314 (WRITE_MASK_VAL 7 6 0),
      RK_MUXROUTE_GRF 2 (pno PD 4) 4 0x314 (WRITE_MASK_VAL 7 6 1),
      RK_MUXROUTE_GRF 4 (pno PC 2) 4 0x314 (WRITE_MASK_VAL 7 6 2)]"

end
