(* ===== verification/Pin_Calc.thy ===== *)
theory Pin_Calc
  imports Pin_Chips
begin

text \<open>
  Where the pull, the drive strength, the Schmitt trigger and the slew rate of a pin are set: the functions
  of \<open>pinctrl-rockchip.c\<close> that compute the register and the first bit, for every chip.
\<close>

section \<open>Offsets\<close>

definition PX30_PULL_PMU_OFFSET :: int where "PX30_PULL_PMU_OFFSET = 0x10"
definition PX30_PULL_GRF_OFFSET :: int where "PX30_PULL_GRF_OFFSET = 0x60"
definition PX30_PULL_BITS_PER_PIN :: int where "PX30_PULL_BITS_PER_PIN = 2"
definition PX30_PULL_PINS_PER_REG :: int where "PX30_PULL_PINS_PER_REG = 8"
definition PX30_PULL_BANK_STRIDE :: int where "PX30_PULL_BANK_STRIDE = 16"
definition PX30_DRV_PMU_OFFSET :: int where "PX30_DRV_PMU_OFFSET = 0x20"
definition PX30_DRV_GRF_OFFSET :: int where "PX30_DRV_GRF_OFFSET = 0xf0"
definition PX30_DRV_BITS_PER_PIN :: int where "PX30_DRV_BITS_PER_PIN = 2"
definition PX30_DRV_PINS_PER_REG :: int where "PX30_DRV_PINS_PER_REG = 8"
definition PX30_DRV_BANK_STRIDE :: int where "PX30_DRV_BANK_STRIDE = 16"
definition PX30_SCHMITT_PMU_OFFSET :: int where "PX30_SCHMITT_PMU_OFFSET = 0x38"
definition PX30_SCHMITT_GRF_OFFSET :: int where "PX30_SCHMITT_GRF_OFFSET = 0xc0"
definition PX30_SCHMITT_PINS_PER_PMU_REG :: int where "PX30_SCHMITT_PINS_PER_PMU_REG = 16"
definition PX30_SCHMITT_BANK_STRIDE :: int where "PX30_SCHMITT_BANK_STRIDE = 16"
definition PX30_SCHMITT_PINS_PER_GRF_REG :: int where "PX30_SCHMITT_PINS_PER_GRF_REG = 8"
definition RV1108_PULL_PMU_OFFSET :: int where "RV1108_PULL_PMU_OFFSET = 0x10"
definition RV1108_PULL_OFFSET :: int where "RV1108_PULL_OFFSET = 0x110"
definition RV1108_PULL_PINS_PER_REG :: int where "RV1108_PULL_PINS_PER_REG = 8"
definition RV1108_PULL_BITS_PER_PIN :: int where "RV1108_PULL_BITS_PER_PIN = 2"
definition RV1108_PULL_BANK_STRIDE :: int where "RV1108_PULL_BANK_STRIDE = 16"
definition RV1108_DRV_PMU_OFFSET :: int where "RV1108_DRV_PMU_OFFSET = 0x20"
definition RV1108_DRV_GRF_OFFSET :: int where "RV1108_DRV_GRF_OFFSET = 0x210"
definition RV1108_DRV_BITS_PER_PIN :: int where "RV1108_DRV_BITS_PER_PIN = 2"
definition RV1108_DRV_PINS_PER_REG :: int where "RV1108_DRV_PINS_PER_REG = 8"
definition RV1108_DRV_BANK_STRIDE :: int where "RV1108_DRV_BANK_STRIDE = 16"
definition RV1108_SCHMITT_PMU_OFFSET :: int where "RV1108_SCHMITT_PMU_OFFSET = 0x30"
definition RV1108_SCHMITT_GRF_OFFSET :: int where "RV1108_SCHMITT_GRF_OFFSET = 0x388"
definition RV1108_SCHMITT_BANK_STRIDE :: int where "RV1108_SCHMITT_BANK_STRIDE = 8"
definition RV1108_SCHMITT_PINS_PER_GRF_REG :: int where "RV1108_SCHMITT_PINS_PER_GRF_REG = 16"
definition RV1108_SCHMITT_PINS_PER_PMU_REG :: int where "RV1108_SCHMITT_PINS_PER_PMU_REG = 8"
definition RV1126_PULL_PMU_OFFSET :: int where "RV1126_PULL_PMU_OFFSET = 0x40"
definition RV1126_PULL_GRF_GPIO1A0_OFFSET :: int where "RV1126_PULL_GRF_GPIO1A0_OFFSET = 0x10108"
definition RV1126_PULL_PINS_PER_REG :: int where "RV1126_PULL_PINS_PER_REG = 8"
definition RV1126_PULL_BITS_PER_PIN :: int where "RV1126_PULL_BITS_PER_PIN = 2"
definition RV1126_PULL_BANK_STRIDE :: int where "RV1126_PULL_BANK_STRIDE = 16"
definition RV1126_DRV_PMU_OFFSET :: int where "RV1126_DRV_PMU_OFFSET = 0x20"
definition RV1126_DRV_GRF_GPIO1A0_OFFSET :: int where "RV1126_DRV_GRF_GPIO1A0_OFFSET = 0x10090"
definition RV1126_DRV_BITS_PER_PIN :: int where "RV1126_DRV_BITS_PER_PIN = 4"
definition RV1126_DRV_PINS_PER_REG :: int where "RV1126_DRV_PINS_PER_REG = 4"
definition RV1126_DRV_BANK_STRIDE :: int where "RV1126_DRV_BANK_STRIDE = 32"
definition RV1126_SCHMITT_PMU_OFFSET :: int where "RV1126_SCHMITT_PMU_OFFSET = 0x60"
definition RV1126_SCHMITT_GRF_GPIO1A0_OFFSET :: int where "RV1126_SCHMITT_GRF_GPIO1A0_OFFSET = 0x10188"
definition RV1126_SCHMITT_BANK_STRIDE :: int where "RV1126_SCHMITT_BANK_STRIDE = 16"
definition RV1126_SCHMITT_PINS_PER_GRF_REG :: int where "RV1126_SCHMITT_PINS_PER_GRF_REG = 8"
definition RV1126_SCHMITT_PINS_PER_PMU_REG :: int where "RV1126_SCHMITT_PINS_PER_PMU_REG = 8"
definition RK3308_SCHMITT_PINS_PER_REG :: int where "RK3308_SCHMITT_PINS_PER_REG = 8"
definition RK3308_SCHMITT_BANK_STRIDE :: int where "RK3308_SCHMITT_BANK_STRIDE = 16"
definition RK3308_SCHMITT_GRF_OFFSET :: int where "RK3308_SCHMITT_GRF_OFFSET = 0x1a0"
definition RK1808_PULL_PMU_OFFSET :: int where "RK1808_PULL_PMU_OFFSET = 0x10"
definition RK1808_PULL_GRF_OFFSET :: int where "RK1808_PULL_GRF_OFFSET = 0x80"
definition RK1808_PULL_PINS_PER_REG :: int where "RK1808_PULL_PINS_PER_REG = 8"
definition RK1808_PULL_BITS_PER_PIN :: int where "RK1808_PULL_BITS_PER_PIN = 2"
definition RK1808_PULL_BANK_STRIDE :: int where "RK1808_PULL_BANK_STRIDE = 16"
definition RK1808_DRV_PMU_OFFSET :: int where "RK1808_DRV_PMU_OFFSET = 0x20"
definition RK1808_DRV_GRF_OFFSET :: int where "RK1808_DRV_GRF_OFFSET = 0x140"
definition RK1808_DRV_BITS_PER_PIN :: int where "RK1808_DRV_BITS_PER_PIN = 2"
definition RK1808_DRV_PINS_PER_REG :: int where "RK1808_DRV_PINS_PER_REG = 8"
definition RK1808_DRV_BANK_STRIDE :: int where "RK1808_DRV_BANK_STRIDE = 16"
definition RK1808_SR_PMU_OFFSET :: int where "RK1808_SR_PMU_OFFSET = 0x0030"
definition RK1808_SR_GRF_OFFSET :: int where "RK1808_SR_GRF_OFFSET = 0x00c0"
definition RK1808_SR_BANK_STRIDE :: int where "RK1808_SR_BANK_STRIDE = 16"
definition RK1808_SR_PINS_PER_REG :: int where "RK1808_SR_PINS_PER_REG = 8"
definition RK1808_SCHMITT_PMU_OFFSET :: int where "RK1808_SCHMITT_PMU_OFFSET = 0x0040"
definition RK1808_SCHMITT_GRF_OFFSET :: int where "RK1808_SCHMITT_GRF_OFFSET = 0x0100"
definition RK1808_SCHMITT_BANK_STRIDE :: int where "RK1808_SCHMITT_BANK_STRIDE = 16"
definition RK1808_SCHMITT_PINS_PER_REG :: int where "RK1808_SCHMITT_PINS_PER_REG = 8"
definition RK2928_PULL_OFFSET :: int where "RK2928_PULL_OFFSET = 0x118"
definition RK2928_PULL_PINS_PER_REG :: int where "RK2928_PULL_PINS_PER_REG = 16"
definition RK2928_PULL_BANK_STRIDE :: int where "RK2928_PULL_BANK_STRIDE = 8"
definition RK3128_PULL_OFFSET :: int where "RK3128_PULL_OFFSET = 0x118"
definition RK3188_PULL_OFFSET :: int where "RK3188_PULL_OFFSET = 0x164"
definition RK3188_PULL_BITS_PER_PIN :: int where "RK3188_PULL_BITS_PER_PIN = 2"
definition RK3188_PULL_PINS_PER_REG :: int where "RK3188_PULL_PINS_PER_REG = 8"
definition RK3188_PULL_BANK_STRIDE :: int where "RK3188_PULL_BANK_STRIDE = 16"
definition RK3188_PULL_PMU_OFFSET :: int where "RK3188_PULL_PMU_OFFSET = 0x64"
definition RK3288_PULL_OFFSET :: int where "RK3288_PULL_OFFSET = 0x140"
definition RK3288_DRV_PMU_OFFSET :: int where "RK3288_DRV_PMU_OFFSET = 0x70"
definition RK3288_DRV_GRF_OFFSET :: int where "RK3288_DRV_GRF_OFFSET = 0x1c0"
definition RK3288_DRV_BITS_PER_PIN :: int where "RK3288_DRV_BITS_PER_PIN = 2"
definition RK3288_DRV_PINS_PER_REG :: int where "RK3288_DRV_PINS_PER_REG = 8"
definition RK3288_DRV_BANK_STRIDE :: int where "RK3288_DRV_BANK_STRIDE = 16"
definition RK3228_PULL_OFFSET :: int where "RK3228_PULL_OFFSET = 0x100"
definition RK3228_DRV_GRF_OFFSET :: int where "RK3228_DRV_GRF_OFFSET = 0x200"
definition RK3308_PULL_OFFSET :: int where "RK3308_PULL_OFFSET = 0xa0"
definition RK3308_DRV_GRF_OFFSET :: int where "RK3308_DRV_GRF_OFFSET = 0x100"
definition RK3368_PULL_GRF_OFFSET :: int where "RK3368_PULL_GRF_OFFSET = 0x100"
definition RK3368_PULL_PMU_OFFSET :: int where "RK3368_PULL_PMU_OFFSET = 0x10"
definition RK3368_DRV_PMU_OFFSET :: int where "RK3368_DRV_PMU_OFFSET = 0x20"
definition RK3368_DRV_GRF_OFFSET :: int where "RK3368_DRV_GRF_OFFSET = 0x200"
definition RK3399_PULL_GRF_OFFSET :: int where "RK3399_PULL_GRF_OFFSET = 0xe040"
definition RK3399_PULL_PMU_OFFSET :: int where "RK3399_PULL_PMU_OFFSET = 0x40"
definition RK3399_DRV_3BITS_PER_PIN :: int where "RK3399_DRV_3BITS_PER_PIN = 3"
definition RK3568_SR_PMU_OFFSET :: int where "RK3568_SR_PMU_OFFSET = 0x60"
definition RK3568_SR_GRF_OFFSET :: int where "RK3568_SR_GRF_OFFSET = 0x0180"
definition RK3568_SR_BANK_STRIDE :: int where "RK3568_SR_BANK_STRIDE = 0x10"
definition RK3568_SR_PINS_PER_REG :: int where "RK3568_SR_PINS_PER_REG = 16"
definition RK3568_PULL_PMU_OFFSET :: int where "RK3568_PULL_PMU_OFFSET = 0x20"
definition RK3568_PULL_GRF_OFFSET :: int where "RK3568_PULL_GRF_OFFSET = 0x80"
definition RK3568_PULL_BITS_PER_PIN :: int where "RK3568_PULL_BITS_PER_PIN = 2"
definition RK3568_PULL_PINS_PER_REG :: int where "RK3568_PULL_PINS_PER_REG = 8"
definition RK3568_PULL_BANK_STRIDE :: int where "RK3568_PULL_BANK_STRIDE = 0x10"
definition RK3568_DRV_PMU_OFFSET :: int where "RK3568_DRV_PMU_OFFSET = 0x70"
definition RK3568_DRV_GRF_OFFSET :: int where "RK3568_DRV_GRF_OFFSET = 0x200"
definition RK3568_DRV_BITS_PER_PIN :: int where "RK3568_DRV_BITS_PER_PIN = 8"
definition RK3568_DRV_PINS_PER_REG :: int where "RK3568_DRV_PINS_PER_REG = 2"
definition RK3568_DRV_BANK_STRIDE :: int where "RK3568_DRV_BANK_STRIDE = 0x40"
definition RK3328_SCHMITT_BITS_PER_PIN :: int where "RK3328_SCHMITT_BITS_PER_PIN = 1"
definition RK3328_SCHMITT_PINS_PER_REG :: int where "RK3328_SCHMITT_PINS_PER_REG = 16"
definition RK3328_SCHMITT_BANK_STRIDE :: int where "RK3328_SCHMITT_BANK_STRIDE = 8"
definition RK3328_SCHMITT_GRF_OFFSET :: int where "RK3328_SCHMITT_GRF_OFFSET = 0x380"
definition RK3568_SCHMITT_BITS_PER_PIN :: int where "RK3568_SCHMITT_BITS_PER_PIN = 2"
definition RK3568_SCHMITT_PINS_PER_REG :: int where "RK3568_SCHMITT_PINS_PER_REG = 8"
definition RK3568_SCHMITT_BANK_STRIDE :: int where "RK3568_SCHMITT_BANK_STRIDE = 0x10"
definition RK3568_SCHMITT_GRF_OFFSET :: int where "RK3568_SCHMITT_GRF_OFFSET = 0xc0"
definition RK3568_SCHMITT_PMUGRF_OFFSET :: int where "RK3568_SCHMITT_PMUGRF_OFFSET = 0x30"
definition PX30_SLEW_RATE_PMU_OFFSET :: int where "PX30_SLEW_RATE_PMU_OFFSET = 0x30"
definition PX30_SLEW_RATE_GRF_OFFSET :: int where "PX30_SLEW_RATE_GRF_OFFSET = 0x90"
definition PX30_SLEW_RATE_PINS_PER_PMU_REG :: int where "PX30_SLEW_RATE_PINS_PER_PMU_REG = 16"
definition PX30_SLEW_RATE_BANK_STRIDE :: int where "PX30_SLEW_RATE_BANK_STRIDE = 16"
definition PX30_SLEW_RATE_PINS_PER_GRF_REG :: int where "PX30_SLEW_RATE_PINS_PER_GRF_REG = 8"

lemmas pin_offsets = PX30_PULL_PMU_OFFSET_def PX30_PULL_GRF_OFFSET_def PX30_PULL_BITS_PER_PIN_def
  PX30_PULL_PINS_PER_REG_def PX30_PULL_BANK_STRIDE_def PX30_DRV_PMU_OFFSET_def PX30_DRV_GRF_OFFSET_def
  PX30_DRV_BITS_PER_PIN_def PX30_DRV_PINS_PER_REG_def PX30_DRV_BANK_STRIDE_def PX30_SCHMITT_PMU_OFFSET_def
  PX30_SCHMITT_GRF_OFFSET_def PX30_SCHMITT_PINS_PER_PMU_REG_def PX30_SCHMITT_BANK_STRIDE_def
  PX30_SCHMITT_PINS_PER_GRF_REG_def RV1108_PULL_PMU_OFFSET_def RV1108_PULL_OFFSET_def RV1108_PULL_PINS_PER_REG_def
  RV1108_PULL_BITS_PER_PIN_def RV1108_PULL_BANK_STRIDE_def RV1108_DRV_PMU_OFFSET_def RV1108_DRV_GRF_OFFSET_def
  RV1108_DRV_BITS_PER_PIN_def RV1108_DRV_PINS_PER_REG_def RV1108_DRV_BANK_STRIDE_def RV1108_SCHMITT_PMU_OFFSET_def
  RV1108_SCHMITT_GRF_OFFSET_def RV1108_SCHMITT_BANK_STRIDE_def RV1108_SCHMITT_PINS_PER_GRF_REG_def
  RV1108_SCHMITT_PINS_PER_PMU_REG_def RV1126_PULL_PMU_OFFSET_def RV1126_PULL_GRF_GPIO1A0_OFFSET_def
  RV1126_PULL_PINS_PER_REG_def RV1126_PULL_BITS_PER_PIN_def RV1126_PULL_BANK_STRIDE_def RV1126_DRV_PMU_OFFSET_def
  RV1126_DRV_GRF_GPIO1A0_OFFSET_def RV1126_DRV_BITS_PER_PIN_def RV1126_DRV_PINS_PER_REG_def RV1126_DRV_BANK_STRIDE_def
  RV1126_SCHMITT_PMU_OFFSET_def RV1126_SCHMITT_GRF_GPIO1A0_OFFSET_def RV1126_SCHMITT_BANK_STRIDE_def
  RV1126_SCHMITT_PINS_PER_GRF_REG_def RV1126_SCHMITT_PINS_PER_PMU_REG_def RK3308_SCHMITT_PINS_PER_REG_def
  RK3308_SCHMITT_BANK_STRIDE_def RK3308_SCHMITT_GRF_OFFSET_def RK1808_PULL_PMU_OFFSET_def RK1808_PULL_GRF_OFFSET_def
  RK1808_PULL_PINS_PER_REG_def RK1808_PULL_BITS_PER_PIN_def RK1808_PULL_BANK_STRIDE_def RK1808_DRV_PMU_OFFSET_def
  RK1808_DRV_GRF_OFFSET_def RK1808_DRV_BITS_PER_PIN_def RK1808_DRV_PINS_PER_REG_def RK1808_DRV_BANK_STRIDE_def
  RK1808_SR_PMU_OFFSET_def RK1808_SR_GRF_OFFSET_def RK1808_SR_BANK_STRIDE_def RK1808_SR_PINS_PER_REG_def
  RK1808_SCHMITT_PMU_OFFSET_def RK1808_SCHMITT_GRF_OFFSET_def RK1808_SCHMITT_BANK_STRIDE_def
  RK1808_SCHMITT_PINS_PER_REG_def RK2928_PULL_OFFSET_def RK2928_PULL_PINS_PER_REG_def RK2928_PULL_BANK_STRIDE_def
  RK3128_PULL_OFFSET_def RK3188_PULL_OFFSET_def RK3188_PULL_BITS_PER_PIN_def RK3188_PULL_PINS_PER_REG_def
  RK3188_PULL_BANK_STRIDE_def RK3188_PULL_PMU_OFFSET_def RK3288_PULL_OFFSET_def RK3288_DRV_PMU_OFFSET_def
  RK3288_DRV_GRF_OFFSET_def RK3288_DRV_BITS_PER_PIN_def RK3288_DRV_PINS_PER_REG_def RK3288_DRV_BANK_STRIDE_def
  RK3228_PULL_OFFSET_def RK3228_DRV_GRF_OFFSET_def RK3308_PULL_OFFSET_def RK3308_DRV_GRF_OFFSET_def
  RK3368_PULL_GRF_OFFSET_def RK3368_PULL_PMU_OFFSET_def RK3368_DRV_PMU_OFFSET_def RK3368_DRV_GRF_OFFSET_def
  RK3399_PULL_GRF_OFFSET_def RK3399_PULL_PMU_OFFSET_def RK3399_DRV_3BITS_PER_PIN_def RK3568_SR_PMU_OFFSET_def
  RK3568_SR_GRF_OFFSET_def RK3568_SR_BANK_STRIDE_def RK3568_SR_PINS_PER_REG_def RK3568_PULL_PMU_OFFSET_def
  RK3568_PULL_GRF_OFFSET_def RK3568_PULL_BITS_PER_PIN_def RK3568_PULL_PINS_PER_REG_def RK3568_PULL_BANK_STRIDE_def
  RK3568_DRV_PMU_OFFSET_def RK3568_DRV_GRF_OFFSET_def RK3568_DRV_BITS_PER_PIN_def RK3568_DRV_PINS_PER_REG_def
  RK3568_DRV_BANK_STRIDE_def RK3328_SCHMITT_BITS_PER_PIN_def RK3328_SCHMITT_PINS_PER_REG_def
  RK3328_SCHMITT_BANK_STRIDE_def RK3328_SCHMITT_GRF_OFFSET_def RK3568_SCHMITT_BITS_PER_PIN_def
  RK3568_SCHMITT_PINS_PER_REG_def RK3568_SCHMITT_BANK_STRIDE_def RK3568_SCHMITT_GRF_OFFSET_def
  RK3568_SCHMITT_PMUGRF_OFFSET_def PX30_SLEW_RATE_PMU_OFFSET_def PX30_SLEW_RATE_GRF_OFFSET_def
  PX30_SLEW_RATE_PINS_PER_PMU_REG_def PX30_SLEW_RATE_BANK_STRIDE_def PX30_SLEW_RATE_PINS_PER_GRF_REG_def

section \<open>Registers\<close>

text \<open>
  The register maps a controller may have, and what the functions look at: whether the optional ones are
  there, and the version of the chip. The result of a function is a map, the register and the bit in it.
\<close>

datatype pin_regmap = Regmap_base | Regmap_pmu | Regmap_pull | Bank_pull

record pinctrl_maps =
  has_pmu :: bool
  has_pull :: bool
  has_bank_pull :: bool
  cpu_version :: int

type_synonym pin_calc = "pinctrl_maps \<Rightarrow> rockchip_pin_bank \<Rightarrow> int \<Rightarrow> pin_regmap \<times> int \<times> int"

definition px30_calc_pull_reg_and_bit :: pin_calc where
  "px30_calc_pull_reg_and_bit M b pin =
     (if bank_num b = 0 then (Regmap_pmu, PX30_PULL_PMU_OFFSET + pin div PX30_PULL_PINS_PER_REG * 4, pin mod PX30_PULL_PINS_PER_REG * PX30_PULL_BITS_PER_PIN)
      else (Regmap_base, PX30_PULL_GRF_OFFSET - 0x10 + bank_num b * PX30_PULL_BANK_STRIDE + pin div PX30_PULL_PINS_PER_REG * 4, pin mod PX30_PULL_PINS_PER_REG * PX30_PULL_BITS_PER_PIN))"

definition px30_calc_drv_reg_and_bit :: pin_calc where
  "px30_calc_drv_reg_and_bit M b pin =
     (if bank_num b = 0 then (Regmap_pmu, PX30_DRV_PMU_OFFSET + pin div PX30_DRV_PINS_PER_REG * 4, pin mod PX30_DRV_PINS_PER_REG * PX30_DRV_BITS_PER_PIN)
      else (Regmap_base, PX30_DRV_GRF_OFFSET - 0x10 + bank_num b * PX30_DRV_BANK_STRIDE + pin div PX30_DRV_PINS_PER_REG * 4, pin mod PX30_DRV_PINS_PER_REG * PX30_DRV_BITS_PER_PIN))"

definition px30_calc_schmitt_reg_and_bit :: pin_calc where
  "px30_calc_schmitt_reg_and_bit M b pin =
     (if bank_num b = 0 then (Regmap_pmu, PX30_SCHMITT_PMU_OFFSET + pin div PX30_SCHMITT_PINS_PER_PMU_REG * 4, pin mod PX30_SCHMITT_PINS_PER_PMU_REG)
      else (Regmap_base, PX30_SCHMITT_GRF_OFFSET + (bank_num b - 1) * PX30_SCHMITT_BANK_STRIDE + pin div PX30_SCHMITT_PINS_PER_GRF_REG * 4, pin mod PX30_SCHMITT_PINS_PER_GRF_REG))"

definition rv1108_calc_pull_reg_and_bit :: pin_calc where
  "rv1108_calc_pull_reg_and_bit M b pin =
     (if bank_num b = 0 then (Regmap_pmu, RV1108_PULL_PMU_OFFSET + pin div RV1108_PULL_PINS_PER_REG * 4, pin mod RV1108_PULL_PINS_PER_REG * RV1108_PULL_BITS_PER_PIN)
      else (Regmap_base, RV1108_PULL_OFFSET - 0x10 + bank_num b * RV1108_PULL_BANK_STRIDE + pin div RV1108_PULL_PINS_PER_REG * 4, pin mod RV1108_PULL_PINS_PER_REG * RV1108_PULL_BITS_PER_PIN))"

definition rv1108_calc_drv_reg_and_bit :: pin_calc where
  "rv1108_calc_drv_reg_and_bit M b pin =
     (if bank_num b = 0 then (Regmap_pmu, RV1108_DRV_PMU_OFFSET + pin div RV1108_DRV_PINS_PER_REG * 4, pin mod RV1108_DRV_PINS_PER_REG * RV1108_DRV_BITS_PER_PIN)
      else (Regmap_base, RV1108_DRV_GRF_OFFSET - 0x10 + bank_num b * RV1108_DRV_BANK_STRIDE + pin div RV1108_DRV_PINS_PER_REG * 4, pin mod RV1108_DRV_PINS_PER_REG * RV1108_DRV_BITS_PER_PIN))"

definition rv1108_calc_schmitt_reg_and_bit :: pin_calc where
  "rv1108_calc_schmitt_reg_and_bit M b pin =
     (if bank_num b = 0 then (Regmap_pmu, RV1108_SCHMITT_PMU_OFFSET + pin div RV1108_SCHMITT_PINS_PER_PMU_REG * 4, pin mod RV1108_SCHMITT_PINS_PER_PMU_REG)
      else (Regmap_base, RV1108_SCHMITT_GRF_OFFSET + (bank_num b - 1) * RV1108_SCHMITT_BANK_STRIDE + pin div RV1108_SCHMITT_PINS_PER_GRF_REG * 4, pin mod RV1108_SCHMITT_PINS_PER_GRF_REG))"

definition RV1126_GPIO_C4_D7 :: "int \<Rightarrow> bool" where
  "RV1126_GPIO_C4_D7 p \<longleftrightarrow> 20 \<le> p \<and> p \<le> 31"

definition rv1126_calc_pull_reg_and_bit :: pin_calc where
  "rv1126_calc_pull_reg_and_bit M b pin =
     (if bank_num b = 0 then
        if RV1126_GPIO_C4_D7 pin
        then (Regmap_base, RV1126_PULL_GRF_GPIO1A0_OFFSET - ((31 - pin) div RV1126_PULL_PINS_PER_REG + 1) * 4, pin mod RV1126_PULL_PINS_PER_REG * RV1126_PULL_BITS_PER_PIN)
        else (Regmap_pmu, RV1126_PULL_PMU_OFFSET + pin div RV1126_PULL_PINS_PER_REG * 4, pin mod RV1126_PULL_PINS_PER_REG * RV1126_PULL_BITS_PER_PIN)
      else (Regmap_base, RV1126_PULL_GRF_GPIO1A0_OFFSET + (bank_num b - 1) * RV1126_PULL_BANK_STRIDE + pin div RV1126_PULL_PINS_PER_REG * 4,
            pin mod RV1126_PULL_PINS_PER_REG * RV1126_PULL_BITS_PER_PIN))"

definition rv1126_calc_drv_reg_and_bit :: pin_calc where
  "rv1126_calc_drv_reg_and_bit M b pin =
     (if bank_num b = 0 then
        if RV1126_GPIO_C4_D7 pin
        then (Regmap_base, RV1126_DRV_GRF_GPIO1A0_OFFSET - ((31 - pin) div RV1126_DRV_PINS_PER_REG + 1) * 4 - 0x4, pin mod RV1126_DRV_PINS_PER_REG * RV1126_DRV_BITS_PER_PIN)
        else (Regmap_pmu, RV1126_DRV_PMU_OFFSET + pin div RV1126_DRV_PINS_PER_REG * 4, pin mod RV1126_DRV_PINS_PER_REG * RV1126_DRV_BITS_PER_PIN)
      else (Regmap_base, RV1126_DRV_GRF_GPIO1A0_OFFSET + (bank_num b - 1) * RV1126_DRV_BANK_STRIDE + pin div RV1126_DRV_PINS_PER_REG * 4,
            pin mod RV1126_DRV_PINS_PER_REG * RV1126_DRV_BITS_PER_PIN))"

definition rv1126_calc_schmitt_reg_and_bit :: pin_calc where
  "rv1126_calc_schmitt_reg_and_bit M b pin =
     (if bank_num b = 0 then
        if RV1126_GPIO_C4_D7 pin
        then (Regmap_base, RV1126_SCHMITT_GRF_GPIO1A0_OFFSET - ((31 - pin) div RV1126_SCHMITT_PINS_PER_GRF_REG + 1) * 4, pin mod RV1126_SCHMITT_PINS_PER_GRF_REG)
        else (Regmap_pmu, RV1126_SCHMITT_PMU_OFFSET + pin div RV1126_SCHMITT_PINS_PER_PMU_REG * 4, pin mod RV1126_SCHMITT_PINS_PER_PMU_REG)
      else (Regmap_base, RV1126_SCHMITT_GRF_GPIO1A0_OFFSET + (bank_num b - 1) * RV1126_SCHMITT_BANK_STRIDE + pin div RV1126_SCHMITT_PINS_PER_GRF_REG * 4,
            pin mod RV1126_SCHMITT_PINS_PER_GRF_REG))"

definition rk3308_calc_schmitt_reg_and_bit :: pin_calc where
  "rk3308_calc_schmitt_reg_and_bit M b pin =
     (Regmap_base, RK3308_SCHMITT_GRF_OFFSET + bank_num b * RK3308_SCHMITT_BANK_STRIDE + pin div RK3308_SCHMITT_PINS_PER_REG * 4, pin mod RK3308_SCHMITT_PINS_PER_REG)"

definition rk1808_calc_pull_reg_and_bit :: pin_calc where
  "rk1808_calc_pull_reg_and_bit M b pin =
     (if bank_num b = 0 then (Regmap_pmu, RK1808_PULL_PMU_OFFSET + pin div RK1808_PULL_PINS_PER_REG * 4, pin mod RK1808_PULL_PINS_PER_REG * RK1808_PULL_BITS_PER_PIN)
      else (Regmap_base, RK1808_PULL_GRF_OFFSET + (bank_num b - 1) * RK1808_PULL_BANK_STRIDE + pin div RK1808_PULL_PINS_PER_REG * 4, pin mod RK1808_PULL_PINS_PER_REG * RK1808_PULL_BITS_PER_PIN))"

definition rk1808_calc_drv_reg_and_bit :: pin_calc where
  "rk1808_calc_drv_reg_and_bit M b pin =
     (if bank_num b = 0 then (Regmap_pmu, RK1808_DRV_PMU_OFFSET + pin div RK1808_DRV_PINS_PER_REG * 4, pin mod RK1808_DRV_PINS_PER_REG * RK1808_DRV_BITS_PER_PIN)
      else (Regmap_base, RK1808_DRV_GRF_OFFSET + (bank_num b - 1) * RK1808_DRV_BANK_STRIDE + pin div RK1808_DRV_PINS_PER_REG * 4, pin mod RK1808_DRV_PINS_PER_REG * RK1808_DRV_BITS_PER_PIN))"

definition rk1808_calc_slew_rate_reg_and_bit :: pin_calc where
  "rk1808_calc_slew_rate_reg_and_bit M b pin =
     (if bank_num b = 0 then (Regmap_pmu, RK1808_SR_PMU_OFFSET + pin div RK1808_SR_PINS_PER_REG * 4, pin mod RK1808_SR_PINS_PER_REG)
      else (Regmap_base, RK1808_SR_GRF_OFFSET + (bank_num b - 1) * RK1808_SR_BANK_STRIDE + pin div RK1808_SR_PINS_PER_REG * 4, pin mod RK1808_SR_PINS_PER_REG))"

definition rk1808_calc_schmitt_reg_and_bit :: pin_calc where
  "rk1808_calc_schmitt_reg_and_bit M b pin =
     (if bank_num b = 0 then (Regmap_pmu, RK1808_SCHMITT_PMU_OFFSET + pin div RK1808_SCHMITT_PINS_PER_REG * 4, pin mod RK1808_SCHMITT_PINS_PER_REG)
      else (Regmap_base, RK1808_SCHMITT_GRF_OFFSET + (bank_num b - 1) * RK1808_SCHMITT_BANK_STRIDE + pin div RK1808_SCHMITT_PINS_PER_REG * 4, pin mod RK1808_SCHMITT_PINS_PER_REG))"

definition rk2928_calc_pull_reg_and_bit :: pin_calc where
  "rk2928_calc_pull_reg_and_bit M b pin =
     (Regmap_base, RK2928_PULL_OFFSET + bank_num b * RK2928_PULL_BANK_STRIDE + pin div RK2928_PULL_PINS_PER_REG * 4, pin mod RK2928_PULL_PINS_PER_REG)"

definition rk3128_calc_pull_reg_and_bit :: pin_calc where
  "rk3128_calc_pull_reg_and_bit M b pin =
     (Regmap_base, RK3128_PULL_OFFSET + bank_num b * RK2928_PULL_BANK_STRIDE + pin div RK2928_PULL_PINS_PER_REG * 4, pin mod RK2928_PULL_PINS_PER_REG)"

text \<open>The first twelve pins of the RK3188 are elsewhere; the other registers are in inverse order.\<close>

definition rk3188_calc_pull_reg_and_bit :: pin_calc where
  "rk3188_calc_pull_reg_and_bit M b pin =
     (if bank_num b = 0 \<and> pin < 12
      then (if has_pmu M then Regmap_pmu else Bank_pull,
            (if has_pmu M then RK3188_PULL_PMU_OFFSET else 0) + pin div RK3188_PULL_PINS_PER_REG * 4,
            pin mod RK3188_PULL_PINS_PER_REG * RK3188_PULL_BITS_PER_PIN)
      else (if has_pull M then Regmap_pull else Regmap_base,
            (if has_pull M then 0 else RK3188_PULL_OFFSET) - 4 + bank_num b * RK3188_PULL_BANK_STRIDE
              + pin div RK3188_PULL_PINS_PER_REG * 4,
            (7 - pin mod RK3188_PULL_PINS_PER_REG) * RK3188_PULL_BITS_PER_PIN))"

definition rk3288_calc_pull_reg_and_bit :: pin_calc where
  "rk3288_calc_pull_reg_and_bit M b pin =
     (if bank_num b = 0 then (Regmap_pmu, RK3188_PULL_PMU_OFFSET + pin div RK3188_PULL_PINS_PER_REG * 4, pin mod RK3188_PULL_PINS_PER_REG * RK3188_PULL_BITS_PER_PIN)
      else (Regmap_base, RK3288_PULL_OFFSET - 0x10 + bank_num b * RK3188_PULL_BANK_STRIDE + pin div RK3188_PULL_PINS_PER_REG * 4, pin mod RK3188_PULL_PINS_PER_REG * RK3188_PULL_BITS_PER_PIN))"

definition rk3288_calc_drv_reg_and_bit :: pin_calc where
  "rk3288_calc_drv_reg_and_bit M b pin =
     (if bank_num b = 0 then (Regmap_pmu, RK3288_DRV_PMU_OFFSET + pin div RK3288_DRV_PINS_PER_REG * 4, pin mod RK3288_DRV_PINS_PER_REG * RK3288_DRV_BITS_PER_PIN)
      else (Regmap_base, RK3288_DRV_GRF_OFFSET - 0x10 + bank_num b * RK3288_DRV_BANK_STRIDE + pin div RK3288_DRV_PINS_PER_REG * 4, pin mod RK3288_DRV_PINS_PER_REG * RK3288_DRV_BITS_PER_PIN))"

definition rk3228_calc_pull_reg_and_bit :: pin_calc where
  "rk3228_calc_pull_reg_and_bit M b pin =
     (Regmap_base, RK3228_PULL_OFFSET + bank_num b * RK3188_PULL_BANK_STRIDE + pin div RK3188_PULL_PINS_PER_REG * 4, pin mod RK3188_PULL_PINS_PER_REG * RK3188_PULL_BITS_PER_PIN)"

definition rk3228_calc_drv_reg_and_bit :: pin_calc where
  "rk3228_calc_drv_reg_and_bit M b pin =
     (Regmap_base, RK3228_DRV_GRF_OFFSET + bank_num b * RK3288_DRV_BANK_STRIDE + pin div RK3288_DRV_PINS_PER_REG * 4, pin mod RK3288_DRV_PINS_PER_REG * RK3288_DRV_BITS_PER_PIN)"

definition rk3308_calc_pull_reg_and_bit :: pin_calc where
  "rk3308_calc_pull_reg_and_bit M b pin =
     (Regmap_base, RK3308_PULL_OFFSET + bank_num b * RK3188_PULL_BANK_STRIDE + pin div RK3188_PULL_PINS_PER_REG * 4, pin mod RK3188_PULL_PINS_PER_REG * RK3188_PULL_BITS_PER_PIN)"

definition rk3308_calc_drv_reg_and_bit :: pin_calc where
  "rk3308_calc_drv_reg_and_bit M b pin =
     (Regmap_base, RK3308_DRV_GRF_OFFSET + bank_num b * RK3288_DRV_BANK_STRIDE + pin div RK3288_DRV_PINS_PER_REG * 4, pin mod RK3288_DRV_PINS_PER_REG * RK3288_DRV_BITS_PER_PIN)"

definition rk3368_calc_pull_reg_and_bit :: pin_calc where
  "rk3368_calc_pull_reg_and_bit M b pin =
     (if bank_num b = 0 then (Regmap_pmu, RK3368_PULL_PMU_OFFSET + pin div RK3188_PULL_PINS_PER_REG * 4, pin mod RK3188_PULL_PINS_PER_REG * RK3188_PULL_BITS_PER_PIN)
      else (Regmap_base, RK3368_PULL_GRF_OFFSET - 0x10 + bank_num b * RK3188_PULL_BANK_STRIDE + pin div RK3188_PULL_PINS_PER_REG * 4, pin mod RK3188_PULL_PINS_PER_REG * RK3188_PULL_BITS_PER_PIN))"

definition rk3368_calc_drv_reg_and_bit :: pin_calc where
  "rk3368_calc_drv_reg_and_bit M b pin =
     (if bank_num b = 0 then (Regmap_pmu, RK3368_DRV_PMU_OFFSET + pin div RK3288_DRV_PINS_PER_REG * 4, pin mod RK3288_DRV_PINS_PER_REG * RK3288_DRV_BITS_PER_PIN)
      else (Regmap_base, RK3368_DRV_GRF_OFFSET - 0x10 + bank_num b * RK3288_DRV_BANK_STRIDE + pin div RK3288_DRV_PINS_PER_REG * 4, pin mod RK3288_DRV_PINS_PER_REG * RK3288_DRV_BITS_PER_PIN))"

definition rk3399_calc_pull_reg_and_bit :: pin_calc where
  "rk3399_calc_pull_reg_and_bit M b pin =
     (if bank_num b = 0 \<or> bank_num b = 1
      then (Regmap_pmu, RK3399_PULL_PMU_OFFSET + bank_num b * RK3188_PULL_BANK_STRIDE + pin div RK3188_PULL_PINS_PER_REG * 4,
            pin mod RK3188_PULL_PINS_PER_REG * RK3188_PULL_BITS_PER_PIN)
      else (Regmap_base, RK3399_PULL_GRF_OFFSET - 0x20 + bank_num b * RK3188_PULL_BANK_STRIDE + pin div RK3188_PULL_PINS_PER_REG * 4,
            pin mod RK3188_PULL_PINS_PER_REG * RK3188_PULL_BITS_PER_PIN))"

text \<open>On the RK3399 the registers of the drive strength are those of the bank.\<close>

definition rk3399_calc_drv_reg_and_bit :: pin_calc where
  "rk3399_calc_drv_reg_and_bit M b pin =
     (let d = drv b ! nat (pin div 8) in
      (if bank_num b = 0 \<or> bank_num b = 1 then Regmap_pmu else Regmap_base,
       drv_offset d,
       if drv_type d = DRV_TYPE_IO_1V8_3V0_AUTO \<or> drv_type d = DRV_TYPE_IO_3V3_ONLY then pin mod 8 * 3 else pin mod 8 * 2))"

definition rk3568_calc_slew_rate_reg_and_bit :: pin_calc where
  "rk3568_calc_slew_rate_reg_and_bit M b pin =
     (if bank_num b = 0 then (Regmap_pmu, RK3568_SR_PMU_OFFSET + pin div RK3568_SR_PINS_PER_REG * 4, pin mod RK3568_SR_PINS_PER_REG)
      else (Regmap_base, RK3568_SR_GRF_OFFSET + (bank_num b - 1) * RK3568_SR_BANK_STRIDE + pin div RK3568_SR_PINS_PER_REG * 4, pin mod RK3568_SR_PINS_PER_REG))"

definition rk3568_calc_pull_reg_and_bit :: pin_calc where
  "rk3568_calc_pull_reg_and_bit M b pin =
     (if bank_num b = 0 then (Regmap_pmu, RK3568_PULL_PMU_OFFSET + bank_num b * RK3568_PULL_BANK_STRIDE + pin div RK3568_PULL_PINS_PER_REG * 4, pin mod RK3568_PULL_PINS_PER_REG * RK3568_PULL_BITS_PER_PIN)
      else (Regmap_base, RK3568_PULL_GRF_OFFSET + (bank_num b - 1) * RK3568_PULL_BANK_STRIDE + pin div RK3568_PULL_PINS_PER_REG * 4, pin mod RK3568_PULL_PINS_PER_REG * RK3568_PULL_BITS_PER_PIN))"

text \<open>In the first version of the RK3568 some pins use the bits of their neighbour.\<close>

definition rk3568_shared_drv :: "rockchip_pin_bank \<Rightarrow> int \<Rightarrow> bool" where
  "rk3568_shared_drv b pin \<longleftrightarrow> bank_num b = 1 \<and> pin \<in> {15, 23, 31} \<or> bank_num b \<in> {2, 3, 4} \<and> pin \<in> {7, 15, 23, 31}"

definition rk3568_calc_drv_reg_and_bit :: pin_calc where
  "rk3568_calc_drv_reg_and_bit M b pin =
     (let (rm, reg) = (if bank_num b = 0 then (Regmap_pmu, RK3568_DRV_PMU_OFFSET)
            else (Regmap_base, RK3568_DRV_GRF_OFFSET + (bank_num b - 1) * RK3568_DRV_BANK_STRIDE));
          bt = pin mod RK3568_DRV_PINS_PER_REG * RK3568_DRV_BITS_PER_PIN
      in (rm, reg + pin div RK3568_DRV_PINS_PER_REG * 4,
          if cpu_version M = 0 \<and> rk3568_shared_drv b pin then bt - RK3568_DRV_BITS_PER_PIN else bt))"

definition rk3328_calc_schmitt_reg_and_bit :: pin_calc where
  "rk3328_calc_schmitt_reg_and_bit M b pin =
     (Regmap_base, RK3328_SCHMITT_GRF_OFFSET + bank_num b * RK3328_SCHMITT_BANK_STRIDE + pin div RK3328_SCHMITT_PINS_PER_REG * 4, pin mod RK3328_SCHMITT_PINS_PER_REG)"

definition rk3568_calc_schmitt_reg_and_bit :: pin_calc where
  "rk3568_calc_schmitt_reg_and_bit M b pin =
     (if bank_num b = 0 then (Regmap_pmu, RK3568_SCHMITT_PMUGRF_OFFSET + pin div RK3568_SCHMITT_PINS_PER_REG * 4, pin mod RK3568_SCHMITT_PINS_PER_REG * RK3568_SCHMITT_BITS_PER_PIN)
      else (Regmap_base, RK3568_SCHMITT_GRF_OFFSET + (bank_num b - 1) * RK3568_SCHMITT_BANK_STRIDE + pin div RK3568_SCHMITT_PINS_PER_REG * 4, pin mod RK3568_SCHMITT_PINS_PER_REG * RK3568_SCHMITT_BITS_PER_PIN))"

definition px30_calc_slew_rate_reg_and_bit :: pin_calc where
  "px30_calc_slew_rate_reg_and_bit M b pin =
     (if bank_num b = 0 then (Regmap_pmu, PX30_SLEW_RATE_PMU_OFFSET + pin div PX30_SLEW_RATE_PINS_PER_PMU_REG * 4, pin mod PX30_SLEW_RATE_PINS_PER_PMU_REG)
      else (Regmap_base, PX30_SLEW_RATE_GRF_OFFSET + (bank_num b - 1) * PX30_SLEW_RATE_BANK_STRIDE + pin div PX30_SLEW_RATE_PINS_PER_GRF_REG * 4, pin mod PX30_SLEW_RATE_PINS_PER_GRF_REG))"

lemmas pin_calcs = px30_calc_pull_reg_and_bit_def px30_calc_drv_reg_and_bit_def px30_calc_schmitt_reg_and_bit_def
  rv1108_calc_pull_reg_and_bit_def rv1108_calc_drv_reg_and_bit_def rv1108_calc_schmitt_reg_and_bit_def
  rv1126_calc_pull_reg_and_bit_def rv1126_calc_drv_reg_and_bit_def rv1126_calc_schmitt_reg_and_bit_def
  rk3308_calc_schmitt_reg_and_bit_def rk1808_calc_pull_reg_and_bit_def rk1808_calc_drv_reg_and_bit_def
  rk1808_calc_slew_rate_reg_and_bit_def rk1808_calc_schmitt_reg_and_bit_def rk2928_calc_pull_reg_and_bit_def
  rk3128_calc_pull_reg_and_bit_def rk3188_calc_pull_reg_and_bit_def rk3288_calc_pull_reg_and_bit_def
  rk3288_calc_drv_reg_and_bit_def rk3228_calc_pull_reg_and_bit_def rk3228_calc_drv_reg_and_bit_def
  rk3308_calc_pull_reg_and_bit_def rk3308_calc_drv_reg_and_bit_def rk3368_calc_pull_reg_and_bit_def
  rk3368_calc_drv_reg_and_bit_def rk3399_calc_pull_reg_and_bit_def rk3399_calc_drv_reg_and_bit_def
  rk3568_calc_slew_rate_reg_and_bit_def rk3568_calc_pull_reg_and_bit_def rk3568_calc_drv_reg_and_bit_def
  rk3328_calc_schmitt_reg_and_bit_def rk3568_calc_schmitt_reg_and_bit_def px30_calc_slew_rate_reg_and_bit_def

end
