(* ===== verification/Pin_Soc.thy ===== *)
theory Pin_Soc
  imports Pin_Calc
begin

text \<open>
  The controllers of the chips, and \<open>rockchip_pinctrl_get_soc_data\<close>, which gives the banks their first pin, the
  offsets of their registers and the masks of their special pins.
\<close>

section \<open>Controllers\<close>

text \<open>\<open>nr_pins_all\<close> is the \<open>nr_pins\<close> of the controller; the initialisation of the SoC is that of the RK3308.\<close>

record rockchip_pin_ctrl =
  pin_banks :: "rockchip_pin_bank list"
  nr_pins_all :: int
  ctrl_label :: string
  ctrl_type :: rockchip_pinctrl_type
  grf_mux_offset :: int
  pmu_mux_offset :: int
  grf_drv_offset :: int
  pmu_drv_offset :: int
  iomux_recalced :: "rockchip_mux_recalced_data list"
  iomux_routes :: "rockchip_mux_route_data list"
  soc_data_init :: bool
  pull_calc_reg :: "pin_calc option"
  drv_calc_reg :: "pin_calc option"
  schmitt_calc_reg :: "pin_calc option"
  slew_rate_calc_reg :: "pin_calc option"

definition px30_pin_ctrl :: "(rk_port \<Rightarrow> int \<Rightarrow> int) \<Rightarrow> rockchip_pin_ctrl" where
  "px30_pin_ctrl pno = \<lparr>pin_banks = px30_pin_banks, nr_pins_all = 0, ctrl_label = ''PX30-GPIO'', ctrl_type = PX30, grf_mux_offset = 0x0, pmu_mux_offset = 0x0,
     grf_drv_offset = 0x0, pmu_drv_offset = 0x0, iomux_recalced = [], iomux_routes = px30_mux_route_data pno,
     soc_data_init = False, pull_calc_reg = Some px30_calc_pull_reg_and_bit, drv_calc_reg = Some px30_calc_drv_reg_and_bit,
     schmitt_calc_reg = Some px30_calc_schmitt_reg_and_bit, slew_rate_calc_reg = Some px30_calc_slew_rate_reg_and_bit\<rparr>"

definition rv1108_pin_ctrl :: "(rk_port \<Rightarrow> int \<Rightarrow> int) \<Rightarrow> rockchip_pin_ctrl" where
  "rv1108_pin_ctrl pno = \<lparr>pin_banks = rv1108_pin_banks, nr_pins_all = 0, ctrl_label = ''RV1108-GPIO'', ctrl_type = RV1108, grf_mux_offset = 0x10, pmu_mux_offset = 0x0,
     grf_drv_offset = 0x0, pmu_drv_offset = 0x0, iomux_recalced = rv1108_mux_recalced_data, iomux_routes = [],
     soc_data_init = False, pull_calc_reg = Some rv1108_calc_pull_reg_and_bit, drv_calc_reg = Some rv1108_calc_drv_reg_and_bit,
     schmitt_calc_reg = Some rv1108_calc_schmitt_reg_and_bit, slew_rate_calc_reg = None\<rparr>"

definition rv1126_pin_ctrl :: "(rk_port \<Rightarrow> int \<Rightarrow> int) \<Rightarrow> rockchip_pin_ctrl" where
  "rv1126_pin_ctrl pno = \<lparr>pin_banks = rv1126_pin_banks, nr_pins_all = 0, ctrl_label = ''RV1126-GPIO'', ctrl_type = RV1126, grf_mux_offset = 0x10004, pmu_mux_offset = 0x0,
     grf_drv_offset = 0x0, pmu_drv_offset = 0x0, iomux_recalced = rv1126_mux_recalced_data, iomux_routes = rv1126_mux_route_data pno,
     soc_data_init = False, pull_calc_reg = Some rv1126_calc_pull_reg_and_bit, drv_calc_reg = Some rv1126_calc_drv_reg_and_bit,
     schmitt_calc_reg = Some rv1126_calc_schmitt_reg_and_bit, slew_rate_calc_reg = None\<rparr>"

definition rk1808_pin_ctrl :: "(rk_port \<Rightarrow> int \<Rightarrow> int) \<Rightarrow> rockchip_pin_ctrl" where
  "rk1808_pin_ctrl pno = \<lparr>pin_banks = rk1808_pin_banks, nr_pins_all = 0, ctrl_label = ''RK1808-GPIO'', ctrl_type = RK1808, grf_mux_offset = 0x0, pmu_mux_offset = 0x0,
     grf_drv_offset = 0x0, pmu_drv_offset = 0x0, iomux_recalced = [], iomux_routes = rk1808_mux_route_data pno,
     soc_data_init = False, pull_calc_reg = Some rk1808_calc_pull_reg_and_bit, drv_calc_reg = Some rk1808_calc_drv_reg_and_bit,
     schmitt_calc_reg = Some rk1808_calc_schmitt_reg_and_bit, slew_rate_calc_reg = Some rk1808_calc_slew_rate_reg_and_bit\<rparr>"

definition rk2928_pin_ctrl :: "(rk_port \<Rightarrow> int \<Rightarrow> int) \<Rightarrow> rockchip_pin_ctrl" where
  "rk2928_pin_ctrl pno = \<lparr>pin_banks = rk2928_pin_banks, nr_pins_all = 0, ctrl_label = ''RK2928-GPIO'', ctrl_type = RK2928, grf_mux_offset = 0xa8, pmu_mux_offset = 0x0,
     grf_drv_offset = 0x0, pmu_drv_offset = 0x0, iomux_recalced = [], iomux_routes = [],
     soc_data_init = False, pull_calc_reg = Some rk2928_calc_pull_reg_and_bit, drv_calc_reg = None,
     schmitt_calc_reg = None, slew_rate_calc_reg = None\<rparr>"

definition rk3036_pin_ctrl :: "(rk_port \<Rightarrow> int \<Rightarrow> int) \<Rightarrow> rockchip_pin_ctrl" where
  "rk3036_pin_ctrl pno = \<lparr>pin_banks = rk3036_pin_banks, nr_pins_all = 0, ctrl_label = ''RK3036-GPIO'', ctrl_type = RK2928, grf_mux_offset = 0xa8, pmu_mux_offset = 0x0,
     grf_drv_offset = 0x0, pmu_drv_offset = 0x0, iomux_recalced = [], iomux_routes = [],
     soc_data_init = False, pull_calc_reg = Some rk2928_calc_pull_reg_and_bit, drv_calc_reg = None,
     schmitt_calc_reg = None, slew_rate_calc_reg = None\<rparr>"

definition rk3066a_pin_ctrl :: "(rk_port \<Rightarrow> int \<Rightarrow> int) \<Rightarrow> rockchip_pin_ctrl" where
  "rk3066a_pin_ctrl pno = \<lparr>pin_banks = rk3066a_pin_banks, nr_pins_all = 0, ctrl_label = ''RK3066a-GPIO'', ctrl_type = RK2928, grf_mux_offset = 0xa8, pmu_mux_offset = 0x0,
     grf_drv_offset = 0x0, pmu_drv_offset = 0x0, iomux_recalced = [], iomux_routes = [],
     soc_data_init = False, pull_calc_reg = Some rk2928_calc_pull_reg_and_bit, drv_calc_reg = None,
     schmitt_calc_reg = None, slew_rate_calc_reg = None\<rparr>"

definition rk3066b_pin_ctrl :: "(rk_port \<Rightarrow> int \<Rightarrow> int) \<Rightarrow> rockchip_pin_ctrl" where
  "rk3066b_pin_ctrl pno = \<lparr>pin_banks = rk3066b_pin_banks, nr_pins_all = 0, ctrl_label = ''RK3066b-GPIO'', ctrl_type = RK3066B, grf_mux_offset = 0x60, pmu_mux_offset = 0x0,
     grf_drv_offset = 0x0, pmu_drv_offset = 0x0, iomux_recalced = [], iomux_routes = [],
     soc_data_init = False, pull_calc_reg = None, drv_calc_reg = None,
     schmitt_calc_reg = None, slew_rate_calc_reg = None\<rparr>"

definition rk3128_pin_ctrl :: "(rk_port \<Rightarrow> int \<Rightarrow> int) \<Rightarrow> rockchip_pin_ctrl" where
  "rk3128_pin_ctrl pno = \<lparr>pin_banks = rk3128_pin_banks, nr_pins_all = 0, ctrl_label = ''RK3128-GPIO'', ctrl_type = RK3128, grf_mux_offset = 0xa8, pmu_mux_offset = 0x0,
     grf_drv_offset = 0x0, pmu_drv_offset = 0x0, iomux_recalced = rk3128_mux_recalced_data, iomux_routes = rk3128_mux_route_data pno,
     soc_data_init = False, pull_calc_reg = Some rk3128_calc_pull_reg_and_bit, drv_calc_reg = None,
     schmitt_calc_reg = None, slew_rate_calc_reg = None\<rparr>"

definition rk3188_pin_ctrl :: "(rk_port \<Rightarrow> int \<Rightarrow> int) \<Rightarrow> rockchip_pin_ctrl" where
  "rk3188_pin_ctrl pno = \<lparr>pin_banks = rk3188_pin_banks, nr_pins_all = 0, ctrl_label = ''RK3188-GPIO'', ctrl_type = RK3188, grf_mux_offset = 0x60, pmu_mux_offset = 0x0,
     grf_drv_offset = 0x0, pmu_drv_offset = 0x0, iomux_recalced = [], iomux_routes = rk3188_mux_route_data pno,
     soc_data_init = False, pull_calc_reg = Some rk3188_calc_pull_reg_and_bit, drv_calc_reg = None,
     schmitt_calc_reg = None, slew_rate_calc_reg = None\<rparr>"

definition rk3228_pin_ctrl :: "(rk_port \<Rightarrow> int \<Rightarrow> int) \<Rightarrow> rockchip_pin_ctrl" where
  "rk3228_pin_ctrl pno = \<lparr>pin_banks = rk3228_pin_banks, nr_pins_all = 0, ctrl_label = ''RK3228-GPIO'', ctrl_type = RK3288, grf_mux_offset = 0x0, pmu_mux_offset = 0x0,
     grf_drv_offset = 0x0, pmu_drv_offset = 0x0, iomux_recalced = [], iomux_routes = rk3228_mux_route_data pno,
     soc_data_init = False, pull_calc_reg = Some rk3228_calc_pull_reg_and_bit, drv_calc_reg = Some rk3228_calc_drv_reg_and_bit,
     schmitt_calc_reg = None, slew_rate_calc_reg = None\<rparr>"

definition rk3288_pin_ctrl :: "(rk_port \<Rightarrow> int \<Rightarrow> int) \<Rightarrow> rockchip_pin_ctrl" where
  "rk3288_pin_ctrl pno = \<lparr>pin_banks = rk3288_pin_banks, nr_pins_all = 0, ctrl_label = ''RK3288-GPIO'', ctrl_type = RK3288, grf_mux_offset = 0x0, pmu_mux_offset = 0x84,
     grf_drv_offset = 0x0, pmu_drv_offset = 0x0, iomux_recalced = [], iomux_routes = rk3288_mux_route_data pno,
     soc_data_init = False, pull_calc_reg = Some rk3288_calc_pull_reg_and_bit, drv_calc_reg = Some rk3288_calc_drv_reg_and_bit,
     schmitt_calc_reg = None, slew_rate_calc_reg = None\<rparr>"

definition rk3308_pin_ctrl :: "(rk_port \<Rightarrow> int \<Rightarrow> int) \<Rightarrow> rockchip_pin_ctrl" where
  "rk3308_pin_ctrl pno = \<lparr>pin_banks = rk3308_pin_banks, nr_pins_all = 0, ctrl_label = ''RK3308-GPIO'', ctrl_type = RK3308, grf_mux_offset = 0x0, pmu_mux_offset = 0x0,
     grf_drv_offset = 0x0, pmu_drv_offset = 0x0, iomux_recalced = rk3308_mux_recalced_data, iomux_routes = rk3308_mux_route_data pno,
     soc_data_init = True, pull_calc_reg = Some rk3308_calc_pull_reg_and_bit, drv_calc_reg = Some rk3308_calc_drv_reg_and_bit,
     schmitt_calc_reg = Some rk3308_calc_schmitt_reg_and_bit, slew_rate_calc_reg = None\<rparr>"

definition rk3328_pin_ctrl :: "(rk_port \<Rightarrow> int \<Rightarrow> int) \<Rightarrow> rockchip_pin_ctrl" where
  "rk3328_pin_ctrl pno = \<lparr>pin_banks = rk3328_pin_banks, nr_pins_all = 0, ctrl_label = ''RK3328-GPIO'', ctrl_type = RK3288, grf_mux_offset = 0x0, pmu_mux_offset = 0x0,
     grf_drv_offset = 0x0, pmu_drv_offset = 0x0, iomux_recalced = rk3328_mux_recalced_data, iomux_routes = rk3328_mux_route_data pno,
     soc_data_init = False, pull_calc_reg = Some rk3228_calc_pull_reg_and_bit, drv_calc_reg = Some rk3228_calc_drv_reg_and_bit,
     schmitt_calc_reg = Some rk3328_calc_schmitt_reg_and_bit, slew_rate_calc_reg = None\<rparr>"

definition rk3368_pin_ctrl :: "(rk_port \<Rightarrow> int \<Rightarrow> int) \<Rightarrow> rockchip_pin_ctrl" where
  "rk3368_pin_ctrl pno = \<lparr>pin_banks = rk3368_pin_banks, nr_pins_all = 0, ctrl_label = ''RK3368-GPIO'', ctrl_type = RK3368, grf_mux_offset = 0x0, pmu_mux_offset = 0x0,
     grf_drv_offset = 0x0, pmu_drv_offset = 0x0, iomux_recalced = [], iomux_routes = [],
     soc_data_init = False, pull_calc_reg = Some rk3368_calc_pull_reg_and_bit, drv_calc_reg = Some rk3368_calc_drv_reg_and_bit,
     schmitt_calc_reg = None, slew_rate_calc_reg = None\<rparr>"

definition rk3399_pin_ctrl :: "(rk_port \<Rightarrow> int \<Rightarrow> int) \<Rightarrow> rockchip_pin_ctrl" where
  "rk3399_pin_ctrl pno = \<lparr>pin_banks = rk3399_pin_banks, nr_pins_all = 0, ctrl_label = ''RK3399-GPIO'', ctrl_type = RK3399, grf_mux_offset = 0xe000, pmu_mux_offset = 0x0,
     grf_drv_offset = 0xe100, pmu_drv_offset = 0x80, iomux_recalced = [], iomux_routes = rk3399_mux_route_data pno,
     soc_data_init = False, pull_calc_reg = Some rk3399_calc_pull_reg_and_bit, drv_calc_reg = Some rk3399_calc_drv_reg_and_bit,
     schmitt_calc_reg = None, slew_rate_calc_reg = None\<rparr>"

definition rk3568_pin_ctrl :: "(rk_port \<Rightarrow> int \<Rightarrow> int) \<Rightarrow> rockchip_pin_ctrl" where
  "rk3568_pin_ctrl pno = \<lparr>pin_banks = rk3568_pin_banks, nr_pins_all = 0, ctrl_label = ''RK3568-GPIO'', ctrl_type = RK3568, grf_mux_offset = 0x0, pmu_mux_offset = 0x0,
     grf_drv_offset = 0x200, pmu_drv_offset = 0x70, iomux_recalced = [], iomux_routes = rk3568_mux_route_data pno,
     soc_data_init = False, pull_calc_reg = Some rk3568_calc_pull_reg_and_bit, drv_calc_reg = Some rk3568_calc_drv_reg_and_bit,
     schmitt_calc_reg = Some rk3568_calc_schmitt_reg_and_bit, slew_rate_calc_reg = Some rk3568_calc_slew_rate_reg_and_bit\<rparr>"

section \<open>Offsets of a chip\<close>

text \<open>The offsets the next iomux and the next drive strength get, in either register map.\<close>

record soc_offsets =
  grf_offs :: int
  pmu_offs :: int
  drv_grf_offs :: int
  drv_pmu_offs :: int

definition iom_pmu :: "rockchip_iomux \<Rightarrow> bool" where
  "iom_pmu i \<longleftrightarrow> iom_type i AND IOMUX_SOURCE_PMU \<noteq> 0 \<or> iom_type i AND IOMUX_L_SOURCE_PMU \<noteq> 0"

definition iom_width :: "rockchip_iomux \<Rightarrow> int" where
  "iom_width i = (if iom_type i AND (IOMUX_WIDTH_4BIT OR IOMUX_WIDTH_3BIT OR IOMUX_WIDTH_2BIT) \<noteq> 0 then 8 else 4)"

definition drv_width :: "rockchip_drv \<Rightarrow> int" where
  "drv_width d = (if drv_type d = DRV_TYPE_IO_1V8_3V0_AUTO \<or> drv_type d = DRV_TYPE_IO_3V3_ONLY then 8 else 4)"

text \<open>One round of the loop over the eight pins of a bank.\<close>

definition soc_iomux :: "rockchip_iomux \<Rightarrow> rockchip_drv \<Rightarrow> soc_offsets \<Rightarrow> rockchip_iomux \<times> rockchip_drv \<times> soc_offsets" where
  "soc_iomux i d s =
     (let pmu = iom_pmu i; drv_pmu = (iom_type i AND IOMUX_SOURCE_PMU \<noteq> 0);
          off = (if iom_offset i \<ge> 0 then iom_offset i else if pmu then pmu_offs s else grf_offs s);
          doff = (if drv_offset d \<ge> 0 then drv_offset d else if drv_pmu then drv_pmu_offs s else drv_grf_offs s);
          s1 = (if pmu then s\<lparr>pmu_offs := off + iom_width i\<rparr> else s\<lparr>grf_offs := off + iom_width i\<rparr>);
          s2 = (if drv_pmu then s1\<lparr>drv_pmu_offs := doff + drv_width d\<rparr> else s1\<lparr>drv_grf_offs := doff + drv_width d\<rparr>)
      in (i\<lparr>iom_offset := off\<rparr>, d\<lparr>drv_offset := doff\<rparr>, s2))"

text \<open>The rounds end when all pins of the bank are done; \<open>n\<close> of them remain.\<close>

fun soc_iomuxes ::
  "int \<Rightarrow> rockchip_iomux list \<Rightarrow> rockchip_drv list \<Rightarrow> soc_offsets \<Rightarrow> rockchip_iomux list \<times> rockchip_drv list \<times> soc_offsets" where
  "soc_iomuxes n (i # is) (d # ds) s =
     (if n \<le> 0 then (i # is, d # ds, s)
      else let (i1, d1, s1) = soc_iomux i d s; (is1, ds1, s2) = soc_iomuxes (n - 8) is ds s1 in (i1 # is1, d1 # ds1, s2))"
| "soc_iomuxes n is ds s = (is, ds, s)"

definition soc_recalced_mask :: "rockchip_mux_recalced_data list \<Rightarrow> int \<Rightarrow> u32 \<Rightarrow> u32" where
  "soc_recalced_mask rs num m = fold (\<lambda>r m. if rc_num r = num then m OR BIT (nat (rc_pin r)) else m) rs m"

definition soc_route_mask :: "rockchip_mux_route_data list \<Rightarrow> int \<Rightarrow> u32 \<Rightarrow> u32" where
  "soc_route_mask rs num m = fold (\<lambda>r m. if rt_bank_num r = num then m OR BIT (nat (rt_pin r)) else m) rs m"

fun soc_banks :: "rockchip_pin_ctrl \<Rightarrow> rockchip_pin_bank list \<Rightarrow> int \<Rightarrow> soc_offsets \<Rightarrow> rockchip_pin_bank list \<times> int" where
  "soc_banks C [] n s = ([], n)"
| "soc_banks C (b # bs) n s =
     (let (is, ds, s1) = soc_iomuxes (nr_pins b) (iomux b) (drv b) s;
          b1 = b\<lparr>pin_base := n, iomux := is, drv := ds,
                 recalced_mask := soc_recalced_mask (iomux_recalced C) (bank_num b) (recalced_mask b),
                 route_mask := soc_route_mask (iomux_routes C) (bank_num b) (route_mask b)\<rparr>;
          (bs1, n1) = soc_banks C bs (n + nr_pins b) s1
      in (b1 # bs1, n1))"

text \<open>The data are static: a second call starts from what the first one left.\<close>

definition rockchip_pinctrl_get_soc_data :: "rockchip_pin_ctrl \<Rightarrow> rockchip_pin_ctrl" where
  "rockchip_pinctrl_get_soc_data C =
     (let (bs, n) = soc_banks C (pin_banks C) (nr_pins_all C)
            \<lparr>grf_offs = grf_mux_offset C, pmu_offs = pmu_mux_offset C, drv_grf_offs = grf_drv_offset C, drv_pmu_offs = pmu_drv_offset C\<rparr>
      in C\<lparr>pin_banks := bs, nr_pins_all := n\<rparr>)"

end
