(* ===== verification/Pin_Ctrl.thy ===== *)
theory Pin_Ctrl
  imports Pin_Soc
begin

text \<open>
  Setting and reading the function of a pin and its settings: \<open>rockchip_set_mux\<close>, \<open>rockchip_get_mux\<close>, the
  drive strength, the pull, the Schmitt trigger and the slew rate of \<open>pinctrl-rockchip.c\<close>.
\<close>

section \<open>Register maps\<close>

text \<open>
  The registers are a state of any type \<open>'h\<close>; reading and writing one may fail. \<open>config_value\<close> are the numbers of
  the kernel for the parameters of a configuration, which are not in the tree; the functions of the GPIO driver
  set and read the level of a pin.
\<close>

datatype pin_config_param = PIN_CONFIG_BIAS_BUS_HOLD | PIN_CONFIG_BIAS_DISABLE | PIN_CONFIG_BIAS_PULL_DOWN
  | PIN_CONFIG_BIAS_PULL_PIN_DEFAULT | PIN_CONFIG_BIAS_PULL_UP | PIN_CONFIG_OUTPUT | PIN_CONFIG_DRIVE_STRENGTH
  | PIN_CONFIG_INPUT_SCHMITT_ENABLE | PIN_CONFIG_SLEW_RATE | PIN_CONFIG_OTHER

record 'h pin_port =
  pin_read :: "pin_regmap \<Rightarrow> int \<Rightarrow> 'h \<Rightarrow> errno + u32"
  pin_write :: "pin_regmap \<Rightarrow> int \<Rightarrow> u32 \<Rightarrow> 'h \<Rightarrow> 'h \<times> errno option"
  config_value :: "pin_config_param \<Rightarrow> int"
  gpio_direction_output :: "int \<Rightarrow> int \<Rightarrow> int \<Rightarrow> 'h \<Rightarrow> 'h \<times> errno option"
  gpio_get :: "int \<Rightarrow> int \<Rightarrow> 'h \<Rightarrow> errno + int"

text \<open>
  An operation on the registers: the registers afterwards and a value or an error. \<open>None\<close> is an access through
  a missing register map or function, outside an array, or a shift that C does not define.
\<close>

type_synonym ('h, 'a) pin_op = "'h \<Rightarrow> ('h \<times> (errno + 'a)) option"

definition ok_op :: "'a \<Rightarrow> ('h, 'a) pin_op" where
  "ok_op x h = Some (h, Inr x)"

definition err_op :: "errno \<Rightarrow> ('h, 'a) pin_op" where
  "err_op e h = Some (h, Inl e)"

definition fault_op :: "('h, 'a) pin_op" where
  "fault_op h = None"

definition then_op :: "('h, 'a) pin_op \<Rightarrow> ('a \<Rightarrow> ('h, 'b) pin_op) \<Rightarrow> ('h, 'b) pin_op" where
  "then_op m f h = (case m h of None \<Rightarrow> None | Some (h1, Inl e) \<Rightarrow> Some (h1, Inl e) | Some (h1, Inr x) \<Rightarrow> f x h1)"

definition map_there :: "pinctrl_maps \<Rightarrow> pin_regmap \<Rightarrow> bool" where
  "map_there M rm \<longleftrightarrow> (case rm of Regmap_base \<Rightarrow> True | Regmap_pmu \<Rightarrow> has_pmu M | Regmap_pull \<Rightarrow> has_pull M | Bank_pull \<Rightarrow> has_bank_pull M)"

definition read_op :: "pinctrl_maps \<Rightarrow> 'h pin_port \<Rightarrow> pin_regmap \<Rightarrow> int \<Rightarrow> ('h, u32) pin_op" where
  "read_op M P rm reg h = (if map_there M rm then Some (h, pin_read P rm reg h) else None)"

definition write_op :: "pinctrl_maps \<Rightarrow> 'h pin_port \<Rightarrow> pin_regmap \<Rightarrow> int \<Rightarrow> u32 \<Rightarrow> ('h, unit) pin_op" where
  "write_op M P rm reg v h =
     (if map_there M rm then case pin_write P rm reg v h of (h1, None) \<Rightarrow> Some (h1, Inr ()) | (h1, Some e) \<Rightarrow> Some (h1, Inl e)
      else None)"

definition update_op :: "pinctrl_maps \<Rightarrow> 'h pin_port \<Rightarrow> pin_regmap \<Rightarrow> int \<Rightarrow> u32 \<Rightarrow> u32 \<Rightarrow> ('h, unit) pin_op" where
  "update_op M P rm reg msk v =
     then_op (read_op M P rm reg) (\<lambda>old. let new = (old AND NOT msk) OR (v AND msk)
       in if new = old then ok_op () else write_op M P rm reg new)"

section \<open>The function of a pin\<close>

definition rockchip_get_recalced_mux :: "rockchip_pin_ctrl \<Rightarrow> rockchip_pin_bank \<Rightarrow> int \<Rightarrow> int \<times> int \<times> int \<Rightarrow> int \<times> int \<times> int" where
  "rockchip_get_recalced_mux C b pin p =
     (case find (\<lambda>r. rc_num r = bank_num b \<and> rc_pin r = pin) (iomux_recalced C) of
        None \<Rightarrow> p | Some r \<Rightarrow> (rc_reg r, rc_bit r, rc_mask r))"

definition rockchip_get_mux_route ::
  "rockchip_pin_ctrl \<Rightarrow> rockchip_pin_bank \<Rightarrow> int \<Rightarrow> int \<Rightarrow> (rockchip_mux_route_location \<times> int \<times> u32) option" where
  "rockchip_get_mux_route C b pin mux =
     map_option (\<lambda>r. (route_location r, route_offset r, route_val r))
       (find (\<lambda>r. rt_bank_num r = bank_num b \<and> rt_pin r = pin \<and> rt_func r = mux) (iomux_routes C))"

definition pin_iomux :: "rockchip_pin_bank \<Rightarrow> int \<Rightarrow> rockchip_iomux" where
  "pin_iomux b pin = iomux b ! nat (pin div 8)"

definition iom_has :: "rockchip_pin_bank \<Rightarrow> int \<Rightarrow> u32 \<Rightarrow> bool" where
  "iom_has b pin flag \<longleftrightarrow> iom_type (pin_iomux b pin) AND flag \<noteq> 0"

definition mux_regmap :: "rockchip_pin_bank \<Rightarrow> int \<Rightarrow> pin_regmap" where
  "mux_regmap b pin =
     (if iom_has b pin IOMUX_SOURCE_PMU then Regmap_pmu
      else if iom_has b pin IOMUX_L_SOURCE_PMU then if pin mod 8 < 4 then Regmap_pmu else Regmap_base
      else Regmap_base)"

text \<open>The register, the first bit and the mask of the iomux of a pin.\<close>

definition mux_field :: "rockchip_pin_ctrl \<Rightarrow> rockchip_pin_bank \<Rightarrow> int \<Rightarrow> int \<times> int \<times> int" where
  "mux_field C b pin =
     (let reg = iom_offset (pin_iomux b pin);
          p = (if iom_has b pin IOMUX_WIDTH_4BIT then (if pin mod 8 \<ge> 4 then reg + 0x4 else reg, pin mod 4 * 4, 0xf)
               else if iom_has b pin IOMUX_WIDTH_3BIT then (if pin mod 8 \<ge> 5 then reg + 0x4 else reg, pin mod 8 mod 5 * 3, 0x7)
               else (reg, pin mod 8 * 2, 0x3))
      in if recalced_mask b AND BIT (nat pin) \<noteq> 0 then rockchip_get_recalced_mux C b pin p else p)"

text \<open>A negative pin would be read before the array of the iomuxes, or shifted by a negative number.\<close>

definition rockchip_get_mux ::
  "pinctrl_maps \<Rightarrow> rockchip_pin_ctrl \<Rightarrow> 'h pin_port \<Rightarrow> int \<Rightarrow> rockchip_pin_bank \<Rightarrow> int \<Rightarrow> ('h, int) pin_op" where
  "rockchip_get_mux M C P func_gpio b pin =
     (if pin < 0 then fault_op
      else if pin div 8 > 3 \<or> iom_has b pin IOMUX_UNROUTED then err_op EINVAL
      else if iom_has b pin IOMUX_GPIO_ONLY then ok_op func_gpio
      else
        let (reg, bt, msk) = mux_field C b pin
        in then_op (read_op M P (mux_regmap b pin) reg) (\<lambda>v. ok_op (uint (drop_bit (nat bt) v AND word_of_int msk))))"

definition rockchip_verify_mux :: "int \<Rightarrow> rockchip_pin_bank \<Rightarrow> int \<Rightarrow> int \<Rightarrow> errno option" where
  "rockchip_verify_mux func_gpio b pin mux =
     (if pin div 8 > 3 \<or> iom_has b pin IOMUX_UNROUTED then Some EINVAL
      else if iom_has b pin IOMUX_GPIO_ONLY \<and> mux \<noteq> func_gpio then Some ENOTSUPP
      else None)"

definition set_route ::
  "pinctrl_maps \<Rightarrow> rockchip_pin_ctrl \<Rightarrow> 'h pin_port \<Rightarrow> rockchip_pin_bank \<Rightarrow> int \<Rightarrow> int \<Rightarrow> ('h, unit) pin_op" where
  "set_route M C P b pin mux =
     (if route_mask b AND BIT (nat pin) \<noteq> 0 then
        case rockchip_get_mux_route C b pin mux of
          None \<Rightarrow> ok_op ()
        | Some (loc, reg, v) \<Rightarrow>
            write_op M P (case loc of ROCKCHIP_ROUTE_SAME \<Rightarrow> mux_regmap b pin | ROCKCHIP_ROUTE_PMU \<Rightarrow> Regmap_pmu
              | ROCKCHIP_ROUTE_GRF \<Rightarrow> Regmap_base) reg v
      else ok_op ())"

definition rockchip_set_mux ::
  "pinctrl_maps \<Rightarrow> rockchip_pin_ctrl \<Rightarrow> 'h pin_port \<Rightarrow> int \<Rightarrow> rockchip_pin_bank \<Rightarrow> int \<Rightarrow> int \<Rightarrow> ('h, unit) pin_op" where
  "rockchip_set_mux M C P func_gpio b pin mux =
     (if pin < 0 then fault_op
      else case rockchip_verify_mux func_gpio b pin mux of
        Some e \<Rightarrow> err_op e
      | None \<Rightarrow>
          if iom_has b pin IOMUX_GPIO_ONLY then ok_op ()
          else
            let (reg, bt, msk) = mux_field C b pin; rm = mux_regmap b pin; m = word_of_int msk :: u32;
                v = push_bit (nat bt) (word_of_int mux AND m)
            in if mux > msk then err_op EINVAL
               else then_op (set_route M C P b pin mux) (\<lambda>_.
                 if iom_has b pin IOMUX_WRITABLE_32BIT
                 then then_op (read_op M P rm reg) (\<lambda>d. write_op M P rm reg ((d AND NOT (push_bit (nat bt) m)) OR v))
                 else
                   let data = push_bit (nat bt + 16) m
                   in update_op M P rm reg (data OR drop_bit 16 data) (data OR v)))"

section \<open>Drive strength\<close>

fun rockchip_perpin_drv_list :: "rockchip_pin_drv_type \<Rightarrow> int list" where
  "rockchip_perpin_drv_list DRV_TYPE_IO_DEFAULT = [2, 4, 8, 12, - 1, - 1, - 1, - 1]"
| "rockchip_perpin_drv_list DRV_TYPE_IO_1V8_OR_3V0 = [3, 6, 9, 12, - 1, - 1, - 1, - 1]"
| "rockchip_perpin_drv_list DRV_TYPE_IO_1V8_ONLY = [5, 10, 15, 20, - 1, - 1, - 1, - 1]"
| "rockchip_perpin_drv_list DRV_TYPE_IO_1V8_3V0_AUTO = [4, 6, 8, 10, 12, 14, 16, 18]"
| "rockchip_perpin_drv_list DRV_TYPE_IO_3V3_ONLY = [4, 7, 10, 13, 16, 19, 22, 26]"

definition wide_drv :: "rockchip_pin_drv_type \<Rightarrow> bool" where
  "wide_drv t \<longleftrightarrow> t = DRV_TYPE_IO_1V8_3V0_AUTO \<or> t = DRV_TYPE_IO_3V3_ONLY"

definition pin_drv_type :: "rockchip_pin_bank \<Rightarrow> int \<Rightarrow> rockchip_pin_drv_type" where
  "pin_drv_type b pin = drv_type (drv b ! nat (pin div 8))"

definition listed_drv :: "rockchip_pin_drv_type \<Rightarrow> u32 \<Rightarrow> ('h, int) pin_op" where
  "listed_drv t d = (if unat d < length (rockchip_perpin_drv_list t) then ok_op (rockchip_perpin_drv_list t ! unat d) else fault_op)"

definition read_drv ::
  "pinctrl_maps \<Rightarrow> 'h pin_port \<Rightarrow> rockchip_pin_drv_type \<Rightarrow> pin_regmap \<Rightarrow> int \<Rightarrow> int \<Rightarrow> nat \<Rightarrow> ('h, int) pin_op" where
  "read_drv M P t rm reg bt bits = then_op (read_op M P rm reg) (\<lambda>d. listed_drv t (drop_bit (nat bt) d AND mask bits))"

text \<open>
  Three bits that do not fit the first register are in the second one; those of the pin at bit 15 are in
  both.
\<close>

definition rockchip_get_drive_perpin ::
  "pinctrl_maps \<Rightarrow> rockchip_pin_ctrl \<Rightarrow> 'h pin_port \<Rightarrow> rockchip_pin_bank \<Rightarrow> int \<Rightarrow> ('h, int) pin_op" where
  "rockchip_get_drive_perpin M C P b pin =
     (case drv_calc_reg C of
        None \<Rightarrow> fault_op
      | Some calc \<Rightarrow>
          let (rm, reg, bt) = calc M b pin; t = pin_drv_type b pin in
          if wide_drv t then
            if bt \<le> 12 then read_drv M P t rm reg bt 3
            else if bt = 15 then
              then_op (read_op M P rm reg) (\<lambda>d. then_op (read_op M P rm (reg + 4)) (\<lambda>temp.
                listed_drv t (drop_bit 15 d OR push_bit 1 (temp AND 3))))
            else if 18 \<le> bt \<and> bt \<le> 21 then read_drv M P t rm (reg + 4) (bt - 16) 3
            else err_op EINVAL
          else read_drv M P t rm reg bt 2)"

text \<open>A strength that is not listed gives \<open>-EINVAL\<close>, or the \<open>-1\<close> that ends a shorter list, \<open>-EPERM\<close>.\<close>

fun find_drv :: "int list \<Rightarrow> int \<Rightarrow> nat \<Rightarrow> errno + nat" where
  "find_drv [] strength i = Inl EINVAL"
| "find_drv (x # xs) strength i = (if x = strength then Inr i else if x < 0 then Inl EPERM else find_drv xs strength (i + 1))"

definition write_field :: "pinctrl_maps \<Rightarrow> 'h pin_port \<Rightarrow> pin_regmap \<Rightarrow> int \<Rightarrow> int \<Rightarrow> nat \<Rightarrow> u32 \<Rightarrow> ('h, unit) pin_op" where
  "write_field M P rm reg bt bits v =
     (let data = push_bit (nat bt + 16) (mask bits)
      in update_op M P rm reg (data OR drop_bit 16 data) (data OR push_bit (nat bt) v))"

text \<open>The additional registers of some pins in the first version of the RK3568.\<close>

definition rk3568_extra_drv :: "rockchip_pin_bank \<Rightarrow> int \<Rightarrow> int option" where
  "rk3568_extra_drv b pin =
     (if bank_num b = 1 \<and> pin = 21 then Some 0x0840
      else if bank_num b = 2 \<and> pin = 2 then Some 0x0844
      else if bank_num b = 2 \<and> pin = 8 then Some 0x0848
      else if bank_num b = 3 \<and> pin = 0 then Some 0x084c
      else if bank_num b = 3 \<and> pin = 6 then Some 0x0850
      else if bank_num b = 4 \<and> pin = 0 then Some 0x0854
      else None)"

definition rk3568_level :: "int \<Rightarrow> u32" where
  "rk3568_level strength = push_bit (nat (strength + 1)) 1 - 1"

definition rockchip_set_drive_perpin ::
  "pinctrl_maps \<Rightarrow> rockchip_pin_ctrl \<Rightarrow> 'h pin_port \<Rightarrow> rockchip_pin_bank \<Rightarrow> int \<Rightarrow> int \<Rightarrow> ('h, unit) pin_op" where
  "rockchip_set_drive_perpin M C P b pin strength =
     (case drv_calc_reg C of
        None \<Rightarrow> fault_op
      | Some calc \<Rightarrow>
          let (rm, reg, bt) = calc M b pin; t = pin_drv_type b pin in
          if ctrl_type C = RV1126 then write_field M P rm reg bt (nat RV1126_DRV_BITS_PER_PIN) (word_of_int strength)
          else if ctrl_type C = RK3568 then
            if strength < - 1 \<or> strength \<ge> 31 then fault_op
            else then_op (write_field M P rm reg bt (nat RK3568_DRV_BITS_PER_PIN) (rk3568_level strength)) (\<lambda>_.
              if cpu_version M = 0 then
                case rk3568_extra_drv b pin of
                  None \<Rightarrow> ok_op ()
                | Some extra \<Rightarrow> write_field M P rm extra 0 (nat RK3568_DRV_BITS_PER_PIN) (rk3568_level strength)
              else ok_op ())
          else case find_drv (rockchip_perpin_drv_list t) strength 0 of
              Inl e \<Rightarrow> err_op e
            | Inr i \<Rightarrow>
                let v = of_nat i :: u32 in
                if wide_drv t then
                  if bt \<le> 12 then write_field M P rm reg bt 3 v
                  else if bt = 15 then
                    then_op (update_op M P rm reg (BIT 15 OR BIT 31) (push_bit 15 (v AND 1) OR BIT 31)) (\<lambda>_.
                      update_op M P rm (reg + 4) (3 OR push_bit 16 3) ((drop_bit 1 v AND 3) OR push_bit 16 3))
                  else if 18 \<le> bt \<and> bt \<le> 21 then write_field M P rm (reg + 4) (bt - 16) 3 v
                  else err_op EINVAL
                else write_field M P rm reg bt (nat RK3288_DRV_BITS_PER_PIN) v)"

section \<open>Pulls\<close>

fun rockchip_pull_list :: "rockchip_pin_pull_type \<Rightarrow> pin_config_param list" where
  "rockchip_pull_list PULL_TYPE_IO_DEFAULT =
     [PIN_CONFIG_BIAS_DISABLE, PIN_CONFIG_BIAS_PULL_UP, PIN_CONFIG_BIAS_PULL_DOWN, PIN_CONFIG_BIAS_BUS_HOLD]"
| "rockchip_pull_list PULL_TYPE_IO_1V8_ONLY =
     [PIN_CONFIG_BIAS_DISABLE, PIN_CONFIG_BIAS_PULL_DOWN, PIN_CONFIG_BIAS_DISABLE, PIN_CONFIG_BIAS_PULL_UP]"

text \<open>Which of the two kinds of registers a chip has; the RK3066B has none.\<close>

definition one_bit_pull :: "rockchip_pin_ctrl \<Rightarrow> bool" where
  "one_bit_pull C \<longleftrightarrow> ctrl_type C = RK2928 \<or> ctrl_type C = RK3128"

definition pin_pull_type :: "rockchip_pin_bank \<Rightarrow> int \<Rightarrow> rockchip_pin_pull_type" where
  "pin_pull_type b pin = pull_type b ! nat (pin div 8)"

definition rockchip_get_pull ::
  "pinctrl_maps \<Rightarrow> rockchip_pin_ctrl \<Rightarrow> 'h pin_port \<Rightarrow> rockchip_pin_bank \<Rightarrow> int \<Rightarrow> ('h, pin_config_param) pin_op" where
  "rockchip_get_pull M C P b pin =
     (if ctrl_type C = RK3066B then ok_op PIN_CONFIG_BIAS_DISABLE
      else case pull_calc_reg C of
        None \<Rightarrow> fault_op
      | Some calc \<Rightarrow>
          let (rm, reg, bt) = calc M b pin in
          then_op (read_op M P rm reg) (\<lambda>d.
            if one_bit_pull C
            then ok_op (if d AND BIT (nat bt) = 0 then PIN_CONFIG_BIAS_PULL_PIN_DEFAULT else PIN_CONFIG_BIAS_DISABLE)
            else ok_op (rockchip_pull_list (pin_pull_type b pin) ! unat (drop_bit (nat bt) d AND mask (nat RK3188_PULL_BITS_PER_PIN)))))"

fun find_pull :: "pin_config_param list \<Rightarrow> pin_config_param \<Rightarrow> nat \<Rightarrow> nat option" where
  "find_pull [] pull i = None"
| "find_pull (x # xs) pull i = (if x = pull then Some i else find_pull xs pull (i + 1))"

text \<open>On four pins of the RK3568 the value of a pull-up is 3.\<close>

definition rk3568_pull_value :: "rockchip_pin_ctrl \<Rightarrow> rockchip_pin_bank \<Rightarrow> int \<Rightarrow> nat \<Rightarrow> nat" where
  "rk3568_pull_value C b pin i = (if ctrl_type C = RK3568 \<and> bank_num b = 0 \<and> 27 \<le> pin \<and> pin \<le> 30 \<and> i = 1 then 3 else i)"

definition rockchip_set_pull ::
  "pinctrl_maps \<Rightarrow> rockchip_pin_ctrl \<Rightarrow> 'h pin_port \<Rightarrow> rockchip_pin_bank \<Rightarrow> int \<Rightarrow> pin_config_param \<Rightarrow> ('h, unit) pin_op" where
  "rockchip_set_pull M C P b pin pull =
     (if ctrl_type C = RK3066B then if config_value P pull \<noteq> 0 then err_op EINVAL else ok_op ()
      else case pull_calc_reg C of
        None \<Rightarrow> fault_op
      | Some calc \<Rightarrow>
          let (rm, reg, bt) = calc M b pin in
          if one_bit_pull C
          then write_op M P rm reg (BIT (nat bt + 16) OR (if pull = PIN_CONFIG_BIAS_DISABLE then BIT (nat bt) else 0))
          else case find_pull (rockchip_pull_list (pin_pull_type b pin)) pull 0 of
              None \<Rightarrow> err_op EINVAL
            | Some i \<Rightarrow> write_field M P rm reg bt (nat RK3188_PULL_BITS_PER_PIN) (of_nat (rk3568_pull_value C b pin i)))"

section \<open>Schmitt trigger and slew rate\<close>

definition rockchip_get_schmitt ::
  "pinctrl_maps \<Rightarrow> rockchip_pin_ctrl \<Rightarrow> 'h pin_port \<Rightarrow> rockchip_pin_bank \<Rightarrow> int \<Rightarrow> ('h, int) pin_op" where
  "rockchip_get_schmitt M C P b pin =
     (case schmitt_calc_reg C of
        None \<Rightarrow> fault_op
      | Some calc \<Rightarrow>
          let (rm, reg, bt) = calc M b pin in
          then_op (read_op M P rm reg) (\<lambda>d.
            ok_op (uint (drop_bit (nat bt) d AND mask (if ctrl_type C = RK3568 then nat RK3568_SCHMITT_BITS_PER_PIN else 1)))))"

definition rockchip_set_schmitt ::
  "pinctrl_maps \<Rightarrow> rockchip_pin_ctrl \<Rightarrow> 'h pin_port \<Rightarrow> rockchip_pin_bank \<Rightarrow> int \<Rightarrow> int \<Rightarrow> ('h, unit) pin_op" where
  "rockchip_set_schmitt M C P b pin enable =
     (case schmitt_calc_reg C of
        None \<Rightarrow> fault_op
      | Some calc \<Rightarrow>
          let (rm, reg, bt) = calc M b pin in
          if ctrl_type C = RK3568
          then write_field M P rm reg bt (nat RK3568_SCHMITT_BITS_PER_PIN) (if enable \<noteq> 0 then 2 else 1)
          else update_op M P rm reg (BIT (nat bt + 16) OR BIT (nat bt))
                 (BIT (nat bt + 16) OR push_bit (nat bt) (word_of_int enable)))"

definition rockchip_get_slew_rate ::
  "pinctrl_maps \<Rightarrow> rockchip_pin_ctrl \<Rightarrow> 'h pin_port \<Rightarrow> rockchip_pin_bank \<Rightarrow> int \<Rightarrow> ('h, int) pin_op" where
  "rockchip_get_slew_rate M C P b pin =
     (case slew_rate_calc_reg C of
        None \<Rightarrow> fault_op
      | Some calc \<Rightarrow>
          let (rm, reg, bt) = calc M b pin in
          then_op (read_op M P rm reg) (\<lambda>d. ok_op (uint (drop_bit (nat bt) d AND 1))))"

definition rockchip_set_slew_rate ::
  "pinctrl_maps \<Rightarrow> rockchip_pin_ctrl \<Rightarrow> 'h pin_port \<Rightarrow> rockchip_pin_bank \<Rightarrow> int \<Rightarrow> int \<Rightarrow> ('h, unit) pin_op" where
  "rockchip_set_slew_rate M C P b pin speed =
     (case slew_rate_calc_reg C of
        None \<Rightarrow> fault_op
      | Some calc \<Rightarrow>
          let (rm, reg, bt) = calc M b pin in
          update_op M P rm reg (BIT (nat bt + 16) OR BIT (nat bt)) (BIT (nat bt + 16) OR push_bit (nat bt) (word_of_int speed)))"

end
