(* ===== verification/Pin_Conf.thy ===== *)
theory Pin_Conf
  imports Pin_Ctrl
begin

text \<open>
  What the pin control core and the device tree ask of \<open>pinctrl-rockchip.c\<close>: selecting the function of a group
  of pins, setting and reading the configuration of a pin, suspending, parsing the groups, and probing.
\<close>

section \<open>Banks of pins\<close>

text \<open>The first loop runs off the banks when the pin is in none of them.\<close>

fun pin_to_bank :: "rockchip_pin_bank list \<Rightarrow> int \<Rightarrow> rockchip_pin_bank option" where
  "pin_to_bank [] pin = None"
| "pin_to_bank (b # bs) pin = (if pin \<ge> pin_base b + nr_pins b then pin_to_bank bs pin else Some b)"

fun bank_num_to_bank :: "rockchip_pin_bank list \<Rightarrow> int \<Rightarrow> errno + rockchip_pin_bank" where
  "bank_num_to_bank [] num = Inl EINVAL"
| "bank_num_to_bank (b # bs) num = (if bank_num b = num then Inr b else bank_num_to_bank bs num)"

section \<open>Groups\<close>

text \<open>A group of pins with the function and the configuration of each.\<close>

record rockchip_pin_config =
  cfg_pin :: int
  cfg_func :: int
  cfg_configs :: "(pin_config_param \<times> int) list"

record rockchip_pin_group =
  grp_name :: string
  grp_pins :: "rockchip_pin_config list"

fun rockchip_get_group_pins :: "rockchip_pin_group list \<Rightarrow> nat \<Rightarrow> errno + int list" where
  "rockchip_get_group_pins gs k = (if length gs \<le> k then Inl EINVAL else Inr (map cfg_pin (grp_pins (gs ! k))))"

definition pinctrl_name_to_group :: "rockchip_pin_group list \<Rightarrow> string \<Rightarrow> rockchip_pin_group option" where
  "pinctrl_name_to_group gs nm = find (\<lambda>g. grp_name g = nm) gs"

text \<open>The loop over the pins; a failure tells how many were done, and the bank it happened in.\<close>

fun pmx_pins ::
  "pinctrl_maps \<Rightarrow> rockchip_pin_ctrl \<Rightarrow> 'h pin_port \<Rightarrow> int \<Rightarrow> rockchip_pin_config list \<Rightarrow> nat \<Rightarrow> 'h
   \<Rightarrow> ('h \<times> (nat \<times> rockchip_pin_bank \<times> errno) option) option" where
  "pmx_pins M C P fg [] cnt h = Some (h, None)"
| "pmx_pins M C P fg (p # ps) cnt h =
     (case pin_to_bank (pin_banks C) (cfg_pin p) of
        None \<Rightarrow> None
      | Some b \<Rightarrow>
          case rockchip_set_mux M C P fg b (cfg_pin p - pin_base b) (s32 (cfg_func p)) h of
            None \<Rightarrow> None
          | Some (h1, Inl e) \<Rightarrow> Some (h1, Some (cnt, b, e))
          | Some (h1, Inr _) \<Rightarrow> pmx_pins M C P fg ps (cnt + 1) h1)"

text \<open>Back over the pins that were done, as long as their function is 0, always in the bank of the failure.\<close>

fun pmx_revert ::
  "pinctrl_maps \<Rightarrow> rockchip_pin_ctrl \<Rightarrow> 'h pin_port \<Rightarrow> int \<Rightarrow> rockchip_pin_bank \<Rightarrow> rockchip_pin_config list \<Rightarrow> 'h \<Rightarrow> 'h option" where
  "pmx_revert M C P fg b [] h = Some h"
| "pmx_revert M C P fg b (p # ps) h =
     (if cfg_func p \<noteq> 0 then Some h
      else case rockchip_set_mux M C P fg b (cfg_pin p - pin_base b) 0 h of
          None \<Rightarrow> None
        | Some (h1, _) \<Rightarrow> pmx_revert M C P fg b ps h1)"

definition rockchip_pmx_set ::
  "pinctrl_maps \<Rightarrow> rockchip_pin_ctrl \<Rightarrow> 'h pin_port \<Rightarrow> int \<Rightarrow> rockchip_pin_group \<Rightarrow> ('h, unit) pin_op" where
  "rockchip_pmx_set M C P fg g h =
     (case pmx_pins M C P fg (grp_pins g) 0 h of
        None \<Rightarrow> None
      | Some (h1, None) \<Rightarrow> Some (h1, Inr ())
      | Some (h1, Some (cnt, b, e)) \<Rightarrow>
          if cnt = 0 then Some (h1, Inr ())
          else map_option (\<lambda>h2. (h2, Inl e)) (pmx_revert M C P fg b (rev (take cnt (grp_pins g))) h1))"

section \<open>Configuration\<close>

definition rockchip_pinconf_pull_valid :: "rockchip_pin_ctrl \<Rightarrow> 'h pin_port \<Rightarrow> pin_config_param \<Rightarrow> bool" where
  "rockchip_pinconf_pull_valid C P pull \<longleftrightarrow>
     (if one_bit_pull C then pull = PIN_CONFIG_BIAS_PULL_PIN_DEFAULT \<or> pull = PIN_CONFIG_BIAS_DISABLE
      else if ctrl_type C = RK3066B then config_value P pull = 0
      else pull \<noteq> PIN_CONFIG_BIAS_PULL_PIN_DEFAULT)"

definition output_op :: "'h pin_port \<Rightarrow> rockchip_pin_bank \<Rightarrow> int \<Rightarrow> int \<Rightarrow> ('h, unit) pin_op" where
  "output_op P b pin arg h =
     (case gpio_direction_output P (bank_num b) pin arg h of (h1, None) \<Rightarrow> Some (h1, Inr ()) | (h1, Some e) \<Rightarrow> Some (h1, Inl e))"

text \<open>The pin must have the function 0; an error of reading it is no other function either.\<close>

definition need_gpio :: "('h, int) pin_op \<Rightarrow> ('h, unit) pin_op" where
  "need_gpio m h = (case m h of None \<Rightarrow> None | Some (h1, Inr x) \<Rightarrow> if x = 0 then Some (h1, Inr ()) else Some (h1, Inl EINVAL)
     | Some (h1, Inl e) \<Rightarrow> Some (h1, Inl EINVAL))"

fun set_config ::
  "pinctrl_maps \<Rightarrow> rockchip_pin_ctrl \<Rightarrow> 'h pin_port \<Rightarrow> int \<Rightarrow> rockchip_pin_bank \<Rightarrow> int \<Rightarrow> pin_config_param \<Rightarrow> int \<Rightarrow> ('h, unit) pin_op"
where
  "set_config M C P fg b pin PIN_CONFIG_BIAS_DISABLE arg = rockchip_set_pull M C P b pin PIN_CONFIG_BIAS_DISABLE"
| "set_config M C P fg b pin PIN_CONFIG_OUTPUT arg =
     then_op (need_gpio (rockchip_get_mux M C P fg b pin)) (\<lambda>_. output_op P b pin arg)"
| "set_config M C P fg b pin PIN_CONFIG_DRIVE_STRENGTH arg =
     (if drv_calc_reg C = None then err_op ENOTSUPP else rockchip_set_drive_perpin M C P b pin arg)"
| "set_config M C P fg b pin PIN_CONFIG_INPUT_SCHMITT_ENABLE arg =
     (if schmitt_calc_reg C = None then err_op ENOTSUPP else rockchip_set_schmitt M C P b pin arg)"
| "set_config M C P fg b pin PIN_CONFIG_SLEW_RATE arg =
     (if slew_rate_calc_reg C = None then err_op ENOTSUPP else rockchip_set_slew_rate M C P b pin arg)"
| "set_config M C P fg b pin PIN_CONFIG_OTHER arg = err_op ENOTSUPP"
| "set_config M C P fg b pin pull arg =
     (if \<not> rockchip_pinconf_pull_valid C P pull then err_op ENOTSUPP
      else if arg = 0 then err_op EINVAL
      else rockchip_set_pull M C P b pin pull)"

fun set_configs ::
  "pinctrl_maps \<Rightarrow> rockchip_pin_ctrl \<Rightarrow> 'h pin_port \<Rightarrow> int \<Rightarrow> rockchip_pin_bank \<Rightarrow> int \<Rightarrow> (pin_config_param \<times> int) list \<Rightarrow> ('h, unit) pin_op"
where
  "set_configs M C P fg b pin [] = ok_op ()"
| "set_configs M C P fg b pin ((param, arg) # cs) =
     then_op (set_config M C P fg b pin param arg) (\<lambda>_. set_configs M C P fg b pin cs)"

definition rockchip_pinconf_set ::
  "pinctrl_maps \<Rightarrow> rockchip_pin_ctrl \<Rightarrow> 'h pin_port \<Rightarrow> int \<Rightarrow> int \<Rightarrow> (pin_config_param \<times> int) list \<Rightarrow> ('h, unit) pin_op" where
  "rockchip_pinconf_set M C P fg pin cs =
     (case pin_to_bank (pin_banks C) pin of None \<Rightarrow> fault_op | Some b \<Rightarrow> set_configs M C P fg b (pin - pin_base b) cs)"

text \<open>The pull a pin has, compared with the one that is asked for.\<close>

definition need_pull :: "pin_config_param \<Rightarrow> int \<Rightarrow> ('h, pin_config_param) pin_op \<Rightarrow> ('h, int) pin_op" where
  "need_pull param arg m h =
     (case m h of None \<Rightarrow> None | Some (h1, Inr x) \<Rightarrow> if x = param then Some (h1, Inr arg) else Some (h1, Inl EINVAL)
      | Some (h1, Inl e) \<Rightarrow> Some (h1, Inl EINVAL))"

text \<open>Values are brought to the 16 bits of \<open>arg\<close>; a negative one is an error, all of which are \<open>-EPERM\<close>.\<close>

definition arg_op :: "int \<Rightarrow> ('h, int) pin_op" where
  "arg_op x = (if x < 0 then err_op EPERM else ok_op (take_bit 16 x))"

definition level_op :: "'h pin_port \<Rightarrow> rockchip_pin_bank \<Rightarrow> int \<Rightarrow> ('h, int) pin_op" where
  "level_op P b pin h = Some (h, map_sum (\<lambda>e. e) (\<lambda>x. if x \<noteq> 0 then 1 else 0) (gpio_get P (bank_num b) pin h))"

fun get_config ::
  "pinctrl_maps \<Rightarrow> rockchip_pin_ctrl \<Rightarrow> 'h pin_port \<Rightarrow> int \<Rightarrow> rockchip_pin_bank \<Rightarrow> int \<Rightarrow> pin_config_param \<Rightarrow> ('h, int) pin_op"
where
  "get_config M C P fg b pin PIN_CONFIG_BIAS_DISABLE = need_pull PIN_CONFIG_BIAS_DISABLE 0 (rockchip_get_pull M C P b pin)"
| "get_config M C P fg b pin PIN_CONFIG_OUTPUT =
     then_op (need_gpio (rockchip_get_mux M C P fg b pin)) (\<lambda>_. level_op P b pin)"
| "get_config M C P fg b pin PIN_CONFIG_DRIVE_STRENGTH =
     (if drv_calc_reg C = None then err_op ENOTSUPP else then_op (rockchip_get_drive_perpin M C P b pin) arg_op)"
| "get_config M C P fg b pin PIN_CONFIG_INPUT_SCHMITT_ENABLE =
     (if schmitt_calc_reg C = None then err_op ENOTSUPP else then_op (rockchip_get_schmitt M C P b pin) arg_op)"
| "get_config M C P fg b pin PIN_CONFIG_SLEW_RATE =
     (if slew_rate_calc_reg C = None then err_op ENOTSUPP else then_op (rockchip_get_slew_rate M C P b pin) arg_op)"
| "get_config M C P fg b pin PIN_CONFIG_OTHER = err_op ENOTSUPP"
| "get_config M C P fg b pin pull =
     (if \<not> rockchip_pinconf_pull_valid C P pull then err_op ENOTSUPP else need_pull pull 1 (rockchip_get_pull M C P b pin))"

definition rockchip_pinconf_get ::
  "pinctrl_maps \<Rightarrow> rockchip_pin_ctrl \<Rightarrow> 'h pin_port \<Rightarrow> int \<Rightarrow> int \<Rightarrow> pin_config_param \<Rightarrow> ('h, int) pin_op" where
  "rockchip_pinconf_get M C P fg pin param =
     (case pin_to_bank (pin_banks C) pin of None \<Rightarrow> fault_op | Some b \<Rightarrow> get_config M C P fg b (pin - pin_base b) param)"

section \<open>Suspending\<close>

definition RK3288_GRF_GPIO6C_IOMUX :: int where "RK3288_GRF_GPIO6C_IOMUX = 0x64"
definition GPIO6C6_SEL_WRITE_ENABLE :: u32 where "GPIO6C6_SEL_WRITE_ENABLE = BIT 28"

text \<open>
  \<open>force_sleep\<close> and \<open>force_default\<close> are the functions of the core; the setting that is saved is a static variable.
\<close>

definition rockchip_pinctrl_suspend ::
  "pinctrl_maps \<Rightarrow> rockchip_pin_ctrl \<Rightarrow> 'h pin_port \<Rightarrow> ('h \<Rightarrow> 'h \<times> errno option) \<Rightarrow> ('h \<Rightarrow> 'h \<times> errno option) \<Rightarrow> u32 \<Rightarrow> 'h
   \<Rightarrow> ('h \<times> u32 \<times> errno option) option" where
  "rockchip_pinctrl_suspend M C P force_sleep force_default saved h =
     (case force_sleep h of
        (h1, Some e) \<Rightarrow> Some (h1, saved, Some e)
      | (h1, None) \<Rightarrow>
          if ctrl_type C \<noteq> RK3288 then Some (h1, saved, None)
          else case read_op M P Regmap_base RK3288_GRF_GPIO6C_IOMUX h1 of
              None \<Rightarrow> None
            | Some (h2, Inl e) \<Rightarrow> Some (fst (force_default h2), saved, Some e)
            | Some (h2, Inr v) \<Rightarrow> Some (h2, v, None))"

definition rockchip_pinctrl_resume ::
  "pinctrl_maps \<Rightarrow> rockchip_pin_ctrl \<Rightarrow> 'h pin_port \<Rightarrow> ('h \<Rightarrow> 'h \<times> errno option) \<Rightarrow> u32 \<Rightarrow> 'h \<Rightarrow> ('h \<times> errno option) option" where
  "rockchip_pinctrl_resume M C P force_default saved h =
     (if ctrl_type C = RK3288 then
        case write_op M P Regmap_base RK3288_GRF_GPIO6C_IOMUX (saved OR GPIO6C6_SEL_WRITE_ENABLE) h of
          None \<Rightarrow> None
        | Some (h1, Inl e) \<Rightarrow> Some (h1, Some e)
        | Some (h1, Inr _) \<Rightarrow> Some (force_default h1)
      else Some (force_default h))"

end
