(* ===== verification/Pin_Probe.thy ===== *)
theory Pin_Probe
  imports Pin_Conf
begin

text \<open>
  Reading the groups of pins from the device tree, and probing, of \<open>pinctrl-rockchip.c\<close>.
\<close>

section \<open>Groups of the device tree\<close>

text \<open>
  A group is a node with a name and the cells of its property \<open>rockchip,pins\<close>, four to a pin; \<open>parse\<close> gives the
  configuration a handle stands for. A function is a node with groups in it.
\<close>

type_synonym parse_config = "int \<Rightarrow> errno + (pin_config_param \<times> int) list"

record dt_group =
  dg_name :: string
  dg_cells :: "int list"
  dg_alloc :: bool

record dt_function =
  df_name :: string
  df_groups :: "dt_group list"
  df_alloc :: bool

fun parse_pins :: "rockchip_pin_bank list \<Rightarrow> parse_config \<Rightarrow> int list \<Rightarrow> errno + rockchip_pin_config list" where
  "parse_pins bs parse (num # pin # func # handle # cells) =
     (case bank_num_to_bank bs num of
        Inl e \<Rightarrow> Inl e
      | Inr b \<Rightarrow>
          case parse handle of
            Inl e \<Rightarrow> Inl e
          | Inr cs \<Rightarrow> map_sum (\<lambda>e. e) (\<lambda>ps. \<lparr>cfg_pin = pin_base b + pin, cfg_func = func, cfg_configs = cs\<rparr> # ps)
              (parse_pins bs parse cells))"
| "parse_pins bs parse cells = Inr []"

definition rockchip_pinctrl_parse_groups ::
  "rockchip_pin_ctrl \<Rightarrow> parse_config \<Rightarrow> dt_group \<Rightarrow> errno + rockchip_pin_group" where
  "rockchip_pinctrl_parse_groups C parse g =
     (if dg_cells g = [] \<or> length (dg_cells g) mod 4 \<noteq> 0 then Inl EINVAL
      else if \<not> dg_alloc g then Inl ENOMEM
      else map_sum (\<lambda>e. e) (\<lambda>ps. \<lparr>grp_name = dg_name g, grp_pins = ps\<rparr>) (parse_pins (pin_banks C) parse (dg_cells g)))"

text \<open>
  The groups of all functions are in one array, \<open>gs\<close>, filled from a static index. \<open>i\<close> is the number of the group
  in its function, which has room for \<open>n\<close> names, the number of its groups in 8 bits.
\<close>

fun parse_function_groups ::
  "rockchip_pin_ctrl \<Rightarrow> parse_config \<Rightarrow> nat \<Rightarrow> nat \<Rightarrow> dt_group list \<Rightarrow> rockchip_pin_group option list \<times> nat
   \<Rightarrow> ((rockchip_pin_group option list \<times> nat) \<times> errno option) option" where
  "parse_function_groups C parse n i [] s = Some (s, None)"
| "parse_function_groups C parse n i (g # gs) (arr, k) =
     (if n \<le> i \<or> length arr \<le> k then None
      else case rockchip_pinctrl_parse_groups C parse g of
          Inl e \<Rightarrow> Some ((arr, k + 1), Some e)
        | Inr grp \<Rightarrow> parse_function_groups C parse n (i + 1) gs (arr[k := Some grp], k + 1))"

definition rockchip_pinctrl_parse_functions ::
  "rockchip_pin_ctrl \<Rightarrow> parse_config \<Rightarrow> dt_function \<Rightarrow> rockchip_pin_group option list \<times> nat
   \<Rightarrow> ((rockchip_pin_group option list \<times> nat) \<times> errno option) option" where
  "rockchip_pinctrl_parse_functions C parse f s =
     (let n = length (df_groups f) mod 256 in
      if n = 0 then Some (s, None)
      else if \<not> df_alloc f then Some (s, Some ENOMEM)
      else parse_function_groups C parse n 0 (df_groups f) s)"

fun parse_all ::
  "rockchip_pin_ctrl \<Rightarrow> parse_config \<Rightarrow> dt_function list \<Rightarrow> rockchip_pin_group option list \<times> nat
   \<Rightarrow> ((rockchip_pin_group option list \<times> nat) \<times> errno option) option" where
  "parse_all C parse [] s = Some (s, None)"
| "parse_all C parse (f # fs) s =
     (case rockchip_pinctrl_parse_functions C parse f s of
        None \<Rightarrow> None
      | Some (s1, Some e) \<Rightarrow> Some (s1, Some e)
      | Some (s1, None) \<Rightarrow> parse_all C parse fs s1)"

definition rockchip_pinctrl_child_count :: "dt_function list \<Rightarrow> nat \<times> nat" where
  "rockchip_pinctrl_child_count fs = (length fs, sum_list (map (\<lambda>f. length (df_groups f)) fs))"

definition rockchip_pinctrl_parse_dt ::
  "rockchip_pin_ctrl \<Rightarrow> parse_config \<Rightarrow> bool \<Rightarrow> bool \<Rightarrow> dt_function list \<Rightarrow> nat
   \<Rightarrow> ((rockchip_pin_group option list \<times> nat) \<times> errno option) option" where
  "rockchip_pinctrl_parse_dt C parse alloc_functions alloc_groups fs k =
     (if \<not> alloc_functions then Some (([], k), Some ENOMEM)
      else if \<not> alloc_groups then Some (([], k), Some ENOMEM)
      else parse_all C parse fs (replicate (snd (rockchip_pinctrl_child_count fs)) None, k))"

section \<open>The initialisation of the RK3308\<close>

definition RK3308_GRF_SOC_CON13 :: int where "RK3308_GRF_SOC_CON13 = 0x608"
definition RK3308_GRF_SOC_CON15 :: int where "RK3308_GRF_SOC_CON15 = 0x610"
definition RK3308_GRF_I2C3_IOFUNC_SRC_CTRL :: u32 where "RK3308_GRF_I2C3_IOFUNC_SRC_CTRL = BIT (16 + 10) OR BIT 10"
definition RK3308_GRF_GPIO2A3_SEL_SRC_CTRL :: u32 where "RK3308_GRF_GPIO2A3_SEL_SRC_CTRL = BIT (16 + 7) OR BIT 7"
definition RK3308_GRF_GPIO2A2_SEL_SRC_CTRL :: u32 where "RK3308_GRF_GPIO2A2_SEL_SRC_CTRL = BIT (16 + 3) OR BIT 3"
definition RK3308_GRF_GPIO2C0_SEL_SRC_CTRL :: u32 where "RK3308_GRF_GPIO2C0_SEL_SRC_CTRL = BIT (16 + 11) OR BIT 11"
definition RK3308_GRF_GPIO3B3_SEL_SRC_CTRL :: u32 where "RK3308_GRF_GPIO3B3_SEL_SRC_CTRL = BIT (16 + 7) OR BIT 7"
definition RK3308_GRF_GPIO3B2_SEL_SRC_CTRL :: u32 where "RK3308_GRF_GPIO3B2_SEL_SRC_CTRL = BIT (16 + 3) OR BIT 3"

definition rk3308_soc_data_init :: "pinctrl_maps \<Rightarrow> 'h pin_port \<Rightarrow> ('h, unit) pin_op" where
  "rk3308_soc_data_init M P =
     then_op (write_op M P Regmap_base RK3308_GRF_SOC_CON13
       (RK3308_GRF_I2C3_IOFUNC_SRC_CTRL OR RK3308_GRF_GPIO2A3_SEL_SRC_CTRL OR RK3308_GRF_GPIO2A2_SEL_SRC_CTRL)) (\<lambda>_.
     write_op M P Regmap_base RK3308_GRF_SOC_CON15
       (RK3308_GRF_GPIO2C0_SEL_SRC_CTRL OR RK3308_GRF_GPIO3B3_SEL_SRC_CTRL OR RK3308_GRF_GPIO3B2_SEL_SRC_CTRL))"

section \<open>Probing\<close>

text \<open>
  What probing meets. Without the node of the register files the registers are mapped directly; then the pulls
  of an old RK3188 are in a map of their own.
\<close>

record pin_probe_env =
  pe_has_node :: bool
  pe_alloc :: bool
  pe_grf_node :: "errno option option"
  pe_map_error :: "errno option"
  pe_reg_size :: int
  pe_pull_error :: "errno option"
  pe_pmu_node :: "errno option option"
  pe_bank_pull :: bool
  pe_cpu_version :: int
  pe_alloc_pins :: bool
  pe_alloc_functions :: bool
  pe_alloc_groups :: bool
  pe_functions :: "dt_function list"
  pe_register_error :: "errno option"
  pe_populate_error :: "errno option"

text \<open>Whether the maps can be had, and which there are.\<close>

definition probe_maps :: "rockchip_pin_ctrl \<Rightarrow> pin_probe_env \<Rightarrow> errno + pinctrl_maps" where
  "probe_maps C E =
     (let old_pull = (pe_grf_node E = None \<and> ctrl_type C = RK3188 \<and> pe_reg_size E < 0x200) in
      case (case pe_grf_node E of Some e \<Rightarrow> e
            | None \<Rightarrow> (case pe_map_error E of Some e \<Rightarrow> Some e | None \<Rightarrow> if old_pull then pe_pull_error E else None)) of
        Some e \<Rightarrow> Inl e
      | None \<Rightarrow>
          case pe_pmu_node E of
            Some (Some e) \<Rightarrow> Inl e
          | p \<Rightarrow> Inr \<lparr>has_pmu = (p \<noteq> None), has_pull = old_pull, has_bank_pull = pe_bank_pull E, cpu_version = pe_cpu_version E\<rparr>)"

definition rockchip_pinctrl_register ::
  "rockchip_pin_ctrl \<Rightarrow> parse_config \<Rightarrow> pin_probe_env \<Rightarrow> nat \<Rightarrow> ((rockchip_pin_group option list \<times> nat) \<times> errno option) option" where
  "rockchip_pinctrl_register C parse E k =
     (if \<not> pe_alloc_pins E then Some (([], k), Some ENOMEM)
      else case rockchip_pinctrl_parse_dt C parse (pe_alloc_functions E) (pe_alloc_groups E) (pe_functions E) k of
          None \<Rightarrow> None
        | Some (s, Some e) \<Rightarrow> Some (s, Some e)
        | Some (s, None) \<Rightarrow> Some (s, pe_register_error E))"

text \<open>
  The state is the static data of the chip, the static index of the groups, and the registers; the result has
  the maps and the groups too.
\<close>

definition rockchip_pinctrl_probe ::
  "parse_config \<Rightarrow> 'h pin_port \<Rightarrow> pin_probe_env \<Rightarrow> rockchip_pin_ctrl \<times> nat \<times> 'h
   \<Rightarrow> ((rockchip_pin_ctrl \<times> nat \<times> 'h) \<times> (errno + pinctrl_maps \<times> rockchip_pin_group option list)) option" where
  "rockchip_pinctrl_probe parse P E s =
     (case s of (C0, k, h) \<Rightarrow>
        if \<not> pe_has_node E then Some (s, Inl ENODEV)
        else if \<not> pe_alloc E then Some (s, Inl ENOMEM)
        else
          let C = rockchip_pinctrl_get_soc_data C0 in
          case probe_maps C E of
            Inl e \<Rightarrow> Some ((C, k, h), Inl e)
          | Inr M \<Rightarrow>
              case (if soc_data_init C then rk3308_soc_data_init M P h else Some (h, Inr ())) of
                None \<Rightarrow> None
              | Some (h1, Inl e) \<Rightarrow> Some ((C, k, h1), Inl e)
              | Some (h1, Inr _) \<Rightarrow>
                  case rockchip_pinctrl_register C parse E k of
                    None \<Rightarrow> None
                  | Some ((gs, k1), Some e) \<Rightarrow> Some ((C, k1, h1), Inl e)
                  | Some ((gs, k1), None) \<Rightarrow>
                      Some ((C, k1, h1), case pe_populate_error E of Some e \<Rightarrow> Inl e | None \<Rightarrow> Inr (M, gs)))"

end
