(* ===== verification/Pin_Register.thy ===== *)
theory Pin_Register
  imports Pin_Probe
begin

text \<open>
  What is read back after a pin has been set: the bits of a field in a register whose upper half enables the
  writing of the lower one.
\<close>

section \<open>Operations\<close>

lemma then_op_Inr:
  "then_op m f h = Some (h', Inr y) \<longleftrightarrow> (\<exists>h1 x. m h = Some (h1, Inr x) \<and> f x h1 = Some (h', Inr y))"
  by (auto simp: then_op_def split: option.splits sum.splits)

lemma then_op_Some: "m h = Some (h1, Inr x) \<Longrightarrow> then_op m f h = f x h1"
  by (simp add: then_op_def)

lemma op_simps [simp]: "ok_op x h = Some (h, Inr x)" "err_op e h = Some (h, Inl e)" "fault_op h = None"
  by (simp_all add: ok_op_def err_op_def fault_op_def)

lemma read_op_Inr: "read_op M P rm reg h = Some (h', Inr v) \<longleftrightarrow> map_there M rm \<and> h' = h \<and> pin_read P rm reg h = Inr v"
  by (auto simp: read_op_def)

lemma write_op_Inr: "write_op M P rm reg v h = Some (h', Inr u) \<longleftrightarrow> map_there M rm \<and> pin_write P rm reg v h = (h', None)"
  by (auto simp: write_op_def split: prod.splits option.splits)

section \<open>Registers with a mask for writing\<close>

text \<open>
  Writing such a register changes the bits of the lower half that are set in the upper one, which reads as zero;
  the others, in \<open>plain\<close>, take the whole word.
\<close>

definition pin_law :: "'h pin_port \<Rightarrow> (pin_regmap \<Rightarrow> int \<Rightarrow> bool) \<Rightarrow> bool" where
  "pin_law P plain \<longleftrightarrow>
     (\<forall>rm reg v h h'. pin_write P rm reg v h = (h', None) \<longrightarrow>
        (\<exists>old. pin_read P rm reg h = Inr old \<and> pin_read P rm reg h' = Inr (if plain rm reg then v else hiword old v))
        \<and> (\<forall>rm' reg'. (rm', reg') \<noteq> (rm, reg) \<longrightarrow> pin_read P rm' reg' h' = pin_read P rm' reg' h))
     \<and> (\<forall>rm reg h v. \<not> plain rm reg \<longrightarrow> pin_read P rm reg h = Inr v \<longrightarrow> drop_bit 16 v = 0)"

lemma pin_law_write:
  assumes "pin_law P plain" "pin_write P rm reg v h = (h', None)"
  obtains old where "pin_read P rm reg h = Inr old" "pin_read P rm reg h' = Inr (if plain rm reg then v else hiword old v)"
  using assms unfolding pin_law_def by blast

lemma pin_law_frame:
  "pin_law P plain \<Longrightarrow> pin_write P rm reg v h = (h', None) \<Longrightarrow> (rm', reg') \<noteq> (rm, reg) \<Longrightarrow> pin_read P rm' reg' h' = pin_read P rm' reg' h"
  unfolding pin_law_def by blast

lemma pin_law_upper: "pin_law P plain \<Longrightarrow> \<not> plain rm reg \<Longrightarrow> pin_read P rm reg h = Inr v \<Longrightarrow> drop_bit 16 v = 0"
  unfolding pin_law_def by blast

text \<open>The field of \<open>w\<close> bits from bit \<open>b\<close> of a register has got the value \<open>x\<close>, and nothing else has changed.\<close>

definition field_set :: "'h pin_port \<Rightarrow> pin_regmap \<Rightarrow> int \<Rightarrow> nat \<Rightarrow> nat \<Rightarrow> u32 \<Rightarrow> 'h \<Rightarrow> 'h \<Rightarrow> bool" where
  "field_set P rm reg b w x h h' \<longleftrightarrow>
     (\<exists>old new. pin_read P rm reg h = Inr old \<and> pin_read P rm reg h' = Inr new
        \<and> (\<forall>n < 16. bit new n \<longleftrightarrow> (if b \<le> n \<and> n < b + w then bit x (n - b) else bit old n)))
     \<and> (\<forall>rm' reg'. (rm', reg') \<noteq> (rm, reg) \<longrightarrow> pin_read P rm' reg' h' = pin_read P rm' reg' h)"

lemma update_field:
  fixes x :: u32
  assumes law: "pin_law P plain" and fits: "b + w \<le> 16"
    and upd: "update_op M P rm reg (data OR drop_bit 16 data) (data OR push_bit b x) h = Some (h', Inr ())"
    and data: "data = push_bit (b + 16) (mask w)"
  shows "field_set P rm reg b w x h h'"
proof -
  let ?msk = "data OR drop_bit 16 data" and ?v = "data OR push_bit b x"
  obtain old where old: "pin_read P rm reg h = Inr old"
    and run: "(if (old AND NOT ?msk) OR (?v AND ?msk) = old then h' = h else pin_write P rm reg ((old AND NOT ?msk) OR (?v AND ?msk)) h = (h', None))"
    using upd by (auto simp: update_op_def then_op_Inr read_op_Inr write_op_Inr Let_def split: if_splits)
  let ?new = "(old AND NOT ?msk) OR (?v AND ?msk)"
  have low: "bit ?new n \<longleftrightarrow> (if b \<le> n \<and> n < b + w then bit x (n - b) else bit old n)" if "n < 16" for n
    using that fits by (auto simp: data bit_simps)
  have high: "bit ?new (n + 16) \<longleftrightarrow> (b \<le> n \<and> n < b + w) \<or> bit old (n + 16)" if "n < 16" for n
    using that fits by (auto simp: data bit_simps)
  have "\<exists>new. pin_read P rm reg h' = Inr new \<and> (\<forall>n < 16. bit new n \<longleftrightarrow> (if b \<le> n \<and> n < b + w then bit x (n - b) else bit old n))"
  proof (cases "?new = old")
    case True
    then show ?thesis using run old low by (metis (no_types, lifting))
  next
    case False
    then have "pin_write P rm reg ?new h = (h', None)" using run by simp
    then have w: "pin_read P rm reg h' = Inr (if plain rm reg then ?new else hiword old ?new)"
      using pin_law_write [OF law] old by fastforce
    show ?thesis
    proof (cases "plain rm reg")
      case True
      then show ?thesis using w low by simp
    next
      case False
      then have "\<not> bit old (n + 16)" for n using pin_law_upper [OF law _ old] upper_zero [of old "n + 16"] by auto
      then have "bit (hiword old ?new) n \<longleftrightarrow> (if b \<le> n \<and> n < b + w then bit x (n - b) else bit old n)" if "n < 16" for n
        using low [OF that] high [OF that] bit_hiword [OF that, of old ?new] by auto
      then show ?thesis using w False by simp
    qed
  qed
  moreover have "pin_read P rm' reg' h' = pin_read P rm' reg' h" if "(rm', reg') \<noteq> (rm, reg)" for rm' reg'
    using pin_law_frame [OF law _ that] run by (metis (no_types, lifting))
  ultimately show ?thesis using old by (auto simp: field_set_def)
qed

lemma write_field_set:
  "pin_law P plain \<Longrightarrow> nat bt + w \<le> 16 \<Longrightarrow> write_field M P rm reg bt w x h = Some (h', Inr ())
   \<Longrightarrow> field_set P rm reg (nat bt) w x h h' \<and> map_there M rm"
  using update_field [of P plain "nat bt" w M rm reg "push_bit (nat bt + 16) (mask w)" x h h']
  by (auto simp: write_field_def Let_def update_op_def then_op_Inr read_op_Inr)

text \<open>Reading a field back, and another one.\<close>

lemma field_set_read:
  assumes "field_set P rm reg b w x h h'" "b + w \<le> 16"
  obtains new where "pin_read P rm reg h' = Inr new" "drop_bit b new AND mask w = x AND mask w"
proof -
  obtain new where new: "pin_read P rm reg h' = Inr new"
    "\<forall>n < 16. bit new n \<longleftrightarrow> (if b \<le> n \<and> n < b + w then bit x (n - b) else bit new n)"
    using assms(1) unfolding field_set_def by (metis (no_types, lifting))
  have "drop_bit b new AND mask w = x AND mask w"
  proof (rule bit_word_eqI)
    fix n :: nat assume "n < LENGTH(32)"
    show "bit (drop_bit b new AND mask w) n \<longleftrightarrow> bit (x AND mask w) n"
    proof (cases "n < w")
      case True
      then have "bit new (b + n) \<longleftrightarrow> bit x n" using new(2) [rule_format, of "b + n"] assms(2) by auto
      then show ?thesis by (simp add: bit_simps)
    qed (simp add: bit_simps)
  qed
  then show thesis using that new(1) by blast
qed

definition same_field :: "'h pin_port \<Rightarrow> 'h \<Rightarrow> 'h \<Rightarrow> pin_regmap \<Rightarrow> int \<Rightarrow> nat \<Rightarrow> nat \<Rightarrow> bool" where
  "same_field P h h' rm reg b w \<longleftrightarrow>
     (\<forall>old. pin_read P rm reg h = Inr old \<longrightarrow> (\<exists>new. pin_read P rm reg h' = Inr new
        \<and> (\<forall>n. b \<le> n \<and> n < b + w \<longrightarrow> bit new n = bit old n)))
     \<and> (\<forall>e. pin_read P rm reg h = Inl e \<longrightarrow> pin_read P rm reg h' = Inl e)"

lemma field_set_same:
  assumes "field_set P rm reg b w x h h'" "b' + w' \<le> 16" "(rm, reg) \<noteq> (rm', reg') \<or> b + w \<le> b' \<or> b' + w' \<le> b"
  shows "same_field P h h' rm' reg' b' w'"
proof (cases "(rm, reg) = (rm', reg')")
  case True
  obtain old new where r: "pin_read P rm reg h = Inr old" "pin_read P rm reg h' = Inr new"
    "\<forall>n < 16. bit new n \<longleftrightarrow> (if b \<le> n \<and> n < b + w then bit x (n - b) else bit old n)"
    using assms(1) unfolding field_set_def by blast
  have "bit new n = bit old n" if "b' \<le> n" "n < b' + w'" for n
  proof -
    have "n < 16" "\<not> (b \<le> n \<and> n < b + w)" using that assms(2,3) True by auto
    then show ?thesis using r(3) by auto
  qed
  then show ?thesis using r True by (simp add: same_field_def)
next
  case False
  then have "pin_read P rm' reg' h' = pin_read P rm' reg' h"
    using assms(1) unfolding field_set_def by metis
  then show ?thesis by (simp add: same_field_def)
qed

section \<open>Simulated registers\<close>

text \<open>Registers of 16 bits that obey the law, for the examples.\<close>

definition hiword_port :: "(pin_regmap \<Rightarrow> int \<Rightarrow> u32) pin_port" where
  "hiword_port = \<lparr>pin_read = \<lambda>rm reg h. Inr (take_bit 16 (h rm reg)),
     pin_write = \<lambda>rm reg v h. (h(rm := (h rm)(reg := hiword (take_bit 16 (h rm reg)) v)), None),
     config_value = \<lambda>p. 0, gpio_direction_output = \<lambda>num pin v h. (h, None), gpio_get = \<lambda>num pin h. Inr 0\<rparr>"

definition all_maps :: pinctrl_maps where
  "all_maps = \<lparr>has_pmu = True, has_pull = True, has_bank_pull = True, cpu_version = 1\<rparr>"

lemma hiword_port_law: "pin_law hiword_port (\<lambda>rm reg. False)"
proof -
  have "drop_bit 16 (take_bit 16 v) = (0 :: u32)" for v by (rule bit_word_eqI) (simp add: bit_simps)
  then show ?thesis by (auto simp: pin_law_def hiword_port_def take_hiword)
qed

lemma all_maps_there [simp]: "map_there all_maps rm"
  by (cases rm) (simp_all add: map_there_def all_maps_def)

lemma hiword_port_write: "\<exists>h'. write_op all_maps hiword_port rm reg v h = Some (h', Inr ())"
  by (simp add: write_op_def hiword_port_def)

lemma hiword_port_update: "\<exists>h'. update_op all_maps hiword_port rm reg msk v h = Some (h', Inr ())"
  using hiword_port_write by (simp add: update_op_def then_op_def read_op_def Let_def hiword_port_def [THEN arg_cong, of pin_read])

lemma hiword_port_field: "\<exists>h'. write_field all_maps hiword_port rm reg bt w x h = Some (h', Inr ())"
  using hiword_port_update by (simp add: write_field_def Let_def)

end
