(* ===== verification/Gpio_Regs.thy ===== *)
theory Gpio_Regs
  imports Pin_Register
begin

text \<open>
  The registers of the GPIO banks, \<open>common/sdk_linux/drivers/gpio/gpio-rockchip.c\<close>. A bank of version 1 has a
  32-bit register for its pins; in version 2 such a register is a pair, each with the pins in its lower
  half and in its upper half which of them a write changes. Both are a file of 32-bit registers.
\<close>

section \<open>Data\<close>

record rockchip_gpio_regs =
  port_dr :: int
  port_ddr :: int
  int_en :: int
  int_mask :: int
  int_type :: int
  int_polarity :: int
  int_bothedge :: int
  int_status :: int
  int_rawstatus :: int
  debounce :: int
  dbclk_div_en :: int
  dbclk_div_con :: int
  port_eoi :: int
  ext_port :: int
  version_id :: int

text \<open>Fields the source leaves out of an initializer are zero.\<close>

definition gpio_regs_v1 :: rockchip_gpio_regs where
  "gpio_regs_v1 = \<lparr>port_dr = 0x00, port_ddr = 0x04, int_en = 0x30, int_mask = 0x34, int_type = 0x38, int_polarity = 0x3c,
     int_bothedge = 0, int_status = 0x40, int_rawstatus = 0x44, debounce = 0x48, dbclk_div_en = 0, dbclk_div_con = 0,
     port_eoi = 0x4c, ext_port = 0x50, version_id = 0\<rparr>"

definition gpio_regs_v2 :: rockchip_gpio_regs where
  "gpio_regs_v2 = \<lparr>port_dr = 0x00, port_ddr = 0x08, int_en = 0x10, int_mask = 0x18, int_type = 0x20, int_polarity = 0x28,
     int_bothedge = 0x30, int_status = 0x50, int_rawstatus = 0x58, debounce = 0x38, dbclk_div_en = 0x40, dbclk_div_con = 0x48,
     port_eoi = 0x60, ext_port = 0x70, version_id = 0x78\<rparr>"

text \<open>The two values of \<open>gpio_type\<close>, and the number a bank of version 2 reports.\<close>

datatype gpio_version = GPIO_TYPE_V1 | GPIO_TYPE_V2

definition GPIO_TYPE_V2_ID :: u32 where
  "GPIO_TYPE_V2_ID = 0x01000C2B"

text \<open>A pointer to a clock: nothing, an error pointer, or a clock.\<close>

datatype clk_ptr = Clk_NULL | Clk_ERR errno | Clk nat

text \<open>
  What \<open>gpio-rockchip.c\<close> fills in of the chip it registers, and of the generic interrupt chip the kernel keeps
  with the domain: whether it has the accessors of version 2, and the offsets of its two registers.
\<close>

record gpio_chip =
  chip_base :: int
  chip_ngpio :: int
  chip_label :: string

record irq_chip_generic =
  gc_v2 :: bool
  gc_reg_base :: int
  gc_mask :: int
  gc_ack :: int
  wake_enabled :: u32
  wake_active :: u32
  mask_cache :: u32

text \<open>
  What \<open>gpio-rockchip.c\<close> uses of a bank of pins beside the settings. \<open>gpio_regs\<close> points to one of the two
  tables once \<open>rockchip_get_bank_data\<close> has set it; nothing reads it before.
\<close>

record gpio_bank = rockchip_pin_bank +
  reg_base :: int
  bank_clk :: clk_ptr
  db_clk :: clk_ptr
  bank_irq :: int
  saved_masks :: u32
  irq_dom :: "nat option"
  bank_chip :: gpio_chip
  irq_gc :: irq_chip_generic
  gpio_regs :: rockchip_gpio_regs
  gpio_type :: gpio_version
  toggle_edge_mode :: u32

text \<open>The flows of the kernel for an interrupt, and an interrupt of a bank.\<close>

datatype irq_flow = handle_edge_irq | handle_level_irq

record irq_data =
  data_irq :: int
  hwirq :: nat

text \<open>
  The other side: the registers by their address, the clocks, and the interrupt core. All of it is a state
  \<open>'h\<close>; a device runs on while its registers are read. \<open>irq_reg_readl\<close> and \<open>irq_reg_writel\<close> are the kernel's
  accesses through a generic chip.
\<close>

record 'h gpio_port =
  gp_readl :: "int \<Rightarrow> 'h \<Rightarrow> u32 \<times> 'h"
  gp_writel :: "int \<Rightarrow> u32 \<Rightarrow> 'h \<Rightarrow> 'h"
  gp_clk_enable :: "clk_ptr \<Rightarrow> 'h \<Rightarrow> 'h"
  gp_clk_disable :: "clk_ptr \<Rightarrow> 'h \<Rightarrow> 'h"
  gp_clk_rate :: "clk_ptr \<Rightarrow> 'h \<Rightarrow> u64"
  irq_create_mapping :: "nat \<Rightarrow> nat \<Rightarrow> 'h \<Rightarrow> int \<times> 'h"
  irq_find_mapping :: "nat option \<Rightarrow> nat \<Rightarrow> 'h \<Rightarrow> int"
  irq_set_handler_locked :: "irq_data \<Rightarrow> irq_flow \<Rightarrow> 'h \<Rightarrow> 'h"
  irq_reg_readl :: "irq_chip_generic \<Rightarrow> int \<Rightarrow> 'h \<Rightarrow> u32 \<times> 'h"
  irq_reg_writel :: "irq_chip_generic \<Rightarrow> u32 \<Rightarrow> int \<Rightarrow> 'h \<Rightarrow> 'h"
  generic_handle_irq :: "int \<Rightarrow> 'h \<Rightarrow> 'h"
  chained_irq_enter :: "'h \<Rightarrow> 'h"
  chained_irq_exit :: "'h \<Rightarrow> 'h"

section \<open>Accessors\<close>

definition gpio_writel_v2 :: "'h gpio_port \<Rightarrow> u32 \<Rightarrow> int \<Rightarrow> 'h \<Rightarrow> 'h" where
  "gpio_writel_v2 P v reg h =
     gp_writel P (reg + 0x4) (drop_bit 16 v OR 0xffff0000) (gp_writel P reg ((v AND 0xffff) OR 0xffff0000) h)"

definition gpio_readl_v2 :: "'h gpio_port \<Rightarrow> int \<Rightarrow> 'h \<Rightarrow> u32 \<times> 'h" where
  "gpio_readl_v2 P reg h =
     (let (hi, h1) = gp_readl P (reg + 0x4) h; (lo, h2) = gp_readl P reg h1 in (push_bit 16 hi OR lo, h2))"

definition rockchip_gpio_writel :: "'h gpio_port \<Rightarrow> gpio_bank \<Rightarrow> u32 \<Rightarrow> int \<Rightarrow> 'h \<Rightarrow> 'h" where
  "rockchip_gpio_writel P g v off h =
     (let reg = reg_base g + off in
      if gpio_type g = GPIO_TYPE_V2 then gpio_writel_v2 P v reg h else gp_writel P reg v h)"

definition rockchip_gpio_readl :: "'h gpio_port \<Rightarrow> gpio_bank \<Rightarrow> int \<Rightarrow> 'h \<Rightarrow> u32 \<times> 'h" where
  "rockchip_gpio_readl P g off h =
     (let reg = reg_base g + off in
      if gpio_type g = GPIO_TYPE_V2 then gpio_readl_v2 P reg h else gp_readl P reg h)"

text \<open>The number of a pin is below 32; C does not define the shifts beyond.\<close>

definition rockchip_gpio_writel_bit :: "'h gpio_port \<Rightarrow> gpio_bank \<Rightarrow> nat \<Rightarrow> int \<Rightarrow> int \<Rightarrow> 'h \<Rightarrow> 'h" where
  "rockchip_gpio_writel_bit P g n v off h =
     (let reg = reg_base g + off in
      if gpio_type g = GPIO_TYPE_V2 then
        let data = (if v \<noteq> 0 then BIT (n mod 0x10) OR BIT (n mod 0x10 + 0x10) else BIT (n mod 0x10 + 0x10))
        in gp_writel P (if n \<ge> 0x10 then reg + 0x4 else reg) data h
      else
        let (data, h1) = gp_readl P reg h; data = data AND NOT (BIT n); data = (if v \<noteq> 0 then data OR BIT n else data)
        in gp_writel P reg data h1)"

definition rockchip_gpio_readl_bit :: "'h gpio_port \<Rightarrow> gpio_bank \<Rightarrow> nat \<Rightarrow> int \<Rightarrow> 'h \<Rightarrow> u32 \<times> 'h" where
  "rockchip_gpio_readl_bit P g n off h =
     (let reg = reg_base g + off in
      if gpio_type g = GPIO_TYPE_V2 then
        let (data, h1) = gp_readl P (if n \<ge> 0x10 then reg + 0x4 else reg) h in (drop_bit (n mod 0x10) data AND 1, h1)
      else let (data, h1) = gp_readl P reg h in (drop_bit n data AND 1, h1))"

section \<open>Registers that keep what is written\<close>

text \<open>
  The registers of a version that only a write changes, one bit for each pin; \<open>gpio_cells\<close> are their addresses.
\<close>

definition pin_regs :: "gpio_version \<Rightarrow> int list" where
  "pin_regs t = (case t of
     GPIO_TYPE_V1 \<Rightarrow> map (\<lambda>r. r gpio_regs_v1) [port_dr, port_ddr, int_en, int_mask, int_type, int_polarity, debounce]
   | GPIO_TYPE_V2 \<Rightarrow> map (\<lambda>r. r gpio_regs_v2)
       [port_dr, port_ddr, int_en, int_mask, int_type, int_polarity, int_bothedge, debounce, dbclk_div_en])"

definition gpio_cells :: "gpio_bank \<Rightarrow> int set" where
  "gpio_cells g = (case gpio_type g of
     GPIO_TYPE_V1 \<Rightarrow> {reg_base g + r | r. r \<in> set (pin_regs GPIO_TYPE_V1)}
   | GPIO_TYPE_V2 \<Rightarrow> {reg_base g + r + k | r k. r \<in> set (pin_regs GPIO_TYPE_V2) \<and> (k = 0 \<or> k = 4)})"

definition bank_wf :: "gpio_bank \<Rightarrow> bool" where
  "bank_wf g \<longleftrightarrow> gpio_regs g = (case gpio_type g of GPIO_TYPE_V1 \<Rightarrow> gpio_regs_v1 | GPIO_TYPE_V2 \<Rightarrow> gpio_regs_v2)"

text \<open>
  \<open>peek h a\<close> is what the register at \<open>a\<close> holds. A write to any register of a bank changes no other register, a
  read none; those of version 2 take the bits that the upper half of the word enables.
\<close>

definition gpio_law :: "'h gpio_port \<Rightarrow> ('h \<Rightarrow> int \<Rightarrow> u32) \<Rightarrow> gpio_bank \<Rightarrow> bool" where
  "gpio_law P peek g \<longleftrightarrow>
     (\<forall>a \<in> gpio_cells g. \<forall>h v. fst (gp_readl P a h) = peek h a
        \<and> peek (gp_writel P a v h) a = (if gpio_type g = GPIO_TYPE_V2 then hiword (peek h a) v else v))
     \<and> (gpio_type g = GPIO_TYPE_V2 \<longrightarrow> (\<forall>a \<in> gpio_cells g. \<forall>h. drop_bit 16 (peek h a) = 0))
     \<and> (\<forall>a \<in> gpio_cells g. \<forall>a' h v. a' \<noteq> a \<longrightarrow> peek (gp_writel P a' v h) a = peek h a)
     \<and> (\<forall>a \<in> gpio_cells g. \<forall>a' h. peek (snd (gp_readl P a' h)) a = peek h a)"

text \<open>The 32 pins of a register.\<close>

definition pins_of :: "('h \<Rightarrow> int \<Rightarrow> u32) \<Rightarrow> gpio_bank \<Rightarrow> 'h \<Rightarrow> int \<Rightarrow> u32" where
  "pins_of peek g h off =
     (let reg = reg_base g + off in
      if gpio_type g = GPIO_TYPE_V2 then push_bit 16 (peek h (reg + 4)) OR peek h reg else peek h reg)"

section \<open>A file of 32-bit registers\<close>

text \<open>
  What the two versions have in common: \<open>fits p r\<close> holds for the registers \<open>r\<close> of a bank \<open>p\<close> that obeys its law,
  and \<open>view\<close> are the 32 bits of one.
\<close>

locale register_file =
  fixes fits :: "'p \<Rightarrow> 'r \<Rightarrow> bool"
    and view :: "'p \<Rightarrow> 'h \<Rightarrow> 'r \<Rightarrow> u32"
    and put :: "'p \<Rightarrow> u32 \<Rightarrow> 'r \<Rightarrow> 'h \<Rightarrow> 'h"
    and get :: "'p \<Rightarrow> 'r \<Rightarrow> 'h \<Rightarrow> u32 \<times> 'h"
    and put_bit :: "'p \<Rightarrow> nat \<Rightarrow> int \<Rightarrow> 'r \<Rightarrow> 'h \<Rightarrow> 'h"
    and get_bit :: "'p \<Rightarrow> nat \<Rightarrow> 'r \<Rightarrow> 'h \<Rightarrow> u32 \<times> 'h"
  assumes view_put: "fits p r \<Longrightarrow> fits p r' \<Longrightarrow> view p (put p w r h) r' = (if r' = r then w else view p h r')"
    and fst_get: "fits p r \<Longrightarrow> fst (get p r h) = view p h r"
    and view_get: "fits p r \<Longrightarrow> fits p r' \<Longrightarrow> view p (snd (get p r h)) r' = view p h r'"
    and view_put_bit: "fits p r \<Longrightarrow> fits p r' \<Longrightarrow> n < 32 \<Longrightarrow>
      bit (view p (put_bit p n x r h) r') k = (if r' = r \<and> k = n then x \<noteq> 0 else bit (view p h r') k)"
    and fst_get_bit: "fits p r \<Longrightarrow> n < 32 \<Longrightarrow> fst (get_bit p n r h) = (if bit (view p h r) n then 1 else 0)"
    and view_get_bit: "fits p r \<Longrightarrow> fits p r' \<Longrightarrow> n < 32 \<Longrightarrow> view p (snd (get_bit p n r h)) r' = view p h r'"
begin

text \<open>A sequence of writes to single pins: each pin of each register has what was written there last.\<close>

fun put_bits :: "'p \<Rightarrow> (nat \<times> int \<times> 'r) list \<Rightarrow> 'h \<Rightarrow> 'h" where
  "put_bits p [] h = h"
| "put_bits p ((n, x, r) # ws) h = put_bits p ws (put_bit p n x r h)"

fun last_put :: "(nat \<times> int \<times> 'r) list \<Rightarrow> nat \<Rightarrow> 'r \<Rightarrow> bool \<Rightarrow> bool" where
  "last_put [] k r d = d"
| "last_put ((n, x, s) # ws) k r d = last_put ws k r (if s = r \<and> n = k then x \<noteq> 0 else d)"

lemma view_put_bits:
  assumes "\<forall>(n, x, s) \<in> set ws. n < 32 \<and> fits p s" "fits p r"
  shows "bit (view p (put_bits p ws h) r) k = last_put ws k r (bit (view p h r) k)"
  using assms
proof (induction ws arbitrary: h)
  case (Cons w ws)
  obtain n x s where w: "w = (n, x, s)" by (cases w)
  have "bit (view p (put_bits p ws (put_bit p n x s h)) r) k
      = last_put ws k r (bit (view p (put_bit p n x s h) r) k)"
    using Cons by (simp add: w)
  then show ?case using Cons.prems by (auto simp: w view_put_bit intro!: arg_cong [of _ _ "last_put ws k r"])
qed simp

lemma get_after_put: "fits p r \<Longrightarrow> fst (get p r (put p w r h)) = w"
  by (simp add: fst_get view_put)

lemma get_bit_after_put_bit: "fits p r \<Longrightarrow> n < 32 \<Longrightarrow> fst (get_bit p n r (put_bit p n x r h)) = (if x \<noteq> 0 then 1 else 0)"
  by (simp add: fst_get_bit view_put_bit)

end

text \<open>The registers of a bank are apart, also the halves of those of version 2.\<close>

definition file_fits :: "'h gpio_port \<times> ('h \<Rightarrow> int \<Rightarrow> u32) \<times> gpio_bank \<Rightarrow> int \<Rightarrow> bool" where
  "file_fits p r = (case p of (P, peek, g) \<Rightarrow> gpio_law P peek g \<and> r \<in> set (pin_regs (gpio_type g)))"

lemma pin_regs_apart:
  assumes "r \<in> set (pin_regs GPIO_TYPE_V2)" "s \<in> set (pin_regs GPIO_TYPE_V2)" "i = 0 \<or> i = 4" "j = 0 \<or> j = (4 :: int)"
  shows "r + i = s + j \<longleftrightarrow> r = s \<and> i = j"
proof -
  have "r mod 8 = 0" "s mod 8 = 0" using assms(1,2) by (auto simp: pin_regs_def gpio_regs_v2_def)
  then show ?thesis using assms(3,4) by presburger
qed

lemma file_cells:
  assumes "file_fits (P, peek, g) r"
  shows "gpio_type g = GPIO_TYPE_V1 \<Longrightarrow> reg_base g + r \<in> gpio_cells g"
    and "gpio_type g = GPIO_TYPE_V2 \<Longrightarrow> reg_base g + r \<in> gpio_cells g \<and> reg_base g + r + 4 \<in> gpio_cells g"
  using assms by (auto simp: file_fits_def gpio_cells_def intro: exI [of _ r])

lemma halves_apart:
  assumes "file_fits (P, peek, g) r" "file_fits (P, peek, g) s" "gpio_type g = GPIO_TYPE_V2" "i = 0 \<or> i = 4" "j = 0 \<or> j = 4"
  shows "reg_base g + r + i = reg_base g + s + j \<longleftrightarrow> r = s \<and> i = j"
  using pin_regs_apart [of r s i j] assms by (auto simp: file_fits_def)

lemma halves_apart4:
  assumes "file_fits (P, peek, g) r" "file_fits (P, peek, g) s" "gpio_type g = GPIO_TYPE_V2"
  shows "r = s + 4 \<longleftrightarrow> False" "s + 4 = r \<longleftrightarrow> False" "r + 4 = s \<longleftrightarrow> False" "s = r + 4 \<longleftrightarrow> False"
  using halves_apart [OF assms, of 0 4] halves_apart [OF assms, of 4 0] by auto

lemma law_read:
  "gpio_law P peek g \<Longrightarrow> a \<in> gpio_cells g \<Longrightarrow> fst (gp_readl P a h) = peek h a"
  "gpio_law P peek g \<Longrightarrow> a \<in> gpio_cells g \<Longrightarrow> peek (snd (gp_readl P a' h)) a = peek h a"
  by (simp_all add: gpio_law_def)

lemma law_write:
  "gpio_law P peek g \<Longrightarrow> a \<in> gpio_cells g \<Longrightarrow>
   peek (gp_writel P a' v h) a = (if a' = a then if gpio_type g = GPIO_TYPE_V2 then hiword (peek h a) v else v else peek h a)"
  by (simp add: gpio_law_def)

lemma law_upper: "gpio_law P peek g \<Longrightarrow> a \<in> gpio_cells g \<Longrightarrow> gpio_type g = GPIO_TYPE_V2 \<Longrightarrow> drop_bit 16 (peek h a) = 0"
  by (simp add: gpio_law_def)

lemma bit_pins_of_v2:
  assumes "file_fits (P, peek, g) r" "gpio_type g = GPIO_TYPE_V2"
  shows "bit (pins_of peek g h r) k = (if k < 16 then bit (peek h (reg_base g + r)) k else bit (peek h (reg_base g + r + 4)) (k - 16))"
proof -
  have u: "drop_bit 16 (peek h (reg_base g + r)) = 0" "drop_bit 16 (peek h (reg_base g + r + 4)) = 0"
    using law_upper [of P peek g _ h] file_cells(2) [OF assms] assms by (auto simp: file_fits_def)
  show ?thesis
    using upper_zero [OF u(1), of k] upper_zero [OF u(2), of "k - 16"] assms(2)
    by (cases "k < 32") (auto simp: pins_of_def Let_def bit_simps dest: bit_imp_le_length)
qed

lemma bit_0xffff: "bit (0xffff :: u32) k \<longleftrightarrow> k < 16" "bit (0xffff0000 :: u32) k \<longleftrightarrow> 16 \<le> k \<and> k < 32"
proof -
  have "(0xffff :: u32) = mask 16" "(0xffff0000 :: u32) = push_bit 16 (mask 16)" by (simp_all add: mask_eq_exp_minus_1)
  then show "bit (0xffff :: u32) k \<longleftrightarrow> k < 16" "bit (0xffff0000 :: u32) k \<longleftrightarrow> 16 \<le> k \<and> k < 32"
    by (auto simp only: bit_simps) (auto simp: bit_simps)
qed

lemma hiword_all:
  "drop_bit 16 old = 0 \<Longrightarrow> k < 16 \<Longrightarrow> bit (hiword old ((v AND 0xffff) OR 0xffff0000)) k = bit v k"
  "drop_bit 16 old = 0 \<Longrightarrow> k < 16 \<Longrightarrow> bit (hiword old (drop_bit 16 v OR 0xffff0000)) k = bit v (k + 16)"
  by (simp_all only: bit_hiword bit_simps bit_0xffff add.commute comp_apply) simp_all

lemma view_writel:
  assumes "file_fits (P, peek, g) r" "file_fits (P, peek, g) s"
  shows "pins_of peek g (rockchip_gpio_writel P g w r h) s = (if s = r then w else pins_of peek g h s)"
proof (cases "gpio_type g")
  case GPIO_TYPE_V1
  then show ?thesis
    using file_cells(1) [OF assms(2)] assms(1) by (auto simp: rockchip_gpio_writel_def pins_of_def Let_def law_write file_fits_def)
next
  case GPIO_TYPE_V2
  note c = file_cells(2) [OF assms(2) GPIO_TYPE_V2]
  note n = halves_apart4 [OF assms GPIO_TYPE_V2]
  have law: "gpio_law P peek g" using assms by (simp add: file_fits_def)
  have u: "drop_bit 16 (peek h (reg_base g + s)) = 0" "drop_bit 16 (peek h (reg_base g + s + 4)) = 0" for h
    using law_upper [OF law _ GPIO_TYPE_V2] c by auto
  show ?thesis
  proof (rule bit_word_eqI)
    fix k :: nat assume k: "k < LENGTH(32)"
    show "bit (pins_of peek g (rockchip_gpio_writel P g w r h) s) k = bit (if s = r then w else pins_of peek g h s) k"
      using c n k GPIO_TYPE_V2 law u
      by (cases "r = s") (simp_all add: bit_pins_of_v2 [OF assms(2) GPIO_TYPE_V2] rockchip_gpio_writel_def gpio_writel_v2_def
          Let_def law_write hiword_all)
  qed
qed

lemma view_readl:
  assumes "file_fits (P, peek, g) r"
  shows "fst (rockchip_gpio_readl P g r h) = pins_of peek g h r"
    and "file_fits (P, peek, g) s \<Longrightarrow> pins_of peek g (snd (rockchip_gpio_readl P g r h)) s = pins_of peek g h s"
proof -
  have law: "gpio_law P peek g" using assms by (simp add: file_fits_def)
  show "fst (rockchip_gpio_readl P g r h) = pins_of peek g h r"
    using file_cells [OF assms] law
    by (cases "gpio_type g") (auto simp: rockchip_gpio_readl_def gpio_readl_v2_def pins_of_def Let_def law_read split_beta)
  assume "file_fits (P, peek, g) s"
  then show "pins_of peek g (snd (rockchip_gpio_readl P g r h)) s = pins_of peek g h s"
    using file_cells [of P peek g s] law
    by (cases "gpio_type g") (auto simp: rockchip_gpio_readl_def gpio_readl_v2_def pins_of_def Let_def law_read split_beta)
qed

lemma hiword_pin_bit:
  "k < 16 \<Longrightarrow> m < 16 \<Longrightarrow> bit (hiword old (BIT m OR BIT (m + 16))) k = (if k = m then True else bit old k)"
  "k < 16 \<Longrightarrow> m < 16 \<Longrightarrow> bit (hiword old (BIT (m + 16))) k = (if k = m then False else bit old k)"
  by (auto simp: bit_hiword bit_or_iff bit_BIT)

text \<open>The half of a pair that has pin \<open>n\<close>.\<close>

definition half_of :: "nat \<Rightarrow> int" where
  "half_of n = (if n \<ge> 16 then 4 else 0)"

lemma half_of_cases: "half_of n = 0 \<or> half_of n = 4"
  by (simp add: half_of_def)

lemma bit_pins_of_half:
  assumes "file_fits (P, peek, g) r" "gpio_type g = GPIO_TYPE_V2" "k < 32"
  shows "bit (pins_of peek g h r) k = bit (peek h (reg_base g + r + half_of k)) (k mod 16)"
proof (cases "k < 16")
  case False
  then have "k mod 16 = k - 16" using assms(3) by (simp add: mod_if)
  then show ?thesis using False by (simp add: bit_pins_of_v2 [OF assms(1,2)] half_of_def)
qed (simp add: bit_pins_of_v2 [OF assms(1,2)] half_of_def)

lemma same_pin: "k < 32 \<Longrightarrow> n < 32 \<Longrightarrow> half_of n = half_of k \<and> k mod 16 = n mod 16 \<longleftrightarrow> k = n"
  by (auto simp: half_of_def mod_if split: if_splits)

lemma view_writel_bit:
  assumes "file_fits (P, peek, g) r" "file_fits (P, peek, g) s" "n < 32"
  shows "bit (pins_of peek g (rockchip_gpio_writel_bit P g n x r h) s) k
       = (if s = r \<and> k = n then x \<noteq> 0 else bit (pins_of peek g h s) k)"
proof (cases "k < 32")
  case False
  then show ?thesis using assms(3) by (auto dest: bit_imp_le_length)
next
  case k: True
  have law: "gpio_law P peek g" using assms by (simp add: file_fits_def)
  show ?thesis
  proof (cases "gpio_type g")
    case GPIO_TYPE_V1
    then show ?thesis
      using file_cells(1) [OF assms(2)] file_cells(1) [OF assms(1)] law assms(3) k
      by (auto simp: rockchip_gpio_writel_bit_def pins_of_def Let_def law_write law_read split_beta bit_simps bit_BIT)
  next
    case GPIO_TYPE_V2
    have c: "reg_base g + s + half_of k \<in> gpio_cells g"
      using file_cells(2) [OF assms(2) GPIO_TYPE_V2] by (simp add: half_of_def)
    have w: "rockchip_gpio_writel_bit P g n x r h = gp_writel P (reg_base g + r + half_of n)
        (if x \<noteq> 0 then BIT (n mod 16) OR BIT (n mod 16 + 16) else BIT (n mod 16 + 16)) h"
      by (simp add: rockchip_gpio_writel_bit_def GPIO_TYPE_V2 half_of_def)
    have "half_of n = half_of k \<and> k mod 16 = n mod 16 \<longleftrightarrow> k = n" by (rule same_pin [OF k assms(3)])
    moreover have "reg_base g + r + half_of n = reg_base g + s + half_of k \<longleftrightarrow> r = s \<and> half_of n = half_of k"
      by (rule halves_apart [OF assms(1,2) GPIO_TYPE_V2 half_of_cases half_of_cases])
    ultimately show ?thesis
      unfolding bit_pins_of_half [OF assms(2) GPIO_TYPE_V2 k] w law_write [OF law c]
      by (cases "x \<noteq> 0"; cases "r = s"; cases "k mod 16 = n mod 16") (simp_all add: GPIO_TYPE_V2 hiword_pin_bit)
  qed
qed

lemma view_readl_bit:
  assumes "file_fits (P, peek, g) r" "n < 32"
  shows "fst (rockchip_gpio_readl_bit P g n r h) = (if bit (pins_of peek g h r) n then 1 else 0)"
    and "file_fits (P, peek, g) s \<Longrightarrow> pins_of peek g (snd (rockchip_gpio_readl_bit P g n r h)) s = pins_of peek g h s"
proof -
  have law: "gpio_law P peek g" using assms by (simp add: file_fits_def)
  have one: "drop_bit m w AND 1 = (if bit w m then 1 else 0)" for w :: u32 and m
    by (simp add: and_one_eq bit_iff_odd_drop_bit mod_2_eq_odd)
  show "fst (rockchip_gpio_readl_bit P g n r h) = (if bit (pins_of peek g h r) n then 1 else 0)"
  proof (cases "gpio_type g")
    case GPIO_TYPE_V1
    then show ?thesis using file_cells(1) [OF assms(1)] law
      by (simp add: rockchip_gpio_readl_bit_def pins_of_def Let_def law_read split_beta one)
  next
    case GPIO_TYPE_V2
    then show ?thesis using file_cells(2) [OF assms(1)] law
      by (simp add: rockchip_gpio_readl_bit_def bit_pins_of_half [OF assms(1) _ assms(2)] Let_def law_read split_beta one half_of_def)
  qed
  assume "file_fits (P, peek, g) s"
  then show "pins_of peek g (snd (rockchip_gpio_readl_bit P g n r h)) s = pins_of peek g h s"
    using file_cells [of P peek g s] law
    by (cases "gpio_type g") (auto simp: rockchip_gpio_readl_bit_def pins_of_def Let_def law_read split_beta)
qed

text \<open>Both versions are such a file.\<close>

definition file_view where "file_view p h r = (case p of (P, peek, g) \<Rightarrow> pins_of peek g h r)"
definition file_put where "file_put p w r h = (case p of (P, peek, g) \<Rightarrow> rockchip_gpio_writel P g w r h)"
definition file_get where "file_get p r h = (case p of (P, peek, g) \<Rightarrow> rockchip_gpio_readl P g r h)"
definition file_put_bit where "file_put_bit p n x r h = (case p of (P, peek, g) \<Rightarrow> rockchip_gpio_writel_bit P g n x r h)"
definition file_get_bit where "file_get_bit p n r h = (case p of (P, peek, g) \<Rightarrow> rockchip_gpio_readl_bit P g n r h)"

lemmas file_defs = file_view_def file_put_def file_get_def file_put_bit_def file_get_bit_def

interpretation gpio_file: register_file file_fits file_view file_put file_get file_put_bit file_get_bit
  by unfold_locales
    (auto simp: file_defs view_writel view_readl view_writel_bit view_readl_bit)

text \<open>The registers a bank that is set up uses for its pins.\<close>

lemma bank_file:
  assumes "gpio_law P peek g" "bank_wf g"
  shows "file_fits (P, peek, g) (port_dr (gpio_regs g))" "file_fits (P, peek, g) (port_ddr (gpio_regs g))"
    "file_fits (P, peek, g) (int_en (gpio_regs g))" "file_fits (P, peek, g) (int_mask (gpio_regs g))"
    "file_fits (P, peek, g) (int_type (gpio_regs g))" "file_fits (P, peek, g) (int_polarity (gpio_regs g))"
    "file_fits (P, peek, g) (debounce (gpio_regs g))"
    "gpio_type g = GPIO_TYPE_V2 \<Longrightarrow> file_fits (P, peek, g) (int_bothedge (gpio_regs g))"
    "gpio_type g = GPIO_TYPE_V2 \<Longrightarrow> file_fits (P, peek, g) (dbclk_div_en (gpio_regs g))"
  using assms by (cases "gpio_type g"; simp add: file_fits_def bank_wf_def pin_regs_def)+

text \<open>They are different ones.\<close>

lemma bank_regs_distinct:
  assumes "bank_wf g"
  shows "distinct [port_dr (gpio_regs g), port_ddr (gpio_regs g), int_en (gpio_regs g), int_mask (gpio_regs g),
      int_type (gpio_regs g), int_polarity (gpio_regs g), debounce (gpio_regs g)]"
    and "gpio_type g = GPIO_TYPE_V2 \<Longrightarrow> distinct [port_dr (gpio_regs g), port_ddr (gpio_regs g), int_en (gpio_regs g),
      int_mask (gpio_regs g), int_type (gpio_regs g), int_polarity (gpio_regs g), debounce (gpio_regs g),
      int_bothedge (gpio_regs g), dbclk_div_en (gpio_regs g)]"
  using assms by (cases "gpio_type g"; simp add: bank_wf_def gpio_regs_v1_def gpio_regs_v2_def)+

lemma pins_of_cong:
  "(\<And>a. a \<in> gpio_cells g \<Longrightarrow> peek h' a = peek h a) \<Longrightarrow> file_fits (P, peek, g) r \<Longrightarrow> pins_of peek g h' r = pins_of peek g h r"
  using file_cells [of P peek g r] by (cases "gpio_type g") (auto simp: pins_of_def Let_def)

lemma pins_of_readl: "file_fits (P, peek, g) r \<Longrightarrow> pins_of peek g (snd (gp_readl P a h)) r = pins_of peek g h r"
  using law_read(2) [of P peek g] by (intro pins_of_cong) (auto simp: file_fits_def)

end
