(* ===== verification/Gpio_Sim.thy ===== *)
theory Gpio_Sim
  imports Gpio_Regs
begin

text \<open>
  A simulated bank of each version that obeys the laws, for the examples: its registers, the levels that
  successive reads of the port see, how often each clock is enabled, the chips \<open>gpiolib\<close> has, the handler of the
  bank's interrupt and what has been handled.
\<close>

record gpio_sim =
  gsim_cells :: "int \<Rightarrow> u32"
  gsim_levels :: "u32 list"
  gsim_clocks :: "clk_ptr \<Rightarrow> int"
  gsim_chips :: "int set"
  gsim_chained :: "int set"
  gsim_handled :: "int list"

definition gsim_regs :: "gpio_version \<Rightarrow> rockchip_gpio_regs" where
  "gsim_regs t = (case t of GPIO_TYPE_V1 \<Rightarrow> gpio_regs_v1 | GPIO_TYPE_V2 \<Rightarrow> gpio_regs_v2)"

text \<open>The registers below \<open>0x48\<close> of version 2 have 16 bits.\<close>

definition gsim_peek :: "gpio_version \<Rightarrow> gpio_sim \<Rightarrow> int \<Rightarrow> u32" where
  "gsim_peek t h a = (if t = GPIO_TYPE_V2 \<and> a < 0x48 then take_bit 16 (gsim_cells h a) else gsim_cells h a)"

definition gsim_readl :: "gpio_version \<Rightarrow> int \<Rightarrow> gpio_sim \<Rightarrow> u32 \<times> gpio_sim" where
  "gsim_readl t a h = (if a = ext_port (gsim_regs t)
     then case gsim_levels h of [] \<Rightarrow> (0, h) | l # ls \<Rightarrow> (l, h\<lparr>gsim_levels := ls\<rparr>)
     else (gsim_peek t h a, h))"

definition gsim_gwritel :: "gpio_version \<Rightarrow> int \<Rightarrow> u32 \<Rightarrow> gpio_sim \<Rightarrow> gpio_sim" where
  "gsim_gwritel t a v h = h\<lparr>gsim_cells := (gsim_cells h)(a := if t = GPIO_TYPE_V2 \<and> a < 0x48 then hiword (gsim_peek t h a) v else v)\<rparr>"

definition gsim_count :: "int \<Rightarrow> clk_ptr \<Rightarrow> gpio_sim \<Rightarrow> gpio_sim" where
  "gsim_count d c h = h\<lparr>gsim_clocks := (gsim_clocks h)(c := gsim_clocks h c + d)\<rparr>"

definition gsim_port :: "gpio_version \<Rightarrow> gpio_sim gpio_port" where
  "gsim_port t = \<lparr>gp_readl = gsim_readl t, gp_writel = gsim_gwritel t, gp_clk_enable = gsim_count 1, gp_clk_disable = gsim_count (- 1),
     gp_clk_rate = \<lambda>c h. case c of Clk n \<Rightarrow> 24000000 | _ \<Rightarrow> 0, irq_create_mapping = \<lambda>d n h. (int n + 64, h),
     irq_find_mapping = \<lambda>d n h. if n = 3 then 0 else int n + 64, irq_set_handler_locked = \<lambda>d f h. h,
     irq_reg_readl = \<lambda>gc off h. (let a = gc_reg_base gc + off in
       if gc_v2 gc then (push_bit 16 (fst (gsim_readl t (a + 4) h)) OR fst (gsim_readl t a h), h) else gsim_readl t a h),
     irq_reg_writel = \<lambda>gc v off h. (let a = gc_reg_base gc + off in
       if gc_v2 gc then gsim_gwritel t (a + 4) (drop_bit 16 v OR 0xffff0000) (gsim_gwritel t a ((v AND 0xffff) OR 0xffff0000) h)
       else gsim_gwritel t a v h),
     generic_handle_irq = \<lambda>v h. h\<lparr>gsim_handled := gsim_handled h @ [v]\<rparr>, chained_irq_enter = \<lambda>h. h, chained_irq_exit = \<lambda>h. h\<rparr>"

lemma gsim_port_fields [simp]:
  "gp_readl (gsim_port t) = gsim_readl t" "gp_writel (gsim_port t) = gsim_gwritel t" "gp_clk_enable (gsim_port t) = gsim_count 1"
  "gp_clk_disable (gsim_port t) = gsim_count (- 1)" "gp_clk_rate (gsim_port t) = (\<lambda>c h. case c of Clk n \<Rightarrow> 24000000 | _ \<Rightarrow> 0)"
  "irq_find_mapping (gsim_port t) = (\<lambda>d n h. if n = 3 then 0 else int n + 64)" "irq_set_handler_locked (gsim_port t) = (\<lambda>d f h. h)"
  "generic_handle_irq (gsim_port t) = (\<lambda>v h. h\<lparr>gsim_handled := gsim_handled h @ [v]\<rparr>)"
  "chained_irq_enter (gsim_port t) = (\<lambda>h. h)" "chained_irq_exit (gsim_port t) = (\<lambda>h. h)"
  by (simp_all add: gsim_port_def)

definition gsim_gc :: "gpio_version \<Rightarrow> irq_chip_generic" where
  "gsim_gc t = \<lparr>gc_v2 = (t = GPIO_TYPE_V2), gc_reg_base = 0, gc_mask = int_mask (gsim_regs t), gc_ack = port_eoi (gsim_regs t),
     wake_enabled = - 1, wake_active = 0, mask_cache = - 1\<rparr>"

definition gsim_bank :: "gpio_version \<Rightarrow> gpio_bank" where
  "gsim_bank t = \<lparr>pin_base = 0, nr_pins = 32, bank_name = ''gpio0'', bank_num = 0, iomux = [], drv = [], pull_type = [],
     recalced_mask = 0, route_mask = 0, reg_base = 0, bank_clk = Clk 0, db_clk = (case t of GPIO_TYPE_V1 \<Rightarrow> Clk_NULL | GPIO_TYPE_V2 \<Rightarrow> Clk 1),
     bank_irq = 33, saved_masks = 0, irq_dom = Some 0,
     bank_chip = \<lparr>chip_base = 0, chip_ngpio = 32, chip_label = ''gpio0''\<rparr>, irq_gc = gsim_gc t, gpio_regs = gsim_regs t, gpio_type = t,
     toggle_edge_mode = 0\<rparr>"

definition gsim_off :: gpio_sim where
  "gsim_off = \<lparr>gsim_cells = \<lambda>a. 0, gsim_levels = [], gsim_clocks = \<lambda>c. 0, gsim_chips = {}, gsim_chained = {}, gsim_handled = []\<rparr>"

lemma gsim_bank_wf [simp]: "bank_wf (gsim_bank t)"
  by (cases t) (simp_all add: bank_wf_def gsim_bank_def gsim_regs_def)

lemma gsim_cell_range: "a \<in> gpio_cells (gsim_bank t) \<Longrightarrow> a < 0x4c \<and> (t = GPIO_TYPE_V2 \<longrightarrow> a < 0x48)"
  by (cases t) (auto simp: gpio_cells_def gsim_bank_def pin_regs_def gpio_regs_v1_def gpio_regs_v2_def)

lemma gsim_law [simp]: "gpio_law (gsim_port t) (gsim_peek t) (gsim_bank t)"
proof -
  have u: "drop_bit 16 (take_bit 16 w) = (0 :: u32)" for w by (rule bit_word_eqI) (simp add: bit_simps)
  have e: "ext_port (gsim_regs t) \<ge> 0x50" by (cases t) (simp_all add: gsim_regs_def gpio_regs_v1_def gpio_regs_v2_def)
  have v: "gpio_type (gsim_bank t) = t" by (simp add: gsim_bank_def)
  have r: "gsim_peek t (snd (gsim_readl t a' h)) a = gsim_peek t h a" for a a' h
    by (auto simp: gsim_readl_def gsim_peek_def split: list.split)
  have f: "fst (gsim_readl t a h) = gsim_peek t h a" if "a < 0x4c" for a h
    using that e by (simp add: gsim_readl_def)
  have w: "gsim_peek t (gsim_gwritel t a v h) a = (if t = GPIO_TYPE_V2 then hiword (gsim_peek t h a) v else v)"
    if "t = GPIO_TYPE_V2 \<longrightarrow> a < 0x48" for a v h
    using that by (auto simp: gsim_gwritel_def gsim_peek_def take_hiword)
  have o: "gsim_peek t (gsim_gwritel t a' v h) a = gsim_peek t h a" if "a' \<noteq> a" for a a' v h
    using that by (simp add: gsim_gwritel_def gsim_peek_def)
  have z: "t = GPIO_TYPE_V2 \<Longrightarrow> a < 0x48 \<Longrightarrow> drop_bit 16 (gsim_peek t h a) = 0" for a h
    by (simp add: gsim_peek_def u)
  have c: "a < 0x4c" "t = GPIO_TYPE_V2 \<longrightarrow> a < 0x48" if "a \<in> gpio_cells (gsim_bank t)" for a
    using gsim_cell_range [OF that] by simp_all
  show ?thesis
    unfolding gpio_law_def v
  proof (intro conjI ballI allI impI)
    fix a assume a: "a \<in> gpio_cells (gsim_bank t)"
    show "fst (gp_readl (gsim_port t) a h) = gsim_peek t h a" for h using f [OF c(1) [OF a]] by (simp add: gsim_port_def)
    show "gsim_peek t (gp_writel (gsim_port t) a x h) a = (if t = GPIO_TYPE_V2 then hiword (gsim_peek t h a) x else x)" for h x
      using w [OF c(2) [OF a]] by (simp add: gsim_port_def)
    show "drop_bit 16 (gsim_peek t h a) = 0" if "t = GPIO_TYPE_V2" for h using z [OF that] c(2) [OF a] that by simp
    show "gsim_peek t (gp_writel (gsim_port t) a' x h) a = gsim_peek t h a" if "a' \<noteq> a" for a' h x
      using o [OF that] by (simp add: gsim_port_def)
    show "gsim_peek t (snd (gp_readl (gsim_port t) a' h)) a = gsim_peek t h a" for a' h using r by (simp add: gsim_port_def)
  qed
qed

end
