(* ===== verification/Gpio_Irq.thy ===== *)
theory Gpio_Irq
  imports Gpio_Sim
begin

text \<open>
  The interrupts of a GPIO bank: the chained handler, the type of an interrupt, and suspending.
\<close>

section \<open>The chained handler\<close>

text \<open>The pending interrupts, from the least; \<open>__ffs\<close> is the first.\<close>

definition pending :: "u32 \<Rightarrow> nat list" where
  "pending w = filter (bit w) [0..<32]"

definition ffs32 :: "u32 \<Rightarrow> nat" where
  "ffs32 w = hd (pending w)"

text \<open>
  One round for an interrupt on both edges of a bank that has no such type: the polarity is set for the edge that
  leaves the level last seen, then the level is read again.
\<close>

definition toggle_step :: "'h gpio_port \<Rightarrow> gpio_bank \<Rightarrow> nat \<Rightarrow> u32 \<times> 'h \<Rightarrow> u32 \<times> 'h" where
  "toggle_step P g n s =
     (let (data, h) = s; reg = gpio_regs g; (pol, h1) = gp_readl P (reg_base g + int_polarity reg) h;
          pol = (if data AND BIT n \<noteq> 0 then pol AND NOT (BIT n) else pol OR BIT n)
      in gp_readl P (reg_base g + ext_port reg) (gp_writel P (reg_base g + int_polarity reg) pol h1))"

text \<open>The loop ends when the level has not changed; it need not end, then the handler does not return.\<close>

partial_function (option) toggle_loop :: "'h gpio_port \<Rightarrow> gpio_bank \<Rightarrow> nat \<Rightarrow> u32 \<times> 'h \<Rightarrow> 'h option" where
  "toggle_loop P g n s =
     (if (fst (toggle_step P g n s) AND BIT n) \<noteq> (fst s AND BIT n) then toggle_loop P g n (toggle_step P g n s)
      else Some (snd (toggle_step P g n s)))"

text \<open>What is done for one pending interrupt.\<close>

definition demux_one :: "'h gpio_port \<Rightarrow> gpio_bank \<Rightarrow> nat \<Rightarrow> 'h \<Rightarrow> 'h option" where
  "demux_one P g n h =
     (let virq = irq_find_mapping P (irq_dom g) n h in
      if virq = 0 then Some h
      else map_option (generic_handle_irq P virq)
        (if toggle_edge_mode g AND BIT n \<noteq> 0
         then toggle_loop P g n (gp_readl P (reg_base g + ext_port (gpio_regs g)) h) else Some h))"

lemma ffs32_least: "w \<noteq> 0 \<Longrightarrow> bit w (ffs32 w) \<and> (\<forall>k < ffs32 w. \<not> bit w k) \<and> ffs32 w < 32"
proof -
  assume "w \<noteq> 0"
  then obtain n where n: "bit w n" by (auto simp: bit_eq_iff)
  then have "n < 32" using bit_word_less by fastforce
  then have "pending w \<noteq> []" using n by (auto simp: pending_def filter_empty_conv)
  then have h: "ffs32 w \<in> set (pending w)" by (simp add: ffs32_def)
  have "sorted (pending w)" by (simp add: pending_def sorted_wrt_filter)
  then have "\<forall>k \<in> set (pending w). ffs32 w \<le> k" using \<open>pending w \<noteq> []\<close> by (cases "pending w") (auto simp: ffs32_def)
  then show ?thesis using h bit_word_less [of w] by (fastforce simp: pending_def)
qed

lemma clear_bit_less: "bit w n \<Longrightarrow> unat (w AND NOT (BIT n)) < unat (w :: u32)"
proof -
  assume "bit w n"
  then have "w AND NOT (BIT n) \<noteq> w" by (metis bit_and_iff bit_not_iff bit_BIT bit_word_less)
  moreover have "unat (w AND NOT (BIT n)) \<le> unat w"
    by (metis word_and_le2 word_le_nat_alt)
  ultimately show ?thesis using word_unat_eq_iff [of "w AND NOT (BIT n)" w] by linarith
qed

function demux_loop :: "'h gpio_port \<Rightarrow> gpio_bank \<Rightarrow> u32 \<Rightarrow> 'h \<Rightarrow> 'h option" where
  "demux_loop P g pend h =
     (if pend = 0 then Some h
      else let irq = ffs32 pend in Option.bind (demux_one P g irq h) (demux_loop P g (pend AND NOT (BIT irq))))"
  by pat_completeness auto
termination
  by (relation "measure (\<lambda>(P, g, pend, h). unat pend)") (simp_all add: clear_bit_less ffs32_least)

definition rockchip_irq_demux :: "'h gpio_port \<Rightarrow> gpio_bank \<Rightarrow> 'h \<Rightarrow> 'h option" where
  "rockchip_irq_demux P g h =
     (let (pend, h1) = gp_readl P (reg_base g + int_status (gpio_regs g)) (chained_irq_enter P h)
      in map_option (chained_irq_exit P) (demux_loop P g pend h1))"

declare demux_loop.simps [simp del]

section \<open>The type of an interrupt\<close>

definition IRQ_TYPE_EDGE_RISING :: u32 where "IRQ_TYPE_EDGE_RISING = 1"
definition IRQ_TYPE_EDGE_FALLING :: u32 where "IRQ_TYPE_EDGE_FALLING = 2"
definition IRQ_TYPE_EDGE_BOTH :: u32 where "IRQ_TYPE_EDGE_BOTH = IRQ_TYPE_EDGE_FALLING OR IRQ_TYPE_EDGE_RISING"
definition IRQ_TYPE_LEVEL_HIGH :: u32 where "IRQ_TYPE_LEVEL_HIGH = 4"
definition IRQ_TYPE_LEVEL_LOW :: u32 where "IRQ_TYPE_LEVEL_LOW = 8"

text \<open>The second part that runs under the lock of the bank: \<open>level\<close> and \<open>polarity\<close> are the registers as they were.\<close>

definition set_type_regs :: "'h gpio_port \<Rightarrow> nat \<Rightarrow> u32 \<Rightarrow> gpio_bank \<Rightarrow> u32 \<Rightarrow> u32 \<Rightarrow> 'h \<Rightarrow> gpio_bank \<times> 'h \<times> errno option" where
  "set_type_regs P n ty g level polarity h =
     (let msk = BIT n; reg = gpio_regs g; cleared = g\<lparr>toggle_edge_mode := toggle_edge_mode g AND NOT msk\<rparr>;
          finish = (\<lambda>g1 lv pl h. (g1, rockchip_gpio_writel P g pl (int_polarity reg) (rockchip_gpio_writel P g lv (int_type reg) h), None))
      in if ty = IRQ_TYPE_EDGE_BOTH then
           if gpio_type g = GPIO_TYPE_V2 then (cleared, rockchip_gpio_writel_bit P g n 1 (int_bothedge reg) h, None)
           else let (data, h1) = gp_readl P (reg_base g + ext_port reg) h
             in finish (g\<lparr>toggle_edge_mode := toggle_edge_mode g OR msk\<rparr>) (level OR msk)
                  (if data AND msk \<noteq> 0 then polarity AND NOT msk else polarity OR msk) h1
         else if ty = IRQ_TYPE_EDGE_RISING then finish cleared (level OR msk) (polarity OR msk) h
         else if ty = IRQ_TYPE_EDGE_FALLING then finish cleared (level OR msk) (polarity AND NOT msk) h
         else if ty = IRQ_TYPE_LEVEL_HIGH then finish cleared (level AND NOT msk) (polarity OR msk) h
         else if ty = IRQ_TYPE_LEVEL_LOW then finish cleared (level AND NOT msk) (polarity AND NOT msk) h
         else (g, h, Some EINVAL))"

definition rockchip_irq_set_type :: "'h gpio_port \<Rightarrow> irq_data \<Rightarrow> u32 \<Rightarrow> gpio_bank \<Rightarrow> 'h \<Rightarrow> gpio_bank \<times> 'h \<times> errno option" where
  "rockchip_irq_set_type P d ty g h =
     (let h1 = rockchip_gpio_writel_bit P g (hwirq d) 0 (port_ddr (gpio_regs g)) h;
          h2 = irq_set_handler_locked P d (if ty AND IRQ_TYPE_EDGE_BOTH \<noteq> 0 then handle_edge_irq else handle_level_irq) h1;
          (level, h3) = rockchip_gpio_readl P g (int_type (gpio_regs g)) h2;
          (polarity, h4) = rockchip_gpio_readl P g (int_polarity (gpio_regs g)) h3
      in set_type_regs P (hwirq d) ty g level polarity h4)"

lemmas irq_types = IRQ_TYPE_EDGE_BOTH_def IRQ_TYPE_EDGE_RISING_def IRQ_TYPE_EDGE_FALLING_def IRQ_TYPE_LEVEL_HIGH_def IRQ_TYPE_LEVEL_LOW_def

section \<open>Suspending\<close>

definition rockchip_irq_suspend :: "'h gpio_port \<Rightarrow> gpio_bank \<Rightarrow> 'h \<Rightarrow> gpio_bank \<times> 'h" where
  "rockchip_irq_suspend P g h =
     (let gc = irq_gc g; (m, h1) = irq_reg_readl P gc (int_mask (gpio_regs g)) h
      in (g\<lparr>saved_masks := m\<rparr>, irq_reg_writel P gc (NOT (wake_active gc)) (int_mask (gpio_regs g)) h1))"

definition rockchip_irq_resume :: "'h gpio_port \<Rightarrow> gpio_bank \<Rightarrow> 'h \<Rightarrow> 'h" where
  "rockchip_irq_resume P g h = irq_reg_writel P (irq_gc g) (saved_masks g) (int_mask (gpio_regs g)) h"

section \<open>In which order interrupts are handled\<close>

lemma pending_step: "w \<noteq> 0 \<Longrightarrow> pending w = ffs32 w # pending (w AND NOT (BIT (ffs32 w)))"
proof -
  assume "w \<noteq> 0"
  then have f: "bit w (ffs32 w)" "\<forall>k < ffs32 w. \<not> bit w k" "ffs32 w < 32" using ffs32_least by auto
  let ?n = "ffs32 w"
  have "[0..<32] = [0..<?n] @ ?n # [Suc ?n..<32]"
    using f(3) upt_add_eq_append [of 0 ?n "32 - ?n"] upt_conv_Cons [of ?n 32] by simp
  then have "pending w = filter (bit w) [0..<?n] @ ?n # filter (bit w) [Suc ?n..<32]"
    and "pending (w AND NOT (BIT ?n)) = filter (bit (w AND NOT (BIT ?n))) [0..<?n] @ filter (bit (w AND NOT (BIT ?n))) [Suc ?n..<32]"
    using f(1) by (simp_all add: pending_def bit_simps bit_BIT f(3))
  moreover have "filter (bit v) [0..<?n] = []" if "\<forall>k < ?n. \<not> bit v k" for v using that by (simp add: filter_empty_conv)
  moreover have "filter (bit (w AND NOT (BIT ?n))) [Suc ?n..<32] = filter (bit w) [Suc ?n..<32]"
    by (rule filter_cong) (auto simp: bit_simps bit_BIT)
  ultimately show ?thesis using f(2) by (simp add: bit_simps)
qed

fun handle_pins :: "'h gpio_port \<Rightarrow> gpio_bank \<Rightarrow> nat list \<Rightarrow> 'h \<Rightarrow> 'h option" where
  "handle_pins P g [] h = Some h"
| "handle_pins P g (n # ns) h = Option.bind (demux_one P g n h) (handle_pins P g ns)"

lemma pending_0 [simp]: "pending 0 = []"
  by (simp add: pending_def)

lemma demux_loop_pins: "demux_loop P g pend h = handle_pins P g (pending pend) h"
proof (induction P g pend h rule: demux_loop.induct)
  case (1 P g pend h)
  show ?case
  proof (cases "pend = 0")
    case False
    have "demux_loop P g pend h = Option.bind (demux_one P g (ffs32 pend) h) (demux_loop P g (pend AND NOT (BIT (ffs32 pend))))"
      by (subst demux_loop.simps) (simp add: False Let_def)
    also have "\<dots> = Option.bind (demux_one P g (ffs32 pend) h) (handle_pins P g (pending (pend AND NOT (BIT (ffs32 pend)))))"
      using 1 [OF False refl] by (cases "demux_one P g (ffs32 pend) h") simp_all
    finally show ?thesis by (simp add: pending_step [OF False])
  qed (subst demux_loop.simps, simp)
qed

text \<open>What is handled is the log \<open>handled\<close>; a mapping stays while the handler runs, and only handling changes the log.\<close>

definition log_law :: "'h gpio_port \<Rightarrow> ('h \<Rightarrow> int list) \<Rightarrow> (nat \<Rightarrow> int) \<Rightarrow> gpio_bank \<Rightarrow> bool" where
  "log_law P handled m g \<longleftrightarrow>
     (\<forall>n h. irq_find_mapping P (irq_dom g) n h = m n)
     \<and> (\<forall>v h. handled (generic_handle_irq P v h) = handled h @ [v])
     \<and> (\<forall>a h. handled (snd (gp_readl P a h)) = handled h) \<and> (\<forall>a v h. handled (gp_writel P a v h) = handled h)
     \<and> (\<forall>h. handled (chained_irq_enter P h) = handled h) \<and> (\<forall>h. handled (chained_irq_exit P h) = handled h)"

lemma toggle_step_log: "log_law P handled m g \<Longrightarrow> handled (snd (toggle_step P g n s)) = handled (snd s)"
  by (simp add: toggle_step_def log_law_def Let_def split_beta)


text \<open>
  \<open>level_seen P g n s k\<close> is the level of the pin after \<open>k\<close> rounds. The loop ends after the first round that did not change it.
\<close>

definition level_seen :: "'h gpio_port \<Rightarrow> gpio_bank \<Rightarrow> nat \<Rightarrow> u32 \<times> 'h \<Rightarrow> nat \<Rightarrow> bool" where
  "level_seen P g n s k = bit (fst ((toggle_step P g n ^^ k) s)) n"

definition toggle_ends :: "'h gpio_port \<Rightarrow> gpio_bank \<Rightarrow> nat \<Rightarrow> u32 \<times> 'h \<Rightarrow> nat \<Rightarrow> 'h \<Rightarrow> bool" where
  "toggle_ends P g n s k h \<longleftrightarrow> h = snd ((toggle_step P g n ^^ Suc k) s) \<and> level_seen P g n s (Suc k) = level_seen P g n s k
     \<and> (\<forall>j < k. level_seen P g n s (Suc j) \<noteq> level_seen P g n s j)"

lemma level_seen_Suc: "level_seen P g n s (Suc k) = level_seen P g n (toggle_step P g n s) k"
  by (simp add: level_seen_def funpow_swap1)

lemma toggle_ends_Suc:
  "level_seen P g n s 1 \<noteq> level_seen P g n s 0 \<Longrightarrow> toggle_ends P g n (toggle_step P g n s) k h \<longleftrightarrow> toggle_ends P g n s (Suc k) h"
  unfolding toggle_ends_def level_seen_Suc [symmetric] All_less_Suc2 by (simp add: funpow_swap1)

lemma same_level:
  "n < 32 \<Longrightarrow> (fst (toggle_step P g n s) AND BIT n \<noteq> fst s AND BIT n) = (level_seen P g n s 1 \<noteq> level_seen P g n s 0)"
proof -
  assume n: "n < 32"
  have "(a AND BIT n \<noteq> b AND BIT n) = (bit a n \<noteq> bit b n)" for a b :: u32
  proof -
    have "w AND BIT n = (if bit w n then BIT n else 0)" for w :: u32
      by (rule bit_word_eqI) (auto simp: bit_and_iff bit_BIT)
    moreover have "bit (BIT n :: u32) n" using n by (simp add: bit_BIT)
    then have "BIT n \<noteq> (0 :: u32)" by auto
    ultimately show ?thesis by auto
  qed
  then show ?thesis by (simp add: level_seen_def)
qed

lemma toggle_loop_some:
  assumes "toggle_loop P g n s = Some h" "n < 32"
  shows "\<exists>k. toggle_ends P g n s k h"
proof -
  have "(\<lambda>(((P, g), n), s) h. n < 32 \<longrightarrow> (\<exists>k. toggle_ends P g n s k h)) (((P, g), n), s) h"
  proof (rule toggle_loop.raw_induct [OF _ assms(1)], unfold prod.case, rule impI)
    fix f and P :: "'a gpio_port" and g n s h
    assume IH: "\<And>P g n s h. f P g n s = Some h \<Longrightarrow> n < 32 \<longrightarrow> (\<exists>k. toggle_ends P g n s k h)"
      and eq: "(if fst (toggle_step P g n s) AND BIT n \<noteq> fst s AND BIT n then f P g n (toggle_step P g n s)
        else Some (snd (toggle_step P g n s))) = Some h" and n: "n < 32"
    show "\<exists>k. toggle_ends P g n s k h"
    proof (cases "level_seen P g n s 1 = level_seen P g n s 0")
      case True
      then have "toggle_ends P g n s 0 h" using eq unfolding same_level [OF n] by (simp add: toggle_ends_def)
      then show ?thesis by blast
    next
      case False
      then have "f P g n (toggle_step P g n s) = Some h" using eq unfolding same_level [OF n] by simp
      then show ?thesis using IH n toggle_ends_Suc [OF False] by blast
    qed
  qed
  then show ?thesis using assms(2) by simp
qed

lemma toggle_loop_ends:
  assumes "n < 32" "toggle_ends P g n s k h"
  shows "toggle_loop P g n s = Some h"
  using assms(2)
proof (induction k arbitrary: s)
  case 0
  then show ?case by (subst toggle_loop.simps) (simp add: same_level [OF assms(1)] toggle_ends_def)
next
  case (Suc k)
  have "level_seen P g n s 1 \<noteq> level_seen P g n s 0" using Suc.prems by (auto simp: toggle_ends_def)
  then have "toggle_loop P g n (toggle_step P g n s) = Some h"
    using Suc.prems toggle_ends_Suc [of P g n s k h] by (intro Suc.IH) simp
  with \<open>level_seen P g n s 1 \<noteq> level_seen P g n s 0\<close> show ?case by (subst toggle_loop.simps) (simp add: same_level [OF assms(1)])
qed

text \<open>
  C28: the loop that turns the polarity of an interrupt on both edges ends after the first round in which the level
  has not changed, with the state of that round; it does not return just when the level changes in every round.
\<close>

theorem toggle_loop_returns:
  assumes "n < 32"
  shows "(\<forall>h. toggle_loop P g n s = Some h \<longleftrightarrow> (\<exists>k. toggle_ends P g n s k h))
    \<and> (toggle_loop P g n s = None \<longleftrightarrow> (\<forall>k. level_seen P g n s (Suc k) \<noteq> level_seen P g n s k))"
proof -
  have i: "toggle_loop P g n s = Some h \<longleftrightarrow> (\<exists>k. toggle_ends P g n s k h)" for h
    using toggle_loop_some [OF _ assms, of P g s h] toggle_loop_ends [OF assms, of P g s _ h] by blast
  have "toggle_loop P g n s = None \<longleftrightarrow> (\<forall>k. level_seen P g n s (Suc k) \<noteq> level_seen P g n s k)"
  proof
    assume none: "toggle_loop P g n s = None"
    show "\<forall>k. level_seen P g n s (Suc k) \<noteq> level_seen P g n s k"
    proof (rule ccontr)
      assume "\<not> (\<forall>k. level_seen P g n s (Suc k) \<noteq> level_seen P g n s k)"
      then obtain k where "level_seen P g n s (Suc k) = level_seen P g n s k" "\<forall>j < k. level_seen P g n s (Suc j) \<noteq> level_seen P g n s j"
        using exists_least_iff [of "\<lambda>k. level_seen P g n s (Suc k) = level_seen P g n s k"] by auto
      then have "toggle_loop P g n s = Some (snd ((toggle_step P g n ^^ Suc k) s))"
        using i unfolding toggle_ends_def by blast
      then show False using none by simp
    qed
  next
    assume "\<forall>k. level_seen P g n s (Suc k) \<noteq> level_seen P g n s k"
    then have "\<not> toggle_ends P g n s k h" for k h unfolding toggle_ends_def by blast
    then show "toggle_loop P g n s = None" using i by (cases "toggle_loop P g n s") auto
  qed
  with i show ?thesis by blast
qed

text \<open>When it has ended, the interrupt comes for the edge that leaves the level that was seen.\<close>

lemma toggle_step_polarity:
  assumes "gpio_law P peek g" "bank_wf g" "gpio_type g = GPIO_TYPE_V1" "n < 32"
  shows "bit (pins_of peek g (snd (toggle_step P g n s)) (int_polarity (gpio_regs g))) k
      \<longleftrightarrow> (if k = n then \<not> bit (fst s) n else bit (pins_of peek g (snd s) (int_polarity (gpio_regs g))) k)"
proof -
  have f: "file_fits (P, peek, g) (int_polarity (gpio_regs g))" using bank_file(6) [OF assms(1,2)] .
  have c: "reg_base g + int_polarity (gpio_regs g) \<in> gpio_cells g" using file_cells(1) [OF f assms(3)] .
  show ?thesis
    using assms(3,4)
    by (cases s; cases "k < 32") (auto simp: toggle_step_def Let_def split_beta pins_of_def law_read [OF assms(1) c]
        law_write [OF assms(1) c] bit_and_iff bit_or_iff bit_not_iff bit_BIT dest: bit_imp_le_length)
qed

lemma toggle_ends_log: "log_law P handled m g \<Longrightarrow> toggle_ends P g n s k h \<Longrightarrow> handled h = handled (snd s)"
proof -
  assume l: "log_law P handled m g"
  have "handled (snd ((toggle_step P g n ^^ j) s)) = handled (snd s)" for j
    by (induction j) (simp_all add: toggle_step_log [OF l])
  moreover assume "toggle_ends P g n s k h"
  ultimately show "handled h = handled (snd s)" unfolding toggle_ends_def by blast
qed

lemma demux_one_log:
  assumes "log_law P handled m g" "n < 32" "demux_one P g n h = Some h'"
  shows "handled h' = handled h @ (if m n = 0 then [] else [m n])"
proof (cases "m n = 0")
  case True
  then show ?thesis using assms by (simp add: demux_one_def log_law_def)
next
  case False
  let ?s = "gp_readl P (reg_base g + ext_port (gpio_regs g)) h"
  obtain h1 where "(if toggle_edge_mode g AND BIT n \<noteq> 0 then toggle_loop P g n ?s else Some h) = Some h1"
    and h': "h' = generic_handle_irq P (m n) h1"
    using assms(1,3) False by (auto simp: demux_one_def log_law_def Let_def)
  then have "h1 = h \<or> (\<exists>k. toggle_ends P g n ?s k h1)"
    using toggle_loop_some [OF _ assms(2), of P g ?s h1] by (auto split: if_splits)
  moreover have "handled (snd ?s) = handled h" using assms(1) by (simp add: log_law_def)
  ultimately have "handled h1 = handled h" using toggle_ends_log [OF assms(1), of n ?s _ h1] by auto
  then show ?thesis using h' assms(1) False by (simp add: log_law_def)
qed

lemma handle_pins_log:
  "log_law P handled m g \<Longrightarrow> \<forall>n \<in> set ns. n < 32 \<Longrightarrow> handle_pins P g ns h = Some h'
   \<Longrightarrow> handled h' = handled h @ map m (filter (\<lambda>n. m n \<noteq> 0) ns)"
proof (induction ns arbitrary: h)
  case (Cons n ns)
  obtain h1 where h1: "demux_one P g n h = Some h1" "handle_pins P g ns h1 = Some h'"
    using Cons.prems(3) by (auto simp: bind_eq_Some_conv)
  then show ?case using Cons.IH [OF Cons.prems(1) _ h1(2)] demux_one_log [OF Cons.prems(1) _ h1(1)] Cons.prems(2) by simp
qed simp

text \<open>A bank of version 2 never switches the polarity itself, so its handler always returns.\<close>

lemma handle_pins_returns: "toggle_edge_mode g = 0 \<Longrightarrow> handle_pins P g ns h \<noteq> None"
  by (induction ns arbitrary: h) (auto simp: demux_one_def Let_def)

text \<open>
  C29: when the handler of a bank returns, it has handled every pending interrupt that is mapped, once and from the
  least, and no other; it always returns when no interrupt of the bank is toggled by hand.
\<close>

theorem rockchip_irq_demux_handles:
  assumes "log_law P handled m g" and pend: "pend = fst (gp_readl P (reg_base g + int_status (gpio_regs g)) (chained_irq_enter P h))"
  shows "(\<forall>h'. rockchip_irq_demux P g h = Some h' \<longrightarrow> handled h' = handled h @ map m (filter (\<lambda>n. m n \<noteq> 0) (pending pend)))
    \<and> (toggle_edge_mode g = 0 \<longrightarrow> rockchip_irq_demux P g h \<noteq> None)"
proof -
  let ?r = "gp_readl P (reg_base g + int_status (gpio_regs g)) (chained_irq_enter P h)"
  have d: "rockchip_irq_demux P g h = map_option (chained_irq_exit P) (handle_pins P g (pending pend) (snd ?r))"
    by (simp add: rockchip_irq_demux_def split_beta demux_loop_pins pend)
  have "handled h' = handled h @ map m (filter (\<lambda>n. m n \<noteq> 0) (pending pend))" if "rockchip_irq_demux P g h = Some h'" for h'
  proof -
    obtain h1 where "handle_pins P g (pending pend) (snd ?r) = Some h1" "h' = chained_irq_exit P h1"
      using \<open>rockchip_irq_demux P g h = Some h'\<close> by (auto simp: d)
    then show ?thesis
      using handle_pins_log [OF assms(1), of "pending pend" "snd ?r" h1] assms(1) by (simp add: log_law_def pending_def)
  qed
  moreover have "toggle_edge_mode g = 0 \<Longrightarrow> rockchip_irq_demux P g h \<noteq> None" using handle_pins_returns by (simp add: d)
  ultimately show ?thesis by blast
qed

section \<open>What a type programs\<close>

text \<open>Whether a type is for edges, and whether for the rising edge or the high level.\<close>

definition irq_want :: "u32 \<Rightarrow> (bool \<times> bool) option" where
  "irq_want ty =
     (if ty = IRQ_TYPE_EDGE_RISING then Some (True, True)
      else if ty = IRQ_TYPE_EDGE_FALLING then Some (True, False)
      else if ty = IRQ_TYPE_LEVEL_HIGH then Some (False, True)
      else if ty = IRQ_TYPE_LEVEL_LOW then Some (False, False) else None)"

definition handler_law :: "'h gpio_port \<Rightarrow> ('h \<Rightarrow> int \<Rightarrow> u32) \<Rightarrow> bool" where
  "handler_law P peek \<longleftrightarrow> (\<forall>d f h. peek (irq_set_handler_locked P d f h) = peek h)"

definition with_pin :: "u32 \<Rightarrow> nat \<Rightarrow> bool \<Rightarrow> u32" where
  "with_pin w n b = (if b then w OR BIT n else w AND NOT (BIT n))"

lemma bit_with_pin: "n < 32 \<Longrightarrow> bit (with_pin w n b) k \<longleftrightarrow> (if k = n then b else bit w k)"
  by (cases "k < 32") (auto simp: with_pin_def bit_and_iff bit_or_iff bit_not_iff bit_BIT dest: bit_imp_le_length)

text \<open>The state after the pin has become an input, the flow is set and both registers are read.\<close>

definition type_entry :: "'h gpio_port \<Rightarrow> irq_data \<Rightarrow> u32 \<Rightarrow> gpio_bank \<Rightarrow> 'h \<Rightarrow> 'h" where
  "type_entry P d ty g h =
     snd (rockchip_gpio_readl P g (int_polarity (gpio_regs g)) (snd (rockchip_gpio_readl P g (int_type (gpio_regs g))
       (irq_set_handler_locked P d (if ty AND IRQ_TYPE_EDGE_BOTH \<noteq> 0 then handle_edge_irq else handle_level_irq)
         (rockchip_gpio_writel_bit P g (hwirq d) 0 (port_ddr (gpio_regs g)) h)))))"

definition type_exit :: "'h gpio_port \<Rightarrow> gpio_bank \<Rightarrow> u32 \<Rightarrow> u32 \<Rightarrow> 'h \<Rightarrow> 'h" where
  "type_exit P g lv pl h = rockchip_gpio_writel P g pl (int_polarity (gpio_regs g)) (rockchip_gpio_writel P g lv (int_type (gpio_regs g)) h)"

lemma type_entry_view:
  assumes "gpio_law P peek g" "handler_law P peek" "bank_wf g" "hwirq d < 32" "file_fits (P, peek, g) r"
  shows "bit (pins_of peek g (type_entry P d ty g h) r) k
    \<longleftrightarrow> (if r = port_ddr (gpio_regs g) \<and> k = hwirq d then False else bit (pins_of peek g h r) k)"
proof -
  have "pins_of peek g (irq_set_handler_locked P d f h1) r = pins_of peek g h1 r" for f h1
    using assms(2) by (simp add: handler_law_def pins_of_def Let_def)
  then show ?thesis
    using assms(4,5) bank_file [OF assms(1,3)] by (simp add: type_entry_def view_readl view_writel_bit)
qed

lemma type_exit_view:
  assumes "gpio_law P peek g" "bank_wf g" "file_fits (P, peek, g) r"
  shows "pins_of peek g (type_exit P g lv pl h) r
    = (if r = int_polarity (gpio_regs g) then pl else if r = int_type (gpio_regs g) then lv else pins_of peek g h r)"
  using assms(3) bank_file [OF assms(1,2)] by (simp add: type_exit_def view_writel)

text \<open>What the two parts do, in the words of these.\<close>

lemma irq_want_Some:
  assumes "irq_want ty = Some (e, p)"
  obtains "ty = IRQ_TYPE_EDGE_RISING" "e = True" "p = True" | "ty = IRQ_TYPE_EDGE_FALLING" "e = True" "p = False"
    | "ty = IRQ_TYPE_LEVEL_HIGH" "e = False" "p = True" | "ty = IRQ_TYPE_LEVEL_LOW" "e = False" "p = False"
  using assms that unfolding irq_want_def by (simp only: split: if_splits) simp_all

lemma set_type_regs_steps:
  "irq_want ty = Some (e, p) \<Longrightarrow> set_type_regs P n ty g lv pl h
      = (g\<lparr>toggle_edge_mode := with_pin (toggle_edge_mode g) n False\<rparr>, type_exit P g (with_pin lv n e) (with_pin pl n p) h, None)"
  "irq_want ty = None \<Longrightarrow> ty \<noteq> IRQ_TYPE_EDGE_BOTH \<Longrightarrow> set_type_regs P n ty g lv pl h = (g, h, Some EINVAL)"
  "gpio_type g = GPIO_TYPE_V2 \<Longrightarrow> set_type_regs P n IRQ_TYPE_EDGE_BOTH g lv pl h
      = (g\<lparr>toggle_edge_mode := with_pin (toggle_edge_mode g) n False\<rparr>, rockchip_gpio_writel_bit P g n 1 (int_bothedge (gpio_regs g)) h, None)"
  "gpio_type g = GPIO_TYPE_V1 \<Longrightarrow> n < 32 \<Longrightarrow> set_type_regs P n IRQ_TYPE_EDGE_BOTH g lv pl h
      = (let (data, h1) = gp_readl P (reg_base g + ext_port (gpio_regs g)) h
         in (g\<lparr>toggle_edge_mode := with_pin (toggle_edge_mode g) n True\<rparr>,
             type_exit P g (with_pin lv n True) (with_pin pl n (\<not> bit data n)) h1, None))"
proof -
  show "irq_want ty = Some (e, p) \<Longrightarrow> set_type_regs P n ty g lv pl h
      = (g\<lparr>toggle_edge_mode := with_pin (toggle_edge_mode g) n False\<rparr>, type_exit P g (with_pin lv n e) (with_pin pl n p) h, None)"
    by (erule irq_want_Some) (simp_all add: set_type_regs_def Let_def type_exit_def with_pin_def irq_types)
  show "irq_want ty = None \<Longrightarrow> ty \<noteq> IRQ_TYPE_EDGE_BOTH \<Longrightarrow> set_type_regs P n ty g lv pl h = (g, h, Some EINVAL)"
    by (simp add: set_type_regs_def irq_want_def Let_def split: if_splits)
  show "gpio_type g = GPIO_TYPE_V2 \<Longrightarrow> set_type_regs P n IRQ_TYPE_EDGE_BOTH g lv pl h
      = (g\<lparr>toggle_edge_mode := with_pin (toggle_edge_mode g) n False\<rparr>, rockchip_gpio_writel_bit P g n 1 (int_bothedge (gpio_regs g)) h, None)"
    by (simp add: set_type_regs_def Let_def with_pin_def)
  show "gpio_type g = GPIO_TYPE_V1 \<Longrightarrow> n < 32 \<Longrightarrow> set_type_regs P n IRQ_TYPE_EDGE_BOTH g lv pl h
      = (let (data, h1) = gp_readl P (reg_base g + ext_port (gpio_regs g)) h
         in (g\<lparr>toggle_edge_mode := with_pin (toggle_edge_mode g) n True\<rparr>,
             type_exit P g (with_pin lv n True) (with_pin pl n (\<not> bit data n)) h1, None))"
    by (simp add: set_type_regs_def Let_def with_pin_def type_exit_def split_beta)
qed

lemma rockchip_irq_set_type_entry:
  fixes g :: gpio_bank
  assumes "gpio_law P peek g" "handler_law P peek" "bank_wf g" "hwirq d < 32"
  shows "rockchip_irq_set_type P d ty g h = set_type_regs P (hwirq d) ty g (pins_of peek g h (int_type (gpio_regs g)))
      (pins_of peek g h (int_polarity (gpio_regs g))) (type_entry P d ty g h)"
proof -
  note F = bank_file [OF assms(1,3)]
  let ?h2 = "irq_set_handler_locked P d (if ty AND IRQ_TYPE_EDGE_BOTH \<noteq> 0 then handle_edge_irq else handle_level_irq)
      (rockchip_gpio_writel_bit P g (hwirq d) 0 (port_ddr (gpio_regs g)) h)"
  have h2: "pins_of peek g ?h2 r = pins_of peek g h r" if "file_fits (P, peek, g) r" "r \<noteq> port_ddr (gpio_regs g)" for r
  proof -
    have "pins_of peek g ?h2 r = pins_of peek g (rockchip_gpio_writel_bit P g (hwirq d) 0 (port_ddr (gpio_regs g)) h) r"
      using assms(2) by (simp add: handler_law_def pins_of_def Let_def)
    also have "\<dots> = pins_of peek g h r"
      using that assms(4) F by (intro bit_word_eqI) (simp add: view_writel_bit)
    finally show ?thesis .
  qed
  have "int_type (gpio_regs g) \<noteq> port_ddr (gpio_regs g)" "int_polarity (gpio_regs g) \<noteq> port_ddr (gpio_regs g)"
    using bank_regs_distinct(1) [OF assms(3)] by auto
  then show ?thesis
    using h2 F by (simp add: rockchip_irq_set_type_def type_entry_def Let_def split_beta view_readl)
qed

text \<open>The registers afterwards are those before with the pin an input, and what the type changes.\<close>

lemma type_entry_same:
  assumes "gpio_law P peek g" "handler_law P peek" "bank_wf g" "hwirq d < 32" "file_fits (P, peek, g) r" "r \<noteq> port_ddr (gpio_regs g)"
  shows "pins_of peek g (type_entry P d ty g h) r = pins_of peek g h r"
  using assms(6) by (intro bit_word_eqI) (simp add: type_entry_view [OF assms(1-5)])

lemma with_pin_writel_bit:
  assumes "file_fits (P, peek, g) r" "n < 32"
  shows "pins_of peek g (rockchip_gpio_writel_bit P g n v r h) r = with_pin (pins_of peek g h r) n (v \<noteq> 0)"
  by (rule bit_word_eqI) (auto simp: view_writel_bit [OF assms(1,1,2)] bit_with_pin [OF assms(2)])

text \<open>
  What a type means for the registers \<open>v\<close> of a bank: the pin is an input; its bits for the kind and the polarity
  follow the type; on both edges version 2 has a register, version 1 waits for the edge that leaves the level \<open>b\<close>.
\<close>

definition irq_typed :: "gpio_bank \<Rightarrow> nat \<Rightarrow> u32 \<Rightarrow> bool \<Rightarrow> (int \<Rightarrow> u32) \<Rightarrow> int \<Rightarrow> u32" where
  "irq_typed g n ty b v r =
     (let reg = gpio_regs g; kind = (\<lambda>e p. if r = int_type reg then with_pin (v r) n e
          else if r = int_polarity reg then with_pin (v r) n p else v r)
      in if r = port_ddr reg then with_pin (v r) n False
         else case irq_want ty of Some (e, p) \<Rightarrow> kind e p
         | None \<Rightarrow> if ty = IRQ_TYPE_EDGE_BOTH
             then if gpio_type g = GPIO_TYPE_V2 then if r = int_bothedge reg then with_pin (v r) n True else v r
               else kind True (\<not> b)
             else v r)"

definition irq_supported :: "u32 \<Rightarrow> bool" where
  "irq_supported ty \<longleftrightarrow> irq_want ty \<noteq> None \<or> ty = IRQ_TYPE_EDGE_BOTH"

text \<open>
  C27: setting the type of an interrupt makes the pin an input and programs its kind and polarity for the type, and
  leaves all other pins and registers; an unknown type is \<open>-EINVAL\<close> but the pin has become an input.
\<close>

theorem rockchip_irq_set_type_programs:
  fixes g :: gpio_bank
  assumes law: "gpio_law P peek g" "handler_law P peek" "bank_wf g" and n: "hwirq d < 32"
    and level: "b = bit (fst (gp_readl P (reg_base g + ext_port (gpio_regs g)) (type_entry P d ty g h))) (hwirq d)"
    and run: "rockchip_irq_set_type P d ty g h = (g', h', r)"
  shows "r = (if irq_supported ty then None else Some EINVAL)
    \<and> g' = (if irq_supported ty then g\<lparr>toggle_edge_mode := with_pin (toggle_edge_mode g) (hwirq d)
      (ty = IRQ_TYPE_EDGE_BOTH \<and> gpio_type g = GPIO_TYPE_V1)\<rparr> else g)
    \<and> (\<forall>s. file_fits (P, peek, g) s \<longrightarrow> pins_of peek g h' s = irq_typed g (hwirq d) ty b (pins_of peek g h) s)"
proof -
  note F = bank_file [OF law(1,3)]
  let ?E = "type_entry P d ty g h" and ?lv = "pins_of peek g h (int_type (gpio_regs g))" and ?pl = "pins_of peek g h (int_polarity (gpio_regs g))"
  have set: "set_type_regs P (hwirq d) ty g ?lv ?pl ?E = (g', h', r)"
    using run by (simp add: rockchip_irq_set_type_entry [OF law n])
  note E = type_entry_same [OF law n]
  have ddr: "pins_of peek g ?E (port_ddr (gpio_regs g)) = with_pin (pins_of peek g h (port_ddr (gpio_regs g))) (hwirq d) False"
    by (rule bit_word_eqI) (auto simp: type_entry_view [OF law n F(2)] bit_with_pin [OF n])
  have X: "pins_of peek g (type_exit P g lv pl h1) r
    = (if r = int_polarity (gpio_regs g) then pl else if r = int_type (gpio_regs g) then lv else pins_of peek g h1 r)"
    if "file_fits (P, peek, g) r" for lv pl h1 r
    by (rule type_exit_view [OF law(1,3) that])
  note D = bank_regs_distinct(1) [OF law(3)]
  note both = IRQ_TYPE_EDGE_BOTH_def IRQ_TYPE_EDGE_RISING_def IRQ_TYPE_EDGE_FALLING_def
  have want: "irq_want IRQ_TYPE_EDGE_BOTH = None" by (simp add: irq_want_def irq_types)
  consider (want) e p where "irq_want ty = Some (e, p)" "ty \<noteq> IRQ_TYPE_EDGE_BOTH" | (none) "irq_want ty = None" "ty \<noteq> IRQ_TYPE_EDGE_BOTH"
    | (v1) "ty = IRQ_TYPE_EDGE_BOTH" "gpio_type g = GPIO_TYPE_V1" | (v2) "ty = IRQ_TYPE_EDGE_BOTH" "gpio_type g = GPIO_TYPE_V2"
    using want by (cases "irq_want ty"; cases "gpio_type g") force+
  then have "r = (if irq_supported ty then None else Some EINVAL)
    \<and> g' = (if irq_supported ty then g\<lparr>toggle_edge_mode := with_pin (toggle_edge_mode g) (hwirq d)
      (ty = IRQ_TYPE_EDGE_BOTH \<and> gpio_type g = GPIO_TYPE_V1)\<rparr> else g)
    \<and> (file_fits (P, peek, g) s \<longrightarrow> pins_of peek g h' s = irq_typed g (hwirq d) ty b (pins_of peek g h) s)" for s
  proof cases
    case want
    then show ?thesis using set D X E ddr F
      by (auto simp: set_type_regs_steps(1) irq_supported_def irq_typed_def Let_def)
  next
    case none
    then show ?thesis using set E ddr
      by (auto simp: set_type_regs_steps(2) irq_supported_def irq_typed_def Let_def)
  next
    case v1
    have e: "pins_of peek g (snd (gp_readl P a h1)) s = pins_of peek g h1 s" if "file_fits (P, peek, g) s" for a h1
      by (rule pins_of_readl [OF that])
    show ?thesis using set D X E ddr F e level v1 n want
      by (auto simp: set_type_regs_steps(4) irq_supported_def irq_typed_def Let_def split_beta)
  next
    case v2
    note B = F(8) [OF v2(2)]
    have h': "h' = rockchip_gpio_writel_bit P g (hwirq d) 1 (int_bothedge (gpio_regs g)) ?E"
      and rest: "r = None" "g' = g\<lparr>toggle_edge_mode := with_pin (toggle_edge_mode g) (hwirq d) False\<rparr>"
      using set v2(2) unfolding v2(1) by (simp_all add: set_type_regs_steps(3))
    have ne: "port_ddr (gpio_regs g) \<noteq> int_bothedge (gpio_regs g)" using bank_regs_distinct(2) [OF law(3) v2(2)] by simp
    have "pins_of peek g h' s = (if s = int_bothedge (gpio_regs g) then with_pin (pins_of peek g h s) (hwirq d) True else pins_of peek g ?E s)"
      if s: "file_fits (P, peek, g) s"
    proof (cases "s = int_bothedge (gpio_regs g)")
      case True
      then show ?thesis using with_pin_writel_bit [OF B n, of 1 ?E] E [OF B] ne by (simp add: h')
    next
      case False
      then show ?thesis by (intro bit_word_eqI) (simp add: h' view_writel_bit [OF B s n])
    qed
    then show ?thesis using rest E ddr ne v2 want by (auto simp: irq_supported_def irq_typed_def Let_def)
  qed
  then show ?thesis by blast
qed

section \<open>What resuming restores\<close>

text \<open>The kernel's accesses through a generic chip use its accessors.\<close>

definition accessor_law :: "'h gpio_port \<Rightarrow> gpio_bank \<Rightarrow> bool" where
  "accessor_law P g \<longleftrightarrow> gc_v2 (irq_gc g) = (gpio_type g = GPIO_TYPE_V2) \<and> gc_reg_base (irq_gc g) = reg_base g
     \<and> (\<forall>gc off h. irq_reg_readl P gc off h = (if gc_v2 gc then gpio_readl_v2 P (gc_reg_base gc + off) h else gp_readl P (gc_reg_base gc + off) h))
     \<and> (\<forall>gc off h v. irq_reg_writel P gc v off h
          = (if gc_v2 gc then gpio_writel_v2 P v (gc_reg_base gc + off) h else gp_writel P (gc_reg_base gc + off) v h))"

lemma accessor_file:
  "accessor_law P g \<Longrightarrow> irq_reg_readl P (irq_gc g) off h = rockchip_gpio_readl P g off h"
  "accessor_law P g \<Longrightarrow> irq_reg_writel P (irq_gc g) v off h = rockchip_gpio_writel P g v off h"
  by (simp_all add: accessor_law_def rockchip_gpio_readl_def rockchip_gpio_writel_def Let_def)

theorem rockchip_irq_suspend_resume:
  fixes g :: gpio_bank
  assumes law: "gpio_law P peek g" "accessor_law P g" "bank_wf g" and run: "rockchip_irq_suspend P g h = (g1, h1)"
    and s: "file_fits (P, peek, g) s"
  shows "pins_of peek g h1 s = (if s = int_mask (gpio_regs g) then NOT (wake_active (irq_gc g)) else pins_of peek g h s)"
    and "pins_of peek g (rockchip_irq_resume P g1 h2) s = (if s = int_mask (gpio_regs g) then pins_of peek g h s else pins_of peek g h2 s)"
proof -
  note F = bank_file(4) [OF law(1,3)]
  have g1: "g1 = g\<lparr>saved_masks := pins_of peek g h (int_mask (gpio_regs g))\<rparr>"
    and h1: "h1 = rockchip_gpio_writel P g (NOT (wake_active (irq_gc g))) (int_mask (gpio_regs g))
      (snd (rockchip_gpio_readl P g (int_mask (gpio_regs g)) h))"
    using run F by (auto simp: rockchip_irq_suspend_def Let_def split_beta accessor_file [OF law(2)] view_readl)
  show "pins_of peek g h1 s = (if s = int_mask (gpio_regs g) then NOT (wake_active (irq_gc g)) else pins_of peek g h s)"
    using F s by (simp add: h1 view_writel view_readl)
  show "pins_of peek g (rockchip_irq_resume P g1 h2) s = (if s = int_mask (gpio_regs g) then pins_of peek g h s else pins_of peek g h2 s)"
    using F s by (simp add: g1 rockchip_irq_resume_def accessor_file [OF law(2)] view_writel)
qed

section \<open>Examples\<close>

theorem toggle_loop_returns_witness:
  "toggle_loop (gsim_port GPIO_TYPE_V1) (gsim_bank GPIO_TYPE_V1) 4 (BIT 4, gsim_off\<lparr>gsim_levels := [0, 0]\<rparr>) \<noteq> None"
proof -
  let ?s = "(BIT 4 :: u32, gsim_off\<lparr>gsim_levels := [0, 0]\<rparr>)"
  have "level_seen (gsim_port GPIO_TYPE_V1) (gsim_bank GPIO_TYPE_V1) 4 ?s (Suc 1) = level_seen (gsim_port GPIO_TYPE_V1) (gsim_bank GPIO_TYPE_V1) 4 ?s 1"
    by (simp add: level_seen_def toggle_step_def Let_def split_beta gsim_bank_def gsim_regs_def gpio_regs_v1_def gsim_readl_def gsim_gwritel_def)
  then show ?thesis using toggle_loop_returns [of 4 "gsim_port GPIO_TYPE_V1" "gsim_bank GPIO_TYPE_V1" ?s] by auto
qed

theorem rockchip_irq_demux_handles_witness:
  "\<exists>h'. rockchip_irq_demux (gsim_port GPIO_TYPE_V2) (gsim_bank GPIO_TYPE_V2) (gsim_off\<lparr>gsim_cells := (\<lambda>a. 0)(0x50 := 0x2c)\<rparr>) = Some h'
     \<and> gsim_handled h' = [66, 69]"
proof -
  let ?P = "gsim_port GPIO_TYPE_V2" and ?g = "gsim_bank GPIO_TYPE_V2" and ?h = "gsim_off\<lparr>gsim_cells := (\<lambda>a. 0)(0x50 := 0x2c)\<rparr>"
  have law: "log_law ?P gsim_handled (\<lambda>n. if n = 3 then 0 else int n + 64) ?g"
    by (auto simp: log_law_def gsim_readl_def gsim_gwritel_def split: list.split)
  have pend: "0x2c = fst (gp_readl ?P (reg_base ?g + int_status (gpio_regs ?g)) (chained_irq_enter ?P ?h))"
    by (simp add: gsim_bank_def gsim_regs_def gpio_regs_v2_def gsim_readl_def gsim_peek_def)
  have p: "pending 0x2c = [2, 3, 5]" by (simp add: pending_def upt_rec)
  have "toggle_edge_mode ?g = 0" "gsim_handled ?h = []" by (simp_all add: gsim_bank_def gsim_off_def)
  then show ?thesis using rockchip_irq_demux_handles [OF law pend] by (auto simp: p)
qed

theorem rockchip_irq_set_type_programs_witness:
  "\<exists>g' h'. rockchip_irq_set_type (gsim_port GPIO_TYPE_V1) \<lparr>data_irq = 73, hwirq = 9\<rparr> IRQ_TYPE_EDGE_BOTH (gsim_bank GPIO_TYPE_V1) gsim_off
       = (g', h', None)
     \<and> bit (toggle_edge_mode g') 9 \<and> bit (pins_of (gsim_peek GPIO_TYPE_V1) (gsim_bank GPIO_TYPE_V1) h' (int_type gpio_regs_v1)) 9"
proof -
  let ?P = "gsim_port GPIO_TYPE_V1" and ?g = "gsim_bank GPIO_TYPE_V1" and ?d = "\<lparr>data_irq = 73, hwirq = 9\<rparr>"
  obtain g' h' r where run: "rockchip_irq_set_type ?P ?d IRQ_TYPE_EDGE_BOTH ?g gsim_off = (g', h', r)"
    by (cases "rockchip_irq_set_type ?P ?d IRQ_TYPE_EDGE_BOTH ?g gsim_off") auto
  have law: "handler_law ?P (gsim_peek GPIO_TYPE_V1)" and n: "hwirq ?d < 32" by (simp_all add: handler_law_def)
  have g: "gpio_regs ?g = gpio_regs_v1" "gpio_type ?g = GPIO_TYPE_V1" by (simp_all add: gsim_bank_def gsim_regs_def)
  note F = bank_file(5) [OF gsim_law gsim_bank_wf, of GPIO_TYPE_V1]
  note R = rockchip_irq_set_type_programs [OF gsim_law law gsim_bank_wf n refl run]
  have "int_type gpio_regs_v1 \<noteq> port_ddr gpio_regs_v1" by (simp add: gpio_regs_v1_def)
  then show ?thesis
    using run R F by (simp add: irq_supported_def irq_typed_def irq_want_def irq_types g bit_with_pin [of 9])
qed

end
