(* ===== verification/Gpio_Chip.thy ===== *)
theory Gpio_Chip
  imports Gpio_Sim
begin

text \<open>
  The functions a GPIO bank gives to \<open>gpiolib\<close>: level and direction of its pins, debouncing, and the
  interrupt of a pin.
\<close>

section \<open>Level and direction\<close>

definition rockchip_gpio_set :: "'h gpio_port \<Rightarrow> gpio_bank \<Rightarrow> nat \<Rightarrow> int \<Rightarrow> 'h \<Rightarrow> 'h" where
  "rockchip_gpio_set P g n v h = rockchip_gpio_writel_bit P g n v (port_dr (gpio_regs g)) h"

definition rockchip_gpio_get :: "'h gpio_port \<Rightarrow> gpio_bank \<Rightarrow> nat \<Rightarrow> 'h \<Rightarrow> int \<times> 'h" where
  "rockchip_gpio_get P g n h =
     (let (data, h1) = gp_readl P (reg_base g + ext_port (gpio_regs g)) h in (uint (drop_bit n data AND 1), h1))"

text \<open>1 for an input, 0 for an output.\<close>

definition rockchip_gpio_get_direction :: "'h gpio_port \<Rightarrow> gpio_bank \<Rightarrow> nat \<Rightarrow> 'h \<Rightarrow> int \<times> 'h" where
  "rockchip_gpio_get_direction P g n h =
     (let (data, h1) = rockchip_gpio_readl_bit P g n (port_ddr (gpio_regs g)) h in (if data = 0 then 1 else 0, h1))"

definition rockchip_gpio_set_direction :: "'h gpio_port \<Rightarrow> gpio_bank \<Rightarrow> nat \<Rightarrow> bool \<Rightarrow> 'h \<Rightarrow> 'h \<times> errno option" where
  "rockchip_gpio_set_direction P g n input h =
     (rockchip_gpio_writel_bit P g n (if input then 0 else 1) (port_ddr (gpio_regs g)) h, None)"

definition rockchip_gpio_direction_input :: "'h gpio_port \<Rightarrow> gpio_bank \<Rightarrow> nat \<Rightarrow> 'h \<Rightarrow> 'h \<times> errno option" where
  "rockchip_gpio_direction_input P g n h = rockchip_gpio_set_direction P g n True h"

definition rockchip_gpio_direction_output :: "'h gpio_port \<Rightarrow> gpio_bank \<Rightarrow> nat \<Rightarrow> int \<Rightarrow> 'h \<Rightarrow> 'h \<times> errno option" where
  "rockchip_gpio_direction_output P g n v h = rockchip_gpio_set_direction P g n False (rockchip_gpio_set P g n v h)"

section \<open>Debouncing\<close>

text \<open>The longest time in microseconds, and the divider for a time, for a debounce clock of \<open>freq\<close> Hz.\<close>

definition max_debounce :: "u64 \<Rightarrow> u64" where
  "max_debounce freq = (GENMASK 0x17 0 + 1) * 0x2 * 0xf4240 div freq"

definition debounce_div :: "u32 \<Rightarrow> u64 \<Rightarrow> u64" where
  "debounce_div time freq = (ucast time * freq + 1000000) div (2 * 1000000) - 1"

definition db_clk_there :: "gpio_bank \<Rightarrow> bool" where
  "db_clk_there g \<longleftrightarrow> (case db_clk g of Clk_ERR e \<Rightarrow> False | _ \<Rightarrow> True)"

definition debounce_on :: "'h gpio_port \<Rightarrow> gpio_bank \<Rightarrow> nat \<Rightarrow> u32 \<Rightarrow> u64 \<Rightarrow> 'h \<Rightarrow> 'h" where
  "debounce_on P g n time freq h =
     (let reg = gpio_regs g; con = reg_base g + dbclk_div_con reg;
          h1 = (if db_clk_there g then
                  let (cur, h2) = gp_readl P con h; d = debounce_div time freq;
                      h3 = (if ucast cur < d then gp_writel P con (ucast d) h2 else h2)
                  in rockchip_gpio_writel_bit P g n 1 (dbclk_div_en reg) h3
                else h)
      in rockchip_gpio_writel_bit P g n 1 (debounce reg) h1)"

definition debounce_off :: "'h gpio_port \<Rightarrow> gpio_bank \<Rightarrow> nat \<Rightarrow> 'h \<Rightarrow> 'h" where
  "debounce_off P g n h =
     (let reg = gpio_regs g; h1 = (if db_clk_there g then rockchip_gpio_writel_bit P g n 0 (dbclk_div_en reg) h else h)
      in rockchip_gpio_writel_bit P g n 0 (debounce reg) h1)"

definition rockchip_gpio_set_debounce :: "'h gpio_port \<Rightarrow> gpio_bank \<Rightarrow> nat \<Rightarrow> u32 \<Rightarrow> 'h \<Rightarrow> 'h \<times> errno option" where
  "rockchip_gpio_set_debounce P g n time h =
     (let freq = gp_clk_rate P (db_clk g) h in
      if db_clk_there g \<and> freq = 0 then (h, Some EINVAL)
      else if db_clk_there g \<and> ucast time > max_debounce freq then (h, Some EINVAL)
      else if time \<noteq> 0 then
        let h1 = debounce_on P g n time freq h in (if db_clk_there g then gp_clk_enable P (db_clk g) h1 else h1, None)
      else let h1 = debounce_off P g n h in (if db_clk_there g then gp_clk_disable P (db_clk g) h1 else h1, None))"

text \<open>The parameters of a configuration that matter here, and its argument.\<close>

datatype gpio_config_param = PIN_CONFIG_INPUT_DEBOUNCE | Config_other

definition rockchip_gpio_set_config :: "'h gpio_port \<Rightarrow> gpio_bank \<Rightarrow> nat \<Rightarrow> gpio_config_param \<Rightarrow> u32 \<Rightarrow> 'h \<Rightarrow> 'h \<times> errno option" where
  "rockchip_gpio_set_config P g n param arg h =
     (case param of PIN_CONFIG_INPUT_DEBOUNCE \<Rightarrow> (fst (rockchip_gpio_set_debounce P g n arg h), Some ENOTSUPP)
      | Config_other \<Rightarrow> (h, Some ENOTSUPP))"

section \<open>The interrupt of a pin\<close>

definition rockchip_gpio_to_irq :: "'h gpio_port \<Rightarrow> gpio_bank \<Rightarrow> nat \<Rightarrow> 'h \<Rightarrow> (errno + int) \<times> 'h" where
  "rockchip_gpio_to_irq P g n h =
     (case irq_dom g of None \<Rightarrow> (Inl ENXIO, h)
      | Some d \<Rightarrow> let (virq, h1) = irq_create_mapping P d n h in (if virq \<noteq> 0 then Inr virq else Inl ENXIO, h1))"

section \<open>What the pins have\<close>

text \<open>A sequence of calls for the pins of a bank, and what they leave of the direction and the level of a pin.\<close>

datatype gpio_call = Gpio_set nat int | Gpio_input nat | Gpio_output nat int

fun call_pin :: "gpio_call \<Rightarrow> nat" where
  "call_pin (Gpio_set n v) = n"
| "call_pin (Gpio_input n) = n"
| "call_pin (Gpio_output n v) = n"

fun gpio_do :: "'h gpio_port \<Rightarrow> gpio_bank \<Rightarrow> gpio_call list \<Rightarrow> 'h \<Rightarrow> 'h" where
  "gpio_do P g [] h = h"
| "gpio_do P g (Gpio_set n v # cs) h = gpio_do P g cs (rockchip_gpio_set P g n v h)"
| "gpio_do P g (Gpio_input n # cs) h = gpio_do P g cs (fst (rockchip_gpio_direction_input P g n h))"
| "gpio_do P g (Gpio_output n v # cs) h = gpio_do P g cs (fst (rockchip_gpio_direction_output P g n v h))"

text \<open>A pin of the specification: its direction and the level it has, or would have, as an output.\<close>

fun pin_after :: "gpio_call list \<Rightarrow> nat \<Rightarrow> bool \<times> bool \<Rightarrow> bool \<times> bool" where
  "pin_after [] k p = p"
| "pin_after (Gpio_set n v # cs) k p = pin_after cs k (if n = k then (fst p, v \<noteq> 0) else p)"
| "pin_after (Gpio_input n # cs) k p = pin_after cs k (if n = k then (False, snd p) else p)"
| "pin_after (Gpio_output n v # cs) k p = pin_after cs k (if n = k then (True, v \<noteq> 0) else p)"

definition gpio_pin_state :: "('h \<Rightarrow> int \<Rightarrow> u32) \<Rightarrow> gpio_bank \<Rightarrow> nat \<Rightarrow> 'h \<Rightarrow> bool \<times> bool" where
  "gpio_pin_state peek g k h = (bit (pins_of peek g h (port_ddr (gpio_regs g))) k, bit (pins_of peek g h (port_dr (gpio_regs g))) k)"

lemma gpio_pin_state_writel_bit:
  assumes "gpio_law P peek g" "bank_wf g" "n < 32"
  shows "gpio_pin_state peek g k (rockchip_gpio_writel_bit P g n v (port_dr (gpio_regs g)) h)
      = (if n = k then (fst (gpio_pin_state peek g k h), v \<noteq> 0) else gpio_pin_state peek g k h)"
    and "gpio_pin_state peek g k (rockchip_gpio_writel_bit P g n v (port_ddr (gpio_regs g)) h)
      = (if n = k then (v \<noteq> 0, snd (gpio_pin_state peek g k h)) else gpio_pin_state peek g k h)"
  using bank_regs_distinct(1) [OF assms(2)]
  by (auto simp: gpio_pin_state_def view_writel_bit bank_file [OF assms(1,2)] assms(3))

text \<open>The calls as writes to the file of registers.\<close>

fun call_bits :: "rockchip_gpio_regs \<Rightarrow> gpio_call \<Rightarrow> (nat \<times> int \<times> int) list" where
  "call_bits reg (Gpio_set n v) = [(n, v, port_dr reg)]"
| "call_bits reg (Gpio_input n) = [(n, 0, port_ddr reg)]"
| "call_bits reg (Gpio_output n v) = [(n, v, port_dr reg), (n, 1, port_ddr reg)]"

lemma file_put_bit_eq: "file_put_bit (P, peek, g) n v r h = rockchip_gpio_writel_bit P g n v r h"
  by (simp add: file_put_bit_def)

lemma gpio_do_bits:
  "gpio_do P g cs h = gpio_file.put_bits (P, peek, g) (concat (map (call_bits (gpio_regs g)) cs)) h"
proof (induction cs arbitrary: h)
  case (Cons c cs)
  then show ?case
    by (cases c) (simp_all add: file_put_bit_eq rockchip_gpio_set_def rockchip_gpio_direction_input_def
        rockchip_gpio_direction_output_def rockchip_gpio_set_direction_def)
qed simp

lemma call_bits_regs: "(n, x, s) \<in> set (call_bits reg c) \<Longrightarrow> n = call_pin c \<and> (s = port_dr reg \<or> s = port_ddr reg)"
  by (cases c) auto

lemma pin_after_bits:
  "port_dr reg \<noteq> port_ddr reg \<Longrightarrow> pin_after cs k (d, l)
   = (gpio_file.last_put (concat (map (call_bits reg) cs)) k (port_ddr reg) d, gpio_file.last_put (concat (map (call_bits reg) cs)) k (port_dr reg) l)"
proof (induction cs arbitrary: d l)
  case (Cons c cs)
  then show ?case by (cases c) auto
qed simp

text \<open>
  C25: whatever calls set pins, make them inputs and make them outputs, each pin of a bank of either version has
  in the end the direction and the level its own last calls gave it, and the calls for other pins do not
  matter.
\<close>

theorem gpio_do_last_call:
  assumes "gpio_law P peek g" "bank_wf g" "\<forall>c \<in> set cs. call_pin c < 32"
  shows "gpio_pin_state peek g k (gpio_do P g cs h) = pin_after cs k (gpio_pin_state peek g k h)"
proof -
  let ?ws = "concat (map (call_bits (gpio_regs g)) cs)"
  note F = bank_file(1,2) [OF assms(1,2)]
  have ws: "\<forall>(n, x, s) \<in> set ?ws. n < 32 \<and> file_fits (P, peek, g) s"
    using assms(3) F by (auto dest!: call_bits_regs)
  have "bit (pins_of peek g (gpio_do P g cs h) r) k = gpio_file.last_put ?ws k r (bit (pins_of peek g h r) k)"
    if "file_fits (P, peek, g) r" for r
    using gpio_file.view_put_bits [OF ws that, of h k] by (simp add: gpio_do_bits [of P g cs h peek] file_view_def)
  then show ?thesis
    using F bank_regs_distinct(1) [OF assms(2)] by (simp add: gpio_pin_state_def pin_after_bits [of "gpio_regs g"])
qed

section \<open>The divider of the debounce clock\<close>

text \<open>The divider is one register for the bank, without an upper half that enables the writing.\<close>

definition div_con :: "gpio_bank \<Rightarrow> int" where
  "div_con g = reg_base g + dbclk_div_con (gpio_regs g)"

definition debounce_law :: "'h gpio_port \<Rightarrow> ('h \<Rightarrow> int \<Rightarrow> u32) \<Rightarrow> gpio_bank \<Rightarrow> bool" where
  "debounce_law P peek g \<longleftrightarrow> gpio_law P peek g
     \<and> (\<forall>h v. fst (gp_readl P (div_con g) h) = peek h (div_con g) \<and> peek (gp_writel P (div_con g) v h) (div_con g) = v)
     \<and> (\<forall>a h v. a \<noteq> div_con g \<longrightarrow> peek (gp_writel P a v h) (div_con g) = peek h (div_con g))
     \<and> (\<forall>a h. peek (snd (gp_readl P a h)) (div_con g) = peek h (div_con g))
     \<and> (\<forall>c h. peek (gp_clk_enable P c h) = peek h \<and> peek (gp_clk_disable P c h) = peek h)"

lemma debounce_laws:
  assumes "debounce_law P peek g"
  shows "gpio_law P peek g" "fst (gp_readl P (div_con g) h) = peek h (div_con g)"
    "peek (gp_writel P a v h) (div_con g) = (if a = div_con g then v else peek h (div_con g))"
    "peek (snd (gp_readl P a h)) (div_con g) = peek h (div_con g)"
    "peek (gp_clk_enable P c h) = peek h" "peek (gp_clk_disable P c h) = peek h"
  using assms by (auto simp: debounce_law_def)

text \<open>The divider that is nearest to a time, counted from 1.\<close>

definition nearest_div :: "u32 \<Rightarrow> u64 \<Rightarrow> nat" where
  "nearest_div time freq = (unat time * unat freq + 1000000) div 2000000"

lemma unat_max_debounce: "unat (max_debounce freq) = 33554432000000 div unat freq"
proof -
  have "(GENMASK 0x17 0 + 1) * 0x2 * 0xf4240 = (33554432000000 :: u64)" by (simp add: GENMASK_def mask_eq_exp_minus_1)
  then show ?thesis by (simp add: max_debounce_def unat_div)
qed

lemma accepted_time:
  assumes "\<not> ucast (time :: u32) > max_debounce freq" "freq \<noteq> 0"
  shows "unat time * unat freq \<le> 33554432000000"
proof -
  have "unat (ucast time :: u64) \<le> unat (max_debounce freq)" using assms(1) by (simp add: word_le_nat_alt not_less)
  then have "unat time \<le> 33554432000000 div unat freq" by (simp add: unat_max_debounce unat_ucast_u32)
  then have "unat time * unat freq \<le> (33554432000000 div unat freq) * unat freq" by simp
  also have "\<dots> \<le> 33554432000000" by simp
  finally show ?thesis .
qed

lemma unat_debounce_div:
  assumes "unat time * unat freq \<le> 33554432000000"
  shows "debounce_div time freq = word_of_nat (nearest_div time freq) - 1"
proof -
  have "unat (ucast time * freq + 1000000 :: u64) = unat time * unat freq + 1000000"
    using assms by (simp add: unat_word_ariths unat_ucast_u32)
  then have "unat ((ucast time * freq + 1000000) div (2 * 1000000) :: u64) = nearest_div time freq"
    by (simp add: unat_div nearest_div_def)
  then have "(ucast time * freq + 1000000) div (2 * 1000000) = (word_of_nat (nearest_div time freq) :: u64)"
    by (metis of_nat_unat ucast_id)
  then show ?thesis by (simp only: debounce_div_def)
qed

lemma nearest_div_bound: "unat time * unat freq \<le> 33554432000000 \<Longrightarrow> nearest_div time freq \<le> 2 ^ 24"
  by (simp add: nearest_div_def)

lemma nearest_div_near:
  "\<bar>2000000 * int (nearest_div time freq) - int (unat time * unat freq)\<bar> \<le> 1000000"
  unfolding nearest_div_def by linarith

text \<open>It is apart from the registers of the pins.\<close>

lemma div_con_apart: "bank_wf g \<Longrightarrow> gpio_type g = GPIO_TYPE_V2 \<Longrightarrow> a \<in> gpio_cells g \<Longrightarrow> a \<noteq> div_con g"
  by (auto simp: gpio_cells_def pin_regs_def gpio_regs_v2_def div_con_def bank_wf_def)

lemma div_con_writel_bit:
  assumes "debounce_law P peek g" "bank_wf g" "gpio_type g = GPIO_TYPE_V2" "file_fits (P, peek, g) r"
  shows "peek (rockchip_gpio_writel_bit P g n v r h) (div_con g) = peek h (div_con g)"
proof -
  have c: "reg_base g + r + half_of n \<in> gpio_cells g" using file_cells(2) [OF assms(4,3)] by (simp add: half_of_def)
  have "rockchip_gpio_writel_bit P g n v r h = gp_writel P (reg_base g + r + half_of n)
      (if v \<noteq> 0 then BIT (n mod 16) OR BIT (n mod 16 + 16) else BIT (n mod 16 + 16)) h"
    by (simp add: rockchip_gpio_writel_bit_def assms(3) half_of_def)
  then show ?thesis using div_con_apart [OF assms(2,3) c] by (simp add: debounce_laws(3) [OF assms(1)])
qed

lemma next_divider:
  fixes cur :: u32
  assumes "unat time * unat freq \<le> 33554432000000"
  defines "new \<equiv> (if ucast cur < debounce_div time freq then ucast (debounce_div time freq) else cur)"
  shows "0 < nearest_div time freq \<Longrightarrow> unat new = max (unat cur) (nearest_div time freq - 1)"
    and "nearest_div time freq = 0 \<Longrightarrow> new = - 1"
proof -
  let ?d = "debounce_div time freq"
  have b: "nearest_div time freq \<le> 2 ^ 24" by (rule nearest_div_bound [OF assms(1)])
  note d = unat_debounce_div [OF assms(1)]
  show "unat new = max (unat cur) (nearest_div time freq - 1)" if "0 < nearest_div time freq"
  proof -
    have "?d = word_of_nat (nearest_div time freq - 1)" using d that by (simp add: of_nat_diff)
    then have u: "unat ?d = nearest_div time freq - 1" using b by (simp add: unat_of_nat)
    then have "unat (ucast ?d :: u32) = nearest_div time freq - 1"
      using b by (simp add: unsigned_ucast_eq take_bit_nat_eq_self)
    then show ?thesis using u by (simp add: new_def word_less_nat_alt max_def)
  qed
  show "new = - 1" if "nearest_div time freq = 0"
  proof -
    have "?d = - 1" using d that by simp
    then have "unat ?d = 2 ^ 64 - 1" "ucast ?d = (- 1 :: u32)" by (simp_all add: unsigned_minus_1_eq_mask mask_eq_exp_minus_1)
    moreover have "unat cur < 2 ^ 32" using unsigned_less [of cur, where 'a = nat] by simp
    ultimately show ?thesis by (simp add: new_def word_less_nat_alt)
  qed
qed

text \<open>
  C26: a debounce time that a bank of version 2 accepts turns the filter and the divider of the pin on, and no other
  pin's. The divider of the bank is the largest that was asked for so far, at most 24 bits, and within half a step
  of the time; but a time of less than half a step writes all ones.
\<close>

theorem rockchip_gpio_set_debounce_programs:
  assumes law: "debounce_law P peek g" and g: "bank_wf g" "gpio_type g = GPIO_TYPE_V2" "db_clk g = Clk c" and n: "n < 32"
    and time: "time \<noteq> 0" and freq: "freq = gp_clk_rate P (Clk c) h"
    and run: "rockchip_gpio_set_debounce P g n time h = (h', None)"
  shows "(\<forall>k. bit (pins_of peek g h' (debounce (gpio_regs g))) k \<longleftrightarrow> k = n \<or> bit (pins_of peek g h (debounce (gpio_regs g))) k)
    \<and> (\<forall>k. bit (pins_of peek g h' (dbclk_div_en (gpio_regs g))) k \<longleftrightarrow> k = n \<or> bit (pins_of peek g h (dbclk_div_en (gpio_regs g))) k)
    \<and> (if nearest_div time freq = 0 then peek h' (div_con g) = - 1
       else unat (peek h' (div_con g)) = max (unat (peek h (div_con g))) (nearest_div time freq - 1))
    \<and> nearest_div time freq \<le> 2 ^ 24 \<and> \<bar>2000000 * int (nearest_div time freq) - int (unat time * unat freq)\<bar> \<le> 1000000"
proof -
  note L = debounce_laws [OF law]
  note F = bank_file(7) [OF L(1) g(1)] bank_file(9) [OF L(1) g(1,2)]
  let ?d = "debounce_div time freq" and ?cur = "peek h (div_con g)"
  define h1 where "h1 = snd (gp_readl P (div_con g) h)"
  define h2 where "h2 = (if ucast ?cur < ?d then gp_writel P (div_con g) (ucast ?d) h1 else h1)"
  define h3 where "h3 = rockchip_gpio_writel_bit P g n 1 (dbclk_div_en (gpio_regs g)) h2"
  have ok: "\<not> ucast time > max_debounce freq" "freq \<noteq> 0"
    and h': "h' = gp_clk_enable P (Clk c) (rockchip_gpio_writel_bit P g n 1 (debounce (gpio_regs g)) h3)"
    using run time freq g(3)
    by (auto simp: rockchip_gpio_set_debounce_def db_clk_there_def debounce_on_def Let_def div_con_def split_beta h1_def h2_def h3_def
        L(2) [unfolded div_con_def] split: if_splits)
  note t = accepted_time [OF ok]
  have "peek h' (div_con g) = (if ucast ?cur < ?d then ucast ?d else ?cur)"
    by (simp add: h' h3_def h2_def h1_def L div_con_writel_bit [OF law g(1,2)] F)
  then have con: "if nearest_div time freq = 0 then peek h' (div_con g) = - 1
       else unat (peek h' (div_con g)) = max (unat ?cur) (nearest_div time freq - 1)"
    using next_divider [OF t, of ?cur] by auto
  have same: "pins_of peek g h2 r = pins_of peek g h r" if "file_fits (P, peek, g) r" for r
    using that div_con_apart [OF g(1,2)] by (intro pins_of_cong) (auto simp: h2_def h1_def L law_read [OF L(1)] law_write [OF L(1)])
  have k: "pins_of peek g h' r = pins_of peek g (rockchip_gpio_writel_bit P g n 1 (debounce (gpio_regs g)) h3) r" for r
    by (simp add: h' pins_of_def Let_def L)
  have "bit (pins_of peek g h' (debounce (gpio_regs g))) k \<longleftrightarrow> k = n \<or> bit (pins_of peek g h (debounce (gpio_regs g))) k"
    "bit (pins_of peek g h' (dbclk_div_en (gpio_regs g))) k \<longleftrightarrow> k = n \<or> bit (pins_of peek g h (dbclk_div_en (gpio_regs g))) k" for k
    using bank_regs_distinct(2) [OF g(1,2)] F n by (auto simp: k h3_def view_writel_bit same)
  then show ?thesis using con nearest_div_bound [OF t] nearest_div_near by blast
qed

section \<open>Examples\<close>

theorem gpio_do_last_call_witness:
  "gpio_pin_state (gsim_peek GPIO_TYPE_V2) (gsim_bank GPIO_TYPE_V2) 17
     (gpio_do (gsim_port GPIO_TYPE_V2) (gsim_bank GPIO_TYPE_V2) [Gpio_output 17 1, Gpio_set 1 1, Gpio_set 17 0] gsim_off) = (True, False)"
  by (subst gpio_do_last_call [OF gsim_law gsim_bank_wf]) simp_all

lemma gsim_debounce_law: "debounce_law (gsim_port GPIO_TYPE_V2) (gsim_peek GPIO_TYPE_V2) (gsim_bank GPIO_TYPE_V2)"
proof -
  have d: "div_con (gsim_bank GPIO_TYPE_V2) = 0x48" by (simp add: div_con_def gsim_bank_def gsim_regs_def gpio_regs_v2_def)
  show ?thesis
    unfolding debounce_law_def d
    by (auto simp: gsim_readl_def gsim_gwritel_def gsim_peek_def gsim_count_def gsim_regs_def gpio_regs_v2_def fun_eq_iff
        split: list.split)
qed

theorem rockchip_gpio_set_debounce_programs_witness:
  "\<exists>h'. rockchip_gpio_set_debounce (gsim_port GPIO_TYPE_V2) (gsim_bank GPIO_TYPE_V2) 5 1000 gsim_off = (h', None)
     \<and> unat (gsim_peek GPIO_TYPE_V2 h' (div_con (gsim_bank GPIO_TYPE_V2))) = 11999"
proof -
  let ?P = "gsim_port GPIO_TYPE_V2" and ?g = "gsim_bank GPIO_TYPE_V2"
  obtain h' r where run: "rockchip_gpio_set_debounce ?P ?g 5 1000 gsim_off = (h', r)"
    by (cases "rockchip_gpio_set_debounce ?P ?g 5 1000 gsim_off")
  have f: "24000000 = gp_clk_rate ?P (Clk 1) gsim_off" and g: "db_clk ?g = Clk 1" "gpio_type ?g = GPIO_TYPE_V2"
    by (simp_all add: gsim_bank_def)
  have "\<not> ucast (1000 :: u32) > max_debounce 24000000" by (simp add: word_less_nat_alt unat_max_debounce)
  then have "r = None" using run by (auto simp: rockchip_gpio_set_debounce_def Let_def g(1) f [symmetric])
  moreover have "nearest_div 1000 24000000 = 12000" by (simp add: nearest_div_def)
  moreover have "gsim_peek GPIO_TYPE_V2 gsim_off a = 0" for a by (simp add: gsim_peek_def gsim_off_def)
  ultimately show ?thesis
    using run rockchip_gpio_set_debounce_programs [OF gsim_debounce_law gsim_bank_wf g(2,1) _ _ f, of 5 1000 h'] by simp
qed

end
