(* ===== verification/Gpio_Probe.thy ===== *)
theory Gpio_Probe
  imports Gpio_Irq Gpio_Chip
begin

text \<open>
  Probing and removing a GPIO bank: its resources from the device tree, the registration with \<open>gpiolib\<close> and of its
  interrupts, and what an error gives back.
\<close>

section \<open>The other side\<close>

text \<open>
  The node of a bank in the device tree, with what looking its resources up gives; 0 is no interrupt, and an
  alias of less than 0 none.
\<close>

record gpio_node =
  nd_of_node :: bool
  nd_parent :: bool
  nd_alias :: int
  nd_address :: bool
  nd_ioremap :: "errno + int"
  nd_irq :: int
  nd_clk :: "nat \<Rightarrow> clk_ptr"
  nd_gpio_ranges :: bool

text \<open>Functions of the kernel for domains, chips and handlers; a bank is known by its number.\<close>

record 'h gpio_env = "'h gpio_port" +
  of_pinctrl_get :: "'h \<Rightarrow> bool"
  gpiochip_add_data :: "int \<Rightarrow> gpio_chip \<Rightarrow> 'h \<Rightarrow> 'h \<times> errno option"
  gpiochip_remove :: "int \<Rightarrow> 'h \<Rightarrow> 'h"
  gpiochip_add_pin_range :: "int \<Rightarrow> gpio_chip \<Rightarrow> 'h \<Rightarrow> 'h \<times> errno option"
  irq_domain_add_linear :: "int \<Rightarrow> nat \<Rightarrow> 'h \<Rightarrow> nat option \<times> 'h"
  irq_alloc_domain_generic_chips :: "nat \<Rightarrow> 'h \<Rightarrow> 'h \<times> errno option"
  irq_domain_remove :: "nat \<Rightarrow> 'h \<Rightarrow> 'h"
  irq_get_domain_generic_chip :: "nat \<Rightarrow> 'h \<Rightarrow> irq_chip_generic"
  irq_set_chained_handler :: "int \<Rightarrow> 'h \<Rightarrow> 'h"
  IRQ_MSK :: "int \<Rightarrow> u32"

abbreviation port_of :: "'h gpio_env \<Rightarrow> 'h gpio_port" where
  "port_of E \<equiv> gpio_port.truncate E"

section \<open>Interrupts\<close>

definition setup_gc :: "'h gpio_env \<Rightarrow> gpio_bank \<Rightarrow> irq_chip_generic \<Rightarrow> irq_chip_generic" where
  "setup_gc E g gc = gc\<lparr>gc_v2 := gpio_type g = GPIO_TYPE_V2 \<or> gc_v2 gc, gc_reg_base := reg_base g,
     gc_mask := int_mask (gpio_regs g), gc_ack := port_eoi (gpio_regs g), wake_enabled := IRQ_MSK E (nr_pins g), mask_cache := 0xffffffff\<rparr>"

definition rockchip_interrupts_register :: "'h gpio_env \<Rightarrow> gpio_bank \<Rightarrow> 'h \<Rightarrow> gpio_bank \<times> 'h \<times> errno option" where
  "rockchip_interrupts_register E g h =
     (case irq_domain_add_linear E (bank_num g) 0x20 h of
        (None, h1) \<Rightarrow> (g\<lparr>irq_dom := None\<rparr>, h1, Some EINVAL)
      | (Some d, h1) \<Rightarrow>
          let g1 = g\<lparr>irq_dom := Some d\<rparr> in
          case irq_alloc_domain_generic_chips E d h1 of
            (h2, Some e) \<Rightarrow> (g1, irq_domain_remove E d h2, Some e)
          | (h2, None) \<Rightarrow>
              let g2 = g1\<lparr>irq_gc := setup_gc E g1 (irq_get_domain_generic_chip E d h2)\<rparr>;
                  h3 = rockchip_gpio_writel (port_of E) g2 0xffffffff (int_mask (gpio_regs g2)) h2;
                  h4 = rockchip_gpio_writel (port_of E) g2 0xffffffff (port_eoi (gpio_regs g2)) h3;
                  h5 = rockchip_gpio_writel (port_of E) g2 0xffffffff (int_en (gpio_regs g2)) h4
              in (g2, irq_set_chained_handler E (bank_irq g2) h5, None))"

section \<open>The chip\<close>

definition rockchip_gpiolib_register :: "'h gpio_env \<Rightarrow> gpio_node \<Rightarrow> gpio_bank \<Rightarrow> 'h \<Rightarrow> gpio_bank \<times> 'h \<times> errno option" where
  "rockchip_gpiolib_register E nd g h =
     (let gc = \<lparr>chip_base = pin_base g, chip_ngpio = nr_pins g, chip_label = bank_name g\<rparr>;
          g1 = g\<lparr>bank_chip := gc\<rparr>; num = bank_num g1;
          interrupts = (\<lambda>h. case rockchip_interrupts_register E g1 h of
              (g2, h1, None) \<Rightarrow> (g2, h1, None)
            | (g2, h1, Some e) \<Rightarrow> (g2, gpiochip_remove E num h1, Some e))
      in case gpiochip_add_data E num gc h of
           (h1, Some e) \<Rightarrow> (g1, h1, Some e)
         | (h1, None) \<Rightarrow>
             if nd_gpio_ranges nd then interrupts h1
             else if \<not> nd_parent nd then (g1, h1, Some ENODATA)
             else if \<not> of_pinctrl_get E h1 then (g1, h1, Some ENODEV)
             else case gpiochip_add_pin_range E num gc h1 of
                 (h2, Some e) \<Rightarrow> (g1, gpiochip_remove E num h2, Some e)
               | (h2, None) \<Rightarrow> interrupts h2)"

section \<open>The resources of a bank\<close>

text \<open>After an error \<open>reg_base\<close> or a clock may be an error pointer, which nothing uses.\<close>

definition rockchip_get_bank_data :: "'h gpio_port \<Rightarrow> gpio_node \<Rightarrow> gpio_bank \<Rightarrow> 'h \<Rightarrow> gpio_bank \<times> 'h \<times> errno option" where
  "rockchip_get_bank_data P nd g h =
     (if \<not> nd_address nd then (g, h, Some ENOENT)
      else case nd_ioremap nd of
        Inl e \<Rightarrow> (g, h, Some e)
      | Inr base \<Rightarrow>
          let g1 = g\<lparr>reg_base := base, bank_irq := nd_irq nd\<rparr> in
          if bank_irq g1 = 0 then (g1, h, Some EINVAL)
          else let g2 = g1\<lparr>bank_clk := nd_clk nd 0\<rparr> in
            case bank_clk g2 of
              Clk_ERR e \<Rightarrow> (g2, h, Some e)
            | _ \<Rightarrow>
                let h1 = gp_clk_enable P (bank_clk g2) h; (num, h2) = gp_readl P (base + version_id gpio_regs_v2) h1 in
                if num = GPIO_TYPE_V2_ID then
                  let g3 = g2\<lparr>gpio_regs := gpio_regs_v2, gpio_type := GPIO_TYPE_V2, db_clk := nd_clk nd 1\<rparr> in
                  case db_clk g3 of
                    Clk_ERR e \<Rightarrow> (g3\<lparr>db_clk := Clk_NULL\<rparr>, h2, Some EINVAL)
                  | _ \<Rightarrow> (g3, h2, None)
                else (g2\<lparr>gpio_regs := gpio_regs_v1, gpio_type := GPIO_TYPE_V1\<rparr>, h2, None))"

text \<open>The place of a bank in the array of the pin controller.\<close>

fun find_bank_from :: "nat \<Rightarrow> gpio_bank list \<Rightarrow> int \<Rightarrow> nat option" where
  "find_bank_from i [] num = None"
| "find_bank_from i (g # gs) num = (if bank_num g = num then Some i else find_bank_from (i + 1) gs num)"

definition rockchip_gpio_find_bank :: "gpio_bank list \<Rightarrow> int \<Rightarrow> nat option" where
  "rockchip_gpio_find_bank gs num = find_bank_from 0 gs num"

section \<open>Probing and removing\<close>

text \<open>The banks of the pin controller and the static number for those without an alias.\<close>

record gpio_banks =
  the_banks :: "gpio_bank list"
  gpio_number :: int

definition rockchip_gpio_probe :: "'h gpio_env \<Rightarrow> gpio_node \<Rightarrow> gpio_banks \<Rightarrow> 'h \<Rightarrow> gpio_banks \<times> 'h \<times> (errno + nat)" where
  "rockchip_gpio_probe E nd S h =
     (if \<not> nd_of_node nd \<or> \<not> nd_parent nd then (S, h, Inl ENODEV)
      else if \<not> of_pinctrl_get E h then (S, h, Inl EPROBE_DEFER)
      else
        let (num, S1) = (if nd_alias nd < 0 then (gpio_number S, S\<lparr>gpio_number := gpio_number S + 1\<rparr>) else (nd_alias nd, S)) in
        case rockchip_gpio_find_bank (the_banks S1) num of
          None \<Rightarrow> (S1, h, Inl EINVAL)
        | Some i \<Rightarrow>
            case rockchip_get_bank_data (port_of E) nd (the_banks S1 ! i) h of
              (g1, h1, Some e) \<Rightarrow> (S1\<lparr>the_banks := (the_banks S1)[i := g1]\<rparr>, h1, Inl e)
            | (g1, h1, None) \<Rightarrow>
                case rockchip_gpiolib_register E nd g1 h1 of
                  (g2, h2, Some e) \<Rightarrow> (S1\<lparr>the_banks := (the_banks S1)[i := g2]\<rparr>, gp_clk_disable E (bank_clk g2) h2, Inl e)
                | (g2, h2, None) \<Rightarrow> (S1\<lparr>the_banks := (the_banks S1)[i := g2]\<rparr>, h2, Inr i))"

text \<open>What the probe returned is the driver's data.\<close>

definition rockchip_gpio_remove :: "'h gpio_env \<Rightarrow> nat \<Rightarrow> gpio_banks \<Rightarrow> 'h \<Rightarrow> 'h" where
  "rockchip_gpio_remove E i S h =
     (let g = the_banks S ! i in gpiochip_remove E (bank_num g) (gp_clk_disable E (bank_clk g) h))"

section \<open>What an error gives back\<close>





lemma port_of_fields [simp]:
  "gp_readl (port_of E) = gp_readl E" "gp_writel (port_of E) = gp_writel E" "gp_clk_enable (port_of E) = gp_clk_enable E"
  by (simp_all add: gpio_port.truncate_def)










section \<open>Interrupts start masked\<close>

text \<open>
  After the registration every interrupt is enabled and masked, as the kernel wants it; the levels and directions
  of the pins are as they were.
\<close>

theorem rockchip_interrupts_register_masks:
  assumes run: "rockchip_interrupts_register E g h = (g', h', None)" and wf: "bank_wf g"
    and law: "gpio_law (port_of E) peek g'"
    and keep: "\<And>i h. peek (irq_set_chained_handler E i h) = peek h" "\<And>num n h. peek (snd (irq_domain_add_linear E num n h)) = peek h"
      "\<And>d h. peek (fst (irq_alloc_domain_generic_chips E d h)) = peek h"
    and s: "file_fits (port_of E, peek, g') s"
  shows "pins_of peek g' h' s = (if s = int_mask (gpio_regs g') \<or> s = int_en (gpio_regs g') then - 1 else pins_of peek g' h s)"
proof -
  obtain dm h1 where d: "irq_domain_add_linear E (bank_num g) 0x20 h = (Some dm, h1)"
    using run by (auto simp: rockchip_interrupts_register_def split: prod.splits option.splits)
  obtain h2 where a: "irq_alloc_domain_generic_chips E dm h1 = (h2, None)"
    using run d by (auto simp: rockchip_interrupts_register_def Let_def split: prod.splits option.splits)
  define g1 where "g1 = g\<lparr>irq_dom := Some dm\<rparr>"
  define g2 where "g2 = g1\<lparr>irq_gc := setup_gc E g1 (irq_get_domain_generic_chip E dm h2)\<rparr>"
  define w where "w = rockchip_gpio_writel (port_of E) g2 0xffffffff"
  define h3 where "h3 = w (int_mask (gpio_regs g2)) h2"
  define h4 where "h4 = w (port_eoi (gpio_regs g2)) h3"
  define h5 where "h5 = w (int_en (gpio_regs g2)) h4"
  have g': "g' = g2" and h': "h' = irq_set_chained_handler E (bank_irq g2) h5"
    using run unfolding rockchip_interrupts_register_def d a prod.case option.case Let_def g1_def [symmetric]
      g2_def [symmetric] w_def [symmetric] h3_def [symmetric] h4_def [symmetric] h5_def [symmetric] by auto
  have wf': "bank_wf g2" using wf by (simp add: bank_wf_def g2_def g1_def)
  note F = bank_file(3,4) [OF law [unfolded g'] wf'] and s' = s [unfolded g']
  have p: "pins_of peek g2 h' s = pins_of peek g2 h5 s" "pins_of peek g2 h2 s = pins_of peek g2 h s"
    using keep(2) [where num = "bank_num g" and n = "0x20" and h = h] keep(3) [of dm h1] d a
    by (simp_all add: h' pins_of_def keep(1) Let_def)
  have "pins_of peek g2 h4 s = pins_of peek g2 h3 s"
  proof (rule pins_of_cong [OF _ s'])
    fix x assume x: "x \<in> gpio_cells g2"
    have "x \<noteq> reg_base g2 + port_eoi (gpio_regs g2) \<and> x \<noteq> reg_base g2 + port_eoi (gpio_regs g2) + 4"
      using x wf' by (cases "gpio_type g2") (auto simp: gpio_cells_def pin_regs_def gpio_regs_v1_def gpio_regs_v2_def bank_wf_def)
    then show "peek h4 x = peek h3 x"
      using law_write [OF law [unfolded g'] x] by (simp add: h4_def w_def rockchip_gpio_writel_def gpio_writel_v2_def Let_def)
  qed
  moreover have "(0xffffffff :: u32) = - 1" by simp
  ultimately show ?thesis
    using F s' p by (auto simp: g' h5_def h3_def w_def view_writel)
qed

section \<open>Examples\<close>

text \<open>A simulated kernel; the domains have the number 0.\<close>

definition gsim_env :: "gpio_version \<Rightarrow> gpio_sim gpio_env" where
  "gsim_env t = gpio_port.extend (gsim_port t) (gpio_env.fields
     (\<lambda>h. True) (\<lambda>num gc h. (h\<lparr>gsim_chips := insert num (gsim_chips h)\<rparr>, None)) (\<lambda>num h. h\<lparr>gsim_chips := gsim_chips h - {num}\<rparr>)
     (\<lambda>num gc h. (h, None)) (\<lambda>num n h. (Some 0, h)) (\<lambda>d h. (h, None)) (\<lambda>d h. h) (\<lambda>d h. (gsim_gc t)\<lparr>gc_v2 := False\<rparr>)
     (\<lambda>i h. h\<lparr>gsim_chained := insert i (gsim_chained h)\<rparr>) (\<lambda>n. mask (nat n)))"

definition gsim_node :: gpio_node where
  "gsim_node = \<lparr>nd_of_node = True, nd_parent = True, nd_alias = - 1, nd_address = True, nd_ioremap = Inr 0, nd_irq = 33,
     nd_clk = Clk, nd_gpio_ranges = False\<rparr>"

definition gsim_banks :: gpio_banks where
  "gsim_banks = \<lparr>the_banks = [gsim_bank GPIO_TYPE_V1, (gsim_bank GPIO_TYPE_V1)\<lparr>bank_num := 1\<rparr>], gpio_number = 0\<rparr>"

definition gsim_start :: "gpio_version \<Rightarrow> gpio_sim" where
  "gsim_start t = gsim_off\<lparr>gsim_cells := (\<lambda>a. 0)(0x78 := if t = GPIO_TYPE_V2 then GPIO_TYPE_V2_ID else 0)\<rparr>"

lemma gsim_env_fields [simp]:
  "gp_readl (gsim_env t) = gsim_readl t" "gp_writel (gsim_env t) = gsim_gwritel t" "gp_clk_enable (gsim_env t) = gsim_count 1"
  "gp_clk_disable (gsim_env t) = gsim_count (- 1)" "of_pinctrl_get (gsim_env t) = (\<lambda>h. True)"
  "gpiochip_add_data (gsim_env t) = (\<lambda>num gc h. (h\<lparr>gsim_chips := insert num (gsim_chips h)\<rparr>, None))"
  "gpiochip_remove (gsim_env t) = (\<lambda>num h. h\<lparr>gsim_chips := gsim_chips h - {num}\<rparr>)"
  "gpiochip_add_pin_range (gsim_env t) = (\<lambda>num gc h. (h, None))" "irq_domain_add_linear (gsim_env t) = (\<lambda>num n h. (Some 0, h))"
  "irq_alloc_domain_generic_chips (gsim_env t) = (\<lambda>d h. (h, None))" "irq_domain_remove (gsim_env t) = (\<lambda>d h. h)"
  "irq_set_chained_handler (gsim_env t) = (\<lambda>i h. h\<lparr>gsim_chained := insert i (gsim_chained h)\<rparr>)"
  by (simp_all add: gsim_env_def gsim_port_def gpio_port.defs gpio_env.defs)





lemmas gsim_defs = rockchip_gpio_probe_def rockchip_gpio_find_bank_def gsim_banks_def gsim_node_def gsim_bank_def rockchip_get_bank_data_def
  Let_def gsim_readl_def gsim_start_def gsim_off_def gsim_count_def gsim_peek_def gsim_regs_def gpio_regs_v2_def GPIO_TYPE_V2_ID_def
  rockchip_gpiolib_register_def rockchip_interrupts_register_def


text \<open>
  Three ways in which it goes wrong: the clock of a bank of version 2 without a debounce clock stays enabled; a
  bank without an alias whose clock comes late takes the next number when it is probed again, and becomes
  the next bank; removing leaves the handler of the interrupt in place.
\<close>

theorem gpio_probe_leaks_clock:
  "\<exists>S' h'. rockchip_gpio_probe (gsim_env GPIO_TYPE_V2) (gsim_node\<lparr>nd_clk := \<lambda>n. if n = 0 then Clk 0 else Clk_ERR ENOENT\<rparr>)
     gsim_banks (gsim_start GPIO_TYPE_V2) = (S', h', Inl EINVAL) \<and> gsim_clocks h' (Clk 0) = 1"
  by (simp add: gsim_defs)

theorem gpio_probe_number_lost:
  "\<exists>S' h' S'' h''. rockchip_gpio_probe (gsim_env GPIO_TYPE_V2) (gsim_node\<lparr>nd_clk := \<lambda>n. Clk_ERR EPROBE_DEFER\<rparr>)
     gsim_banks (gsim_start GPIO_TYPE_V2) = (S', h', Inl EPROBE_DEFER)
   \<and> rockchip_gpio_probe (gsim_env GPIO_TYPE_V2) gsim_node S' h' = (S'', h'', Inr 1)"
  by (auto simp: gsim_defs)

theorem gpio_remove_leaves_handler:
  "\<exists>S' h'. rockchip_gpio_probe (gsim_env GPIO_TYPE_V2) gsim_node gsim_banks (gsim_start GPIO_TYPE_V2) = (S', h', Inr 0)
     \<and> 33 \<in> gsim_chained (rockchip_gpio_remove (gsim_env GPIO_TYPE_V2) 0 S' h')"
  by (auto simp: gsim_defs rockchip_gpio_remove_def)

end
