(* ===== verification/Pin_Setting.thy ===== *)
theory Pin_Setting
  imports Pin_Register
begin

text \<open>
  The settings of a pin, and where on every chip their bits are in the registers.
\<close>

section \<open>The chips\<close>

text \<open>The controllers of \<open>rockchip_pinctrl_dt_match\<close>, after the first probe.\<close>

definition rockchip_pinctrl_dt_match :: "(rk_port \<Rightarrow> int \<Rightarrow> int) \<Rightarrow> rockchip_pin_ctrl list" where
  "rockchip_pinctrl_dt_match pno = [px30_pin_ctrl pno, rv1108_pin_ctrl pno, rv1126_pin_ctrl pno, rk1808_pin_ctrl pno,
     rk2928_pin_ctrl pno, rk3036_pin_ctrl pno, rk3066a_pin_ctrl pno, rk3066b_pin_ctrl pno, rk3128_pin_ctrl pno,
     rk3188_pin_ctrl pno, rk3228_pin_ctrl pno, rk3288_pin_ctrl pno, rk3308_pin_ctrl pno, rk3328_pin_ctrl pno,
     rk3368_pin_ctrl pno, rk3399_pin_ctrl pno, rk3568_pin_ctrl pno]"

definition chip :: "rockchip_pin_ctrl \<Rightarrow> bool" where
  "chip C \<longleftrightarrow> (\<exists>pno. C \<in> rockchip_pinctrl_get_soc_data ` set (rockchip_pinctrl_dt_match pno))"

lemma soc_data_fields [simp]:
  "ctrl_type (rockchip_pinctrl_get_soc_data C) = ctrl_type C"
  "iomux_recalced (rockchip_pinctrl_get_soc_data C) = iomux_recalced C"
  "iomux_routes (rockchip_pinctrl_get_soc_data C) = iomux_routes C"
  "soc_data_init (rockchip_pinctrl_get_soc_data C) = soc_data_init C"
  "pull_calc_reg (rockchip_pinctrl_get_soc_data C) = pull_calc_reg C"
  "drv_calc_reg (rockchip_pinctrl_get_soc_data C) = drv_calc_reg C"
  "schmitt_calc_reg (rockchip_pinctrl_get_soc_data C) = schmitt_calc_reg C"
  "slew_rate_calc_reg (rockchip_pinctrl_get_soc_data C) = slew_rate_calc_reg C"
  by (simp_all add: rockchip_pinctrl_get_soc_data_def case_prod_beta)

lemmas pin_ctrls = px30_pin_ctrl_def rv1108_pin_ctrl_def rv1126_pin_ctrl_def rk1808_pin_ctrl_def rk2928_pin_ctrl_def
  rk3036_pin_ctrl_def rk3066a_pin_ctrl_def rk3066b_pin_ctrl_def rk3128_pin_ctrl_def rk3188_pin_ctrl_def rk3228_pin_ctrl_def
  rk3288_pin_ctrl_def rk3308_pin_ctrl_def rk3328_pin_ctrl_def rk3368_pin_ctrl_def rk3399_pin_ctrl_def rk3568_pin_ctrl_def

section \<open>Settings\<close>

datatype pin_setting = Pull_field | Drive_field | Schmitt_field | Slew_field

definition setting_calc :: "rockchip_pin_ctrl \<Rightarrow> pin_setting \<Rightarrow> pin_calc option" where
  "setting_calc C k = (case k of Pull_field \<Rightarrow> pull_calc_reg C | Drive_field \<Rightarrow> drv_calc_reg C
     | Schmitt_field \<Rightarrow> schmitt_calc_reg C | Slew_field \<Rightarrow> slew_rate_calc_reg C)"

definition setting_width :: "rockchip_pin_ctrl \<Rightarrow> pin_setting \<Rightarrow> int" where
  "setting_width C k = (case k of Pull_field \<Rightarrow> if one_bit_pull C then 1 else 2
     | Drive_field \<Rightarrow> if ctrl_type C = RV1126 then 4 else if ctrl_type C = RK3568 then 8 else 2
     | Schmitt_field \<Rightarrow> if ctrl_type C = RK3568 then 2 else 1 | Slew_field \<Rightarrow> 1)"

lemma soc_data_settings [simp]:
  "setting_calc (rockchip_pinctrl_get_soc_data C) = setting_calc C"
  "setting_width (rockchip_pinctrl_get_soc_data C) = setting_width C"
  by (simp_all add: fun_eq_iff setting_calc_def setting_width_def one_bit_pull_def split: pin_setting.split)

lemma mod_fields:
  "pin mod 8 * 2 \<le> (14 :: int)" "pin mod 4 * 4 \<le> (12 :: int)" "pin mod 8 mod 5 * 3 \<le> (12 :: int)"
  by simp_all

text \<open>Where the bits of a setting are in its register.\<close>

definition field_fits :: "int \<Rightarrow> pin_regmap \<times> int \<times> int \<Rightarrow> bool" where
  "field_fits w f \<longleftrightarrow> 0 \<le> snd (snd f) \<and> snd (snd f) + w \<le> 16"

lemma pin_fits:
  "field_fits 2 (px30_calc_pull_reg_and_bit M b p)"
  "field_fits 2 (px30_calc_drv_reg_and_bit M b p)"
  "field_fits 1 (px30_calc_schmitt_reg_and_bit M b p)"
  "field_fits 2 (rv1108_calc_pull_reg_and_bit M b p)"
  "field_fits 2 (rv1108_calc_drv_reg_and_bit M b p)"
  "field_fits 1 (rv1108_calc_schmitt_reg_and_bit M b p)"
  "field_fits 2 (rv1126_calc_pull_reg_and_bit M b p)"
  "field_fits 4 (rv1126_calc_drv_reg_and_bit M b p)"
  "field_fits 1 (rv1126_calc_schmitt_reg_and_bit M b p)"
  "field_fits 1 (rk3308_calc_schmitt_reg_and_bit M b p)"
  "field_fits 2 (rk1808_calc_pull_reg_and_bit M b p)"
  "field_fits 2 (rk1808_calc_drv_reg_and_bit M b p)"
  "field_fits 1 (rk1808_calc_slew_rate_reg_and_bit M b p)"
  "field_fits 1 (rk1808_calc_schmitt_reg_and_bit M b p)"
  "field_fits 1 (rk2928_calc_pull_reg_and_bit M b p)"
  "field_fits 1 (rk3128_calc_pull_reg_and_bit M b p)"
  "field_fits 2 (rk3188_calc_pull_reg_and_bit M b p)"
  "field_fits 2 (rk3288_calc_pull_reg_and_bit M b p)"
  "field_fits 2 (rk3288_calc_drv_reg_and_bit M b p)"
  "field_fits 2 (rk3228_calc_pull_reg_and_bit M b p)"
  "field_fits 2 (rk3228_calc_drv_reg_and_bit M b p)"
  "field_fits 2 (rk3308_calc_pull_reg_and_bit M b p)"
  "field_fits 2 (rk3308_calc_drv_reg_and_bit M b p)"
  "field_fits 2 (rk3368_calc_pull_reg_and_bit M b p)"
  "field_fits 2 (rk3368_calc_drv_reg_and_bit M b p)"
  "field_fits 2 (rk3399_calc_pull_reg_and_bit M b p)"
  "\<not> wide_drv (pin_drv_type b p) \<Longrightarrow> field_fits 2 (rk3399_calc_drv_reg_and_bit M b p)"
  "field_fits 1 (rk3568_calc_slew_rate_reg_and_bit M b p)"
  "field_fits 2 (rk3568_calc_pull_reg_and_bit M b p)"
  "cpu_version M \<noteq> 0 \<Longrightarrow> field_fits 8 (rk3568_calc_drv_reg_and_bit M b p)"
  "field_fits 1 (rk3328_calc_schmitt_reg_and_bit M b p)"
  "field_fits 2 (rk3568_calc_schmitt_reg_and_bit M b p)"
  "field_fits 1 (px30_calc_slew_rate_reg_and_bit M b p)"
  using mod_fields [of p]
  by (auto simp: field_fits_def pin_calcs pin_offsets Let_def wide_drv_def pin_drv_type_def)

lemma chip_field:
  assumes "chip C" "setting_calc C k = Some calc" "k = Drive_field \<Longrightarrow> \<not> wide_drv (pin_drv_type b p) \<and> (ctrl_type C = RK3568 \<longrightarrow> cpu_version M \<noteq> 0)"
  shows "field_fits (setting_width C k) (calc M b p)"
  using assms unfolding chip_def rockchip_pinctrl_dt_match_def
  by (cases k)
    (auto simp: pin_ctrls pin_fits setting_calc_def setting_width_def one_bit_pull_def)

lemma chip_pull:
  assumes "chip C" "ctrl_type C \<noteq> RK3066B"
  obtains calc where "pull_calc_reg C = Some calc"
  using assms by (auto simp: chip_def rockchip_pinctrl_dt_match_def pin_ctrls)

lemma setting_width_pos: "0 < setting_width C k"
  by (cases k) (simp_all add: setting_width_def)

lemma chip_room:
  assumes "chip C" "setting_calc C k = Some calc"
    "k = Drive_field \<Longrightarrow> \<not> wide_drv (pin_drv_type b p) \<and> (ctrl_type C = RK3568 \<longrightarrow> cpu_version M \<noteq> 0)"
    "calc M b p = (rm, reg, bt)"
  shows "nat bt + nat (setting_width C k) \<le> 16"
  using chip_field [OF assms(1-3)] setting_width_pos [of C k] by (auto simp: field_fits_def assms(4) nat_add_distrib [symmetric] nat_le_iff)

section \<open>An example\<close>

text \<open>The PX30, for the witnesses.\<close>

definition px30 :: rockchip_pin_ctrl where
  "px30 = rockchip_pinctrl_get_soc_data (px30_pin_ctrl (\<lambda>port n. 0))"

lemma chip_px30: "chip px30"
  by (auto simp: chip_def px30_def rockchip_pinctrl_dt_match_def)

lemma px30_fields [simp]:
  "ctrl_type px30 = PX30" "one_bit_pull px30 = False" "pull_calc_reg px30 = Some px30_calc_pull_reg_and_bit"
  "drv_calc_reg px30 = Some px30_calc_drv_reg_and_bit" "schmitt_calc_reg px30 = Some px30_calc_schmitt_reg_and_bit"
  "slew_rate_calc_reg px30 = Some px30_calc_slew_rate_reg_and_bit"
  by (simp_all add: px30_def px30_pin_ctrl_def one_bit_pull_def)

lemma example_bank [simp]:
  "pin_pull_type (PIN_BANK 1 32 ''gpio1'') 3 = PULL_TYPE_IO_DEFAULT" "pin_drv_type (PIN_BANK 1 32 ''gpio1'') 3 = DRV_TYPE_IO_DEFAULT"
  "bank_num (PIN_BANK 1 32 ''gpio1'') = 1" "nr_pins (PIN_BANK 1 32 ''gpio1'') = 32"
  by (simp_all add: pin_pull_type_def pin_drv_type_def bank_macros)

end
