(* ===== verification/Pin_Readback.thy ===== *)
theory Pin_Readback
  imports Pin_Setting
begin

text \<open>
  What the functions of \<open>pinctrl-rockchip.c\<close> read after they have written it: the function, the pull, the
  drive strength, the Schmitt trigger and the slew rate of a pin, on every chip.
\<close>

lemma chip_recalced:
  assumes "chip C" "r \<in> set (iomux_recalced C)"
  shows "rc_mask r = 0x3 \<and> rc_bit r \<le> 14 \<or> rc_mask r = 0x7 \<and> rc_bit r \<le> 13 \<or> rc_mask r = 0xf \<and> rc_bit r \<le> 12"
proof -
  have "iomux_recalced C \<in> {[], rv1108_mux_recalced_data, rv1126_mux_recalced_data, rk3128_mux_recalced_data,
      rk3308_mux_recalced_data, rk3328_mux_recalced_data}"
    using assms(1) by (auto simp: chip_def rockchip_pinctrl_dt_match_def pin_ctrls)
  moreover have "list_all (\<lambda>r. rc_mask r = 0x3 \<and> rc_bit r \<le> 14 \<or> rc_mask r = 0x7 \<and> rc_bit r \<le> 13 \<or> rc_mask r = 0xf \<and> rc_bit r \<le> 12) t"
    if "t \<in> {[], rv1108_mux_recalced_data, rv1126_mux_recalced_data, rk3128_mux_recalced_data,
      rk3308_mux_recalced_data, rk3328_mux_recalced_data}" for t
    using that by (auto simp: rv1108_mux_recalced_data_def rv1126_mux_recalced_data_def rk3128_mux_recalced_data_def
        rk3308_mux_recalced_data_def rk3328_mux_recalced_data_def recalced_def)
  ultimately show ?thesis using assms(2) by (simp only: list_all_iff)
qed

lemma mux_field_fits:
  assumes "chip C" "mux_field C b pin = (reg, bt, msk)"
  obtains w where "word_of_int msk = (mask w :: u32)" "msk = mask w" "nat bt + w \<le> 16"
proof -
  have masks: "(3::int) = mask 2" "(7::int) = mask 3" "(15::int) = mask 4" by (simp_all add: mask_eq_exp_minus_1)
  have fits: "msk = 0x3 \<and> bt \<le> 14 \<or> msk = 0x7 \<and> bt \<le> 13 \<or> msk = 0xf \<and> bt \<le> 12"
  proof (cases "find (\<lambda>r. rc_num r = bank_num b \<and> rc_pin r = pin) (iomux_recalced C)")
    case (Some r)
    then have "r \<in> set (iomux_recalced C)" by (auto simp: find_Some_iff)
    from chip_recalced [OF assms(1) this] Some assms(2) show ?thesis
      using mod_fields [of pin] by (auto simp: mux_field_def rockchip_get_recalced_mux_def Let_def split: if_splits)
  next
    case None
    then show ?thesis
      using assms(2) mod_fields [of pin] by (auto simp: mux_field_def rockchip_get_recalced_mux_def Let_def split: if_splits)
  qed
  then have "\<exists>w. msk = mask w \<and> nat bt + w \<le> 16"
  proof (elim disjE conjE)
    assume "msk = 0x3" "bt \<le> 14" then show ?thesis by (intro exI [of _ 2]) (auto simp: masks)
  next
    assume "msk = 0x7" "bt \<le> 13" then show ?thesis by (intro exI [of _ 3]) (auto simp: masks)
  next
    assume "msk = 0xf" "bt \<le> 12" then show ?thesis by (intro exI [of _ 4]) (auto simp: masks)
  qed
  then obtain w where w: "msk = mask w" "nat bt + w \<le> 16" by blast
  then have "word_of_int msk = (mask w :: u32)" by (simp add: of_int_mask_eq)
  then show thesis using that w by blast
qed

section \<open>Reading back\<close>

lemma then_read:
  "map_there M rm \<Longrightarrow> pin_read P rm reg h = Inr v \<Longrightarrow> then_op (read_op M P rm reg) f h = f v h"
  by (simp add: then_op_def read_op_def)

lemma field_read:
  assumes "pin_law P plain" "nat bt + w \<le> 16" "write_field M P rm reg bt w x h = Some (h', Inr ())"
  obtains new where "drop_bit (nat bt) new AND mask w = x AND mask w" "map_there M rm" "pin_read P rm reg h' = Inr new"
  using write_field_set [OF assms] field_set_read [of P rm reg "nat bt" w x h h'] assms(2) by blast

lemma bit_field:
  assumes "nat bt < 16"
  shows "update_op M P rm reg (BIT (nat bt + 16) OR BIT (nat bt)) (BIT (nat bt + 16) OR push_bit (nat bt) x) = write_field M P rm reg bt 1 x"
proof -
  have "drop_bit 16 (push_bit (nat bt + 16) 1 :: u32) = push_bit (nat bt) 1"
    using assms by (intro bit_word_eqI) (auto simp: bit_simps)
  then show ?thesis by (simp add: write_field_def Let_def BIT_def del: push_bit_of_1)
qed






lemma mux_write:
  assumes law: "pin_law P plain" and "nat bt + w \<le> 16"
    and w: "update_op M P rm reg (push_bit (nat bt + 16) (mask w) OR drop_bit 16 (push_bit (nat bt + 16) (mask w)))
             (push_bit (nat bt + 16) (mask w) OR push_bit (nat bt) x) h = Some (h', Inr ())"
  obtains new where "drop_bit (nat bt) new AND mask w = x AND mask w" "map_there M rm" "pin_read P rm reg h' = Inr new"
  using field_read [of P plain bt w M rm reg x h h'] assms by (simp add: write_field_def Let_def) blast

lemma drop_put_field:
  "b + w \<le> 32 \<Longrightarrow> drop_bit b ((d AND NOT (push_bit b (mask w))) OR push_bit b (x AND mask w)) AND mask w = (x AND mask w :: u32)"
  by (rule bit_word_eqI) (auto simp: bit_simps)

lemma whole_write:
  assumes law: "pin_law P plain" and "plain rm reg"
    and w: "then_op (read_op M P rm reg) (\<lambda>d. write_op M P rm reg (f d)) h = Some (h', Inr ())"
  obtains d where "map_there M rm" "pin_read P rm reg h' = Inr (f d)"
proof -
  obtain d where d: "map_there M rm" "pin_write P rm reg (f d) h = (h', None)"
    using w by (auto simp: then_op_Inr read_op_Inr write_op_Inr)
  show thesis
    using pin_law_write [OF law d(2)] that [OF d(1)] by (simp add: assms(2)) blast
qed

lemma uint_take: "w \<le> 32 \<Longrightarrow> uint (word_of_int x AND mask w :: u32) = take_bit w x"
  by (simp flip: take_bit_eq_mask add: unsigned_take_bit_eq unsigned_of_int min_def)

lemma uint_masked:
  "0 \<le> x \<Longrightarrow> x \<le> mask w \<Longrightarrow> w \<le> 32 \<Longrightarrow> uint (word_of_int x AND mask w :: u32) = x"
  using take_bit_int_eq_self [of x w] by (simp only: uint_take) (simp add: mask_eq_exp_minus_1)

text \<open>
  C18: the function that is set is the one that is read, on every chip, for pins of two, three and four bits and
  those with registers of their own, where the registers without a mask for writing take the whole word.
\<close>

theorem rockchip_get_mux_set:
  assumes law: "pin_law P plain" and "chip C" "0 \<le> mux"
    and whole: "iom_has b pin IOMUX_WRITABLE_32BIT \<Longrightarrow> \<forall>reg. plain (mux_regmap b pin) reg"
    and ok: "rockchip_set_mux M C P func_gpio b pin mux h = Some (h', Inr ())"
  shows "rockchip_get_mux M C P func_gpio b pin h' = Some (h', Inr mux)"
proof (cases "iom_has b pin IOMUX_GPIO_ONLY")
  case True
  then show ?thesis
    using ok by (auto simp: rockchip_set_mux_def rockchip_get_mux_def rockchip_verify_mux_def split: if_splits)
next
  case False
  obtain reg bt msk where f: "mux_field C b pin = (reg, bt, msk)" by (rule prod_cases3)
  obtain w where w: "word_of_int msk = (mask w :: u32)" "msk = mask w" "nat bt + w \<le> 16"
    using mux_field_fits [OF assms(2) f] .
  let ?rm = "mux_regmap b pin" and ?v = "push_bit (nat bt) (word_of_int mux AND mask w) :: u32"
  have routed: "0 \<le> pin" "pin div 8 \<le> 3" "\<not> iom_has b pin IOMUX_UNROUTED" "mux \<le> msk"
    and run: "then_op (set_route M C P b pin mux) (\<lambda>_.
        if iom_has b pin IOMUX_WRITABLE_32BIT
        then then_op (read_op M P ?rm reg) (\<lambda>d. write_op M P ?rm reg ((d AND NOT (push_bit (nat bt) (mask w))) OR ?v))
        else update_op M P ?rm reg (push_bit (nat bt + 16) (mask w) OR drop_bit 16 (push_bit (nat bt + 16) (mask w)))
               (push_bit (nat bt + 16) (mask w) OR ?v)) h = Some (h', Inr ())"
    using ok False f w(1) by (auto simp: rockchip_set_mux_def rockchip_verify_mux_def Let_def split: if_splits)
  have "\<exists>new. drop_bit (nat bt) new AND mask w = word_of_int mux AND mask w \<and> map_there M ?rm \<and> pin_read P ?rm reg h' = Inr new"
  proof (cases "iom_has b pin IOMUX_WRITABLE_32BIT")
    case True
    then obtain h1 where
      "then_op (read_op M P ?rm reg) (\<lambda>d. write_op M P ?rm reg ((d AND NOT (push_bit (nat bt) (mask w))) OR ?v)) h1 = Some (h', Inr ())"
      using run by (auto simp: then_op_Inr [of "set_route M C P b pin mux"])
    from whole_write [OF law whole [OF True, rule_format] this] drop_put_field [of "nat bt" w] w(3)
    show ?thesis by fastforce
  next
    case False
    then obtain h1 where
      "update_op M P ?rm reg (push_bit (nat bt + 16) (mask w) OR drop_bit 16 (push_bit (nat bt + 16) (mask w)))
         (push_bit (nat bt + 16) (mask w) OR ?v) h1 = Some (h', Inr ())"
      using run by (auto simp: then_op_Inr [of "set_route M C P b pin mux"])
    from mux_write [OF law w(3) this] show ?thesis by (auto simp: and.assoc)
  qed
  then obtain new where new: "drop_bit (nat bt) new AND mask w = word_of_int mux AND mask w" "map_there M ?rm" "pin_read P ?rm reg h' = Inr new"
    by (elim exE conjE) (rule that)
  have "uint (word_of_int mux AND mask w :: u32) = mux"
    using uint_masked [of mux w] assms(3) routed(4) w(2,3) by simp
  then show ?thesis
    using routed False f w(1) new(1) by (simp add: rockchip_get_mux_def then_read [OF new(2,3)])
qed

theorem rockchip_get_mux_set_witness:
  "\<exists>h'. rockchip_set_mux all_maps px30 hiword_port 0 (PIN_BANK 1 32 ''gpio1'') 3 2 (\<lambda>rm reg. 0) = Some (h', Inr ())
     \<and> rockchip_get_mux all_maps px30 hiword_port 0 (PIN_BANK 1 32 ''gpio1'') 3 h' = Some (h', Inr 2)"
proof -
  let ?b = "PIN_BANK 1 32 ''gpio1''"
  have [simp]: "iom_has ?b 3 f = False" for f by (simp add: iom_has_def pin_iomux_def bank_macros)
  have [simp]: "recalced_mask ?b = 0" "route_mask ?b = 0" by (simp_all add: bank_macros)
  obtain h' where set: "rockchip_set_mux all_maps px30 hiword_port 0 ?b 3 2 (\<lambda>rm reg. 0) = Some (h', Inr ())"
    using hiword_port_update by (simp add: rockchip_set_mux_def rockchip_verify_mux_def mux_field_def set_route_def then_op_def case_prod_beta Let_def) blast
  with rockchip_get_mux_set [OF hiword_port_law chip_px30 _ _ set] show ?thesis by auto
qed

end
