(* ===== verification/Pin_Drive.thy ===== *)
theory Pin_Drive
  imports Pin_Readback
begin

text \<open>
  The Schmitt trigger, the slew rate and the drive strength read back, on every chip.
\<close>

section \<open>Schmitt trigger and slew rate\<close>

lemma uint_bit_masked: "uint (word_of_int x AND mask 1 :: u32) = x mod 2"
  using uint_take [of 1 x] by (simp only: take_bit_eq_mod) simp

text \<open>
  the Schmitt trigger that is set is the one that is read, of a value other than 0 and 1 the lowest bit; on
  the RK3568, where there are two bits, 2 is read for an enabled one and 1 for a disabled one.
\<close>

theorem rockchip_get_schmitt_set:
  assumes "pin_law P plain" "chip C" "rockchip_set_schmitt M C P b pin enable h = Some (h', Inr ())"
  shows "rockchip_get_schmitt M C P b pin h' = Some (h', Inr
     (if ctrl_type C = RK3568 then if enable \<noteq> 0 then 2 else 1 else enable mod 2))"
proof -
  obtain calc where calc: "schmitt_calc_reg C = Some calc"
    using assms(3) by (auto simp: rockchip_set_schmitt_def fault_op_def split: option.splits)
  obtain rm reg bt where f: "calc M b pin = (rm, reg, bt)" by (rule prod_cases3)
  let ?w = "if ctrl_type C = RK3568 then nat RK3568_SCHMITT_BITS_PER_PIN else 1"
    and ?x = "if ctrl_type C = RK3568 then if enable \<noteq> 0 then 2 else 1 else word_of_int enable :: u32"
  have fits: "nat bt + ?w \<le> 16" using chip_room [OF assms(2), of Schmitt_field calc b pin M rm reg bt] calc f
    by (simp add: setting_calc_def setting_width_def RK3568_SCHMITT_BITS_PER_PIN_def split: if_splits)
  then have "write_field M P rm reg bt ?w ?x h = Some (h', Inr ())"
    using assms(3) calc f by (auto simp: rockchip_set_schmitt_def bit_field split: if_splits)
  from field_read [OF assms(1) fits this]
  obtain new where new: "drop_bit (nat bt) new AND mask ?w = ?x AND mask ?w" "map_there M rm" "pin_read P rm reg h' = Inr new" .
  have "uint (?x AND mask ?w) = (if ctrl_type C = RK3568 then if enable \<noteq> 0 then 2 else 1 else enable mod 2)"
    using uint_bit_masked [of enable] by (simp add: RK3568_SCHMITT_BITS_PER_PIN_def mask_eq_exp_minus_1)
  then show ?thesis using calc f new(1) by (simp add: rockchip_get_schmitt_def then_read [OF new(2,3)])
qed

theorem rockchip_get_schmitt_set_witness:
  "\<exists>h'. rockchip_set_schmitt all_maps px30 hiword_port (PIN_BANK 1 32 ''gpio1'') 3 1 (\<lambda>rm reg. 0) = Some (h', Inr ())
     \<and> rockchip_get_schmitt all_maps px30 hiword_port (PIN_BANK 1 32 ''gpio1'') 3 h' = Some (h', Inr 1)"
proof -
  let ?b = "PIN_BANK 1 32 ''gpio1''"
  obtain h' where set: "rockchip_set_schmitt all_maps px30 hiword_port ?b 3 1 (\<lambda>rm reg. 0) = Some (h', Inr ())"
    using hiword_port_update by (simp add: rockchip_set_schmitt_def case_prod_beta Let_def) blast
  with rockchip_get_schmitt_set [OF hiword_port_law chip_px30 set] show ?thesis by auto
qed

lemma rockchip_get_slew_rate_set:
  assumes "pin_law P plain" "chip C" "rockchip_set_slew_rate M C P b pin speed h = Some (h', Inr ())"
  shows "rockchip_get_slew_rate M C P b pin h' = Some (h', Inr (speed mod 2))"
proof -
  obtain calc where calc: "slew_rate_calc_reg C = Some calc"
    using assms(3) by (auto simp: rockchip_set_slew_rate_def fault_op_def split: option.splits)
  obtain rm reg bt where f: "calc M b pin = (rm, reg, bt)" by (rule prod_cases3)
  have fits: "nat bt + 1 \<le> 16" using chip_room [OF assms(2), of Slew_field calc b pin M rm reg bt] calc f
    by (simp add: setting_calc_def setting_width_def)
  then have "write_field M P rm reg bt 1 (word_of_int speed) h = Some (h', Inr ())"
    using assms(3) calc f by (simp add: rockchip_set_slew_rate_def bit_field)
  from field_read [OF assms(1) fits this]
  obtain new where new: "drop_bit (nat bt) new AND mask 1 = word_of_int speed AND mask 1" "map_there M rm" "pin_read P rm reg h' = Inr new" .
  then show ?thesis
    using calc f uint_bit_masked [of speed] by (simp add: rockchip_get_slew_rate_def then_read [OF new(2,3)])
qed

section \<open>Drive strength\<close>

lemma find_drv_nth: "find_drv xs x i = Inr k \<Longrightarrow> i \<le> k \<and> k < i + length xs \<and> xs ! (k - i) = x"
  by (induction xs x i rule: find_drv.induct) (auto split: if_splits simp: nth_Cons')

lemma find_drv_listed:
  assumes "find_drv (rockchip_perpin_drv_list t) x 0 = Inr i" "0 \<le> x"
  shows "i < (if wide_drv t then 8 else 4)" "rockchip_perpin_drv_list t ! i = x"
proof -
  have "i < 8" "rockchip_perpin_drv_list t ! i = x" using find_drv_nth [OF assms(1)] by (cases t; simp)+
  then show "i < (if wide_drv t then 8 else 4)" "rockchip_perpin_drv_list t ! i = x"
    using assms(2) by (cases t; auto simp: wide_drv_def nth_Cons' split: if_splits)+
qed

lemma unat_listed: "i < 2 ^ w \<Longrightarrow> w \<le> 32 \<Longrightarrow> unat (of_nat i AND mask w :: u32) = i"
  by (simp flip: take_bit_eq_mask add: unsigned_take_bit_eq unsigned_of_nat min_def take_bit_nat_eq_self)

lemma listed_drv_nth:
  "i < 8 \<Longrightarrow> unat d = i \<Longrightarrow> listed_drv t d = ok_op (rockchip_perpin_drv_list t ! i)"
  by (cases t) (simp_all add: listed_drv_def)

lemma read_drv_written:
  assumes "pin_law P plain" "nat bt + w \<le> 16" "write_field M P rm reg bt w (of_nat i) h = Some (h', Inr ())" "i < 2 ^ w" "i < 8"
  shows "read_drv M P t rm reg bt w h' = Some (h', Inr (rockchip_perpin_drv_list t ! i))"
proof -
  from field_read [OF assms(1-3)] obtain new where
    new: "drop_bit (nat bt) new AND mask w = of_nat i AND mask w" "map_there M rm" "pin_read P rm reg h' = Inr new" .
  have "unat (of_nat i AND mask w :: u32) = i" using unat_listed [of i w] assms(2,4) by simp
  then show ?thesis
    using assms(5) new(1) by (simp add: read_drv_def then_read [OF new(2,3)] listed_drv_nth)
qed

lemma split_value:
  assumes "i < 8" "drop_bit 15 d AND mask 1 = (of_nat i AND 1) AND mask 1" "drop_bit 16 (d :: u32) = 0"
    "drop_bit 0 temp AND mask 2 = (drop_bit 1 (of_nat i) AND 3) AND mask 2"
  shows "unat (drop_bit 15 d OR push_bit 1 (temp AND 3)) = i"
proof -
  have "drop_bit 15 d = drop_bit 15 d AND mask 1"
  proof (rule bit_word_eqI)
    fix n :: nat
    show "bit (drop_bit 15 d) n = bit (drop_bit 15 d AND mask 1) n"
      using upper_zero [OF assms(3), of "15 + n"] by (cases "n = 0") (auto simp: bit_simps)
  qed
  moreover have "temp AND 3 = drop_bit 1 (of_nat i) AND 3"
    using assms(4) by (simp add: mask_eq_exp_minus_1)
  moreover have "i \<in> {0, 1, 2, 3, 4, 5, 6, 7}" using assms(1) by auto
  ultimately show ?thesis using assms(2) by (auto simp: mask_eq_exp_minus_1)
qed

text \<open>The pin whose three bits are in two registers.\<close>

lemma split_written:
  assumes law: "pin_law P plain" and "\<forall>rm reg. \<not> plain rm reg" "i < 8"
    and ok: "then_op (update_op M P rm reg (BIT 15 OR BIT 31) (push_bit 15 (of_nat i AND 1) OR BIT 31)) (\<lambda>_.
        update_op M P rm (reg + 4) (3 OR push_bit 16 3) ((drop_bit 1 (of_nat i) AND 3) OR push_bit 16 3)) h = Some (h', Inr ())"
  shows "then_op (read_op M P rm reg) (\<lambda>d. then_op (read_op M P rm (reg + 4)) (\<lambda>temp.
      listed_drv t (drop_bit 15 d OR push_bit 1 (temp AND 3)))) h' = Some (h', Inr (rockchip_perpin_drv_list t ! i))"
proof -
  obtain h1 where w1: "write_field M P rm reg 15 1 (of_nat i AND 1) h = Some (h1, Inr ())"
    and w2: "write_field M P rm (reg + 4) 0 2 (drop_bit 1 (of_nat i) AND 3) h1 = Some (h', Inr ())"
    using ok by (auto simp: then_op_Inr write_field_def Let_def BIT_def or.commute mask_eq_exp_minus_1)
  from field_read [OF law _ w1] obtain d where
    d: "drop_bit 15 d AND mask 1 = (of_nat i AND 1) AND mask 1" "map_there M rm" "pin_read P rm reg h1 = Inr d" by auto
  from field_read [OF law _ w2] obtain temp where
    temp: "drop_bit 0 temp AND mask 2 = (drop_bit 1 (of_nat i) AND 3) AND mask 2" "pin_read P rm (reg + 4) h' = Inr temp" by auto
  have "pin_read P rm reg h' = Inr d"
    using write_field_set [OF law _ w2] d(3) by (auto simp: field_set_def)
  moreover have "unat (drop_bit 15 d OR push_bit 1 (temp AND 3)) = i"
    by (rule split_value [OF assms(3) d(1) pin_law_upper [OF law assms(2) [rule_format] d(3)] temp(1)])
  ultimately show ?thesis
    using assms(3) by (simp add: then_read [OF d(2)] temp(2) listed_drv_nth)
qed

text \<open>
  C20: a strength that setting it accepts is the one that is read, on every chip but the RV1126 and the RK3568 (which
  read another one), for all five kinds of pins: also where the three bits of a pin are in two registers. The
  registers are as documented: one with a write mask in its upper half changes just the bits selected there, any
  other (\<open>plain\<close>) takes the value written; and those of a wide strength have such a mask.
\<close>

theorem rockchip_get_drive_perpin_set:
  assumes law: "pin_law P plain" and "chip C" "ctrl_type C \<notin> {RV1126, RK3568}" "0 \<le> strength"
    and masked: "wide_drv (pin_drv_type b pin) \<Longrightarrow> \<forall>rm reg. \<not> plain rm reg"
    and ok: "rockchip_set_drive_perpin M C P b pin strength h = Some (h', Inr ())"
  shows "rockchip_get_drive_perpin M C P b pin h' = Some (h', Inr strength)"
proof -
  obtain calc where calc: "drv_calc_reg C = Some calc"
    using ok by (auto simp: rockchip_set_drive_perpin_def fault_op_def split: option.splits)
  obtain rm reg bt where f: "calc M b pin = (rm, reg, bt)" by (rule prod_cases3)
  let ?t = "pin_drv_type b pin"
  obtain i where i: "find_drv (rockchip_perpin_drv_list ?t) strength 0 = Inr i"
    using ok calc f assms(3) by (auto simp: rockchip_set_drive_perpin_def Let_def split: sum.splits)
  note listed = find_drv_listed [OF i assms(4)]
  show ?thesis
  proof (cases "wide_drv ?t")
    case False
    have fits: "nat bt + 2 \<le> 16" using chip_room [OF assms(2), of Drive_field calc b pin M rm reg bt] calc f assms(3) False
      by (simp add: setting_calc_def setting_width_def)
    have w: "write_field M P rm reg bt 2 (of_nat i) h = Some (h', Inr ())"
      using ok calc f i False assms(3) by (simp add: rockchip_set_drive_perpin_def Let_def RK3288_DRV_BITS_PER_PIN_def)
    from read_drv_written [OF law fits w, of ?t] False listed calc f show ?thesis
      by (simp add: rockchip_get_drive_perpin_def Let_def)
  next
    case True
    then have i8: "i < 8" using listed(1) by simp
    have set: "(if bt \<le> 12 then write_field M P rm reg bt 3 (of_nat i)
        else if bt = 15 then
          then_op (update_op M P rm reg (BIT 15 OR BIT 31) (push_bit 15 (of_nat i AND 1) OR BIT 31)) (\<lambda>_.
            update_op M P rm (reg + 4) (3 OR push_bit 16 3) ((drop_bit 1 (of_nat i) AND 3) OR push_bit 16 3))
        else if 18 \<le> bt \<and> bt \<le> 21 then write_field M P rm (reg + 4) (bt - 16) 3 (of_nat i)
        else err_op EINVAL) h = Some (h', Inr ())"
      using ok calc f i True assms(3) by (simp add: rockchip_set_drive_perpin_def Let_def)
    consider "bt \<le> 12" | "bt = 15" | "18 \<le> bt" "bt \<le> 21"
      using set by (auto split: if_splits)
    then show ?thesis
    proof cases
      case 1
      then show ?thesis
        using read_drv_written [OF law, of bt 3 M rm reg i h h' ?t] set i8 True listed(2) calc f
        by (simp add: rockchip_get_drive_perpin_def Let_def)
    next
      case 2
      then show ?thesis
        using split_written [OF law masked [OF True] i8, of M rm reg h h' ?t] set True listed(2) calc f
        by (simp add: rockchip_get_drive_perpin_def Let_def)
    next
      case 3
      then show ?thesis
        using read_drv_written [OF law, of "bt - 16" 3 M rm "reg + 4" i h h' ?t] set i8 True listed(2) calc f
        by (simp add: rockchip_get_drive_perpin_def Let_def)
    qed
  qed
qed

theorem rockchip_get_drive_perpin_set_witness:
  "\<exists>h'. rockchip_set_drive_perpin all_maps px30 hiword_port (PIN_BANK 1 32 ''gpio1'') 3 8 (\<lambda>rm reg. 0) = Some (h', Inr ())
     \<and> rockchip_get_drive_perpin all_maps px30 hiword_port (PIN_BANK 1 32 ''gpio1'') 3 h' = Some (h', Inr 8)"
proof -
  let ?b = "PIN_BANK 1 32 ''gpio1''"
  obtain h' where set: "rockchip_set_drive_perpin all_maps px30 hiword_port ?b 3 8 (\<lambda>rm reg. 0) = Some (h', Inr ())"
    using hiword_port_field by (simp add: rockchip_set_drive_perpin_def wide_drv_def case_prod_beta Let_def) blast
  with rockchip_get_drive_perpin_set [OF hiword_port_law chip_px30 _ _ _ set] show ?thesis by (auto simp: wide_drv_def)
qed

end
