(* ===== verification/Pin_Apart.thy ===== *)
theory Pin_Apart
  imports Pin_Drive
begin

text \<open>
  The registers of the settings of different pins: on every chip no two settings share a bit, so that setting one
  leaves what is read for all others.
\<close>

section \<open>Addresses of bits\<close>

text \<open>
  Registers have 16 bits of settings and are four bytes apart, so that bits have addresses of their own. Most
  fields of a bank follow each other; single bits may have eight to a register.
\<close>

definition octet :: "int \<Rightarrow> int" where
  "octet p = 16 * (p div 8) + p mod 8"

definition mirrored :: "int \<Rightarrow> int" where
  "mirrored p = 16 * (p div 8) + 2 * (7 - p mod 8)"

definition field_address :: "pin_regmap \<times> int \<times> int \<Rightarrow> pin_regmap \<times> int" where
  "field_address f = (case f of (rm, reg, bt) \<Rightarrow> (rm, 4 * reg + bt))"

lemma mirror_div: "(31 - p) div 8 = 3 - p div (8::int)" "(31 - p) div 4 = 7 - p div (4::int)"
  by presburger+

lemma joined_div:
  "16 * (p div 8) + p mod 8 * 2 = 2 * (p :: int)" "16 * (p div 4) + p mod 4 * 4 = 4 * (p :: int)"
  "16 * (p div 2) + p mod 2 * 8 = 8 * (p :: int)" "16 * (p div 16) + p mod 16 = (p :: int)"
  using mult_div_mod_eq [of 8 p] mult_div_mod_eq [of 4 p] mult_div_mod_eq [of 2 p] mult_div_mod_eq [of 16 p] by linarith+

lemma pin_addresses:
  "field_address (px30_calc_pull_reg_and_bit M b p) = (if bank_num b = 0 then (Regmap_pmu, 64 + 2 * p) else (Regmap_base, 320 + 64 * bank_num b + 2 * p))"
  "field_address (px30_calc_drv_reg_and_bit M b p) = (if bank_num b = 0 then (Regmap_pmu, 128 + 2 * p) else (Regmap_base, 896 + 64 * bank_num b + 2 * p))"
  "field_address (px30_calc_schmitt_reg_and_bit M b p) = (if bank_num b = 0 then (Regmap_pmu, 224 + p) else (Regmap_base, 704 + 64 * bank_num b + octet p))"
  "field_address (px30_calc_slew_rate_reg_and_bit M b p) = (if bank_num b = 0 then (Regmap_pmu, 192 + p) else (Regmap_base, 512 + 64 * bank_num b + octet p))"
  "field_address (rv1108_calc_pull_reg_and_bit M b p) = (if bank_num b = 0 then (Regmap_pmu, 64 + 2 * p) else (Regmap_base, 1024 + 64 * bank_num b + 2 * p))"
  "field_address (rv1108_calc_drv_reg_and_bit M b p) = (if bank_num b = 0 then (Regmap_pmu, 128 + 2 * p) else (Regmap_base, 2048 + 64 * bank_num b + 2 * p))"
  "field_address (rv1108_calc_schmitt_reg_and_bit M b p) = (if bank_num b = 0 then (Regmap_pmu, 192 + octet p) else (Regmap_base, 3584 + 32 * bank_num b + p))"
  "field_address (rv1126_calc_pull_reg_and_bit M b p) = (if bank_num b = 0 then if RV1126_GPIO_C4_D7 p then (Regmap_base, 263136 + 2 * p) else (Regmap_pmu, 256 + 2 * p)
        else (Regmap_base, 263136 + 64 * bank_num b + 2 * p))"
  "field_address (rv1126_calc_drv_reg_and_bit M b p) = (if bank_num b = 0 then if RV1126_GPIO_C4_D7 p then (Regmap_base, 262576 + 4 * p) else (Regmap_pmu, 128 + 4 * p)
        else (Regmap_base, 262592 + 128 * bank_num b + 4 * p))"
  "field_address (rv1126_calc_schmitt_reg_and_bit M b p) = (if bank_num b = 0 then if RV1126_GPIO_C4_D7 p then (Regmap_base, 263648 + octet p) else (Regmap_pmu, 384 + octet p)
        else (Regmap_base, 263648 + 64 * bank_num b + octet p))"
  "field_address (rk1808_calc_pull_reg_and_bit M b p) = (if bank_num b = 0 then (Regmap_pmu, 64 + 2 * p) else (Regmap_base, 448 + 64 * bank_num b + 2 * p))"
  "field_address (rk1808_calc_drv_reg_and_bit M b p) = (if bank_num b = 0 then (Regmap_pmu, 128 + 2 * p) else (Regmap_base, 1216 + 64 * bank_num b + 2 * p))"
  "field_address (rk1808_calc_schmitt_reg_and_bit M b p) = (if bank_num b = 0 then (Regmap_pmu, 256 + octet p) else (Regmap_base, 960 + 64 * bank_num b + octet p))"
  "field_address (rk1808_calc_slew_rate_reg_and_bit M b p) = (if bank_num b = 0 then (Regmap_pmu, 192 + octet p) else (Regmap_base, 704 + 64 * bank_num b + octet p))"
  "field_address (rk2928_calc_pull_reg_and_bit M b p) = (Regmap_base, 1120 + 32 * bank_num b + p)"
  "field_address (rk3128_calc_pull_reg_and_bit M b p) = (Regmap_base, 1120 + 32 * bank_num b + p)"
  "field_address (rk3188_calc_pull_reg_and_bit M b p) = (if bank_num b = 0 \<and> p < 12
        then (if has_pmu M then Regmap_pmu else Bank_pull, (if has_pmu M then 400 else 0) + 2 * p)
        else (if has_pull M then Regmap_pull else Regmap_base, (if has_pull M then 0 else 1424) - 16 + 64 * bank_num b + mirrored p))"
  "field_address (rk3288_calc_pull_reg_and_bit M b p) = (if bank_num b = 0 then (Regmap_pmu, 400 + 2 * p) else (Regmap_base, 1216 + 64 * bank_num b + 2 * p))"
  "field_address (rk3288_calc_drv_reg_and_bit M b p) = (if bank_num b = 0 then (Regmap_pmu, 448 + 2 * p) else (Regmap_base, 1728 + 64 * bank_num b + 2 * p))"
  "field_address (rk3228_calc_pull_reg_and_bit M b p) = (Regmap_base, 1024 + 64 * bank_num b + 2 * p)"
  "field_address (rk3228_calc_drv_reg_and_bit M b p) = (Regmap_base, 2048 + 64 * bank_num b + 2 * p)"
  "field_address (rk3308_calc_pull_reg_and_bit M b p) = (Regmap_base, 640 + 64 * bank_num b + 2 * p)"
  "field_address (rk3308_calc_drv_reg_and_bit M b p) = (Regmap_base, 1024 + 64 * bank_num b + 2 * p)"
  "field_address (rk3308_calc_schmitt_reg_and_bit M b p) = (Regmap_base, 1664 + 64 * bank_num b + octet p)"
  "field_address (rk3328_calc_schmitt_reg_and_bit M b p) = (Regmap_base, 3584 + 32 * bank_num b + p)"
  "field_address (rk3368_calc_pull_reg_and_bit M b p) = (if bank_num b = 0 then (Regmap_pmu, 64 + 2 * p) else (Regmap_base, 960 + 64 * bank_num b + 2 * p))"
  "field_address (rk3368_calc_drv_reg_and_bit M b p) = (if bank_num b = 0 then (Regmap_pmu, 128 + 2 * p) else (Regmap_base, 1984 + 64 * bank_num b + 2 * p))"
  "field_address (rk3399_calc_pull_reg_and_bit M b p) = (if bank_num b = 0 \<or> bank_num b = 1 then (Regmap_pmu, 256 + 64 * bank_num b + 2 * p) else (Regmap_base, 229504 + 64 * bank_num b + 2 * p))"
  "field_address (rk3568_calc_pull_reg_and_bit M b p) = (if bank_num b = 0 then (Regmap_pmu, 128 + 2 * p) else (Regmap_base, 448 + 64 * bank_num b + 2 * p))"
  "field_address (rk3568_calc_schmitt_reg_and_bit M b p) = (if bank_num b = 0 then (Regmap_pmu, 192 + 2 * p) else (Regmap_base, 704 + 64 * bank_num b + 2 * p))"
  "field_address (rk3568_calc_slew_rate_reg_and_bit M b p) = (if bank_num b = 0 then (Regmap_pmu, 384 + p) else (Regmap_base, 1472 + 64 * bank_num b + p))"
  "cpu_version M \<noteq> 0 \<Longrightarrow> field_address (rk3568_calc_drv_reg_and_bit M b p) = (if bank_num b = 0 then (Regmap_pmu, 448 + 8 * p) else (Regmap_base, 1792 + 256 * bank_num b + 8 * p))"
  by (auto simp: field_address_def pin_calcs pin_offsets octet_def mirrored_def mirror_div joined_div Let_def)

lemma octet_split:
  obtains d r :: int where "p = 8 * d + r" "0 \<le> r" "r < 8" "octet p = 16 * d + r" "mirrored p = 16 * d + 14 - 2 * r"
  using mult_div_mod_eq [of 8 p] pos_mod_sign [of 8 p] pos_mod_bound [of 8 p]
  by (intro that [of "p div 8" "p mod 8"]) (simp_all add: octet_def mirrored_def)

lemma octet_less: "p < p' \<Longrightarrow> octet p < octet p'"
proof -
  assume ne: "p < p'"
  obtain d r where s: "p = 8 * d + r" "0 \<le> r" "r < 8" "octet p = 16 * d + r" by (rule octet_split)
  obtain d' r' where s': "p' = 8 * d' + r'" "0 \<le> r'" "r' < 8" "octet p' = 16 * d' + r'" by (rule octet_split)
  show ?thesis using ne s s' by (cases d d' rule: linorder_cases; linarith)
qed

lemma mirrored_apart: "p \<noteq> p' \<Longrightarrow> mirrored p + 2 \<le> mirrored p' \<or> mirrored p' + 2 \<le> mirrored p"
proof -
  assume ne: "p \<noteq> p'"
  obtain d r where s: "p = 8 * d + r" "0 \<le> r" "r < 8" "mirrored p = 16 * d + 14 - 2 * r" by (rule octet_split)
  obtain d' r' where s': "p' = 8 * d' + r'" "0 \<le> r'" "r' < 8" "mirrored p' = 16 * d' + 14 - 2 * r'" by (rule octet_split)
  show ?thesis using ne s s' by (cases d d' rule: linorder_cases; linarith)
qed

lemma octet_bounds: "0 \<le> p \<Longrightarrow> p < 32 \<Longrightarrow> 0 \<le> octet p \<and> octet p < 56"
proof -
  assume a: "0 \<le> p" "p < 32"
  obtain d r where s: "p = 8 * d + r" "0 \<le> r" "r < 8" "octet p = 16 * d + r" by (rule octet_split)
  have "0 \<le> d" "d \<le> 3" using a s(1-3) by presburger+
  then show ?thesis using s by linarith
qed

lemma mirrored_bounds: "0 \<le> p \<Longrightarrow> p < 32 \<Longrightarrow> 0 \<le> mirrored p \<and> mirrored p \<le> 62 \<and> (12 \<le> p \<longrightarrow> 16 \<le> mirrored p)"
proof -
  assume a: "0 \<le> p" "p < 32"
  obtain d r where s: "p = 8 * d + r" "0 \<le> r" "r < 8" "mirrored p = 16 * d + 14 - 2 * r" by (rule octet_split)
  have "0 \<le> d" "d \<le> 3" using a s(1-3) by presburger+
  moreover have "12 \<le> p \<longrightarrow> 16 \<le> mirrored p" using s by presburger
  ultimately show ?thesis using s by linarith
qed

section \<open>Settings of different pins\<close>

definition address_apart :: "pin_regmap \<times> int \<Rightarrow> int \<Rightarrow> pin_regmap \<times> int \<Rightarrow> int \<Rightarrow> bool" where
  "address_apart a w a' w' \<longleftrightarrow> fst a \<noteq> fst a' \<or> snd a + w \<le> snd a' \<or> snd a' + w' \<le> snd a"

text \<open>The pins of the chips: how many banks, with how many pins.\<close>

definition bank_sizes :: "rockchip_pin_ctrl \<Rightarrow> (int \<times> int) list" where
  "bank_sizes C = map (\<lambda>b. (bank_num b, nr_pins b)) (pin_banks C)"

lemma soc_banks_sizes: "map (\<lambda>b. (bank_num b, nr_pins b)) (fst (soc_banks C bs n s)) = map (\<lambda>b. (bank_num b, nr_pins b)) bs"
proof (induction bs arbitrary: n s)
  case (Cons b bs)
  then show ?case by (simp add: Let_def case_prod_beta)
qed simp

lemma soc_data_sizes [simp]: "bank_sizes (rockchip_pinctrl_get_soc_data C) = bank_sizes C"
  using soc_banks_sizes by (simp add: bank_sizes_def rockchip_pinctrl_get_soc_data_def case_prod_beta)

definition pin_of :: "rockchip_pin_ctrl \<Rightarrow> rockchip_pin_bank \<Rightarrow> int \<Rightarrow> bool" where
  "pin_of C b p \<longleftrightarrow> (\<exists>m. (bank_num b, m) \<in> set (bank_sizes C) \<and> 0 \<le> p \<and> p < m)"

definition settings_apart :: "rockchip_pin_ctrl \<Rightarrow> bool" where
  "settings_apart C \<longleftrightarrow> (\<forall>M k k' b b' p p' calc calc'. pin_of C b p \<longrightarrow> pin_of C b' p' \<longrightarrow>
     setting_calc C k = Some calc \<longrightarrow> setting_calc C k' = Some calc' \<longrightarrow>
     (ctrl_type C = RK3568 \<longrightarrow> cpu_version M \<noteq> 0) \<longrightarrow> (ctrl_type C = RK3399 \<longrightarrow> k \<noteq> Drive_field \<and> k' \<noteq> Drive_field) \<longrightarrow>
     (k, bank_num b, p) \<noteq> (k', bank_num b', p') \<longrightarrow>
     address_apart (field_address (calc M b p)) (setting_width C k) (field_address (calc' M b' p')) (setting_width C k'))"

lemmas all_pin_banks = px30_pin_banks_def rv1108_pin_banks_def rv1126_pin_banks_def rk1808_pin_banks_def rk2928_pin_banks_def
  rk3036_pin_banks_def rk3066a_pin_banks_def rk3066b_pin_banks_def rk3128_pin_banks_def rk3188_pin_banks_def rk3228_pin_banks_def
  rk3288_pin_banks_def rk3308_pin_banks_def rk3328_pin_banks_def rk3368_pin_banks_def rk3399_pin_banks_def rk3568_pin_banks_def

lemmas setting_defs = setting_calc_def setting_width_def one_bit_pull_def address_apart_def

text \<open>The order of two pins, and of their addresses.\<close>

lemma pin_order:
  assumes "(n, p) \<noteq> (n' :: int, p' :: int)" "0 \<le> p" "p < 32" "0 \<le> p'" "p' < 32"
  obtains "n + 1 \<le> n'" "0 \<le> octet p" "octet p < 56" "0 \<le> octet p'" "octet p' < 56"
    | "n' + 1 \<le> n" "0 \<le> octet p" "octet p < 56" "0 \<le> octet p'" "octet p' < 56"
    | "n = n'" "p + 1 \<le> p'" "octet p + 1 \<le> octet p'" | "n = n'" "p' + 1 \<le> p" "octet p' + 1 \<le> octet p"
proof (cases n n' rule: linorder_cases)
  case equal
  then show thesis using that(3,4) octet_less [of p p'] octet_less [of p' p] assms(1) by (cases p p' rule: linorder_cases) auto
qed (use that(1,2) octet_bounds [of p] octet_bounds [of p'] assms(2-) in auto)

text \<open>What is to show for a chip with banks up to \<open>N\<close>: two pins for one setting, in any order, and two settings.\<close>

lemma settings_apartI:
  assumes pins: "\<And>b p. pin_of C b p \<Longrightarrow> 0 \<le> bank_num b \<and> bank_num b \<le> N \<and> 0 \<le> p \<and> p < 32"
    and same: "\<And>(M :: pinctrl_maps) k calc b b' p p'. setting_calc C k = Some calc \<Longrightarrow>
      (ctrl_type C = RK3568 \<longrightarrow> cpu_version M \<noteq> 0) \<Longrightarrow> (ctrl_type C = RK3399 \<longrightarrow> k \<noteq> Drive_field) \<Longrightarrow>
      pin_of C b p \<Longrightarrow> pin_of C b' p' \<Longrightarrow>
      0 \<le> bank_num b \<and> bank_num b \<le> N \<and> 0 \<le> p \<and> p < 32 \<Longrightarrow> 0 \<le> bank_num b' \<and> bank_num b' \<le> N \<and> 0 \<le> p' \<and> p' < 32 \<Longrightarrow>
      bank_num b + 1 \<le> bank_num b' \<and> 0 \<le> octet p \<and> octet p < 56 \<and> 0 \<le> octet p' \<and> octet p' < 56
        \<or> bank_num b' = bank_num b \<and> p + 1 \<le> p' \<and> octet p + 1 \<le> octet p' \<Longrightarrow>
      address_apart (field_address (calc M b p)) (setting_width C k) (field_address (calc M b' p')) (setting_width C k)"
    and other: "\<And>(M :: pinctrl_maps) k k' calc calc' b b' p p'. k \<noteq> k' \<Longrightarrow> setting_calc C k = Some calc \<Longrightarrow> setting_calc C k' = Some calc' \<Longrightarrow>
      (ctrl_type C = RK3568 \<longrightarrow> cpu_version M \<noteq> 0) \<Longrightarrow> (ctrl_type C = RK3399 \<longrightarrow> k \<noteq> Drive_field \<and> k' \<noteq> Drive_field) \<Longrightarrow>
      pin_of C b p \<Longrightarrow> pin_of C b' p' \<Longrightarrow>
      0 \<le> bank_num b \<and> bank_num b \<le> N \<and> 0 \<le> p \<and> p < 32 \<Longrightarrow> 0 \<le> bank_num b' \<and> bank_num b' \<le> N \<and> 0 \<le> p' \<and> p' < 32 \<Longrightarrow>
      0 \<le> octet p \<and> octet p < 56 \<and> 0 \<le> octet p' \<and> octet p' < 56 \<Longrightarrow>
      address_apart (field_address (calc M b p)) (setting_width C k) (field_address (calc' M b' p')) (setting_width C k')"
  shows "settings_apart C"
  unfolding settings_apart_def
proof (intro allI impI)
  fix M :: pinctrl_maps and k k' b b' p p' calc calc'
  assume a: "pin_of C b p" "pin_of C b' p'" "setting_calc C k = Some calc" "setting_calc C k' = Some calc'"
    "ctrl_type C = RK3568 \<longrightarrow> cpu_version M \<noteq> 0" "ctrl_type C = RK3399 \<longrightarrow> k \<noteq> Drive_field \<and> k' \<noteq> Drive_field"
    "(k, bank_num b, p) \<noteq> (k', bank_num b', p')"
  note bounds = pins [OF a(1)] pins [OF a(2)]
  show "address_apart (field_address (calc M b p)) (setting_width C k) (field_address (calc' M b' p')) (setting_width C k')"
  proof (cases "k = k'")
    case False
    then show ?thesis using other [OF False a(3,4,5,6,1,2) bounds] octet_bounds [of p] octet_bounds [of p'] bounds by auto
  next
    case True
    have r: "ctrl_type C = RK3399 \<longrightarrow> k \<noteq> Drive_field" using a(6) by blast
    have "(bank_num b, p) \<noteq> (bank_num b', p')" using True a(7) by blast
    moreover have "0 \<le> p" "p < 32" "0 \<le> p'" "p' < 32" using bounds by auto
    ultimately show ?thesis
      using same [OF a(3,5) r a(1,2) bounds] same [OF a(3,5) r a(2,1) bounds(2,1)] True a(3,4)
      by (elim pin_order) (auto simp: address_apart_def)
  qed
qed

lemma px30_pins: "pin_of (px30_pin_ctrl pno) b p \<Longrightarrow> 0 \<le> bank_num b \<and> bank_num b \<le> 3 \<and> 0 \<le> p \<and> p < 32"
  by (auto simp: pin_of_def bank_sizes_def px30_pin_ctrl_def px30_pin_banks_def bank_macros)

lemma rv1108_pins: "pin_of (rv1108_pin_ctrl pno) b p \<Longrightarrow> 0 \<le> bank_num b \<and> bank_num b \<le> 3 \<and> 0 \<le> p \<and> p < 32"
  by (auto simp: pin_of_def bank_sizes_def rv1108_pin_ctrl_def rv1108_pin_banks_def bank_macros)

lemma rk1808_pins: "pin_of (rk1808_pin_ctrl pno) b p \<Longrightarrow> 0 \<le> bank_num b \<and> bank_num b \<le> 4 \<and> 0 \<le> p \<and> p < 32"
  by (auto simp: pin_of_def bank_sizes_def rk1808_pin_ctrl_def rk1808_pin_banks_def bank_macros)

lemma rk2928_pins: "pin_of (rk2928_pin_ctrl pno) b p \<Longrightarrow> 0 \<le> bank_num b \<and> bank_num b \<le> 3 \<and> 0 \<le> p \<and> p < 32"
  by (auto simp: pin_of_def bank_sizes_def rk2928_pin_ctrl_def rk2928_pin_banks_def bank_macros)

lemma rk3036_pins: "pin_of (rk3036_pin_ctrl pno) b p \<Longrightarrow> 0 \<le> bank_num b \<and> bank_num b \<le> 2 \<and> 0 \<le> p \<and> p < 32"
  by (auto simp: pin_of_def bank_sizes_def rk3036_pin_ctrl_def rk3036_pin_banks_def bank_macros)

lemma rk3066a_pins: "pin_of (rk3066a_pin_ctrl pno) b p \<Longrightarrow> 0 \<le> bank_num b \<and> bank_num b \<le> 6 \<and> 0 \<le> p \<and> p < 32"
  by (auto simp: pin_of_def bank_sizes_def rk3066a_pin_ctrl_def rk3066a_pin_banks_def bank_macros)

lemma rk3066b_pins: "pin_of (rk3066b_pin_ctrl pno) b p \<Longrightarrow> 0 \<le> bank_num b \<and> bank_num b \<le> 3 \<and> 0 \<le> p \<and> p < 32"
  by (auto simp: pin_of_def bank_sizes_def rk3066b_pin_ctrl_def rk3066b_pin_banks_def bank_macros)

lemma rk3128_pins: "pin_of (rk3128_pin_ctrl pno) b p \<Longrightarrow> 0 \<le> bank_num b \<and> bank_num b \<le> 3 \<and> 0 \<le> p \<and> p < 32"
  by (auto simp: pin_of_def bank_sizes_def rk3128_pin_ctrl_def rk3128_pin_banks_def bank_macros)

lemma rk3228_pins: "pin_of (rk3228_pin_ctrl pno) b p \<Longrightarrow> 0 \<le> bank_num b \<and> bank_num b \<le> 3 \<and> 0 \<le> p \<and> p < 32"
  by (auto simp: pin_of_def bank_sizes_def rk3228_pin_ctrl_def rk3228_pin_banks_def bank_macros)

lemma rk3288_pins: "pin_of (rk3288_pin_ctrl pno) b p \<Longrightarrow> 0 \<le> bank_num b \<and> bank_num b \<le> 8 \<and> 0 \<le> p \<and> p < 32"
  by (auto simp: pin_of_def bank_sizes_def rk3288_pin_ctrl_def rk3288_pin_banks_def bank_macros)

lemma rk3188_pins: "pin_of (rk3188_pin_ctrl pno) b p \<Longrightarrow> 0 \<le> bank_num b \<and> bank_num b \<le> 3 \<and> 0 \<le> p \<and> p < 32"
  by (auto simp: pin_of_def bank_sizes_def rk3188_pin_ctrl_def rk3188_pin_banks_def bank_macros)

lemma rv1126_pins: "pin_of (rv1126_pin_ctrl pno) b p \<Longrightarrow> 0 \<le> bank_num b \<and> bank_num b \<le> 4 \<and> 0 \<le> p \<and> p < 32"
  by (auto simp: pin_of_def bank_sizes_def rv1126_pin_ctrl_def rv1126_pin_banks_def bank_macros)

lemma rk3308_pins: "pin_of (rk3308_pin_ctrl pno) b p \<Longrightarrow> 0 \<le> bank_num b \<and> bank_num b \<le> 4 \<and> 0 \<le> p \<and> p < 32"
  by (auto simp: pin_of_def bank_sizes_def rk3308_pin_ctrl_def rk3308_pin_banks_def bank_macros)

lemma rk3328_pins: "pin_of (rk3328_pin_ctrl pno) b p \<Longrightarrow> 0 \<le> bank_num b \<and> bank_num b \<le> 3 \<and> 0 \<le> p \<and> p < 32"
  by (auto simp: pin_of_def bank_sizes_def rk3328_pin_ctrl_def rk3328_pin_banks_def bank_macros)

lemma rk3368_pins: "pin_of (rk3368_pin_ctrl pno) b p \<Longrightarrow> 0 \<le> bank_num b \<and> bank_num b \<le> 3 \<and> 0 \<le> p \<and> p < 32"
  by (auto simp: pin_of_def bank_sizes_def rk3368_pin_ctrl_def rk3368_pin_banks_def bank_macros)

lemma rk3399_pins: "pin_of (rk3399_pin_ctrl pno) b p \<Longrightarrow> 0 \<le> bank_num b \<and> bank_num b \<le> 4 \<and> 0 \<le> p \<and> p < 32"
  by (auto simp: pin_of_def bank_sizes_def rk3399_pin_ctrl_def rk3399_pin_banks_def bank_macros)

lemma rk3568_pins: "pin_of (rk3568_pin_ctrl pno) b p \<Longrightarrow> 0 \<le> bank_num b \<and> bank_num b \<le> 4 \<and> 0 \<le> p \<and> p < 32"
  by (auto simp: pin_of_def bank_sizes_def rk3568_pin_ctrl_def rk3568_pin_banks_def bank_macros)

lemma rk3288_first: "pin_of (rk3288_pin_ctrl pno) b p \<Longrightarrow> bank_num b = 0 \<Longrightarrow> p < 24"
  by (auto simp: pin_of_def bank_sizes_def rk3288_pin_ctrl_def rk3288_pin_banks_def bank_macros)

lemma rv1126_last: "pin_of (rv1126_pin_ctrl pno) b p \<Longrightarrow> bank_num b \<le> 3 \<or> bank_num b = 4 \<and> p < 2"
  by (auto simp: pin_of_def bank_sizes_def rv1126_pin_ctrl_def rv1126_pin_banks_def bank_macros)

lemma px30_settings: "settings_apart (px30_pin_ctrl pno)"
  apply (rule settings_apartI [OF px30_pins], assumption)
  subgoal for M k calc b b' p p'
    by (cases k) (auto simp: setting_defs px30_pin_ctrl_def pin_addresses split: if_splits)
  subgoal for M k k' calc calc' b b' p p'
    by (cases k; cases k') (auto simp: setting_defs px30_pin_ctrl_def pin_addresses split: if_splits)
  done

lemma rv1108_settings: "settings_apart (rv1108_pin_ctrl pno)"
  apply (rule settings_apartI [OF rv1108_pins], assumption)
  subgoal for M k calc b b' p p'
    by (cases k) (auto simp: setting_defs rv1108_pin_ctrl_def pin_addresses split: if_splits)
  subgoal for M k k' calc calc' b b' p p'
    by (cases k; cases k') (auto simp: setting_defs rv1108_pin_ctrl_def pin_addresses split: if_splits)
  done

lemma rk1808_settings: "settings_apart (rk1808_pin_ctrl pno)"
  apply (rule settings_apartI [OF rk1808_pins], assumption)
  subgoal for M k calc b b' p p'
    by (cases k) (auto simp: setting_defs rk1808_pin_ctrl_def pin_addresses split: if_splits)
  subgoal for M k k' calc calc' b b' p p'
    by (cases k; cases k') (auto simp: setting_defs rk1808_pin_ctrl_def pin_addresses split: if_splits)
  done

lemma rk2928_settings: "settings_apart (rk2928_pin_ctrl pno)"
  apply (rule settings_apartI [OF rk2928_pins], assumption)
  subgoal for M k calc b b' p p'
    by (cases k) (auto simp: setting_defs rk2928_pin_ctrl_def pin_addresses split: if_splits)
  subgoal for M k k' calc calc' b b' p p'
    by (cases k; cases k') (auto simp: setting_defs rk2928_pin_ctrl_def pin_addresses split: if_splits)
  done

lemma rk3036_settings: "settings_apart (rk3036_pin_ctrl pno)"
  apply (rule settings_apartI [OF rk3036_pins], assumption)
  subgoal for M k calc b b' p p'
    by (cases k) (auto simp: setting_defs rk3036_pin_ctrl_def pin_addresses split: if_splits)
  subgoal for M k k' calc calc' b b' p p'
    by (cases k; cases k') (auto simp: setting_defs rk3036_pin_ctrl_def pin_addresses split: if_splits)
  done

lemma rk3066a_settings: "settings_apart (rk3066a_pin_ctrl pno)"
  apply (rule settings_apartI [OF rk3066a_pins], assumption)
  subgoal for M k calc b b' p p'
    by (cases k) (auto simp: setting_defs rk3066a_pin_ctrl_def pin_addresses split: if_splits)
  subgoal for M k k' calc calc' b b' p p'
    by (cases k; cases k') (auto simp: setting_defs rk3066a_pin_ctrl_def pin_addresses split: if_splits)
  done

lemma rk3066b_settings: "settings_apart (rk3066b_pin_ctrl pno)"
  apply (rule settings_apartI [OF rk3066b_pins], assumption)
  subgoal for M k calc b b' p p'
    by (cases k) (auto simp: setting_defs rk3066b_pin_ctrl_def pin_addresses split: if_splits)
  subgoal for M k k' calc calc' b b' p p'
    by (cases k; cases k') (auto simp: setting_defs rk3066b_pin_ctrl_def pin_addresses split: if_splits)
  done

lemma rk3128_settings: "settings_apart (rk3128_pin_ctrl pno)"
  apply (rule settings_apartI [OF rk3128_pins], assumption)
  subgoal for M k calc b b' p p'
    by (cases k) (auto simp: setting_defs rk3128_pin_ctrl_def pin_addresses split: if_splits)
  subgoal for M k k' calc calc' b b' p p'
    by (cases k; cases k') (auto simp: setting_defs rk3128_pin_ctrl_def pin_addresses split: if_splits)
  done

lemma rk3228_settings: "settings_apart (rk3228_pin_ctrl pno)"
  apply (rule settings_apartI [OF rk3228_pins], assumption)
  subgoal for M k calc b b' p p'
    by (cases k) (auto simp: setting_defs rk3228_pin_ctrl_def pin_addresses split: if_splits)
  subgoal for M k k' calc calc' b b' p p'
    by (cases k; cases k') (auto simp: setting_defs rk3228_pin_ctrl_def pin_addresses split: if_splits)
  done

lemma rk3288_settings: "settings_apart (rk3288_pin_ctrl pno)"
  apply (rule settings_apartI [OF rk3288_pins], assumption)
  subgoal for M k calc b b' p p'
    by (cases k) (auto simp: setting_defs rk3288_pin_ctrl_def pin_addresses split: if_splits)
  subgoal for M k k' calc calc' b b' p p'
    using rk3288_first [of pno b p] rk3288_first [of pno b' p']
    by (cases k; cases k') (auto simp: setting_defs rk3288_pin_ctrl_def pin_addresses split: if_splits)
  done

lemma rk3188_settings: "settings_apart (rk3188_pin_ctrl pno)"
  apply (rule settings_apartI [OF rk3188_pins], assumption)
  subgoal for M k calc b b' p p'
    using mirrored_bounds [of p] mirrored_bounds [of p'] mirrored_apart [of p p']
    by (cases k) (auto simp: setting_defs rk3188_pin_ctrl_def pin_addresses split: if_splits)
  subgoal for M k k' calc calc' b b' p p'
    using mirrored_bounds [of p] mirrored_bounds [of p'] mirrored_apart [of p p']
    by (cases k; cases k') (auto simp: setting_defs rk3188_pin_ctrl_def pin_addresses split: if_splits)
  done

lemma rv1126_settings: "settings_apart (rv1126_pin_ctrl pno)"
  apply (rule settings_apartI [OF rv1126_pins], assumption)
  subgoal for M k calc b b' p p'
    by (cases k) (auto simp: setting_defs rv1126_pin_ctrl_def pin_addresses split: if_splits)
  subgoal for M k k' calc calc' b b' p p'
    using rv1126_last [of pno b p] rv1126_last [of pno b' p']
    by (cases k; cases k') (auto simp: setting_defs rv1126_pin_ctrl_def pin_addresses RV1126_GPIO_C4_D7_def split: if_splits)
  done

lemma rk3308_settings: "settings_apart (rk3308_pin_ctrl pno)"
  apply (rule settings_apartI [OF rk3308_pins], assumption)
  subgoal for M k calc b b' p p'
    by (cases k) (auto simp: setting_defs rk3308_pin_ctrl_def pin_addresses split: if_splits)
  subgoal for M k k' calc calc' b b' p p'
    by (cases k; cases k') (auto simp: setting_defs rk3308_pin_ctrl_def pin_addresses split: if_splits)
  done

lemma rk3328_settings: "settings_apart (rk3328_pin_ctrl pno)"
  apply (rule settings_apartI [OF rk3328_pins], assumption)
  subgoal for M k calc b b' p p'
    by (cases k) (auto simp: setting_defs rk3328_pin_ctrl_def pin_addresses split: if_splits)
  subgoal for M k k' calc calc' b b' p p'
    by (cases k; cases k') (auto simp: setting_defs rk3328_pin_ctrl_def pin_addresses split: if_splits)
  done

lemma rk3368_settings: "settings_apart (rk3368_pin_ctrl pno)"
  apply (rule settings_apartI [OF rk3368_pins], assumption)
  subgoal for M k calc b b' p p'
    by (cases k) (auto simp: setting_defs rk3368_pin_ctrl_def pin_addresses split: if_splits)
  subgoal for M k k' calc calc' b b' p p'
    by (cases k; cases k') (auto simp: setting_defs rk3368_pin_ctrl_def pin_addresses split: if_splits)
  done

lemma rk3399_settings: "settings_apart (rk3399_pin_ctrl pno)"
  apply (rule settings_apartI [OF rk3399_pins], assumption)
  subgoal for M k calc b b' p p'
    by (cases k) (auto simp: setting_defs rk3399_pin_ctrl_def pin_addresses split: if_splits)
  subgoal for M k k' calc calc' b b' p p'
    by (cases k; cases k') (auto simp: setting_defs rk3399_pin_ctrl_def pin_addresses split: if_splits)
  done

lemma rk3568_settings: "settings_apart (rk3568_pin_ctrl pno)"
  apply (rule settings_apartI [OF rk3568_pins], assumption)
  subgoal for M k calc b b' p p'
    by (cases k) (auto simp: setting_defs rk3568_pin_ctrl_def pin_addresses split: if_splits)
  subgoal for M k k' calc calc' b b' p p'
    by (cases k; cases k') (auto simp: setting_defs rk3568_pin_ctrl_def pin_addresses split: if_splits)
  done

lemmas chip_settings = px30_settings rv1108_settings rv1126_settings rk1808_settings rk2928_settings rk3036_settings rk3066a_settings rk3066b_settings rk3128_settings rk3188_settings rk3228_settings rk3288_settings rk3308_settings rk3328_settings rk3368_settings rk3399_settings rk3568_settings

lemma pin_of_soc_data [simp]: "pin_of (rockchip_pinctrl_get_soc_data C) = pin_of C"
  by (simp add: fun_eq_iff pin_of_def)

lemma settings_apart_soc_data: "settings_apart (rockchip_pinctrl_get_soc_data C) = settings_apart C"
  by (simp add: settings_apart_def)

lemma settings_apart_chip: "chip C \<Longrightarrow> settings_apart C"
  by (auto simp: chip_def rockchip_pinctrl_dt_match_def settings_apart_soc_data intro: chip_settings)

lemma px30_pin_of: "pin_of px30 (PIN_BANK 1 32 ''gpio1'') 3" "pin_of px30 (PIN_BANK 1 32 ''gpio1'') 4"
  by (simp_all add: px30_def pin_of_def bank_sizes_def px30_pin_ctrl_def px30_pin_banks_def bank_macros)

end
