(* ===== verification/Pin_Keep.thy ===== *)
theory Pin_Keep
  imports Pin_Apart
begin

text \<open>
  Setting one thing of a pin leaves what is read of every other thing, and of every other pin.
\<close>

section \<open>Setting\<close>

definition setting_done ::
  "pinctrl_maps \<Rightarrow> rockchip_pin_ctrl \<Rightarrow> 'h pin_port \<Rightarrow> pin_setting \<Rightarrow> rockchip_pin_bank \<Rightarrow> int \<Rightarrow> 'h \<Rightarrow> 'h \<Rightarrow> bool" where
  "setting_done M C P k b p h h' \<longleftrightarrow> (case k of
       Pull_field \<Rightarrow> \<exists>pull. rockchip_set_pull M C P b p pull h = Some (h', Inr ())
     | Drive_field \<Rightarrow> \<exists>strength. rockchip_set_drive_perpin M C P b p strength h = Some (h', Inr ())
     | Schmitt_field \<Rightarrow> \<exists>enable. rockchip_set_schmitt M C P b p enable h = Some (h', Inr ())
     | Slew_field \<Rightarrow> \<exists>speed. rockchip_set_slew_rate M C P b p speed h = Some (h', Inr ()))"

lemma write_bit_field_set:
  assumes law: "pin_law P plain" and "\<not> plain rm reg" "k < 16"
    and w: "write_op M P rm reg (BIT (k + 16) OR (if on then BIT k else 0)) h = Some (h', Inr ())"
  shows "field_set P rm reg k 1 (if on then 1 else 0) h h'"
proof -
  let ?v = "BIT (k + 16) OR (if on then BIT k else 0) :: u32"
  have wr: "pin_write P rm reg ?v h = (h', None)"
    using w by (auto simp: write_op_Inr)
  obtain old where old: "pin_read P rm reg h = Inr old" "pin_read P rm reg h' = Inr (hiword old ?v)"
    using pin_law_write [OF law wr] by (simp add: assms(2)) blast
  have "bit (hiword old ?v) n \<longleftrightarrow> (if k \<le> n \<and> n < k + 1 then bit (if on then 1 else 0 :: u32) (n - k) else bit old n)" if "n < 16" for n
    using bit_hiword [OF that, of old ?v] that assms(3) by (auto simp: bit_simps bit_BIT)
  then show ?thesis
    using old pin_law_frame [OF law wr] unfolding field_set_def by blast
qed

lemma set_pull_field_set:
  assumes "pin_law P plain" "ctrl_type C \<noteq> RK3066B" "one_bit_pull C \<Longrightarrow> \<forall>rm reg. \<not> plain rm reg"
    "pull_calc_reg C = Some calc" "calc M b p = (rm, reg, bt)" "nat bt + nat (setting_width C Pull_field) \<le> 16"
    "rockchip_set_pull M C P b p pull h = Some (h', Inr ())"
  shows "\<exists>x. field_set P rm reg (nat bt) (nat (setting_width C Pull_field)) x h h'"
proof (cases "one_bit_pull C")
  case True
  then have "write_op M P rm reg (BIT (nat bt + 16) OR (if pull = PIN_CONFIG_BIAS_DISABLE then BIT (nat bt) else 0)) h = Some (h', Inr ())"
    using assms(2,4,5,7) by (simp add: rockchip_set_pull_def)
  from write_bit_field_set [OF assms(1) _ _ this] True assms(3,6) show ?thesis
    by (auto simp: setting_width_def)
next
  case False
  then obtain x where "write_field M P rm reg bt 2 x h = Some (h', Inr ())"
    using assms(2,4,5,7) by (auto simp: rockchip_set_pull_def RK3188_PULL_BITS_PER_PIN_def split: option.splits)
  from write_field_set [OF assms(1) _ this] False assms(6) show ?thesis
    by (auto simp: setting_width_def)
qed

lemma set_drive_field_set:
  assumes "pin_law P plain" "\<not> wide_drv (pin_drv_type b p)" "ctrl_type C = RK3568 \<longrightarrow> cpu_version M \<noteq> 0"
    "drv_calc_reg C = Some calc" "calc M b p = (rm, reg, bt)" "nat bt + nat (setting_width C Drive_field) \<le> 16"
    "rockchip_set_drive_perpin M C P b p strength h = Some (h', Inr ())"
  shows "\<exists>x. field_set P rm reg (nat bt) (nat (setting_width C Drive_field)) x h h'"
proof -
  obtain x where "write_field M P rm reg bt (nat (setting_width C Drive_field)) x h = Some (h', Inr ())"
    using assms(2-5,7)
    by (auto simp: rockchip_set_drive_perpin_def Let_def setting_width_def RV1126_DRV_BITS_PER_PIN_def RK3568_DRV_BITS_PER_PIN_def
        RK3288_DRV_BITS_PER_PIN_def then_op_Inr split: if_splits sum.splits)
  from write_field_set [OF assms(1,6) this] show ?thesis by blast
qed

lemma set_schmitt_field_set:
  assumes "pin_law P plain" "schmitt_calc_reg C = Some calc" "calc M b p = (rm, reg, bt)"
    "nat bt + nat (setting_width C Schmitt_field) \<le> 16" "rockchip_set_schmitt M C P b p enable h = Some (h', Inr ())"
  shows "\<exists>x. field_set P rm reg (nat bt) (nat (setting_width C Schmitt_field)) x h h'"
proof -
  obtain x where "write_field M P rm reg bt (nat (setting_width C Schmitt_field)) x h = Some (h', Inr ())"
    using assms(2-)
    by (auto simp: rockchip_set_schmitt_def setting_width_def RK3568_SCHMITT_BITS_PER_PIN_def bit_field split: if_splits)
  from write_field_set [OF assms(1,4) this] show ?thesis by blast
qed

lemma set_slew_field_set:
  assumes "pin_law P plain" "slew_rate_calc_reg C = Some calc" "calc M b p = (rm, reg, bt)"
    "nat bt + nat (setting_width C Slew_field) \<le> 16" "rockchip_set_slew_rate M C P b p speed h = Some (h', Inr ())"
  shows "\<exists>x. field_set P rm reg (nat bt) (nat (setting_width C Slew_field)) x h h'"
proof -
  have "write_field M P rm reg bt (nat (setting_width C Slew_field)) (word_of_int speed) h = Some (h', Inr ())"
    using assms(2-) by (simp add: rockchip_set_slew_rate_def setting_width_def bit_field)
  from write_field_set [OF assms(1,4) this] show ?thesis by blast
qed

section \<open>Reading\<close>

definition reads_same :: "'h \<Rightarrow> 'h \<Rightarrow> ('h, 'a) pin_op \<Rightarrow> bool" where
  "reads_same h h' f \<longleftrightarrow> (\<forall>r. f h = Some (h, r) \<longrightarrow> f h' = Some (h', r))"

lemma reads_same_ops [simp]: "reads_same h h' (ok_op x)" "reads_same h h' (err_op e)" "reads_same h h' fault_op" "reads_same h h' (listed_drv t d)"
  "reads_same h h' (\<lambda>a. Some (a, r))"
  by (simp_all add: reads_same_def listed_drv_def)

lemma reads_field:
  assumes same: "same_field P h h' rm reg b w" and F: "\<And>d. F d = K (drop_bit b d AND mask w)" and K: "\<And>x. reads_same h h' (K x)"
  shows "reads_same h h' (then_op (read_op M P rm reg) F)"
  unfolding reads_same_def
proof (intro allI impI)
  fix r assume run: "then_op (read_op M P rm reg) F h = Some (h, r)"
  then have there: "map_there M rm" by (auto simp: then_op_def read_op_def split: if_splits)
  show "then_op (read_op M P rm reg) F h' = Some (h', r)"
  proof (cases "pin_read P rm reg h")
    case (Inl e)
    then have "pin_read P rm reg h' = Inl e" using same by (auto simp: same_field_def)
    then show ?thesis using run Inl there by (simp add: then_op_def read_op_def)
  next
    case (Inr d)
    then obtain d' where d': "pin_read P rm reg h' = Inr d'" "\<forall>n. b \<le> n \<and> n < b + w \<longrightarrow> bit d' n = bit d n"
      using same by (auto simp: same_field_def)
    have "drop_bit b d' AND mask w = drop_bit b d AND mask w"
      using d'(2) by (intro bit_word_eqI) (auto simp: bit_simps)
    then have "F d' = F d" by (simp add: F)
    then show ?thesis
      using run there K [of "drop_bit b d AND mask w"] by (simp add: then_read [OF there Inr] then_read [OF there d'(1)] F reads_same_def)
  qed
qed

lemma same_field_less: "same_field P h h' rm reg b w \<Longrightarrow> w' \<le> w \<Longrightarrow> same_field P h h' rm reg b w'"
  unfolding same_field_def by (meson add_left_mono less_le_trans)

lemma bit_clear_masked: "k < 32 \<Longrightarrow> (d AND BIT k = 0) = (drop_bit k d AND mask 1 = (0 :: u32))"
proof -
  assume k: "k < 32"
  have "drop_bit k d AND mask 1 = (0 :: u32) \<longleftrightarrow> \<not> bit d k"
    by (simp add: bit_iff_odd_drop_bit even_iff_mod_2_eq_zero and_one_eq)
  then show ?thesis using k and_BIT_iff(2) [of k d] by simp
qed

definition setting_read_same ::
  "pinctrl_maps \<Rightarrow> rockchip_pin_ctrl \<Rightarrow> 'h pin_port \<Rightarrow> pin_setting \<Rightarrow> rockchip_pin_bank \<Rightarrow> int \<Rightarrow> 'h \<Rightarrow> 'h \<Rightarrow> bool" where
  "setting_read_same M C P k b p h h' \<longleftrightarrow> (case k of
       Pull_field \<Rightarrow> reads_same h h' (rockchip_get_pull M C P b p)
     | Drive_field \<Rightarrow> reads_same h h' (rockchip_get_drive_perpin M C P b p)
     | Schmitt_field \<Rightarrow> reads_same h h' (rockchip_get_schmitt M C P b p)
     | Slew_field \<Rightarrow> reads_same h h' (rockchip_get_slew_rate M C P b p))"

lemma read_setting_same:
  assumes "ctrl_type C \<noteq> RK3066B" "setting_calc C k = Some calc" "calc M b p = (rm, reg, bt)"
    "nat bt + nat (setting_width C k) \<le> 16" "k = Drive_field \<Longrightarrow> \<not> wide_drv (pin_drv_type b p)"
    "same_field P h h' rm reg (nat bt) (nat (setting_width C k))"
  shows "setting_read_same M C P k b p h h'"
proof (cases k)
  case Pull_field
  note pull = this
  show ?thesis
  proof (cases "one_bit_pull C")
    case True
    have "reads_same h h' (then_op (read_op M P rm reg)
        (\<lambda>d. ok_op (if d AND BIT (nat bt) = 0 then PIN_CONFIG_BIAS_PULL_PIN_DEFAULT else PIN_CONFIG_BIAS_DISABLE)))"
      using assms(4,6) pull True
      by (intro reads_field [where K = "\<lambda>x. ok_op (if x = 0 then PIN_CONFIG_BIAS_PULL_PIN_DEFAULT else PIN_CONFIG_BIAS_DISABLE)"])
        (auto simp: setting_width_def bit_clear_masked simp del: and_BIT_iff)
    then show ?thesis
      using pull True assms(1-3) by (simp add: setting_read_same_def rockchip_get_pull_def setting_calc_def reads_same_def del: and_BIT_iff)
  next
    case False
    have "reads_same h h' (then_op (read_op M P rm reg)
        (\<lambda>d. ok_op (rockchip_pull_list (pin_pull_type b p) ! unat (drop_bit (nat bt) d AND mask 2))))"
      using assms(6) pull False
      by (intro reads_field [where K = "\<lambda>x. ok_op (rockchip_pull_list (pin_pull_type b p) ! unat x)"]) (auto simp: setting_width_def)
    then show ?thesis
      using pull False assms(1-3)
      by (simp add: setting_read_same_def rockchip_get_pull_def setting_calc_def reads_same_def RK3188_PULL_BITS_PER_PIN_def)
  qed
next
  case Drive_field
  have "same_field P h h' rm reg (nat bt) 2"
    using assms(6) Drive_field by (rule_tac same_field_less) (auto simp: setting_width_def)
  then have "reads_same h h' (read_drv M P (pin_drv_type b p) rm reg bt 2)"
    unfolding read_drv_def by (rule reads_field) auto
  then show ?thesis
    using Drive_field assms(2,3,5) by (simp add: setting_read_same_def rockchip_get_drive_perpin_def setting_calc_def reads_same_def Let_def)
next
  case Schmitt_field
  have "reads_same h h' (then_op (read_op M P rm reg)
      (\<lambda>d. ok_op (uint (drop_bit (nat bt) d AND mask (nat (setting_width C k))))))"
    using assms(6) by (rule reads_field) auto
  then show ?thesis
    using Schmitt_field assms(2,3)
    by (simp add: setting_read_same_def rockchip_get_schmitt_def setting_calc_def reads_same_def setting_width_def RK3568_SCHMITT_BITS_PER_PIN_def
        split: if_splits)
next
  case Slew_field
  have "reads_same h h' (then_op (read_op M P rm reg) (\<lambda>d. ok_op (uint (drop_bit (nat bt) d AND mask (nat (setting_width C k))))))"
    using assms(6) by (rule reads_field) auto
  then show ?thesis
    using Slew_field assms(2,3)
    by (simp add: setting_read_same_def rockchip_get_slew_rate_def setting_calc_def reads_same_def setting_width_def)
qed

lemma field_set_of_done:
  assumes "pin_law P plain" "chip C" "ctrl_type C \<noteq> RK3066B" "one_bit_pull C \<Longrightarrow> \<forall>rm reg. \<not> plain rm reg"
    "ctrl_type C = RK3568 \<longrightarrow> cpu_version M \<noteq> 0" "k = Drive_field \<Longrightarrow> \<not> wide_drv (pin_drv_type b p)"
    "setting_calc C k = Some calc" "calc M b p = (rm, reg, bt)" "setting_done M C P k b p h h'"
  shows "\<exists>x. field_set P rm reg (nat bt) (nat (setting_width C k)) x h h'"
proof -
  have room: "nat bt + nat (setting_width C k) \<le> 16" using chip_room [OF assms(2,7) _ assms(8)] assms(5,6) by blast
  show ?thesis
  proof (cases k)
    case Pull_field
    then obtain pull where "rockchip_set_pull M C P b p pull h = Some (h', Inr ())" using assms(9) by (auto simp: setting_done_def)
    with set_pull_field_set [OF assms(1,3,4), of calc M b p rm reg bt pull h h'] Pull_field assms(7,8) room
    show ?thesis by (simp add: setting_calc_def)
  next
    case Drive_field
    then obtain strength where "rockchip_set_drive_perpin M C P b p strength h = Some (h', Inr ())" using assms(9) by (auto simp: setting_done_def)
    with set_drive_field_set [OF assms(1) assms(6) [OF Drive_field] assms(5), of calc rm reg bt strength h h'] Drive_field assms(7,8) room
    show ?thesis by (simp add: setting_calc_def)
  next
    case Schmitt_field
    then obtain enable where "rockchip_set_schmitt M C P b p enable h = Some (h', Inr ())" using assms(9) by (auto simp: setting_done_def)
    with set_schmitt_field_set [OF assms(1), of C calc M b p rm reg bt enable h h'] Schmitt_field assms(7,8) room
    show ?thesis by (simp add: setting_calc_def)
  next
    case Slew_field
    then obtain speed where "rockchip_set_slew_rate M C P b p speed h = Some (h', Inr ())" using assms(9) by (auto simp: setting_done_def)
    with set_slew_field_set [OF assms(1), of C calc M b p rm reg bt speed h h'] Slew_field assms(7,8) room
    show ?thesis by (simp add: setting_calc_def)
  qed
qed

text \<open>
  C21: setting the pull, the drive strength, the Schmitt trigger or the slew rate of a pin leaves what is read of
  every other of these settings, of the same pin and of every other pin of the chip. Left out are the RK3066B, which
  has no registers of the pulls, the first version of the RK3568, where some pins share their strength with a
  neighbour, the drive strengths of the RK3399, whose registers are in the data of the banks, and those of more than
  one register. The registers with a write mask in their upper half change just the bits selected there, and those
  of the pulls of one bit have such a mask.
\<close>

theorem pin_settings_independent:
  assumes "pin_law P plain" "chip C" "ctrl_type C \<noteq> RK3066B" "one_bit_pull C \<Longrightarrow> \<forall>rm reg. \<not> plain rm reg"
    "ctrl_type C = RK3568 \<longrightarrow> cpu_version M \<noteq> 0" "ctrl_type C = RK3399 \<longrightarrow> k \<noteq> Drive_field \<and> k' \<noteq> Drive_field"
    and pins: "pin_of C b p" "pin_of C b' p'" "(k, bank_num b, p) \<noteq> (k', bank_num b', p')" "setting_calc C k' \<noteq> None"
    and narrow: "k = Drive_field \<Longrightarrow> \<not> wide_drv (pin_drv_type b p)" "k' = Drive_field \<Longrightarrow> \<not> wide_drv (pin_drv_type b' p')"
    and set: "setting_done M C P k b p h h'"
  shows "setting_read_same M C P k' b' p' h h'"
proof -
  obtain calc' where c': "setting_calc C k' = Some calc'" using pins(4) by blast
  have "setting_calc C k \<noteq> None"
    using set assms(3)
    by (cases k) (auto simp: setting_done_def setting_calc_def rockchip_set_pull_def rockchip_set_drive_perpin_def
        rockchip_set_schmitt_def rockchip_set_slew_rate_def split: option.splits)
  then obtain calc where c: "setting_calc C k = Some calc" by blast
  obtain rm reg bt where f: "calc M b p = (rm, reg, bt)" by (rule prod_cases3)
  obtain rm' reg' bt' where f': "calc' M b' p' = (rm', reg', bt')" by (rule prod_cases3)
  obtain x where fs: "field_set P rm reg (nat bt) (nat (setting_width C k)) x h h'"
    using field_set_of_done [OF assms(1-5) narrow(1) c f set] by blast
  have fits: "field_fits (setting_width C k) (rm, reg, bt)" "field_fits (setting_width C k') (rm', reg', bt')"
    using chip_field [OF assms(2) c, of b p M] chip_field [OF assms(2) c', of b' p' M] f f' assms(5) narrow by auto
  have room: "nat bt' + nat (setting_width C k') \<le> 16" using chip_room [OF assms(2) c' _ f'] assms(5) narrow(2) by blast
  have "address_apart (field_address (rm, reg, bt)) (setting_width C k) (field_address (rm', reg', bt')) (setting_width C k')"
    using settings_apart_chip [OF assms(2)] pins c c' assms(5,6) f f' unfolding settings_apart_def by metis
  then have "(rm, reg) \<noteq> (rm', reg') \<or> nat bt + nat (setting_width C k) \<le> nat bt' \<or> nat bt' + nat (setting_width C k') \<le> nat bt"
    using fits setting_width_pos [of C k] setting_width_pos [of C k']
    by (auto simp: address_apart_def field_address_def field_fits_def nat_add_distrib [symmetric] nat_le_iff)
  from field_set_same [OF fs room this] show ?thesis
    by (rule read_setting_same [OF assms(3) c' f' room narrow(2), rotated -1])
qed

theorem pin_settings_independent_witness:
  "\<exists>h'. setting_done all_maps px30 hiword_port Pull_field (PIN_BANK 1 32 ''gpio1'') 3 (\<lambda>rm reg. 0) h'
     \<and> setting_read_same all_maps px30 hiword_port Pull_field (PIN_BANK 1 32 ''gpio1'') 4 (\<lambda>rm reg. 0) h'"
proof -
  let ?b = "PIN_BANK 1 32 ''gpio1''"
  obtain h' where set: "rockchip_set_pull all_maps px30 hiword_port ?b 3 PIN_CONFIG_BIAS_PULL_UP (\<lambda>rm reg. 0) = Some (h', Inr ())"
    using hiword_port_field by (simp add: rockchip_set_pull_def case_prod_beta) blast
  then have sd: "setting_done all_maps px30 hiword_port Pull_field ?b 3 (\<lambda>rm reg. 0) h'" by (auto simp: setting_done_def)
  have "setting_read_same all_maps px30 hiword_port Pull_field ?b 4 (\<lambda>rm reg. 0) h'"
    by (rule pin_settings_independent [OF hiword_port_law chip_px30 _ _ _ _ px30_pin_of _ _ _ _ sd]) (simp_all add: setting_calc_def)
  then show ?thesis using sd by blast
qed

end
