(* ===== verification/Pin_Group.thy ===== *)
theory Pin_Group
  imports Pin_Keep
begin

text \<open>
  Which bank a pin number belongs to, what becomes of the pins of a device tree, and selecting the function of
  a group.
\<close>

section \<open>Banks\<close>

lemma soc_banks_bases:
  assumes "soc_banks C bs n s = (bs', n')" "\<forall>b \<in> set bs. 0 < nr_pins b"
  shows "n \<le> n' \<and> (\<forall>b \<in> set bs'. n \<le> pin_base b \<and> pin_base b + nr_pins b \<le> n' \<and> 0 < nr_pins b)"
  using assms
proof (induction bs arbitrary: n s bs' n')
  case (Cons b bs)
  obtain ios ds s1 where i: "soc_iomuxes (nr_pins b) (iomux b) (drv b) s = (ios, ds, s1)" by (rule prod_cases3)
  obtain bs1 n1 where r: "soc_banks C bs (n + nr_pins b) s1 = (bs1, n1)" by (rule prod.exhaust)
  show ?case using Cons.IH [OF r] Cons.prems i r by fastforce
qed simp

lemma pin_to_bank_soc:
  assumes "soc_banks C bs n s = (bs', n')" "\<forall>b \<in> set bs. 0 < nr_pins b" "n \<le> k"
  shows "(pin_to_bank bs' k = Some b \<longleftrightarrow> b \<in> set bs' \<and> pin_base b \<le> k \<and> k < pin_base b + nr_pins b)
    \<and> (pin_to_bank bs' k = None \<longleftrightarrow> n' \<le> k)"
  using assms
proof (induction bs arbitrary: n s bs' n')
  case (Cons c bs)
  obtain ios ds s1 where i: "soc_iomuxes (nr_pins c) (iomux c) (drv c) s = (ios, ds, s1)" by (rule prod_cases3)
  obtain bs1 n1 where r: "soc_banks C bs (n + nr_pins c) s1 = (bs1, n1)" by (rule prod.exhaust)
  note below = soc_banks_bases [OF r]
  show ?case
  proof (cases "k < n + nr_pins c")
    case True
    then show ?thesis using Cons.prems i r below by fastforce
  next
    case False
    then show ?thesis using Cons.IH [OF r] Cons.prems i r by auto
  qed
qed simp

text \<open>
  C22: after \<open>rockchip_pinctrl_get_soc_data\<close>, a pin number from the count it started with (\<open>nr_pins_all C\<close>: 0 on the
  first probe, the number of pins of the chip on a second one, since the data is static) belongs to exactly one
  bank, and is found there; a number after the last one is in none, where the loop of \<open>pin_to_bank\<close> runs off the
  array. No bank is empty. The numbers below that count are the subject of the next lemma.
\<close>

theorem pin_to_bank_unique:
  assumes "\<forall>b \<in> set (pin_banks C). 0 < nr_pins b" "nr_pins_all C \<le> k"
  shows "(pin_to_bank (pin_banks (rockchip_pinctrl_get_soc_data C)) k = Some b \<longleftrightarrow>
      b \<in> set (pin_banks (rockchip_pinctrl_get_soc_data C)) \<and> pin_base b \<le> k \<and> k < pin_base b + nr_pins b)
    \<and> (pin_to_bank (pin_banks (rockchip_pinctrl_get_soc_data C)) k = None \<longleftrightarrow> nr_pins_all (rockchip_pinctrl_get_soc_data C) \<le> k)"
  using pin_to_bank_soc [OF surjective_pairing assms]
  by (simp add: rockchip_pinctrl_get_soc_data_def case_prod_beta)

theorem pin_to_bank_unique_witness:
  "pin_to_bank (pin_banks px30) 35 \<noteq> None \<and> pin_to_bank (pin_banks px30) 128 = None"
proof -
  have pos: "\<forall>b \<in> set (pin_banks (px30_pin_ctrl (\<lambda>port n. 0))). 0 < nr_pins b" and all: "nr_pins_all (px30_pin_ctrl (\<lambda>port n. 0)) = 0"
    by (simp_all add: px30_pin_ctrl_def px30_pin_banks_def bank_macros)
  have "nr_pins_all px30 = 128"
    by (simp add: px30_def rockchip_pinctrl_get_soc_data_def px30_pin_ctrl_def px30_pin_banks_def bank_macros case_prod_beta Let_def)
  then show ?thesis
    using pin_to_bank_unique [OF pos, of 35, THEN conjunct2] pin_to_bank_unique [OF pos, of 128, THEN conjunct2] all
    by (simp add: px30_def)
qed

text \<open>
  The data of the chip are static: a second probe begins where the first one ended, and the pins, which are
  counted from zero again, are before the first bank.
\<close>

lemma pin_to_bank_probed_twice:
  assumes "\<forall>b \<in> set (pin_banks C). 0 < nr_pins b" "pin_banks C \<noteq> []" "nr_pins_all C = 0"
    and "C1 = rockchip_pinctrl_get_soc_data C" "C2 = rockchip_pinctrl_get_soc_data C1" "k < nr_pins_all C1"
  shows "\<exists>b. pin_to_bank (pin_banks C2) k = Some b \<and> k - pin_base b < 0
    \<and> rockchip_set_mux M C2 P func_gpio b (k - pin_base b) mux = fault_op"
proof -
  have pos: "\<forall>b \<in> set (pin_banks C1). 0 < nr_pins b"
    using soc_banks_bases [OF surjective_pairing assms(1)] by (simp add: assms(4) rockchip_pinctrl_get_soc_data_def case_prod_beta)
  obtain c cs where c: "pin_banks C1 = c # cs"
    using assms(2) by (cases "pin_banks C") (auto simp: assms(4) rockchip_pinctrl_get_soc_data_def case_prod_beta Let_def)
  obtain b bs where b: "pin_banks C2 = b # bs" "pin_base b = nr_pins_all C1" "nr_pins b = nr_pins c"
    by (simp add: assms(5) rockchip_pinctrl_get_soc_data_def c case_prod_beta Let_def)
  have "pin_to_bank (pin_banks C2) k = Some b" "k - pin_base b < 0" using b assms(6) pos c by auto
  then show ?thesis by (auto simp: rockchip_set_mux_def)
qed

section \<open>Pins of the device tree\<close>

text \<open>What the cells of one pin are to give: the pin of the bank they name, with its function.\<close>

definition pin_meant :: "rockchip_pin_bank list \<Rightarrow> int \<times> int \<times> int \<times> int \<Rightarrow> rockchip_pin_config \<Rightarrow> bool" where
  "pin_meant bs q p = (case q of (num, pin, func, handle) \<Rightarrow>
     cfg_func p = func \<and> (\<exists>b \<in> set bs. bank_num b = num \<and> cfg_pin p = pin_base b + pin
       \<and> (0 \<le> pin \<and> pin < nr_pins b \<longrightarrow> pin_to_bank bs (cfg_pin p) = Some b)))"

lemma bank_num_to_bank_Inr: "bank_num_to_bank bs num = Inr b \<Longrightarrow> b \<in> set bs \<and> bank_num b = num"
  by (induction bs num rule: bank_num_to_bank.induct) (auto split: if_splits)

fun pin_cells :: "(int \<times> int \<times> int \<times> int) list \<Rightarrow> int list" where
  "pin_cells [] = []"
| "pin_cells ((num, pin, func, handle) # qs) = num # pin # func # handle # pin_cells qs"

lemma parse_pins_meant:
  assumes find: "\<And>b k. b \<in> set bs \<Longrightarrow> pin_base b \<le> k \<Longrightarrow> k < pin_base b + nr_pins b \<Longrightarrow> pin_to_bank bs k = Some b"
    and "parse_pins bs parse (pin_cells qs) = Inr ps"
  shows "list_all2 (pin_meant bs) qs ps"
  using assms(2)
proof (induction qs arbitrary: ps rule: pin_cells.induct)
  case (2 num pin func handle qs)
  obtain b cs ps' where b: "bank_num_to_bank bs num = Inr b"
    and ps: "parse_pins bs parse (pin_cells qs) = Inr ps'" "ps = \<lparr>cfg_pin = pin_base b + pin, cfg_func = func, cfg_configs = cs\<rparr> # ps'"
    using 2(2) by (cases "parse_pins bs parse (pin_cells qs)") (auto split: sum.splits)
  have "pin_meant bs (num, pin, func, handle) (hd ps)"
    using bank_num_to_bank_Inr [OF b] find [of b "pin_base b + pin"] ps(2) by (auto simp: pin_meant_def)
  then show ?case using 2(1) [OF ps(1)] ps(2) by simp
qed simp

text \<open>
  C23: from the device tree to the register: a group that is parsed has a pin for every four cells, with their
  function, and the bank and the pin in it that selecting the function finds again are those of the cells.
\<close>

theorem rockchip_pinctrl_parse_groups_meant:
  assumes "\<forall>b \<in> set (pin_banks C0). 0 < nr_pins b" "C = rockchip_pinctrl_get_soc_data C0"
    and parsed: "rockchip_pinctrl_parse_groups C parse g = Inr grp" "dg_cells g = pin_cells qs"
  shows "qs \<noteq> [] \<and> list_all2 (pin_meant (pin_banks C)) qs (grp_pins grp)"
proof -
  have bases: "nr_pins_all C0 \<le> pin_base b" if "b \<in> set (pin_banks C)" for b
    using soc_banks_bases [OF surjective_pairing assms(1)] that
    by (fastforce simp: assms(2) rockchip_pinctrl_get_soc_data_def case_prod_beta)
  have find: "pin_to_bank (pin_banks C) k = Some b" if "b \<in> set (pin_banks C)" "pin_base b \<le> k" "k < pin_base b + nr_pins b" for b k
    using pin_to_bank_soc [of C0 _ "nr_pins_all C0" _ _ _ k b, OF surjective_pairing assms(1)] bases [OF that(1)] that
    by (simp add: assms(2) rockchip_pinctrl_get_soc_data_def case_prod_beta)
  obtain ps where "parse_pins (pin_banks C) parse (pin_cells qs) = Inr ps" "grp_pins grp = ps"
    using parsed by (cases "parse_pins (pin_banks C) parse (pin_cells qs)")
      (auto simp: rockchip_pinctrl_parse_groups_def split: if_splits)
  then show ?thesis
    using parse_pins_meant [OF find] parsed by (auto simp: rockchip_pinctrl_parse_groups_def)
qed

theorem rockchip_pinctrl_parse_groups_meant_witness:
  "\<exists>grp. rockchip_pinctrl_parse_groups px30 (\<lambda>handle. Inr []) \<lparr>dg_name = ''uart'', dg_cells = [1, 3, 2, 7], dg_alloc = True\<rparr> = Inr grp
     \<and> list_all2 (pin_meant (pin_banks px30)) [(1, 3, 2, 7)] (grp_pins grp)"
proof -
  have pos: "\<forall>b \<in> set (pin_banks (px30_pin_ctrl (\<lambda>port n. 0))). 0 < nr_pins b"
    by (simp add: px30_pin_ctrl_def px30_pin_banks_def bank_macros)
  let ?g = "\<lparr>dg_name = ''uart'', dg_cells = [1, 3, 2, 7], dg_alloc = True\<rparr>"
  obtain grp where grp: "rockchip_pinctrl_parse_groups px30 (\<lambda>handle. Inr []) ?g = Inr grp"
    by (simp add: rockchip_pinctrl_parse_groups_def px30_def rockchip_pinctrl_get_soc_data_def px30_pin_ctrl_def px30_pin_banks_def
        bank_macros case_prod_beta Let_def)
  with rockchip_pinctrl_parse_groups_meant [OF pos px30_def grp, of "[(1, 3, 2, 7)]"] show ?thesis by auto
qed

section \<open>Selecting a function\<close>

text \<open>All pins get their function, one after the other.\<close>

inductive pins_set ::
  "pinctrl_maps \<Rightarrow> rockchip_pin_ctrl \<Rightarrow> 'h pin_port \<Rightarrow> int \<Rightarrow> rockchip_pin_config list \<Rightarrow> 'h \<Rightarrow> 'h \<Rightarrow> bool"
  for M C P fg where
  all_set: "pins_set M C P fg [] h h"
| one_set: "pin_to_bank (pin_banks C) (cfg_pin p) = Some b \<Longrightarrow>
    rockchip_set_mux M C P fg b (cfg_pin p - pin_base b) (s32 (cfg_func p)) h = Some (h1, Inr ()) \<Longrightarrow>
    pins_set M C P fg ps h1 h' \<Longrightarrow> pins_set M C P fg (p # ps) h h'"

text \<open>The pins up to one that is refused.\<close>

definition pin_refused ::
  "pinctrl_maps \<Rightarrow> rockchip_pin_ctrl \<Rightarrow> 'h pin_port \<Rightarrow> int \<Rightarrow> rockchip_pin_config list \<Rightarrow> nat \<Rightarrow> 'h \<Rightarrow> rockchip_pin_bank \<Rightarrow> errno \<Rightarrow> 'h \<Rightarrow> bool" where
  "pin_refused M C P fg ps k h b e h' \<longleftrightarrow> k < length ps \<and> pin_to_bank (pin_banks C) (cfg_pin (ps ! k)) = Some b \<and>
     (\<exists>h1. pins_set M C P fg (take k ps) h h1
        \<and> rockchip_set_mux M C P fg b (cfg_pin (ps ! k) - pin_base b) (s32 (cfg_func (ps ! k))) h1 = Some (h', Inl e))"

lemma pmx_pins_set:
  "pmx_pins M C P fg ps cnt h = Some (h', None) \<longleftrightarrow> pins_set M C P fg ps h h'"
proof
  show "pmx_pins M C P fg ps cnt h = Some (h', None) \<Longrightarrow> pins_set M C P fg ps h h'"
    by (induction ps arbitrary: cnt h) (auto intro: pins_set.intros split: option.splits sum.splits)
  show "pins_set M C P fg ps h h' \<Longrightarrow> pmx_pins M C P fg ps cnt h = Some (h', None)"
    by (induction arbitrary: cnt rule: pins_set.induct) simp_all
qed

lemma pmx_pins_refused:
  "pmx_pins M C P fg ps cnt h = Some (h', Some (k, b, e)) \<Longrightarrow> cnt \<le> k \<and> pin_refused M C P fg ps (k - cnt) h b e h'"
proof (induction ps arbitrary: cnt h)
  case (Cons p ps)
  from Cons.prems obtain b1 where b1: "pin_to_bank (pin_banks C) (cfg_pin p) = Some b1" by (auto split: option.splits)
  show ?case
  proof (cases "rockchip_set_mux M C P fg b1 (cfg_pin p - pin_base b1) (s32 (cfg_func p)) h")
    case None
    then show ?thesis using Cons.prems b1 by simp
  next
    case (Some r)
    obtain h1 x where r: "r = (h1, x)" by (rule prod.exhaust)
    show ?thesis
    proof (cases x)
      case (Inl e1)
      then show ?thesis using Cons.prems b1 Some r by (auto simp: pin_refused_def intro: pins_set.intros)
    next
      case (Inr u)
      then have "pmx_pins M C P fg ps (cnt + 1) h1 = Some (h', Some (k, b, e))" using Cons.prems b1 Some r by simp
      from Cons.IH [OF this] have ih: "cnt + 1 \<le> k" "pin_refused M C P fg ps (k - (cnt + 1)) h1 b e h'" by auto
      have k: "k - cnt = Suc (k - (cnt + 1))" using ih(1) by simp
      show ?thesis
        using ih b1 Some r Inr unfolding k pin_refused_def by (auto intro: one_set)
    qed
  qed
qed simp

lemma set_mux_too_large:
  assumes "chip C" "0 \<le> pin" "mask 16 < mux" "mux \<noteq> func_gpio"
  shows "\<exists>e. rockchip_set_mux M C P func_gpio b pin mux h = Some (h, Inl e)"
proof -
  obtain reg bt msk where f: "mux_field C b pin = (reg, bt, msk)" by (rule prod_cases3)
  obtain w where w: "msk = mask w" "w \<le> 16" using mux_field_fits [OF assms(1) f] by (metis add_leD2)
  have "(2 :: int) ^ w \<le> 2 ^ 16" using w(2) by (rule power_increasing) simp
  then have "msk < mux" using assms(3) w(1) by (simp add: mask_eq_exp_minus_1)
  then show ?thesis using assms(2,4) f by (simp add: rockchip_set_mux_def rockchip_verify_mux_def)
qed

lemma pmx_pins_first:
  "pin_refused M C P fg ps 0 h b e h' \<Longrightarrow> pmx_pins M C P fg ps cnt h = Some (h', Some (cnt, b, e))"
  by (cases ps) (auto simp: pin_refused_def elim: pins_set.cases)

text \<open>
  C24: selecting the function of a group succeeds when all its pins got their functions, and also when the first
  one was refused; it gives the error of a later pin that was refused.
\<close>

theorem rockchip_pmx_set_result:
  assumes "rockchip_pmx_set M C P fg g h = Some (h', r)"
  shows "(r = Inr () \<longleftrightarrow> pins_set M C P fg (grp_pins g) h h' \<or> (\<exists>b e. pin_refused M C P fg (grp_pins g) 0 h b e h'))
    \<and> (\<forall>e. r = Inl e \<longrightarrow> (\<exists>k b h1. 0 < k \<and> pin_refused M C P fg (grp_pins g) k h b e h1))"
proof (cases "pmx_pins M C P fg (grp_pins g) 0 h")
  case None
  then show ?thesis using assms by (simp add: rockchip_pmx_set_def)
next
  case (Some s)
  obtain h1 x where s: "s = (h1, x)" by (rule prod.exhaust)
  show ?thesis
  proof (cases x)
    case None
    then have "pins_set M C P fg (grp_pins g) h h1" "r = Inr ()" "h' = h1"
      using assms Some s pmx_pins_set [of M C P fg "grp_pins g" 0 h h1] by (auto simp: rockchip_pmx_set_def)
    then show ?thesis by simp
  next
    case refused: (Some y)
    obtain k b e where y: "y = (k, b, e)" by (rule prod_cases3)
    have not_set: "\<not> pins_set M C P fg (grp_pins g) h h2" for h2
      using Some s refused by (simp flip: pmx_pins_set [where cnt = 0])
    have ref: "pin_refused M C P fg (grp_pins g) k h b e h1"
      using pmx_pins_refused [of M C P fg "grp_pins g" 0 h h1 k b e] Some s refused y by simp
    show ?thesis
    proof (cases "k = 0")
      case True
      then have "r = Inr ()" "h' = h1" using assms Some s refused y by (auto simp: rockchip_pmx_set_def)
      then show ?thesis using ref True by blast
    next
      case False
      then have "r = Inl e" using assms Some s refused y by (auto simp: rockchip_pmx_set_def)
      moreover have "\<not> pin_refused M C P fg (grp_pins g) 0 h b' e' h'" for b' e'
        using pmx_pins_first [of M C P fg "grp_pins g" h b' e' h' 0] Some s refused y False by auto
      ultimately show ?thesis using not_set ref False by auto
    qed
  qed
qed

theorem rockchip_pmx_set_result_witness:
  "\<exists>h' b e. rockchip_pmx_set all_maps px30 hiword_port 0 \<lparr>grp_name = ''uart'', grp_pins = [\<lparr>cfg_pin = 35, cfg_func = 70000, cfg_configs = []\<rparr>]\<rparr>
       (\<lambda>rm reg. 0) = Some (h', Inr ())
     \<and> pin_refused all_maps px30 hiword_port 0 [\<lparr>cfg_pin = 35, cfg_func = 70000, cfg_configs = []\<rparr>] 0 (\<lambda>rm reg. 0) b e h'"
proof -
  let ?p = "\<lparr>cfg_pin = 35, cfg_func = 70000, cfg_configs = []\<rparr>" and ?h = "\<lambda>rm reg. 0 :: u32"
  obtain b where b: "pin_to_bank (pin_banks px30) 35 = Some b" "pin_base b \<le> 35"
    by (simp add: px30_def rockchip_pinctrl_get_soc_data_def px30_pin_ctrl_def px30_pin_banks_def bank_macros case_prod_beta Let_def)
  obtain e where e: "rockchip_set_mux all_maps px30 hiword_port 0 b (35 - pin_base b) 70000 ?h = Some (?h, Inl e)"
    using set_mux_too_large [OF chip_px30, of "35 - pin_base b" 70000 0 all_maps hiword_port b ?h] b(2)
    by (auto simp: mask_eq_exp_minus_1)
  have run: "rockchip_pmx_set all_maps px30 hiword_port 0 \<lparr>grp_name = ''uart'', grp_pins = [?p]\<rparr> ?h = Some (?h, Inr ())"
    using b(1) e by (simp add: rockchip_pmx_set_def s32_id)
  have none: "\<not> pins_set all_maps px30 hiword_port 0 [?p] ?h ?h"
    using b(1) e by (simp add: s32_id flip: pmx_pins_set [where cnt = 0])
  from rockchip_pmx_set_result [OF run] none run show ?thesis by auto
qed

end
