(* ===== verification/Gpio_Pins.thy ===== *)
theory Gpio_Pins
  imports Gpio_Probe Pin_Group
begin

text \<open>
  The pin controller and the GPIO driver together: configuring a pin as an output calls the chip that the GPIO
  driver has registered for its bank, on the same registers.
\<close>

section \<open>The calls\<close>

text \<open>
  \<open>&bank->gpio_chip\<close> of the pin controller is that of the bank with the same number. A bank that is not there has no
  chip to call; nothing is said of it.
\<close>

definition with_gpio :: "'h pin_port \<Rightarrow> 'h gpio_port \<Rightarrow> gpio_bank list \<Rightarrow> 'h pin_port" where
  "with_gpio P G gs = P\<lparr>gpio_direction_output := \<lambda>num pin v h.
     (case rockchip_gpio_find_bank gs num of None \<Rightarrow> (h, Some ENODEV)
      | Some i \<Rightarrow> rockchip_gpio_direction_output G (gs ! i) (nat pin) v h)\<rparr>"

lemma read_op_with_gpio [simp]: "read_op M (with_gpio P G gs) rm reg = read_op M P rm reg"
  by (simp add: read_op_def with_gpio_def fun_eq_iff)

lemma rockchip_get_mux_with_gpio [simp]: "rockchip_get_mux M C (with_gpio P G gs) fg b pin = rockchip_get_mux M C P fg b pin"
  by (simp add: rockchip_get_mux_def)

lemma rockchip_get_mux_same: "rockchip_get_mux M C P fg b pin h = Some (h1, x) \<Longrightarrow> h1 = h"
  by (auto simp: rockchip_get_mux_def then_op_def read_op_def Let_def ok_op_def err_op_def fault_op_def
      split: if_splits option.splits sum.splits prod.splits)

text \<open>
  C31: configuring a pin as an output through the pin controller makes exactly this pin of the GPIO bank an output of
  the value, if its function is GPIO; otherwise the result is \<open>-EINVAL\<close> and nothing has changed.
\<close>

theorem pinconf_output_drives_pin:
  assumes law: "gpio_law G peek (gs ! i)" "bank_wf (gs ! i)"
    and b: "pin_to_bank (pin_banks C) pin = Some b" and i: "rockchip_gpio_find_bank gs (bank_num b) = Some i"
    and pin: "pin_base b \<le> pin" "pin < pin_base b + 32"
    and run: "rockchip_pinconf_set M C (with_gpio P G gs) fg pin [(PIN_CONFIG_OUTPUT, v)] h = Some (h', r)"
  shows "if rockchip_get_mux M C P fg b (pin - pin_base b) h = Some (h, Inr 0)
    then r = Inr () \<and> (\<forall>k. gpio_pin_state peek (gs ! i) k h'
      = (if int k = pin - pin_base b then (True, v \<noteq> 0) else gpio_pin_state peek (gs ! i) k h))
    else r = Inl EINVAL \<and> h' = h"
proof -
  let ?n = "pin - pin_base b" and ?g = "gs ! i"
  have n: "nat ?n < 32" "int (nat ?n) = ?n" using pin by auto
  have go: "then_op (need_gpio (rockchip_get_mux M C P fg b ?n)) (\<lambda>_. output_op (with_gpio P G gs) b ?n v) h = Some (h', r)"
    using run by (auto simp: rockchip_pinconf_set_def b then_op_def ok_op_def split: option.splits sum.splits prod.splits)
  obtain h1 x where mux: "rockchip_get_mux M C P fg b ?n h = Some (h1, x)"
    using go by (auto simp: then_op_def need_gpio_def split: option.splits)
  have h1: "h1 = h" by (rule rockchip_get_mux_same [OF mux])
  define h2 where "h2 = rockchip_gpio_writel_bit G ?g (nat ?n) 1 (port_ddr (gpio_regs ?g))
      (rockchip_gpio_writel_bit G ?g (nat ?n) v (port_dr (gpio_regs ?g)) h)"
  have out: "output_op (with_gpio P G gs) b ?n v h = Some (h2, Inr ())"
    by (simp add: output_op_def with_gpio_def i rockchip_gpio_direction_output_def rockchip_gpio_set_direction_def rockchip_gpio_set_def h2_def)
  have st: "gpio_pin_state peek ?g k h2 = (if int k = ?n then (True, v \<noteq> 0) else gpio_pin_state peek ?g k h)" for k
    using n by (auto simp: h2_def gpio_pin_state_writel_bit [OF law n(1)])
  show ?thesis
  proof (cases "x = Inr 0")
    case True
    then show ?thesis using go mux h1 out st by (auto simp: then_op_def need_gpio_def)
  next
    case False
    then show ?thesis using go mux h1 by (auto simp: then_op_def need_gpio_def split: sum.splits if_splits)
  qed
qed

text \<open>A pin controller whose registers are all zero, so all pins are of the GPIO.\<close>

definition zero_port :: "'h pin_port" where
  "zero_port = \<lparr>pin_read = \<lambda>rm reg h. Inr 0, pin_write = \<lambda>rm reg v h. (h, None), config_value = \<lambda>p. 0,
     gpio_direction_output = \<lambda>num pin v h. (h, None), gpio_get = \<lambda>num pin h. Inr 0\<rparr>"

theorem pinconf_output_drives_pin_witness:
  "\<exists>h'. rockchip_pinconf_set all_maps (px30\<lparr>pin_banks := [PIN_BANK 0 32 ''gpio0'']\<rparr>)
       (with_gpio zero_port (gsim_port GPIO_TYPE_V2) [gsim_bank GPIO_TYPE_V2]) 0 5 [(PIN_CONFIG_OUTPUT, 1)] gsim_off = Some (h', Inr ())
     \<and> gpio_pin_state (gsim_peek GPIO_TYPE_V2) (gsim_bank GPIO_TYPE_V2) 5 h' = (True, True)"
proof -
  let ?C = "px30\<lparr>pin_banks := [PIN_BANK 0 32 ''gpio0'']\<rparr>" and ?b = "PIN_BANK 0 32 ''gpio0''" and ?gs = "[gsim_bank GPIO_TYPE_V2]"
  let ?W = "with_gpio zero_port (gsim_port GPIO_TYPE_V2) ?gs"
  have [simp]: "iom_has ?b 5 f = False" for f by (simp add: iom_has_def pin_iomux_def bank_macros)
  have b: "pin_to_bank (pin_banks ?C) 5 = Some ?b" "pin_base ?b = 0" "recalced_mask ?b = 0" by (simp_all add: bank_macros)
  have i: "rockchip_gpio_find_bank ?gs (bank_num ?b) = Some 0"
    by (simp add: rockchip_gpio_find_bank_def gsim_bank_def bank_macros)
  have mux: "rockchip_get_mux all_maps ?C zero_port 0 ?b 5 gsim_off = Some (gsim_off, Inr 0)"
    by (simp add: rockchip_get_mux_def mux_field_def Let_def b then_op_def read_op_def zero_port_def)
  have law: "gpio_law (gsim_port GPIO_TYPE_V2) (gsim_peek GPIO_TYPE_V2) (?gs ! 0)" "bank_wf (?gs ! 0)" by simp_all
  obtain h2 where d: "gpio_direction_output ?W (bank_num ?b) 5 1 gsim_off = (h2, None)"
    using i by (simp add: with_gpio_def rockchip_gpio_direction_output_def rockchip_gpio_set_direction_def)
  have run: "rockchip_pinconf_set all_maps ?C ?W 0 5 [(PIN_CONFIG_OUTPUT, 1)] gsim_off = Some (h2, Inr ())"
    unfolding rockchip_pinconf_set_def b(1) by (simp add: b(2) mux d then_op_def need_gpio_def output_op_def ok_op_def)
  show ?thesis
    using pinconf_output_drives_pin [OF law b(1) i _ _ run] mux run b by simp
qed

end
