(* ===== verification/Spec2Isabelle.thy ===== *)
theory Spec2Isabelle
  imports Rk_Iommu Thermal Clk_Chips Omx_Lifecycle Vendor_Faults Power_Registry Gpio_Pins
begin

text \<open>
  A verification development for the Rockchip board support package of OpenHarmony
  (\<open>device_soc_rockchip\<close>): the drivers and libraries of the vendor that carry their own logic, each
  translated from its C source and proved correct as far as it is.

  \<^bold>\<open>The program.\<close> The package holds a kernel with vendor drivers (\<open>src/common/sdk_linux\<close>,
  \<open>src/common/vendor\<close>, and copies of both for single chips), user-space libraries of the RK3568
  (\<open>src/rk3568/hardware\<close>) and a port to a microcontroller (\<open>src/rk2206\<close>). The parts modelled here do not
  call each other directly; they meet at the interfaces of the kernel. Media buffers of the OMX components
  are mapped by the IOMMU; the clocks of both come from the PLLs; the thermal driver resets the chip when
  it overheats; the power domains switch what the others drive; the pin
  controller connects them to the pins, which the GPIO driver sets and reads; the vendor storage keeps the addresses and keys the other drivers
  read at the start.

  \<^bold>\<open>Prelude\<close> has the C integer types, the error numbers, masks and page arithmetic, and the collections of
  facts \<open>masks\<close>, \<open>frame\<close> and \<open>wf_intros\<close>.

  \<^bold>\<open>The IOMMU\<close> (\<open>common/sdk_linux/drivers/iommu/rockchip-iommu.c\<close>).
  \<^item> \<open>Rk_Iommu_Format\<close>: the directory and page entries of both versions (\<open>rk_mk_dte\<close>, \<open>rk_mk_pte_v2\<close> and
    their inverses), with the round trips and the locale \<open>pt_format\<close> of an entry format, which both
    versions interpret.
  \<^item> \<open>Rk_Iommu_Hw\<close>: the registers of the MMUs (\<open>rk_iommu_command\<close>, stall, paging, reset, \<open>rk_iommu_enable\<close>,
    \<open>rk_iommu_irq\<close>); what enabling leaves in the registers, that it succeeds on a device that responds,
    and that the handler acknowledges what it saw.
  \<^item> \<open>Rk_Iommu_Table\<close>: a domain and its two-level table in a memory of words; mapping, unmapping, the
    translation and the shootdown. The abstract view of a domain is the translation \<open>trans\<close>, a partial
    function from addresses; \<open>map_pages\<close> and \<open>unmap_pages\<close> are what mapping and unmapping mean for it.
  \<^item> \<open>Rk_Iommu\<close>: allocation of domains, attachment, power management; the refinements on both formats and
    the invariant of attachment over all sequences of these operations (\<open>sys_step\<close>).

  \<^bold>\<open>The thermal sensor\<close> (\<open>common/sdk_linux/drivers/thermal/rockchip_thermal.c\<close>).
  \<^item> \<open>Thermal_Conv\<close>: the tables of the chips and the conversion both ways. The binary searches equal a
    linear scan (\<open>scan_temp\<close>); the locales \<open>rising_table\<close> and \<open>falling_table\<close> have the lemmas every table
    of a kind shares, and each chip interprets one.
  \<^item> \<open>Thermal\<close>: the controllers of the eleven chips and the life of the driver from probe to shutdown.

  \<^bold>\<open>The clocks\<close> (\<open>clk-pll.c\<close>, \<open>clk-half-divider.c\<close>, \<open>clk-cpu.c\<close> and the files of the chips in
  \<open>common/sdk_linux/drivers/clk/rockchip\<close>, and \<open>common/vendor/drivers/clk/clk-rk1808.c\<close>).
  \<^item> \<open>Pll_Rate\<close>: the settings that are looked up or computed for a rate, with how near they come, and that
    the search ends with the best one.
  \<^item> \<open>Pll\<close>: the three kinds of PLL on their registers, the boost module and the registration. The recursion
    of \<open>set_params\<close> on itself is the locale \<open>relock\<close>, interpreted for the three kinds.
  \<^item> \<open>Pll_Props\<close>: what is read back after a rate has been set.
  \<^item> \<open>Clk_Half\<close>: dividers by an odd number of halves. The search for a divider is the locale \<open>best_scan\<close>; it
    finds a best one, and a rate that rounding gives is read back after it is set.
  \<^item> \<open>Clk_Cpu\<close>: the clock of the cores and its notifier. Fields of registers with a write mask are the locale
    \<open>register_fields\<close>; a log of all states (\<open>logged\<close>) is what the bound after each single write is about.
    \<open>Clk_Chips\<close>: the descriptions and rates of fifteen core clocks, and the bound for all of them.

  \<^bold>\<open>The OMX components\<close> (\<open>rk3568/hardware/omx_il\<close>).
  \<^item> \<open>Omx_Queue\<close> (\<open>osal/Rockchip_OSAL_Queue.c\<close>): the ring of list elements on the heap, a bounded queue by
    the locale \<open>bounded_fifo\<close>.
  \<^item> \<open>Omx_Resource\<close> (\<open>component/common/Rockchip_OMX_Resourcemanager.c\<close>): who holds and who awaits a codec.
  \<^item> \<open>Omx_Component\<close> (\<open>Rockchip_OMX_Basecomponent.c\<close>, \<open>Rockchip_OMX_Baseport.c\<close>): commands, the thread that
    handles them, setting the state, enabling, disabling and flushing ports. \<open>Omx_State\<close> has the transitions
    and the invariant of the handles, \<open>Omx_Lifecycle\<close> a whole life of a component and how it can fail.

  \<^bold>\<open>The vendor storage\<close> (\<open>common/vendor/drivers/rockchip/sdmmc_vendor_storage.c\<close>, \<open>rk_vendor_storage.c\<close>).
  \<^item> \<open>Vendor_Format\<close>: the block of 64 KiB as a record and as bytes, sectors, and the search at the start.
  \<^item> \<open>Vendor_Storage\<close>: \<open>emmc_vendor_read\<close> and \<open>emmc_vendor_write\<close>.
  \<^item> \<open>Vendor_Layout\<close>, \<open>Vendor_Read\<close>, \<open>Vendor_Write\<close>: the invariant \<open>wf_vendor\<close>, the map \<open>stored\<close> that a
    block stands for, and that both operations are those of the map, where C defines the write: a \<open>memcpy\<close>
    of overlapping bytes (\<open>overlaps\<close>) and a 127th item are \<open>None\<close>.
  \<^item> \<open>Vendor_Card\<close>: what is found after the power was lost. \<open>Vendor_Store\<close>: the registered functions as a
    locale \<open>item_store\<close>. \<open>Vendor_Faults\<close>: where it goes wrong, and the examples.

  \<^bold>\<open>The power domains\<close> (\<open>common/vendor/drivers/rockchip/pm_domains.c\<close>).
  \<^item> \<open>Power_Info\<close>: the tables of all fifteen chips, and that they are consistent.
  \<^item> \<open>Power_Domain\<close>: idle requests, switching the power with clocks and supply, saving and restoring the
    registers of the bus masters. \<open>Power_Init\<close>: the functions for other drivers, adding domains and
    subdomains from the device tree, probing with its clean-up, and the release of what was kept on. The
    core keeps a list of its domains (\<open>genpd_list\<close>) and may refuse to remove one (\<open>pm_genpd_remove\<close>).
  \<^item> \<open>Power_Props\<close>, \<open>Power_Switch\<close>: what a switch leaves behind, with which error it ends on a unit that
    responds (\<open>power_error\<close>), and that the registers survive being off; \<open>Power_Sim\<close> is a unit that meets the hypotheses.
  \<^item> \<open>Power_Registry\<close>: the invariant \<open>pmu_ok\<close> of the registered domains over all sequences of operations
    (\<open>power_step\<close>), that they stay registered (\<open>keeps_domains\<close>), and what errors of adding a domain or of probing give back.

  \<^bold>\<open>The pins\<close> (\<open>common/sdk_linux/drivers/pinctrl/pinctrl-rockchip.c\<close>, \<open>pinctrl-rockchip.h\<close>).
  \<^item> \<open>Pin_Chips\<close>, \<open>Pin_Calc\<close>, \<open>Pin_Soc\<close>: the banks of the seventeen chips, the pins with an iomux or a route of
    their own, the thirty-three functions that find the register of a setting, and the controllers with the
    offsets \<open>rockchip_pinctrl_get_soc_data\<close> gives them. The numbers \<open>RK_PA0\<close> and so on are in a header of the device
    tree bindings that is not here; they are the parameter \<open>pno\<close>, and no theorem depends on them.
  \<^item> \<open>Pin_Ctrl\<close>, \<open>Pin_Conf\<close>, \<open>Pin_Probe\<close>: setting and reading the function and the settings of a pin, selecting the
    function of a group, the configuration, suspending, groups of the device tree, and probing. An operation
    is a function \<open>pin_op\<close> of the registers with an error or a value. Numbers of pins are not negative there.
  \<^item> \<open>Pin_Register\<close>: fields of registers whose upper half enables the writing of the lower one.
    \<open>Pin_Setting\<close>: where the field of each setting is. \<open>Pin_Readback\<close>, \<open>Pin_Drive\<close>: what is read after it
    was set. \<open>Pin_Apart\<close> gives each bit an address and shows that the fields of a chip are apart, \<open>Pin_Keep\<close> that
    setting one leaves the others. \<open>Pin_Group\<close>: banks, groups, and what selecting a function returns.

  \<^bold>\<open>GPIO\<close> (\<open>common/sdk_linux/drivers/gpio/gpio-rockchip.c\<close>).
  \<^item> \<open>Gpio_Regs\<close>: the registers of both versions and their accessors; both versions are a file of 32-bit
    registers, the locale \<open>register_file\<close>. \<open>Gpio_Sim\<close> is a bank that meets the hypotheses.
  \<^item> \<open>Gpio_Chip\<close>: level, direction and debouncing of pins. The specification of a pin is its direction and level
    after the last calls for it (\<open>pin_after\<close>).
  \<^item> \<open>Gpio_Irq\<close>: the chained handler, whose loop for interrupts on both edges need not end (\<open>toggle_loop\<close>), the types
    of interrupts (\<open>irq_typed\<close> is what one means for the registers), and suspending.
  \<^item> \<open>Gpio_Probe\<close>: the resources of a bank, the registrations, probing and removing, and what is not given back.
  \<^item> \<open>Gpio_Pins\<close>: an output configured by the pin controller on the chips of the GPIO driver.

  \<^bold>\<open>How C is modelled.\<close> Integers keep their width as words where they can overflow; registers, memory and
  the other side of an interface are a state of any type with the functions that act on it, in a record
  (\<open>mmu_port\<close>, \<open>tsadc_port\<close>, \<open>pll_port\<close>, \<open>osal_env\<close>, \<open>omx_env\<close>, \<open>emmc_port\<close>,
  \<open>power_port\<close>, \<open>pin_port\<close>, \<open>gpio_port\<close>, \<open>cru_port\<close>). Error numbers are the datatype
  \<open>errno\<close> in a sum, or the integers the code returns. \<open>None\<close> as the result of an operation stands for a
  fault (a null pointer, an access outside an array, a division by zero), for what C leaves undefined,
  \<open>panic\<close>, or not returning. Loops that
  need not end are \<open>partial_function (option)\<close>; that they end, or when, is a theorem of its own
  (\<open>toggle_loop_returns\<close>, \<open>rockchip_rk3066_pll_clk_set_by_auto_best\<close>, \<open>rockchip_rk3036_pll_set_params_alternates\<close>). No fuel is used;
  a polling loop has the number of its rounds as the source does.

  \<^bold>\<open>What is assumed\<close>, always as a named hypothesis with a device that meets it: registers read back what was
  written (\<open>reg_stable\<close>, \<open>reads_back\<close>, \<open>pll_law\<close>), a zap removes a line (\<open>zap_law\<close>) and the
  command for it all of them (\<open>flush_law\<close>), a device responds
  (\<open>responsive\<close>), reading the interrupt status (\<open>irq_law\<close>), an allocation gives fresh memory (\<open>malloc_ok\<close>), the
  functions of a codec and other threads leave other components alone (\<open>codec_law\<close>), objects of the
  operating system can be created (\<open>os_ok\<close>), or, for one life of a component, every call succeeds (\<open>willing\<close>), the card keeps its sectors (\<open>card_law\<close>), a
  power status stays as it was asked for (\<open>power_law\<close>) and comes in time (\<open>responds\<close>), the registers of a bus
  master keep what is written while the power is on (\<open>qos_law\<close>), and those of the pins keep the bits whose
  writing is enabled, or in places the whole word (\<open>pin_law\<close>, \<open>gpio_law\<close>, \<open>debounce_law\<close>, \<open>cru_law\<close>), handling an interrupt is logged (\<open>log_law\<close>), and
  the functions of the kernel count chips and clocks, of which enabling may fail (\<open>env_law\<close>). The side
  conditions of a theorem (rates, sizes, chips left out) are in the text before it.

  \<^bold>\<open>Not modelled.\<close> Code that prints (dumps, debugfs), the registration with the driver model, the binary
  codec libraries. Of the OMX components: parameters, constructors and destructors, the passing of
  buffers. Of the vendor storage: the character device, whose \<open>ioctl\<close> does not compile as it has two
  default labels, the retries of the thread that looks for the card, and the update of the loader, which
  is configured out. Of the pins: the maps made for the core of pin control. Of the clocks: the clock
  trees of the chips, which are tables, the clock of the DDR memory, and the RK3568 and RK3588. Third-party drivers (Wi-Fi, GPU, RTL8168) and the upstream kernel with hooks are not
  the program of this repository.
\<close>

end
